(* ===== verification/Prelude.thy ===== *)
theory Prelude
  imports Main "HOL-Library.Word" "HOL-Library.List_Lexorder" "HOL-Library.Char_ord"
    "HOL-Library.Product_Lexorder"
begin

text \<open>
  What every component of the development shares: the model of Go's \<open>error\<close> values, results
  of fallible functions, loops over slices that stop at the first error, and the lemmas that
  turn "this chain of checks returned nil" into the conjunction of the checks.

  A Go function returning \<open>(T, error)\<close> or \<open>error\<close> is a HOL function into \<open>err + T\<close> (\<open>unit\<close>
  for no value): \<open>Inl e\<close> is a non-nil error, \<open>Inr x\<close> the value with a nil error.  A nil pointer
  is \<open>None\<close>.  Guards \<open>if c { return err }\<close> are HOL conditionals in the order of the code and
  \<open>if err := f(); err != nil { return err }\<close> is \<open>bindR\<close>.
\<close>

section \<open>Errors\<close>

text \<open>
  The sentinel errors of the packages keep their Go names.  \<open>Msg\<close> is \<open>errors.New\<close> (or
  \<open>fmt.Errorf\<close> with no wrapped error), \<open>Wrap s e\<close> is \<open>fmt.Errorf("\<dots>%w\<dots>")\<close> with text \<open>s\<close> around
  \<open>e\<close>, \<open>Blame e c\<close> is \<open>fmt.Errorf("%w: %v", e, c)\<close>, which wraps \<open>e\<close> and only prints \<open>c\<close>,
  \<open>Join\<close> is \<open>errors.Join\<close>, \<open>CanceledOp\<close> the store's \<open>canceledOperation\<close>, and
  \<open>DriverErr\<close> an error of the SQLite driver with its result code.  \<open>RpcStatus\<close> is \<open>status.Error\<close> of
  gRPC with its code and text; the text may be that of another error, which it does not wrap.
\<close>

datatype grpc_code =
    Canceled | InvalidArgument | DeadlineExceeded | NotFound | AlreadyExists | PermissionDenied
  | ResourceExhausted | FailedPrecondition | Aborted | Unimplemented | Unavailable

datatype err =
    Msg string
  | Wrap string err
  | Blame err err
  | Join "err list"
  | CanceledOp err
  | CtxCanceled
  | CtxDeadlineExceeded
  | DriverErr int
  | RpcStatus grpc_code err
  | ErrIdentityConflict
  | ErrCommandNotFound
  | ErrCommandConflict
  | ErrCommandCapacity
  | ErrLifecycleUnresolved
  | ErrNamedAgentAmbiguous
  | ErrNamedAgentExists
  | ErrProjectNotFound
  | ErrProjectConflict
  | ErrProjectCapacity
  | ErrInvalidName

text \<open>\<open>errors.Is\<close>: the target itself, or anything the error wraps (and \<open>Join\<close> wraps each part).\<close>

fun errors_is :: "err \<Rightarrow> err \<Rightarrow> bool" where
  "errors_is (Wrap s e) t = (Wrap s e = t \<or> errors_is e t)"
| "errors_is (Blame e c) t = (Blame e c = t \<or> errors_is e t)"
| "errors_is (CanceledOp e) t = (CanceledOp e = t \<or> errors_is e t)"
| "errors_is (Join es) t = (Join es = t \<or> (\<exists>e \<in> set es. errors_is e t))"
| "errors_is e t = (e = t)"

section \<open>Results\<close>

type_synonym 'a res = "err + 'a"

named_theorems res_simps "equations that decide when a chain of checks succeeds"

definition bindR :: "'a res \<Rightarrow> ('a \<Rightarrow> 'b res) \<Rightarrow> 'b res" where
  "bindR m f = (case m of Inl e \<Rightarrow> Inl e | Inr x \<Rightarrow> f x)"

lemma bindR_simps [simp]:
  "bindR (Inl e) f = Inl e"
  "bindR (Inr x) f = f x"
  by (simp_all add: bindR_def)

lemma bindR_eq_Inr [res_simps]: "bindR m f = Inr y \<longleftrightarrow> (\<exists>x. m = Inr x \<and> f x = Inr y)"
  by (cases m) auto

lemma bindR_eq_Inl [res_simps]: "bindR m f = Inl e \<longleftrightarrow> m = Inl e \<or> (\<exists>x. m = Inr x \<and> f x = Inl e)"
  by (cases m) auto

lemma bindR_assoc: "bindR (bindR m f) g = bindR m (\<lambda>x. bindR (f x) g)"
  by (cases m) auto

lemma bindR_cong [cong]: "m = m' \<Longrightarrow> bindR m f = bindR m' f"
  by simp

lemma if_Inl_eq_Inr [res_simps]: "(if c then Inl e else r) = Inr y \<longleftrightarrow> \<not> c \<and> r = Inr y"
  by simp

lemma if_Inr_eq_Inr [res_simps]:
  "(if c then Inr x else Inl e) = Inr y \<longleftrightarrow> c \<and> x = y"
  by simp

lemma unit_res_cases: "(r :: unit res) = Inr () \<or> (\<exists>e. r = Inl e)"
  by (cases r) auto

text \<open>\<open>err == nil\<close> as an executable test, for the places where the code drops the error's text.\<close>

fun is_ok :: "'a res \<Rightarrow> bool" where
  "is_ok (Inl e) = False"
| "is_ok (Inr x) = True"

lemma is_ok_unit [res_simps]: "is_ok (r :: unit res) \<longleftrightarrow> r = Inr ()"
  by (cases r) auto

lemma is_ok_iff: "is_ok r \<longleftrightarrow> (\<exists>x. r = Inr x)"
  by (cases r) auto

lemma is_ok_if [simp]: "is_ok (if c then Inl e else r) \<longleftrightarrow> \<not> c \<and> is_ok r"
  by simp

section \<open>Loops over slices\<close>

text \<open>\<open>for _, x := range xs { if err := f(x); err != nil { return err } }; return nil\<close>\<close>

fun each :: "('a \<Rightarrow> unit res) \<Rightarrow> 'a list \<Rightarrow> unit res" where
  "each f [] = Inr ()"
| "each f (x # xs) = bindR (f x) (\<lambda>_. each f xs)"

lemma each_eq_Inr [res_simps]: "each f xs = Inr () \<longleftrightarrow> (\<forall>x \<in> set xs. f x = Inr ())"
  by (induction xs) (auto simp: res_simps)

text \<open>The same loop appending to a slice.\<close>

fun collect :: "('a \<Rightarrow> 'b res) \<Rightarrow> 'a list \<Rightarrow> 'b list res" where
  "collect f [] = Inr []"
| "collect f (x # xs) = bindR (f x) (\<lambda>y. bindR (collect f xs) (\<lambda>ys. Inr (y # ys)))"

lemma collect_eq_Inr: "collect f xs = Inr ys \<longleftrightarrow> list_all2 (\<lambda>x y. f x = Inr y) xs ys"
  by (induction xs arbitrary: ys) (auto simp: res_simps list_all2_Cons1)

lemma collect_map: "(\<And>x. x \<in> set xs \<Longrightarrow> f x = Inr (g x)) \<Longrightarrow> collect f xs = Inr (map g xs)"
  by (induction xs) auto

lemma collect_set:
  assumes "collect f xs = Inr ys" and "y \<in> set ys"
  shows "\<exists>x \<in> set xs. f x = Inr y"
  using assms by (induction xs arbitrary: ys) (auto simp: res_simps)

lemma collect_mem:
  assumes "collect f xs = Inr ys" and "x \<in> set xs"
  shows "\<exists>y \<in> set ys. f x = Inr y"
  using assms by (induction xs arbitrary: ys) (fastforce simp: res_simps)+

lemma collect_length: "collect f xs = Inr ys \<Longrightarrow> length ys = length xs"
  by (simp add: collect_eq_Inr list_all2_lengthD)

lemma collect_filter_id:
  "(\<And>x. x \<in> set xs \<Longrightarrow> f x = Inr x) \<Longrightarrow> collect f xs = Inr xs"
  using collect_map [of xs f id] by simp

section \<open>Nil pointers\<close>

text \<open>A check on a message behind a pointer that holds vacuously when the pointer is nil.\<close>

definition opt_all :: "('a \<Rightarrow> bool) \<Rightarrow> 'a option \<Rightarrow> bool" where
  "opt_all p v = (case v of None \<Rightarrow> True | Some x \<Rightarrow> p x)"

definition opt_ex :: "('a \<Rightarrow> bool) \<Rightarrow> 'a option \<Rightarrow> bool" where
  "opt_ex p v = (case v of None \<Rightarrow> False | Some x \<Rightarrow> p x)"

lemma opt_simps [simp]:
  "opt_all p None" "opt_all p (Some x) = p x" "\<not> opt_ex p None" "opt_ex p (Some x) = p x"
  by (simp_all add: opt_all_def opt_ex_def)

text \<open>
  A getter of a generated message (\<open>m.GetField()\<close>) reads the zero value through a nil pointer.
\<close>

definition getter :: "('a \<Rightarrow> string) \<Rightarrow> 'a option \<Rightarrow> string" where
  "getter f v = (case v of None \<Rightarrow> '''' | Some x \<Rightarrow> f x)"

lemma getter_simps [simp]: "getter f None = ''''" "getter f (Some x) = f x"
  by (simp_all add: getter_def)

section \<open>Prefixes of lists\<close>

definition list_prefix :: "'a list \<Rightarrow> 'a list \<Rightarrow> bool" where
  "list_prefix xs ys = (take (length xs) ys = xs)"

lemma list_prefix_refl [simp]: "list_prefix xs xs"
  by (simp add: list_prefix_def)

lemma list_prefix_append [simp]: "list_prefix xs (xs @ ys)"
  by (simp add: list_prefix_def)

lemma list_prefix_iff: "list_prefix xs ys \<longleftrightarrow> (\<exists>zs. ys = xs @ zs)"
  unfolding list_prefix_def by (metis append_eq_conv_conj append_take_drop_id)

lemma list_prefix_trans: "list_prefix xs ys \<Longrightarrow> list_prefix ys zs \<Longrightarrow> list_prefix xs zs"
  by (auto simp: list_prefix_iff)

lemma list_prefix_antisym: "list_prefix xs ys \<Longrightarrow> list_prefix ys xs \<Longrightarrow> xs = ys"
  by (auto simp: list_prefix_iff)

lemma list_prefix_length: "list_prefix xs ys \<Longrightarrow> length xs \<le> length ys"
  by (auto simp: list_prefix_iff)

end
