(* ===== verification/Tables.thy ===== *)
theory Tables
  imports Prelude
begin

text \<open>
  The SQL tables of the state package and the statements it runs on them.  A table is the list of
  its rows with their primary keys, kept in key order, since every query of the package ends in
  \<open>ORDER BY\<close> the primary key.  \<open>keyed_table\<close> is the interface the components use: what a lookup
  returns after a statement, and the client lemmas about invariants of all rows; it is interpreted
  on the row lists for every key type.
\<close>

section \<open>Tables as ordered row lists\<close>

type_synonym ('k, 'r) table = "('k \<times> 'r) list"

definition tget :: "('k, 'r) table \<Rightarrow> 'k \<Rightarrow> 'r option" where
  "tget t k = map_of t k"

text \<open>\<open>INSERT \<dots> ON CONFLICT DO UPDATE\<close>: replace the row of the key or add it in key order.\<close>

fun tput :: "'k::linorder \<Rightarrow> 'r \<Rightarrow> ('k, 'r) table \<Rightarrow> ('k, 'r) table" where
  "tput k r [] = [(k, r)]"
| "tput k r (e # t) =
     (if fst e < k then e # tput k r t else if fst e = k then (k, r) # t else (k, r) # e # t)"

text \<open>\<open>DELETE \<dots> WHERE key = ?\<close>\<close>

definition tdel :: "'k \<Rightarrow> ('k, 'r) table \<Rightarrow> ('k, 'r) table" where
  "tdel k t = filter (\<lambda>e. fst e \<noteq> k) t"

text \<open>\<open>SELECT \<dots> WHERE p ORDER BY key\<close>\<close>

definition tselect :: "('k \<Rightarrow> 'r \<Rightarrow> bool) \<Rightarrow> ('k, 'r) table \<Rightarrow> ('k \<times> 'r) list" where
  "tselect p t = filter (\<lambda>(k, r). p k r) t"

definition table_ok :: "('k::linorder, 'r) table \<Rightarrow> bool" where
  "table_ok t = sorted_wrt (<) (map fst t)"

lemma table_ok_Nil [simp]: "table_ok []"
  by (simp add: table_ok_def)

lemma table_ok_Cons: "table_ok (e # t) \<longleftrightarrow> (\<forall>f \<in> set t. fst e < fst f) \<and> table_ok t"
  by (simp add: table_ok_def)

lemma table_ok_distinct: "table_ok t \<Longrightarrow> distinct (map fst t)"
  unfolding table_ok_def by (metis strict_sorted_iff)

lemma set_tput: "set (tput k r t) \<subseteq> insert (k, r) (set t)"
  by (induction t) auto

lemma table_ok_tput: "table_ok t \<Longrightarrow> table_ok (tput k r t)"
proof (induction t)
  case Nil
  show ?case by (simp add: table_ok_def)
next
  case (Cons e t)
  from Cons.prems have e: "\<forall>f \<in> set t. fst e < fst f" and t: "table_ok t"
    by (simp_all add: table_ok_Cons)
  from Cons.IH [OF t] e t show ?case
    using set_tput [of k r t] by (fastforce simp: table_ok_Cons)
qed

lemma tget_tput: "tget (tput k r t) j = (if j = k then Some r else tget t j)"
  by (induction t) (auto simp: tget_def)

lemma tget_tdel: "tget (tdel k t) j = (if j = k then None else tget t j)"
  by (induction t) (auto simp: tget_def tdel_def)

lemma table_ok_tdel: "table_ok t \<Longrightarrow> table_ok (tdel k t)"
  by (induction t) (auto simp: table_ok_Cons tdel_def)

lemma tget_mem: "table_ok t \<Longrightarrow> (k, r) \<in> set t \<longleftrightarrow> tget t k = Some r"
  unfolding tget_def by (rule map_of_eq_Some_iff [OF table_ok_distinct, symmetric])

lemma tget_Some_mem: "tget t k = Some r \<Longrightarrow> (k, r) \<in> set t"
  by (simp add: tget_def map_of_SomeD)

lemma length_tput:
  "table_ok t \<Longrightarrow> length (tput k r t) = (if tget t k = None then Suc (length t) else length t)"
proof (induction t)
  case Nil
  then show ?case by (simp add: tget_def)
next
  case (Cons e t)
  then show ?case
    by (cases e) (auto simp: table_ok_Cons tget_def map_of_eq_None_iff)
qed

lemma length_tdel_le: "length (tdel k t) \<le> length t"
  by (simp add: tdel_def)

lemma tselect_mem: "(k, r) \<in> set (tselect p t) \<longleftrightarrow> (k, r) \<in> set t \<and> p k r"
  by (auto simp: tselect_def)

lemma tselect_key:
  assumes "table_ok t"
  shows "tselect (\<lambda>j r. j = k \<and> p r) t =
    (case tget t k of None \<Rightarrow> [] | Some r \<Rightarrow> if p r then [(k, r)] else [])"
  using assms
proof (induction t)
  case Nil
  then show ?case by (simp add: tselect_def tget_def)
next
  case (Cons e t)
  obtain j s where e: "e = (j, s)" by (cases e)
  from Cons.prems have lt: "\<forall>f \<in> set t. j < fst f" and t: "table_ok t"
    by (simp_all add: table_ok_Cons e)
  show ?case
  proof (cases "j = k")
    case True
    from lt True have "tget t k = None"
      by (fastforce simp: tget_def map_of_eq_None_iff)
    with Cons.IH [OF t] True show ?thesis
      by (simp add: tselect_def tget_def e)
  next
    case False
    with Cons.IH [OF t] show ?thesis
      by (simp add: tselect_def tget_def e)
  qed
qed

section \<open>The interface of a keyed table\<close>

locale keyed_table =
  fixes get :: "'t \<Rightarrow> 'k \<Rightarrow> 'r option"
    and put :: "'k \<Rightarrow> 'r \<Rightarrow> 't \<Rightarrow> 't"
    and del :: "'k \<Rightarrow> 't \<Rightarrow> 't"
    and size_of :: "'t \<Rightarrow> nat"
    and ok :: "'t \<Rightarrow> bool"
  assumes get_put: "get (put k r t) j = (if j = k then Some r else get t j)"
    and get_del: "get (del k t) j = (if j = k then None else get t j)"
    and ok_put: "ok t \<Longrightarrow> ok (put k r t)"
    and ok_del: "ok t \<Longrightarrow> ok (del k t)"
    and size_put: "ok t \<Longrightarrow> size_of (put k r t) = (if get t k = None then Suc (size_of t) else size_of t)"
    and size_del: "size_of (del k t) \<le> size_of t"
begin

lemma get_put_same: "get (put k r t) k = Some r"
  by (simp add: get_put)

lemma get_put_other: "j \<noteq> k \<Longrightarrow> get (put k r t) j = get t j"
  by (simp add: get_put)

lemma rows_put:
  assumes "\<forall>j s. get t j = Some s \<longrightarrow> P j s" and "P k r"
  shows "\<forall>j s. get (put k r t) j = Some s \<longrightarrow> P j s"
  using assms by (auto simp: get_put)

lemma rows_del:
  assumes "\<forall>j s. get t j = Some s \<longrightarrow> P j s"
  shows "\<forall>j s. get (del k t) j = Some s \<longrightarrow> P j s"
  using assms by (auto simp: get_del)

lemma keeps_put: "get t j = Some s \<Longrightarrow> \<exists>s'. get (put k r t) j = Some s'"
  by (auto simp: get_put)

lemma bound_update: "ok t \<Longrightarrow> get t k \<noteq> None \<Longrightarrow> size_of t \<le> n \<Longrightarrow> size_of (put k r t) \<le> n"
  by (auto simp: size_put)

lemma bound_insert: "ok t \<Longrightarrow> size_of t < n \<Longrightarrow> size_of (put k r t) \<le> n"
  by (simp add: size_put)

end

interpretation tbl: keyed_table tget tput tdel length table_ok
  by unfold_locales
    (simp_all add: tget_tput tget_tdel table_ok_tput table_ok_tdel length_tput length_tdel_le)

end
