(* ===== verification/Transactions.thy ===== *)
theory Transactions
  imports Tables
begin

text \<open>
  store.go of the state package: entering the store, running a function inside one SQLite
  transaction, and the classification of cancellations that are safe to retry.

  A transaction body is a function from the data to an error or a value and new data: what it wrote
  before an error is discarded by the rollback, so the error branch carries no data.  What the
  caller's context and the driver do around the body is the record \<open>tx_env\<close>, an argument of every
  operation: the context errors at the three points where the code reads them, a failing
  \<open>BeginTx\<close>, a statement of the body that fails for a reason outside the data (\<open>te_fault\<close>), a
  failing \<open>Rollback\<close>, and a failing \<open>Commit\<close> together with whether it reached the disk.  SQLite's
  documented behaviour, that uncommitted statements are not durable, is built into the model.
\<close>

section \<open>Bodies\<close>

type_synonym ('d, 'a) body = "'d \<Rightarrow> ('a \<times> 'd) res"

section \<open>The environment of one operation\<close>

record tx_env =
  te_gate_done :: "err option"
  te_ctx_enter :: "err option"
  te_closed :: bool
  te_ctx_start :: "err option"
  te_begin :: "err option"
  te_fault :: "err option"
  te_ctx_commit :: "err option"
  te_ctx_end :: "err option"
  te_rollback :: "err option"
  te_commit :: "err option"
  te_commit_applied :: bool

text \<open>\<open>enter\<close>: the caller may give up while it waits, or its context may already be done.\<close>

definition enter :: "tx_env \<Rightarrow> unit res" where
  "enter E = (case te_gate_done E of
     Some e \<Rightarrow> Inl (CanceledOp e)
   | None \<Rightarrow> (case te_ctx_enter E of
       Some e \<Rightarrow> Inl (CanceledOp e)
     | None \<Rightarrow> if te_closed E then Inl (Msg ''state store is closed'') else Inr ()))"

section \<open>Cancellation\<close>

text \<open>\<open>sqlite3.SQLITE\_INTERRUPT\<close> is 9; only \<open>errors.Join\<close> has an \<open>Unwrap() []error\<close>.\<close>

fun cancellationOf :: "err \<Rightarrow> err \<Rightarrow> bool" where
  "cancellationOf (DriverErr code) cause = (DriverErr code = cause \<or> code = 9)"
| "cancellationOf (Join es) cause =
     (Join es = cause \<or> es \<noteq> [] \<and> (\<forall>e \<in> set es. cancellationOf e cause))"
| "cancellationOf e cause = (e = cause)"

definition transactionCancellation :: "err option \<Rightarrow> err option \<Rightarrow> bool" where
  "transactionCancellation err cause = (case (err, cause) of
     (Some e, Some c) \<Rightarrow> cancellationOf e c
   | _ \<Rightarrow> False)"

definition RetryableCancellation :: "err \<Rightarrow> bool" where
  "RetryableCancellation e = (case e of CanceledOp c \<Rightarrow> True | _ \<Rightarrow> False)"

section \<open>Transactions\<close>

text \<open>
  The deferred rollback after an error \<open>e\<close> of the body or of the last look at the context.  After
  \<open>Commit\<close> the rollback reports \<open>sql.ErrTxDone\<close>, which the code ignores.
\<close>

definition rolledBack :: "tx_env \<Rightarrow> err \<Rightarrow> err" where
  "rolledBack E e = (case te_rollback E of
     Some r \<Rightarrow> Join [e, r]
   | None \<Rightarrow> (case te_ctx_end E of
       None \<Rightarrow> e
     | Some c \<Rightarrow> if transactionCancellation (Some e) (Some c) then CanceledOp c else e))"

definition runBody :: "tx_env \<Rightarrow> ('d, 'a) body \<Rightarrow> 'd \<Rightarrow> ('a \<times> 'd) res" where
  "runBody E fn d = (case te_fault E of Some e \<Rightarrow> Inl e | None \<Rightarrow> fn d)"

definition transaction :: "tx_env \<Rightarrow> ('d, 'a) body \<Rightarrow> 'd \<Rightarrow> 'a res \<times> 'd" where
  "transaction E fn d = (case te_ctx_start E of
     Some e \<Rightarrow> (Inl (CanceledOp e), d)
   | None \<Rightarrow> (case te_begin E of
       Some e \<Rightarrow> (Inl e, d)
     | None \<Rightarrow> (case runBody E fn d of
         Inl e \<Rightarrow> (Inl (rolledBack E e), d)
       | Inr (x, d') \<Rightarrow> (case te_ctx_commit E of
           Some e \<Rightarrow> (Inl (rolledBack E e), d)
         | None \<Rightarrow> (case te_commit E of
             Some e \<Rightarrow> (Inl e, if te_commit_applied E then d' else d)
           | None \<Rightarrow> (Inr x, d'))))))"

text \<open>An exported operation: enter the store, check the arguments, run one transaction.\<close>

definition operation :: "tx_env \<Rightarrow> unit res \<Rightarrow> ('d, 'a) body \<Rightarrow> 'd \<Rightarrow> 'a res \<times> 'd" where
  "operation E pre fn d = (case bindR (enter E) (\<lambda>_. pre) of
     Inl e \<Rightarrow> (Inl e, d)
   | Inr u \<Rightarrow> transaction E fn d)"

section \<open>What a transaction guarantees\<close>

text \<open>Whatever the environment does, the durable data is the old one or what the body committed.\<close>

lemma transaction_durable:
  assumes "transaction E fn d = (r, d')"
  shows "d' = d \<or> (\<exists>x. fn d = Inr (x, d'))"
  using assms unfolding transaction_def runBody_def
  by (auto split: option.splits sum.splits if_splits)

lemma operation_durable:
  assumes "operation E pre fn d = (r, d')"
  shows "d' = d \<or> (pre = Inr () \<and> (\<exists>x. fn d = Inr (x, d')))"
  using assms transaction_durable [of E fn d r d'] unfolding operation_def
  by (cases pre) (auto simp: bindR_eq_Inr split: sum.splits)

lemma transaction_Inr:
  "transaction E fn d = (Inr x, d') \<longleftrightarrow>
     te_ctx_start E = None \<and> te_begin E = None \<and> te_fault E = None \<and> te_ctx_commit E = None \<and>
     te_commit E = None \<and> fn d = Inr (x, d')"
  unfolding transaction_def runBody_def
  by (auto split: option.splits sum.splits)

lemma operation_Inr:
  assumes "operation E pre fn d = (Inr x, d')"
  shows "pre = Inr ()" and "fn d = Inr (x, d')"
  using assms unfolding operation_def
  by (auto simp: transaction_Inr bindR_eq_Inr split: sum.splits)

text \<open>An environment in which nothing interferes.\<close>

definition calm :: tx_env where
  "calm = \<lparr>te_gate_done = None, te_ctx_enter = None, te_closed = False, te_ctx_start = None,
     te_begin = None, te_fault = None, te_ctx_commit = None, te_ctx_end = None, te_rollback = None,
     te_commit = None, te_commit_applied = False\<rparr>"

lemma calm_transaction:
  "transaction calm fn d = (case fn d of Inl e \<Rightarrow> (Inl e, d) | Inr (x, d') \<Rightarrow> (Inr x, d'))"
  by (auto simp: transaction_def runBody_def rolledBack_def calm_def split: sum.splits)

lemma calm_operation:
  "operation calm pre fn d = (case pre of Inl e \<Rightarrow> (Inl e, d)
     | Inr u \<Rightarrow> (case fn d of Inl e \<Rightarrow> (Inl e, d) | Inr (x, d') \<Rightarrow> (Inr x, d')))"
  by (auto simp: operation_def enter_def calm_transaction bindR_def split: sum.splits)
    (simp_all add: calm_def)

text \<open>
  A cancellation marked retryable proves that nothing was committed: an operation that returns
  one leaves the durable data unchanged, and the rollback of any transaction it began succeeded.
  (Bodies and the driver never build the marker themselves; only the store does.)
\<close>

theorem retryable_means_unchanged:
  assumes "operation E pre fn d = (Inl e, d')" and "RetryableCancellation e"
    and "\<And>x. fn d = Inl x \<Longrightarrow> \<not> RetryableCancellation x"
    and "\<And>x. Some x \<in> {te_begin E, te_fault E, te_commit E, te_ctx_commit E} \<Longrightarrow> \<not> RetryableCancellation x"
    and "\<And>x. pre = Inl x \<Longrightarrow> \<not> RetryableCancellation x"
  shows "d' = d \<and> (te_gate_done E = None \<longrightarrow> te_ctx_enter E = None \<longrightarrow> te_ctx_start E = None \<longrightarrow>
    te_rollback E = None \<and> (\<exists>c. te_ctx_end E = Some c \<and> e = CanceledOp c))"
proof (cases "bindR (enter E) (\<lambda>_. pre)")
  case (Inl x)
  then have "e = x" "d' = d" using assms(1) by (auto simp: operation_def)
  then show ?thesis using Inl assms(2,5)
    by (auto simp: bindR_eq_Inl enter_def RetryableCancellation_def [of "Msg _"]
        split: option.splits if_splits)
next
  case (Inr u)
  then have t: "transaction E fn d = (Inl e, d')" using assms(1) by (simp add: operation_def)
  have rb: "te_rollback E = None \<and> (\<exists>c. te_ctx_end E = Some c \<and> e = CanceledOp c)"
    if "e = rolledBack E x" and "\<not> RetryableCancellation x" for x
    using assms(2) that
    by (auto simp: rolledBack_def RetryableCancellation_def [of "Join _"] split: option.splits if_splits)
  show ?thesis
  proof (cases "te_ctx_start E")
    case (Some c)
    then show ?thesis using t by (simp add: transaction_def)
  next
    case None
    have b: "te_begin E = None" using t None assms(2,4) by (auto simp: transaction_def split: option.splits)
    show ?thesis
    proof (cases "runBody E fn d")
      case (Inl x)
      then have "\<not> RetryableCancellation x"
        using assms(3,4) by (auto simp: runBody_def split: option.splits)
      then show ?thesis using rb [of x] t None b Inl by (simp add: transaction_def)
    next
      case (Inr y)
      obtain v w where y: "y = (v, w)" by (cases y)
      show ?thesis
      proof (cases "te_ctx_commit E")
        case (Some x)
        then have "\<not> RetryableCancellation x" using assms(4) by simp
        then show ?thesis using rb [of x] t None b Inr y Some by (simp add: transaction_def)
      next
        case None': None
        then show ?thesis using t None b Inr y assms(2,4)
          by (auto simp: transaction_def split: option.splits)
      qed
    qed
  qed
qed

definition interrupted :: tx_env where
  "interrupted = calm\<lparr>te_fault := Some (Join [DriverErr 9, CtxCanceled]), te_ctx_end := Some CtxCanceled\<rparr>"

lemma retryable_means_unchanged_witness:
  "operation interrupted (Inr ()) (\<lambda>n. Inr ((), n + 1)) (5 :: nat) = (Inl (CanceledOp CtxCanceled), 5)"
proof -
  obtain r d' where o: "operation interrupted (Inr ()) (\<lambda>n. Inr ((), n + 1)) (5 :: nat) = (r, d')"
    by (cases "operation interrupted (Inr ()) (\<lambda>n. Inr ((), n + 1)) (5 :: nat)")
  have r: "r = Inl (CanceledOp CtxCanceled)"
    using o by (simp add: operation_def transaction_def runBody_def rolledBack_def enter_def
        transactionCancellation_def interrupted_def calm_def)
  have f: "\<not> RetryableCancellation x"
    if "Some x \<in> {te_begin interrupted, te_fault interrupted, te_commit interrupted, te_ctx_commit interrupted}" for x
    using that by (simp add: interrupted_def calm_def RetryableCancellation_def)
  have e: "operation interrupted (Inr ()) (\<lambda>n. Inr ((), n + 1)) (5 :: nat) =
      (Inl (CanceledOp CtxCanceled), d')"
    using o r by simp
  have "d' = 5"
    using retryable_means_unchanged [OF e _ _ f] by (simp add: RetryableCancellation_def)
  with o r show ?thesis by simp
qed

end
