(* ===== verification/Messages.thy ===== *)
theory Messages
  imports Prelude
begin

text \<open>
  The protobuf messages of control.proto, one record per generated struct: a field of message
  type is an option (a nil pointer is \<open>None\<close>), a repeated field a list, a proto3 enum a datatype
  with a constructor for the numbers the schema does not name, a \<open>uint32\<close> or \<open>uint64\<close> a word.
  The last field of every record holds the bytes of fields the schema does not know
  (\<open>ProtoReflect().GetUnknown()\<close>), which the validators insist is empty; \<open>unknownFields\<close> of the
  state package is the recursive test, one function per message here.  \<open>proto.Clone\<close> is the
  identity and \<open>proto.Equal\<close> equality on these values.

  What the code takes from the protobuf runtime itself (encoded sizes, timestamps and durations)
  is the record \<open>pb\<close>, a parameter of the definitions that use it, with the documented behaviour
  the proofs rely on as the hypothesis \<open>pb_ok\<close>.
\<close>

section \<open>Well-known types\<close>

record timestamp =
  ts_seconds :: int
  ts_nanos :: int
  ts_unk :: string

record duration =
  du_seconds :: int
  du_nanos :: int
  du_unk :: string

text \<open>\<open>google.protobuf.Struct\<close>, never inspected: only its presence and its unknown bytes matter.\<close>

record gstruct =
  gs_fields :: string
  gs_unk :: string

section \<open>Enumerations\<close>

datatype role = ROLE_UNSPECIFIED | ROLE_NODE | ROLE_CONTROLLER | ROLE_OBSERVER | ROLE_other int

datatype command_status = UNSPECIFIED | ACCEPTED | RUNNING | SUCCEEDED | FAILED | TIMED_OUT
  | REJECTED | INDETERMINATE | NODE_UNAVAILABLE | STATUS_other int

datatype actor_origin = ORIGIN_UNSPECIFIED | ORIGIN_HUMAN | ORIGIN_AGENT | ORIGIN_SYSTEM
  | ORIGIN_other int

datatype query_kind = QUERY_UNSPECIFIED | QUERY_GET | QUERY_READ | QUERY_WAIT | QUERY_other int

datatype control_action = ACTION_UNSPECIFIED | ACTION_PROMPT | ACTION_INPUT | ACTION_INTERRUPT
  | ACTION_other int

section \<open>Negotiation\<close>

record protocol_range =
  pr_minimum :: "32 word"
  pr_maximum :: "32 word"
  pr_unk :: string

record hello =
  he_protocol :: "protocol_range option"
  he_version :: string
  he_instance :: string
  he_role :: role
  he_capabilities :: "string list"
  he_epoch :: string
  he_cursor :: "64 word"
  he_hostname :: string
  he_unk :: string

section \<open>Agents and sessions\<close>

record agent_target =
  at_pane :: string
  at_terminal :: string
  at_agent_session :: string
  at_session :: string
  at_incarnation :: string
  at_unk :: string

record agent_view =
  av_target :: "agent_target option"
  av_workspace :: string
  av_tab :: string
  av_provider :: string
  av_status :: string
  av_interactive :: bool
  av_pending :: bool
  av_revision :: "64 word"
  av_change_seq :: "64 word"
  av_display_name :: string
  av_directory :: string
  av_unk :: string

record agent_query_request =
  qr_node :: string
  qr_kind :: query_kind
  qr_target :: "agent_target option"
  qr_lines :: "32 word"
  qr_until :: "string list"
  qr_timeout :: "32 word"
  qr_unk :: string

record agent_query =
  aq_id :: string
  aq_request :: "agent_query_request option"
  aq_expires :: "timestamp option"
  aq_unk :: string

record agent_query_result =
  qs_id :: string
  qs_agent :: "agent_view option"
  qs_text :: string
  qs_truncated :: bool
  qs_error :: string
  qs_unk :: string

record agent_control =
  ag_action :: control_action
  ag_target :: "agent_target option"
  ag_text :: string
  ag_keys :: "string list"
  ag_unk :: string

record agent_control_result =
  acr_target :: "agent_target option"
  acr_observed :: string
  acr_change_seq :: "64 word"
  acr_unk :: string

record herdr_entity =
  en_id :: string
  en_workspace :: string
  en_tab :: string
  en_agent_status :: string
  en_focused :: bool
  en_provider :: string
  en_interactive :: "bool option"
  en_terminal :: string
  en_provider_session :: string
  en_project :: string
  en_display_name :: string
  en_directory :: string
  en_unk :: string

record herdr_state =
  hs_status :: string
  hs_version :: string
  hs_protocol :: "32 word"
  hs_sequence :: "64 word"
  hs_observed :: "timestamp option"
  hs_error :: string
  hs_workspaces :: "herdr_entity list"
  hs_tabs :: "herdr_entity list"
  hs_panes :: "herdr_entity list"
  hs_agents :: "herdr_entity list"
  hs_unk :: string

record session_ensure =
  se_name :: string
  se_unk :: string

record session_view =
  sv_name :: string
  sv_incarnation :: string
  sv_status :: string
  sv_error :: string
  sv_herdr :: "herdr_state option"
  sv_received :: "timestamp option"
  sv_stale :: bool
  sv_unk :: string

section \<open>Workspaces and worktrees\<close>

record workspace_ensure =
  we_project :: string
  we_revision :: string
  we_session :: string
  we_incarnation :: string
  we_unk :: string

record workspace_ensure_result =
  wer_project :: string
  wer_revision :: string
  wer_workspace :: string
  wer_created :: bool
  wer_session :: string
  wer_incarnation :: string
  wer_unk :: string

record worktree_create =
  wc_project :: string
  wc_revision :: string
  wc_name :: string
  wc_branch :: string
  wc_base :: string
  wc_session :: string
  wc_incarnation :: string
  wc_unk :: string

record worktree_create_result =
  wcr_project :: string
  wcr_revision :: string
  wcr_workspace :: string
  wcr_name :: string
  wcr_branch :: string
  wcr_base :: string
  wcr_session :: string
  wcr_incarnation :: string
  wcr_unk :: string

section \<open>Agent lifecycle\<close>

record agent_start =
  as_project :: string
  as_revision :: string
  as_workspace :: string
  as_name :: string
  as_provider :: string
  as_session :: string
  as_incarnation :: string
  as_timeout :: "32 word"
  as_prompt :: string
  as_unk :: string

record agent_stop =
  st_target :: "agent_target option"
  st_workspace :: string
  st_tab :: string
  st_provider :: string
  st_unk :: string

record lifecycle_handle =
  lh_target :: "agent_target option"
  lh_workspace :: string
  lh_tab :: string
  lh_provider :: string
  lh_unk :: string

record lifecycle_stage =
  ls_stage :: string
  ls_before :: bool
  ls_outcome :: string
  ls_unk :: string

record receipt =
  lr_handle :: "lifecycle_handle option"
  lr_pane :: string
  lr_launch :: string
  lr_prompt :: string
  lr_stop :: string
  lr_observed :: string
  lr_sequence :: "32 word"
  lr_stages :: "lifecycle_stage list"
  lr_unk :: string

section \<open>Commands\<close>

record actor =
  ac_id :: string
  ac_role :: role
  ac_origin :: actor_origin
  ac_hops :: "32 word"
  ac_unk :: string

record submit_request =
  sr_node :: string
  sr_key :: string
  sr_type :: string
  sr_ttl :: "duration option"
  sr_workspace :: "workspace_ensure option"
  sr_worktree :: "worktree_create option"
  sr_control :: "agent_control option"
  sr_session :: "session_ensure option"
  sr_start :: "agent_start option"
  sr_stop :: "agent_stop option"
  sr_unk :: string

record command =
  c_id :: string
  c_key :: string
  c_type :: string
  c_target :: string
  c_actor :: "actor option"
  c_ttl :: "duration option"
  c_preconditions :: "gstruct option"
  c_payload :: "gstruct option"
  c_expires :: "timestamp option"
  c_workspace :: "workspace_ensure option"
  c_worktree :: "worktree_create option"
  c_control :: "agent_control option"
  c_submitted :: "submit_request option"
  c_session :: "session_ensure option"
  c_start :: "agent_start option"
  c_stop :: "agent_stop option"
  c_exec_expires :: "timestamp option"
  c_unk :: string

record command_result =
  cr_id :: string
  cr_status :: command_status
  cr_detail :: string
  cr_payload :: "gstruct option"
  cr_workspace :: "workspace_ensure_result option"
  cr_worktree :: "worktree_create_result option"
  cr_control :: "agent_control_result option"
  cr_session :: "session_view option"
  cr_lifecycle :: "receipt option"
  cr_unk :: string

record command_audit =
  au_status :: command_status
  au_detail :: string
  au_at :: "timestamp option"
  au_unk :: string

record command_record =
  rec_command :: "command option"
  rec_status :: command_status
  rec_detail :: string
  rec_created :: "timestamp option"
  rec_updated :: "timestamp option"
  rec_audit :: "command_audit list"
  rec_workspace :: "workspace_ensure_result option"
  rec_worktree :: "worktree_create_result option"
  rec_control :: "agent_control_result option"
  rec_session :: "session_view option"
  rec_lifecycle :: "receipt option"
  rec_unk :: string

record command_ack =
  ka_id :: string
  ka_status :: command_status
  ka_detail :: string
  ka_unk :: string

record command_progress =
  cp_id :: string
  cp_lifecycle :: "receipt option"
  cp_unk :: string

section \<open>Projects and nodes\<close>

record register_project =
  rp_node :: string
  rp_project :: string
  rp_checkout :: string
  rp_root :: string
  rp_unk :: string

record project_config =
  pc_node :: string
  pc_project :: string
  pc_generation :: "64 word"
  pc_checkout :: string
  pc_root :: string
  pc_unk :: string

record project_ack =
  pa_project :: string
  pa_generation :: "64 word"
  pa_status :: string
  pa_checkout :: string
  pa_root :: string
  pa_error :: string
  pa_unk :: string

record project_record =
  prj_desired :: "project_config option"
  prj_applied :: "project_ack option"
  prj_readiness :: string
  prj_adoption :: string
  prj_unk :: string

record node_view =
  nv_instance :: string
  nv_stable :: string
  nv_connected :: bool
  nv_last_seen :: "timestamp option"
  nv_herdr :: "herdr_state option"
  nv_stale :: bool
  nv_herdr_received :: "timestamp option"
  nv_command_ready :: bool
  nv_workspace_ready :: bool
  nv_worktree_ready :: bool
  nv_agent_ready :: bool
  nv_sessions :: "session_view list"
  nv_sessions_ready :: bool
  nv_sessions_received :: "timestamp option"
  nv_sessions_error :: string
  nv_hostname :: string
  nv_unk :: string

end
