(* ===== verification/GoStrings.thy ===== *)
theory GoStrings
  imports Prelude
begin

text \<open>
  Go's strings as the protocol package reads them.  A Go string is a list of bytes, here the
  library's \<open>char list\<close>; \<open>len\<close> counts bytes.  The theory models what the sources use of the
  standard library on them: the regular expressions of the identifiers, UTF-8 decoding as
  \<open>range\<close> does it (an invalid byte yields U+FFFD and advances by one byte), \<open>utf8.ValidString\<close>,
  \<open>unicode.IsControl\<close>, \<open>unicode.IsSpace\<close>, \<open>strings.TrimSpace(s) == ""\<close>, \<open>strings.Map\<close> and
  \<open>strings.ToLower\<close> on ASCII.  Lemmas: decoding inverts encoding on Unicode scalar values.
\<close>

section \<open>Bytes and identifier patterns\<close>

definition byte :: "char \<Rightarrow> nat" where
  "byte c = of_char c"

lemma byte_less [simp]: "byte c < 256"
  by (simp add: byte_def)

lemma char_of_byte [simp]: "char_of (byte c) = c"
  by (simp add: byte_def)

lemma byte_char_of [simp]: "n < 256 \<Longrightarrow> byte (char_of n) = n"
  by (simp add: byte_def)

definition is_digit :: "char \<Rightarrow> bool" where
  "is_digit c = (48 \<le> byte c \<and> byte c \<le> 57)"

definition is_lower :: "char \<Rightarrow> bool" where
  "is_lower c = (97 \<le> byte c \<and> byte c \<le> 122)"

definition is_upper :: "char \<Rightarrow> bool" where
  "is_upper c = (65 \<le> byte c \<and> byte c \<le> 90)"

definition is_hex :: "char \<Rightarrow> bool" where
  "is_hex c = (is_digit c \<or> (97 \<le> byte c \<and> byte c \<le> 102))"

text \<open>\<open>^[A-Za-z0-9:_-]{1,128}$\<close>\<close>

definition token_char :: "char \<Rightarrow> bool" where
  "token_char c = (is_digit c \<or> is_lower c \<or> is_upper c \<or> byte c = 58 \<or> byte c = 95 \<or> byte c = 45)"

definition commandToken :: "string \<Rightarrow> bool" where
  "commandToken s = (1 \<le> length s \<and> length s \<le> 128 \<and> list_all token_char s)"

text \<open>\<open>^[a-f0-9]{32}$\<close> and \<open>^[a-f0-9]{64}$\<close>\<close>

definition commandID :: "string \<Rightarrow> bool" where
  "commandID s = (length s = 32 \<and> list_all is_hex s)"

definition sessionIncarnation :: "string \<Rightarrow> bool" where
  "sessionIncarnation s = (length s = 64 \<and> list_all is_hex s)"

text \<open>\<open>^[a-z0-9][a-z0-9_-]{0,63}$\<close>\<close>

definition leaf_char :: "char \<Rightarrow> bool" where
  "leaf_char c = (is_digit c \<or> is_lower c \<or> byte c = 95 \<or> byte c = 45)"

definition worktreeLeaf :: "string \<Rightarrow> bool" where
  "worktreeLeaf s = (case s of [] \<Rightarrow> False
     | c # cs \<Rightarrow> (is_digit c \<or> is_lower c) \<and> length cs \<le> 63 \<and> list_all leaf_char cs)"

text \<open>\<open>^(con|prn|aux|nul|com[0-9]|lpt[0-9])$\<close>\<close>

definition reservedLeaf :: "string \<Rightarrow> bool" where
  "reservedLeaf s = (s \<in> {''con'', ''prn'', ''aux'', ''nul''} \<or>
     length s = 4 \<and> (take 3 s = ''com'' \<or> take 3 s = ''lpt'') \<and> is_digit (s ! 3))"

text \<open>\<open>^([a-f0-9]{40}|[a-f0-9]{64})$\<close>\<close>

definition commitID :: "string \<Rightarrow> bool" where
  "commitID s = ((length s = 40 \<or> length s = 64) \<and> list_all is_hex s)"

lemma commandToken_nonempty: "commandToken s \<Longrightarrow> s \<noteq> ''''"
  by (auto simp: commandToken_def)

lemma commandID_nonempty: "commandID s \<Longrightarrow> s \<noteq> ''''"
  by (auto simp: commandID_def)

lemma sessionIncarnation_nonempty: "sessionIncarnation s \<Longrightarrow> s \<noteq> ''''"
  by (auto simp: sessionIncarnation_def)

lemma hex_token_char: "is_hex c \<Longrightarrow> token_char c"
  by (auto simp: is_hex_def token_char_def is_lower_def)

lemma commandID_token: "commandID s \<Longrightarrow> commandToken s"
  by (auto simp: commandID_def commandToken_def list_all_iff hex_token_char)

section \<open>UTF-8\<close>

text \<open>
  One step of \<open>utf8.DecodeRuneInString\<close>: the rune and the number of bytes it takes, \<open>None\<close> for
  an invalid or truncated sequence (U+FFFD of width 1).  The ranges of the second byte exclude
  overlong forms and surrogates and stop at U+10FFFF.
\<close>

definition cont :: "nat \<Rightarrow> bool" where
  "cont b = (128 \<le> b \<and> b \<le> 191)"

definition decode2 :: "nat \<Rightarrow> nat list \<Rightarrow> (nat \<times> nat) option" where
  "decode2 a bs = (case bs of b # _ \<Rightarrow>
      if cont b then Some ((a - 192) * 64 + (b - 128), 2) else None
    | [] \<Rightarrow> None)"

definition decode3 :: "nat \<Rightarrow> nat list \<Rightarrow> (nat \<times> nat) option" where
  "decode3 a bs = (case bs of b # c # _ \<Rightarrow>
      if (if a = 224 then 160 else 128) \<le> b \<and> b \<le> (if a = 237 then 159 else 191) \<and> cont c
      then Some ((a - 224) * 4096 + (b - 128) * 64 + (c - 128), 3) else None
    | _ \<Rightarrow> None)"

definition decode4 :: "nat \<Rightarrow> nat list \<Rightarrow> (nat \<times> nat) option" where
  "decode4 a bs = (case bs of b # c # d # _ \<Rightarrow>
      if (if a = 240 then 144 else 128) \<le> b \<and> b \<le> (if a = 244 then 143 else 191) \<and> cont c \<and> cont d
      then Some ((a - 240) * 262144 + (b - 128) * 4096 + (c - 128) * 64 + (d - 128), 4) else None
    | _ \<Rightarrow> None)"

definition decode_rune :: "nat list \<Rightarrow> (nat \<times> nat) option" where
  "decode_rune s = (case s of [] \<Rightarrow> None
    | a # bs \<Rightarrow>
        if a < 128 then Some (a, 1)
        else if 194 \<le> a \<and> a \<le> 223 then decode2 a bs
        else if 224 \<le> a \<and> a \<le> 239 then decode3 a bs
        else if 240 \<le> a \<and> a \<le> 244 then decode4 a bs
        else None)"

lemma decode_rune_width:
  "decode_rune s = Some (r, w) \<Longrightarrow> 1 \<le> w \<and> w \<le> length s"
  by (auto simp: decode_rune_def decode2_def decode3_def decode4_def
      split: list.splits if_splits)

text \<open>\<open>for _, r := range s\<close>: \<open>Inl ()\<close> for an invalid byte, \<open>Inr r\<close> for a decoded rune.\<close>

function scan_runes :: "nat list \<Rightarrow> (unit + nat) list" where
  "scan_runes s = (if s = [] then []
     else case decode_rune s of
       None \<Rightarrow> Inl () # scan_runes (drop 1 s)
     | Some (r, w) \<Rightarrow> Inr r # scan_runes (drop (max 1 w) s))"
  by pat_completeness auto
termination
  by (relation "measure length") auto

declare scan_runes.simps [simp del]

definition rune_error :: nat where
  "rune_error = 65533"

definition range_runes :: "string \<Rightarrow> nat list" where
  "range_runes s = map (case_sum (\<lambda>_. rune_error) id) (scan_runes (map byte s))"

definition valid_utf8 :: "string \<Rightarrow> bool" where
  "valid_utf8 s = list_all (case_sum (\<lambda>_. False) (\<lambda>_. True)) (scan_runes (map byte s))"

text \<open>\<open>utf8.AppendRune\<close> for a Unicode scalar value.\<close>

definition encode_rune :: "nat \<Rightarrow> nat list" where
  "encode_rune r =
     (if r < 128 then [r]
      else if r < 2048 then [192 + r div 64, 128 + r mod 64]
      else if r < 65536 then [224 + r div 4096, 128 + r div 64 mod 64, 128 + r mod 64]
      else [240 + r div 262144, 128 + r div 4096 mod 64, 128 + r div 64 mod 64, 128 + r mod 64])"

definition scalar_value :: "nat \<Rightarrow> bool" where
  "scalar_value r = (r < 55296 \<or> 57344 \<le> r \<and> r < 1114112)"

lemma split64: "(r div 64) * 64 + r mod 64 = (r::nat)"
  by simp

lemma split4096: "(r div 4096) * 4096 + (r div 64 mod 64) * 64 + r mod 64 = (r::nat)"
proof -
  have "r div 4096 = r div 64 div 64" by (simp add: div_mult2_eq [symmetric])
  then have "r div 64 = (r div 4096) * 64 + r div 64 mod 64" by simp
  then show ?thesis using split64 [of r] by linarith
qed

lemma split262144:
  "(r div 262144) * 262144 + (r div 4096 mod 64) * 4096 + (r div 64 mod 64) * 64 + r mod 64 = (r::nat)"
proof -
  have "r div 262144 = r div 4096 div 64" by (simp add: div_mult2_eq [symmetric])
  then have "r div 4096 = (r div 262144) * 64 + r div 4096 mod 64" by simp
  then show ?thesis using split4096 [of r] by linarith
qed

lemma mod64_le [simp]: "r mod 64 \<le> (63::nat)"
  using mod_less_divisor [of 64 r] by linarith

lemma decode_encode2:
  assumes "128 \<le> r" and "r < 2048"
  shows "decode_rune (encode_rune r @ s) = Some (r, length (encode_rune r))"
proof -
  from assms have "2 \<le> r div 64" and "r div 64 \<le> 31" by auto
  then show ?thesis using assms split64 [of r]
    by (simp add: encode_rune_def decode_rune_def decode2_def cont_def) arith
qed

lemma decode_encode3:
  assumes "2048 \<le> r" and "r < 65536" and "scalar_value r"
  shows "decode_rune (encode_rune r @ s) = Some (r, length (encode_rune r))"
proof -
  have q: "r div 64 = (r div 4096) * 64 + r div 64 mod 64"
    using split4096 [of r] split64 [of r] by linarith
  have a: "r div 4096 < 16" using assms by auto
  have z: "r div 4096 = 0 \<Longrightarrow> 32 \<le> r div 64 mod 64"
    using assms q by linarith
  have d: "r div 4096 = 13 \<Longrightarrow> r div 64 mod 64 < 32"
  proof -
    assume h: "r div 4096 = 13"
    then have "r < 57344" by linarith
    with assms(3) have "r < 55296" by (simp add: scalar_value_def)
    with q h show ?thesis by linarith
  qed
  from a z d assms(1,2) split4096 [of r] show ?thesis
    by (auto simp: encode_rune_def decode_rune_def decode3_def cont_def)
qed

lemma decode_encode4:
  assumes "65536 \<le> r" and "r < 1114112"
  shows "decode_rune (encode_rune r @ s) = Some (r, length (encode_rune r))"
proof -
  have q: "r div 4096 = (r div 262144) * 64 + r div 4096 mod 64"
    using split262144 [of r] split4096 [of r] by linarith
  have a: "r div 262144 \<le> 4" using assms by linarith
  have z: "r div 262144 = 0 \<Longrightarrow> 16 \<le> r div 4096 mod 64"
    using assms q by linarith
  have d: "r div 262144 = 4 \<Longrightarrow> r div 4096 mod 64 < 16"
    using assms q by linarith
  from a z d assms split262144 [of r] show ?thesis
    by (auto simp: encode_rune_def decode_rune_def decode4_def cont_def)
qed

lemma decode_encode:
  assumes "scalar_value r"
  shows "decode_rune (encode_rune r @ s) = Some (r, length (encode_rune r))"
proof -
  consider "r < 128" | "128 \<le> r" "r < 2048" | "2048 \<le> r" "r < 65536" | "65536 \<le> r"
    by linarith
  then show ?thesis
  proof cases
    case 1
    then show ?thesis by (simp add: encode_rune_def decode_rune_def)
  next
    case 2
    then show ?thesis by (rule decode_encode2)
  next
    case 3
    then show ?thesis using assms by (rule decode_encode3)
  next
    case 4
    with assms have "r < 1114112" by (auto simp: scalar_value_def)
    with 4 show ?thesis by (rule decode_encode4)
  qed
qed

lemma encode_rune_nonempty [simp]: "encode_rune r \<noteq> []"
  by (simp add: encode_rune_def)

lemma encode_rune_bytes: "scalar_value r \<Longrightarrow> \<forall>b \<in> set (encode_rune r). b < 256"
  by (auto simp: encode_rune_def scalar_value_def)

lemma scan_runes_encode:
  assumes "\<forall>r \<in> set rs. scalar_value r"
  shows "scan_runes (concat (map encode_rune rs)) = map Inr rs"
  using assms
proof (induction rs)
  case Nil
  then show ?case by (simp add: scan_runes.simps)
next
  case (Cons r rs)
  let ?t = "concat (map encode_rune rs)"
  have "max 1 (length (encode_rune r)) = length (encode_rune r)"
    using encode_rune_nonempty [of r] by (simp add: Suc_leI)
  then have "scan_runes (encode_rune r @ ?t) = Inr r # scan_runes ?t"
    using Cons.prems by (simp add: scan_runes.simps [of "encode_rune r @ ?t"] decode_encode)
  with Cons show ?case by simp
qed

text \<open>Every decoded rune is a scalar value, and re-encoding it gives the bytes it was read from.\<close>

lemma decode4_scalar:
  assumes "decode4 a bs = Some (r, w)" and "240 \<le> a" and "a \<le> 244"
  shows "scalar_value r"
proof -
  from assms(1) obtain b c d s where bs: "bs = b # c # d # s"
    and b: "(if a = 240 then 144 else 128) \<le> b" "b \<le> (if a = 244 then 143 else 191)"
    and cd: "cont c" "cont d"
    and r: "r = (a - 240) * 262144 + (b - 128) * 4096 + (c - 128) * 64 + (d - 128)"
    by (auto simp: decode4_def split: list.splits if_splits)
  define A B C D where "A = a - 240" and "B = b - 128" and "C = c - 128" and "D = d - 128"
  have "A \<le> 4" and "B \<le> 63" and "C \<le> 63" and "D \<le> 63"
    and "A = 0 \<Longrightarrow> 16 \<le> B" and "A = 4 \<Longrightarrow> B \<le> 15"
    using assms(2,3) b cd by (auto simp: A_def B_def C_def D_def cont_def split: if_splits)
  moreover have "r = A * 262144 + B * 4096 + C * 64 + D"
    by (simp add: r A_def B_def C_def D_def)
  ultimately have "65536 \<le> r" and "r < 1114112" by (cases "A = 0"; linarith)+
  then show ?thesis by (simp add: scalar_value_def)
qed

lemma decode_rune_scalar: "decode_rune s = Some (r, w) \<Longrightarrow> scalar_value r"
  by (auto simp: decode_rune_def decode2_def decode3_def cont_def scalar_value_def
      split: list.splits if_splits dest: decode4_scalar [unfolded scalar_value_def])

lemma scan_runes_scalar: "Inr r \<in> set (scan_runes s) \<Longrightarrow> scalar_value r"
proof (induction s rule: scan_runes.induct)
  case (1 s)
  show ?case
  proof (cases "decode_rune s")
    case None
    with 1 show ?thesis by (auto simp: scan_runes.simps [of s] split: if_splits)
  next
    case (Some rw)
    obtain q w where rw: "rw = (q, w)" by (cases rw)
    with 1 Some show ?thesis
      by (auto simp: scan_runes.simps [of s] decode_rune_scalar split: if_splits)
  qed
qed

lemma range_runes_scalar: "r \<in> set (range_runes s) \<Longrightarrow> scalar_value r"
  by (auto simp: range_runes_def scalar_value_def rune_error_def
      dest!: scan_runes_scalar split: sum.splits)

section \<open>Character classes and whole-string tests\<close>

text \<open>\<open>unicode.IsControl\<close> (category Cc) and \<open>unicode.IsSpace\<close> (White\_Space).\<close>

definition is_control :: "nat \<Rightarrow> bool" where
  "is_control r = (r < 32 \<or> 127 \<le> r \<and> r \<le> 159)"

definition is_space :: "nat \<Rightarrow> bool" where
  "is_space r = (9 \<le> r \<and> r \<le> 13 \<or> r = 32 \<or> r = 133 \<or> r = 160 \<or> r = 5760 \<or>
     8192 \<le> r \<and> r \<le> 8202 \<or> r = 8232 \<or> r = 8233 \<or> r = 8239 \<or> r = 8287 \<or> r = 12288)"

text \<open>\<open>strings.TrimSpace(s) == ""\<close>: every rune is white space (an invalid byte is not).\<close>

definition blank :: "string \<Rightarrow> bool" where
  "blank s = list_all is_space (range_runes s)"

definition has_control :: "string \<Rightarrow> bool" where
  "has_control s = list_ex is_control (range_runes s)"

text \<open>
  \<open>strings.Map\<close> with a function that drops runes (returns -1) or keeps them: the kept runes are
  written back, an invalid byte as the encoding of U+FFFD.
\<close>

definition strings_filter :: "(nat \<Rightarrow> bool) \<Rightarrow> string \<Rightarrow> string" where
  "strings_filter keep s = map char_of (concat (map encode_rune (filter keep (range_runes s))))"

definition ascii_lower :: "string \<Rightarrow> string" where
  "ascii_lower s = map (\<lambda>c. if is_upper c then char_of (byte c + 32) else c) s"

text \<open>\<open>strings.HasPrefix(s, p)\<close>\<close>

definition has_prefix :: "string \<Rightarrow> string \<Rightarrow> bool" where
  "has_prefix s p = (take (length p) s = p)"

lemma blank_Nil [simp]: "blank ''''"
  by (simp add: blank_def range_runes_def scan_runes.simps)

lemma map_byte_filter:
  "\<forall>r \<in> set rs. scalar_value r \<Longrightarrow>
    map byte (map char_of (concat (map encode_rune rs))) = concat (map encode_rune rs)"
  by (induction rs) (auto intro!: map_idI dest: encode_rune_bytes)

lemma scan_runes_filter:
  "scan_runes (map byte (strings_filter keep s)) = map Inr (filter keep (range_runes s))"
proof -
  have sv: "\<forall>r \<in> set (filter keep (range_runes s)). scalar_value r"
    by (auto dest: range_runes_scalar)
  show ?thesis
    unfolding strings_filter_def map_byte_filter [OF sv] by (rule scan_runes_encode [OF sv])
qed

lemma range_runes_filter: "range_runes (strings_filter keep s) = filter keep (range_runes s)"
  by (simp add: range_runes_def [of "strings_filter keep s"] scan_runes_filter comp_def)

lemma valid_utf8_filter: "valid_utf8 (strings_filter keep s)"
  by (simp add: valid_utf8_def scan_runes_filter list_all_iff)

lemma strings_filter_idem: "strings_filter keep (strings_filter keep s) = strings_filter keep s"
  unfolding strings_filter_def [of keep "strings_filter keep s"] range_runes_filter
  by (simp add: strings_filter_def)

lemma blank_not_token: "commandToken s \<Longrightarrow> \<not> blank s"
proof -
  assume "commandToken s"
  then obtain c cs where s: "s = c # cs" and c: "token_char c"
    by (cases s) (auto simp: commandToken_def)
  have b: "byte c < 128" and ns: "\<not> is_space (byte c)"
    using c by (auto simp: token_char_def is_digit_def is_lower_def is_upper_def is_space_def)
  have "decode_rune (map byte s) = Some (byte c, 1)"
    using b by (simp add: s decode_rune_def)
  then have "byte c \<in> set (range_runes s)"
    by (simp add: range_runes_def s scan_runes.simps [of "byte c # map byte cs"])
  with ns show ?thesis by (auto simp: blank_def list_all_iff)
qed

end
