(* ===== verification/Wire.thy ===== *)
theory Wire
  imports Messages GoStrings
begin

text \<open>
  What the code does with messages as a whole: the recursive search for unknown fields
  (\<open>unknownFields\<close> in store.go), the protobuf runtime as a parameter, and the bounded encoding
  and decoding of journal payloads (\<open>marshalCommandMessage\<close>, \<open>decodeCommandMessage\<close>).
\<close>

section \<open>Unknown fields\<close>

definition ts_unknown :: "timestamp \<Rightarrow> bool" where
  "ts_unknown t = (ts_unk t \<noteq> [])"

definition du_unknown :: "duration \<Rightarrow> bool" where
  "du_unknown d = (du_unk d \<noteq> [])"

definition gs_unknown :: "gstruct \<Rightarrow> bool" where
  "gs_unknown g = (gs_unk g \<noteq> [])"

definition at_unknown :: "agent_target \<Rightarrow> bool" where
  "at_unknown t = (at_unk t \<noteq> [])"

definition ag_unknown :: "agent_control \<Rightarrow> bool" where
  "ag_unknown a = (ag_unk a \<noteq> [] \<or> opt_ex at_unknown (ag_target a))"

definition acr_unknown :: "agent_control_result \<Rightarrow> bool" where
  "acr_unknown a = (acr_unk a \<noteq> [] \<or> opt_ex at_unknown (acr_target a))"

definition en_unknown :: "herdr_entity \<Rightarrow> bool" where
  "en_unknown e = (en_unk e \<noteq> [])"

definition hs_unknown :: "herdr_state \<Rightarrow> bool" where
  "hs_unknown h = (hs_unk h \<noteq> [] \<or> opt_ex ts_unknown (hs_observed h) \<or>
     list_ex en_unknown (hs_workspaces h) \<or> list_ex en_unknown (hs_tabs h) \<or>
     list_ex en_unknown (hs_panes h) \<or> list_ex en_unknown (hs_agents h))"

definition sv_unknown :: "session_view \<Rightarrow> bool" where
  "sv_unknown s = (sv_unk s \<noteq> [] \<or> opt_ex hs_unknown (sv_herdr s) \<or> opt_ex ts_unknown (sv_received s))"

definition st_unknown :: "agent_stop \<Rightarrow> bool" where
  "st_unknown s = (st_unk s \<noteq> [] \<or> opt_ex at_unknown (st_target s))"

definition lh_unknown :: "lifecycle_handle \<Rightarrow> bool" where
  "lh_unknown h = (lh_unk h \<noteq> [] \<or> opt_ex at_unknown (lh_target h))"

definition receipt_unknown :: "receipt \<Rightarrow> bool" where
  "receipt_unknown r = (lr_unk r \<noteq> [] \<or> opt_ex lh_unknown (lr_handle r) \<or>
     list_ex (\<lambda>s. ls_unk s \<noteq> []) (lr_stages r))"

definition request_unknown :: "submit_request \<Rightarrow> bool" where
  "request_unknown r = (sr_unk r \<noteq> [] \<or> opt_ex du_unknown (sr_ttl r) \<or>
     opt_ex (\<lambda>w. we_unk w \<noteq> []) (sr_workspace r) \<or> opt_ex (\<lambda>w. wc_unk w \<noteq> []) (sr_worktree r) \<or>
     opt_ex ag_unknown (sr_control r) \<or> opt_ex (\<lambda>s. se_unk s \<noteq> []) (sr_session r) \<or>
     opt_ex (\<lambda>s. as_unk s \<noteq> []) (sr_start r) \<or> opt_ex st_unknown (sr_stop r))"

definition command_unknown :: "command \<Rightarrow> bool" where
  "command_unknown c = (c_unk c \<noteq> [] \<or> opt_ex (\<lambda>a. ac_unk a \<noteq> []) (c_actor c) \<or>
     opt_ex du_unknown (c_ttl c) \<or> opt_ex gs_unknown (c_preconditions c) \<or>
     opt_ex gs_unknown (c_payload c) \<or> opt_ex ts_unknown (c_expires c) \<or>
     opt_ex (\<lambda>w. we_unk w \<noteq> []) (c_workspace c) \<or> opt_ex (\<lambda>w. wc_unk w \<noteq> []) (c_worktree c) \<or>
     opt_ex ag_unknown (c_control c) \<or> opt_ex request_unknown (c_submitted c) \<or>
     opt_ex (\<lambda>s. se_unk s \<noteq> []) (c_session c) \<or> opt_ex (\<lambda>s. as_unk s \<noteq> []) (c_start c) \<or>
     opt_ex st_unknown (c_stop c) \<or> opt_ex ts_unknown (c_exec_expires c))"

definition result_unknown :: "command_result \<Rightarrow> bool" where
  "result_unknown r = (cr_unk r \<noteq> [] \<or> opt_ex gs_unknown (cr_payload r) \<or>
     opt_ex (\<lambda>w. wer_unk w \<noteq> []) (cr_workspace r) \<or> opt_ex (\<lambda>w. wcr_unk w \<noteq> []) (cr_worktree r) \<or>
     opt_ex acr_unknown (cr_control r) \<or> opt_ex sv_unknown (cr_session r) \<or>
     opt_ex receipt_unknown (cr_lifecycle r))"

definition audit_unknown :: "command_audit \<Rightarrow> bool" where
  "audit_unknown a = (au_unk a \<noteq> [] \<or> opt_ex ts_unknown (au_at a))"

definition record_unknown :: "command_record \<Rightarrow> bool" where
  "record_unknown r = (rec_unk r \<noteq> [] \<or> opt_ex command_unknown (rec_command r) \<or>
     opt_ex ts_unknown (rec_created r) \<or> opt_ex ts_unknown (rec_updated r) \<or>
     list_ex audit_unknown (rec_audit r) \<or>
     opt_ex (\<lambda>w. wer_unk w \<noteq> []) (rec_workspace r) \<or> opt_ex (\<lambda>w. wcr_unk w \<noteq> []) (rec_worktree r) \<or>
     opt_ex acr_unknown (rec_control r) \<or> opt_ex sv_unknown (rec_session r) \<or>
     opt_ex receipt_unknown (rec_lifecycle r))"

definition registration_unknown :: "register_project \<Rightarrow> bool" where
  "registration_unknown r = (rp_unk r \<noteq> [])"

definition config_unknown :: "project_config \<Rightarrow> bool" where
  "config_unknown c = (pc_unk c \<noteq> [])"

definition ack_unknown :: "project_ack \<Rightarrow> bool" where
  "ack_unknown a = (pa_unk a \<noteq> [])"

definition project_record_unknown :: "project_record \<Rightarrow> bool" where
  "project_record_unknown r = (prj_unk r \<noteq> [] \<or> opt_ex config_unknown (prj_desired r) \<or>
     opt_ex ack_unknown (prj_applied r))"

definition node_unknown :: "node_view \<Rightarrow> bool" where
  "node_unknown v = (nv_unk v \<noteq> [] \<or> opt_ex ts_unknown (nv_last_seen v) \<or>
     opt_ex hs_unknown (nv_herdr v) \<or> opt_ex ts_unknown (nv_herdr_received v) \<or>
     list_ex sv_unknown (nv_sessions v) \<or> opt_ex ts_unknown (nv_sessions_received v))"

section \<open>The protobuf runtime, a parameter\<close>

text \<open>
  \<open>size_*\<close> is \<open>proto.Size\<close>; \<open>ts_valid\<close>, \<open>as_time\<close> and \<open>new_ts\<close> are \<open>CheckValid() == nil\<close>,
  \<open>AsTime()\<close> in nanoseconds since the epoch and \<open>timestamppb.New\<close>; \<open>du_valid\<close>, \<open>as_duration\<close> and
  \<open>new_du\<close> the same for durations.  A \<open>time.Time\<close> is its number of nanoseconds.
\<close>

record pb =
  size_command :: "command \<Rightarrow> nat"
  size_receipt :: "receipt \<Rightarrow> nat"
  ts_valid :: "timestamp \<Rightarrow> bool"
  as_time :: "timestamp \<Rightarrow> int"
  new_ts :: "int \<Rightarrow> timestamp"
  du_valid :: "duration \<Rightarrow> bool"
  as_duration :: "duration \<Rightarrow> int"
  new_du :: "int \<Rightarrow> duration"

text \<open>
  The documented behaviour of the runtime that proofs use: a valid timestamp is its seconds and
  0 to 999999999 nanoseconds, converting a time to a timestamp and back is the identity, and a
  fresh timestamp carries no unknown fields.
\<close>

definition pb_ok :: "pb \<Rightarrow> bool" where
  "pb_ok P \<longleftrightarrow>
     (\<forall>t. ts_valid P t \<longrightarrow> 0 \<le> ts_nanos t \<and> ts_nanos t < 1000000000 \<and>
        as_time P t = ts_seconds t * 1000000000 + ts_nanos t) \<and>
     (\<forall>n. as_time P (new_ts P n) = n \<and> ts_unk (new_ts P n) = [])"

section \<open>Journal payloads\<close>

text \<open>
  One codec per message type: \<open>Marshal\<close> (which fails on invalid UTF-8), \<open>Unmarshal\<close>, the encoded
  size and the length of the bytes.  \<open>codec_ok\<close> is their documented relation.
\<close>

record ('m, 'b) codec =
  size_msg :: "'m \<Rightarrow> nat"
  marshal :: "'m \<Rightarrow> 'b option"
  unmarshal :: "'b \<Rightarrow> 'm option"
  blob_len :: "'b \<Rightarrow> nat"

definition codec_ok :: "('m, 'b) codec \<Rightarrow> bool" where
  "codec_ok C \<longleftrightarrow> (\<forall>m b. marshal C m = Some b \<longrightarrow> unmarshal C b = Some m \<and> blob_len C b = size_msg C m)"

definition maxCommandBytes :: nat where
  "maxCommandBytes = 16 * 1024"

definition marshalBounded :: "nat \<Rightarrow> ('m \<Rightarrow> bool) \<Rightarrow> ('m, 'b) codec \<Rightarrow> 'm \<Rightarrow> 'b res" where
  "marshalBounded limit unknown C m =
     (if limit < size_msg C m \<or> unknown m
      then Inl (Msg ''command journal message is oversized or contains unknown fields'')
      else case marshal C m of
        None \<Rightarrow> Inl (Wrap ''encode command journal message'' (Msg ''proto: invalid UTF-8''))
      | Some b \<Rightarrow>
          if blob_len C b = 0 \<or> limit < blob_len C b
          then Inl (Msg ''command journal message exceeds payload bounds'')
          else Inr b)"

definition marshalCommandMessage :: "('m \<Rightarrow> bool) \<Rightarrow> ('m, 'b) codec \<Rightarrow> 'm \<Rightarrow> 'b res" where
  "marshalCommandMessage = marshalBounded maxCommandBytes"

definition decodeCommandMessage :: "('m \<Rightarrow> bool) \<Rightarrow> ('m, 'b) codec \<Rightarrow> 'b \<Rightarrow> 'm res" where
  "decodeCommandMessage unknown C b =
     (if blob_len C b = 0 \<or> maxCommandBytes < blob_len C b
      then Inl (Msg ''stored command journal payload exceeds bounds'')
      else case unmarshal C b of
        None \<Rightarrow> Inl (Wrap ''decode command journal message'' (Msg ''proto: cannot parse''))
      | Some m \<Rightarrow>
          if unknown m then Inl (Msg ''stored command journal message contains unknown fields'')
          else Inr m)"

text \<open>What was encoded decodes to itself: the round trip of a journal payload.\<close>

lemma marshalCommandMessage_decode:
  assumes "codec_ok C" and "marshalCommandMessage unknown C m = Inr b"
  shows "decodeCommandMessage unknown C b = Inr m"
  using assms unfolding codec_ok_def
  by (auto simp: marshalCommandMessage_def marshalBounded_def decodeCommandMessage_def
      split: if_splits option.splits)

lemma marshalCommandMessage_unknown:
  "marshalCommandMessage unknown C m = Inr b \<Longrightarrow> \<not> unknown m"
  by (auto simp: marshalCommandMessage_def marshalBounded_def split: if_splits)

lemma marshalCommandMessage_len:
  "marshalCommandMessage unknown C m = Inr b \<Longrightarrow> 1 \<le> blob_len C b \<and> blob_len C b \<le> maxCommandBytes"
  by (auto simp: marshalCommandMessage_def marshalBounded_def split: if_splits option.splits)

end
