(* ===== verification/Database.thy ===== *)
theory Database
  imports Transactions Wire
begin

text \<open>
  The two SQLite databases of the state package (schema.go, lifecycle\_schema.go, projects.go): the
  coordinator's and the node's, one record per table row with the columns the statements read and
  write, the payload columns as encoded bytes.  A violated constraint is the driver's error with the
  extended result code SQLite documents.  The codecs of the stored messages are parameters.
\<close>

section \<open>Codecs\<close>

record 'b codecs =
  k_pb :: pb
  k_record :: "(command_record, 'b) codec"
  k_command :: "(command, 'b) codec"
  k_result :: "(command_result, 'b) codec"
  k_receipt :: "(receipt, 'b) codec"
  k_node :: "(node_view, 'b) codec"
  k_project :: "(project_record, 'b) codec"
  k_config :: "(project_config, 'b) codec"
  k_ack :: "(project_ack, 'b) codec"

definition codecs_ok :: "'b codecs \<Rightarrow> bool" where
  "codecs_ok K \<longleftrightarrow> pb_ok (k_pb K) \<and> codec_ok (k_record K) \<and> codec_ok (k_command K) \<and>
     codec_ok (k_result K) \<and> codec_ok (k_receipt K) \<and> codec_ok (k_node K) \<and>
     codec_ok (k_project K) \<and> codec_ok (k_config K) \<and> codec_ok (k_ack K)"

section \<open>The coordinator's tables\<close>

record 'b command_row =
  cw_actor :: string
  cw_key :: string
  cw_target :: string
  cw_seconds :: int
  cw_nanos :: int
  cw_status :: command_status
  cw_record :: 'b

record 'b coordinator =
  cd_bindings :: "(string, string) table"
  cd_nodes :: "(string, 'b) table"
  cd_commands :: "(string, 'b command_row) table"
  cd_projects :: "(string \<times> string, 'b) table"

section \<open>The node's tables\<close>

record 'b node_row =
  nw_status :: command_status
  nw_delivered :: int
  nw_command :: 'b
  nw_result :: "'b option"

record 'b lifecycle_row =
  lw_sequence :: "32 word"
  lw_receipt :: 'b

record scope_row =
  sw_incarnation :: string
  sw_workspace :: string
  sw_terminal :: string

record 'b node_project_row =
  np_config :: 'b
  np_ack :: "'b option"
  np_applied :: "'b option"

record 'b node_db =
  nd_commands :: "(string, 'b node_row) table"
  nd_lifecycle :: "(string, 'b lifecycle_row) table"
  nd_scopes :: "(string, scope_row) table"
  nd_projects :: "(string, 'b node_project_row) table"

section \<open>Constraints\<close>

definition sqliteCheck :: err where "sqliteCheck = DriverErr 275"
definition sqlitePrimaryKey :: err where "sqlitePrimaryKey = DriverErr 1555"
definition sqliteUnique :: err where "sqliteUnique = DriverErr 2067"
definition sqliteForeignKey :: err where "sqliteForeignKey = DriverErr 787"

text \<open>The statuses the current schemas admit: 1 to 8 on the coordinator, 2 to 7 on a node.\<close>

definition storedStatus :: "command_status \<Rightarrow> bool" where
  "storedStatus s = (s \<in> {ACCEPTED, RUNNING, SUCCEEDED, FAILED, TIMED_OUT, REJECTED, INDETERMINATE, NODE_UNAVAILABLE})"

definition storedNodeStatus :: "command_status \<Rightarrow> bool" where
  "storedNodeStatus s = (s \<in> {RUNNING, SUCCEEDED, FAILED, TIMED_OUT, REJECTED, INDETERMINATE})"

section \<open>Bindings\<close>

text \<open>\<open>SELECT stable_id FROM bindings WHERE instance_id = ?\<close>\<close>

definition stableOf :: "(string, string) table \<Rightarrow> string \<Rightarrow> string option" where
  "stableOf bs instance = (case tselect (\<lambda>s i. i = instance) bs of [] \<Rightarrow> None | (s, i) # _ \<Rightarrow> Some s)"

lemma stableOf_mem:
  assumes "stableOf bs i = Some s"
  shows "(s, i) \<in> set bs"
proof -
  obtain j r where "tselect (\<lambda>s j. j = i) bs = (s, j) # r"
    using assms by (auto simp: stableOf_def split: list.splits)
  then have "(s, j) \<in> set (tselect (\<lambda>s j. j = i) bs)" by simp
  then show ?thesis by (auto simp: tselect_mem)
qed

lemma stableOf_None: "stableOf bs i = None \<longleftrightarrow> (\<forall>s. (s, i) \<notin> set bs)"
proof
  assume "stableOf bs i = None"
  then have "tselect (\<lambda>s j. j = i) bs = []" by (auto simp: stableOf_def split: list.splits)
  then show "\<forall>s. (s, i) \<notin> set bs"
    using tselect_mem [of _ i "\<lambda>s j. j = i" bs] by auto
next
  assume "\<forall>s. (s, i) \<notin> set bs"
  then show "stableOf bs i = None" using stableOf_mem by (cases "stableOf bs i") blast+
qed

end
