(* ===== verification/ProtoIdentity.thy ===== *)
theory ProtoIdentity
  imports Wire
begin

text \<open>
  The protocol package's small validators: version negotiation and the node's hello
  (protocol.go), session names, selectors and incarnations (sessions.go and the portable name of
  herdrsession/manager.go), worktree names (worktree.go), display metadata (display.go) and project
  paths, configurations and acknowledgements (projects.go).
\<close>

section \<open>Version negotiation\<close>

definition MinimumVersion :: "32 word" where "MinimumVersion = 1"
definition MaximumVersion :: "32 word" where "MaximumVersion = 1"

definition Negotiate :: "protocol_range option \<Rightarrow> (32 word) res" where
  "Negotiate remote = (case remote of
     None \<Rightarrow> Inl (Msg ''protocol range is required'')
   | Some r \<Rightarrow>
       if pr_minimum r = 0 \<or> pr_maximum r = 0
       then Inl (Msg ''protocol versions must be greater than zero'')
       else if pr_minimum r > pr_maximum r then Inl (Msg ''invalid protocol range'')
       else let minimum = max (pr_minimum r) MinimumVersion;
                maximum = min (pr_maximum r) MaximumVersion
            in if minimum > maximum then Inl (Msg ''no compatible protocol version'')
               else Inr maximum)"

definition ValidateNodeHello :: "hello option \<Rightarrow> unit res" where
  "ValidateNodeHello hello = (case hello of
     None \<Rightarrow> Inl (Msg ''hello is required'')
   | Some h \<Rightarrow>
       if he_instance h = '''' \<or> 128 < length (he_instance h)
       then Inl (Msg ''instance ID must contain 1-128 bytes'')
       else if he_role h \<noteq> ROLE_NODE
       then Inl (Msg ''role is not permitted on the node control stream'')
       else bindR (Negotiate (he_protocol h)) (\<lambda>_. Inr ()))"

section \<open>Sessions\<close>

text \<open>herdrsession.ValidateName: \<open>^[A-Za-z0-9][A-Za-z0-9_-]{0,63}$\<close> less the device names.\<close>

definition namePattern :: "string \<Rightarrow> bool" where
  "namePattern s = (case s of [] \<Rightarrow> False
     | c # cs \<Rightarrow> (is_digit c \<or> is_lower c \<or> is_upper c) \<and> length cs \<le> 63 \<and>
         list_all (\<lambda>d. is_digit d \<or> is_lower d \<or> is_upper d \<or> byte d = 95 \<or> byte d = 45) cs)"

definition deviceNames :: "string list" where
  "deviceNames = [''con'', ''prn'', ''aux'', ''nul'', ''com1'', ''com2'', ''com3'', ''com4'', ''com5'',
     ''com6'', ''com7'', ''com8'', ''com9'', ''lpt1'', ''lpt2'', ''lpt3'', ''lpt4'', ''lpt5'', ''lpt6'',
     ''lpt7'', ''lpt8'', ''lpt9'']"

definition ValidateName :: "string \<Rightarrow> unit res" where
  "ValidateName name =
     (if \<not> namePattern name then Inl ErrInvalidName
      else if ascii_lower name \<in> set deviceNames then Inl ErrInvalidName
      else Inr ())"

definition ValidSessionIncarnation :: "string \<Rightarrow> bool" where
  "ValidSessionIncarnation value = sessionIncarnation value"

definition ValidateSessionSelector :: "string \<Rightarrow> string \<Rightarrow> bool \<Rightarrow> unit res" where
  "ValidateSessionSelector name incarnation requireIncarnation =
     (if name \<noteq> '''' \<and> \<not> is_ok (ValidateName name) \<or>
         incarnation \<noteq> '''' \<and> \<not> ValidSessionIncarnation incarnation \<or>
         requireIncarnation \<and> name \<noteq> '''' \<and> incarnation = ''''
      then Inl (Msg ''invalid session name or incarnation'') else Inr ())"

definition ValidateSessionEnsure :: "session_ensure option \<Rightarrow> unit res" where
  "ValidateSessionEnsure value = (case value of
     None \<Rightarrow> Inl (Msg ''session ensure requires a portable session name'')
   | Some v \<Rightarrow>
       if se_unk v \<noteq> [] \<or> \<not> is_ok (ValidateName (se_name v))
       then Inl (Msg ''session ensure requires a portable session name'') else Inr ())"

definition sessionErrors :: "string list" where
  "sessionErrors = [''session_manager_unavailable'', ''session_unavailable'', ''session_replaced'',
     ''session_start_failed'', ''unsupported_protocol'', ''session_default_unmanaged'',
     ''session_capacity'', ''precondition_failed'']"

definition ValidSessionError :: "string \<Rightarrow> bool" where
  "ValidSessionError code = (code \<in> set sessionErrors)"

definition matchesSession :: "string \<Rightarrow> string \<Rightarrow> string \<Rightarrow> string \<Rightarrow> bool" where
  "matchesSession actualName actualIncarnation name incarnation =
     (actualName = name \<and> (incarnation = '''' \<or> actualIncarnation = incarnation))"

section \<open>Worktree names\<close>

definition ValidWorktreeName :: "string \<Rightarrow> bool" where
  "ValidWorktreeName name = (worktreeLeaf name \<and> \<not> reservedLeaf name)"

section \<open>Display metadata\<close>

definition MaxDisplayNameBytes :: nat where "MaxDisplayNameBytes = 256"
definition MaxDirectoryBytes :: nat where "MaxDirectoryBytes = 4096"

definition ValidDisplayMetadata :: "string \<Rightarrow> string \<Rightarrow> bool" where
  "ValidDisplayMetadata name directory =
     list_all (\<lambda>(value, limit). length value \<le> limit \<and> valid_utf8 value \<and> \<not> has_control value)
       [(name, MaxDisplayNameBytes), (directory, MaxDirectoryBytes)]"

section \<open>Project paths and configurations\<close>

definition ValidProjectPath :: "string \<Rightarrow> bool \<Rightarrow> bool" where
  "ValidProjectPath path optional =
     ((optional \<or> \<not> blank path) \<and> length path \<le> 4096 \<and> valid_utf8 path \<and> \<not> has_control path)"

definition ValidateProjectRegistration :: "register_project option \<Rightarrow> unit res" where
  "ValidateProjectRegistration r = (case r of
     None \<Rightarrow> Inl (Msg ''project registration requires bounded node/project IDs and paths'')
   | Some r \<Rightarrow>
       if \<not> commandToken (rp_node r) \<or> \<not> commandToken (rp_project r) \<or>
          \<not> ValidProjectPath (rp_checkout r) False \<or> \<not> ValidProjectPath (rp_root r) True \<or>
          rp_unk r \<noteq> []
       then Inl (Msg ''project registration requires bounded node/project IDs and paths'')
       else Inr ())"

definition ValidateProjectConfig :: "project_config option \<Rightarrow> unit res" where
  "ValidateProjectConfig c = (case c of
     None \<Rightarrow> Inl (Msg ''invalid project generation'')
   | Some c \<Rightarrow>
       if pc_generation c = 0 \<or> pc_unk c \<noteq> [] then Inl (Msg ''invalid project generation'')
       else ValidateProjectRegistration (Some
         \<lparr>rp_node = pc_node c, rp_project = pc_project c, rp_checkout = pc_checkout c,
          rp_root = pc_root c, rp_unk = []\<rparr>))"

definition ValidateProjectAck :: "project_ack option \<Rightarrow> unit res" where
  "ValidateProjectAck a = (case a of
     None \<Rightarrow> Inl (Msg ''invalid project acknowledgement'')
   | Some a \<Rightarrow>
       if \<not> commandToken (pa_project a) \<or> pa_generation a = 0 \<or> pa_unk a \<noteq> []
       then Inl (Msg ''invalid project acknowledgement'')
       else if pa_status a = ''applied'' \<and> pa_error a = '''' \<and>
          ValidProjectPath (pa_checkout a) False \<and> ValidProjectPath (pa_root a) False
       then Inr ()
       else if pa_status a = ''invalid'' \<and> pa_checkout a = '''' \<and> pa_root a = '''' \<and>
          (pa_error a = ''invalid_path'' \<or> pa_error a = ''configuration_conflict'')
       then Inr ()
       else Inl (Msg ''invalid project acknowledgement outcome''))"

section \<open>Facts about the validators\<close>

lemma ValidateName_ok: "ValidateName n = Inr () \<longleftrightarrow> namePattern n \<and> ascii_lower n \<notin> set deviceNames"
  by (simp add: ValidateName_def res_simps)

lemma ValidateSessionSelector_ok:
  "ValidateSessionSelector n i req = Inr () \<longleftrightarrow>
     (n = '''' \<or> ValidateName n = Inr ()) \<and> (i = '''' \<or> ValidSessionIncarnation i) \<and>
     (req \<longrightarrow> n \<noteq> '''' \<longrightarrow> i \<noteq> '''')"
  by (auto simp: ValidateSessionSelector_def res_simps)

lemma ValidSessionIncarnation_nonempty: "ValidSessionIncarnation i \<Longrightarrow> i \<noteq> ''''"
  by (auto simp: ValidSessionIncarnation_def dest: sessionIncarnation_nonempty)

lemma Negotiate_ok:
  "Negotiate (Some r) = Inr v \<longleftrightarrow>
     pr_minimum r \<noteq> 0 \<and> pr_maximum r \<noteq> 0 \<and> pr_minimum r \<le> pr_maximum r \<and>
     max (pr_minimum r) MinimumVersion \<le> min (pr_maximum r) MaximumVersion \<and>
     v = min (pr_maximum r) MaximumVersion"
  by (auto simp: Negotiate_def Let_def res_simps not_less)

end
