(* ===== verification/ProtoAgents.thy ===== *)
theory ProtoAgents
  imports ProtoIdentity
begin

text \<open>
  agent.go of the protocol package: agent targets, views, control input and keys, queries and
  their normalisation, query results and the sanitising of terminal text.
\<close>

section \<open>Targets and views\<close>

definition MaxAgentPromptBytes :: nat where "MaxAgentPromptBytes = 8192"
definition MaxAgentOutputBytes :: nat where "MaxAgentOutputBytes = 65536"
definition MaxAgentQueryTimeoutMs :: "32 word" where "MaxAgentQueryTimeoutMs = 300000"

definition ValidateAgentTarget :: "agent_target option \<Rightarrow> bool \<Rightarrow> unit res" where
  "ValidateAgentTarget target requireTerminal = (case target of
     None \<Rightarrow> Inl (Msg ''agent target requires bounded pane and terminal identifiers'')
   | Some t \<Rightarrow>
       if at_unk t \<noteq> [] \<or> \<not> commandToken (at_pane t) \<or>
          requireTerminal \<and> at_terminal t = '''' \<or>
          at_terminal t \<noteq> '''' \<and> \<not> commandToken (at_terminal t) \<or>
          at_agent_session t \<noteq> '''' \<and> \<not> commandToken (at_agent_session t)
       then Inl (Msg ''agent target requires bounded pane and terminal identifiers'')
       else ValidateSessionSelector (at_session t) (at_incarnation t) requireTerminal)"

definition agentStatuses :: "string list" where
  "agentStatuses = [''idle'', ''working'', ''blocked'', ''done'', ''unknown'']"

definition validAgentStatus :: "string \<Rightarrow> bool" where
  "validAgentStatus value = (value \<in> set agentStatuses)"

definition ValidateAgentView :: "agent_view option \<Rightarrow> unit res" where
  "ValidateAgentView value = (case value of
     None \<Rightarrow> Inl (Msg ''invalid agent projection'')
   | Some v \<Rightarrow>
       if av_unk v \<noteq> [] \<or> \<not> is_ok (ValidateAgentTarget (av_target v) True) \<or>
          \<not> commandToken (av_workspace v) \<or> \<not> commandToken (av_tab v) \<or>
          \<not> commandToken (av_provider v) \<or> \<not> validAgentStatus (av_status v) \<or>
          \<not> ValidDisplayMetadata (av_display_name v) (av_directory v)
       then Inl (Msg ''invalid agent projection'') else Inr ())"

section \<open>Control input\<close>

definition agentKeys :: "string list" where
  "agentKeys = [''enter'', ''esc'', ''tab'', ''shift+tab'', ''up'', ''down'', ''left'', ''right'',
     ''backspace'', ''delete'', ''home'', ''end'', ''ctrl+c'']"

definition ValidAgentKey :: "string \<Rightarrow> bool" where
  "ValidAgentKey key =
     (if length key = 1 \<and> 32 \<le> byte (hd key) \<and> byte (hd key) \<le> 126 then True
      else key \<in> set agentKeys)"

definition ValidateAgentControlInput :: "control_action \<Rightarrow> string \<Rightarrow> string list \<Rightarrow> unit res" where
  "ValidateAgentControlInput action text keys = (case action of
     ACTION_PROMPT \<Rightarrow>
       if keys \<noteq> [] \<or> blank text \<or> MaxAgentPromptBytes < length text \<or> \<not> valid_utf8 text
       then Inl (Msg ''prompt must contain 1..8192 UTF-8 bytes and no key actions'')
       else each (\<lambda>r. if is_control r \<and> r \<noteq> 10 \<and> r \<noteq> 13 \<and> r \<noteq> 9
              then Inl (Msg ''prompt contains terminal control characters'') else Inr ())
            (range_runes text)
   | ACTION_INPUT \<Rightarrow>
       if text \<noteq> '''' \<or> keys = [] \<or> 8 < length keys
       then Inl (Msg ''input requires 1..8 explicit keys and no prompt text'')
       else each (\<lambda>key. if \<not> ValidAgentKey key then Inl (Msg ''unsupported agent key'') else Inr ()) keys
   | ACTION_INTERRUPT \<Rightarrow>
       if text \<noteq> '''' \<or> keys \<noteq> []
       then Inl (Msg ''interrupt must not carry arbitrary input'') else Inr ()
   | _ \<Rightarrow> Inl (Msg ''unsupported agent control action''))"

definition ValidateAgentControl :: "agent_control option \<Rightarrow> unit res" where
  "ValidateAgentControl value = (case value of
     None \<Rightarrow> Inl (Msg ''invalid agent control target'')
   | Some v \<Rightarrow>
       if ag_unk v \<noteq> [] \<or> \<not> is_ok (ValidateAgentTarget (ag_target v) True)
       then Inl (Msg ''invalid agent control target'')
       else ValidateAgentControlInput (ag_action v) (ag_text v) (ag_keys v))"

definition AgentControlSuccessDetail :: "control_action \<Rightarrow> string" where
  "AgentControlSuccessDetail action = (case action of
     ACTION_PROMPT \<Rightarrow> ''agent_prompt_sent''
   | ACTION_INPUT \<Rightarrow> ''agent_input_sent''
   | ACTION_INTERRUPT \<Rightarrow> ''agent_interrupt_sent''
   | _ \<Rightarrow> '''')"

section \<open>Queries\<close>

text \<open>The duplicate check of the wait states (\<open>seen\<close> in the code).\<close>

fun waitStates :: "string list \<Rightarrow> string list \<Rightarrow> unit res" where
  "waitStates seen [] = Inr ()"
| "waitStates seen (s # ss) =
     (if \<not> validAgentStatus s \<or> s \<in> set seen then Inl (Msg ''invalid or duplicate wait state'')
      else waitStates (s # seen) ss)"

text \<open>The switch on the kind: the arguments each kind may carry, and its defaults.\<close>

definition selectionArgs :: "agent_query_request \<Rightarrow> agent_query_request res" where
  "selectionArgs q = (case qr_kind q of
     QUERY_GET \<Rightarrow>
       if qr_lines q \<noteq> 0 \<or> qr_until q \<noteq> []
       then Inl (Msg ''get query cannot carry read/wait arguments'') else Inr q
   | QUERY_READ \<Rightarrow>
       if qr_until q \<noteq> [] \<or> qr_lines q > 1000
       then Inl (Msg ''read requires at most 1000 lines and no wait states'')
       else Inr (if qr_lines q = 0 then q\<lparr>qr_lines := 100\<rparr> else q)
   | QUERY_WAIT \<Rightarrow>
       if qr_lines q \<noteq> 0 then Inl (Msg ''wait query cannot carry read arguments'')
       else let q = (if qr_until q = [] then q\<lparr>qr_until := [''idle'', ''done'', ''blocked'']\<rparr> else q) in
         if 5 < length (qr_until q) then Inl (Msg ''too many wait states'')
         else bindR (waitStates [] (qr_until q)) (\<lambda>_. Inr q)
   | _ \<Rightarrow> Inl (Msg ''unsupported agent query''))"

definition NormalizeAgentSelection :: "agent_query_request option \<Rightarrow> agent_query_request res" where
  "NormalizeAgentSelection request = (case request of
     None \<Rightarrow> Inl (Msg ''agent query requires a bounded node ID'')
   | Some q \<Rightarrow>
       if qr_unk q \<noteq> [] \<or> \<not> commandToken (qr_node q)
       then Inl (Msg ''agent query requires a bounded node ID'')
       else bindR (ValidateAgentTarget (qr_target q) False) (\<lambda>_.
         let q = (if qr_timeout q = 0 then q\<lparr>qr_timeout := 30000\<rparr> else q) in
         if qr_timeout q > MaxAgentQueryTimeoutMs
         then Inl (Msg ''agent query timeout must not exceed five minutes'')
         else selectionArgs q))"

definition NormalizeAgentQuery :: "agent_query_request option \<Rightarrow> agent_query_request res" where
  "NormalizeAgentQuery request =
     bindR (NormalizeAgentSelection request) (\<lambda>value.
       bindR (ValidateAgentTarget (qr_target value) (qr_kind value \<noteq> QUERY_GET)) (\<lambda>_. Inr value))"

definition ValidCommandID :: "string \<Rightarrow> bool" where
  "ValidCommandID cid = commandID cid"

definition ValidIdempotencyKey :: "string \<Rightarrow> bool" where
  "ValidIdempotencyKey key = commandToken key"

definition ValidateAgentQuery :: "pb \<Rightarrow> agent_query option \<Rightarrow> string \<Rightarrow> unit res" where
  "ValidateAgentQuery P query nodeID = (case query of
     None \<Rightarrow> Inl (Msg ''invalid agent query envelope'')
   | Some q \<Rightarrow>
       if aq_unk q \<noteq> [] \<or> \<not> ValidCommandID (aq_id q) \<or>
          getter qr_node (aq_request q) \<noteq> nodeID \<or>
          (case aq_expires q of None \<Rightarrow> True | Some t \<Rightarrow> \<not> ts_valid P t \<or> ts_unk t \<noteq> [])
       then Inl (Msg ''invalid agent query envelope'')
       else bindR (NormalizeAgentQuery (aq_request q)) (\<lambda>_. Inr ()))"

section \<open>Terminal text\<close>

text \<open>The runes \<open>SanitizeAgentText\<close> keeps: no controls but newline and tab, no bidi overrides.\<close>

definition keptRune :: "nat \<Rightarrow> bool" where
  "keptRune r = (\<not> (is_control r \<and> r \<noteq> 10 \<and> r \<noteq> 9 \<or> 8234 \<le> r \<and> r \<le> 8238 \<or> 8294 \<le> r \<and> r \<le> 8297))"

definition SanitizeAgentText :: "string \<Rightarrow> string" where
  "SanitizeAgentText text = strings_filter keptRune text"

definition matchesAgentTarget :: "agent_target option \<Rightarrow> agent_target option \<Rightarrow> bool" where
  "matchesAgentTarget actual want = (case (actual, want) of
     (Some a, Some w) \<Rightarrow> at_pane a = at_pane w \<and>
       matchesSession (at_session a) (at_incarnation a) (at_session w) (at_incarnation w) \<and>
       (at_terminal w = '''' \<or> at_terminal a = at_terminal w) \<and>
       (at_agent_session w = '''' \<or> at_agent_session a = at_agent_session w)
   | _ \<Rightarrow> False)"

definition equalAgentTarget :: "agent_target option \<Rightarrow> agent_target option \<Rightarrow> bool" where
  "equalAgentTarget a b = (case (a, b) of
     (Some x, Some y) \<Rightarrow>
       (if at_incarnation y = '''' then x\<lparr>at_incarnation := ''''\<rparr> else x) = y
   | _ \<Rightarrow> a = b)"

definition queryErrors :: "string list" where
  "queryErrors = [''target_unavailable'', ''target_changed'', ''agent_busy'', ''agent_blocked'',
     ''herdr_unavailable'', ''timeout'', ''unsupported'', ''invalid_request'', ''overloaded'',
     ''canceled'', ''session_manager_unavailable'', ''session_unavailable'', ''session_replaced'',
     ''session_start_failed'', ''unsupported_protocol'', ''session_default_unmanaged'',
     ''session_capacity'', ''precondition_failed'']"

definition ValidateAgentQueryResult ::
  "agent_query_result option \<Rightarrow> agent_query_request option \<Rightarrow> unit res" where
  "ValidateAgentQueryResult result request = (case (result, request) of
     (Some r, Some q) \<Rightarrow>
       if \<not> ValidCommandID (qs_id r) \<or> qs_unk r \<noteq> [] then Inl (Msg ''invalid agent query result'')
       else if qs_error r \<noteq> '''' then
         (if qs_agent r \<noteq> None \<or> qs_text r \<noteq> '''' \<or> qs_truncated r \<or> qs_error r \<notin> set queryErrors
          then Inl (Msg ''invalid agent query error'') else Inr ())
       else if \<not> is_ok (ValidateAgentView (qs_agent r)) \<or>
            \<not> matchesAgentTarget (Option.bind (qs_agent r) av_target) (qr_target q)
       then Inl (Msg ''agent query target mismatch'')
       else if MaxAgentOutputBytes < length (qs_text r) \<or> \<not> valid_utf8 (qs_text r) \<or>
            SanitizeAgentText (qs_text r) \<noteq> qs_text r
       then Inl (Msg ''invalid or excessive agent output'')
       else if qr_kind q \<noteq> QUERY_READ \<and> (qs_text r \<noteq> '''' \<or> qs_truncated r)
       then Inl (Msg ''non-read query returned terminal output'')
       else if qr_kind q = QUERY_WAIT then
         (case NormalizeAgentQuery (Some q) of
            Inl e \<Rightarrow> Inl (Msg ''wait returned an unmatched state'')
          | Inr n \<Rightarrow>
              if (case qs_agent r of None \<Rightarrow> '''' | Some v \<Rightarrow> av_status v) \<notin> set (qr_until n)
              then Inl (Msg ''wait returned an unmatched state'') else Inr ())
       else Inr ()
   | _ \<Rightarrow> Inl (Msg ''invalid agent query result''))"

section \<open>Facts\<close>

lemma ValidateAgentTarget_ok:
  "ValidateAgentTarget t req = Inr () \<longleftrightarrow> (\<exists>a. t = Some a \<and> at_unk a = [] \<and> commandToken (at_pane a) \<and>
     (req \<longrightarrow> at_terminal a \<noteq> '''') \<and> (at_terminal a = '''' \<or> commandToken (at_terminal a)) \<and>
     (at_agent_session a = '''' \<or> commandToken (at_agent_session a)) \<and>
     ValidateSessionSelector (at_session a) (at_incarnation a) req = Inr ())"
  by (auto simp: ValidateAgentTarget_def res_simps split: option.splits)

lemma waitStates_ok:
  "waitStates seen ss = Inr () \<longleftrightarrow>
     (\<forall>s \<in> set ss. validAgentStatus s) \<and> distinct ss \<and> set ss \<inter> set seen = {}"
  by (induction ss arbitrary: seen) (auto simp: res_simps)

lemma ValidateAgentTarget_weaken:
  "ValidateAgentTarget t True = Inr () \<Longrightarrow> ValidateAgentTarget t False = Inr ()"
  by (auto simp: ValidateAgentTarget_ok ValidateSessionSelector_ok)

lemma selectionArgs_frame:
  assumes "selectionArgs q = Inr n"
  shows "qr_unk n = qr_unk q" and "qr_node n = qr_node q" and "qr_target n = qr_target q"
    and "qr_timeout n = qr_timeout q" and "qr_kind n = qr_kind q"
  using assms
  by (auto simp: selectionArgs_def Let_def res_simps split: if_splits query_kind.splits)

lemma selectionArgs_idem: "selectionArgs q = Inr n \<Longrightarrow> selectionArgs n = Inr n"
  by (cases "qr_kind q")
    (auto simp: selectionArgs_def Let_def res_simps waitStates_ok split: if_splits)

lemma selectionArgs_until:
  "selectionArgs q = Inr n \<Longrightarrow> qr_kind q = QUERY_WAIT \<Longrightarrow>
    qr_until n \<noteq> [] \<and> distinct (qr_until n) \<and> (\<forall>s \<in> set (qr_until n). validAgentStatus s)"
  by (auto simp: selectionArgs_def Let_def res_simps waitStates_ok split: if_splits)

lemma NormalizeAgentSelection_facts:
  assumes "NormalizeAgentSelection (Some q) = Inr n"
  shows "qr_unk n = []" and "commandToken (qr_node n)" and "qr_target n = qr_target q"
    and "ValidateAgentTarget (qr_target n) False = Inr ()" and "qr_timeout n \<noteq> 0"
    and "qr_timeout n \<le> MaxAgentQueryTimeoutMs" and "qr_kind n = qr_kind q"
    and "selectionArgs n = Inr n"
  using assms
  by (auto simp: NormalizeAgentSelection_def Let_def res_simps not_less selectionArgs_frame
      selectionArgs_idem split: if_splits)

lemma NormalizeAgentSelection_idem:
  assumes "NormalizeAgentSelection (Some q) = Inr n"
  shows "NormalizeAgentSelection (Some n) = Inr n"
  using NormalizeAgentSelection_facts [OF assms]
  by (simp add: NormalizeAgentSelection_def Let_def not_less)

end
