(* ===== verification/ProtoLifecycle.thy ===== *)
theory ProtoLifecycle
  imports ProtoAgents
begin

text \<open>
  lifecycle.go and lifecycle\_limits.go of the protocol package: the start and stop requests of an
  agent, the receipt that records which native effects were intended and which were confirmed, the
  rules by which a receipt may advance, and the predicates the journals use on receipts.
\<close>

section \<open>Limits\<close>

definition AgentStartCommandType :: string where "AgentStartCommandType = ''agent.start.v1''"
definition AgentStopCommandType :: string where "AgentStopCommandType = ''agent.stop.v1''"
definition DefaultAgentStartupTimeoutMs :: "32 word" where "DefaultAgentStartupTimeoutMs = 30000"
definition MaxAgentStartupTimeoutMs :: "32 word" where "MaxAgentStartupTimeoutMs = 300000"
definition MaxLifecycleReceiptBytes :: nat where "MaxLifecycleReceiptBytes = 4096"
definition MaxLifecycleEvents :: nat where "MaxLifecycleEvents = 8"
definition LifecycleSetupAllowance :: int where "LifecycleSetupAllowance = 30 * 1000000000"

definition IsLifecycleCommand :: "string \<Rightarrow> bool" where
  "IsLifecycleCommand kind = (kind = AgentStartCommandType \<or> kind = AgentStopCommandType)"

definition NormalizeAgentStartupTimeout :: "32 word \<Rightarrow> (32 word) res" where
  "NormalizeAgentStartupTimeout ms =
     (if ms = 0 then Inr DefaultAgentStartupTimeoutMs
      else if ms \<le> 3000 \<or> ms > MaxAgentStartupTimeoutMs
      then Inl (Msg ''agent startup timeout must be 3001..300000 milliseconds'')
      else Inr ms)"

definition LifecycleExecutionDeadline :: "int \<Rightarrow> 32 word \<Rightarrow> int res" where
  "LifecycleExecutionDeadline dispatchDeadline startupMs =
     bindR (NormalizeAgentStartupTimeout startupMs) (\<lambda>ms.
       Inr (dispatchDeadline + (int (unat ms) * 1000000 + LifecycleSetupAllowance)))"

section \<open>Requests\<close>

definition lifecycleProviders :: "string list" where
  "lifecycleProviders = [''pi'', ''claude'', ''codex'', ''gemini'', ''cursor'', ''devin'', ''agy'',
     ''cline'', ''omp'', ''mastracode'', ''opencode'', ''copilot'', ''kimi'', ''kiro'', ''droid'',
     ''amp'', ''grok'', ''hermes'', ''kilo'', ''qodercli'', ''maki'']"

definition SupportedLifecycleProvider :: "string \<Rightarrow> bool" where
  "SupportedLifecycleProvider provider = (provider \<in> set lifecycleProviders)"

definition ValidateAgentStart :: "agent_start option \<Rightarrow> unit res" where
  "ValidateAgentStart value = (case value of
     None \<Rightarrow> Inl (Msg ''start requires project/revision, workspace, name and supported provider'')
   | Some v \<Rightarrow>
       if as_unk v \<noteq> [] \<or> \<not> commandToken (as_project v) \<or> \<not> commandToken (as_revision v) \<or>
          \<not> commandToken (as_workspace v) \<or> \<not> commandToken (as_name v) \<or>
          \<not> SupportedLifecycleProvider (as_provider v)
       then Inl (Msg ''start requires project/revision, workspace, name and supported provider'')
       else bindR (NormalizeAgentStartupTimeout (as_timeout v)) (\<lambda>_.
         bindR (if as_prompt v \<noteq> ''''
                then ValidateAgentControlInput ACTION_PROMPT (as_prompt v) [] else Inr ()) (\<lambda>_.
           ValidateSessionSelector (as_session v) (as_incarnation v) False)))"

definition ValidateAgentStop :: "agent_stop option \<Rightarrow> unit res" where
  "ValidateAgentStop value = (case value of
     None \<Rightarrow> Inl (Msg ''stop requires exact session incarnation, workspace, tab, pane, terminal and provider'')
   | Some v \<Rightarrow>
       if st_unk v \<noteq> [] \<or> \<not> is_ok (ValidateAgentTarget (st_target v) True) \<or>
          \<not> ValidSessionIncarnation (getter at_incarnation (st_target v)) \<or>
          \<not> commandToken (st_workspace v) \<or> \<not> commandToken (st_tab v) \<or>
          \<not> SupportedLifecycleProvider (st_provider v)
       then Inl (Msg ''stop requires exact session incarnation, workspace, tab, pane, terminal and provider'')
       else Inr ())"

section \<open>Receipts\<close>

definition LifecycleStageOutcome :: "receipt \<Rightarrow> string \<Rightarrow> string" where
  "LifecycleStageOutcome r stage =
     (if stage = ''create_pane'' then lr_pane r
      else if stage = ''launch'' then lr_launch r
      else if stage = ''prompt'' then lr_prompt r
      else if stage = ''close_pane'' then lr_stop r
      else '''')"

definition outcomes :: "string list" where
  "outcomes = [''not_attempted'', ''unknown'', ''confirmed'']"

definition stageNames :: "string list" where
  "stageNames = [''create_pane'', ''launch'', ''prompt'', ''close_pane'']"

text \<open>The map \<open>last\<close>: the outcome each stage has reached, the empty string for an unknown stage.\<close>

definition noAttempts :: "string \<Rightarrow> string" where
  "noAttempts s = (if s \<in> set stageNames then ''not_attempted'' else '''')"

text \<open>\<open>command.SubmittedRequest.GetAgentStart().GetInitialPrompt()\<close>\<close>

definition submittedPrompt :: "command \<Rightarrow> string" where
  "submittedPrompt c = getter as_prompt (Option.bind (c_submitted c) sr_start)"

text \<open>One turn of the loop over the stages, after the events \<open>prior\<close>.\<close>

definition stageCheck ::
  "command \<Rightarrow> lifecycle_stage list \<Rightarrow> (string \<Rightarrow> string) \<Rightarrow> lifecycle_stage \<Rightarrow> unit res" where
  "stageCheck c prior reached e =
     (if ls_unk e \<noteq> [] \<or> reached (ls_stage e) = '''' then Inl (Msg ''invalid lifecycle stage'')
      else if c_start c \<noteq> None \<and> ls_stage e = ''close_pane'' \<or>
              c_stop c \<noteq> None \<and> ls_stage e \<noteq> ''close_pane''
      then Inl (Msg ''unexpected lifecycle stage'')
      else if ls_before e then
        (if ls_outcome e \<noteq> ''unknown'' \<or> reached (ls_stage e) \<noteq> ''not_attempted'' \<or>
            prior \<noteq> [] \<and> ls_before (last prior) \<or>
            ls_stage e = ''launch'' \<and> reached ''create_pane'' \<noteq> ''confirmed'' \<or>
            ls_stage e = ''prompt'' \<and> reached ''launch'' \<noteq> ''confirmed''
         then Inl (Msg ''invalid lifecycle intent order'')
         else each (\<lambda>p. if ls_stage p = ls_stage e
                then Inl (Msg ''lifecycle effect may not be retried'') else Inr ()) prior)
      else if prior = [] \<or> \<not> ls_before (last prior) \<or> ls_stage (last prior) \<noteq> ls_stage e \<or>
              ls_outcome e \<notin> set outcomes
      then Inl (Msg ''lifecycle completion has no matching intent'')
      else Inr ())"

fun stageLoop ::
  "command \<Rightarrow> lifecycle_stage list \<Rightarrow> (string \<Rightarrow> string) \<Rightarrow> lifecycle_stage list \<Rightarrow> (string \<Rightarrow> string) res" where
  "stageLoop c prior reached [] = Inr reached"
| "stageLoop c prior reached (e # es) =
     bindR (stageCheck c prior reached e) (\<lambda>_.
       stageLoop c (prior @ [e]) (reached(ls_stage e := ls_outcome e)) es)"

definition receiptHandle :: "receipt \<Rightarrow> unit res" where
  "receiptHandle r = (case lr_handle r of
     None \<Rightarrow> Inl (Msg ''checkpoint requires a pinned native incarnation'')
   | Some h \<Rightarrow> (case lh_target h of
       None \<Rightarrow> Inl (Msg ''checkpoint requires a pinned native incarnation'')
     | Some t \<Rightarrow>
         if lh_unk h \<noteq> [] \<or> at_unk t \<noteq> [] \<or> \<not> ValidSessionIncarnation (at_incarnation t) \<or>
            \<not> is_ok (ValidateSessionSelector (at_session t) (at_incarnation t) True)
         then Inl (Msg ''checkpoint requires a pinned native incarnation'')
         else each (\<lambda>i. if i \<noteq> '''' \<and> \<not> commandToken i
                then Inl (Msg ''invalid lifecycle handle'') else Inr ())
              [lh_workspace h, lh_tab h, at_pane t, at_terminal t, at_agent_session t]))"

definition startReceiptIdentity :: "receipt \<Rightarrow> lifecycle_handle \<Rightarrow> agent_target \<Rightarrow> agent_start \<Rightarrow> string \<Rightarrow> unit res" where
  "startReceiptIdentity r h t w prompt =
     (if lh_workspace h \<noteq> as_workspace w \<or>
         \<not> matchesSession (at_session t) (at_incarnation t) (as_session w) (as_incarnation w) \<or>
         lh_provider h \<noteq> '''' \<and> lh_provider h \<noteq> ''unknown'' \<and> lh_provider h \<noteq> as_provider w \<or>
         lr_stop r \<noteq> ''not_attempted''
      then Inl (Msg ''start receipt identity mismatch'')
      else if lr_pane r = ''confirmed'' \<and> (lh_tab h = '''' \<or> at_pane t = '''' \<or> at_terminal t = '''') \<or>
              lr_launch r = ''confirmed'' \<and> (lr_pane r \<noteq> ''confirmed'' \<or> lh_provider h \<noteq> as_provider w) \<or>
              lr_prompt r \<noteq> ''not_attempted'' \<and> (lr_launch r \<noteq> ''confirmed'' \<or> prompt = '''')
      then Inl (Msg ''invalid start stage dependencies'')
      else Inr ())"

definition stopReceiptIdentity :: "receipt \<Rightarrow> lifecycle_handle \<Rightarrow> agent_stop option \<Rightarrow> unit res" where
  "stopReceiptIdentity r h stop =
     (if (case stop of None \<Rightarrow> True | Some w \<Rightarrow>
           lh_workspace h \<noteq> st_workspace w \<or> lh_tab h \<noteq> st_tab w \<or> lh_provider h \<noteq> st_provider w \<or>
           lh_target h \<noteq> st_target w) \<or>
         lr_pane r \<noteq> ''not_attempted'' \<or> lr_launch r \<noteq> ''not_attempted'' \<or> lr_prompt r \<noteq> ''not_attempted''
      then Inl (Msg ''stop receipt identity mismatch'') else Inr ())"

definition receiptIdentity :: "receipt \<Rightarrow> command \<Rightarrow> unit res" where
  "receiptIdentity r c = (case lr_handle r of
     None \<Rightarrow> Inl (Msg ''checkpoint requires a pinned native incarnation'')
   | Some h \<Rightarrow> (case lh_target h of
       None \<Rightarrow> Inl (Msg ''checkpoint requires a pinned native incarnation'')
     | Some t \<Rightarrow> (case c_start c of
         Some w \<Rightarrow> startReceiptIdentity r h t w (submittedPrompt c)
       | None \<Rightarrow> stopReceiptIdentity r h (c_stop c))))"

definition ValidateLifecycleReceipt :: "pb \<Rightarrow> receipt option \<Rightarrow> command \<Rightarrow> unit res" where
  "ValidateLifecycleReceipt P r c = (case r of
     None \<Rightarrow> Inl (Msg ''invalid lifecycle checkpoint bounds'')
   | Some r \<Rightarrow>
       if \<not> IsLifecycleCommand (c_type c) \<or> MaxLifecycleReceiptBytes < size_receipt P r \<or>
          lr_unk r \<noteq> [] \<or> MaxLifecycleEvents < length (lr_stages r) \<or>
          unat (lr_sequence r) \<noteq> length (lr_stages r)
       then Inl (Msg ''invalid lifecycle checkpoint bounds'')
       else bindR (each (\<lambda>v. if v \<notin> set outcomes then Inl (Msg ''invalid lifecycle outcome'') else Inr ())
                    [lr_pane r, lr_launch r, lr_prompt r, lr_stop r]) (\<lambda>_.
         if lr_observed r \<noteq> '''' \<and> \<not> validAgentStatus (lr_observed r)
         then Inl (Msg ''invalid lifecycle readiness'')
         else bindR (receiptHandle r) (\<lambda>_.
           bindR (receiptIdentity r c) (\<lambda>_.
             bindR (stageLoop c [] noAttempts (lr_stages r)) (\<lambda>reached.
               each (\<lambda>s. if LifecycleStageOutcome r s \<noteq> reached s
                      then Inl (Msg ''lifecycle summary disagrees with durable stages'') else Inr ())
                 stageNames)))))"

section \<open>Advancing a receipt\<close>

text \<open>The identities that, once known, every later checkpoint has to repeat.\<close>

definition pinnedPairs :: "receipt \<Rightarrow> receipt \<Rightarrow> (string \<times> string) list" where
  "pinnedPairs old next =
     (let a = lr_handle old; b = lr_handle next;
          t = Option.bind a lh_target; u = Option.bind b lh_target in
      [(getter lh_workspace a, getter lh_workspace b), (getter lh_tab a, getter lh_tab b),
       (getter at_pane t, getter at_pane u), (getter at_terminal t, getter at_terminal u),
       (getter at_agent_session t, getter at_agent_session u), (getter at_session t, getter at_session u),
       (getter at_incarnation t, getter at_incarnation u)])"

fun rewritesEvidence :: "lifecycle_stage list \<Rightarrow> lifecycle_stage list \<Rightarrow> bool" where
  "rewritesEvidence (e # es) (f # fs) = (e \<noteq> f \<or> rewritesEvidence es fs)"
| "rewritesEvidence _ _ = False"

definition advanceStep :: "receipt \<Rightarrow> receipt \<Rightarrow> unit res" where
  "advanceStep old next =
     (if length (lr_stages next) < length (lr_stages old)
      then Inl (Msg ''lifecycle checkpoint regressed'')
      else if rewritesEvidence (lr_stages old) (lr_stages next)
      then Inl (Msg ''lifecycle checkpoint rewrote durable evidence'')
      else bindR (each (\<lambda>p. if fst p \<noteq> '''' \<and> fst p \<noteq> snd p
                    then Inl (Msg ''lifecycle checkpoint changed a pinned identity'') else Inr ())
                  (pinnedPairs old next)) (\<lambda>_.
        let a = getter lh_provider (lr_handle old); b = getter lh_provider (lr_handle next) in
        if a \<noteq> '''' \<and> a \<noteq> ''unknown'' \<and> a \<noteq> b
        then Inl (Msg ''lifecycle checkpoint changed provider'')
        else if length (lr_stages old) = length (lr_stages next) \<and> old \<noteq> next
        then Inl (Msg ''lifecycle checkpoint changed without a stage'')
        else Inr ()))"

definition ValidateLifecycleAdvance :: "pb \<Rightarrow> receipt option \<Rightarrow> receipt option \<Rightarrow> command \<Rightarrow> unit res" where
  "ValidateLifecycleAdvance P old next c =
     bindR (ValidateLifecycleReceipt P next c) (\<lambda>_. case (old, next) of
       (Some o', Some n) \<Rightarrow>
         bindR (ValidateLifecycleReceipt P old c) (\<lambda>_. advanceStep o' n)
     | _ \<Rightarrow> Inr ())"

section \<open>Predicates on receipts\<close>

definition receiptOutcomes :: "receipt \<Rightarrow> string list" where
  "receiptOutcomes r = [lr_pane r, lr_launch r, lr_prompt r, lr_stop r]"

definition LifecycleHasUnknown :: "receipt option \<Rightarrow> bool" where
  "LifecycleHasUnknown r = opt_ex (\<lambda>r. ''unknown'' \<in> set (receiptOutcomes r)) r"

definition LifecycleHasEffect :: "receipt option \<Rightarrow> bool" where
  "LifecycleHasEffect r = opt_ex (\<lambda>r. lr_pane r \<noteq> ''not_attempted'' \<or> lr_launch r \<noteq> ''not_attempted'' \<or>
     lr_prompt r \<noteq> ''not_attempted'' \<or> lr_stop r \<noteq> ''not_attempted'') r"

definition LifecycleComplete :: "receipt option \<Rightarrow> command \<Rightarrow> bool" where
  "LifecycleComplete r c = opt_ex (\<lambda>r.
     if c_stop c \<noteq> None then lr_stop r = ''confirmed''
     else lr_pane r = ''confirmed'' \<and> lr_launch r = ''confirmed'' \<and>
       (submittedPrompt c = '''' \<or> lr_prompt r = ''confirmed'')) r"

definition lifecycleDetails :: "string list" where
  "lifecycleDetails = [''agent_started'', ''agent_stopped'', ''lifecycle_partial'',
     ''lifecycle_uncertain'', ''lifecycle_unresolved'', ''node_restarted'', ''server_restarted'',
     ''node_disconnected'', ''deadline_expired'', ''journal_full'', ''precondition_failed'',
     ''target_changed'', ''agent_busy'', ''agent_blocked'', ''herdr_unavailable'', ''unsupported'',
     ''authorization_changed'', ''project_not_authorized'', ''persistence_failed'']"

definition ValidLifecycleDetail :: "string \<Rightarrow> bool" where
  "ValidLifecycleDetail detail = (detail \<in> set lifecycleDetails \<or> ValidSessionError detail)"

definition ValidateLifecycleResult :: "pb \<Rightarrow> command_result option \<Rightarrow> command \<Rightarrow> unit res" where
  "ValidateLifecycleResult P result c = (case result of
     None \<Rightarrow> Inl (Msg ''invalid lifecycle result'')
   | Some v \<Rightarrow>
       if cr_id v \<noteq> c_id c \<or> \<not> ValidLifecycleDetail (cr_detail v) \<or> cr_unk v \<noteq> [] \<or>
          cr_payload v \<noteq> None \<or> cr_workspace v \<noteq> None \<or> cr_worktree v \<noteq> None \<or>
          cr_control v \<noteq> None \<or> cr_session v \<noteq> None
       then Inl (Msg ''invalid lifecycle result'')
       else let r = cr_lifecycle v in
         if cr_status v \<noteq> SUCCEEDED \<and> (cr_detail v = ''agent_started'' \<or> cr_detail v = ''agent_stopped'')
         then Inl (Msg ''unsuccessful lifecycle result has a success detail'')
         else bindR (if r \<noteq> None then ValidateLifecycleReceipt P r c else Inr ()) (\<lambda>_.
           if (case cr_status v of
                 SUCCEEDED \<Rightarrow> LifecycleComplete r c \<and>
                   (c_start c \<noteq> None \<and> cr_detail v = ''agent_started'' \<or>
                    c_stop c \<noteq> None \<and> cr_detail v = ''agent_stopped'')
               | INDETERMINATE \<Rightarrow> r = None \<or> LifecycleHasUnknown r \<or> cr_detail v = ''persistence_failed'' \<or>
                   cr_detail v \<in> set [''node_disconnected'', ''server_restarted'', ''deadline_expired'']
               | FAILED \<Rightarrow> LifecycleHasEffect r \<and> \<not> LifecycleHasUnknown r \<and> \<not> LifecycleComplete r c
               | TIMED_OUT \<Rightarrow> \<not> LifecycleHasEffect r \<and> cr_detail v = ''deadline_expired''
               | REJECTED \<Rightarrow> \<not> LifecycleHasEffect r
               | _ \<Rightarrow> False)
           then Inr () else Inl (Msg ''lifecycle status contradicts effect evidence'')))"

section \<open>What an accepted receipt says\<close>

lemma stageLoop_append:
  "stageLoop c prior f (es @ fs) = bindR (stageLoop c prior f es) (\<lambda>g. stageLoop c (prior @ es) g fs)"
  by (induction es arbitrary: prior f) (simp_all add: bindR_assoc cong del: bindR_cong)

lemma stageLoop_snoc:
  "stageLoop c [] f (es @ [e]) = Inr g \<longleftrightarrow>
     (\<exists>h. stageLoop c [] f es = Inr h \<and> stageCheck c es h e = Inr () \<and> g = h(ls_stage e := ls_outcome e))"
  by (auto simp: stageLoop_append res_simps)

lemma stageCheck_intent:
  assumes "stageCheck c prior g e = Inr ()" and "ls_before e"
  shows "ls_outcome e = ''unknown'' \<and> g (ls_stage e) = ''not_attempted'' \<and>
    \<not> (prior \<noteq> [] \<and> ls_before (last prior)) \<and> (\<forall>p \<in> set prior. ls_stage p \<noteq> ls_stage e) \<and>
    (ls_stage e = ''launch'' \<longrightarrow> g ''create_pane'' = ''confirmed'') \<and>
    (ls_stage e = ''prompt'' \<longrightarrow> g ''launch'' = ''confirmed'')"
  using assms unfolding stageCheck_def by (auto simp: each_eq_Inr split: if_splits)

lemma stageCheck_completion:
  assumes "stageCheck c prior g e = Inr ()" and "\<not> ls_before e"
  shows "prior \<noteq> [] \<and> ls_before (last prior) \<and> ls_stage (last prior) = ls_stage e"
  using assms unfolding stageCheck_def by (auto split: if_splits)

text \<open>The loop invariant: the map \<open>last\<close> is what the events so far say.\<close>

definition reachedBy :: "lifecycle_stage list \<Rightarrow> (string \<Rightarrow> string) \<Rightarrow> bool" where
  "reachedBy es g =
     ((\<forall>s. g s \<noteq> noAttempts s \<longrightarrow> (\<exists>e \<in> set es. ls_stage e = s \<and> ls_outcome e = g s)) \<and>
      (es \<noteq> [] \<longrightarrow> g (ls_stage (last es)) = ls_outcome (last es)) \<and>
      (\<forall>e \<in> set es. ls_before e \<longrightarrow> ls_outcome e = ''unknown''))"

lemma stageLoop_reachedBy: "stageLoop c [] noAttempts es = Inr g \<Longrightarrow> reachedBy es g"
proof (induction es arbitrary: g rule: rev_induct)
  case Nil
  then show ?case by (auto simp: reachedBy_def)
next
  case (snoc e es)
  then obtain h where h: "stageLoop c [] noAttempts es = Inr h"
    and chk: "stageCheck c es h e = Inr ()" and g: "g = h(ls_stage e := ls_outcome e)"
    by (auto simp: stageLoop_snoc)
  have r: "reachedBy es h" using snoc.IH h by blast
  have "ls_before e \<Longrightarrow> ls_outcome e = ''unknown''" using stageCheck_intent [OF chk] by blast
  then show ?case using r g unfolding reachedBy_def by auto
qed

lemma noAttempts_unconfirmed: "noAttempts s \<noteq> ''confirmed''"
  by (simp add: noAttempts_def)

lemma reachedBy_confirmed:
  assumes "reachedBy es g" and "g s = ''confirmed''"
  shows "\<exists>e \<in> set es. ls_stage e = s \<and> \<not> ls_before e \<and> ls_outcome e = ''confirmed''"
proof -
  have "g s \<noteq> noAttempts s" using assms(2) noAttempts_unconfirmed [of s] by metis
  then obtain e where e: "e \<in> set es" "ls_stage e = s" "ls_outcome e = ''confirmed''"
    using assms unfolding reachedBy_def by metis
  moreover have "\<not> ls_before e" using assms(1) e unfolding reachedBy_def by auto
  ultimately show ?thesis by blast
qed

text \<open>The discipline of the durable stages: intents are never repeated and respect the dependencies.\<close>

definition onceEach :: "lifecycle_stage list \<Rightarrow> bool" where
  "onceEach es = distinct (map ls_stage (filter ls_before es))"

definition paired :: "lifecycle_stage list \<Rightarrow> bool" where
  "paired es = (\<forall>xs e ys. es = xs @ e # ys \<longrightarrow> \<not> ls_before e \<longrightarrow>
     xs \<noteq> [] \<and> ls_before (last xs) \<and> ls_stage (last xs) = ls_stage e)"

definition confirmedBefore :: "string \<Rightarrow> string \<Rightarrow> lifecycle_stage list \<Rightarrow> bool" where
  "confirmedBefore a b es = (\<forall>xs e ys. es = xs @ e # ys \<longrightarrow> ls_before e \<longrightarrow> ls_stage e = b \<longrightarrow>
     (\<exists>d \<in> set xs. ls_stage d = a \<and> \<not> ls_before d \<and> ls_outcome d = ''confirmed''))"

lemma split_snoc:
  "(es @ [e] = xs @ d # ys) = (ys = [] \<and> es = xs \<and> e = d \<or> (\<exists>zs. ys = zs @ [e] \<and> es = xs @ d # zs))"
  by (cases ys rule: rev_cases) auto

lemma stageLoop_discipline:
  assumes "stageLoop c [] noAttempts es = Inr g"
  shows "onceEach es \<and> paired es \<and> confirmedBefore ''create_pane'' ''launch'' es \<and>
    confirmedBefore ''launch'' ''prompt'' es"
  using assms
proof (induction es arbitrary: g rule: rev_induct)
  case Nil
  then show ?case by (simp add: onceEach_def paired_def confirmedBefore_def)
next
  case (snoc e es)
  then obtain h where h: "stageLoop c [] noAttempts es = Inr h" and chk: "stageCheck c es h e = Inr ()"
    by (auto simp: stageLoop_snoc)
  note IH = snoc.IH [OF h] and r = stageLoop_reachedBy [OF h]
  have once: "onceEach (es @ [e])"
    using IH stageCheck_intent [OF chk] by (auto simp: onceEach_def)
  have pair: "paired (es @ [e])"
    using IH stageCheck_completion [OF chk] unfolding paired_def split_snoc by blast
  have dep: "confirmedBefore a b (es @ [e])"
    if "confirmedBefore a b es" and "ls_before e \<Longrightarrow> ls_stage e = b \<Longrightarrow> h a = ''confirmed''" for a b
    using that reachedBy_confirmed [OF r] unfolding confirmedBefore_def split_snoc by blast
  show ?case using IH once pair dep stageCheck_intent [OF chk] by blast
qed

lemma stageLoop_confirmed_final:
  assumes "stageLoop c [] noAttempts (es @ fs) = Inr g" and "stageLoop c [] noAttempts es = Inr h"
    and "h s = ''confirmed''"
  shows "g s = ''confirmed''"
  using assms(1)
proof (induction fs arbitrary: g rule: rev_induct)
  case Nil
  then show ?case using assms by simp
next
  case (snoc f fs)
  then obtain k where k: "stageLoop c [] noAttempts (es @ fs) = Inr k"
    and chk: "stageCheck c (es @ fs) k f = Inr ()" and g: "g = k(ls_stage f := ls_outcome f)"
    using stageLoop_snoc [of c noAttempts "es @ fs" f g] by auto
  have ks: "k s = ''confirmed''" using snoc.IH k by blast
  have "ls_stage f \<noteq> s"
  proof
    assume "ls_stage f = s"
    show False
    proof (cases "ls_before f")
      case True
      then show ?thesis using stageCheck_intent [OF chk] ks \<open>ls_stage f = s\<close> by auto
    next
      case False
      note c = stageCheck_completion [OF chk False]
      have "k (ls_stage (last (es @ fs))) = ls_outcome (last (es @ fs))"
        using stageLoop_reachedBy [OF k] c unfolding reachedBy_def by blast
      moreover have "ls_outcome (last (es @ fs)) = ''unknown''"
        using stageLoop_reachedBy [OF k] c last_in_set unfolding reachedBy_def by blast
      ultimately show ?thesis using c ks \<open>ls_stage f = s\<close> by simp
    qed
  qed
  then show ?case using g ks by simp
qed

text \<open>An accepted receipt, taken apart.\<close>

lemma ValidateLifecycleReceipt_loop:
  assumes "ValidateLifecycleReceipt P (Some r) c = Inr ()"
  obtains g where "stageLoop c [] noAttempts (lr_stages r) = Inr g"
    "\<And>s. s \<in> set stageNames \<Longrightarrow> LifecycleStageOutcome r s = g s"
    "length (lr_stages r) \<le> MaxLifecycleEvents" "unat (lr_sequence r) = length (lr_stages r)"
    "IsLifecycleCommand (c_type c)" "receiptIdentity r c = Inr ()" "receiptHandle r = Inr ()"
    "lr_unk r = []" "size_receipt P r \<le> MaxLifecycleReceiptBytes"
  using assms unfolding ValidateLifecycleReceipt_def
  by (auto simp: bindR_eq_Inr each_eq_Inr not_less split: if_splits)

lemma accepted_stages:
  assumes "ValidateLifecycleReceipt P (Some r) c = Inr ()"
  shows "onceEach (lr_stages r) \<and> paired (lr_stages r) \<and>
    confirmedBefore ''create_pane'' ''launch'' (lr_stages r) \<and>
    confirmedBefore ''launch'' ''prompt'' (lr_stages r)"
proof -
  obtain g where "stageLoop c [] noAttempts (lr_stages r) = Inr g"
    by (rule ValidateLifecycleReceipt_loop [OF assms])
  then show ?thesis by (rule stageLoop_discipline)
qed

lemma confirmed_outcome_event:
  assumes "ValidateLifecycleReceipt P (Some r) c = Inr ()" and "s \<in> set stageNames"
    and "LifecycleStageOutcome r s = ''confirmed''"
  shows "\<exists>e \<in> set (lr_stages r). ls_stage e = s \<and> \<not> ls_before e \<and> ls_outcome e = ''confirmed''"
proof -
  obtain g where g: "stageLoop c [] noAttempts (lr_stages r) = Inr g"
    "\<And>s. s \<in> set stageNames \<Longrightarrow> LifecycleStageOutcome r s = g s"
    using ValidateLifecycleReceipt_loop [OF assms(1)] by metis
  then show ?thesis using reachedBy_confirmed [OF stageLoop_reachedBy] assms by metis
qed

end
