(* ===== verification/ProtoCommands.thy ===== *)
theory ProtoCommands
  imports ProtoLifecycle
begin

text \<open>
  Commands as the operator submits them and as the coordinator issues them: commands.go,
  workspace.go, worktree.go and sessions.go (requests and selectors), \<open>validateCommandBody\<close> of
  agent.go, \<open>ValidateSubmittedRequest\<close> of projects.go and the submitted-request half of
  lifecycle.go.
\<close>

section \<open>Kinds of commands\<close>

definition ProbeCommandType :: string where "ProbeCommandType = ''node.ping.v1''"
definition AgentControlCommandType :: string where "AgentControlCommandType = ''agent.control.v1''"
definition SessionEnsureCommandType :: string where "SessionEnsureCommandType = ''sessions.ensure.v1''"
definition WorkspaceEnsureCommandType :: string where
  "WorkspaceEnsureCommandType = ''workspace.ensure.v1''"
definition WorktreeCreateCommandType :: string where
  "WorktreeCreateCommandType = ''worktree.create.v1''"

lemmas command_types = ProbeCommandType_def AgentControlCommandType_def SessionEnsureCommandType_def
  WorkspaceEnsureCommandType_def WorktreeCreateCommandType_def AgentStartCommandType_def
  AgentStopCommandType_def IsLifecycleCommand_def

definition DefaultCommandTTL :: int where "DefaultCommandTTL = 10 * 1000000000"
definition MaxCommandTTL :: int where "MaxCommandTTL = 30 * 1000000000"

section \<open>Bodies\<close>

definition ValidateWorkspaceEnsure :: "workspace_ensure option \<Rightarrow> unit res" where
  "ValidateWorkspaceEnsure request = (case request of
     None \<Rightarrow> Inl (Msg ''workspace ensure requires a bounded project ID and binding revision'')
   | Some w \<Rightarrow>
       if \<not> commandToken (we_project w) \<or> \<not> commandToken (we_revision w) \<or> we_unk w \<noteq> []
       then Inl (Msg ''workspace ensure requires a bounded project ID and binding revision'')
       else ValidateSessionSelector (we_session w) (we_incarnation w) False)"

definition ValidateWorktreeCreate :: "worktree_create option \<Rightarrow> unit res" where
  "ValidateWorktreeCreate request = (case request of
     None \<Rightarrow> Inl (Msg ''worktree create requires project/revision, portable name/branch, and a full lowercase commit ID'')
   | Some w \<Rightarrow>
       if \<not> commandToken (wc_project w) \<or> \<not> commandToken (wc_revision w) \<or>
          \<not> ValidWorktreeName (wc_name w) \<or> \<not> ValidWorktreeName (wc_branch w) \<or>
          \<not> commitID (wc_base w) \<or> wc_unk w \<noteq> []
       then Inl (Msg ''worktree create requires project/revision, portable name/branch, and a full lowercase commit ID'')
       else ValidateSessionSelector (wc_session w) (wc_incarnation w) False)"

definition validateCommandBody ::
  "string \<Rightarrow> workspace_ensure option \<Rightarrow> worktree_create option \<Rightarrow> agent_control option \<Rightarrow>
   session_ensure option \<Rightarrow> agent_start option \<Rightarrow> agent_stop option \<Rightarrow> unit res" where
  "validateCommandBody kind workspace worktree agent session start stop =
     (if start \<noteq> None \<or> stop \<noteq> None \<or> IsLifecycleCommand kind then
        (if workspace \<noteq> None \<or> worktree \<noteq> None \<or> agent \<noteq> None \<or> session \<noteq> None
         then Inl (Msg ''mixed lifecycle command arguments'')
         else if kind = AgentStartCommandType \<and> stop = None then ValidateAgentStart start
         else if kind = AgentStopCommandType \<and> start = None then ValidateAgentStop stop
         else Inl (Msg ''invalid lifecycle command arguments''))
      else if session \<noteq> None then
        (if kind = SessionEnsureCommandType \<and> workspace = None \<and> worktree = None \<and> agent = None
         then ValidateSessionEnsure session
         else Inl (Msg ''unsupported or mixed command arguments''))
      else if kind = ProbeCommandType \<and> workspace = None \<and> worktree = None \<and> agent = None then Inr ()
      else if kind = WorkspaceEnsureCommandType \<and> worktree = None \<and> agent = None
      then ValidateWorkspaceEnsure workspace
      else if kind = WorktreeCreateCommandType \<and> workspace = None \<and> agent = None
      then ValidateWorktreeCreate worktree
      else if kind = AgentControlCommandType \<and> workspace = None \<and> worktree = None
      then ValidateAgentControl agent
      else Inl (Msg ''unsupported or mixed command arguments''))"

section \<open>Requests\<close>

definition validTTL :: "pb \<Rightarrow> duration option \<Rightarrow> unit res" where
  "validTTL P ttl = (case ttl of
     None \<Rightarrow> Inl (Msg ''command TTL must be greater than zero and at most 30 seconds'')
   | Some d \<Rightarrow>
       if \<not> du_valid P d \<or> du_unk d \<noteq> [] \<or> as_duration P d \<le> 0 \<or> as_duration P d > MaxCommandTTL
       then Inl (Msg ''command TTL must be greater than zero and at most 30 seconds'') else Inr ())"

definition noCommit :: string where
  "noCommit = replicate 40 (CHR ''0'')"

text \<open>The placeholders a request is checked with (\<open>check\<close> in \<open>NormalizeCommandRequest\<close>).\<close>

definition managedStart :: "agent_start \<Rightarrow> agent_start" where
  "managedStart s = (if as_revision s = '''' then s\<lparr>as_revision := ''managed''\<rparr> else s)"

definition managedWorkspace :: "workspace_ensure \<Rightarrow> workspace_ensure" where
  "managedWorkspace w = (if we_revision w = '''' then w\<lparr>we_revision := ''managed''\<rparr> else w)"

definition managedWorktree :: "worktree_create \<Rightarrow> worktree_create" where
  "managedWorktree w =
     (let w = (if wc_revision w = '''' then w\<lparr>wc_revision := ''managed''\<rparr> else w);
          w = (if wc_branch w = '''' then w\<lparr>wc_branch := wc_name w\<rparr> else w)
      in if wc_base w = '''' then w\<lparr>wc_base := noCommit\<rparr> else w)"

text \<open>A started agent's normalised timeout; the code drops the error, which reads as 0.\<close>

definition normalizedStart :: "agent_start \<Rightarrow> agent_start" where
  "normalizedStart s = s\<lparr>as_timeout :=
     (case NormalizeAgentStartupTimeout (as_timeout s) of Inl e \<Rightarrow> 0 | Inr ms \<Rightarrow> ms)\<rparr>"

definition NormalizeCommandRequest :: "pb \<Rightarrow> submit_request option \<Rightarrow> submit_request res" where
  "NormalizeCommandRequest P request = (case request of
     None \<Rightarrow> Inl (Msg ''node ID and idempotency key must be bounded identifier tokens'')
   | Some r \<Rightarrow>
       if sr_unk r \<noteq> [] \<or> \<not> commandToken (sr_node r) \<or> \<not> ValidIdempotencyKey (sr_key r)
       then Inl (Msg ''node ID and idempotency key must be bounded identifier tokens'')
       else bindR (validateCommandBody (sr_type r) (map_option managedWorkspace (sr_workspace r))
              (map_option managedWorktree (sr_worktree r)) (sr_control r) (sr_session r)
              (map_option managedStart (sr_start r)) (sr_stop r)) (\<lambda>_.
         let r = r\<lparr>sr_start := map_option normalizedStart (sr_start r)\<rparr>;
             r = (if sr_ttl r = None then r\<lparr>sr_ttl := Some (new_du P DefaultCommandTTL)\<rparr> else r)
         in bindR (validTTL P (sr_ttl r)) (\<lambda>_. Inr r)))"

definition NormalizeProbeRequest :: "pb \<Rightarrow> submit_request option \<Rightarrow> submit_request res" where
  "NormalizeProbeRequest P request =
     (if (case request of None \<Rightarrow> True | Some r \<Rightarrow> sr_type r \<noteq> ProbeCommandType)
      then Inl (Msg ''only the read-only node.ping.v1 probe is allowed'')
      else NormalizeCommandRequest P request)"

section \<open>Selectors of a command\<close>

definition projectOf ::
  "string \<Rightarrow> agent_start option \<Rightarrow> workspace_ensure option \<Rightarrow> worktree_create option \<Rightarrow> string \<times> string" where
  "projectOf kind start workspace worktree =
     (if kind = AgentStartCommandType then (getter as_project start, getter as_revision start)
      else if kind = WorkspaceEnsureCommandType
      then (getter we_project workspace, getter we_revision workspace)
      else if kind = WorktreeCreateCommandType
      then (getter wc_project worktree, getter wc_revision worktree)
      else ('''', ''''))"

definition CommandProject :: "command \<Rightarrow> string \<times> string" where
  "CommandProject c = projectOf (c_type c) (c_start c) (c_workspace c) (c_worktree c)"

definition RequestProject :: "submit_request \<Rightarrow> string \<times> string" where
  "RequestProject r = projectOf (sr_type r) (sr_start r) (sr_workspace r) (sr_worktree r)"

definition CommandSession :: "command \<Rightarrow> string \<times> string" where
  "CommandSession c =
     (if c_type c = AgentStartCommandType
      then (getter as_session (c_start c), getter as_incarnation (c_start c))
      else if c_type c = AgentStopCommandType
      then (let t = Option.bind (c_stop c) st_target in (getter at_session t, getter at_incarnation t))
      else if c_type c = WorkspaceEnsureCommandType
      then (getter we_session (c_workspace c), getter we_incarnation (c_workspace c))
      else if c_type c = WorktreeCreateCommandType
      then (getter wc_session (c_worktree c), getter wc_incarnation (c_worktree c))
      else if c_type c = AgentControlCommandType
      then (let t = Option.bind (c_control c) ag_target in (getter at_session t, getter at_incarnation t))
      else if c_type c = SessionEnsureCommandType then (getter se_name (c_session c), '''')
      else ('''', ''''))"

section \<open>The original request inside a command\<close>

definition validateLifecycleSubmitted :: "command \<Rightarrow> submit_request \<Rightarrow> unit res" where
  "validateLifecycleSubmitted c r =
     (if c_type c = AgentStopCommandType then
        (if c_stop c \<noteq> sr_stop r then Inl (Msg ''stop fingerprint mismatch'') else Inr ())
      else case (c_start c, sr_start r) of
        (Some got, Some want) \<Rightarrow>
          if as_prompt got \<noteq> ''''
          then Inl (Msg ''resolved start must store its prompt only in the submitted request'')
          else if as_revision want \<noteq> '''' \<and> as_revision want \<noteq> as_revision got \<or>
            \<not> matchesSession (as_session got) (as_incarnation got) (as_session want) (as_incarnation want)
          then Inl (Msg ''resolved start project/session mismatch'')
          else if want\<lparr>as_revision := as_revision got, as_incarnation := as_incarnation got,
                       as_prompt := ''''\<rparr> \<noteq> got
          then Inl (Msg ''resolved start changed original operator input'')
          else Inr ()
      | _ \<Rightarrow> Inl (Msg ''resolved start must store its prompt only in the submitted request''))"

definition managedRevision :: "string \<Rightarrow> bool" where
  "managedRevision revision = has_prefix revision ''managed:''"

definition submittedWorkspace :: "command \<Rightarrow> workspace_ensure \<Rightarrow> unit res" where
  "submittedWorkspace c w =
     (let (project, revision) = CommandProject c; (name, incarnation) = CommandSession c in
      if c_workspace c = None \<or> we_project w \<noteq> project \<or>
         we_revision w \<noteq> '''' \<and> we_revision w \<noteq> revision \<or>
         we_revision w = '''' \<and> \<not> managedRevision revision \<or>
         \<not> matchesSession name incarnation (we_session w) (we_incarnation w)
      then Inl (Msg ''managed workspace identity mismatch'') else Inr ())"

definition submittedWorktree :: "command \<Rightarrow> worktree_create \<Rightarrow> unit res" where
  "submittedWorktree c w =
     (let (project, revision) = CommandProject c; (name, incarnation) = CommandSession c;
          branch = (if wc_branch w = '''' then wc_name w else wc_branch w) in
      case c_worktree c of
        None \<Rightarrow> Inl (Msg ''managed worktree identity mismatch'')
      | Some got \<Rightarrow>
          if wc_project w \<noteq> project \<or> wc_revision w \<noteq> '''' \<and> wc_revision w \<noteq> revision \<or>
             wc_revision w = '''' \<and> \<not> managedRevision revision \<or>
             \<not> matchesSession name incarnation (wc_session w) (wc_incarnation w) \<or>
             wc_name w \<noteq> wc_name got \<or> branch \<noteq> wc_branch got \<or> wc_base w \<noteq> wc_base got
          then Inl (Msg ''managed worktree identity mismatch'') else Inr ())"

definition submittedBody :: "command \<Rightarrow> submit_request \<Rightarrow> unit res" where
  "submittedBody c r =
     (if c_type c = AgentStartCommandType \<or> c_type c = AgentStopCommandType
      then validateLifecycleSubmitted c r
      else if c_type c = SessionEnsureCommandType then
        (if sr_session r \<noteq> c_session c then Inl (Msg ''original session identity mismatch'') else Inr ())
      else if c_type c = AgentControlCommandType then
        (if sr_control r \<noteq> c_control c then Inl (Msg ''original agent identity mismatch'') else Inr ())
      else let (project, revision) = CommandProject c; (name, incarnation) = CommandSession c in
        if project = '''' \<or> \<not> managedRevision revision \<and> name = '''' \<and> incarnation = ''''
        then Inl (Msg ''managed request requires a resolved configuration'')
        else case sr_workspace r of
          Some w \<Rightarrow> submittedWorkspace c w
        | None \<Rightarrow> (case sr_worktree r of
            Some w \<Rightarrow> submittedWorktree c w
          | None \<Rightarrow> Inl (Msg ''managed request has no project'')))"

definition ValidateSubmittedRequest :: "pb \<Rightarrow> command \<Rightarrow> unit res" where
  "ValidateSubmittedRequest P c = (case c_submitted c of
     None \<Rightarrow> Inl (Msg ''original request is required'')
   | Some s \<Rightarrow> (case NormalizeCommandRequest P (Some s) of
       Inl e \<Rightarrow> Inl (Msg ''invalid original managed request'')
     | Inr r \<Rightarrow>
         if r \<noteq> s \<or> sr_node r \<noteq> c_target c \<or> sr_type r \<noteq> c_type c \<or> sr_key r \<noteq> c_key c
         then Inl (Msg ''invalid original managed request'')
         else submittedBody c r))"

text \<open>\<open>EffectiveAgentStart\<close>: the start with the prompt stored once, in the submitted request.\<close>

definition EffectiveAgentStart :: "pb \<Rightarrow> command \<Rightarrow> agent_start res" where
  "EffectiveAgentStart P c = (case c_start c of
     None \<Rightarrow> Inl (Msg ''invalid lifecycle submitted fingerprint'')
   | Some s \<Rightarrow>
       if \<not> is_ok (ValidateSubmittedRequest P c)
       then Inl (Msg ''invalid lifecycle submitted fingerprint'')
       else Inr (s\<lparr>as_prompt := submittedPrompt c\<rparr>))"

section \<open>Issued commands\<close>

text \<open>A nil timestamp reads as the epoch (\<open>AsTime\<close> through the getters of a nil pointer).\<close>

definition asTimeOf :: "pb \<Rightarrow> timestamp option \<Rightarrow> int" where
  "asTimeOf P t = (case t of None \<Rightarrow> 0 | Some t \<Rightarrow> as_time P t)"

definition CommandExecutionDeadline :: "pb \<Rightarrow> command \<Rightarrow> int" where
  "CommandExecutionDeadline P c = (case c_exec_expires c of
     Some t \<Rightarrow> as_time P t
   | None \<Rightarrow> asTimeOf P (c_expires c))"

text \<open>The worktree \<open>ValidateCommand\<close> checks: an unpinned base stands for any commit.\<close>

definition checkedWorktree :: "command \<Rightarrow> worktree_create option" where
  "checkedWorktree c =
     (if c_submitted c \<noteq> None
      then map_option (\<lambda>w. if wc_base w = '''' then w\<lparr>wc_base := noCommit\<rparr> else w) (c_worktree c)
      else c_worktree c)"

definition validCommandActor :: "actor option \<Rightarrow> bool" where
  "validCommandActor a = (case a of None \<Rightarrow> False
     | Some a \<Rightarrow> commandToken (ac_id a) \<and> ac_role a = ROLE_CONTROLLER \<and>
         ac_origin a = ORIGIN_UNSPECIFIED \<and> ac_hops a = 0 \<and> ac_unk a = [])"

definition validExpiry :: "pb \<Rightarrow> timestamp option \<Rightarrow> bool" where
  "validExpiry P t = (case t of None \<Rightarrow> False | Some t \<Rightarrow> ts_valid P t \<and> ts_unk t = [])"

definition validateExecution :: "pb \<Rightarrow> command \<Rightarrow> unit res" where
  "validateExecution P c = (case c_start c of
     Some s \<Rightarrow>
       (case LifecycleExecutionDeadline (asTimeOf P (c_expires c)) (as_timeout s) of
          Inl e \<Rightarrow> Inl (Msg ''start requires original request and fixed separate execution deadline'')
        | Inr expected \<Rightarrow>
            if c_submitted c = None \<or> \<not> validExpiry P (c_exec_expires c) \<or>
               asTimeOf P (c_exec_expires c) \<noteq> expected
            then Inl (Msg ''start requires original request and fixed separate execution deadline'')
            else Inr ())
   | None \<Rightarrow>
       if c_exec_expires c \<noteq> None \<or> c_stop c \<noteq> None \<and> c_submitted c = None
       then Inl (Msg ''invalid lifecycle expiry or missing original stop request'') else Inr ())"

definition ValidateCommand :: "pb \<Rightarrow> command option \<Rightarrow> string \<Rightarrow> unit res" where
  "ValidateCommand P command nodeID = (case command of
     None \<Rightarrow> Inl (Msg ''invalid or unsupported node command'')
   | Some c \<Rightarrow>
       if \<not> ValidCommandID (c_id c) \<or> c_target c \<noteq> nodeID \<or> \<not> commandToken (c_target c) \<or>
          \<not> commandToken (c_key c) \<or> c_unk c \<noteq> []
       then Inl (Msg ''invalid or unsupported node command'')
       else if IsLifecycleCommand (c_type c) \<and>
          16 * 1024 < size_command P c + MaxLifecycleReceiptBytes + 1024
       then Inl (Msg ''lifecycle command exceeds request budget reserved for durable receipt and audit'')
       else bindR (if c_submitted c \<noteq> None then ValidateSubmittedRequest P c else Inr ()) (\<lambda>_.
         bindR (validateCommandBody (c_type c) (c_workspace c) (checkedWorktree c) (c_control c)
                  (c_session c) (c_start c) (c_stop c)) (\<lambda>_.
           if \<not> validCommandActor (c_actor c) then Inl (Msg ''invalid command actor'')
           else if c_payload c \<noteq> None \<or> c_preconditions c \<noteq> None
           then Inl (Msg ''untyped payloads and preconditions are not supported'')
           else if \<not> validExpiry P (c_expires c) then Inl (Msg ''command expiry is required'')
           else bindR (validateExecution P c) (\<lambda>_. validTTL P (c_ttl c)))))"

definition ValidateProbeCommand :: "pb \<Rightarrow> command option \<Rightarrow> string \<Rightarrow> unit res" where
  "ValidateProbeCommand P command nodeID =
     (if (case command of None \<Rightarrow> True | Some c \<Rightarrow> c_type c \<noteq> ProbeCommandType)
      then Inl (Msg ''invalid probe type'') else ValidateCommand P command nodeID)"

definition IsTerminalCommand :: "command_status \<Rightarrow> bool" where
  "IsTerminalCommand status = (status \<in> {SUCCEEDED, FAILED, TIMED_OUT, REJECTED, INDETERMINATE, NODE_UNAVAILABLE})"

section \<open>Facts\<close>

lemma NormalizeAgentStartupTimeout_ok:
  "NormalizeAgentStartupTimeout ms = Inr n \<Longrightarrow>
     3000 < n \<and> n \<le> MaxAgentStartupTimeoutMs \<and> NormalizeAgentStartupTimeout n = Inr n"
  by (auto simp: NormalizeAgentStartupTimeout_def DefaultAgentStartupTimeoutMs_def
      MaxAgentStartupTimeoutMs_def not_le not_less split: if_splits)

lemma ValidateAgentStart_timeout:
  "ValidateAgentStart (Some s) = Inr () \<Longrightarrow> \<exists>n. NormalizeAgentStartupTimeout (as_timeout s) = Inr n"
  by (auto simp: ValidateAgentStart_def res_simps)

lemma ValidateAgentStart_set_timeout:
  assumes "ValidateAgentStart (Some s) = Inr ()" and "NormalizeAgentStartupTimeout n = Inr m"
  shows "ValidateAgentStart (Some (s\<lparr>as_timeout := n\<rparr>)) = Inr ()"
  using assms by (auto simp: ValidateAgentStart_def res_simps)

lemma managedStart_timeout: "as_timeout (managedStart s) = as_timeout s"
  by (simp add: managedStart_def)

lemma managedStart_set_timeout:
  "managedStart (s\<lparr>as_timeout := n\<rparr>) = (managedStart s)\<lparr>as_timeout := n\<rparr>"
  by (simp add: managedStart_def)

lemma normalizedStart_idem:
  assumes "NormalizeAgentStartupTimeout (as_timeout s) = Inr n"
  shows "normalizedStart (normalizedStart s) = normalizedStart s" "normalizedStart s = s\<lparr>as_timeout := n\<rparr>"
  using NormalizeAgentStartupTimeout_ok [OF assms] assms by (simp_all add: normalizedStart_def)

text \<open>The kinds of the arguments a command carries: exactly the one its type names.\<close>

definition bodyKinds ::
  "workspace_ensure option \<Rightarrow> worktree_create option \<Rightarrow> agent_control option \<Rightarrow>
   session_ensure option \<Rightarrow> agent_start option \<Rightarrow> agent_stop option \<Rightarrow> string list" where
  "bodyKinds workspace worktree agent session start stop =
     (if workspace = None then [] else [WorkspaceEnsureCommandType]) @
     (if worktree = None then [] else [WorktreeCreateCommandType]) @
     (if agent = None then [] else [AgentControlCommandType]) @
     (if session = None then [] else [SessionEnsureCommandType]) @
     (if start = None then [] else [AgentStartCommandType]) @
     (if stop = None then [] else [AgentStopCommandType])"

lemma validateCommandBody_kind:
  assumes "validateCommandBody kind ws wt ag se st sp = Inr ()"
  shows "bodyKinds ws wt ag se st sp = (if kind = ProbeCommandType then [] else [kind])"
  using assms unfolding validateCommandBody_def bodyKinds_def
  by (auto simp: command_types ValidateWorkspaceEnsure_def ValidateWorktreeCreate_def
      ValidateAgentControl_def ValidateAgentStart_def ValidateAgentStop_def
      split: if_splits option.splits)

lemma validateCommandBody_start:
  assumes "validateCommandBody kind ws wt ag se (Some s) sp = Inr ()"
  shows "kind = AgentStartCommandType" "ValidateAgentStart (Some s) = Inr ()"
    "ws = None" "wt = None" "ag = None" "se = None" "sp = None"
  using assms unfolding validateCommandBody_def
  by (auto split: if_splits)

lemma validateCommandBody_new_start:
  assumes "validateCommandBody kind ws wt ag se (Some s) sp = Inr ()"
    and "ValidateAgentStart (Some t) = Inr ()"
  shows "validateCommandBody kind ws wt ag se (Some t) sp = Inr ()"
  using assms unfolding validateCommandBody_def by (auto split: if_splits)

lemma NormalizeCommandRequest_parts:
  assumes "NormalizeCommandRequest P (Some q) = Inr r"
  shows "sr_unk r = []" "commandToken (sr_node r)" "ValidIdempotencyKey (sr_key r)"
    "validTTL P (sr_ttl r) = Inr ()" "sr_node r = sr_node q" "sr_key r = sr_key q" "sr_type r = sr_type q"
    "sr_workspace r = sr_workspace q" "sr_worktree r = sr_worktree q" "sr_control r = sr_control q"
    "sr_session r = sr_session q" "sr_stop r = sr_stop q"
    "sr_start r = map_option normalizedStart (sr_start q)"
    "validateCommandBody (sr_type q) (map_option managedWorkspace (sr_workspace q))
       (map_option managedWorktree (sr_worktree q)) (sr_control q) (sr_session q)
       (map_option managedStart (sr_start q)) (sr_stop q) = Inr ()"
  using assms by (auto simp: NormalizeCommandRequest_def Let_def res_simps split: if_splits)

lemma NormalizeCommandRequest_start:
  assumes "NormalizeCommandRequest P (Some q) = Inr r" and "sr_start q = Some s"
  obtains n where "NormalizeAgentStartupTimeout (as_timeout s) = Inr n"
    "sr_start r = Some (s\<lparr>as_timeout := n\<rparr>)" "ValidateAgentStart (Some (managedStart s)) = Inr ()"
proof -
  note p = NormalizeCommandRequest_parts [OF assms(1)]
  have v: "ValidateAgentStart (Some (managedStart s)) = Inr ()"
    using p(14) assms(2) validateCommandBody_start(2) by simp
  then obtain n where n: "NormalizeAgentStartupTimeout (as_timeout s) = Inr n"
    using ValidateAgentStart_timeout managedStart_timeout by metis
  have "sr_start r = Some (s\<lparr>as_timeout := n\<rparr>)"
    using p(13) assms(2) normalizedStart_idem(2) [OF n] by simp
  then show thesis using that n v by blast
qed

lemma NormalizeCommandRequest_idem:
  assumes "NormalizeCommandRequest P (Some q) = Inr r"
  shows "NormalizeCommandRequest P (Some r) = Inr r"
proof -
  note p = NormalizeCommandRequest_parts [OF assms]
  obtain d where ttl: "sr_ttl r = Some d" using p(4) by (auto simp: validTTL_def split: option.splits)
  have body: "validateCommandBody (sr_type r) (map_option managedWorkspace (sr_workspace r))
      (map_option managedWorktree (sr_worktree r)) (sr_control r) (sr_session r)
      (map_option managedStart (sr_start r)) (sr_stop r) = Inr ()
    \<and> map_option normalizedStart (sr_start r) = sr_start r"
  proof (cases "sr_start q")
    case None
    then show ?thesis using p by simp
  next
    case (Some s)
    obtain n where n: "NormalizeAgentStartupTimeout (as_timeout s) = Inr n"
      "sr_start r = Some (s\<lparr>as_timeout := n\<rparr>)" "ValidateAgentStart (Some (managedStart s)) = Inr ()"
      by (rule NormalizeCommandRequest_start [OF assms Some])
    have nn: "NormalizeAgentStartupTimeout n = Inr n" using NormalizeAgentStartupTimeout_ok [OF n(1)] by blast
    have "ValidateAgentStart (Some (managedStart (s\<lparr>as_timeout := n\<rparr>))) = Inr ()"
      using ValidateAgentStart_set_timeout [OF n(3) nn] by (simp add: managedStart_set_timeout)
    then show ?thesis
      using p n nn Some validateCommandBody_new_start by (simp add: normalizedStart_def)
  qed
  have "r\<lparr>sr_start := map_option normalizedStart (sr_start r)\<rparr> = r" using body by simp
  then show ?thesis
    using p(1-4) body ttl unfolding NormalizeCommandRequest_def Let_def by simp
qed

text \<open>What an accepted command says, one fact per check.\<close>

lemma ValidateCommand_parts:
  assumes "ValidateCommand P (Some c) node = Inr ()"
  shows "ValidCommandID (c_id c)" "c_target c = node" "commandToken node" "commandToken (c_key c)"
    "c_unk c = []" "c_submitted c \<noteq> None \<Longrightarrow> ValidateSubmittedRequest P c = Inr ()"
    "validateCommandBody (c_type c) (c_workspace c) (checkedWorktree c) (c_control c)
       (c_session c) (c_start c) (c_stop c) = Inr ()"
    "validCommandActor (c_actor c)" "c_payload c = None" "c_preconditions c = None"
    "validExpiry P (c_expires c)" "validateExecution P c = Inr ()" "validTTL P (c_ttl c) = Inr ()"
    "IsLifecycleCommand (c_type c) \<Longrightarrow> size_command P c + 5120 \<le> 16384"
  using assms by (auto simp: ValidateCommand_def MaxLifecycleReceiptBytes_def res_simps split: if_splits)

lemma ValidateSubmittedRequest_parts:
  assumes "ValidateSubmittedRequest P c = Inr ()"
  obtains s where "c_submitted c = Some s" "NormalizeCommandRequest P (Some s) = Inr s"
    "sr_node s = c_target c" "sr_type s = c_type c" "sr_key s = c_key c" "submittedBody c s = Inr ()"
  using assms by (auto simp: ValidateSubmittedRequest_def res_simps split: option.splits sum.splits if_splits)

lemma submittedBody_start:
  assumes "submittedBody c s = Inr ()" and "c_type c = AgentStartCommandType" and "c_start c = Some got"
  obtains want where "sr_start s = Some want" "as_prompt got = ''''"
    "got = want\<lparr>as_revision := as_revision got, as_incarnation := as_incarnation got, as_prompt := ''''\<rparr>"
    "as_revision want = '''' \<or> as_revision want = as_revision got"
    "as_incarnation want = '''' \<or> as_incarnation want = as_incarnation got"
  using assms unfolding submittedBody_def validateLifecycleSubmitted_def
  by (auto simp: command_types matchesSession_def split: option.splits if_splits)

end
