(* ===== verification/ProtoResults.thy ===== *)
theory ProtoResults
  imports ProtoCommands
begin

text \<open>
  Results of commands as a node reports them: the validator of every kind of result
  (commands.go, workspace.go, worktree.go, sessions.go, agent.go of the protocol package), the
  validator a result passes without its command, and the one that checks it against the command.
\<close>

section \<open>Results by kind\<close>

definition ValidateProbeResult :: "command_result option \<Rightarrow> unit res" where
  "ValidateProbeResult result = (case result of
     None \<Rightarrow> Inl (Msg ''invalid command result'')
   | Some r \<Rightarrow>
       if \<not> ValidCommandID (cr_id r) \<or> cr_payload r \<noteq> None \<or> cr_workspace r \<noteq> None \<or>
          cr_worktree r \<noteq> None \<or> cr_control r \<noteq> None \<or> cr_session r \<noteq> None \<or>
          cr_lifecycle r \<noteq> None \<or> cr_unk r \<noteq> []
       then Inl (Msg ''invalid command result'')
       else if (case cr_status r of
              SUCCEEDED \<Rightarrow> cr_detail r = ''pong''
            | TIMED_OUT \<Rightarrow> cr_detail r = ''deadline_expired''
            | REJECTED \<Rightarrow> cr_detail r = ''journal_full''
            | INDETERMINATE \<Rightarrow> cr_detail r = ''node_restarted''
            | _ \<Rightarrow> False)
       then Inr () else Inl (Msg ''invalid probe outcome''))"

definition workspaceRejections :: "string list" where
  "workspaceRejections = [''journal_full'', ''project_unresolved'', ''project_not_authorized'',
     ''precondition_failed'', ''ambiguous_workspace'', ''herdr_unavailable'', ''authorization_changed'']"

definition ValidateWorkspaceResult :: "command_result option \<Rightarrow> unit res" where
  "ValidateWorkspaceResult result = (case result of
     None \<Rightarrow> Inl (Msg ''invalid workspace result'')
   | Some r \<Rightarrow>
       if \<not> ValidCommandID (cr_id r) \<or> cr_payload r \<noteq> None \<or> cr_worktree r \<noteq> None \<or>
          cr_control r \<noteq> None \<or> cr_session r \<noteq> None \<or> cr_lifecycle r \<noteq> None \<or> cr_unk r \<noteq> []
       then Inl (Msg ''invalid workspace result'')
       else if cr_status r = SUCCEEDED then
         (case cr_workspace r of
            None \<Rightarrow> Inl (Msg ''workspace success requires a bounded typed result'')
          | Some v \<Rightarrow>
              if \<not> commandToken (wer_project v) \<or> \<not> commandToken (wer_revision v) \<or>
                 \<not> commandToken (wer_workspace v) \<or> wer_unk v \<noteq> [] \<or>
                 \<not> is_ok (ValidateSessionSelector (wer_session v) (wer_incarnation v) True)
              then Inl (Msg ''workspace success requires a bounded typed result'')
              else if wer_created v \<and> cr_detail r = ''workspace_created'' \<or>
                      \<not> wer_created v \<and> cr_detail r = ''workspace_present''
              then Inr () else Inl (Msg ''workspace success detail disagrees with result''))
       else if cr_workspace r \<noteq> None
       then Inl (Msg ''unsuccessful workspace result must not contain success data'')
       else if (case cr_status r of
              REJECTED \<Rightarrow> ValidSessionError (cr_detail r) \<or> cr_detail r \<in> set workspaceRejections
            | TIMED_OUT \<Rightarrow> cr_detail r = ''deadline_expired''
            | INDETERMINATE \<Rightarrow> cr_detail r = ''node_restarted'' \<or> cr_detail r = ''herdr_outcome_unknown''
            | _ \<Rightarrow> False)
       then Inr () else Inl (Msg ''invalid workspace outcome''))"

definition ValidateWorktreeResult :: "command_result option \<Rightarrow> unit res" where
  "ValidateWorktreeResult result = (case result of
     None \<Rightarrow> Inl (Msg ''invalid worktree result'')
   | Some r \<Rightarrow>
       if \<not> ValidCommandID (cr_id r) \<or> cr_payload r \<noteq> None \<or> cr_workspace r \<noteq> None \<or>
          cr_control r \<noteq> None \<or> cr_session r \<noteq> None \<or> cr_lifecycle r \<noteq> None \<or> cr_unk r \<noteq> []
       then Inl (Msg ''invalid worktree result'')
       else if cr_status r \<noteq> SUCCEEDED then
         (if cr_worktree r \<noteq> None then Inl (Msg ''unsuccessful worktree result contains success data'')
          else ValidateWorkspaceResult result)
       else (case cr_worktree r of
            None \<Rightarrow> Inl (Msg ''worktree success requires confirmed typed result'')
          | Some v \<Rightarrow>
              if cr_detail r \<noteq> ''worktree_created'' \<or> \<not> commandToken (wcr_workspace v) \<or>
                 wcr_unk v \<noteq> [] \<or>
                 \<not> is_ok (ValidateSessionSelector (wcr_session v) (wcr_incarnation v) True)
              then Inl (Msg ''worktree success requires confirmed typed result'')
              else ValidateWorktreeCreate (Some
                \<lparr>wc_project = wcr_project v, wc_revision = wcr_revision v, wc_name = wcr_name v,
                 wc_branch = wcr_branch v, wc_base = wcr_base v, wc_session = '''',
                 wc_incarnation = '''', wc_unk = []\<rparr>)))"

definition ValidateSessionEnsureResult :: "command_result option \<Rightarrow> unit res" where
  "ValidateSessionEnsureResult result = (case result of
     None \<Rightarrow> Inl (Msg ''invalid session ensure result'')
   | Some r \<Rightarrow>
       if \<not> ValidCommandID (cr_id r) \<or> cr_unk r \<noteq> [] \<or> cr_payload r \<noteq> None \<or>
          cr_workspace r \<noteq> None \<or> cr_worktree r \<noteq> None \<or> cr_control r \<noteq> None \<or>
          cr_lifecycle r \<noteq> None
       then Inl (Msg ''invalid session ensure result'')
       else if cr_status r = SUCCEEDED then
         (case cr_session r of
            None \<Rightarrow> Inl (Msg ''session success requires a ready actual incarnation'')
          | Some v \<Rightarrow>
              if sv_unk v \<noteq> [] \<or> \<not> is_ok (ValidateName (sv_name v)) \<or>
                 \<not> ValidSessionIncarnation (sv_incarnation v) \<or> sv_status v \<noteq> ''ready'' \<or>
                 sv_error v \<noteq> '''' \<or> sv_herdr v \<noteq> None \<or> sv_received v \<noteq> None \<or> sv_stale v \<or>
                 cr_detail r \<noteq> ''session_ready''
              then Inl (Msg ''session success requires a ready actual incarnation'') else Inr ())
       else if cr_session r \<noteq> None
       then Inl (Msg ''unsuccessful session ensure contains success data'')
       else if (case cr_status r of
              REJECTED \<Rightarrow> cr_detail r = ''journal_full'' \<or> cr_detail r = ''authorization_changed'' \<or>
                ValidSessionError (cr_detail r)
            | TIMED_OUT \<Rightarrow> cr_detail r = ''deadline_expired''
            | INDETERMINATE \<Rightarrow> cr_detail r = ''node_restarted'' \<or> cr_detail r = ''startup_uncertain''
            | _ \<Rightarrow> False)
       then Inr () else Inl (Msg ''invalid session ensure outcome''))"

definition controlSuccesses :: "string list" where
  "controlSuccesses = [''agent_prompt_sent'', ''agent_input_sent'', ''agent_interrupt_sent'']"

definition controlRejections :: "string list" where
  "controlRejections = [''journal_full'', ''precondition_failed'', ''agent_busy'', ''agent_blocked'',
     ''target_changed'', ''herdr_unavailable'', ''unsupported'', ''authorization_changed'',
     ''lifecycle_unresolved'']"

definition ValidateAgentControlResult :: "command_result option \<Rightarrow> unit res" where
  "ValidateAgentControlResult result = (case result of
     None \<Rightarrow> Inl (Msg ''invalid agent command result'')
   | Some r \<Rightarrow>
       if \<not> ValidCommandID (cr_id r) \<or> cr_unk r \<noteq> [] \<or> cr_payload r \<noteq> None \<or>
          cr_workspace r \<noteq> None \<or> cr_worktree r \<noteq> None \<or> cr_session r \<noteq> None \<or>
          cr_lifecycle r \<noteq> None
       then Inl (Msg ''invalid agent command result'')
       else if cr_status r = SUCCEEDED then
         (case cr_control r of
            None \<Rightarrow> Inl (Msg ''invalid typed agent acknowledgement'')
          | Some v \<Rightarrow>
              if acr_unk v \<noteq> [] \<or> \<not> is_ok (ValidateAgentTarget (acr_target v) True) \<or>
                 \<not> validAgentStatus (acr_observed v) \<or> cr_detail r \<notin> set controlSuccesses
              then Inl (Msg ''invalid typed agent acknowledgement'') else Inr ())
       else if cr_control r \<noteq> None
       then Inl (Msg ''unsuccessful agent command contains success data'')
       else if (case cr_status r of
              REJECTED \<Rightarrow> ValidSessionError (cr_detail r) \<or> cr_detail r \<in> set controlRejections
            | TIMED_OUT \<Rightarrow> cr_detail r = ''deadline_expired''
            | INDETERMINATE \<Rightarrow> cr_detail r = ''node_restarted'' \<or> cr_detail r = ''herdr_outcome_unknown''
            | _ \<Rightarrow> False)
       then Inr () else Inl (Msg ''invalid agent command outcome''))"

section \<open>A result without its command\<close>

definition lifecycleShape :: "command_result option \<Rightarrow> bool" where
  "lifecycleShape result = (case result of
     None \<Rightarrow> False
   | Some r \<Rightarrow> ValidCommandID (cr_id r) \<and> ValidLifecycleDetail (cr_detail r) \<and>
       IsTerminalCommand (cr_status r) \<and> cr_unk r = [] \<and> cr_payload r = None \<and>
       cr_workspace r = None \<and> cr_worktree r = None \<and> cr_control r = None \<and> cr_session r = None \<and>
       (cr_lifecycle r \<noteq> None \<or> cr_detail r = ''lifecycle_unresolved'' \<or>
        cr_detail r = ''persistence_failed'' \<or>
        cr_status r = REJECTED \<and> cr_detail r = ''node_restarted''))"

definition ValidateCommandResult :: "command_result option \<Rightarrow> unit res" where
  "ValidateCommandResult result =
     (if lifecycleShape result then Inr ()
      else if is_ok (ValidateSessionEnsureResult result) then Inr ()
      else if is_ok (ValidateProbeResult result) then Inr ()
      else if is_ok (ValidateWorkspaceResult result) then Inr ()
      else if is_ok (ValidateWorktreeResult result) then Inr ()
      else ValidateAgentControlResult result)"

section \<open>A result against its command\<close>

definition sessionResultMatches :: "command_result \<Rightarrow> command \<Rightarrow> bool" where
  "sessionResultMatches r c = (case cr_session r of None \<Rightarrow> True
     | Some v \<Rightarrow> (case c_session c of None \<Rightarrow> False | Some w \<Rightarrow> sv_name v = se_name w))"

definition controlResultMatches :: "command_result \<Rightarrow> command \<Rightarrow> bool" where
  "controlResultMatches r c = (case cr_control r of None \<Rightarrow> True
     | Some v \<Rightarrow> (case c_control c of None \<Rightarrow> False
         | Some w \<Rightarrow> equalAgentTarget (acr_target v) (ag_target w) \<and>
             cr_detail r = AgentControlSuccessDetail (ag_action w)))"

definition workspaceResultMatches :: "command_result \<Rightarrow> command \<Rightarrow> bool" where
  "workspaceResultMatches r c = (case cr_workspace r of None \<Rightarrow> True
     | Some v \<Rightarrow> (case c_workspace c of None \<Rightarrow> False
         | Some w \<Rightarrow> wer_project v = we_project w \<and> wer_revision v = we_revision w \<and>
             matchesSession (wer_session v) (wer_incarnation v) (we_session w) (we_incarnation w)))"

definition worktreeResultMatches :: "command_result \<Rightarrow> command \<Rightarrow> bool" where
  "worktreeResultMatches r c = (case cr_worktree r of None \<Rightarrow> True
     | Some v \<Rightarrow> (case c_worktree c of None \<Rightarrow> False
         | Some w \<Rightarrow> wcr_project v = wc_project w \<and> wcr_revision v = wc_revision w \<and>
             matchesSession (wcr_session v) (wcr_incarnation v) (wc_session w) (wc_incarnation w) \<and>
             wcr_name v = wc_name w \<and> wcr_branch v = wc_branch w \<and>
             (wcr_base v = wc_base w \<or> c_submitted c \<noteq> None \<and> wc_base w = '''')))"

definition ValidateResultForCommand :: "pb \<Rightarrow> command_result option \<Rightarrow> command \<Rightarrow> unit res" where
  "ValidateResultForCommand P result c = (case result of
     None \<Rightarrow> Inl (Msg ''command result identity mismatch'')
   | Some r \<Rightarrow>
       if cr_id r \<noteq> c_id c then Inl (Msg ''command result identity mismatch'')
       else if cr_lifecycle r \<noteq> None \<and> \<not> IsLifecycleCommand (c_type c)
       then Inl (Msg ''unexpected lifecycle receipt'')
       else if IsLifecycleCommand (c_type c) then ValidateLifecycleResult P result c
       else if c_type c = SessionEnsureCommandType then
         bindR (ValidateSessionEnsureResult result) (\<lambda>_.
           if \<not> sessionResultMatches r c then Inl (Msg ''session result name mismatch'') else Inr ())
       else if c_type c = AgentControlCommandType then
         bindR (ValidateAgentControlResult result) (\<lambda>_.
           if \<not> controlResultMatches r c
           then Inl (Msg ''agent result does not match original request'') else Inr ())
       else if c_type c = ProbeCommandType then ValidateProbeResult result
       else if c_type c = WorkspaceEnsureCommandType then
         bindR (ValidateWorkspaceResult result) (\<lambda>_.
           if \<not> workspaceResultMatches r c
           then Inl (Msg ''workspace result binding mismatch'') else Inr ())
       else if c_type c = WorktreeCreateCommandType then
         bindR (ValidateWorktreeResult result) (\<lambda>_.
           if \<not> worktreeResultMatches r c
           then Inl (Msg ''worktree result does not match original request'') else Inr ())
       else Inl (Msg ''unsupported command type''))"

section \<open>Facts\<close>

lemma ValidateLifecycleResult_terminal:
  "ValidateLifecycleResult P (Some r) c = Inr () \<Longrightarrow>
     cr_status r \<in> {SUCCEEDED, INDETERMINATE, FAILED, TIMED_OUT, REJECTED}"
  by (cases "cr_status r") (auto simp: ValidateLifecycleResult_def Let_def res_simps split: if_splits)

lemma ValidateResultForCommand_id:
  "ValidateResultForCommand P (Some r) c = Inr () \<Longrightarrow> cr_id r = c_id c"
  by (auto simp: ValidateResultForCommand_def split: if_splits)

lemma ValidateProbeResult_status:
  "ValidateProbeResult (Some r) = Inr () \<Longrightarrow>
     cr_status r \<in> {SUCCEEDED, INDETERMINATE, TIMED_OUT, REJECTED} \<and> cr_unk r = []"
  by (cases "cr_status r") (auto simp: ValidateProbeResult_def split: if_splits)

lemma ValidateWorkspaceResult_status:
  "ValidateWorkspaceResult (Some r) = Inr () \<Longrightarrow>
     cr_status r \<in> {SUCCEEDED, INDETERMINATE, TIMED_OUT, REJECTED} \<and> cr_unk r = [] \<and>
     (cr_workspace r \<noteq> None \<longleftrightarrow> cr_status r = SUCCEEDED)"
  by (cases "cr_status r") (auto simp: ValidateWorkspaceResult_def split: if_splits option.splits)

lemma ValidateWorktreeResult_status:
  "ValidateWorktreeResult (Some r) = Inr () \<Longrightarrow>
     cr_status r \<in> {SUCCEEDED, INDETERMINATE, TIMED_OUT, REJECTED} \<and> cr_unk r = [] \<and>
     (cr_worktree r \<noteq> None \<longleftrightarrow> cr_status r = SUCCEEDED)"
  using ValidateWorkspaceResult_status [of r]
  by (auto simp: ValidateWorktreeResult_def split: if_splits option.splits)

lemma ValidateSessionEnsureResult_status:
  "ValidateSessionEnsureResult (Some r) = Inr () \<Longrightarrow>
     cr_status r \<in> {SUCCEEDED, INDETERMINATE, TIMED_OUT, REJECTED} \<and> cr_unk r = [] \<and>
     (cr_session r \<noteq> None \<longleftrightarrow> cr_status r = SUCCEEDED)"
  by (cases "cr_status r") (auto simp: ValidateSessionEnsureResult_def split: if_splits option.splits)

lemma ValidateAgentControlResult_status:
  "ValidateAgentControlResult (Some r) = Inr () \<Longrightarrow>
     cr_status r \<in> {SUCCEEDED, INDETERMINATE, TIMED_OUT, REJECTED} \<and> cr_unk r = [] \<and>
     (cr_control r \<noteq> None \<longleftrightarrow> cr_status r = SUCCEEDED)"
  by (cases "cr_status r") (auto simp: ValidateAgentControlResult_def split: if_splits option.splits)

text \<open>The statuses a validated result can carry: a node never reports an active command.\<close>

lemma ValidateResultForCommand_status:
  assumes "ValidateResultForCommand P (Some r) c = Inr ()"
  shows "cr_status r \<in> {SUCCEEDED, FAILED, TIMED_OUT, REJECTED, INDETERMINATE}"
  using assms ValidateLifecycleResult_terminal [of P r c] ValidateProbeResult_status [of r]
    ValidateWorkspaceResult_status [of r] ValidateWorktreeResult_status [of r]
    ValidateSessionEnsureResult_status [of r] ValidateAgentControlResult_status [of r]
  by (auto simp: ValidateResultForCommand_def bindR_eq_Inr split: if_splits)

end
