(* ===== verification/CommandStore.thy ===== *)
theory CommandStore
  imports Database ProtoResults
begin

text \<open>
  The coordinator's command journal: commands.go, named\_agent.go, lifecycle\_reconcile.go and the
  coordinator half of lifecycle.go of the state package.  A stored record is checked when it is
  written and again whenever it is read, so every operation below works on validated records.
\<close>

section \<open>Validation of records\<close>

definition maxCommands :: nat where "maxCommands = 4096"
definition maxCommandAudit :: nat where "maxCommandAudit = 16"

definition commandTime :: "pb \<Rightarrow> int \<Rightarrow> timestamp res" where
  "commandTime P now =
     (if ts_valid P (new_ts P now) then Inr (new_ts P now)
      else Inl (Msg ''invalid command journal timestamp''))"

definition validateCommand :: "pb \<Rightarrow> command option \<Rightarrow> string \<Rightarrow> unit res" where
  "validateCommand P command target = (case command of
     None \<Rightarrow> Inl (Msg ''command is nil or oversized'')
   | Some c \<Rightarrow>
       if maxCommandBytes < size_command P c then Inl (Msg ''command is nil or oversized'')
       else if IsLifecycleCommand (c_type c) \<and>
         maxCommandBytes < size_command P c + MaxLifecycleReceiptBytes + 1024
       then Inl (Msg ''lifecycle request leaves insufficient bounded receipt/audit space'')
       else ValidateCommand P command target)"

definition projectMutation :: "string \<Rightarrow> bool" where
  "projectMutation kind = (kind = WorkspaceEnsureCommandType \<or> kind = WorktreeCreateCommandType)"

definition authorizationSensitiveCommand :: "string \<Rightarrow> bool" where
  "authorizationSensitiveCommand kind =
     (projectMutation kind \<or> kind = AgentControlCommandType \<or> kind = SessionEnsureCommandType \<or>
      IsLifecycleCommand kind)"

definition rejectedOutcome :: "string \<Rightarrow> string \<Rightarrow> bool" where
  "rejectedOutcome kind detail =
     (if authorizationSensitiveCommand kind \<and> ValidSessionError detail then True
      else if kind = SessionEnsureCommandType
      then detail = ''journal_full'' \<or> detail = ''authorization_changed''
      else if kind = AgentControlCommandType then detail \<in> set controlRejections
      else if projectMutation kind then detail \<in> set workspaceRejections
      else detail = ''journal_full'')"

definition validCommandOutcome :: "string \<Rightarrow> command_status \<Rightarrow> string \<Rightarrow> bool" where
  "validCommandOutcome kind status detail =
     (if IsLifecycleCommand kind \<and> IsTerminalCommand status then ValidLifecycleDetail detail
      else case status of
        ACCEPTED \<Rightarrow> detail = ''accepted''
      | RUNNING \<Rightarrow> detail = ''dispatched''
      | SUCCEEDED \<Rightarrow>
          if kind = SessionEnsureCommandType then detail = ''session_ready''
          else if kind = AgentControlCommandType then detail \<in> set controlSuccesses
          else if kind = WorktreeCreateCommandType then detail = ''worktree_created''
          else if kind = WorkspaceEnsureCommandType
          then detail = ''workspace_created'' \<or> detail = ''workspace_present''
          else detail = ''pong''
      | TIMED_OUT \<Rightarrow> detail = ''deadline_expired''
      | REJECTED \<Rightarrow> rejectedOutcome kind detail
      | INDETERMINATE \<Rightarrow>
          detail = ''node_restarted'' \<or> detail = ''server_restarted'' \<or> detail = ''node_disconnected'' \<or>
          detail = ''deadline_expired'' \<or>
          (projectMutation kind \<or> kind = AgentControlCommandType) \<and> detail = ''herdr_outcome_unknown'' \<or>
          kind = SessionEnsureCommandType \<and> detail = ''startup_uncertain''
      | NODE_UNAVAILABLE \<Rightarrow> detail = ''node_disconnected'' \<or> detail = ''server_restarted''
      | _ \<Rightarrow> False)"

definition validCommandTransition ::
  "string \<Rightarrow> command_status \<Rightarrow> command_status \<Rightarrow> string \<Rightarrow> bool" where
  "validCommandTransition kind from to detail =
     (if IsLifecycleCommand kind \<and> (from = RUNNING \<or> from = INDETERMINATE) \<and>
         (to = FAILED \<or> to = INDETERMINATE) then True
      else case from of
        ACCEPTED \<Rightarrow> to = RUNNING \<or> to = TIMED_OUT \<or> to = NODE_UNAVAILABLE \<or>
          authorizationSensitiveCommand kind \<and> to = REJECTED \<and> detail = ''authorization_changed''
      | RUNNING \<Rightarrow> to = SUCCEEDED \<or> to = TIMED_OUT \<or> to = REJECTED \<or> to = INDETERMINATE
      | INDETERMINATE \<Rightarrow> to = SUCCEEDED \<or> to = TIMED_OUT \<or> to = REJECTED \<or>
          kind = SessionEnsureCommandType \<and> to = INDETERMINATE \<and> detail = ''startup_uncertain''
      | _ \<Rightarrow> False)"

definition recordResult :: "command_record \<Rightarrow> command_result" where
  "recordResult r = \<lparr>cr_id = getter c_id (rec_command r), cr_status = rec_status r,
     cr_detail = rec_detail r, cr_payload = None, cr_workspace = rec_workspace r,
     cr_worktree = rec_worktree r, cr_control = rec_control r, cr_session = rec_session r,
     cr_lifecycle = rec_lifecycle r, cr_unk = []\<rparr>"

text \<open>The typed data a record may carry, by the kind and status of its command.\<close>

definition recordData :: "pb \<Rightarrow> command_record \<Rightarrow> command \<Rightarrow> unit res" where
  "recordData P r c =
     (if IsLifecycleCommand (c_type c) then
        bindR (if rec_lifecycle r \<noteq> None then ValidateLifecycleReceipt P (rec_lifecycle r) c else Inr ())
          (\<lambda>_. if IsTerminalCommand (rec_status r) \<and> rec_status r \<noteq> NODE_UNAVAILABLE
             then ValidateResultForCommand P (Some (recordResult r)) c else Inr ())
      else if rec_lifecycle r \<noteq> None then Inl (Msg ''unexpected stored lifecycle receipt'')
      else if rec_status r = SUCCEEDED then ValidateResultForCommand P (Some (recordResult r)) c
      else if rec_workspace r \<noteq> None \<or> rec_worktree r \<noteq> None \<or> rec_control r \<noteq> None \<or>
              rec_session r \<noteq> None
      then Inl (Msg ''stored unsuccessful command contains mutation success data'')
      else Inr ())"

text \<open>The loop over the audit events; \<open>previous\<close> starts nil.\<close>

definition auditEvent ::
  "pb \<Rightarrow> string \<Rightarrow> timestamp option \<Rightarrow> command_audit option \<Rightarrow> command_audit \<Rightarrow> unit res" where
  "auditEvent P kind created previous e =
     (if (case au_at e of None \<Rightarrow> True | Some t \<Rightarrow> \<not> ts_valid P t) \<or>
         \<not> validCommandOutcome kind (au_status e) (au_detail e)
      then Inl (Msg ''stored command audit event is invalid'')
      else case previous of
        None \<Rightarrow>
          if au_status e \<noteq> ACCEPTED \<or> au_at e \<noteq> created
          then Inl (Msg ''stored command admission audit is invalid'') else Inr ()
      | Some p \<Rightarrow>
          if asTimeOf P (au_at e) < asTimeOf P (au_at p) \<or>
             \<not> validCommandTransition kind (au_status p) (au_status e) (au_detail e)
          then Inl (Msg ''stored command audit order or transition is invalid'') else Inr ())"

fun auditLoop ::
  "pb \<Rightarrow> string \<Rightarrow> timestamp option \<Rightarrow> command_audit option \<Rightarrow> command_audit list \<Rightarrow> command_audit option res" where
  "auditLoop P kind created previous [] = Inr previous"
| "auditLoop P kind created previous (e # es) =
     bindR (auditEvent P kind created previous e) (\<lambda>_. auditLoop P kind created (Some e) es)"

definition validTime :: "pb \<Rightarrow> timestamp option \<Rightarrow> bool" where
  "validTime P t = (case t of None \<Rightarrow> False | Some t \<Rightarrow> ts_valid P t)"

definition asDurationOf :: "pb \<Rightarrow> duration option \<Rightarrow> int" where
  "asDurationOf P d = (case d of None \<Rightarrow> 0 | Some d \<Rightarrow> as_duration P d)"

definition recordAudit :: "pb \<Rightarrow> command_record \<Rightarrow> command \<Rightarrow> unit res" where
  "recordAudit P r c =
     bindR (auditLoop P (c_type c) (rec_created r) None (rec_audit r)) (\<lambda>previous. case previous of
         None \<Rightarrow> Inl (Msg ''stored command outcome disagrees with audit'')
       | Some p \<Rightarrow>
           if au_status p \<noteq> rec_status r \<or> au_detail p \<noteq> rec_detail r \<or> au_at p \<noteq> rec_updated r
           then Inl (Msg ''stored command outcome disagrees with audit'') else Inr ())"

definition validateCommandRecord :: "pb \<Rightarrow> command_record \<Rightarrow> unit res" where
  "validateCommandRecord P r = (case rec_command r of
     None \<Rightarrow> Inl (Msg ''stored command record is missing its command'')
   | Some c \<Rightarrow>
       bindR (validateCommand P (Some c) (c_target c)) (\<lambda>_.
       bindR (recordData P r c) (\<lambda>_.
         if \<not> validTime P (rec_created r) \<or> \<not> validTime P (rec_updated r) \<or>
            rec_audit r = [] \<or> maxCommandAudit < length (rec_audit r) \<or> record_unknown r
         then Inl (Msg ''stored command record has invalid metadata or audit bounds'')
         else let created = asTimeOf P (rec_created r); deadline = asTimeOf P (c_expires c) in
           if deadline \<le> created \<or> deadline > created + asDurationOf P (c_ttl c)
           then Inl (Msg ''stored command deadline does not match original TTL'')
           else recordAudit P r c)))"

section \<open>Reading\<close>

text \<open>
  One row of the result set: decoded, validated, and compared with its indexed columns and with the
  binding the \<open>LEFT JOIN\<close> found for its target.
\<close>

definition rowDisagrees ::
  "(string, string) table \<Rightarrow> string \<Rightarrow> 'b command_row \<Rightarrow> command_record \<Rightarrow> command \<Rightarrow> bool" where
  "rowDisagrees bs i row r c =
     (i \<noteq> c_id c \<or> cw_actor row \<noteq> getter ac_id (c_actor c) \<or> cw_key row \<noteq> c_key c \<or>
      cw_target row \<noteq> c_target c \<or>
      (case c_expires c of None \<Rightarrow> True
       | Some t \<Rightarrow> cw_seconds row \<noteq> ts_seconds t \<or> cw_nanos row \<noteq> ts_nanos t) \<or>
      cw_status row \<noteq> rec_status r \<or> stableOf bs (cw_target row) = None)"

definition decodeRow ::
  "'b codecs \<Rightarrow> (string, string) table \<Rightarrow> string \<times> 'b command_row \<Rightarrow> command_record res" where
  "decodeRow K bs kr = (case kr of (i, row) \<Rightarrow>
     bindR (decodeCommandMessage record_unknown (k_record K) (cw_record row)) (\<lambda>r.
       bindR (validateCommandRecord (k_pb K) r) (\<lambda>_.
         if opt_all (rowDisagrees bs i row r) (rec_command r)
         then Inl (Msg ''stored command record disagrees with indexed fields or binding'')
         else Inr r)))"

text \<open>
  \<open>readCommands\<close>: within one transaction the count bounds the result set, so the limit of the
  query and the check inside the loop never apply.
\<close>

definition readCommands ::
  "'b codecs \<Rightarrow> 'b coordinator \<Rightarrow> (string \<Rightarrow> 'b command_row \<Rightarrow> bool) \<Rightarrow> command_record list res" where
  "readCommands K db p =
     (if maxCommands < length (cd_commands db)
      then Inl (Msg ''stored coordinator command count exceeds limit'')
      else collect (decodeRow K (cd_bindings db)) (tselect p (cd_commands db)))"

definition readCommand ::
  "'b codecs \<Rightarrow> 'b coordinator \<Rightarrow> (string \<Rightarrow> 'b command_row \<Rightarrow> bool) \<Rightarrow> command_record res" where
  "readCommand K db p = bindR (readCommands K db p) (\<lambda>rs. case rs of
       [] \<Rightarrow> Inl ErrCommandNotFound
     | [r] \<Rightarrow> Inr r
     | _ \<Rightarrow> Inl (Msg ''command lookup is not unique''))"

text \<open>The filters of the statements.\<close>

definition byID :: "string \<Rightarrow> string \<Rightarrow> 'b command_row \<Rightarrow> bool" where
  "byID cid = (\<lambda>i row. i = cid)"

definition byKey :: "string \<Rightarrow> string \<Rightarrow> string \<Rightarrow> 'b command_row \<Rightarrow> bool" where
  "byKey actor key = (\<lambda>i row. cw_actor row = actor \<and> cw_key row = key)"

definition byActorID :: "string \<Rightarrow> string \<Rightarrow> string \<Rightarrow> 'b command_row \<Rightarrow> bool" where
  "byActorID actor cid = (\<lambda>i row. cw_actor row = actor \<and> i = cid)"

definition byTarget :: "string \<Rightarrow> string \<Rightarrow> 'b command_row \<Rightarrow> bool" where
  "byTarget target = (\<lambda>i row. cw_target row = target)"

definition activeRow :: "'b command_row \<Rightarrow> bool" where
  "activeRow row = (cw_status row = ACCEPTED \<or> cw_status row = RUNNING)"

section \<open>Writing\<close>

definition commandRowOk :: "'b codecs \<Rightarrow> 'b command_row \<Rightarrow> bool" where
  "commandRowOk K row = (0 \<le> cw_nanos row \<and> cw_nanos row \<le> 999999999 \<and> storedStatus (cw_status row) \<and>
     1 \<le> blob_len (k_record K) (cw_record row) \<and> blob_len (k_record K) (cw_record row) \<le> 16384)"

definition insertCommand ::
  "'b codecs \<Rightarrow> string \<Rightarrow> 'b command_row \<Rightarrow> 'b coordinator \<Rightarrow> 'b coordinator res" where
  "insertCommand K cid row db =
     (if \<not> commandRowOk K row then Inl sqliteCheck
      else if tget (cd_commands db) cid \<noteq> None then Inl sqlitePrimaryKey
      else if tselect (byKey (cw_actor row) (cw_key row)) (cd_commands db) \<noteq> [] then Inl sqliteUnique
      else if stableOf (cd_bindings db) (cw_target row) = None then Inl sqliteForeignKey
      else Inr (db\<lparr>cd_commands := tput cid row (cd_commands db)\<rparr>))"

text \<open>\<open>UPDATE commands SET status = ?, record = ? WHERE command_id = ?\<close>\<close>

definition updateCommand ::
  "'b codecs \<Rightarrow> string \<Rightarrow> command_status \<Rightarrow> 'b \<Rightarrow> 'b coordinator \<Rightarrow> 'b coordinator res" where
  "updateCommand K cid status payload db = (case tget (cd_commands db) cid of
     None \<Rightarrow> Inr db
   | Some row \<Rightarrow> let row = row\<lparr>cw_status := status, cw_record := payload\<rparr> in
       if \<not> commandRowOk K row then Inl sqliteCheck
       else Inr (db\<lparr>cd_commands := tput cid row (cd_commands db)\<rparr>))"

text \<open>\<open>UPDATE commands SET record = ? WHERE command_id = ?\<close>\<close>

definition updateRecord ::
  "'b codecs \<Rightarrow> string \<Rightarrow> 'b \<Rightarrow> 'b coordinator \<Rightarrow> 'b coordinator res" where
  "updateRecord K cid payload db = (case tget (cd_commands db) cid of
     None \<Rightarrow> Inr db
   | Some row \<Rightarrow> updateCommand K cid (cw_status row) payload db)"

definition transitionCommand ::
  "'b codecs \<Rightarrow> command_record \<Rightarrow> command_status \<Rightarrow> string \<Rightarrow> int \<Rightarrow> 'b coordinator \<Rightarrow>
   (command_record \<times> 'b coordinator) res" where
  "transitionCommand K r status detail now db =
     (let kind = getter c_type (rec_command r); cid = getter c_id (rec_command r) in
      if \<not> validCommandTransition kind (rec_status r) status detail \<or>
         \<not> validCommandOutcome kind status detail
      then Inl ErrCommandConflict
      else if maxCommandAudit \<le> length (rec_audit r)
      then Inl (Msg ''command audit capacity reached'')
      else bindR (commandTime (k_pb K) now) (\<lambda>stamp.
        let r = r\<lparr>rec_status := status, rec_detail := detail, rec_updated := Some stamp,
                  rec_audit := rec_audit r @
                    [\<lparr>au_status = status, au_detail = detail, au_at = Some stamp, au_unk = []\<rparr>]\<rparr> in
        bindR (validateCommandRecord (k_pb K) r) (\<lambda>_.
          bindR (marshalCommandMessage record_unknown (k_record K) r) (\<lambda>payload.
            bindR (updateCommand K cid status payload db) (\<lambda>db'. Inr (r, db'))))))"

section \<open>Fences\<close>

definition lifecycleIncarnation :: "command \<Rightarrow> receipt option \<Rightarrow> string" where
  "lifecycleIncarnation c r = (case r of
     Some r \<Rightarrow> getter at_incarnation (Option.bind (lr_handle r) lh_target)
   | None \<Rightarrow> snd (CommandSession c))"

definition receiptTerminal :: "receipt option \<Rightarrow> string" where
  "receiptTerminal r = getter at_terminal (Option.bind (Option.bind r lr_handle) lh_target)"

text \<open>Whether prompt or input \<open>control\<close> would act on the terminal of an unresolved \<open>prior\<close>.\<close>

definition controlConflict :: "command \<Rightarrow> receipt option \<Rightarrow> agent_control \<Rightarrow> bool" where
  "controlConflict prior r control =
     (let terminal = getter at_terminal (ag_target control) in
      case c_control prior of
        Some old \<Rightarrow>
          if ag_action old \<noteq> ACTION_INTERRUPT then getter at_terminal (ag_target old) = terminal
          else if c_start prior \<noteq> None then receiptTerminal r = '''' \<or> receiptTerminal r = terminal
          else (case c_stop prior of None \<Rightarrow> False
                | Some s \<Rightarrow> getter at_terminal (st_target s) = terminal)
      | None \<Rightarrow>
          if c_start prior \<noteq> None then receiptTerminal r = '''' \<or> receiptTerminal r = terminal
          else (case c_stop prior of None \<Rightarrow> False
                | Some s \<Rightarrow> getter at_terminal (st_target s) = terminal))"

definition lifecycleConflict ::
  "command \<Rightarrow> receipt option \<Rightarrow> command_status \<Rightarrow> command \<Rightarrow> string \<Rightarrow> bool" where
  "lifecycleConflict prior r status current incarnation =
     (if c_id prior = c_id current \<or> c_target prior \<noteq> c_target current \<or>
         status \<noteq> ACCEPTED \<and> status \<noteq> RUNNING \<and> status \<noteq> INDETERMINATE \<and> \<not> LifecycleHasUnknown r
      then False
      else let oldInc = lifecycleIncarnation prior r;
               inc = (if incarnation = '''' then lifecycleIncarnation current None else incarnation) in
        if oldInc \<noteq> '''' \<and> inc \<noteq> '''' \<and> oldInc \<noteq> inc then False
        else case (c_start current, c_start prior) of
          (Some a, Some b) \<Rightarrow> as_workspace a = as_workspace b
        | _ \<Rightarrow> (case c_control current of
            None \<Rightarrow> False
          | Some control \<Rightarrow> ag_action control \<noteq> ACTION_INTERRUPT \<and> controlConflict prior r control))"

definition byFence :: "string \<Rightarrow> string \<Rightarrow> 'b command_row \<Rightarrow> bool" where
  "byFence target = (\<lambda>i row. cw_target row = target \<and>
     (cw_status row = ACCEPTED \<or> cw_status row = RUNNING \<or> cw_status row = INDETERMINATE))"

definition recordConflicts :: "command_record \<Rightarrow> command \<Rightarrow> bool" where
  "recordConflicts r c = (case rec_command r of None \<Rightarrow> False
     | Some prior \<Rightarrow> lifecycleConflict prior (rec_lifecycle r) (rec_status r) c '''')"

definition checkCoordinatorLifecycleFence ::
  "'b codecs \<Rightarrow> 'b coordinator \<Rightarrow> command \<Rightarrow> unit res" where
  "checkCoordinatorLifecycleFence K db c =
     (if c_start c = None \<and> c_control c = None then Inr ()
      else bindR (readCommands K db (byFence (c_target c))) (\<lambda>rs.
        each (\<lambda>r. if recordConflicts r c then Inl ErrLifecycleUnresolved else Inr ()) rs))"

text \<open>The start recorded for an agent name in a session.\<close>

definition namesAgent :: "string \<Rightarrow> string \<Rightarrow> command_record \<Rightarrow> bool" where
  "namesAgent session name r = (case Option.bind (rec_command r) c_start of None \<Rightarrow> False
     | Some s \<Rightarrow> as_name s = name \<and> as_session s = session)"

definition checkNamedAgentClaim :: "'b codecs \<Rightarrow> 'b coordinator \<Rightarrow> command \<Rightarrow> unit res" where
  "checkNamedAgentClaim K db c = (case c_start c of
     None \<Rightarrow> Inr ()
   | Some s \<Rightarrow> bindR (readCommands K db (byTarget (c_target c))) (\<lambda>rs.
       each (\<lambda>r. if namesAgent (as_session s) (as_name s) r then Inl ErrNamedAgentExists else Inr ()) rs))"

section \<open>Lookups\<close>

definition findCommand ::
  "tx_env \<Rightarrow> 'b codecs \<Rightarrow> string \<Rightarrow> string \<Rightarrow> (string \<Rightarrow> 'b command_row \<Rightarrow> bool) \<Rightarrow> 'b coordinator \<Rightarrow>
   command_record res \<times> 'b coordinator" where
  "findCommand E K actorID value p = operation E
     (if blank actorID \<or> blank value then Inl (Msg ''command actor and lookup ID must not be empty'') else Inr ())
     (\<lambda>db. bindR (readCommand K db p) (\<lambda>r. Inr (r, db)))"

definition FindCommand ::
  "tx_env \<Rightarrow> 'b codecs \<Rightarrow> string \<Rightarrow> string \<Rightarrow> 'b coordinator \<Rightarrow> command_record res \<times> 'b coordinator" where
  "FindCommand E K actorID key = findCommand E K actorID key (byKey actorID key)"

definition GetCommand ::
  "tx_env \<Rightarrow> 'b codecs \<Rightarrow> string \<Rightarrow> string \<Rightarrow> 'b coordinator \<Rightarrow> command_record res \<times> 'b coordinator" where
  "GetCommand E K actorID cid = findCommand E K actorID cid (byActorID actorID cid)"

definition GetOperatorCommand ::
  "tx_env \<Rightarrow> 'b codecs \<Rightarrow> string \<Rightarrow> 'b coordinator \<Rightarrow> command_record res \<times> 'b coordinator" where
  "GetOperatorCommand E K cid = operation E
     (if blank cid then Inl (Msg ''command lookup ID must not be empty'') else Inr ())
     (\<lambda>db. bindR (readCommand K db (byID cid)) (\<lambda>r. Inr (r, db)))"

text \<open>The loop of \<open>FindNamedAgent\<close>.\<close>

fun uniqueNamed :: "string \<Rightarrow> string \<Rightarrow> command_record option \<Rightarrow> command_record list \<Rightarrow> command_record option res" where
  "uniqueNamed session name found [] = Inr found"
| "uniqueNamed session name found (r # rs) =
     (if \<not> namesAgent session name r then uniqueNamed session name found rs
      else if found \<noteq> None then Inl ErrNamedAgentAmbiguous
      else uniqueNamed session name (Some r) rs)"

definition FindNamedAgent ::
  "tx_env \<Rightarrow> 'b codecs \<Rightarrow> string \<Rightarrow> string \<Rightarrow> string \<Rightarrow> 'b coordinator \<Rightarrow>
   command_record res \<times> 'b coordinator" where
  "FindNamedAgent E K node session name db =
     (if \<not> ValidIdempotencyKey node \<or> \<not> ValidIdempotencyKey name \<or>
         \<not> is_ok (ValidateSessionSelector session '''' False)
      then (Inl (Msg ''invalid named agent selector''), db)
      else operation E (Inr ())
        (\<lambda>db. bindR (readCommands K db (byTarget node)) (\<lambda>rs.
          bindR (uniqueNamed session name None rs) (\<lambda>found. case found of
              None \<Rightarrow> Inl ErrCommandNotFound
            | Some r \<Rightarrow> Inr (r, db)))) db)"

section \<open>Admission\<close>

definition identityOf :: "bool \<Rightarrow> command \<Rightarrow> command" where
  "identityOf resolved c =
     (let c = c\<lparr>c_id := '''', c_expires := None, c_exec_expires := None\<rparr> in
      if resolved then c\<lparr>c_workspace := None, c_worktree := None, c_control := None,
                        c_session := None, c_start := None, c_stop := None\<rparr> else c)"

definition matchingRequest :: "command \<Rightarrow> command \<Rightarrow> bool" where
  "matchingRequest original proposed =
     (let resolved = (c_submitted original \<noteq> None \<and> c_submitted proposed \<noteq> None) in
      identityOf resolved original = identityOf resolved proposed)"

definition newRecord :: "command \<Rightarrow> timestamp \<Rightarrow> command_record" where
  "newRecord c stamp = \<lparr>rec_command = Some c, rec_status = ACCEPTED, rec_detail = ''accepted'',
     rec_created = Some stamp, rec_updated = Some stamp,
     rec_audit = [\<lparr>au_status = ACCEPTED, au_detail = ''accepted'', au_at = Some stamp, au_unk = []\<rparr>],
     rec_workspace = None, rec_worktree = None, rec_control = None, rec_session = None,
     rec_lifecycle = None, rec_unk = []\<rparr>"

definition actorOf :: "command \<Rightarrow> string" where
  "actorOf c = getter ac_id (c_actor c)"

definition rowOf :: "command \<Rightarrow> command_status \<Rightarrow> 'b \<Rightarrow> 'b command_row" where
  "rowOf c status payload = \<lparr>cw_actor = actorOf c, cw_key = c_key c, cw_target = c_target c,
     cw_seconds = (case c_expires c of None \<Rightarrow> 0 | Some t \<Rightarrow> ts_seconds t),
     cw_nanos = (case c_expires c of None \<Rightarrow> 0 | Some t \<Rightarrow> ts_nanos t),
     cw_status = status, cw_record = payload\<rparr>"

text \<open>The branch of \<open>CreateCommand\<close> for a key no command has used yet.\<close>

definition admitCommand ::
  "'b codecs \<Rightarrow> command \<Rightarrow> timestamp \<Rightarrow> ('b coordinator, command_record \<times> bool) body" where
  "admitCommand K c stamp db =
     (if tget (cd_commands db) (c_id c) \<noteq> None then Inl ErrCommandConflict
      else if stableOf (cd_bindings db) (c_target c) = None then Inl ErrIdentityConflict
      else if maxCommands \<le> length (cd_commands db) then Inl ErrCommandCapacity
      else bindR (checkCoordinatorLifecycleFence K db c) (\<lambda>_.
        bindR (checkNamedAgentClaim K db c) (\<lambda>_.
          let r = newRecord c stamp in
          bindR (validateCommandRecord (k_pb K) r) (\<lambda>_.
            bindR (marshalCommandMessage record_unknown (k_record K) r) (\<lambda>payload.
              bindR (insertCommand K (c_id c) (rowOf c ACCEPTED payload) db) (\<lambda>db'.
                Inr ((r, True), db')))))))"

definition createBody ::
  "'b codecs \<Rightarrow> command \<Rightarrow> timestamp \<Rightarrow> ('b coordinator, command_record \<times> bool) body" where
  "createBody K c stamp db = (case readCommand K db (byKey (actorOf c) (c_key c)) of
     Inr existing \<Rightarrow>
       if \<not> opt_ex (\<lambda>original. matchingRequest original c) (rec_command existing)
       then Inl ErrCommandConflict else Inr ((existing, False), db)
   | Inl e \<Rightarrow> if \<not> errors_is e ErrCommandNotFound then Inl e else admitCommand K c stamp db)"

definition CreateCommand ::
  "tx_env \<Rightarrow> 'b codecs \<Rightarrow> command option \<Rightarrow> int \<Rightarrow> 'b coordinator \<Rightarrow>
   (command_record \<times> bool) res \<times> 'b coordinator" where
  "CreateCommand E K command now = operation E
     (bindR (validateCommand (k_pb K) command (getter c_target command)) (\<lambda>_.
        bindR (commandTime (k_pb K) now) (\<lambda>_. Inr ())))
     (\<lambda>db. case command of
        None \<Rightarrow> Inl (Msg ''command is nil or oversized'')
      | Some c \<Rightarrow> createBody K c (new_ts (k_pb K) now) db)"

section \<open>Dispatch\<close>

definition RejectCommand ::
  "tx_env \<Rightarrow> 'b codecs \<Rightarrow> string \<Rightarrow> string \<Rightarrow> string \<Rightarrow> int \<Rightarrow> 'b coordinator \<Rightarrow>
   command_record res \<times> 'b coordinator" where
  "RejectCommand E K nodeID cid detail now = operation E
     (if blank nodeID \<or> blank cid \<or> detail \<noteq> ''authorization_changed''
      then Inl (Msg ''invalid pre-dispatch authorization rejection'')
      else bindR (commandTime (k_pb K) now) (\<lambda>_. Inr ()))
     (\<lambda>db. bindR (readCommand K db (byID cid)) (\<lambda>r.
        if getter c_target (rec_command r) \<noteq> nodeID then Inl ErrIdentityConflict
        else if \<not> authorizationSensitiveCommand (getter c_type (rec_command r)) then Inl ErrCommandConflict
        else if rec_status r \<noteq> ACCEPTED then Inr (r, db)
        else transitionCommand K r REJECTED detail now db))"

definition expiryOf :: "pb \<Rightarrow> command_record \<Rightarrow> int" where
  "expiryOf P r = asTimeOf P (Option.bind (rec_command r) c_expires)"

definition dispatchBody ::
  "'b codecs \<Rightarrow> string \<Rightarrow> string \<Rightarrow> int \<Rightarrow> ('b coordinator, command_record \<times> bool) body" where
  "dispatchBody K nodeID cid now db = bindR (readCommand K db (byID cid)) (\<lambda>r.
     if getter c_target (rec_command r) \<noteq> nodeID then Inl ErrIdentityConflict
     else if rec_status r \<noteq> ACCEPTED then Inr ((r, False), db)
     else if expiryOf (k_pb K) r \<le> now
     then bindR (transitionCommand K r TIMED_OUT ''deadline_expired'' now db) (\<lambda>(r', db'). Inr ((r', False), db'))
     else bindR (transitionCommand K r RUNNING ''dispatched'' now db) (\<lambda>(r', db'). Inr ((r', True), db')))"

definition DispatchCommand ::
  "tx_env \<Rightarrow> 'b codecs \<Rightarrow> string \<Rightarrow> string \<Rightarrow> int \<Rightarrow> 'b coordinator \<Rightarrow>
   (command_record \<times> bool) res \<times> 'b coordinator" where
  "DispatchCommand E K nodeID cid now = operation E
     (if blank nodeID \<or> blank cid then Inl (Msg ''dispatch target and command ID must not be empty'')
      else bindR (commandTime (k_pb K) now) (\<lambda>_. Inr ()))
     (dispatchBody K nodeID cid now)"

section \<open>Results and progress\<close>

definition saveRecord ::
  "'b codecs \<Rightarrow> string \<Rightarrow> command_record \<Rightarrow> 'b coordinator \<Rightarrow> (command_record \<times> 'b coordinator) res" where
  "saveRecord K cid r db =
     bindR (validateCommandRecord (k_pb K) r) (\<lambda>_.
       bindR (marshalCommandMessage record_unknown (k_record K) r) (\<lambda>payload.
         bindR (updateRecord K cid payload db) (\<lambda>db'. Inr (r, db'))))"

definition conflictOf :: "unit res \<Rightarrow> unit res" where
  "conflictOf v = (case v of Inl e \<Rightarrow> Inl (Blame ErrCommandConflict e) | Inr u \<Rightarrow> Inr u)"

definition finishLifecycleRecord ::
  "'b codecs \<Rightarrow> command_record \<Rightarrow> command \<Rightarrow> command_result \<Rightarrow> int \<Rightarrow> 'b coordinator \<Rightarrow>
   (command_record \<times> 'b coordinator) res" where
  "finishLifecycleRecord K r c result now db =
     (if recordResult r = result then Inr (r, db)
      else if rec_status r \<noteq> RUNNING \<and> rec_status r \<noteq> INDETERMINATE then Inl ErrCommandConflict
      else bindR (if cr_lifecycle result \<noteq> None
                  then conflictOf (ValidateLifecycleAdvance (k_pb K) (rec_lifecycle r) (cr_lifecycle result) c)
                  else if rec_lifecycle r \<noteq> None then Inl ErrCommandConflict else Inr ()) (\<lambda>_.
        let r' = (if cr_lifecycle result \<noteq> None then r\<lparr>rec_lifecycle := cr_lifecycle result\<rparr> else r) in
        if rec_status r \<noteq> cr_status result \<or> rec_detail r \<noteq> cr_detail result
        then transitionCommand K r' (cr_status result) (cr_detail result) now db
        else saveRecord K (cr_id result) r' db))"

text \<open>The typed success data a result adds to its record.\<close>

definition withResult :: "command_record \<Rightarrow> command_result \<Rightarrow> command_record" where
  "withResult r v = r\<lparr>
     rec_workspace := (if cr_workspace v \<noteq> None then cr_workspace v else rec_workspace r),
     rec_worktree := (if cr_worktree v \<noteq> None then cr_worktree v else rec_worktree r),
     rec_control := (if cr_control v \<noteq> None then cr_control v else rec_control r),
     rec_session := (if cr_session v \<noteq> None then cr_session v else rec_session r)\<rparr>"

definition finishRecord ::
  "'b codecs \<Rightarrow> command_record \<Rightarrow> command \<Rightarrow> command_result \<Rightarrow> int \<Rightarrow> 'b coordinator \<Rightarrow>
   (command_record \<times> 'b coordinator) res" where
  "finishRecord K r c result now db =
     (if cr_status result = INDETERMINATE \<and> IsTerminalCommand (rec_status r) \<and>
         (c_session c = None \<or> rec_status r \<noteq> INDETERMINATE \<or>
          rec_detail r \<noteq> ''node_disconnected'' \<or> cr_detail result \<noteq> ''startup_uncertain'')
      then Inr (r, db)
      else if recordResult r = result then Inr (r, db)
      else if rec_status r \<noteq> RUNNING \<and> rec_status r \<noteq> INDETERMINATE then Inl ErrCommandConflict
      else transitionCommand K (withResult r result) (cr_status result) (cr_detail result) now db)"

definition finishBody ::
  "'b codecs \<Rightarrow> string \<Rightarrow> string \<Rightarrow> command_result \<Rightarrow> int \<Rightarrow> ('b coordinator, command_record) body" where
  "finishBody K nodeID stableID result now db =
     bindR (readCommand K db (byID (cr_id result))) (\<lambda>r. case rec_command r of
         None \<Rightarrow> Inl (Msg ''stored command record is missing its command'')
       | Some c \<Rightarrow>
           if (case stableOf (cd_bindings db) nodeID of None \<Rightarrow> True
               | Some bound \<Rightarrow> bound \<noteq> stableID \<or> nodeID \<noteq> c_target c)
           then Inl ErrIdentityConflict
           else bindR (conflictOf (ValidateResultForCommand (k_pb K) (Some result) c)) (\<lambda>_.
             if IsLifecycleCommand (c_type c) then finishLifecycleRecord K r c result now db
             else finishRecord K r c result now db))"

definition FinishCommand ::
  "tx_env \<Rightarrow> 'b codecs \<Rightarrow> string \<Rightarrow> string \<Rightarrow> command_result option \<Rightarrow> int \<Rightarrow> 'b coordinator \<Rightarrow>
   command_record res \<times> 'b coordinator" where
  "FinishCommand E K nodeID stableID result now = operation E
     (if blank nodeID \<or> blank stableID then Inl (Msg ''result node and stable IDs must not be empty'')
      else bindR (conflictOf (ValidateCommandResult result)) (\<lambda>_.
        bindR (commandTime (k_pb K) now) (\<lambda>_. Inr ())))
     (\<lambda>db. case result of
        None \<Rightarrow> Inl (Msg ''invalid agent command result'')
      | Some v \<Rightarrow> finishBody K nodeID stableID v now db)"

definition sequenceOf :: "receipt option \<Rightarrow> nat" where
  "sequenceOf r = (case r of None \<Rightarrow> 0 | Some r \<Rightarrow> unat (lr_sequence r))"

definition progressBody ::
  "'b codecs \<Rightarrow> string \<Rightarrow> command_progress \<Rightarrow> ('b coordinator, unit) body" where
  "progressBody K nodeID progress db =
     bindR (readCommand K db (byID (cp_id progress))) (\<lambda>r. case rec_command r of
         None \<Rightarrow> Inl (Msg ''stored command record is missing its command'')
       | Some c \<Rightarrow>
           if c_target c \<noteq> nodeID then Inl ErrCommandConflict
           else if rec_lifecycle r \<noteq> None \<and> cp_lifecycle progress \<noteq> None \<and>
             sequenceOf (cp_lifecycle progress) \<le> sequenceOf (rec_lifecycle r)
           then bindR (conflictOf (ValidateLifecycleAdvance (k_pb K) (cp_lifecycle progress) (rec_lifecycle r) c))
             (\<lambda>_. Inr ((), db))
           else if rec_status r \<noteq> RUNNING \<and> rec_status r \<noteq> INDETERMINATE then Inl ErrCommandConflict
           else bindR (conflictOf (ValidateLifecycleAdvance (k_pb K) (rec_lifecycle r) (cp_lifecycle progress) c))
             (\<lambda>_. bindR (saveRecord K (cp_id progress) (r\<lparr>rec_lifecycle := cp_lifecycle progress\<rparr>) db)
                (\<lambda>(r', db'). Inr ((), db'))))"

definition SaveCommandProgress ::
  "tx_env \<Rightarrow> 'b codecs \<Rightarrow> string \<Rightarrow> command_progress option \<Rightarrow> 'b coordinator \<Rightarrow>
   unit res \<times> 'b coordinator" where
  "SaveCommandProgress E K nodeID progress db = (case progress of
     None \<Rightarrow> (Inl ErrCommandConflict, db)
   | Some p \<Rightarrow>
       if cp_unk p \<noteq> [] \<or> \<not> ValidCommandID (cp_id p) then (Inl ErrCommandConflict, db)
       else operation E (Inr ()) (progressBody K nodeID p) db)"

section \<open>Changing the active commands\<close>

fun changeLoop ::
  "'b codecs \<Rightarrow> int \<Rightarrow> command_status \<Rightarrow> string \<Rightarrow> command_record list \<Rightarrow> 'b coordinator \<Rightarrow> 'b coordinator res" where
  "changeLoop K now acceptedStatus detail [] db = Inr db"
| "changeLoop K now acceptedStatus detail (r # rs) db =
     (if detail = ''deadline_expired'' \<and> rec_status r = RUNNING \<and>
         (case rec_command r of None \<Rightarrow> False | Some c \<Rightarrow> now < CommandExecutionDeadline (k_pb K) c)
      then changeLoop K now acceptedStatus detail rs db
      else bindR (transitionCommand K r (if rec_status r = RUNNING then INDETERMINATE else acceptedStatus)
                    detail now db) (\<lambda>(r', db'). changeLoop K now acceptedStatus detail rs db'))"

definition changeBody ::
  "'b codecs \<Rightarrow> int \<Rightarrow> (string \<Rightarrow> 'b command_row \<Rightarrow> bool) \<Rightarrow> command_status \<Rightarrow> string \<Rightarrow>
   ('b coordinator, unit) body" where
  "changeBody K now p acceptedStatus detail db =
     bindR (readCommands K db p) (\<lambda>rs.
       bindR (changeLoop K now acceptedStatus detail rs db) (\<lambda>db'. Inr ((), db')))"

definition changeActiveCommands ::
  "tx_env \<Rightarrow> 'b codecs \<Rightarrow> int \<Rightarrow> (string \<Rightarrow> 'b command_row \<Rightarrow> bool) \<Rightarrow> command_status \<Rightarrow> string \<Rightarrow>
   'b coordinator \<Rightarrow> unit res \<times> 'b coordinator" where
  "changeActiveCommands E K now p acceptedStatus detail = operation E
     (bindR (commandTime (k_pb K) now) (\<lambda>_. Inr ()))
     (changeBody K now p acceptedStatus detail)"

definition LoseNodeCommands ::
  "tx_env \<Rightarrow> 'b codecs \<Rightarrow> string \<Rightarrow> int \<Rightarrow> 'b coordinator \<Rightarrow> unit res \<times> 'b coordinator" where
  "LoseNodeCommands E K nodeID now db =
     (if blank nodeID then (Inl (Msg ''lost node ID must not be empty''), db)
      else changeActiveCommands E K now (\<lambda>i row. cw_target row = nodeID \<and> activeRow row)
        NODE_UNAVAILABLE ''node_disconnected'' db)"

definition expiredRow :: "timestamp \<Rightarrow> 'b command_row \<Rightarrow> bool" where
  "expiredRow stamp row = (cw_seconds row < ts_seconds stamp \<or>
     cw_seconds row = ts_seconds stamp \<and> cw_nanos row \<le> ts_nanos stamp)"

definition ExpireCommands ::
  "tx_env \<Rightarrow> 'b codecs \<Rightarrow> int \<Rightarrow> 'b coordinator \<Rightarrow> unit res \<times> 'b coordinator" where
  "ExpireCommands E K now db = (case commandTime (k_pb K) now of
     Inl e \<Rightarrow> (Inl e, db)
   | Inr stamp \<Rightarrow> changeActiveCommands E K now (\<lambda>i row. activeRow row \<and> expiredRow stamp row)
       TIMED_OUT ''deadline_expired'' db)"

definition RecoverCommands ::
  "tx_env \<Rightarrow> 'b codecs \<Rightarrow> int \<Rightarrow> 'b coordinator \<Rightarrow> unit res \<times> 'b coordinator" where
  "RecoverCommands E K now = changeActiveCommands E K now (\<lambda>i row. activeRow row)
     NODE_UNAVAILABLE ''server_restarted''"

section \<open>Validated records\<close>

text \<open>What a validated record says, one fact per check.\<close>

lemma validateCommandRecord_parts:
  assumes "validateCommandRecord P r = Inr ()"
  obtains c where "rec_command r = Some c" "validateCommand P (Some c) (c_target c) = Inr ()"
    "recordData P r c = Inr ()" "recordAudit P r c = Inr ()"
    "validTime P (rec_created r)" "validTime P (rec_updated r)"
    "rec_audit r \<noteq> []" "length (rec_audit r) \<le> maxCommandAudit" "\<not> record_unknown r"
    "asTimeOf P (rec_created r) < asTimeOf P (c_expires c)"
    "asTimeOf P (c_expires c) \<le> asTimeOf P (rec_created r) + asDurationOf P (c_ttl c)"
  using assms unfolding validateCommandRecord_def
  by (auto simp: bindR_eq_Inr Let_def not_less split: option.splits if_splits)

lemma validateCommand_ValidateCommand:
  "validateCommand P (Some c) t = Inr () \<Longrightarrow> ValidateCommand P (Some c) t = Inr ()"
  by (simp add: validateCommand_def split: if_splits)

lemma auditLoop_snoc:
  "auditLoop P kind created prev (es @ [e]) =
     bindR (auditLoop P kind created prev es) (\<lambda>p. bindR (auditEvent P kind created p e) (\<lambda>_. Inr (Some e)))"
  by (induction es arbitrary: prev) (simp_all add: bindR_assoc cong del: bindR_cong)

text \<open>The audit of a validated record is a legal run of the status machine from admission on.\<close>

definition auditChain :: "string \<Rightarrow> command_audit list \<Rightarrow> bool" where
  "auditChain kind es = (es \<noteq> [] \<and> au_status (hd es) = ACCEPTED \<and>
     (\<forall>i. Suc i < length es \<longrightarrow>
        validCommandTransition kind (au_status (es ! i)) (au_status (es ! Suc i)) (au_detail (es ! Suc i))) \<and>
     (\<forall>e \<in> set es. validCommandOutcome kind (au_status e) (au_detail e)))"

lemma auditLoop_last:
  "auditLoop P kind created None es = Inr p \<Longrightarrow> p = (if es = [] then None else Some (last es))"
  by (cases es rule: rev_cases) (auto simp: auditLoop_snoc bindR_eq_Inr)

lemma auditLoop_chain:
  assumes "auditLoop P kind created None es = Inr p" and "es \<noteq> []"
  shows "auditChain kind es"
  using assms
proof (induction es arbitrary: p rule: rev_induct)
  case Nil
  then show ?case by simp
next
  case (snoc e es)
  then obtain q where q: "auditLoop P kind created None es = Inr q"
    and ev: "auditEvent P kind created q e = Inr ()"
    by (auto simp: auditLoop_snoc bindR_eq_Inr)
  have out: "validCommandOutcome kind (au_status e) (au_detail e)"
    using ev by (auto simp: auditEvent_def split: if_splits option.splits)
  show ?case
  proof (cases "es = []")
    case True
    then show ?thesis using ev q out by (auto simp: auditEvent_def auditChain_def split: if_splits)
  next
    case False
    have ch: "auditChain kind es" using snoc.IH q False by blast
    have "q = Some (last es)" using auditLoop_last [OF q] False by simp
    then have tr: "validCommandTransition kind (au_status (last es)) (au_status e) (au_detail e)"
      using ev by (auto simp: auditEvent_def split: if_splits)
    show ?thesis
      using ch tr out False unfolding auditChain_def
      by (auto simp: nth_append last_conv_nth less_Suc_eq) (metis One_nat_def diff_Suc_1)
  qed
qed

lemma recordAudit_facts:
  assumes "recordAudit P r c = Inr ()"
  shows "rec_audit r \<noteq> []" "auditChain (c_type c) (rec_audit r)"
    "rec_status r = au_status (last (rec_audit r))" "rec_detail r = au_detail (last (rec_audit r))"
    "rec_updated r = au_at (last (rec_audit r))"
    "auditLoop P (c_type c) (rec_created r) None (rec_audit r) = Inr (Some (last (rec_audit r)))"
proof -
  obtain p where p: "auditLoop P (c_type c) (rec_created r) None (rec_audit r) = Inr (Some p)"
    and eq: "au_status p = rec_status r" "au_detail p = rec_detail r" "au_at p = rec_updated r"
    using assms unfolding recordAudit_def by (auto simp: bindR_eq_Inr split: option.splits if_splits)
  from auditLoop_last [OF p] show ne: "rec_audit r \<noteq> []" by (auto split: if_splits)
  have l: "p = last (rec_audit r)" using auditLoop_last [OF p] ne by simp
  show "auditChain (c_type c) (rec_audit r)" by (rule auditLoop_chain [OF p ne])
  show "rec_status r = au_status (last (rec_audit r))" "rec_detail r = au_detail (last (rec_audit r))"
    "rec_updated r = au_at (last (rec_audit r))" using eq l by simp_all
  show "auditLoop P (c_type c) (rec_created r) None (rec_audit r) = Inr (Some (last (rec_audit r)))"
    using p l by simp
qed

end
