(* ===== verification/Samples.thy ===== *)
theory Samples
  imports Wire
begin

text \<open>
  Concrete parameters and messages at which the theorems with hypotheses are instantiated: a
  protobuf runtime that satisfies \<open>pb_ok\<close>, codecs whose bytes are the message itself, and one
  small request, command and receipt of each kind.
\<close>

section \<open>Runtime and codecs\<close>

definition samplePb :: pb where
  "samplePb = \<lparr>size_command = \<lambda>_. 512, size_receipt = \<lambda>_. 256,
     ts_valid = \<lambda>t. 0 \<le> ts_nanos t \<and> ts_nanos t < 1000000000,
     as_time = \<lambda>t. ts_seconds t * 1000000000 + ts_nanos t,
     new_ts = \<lambda>n. \<lparr>ts_seconds = n div 1000000000, ts_nanos = n mod 1000000000, ts_unk = []\<rparr>,
     du_valid = \<lambda>d. 0 \<le> du_nanos d \<and> du_nanos d < 1000000000,
     as_duration = \<lambda>d. du_seconds d * 1000000000 + du_nanos d,
     new_du = \<lambda>n. \<lparr>du_seconds = n div 1000000000, du_nanos = n mod 1000000000, du_unk = []\<rparr>\<rparr>"

lemma samplePb_simps [simp]:
  "size_command samplePb c = 512" "size_receipt samplePb r = 256"
  "ts_valid samplePb t = (0 \<le> ts_nanos t \<and> ts_nanos t < 1000000000)"
  "as_time samplePb t = ts_seconds t * 1000000000 + ts_nanos t"
  "new_ts samplePb n = \<lparr>ts_seconds = n div 1000000000, ts_nanos = n mod 1000000000, ts_unk = []\<rparr>"
  "du_valid samplePb d = (0 \<le> du_nanos d \<and> du_nanos d < 1000000000)"
  "as_duration samplePb d = du_seconds d * 1000000000 + du_nanos d"
  "new_du samplePb n = \<lparr>du_seconds = n div 1000000000, du_nanos = n mod 1000000000, du_unk = []\<rparr>"
  by (simp_all add: samplePb_def)

lemma samplePb_ok: "pb_ok samplePb"
  by (simp add: pb_ok_def)

definition sampleCodec :: "('m, 'm) codec" where
  "sampleCodec = \<lparr>size_msg = \<lambda>_. 64, marshal = Some, unmarshal = Some, blob_len = \<lambda>_. 64\<rparr>"

lemma sampleCodec_simps [simp]:
  "size_msg sampleCodec m = 64" "marshal sampleCodec m = Some m"
  "unmarshal sampleCodec m = Some m" "blob_len sampleCodec m = 64"
  by (simp_all add: sampleCodec_def)

lemma sampleCodec_ok: "codec_ok sampleCodec"
  by (simp add: codec_ok_def)

section \<open>Messages\<close>

definition emptyRequest :: submit_request where
  "emptyRequest = \<lparr>sr_node = '''', sr_key = '''', sr_type = '''', sr_ttl = None, sr_workspace = None,
     sr_worktree = None, sr_control = None, sr_session = None, sr_start = None, sr_stop = None,
     sr_unk = []\<rparr>"

definition emptyCommand :: command where
  "emptyCommand = \<lparr>c_id = '''', c_key = '''', c_type = '''', c_target = '''', c_actor = None,
     c_ttl = None, c_preconditions = None, c_payload = None, c_expires = None, c_workspace = None,
     c_worktree = None, c_control = None, c_submitted = None, c_session = None, c_start = None,
     c_stop = None, c_exec_expires = None, c_unk = []\<rparr>"

definition emptyResult :: command_result where
  "emptyResult = \<lparr>cr_id = '''', cr_status = UNSPECIFIED, cr_detail = '''', cr_payload = None,
     cr_workspace = None, cr_worktree = None, cr_control = None, cr_session = None,
     cr_lifecycle = None, cr_unk = []\<rparr>"

definition sampleId :: string where
  "sampleId = replicate 32 (CHR ''a'')"

definition otherId :: string where
  "otherId = replicate 32 (CHR ''b'')"

definition sampleIncarnation :: string where
  "sampleIncarnation = replicate 64 (CHR ''c'')"

definition sampleActor :: actor where
  "sampleActor = \<lparr>ac_id = ''op'', ac_role = ROLE_CONTROLLER, ac_origin = ORIGIN_UNSPECIFIED,
     ac_hops = 0, ac_unk = []\<rparr>"

definition seconds :: "int \<Rightarrow> duration" where
  "seconds n = \<lparr>du_seconds = n, du_nanos = 0, du_unk = []\<rparr>"

definition at_second :: "int \<Rightarrow> timestamp" where
  "at_second n = \<lparr>ts_seconds = n, ts_nanos = 0, ts_unk = []\<rparr>"

definition sampleStart :: agent_start where
  "sampleStart = \<lparr>as_project = ''web'', as_revision = ''managed:1'', as_workspace = ''w1'',
     as_name = ''helper'', as_provider = ''claude'', as_session = '''', as_incarnation = '''',
     as_timeout = 30000, as_prompt = '''', as_unk = []\<rparr>"

definition startRequest :: submit_request where
  "startRequest = emptyRequest\<lparr>sr_node := ''node-1'', sr_key := ''key-1'', sr_type := ''agent.start.v1'',
     sr_ttl := Some (seconds 10),
     sr_start := Some (sampleStart\<lparr>as_revision := '''', as_prompt := ''fix it''\<rparr>)\<rparr>"

definition startCommand :: command where
  "startCommand = emptyCommand\<lparr>c_id := sampleId, c_key := ''key-1'', c_type := ''agent.start.v1'',
     c_target := ''node-1'', c_actor := Some sampleActor, c_ttl := Some (seconds 10),
     c_expires := Some (at_second 1000), c_exec_expires := Some (at_second 1060),
     c_submitted := Some startRequest, c_start := Some sampleStart\<rparr>"

definition probeCommand :: command where
  "probeCommand = emptyCommand\<lparr>c_id := sampleId, c_key := ''key-1'', c_type := ''node.ping.v1'',
     c_target := ''node-1'', c_actor := Some sampleActor, c_ttl := Some (seconds 10),
     c_expires := Some (at_second 1000)\<rparr>"

definition sampleTarget :: agent_target where
  "sampleTarget = \<lparr>at_pane = ''p1'', at_terminal = ''t1'', at_agent_session = '''', at_session = '''',
     at_incarnation = sampleIncarnation, at_unk = []\<rparr>"

definition sampleHandle :: lifecycle_handle where
  "sampleHandle = \<lparr>lh_target = Some sampleTarget, lh_workspace = ''w1'', lh_tab = ''tab1'',
     lh_provider = ''claude'', lh_unk = []\<rparr>"

definition stageEvent :: "string \<Rightarrow> bool \<Rightarrow> string \<Rightarrow> lifecycle_stage" where
  "stageEvent s before out = \<lparr>ls_stage = s, ls_before = before, ls_outcome = out, ls_unk = []\<rparr>"

text \<open>A start whose pane is confirmed, and the same start one intent later.\<close>

definition paneReceipt :: receipt where
  "paneReceipt = \<lparr>lr_handle = Some sampleHandle, lr_pane = ''confirmed'', lr_launch = ''not_attempted'',
     lr_prompt = ''not_attempted'', lr_stop = ''not_attempted'', lr_observed = '''', lr_sequence = 2,
     lr_stages = [stageEvent ''create_pane'' True ''unknown'', stageEvent ''create_pane'' False ''confirmed''],
     lr_unk = []\<rparr>"

definition launchReceipt :: receipt where
  "launchReceipt = paneReceipt\<lparr>lr_launch := ''unknown'', lr_sequence := 3,
     lr_stages := lr_stages paneReceipt @ [stageEvent ''launch'' True ''unknown'']\<rparr>"

definition doneReceipt :: receipt where
  "doneReceipt = paneReceipt\<lparr>lr_launch := ''confirmed'', lr_prompt := ''confirmed'', lr_sequence := 6,
     lr_stages := lr_stages paneReceipt @ [stageEvent ''launch'' True ''unknown'',
       stageEvent ''launch'' False ''confirmed'', stageEvent ''prompt'' True ''unknown'',
       stageEvent ''prompt'' False ''confirmed'']\<rparr>"

lemmas sample_defs = emptyRequest_def emptyCommand_def emptyResult_def sampleId_def otherId_def
  sampleIncarnation_def sampleActor_def seconds_def at_second_def sampleStart_def startRequest_def
  startCommand_def probeCommand_def sampleTarget_def sampleHandle_def stageEvent_def
  paneReceipt_def launchReceipt_def doneReceipt_def

section \<open>Evaluation\<close>

text \<open>ASCII text decodes byte by byte, which is how the samples' strings evaluate.\<close>

lemma scan_runes_ascii: "list_all (\<lambda>b. b < 128) bs \<Longrightarrow> scan_runes bs = map Inr bs"
  by (induction bs)
    (auto simp: scan_runes.simps [of "_ # _"] scan_runes.simps [of "[]"] decode_rune_def)

lemma range_runes_ascii: "list_all (\<lambda>c. byte c < 128) s \<Longrightarrow> range_runes s = map byte s"
  by (simp add: range_runes_def scan_runes_ascii list_all_iff comp_def)

lemma valid_utf8_ascii: "list_all (\<lambda>c. byte c < 128) s \<Longrightarrow> valid_utf8 s"
  by (simp add: valid_utf8_def scan_runes_ascii list_all_iff)

lemmas eval_text = range_runes_ascii valid_utf8_ascii byte_def blank_def is_space_def is_control_def
  has_control_def

lemma sample_tokens [simp]:
  "commandToken ''node-1''" "commandToken ''key-1''" "commandToken ''w1''" "commandToken ''web''"
  "commandToken ''managed''" "commandToken ''managed:1''" "commandToken ''helper''" "commandToken ''op''"
  "commandToken ''p1''" "commandToken ''t1''" "commandToken ''tab1''"
  by (simp_all add: commandToken_def token_char_def is_digit_def is_lower_def is_upper_def byte_def)

lemma sample_ids [simp]:
  "commandID sampleId" "commandID otherId" "sessionIncarnation sampleIncarnation"
  "sampleIncarnation \<noteq> ''''" "sampleId \<noteq> otherId"
  by (simp_all add: commandID_def sessionIncarnation_def sampleId_def otherId_def
      sampleIncarnation_def is_hex_def is_digit_def byte_def list_all_iff)

end
