(* ===== verification/ProtocolContract.thy ===== *)
theory ProtocolContract
  imports ProtoResults Samples
begin

text \<open>
  What the protocol package promises its callers: normal forms of requests, the shape of accepted
  commands, the discipline of lifecycle receipts and the meaning of result statuses.  The first
  section evaluates the validators on the sample messages, for the instances of the theorems.
\<close>

section \<open>Samples\<close>

lemmas eval_start = validateCommandBody_def command_types ValidateAgentStart_def
  SupportedLifecycleProvider_def lifecycleProviders_def NormalizeAgentStartupTimeout_def
  MaxAgentStartupTimeoutMs_def ValidateSessionSelector_def Let_def validTTL_def MaxCommandTTL_def
  ValidIdempotencyKey_def ValidCommandID_def

lemmas start_messages = startRequest_def emptyRequest_def sampleStart_def seconds_def startCommand_def
  emptyCommand_def sampleActor_def at_second_def

lemma fix_it_ok: "ValidateAgentControlInput ACTION_PROMPT ''fix it'' [] = Inr ()"
  by (simp add: ValidateAgentControlInput_def eval_text MaxAgentPromptBytes_def)

lemma startRequest_normal: "NormalizeCommandRequest samplePb (Some startRequest) = Inr startRequest"
  by (simp add: NormalizeCommandRequest_def managedStart_def normalizedStart_def fix_it_ok
      eval_start start_messages)

lemma startCommand_submitted: "ValidateSubmittedRequest samplePb startCommand = Inr ()"
proof -
  have s: "c_submitted startCommand = Some startRequest" by (simp add: startCommand_def)
  have b: "submittedBody startCommand startRequest = Inr ()"
    by (simp add: submittedBody_def validateLifecycleSubmitted_def matchesSession_def
        command_types start_messages)
  show ?thesis
    by (simp add: ValidateSubmittedRequest_def s startRequest_normal b)
      (simp add: start_messages)
qed

lemma startCommand_valid: "ValidateCommand samplePb (Some startCommand) ''node-1'' = Inr ()"
proof -
  have e: "validateExecution samplePb startCommand = Inr ()"
    by (simp add: validateExecution_def LifecycleExecutionDeadline_def asTimeOf_def validExpiry_def
        LifecycleSetupAllowance_def eval_start start_messages)
  have b: "validateCommandBody (c_type startCommand) (c_workspace startCommand)
      (checkedWorktree startCommand) (c_control startCommand) (c_session startCommand)
      (c_start startCommand) (c_stop startCommand) = Inr ()"
    by (simp add: checkedWorktree_def eval_start start_messages)
  have t: "validTTL samplePb (c_ttl startCommand) = Inr ()"
    by (simp add: validTTL_def MaxCommandTTL_def startCommand_def seconds_def)
  have x: "validExpiry samplePb (c_expires startCommand)" "validCommandActor (c_actor startCommand)"
    by (simp_all add: validExpiry_def validCommandActor_def start_messages)
  have f: "c_id startCommand = sampleId" "c_target startCommand = ''node-1''" "c_unk startCommand = []"
    "c_key startCommand = ''key-1''" "c_payload startCommand = None" "c_preconditions startCommand = None"
    by (simp_all add: startCommand_def emptyCommand_def)
  show ?thesis
    by (simp add: ValidateCommand_def startCommand_submitted e b t x f MaxLifecycleReceiptBytes_def
        ValidCommandID_def)
qed

lemmas eval_receipt = ValidateLifecycleReceipt_def receiptHandle_def receiptIdentity_def
  startReceiptIdentity_def stageCheck_def noAttempts_def stageNames_def outcomes_def
  LifecycleStageOutcome_def submittedPrompt_def matchesSession_def ValidSessionIncarnation_def
  ValidateSessionSelector_def MaxLifecycleReceiptBytes_def MaxLifecycleEvents_def command_types
  paneReceipt_def launchReceipt_def doneReceipt_def sampleHandle_def sampleTarget_def stageEvent_def

lemma paneReceipt_valid: "ValidateLifecycleReceipt samplePb (Some paneReceipt) startCommand = Inr ()"
  by (simp add: eval_receipt start_messages)

lemma launchReceipt_valid: "ValidateLifecycleReceipt samplePb (Some launchReceipt) startCommand = Inr ()"
  by (simp add: eval_receipt start_messages)

lemma doneReceipt_valid: "ValidateLifecycleReceipt samplePb (Some doneReceipt) startCommand = Inr ()"
  by (simp add: eval_receipt start_messages)

lemma pane_to_launch:
  "ValidateLifecycleAdvance samplePb (Some paneReceipt) (Some launchReceipt) startCommand = Inr ()"
  by (simp add: ValidateLifecycleAdvance_def paneReceipt_valid launchReceipt_valid)
    (simp add: advanceStep_def pinnedPairs_def Let_def eval_receipt)

lemma launch_to_done:
  "ValidateLifecycleAdvance samplePb (Some launchReceipt) (Some doneReceipt) startCommand = Inr ()"
  by (simp add: ValidateLifecycleAdvance_def launchReceipt_valid doneReceipt_valid)
    (simp add: advanceStep_def pinnedPairs_def Let_def eval_receipt)

section \<open>Negotiation, queries and text\<close>

text \<open>
  Negotiation chooses the highest protocol version both sides speak: it succeeds exactly when
  the peer names a proper range that meets the local one, and the agreed version lies in both.
\<close>

theorem negotiate_highest_common:
  "Negotiate (Some r) = Inr v \<longleftrightarrow>
     pr_minimum r \<noteq> 0 \<and> pr_minimum r \<le> pr_maximum r \<and>
     v \<in> {pr_minimum r..pr_maximum r} \<inter> {MinimumVersion..MaximumVersion} \<and>
     {pr_minimum r..pr_maximum r} \<inter> {MinimumVersion..MaximumVersion} \<subseteq> {..v}"
proof (cases "max (pr_minimum r) MinimumVersion \<le> min (pr_maximum r) MaximumVersion")
  case True
  let ?m = "min (pr_maximum r) MaximumVersion"
  have "?m \<in> {pr_minimum r..pr_maximum r} \<inter> {MinimumVersion..MaximumVersion}"
    using True by auto
  moreover have "{pr_minimum r..pr_maximum r} \<inter> {MinimumVersion..MaximumVersion} \<subseteq> {..?m}"
    by auto
  moreover have "pr_minimum r \<noteq> 0 \<Longrightarrow> pr_minimum r \<le> pr_maximum r \<Longrightarrow> pr_maximum r \<noteq> 0"
    by (auto simp: word_le_0_iff)
  ultimately show ?thesis
    unfolding Negotiate_ok using True
    by (smt (verit) Int_iff atLeastAtMost_iff atMost_iff order_antisym subset_iff)
next
  case False
  then have "{pr_minimum r..pr_maximum r} \<inter> {MinimumVersion..MaximumVersion} = {}" by auto
  then show ?thesis using False by (auto simp: Negotiate_ok)
qed

text \<open>
  A normalised agent query is a normal form (normalising it again changes nothing), keeps the
  operator's node, target and kind, and is bounded: a timeout of 1 ms to five minutes, at most
  1000 lines for a read, and distinct known states for a wait.
\<close>

theorem agent_selection_normal_form:
  assumes "NormalizeAgentSelection (Some q) = Inr n"
  shows "NormalizeAgentSelection (Some n) = Inr n \<and>
    qr_node n = qr_node q \<and> qr_target n = qr_target q \<and> qr_kind n = qr_kind q \<and>
    0 < qr_timeout n \<and> qr_timeout n \<le> MaxAgentQueryTimeoutMs \<and>
    (qr_kind n = QUERY_READ \<longrightarrow> 0 < qr_lines n \<and> qr_lines n \<le> 1000) \<and>
    (qr_kind n = QUERY_WAIT \<longrightarrow>
      qr_until n \<noteq> [] \<and> distinct (qr_until n) \<and> set (qr_until n) \<subseteq> set agentStatuses)"
proof -
  note f = NormalizeAgentSelection_facts [OF assms]
  have "qr_node n = qr_node q"
    using assms by (auto simp: NormalizeAgentSelection_def Let_def res_simps selectionArgs_frame split: if_splits)
  moreover have "n\<lparr>qr_lines := 100\<rparr> \<noteq> n \<or> qr_lines n \<noteq> 0"
  proof -
    have "qr_lines (n\<lparr>qr_lines := 100\<rparr>) \<noteq> 0" by simp
    then show ?thesis by metis
  qed
  then have "qr_kind n = QUERY_READ \<longrightarrow> 0 < qr_lines n \<and> qr_lines n \<le> 1000"
    using f(8) by (auto simp: selectionArgs_def word_gt_0 not_less split: if_splits)
  moreover have "qr_kind n = QUERY_WAIT \<longrightarrow>
      qr_until n \<noteq> [] \<and> distinct (qr_until n) \<and> set (qr_until n) \<subseteq> set agentStatuses"
    using selectionArgs_until [OF f(8)] by (auto simp: validAgentStatus_def)
  ultimately show ?thesis
    using f NormalizeAgentSelection_idem [OF assms] by (simp add: word_gt_0)
qed

definition sampleQuery :: agent_query_request where
  "sampleQuery = \<lparr>qr_node = ''node-1'', qr_kind = QUERY_WAIT, qr_target = Some sampleTarget,
     qr_lines = 0, qr_until = [], qr_timeout = 0, qr_unk = []\<rparr>"

lemma agent_selection_normal_form_witness:
  "NormalizeAgentSelection (Some (sampleQuery\<lparr>qr_timeout := 30000,
     qr_until := [''idle'', ''done'', ''blocked'']\<rparr>)) =
   Inr (sampleQuery\<lparr>qr_timeout := 30000, qr_until := [''idle'', ''done'', ''blocked'']\<rparr>)"
proof -
  have "NormalizeAgentSelection (Some sampleQuery) =
    Inr (sampleQuery\<lparr>qr_timeout := 30000, qr_until := [''idle'', ''done'', ''blocked'']\<rparr>)"
    by (simp add: NormalizeAgentSelection_def sampleQuery_def selectionArgs_def ValidateAgentTarget_def
        sampleTarget_def ValidateSessionSelector_def ValidSessionIncarnation_def Let_def
        MaxAgentQueryTimeoutMs_def validAgentStatus_def agentStatuses_def)
  from agent_selection_normal_form [OF this] show ?thesis by blast
qed

text \<open>
  Terminal output is made safe before it is shown: the sanitised text is valid UTF-8, contains no
  control character but newline and tab and no bidirectional override, keeps every other rune in
  order, and sanitising it again changes nothing.
\<close>

theorem sanitized_text_safe:
  "valid_utf8 (SanitizeAgentText s) \<and>
   range_runes (SanitizeAgentText s) = filter keptRune (range_runes s) \<and>
   SanitizeAgentText (SanitizeAgentText s) = SanitizeAgentText s \<and>
   {r \<in> set (range_runes (SanitizeAgentText s)). is_control r} \<subseteq> {9, 10} \<and>
   set (range_runes (SanitizeAgentText s)) \<inter> ({8234..8238} \<union> {8294..8297}) = {}"
  by (auto simp: SanitizeAgentText_def valid_utf8_filter range_runes_filter strings_filter_idem
      keptRune_def)

section \<open>Requests and commands\<close>

text \<open>
  Normalising a submitted command yields a normal form: normalising it again is the identity,
  the operator's node, key, kind and arguments are kept (a start only gains its default timeout),
  and the result carries a time to live in (0, 30 s] and exactly the arguments of its kind.
\<close>

theorem command_request_normal_form:
  assumes "NormalizeCommandRequest P (Some q) = Inr r"
  shows "NormalizeCommandRequest P (Some r) = Inr r \<and>
    sr_node r = sr_node q \<and> sr_key r = sr_key q \<and> sr_type r = sr_type q \<and>
    sr_workspace r = sr_workspace q \<and> sr_worktree r = sr_worktree q \<and> sr_control r = sr_control q \<and>
    sr_session r = sr_session q \<and> sr_stop r = sr_stop q \<and>
    map_option (\<lambda>s. s\<lparr>as_timeout := 0\<rparr>) (sr_start r) = map_option (\<lambda>s. s\<lparr>as_timeout := 0\<rparr>) (sr_start q) \<and>
    opt_ex (\<lambda>d. 0 < as_duration P d \<and> as_duration P d \<le> MaxCommandTTL) (sr_ttl r) \<and>
    bodyKinds (sr_workspace r) (sr_worktree r) (sr_control r) (sr_session r) (sr_start r) (sr_stop r) =
      (if sr_type r = ProbeCommandType then [] else [sr_type r])"
proof -
  note p = NormalizeCommandRequest_parts [OF assms]
  have "map_option (\<lambda>s. s\<lparr>as_timeout := 0\<rparr>) (sr_start r) = map_option (\<lambda>s. s\<lparr>as_timeout := 0\<rparr>) (sr_start q)"
    by (cases "sr_start q") (simp_all add: p(13) normalizedStart_def)
  moreover have "opt_ex (\<lambda>d. 0 < as_duration P d \<and> as_duration P d \<le> MaxCommandTTL) (sr_ttl r)"
    using p(4) by (auto simp: validTTL_def opt_ex_def split: option.splits if_splits)
  moreover have "bodyKinds (sr_workspace r) (sr_worktree r) (sr_control r) (sr_session r) (sr_start r) (sr_stop r) =
      (if sr_type r = ProbeCommandType then [] else [sr_type r])"
    using validateCommandBody_kind [OF p(14)] by (simp add: p(5-13) bodyKinds_def)
  ultimately show ?thesis using p NormalizeCommandRequest_idem [OF assms] by simp
qed

lemma command_request_normal_form_witness:
  "bodyKinds (sr_workspace startRequest) (sr_worktree startRequest) (sr_control startRequest)
     (sr_session startRequest) (sr_start startRequest) (sr_stop startRequest) =
   (if sr_type startRequest = ProbeCommandType then [] else [sr_type startRequest])"
  using command_request_normal_form [OF startRequest_normal] by blast

text \<open>
  C38. An accepted command is one well-formed instruction for its node: it carries exactly the
  arguments of its type, is issued by a controller directly (no hops, no other origin), has no
  untyped payload or preconditions, expires, has a time to live in (0, 30 s], and, when it records
  the operator's original request, that request is in normal form and names the same node, kind
  and idempotency key.
\<close>

theorem accepted_command_shape:
  assumes "ValidateCommand P (Some c) node = Inr ()"
  shows "c_target c = node \<and> commandID (c_id c) \<and> commandToken (c_key c) \<and>
    bodyKinds (c_workspace c) (c_worktree c) (c_control c) (c_session c) (c_start c) (c_stop c) =
      (if c_type c = ProbeCommandType then [] else [c_type c]) \<and>
    opt_ex (\<lambda>a. ac_role a = ROLE_CONTROLLER \<and> ac_origin a = ORIGIN_UNSPECIFIED \<and> ac_hops a = 0) (c_actor c) \<and>
    c_payload c = None \<and> c_preconditions c = None \<and> c_expires c \<noteq> None \<and>
    opt_ex (\<lambda>d. 0 < as_duration P d \<and> as_duration P d \<le> MaxCommandTTL) (c_ttl c) \<and>
    opt_all (\<lambda>s. NormalizeCommandRequest P (Some s) = Inr s \<and> sr_node s = node \<and>
      sr_type s = c_type c \<and> sr_key s = c_key c) (c_submitted c)"
proof -
  note p = ValidateCommand_parts [OF assms]
  have k: "bodyKinds (c_workspace c) (c_worktree c) (c_control c) (c_session c) (c_start c) (c_stop c) =
      (if c_type c = ProbeCommandType then [] else [c_type c])"
    using validateCommandBody_kind [OF p(7)] by (simp add: bodyKinds_def checkedWorktree_def split: if_splits)
  have a: "opt_ex (\<lambda>a. ac_role a = ROLE_CONTROLLER \<and> ac_origin a = ORIGIN_UNSPECIFIED \<and> ac_hops a = 0) (c_actor c)"
    using p(8) by (auto simp: validCommandActor_def split: option.splits)
  have t: "opt_ex (\<lambda>d. 0 < as_duration P d \<and> as_duration P d \<le> MaxCommandTTL) (c_ttl c)"
    using p(13) by (auto simp: validTTL_def split: option.splits if_splits)
  have s: "opt_all (\<lambda>s. NormalizeCommandRequest P (Some s) = Inr s \<and> sr_node s = node \<and>
      sr_type s = c_type c \<and> sr_key s = c_key c) (c_submitted c)"
  proof (cases "c_submitted c")
    case (Some x)
    have v: "ValidateSubmittedRequest P c = Inr ()" using p(6) Some by simp
    show ?thesis by (rule ValidateSubmittedRequest_parts [OF v]) (simp add: p(2))
  qed simp
  have "c_expires c \<noteq> None" using p(11) by (auto simp: validExpiry_def split: option.splits)
  then show ?thesis using p k a t s by (simp add: ValidCommandID_def)
qed

lemma accepted_command_shape_witness:
  "c_target startCommand = ''node-1'' \<and>
   bodyKinds (c_workspace startCommand) (c_worktree startCommand) (c_control startCommand)
     (c_session startCommand) (c_start startCommand) (c_stop startCommand) =
   (if c_type startCommand = ProbeCommandType then [] else [c_type startCommand])"
  using accepted_command_shape [OF startCommand_valid] by blast

text \<open>
  The agent a node actually starts is the one the operator asked for: for an accepted start
  command the effective start has the operator's prompt, provider, name, project and workspace; the
  coordinator only resolved an empty revision and an unpinned incarnation; the command itself never
  repeats the prompt; and execution ends at its own deadline, the dispatch deadline plus the startup
  timeout (3001 to 300000 ms) and the 30 s allowance.
\<close>

theorem accepted_start_is_operators:
  assumes "ValidateCommand P (Some c) node = Inr ()" and "c_start c = Some got"
  shows "\<exists>want ms. Option.bind (c_submitted c) sr_start = Some want \<and> as_prompt got = '''' \<and>
    EffectiveAgentStart P c =
      Inr (want\<lparr>as_revision := as_revision got, as_incarnation := as_incarnation got\<rparr>) \<and>
    (as_revision want = as_revision got \<or> as_revision want = '''') \<and>
    (as_incarnation want = as_incarnation got \<or> as_incarnation want = '''') \<and>
    NormalizeAgentStartupTimeout (as_timeout got) = Inr ms \<and> 3000 < ms \<and> ms \<le> 300000 \<and>
    CommandExecutionDeadline P c = asTimeOf P (c_expires c) + int (unat ms) * 1000000 + 30000000000"
proof -
  note p = ValidateCommand_parts [OF assms(1)]
  have sub: "c_submitted c \<noteq> None" using p(12) assms(2)
    by (auto simp: validateExecution_def split: sum.splits if_splits)
  have ty: "c_type c = AgentStartCommandType"
    using validateCommandBody_start(1) p(7) assms(2) by metis
  obtain s where s: "c_submitted c = Some s" "submittedBody c s = Inr ()"
    using p(6) [OF sub] by (rule ValidateSubmittedRequest_parts)
  obtain want where w: "sr_start s = Some want" "as_prompt got = ''''"
    "got = want\<lparr>as_revision := as_revision got, as_incarnation := as_incarnation got, as_prompt := ''''\<rparr>"
    "as_revision want = '''' \<or> as_revision want = as_revision got"
    "as_incarnation want = '''' \<or> as_incarnation want = as_incarnation got"
    using s(2) ty assms(2) by (rule submittedBody_start)
  obtain ms where ms: "NormalizeAgentStartupTimeout (as_timeout got) = Inr ms"
    and dl: "CommandExecutionDeadline P c = asTimeOf P (c_expires c) + int (unat ms) * 1000000 + 30000000000"
    using p(12) assms(2)
    by (auto simp: validateExecution_def LifecycleExecutionDeadline_def CommandExecutionDeadline_def
        asTimeOf_def validExpiry_def LifecycleSetupAllowance_def bindR_eq_Inr
        split: sum.splits if_splits option.splits)
  have pr: "submittedPrompt c = as_prompt want"
    by (simp add: submittedPrompt_def s(1) w(1))
  have "got\<lparr>as_prompt := as_prompt want\<rparr> =
      want\<lparr>as_revision := as_revision got, as_incarnation := as_incarnation got\<rparr>"
    by (subst w(3)) simp
  then have "EffectiveAgentStart P c =
      Inr (want\<lparr>as_revision := as_revision got, as_incarnation := as_incarnation got\<rparr>)"
    using p(6) [OF sub] by (simp add: EffectiveAgentStart_def assms(2) pr)
  moreover have "3000 < ms \<and> ms \<le> 300000"
    using NormalizeAgentStartupTimeout_ok [OF ms] by (simp add: MaxAgentStartupTimeoutMs_def)
  ultimately show ?thesis using s(1) w ms dl by (intro exI [of _ want] exI [of _ ms]) auto
qed

lemma accepted_start_is_operators_witness:
  "EffectiveAgentStart samplePb startCommand = Inr (sampleStart\<lparr>as_prompt := ''fix it''\<rparr>)"
proof -
  have "c_start startCommand = Some sampleStart" by (simp add: startCommand_def)
  from accepted_start_is_operators [OF startCommand_valid this] show ?thesis
    by (auto simp: startCommand_def startRequest_def sampleStart_def)
qed

section \<open>Lifecycle receipts\<close>

text \<open>
  C40. Native effects are attempted at most once and in order.  In every accepted receipt each stage
  has at most one intent; every completion directly follows the intent of the same stage; a launch is
  intended only after the pane was confirmed and a prompt only after the launch was; there are at
  most eight events, and the sequence number counts them.
\<close>

theorem effects_at_most_once:
  assumes "ValidateLifecycleReceipt P (Some r) c = Inr ()"
  shows "distinct (map ls_stage (filter ls_before (lr_stages r))) \<and>
    paired (lr_stages r) \<and>
    confirmedBefore ''create_pane'' ''launch'' (lr_stages r) \<and>
    confirmedBefore ''launch'' ''prompt'' (lr_stages r) \<and>
    length (lr_stages r) \<le> 8 \<and> unat (lr_sequence r) = length (lr_stages r)"
proof -
  have "length (lr_stages r) \<le> 8 \<and> unat (lr_sequence r) = length (lr_stages r)"
    by (rule ValidateLifecycleReceipt_loop [OF assms]) (simp add: MaxLifecycleEvents_def)
  then show ?thesis using accepted_stages [OF assms] by (simp add: onceEach_def)
qed

lemma effects_at_most_once_witness:
  "distinct (map ls_stage (filter ls_before (lr_stages doneReceipt))) \<and>
   unat (lr_sequence doneReceipt) = length (lr_stages doneReceipt)"
  using effects_at_most_once [OF doneReceipt_valid] by blast

text \<open>An accepted advance, taken apart.\<close>

lemma rewritesEvidence_prefix:
  "length es \<le> length fs \<Longrightarrow> \<not> rewritesEvidence es fs \<longleftrightarrow> list_prefix es fs"
  by (induction es fs rule: rewritesEvidence.induct) (auto simp: list_prefix_def)

lemma ValidateLifecycleAdvance_Some:
  "ValidateLifecycleAdvance P (Some o') next c = Inr () \<longleftrightarrow>
     (\<exists>n. next = Some n \<and> ValidateLifecycleReceipt P (Some n) c = Inr () \<and>
       ValidateLifecycleReceipt P (Some o') c = Inr () \<and> advanceStep o' n = Inr ())"
  by (cases "next") (auto simp: ValidateLifecycleAdvance_def res_simps ValidateLifecycleReceipt_def)

lemma advanceStep_iff:
  "advanceStep o' n = Inr () \<longleftrightarrow>
     list_prefix (lr_stages o') (lr_stages n) \<and>
     (\<forall>(a, b) \<in> set (pinnedPairs o' n). a = '''' \<or> a = b) \<and>
     (let a = getter lh_provider (lr_handle o') in
        a = '''' \<or> a = ''unknown'' \<or> a = getter lh_provider (lr_handle n)) \<and>
     (length (lr_stages o') = length (lr_stages n) \<longrightarrow> o' = n)"
proof (cases "length (lr_stages n) < length (lr_stages o')")
  case True
  then show ?thesis using list_prefix_length by (fastforce simp: advanceStep_def)
next
  case False
  then show ?thesis
    using rewritesEvidence_prefix [of "lr_stages o'" "lr_stages n"]
    by (auto simp: advanceStep_def Let_def res_simps)
qed

definition pins :: "receipt \<Rightarrow> string list" where
  "pins r = (let h = lr_handle r; t = Option.bind h lh_target in
     [getter lh_workspace h, getter lh_tab h, getter at_pane t, getter at_terminal t,
      getter at_agent_session t, getter at_session t, getter at_incarnation t])"

lemma pinned_all2:
  "(\<forall>(x, y) \<in> set (pinnedPairs a b). x = '''' \<or> x = y) \<longleftrightarrow>
     list_all2 (\<lambda>x y. x = '''' \<or> x = y) (pins a) (pins b)"
  by (simp add: pinnedPairs_def pins_def Let_def)

lemma pinned_trans:
  assumes "list_all2 (\<lambda>x y. x = '''' \<or> x = y) (xs :: string list) ys"
    and "list_all2 (\<lambda>x y. x = '''' \<or> x = y) ys zs"
  shows "list_all2 (\<lambda>x y. x = '''' \<or> x = y) xs zs"
  by (rule list_all2_trans [OF _ assms]) auto

lemma advanceStep_facts:
  assumes "advanceStep a b = Inr ()"
  shows "list_prefix (lr_stages a) (lr_stages b)"
    "list_all2 (\<lambda>x y. x = '''' \<or> x = y) (pins a) (pins b)"
    "getter lh_provider (lr_handle a) \<in> {'''', ''unknown'', getter lh_provider (lr_handle b)}"
    "length (lr_stages a) = length (lr_stages b) \<Longrightarrow> a = b"
  using assms unfolding advanceStep_iff Let_def pinned_all2 by simp_all

lemma advanceStep_intro:
  assumes "list_prefix (lr_stages a) (lr_stages b)"
    and "list_all2 (\<lambda>x y. x = '''' \<or> x = y) (pins a) (pins b)"
    and "getter lh_provider (lr_handle a) \<in> {'''', ''unknown'', getter lh_provider (lr_handle b)}"
    and "length (lr_stages a) = length (lr_stages b) \<Longrightarrow> a = b"
  shows "advanceStep a b = Inr ()"
  using assms unfolding advanceStep_iff Let_def pinned_all2 by simp

lemma advanceStep_trans:
  assumes "advanceStep a b = Inr ()" and "advanceStep b c = Inr ()"
  shows "advanceStep a c = Inr ()"
proof (rule advanceStep_intro)
  note f = advanceStep_facts [OF assms(1)] and g = advanceStep_facts [OF assms(2)]
  show "list_prefix (lr_stages a) (lr_stages c)" by (rule list_prefix_trans [OF f(1) g(1)])
  show "list_all2 (\<lambda>x y. x = '''' \<or> x = y) (pins a) (pins c)" by (rule pinned_trans [OF f(2) g(2)])
  show "getter lh_provider (lr_handle a) \<in> {'''', ''unknown'', getter lh_provider (lr_handle c)}"
    using f(3) g(3) by auto
  assume "length (lr_stages a) = length (lr_stages c)"
  then have "length (lr_stages a) = length (lr_stages b)" "length (lr_stages b) = length (lr_stages c)"
    using list_prefix_length [OF f(1)] list_prefix_length [OF g(1)] by auto
  then show "a = c" using f(4) g(4) by blast
qed

lemma advance_confirmed:
  assumes "ValidateLifecycleReceipt P (Some o') c = Inr ()"
    and "ValidateLifecycleReceipt P (Some n) c = Inr ()"
    and "list_prefix (lr_stages o') (lr_stages n)" and "s \<in> set stageNames"
    and "LifecycleStageOutcome o' s = ''confirmed''"
  shows "LifecycleStageOutcome n s = ''confirmed''"
proof -
  obtain g where g: "stageLoop c [] noAttempts (lr_stages o') = Inr g"
    "\<And>s. s \<in> set stageNames \<Longrightarrow> LifecycleStageOutcome o' s = g s"
    using ValidateLifecycleReceipt_loop [OF assms(1)] by metis
  obtain h where h: "stageLoop c [] noAttempts (lr_stages n) = Inr h"
    "\<And>s. s \<in> set stageNames \<Longrightarrow> LifecycleStageOutcome n s = h s"
    using ValidateLifecycleReceipt_loop [OF assms(2)] by metis
  obtain zs where "lr_stages n = lr_stages o' @ zs" using assms(3) by (auto simp: list_prefix_iff)
  then show ?thesis using stageLoop_confirmed_final [of c "lr_stages o'" zs h g s] g h assms by simp
qed

lemma advanceStep_refl: "advanceStep a a = Inr ()"
  by (rule advanceStep_intro) (simp_all add: list_all2_refl)

lemma advanceStep_antisym:
  assumes "advanceStep a b = Inr ()" and "advanceStep b a = Inr ()"
  shows "a = b"
  using advanceStep_facts(1) [OF assms(1)] advanceStep_facts(1) [OF assms(2)]
    advanceStep_facts(4) [OF assms(1)] list_prefix_length by (meson le_antisym)

text \<open>A new receipt counts more events.\<close>

lemma advanceStep_sequence:
  assumes "advanceStep a b = Inr ()" and "a \<noteq> b"
    and "ValidateLifecycleReceipt P (Some a) c = Inr ()" and "ValidateLifecycleReceipt P (Some b) c = Inr ()"
  shows "unat (lr_sequence a) < unat (lr_sequence b)"
proof -
  have "unat (lr_sequence a) = length (lr_stages a)"
    by (rule ValidateLifecycleReceipt_loop [OF assms(3)])
  moreover have "unat (lr_sequence b) = length (lr_stages b)"
    by (rule ValidateLifecycleReceipt_loop [OF assms(4)])
  moreover have "length (lr_stages a) \<le> length (lr_stages b)"
    using advanceStep_facts(1) [OF assms(1)] by (rule list_prefix_length)
  moreover have "length (lr_stages a) \<noteq> length (lr_stages b)"
    using advanceStep_facts(4) [OF assms(1)] assms(2) by blast
  ultimately show ?thesis by linarith
qed

text \<open>
  C36. Evidence is never rewritten.  The accepted checkpoints of one command are partially ordered
  by the advance check: it is reflexive on them, transitive and antisymmetric.  A later receipt
  extends the earlier one's events and is the same receipt unless it counts more of them; every
  identity the earlier one had pinned (workspace, tab, pane, terminal, agent session, session and
  incarnation) is still the same, and so is its provider once known; an effect once confirmed stays
  confirmed, and a receipt that is complete stays complete.
\<close>

theorem evidence_only_grows:
  assumes "ValidateLifecycleAdvance P (Some a) (Some b) c = Inr ()"
    and "ValidateLifecycleAdvance P (Some b) (Some d) c = Inr ()"
  shows "ValidateLifecycleAdvance P (Some a) (Some d) c = Inr () \<and>
    ValidateLifecycleAdvance P (Some a) (Some a) c = Inr () \<and>
    ValidateLifecycleAdvance P (Some d) (Some d) c = Inr () \<and>
    (ValidateLifecycleAdvance P (Some d) (Some a) c = Inr () \<longrightarrow> a = d) \<and>
    list_prefix (lr_stages a) (lr_stages d) \<and>
    (a \<noteq> d \<longrightarrow> unat (lr_sequence a) < unat (lr_sequence d)) \<and>
    list_all2 (\<lambda>x y. x = '''' \<or> x = y) (pins a) (pins d) \<and>
    getter lh_provider (lr_handle a) \<in> {'''', ''unknown'', getter lh_provider (lr_handle d)} \<and>
    {s \<in> set stageNames. LifecycleStageOutcome a s = ''confirmed''} \<subseteq>
      {s. LifecycleStageOutcome d s = ''confirmed''} \<and>
    (LifecycleComplete (Some a) c \<longrightarrow> LifecycleComplete (Some d) c)"
proof -
  have va: "ValidateLifecycleReceipt P (Some a) c = Inr ()"
    and vd: "ValidateLifecycleReceipt P (Some d) c = Inr ()"
    and ad: "advanceStep a d = Inr ()"
    using assms advanceStep_trans by (auto simp: ValidateLifecycleAdvance_Some)
  note f = advanceStep_facts [OF ad] and pre = advanceStep_facts(1) [OF ad]
  have order: "ValidateLifecycleAdvance P (Some a) (Some a) c = Inr ()"
    "ValidateLifecycleAdvance P (Some d) (Some d) c = Inr ()"
    "ValidateLifecycleAdvance P (Some d) (Some a) c = Inr () \<longrightarrow> a = d"
    "a \<noteq> d \<longrightarrow> unat (lr_sequence a) < unat (lr_sequence d)"
    using va vd advanceStep_refl advanceStep_antisym [OF ad] advanceStep_sequence [OF ad _ va vd]
    by (simp_all add: ValidateLifecycleAdvance_Some)
  note conf = advance_confirmed [OF va vd pre]
  have "LifecycleComplete (Some a) c \<longrightarrow> LifecycleComplete (Some d) c"
    using conf [of "''create_pane''"] conf [of "''launch''"] conf [of "''prompt''"] conf [of "''close_pane''"]
    by (auto simp: LifecycleComplete_def LifecycleStageOutcome_def stageNames_def)
  moreover have "ValidateLifecycleAdvance P (Some a) (Some d) c = Inr ()"
    using va vd ad by (simp add: ValidateLifecycleAdvance_Some)
  moreover have "{s \<in> set stageNames. LifecycleStageOutcome a s = ''confirmed''} \<subseteq>
      {s. LifecycleStageOutcome d s = ''confirmed''}" using conf by blast
  ultimately show ?thesis using order f(1-3) by blast
qed

lemma evidence_only_grows_witness:
  "ValidateLifecycleAdvance samplePb (Some paneReceipt) (Some doneReceipt) startCommand = Inr () \<and>
   list_all2 (\<lambda>x y. x = '''' \<or> x = y) (pins paneReceipt) (pins doneReceipt) \<and>
   getter lh_provider (lr_handle paneReceipt) \<in>
     {'''', ''unknown'', getter lh_provider (lr_handle doneReceipt)}"
  using evidence_only_grows [OF pane_to_launch launch_to_done] by blast

section \<open>Results\<close>

definition confirmedStage :: "receipt \<Rightarrow> string \<Rightarrow> bool" where
  "confirmedStage r s =
     list_ex (\<lambda>e. ls_stage e = s \<and> \<not> ls_before e \<and> ls_outcome e = ''confirmed'') (lr_stages r)"

definition requestedStages :: "command \<Rightarrow> string list" where
  "requestedStages c =
     (if c_stop c \<noteq> None then [''close_pane'']
      else [''create_pane'', ''launch''] @ (if submittedPrompt c = '''' then [] else [''prompt'']))"

text \<open>
  A stage in doubt: its effect was intended, and no completion says what became of it.  A
  completion may also report that the effect was not attempted after all, or that it is unknown.
\<close>

definition doubtfulStage :: "receipt \<Rightarrow> string \<Rightarrow> bool" where
  "doubtfulStage r s =
     (list_ex (\<lambda>e. ls_stage e = s \<and> ls_before e) (lr_stages r) \<and>
      list_all (\<lambda>e. ls_stage e = s \<and> \<not> ls_before e \<longrightarrow> ls_outcome e = ''unknown'') (lr_stages r))"

text \<open>What the loop knows of one stage after the events \<open>es\<close>.\<close>

definition stageHistory :: "lifecycle_stage list \<Rightarrow> (string \<Rightarrow> string) \<Rightarrow> bool" where
  "stageHistory es g =
     ((\<forall>s. (\<forall>e \<in> set es. ls_stage e \<noteq> s) \<longrightarrow> g s = noAttempts s) \<and>
      (\<forall>e \<in> set es. \<exists>i \<in> set es. ls_stage i = ls_stage e \<and> ls_before i) \<and>
      (\<forall>e \<in> set es. \<not> ls_before e \<longrightarrow> g (ls_stage e) = ls_outcome e) \<and>
      (\<forall>i \<in> set es. ls_before i \<longrightarrow> g (ls_stage i) = ''unknown'' \<or>
        (\<exists>e \<in> set es. ls_stage e = ls_stage i \<and> \<not> ls_before e \<and> ls_outcome e = g (ls_stage i))) \<and>
      (es \<noteq> [] \<longrightarrow> ls_before (last es) \<longrightarrow>
        (\<forall>e \<in> set (butlast es). ls_stage e \<noteq> ls_stage (last es))))"

lemma stageHistory_step:
  assumes "stageHistory es h" and "stageCheck c es h e = Inr ()"
  shows "stageHistory (es @ [e]) (h(ls_stage e := ls_outcome e))"
proof (cases "ls_before e")
  case True
  then show ?thesis using assms(1) stageCheck_intent [OF assms(2)] unfolding stageHistory_def by auto
next
  case False
  note p = stageCheck_completion [OF assms(2) False]
  have i: "last es \<in> set es" using p by simp
  have "d \<in> set (butlast es) \<or> d = last es" if "d \<in> set es" for d
    using that p by (metis append_butlast_last_id in_set_conv_decomp rotate1.simps(2) set_ConsD set_rotate1)
  then have "ls_before d" if "d \<in> set es" "ls_stage d = ls_stage e" for d
    using assms(1) p that unfolding stageHistory_def by metis
  then show ?thesis using assms(1) False p i unfolding stageHistory_def by auto
qed

lemma stageLoop_history: "stageLoop c [] noAttempts es = Inr g \<Longrightarrow> stageHistory es g"
proof (induction es arbitrary: g rule: rev_induct)
  case Nil
  then show ?case by (simp add: stageHistory_def)
next
  case (snoc e es)
  then show ?case by (metis stageHistory_step stageLoop_snoc)
qed

lemma stageHistory_facts:
  assumes "stageHistory es g"
  shows "e \<in> set es \<Longrightarrow> \<exists>i \<in> set es. ls_stage i = ls_stage e \<and> ls_before i"
    and "e \<in> set es \<Longrightarrow> \<not> ls_before e \<Longrightarrow> g (ls_stage e) = ls_outcome e"
    and "e \<in> set es \<Longrightarrow> ls_before e \<Longrightarrow> g (ls_stage e) = ''unknown'' \<or>
      (\<exists>d \<in> set es. ls_stage d = ls_stage e \<and> \<not> ls_before d \<and> ls_outcome d = g (ls_stage e))"
    and "g s \<noteq> noAttempts s \<Longrightarrow> \<exists>e \<in> set es. ls_stage e = s"
  using assms unfolding stageHistory_def by blast+

text \<open>The summary of a receipt says of each stage what its events say.\<close>

lemma outcome_of_events:
  assumes "ValidateLifecycleReceipt P (Some r) c = Inr ()" and "s \<in> set stageNames"
  shows "LifecycleStageOutcome r s = ''confirmed'' \<longleftrightarrow> confirmedStage r s"
    and "LifecycleStageOutcome r s = ''unknown'' \<longleftrightarrow> doubtfulStage r s"
proof -
  obtain g where loop: "stageLoop c [] noAttempts (lr_stages r) = Inr g"
    and summary: "\<And>s. s \<in> set stageNames \<Longrightarrow> LifecycleStageOutcome r s = g s"
    using ValidateLifecycleReceipt_loop [OF assms(1)] by metis
  note g = loop summary [OF assms(2)]
  note h = stageHistory_facts [OF stageLoop_history [OF g(1)]]
  have n: "noAttempts s = ''not_attempted''" using assms(2) by (simp add: noAttempts_def)
  show "LifecycleStageOutcome r s = ''confirmed'' \<longleftrightarrow> confirmedStage r s"
  proof
    assume "confirmedStage r s"
    then obtain e where "e \<in> set (lr_stages r)" "ls_stage e = s" "\<not> ls_before e"
      "ls_outcome e = ''confirmed''" unfolding confirmedStage_def list_ex_iff by blast
    then show "LifecycleStageOutcome r s = ''confirmed''" using g(2) h(2) [of e] by simp
  qed (use confirmed_outcome_event [OF assms] in \<open>auto simp: confirmedStage_def list_ex_iff\<close>)
  have "doubtfulStage r s" if u: "g s = ''unknown''"
  proof -
    have "g s \<noteq> noAttempts s" using n u by simp
    then obtain e where "e \<in> set (lr_stages r)" "ls_stage e = s" using h(4) by blast
    then have "\<exists>i \<in> set (lr_stages r). ls_stage i = s \<and> ls_before i" using h(1) by blast
    moreover have "ls_outcome d = ''unknown''"
      if "d \<in> set (lr_stages r)" "ls_stage d = s" "\<not> ls_before d" for d
      using h(2) [of d] that u by simp
    ultimately show ?thesis unfolding doubtfulStage_def list_ex_iff list_all_iff by blast
  qed
  moreover have "g s = ''unknown''" if d: "doubtfulStage r s"
  proof -
    obtain i where i: "i \<in> set (lr_stages r)" "ls_stage i = s" "ls_before i"
      using d unfolding doubtfulStage_def list_ex_iff by blast
    then have "g s = ''unknown'' \<or>
        (\<exists>e \<in> set (lr_stages r). ls_stage e = s \<and> \<not> ls_before e \<and> ls_outcome e = g s)"
      using h(3) by blast
    then show ?thesis using d unfolding doubtfulStage_def list_all_iff by auto
  qed
  ultimately show "LifecycleStageOutcome r s = ''unknown'' \<longleftrightarrow> doubtfulStage r s"
    using g(2) by auto
qed

text \<open>The predicates on receipts, read off the events.\<close>

lemma complete_stages:
  assumes "ValidateLifecycleReceipt P (Some r) c = Inr ()"
  shows "LifecycleComplete (Some r) c \<longleftrightarrow> (\<forall>s \<in> set (requestedStages c). confirmedStage r s)"
proof -
  have "set (requestedStages c) \<subseteq> set stageNames" by (simp add: requestedStages_def stageNames_def)
  then have "(\<forall>s \<in> set (requestedStages c). confirmedStage r s) \<longleftrightarrow>
      (\<forall>s \<in> set (requestedStages c). LifecycleStageOutcome r s = ''confirmed'')"
    using outcome_of_events(1) [OF assms] by blast
  then show ?thesis by (simp add: LifecycleComplete_def LifecycleStageOutcome_def requestedStages_def)
qed



lemma receipt_outcomes:
  assumes "ValidateLifecycleReceipt P (Some r) c = Inr ()"
  shows "set (receiptOutcomes r) \<subseteq> set outcomes"
  using assms unfolding ValidateLifecycleReceipt_def receiptOutcomes_def
  by (auto simp: bindR_eq_Inr each_eq_Inr split: if_splits)

lemma receiptOutcomes_stages: "receiptOutcomes r = map (LifecycleStageOutcome r) stageNames"
  by (simp add: receiptOutcomes_def LifecycleStageOutcome_def stageNames_def)

lemma unknown_stages:
  assumes "ValidateLifecycleReceipt P (Some r) c = Inr ()"
  shows "LifecycleHasUnknown (Some r) \<longleftrightarrow> (\<exists>s \<in> set stageNames. doubtfulStage r s)"
proof -
  have "LifecycleHasUnknown (Some r) \<longleftrightarrow> (\<exists>s \<in> set stageNames. LifecycleStageOutcome r s = ''unknown'')"
    unfolding LifecycleHasUnknown_def receiptOutcomes_stages opt_simps set_map image_iff by metis
  also have "\<dots> \<longleftrightarrow> (\<exists>s \<in> set stageNames. doubtfulStage r s)"
    by (rule bex_cong [OF refl]) (rule outcome_of_events(2) [OF assms])
  finally show ?thesis .
qed

lemma effect_stages:
  assumes "ValidateLifecycleReceipt P (Some r) c = Inr ()"
  shows "LifecycleHasEffect (Some r) \<longleftrightarrow>
    (\<exists>s \<in> set stageNames. confirmedStage r s \<or> doubtfulStage r s)"
proof -
  have "LifecycleHasEffect (Some r) \<longleftrightarrow> (\<exists>x \<in> set (receiptOutcomes r). x \<noteq> ''not_attempted'')"
    by (simp add: LifecycleHasEffect_def receiptOutcomes_def)
  also have "\<dots> \<longleftrightarrow> (\<exists>x \<in> set (receiptOutcomes r). x = ''confirmed'' \<or> x = ''unknown'')"
    by (rule bex_cong [OF refl]) (use receipt_outcomes [OF assms] in \<open>auto simp: outcomes_def\<close>)
  also have "\<dots> \<longleftrightarrow> (\<exists>s \<in> set stageNames. confirmedStage r s \<or> doubtfulStage r s)"
    by (simp only: receiptOutcomes_stages set_map bex_simps)
      (rule bex_cong [OF refl], simp only: outcome_of_events [OF assms])
  finally show ?thesis .
qed

text \<open>What may leave a command without a verdict although its receipt is not in doubt.\<close>

definition interruptions :: "string list" where
  "interruptions =
     [''persistence_failed'', ''node_disconnected'', ''server_restarted'', ''deadline_expired'']"

lemma LifecycleResult_verdict:
  assumes "ValidateLifecycleResult P (Some v) c = Inr ()"
  shows "cr_lifecycle v \<noteq> None \<longrightarrow> ValidateLifecycleReceipt P (cr_lifecycle v) c = Inr ()"
    and "cr_status v = SUCCEEDED \<Longrightarrow> LifecycleComplete (cr_lifecycle v) c \<and>
      (cr_detail v = ''agent_started'' \<and> c_start c \<noteq> None \<or>
       cr_detail v = ''agent_stopped'' \<and> c_stop c \<noteq> None)"
    and "cr_status v = FAILED \<Longrightarrow> LifecycleHasEffect (cr_lifecycle v) \<and>
      \<not> LifecycleHasUnknown (cr_lifecycle v) \<and> \<not> LifecycleComplete (cr_lifecycle v) c"
    and "cr_status v = TIMED_OUT \<Longrightarrow>
      \<not> LifecycleHasEffect (cr_lifecycle v) \<and> cr_detail v = ''deadline_expired''"
    and "cr_status v = REJECTED \<Longrightarrow> \<not> LifecycleHasEffect (cr_lifecycle v)"
    and "cr_status v \<noteq> SUCCEEDED \<Longrightarrow> cr_detail v \<notin> {''agent_started'', ''agent_stopped''}"
    and "cr_status v = INDETERMINATE \<Longrightarrow> cr_lifecycle v = None \<or>
      LifecycleHasUnknown (cr_lifecycle v) \<or> cr_detail v \<in> set interruptions"
  using assms by (auto simp add: ValidateLifecycleResult_def Let_def res_simps interruptions_def split: if_splits)

text \<open>
  C37. A lifecycle status means what the events of its receipt say.  A validated success has every
  requested effect confirmed by a completed stage and says whether the agent was started or stopped;
  a failure has some stage confirmed, some requested one not, and none in doubt; a rejection or a
  timeout has no stage confirmed or in doubt, so no effect; an indeterminate result never claims
  success, and if it has a receipt, then a stage is in doubt there or the command was interrupted
  (the journal could not be written, the node or the server went away, the deadline passed).  The
  remaining statuses (unspecified, accepted, running, node unavailable) are refused.
\<close>

theorem lifecycle_status_matches_evidence:
  assumes "ValidateLifecycleResult P (Some v) c = Inr ()"
  shows "case cr_status v of
      SUCCEEDED \<Rightarrow> (\<exists>r. cr_lifecycle v = Some r \<and>
          (\<forall>s \<in> set (requestedStages c). confirmedStage r s)) \<and>
        (cr_detail v = ''agent_started'' \<and> c_start c \<noteq> None \<or>
         cr_detail v = ''agent_stopped'' \<and> c_stop c \<noteq> None)
    | FAILED \<Rightarrow> \<exists>r. cr_lifecycle v = Some r \<and> (\<exists>s \<in> set stageNames. confirmedStage r s) \<and>
        (\<exists>s \<in> set (requestedStages c). \<not> confirmedStage r s) \<and>
        (\<forall>s \<in> set stageNames. \<not> doubtfulStage r s)
    | TIMED_OUT \<Rightarrow> cr_detail v = ''deadline_expired'' \<and>
        opt_all (\<lambda>r. \<forall>s \<in> set stageNames. \<not> confirmedStage r s \<and> \<not> doubtfulStage r s) (cr_lifecycle v)
    | REJECTED \<Rightarrow>
        opt_all (\<lambda>r. \<forall>s \<in> set stageNames. \<not> confirmedStage r s \<and> \<not> doubtfulStage r s) (cr_lifecycle v)
    | INDETERMINATE \<Rightarrow> cr_detail v \<notin> {''agent_started'', ''agent_stopped''} \<and>
        opt_all (\<lambda>r. (\<exists>s \<in> set stageNames. doubtfulStage r s) \<or> cr_detail v \<in> set interruptions)
          (cr_lifecycle v)
    | _ \<Rightarrow> False"
proof -
  note v = LifecycleResult_verdict [OF assms] and t = ValidateLifecycleResult_terminal [OF assms]
  show ?thesis
  proof (cases "cr_lifecycle v")
    case None
    then show ?thesis using v(2-7) t
      by (cases "cr_status v") (simp_all add: LifecycleComplete_def LifecycleHasEffect_def)
  next
    case (Some r)
    then have r: "ValidateLifecycleReceipt P (Some r) c = Inr ()" using v(1) by simp
    note e = complete_stages [OF r] unknown_stages [OF r] effect_stages [OF r]
    show ?thesis using v(2-7) t unfolding Some e by (cases "cr_status v") auto
  qed
qed

definition doneResult :: command_result where
  "doneResult = emptyResult\<lparr>cr_id := sampleId, cr_status := SUCCEEDED, cr_detail := ''agent_started'',
     cr_lifecycle := Some doneReceipt\<rparr>"

lemma doneResult_valid: "ValidateLifecycleResult samplePb (Some doneResult) startCommand = Inr ()"
proof -
  have "LifecycleComplete (Some doneReceipt) startCommand"
    by (simp add: LifecycleComplete_def eval_receipt start_messages)
  then show ?thesis
    by (simp add: ValidateLifecycleResult_def doneResult_def emptyResult_def ValidLifecycleDetail_def
        lifecycleDetails_def Let_def doneReceipt_valid)
      (simp add: start_messages)
qed

definition doubtResult :: command_result where
  "doubtResult = emptyResult\<lparr>cr_id := sampleId, cr_status := INDETERMINATE,
     cr_detail := ''lifecycle_uncertain'', cr_lifecycle := Some launchReceipt\<rparr>"

lemma doubtResult_valid: "ValidateLifecycleResult samplePb (Some doubtResult) startCommand = Inr ()"
  by (simp add: ValidateLifecycleResult_def doubtResult_def emptyResult_def ValidLifecycleDetail_def
      lifecycleDetails_def Let_def launchReceipt_valid LifecycleHasUnknown_def receiptOutcomes_def)
    (simp add: start_messages launchReceipt_def)

lemma lifecycle_status_matches_evidence_witness:
  "(\<exists>r. cr_lifecycle doneResult = Some r \<and> list_all (confirmedStage r) (requestedStages startCommand)) \<and>
   list_ex (doubtfulStage launchReceipt) stageNames"
  using lifecycle_status_matches_evidence [OF doneResult_valid]
    lifecycle_status_matches_evidence [OF doubtResult_valid]
  by (simp add: doneResult_def doubtResult_def interruptions_def list_all_iff list_ex_iff)

text \<open>
  The data of a success answer the instruction: each of the four matching predicates of the code
  against the equalities it stands for.
\<close>

lemma workspace_answer:
  assumes "cr_workspace r \<noteq> None \<Longrightarrow> workspaceResultMatches r c"
  shows "opt_all (\<lambda>v. \<exists>w. c_workspace c = Some w \<and>
      wer_project v = we_project w \<and> wer_revision v = we_revision w \<and>
      wer_session v = we_session w \<and> we_incarnation w \<in> {'''', wer_incarnation v}) (cr_workspace r)"
  using assms by (auto simp: workspaceResultMatches_def matchesSession_def opt_all_def split: option.splits)

lemma worktree_answer:
  assumes "cr_worktree r \<noteq> None \<Longrightarrow> worktreeResultMatches r c"
  shows "opt_all (\<lambda>v. \<exists>w. c_worktree c = Some w \<and>
      wcr_project v = wc_project w \<and> wcr_revision v = wc_revision w \<and>
      wcr_name v = wc_name w \<and> wcr_branch v = wc_branch w \<and> wcr_session v = wc_session w \<and>
      wc_incarnation w \<in> {'''', wcr_incarnation v} \<and>
      (wcr_base v = wc_base w \<or> c_submitted c \<noteq> None \<and> wc_base w = '''')) (cr_worktree r)"
  using assms by (auto simp: worktreeResultMatches_def matchesSession_def opt_all_def split: option.splits)

lemma equal_target:
  assumes "equalAgentTarget a b" and "is_ok (ValidateAgentTarget a True)"
  shows "\<exists>got want. a = Some got \<and> b = Some want \<and> at_pane got = at_pane want \<and>
    at_terminal got = at_terminal want \<and> at_agent_session got = at_agent_session want \<and>
    at_session got = at_session want \<and> at_incarnation want \<in> {'''', at_incarnation got}"
proof (cases a)
  case None
  then show ?thesis using assms(2) by (simp add: ValidateAgentTarget_def)
next
  case (Some got)
  then obtain want where w: "b = Some want"
    "(if at_incarnation want = '''' then got\<lparr>at_incarnation := ''''\<rparr> else got) = want"
    using assms(1) by (auto simp: equalAgentTarget_def split: option.splits)
  show ?thesis
  proof (cases "at_incarnation want = ''''")
    case True
    then have "want = got\<lparr>at_incarnation := ''''\<rparr>" using w(2) by simp
    then show ?thesis using Some w(1) by simp
  qed (use Some w in simp)
qed

lemma control_answer:
  assumes "cr_control r \<noteq> None \<Longrightarrow>
      controlResultMatches r c \<and> ValidateAgentControlResult (Some r) = Inr ()"
  shows "opt_all (\<lambda>v. \<exists>w got want. c_control c = Some w \<and> acr_target v = Some got \<and> ag_target w = Some want \<and>
      at_pane got = at_pane want \<and> at_terminal got = at_terminal want \<and>
      at_agent_session got = at_agent_session want \<and> at_session got = at_session want \<and>
      at_incarnation want \<in> {'''', at_incarnation got} \<and>
      (ag_action w, cr_detail r) \<in> {(ACTION_PROMPT, ''agent_prompt_sent''),
        (ACTION_INPUT, ''agent_input_sent''), (ACTION_INTERRUPT, ''agent_interrupt_sent'')})
      (cr_control r)"
proof (cases "cr_control r")
  case (Some v)
  have m: "controlResultMatches r c" "ValidateAgentControlResult (Some r) = Inr ()"
    using assms Some by simp_all
  obtain w where w: "c_control c = Some w" "equalAgentTarget (acr_target v) (ag_target w)"
    "cr_detail r = AgentControlSuccessDetail (ag_action w)"
    using m(1) Some by (auto simp: controlResultMatches_def split: option.splits)
  have "cr_status r = SUCCEEDED" using ValidateAgentControlResult_status [OF m(2)] Some by simp
  then have "is_ok (ValidateAgentTarget (acr_target v) True)" "cr_detail r \<in> set controlSuccesses"
    using m(2) Some by (auto simp: ValidateAgentControlResult_def split: if_splits)
  moreover from this(2) have "(ag_action w, cr_detail r) \<in> {(ACTION_PROMPT, ''agent_prompt_sent''),
      (ACTION_INPUT, ''agent_input_sent''), (ACTION_INTERRUPT, ''agent_interrupt_sent'')}"
    using w(3) by (cases "ag_action w") (simp_all add: AgentControlSuccessDetail_def controlSuccesses_def)
  ultimately show ?thesis using Some w(1) equal_target [OF w(2)] by (simp only: opt_simps) blast
qed simp

lemma session_answer:
  assumes "cr_session r \<noteq> None \<Longrightarrow> sessionResultMatches r c"
  shows "opt_all (\<lambda>v. \<exists>w. c_session c = Some w \<and> sv_name v = se_name w) (cr_session r)"
  using assms by (auto simp: sessionResultMatches_def opt_all_def split: option.splits)

text \<open>Which validator and which match a result of each kind has passed.\<close>

lemma accepted_result_cases:
  assumes "ValidateResultForCommand P (Some r) c = Inr ()"
  obtains (life) "IsLifecycleCommand (c_type c)" "ValidateLifecycleResult P (Some r) c = Inr ()"
    | (session) "c_type c = SessionEnsureCommandType" "ValidateSessionEnsureResult (Some r) = Inr ()"
        "sessionResultMatches r c"
    | (control) "c_type c = AgentControlCommandType" "ValidateAgentControlResult (Some r) = Inr ()"
        "controlResultMatches r c"
    | (probe) "c_type c = ProbeCommandType" "ValidateProbeResult (Some r) = Inr ()"
    | (workspace) "c_type c = WorkspaceEnsureCommandType" "ValidateWorkspaceResult (Some r) = Inr ()"
        "workspaceResultMatches r c"
    | (worktree) "c_type c = WorktreeCreateCommandType" "ValidateWorktreeResult (Some r) = Inr ()"
        "worktreeResultMatches r c"
  using assms by (auto simp: ValidateResultForCommand_def bindR_eq_Inr split: if_splits)

text \<open>The fields of a result that its kind allows.\<close>

lemma result_fields:
  assumes "ValidateResultForCommand P (Some r) c = Inr ()"
  shows "cr_id r = c_id c \<and> cr_unk r = [] \<and> cr_payload r = None \<and>
    cr_status r \<in> {SUCCEEDED, FAILED, TIMED_OUT, REJECTED, INDETERMINATE} \<and>
    (cr_workspace r \<noteq> None \<longleftrightarrow> c_type c = WorkspaceEnsureCommandType \<and> cr_status r = SUCCEEDED) \<and>
    (cr_worktree r \<noteq> None \<longleftrightarrow> c_type c = WorktreeCreateCommandType \<and> cr_status r = SUCCEEDED) \<and>
    (cr_control r \<noteq> None \<longleftrightarrow> c_type c = AgentControlCommandType \<and> cr_status r = SUCCEEDED) \<and>
    (cr_session r \<noteq> None \<longleftrightarrow> c_type c = SessionEnsureCommandType \<and> cr_status r = SUCCEEDED) \<and>
    (cr_lifecycle r \<noteq> None \<longrightarrow> IsLifecycleCommand (c_type c))"
proof -
  note st = ValidateResultForCommand_status [OF assms] ValidateResultForCommand_id [OF assms]
  from assms show ?thesis
  proof (cases rule: accepted_result_cases)
    case life
    then show ?thesis using st
      by (auto simp: ValidateLifecycleResult_def command_types split: if_splits)
  next
    case session
    then show ?thesis using st ValidateSessionEnsureResult_status [OF session(2)]
      by (auto simp: ValidateSessionEnsureResult_def command_types split: if_splits)
  next
    case control
    then show ?thesis using st ValidateAgentControlResult_status [OF control(2)]
      by (auto simp: ValidateAgentControlResult_def command_types split: if_splits)
  next
    case probe
    then show ?thesis using st
      by (auto simp: ValidateProbeResult_def command_types split: if_splits)
  next
    case workspace
    then show ?thesis using st ValidateWorkspaceResult_status [OF workspace(2)]
      by (auto simp: ValidateWorkspaceResult_def command_types split: if_splits)
  next
    case worktree
    then show ?thesis using st ValidateWorktreeResult_status [OF worktree(2)]
      by (auto simp: ValidateWorktreeResult_def command_types split: if_splits)
  qed
qed

lemma result_match:
  assumes "ValidateResultForCommand P (Some r) c = Inr ()"
  shows "cr_workspace r \<noteq> None \<Longrightarrow> workspaceResultMatches r c"
    and "cr_worktree r \<noteq> None \<Longrightarrow> worktreeResultMatches r c"
    and "cr_control r \<noteq> None \<Longrightarrow>
      controlResultMatches r c \<and> ValidateAgentControlResult (Some r) = Inr ()"
    and "cr_session r \<noteq> None \<Longrightarrow> sessionResultMatches r c"
proof -
  have k: "c_type c = WorkspaceEnsureCommandType \<Longrightarrow> workspaceResultMatches r c"
    "c_type c = WorktreeCreateCommandType \<Longrightarrow> worktreeResultMatches r c"
    "c_type c = AgentControlCommandType \<Longrightarrow>
      controlResultMatches r c \<and> ValidateAgentControlResult (Some r) = Inr ()"
    "c_type c = SessionEnsureCommandType \<Longrightarrow> sessionResultMatches r c"
    using assms by (simp_all add: ValidateResultForCommand_def bindR_eq_Inr IsLifecycleCommand_def
        command_types split: if_splits)
  note f = result_fields [OF assms]
  show "cr_workspace r \<noteq> None \<Longrightarrow> workspaceResultMatches r c" using k(1) f by blast
  show "cr_worktree r \<noteq> None \<Longrightarrow> worktreeResultMatches r c" using k(2) f by blast
  show "cr_control r \<noteq> None \<Longrightarrow>
      controlResultMatches r c \<and> ValidateAgentControlResult (Some r) = Inr ()" using k(3) f by blast
  show "cr_session r \<noteq> None \<Longrightarrow> sessionResultMatches r c" using k(4) f by blast
qed

text \<open>
  C39. A result accepted for a command answers that command.  It has the command's identity, a
  conclusive status, typed success data exactly when the command
  succeeded, and data of the command's own kind only; and the data are about what was asked for: a
  workspace of the same project, revision and session, a worktree of the same project, revision,
  name, branch, session and base (a base the operator left open may be resolved), an acknowledgement
  by the very terminal the instruction named, for the same action, a session of the same name.  An
  incarnation the command pinned is the one that answers; one it left open may be any.
\<close>

theorem result_answers_command:
  assumes "ValidateResultForCommand P (Some r) c = Inr ()"
  shows "cr_id r = c_id c \<and> cr_unk r = [] \<and> cr_payload r = None \<and>
    cr_status r \<in> {SUCCEEDED, FAILED, TIMED_OUT, REJECTED, INDETERMINATE} \<and>
    (cr_workspace r \<noteq> None \<longleftrightarrow> c_type c = WorkspaceEnsureCommandType \<and> cr_status r = SUCCEEDED) \<and>
    (cr_worktree r \<noteq> None \<longleftrightarrow> c_type c = WorktreeCreateCommandType \<and> cr_status r = SUCCEEDED) \<and>
    (cr_control r \<noteq> None \<longleftrightarrow> c_type c = AgentControlCommandType \<and> cr_status r = SUCCEEDED) \<and>
    (cr_session r \<noteq> None \<longleftrightarrow> c_type c = SessionEnsureCommandType \<and> cr_status r = SUCCEEDED) \<and>
    (cr_lifecycle r \<noteq> None \<longrightarrow> IsLifecycleCommand (c_type c)) \<and>
    opt_all (\<lambda>v. \<exists>w. c_workspace c = Some w \<and>
      wer_project v = we_project w \<and> wer_revision v = we_revision w \<and>
      wer_session v = we_session w \<and> we_incarnation w \<in> {'''', wer_incarnation v}) (cr_workspace r) \<and>
    opt_all (\<lambda>v. \<exists>w. c_worktree c = Some w \<and>
      wcr_project v = wc_project w \<and> wcr_revision v = wc_revision w \<and>
      wcr_name v = wc_name w \<and> wcr_branch v = wc_branch w \<and> wcr_session v = wc_session w \<and>
      wc_incarnation w \<in> {'''', wcr_incarnation v} \<and>
      (wcr_base v = wc_base w \<or> c_submitted c \<noteq> None \<and> wc_base w = '''')) (cr_worktree r) \<and>
    opt_all (\<lambda>v. \<exists>w got want. c_control c = Some w \<and> acr_target v = Some got \<and> ag_target w = Some want \<and>
      at_pane got = at_pane want \<and> at_terminal got = at_terminal want \<and>
      at_agent_session got = at_agent_session want \<and> at_session got = at_session want \<and>
      at_incarnation want \<in> {'''', at_incarnation got} \<and>
      (ag_action w, cr_detail r) \<in> {(ACTION_PROMPT, ''agent_prompt_sent''),
        (ACTION_INPUT, ''agent_input_sent''), (ACTION_INTERRUPT, ''agent_interrupt_sent'')})
      (cr_control r) \<and>
    opt_all (\<lambda>v. \<exists>w. c_session c = Some w \<and> sv_name v = se_name w) (cr_session r)"
proof -
  note m = result_match [OF assms]
  from conjI [OF result_fields [OF assms] conjI [OF workspace_answer [OF m(1)] conjI [OF
      worktree_answer [OF m(2)] conjI [OF control_answer [OF m(3)] session_answer [OF m(4)]]]]]
  show ?thesis unfolding conj_assoc .
qed

definition promptCommand :: command where
  "promptCommand = emptyCommand\<lparr>c_id := sampleId, c_type := AgentControlCommandType,
     c_control := Some \<lparr>ag_action = ACTION_PROMPT,
       ag_target = Some (sampleTarget\<lparr>at_incarnation := ''''\<rparr>), ag_text = ''fix it'', ag_keys = [],
       ag_unk = []\<rparr>\<rparr>"

definition promptResult :: command_result where
  "promptResult = emptyResult\<lparr>cr_id := sampleId, cr_status := SUCCEEDED, cr_detail := ''agent_prompt_sent'',
     cr_control := Some \<lparr>acr_target = Some sampleTarget, acr_observed = ''idle'', acr_change_seq = 0,
       acr_unk = []\<rparr>\<rparr>"

lemma promptResult_valid: "ValidateResultForCommand samplePb (Some promptResult) promptCommand = Inr ()"
proof -
  have "ValidateAgentTarget (Some sampleTarget) True = Inr ()"
    by (simp add: ValidateAgentTarget_def sampleTarget_def ValidateSessionSelector_def
        ValidSessionIncarnation_def Let_def)
  then have "ValidateAgentControlResult (Some promptResult) = Inr ()"
    by (simp add: ValidateAgentControlResult_def promptResult_def emptyResult_def
        validAgentStatus_def agentStatuses_def controlSuccesses_def ValidCommandID_def)
  moreover have "controlResultMatches promptResult promptCommand"
    by (simp add: controlResultMatches_def promptResult_def promptCommand_def equalAgentTarget_def
        AgentControlSuccessDetail_def)
  ultimately show ?thesis
    by (simp add: ValidateResultForCommand_def promptResult_def promptCommand_def emptyResult_def
        command_types)
qed

lemma result_answers_command_witness:
  "cr_id promptResult = c_id promptCommand \<and>
   (\<exists>w got want. c_control promptCommand = Some w \<and> ag_target w = Some want \<and>
     Option.bind (cr_control promptResult) acr_target = Some got \<and>
     at_pane got = at_pane want \<and> at_terminal got = at_terminal want)"
proof -
  obtain v where "cr_control promptResult = Some v" by (simp add: promptResult_def)
  then show ?thesis using result_answers_command [OF promptResult_valid]
    by (simp only: opt_simps bind.simps) blast
qed

end
