(* ===== verification/CommandInvariant.thy ===== *)
theory CommandInvariant
  imports CommandStore ProtocolContract
begin

text \<open>
  The invariant of the coordinator's command journal, what the statements do to the abstract journal
  \<open>recordAt\<close> (a map from command IDs to records), and how far one statement may change one record
  (\<open>recordStep\<close>): the refinement the operations' theorems rest on.
\<close>

section \<open>The abstract journal and the invariant\<close>

definition recordAt :: "'b codecs \<Rightarrow> 'b coordinator \<Rightarrow> string \<Rightarrow> command_record option" where
  "recordAt K db i = (case tget (cd_commands db) i of
     None \<Rightarrow> None
   | Some row \<Rightarrow> (case decodeRow K (cd_bindings db) (i, row) of Inl e \<Rightarrow> None | Inr r \<Rightarrow> Some r))"

definition keysUnique :: "(string, 'b command_row) table \<Rightarrow> bool" where
  "keysUnique t = (\<forall>i row j row'. tget t i = Some row \<longrightarrow> tget t j = Some row' \<longrightarrow>
     cw_actor row = cw_actor row' \<longrightarrow> cw_key row = cw_key row' \<longrightarrow> i = j)"

definition coordinator_ok :: "'b codecs \<Rightarrow> 'b coordinator \<Rightarrow> bool" where
  "coordinator_ok K db = (table_ok (cd_commands db) \<and> length (cd_commands db) \<le> maxCommands \<and>
     (\<forall>i row. tget (cd_commands db) i = Some row \<longrightarrow> (\<exists>r. decodeRow K (cd_bindings db) (i, row) = Inr r)) \<and>
     keysUnique (cd_commands db))"

lemma coordinator_okD:
  assumes "coordinator_ok K db"
  shows "table_ok (cd_commands db)" "length (cd_commands db) \<le> maxCommands" "keysUnique (cd_commands db)"
    "tget (cd_commands db) i = Some row \<Longrightarrow> \<exists>r. decodeRow K (cd_bindings db) (i, row) = Inr r"
  using assms by (auto simp: coordinator_ok_def)

section \<open>Rows and records\<close>

lemma decodeRow_facts:
  assumes "decodeRow K bs (i, row) = Inr r"
  obtains c where "rec_command r = Some c" "c_id c = i" "row = rowOf c (rec_status r) (cw_record row)"
    "validateCommandRecord (k_pb K) r = Inr ()" "stableOf bs (c_target c) \<noteq> None"
proof -
  obtain x where v: "validateCommandRecord (k_pb K) x = Inr ()"
    and rest: "\<not> opt_all (rowDisagrees bs i row x) (rec_command x) \<and> x = r"
    using assms unfolding decodeRow_def by (auto simp: bindR_eq_Inr split: if_splits)
  obtain c where c: "rec_command r = Some c" and d: "\<not> rowDisagrees bs i row r c"
    using rest by (cases "rec_command r") auto
  obtain t where t: "c_expires c = Some t" using d by (cases "c_expires c") (auto simp: rowDisagrees_def)
  have "row = rowOf c (rec_status r) (cw_record row)"
    using d t by (cases row) (simp add: rowOf_def rowDisagrees_def actorOf_def)
  then show thesis using that [of c] c v d rest by (simp add: rowDisagrees_def)
qed

lemma decodeRow_encode:
  assumes "codec_ok (k_record K)" and "validateCommandRecord (k_pb K) r = Inr ()"
    and "rec_command r = Some c"
    and "marshalCommandMessage record_unknown (k_record K) r = Inr payload"
    and "stableOf bs (c_target c) \<noteq> None"
  shows "decodeRow K bs (c_id c, rowOf c (rec_status r) payload) = Inr r"
proof -
  have "ValidateCommand (k_pb K) (Some c) (c_target c) = Inr ()"
    using assms(2,3) by (auto elim!: validateCommandRecord_parts dest: validateCommand_ValidateCommand)
  then have "c_expires c \<noteq> None"
    using ValidateCommand_parts(11) by (fastforce simp: validExpiry_def split: option.splits)
  then show ?thesis
    using assms marshalCommandMessage_decode [OF assms(1,4)]
    by (auto simp: decodeRow_def rowOf_def actorOf_def rowDisagrees_def)
qed

lemma marshal_rowOk:
  assumes "pb_ok (k_pb K)" and "validateCommandRecord (k_pb K) r = Inr ()" and "rec_command r = Some c"
    and "marshalCommandMessage record_unknown (k_record K) r = Inr payload"
    and "storedStatus (rec_status r)"
  shows "commandRowOk K (rowOf c (rec_status r) payload)"
proof -
  have "ValidateCommand (k_pb K) (Some c) (c_target c) = Inr ()"
    using assms(2,3) by (auto elim!: validateCommandRecord_parts dest: validateCommand_ValidateCommand)
  then have "validExpiry (k_pb K) (c_expires c)" using ValidateCommand_parts(11) by blast
  then obtain t where "c_expires c = Some t" "ts_valid (k_pb K) t"
    by (auto simp: validExpiry_def split: option.splits)
  then show ?thesis
    using assms marshalCommandMessage_len [OF assms(4)]
    by (auto simp: commandRowOk_def rowOf_def pb_ok_def maxCommandBytes_def)
qed

lemma recordAt_row:
  assumes "recordAt K db i = Some r"
  obtains row c where "tget (cd_commands db) i = Some row" "decodeRow K (cd_bindings db) (i, row) = Inr r"
    "rec_command r = Some c" "c_id c = i" "row = rowOf c (rec_status r) (cw_record row)"
    "validateCommandRecord (k_pb K) r = Inr ()" "stableOf (cd_bindings db) (c_target c) \<noteq> None"
proof -
  obtain row where row: "tget (cd_commands db) i = Some row"
    and d: "decodeRow K (cd_bindings db) (i, row) = Inr r"
    using assms by (auto simp: recordAt_def split: option.splits sum.splits)
  from d show thesis by (rule decodeRow_facts) (rule that [OF row d])
qed

lemma recordAt_iff:
  assumes "coordinator_ok K db"
  shows "recordAt K db i = None \<longleftrightarrow> tget (cd_commands db) i = None"
proof (cases "tget (cd_commands db) i")
  case (Some row)
  then obtain r where "decodeRow K (cd_bindings db) (i, row) = Inr r"
    using coordinator_okD(4) [OF assms] by blast
  then show ?thesis using Some by (simp add: recordAt_def)
qed (simp add: recordAt_def)

section \<open>Reading a well-formed journal\<close>

lemma readCommands_mem:
  assumes "readCommands K db p = Inr rs" and "r \<in> set rs" and "table_ok (cd_commands db)"
  shows "\<exists>i row. tget (cd_commands db) i = Some row \<and> p i row \<and> recordAt K db i = Some r \<and>
    (\<forall>c. rec_command r = Some c \<longrightarrow> c_id c = i)"
proof -
  obtain i row where m: "(i, row) \<in> set (tselect p (cd_commands db))"
    and d: "decodeRow K (cd_bindings db) (i, row) = Inr r"
    using collect_set [of "decodeRow K (cd_bindings db)"] assms(1,2)
    by (fastforce simp: readCommands_def split: if_splits)
  have "tget (cd_commands db) i = Some row \<and> p i row"
    using m tget_mem [OF assms(3)] by (simp add: tselect_mem)
  moreover have "\<forall>c. rec_command r = Some c \<longrightarrow> c_id c = i"
    using d by (auto elim!: decodeRow_facts)
  moreover have "recordAt K db i = Some r"
    using calculation(1) d by (simp add: recordAt_def)
  ultimately show ?thesis by blast
qed

lemma readCommands_all:
  assumes "readCommands K db p = Inr rs" and "table_ok (cd_commands db)"
    and "tget (cd_commands db) i = Some row" and "p i row" and "recordAt K db i = Some r"
  shows "r \<in> set rs"
proof -
  have m: "(i, row) \<in> set (tselect p (cd_commands db))"
    using assms(3,4) by (simp add: tselect_mem tget_Some_mem)
  have "collect (decodeRow K (cd_bindings db)) (tselect p (cd_commands db)) = Inr rs"
    using assms(1) by (simp add: readCommands_def split: if_splits)
  from collect_mem [OF this m] obtain r' where "r' \<in> set rs" "decodeRow K (cd_bindings db) (i, row) = Inr r'"
    by blast
  then show ?thesis using assms(3,5) by (simp add: recordAt_def)
qed

lemma readCommands_total:
  assumes "coordinator_ok K db"
  shows "\<exists>rs. readCommands K db p = Inr rs"
proof -
  note ok = coordinator_okD [OF assms]
  have "collect (decodeRow K (cd_bindings db)) (tselect p (cd_commands db)) =
      Inr (map (\<lambda>kr. the (recordAt K db (fst kr))) (tselect p (cd_commands db)))"
  proof (rule collect_map)
    fix kr assume kr: "kr \<in> set (tselect p (cd_commands db))"
    obtain i row where e: "kr = (i, row)" by (cases kr)
    have g: "tget (cd_commands db) i = Some row"
      using kr tget_mem [OF ok(1)] unfolding e tselect_mem by blast
    then obtain r where "decodeRow K (cd_bindings db) (i, row) = Inr r" using ok(4) by blast
    then show "decodeRow K (cd_bindings db) kr = Inr (the (recordAt K db (fst kr)))"
      using g by (simp add: e recordAt_def)
  qed
  then show ?thesis using ok(2) by (simp add: readCommands_def)
qed

lemma readCommand_Inr:
  "readCommand K db p = Inr r \<longleftrightarrow> readCommands K db p = Inr [r]"
proof (cases "readCommands K db p")
  case (Inr rs)
  then show ?thesis
    by (cases rs) (auto simp: readCommand_def split: list.splits)
qed (simp add: readCommand_def)

lemma readCommand_byID:
  assumes "coordinator_ok K db"
  shows "readCommand K db (byID i) =
    (case recordAt K db i of None \<Rightarrow> Inl ErrCommandNotFound | Some r \<Rightarrow> Inr r)"
proof -
  note ok = coordinator_okD [OF assms]
  have s: "tselect (byID i) (cd_commands db) =
      (case tget (cd_commands db) i of None \<Rightarrow> [] | Some row \<Rightarrow> [(i, row)])"
    using tselect_key [OF ok(1), of i "\<lambda>_. True"] by (simp add: byID_def split: option.splits)
  show ?thesis
  proof (cases "tget (cd_commands db) i")
    case None
    then show ?thesis using ok(2) by (simp add: readCommand_def readCommands_def s recordAt_def)
  next
    case (Some row)
    then obtain r where "decodeRow K (cd_bindings db) (i, row) = Inr r" using ok(4) by blast
    then show ?thesis using ok(2) Some by (simp add: readCommand_def readCommands_def s recordAt_def)
  qed
qed

lemma readCommand_byKey:
  assumes "coordinator_ok K db" and "readCommand K db (byKey actor key) = Inr r"
  obtains c where "rec_command r = Some c" "recordAt K db (c_id c) = Some r" "actorOf c = actor" "c_key c = key"
proof -
  have rs: "readCommands K db (byKey actor key) = Inr [r]" using assms(2) by (simp add: readCommand_Inr)
  then obtain i row where i: "tget (cd_commands db) i = Some row" "byKey actor key i row"
      "recordAt K db i = Some r"
    using readCommands_mem [OF rs _ coordinator_okD(1) [OF assms(1)], of r] by auto
  from i(3) show thesis
  proof (rule recordAt_row)
    fix row' c
    assume row': "tget (cd_commands db) i = Some row'" "rec_command r = Some c" "c_id c = i"
      "row' = rowOf c (rec_status r) (cw_record row')"
    have "row' = row" using row'(1) i(1) by simp
    then have "cw_actor row = actorOf c" "cw_key row = c_key c"
      using row'(4) by (metis command_row.select_convs(1,2) rowOf_def)+
    then show thesis using that [of c] i row' by (simp add: byKey_def)
  qed
qed

lemma readCommand_byKey_missing:
  assumes "coordinator_ok K db" and "readCommand K db (byKey actor key) = Inl e"
    and "errors_is e ErrCommandNotFound"
  shows "tselect (byKey actor key) (cd_commands db) = []"
proof -
  obtain rs where rs: "readCommands K db (byKey actor key) = Inr rs"
    using readCommands_total [OF assms(1)] by blast
  have "rs = []" using assms(2,3) rs
    by (auto simp: readCommand_def split: list.splits)
  then show ?thesis using rs collect_length by (fastforce simp: readCommands_def split: if_splits)
qed

section \<open>Statements on a well-formed journal\<close>

text \<open>Writing back a record of an existing command.\<close>

lemma store_record:
  assumes ok: "coordinator_ok K db" and K: "codecs_ok K"
    and old: "recordAt K db i = Some r0" "rec_command r0 = Some c"
    and new: "rec_command r = Some c" "validateCommandRecord (k_pb K) r = Inr ()"
    and pay: "marshalCommandMessage record_unknown (k_record K) r = Inr payload"
    and db': "db' = db\<lparr>cd_commands := tput i (rowOf c (rec_status r) payload) (cd_commands db)\<rparr>"
  shows "coordinator_ok K db' \<and> recordAt K db' = (recordAt K db)(i \<mapsto> r) \<and>
    cd_bindings db' = cd_bindings db"
proof -
  note d = coordinator_okD [OF ok]
  obtain row where row: "tget (cd_commands db) i = Some row" and ci: "c_id c = i"
    and ro: "row = rowOf c (rec_status r0) (cw_record row)" and b: "stableOf (cd_bindings db) (c_target c) \<noteq> None"
    using old by (auto elim!: recordAt_row)
  have dec: "decodeRow K (cd_bindings db) (i, rowOf c (rec_status r) payload) = Inr r"
    using decodeRow_encode [OF _ new(2,1) pay b] K ci by (simp add: codecs_ok_def)
  have keys: "cw_actor (rowOf c (rec_status r) payload) = cw_actor row"
    "cw_key (rowOf c (rec_status r) payload) = cw_key row"
    by (subst ro, simp add: rowOf_def)+
  have ku: "keysUnique (cd_commands db')"
    using d(3) row keys unfolding keysUnique_def db'
    by (simp add: tget_tput) metis
  have rows: "\<exists>x. decodeRow K (cd_bindings db') (j, rw) = Inr x" if "tget (cd_commands db') j = Some rw" for j rw
    using that d(4) dec unfolding db' by (auto simp: tget_tput split: if_splits)
  have "coordinator_ok K db'"
    using d(1,2) ku rows row unfolding coordinator_ok_def db'
    by (simp add: table_ok_tput length_tput)
  moreover have "recordAt K db' = (recordAt K db)(i \<mapsto> r)"
    unfolding recordAt_def db' by (rule ext) (simp add: tget_tput dec split: option.splits)
  ultimately show ?thesis by (simp add: db')
qed

lemma updateCommand_row:
  assumes "recordAt K db i = Some r0" and "rec_command r0 = Some c"
    and "updateCommand K i status payload db = Inr db'"
  shows "db' = db\<lparr>cd_commands := tput i (rowOf c status payload) (cd_commands db)\<rparr>"
proof -
  from assms(1) show ?thesis
  proof (rule recordAt_row)
    fix row c'
    assume row: "tget (cd_commands db) i = Some row" "rec_command r0 = Some c'"
      "row = rowOf c' (rec_status r0) (cw_record row)"
    have "row\<lparr>cw_status := status, cw_record := payload\<rparr> = rowOf c status payload"
      by (subst row(3)) (use row(2) assms(2) in \<open>simp add: rowOf_def\<close>)
    then show ?thesis using assms(3) row(1) by (simp add: updateCommand_def Let_def split: if_splits)
  qed
qed

text \<open>What a record becomes when its status changes.\<close>

definition transitioned :: "pb \<Rightarrow> command_record \<Rightarrow> command_status \<Rightarrow> string \<Rightarrow> int \<Rightarrow> command_record" where
  "transitioned P r status detail now =
     r\<lparr>rec_status := status, rec_detail := detail, rec_updated := Some (new_ts P now),
       rec_audit := rec_audit r @
         [\<lparr>au_status = status, au_detail = detail, au_at = Some (new_ts P now), au_unk = []\<rparr>]\<rparr>"

lemma transitioned_simps [simp]:
  "rec_command (transitioned P r status detail now) = rec_command r"
  "rec_status (transitioned P r status detail now) = status"
  "rec_detail (transitioned P r status detail now) = detail"
  "rec_created (transitioned P r status detail now) = rec_created r"
  "rec_lifecycle (transitioned P r status detail now) = rec_lifecycle r"
  "rec_audit (transitioned P r status detail now) = rec_audit r @
     [\<lparr>au_status = status, au_detail = detail, au_at = Some (new_ts P now), au_unk = []\<rparr>]"
  by (simp_all add: transitioned_def)

lemma transitionCommand_spec:
  assumes ok: "coordinator_ok K db" and K: "codecs_ok K"
    and old: "recordAt K db i = Some r0" "rec_command r0 = Some c" "rec_command r = Some c"
    and tr: "transitionCommand K r status detail now db = Inr (r', db')"
  shows "r' = transitioned (k_pb K) r status detail now" (is ?r)
    and "validCommandTransition (c_type c) (rec_status r) status detail"
    and "validateCommandRecord (k_pb K) r' = Inr ()"
    and "coordinator_ok K db' \<and> recordAt K db' = (recordAt K db)(i \<mapsto> r') \<and> cd_bindings db' = cd_bindings db"
proof -
  have ci: "c_id c = i" using old by (auto elim!: recordAt_row)
  obtain payload where r': ?r and v: "validateCommandRecord (k_pb K) r' = Inr ()"
    and t: "validCommandTransition (c_type c) (rec_status r) status detail"
    and p: "marshalCommandMessage record_unknown (k_record K) r' = Inr payload"
    and u: "updateCommand K i status payload db = Inr db'"
    using tr old(3) ci unfolding transitionCommand_def Let_def transitioned_def commandTime_def
    by (auto simp: bindR_eq_Inr split: if_splits)
  have rc: "rec_command r' = Some c" using r' old(3) by simp
  have s: "rec_status r' = status" using r' by simp
  show ?r by (rule r')
  show "validCommandTransition (c_type c) (rec_status r) status detail" by (rule t)
  show "validateCommandRecord (k_pb K) r' = Inr ()" by (rule v)
  show "coordinator_ok K db' \<and> recordAt K db' = (recordAt K db)(i \<mapsto> r') \<and> cd_bindings db' = cd_bindings db"
    using store_record [OF ok K old(1,2) rc v p] updateCommand_row [OF old(1,2) u] s by simp
qed

lemma saveRecord_spec:
  assumes ok: "coordinator_ok K db" and K: "codecs_ok K"
    and old: "recordAt K db i = Some r0" "rec_command r0 = Some c" "rec_command r = Some c"
      "rec_status r = rec_status r0"
    and sv: "saveRecord K i r db = Inr (r', db')"
  shows "r' = r" and "validateCommandRecord (k_pb K) r = Inr ()"
    and "coordinator_ok K db' \<and> recordAt K db' = (recordAt K db)(i \<mapsto> r) \<and> cd_bindings db' = cd_bindings db"
proof -
  obtain payload where r': "r' = r" and v: "validateCommandRecord (k_pb K) r = Inr ()"
    and p: "marshalCommandMessage record_unknown (k_record K) r = Inr payload"
    and u: "updateRecord K i payload db = Inr db'"
    using sv unfolding saveRecord_def by (auto simp: bindR_eq_Inr)
  show "r' = r" and "validateCommandRecord (k_pb K) r = Inr ()" by (rule r', rule v)
  have "updateCommand K i (rec_status r) payload db = Inr db'"
  proof -
    from old(1) show ?thesis
    proof (rule recordAt_row)
      fix row c'
      assume row: "tget (cd_commands db) i = Some row" "row = rowOf c' (rec_status r0) (cw_record row)"
      have "cw_status row = rec_status r" using row(2) old(4) by (metis command_row.select_convs(6) rowOf_def)
      then show ?thesis using u row(1) by (simp add: updateRecord_def)
    qed
  qed
  then show "coordinator_ok K db' \<and> recordAt K db' = (recordAt K db)(i \<mapsto> r) \<and> cd_bindings db' = cd_bindings db"
    using store_record [OF ok K old(1,2,3) v p] updateCommand_row [OF old(1,2)] by simp
qed

section \<open>How far one statement may change a record\<close>

definition openStatus :: "command_status \<Rightarrow> bool" where
  "openStatus s = (s = ACCEPTED \<or> s = RUNNING \<or> s = INDETERMINATE)"

text \<open>
  The command and the admission time are fixed, the audit only grows, a conclusive record is not
  touched at all, and a lifecycle receipt is kept or advanced.
\<close>

definition recordStep :: "pb \<Rightarrow> command_record \<Rightarrow> command_record \<Rightarrow> bool" where
  "recordStep P a b = (rec_command b = rec_command a \<and> rec_created b = rec_created a \<and>
     list_prefix (rec_audit a) (rec_audit b) \<and> (\<not> openStatus (rec_status a) \<longrightarrow> b = a) \<and>
     (rec_status a \<noteq> ACCEPTED \<longrightarrow> rec_status b \<noteq> ACCEPTED) \<and>
     (case rec_command a of None \<Rightarrow> True
      | Some c \<Rightarrow> rec_lifecycle b = rec_lifecycle a \<or>
          ValidateLifecycleAdvance P (rec_lifecycle a) (rec_lifecycle b) c = Inr ()))"

lemma recordStep_refl [simp]: "recordStep P a a"
  by (simp add: recordStep_def split: option.splits)

lemma advance_trans:
  assumes "ValidateLifecycleAdvance P a b c = Inr ()" and "ValidateLifecycleAdvance P b d c = Inr ()"
  shows "ValidateLifecycleAdvance P a d c = Inr ()"
proof (cases a)
  case None
  have "ValidateLifecycleReceipt P d c = Inr ()"
    using assms(2) by (simp add: ValidateLifecycleAdvance_def bindR_eq_Inr)
  then show ?thesis using None by (simp add: ValidateLifecycleAdvance_def)
next
  case (Some x)
  obtain y where y: "b = Some y" using assms(1) Some by (auto simp: ValidateLifecycleAdvance_Some)
  show ?thesis
    using assms advanceStep_trans unfolding Some y ValidateLifecycleAdvance_Some by blast
qed

lemma recordStep_trans:
  assumes "recordStep P a b" and "recordStep P b d"
  shows "recordStep P a d"
proof (cases "openStatus (rec_status a)")
  case False
  then have "b = a" using assms(1) by (simp add: recordStep_def)
  then show ?thesis using assms(2) by simp
next
  case True
  have "case rec_command a of None \<Rightarrow> True
      | Some c \<Rightarrow> rec_lifecycle d = rec_lifecycle a \<or>
          ValidateLifecycleAdvance P (rec_lifecycle a) (rec_lifecycle d) c = Inr ()"
    using assms unfolding recordStep_def
    by (cases "rec_command a") (auto intro: advance_trans)
  then show ?thesis
    using assms True unfolding recordStep_def by (auto intro: list_prefix_trans)
qed

lemma recordStep_final: "recordStep P a b \<Longrightarrow> \<not> openStatus (rec_status a) \<Longrightarrow> b = a"
  by (simp add: recordStep_def)

lemma transition_from_open:
  "validCommandTransition kind from to detail \<Longrightarrow> openStatus from \<and> to \<noteq> ACCEPTED"
  by (auto simp: validCommandTransition_def openStatus_def split: if_splits command_status.splits)

text \<open>The journal between two states: no record disappears, and each takes a permitted step.\<close>

definition journalStep :: "pb \<Rightarrow> (string \<Rightarrow> command_record option) \<Rightarrow> (string \<Rightarrow> command_record option) \<Rightarrow> bool" where
  "journalStep P f g = (\<forall>i a. f i = Some a \<longrightarrow> (\<exists>b. g i = Some b \<and> recordStep P a b))"

lemma journalStep_refl [simp]: "journalStep P f f"
  by (simp add: journalStep_def)

lemma journalStep_trans: "journalStep P f g \<Longrightarrow> journalStep P g h \<Longrightarrow> journalStep P f h"
  unfolding journalStep_def by (meson recordStep_trans)

lemma journalStep_upd:
  "f i = Some a \<Longrightarrow> recordStep P a b \<Longrightarrow> journalStep P f (f(i \<mapsto> b))"
  by (simp add: journalStep_def)

lemma journalStep_new: "f i = None \<Longrightarrow> journalStep P f (f(i \<mapsto> b))"
  by (simp add: journalStep_def)

text \<open>A status change of a record that otherwise only gained data is a permitted step.\<close>

lemma transition_step:
  assumes "validCommandTransition kind (rec_status a) status detail"
    and "rec_command r = rec_command a" "rec_created r = rec_created a" "rec_audit r = rec_audit a"
    and "\<And>c. rec_command a = Some c \<Longrightarrow> rec_lifecycle r = rec_lifecycle a \<or>
      ValidateLifecycleAdvance P (rec_lifecycle a) (rec_lifecycle r) c = Inr ()"
  shows "recordStep P a (transitioned P r status detail now)"
  using assms transition_from_open [OF assms(1)] unfolding recordStep_def
  by (auto split: option.splits)

section \<open>The operations preserve the invariant\<close>

definition goodChange :: "'b codecs \<Rightarrow> 'b coordinator \<Rightarrow> 'b coordinator \<Rightarrow> bool" where
  "goodChange K db db' = (coordinator_ok K db' \<and>
     journalStep (k_pb K) (recordAt K db) (recordAt K db') \<and> cd_bindings db' = cd_bindings db)"

lemma goodChange_refl: "coordinator_ok K db \<Longrightarrow> goodChange K db db"
  by (simp add: goodChange_def)

lemma goodChange_trans: "goodChange K a b \<Longrightarrow> goodChange K b c \<Longrightarrow> goodChange K a c"
  unfolding goodChange_def by (auto intro: journalStep_trans)

lemma transition_good:
  assumes "coordinator_ok K db" and "codecs_ok K"
    and "recordAt K db i = Some a" "rec_command a = Some c"
    and "rec_command r = rec_command a" "rec_status r = rec_status a" "rec_created r = rec_created a"
      "rec_audit r = rec_audit a"
    and "rec_lifecycle r = rec_lifecycle a \<or>
      ValidateLifecycleAdvance (k_pb K) (rec_lifecycle a) (rec_lifecycle r) c = Inr ()"
    and "transitionCommand K r status detail now db = Inr (r', db')"
  shows "goodChange K db db'" and "recordAt K db' = (recordAt K db)(i \<mapsto> r')"
    and "r' = transitioned (k_pb K) r status detail now"
proof -
  have rc: "rec_command r = Some c" using assms(4,5) by simp
  note sp = transitionCommand_spec [OF assms(1-4) rc assms(10)]
  show "r' = transitioned (k_pb K) r status detail now" by (rule sp(1))
  show "recordAt K db' = (recordAt K db)(i \<mapsto> r')" using sp(4) by blast
  have "recordStep (k_pb K) a (transitioned (k_pb K) r status detail now)"
    by (rule transition_step) (use sp(2) assms in auto)
  then show "goodChange K db db'"
    using sp assms(3) journalStep_upd [of "recordAt K db" i a "k_pb K" r'] unfolding goodChange_def by simp
qed

lemma recordAt_command:
  assumes "recordAt K db i = Some r"
  obtains c where "rec_command r = Some c" "c_id c = i" "validateCommandRecord (k_pb K) r = Inr ()"
  using assms by (auto elim!: recordAt_row)

lemma newRecord_simps [simp]:
  "rec_command (newRecord c stamp) = Some c" "rec_status (newRecord c stamp) = ACCEPTED"
  "rec_lifecycle (newRecord c stamp) = None"
  by (simp_all add: newRecord_def)

lemma insert_good:
  assumes ok: "coordinator_ok K db" and K: "codecs_ok K"
    and v: "validateCommandRecord (k_pb K) r = Inr ()" and rc: "rec_command r = Some c"
    and pay: "marshalCommandMessage record_unknown (k_record K) r = Inr payload"
    and cap: "length (cd_commands db) < maxCommands"
    and ins: "insertCommand K (c_id c) (rowOf c (rec_status r) payload) db = Inr db'"
  shows "goodChange K db db' \<and> recordAt K db' = (recordAt K db)(c_id c \<mapsto> r) \<and>
    length (cd_commands db') = Suc (length (cd_commands db))"
proof -
  note d = coordinator_okD [OF ok]
  let ?row = "rowOf c (rec_status r) payload"
  from ins have new: "tget (cd_commands db) (c_id c) = None" and db': "db' = db\<lparr>cd_commands := tput (c_id c) ?row (cd_commands db)\<rparr>"
    and k: "tselect (byKey (cw_actor ?row) (cw_key ?row)) (cd_commands db) = []"
    and b: "stableOf (cd_bindings db) (c_target c) \<noteq> None"
    by (auto simp: insertCommand_def rowOf_def split: if_splits)
  have dec: "decodeRow K (cd_bindings db) (c_id c, ?row) = Inr r"
    using decodeRow_encode [OF _ v rc pay b] K by (simp add: codecs_ok_def)
  have fresh: "cw_actor row \<noteq> cw_actor ?row \<or> cw_key row \<noteq> cw_key ?row"
    if "tget (cd_commands db) j = Some row" for j row
  proof (rule ccontr)
    assume "\<not> ?thesis"
    then have "(j, row) \<in> set (tselect (byKey (cw_actor ?row) (cw_key ?row)) (cd_commands db))"
      using that by (simp add: tselect_mem tget_Some_mem byKey_def)
    then show False using k by simp
  qed
  have ku: "keysUnique (cd_commands db')"
    using d(3) fresh unfolding keysUnique_def db' by (simp add: tget_tput) metis
  have rows: "\<exists>x. decodeRow K (cd_bindings db') (j, rw) = Inr x" if "tget (cd_commands db') j = Some rw" for j rw
    using that d(4) dec unfolding db' by (auto simp: tget_tput split: if_splits)
  have len: "length (cd_commands db') = Suc (length (cd_commands db))"
    using d(1) new by (simp add: db' length_tput)
  have "coordinator_ok K db'"
    using d(1) ku rows len cap unfolding coordinator_ok_def by (simp add: db' table_ok_tput)
  moreover have ra: "recordAt K db' = (recordAt K db)(c_id c \<mapsto> r)"
    unfolding recordAt_def db' by (rule ext) (simp add: tget_tput dec split: option.splits)
  moreover have "recordAt K db (c_id c) = None" using new by (simp add: recordAt_def)
  ultimately show ?thesis using len journalStep_new unfolding goodChange_def ra by (simp add: db')
qed

lemma createBody_cases:
  assumes ok: "coordinator_ok K db" and K: "codecs_ok K"
    and b: "createBody K c stamp db = Inr ((r, created), db')"
  shows "if created
    then r = newRecord c stamp \<and> recordAt K db (c_id c) = None \<and> goodChange K db db' \<and>
      recordAt K db' = (recordAt K db)(c_id c \<mapsto> r) \<and> length (cd_commands db) < maxCommands \<and>
      tselect (byKey (actorOf c) (c_key c)) (cd_commands db) = [] \<and>
      checkCoordinatorLifecycleFence K db c = Inr () \<and> checkNamedAgentClaim K db c = Inr ()
    else db' = db \<and> readCommand K db (byKey (actorOf c) (c_key c)) = Inr r \<and>
      opt_ex (\<lambda>original. matchingRequest original c) (rec_command r)"
proof (cases "readCommand K db (byKey (actorOf c) (c_key c))")
  case (Inr x)
  then show ?thesis using b by (auto simp: createBody_def split: if_splits)
next
  case (Inl e)
  then have nf: "errors_is e ErrCommandNotFound" and a: "admitCommand K c stamp db = Inr ((r, created), db')"
    using b by (auto simp: createBody_def split: if_splits)
  have sel: "tselect (byKey (actorOf c) (c_key c)) (cd_commands db) = []"
    by (rule readCommand_byKey_missing [OF ok Inl nf])
  obtain payload where f: "r = newRecord c stamp" "created"
    "tget (cd_commands db) (c_id c) = None" "length (cd_commands db) < maxCommands"
    "checkCoordinatorLifecycleFence K db c = Inr ()" "checkNamedAgentClaim K db c = Inr ()"
    "validateCommandRecord (k_pb K) (newRecord c stamp) = Inr ()"
    "marshalCommandMessage record_unknown (k_record K) (newRecord c stamp) = Inr payload"
    "insertCommand K (c_id c) (rowOf c ACCEPTED payload) db = Inr db'"
    using a unfolding admitCommand_def Let_def by (auto simp: bindR_eq_Inr not_le split: if_splits)
  have rc: "rec_command (newRecord c stamp) = Some c" by simp
  have ins: "insertCommand K (c_id c) (rowOf c (rec_status (newRecord c stamp)) payload) db = Inr db'"
    using f(9) by simp
  show ?thesis
    using insert_good [OF ok K f(7) rc f(8,4) ins] f sel by (simp add: recordAt_def)
qed

lemma createBody_good:
  assumes "coordinator_ok K db" and "codecs_ok K" and "createBody K c stamp db = Inr (x, db')"
  shows "goodChange K db db'"
  using createBody_cases [OF assms(1,2)] assms(3) goodChange_refl [OF assms(1)]
  by (cases x) (fastforce split: if_splits)

lemma dispatchBody_good:
  assumes ok: "coordinator_ok K db" and K: "codecs_ok K"
    and b: "dispatchBody K node i now db = Inr ((r', d), db')"
  obtains r c where "recordAt K db i = Some r" "rec_command r = Some c" "c_target c = node"
    "goodChange K db db'" "recordAt K db' = (recordAt K db)(i \<mapsto> r')"
    "d \<longleftrightarrow> rec_status r = ACCEPTED \<and> now < expiryOf (k_pb K) r"
    "r' = (if rec_status r \<noteq> ACCEPTED then r
           else if d then transitioned (k_pb K) r RUNNING ''dispatched'' now
           else transitioned (k_pb K) r TIMED_OUT ''deadline_expired'' now)"
proof -
  obtain r where r: "recordAt K db i = Some r"
    and rd: "readCommand K db (byID i) = Inr r"
    using b by (auto simp: dispatchBody_def readCommand_byID [OF ok] bindR_eq_Inr split: option.splits)
  obtain c where c: "rec_command r = Some c" using r by (auto elim!: recordAt_command)
  have node: "c_target c = node" using b rd c by (auto simp: dispatchBody_def split: if_splits)
  note tg = transition_good [OF ok K r c refl refl refl refl]
  consider (no) "rec_status r \<noteq> ACCEPTED" "r' = r" "d = False" "db' = db"
    | (late) "rec_status r = ACCEPTED" "expiryOf (k_pb K) r \<le> now" "d = False"
        "transitionCommand K r TIMED_OUT ''deadline_expired'' now db = Inr (r', db')"
    | (run) "rec_status r = ACCEPTED" "now < expiryOf (k_pb K) r" "d = True"
        "transitionCommand K r RUNNING ''dispatched'' now db = Inr (r', db')"
    using b rd c node
    by (auto simp: dispatchBody_def bindR_eq_Inr not_le split: if_splits)
  then show thesis
  proof cases
    case no
    then show thesis using that [OF r c node] goodChange_refl [OF ok] r by (auto simp: fun_upd_idem)
  next
    case late
    then show thesis using that [OF r c node] tg [OF _ late(4)] by auto
  next
    case run
    then show thesis using that [OF r c node] tg [OF _ run(4)] by auto
  qed
qed

lemma withResult_simps [simp]:
  "rec_command (withResult r v) = rec_command r" "rec_status (withResult r v) = rec_status r"
  "rec_created (withResult r v) = rec_created r" "rec_audit (withResult r v) = rec_audit r"
  "rec_lifecycle (withResult r v) = rec_lifecycle r"
  by (simp_all add: withResult_def)

lemma conflictOf_Inr [simp]: "conflictOf v = Inr u \<longleftrightarrow> v = Inr u"
  by (simp add: conflictOf_def split: sum.splits)

lemma saveRecord_good:
  assumes ok: "coordinator_ok K db" and K: "codecs_ok K"
    and old: "recordAt K db i = Some a" "rec_command a = Some c"
    and adv: "ValidateLifecycleAdvance (k_pb K) (rec_lifecycle a) l c = Inr ()"
    and st: "openStatus (rec_status a)"
    and sv: "saveRecord K i (a\<lparr>rec_lifecycle := l\<rparr>) db = Inr (r', db')"
  shows "goodChange K db db' \<and> recordAt K db' = (recordAt K db)(i \<mapsto> r') \<and> r' = a\<lparr>rec_lifecycle := l\<rparr>"
proof -
  have rc: "rec_command (a\<lparr>rec_lifecycle := l\<rparr>) = Some c" "rec_status (a\<lparr>rec_lifecycle := l\<rparr>) = rec_status a"
    using old(2) by simp_all
  note sp = saveRecord_spec [OF ok K old rc sv]
  have "recordStep (k_pb K) a (a\<lparr>rec_lifecycle := l\<rparr>)"
    using adv st old(2) by (simp add: recordStep_def)
  then show ?thesis using sp journalStep_upd [of "recordAt K db" i a] old(1)
    unfolding goodChange_def by simp
qed

lemma finishLifecycleRecord_good:
  assumes ok: "coordinator_ok K db" and K: "codecs_ok K"
    and old: "recordAt K db i = Some r" "rec_command r = Some c" and cid: "cr_id v = i"
    and f: "finishLifecycleRecord K r c v now db = Inr (r', db')"
  shows "goodChange K db db' \<and> recordAt K db' = (recordAt K db)(i \<mapsto> r') \<and>
    (db' = db \<and> r' = r \<or> rec_status r \<in> {RUNNING, INDETERMINATE} \<and> rec_status r' = cr_status v \<and>
      rec_detail r' = cr_detail v)"
proof (cases "recordResult r = v")
  case True
  then show ?thesis using f goodChange_refl [OF ok] old(1)
    by (simp add: finishLifecycleRecord_def fun_upd_idem)
next
  case False
  let ?r = "if cr_lifecycle v \<noteq> None then r\<lparr>rec_lifecycle := cr_lifecycle v\<rparr> else r"
  have st: "rec_status r \<in> {RUNNING, INDETERMINATE}"
    using f False by (auto simp: finishLifecycleRecord_def split: if_splits)
  have adv: "cr_lifecycle v \<noteq> None \<Longrightarrow>
      ValidateLifecycleAdvance (k_pb K) (rec_lifecycle r) (cr_lifecycle v) c = Inr ()"
    and none: "cr_lifecycle v = None \<Longrightarrow> rec_lifecycle r = None"
    and go: "(if rec_status r \<noteq> cr_status v \<or> rec_detail r \<noteq> cr_detail v
        then transitionCommand K ?r (cr_status v) (cr_detail v) now db
        else saveRecord K (cr_id v) ?r db) = Inr (r', db')"
    using f False st unfolding finishLifecycleRecord_def Let_def
    by (auto simp: bindR_eq_Inr split: if_splits)
  have fr: "rec_command ?r = rec_command r" "rec_status ?r = rec_status r" "rec_created ?r = rec_created r"
      "rec_audit ?r = rec_audit r" by simp_all
  show ?thesis
  proof (cases "rec_status r \<noteq> cr_status v \<or> rec_detail r \<noteq> cr_detail v")
    case True
    then have t: "transitionCommand K ?r (cr_status v) (cr_detail v) now db = Inr (r', db')" using go by simp
    have l: "rec_lifecycle ?r = rec_lifecycle r \<or>
        ValidateLifecycleAdvance (k_pb K) (rec_lifecycle r) (rec_lifecycle ?r) c = Inr ()"
      using adv by simp
    show ?thesis using transition_good [OF ok K old fr l t] st by simp
  next
    case same: False
    show ?thesis
    proof (cases "cr_lifecycle v")
      case None
      have "recordAt K db i = Some r" "rec_command r = Some c" by (rule old)+
      then have "saveRecord K i r db = Inr (r', db')" using go same None cid by simp
      from saveRecord_spec [OF ok K old old(2) refl this]
      show ?thesis using same st old unfolding goodChange_def by (auto simp: fun_upd_idem)
    next
      case (Some l)
      have sv: "saveRecord K i (r\<lparr>rec_lifecycle := Some l\<rparr>) db = Inr (r', db')"
        using go same Some cid by simp
      have "openStatus (rec_status r)" using st by (auto simp: openStatus_def)
      then show ?thesis
        using saveRecord_good [OF ok K old _ _ sv] adv Some same st by simp
    qed
  qed
qed

lemma finishRecord_good:
  assumes ok: "coordinator_ok K db" and K: "codecs_ok K"
    and old: "recordAt K db i = Some r" "rec_command r = Some c"
    and f: "finishRecord K r c v now db = Inr (r', db')"
  shows "goodChange K db db' \<and> recordAt K db' = (recordAt K db)(i \<mapsto> r') \<and>
    (db' = db \<and> r' = r \<or> rec_status r \<in> {RUNNING, INDETERMINATE} \<and> rec_status r' = cr_status v \<and>
      rec_detail r' = cr_detail v)"
proof -
  consider (same) "r' = r" "db' = db"
    | (move) "rec_status r \<in> {RUNNING, INDETERMINATE}"
        "transitionCommand K (withResult r v) (cr_status v) (cr_detail v) now db = Inr (r', db')"
    using f unfolding finishRecord_def by (auto split: if_splits)
  then show ?thesis
  proof cases
    case same
    then show ?thesis using goodChange_refl [OF ok] old(1) by (simp add: fun_upd_idem)
  next
    case move
    show ?thesis
      using transition_good [OF ok K old _ _ _ _ _ move(2)] move(1) by simp
  qed
qed

lemma finishBody_good:
  assumes ok: "coordinator_ok K db" and K: "codecs_ok K"
    and b: "finishBody K node sid v now db = Inr (r', db')"
  obtains r c where "recordAt K db (cr_id v) = Some r" "rec_command r = Some c"
    "c_target c = node" "stableOf (cd_bindings db) node = Some sid"
    "ValidateResultForCommand (k_pb K) (Some v) c = Inr ()"
    "goodChange K db db'" "recordAt K db' = (recordAt K db)(cr_id v \<mapsto> r')"
    "db' = db \<and> r' = r \<or> rec_status r \<in> {RUNNING, INDETERMINATE} \<and> rec_status r' = cr_status v \<and>
      rec_detail r' = cr_detail v"
proof -
  obtain r where r: "recordAt K db (cr_id v) = Some r" and rd: "readCommand K db (byID (cr_id v)) = Inr r"
    using b by (auto simp: finishBody_def readCommand_byID [OF ok] bindR_eq_Inr split: option.splits)
  obtain c where c: "rec_command r = Some c" using r by (auto elim!: recordAt_command)
  have f: "c_target c = node" "stableOf (cd_bindings db) node = Some sid"
    "ValidateResultForCommand (k_pb K) (Some v) c = Inr ()"
    "(if IsLifecycleCommand (c_type c) then finishLifecycleRecord K r c v now db
      else finishRecord K r c v now db) = Inr (r', db')"
    using b rd c by (auto simp: finishBody_def bindR_eq_Inr split: if_splits option.splits)
  have "goodChange K db db' \<and> recordAt K db' = (recordAt K db)(cr_id v \<mapsto> r') \<and>
    (db' = db \<and> r' = r \<or> rec_status r \<in> {RUNNING, INDETERMINATE} \<and> rec_status r' = cr_status v \<and>
      rec_detail r' = cr_detail v)"
    using f(4) finishLifecycleRecord_good [OF ok K r c refl] finishRecord_good [OF ok K r c]
    by (simp split: if_splits)
  then show thesis using that [OF r c f(1-3)] by blast
qed

lemma progressBody_good:
  assumes ok: "coordinator_ok K db" and K: "codecs_ok K"
    and b: "progressBody K node p db = Inr (u, db')"
  shows "goodChange K db db' \<and> recordAt K db (cp_id p) \<noteq> None \<and>
    (\<forall>j. j \<noteq> cp_id p \<longrightarrow> recordAt K db' j = recordAt K db j)"
proof -
  obtain r where r: "recordAt K db (cp_id p) = Some r" and rd: "readCommand K db (byID (cp_id p)) = Inr r"
    using b by (auto simp: progressBody_def readCommand_byID [OF ok] bindR_eq_Inr split: option.splits)
  obtain c where c: "rec_command r = Some c" using r by (auto elim!: recordAt_command)
  consider "db' = db"
    | (save) r' where "rec_status r = RUNNING \<or> rec_status r = INDETERMINATE"
        "ValidateLifecycleAdvance (k_pb K) (rec_lifecycle r) (cp_lifecycle p) c = Inr ()"
        "saveRecord K (cp_id p) (r\<lparr>rec_lifecycle := cp_lifecycle p\<rparr>) db = Inr (r', db')"
    using b rd c by (auto simp: progressBody_def bindR_eq_Inr split: if_splits)
  then show ?thesis
  proof cases
    case 1
    then show ?thesis using goodChange_refl [OF ok] r by simp
  next
    case save
    have "openStatus (rec_status r)" using save(1) by (auto simp: openStatus_def)
    then show ?thesis using saveRecord_good [OF ok K r c save(2) _ save(3)] r by simp
  qed
qed

section \<open>The loop over active commands\<close>

definition skipped :: "pb \<Rightarrow> int \<Rightarrow> string \<Rightarrow> command_record \<Rightarrow> bool" where
  "skipped P now detail r = (detail = ''deadline_expired'' \<and> rec_status r = RUNNING \<and>
     opt_ex (\<lambda>c. now < CommandExecutionDeadline P c) (rec_command r))"

definition changed :: "pb \<Rightarrow> int \<Rightarrow> command_status \<Rightarrow> string \<Rightarrow> command_record \<Rightarrow> command_record" where
  "changed P now acceptedStatus detail r =
     (if skipped P now detail r then r
      else transitioned P r (if rec_status r = RUNNING then INDETERMINATE else acceptedStatus) detail now)"

definition idOf :: "command_record \<Rightarrow> string" where
  "idOf r = getter c_id (rec_command r)"

lemma changeLoop_good:
  assumes "coordinator_ok K db" and "codecs_ok K"
    and "\<And>r. r \<in> set rs \<Longrightarrow> recordAt K db (idOf r) = Some r" and "distinct (map idOf rs)"
    and "changeLoop K now st detail rs db = Inr db'"
  shows "goodChange K db db' \<and> recordAt K db' = (\<lambda>i.
    if i \<in> set (map idOf rs) then map_option (changed (k_pb K) now st detail) (recordAt K db i)
    else recordAt K db i)"
  using assms
proof (induction rs arbitrary: db)
  case Nil
  then show ?case by (simp add: goodChange_refl)
next
  case (Cons r rs)
  have r: "recordAt K db (idOf r) = Some r" using Cons.prems(3) by simp
  obtain c where c: "rec_command r = Some c" using r by (auto elim!: recordAt_command)
  have sk: "skipped (k_pb K) now detail r \<longleftrightarrow> detail = ''deadline_expired'' \<and> rec_status r = RUNNING \<and>
      now < CommandExecutionDeadline (k_pb K) c"
    by (simp add: skipped_def c)
  define db1 where "db1 = (if skipped (k_pb K) now detail r then db else
     snd (projr (transitionCommand K r (if rec_status r = RUNNING then INDETERMINATE else st) detail now db)))"
  have step: "goodChange K db db1 \<and>
      recordAt K db1 = (recordAt K db)(idOf r \<mapsto> changed (k_pb K) now st detail r) \<and>
      changeLoop K now st detail rs db1 = Inr db'"
  proof (cases "skipped (k_pb K) now detail r")
    case True
    then show ?thesis
      using Cons.prems(1,5) r c sk goodChange_refl
      by (auto simp: db1_def changed_def fun_upd_idem)
  next
    case False
    obtain r1 db2 where t: "transitionCommand K r (if rec_status r = RUNNING then INDETERMINATE else st)
        detail now db = Inr (r1, db2)" and l: "changeLoop K now st detail rs db2 = Inr db'"
      using Cons.prems(5) False c sk by (auto simp: bindR_eq_Inr)
    have "db1 = db2" using False t by (simp add: db1_def)
    then show ?thesis
      using transition_good [OF Cons.prems(1,2) r c refl refl refl refl _ t] l False
      by (simp add: changed_def)
  qed
  have ok1: "coordinator_ok K db1" using step by (simp add: goodChange_def)
  have rest: "recordAt K db1 (idOf x) = Some x" if "x \<in> set rs" for x
  proof -
    have "idOf x \<noteq> idOf r" using that Cons.prems(4) by (metis distinct.simps(2) image_eqI list.set_map list.simps(9))
    then show ?thesis using that step Cons.prems(3) by simp
  qed
  have dis: "distinct (map idOf rs)" using Cons.prems(4) by simp
  note IH = Cons.IH [OF ok1 Cons.prems(2) rest dis conjunct2 [OF conjunct2 [OF step]]]
  have "idOf r \<notin> set (map idOf rs)" using Cons.prems(4) by simp
  then have "recordAt K db' = (\<lambda>i. if i \<in> set (map idOf (r # rs))
      then map_option (changed (k_pb K) now st detail) (recordAt K db i) else recordAt K db i)"
    using IH step r by (auto simp: fun_eq_iff)
  then show ?case using IH step goodChange_trans by blast
qed

lemma collect_ids:
  assumes "collect (decodeRow K bs) kvs = Inr rs"
  shows "map idOf rs = map fst kvs"
  using assms
proof (induction kvs arbitrary: rs)
  case (Cons kv kvs)
  obtain i row where kv: "kv = (i, row)" by (cases kv)
  obtain r rs' where r: "decodeRow K bs (i, row) = Inr r" "collect (decodeRow K bs) kvs = Inr rs'" "rs = r # rs'"
    using Cons.prems kv by (auto simp: bindR_eq_Inr)
  have "idOf r = i" using r(1) by (auto simp: idOf_def elim!: decodeRow_facts)
  then show ?case using Cons.IH [OF r(2)] r(3) kv by simp
qed simp

lemma changeBody_good:
  assumes ok: "coordinator_ok K db" and K: "codecs_ok K"
    and b: "changeBody K now p st detail db = Inr (u, db')"
  shows "goodChange K db db' \<and> recordAt K db' = (\<lambda>i. case tget (cd_commands db) i of
      None \<Rightarrow> None
    | Some row \<Rightarrow> if p i row then map_option (changed (k_pb K) now st detail) (recordAt K db i)
                 else recordAt K db i)"
proof -
  note d = coordinator_okD [OF ok]
  obtain rs where rs: "readCommands K db p = Inr rs" and l: "changeLoop K now st detail rs db = Inr db'"
    using b by (auto simp: changeBody_def bindR_eq_Inr)
  have ids: "map idOf rs = map fst (tselect p (cd_commands db))"
    using rs collect_ids by (fastforce simp: readCommands_def split: if_splits)
  have at: "recordAt K db (idOf r) = Some r" if r: "r \<in> set rs" for r
  proof -
    obtain i row where i: "recordAt K db i = Some r" "\<forall>c. rec_command r = Some c \<longrightarrow> c_id c = i"
      using readCommands_mem [OF rs r d(1)] by blast
    from i(1) obtain c where "rec_command r = Some c" "c_id c = i" by (rule recordAt_command)
    then show ?thesis using i(1) by (simp add: idOf_def)
  qed
  have dis: "distinct (map idOf rs)"
    unfolding ids using table_ok_distinct [OF d(1)]
    by (simp add: tselect_def distinct_map_filter)
  have mem: "i \<in> set (map idOf rs) \<longleftrightarrow> (\<exists>row. tget (cd_commands db) i = Some row \<and> p i row)" for i
    by (auto simp: ids tget_mem [OF d(1)] tselect_mem image_iff Bex_def)
  have "recordAt K db' i = (case tget (cd_commands db) i of None \<Rightarrow> None
    | Some row \<Rightarrow> if p i row then map_option (changed (k_pb K) now st detail) (recordAt K db i)
                 else recordAt K db i)" for i
    using changeLoop_good [OF ok K at dis l] mem [of i] recordAt_iff [OF ok, of i]
    by (auto split: option.splits)
  then show ?thesis using changeLoop_good [OF ok K at dis l] by auto
qed


section \<open>Only the command table changes\<close>

definition onlyCommands :: "'b coordinator \<Rightarrow> 'b coordinator \<Rightarrow> bool" where
  "onlyCommands db db' = (cd_bindings db' = cd_bindings db \<and> cd_nodes db' = cd_nodes db \<and>
     cd_projects db' = cd_projects db)"

lemma onlyCommands_refl [simp]: "onlyCommands db db"
  by (simp add: onlyCommands_def)

lemma updateCommand_only: "updateCommand K i st p db = Inr db' \<Longrightarrow> onlyCommands db db'"
  by (auto simp: updateCommand_def onlyCommands_def Let_def split: option.splits if_splits)

lemma updateRecord_only: "updateRecord K i p db = Inr db' \<Longrightarrow> onlyCommands db db'"
  by (auto simp: updateRecord_def split: option.splits dest: updateCommand_only)

lemma transitionCommand_only: "transitionCommand K r st detail now db = Inr (r', db') \<Longrightarrow> onlyCommands db db'"
  by (auto simp: transitionCommand_def Let_def bindR_eq_Inr split: if_splits dest: updateCommand_only)

lemma saveRecord_only: "saveRecord K i r db = Inr (r', db') \<Longrightarrow> onlyCommands db db'"
  by (auto simp: saveRecord_def bindR_eq_Inr dest: updateRecord_only)

lemma createBody_only: "createBody K c stamp db = Inr (x, db') \<Longrightarrow> onlyCommands db db'"
  by (auto simp: createBody_def admitCommand_def insertCommand_def onlyCommands_def Let_def bindR_eq_Inr
      split: sum.splits if_splits)

lemma dispatchBody_only: "dispatchBody K node i now db = Inr (x, db') \<Longrightarrow> onlyCommands db db'"
  by (auto simp: dispatchBody_def bindR_eq_Inr split: if_splits dest: transitionCommand_only)

lemma finishLifecycleRecord_only:
  "finishLifecycleRecord K r c v now db = Inr (x, db') \<Longrightarrow> onlyCommands db db'"
  by (auto simp: finishLifecycleRecord_def Let_def bindR_eq_Inr split: if_splits
      dest: transitionCommand_only saveRecord_only)

lemma finishRecord_only: "finishRecord K r c v now db = Inr (x, db') \<Longrightarrow> onlyCommands db db'"
  by (auto simp: finishRecord_def split: if_splits dest: transitionCommand_only)

lemma finishBody_only:
  assumes "finishBody K node sid v now db = Inr (x, db')"
  shows "onlyCommands db db'"
proof -
  obtain r where b: "(case rec_command r of
         None \<Rightarrow> Inl (Msg ''stored command record is missing its command'')
       | Some c \<Rightarrow>
           if (case stableOf (cd_bindings db) node of None \<Rightarrow> True
               | Some bound \<Rightarrow> bound \<noteq> sid \<or> node \<noteq> c_target c)
           then Inl ErrIdentityConflict
           else bindR (conflictOf (ValidateResultForCommand (k_pb K) (Some v) c)) (\<lambda>_.
             if IsLifecycleCommand (c_type c) then finishLifecycleRecord K r c v now db
             else finishRecord K r c v now db)) = Inr (x, db')"
    using assms unfolding finishBody_def by (auto simp only: bindR_eq_Inr)
  then obtain c where c: "rec_command r = Some c" by (cases "rec_command r") simp_all
  show ?thesis
  proof (cases "IsLifecycleCommand (c_type c)")
    case True
    then show ?thesis using b c finishLifecycleRecord_only by (simp add: bindR_eq_Inr split: if_split_asm) blast
  next
    case False
    then show ?thesis using b c finishRecord_only by (simp add: bindR_eq_Inr split: if_split_asm) blast
  qed
qed

lemma progressBody_only:
  assumes "progressBody K node p db = Inr (x, db')"
  shows "onlyCommands db db'"
proof -
  have "db' = db \<or> (\<exists>r r'. saveRecord K (cp_id p) r db = Inr (r', db'))"
    using assms unfolding progressBody_def
    by (simp only: bindR_eq_Inr split: option.split_asm if_split_asm) (auto simp: bindR_eq_Inr)
  then show ?thesis using saveRecord_only by auto
qed

lemma changeLoop_only: "changeLoop K now st detail rs db = Inr db' \<Longrightarrow> onlyCommands db db'"
proof (induction rs arbitrary: db)
  case (Cons r rs)
  then show ?case
    by (auto simp: bindR_eq_Inr onlyCommands_def split: if_splits dest!: transitionCommand_only)
qed simp

lemma changeBody_only: "changeBody K now p st detail db = Inr (x, db') \<Longrightarrow> onlyCommands db db'"
  by (auto simp: changeBody_def bindR_eq_Inr dest: changeLoop_only)

section \<open>Rejection before dispatch\<close>

definition rejectBody ::
  "'b codecs \<Rightarrow> string \<Rightarrow> string \<Rightarrow> string \<Rightarrow> int \<Rightarrow> ('b coordinator, command_record) body" where
  "rejectBody K nodeID cid detail now db = bindR (readCommand K db (byID cid)) (\<lambda>r.
     if getter c_target (rec_command r) \<noteq> nodeID then Inl ErrIdentityConflict
     else if \<not> authorizationSensitiveCommand (getter c_type (rec_command r)) then Inl ErrCommandConflict
     else if rec_status r \<noteq> ACCEPTED then Inr (r, db)
     else transitionCommand K r REJECTED detail now db)"

lemma RejectCommand_body:
  "RejectCommand E K nodeID cid detail now = operation E
     (if blank nodeID \<or> blank cid \<or> detail \<noteq> ''authorization_changed''
      then Inl (Msg ''invalid pre-dispatch authorization rejection'')
      else bindR (commandTime (k_pb K) now) (\<lambda>_. Inr ())) (rejectBody K nodeID cid detail now)"
  by (simp add: RejectCommand_def rejectBody_def [abs_def])

lemma rejectBody_only: "rejectBody K node i detail now db = Inr (x, db') \<Longrightarrow> onlyCommands db db'"
  by (cases x) (auto simp: rejectBody_def bindR_eq_Inr split: if_splits dest: transitionCommand_only)

lemma rejectBody_good:
  assumes ok: "coordinator_ok K db" and K: "codecs_ok K"
    and b: "rejectBody K node i detail now db = Inr (r', db')"
  obtains r c where "recordAt K db i = Some r" "rec_command r = Some c" "c_target c = node"
    "authorizationSensitiveCommand (c_type c)" "goodChange K db db'"
    "recordAt K db' = (recordAt K db)(i \<mapsto> r')"
    "r' = (if rec_status r \<noteq> ACCEPTED then r else transitioned (k_pb K) r REJECTED detail now)"
proof -
  obtain r where r: "recordAt K db i = Some r" and rd: "readCommand K db (byID i) = Inr r"
    using b readCommand_byID [OF ok, of i] by (auto simp: rejectBody_def bindR_eq_Inr split: option.splits)
  obtain c where c: "rec_command r = Some c" using r by (auto elim!: recordAt_command)
  have t: "c_target c = node" and s: "authorizationSensitiveCommand (c_type c)"
    using b rd c by (auto simp: rejectBody_def split: if_splits)
  show thesis
  proof (cases "rec_status r = ACCEPTED")
    case False
    then have "r' = r" "db' = db" using b rd c t s by (auto simp: rejectBody_def)
    then show thesis using that [OF r c t s] goodChange_refl [OF ok] r False by (simp add: fun_upd_idem)
  next
    case True
    then have tr: "transitionCommand K r REJECTED detail now db = Inr (r', db')"
      using b rd c t s by (simp add: rejectBody_def)
    note g = transition_good [OF ok K r c _ _ _ _ _ tr]
    show thesis using that [OF r c t s] g True by simp
  qed
qed

end
