(* ===== verification/SampleStore.thy ===== *)
theory SampleStore
  imports Database Samples
begin

text \<open>
  Concrete codecs for the stores: the bytes of a message are the message itself, tagged with its type,
  and have the length 64.  They satisfy \<open>codecs_ok\<close>.
\<close>

datatype blob = BRecord command_record | BCommand command | BResult command_result | BReceipt receipt
  | BNode node_view | BProject project_record | BConfig project_config | BAck project_ack

definition taggedCodec :: "('m \<Rightarrow> blob) \<Rightarrow> (blob \<Rightarrow> 'm option) \<Rightarrow> ('m, blob) codec" where
  "taggedCodec tag untag = \<lparr>size_msg = \<lambda>_. 64, marshal = \<lambda>m. Some (tag m), unmarshal = untag, blob_len = \<lambda>_. 64\<rparr>"

lemma taggedCodec_simps [simp]:
  "size_msg (taggedCodec tag untag) m = 64" "marshal (taggedCodec tag untag) m = Some (tag m)"
  "unmarshal (taggedCodec tag untag) b = untag b" "blob_len (taggedCodec tag untag) b = 64"
  by (simp_all add: taggedCodec_def)

definition sampleCodecs :: "blob codecs" where
  "sampleCodecs = \<lparr>k_pb = samplePb,
     k_record = taggedCodec BRecord (\<lambda>b. case b of BRecord m \<Rightarrow> Some m | _ \<Rightarrow> None),
     k_command = taggedCodec BCommand (\<lambda>b. case b of BCommand m \<Rightarrow> Some m | _ \<Rightarrow> None),
     k_result = taggedCodec BResult (\<lambda>b. case b of BResult m \<Rightarrow> Some m | _ \<Rightarrow> None),
     k_receipt = taggedCodec BReceipt (\<lambda>b. case b of BReceipt m \<Rightarrow> Some m | _ \<Rightarrow> None),
     k_node = taggedCodec BNode (\<lambda>b. case b of BNode m \<Rightarrow> Some m | _ \<Rightarrow> None),
     k_project = taggedCodec BProject (\<lambda>b. case b of BProject m \<Rightarrow> Some m | _ \<Rightarrow> None),
     k_config = taggedCodec BConfig (\<lambda>b. case b of BConfig m \<Rightarrow> Some m | _ \<Rightarrow> None),
     k_ack = taggedCodec BAck (\<lambda>b. case b of BAck m \<Rightarrow> Some m | _ \<Rightarrow> None)\<rparr>"

lemma sampleCodecs_pb [simp]: "k_pb sampleCodecs = samplePb"
  by (simp add: sampleCodecs_def)

lemma sampleCodecs_simps [simp]:
  "size_msg (k_record sampleCodecs) mk_record = 64" "marshal (k_record sampleCodecs) mk_record = Some (BRecord mk_record)"
  "unmarshal (k_record sampleCodecs) (BRecord mk_record) = Some mk_record" "blob_len (k_record sampleCodecs) b = 64"
  "size_msg (k_command sampleCodecs) mk_command = 64" "marshal (k_command sampleCodecs) mk_command = Some (BCommand mk_command)"
  "unmarshal (k_command sampleCodecs) (BCommand mk_command) = Some mk_command" "blob_len (k_command sampleCodecs) b = 64"
  "size_msg (k_result sampleCodecs) mk_result = 64" "marshal (k_result sampleCodecs) mk_result = Some (BResult mk_result)"
  "unmarshal (k_result sampleCodecs) (BResult mk_result) = Some mk_result" "blob_len (k_result sampleCodecs) b = 64"
  "size_msg (k_receipt sampleCodecs) mk_receipt = 64" "marshal (k_receipt sampleCodecs) mk_receipt = Some (BReceipt mk_receipt)"
  "unmarshal (k_receipt sampleCodecs) (BReceipt mk_receipt) = Some mk_receipt" "blob_len (k_receipt sampleCodecs) b = 64"
  "size_msg (k_node sampleCodecs) mk_node = 64" "marshal (k_node sampleCodecs) mk_node = Some (BNode mk_node)"
  "unmarshal (k_node sampleCodecs) (BNode mk_node) = Some mk_node" "blob_len (k_node sampleCodecs) b = 64"
  "size_msg (k_project sampleCodecs) mk_project = 64" "marshal (k_project sampleCodecs) mk_project = Some (BProject mk_project)"
  "unmarshal (k_project sampleCodecs) (BProject mk_project) = Some mk_project" "blob_len (k_project sampleCodecs) b = 64"
  "size_msg (k_config sampleCodecs) mk_config = 64" "marshal (k_config sampleCodecs) mk_config = Some (BConfig mk_config)"
  "unmarshal (k_config sampleCodecs) (BConfig mk_config) = Some mk_config" "blob_len (k_config sampleCodecs) b = 64"
  "size_msg (k_ack sampleCodecs) mk_ack = 64" "marshal (k_ack sampleCodecs) mk_ack = Some (BAck mk_ack)"
  "unmarshal (k_ack sampleCodecs) (BAck mk_ack) = Some mk_ack" "blob_len (k_ack sampleCodecs) b = 64"
  by (simp_all add: sampleCodecs_def)

lemma sampleCodecs_ok: "codecs_ok sampleCodecs"
  by (simp add: codecs_ok_def codec_ok_def samplePb_ok sampleCodecs_def)

definition emptyCoordinator :: "'b coordinator" where
  "emptyCoordinator = \<lparr>cd_bindings = [], cd_nodes = [], cd_commands = [], cd_projects = []\<rparr>"

text \<open>A coordinator that knows one node.\<close>

definition oneNode :: "blob coordinator" where
  "oneNode = emptyCoordinator\<lparr>cd_bindings := [(''n1'', ''node-1'')]\<rparr>"

lemma oneNode_bound [simp]: "stableOf (cd_bindings oneNode) ''node-1'' = Some ''n1''"
  by (simp add: oneNode_def emptyCoordinator_def stableOf_def tselect_def)

definition sampleNode :: node_view where
  "sampleNode = \<lparr>nv_instance = ''node-1'', nv_stable = ''n1'', nv_connected = True,
     nv_last_seen = Some (at_second 1), nv_herdr = None, nv_stale = False, nv_herdr_received = None,
     nv_command_ready = True, nv_workspace_ready = False, nv_worktree_ready = False,
     nv_agent_ready = False, nv_sessions = [], nv_sessions_ready = False, nv_sessions_received = None,
     nv_sessions_error = '''', nv_hostname = '''', nv_unk = []\<rparr>"

end
