(* ===== verification/ProjectStore.thy ===== *)
theory ProjectStore
  imports SampleStore ProtoAgents
begin

text \<open>
  The coordinator's project registry (projects.go of the state package): desired configurations with
  their generations, the nodes' acknowledgements, and the one-time adoption of local offers.
\<close>

section \<open>Configurations and acknowledgements\<close>

definition maxProjectsPerNode :: nat where "maxProjectsPerNode = 128"
definition maxProjects :: nat where "maxProjects = 16384"
definition maxProjectBytes :: nat where "maxProjectBytes = 32768"

definition validProjectPath :: "string \<Rightarrow> bool \<Rightarrow> bool" where
  "validProjectPath path optional =
     ((optional \<or> \<not> blank path) \<and> length path \<le> 4096 \<and> valid_utf8 path \<and> \<not> has_control path)"

definition validateProjectConfig :: "project_config option \<Rightarrow> unit res" where
  "validateProjectConfig config = (case config of
     None \<Rightarrow> Inl (Msg ''invalid project configuration'')
   | Some c \<Rightarrow>
       if \<not> ValidIdempotencyKey (pc_node c) \<or> \<not> ValidIdempotencyKey (pc_project c) \<or> pc_generation c = 0 \<or>
          \<not> validProjectPath (pc_checkout c) False \<or> \<not> validProjectPath (pc_root c) True \<or>
          config_unknown c
       then Inl (Msg ''invalid project configuration'') else Inr ())"

definition projectOffer :: "register_project option \<Rightarrow> project_config res" where
  "projectOffer request = (case request of
     None \<Rightarrow> Inl (Msg ''invalid project registration'')
   | Some r \<Rightarrow>
       if registration_unknown r then Inl (Msg ''invalid project registration'')
       else let c = \<lparr>pc_node = rp_node r, pc_project = rp_project r, pc_generation = 1,
                     pc_checkout = rp_checkout r, pc_root = rp_root r, pc_unk = []\<rparr>
            in bindR (validateProjectConfig (Some c)) (\<lambda>_. Inr c))"

definition validateProjectAck :: "project_ack option \<Rightarrow> unit res" where
  "validateProjectAck ack = (case ack of
     None \<Rightarrow> Inl (Msg ''invalid project acknowledgement'')
   | Some a \<Rightarrow>
       if \<not> ValidIdempotencyKey (pa_project a) \<or> pa_generation a = 0 \<or>
          \<not> validProjectPath (pa_checkout a) (pa_status a = ''invalid'') \<or>
          \<not> validProjectPath (pa_root a) True \<or> ack_unknown a
       then Inl (Msg ''invalid project acknowledgement'')
       else if pa_status a = ''applied'' \<and> pa_error a = '''' \<or>
               pa_status a = ''invalid'' \<and> ValidIdempotencyKey (pa_error a)
       then Inr ()
       else Inl (Msg ''invalid project acknowledgement status or error category''))"

section \<open>Stored payloads\<close>

definition marshalProject :: "('m \<Rightarrow> bool) \<Rightarrow> ('m, 'b) codec \<Rightarrow> 'm \<Rightarrow> 'b res" where
  "marshalProject unknown C m =
     (if maxProjectBytes < size_msg C m \<or> unknown m
      then Inl (Msg ''project payload exceeds bounds or has unknown fields'')
      else case marshal C m of
        None \<Rightarrow> Inl (Msg ''proto: invalid UTF-8'')
      | Some b \<Rightarrow> Inr b)"

definition decodeProject :: "('m \<Rightarrow> bool) \<Rightarrow> ('m, 'b) codec \<Rightarrow> 'b \<Rightarrow> 'm res" where
  "decodeProject unknown C b =
     (if blob_len C b = 0 \<or> maxProjectBytes < blob_len C b
      then Inl (Msg ''stored project payload exceeds bounds'')
      else case unmarshal C b of
        None \<Rightarrow> Inl (Wrap ''decode stored project'' (Msg ''proto: cannot parse''))
      | Some m \<Rightarrow> if unknown m then Inl (Msg ''stored project has unknown fields'') else Inr m)"

text \<open>The \<open>CHECK\<close> on every payload column of the project tables.\<close>

definition projectBlobOk :: "('m, 'b) codec \<Rightarrow> 'b \<Rightarrow> bool" where
  "projectBlobOk C b = (1 \<le> blob_len C b \<and> blob_len C b \<le> 32768)"

lemma marshalProject_decode:
  assumes "codec_ok C" and "marshalProject unknown C m = Inr b" and "projectBlobOk C b"
  shows "decodeProject unknown C b = Inr m"
  using assms unfolding codec_ok_def projectBlobOk_def
  by (auto simp: marshalProject_def decodeProject_def maxProjectBytes_def split: if_splits option.splits)

section \<open>Records\<close>

definition readinessOf :: "project_config \<Rightarrow> project_ack option \<Rightarrow> string" where
  "readinessOf desired applied = (case applied of
     None \<Rightarrow> ''pending''
   | Some a \<Rightarrow> if pa_generation a = pc_generation desired then pa_status a else ''pending'')"

definition validateProjectRecord :: "project_record \<Rightarrow> unit res" where
  "validateProjectRecord r =
     bindR (validateProjectConfig (prj_desired r)) (\<lambda>_. case prj_desired r of
         None \<Rightarrow> Inl (Msg ''invalid project configuration'')
       | Some d \<Rightarrow>
           if prj_adoption r \<noteq> '''' \<and> prj_adoption r \<noteq> ''adopted'' \<and> prj_adoption r \<noteq> ''conflict''
           then Inl (Msg ''stored project has invalid adoption marker'')
           else bindR (case prj_applied r of
               None \<Rightarrow> Inr ()
             | Some a \<Rightarrow> bindR (validateProjectAck (Some a)) (\<lambda>_.
                 if pa_project a \<noteq> pc_project d \<or> pa_generation a > pc_generation d
                 then Inl (Msg ''stored project acknowledgement disagrees with desired revision'')
                 else Inr ())) (\<lambda>_.
             if prj_readiness r \<noteq> readinessOf d (prj_applied r)
             then Inl (Msg ''stored project readiness disagrees with acknowledgement'') else Inr ()))"

definition decodeProjectRow :: "'b codecs \<Rightarrow> (string \<times> string) \<times> 'b \<Rightarrow> project_record res" where
  "decodeProjectRow K kp = (case kp of ((node, project), payload) \<Rightarrow>
     bindR (decodeProject project_record_unknown (k_project K) payload) (\<lambda>r.
       bindR (validateProjectRecord r) (\<lambda>_.
         if opt_all (\<lambda>d. node \<noteq> pc_node d \<or> project \<noteq> pc_project d) (prj_desired r)
         then Inl (Msg ''stored project identity or count is invalid'') else Inr r)))"

text \<open>The loop of \<open>readProjects\<close>, with the number of rows seen per node.\<close>

fun projectLoop ::
  "'b codecs \<Rightarrow> (string \<Rightarrow> nat) \<Rightarrow> ((string \<times> string) \<times> 'b) list \<Rightarrow> project_record list res" where
  "projectLoop K counts [] = Inr []"
| "projectLoop K counts (kp # rows) =
     bindR (decodeProjectRow K kp) (\<lambda>r.
       let node = fst (fst kp) in
       if maxProjectsPerNode < Suc (counts node)
       then Inl (Msg ''stored project identity or count is invalid'')
       else bindR (projectLoop K (counts(node := Suc (counts node))) rows) (\<lambda>rs. Inr (r # rs)))"

definition projectsOf :: "string \<Rightarrow> (string \<times> string, 'b) table \<Rightarrow> ((string \<times> string) \<times> 'b) list" where
  "projectsOf node t = tselect (\<lambda>k b. fst k = node) t"

definition readProjects ::
  "'b codecs \<Rightarrow> 'b coordinator \<Rightarrow> string \<Rightarrow> string \<Rightarrow> project_record list res" where
  "readProjects K db node project =
     (if maxProjects < length (cd_projects db)
      then Inl (Msg ''stored fleet project count exceeds limit'')
      else if node \<noteq> '''' \<and> maxProjectsPerNode < length (projectsOf node (cd_projects db))
      then Inl (Msg ''stored node project count exceeds limit'')
      else projectLoop K (\<lambda>_. 0)
        (tselect (\<lambda>k b. (node = '''' \<or> fst k = node) \<and> (project = '''' \<or> snd k = project)) (cd_projects db)))"

definition readProject ::
  "'b codecs \<Rightarrow> 'b coordinator \<Rightarrow> string \<Rightarrow> string \<Rightarrow> project_record res" where
  "readProject K db node project = bindR (readProjects K db node project) (\<lambda>rs. case rs of
       [] \<Rightarrow> Inl ErrProjectNotFound
     | r # _ \<Rightarrow> Inr r)"

definition desiredKey :: "project_record \<Rightarrow> string \<times> string" where
  "desiredKey r = (getter pc_node (prj_desired r), getter pc_project (prj_desired r))"

definition writeProject :: "'b codecs \<Rightarrow> project_record \<Rightarrow> 'b coordinator \<Rightarrow> 'b coordinator res" where
  "writeProject K r db =
     bindR (validateProjectRecord r) (\<lambda>_.
       bindR (marshalProject project_record_unknown (k_project K) r) (\<lambda>payload.
         if \<not> projectBlobOk (k_project K) payload then Inl sqliteCheck
         else Inr (db\<lparr>cd_projects := tput (desiredKey r) payload (cd_projects db)\<rparr>)))"

definition newProject :: "'b coordinator \<Rightarrow> project_config \<Rightarrow> project_record res" where
  "newProject db config =
     (if maxProjects \<le> length (cd_projects db) \<or>
         maxProjectsPerNode \<le> length (projectsOf (pc_node config) (cd_projects db))
      then Inl ErrProjectCapacity
      else Inr \<lparr>prj_desired = Some config, prj_applied = None, prj_readiness = ''pending'',
                prj_adoption = '''', prj_unk = []\<rparr>)"

definition sameProjectPaths :: "project_config \<Rightarrow> project_config \<Rightarrow> bool" where
  "sameProjectPaths a b = (pc_checkout a = pc_checkout b \<and> pc_root a = pc_root b)"

section \<open>Operations\<close>

definition upsertBody :: "'b codecs \<Rightarrow> project_config \<Rightarrow> ('b coordinator, project_record) body" where
  "upsertBody K config db = (case readProject K db (pc_node config) (pc_project config) of
     Inl e \<Rightarrow>
       if errors_is e ErrProjectNotFound
       then bindR (newProject db config) (\<lambda>r. bindR (writeProject K r db) (\<lambda>db'. Inr (r, db')))
       else Inl e
   | Inr r \<Rightarrow> (case prj_desired r of
       None \<Rightarrow> Inl (Msg ''invalid project configuration'')
     | Some d \<Rightarrow>
         if sameProjectPaths d config then Inr (r, db)
         else if pc_generation d = - 1 then Inl ErrProjectConflict
         else let r = r\<lparr>prj_desired := Some (config\<lparr>pc_generation := pc_generation d + 1\<rparr>),
                        prj_readiness := ''pending''\<rparr>
              in bindR (writeProject K r db) (\<lambda>db'. Inr (r, db'))))"

definition UpsertProject ::
  "tx_env \<Rightarrow> 'b codecs \<Rightarrow> register_project option \<Rightarrow> 'b coordinator \<Rightarrow> project_record res \<times> 'b coordinator" where
  "UpsertProject E K request db = (case bindR (enter E) (\<lambda>_. projectOffer request) of
     Inl e \<Rightarrow> (Inl e, db)
   | Inr config \<Rightarrow> transaction E (upsertBody K config) db)"

definition GetProject ::
  "tx_env \<Rightarrow> 'b codecs \<Rightarrow> string \<Rightarrow> string \<Rightarrow> 'b coordinator \<Rightarrow> project_record res \<times> 'b coordinator" where
  "GetProject E K node project = operation E
     (if \<not> ValidIdempotencyKey node \<or> \<not> ValidIdempotencyKey project then Inl (Msg ''invalid project identity'') else Inr ())
     (\<lambda>db. bindR (readProject K db node project) (\<lambda>r. Inr (r, db)))"

definition ListProjects ::
  "tx_env \<Rightarrow> 'b codecs \<Rightarrow> string \<Rightarrow> 'b coordinator \<Rightarrow> project_record list res \<times> 'b coordinator" where
  "ListProjects E K node = operation E
     (if node \<noteq> '''' \<and> \<not> ValidIdempotencyKey node then Inl (Msg ''invalid node identity'') else Inr ())
     (\<lambda>db. bindR (readProjects K db node '''') (\<lambda>rs. Inr (rs, db)))"

definition projectAckConflict :: "project_ack option \<Rightarrow> project_ack \<Rightarrow> bool" where
  "projectAckConflict previous next = opt_ex (\<lambda>p.
     pa_generation p = pa_generation next \<and> pa_status p = ''applied'' \<and>
     pa_status next = ''applied'' \<and> p \<noteq> next) previous"

definition ackBody :: "'b codecs \<Rightarrow> string \<Rightarrow> project_ack \<Rightarrow> ('b coordinator, project_record) body" where
  "ackBody K node ack db = bindR (readProject K db node (pa_project ack)) (\<lambda>r. case prj_desired r of
       None \<Rightarrow> Inl (Msg ''invalid project configuration'')
     | Some d \<Rightarrow>
         if pa_generation ack > pc_generation d then Inl ErrProjectConflict
         else if pa_generation ack < pc_generation d then Inr (r, db)
         else if projectAckConflict (prj_applied r) ack then Inl ErrProjectConflict
         else let r = r\<lparr>prj_applied := Some ack, prj_readiness := pa_status ack\<rparr>
              in bindR (writeProject K r db) (\<lambda>db'. Inr (r, db')))"

definition AckProject ::
  "tx_env \<Rightarrow> 'b codecs \<Rightarrow> string \<Rightarrow> project_ack option \<Rightarrow> 'b coordinator \<Rightarrow> project_record res \<times> 'b coordinator" where
  "AckProject E K node ack = operation E
     (if \<not> ValidIdempotencyKey node then Inl (Msg ''invalid node identity'') else validateProjectAck ack)
     (\<lambda>db. case ack of None \<Rightarrow> Inl (Msg ''invalid project acknowledgement'') | Some a \<Rightarrow> ackBody K node a db)"

text \<open>The offers of one node: each valid, for this node, and no project twice (\<open>seen\<close>).\<close>

fun offeredConfigs :: "string \<Rightarrow> string list \<Rightarrow> register_project option list \<Rightarrow> project_config list res" where
  "offeredConfigs node seen [] = Inr []"
| "offeredConfigs node seen (offer # offers) =
     bindR (projectOffer offer) (\<lambda>c.
       if pc_node c \<noteq> node \<or> pc_project c \<in> set seen then Inl ErrProjectConflict
       else bindR (offeredConfigs node (pc_project c # seen) offers) (\<lambda>cs. Inr (c # cs)))"

definition adoptOne ::
  "'b codecs \<Rightarrow> string \<Rightarrow> project_config \<Rightarrow> 'b coordinator \<Rightarrow> (project_record \<times> 'b coordinator) res" where
  "adoptOne K node config db =
     bindR (case readProject K db node (pc_project config) of
              Inl e \<Rightarrow> if errors_is e ErrProjectNotFound then newProject db config else Inl e
            | Inr r \<Rightarrow> Inr r) (\<lambda>r.
       if prj_adoption r \<noteq> '''' then Inr (r, db)
       else let r = r\<lparr>prj_adoption := (if opt_ex (\<lambda>d. sameProjectPaths d config) (prj_desired r)
                        then ''adopted'' else ''conflict'')\<rparr>
            in bindR (writeProject K r db) (\<lambda>db'. Inr (r, db')))"

fun adoptLoop ::
  "'b codecs \<Rightarrow> string \<Rightarrow> project_config list \<Rightarrow> 'b coordinator \<Rightarrow> (project_record list \<times> 'b coordinator) res" where
  "adoptLoop K node [] db = Inr ([], db)"
| "adoptLoop K node (c # cs) db =
     bindR (adoptOne K node c db) (\<lambda>(r, db1).
       bindR (adoptLoop K node cs db1) (\<lambda>(rs, db2). Inr (r # rs, db2)))"

definition AdoptProjects ::
  "tx_env \<Rightarrow> 'b codecs \<Rightarrow> string \<Rightarrow> register_project option list \<Rightarrow> 'b coordinator \<Rightarrow>
   project_record list res \<times> 'b coordinator" where
  "AdoptProjects E K node offers db = (case bindR (enter E) (\<lambda>_.
       if \<not> ValidIdempotencyKey node then Inl (Msg ''invalid node identity'')
       else if maxProjectsPerNode < length offers then Inl ErrProjectCapacity
       else offeredConfigs node [] offers) of
     Inl e \<Rightarrow> (Inl e, db)
   | Inr configs \<Rightarrow> transaction E (adoptLoop K node configs) db)"

section \<open>The registry and its invariant\<close>

definition projectAt :: "'b codecs \<Rightarrow> 'b coordinator \<Rightarrow> string \<times> string \<Rightarrow> project_record option" where
  "projectAt K db k = (case tget (cd_projects db) k of
     None \<Rightarrow> None
   | Some b \<Rightarrow> (case decodeProjectRow K (k, b) of Inl e \<Rightarrow> None | Inr r \<Rightarrow> Some r))"

definition projects_ok :: "'b codecs \<Rightarrow> 'b coordinator \<Rightarrow> bool" where
  "projects_ok K db = (table_ok (cd_projects db) \<and> length (cd_projects db) \<le> maxProjects \<and>
     (\<forall>n. length (projectsOf n (cd_projects db)) \<le> maxProjectsPerNode) \<and>
     (\<forall>k b. tget (cd_projects db) k = Some b \<longrightarrow> (\<exists>r. decodeProjectRow K (k, b) = Inr r)))"

lemma projects_okD:
  assumes "projects_ok K db"
  shows "table_ok (cd_projects db)" "length (cd_projects db) \<le> maxProjects"
    "length (projectsOf n (cd_projects db)) \<le> maxProjectsPerNode"
    "tget (cd_projects db) k = Some b \<Longrightarrow> \<exists>r. decodeProjectRow K (k, b) = Inr r"
  using assms unfolding projects_ok_def by blast+

lemma decodeProjectRow_facts:
  assumes "decodeProjectRow K (k, b) = Inr r"
  obtains d where "prj_desired r = Some d" "k = (pc_node d, pc_project d)" "validateProjectRecord r = Inr ()"
  using assms unfolding decodeProjectRow_def
  by (cases k; cases "prj_desired r") (auto simp: bindR_eq_Inr split: if_splits)

lemma projectAt_facts:
  assumes "projectAt K db k = Some r"
  obtains d where "prj_desired r = Some d" "k = (pc_node d, pc_project d)" "validateProjectRecord r = Inr ()"
  using assms by (auto simp: projectAt_def split: option.splits sum.splits elim!: decodeProjectRow_facts)

lemma projectAt_None: "projects_ok K db \<Longrightarrow> projectAt K db k = None \<longleftrightarrow> tget (cd_projects db) k = None"
  using projects_okD(4) by (fastforce simp: projectAt_def split: option.splits sum.splits)

lemma readProject_ok:
  assumes ok: "projects_ok K db" and ne: "node \<noteq> ''''" "project \<noteq> ''''"
  shows "readProject K db node project =
    (case projectAt K db (node, project) of None \<Rightarrow> Inl ErrProjectNotFound | Some r \<Rightarrow> Inr r)"
proof -
  note d = projects_okD [OF ok]
  have "tselect (\<lambda>k b. (node = '''' \<or> fst k = node) \<and> (project = '''' \<or> snd k = project)) (cd_projects db) =
      tselect (\<lambda>k b. k = (node, project) \<and> True) (cd_projects db)"
    using ne unfolding tselect_def by (intro filter_cong) auto
  also have "\<dots> = (case tget (cd_projects db) (node, project) of None \<Rightarrow> [] | Some b \<Rightarrow> [((node, project), b)])"
    unfolding tselect_key [OF d(1)] by (simp split: option.splits)
  finally have s: "tselect (\<lambda>k b. (node = '''' \<or> fst k = node) \<and> (project = '''' \<or> snd k = project)) (cd_projects db) = \<dots>" .
  have loop: "readProjects K db node project = projectLoop K (\<lambda>_. 0)
      (case tget (cd_projects db) (node, project) of None \<Rightarrow> [] | Some b \<Rightarrow> [((node, project), b)])"
    using d(2) d(3) [of node] unfolding readProjects_def s by (simp add: not_less)
  show ?thesis
  proof (cases "tget (cd_projects db) (node, project)")
    case None
    then show ?thesis by (simp add: readProject_def loop projectAt_def)
  next
    case (Some b)
    obtain r where "decodeProjectRow K ((node, project), b) = Inr r" using d(4) [OF Some] by blast
    then show ?thesis using Some
      by (simp add: readProject_def loop projectAt_def maxProjectsPerNode_def)
  qed
qed

lemma length_tselect_keys:
  assumes "table_ok t"
  shows "length (tselect (\<lambda>k b. q k) t) = card {k. tget t k \<noteq> None \<and> q k}"
proof -
  have "length (tselect (\<lambda>k b. q k) t) = card (set (map fst (tselect (\<lambda>k b. q k) t)))"
    using distinct_card [of "map fst (tselect (\<lambda>k b. q k) t)"] table_ok_distinct [OF assms]
    by (simp add: tselect_def distinct_map_filter)
  moreover have "set (map fst (tselect (\<lambda>k b. q k) t)) = {k. tget t k \<noteq> None \<and> q k}"
    by (auto simp: tselect_mem tget_mem [OF assms] image_iff Bex_def)
  ultimately show ?thesis by simp
qed

lemma finite_keys: "finite {k. tget t k \<noteq> None \<and> q k}"
  by (rule finite_subset [of _ "fst ` set t"]) (auto simp: tget_def dest: map_of_SomeD intro!: rev_image_eqI)

lemma projectsOf_tput:
  assumes "table_ok t"
  shows "length (projectsOf n (tput k b t)) =
    (if tget t k = None \<and> fst k = n then Suc (length (projectsOf n t)) else length (projectsOf n t))"
proof -
  have t': "table_ok (tput k b t)" by (rule table_ok_tput [OF assms])
  have "{j. tget (tput k b t) j \<noteq> None \<and> fst j = n} =
      (if fst k = n then insert k {j. tget t j \<noteq> None \<and> fst j = n} else {j. tget t j \<noteq> None \<and> fst j = n})"
    by (auto simp: tget_tput)
  then show ?thesis
    unfolding projectsOf_def length_tselect_keys [OF t'] length_tselect_keys [OF assms]
    using card_insert_if [OF finite_keys [of t "\<lambda>j. fst j = n"], of k] by auto
qed

lemma writeProject_ok:
  assumes ok: "projects_ok K db" and K: "codecs_ok K" and w: "writeProject K r db = Inr db'"
    and d: "prj_desired r = Some d"
    and room: "tget (cd_projects db) (pc_node d, pc_project d) = None \<Longrightarrow>
      length (cd_projects db) < maxProjects \<and> length (projectsOf (pc_node d) (cd_projects db)) < maxProjectsPerNode"
  shows "projects_ok K db' \<and> projectAt K db' = (projectAt K db)((pc_node d, pc_project d) \<mapsto> r) \<and>
    cd_bindings db' = cd_bindings db \<and> cd_nodes db' = cd_nodes db \<and> cd_commands db' = cd_commands db"
proof -
  note o = projects_okD [OF ok]
  let ?k = "(pc_node d, pc_project d)"
  obtain p where v: "validateProjectRecord r = Inr ()"
    and m: "marshalProject project_record_unknown (k_project K) r = Inr p" and b: "projectBlobOk (k_project K) p"
    and db': "db' = db\<lparr>cd_projects := tput ?k p (cd_projects db)\<rparr>"
    using w d unfolding writeProject_def desiredKey_def by (auto simp: bindR_eq_Inr split: if_splits)
  have dec: "decodeProjectRow K (?k, p) = Inr r"
    using marshalProject_decode [OF _ m b] K v d by (simp add: decodeProjectRow_def codecs_ok_def)
  have rows: "\<exists>x. decodeProjectRow K (k, q) = Inr x" if "tget (cd_projects db') k = Some q" for k q
    using that o(4) dec by (auto simp: db' tget_tput split: if_splits)
  have cnt: "length (projectsOf n (cd_projects db')) \<le> maxProjectsPerNode" for n
    using o(3) [of n] room by (auto simp: db' projectsOf_tput [OF o(1)])
  have len: "length (cd_projects db') \<le> maxProjects"
    using o(2) room by (auto simp: db' length_tput [OF o(1)])
  have "projects_ok K db'" unfolding projects_ok_def using rows cnt len o(1) by (simp add: db' table_ok_tput)
  moreover have "projectAt K db' = (projectAt K db)(?k \<mapsto> r)"
    unfolding projectAt_def db' by (rule ext) (simp add: tget_tput dec split: option.splits)
  ultimately show ?thesis by (simp add: db')
qed

section \<open>How a registration may change\<close>

text \<open>
  The generation of the desired configuration only grows, a generation names one configuration for
  ever, the acknowledged generation never goes back, and an adoption decision is final.
\<close>

definition projectStep :: "project_record \<Rightarrow> project_record \<Rightarrow> bool" where
  "projectStep a b = (case (prj_desired a, prj_desired b) of
     (Some d, Some e) \<Rightarrow> pc_node e = pc_node d \<and> pc_project e = pc_project d \<and>
       pc_generation d \<le> pc_generation e \<and> (pc_generation e = pc_generation d \<longrightarrow> e = d) \<and>
       (prj_adoption a \<noteq> '''' \<longrightarrow> prj_adoption b = prj_adoption a) \<and>
       (case prj_applied a of None \<Rightarrow> True
        | Some x \<Rightarrow> opt_ex (\<lambda>y. pa_generation x \<le> pa_generation y) (prj_applied b))
   | _ \<Rightarrow> False)"

lemma projectStep_refl: "prj_desired a = Some d \<Longrightarrow> projectStep a a"
  by (simp add: projectStep_def split: option.splits)

lemma projectStep_trans:
  assumes "projectStep a b" and "projectStep b c"
  shows "projectStep a c"
proof -
  obtain d e f where d: "prj_desired a = Some d" "prj_desired b = Some e" "prj_desired c = Some f"
    using assms by (auto simp: projectStep_def split: option.splits)
  have g: "pc_generation d \<le> pc_generation e" "pc_generation e \<le> pc_generation f"
    using assms d by (auto simp: projectStep_def)
  have "pc_generation f = pc_generation d \<Longrightarrow> f = d"
    using assms d g by (auto simp: projectStep_def)
  moreover have "case prj_applied a of None \<Rightarrow> True
      | Some x \<Rightarrow> opt_ex (\<lambda>y. pa_generation x \<le> pa_generation y) (prj_applied c)"
    using assms d by (fastforce simp: projectStep_def opt_ex_def split: option.splits)
  moreover have "prj_adoption a \<noteq> '''' \<longrightarrow> prj_adoption c = prj_adoption a"
    using assms d by (auto simp: projectStep_def)
  ultimately show ?thesis using assms d g by (simp add: projectStep_def)
qed

definition registryStep :: "'b codecs \<Rightarrow> 'b coordinator \<Rightarrow> 'b coordinator \<Rightarrow> bool" where
  "registryStep K db db' = (projects_ok K db' \<and>
     (\<forall>k a. projectAt K db k = Some a \<longrightarrow> (\<exists>b. projectAt K db' k = Some b \<and> projectStep a b)) \<and>
     cd_bindings db' = cd_bindings db \<and> cd_nodes db' = cd_nodes db \<and> cd_commands db' = cd_commands db)"

lemma registryStep_refl: "projects_ok K db \<Longrightarrow> registryStep K db db"
  unfolding registryStep_def using projectStep_refl by (blast elim: projectAt_facts)

lemma registryStep_trans: "registryStep K a b \<Longrightarrow> registryStep K b c \<Longrightarrow> registryStep K a c"
  unfolding registryStep_def by (metis projectStep_trans)

lemma validateProjectConfig_tokens:
  "validateProjectConfig (Some c) = Inr () \<Longrightarrow>
     pc_node c \<noteq> '''' \<and> pc_project c \<noteq> '''' \<and> pc_generation c \<noteq> 0"
  by (auto simp: validateProjectConfig_def ValidIdempotencyKey_def dest: commandToken_nonempty split: if_splits)

lemma projectOffer_facts:
  "projectOffer request = Inr c \<Longrightarrow> validateProjectConfig (Some c) = Inr () \<and> pc_generation c = 1 \<and>
     (\<exists>q. request = Some q \<and> pc_node c = rp_node q \<and> pc_project c = rp_project q \<and>
        pc_checkout c = rp_checkout q \<and> pc_root c = rp_root q)"
  by (cases request) (auto simp: projectOffer_def Let_def bindR_eq_Inr split: if_splits)

lemma validateProjectRecord_facts:
  assumes "validateProjectRecord r = Inr ()" and "prj_desired r = Some d"
  shows "validateProjectConfig (Some d) = Inr ()" "prj_readiness r = readinessOf d (prj_applied r)"
    "prj_applied r = Some a \<Longrightarrow> pa_generation a \<le> pc_generation d \<and> validateProjectAck (Some a) = Inr ()"
  using assms by (auto simp: validateProjectRecord_def bindR_eq_Inr not_less split: if_splits)

lemma newProject_facts:
  "newProject db config = Inr r \<Longrightarrow> length (cd_projects db) < maxProjects \<and>
     length (projectsOf (pc_node config) (cd_projects db)) < maxProjectsPerNode \<and>
     r = \<lparr>prj_desired = Some config, prj_applied = None, prj_readiness = ''pending'',
          prj_adoption = '''', prj_unk = []\<rparr>"
  by (auto simp: newProject_def not_le split: if_splits)

lemma word_less_succ:
  fixes x :: "64 word"
  assumes "x \<noteq> - 1"
  shows "x < x + 1"
proof -
  have "unat x \<noteq> unat (- 1 :: 64 word)" using assms word_unat_eq_iff [of x "- 1"] by blast
  moreover have "unat (- 1 :: 64 word) = 2 ^ 64 - 1" by (simp add: unsigned_minus_1_eq_mask mask_eq_exp_minus_1)
  moreover have "unat x < 2 ^ 64" by (rule order.strict_trans2 [OF unsigned_less]) simp
  ultimately have "unat x + 1 < 2 ^ 64" by linarith
  then show ?thesis by (simp add: word_less_nat_alt unat_word_ariths)
qed

text \<open>Writing a new registration, or a permitted successor of the present one.\<close>

lemma write_step:
  assumes ok: "projects_ok K db" and K: "codecs_ok K" and w: "writeProject K r db = Inr db'"
    and d: "prj_desired r = Some d"
    and old: "(case projectAt K db (pc_node d, pc_project d) of
        None \<Rightarrow> length (cd_projects db) < maxProjects \<and>
          length (projectsOf (pc_node d) (cd_projects db)) < maxProjectsPerNode
      | Some a \<Rightarrow> projectStep a r)"
  shows "registryStep K db db' \<and> projectAt K db' = (projectAt K db)((pc_node d, pc_project d) \<mapsto> r)"
proof -
  have n: "tget (cd_projects db) (pc_node d, pc_project d) = None \<Longrightarrow>
      length (cd_projects db) < maxProjects \<and> length (projectsOf (pc_node d) (cd_projects db)) < maxProjectsPerNode"
    using old projectAt_None [OF ok] by (metis option.simps(4))
  note f = writeProject_ok [OF ok K w d n]
  have "\<exists>b. projectAt K db' k = Some b \<and> projectStep a b" if a: "projectAt K db k = Some a" for k a
  proof (cases "k = (pc_node d, pc_project d)")
    case True
    then show ?thesis using f old a by simp
  next
    case False
    obtain e where "prj_desired a = Some e" using a by (rule projectAt_facts)
    then show ?thesis using f a False projectStep_refl by auto
  qed
  then show ?thesis using f unfolding registryStep_def by blast
qed

lemma upsertBody_step:
  assumes ok: "projects_ok K db" and K: "codecs_ok K" and c: "validateProjectConfig (Some c) = Inr ()"
    and b: "upsertBody K c db = Inr (r, db')"
  shows "registryStep K db db' \<and> (case projectAt K db (pc_node c, pc_project c) of
      None \<Rightarrow> prj_desired r = Some c \<and> prj_readiness r = ''pending'' \<and> prj_applied r = None
    | Some a \<Rightarrow> (\<exists>d. prj_desired a = Some d \<and>
        (if sameProjectPaths d c then r = a \<and> db' = db
         else pc_generation d \<noteq> - 1 \<and> prj_readiness r = ''pending'' \<and> prj_applied r = prj_applied a \<and>
           prj_desired r = Some (c\<lparr>pc_generation := pc_generation d + 1\<rparr>)))) \<and>
    projectAt K db' (pc_node c, pc_project c) = Some r"
proof -
  note t = validateProjectConfig_tokens [OF c]
  note rd = readProject_ok [OF ok, of "pc_node c" "pc_project c"]
  show ?thesis
  proof (cases "projectAt K db (pc_node c, pc_project c)")
    case None
    obtain r0 where n: "newProject db c = Inr r0" and w: "writeProject K r0 db = Inr db'" and r: "r = r0"
      using b rd t None by (auto simp: upsertBody_def bindR_eq_Inr)
    note nf = newProject_facts [OF n]
    have "prj_desired r0 = Some c" using nf by simp
    from write_step [OF ok K w this] nf None r show ?thesis by simp
  next
    case (Some a)
    obtain d where d: "prj_desired a = Some d" "(pc_node c, pc_project c) = (pc_node d, pc_project d)"
      "validateProjectRecord a = Inr ()"
      using Some by (rule projectAt_facts)
    show ?thesis
    proof (cases "sameProjectPaths d c")
      case True
      then have "r = a" "db' = db" using b rd t Some d by (auto simp: upsertBody_def)
      then show ?thesis using registryStep_refl [OF ok] Some d True by simp
    next
      case False
      let ?c = "c\<lparr>pc_generation := pc_generation d + 1\<rparr>"
      let ?r = "a\<lparr>prj_desired := Some ?c, prj_readiness := ''pending''\<rparr>"
      have m: "pc_generation d \<noteq> - 1" and w: "writeProject K ?r db = Inr db'" and r: "r = ?r"
        using b rd t Some d False by (auto simp: upsertBody_def Let_def bindR_eq_Inr split: if_splits)
      have lt: "pc_generation d < pc_generation d + 1"
        by (rule word_less_succ [OF m])
      have "projectStep a ?r"
        using d lt less_imp_le [OF lt] by (auto simp: projectStep_def split: option.splits)
      then show ?thesis
        using write_step [OF ok K w, of ?c] Some d False m r by simp
    qed
  qed
qed

lemma ackBody_step:
  assumes ok: "projects_ok K db" and K: "codecs_ok K" and n: "node \<noteq> ''''" "pa_project ack \<noteq> ''''"
    and b: "ackBody K node ack db = Inr (r, db')"
  obtains a d where "projectAt K db (node, pa_project ack) = Some a" "prj_desired a = Some d"
    "registryStep K db db'" "projectAt K db' (node, pa_project ack) = Some r"
    "pa_generation ack \<le> pc_generation d"
    "if pa_generation ack < pc_generation d then r = a \<and> db' = db
     else r = a\<lparr>prj_applied := Some ack, prj_readiness := pa_status ack\<rparr> \<and>
       \<not> projectAckConflict (prj_applied a) ack"
proof -
  note rd = readProject_ok [OF ok n]
  obtain a where a: "projectAt K db (node, pa_project ack) = Some a"
    using b rd by (cases "projectAt K db (node, pa_project ack)") (auto simp: ackBody_def)
  obtain d where d: "prj_desired a = Some d" "(node, pa_project ack) = (pc_node d, pc_project d)"
    "validateProjectRecord a = Inr ()"
    using a by (rule projectAt_facts)
  have g: "pa_generation ack \<le> pc_generation d"
    using b rd a d by (auto simp: ackBody_def not_less split: if_splits)
  show thesis
  proof (cases "pa_generation ack < pc_generation d")
    case True
    then have "r = a" "db' = db" using b rd a d g by (auto simp: ackBody_def split: if_splits)
    then show thesis using that [OF a d(1)] registryStep_refl [OF ok] a g True by simp
  next
    case False
    let ?r = "a\<lparr>prj_applied := Some ack, prj_readiness := pa_status ack\<rparr>"
    have nc: "\<not> projectAckConflict (prj_applied a) ack" and w: "writeProject K ?r db = Inr db'" and r: "r = ?r"
      using b rd a d g False by (auto simp: ackBody_def Let_def bindR_eq_Inr split: if_splits)
    have "pa_generation ack = pc_generation d" using g False by simp
    then have "projectStep a ?r"
      using d validateProjectRecord_facts(3) [OF d(3,1)] by (auto simp: projectStep_def split: option.splits)
    then show thesis
      using that [OF a d(1)] write_step [OF ok K w, of d] a d g False nc r by simp
  qed
qed

text \<open>The record an offer leads to, from the one present before.\<close>

definition adoptedRecord :: "project_config \<Rightarrow> project_record option \<Rightarrow> project_record" where
  "adoptedRecord c previous = (case previous of
     None \<Rightarrow> \<lparr>prj_desired = Some c, prj_applied = None, prj_readiness = ''pending'',
               prj_adoption = ''adopted'', prj_unk = []\<rparr>
   | Some a \<Rightarrow> if prj_adoption a \<noteq> '''' then a
       else a\<lparr>prj_adoption := (if opt_ex (\<lambda>d. sameProjectPaths d c) (prj_desired a) then ''adopted'' else ''conflict'')\<rparr>)"

lemma adoptOne_step:
  assumes ok: "projects_ok K db" and K: "codecs_ok K" and c: "validateProjectConfig (Some c) = Inr ()"
    and b: "adoptOne K (pc_node c) c db = Inr (r, db')"
  shows "registryStep K db db'" and "r = adoptedRecord c (projectAt K db (pc_node c, pc_project c))"
    and "projectAt K db' = (projectAt K db)((pc_node c, pc_project c) \<mapsto> r)"
proof -
  note t = validateProjectConfig_tokens [OF c]
  note rd = readProject_ok [OF ok, of "pc_node c" "pc_project c"]
  have "registryStep K db db' \<and> r = adoptedRecord c (projectAt K db (pc_node c, pc_project c)) \<and>
    projectAt K db' = (projectAt K db)((pc_node c, pc_project c) \<mapsto> r)"
  proof (cases "projectAt K db (pc_node c, pc_project c)")
    case None
    obtain r0 where n: "newProject db c = Inr r0"
      using b rd t None by (auto simp: adoptOne_def bindR_eq_Inr)
    note nf = newProject_facts [OF n]
    let ?r = "r0\<lparr>prj_adoption := ''adopted''\<rparr>"
    have w: "writeProject K ?r db = Inr db'" and r: "r = ?r"
      using b rd t None nf n by (auto simp: adoptOne_def Let_def bindR_eq_Inr sameProjectPaths_def)
    have "prj_desired ?r = Some c" using nf by simp
    from write_step [OF ok K w this] nf None r show ?thesis by (simp add: adoptedRecord_def)
  next
    case (Some a)
    obtain d where d: "prj_desired a = Some d" "(pc_node c, pc_project c) = (pc_node d, pc_project d)"
      "validateProjectRecord a = Inr ()"
      using Some by (rule projectAt_facts)
    show ?thesis
    proof (cases "prj_adoption a = ''''")
      case False
      then have "r = a" "db' = db" using b rd t Some by (auto simp: adoptOne_def)
      then show ?thesis using registryStep_refl [OF ok] Some False by (simp add: adoptedRecord_def fun_upd_idem)
    next
      case True
      define m where "m = (if opt_ex (\<lambda>d. sameProjectPaths d c) (prj_desired a) then ''adopted'' else ''conflict'')"
      let ?r = "a\<lparr>prj_adoption := m\<rparr>"
      have w: "writeProject K ?r db = Inr db'" and r: "r = ?r"
        using b rd t Some True by (auto simp: adoptOne_def m_def Let_def bindR_eq_Inr)
      have "projectStep a ?r" using d True by (auto simp: projectStep_def split: option.splits)
      then have "registryStep K db db' \<and> projectAt K db' = (projectAt K db)((pc_node d, pc_project d) \<mapsto> ?r)"
        using write_step [OF ok K w, of d] Some d by simp
      then show ?thesis using Some d(2) r True by (simp add: adoptedRecord_def m_def)
    qed
  qed
  then show "registryStep K db db'" and "r = adoptedRecord c (projectAt K db (pc_node c, pc_project c))"
    and "projectAt K db' = (projectAt K db)((pc_node c, pc_project c) \<mapsto> r)" by blast+
qed

lemma offeredConfigs_facts:
  assumes "offeredConfigs node seen offers = Inr cs"
  shows "\<forall>c \<in> set cs. validateProjectConfig (Some c) = Inr () \<and> pc_node c = node"
    and "list_all2 (\<lambda>offer c. projectOffer offer = Inr c) offers cs"
    and "distinct (map pc_project cs) \<and> set (map pc_project cs) \<inter> set seen = {}"
  using assms
proof (induction offers arbitrary: seen cs)
  case (Cons offer offers)
  { fix seen cs assume pr: "offeredConfigs node seen (offer # offers) = Inr cs"
    obtain c cs' where c: "projectOffer offer = Inr c" "pc_node c = node" "cs = c # cs'" "pc_project c \<notin> set seen"
      and r: "offeredConfigs node (pc_project c # seen) offers = Inr cs'"
      using pr by (auto simp: bindR_eq_Inr split: if_splits)
    have "(\<forall>c \<in> set cs. validateProjectConfig (Some c) = Inr () \<and> pc_node c = node) \<and>
        list_all2 (\<lambda>offer c. projectOffer offer = Inr c) (offer # offers) cs \<and>
        distinct (map pc_project cs) \<and> set (map pc_project cs) \<inter> set seen = {}"
      using Cons.IH [OF r] projectOffer_facts [OF c(1)] c by auto }
  note all = this
  { case 1 then show ?case using all by blast
  next case 2 then show ?case using all by blast
  next case 3 then show ?case using all by blast }
qed simp_all

lemma adoptLoop_step:
  assumes "projects_ok K db" and "codecs_ok K"
    and "\<forall>c \<in> set cs. validateProjectConfig (Some c) = Inr () \<and> pc_node c = node"
    and "distinct (map pc_project cs)" and "adoptLoop K node cs db = Inr (rs, db')"
  shows "registryStep K db db' \<and> rs = map (\<lambda>c. adoptedRecord c (projectAt K db (node, pc_project c))) cs \<and>
    (\<forall>c \<in> set cs. projectAt K db' (node, pc_project c) =
       Some (adoptedRecord c (projectAt K db (node, pc_project c)))) \<and>
    (\<forall>k. k \<notin> (\<lambda>c. (node, pc_project c)) ` set cs \<longrightarrow> projectAt K db' k = projectAt K db k)"
  using assms
proof (induction cs arbitrary: db rs)
  case Nil
  then show ?case using registryStep_refl by auto
next
  case (Cons c cs)
  obtain r db1 rs' where o: "adoptOne K node c db = Inr (r, db1)" and l: "adoptLoop K node cs db1 = Inr (rs', db')"
    and rs: "rs = r # rs'"
    using Cons.prems(5) by (auto simp: bindR_eq_Inr)
  have c: "validateProjectConfig (Some c) = Inr ()" "pc_node c = node" using Cons.prems(3) by auto
  note s = adoptOne_step [OF Cons.prems(1,2) c(1) o [folded c(2)], unfolded c(2)]
  have ok1: "projects_ok K db1" using s(1) by (simp add: registryStep_def)
  have cs: "\<forall>c \<in> set cs. validateProjectConfig (Some c) = Inr () \<and> pc_node c = node" "distinct (map pc_project cs)"
    using Cons.prems(3,4) by auto
  note IH = Cons.IH [OF ok1 Cons.prems(2) cs l]
  have nc: "pc_project x \<noteq> pc_project c" if "x \<in> set cs" for x
    using Cons.prems(4) imageI [OF that, of pc_project] by auto
  have m: "adoptedRecord x (projectAt K db1 (node, pc_project x)) = adoptedRecord x (projectAt K db (node, pc_project x))"
    if "x \<in> set cs" for x
    using nc [OF that] unfolding s(3) by simp
  have "rs = map (\<lambda>c. adoptedRecord c (projectAt K db (node, pc_project c))) (c # cs)"
    using IH m rs s(2) by simp
  moreover have "projectAt K db' (node, pc_project x) = Some (adoptedRecord x (projectAt K db (node, pc_project x)))"
    if "x \<in> set (c # cs)" for x
  proof (cases "x = c")
    case True
    have "(node, pc_project c) \<notin> (\<lambda>c. (node, pc_project c)) ` set cs" using nc by (metis (no_types, lifting) imageE prod.inject)
    then have "projectAt K db' (node, pc_project c) = projectAt K db1 (node, pc_project c)" using IH by blast
    then show ?thesis unfolding True s(2) s(3) by simp
  next
    case False
    then have "x \<in> set cs" using that by simp
    then show ?thesis using IH m by simp
  qed
  moreover have "projectAt K db' k = projectAt K db k" if "k \<notin> (\<lambda>c. (node, pc_project c)) ` set (c # cs)" for k
  proof -
    have "k \<notin> (\<lambda>c. (node, pc_project c)) ` set cs" using that by simp
    then have "projectAt K db' k = projectAt K db1 k" using IH by blast
    also have "\<dots> = projectAt K db k" unfolding s(3) using that by simp
    finally show ?thesis .
  qed
  moreover have "registryStep K db db'" using IH s(1) registryStep_trans by blast
  ultimately show ?case by blast
qed

section \<open>What the registry promises\<close>

lemma UpsertProject_Inr:
  assumes "UpsertProject E K request db = (Inr r, db')"
  obtains c where "projectOffer request = Inr c" "upsertBody K c db = Inr (r, db')"
  using assms unfolding UpsertProject_def
  by (auto simp: bindR_eq_Inr transaction_Inr split: sum.splits)

lemma AdoptProjects_Inr:
  assumes "AdoptProjects E K node offers db = (Inr rs, db')"
  obtains cs where "offeredConfigs node [] offers = Inr cs" "adoptLoop K node cs db = Inr (rs, db')"
  using assms unfolding AdoptProjects_def
  by (auto simp: bindR_eq_Inr transaction_Inr split: sum.splits if_splits)

text \<open>
  Registering a project stores exactly the operator's paths under a generation that never repeats:
  1 for a new project; the same record, untouched, when the paths did not change; otherwise the next
  generation (without wrap-around), pending until the node acknowledges it, with the historical
  acknowledgement kept.  No other project, binding, node or command changes.
\<close>

theorem upsert_project:
  assumes "projects_ok K db" and "codecs_ok K" and "UpsertProject E K (Some q) db = (Inr r, db')"
  shows "registryStep K db db' \<and> projectAt K db' (rp_node q, rp_project q) = Some r \<and>
    (\<exists>d. prj_desired r = Some d \<and> pc_checkout d = rp_checkout q \<and> pc_root d = rp_root q \<and>
      (case projectAt K db (rp_node q, rp_project q) of
         None \<Rightarrow> pc_generation d = 1 \<and> prj_readiness r = ''pending''
       | Some a \<Rightarrow> r = a \<and> db' = db \<or>
           opt_ex (\<lambda>e. pc_generation d = pc_generation e + 1 \<and> pc_generation e < pc_generation d) (prj_desired a) \<and>
           prj_readiness r = ''pending'' \<and> prj_applied r = prj_applied a))"
proof -
  obtain c where o: "projectOffer (Some q) = Inr c" and b: "upsertBody K c db = Inr (r, db')"
    using assms(3) by (rule UpsertProject_Inr)
  have c: "validateProjectConfig (Some c) = Inr ()" "pc_generation c = 1" "pc_node c = rp_node q"
    "pc_project c = rp_project q" "pc_checkout c = rp_checkout q" "pc_root c = rp_root q"
    using projectOffer_facts [OF o] by auto
  note u = upsertBody_step [OF assms(1,2) c(1) b]
  show ?thesis
  proof (cases "projectAt K db (rp_node q, rp_project q)")
    case None
    then show ?thesis using u c by simp
  next
    case (Some a)
    then obtain d where d: "prj_desired a = Some d" "if sameProjectPaths d c then r = a \<and> db' = db
         else pc_generation d \<noteq> - 1 \<and> prj_readiness r = ''pending'' \<and> prj_applied r = prj_applied a \<and>
           prj_desired r = Some (c\<lparr>pc_generation := pc_generation d + 1\<rparr>)"
      using u c by auto
    show ?thesis
    proof (cases "sameProjectPaths d c")
      case True
      then show ?thesis using u c d Some by (auto simp: sameProjectPaths_def)
    next
      case False
      then show ?thesis using u c d Some word_less_succ by simp
    qed
  qed
qed

definition webRegistration :: register_project where
  "webRegistration = \<lparr>rp_node = ''node-1'', rp_project = ''web'', rp_checkout = ''/src/web'',
     rp_root = '''', rp_unk = []\<rparr>"

definition webConfig :: project_config where
  "webConfig = \<lparr>pc_node = ''node-1'', pc_project = ''web'', pc_generation = 1,
     pc_checkout = ''/src/web'', pc_root = '''', pc_unk = []\<rparr>"

definition webProject :: project_record where
  "webProject = \<lparr>prj_desired = Some webConfig, prj_applied = None, prj_readiness = ''pending'',
     prj_adoption = '''', prj_unk = []\<rparr>"

definition webStore :: "project_record \<Rightarrow> blob coordinator" where
  "webStore r = oneNode\<lparr>cd_projects := [((''node-1'', ''web''), BProject r)]\<rparr>"

lemma sample_paths [simp]: "validProjectPath ''/src/web'' opt" "validProjectPath '''' True"
  "validProjectPath ''/a'' opt" "validProjectPath ''/b'' opt"
  by (simp_all add: validProjectPath_def eval_text)

lemma webConfig_valid: "validateProjectConfig (Some webConfig) = Inr ()"
  by (simp add: validateProjectConfig_def webConfig_def ValidIdempotencyKey_def config_unknown_def)

lemma oneNode_projects: "projects_ok sampleCodecs oneNode"
  by (simp add: projects_ok_def oneNode_def emptyCoordinator_def tget_def projectsOf_def tselect_def)

lemma webProject_upsert: "UpsertProject calm sampleCodecs (Some webRegistration) oneNode = (Inr webProject, webStore webProject)"
proof -
  have o: "projectOffer (Some webRegistration) = Inr webConfig"
    using webConfig_valid by (simp add: projectOffer_def registration_unknown_def webRegistration_def webConfig_def)
  have v: "validateProjectRecord webProject = Inr ()"
    by (simp add: validateProjectRecord_def webProject_def webConfig_valid readinessOf_def)
  have n: "newProject oneNode webConfig = Inr webProject"
    by (simp add: newProject_def oneNode_def emptyCoordinator_def projectsOf_def tselect_def webProject_def
        maxProjects_def maxProjectsPerNode_def)
  have r: "readProject sampleCodecs oneNode (pc_node webConfig) (pc_project webConfig) = Inl ErrProjectNotFound"
    by (simp add: readProject_def readProjects_def oneNode_def emptyCoordinator_def projectsOf_def tselect_def)
  have u: "\<not> project_record_unknown webProject"
    by (simp add: project_record_unknown_def webProject_def webConfig_def config_unknown_def)
  have w: "writeProject sampleCodecs webProject oneNode = Inr (webStore webProject)"
    using v u by (simp add: writeProject_def marshalProject_def maxProjectBytes_def projectBlobOk_def
        webStore_def desiredKey_def webProject_def webConfig_def oneNode_def emptyCoordinator_def)
  have "enter calm = Inr ()" by (simp add: enter_def calm_def)
  then show ?thesis by (simp add: UpsertProject_def o calm_transaction upsertBody_def r n w)
qed

lemma upsert_project_witness:
  "projectAt sampleCodecs (webStore webProject) (''node-1'', ''web'') = Some webProject"
  using upsert_project [OF oneNode_projects sampleCodecs_ok webProject_upsert]
  by (simp add: webRegistration_def)

text \<open>
  A project is reported ready only on evidence: in every stored registration, readiness
  is \<open>applied\<close> exactly when the recorded acknowledgement is a success for the very generation now
  desired, \<open>invalid\<close> exactly when it is a failure for it, and \<open>pending\<close> otherwise; an
  acknowledgement never runs ahead of the desired generation.
\<close>

theorem readiness_is_evidence:
  assumes "projectAt K db k = Some r"
  shows "\<exists>d. prj_desired r = Some d \<and> k = (pc_node d, pc_project d) \<and>
    (prj_readiness r = ''applied'' \<longleftrightarrow>
      opt_ex (\<lambda>a. pa_generation a = pc_generation d \<and> pa_status a = ''applied'') (prj_applied r)) \<and>
    (prj_readiness r = ''invalid'' \<longleftrightarrow>
      opt_ex (\<lambda>a. pa_generation a = pc_generation d \<and> pa_status a = ''invalid'') (prj_applied r)) \<and>
    prj_readiness r \<in> {''applied'', ''invalid'', ''pending''} \<and>
    opt_all (\<lambda>a. pa_generation a \<le> pc_generation d) (prj_applied r)"
proof -
  obtain d where d: "prj_desired r = Some d" "k = (pc_node d, pc_project d)" "validateProjectRecord r = Inr ()"
    using assms by (rule projectAt_facts)
  note v = validateProjectRecord_facts [OF d(3,1)]
  have st: "pa_status a \<in> {''applied'', ''invalid''}" if "prj_applied r = Some a" for a
    using v(3) [OF that] by (auto simp: validateProjectAck_def split: if_splits)
  show ?thesis
  proof (cases "prj_applied r")
    case None
    then show ?thesis using d v(2) by (simp add: readinessOf_def)
  next
    case (Some a)
    then show ?thesis using d v(2) v(3) [OF Some] st [OF Some] by (auto simp: readinessOf_def)
  qed
qed

lemma webProject_at: "projectAt sampleCodecs (webStore webProject) (''node-1'', ''web'') = Some webProject"
  by (simp add: projectAt_def webStore_def oneNode_def emptyCoordinator_def tget_def decodeProjectRow_def
      decodeProject_def maxProjectBytes_def project_record_unknown_def webProject_def
      validateProjectRecord_def webConfig_valid readinessOf_def)
    (simp add: webConfig_def config_unknown_def)

lemma readiness_is_evidence_witness: "prj_readiness webProject \<noteq> ''applied''"
  using readiness_is_evidence [OF webProject_at] by (auto simp: webProject_def)

text \<open>
  An acknowledgement is recorded only for the generation it answers: one for a future generation is
  refused, one for a past generation changes nothing, and one for the present generation becomes the
  recorded outcome without touching the desired configuration, unless it would replace a different
  success of that generation.
\<close>

theorem ack_project:
  assumes "projects_ok K db" and "codecs_ok K" and "AckProject E K node (Some ack) db = (Inr r, db')"
  shows "registryStep K db db' \<and> projectAt K db' (node, pa_project ack) = Some r \<and>
    (\<exists>a d. projectAt K db (node, pa_project ack) = Some a \<and> prj_desired a = Some d \<and> prj_desired r = Some d \<and>
      pa_generation ack \<le> pc_generation d \<and>
      (if pa_generation ack < pc_generation d then r = a \<and> db' = db
       else prj_applied r = Some ack \<and> prj_readiness r = pa_status ack \<and>
         (case prj_applied a of None \<Rightarrow> True
          | Some p \<Rightarrow> pa_generation p = pa_generation ack \<longrightarrow> pa_status p = ''applied'' \<longrightarrow>
              pa_status ack = ''applied'' \<longrightarrow> p = ack)))"
proof -
  have pre: "(if \<not> ValidIdempotencyKey node then Inl (Msg ''invalid node identity'')
      else validateProjectAck (Some ack)) = Inr ()"
    and b: "ackBody K node ack db = Inr (r, db')"
    using operation_Inr [OF assms(3) [unfolded AckProject_def]] by simp_all
  have n: "node \<noteq> ''''" "pa_project ack \<noteq> ''''"
    using pre by (auto simp: validateProjectAck_def ValidIdempotencyKey_def
        dest: commandToken_nonempty split: if_splits)
  obtain a d where ad: "projectAt K db (node, pa_project ack) = Some a" "prj_desired a = Some d"
    "registryStep K db db'" "projectAt K db' (node, pa_project ack) = Some r"
    "pa_generation ack \<le> pc_generation d"
    "if pa_generation ack < pc_generation d then r = a \<and> db' = db
     else r = a\<lparr>prj_applied := Some ack, prj_readiness := pa_status ack\<rparr> \<and>
       \<not> projectAckConflict (prj_applied a) ack"
    by (rule ackBody_step [OF assms(1,2) n b])
  have "case prj_applied a of None \<Rightarrow> True
      | Some p \<Rightarrow> pa_generation p = pa_generation ack \<longrightarrow> pa_status p = ''applied'' \<longrightarrow>
          pa_status ack = ''applied'' \<longrightarrow> p = ack" if "\<not> pa_generation ack < pc_generation d"
    using ad(6) that by (auto simp: projectAckConflict_def opt_ex_def split: option.splits)
  moreover have "prj_desired r = Some d" using ad(2,6) by (simp split: if_splits)
  moreover have "\<not> pa_generation ack < pc_generation d \<Longrightarrow>
      prj_applied r = Some ack \<and> prj_readiness r = pa_status ack" using ad(6) by simp
  ultimately show ?thesis
    using ad by (intro conjI exI [of _ a] exI [of _ d]) auto
qed

definition webAck :: "string \<Rightarrow> string \<Rightarrow> string \<Rightarrow> project_ack" where
  "webAck status path code = \<lparr>pa_project = ''web'', pa_generation = 1, pa_status = status, pa_checkout = path,
     pa_root = '''', pa_error = code, pa_unk = []\<rparr>"

definition webReady :: "project_ack \<Rightarrow> project_record" where
  "webReady a = webProject\<lparr>prj_applied := Some a, prj_readiness := pa_status a\<rparr>"

lemma token_missing: "commandToken ''missing''"
  by (simp add: commandToken_def token_char_def is_digit_def is_lower_def is_upper_def byte_def)

lemma sample_acks:
  "validateProjectAck (Some (webAck ''applied'' ''/a'' '''')) = Inr ()"
  "validateProjectAck (Some (webAck ''applied'' ''/b'' '''')) = Inr ()"
  "validateProjectAck (Some (webAck ''invalid'' ''/a'' ''missing'')) = Inr ()"
  by (simp_all add: validateProjectAck_def webAck_def ValidIdempotencyKey_def ack_unknown_def token_missing)

lemma webReady_valid:
  assumes "validateProjectAck (Some (webAck status path code)) = Inr ()"
  shows "validateProjectRecord (webReady (webAck status path code)) = Inr ()"
    "\<not> project_record_unknown (webReady (webAck status path code))"
  using assms webConfig_valid
  by (simp_all add: validateProjectRecord_def webReady_def webProject_def readinessOf_def webAck_def webConfig_def
      project_record_unknown_def config_unknown_def ack_unknown_def)

lemma web_ack:
  assumes v: "validateProjectRecord r = Inr ()" "\<not> project_record_unknown r"
    and r: "r\<lparr>prj_applied := None, prj_readiness := ''pending''\<rparr> = webProject"
    and a: "validateProjectAck (Some (webAck status path code)) = Inr ()"
    and nc: "\<not> projectAckConflict (prj_applied r) (webAck status path code)"
  shows "AckProject calm sampleCodecs ''node-1'' (Some (webAck status path code)) (webStore r) =
    (Inr (webReady (webAck status path code)), webStore (webReady (webAck status path code)))"
proof -
  let ?a = "webAck status path code"
  have d: "prj_desired r = Some webConfig"
    using arg_cong [OF r, of prj_desired] by (simp add: webProject_def)
  have u: "r\<lparr>prj_applied := Some ?a, prj_readiness := pa_status ?a\<rparr> = webReady ?a"
    unfolding webReady_def r [symmetric] by simp
  have rd: "readProject sampleCodecs (webStore r) ''node-1'' ''web'' = Inr r"
    using v d by (simp add: readProject_def readProjects_def webStore_def oneNode_def emptyCoordinator_def
        projectsOf_def tselect_def maxProjects_def maxProjectsPerNode_def decodeProjectRow_def
        decodeProject_def maxProjectBytes_def webConfig_def)
  have w: "writeProject sampleCodecs (webReady ?a) (webStore r) = Inr (webStore (webReady ?a))"
    using webReady_valid [OF a] by (simp add: writeProject_def marshalProject_def maxProjectBytes_def projectBlobOk_def
        webStore_def desiredKey_def webReady_def webProject_def webConfig_def oneNode_def emptyCoordinator_def)
  have "ackBody sampleCodecs ''node-1'' ?a (webStore r) = Inr (webReady ?a, webStore (webReady ?a))"
    using rd d nc u w by (simp add: ackBody_def webConfig_def webAck_def Let_def)
  then show ?thesis using a by (simp add: AckProject_def calm_operation ValidIdempotencyKey_def)
qed

lemma webProject_stored: "validateProjectRecord webProject = Inr ()" "\<not> project_record_unknown webProject"
  "projects_ok sampleCodecs (webStore webProject)"
proof -
  show v: "validateProjectRecord webProject = Inr ()" "\<not> project_record_unknown webProject"
    by (simp_all add: validateProjectRecord_def webProject_def webConfig_valid readinessOf_def project_record_unknown_def)
      (simp add: webConfig_def config_unknown_def)
  show "projects_ok sampleCodecs (webStore webProject)"
    using v by (simp add: projects_ok_def webStore_def oneNode_def emptyCoordinator_def tget_def projectsOf_def
        tselect_def maxProjects_def maxProjectsPerNode_def decodeProjectRow_def decodeProject_def maxProjectBytes_def)
      (simp add: webProject_def webConfig_def table_ok_def)
qed

lemma ack_project_witness:
  "projectAt sampleCodecs (webStore (webReady (webAck ''applied'' ''/a'' ''''))) (''node-1'', ''web'') =
     Some (webReady (webAck ''applied'' ''/a'' ''''))"
proof -
  have "AckProject calm sampleCodecs ''node-1'' (Some (webAck ''applied'' ''/a'' '''')) (webStore webProject) =
      (Inr (webReady (webAck ''applied'' ''/a'' '''')), webStore (webReady (webAck ''applied'' ''/a'' '''')))"
    using webProject_stored sample_acks
    by (intro web_ack) (simp_all add: webProject_def projectAckConflict_def opt_ex_def)
  from ack_project [OF webProject_stored(3) sampleCodecs_ok this] show ?thesis
    by (simp add: webAck_def)
qed

text \<open>
  Adoption decides each local offer once.  A successful \<open>AdoptProjects\<close> answers the offers one by
  one, each for a different project of that node: a project never seen is stored with the offered
  paths at generation 1 and marked adopted; a project never offered before keeps its desired
  configuration and is marked adopted if the paths agree and conflict if not; and a project with a
  decision is returned unchanged.  No other project changes.
\<close>

theorem adopt_decides_once:
  assumes "projects_ok K db" and "codecs_ok K" and "AdoptProjects E K node offers db = (Inr rs, db')"
  shows "\<exists>cs. list_all2 (\<lambda>offer c. projectOffer offer = Inr c) offers cs \<and>
    distinct (map pc_project cs) \<and> (\<forall>c \<in> set cs. pc_node c = node) \<and>
    rs = map (\<lambda>c. adoptedRecord c (projectAt K db (node, pc_project c))) cs \<and>
    (\<forall>j < length cs. projectAt K db' (node, pc_project (cs ! j)) = Some (rs ! j) \<and> prj_adoption (rs ! j) \<noteq> '''') \<and>
    (\<forall>k. k \<notin> (\<lambda>c. (node, pc_project c)) ` set cs \<longrightarrow> projectAt K db' k = projectAt K db k) \<and>
    registryStep K db db'"
proof -
  obtain cs where o: "offeredConfigs node [] offers = Inr cs" and l: "adoptLoop K node cs db = Inr (rs, db')"
    using assms(3) by (rule AdoptProjects_Inr)
  note f = offeredConfigs_facts [OF o]
  note s = adoptLoop_step [OF assms(1,2) f(1) conjunct1 [OF f(3)] l]
  have j: "projectAt K db' (node, pc_project (cs ! j)) = Some (rs ! j) \<and> prj_adoption (rs ! j) \<noteq> ''''"
    if "j < length cs" for j
    using s that by (auto simp: adoptedRecord_def split: option.splits)
  show ?thesis using f s j by (intro exI [of _ cs]) simp
qed

lemma adopt_decides_once_witness:
  "projectAt sampleCodecs (webStore (adoptedRecord webConfig None)) (''node-1'', ''web'') = Some (adoptedRecord webConfig None)"
proof -
  have o: "projectOffer (Some webRegistration) = Inr webConfig"
    using webConfig_valid by (simp add: projectOffer_def registration_unknown_def webRegistration_def webConfig_def)
  let ?r = "adoptedRecord webConfig None"
  have v: "validateProjectRecord ?r = Inr ()"
    by (simp add: validateProjectRecord_def adoptedRecord_def webConfig_valid readinessOf_def)
  have n: "newProject oneNode webConfig = Inr webProject"
    by (simp add: newProject_def oneNode_def emptyCoordinator_def projectsOf_def tselect_def webProject_def
        maxProjects_def maxProjectsPerNode_def)
  have rd: "readProject sampleCodecs oneNode ''node-1'' ''web'' = Inl ErrProjectNotFound"
    by (simp add: readProject_def readProjects_def oneNode_def emptyCoordinator_def projectsOf_def tselect_def)
  have u: "\<not> project_record_unknown ?r"
    by (simp add: project_record_unknown_def adoptedRecord_def webConfig_def config_unknown_def)
  have w: "writeProject sampleCodecs ?r oneNode = Inr (webStore ?r)"
    using v u by (simp add: writeProject_def marshalProject_def maxProjectBytes_def projectBlobOk_def
        webStore_def desiredKey_def adoptedRecord_def webConfig_def oneNode_def emptyCoordinator_def)
  have r: "webProject\<lparr>prj_adoption := ''adopted''\<rparr> = ?r" by (simp add: webProject_def adoptedRecord_def)
  have "opt_ex (\<lambda>d. sameProjectPaths d webConfig) (prj_desired webProject)" "prj_adoption webProject = ''''"
    by (simp_all add: webProject_def sameProjectPaths_def)
  then have one: "adoptOne sampleCodecs ''node-1'' webConfig oneNode = Inr (?r, webStore ?r)"
    using rd n w r by (simp add: adoptOne_def webConfig_def Let_def)
  have e: "enter calm = Inr ()" by (simp add: enter_def calm_def)
  have "AdoptProjects calm sampleCodecs ''node-1'' [Some webRegistration] oneNode = (Inr [?r], webStore ?r)"
    using e o one by (simp add: AdoptProjects_def ValidIdempotencyKey_def maxProjectsPerNode_def calm_transaction webConfig_def)
  from adopt_decides_once [OF oneNode_projects sampleCodecs_ok this] obtain cs
    where l: "list_all2 (\<lambda>offer c. projectOffer offer = Inr c) [Some webRegistration] cs"
      and j: "\<forall>j < length cs. projectAt sampleCodecs (webStore ?r) (''node-1'', pc_project (cs ! j)) = Some ([?r] ! j) \<and>
        prj_adoption ([?r] ! j) \<noteq> ''''" by blast
  have "cs = [webConfig]" using l o by (auto simp: list_all2_Cons1)
  then show ?thesis using j by (simp add: webConfig_def)
qed

text \<open>
  An acknowledged success is protected only against the acknowledgement directly before it: a node
  that reports success for checkout \<open>/a\<close>, then a failure, then success for checkout \<open>/b\<close>, all for
  generation 1, is believed each time, although the comment on \<open>projectAckConflict\<close> says that
  successful identities at the same revision must not change.  The direct change from \<open>/a\<close> to \<open>/b\<close>
  is refused.
\<close>

theorem applied_identity_can_change:
  "(let ack = (\<lambda>a db. AckProject calm sampleCodecs ''node-1'' (Some a) db);
        A = webAck ''applied'' ''/a'' ''''; I = webAck ''invalid'' ''/a'' ''missing''; B = webAck ''applied'' ''/b'' '''' in
    ack A (webStore webProject) = (Inr (webReady A), webStore (webReady A)) \<and>
    ack B (webStore (webReady A)) = (Inl ErrProjectConflict, webStore (webReady A)) \<and>
    ack I (webStore (webReady A)) = (Inr (webReady I), webStore (webReady I)) \<and>
    ack B (webStore (webReady I)) = (Inr (webReady B), webStore (webReady B)))"
proof -
  let ?A = "webAck ''applied'' ''/a'' ''''" and ?I = "webAck ''invalid'' ''/a'' ''missing''"
    and ?B = "webAck ''applied'' ''/b'' ''''"
  have w: "(webReady a)\<lparr>prj_applied := None, prj_readiness := ''pending''\<rparr> = webProject" for a
    by (simp add: webReady_def webProject_def)
  have p: "prj_applied (webReady a) = Some a" for a by (simp add: webReady_def)
  have 1: "AckProject calm sampleCodecs ''node-1'' (Some ?A) (webStore webProject) = (Inr (webReady ?A), webStore (webReady ?A))"
    using webProject_stored sample_acks
    by (intro web_ack) (simp_all add: webProject_def projectAckConflict_def opt_ex_def)
  have 3: "AckProject calm sampleCodecs ''node-1'' (Some ?I) (webStore (webReady ?A)) = (Inr (webReady ?I), webStore (webReady ?I))"
    using webReady_valid sample_acks w
    by (intro web_ack) (simp_all add: p projectAckConflict_def opt_ex_def, simp add: webAck_def)
  have 4: "AckProject calm sampleCodecs ''node-1'' (Some ?B) (webStore (webReady ?I)) = (Inr (webReady ?B), webStore (webReady ?B))"
    using webReady_valid sample_acks w
    by (intro web_ack) (simp_all add: p projectAckConflict_def opt_ex_def, simp add: webAck_def)
  have rd: "readProject sampleCodecs (webStore (webReady ?A)) ''node-1'' ''web'' = Inr (webReady ?A)"
    using webReady_valid [OF sample_acks(1)]
    by (simp add: readProject_def readProjects_def webStore_def oneNode_def emptyCoordinator_def
        projectsOf_def tselect_def maxProjects_def maxProjectsPerNode_def decodeProjectRow_def
        decodeProject_def maxProjectBytes_def) (simp add: webReady_def webProject_def webConfig_def)
  have "ackBody sampleCodecs ''node-1'' ?B (webStore (webReady ?A)) = Inl ErrProjectConflict"
    using rd by (simp add: ackBody_def webAck_def)
      (simp add: webReady_def webProject_def webConfig_def projectAckConflict_def opt_ex_def webAck_def)
  then have 2: "AckProject calm sampleCodecs ''node-1'' (Some ?B) (webStore (webReady ?A)) = (Inl ErrProjectConflict, webStore (webReady ?A))"
    using sample_acks by (simp add: AckProject_def calm_operation ValidIdempotencyKey_def)
  show ?thesis unfolding Let_def using 1 2 3 4 by blast
qed

end
