(* ===== verification/BindingStore.thy ===== *)
theory BindingStore
  imports SampleStore
begin

text \<open>
  Identity bindings and fleet snapshots of the coordinator (store.go of the state package): a stable
  tailnet identity is bound to one node instance for ever, in both directions, and the latest view
  of every bound node is kept, at most 128 of them.
\<close>

section \<open>Bindings\<close>

record binding =
  bd_stable :: string
  bd_instance :: string

definition conflicting :: "binding \<Rightarrow> string \<Rightarrow> string \<Rightarrow> bool" where
  "conflicting b s i = (s = bd_stable b \<and> i \<noteq> bd_instance b \<or> i = bd_instance b \<and> s \<noteq> bd_stable b)"

definition bindRow :: "binding \<Rightarrow> 'b coordinator \<Rightarrow> 'b coordinator res" where
  "bindRow b db =
     (if blank (bd_stable b) \<or> blank (bd_instance b)
      then Inl (Msg ''binding stable and instance IDs must not be empty'')
      else if tselect (conflicting b) (cd_bindings db) \<noteq> [] then Inl ErrIdentityConflict
      else if tget (cd_bindings db) (bd_stable b) \<noteq> None then Inr db
      else Inr (db\<lparr>cd_bindings := tput (bd_stable b) (bd_instance b) (cd_bindings db)\<rparr>))"

fun bindAll :: "binding list \<Rightarrow> 'b coordinator \<Rightarrow> 'b coordinator res" where
  "bindAll [] db = Inr db"
| "bindAll (b # bs) db = bindR (bindRow b db) (bindAll bs)"

definition ImportBindings ::
  "tx_env \<Rightarrow> binding list \<Rightarrow> 'b coordinator \<Rightarrow> unit res \<times> 'b coordinator" where
  "ImportBindings E bs = operation E (Inr ()) (\<lambda>db. bindR (bindAll bs db) (\<lambda>db'. Inr ((), db')))"

definition Bind :: "tx_env \<Rightarrow> string \<Rightarrow> string \<Rightarrow> 'b coordinator \<Rightarrow> unit res \<times> 'b coordinator" where
  "Bind E stableID instanceID = ImportBindings E [\<lparr>bd_stable = stableID, bd_instance = instanceID\<rparr>]"

section \<open>Fleet snapshots\<close>

definition maxNodeBytes :: nat where "maxNodeBytes = 260 * 1024"
definition maxNodes :: nat where "maxNodes = 128"

definition validateNode :: "pb \<Rightarrow> node_view \<Rightarrow> unit res" where
  "validateNode P v =
     (if blank (nv_instance v) \<or> blank (nv_stable v)
      then Inl (Msg ''node and its instance and stable IDs must not be empty'')
      else if (case nv_last_seen v of None \<Rightarrow> True | Some t \<Rightarrow> \<not> ts_valid P t)
      then Inl (Msg ''node last-seen timestamp is missing or invalid'')
      else if opt_ex (\<lambda>t. \<not> ts_valid P t) (nv_herdr_received v)
      then Inl (Msg ''node Herdr receipt timestamp is invalid'')
      else if node_unknown v then Inl (Msg ''node contains unknown protobuf fields'')
      else Inr ())"

text \<open>\<open>proto.Marshal\<close> of a view within the limit.\<close>

definition encodeNode :: "'b codecs \<Rightarrow> node_view \<Rightarrow> 'b res" where
  "encodeNode K v =
     (if maxNodeBytes < size_msg (k_node K) v
      then Inl (Msg ''node is nil or exceeds the 260 KiB payload limit'')
      else bindR (validateNode (k_pb K) v) (\<lambda>_. case marshal (k_node K) v of
          None \<Rightarrow> Inl (Wrap ''encode node'' (Msg ''proto: invalid UTF-8''))
        | Some b \<Rightarrow>
            if maxNodeBytes < blob_len (k_node K) b then Inl (Msg ''node exceeds the 260 KiB payload limit'')
            else Inr b))"

definition saveNodeBody :: "'b codecs \<Rightarrow> node_view \<Rightarrow> 'b \<Rightarrow> ('b coordinator, unit) body" where
  "saveNodeBody K v payload db =
     (if stableOf (cd_bindings db) (nv_instance v) \<noteq> Some (nv_stable v) then Inl ErrIdentityConflict
      else if maxNodes < length (cd_nodes db) \<or>
              length (cd_nodes db) = maxNodes \<and> tget (cd_nodes db) (nv_instance v) = None
      then Inl (Msg ''fleet exceeds the 128-node limit'')
      else if blob_len (k_node K) payload < 1 \<or> 266240 < blob_len (k_node K) payload then Inl sqliteCheck
      else Inr ((), db\<lparr>cd_nodes := tput (nv_instance v) payload (cd_nodes db)\<rparr>))"

definition SaveNode ::
  "tx_env \<Rightarrow> 'b codecs \<Rightarrow> node_view option \<Rightarrow> 'b coordinator \<Rightarrow> unit res \<times> 'b coordinator" where
  "SaveNode E K view db = (case bindR (enter E) (\<lambda>_. case view of
       None \<Rightarrow> Inl (Msg ''node is nil or exceeds the 260 KiB payload limit'')
     | Some v \<Rightarrow> bindR (encodeNode K v) (\<lambda>payload. Inr (v, payload))) of
       Inl e \<Rightarrow> (Inl e, db)
     | Inr (v, payload) \<Rightarrow> transaction E (saveNodeBody K v payload) db)"

fun deleteAll :: "string list \<Rightarrow> 'b coordinator \<Rightarrow> 'b coordinator res" where
  "deleteAll [] db = Inr db"
| "deleteAll (i # ids) db =
     (if blank i then Inl (Msg ''deleted node instance ID must not be empty'')
      else deleteAll ids (db\<lparr>cd_nodes := tdel i (cd_nodes db)\<rparr>))"

definition DeleteNodes ::
  "tx_env \<Rightarrow> string list \<Rightarrow> 'b coordinator \<Rightarrow> unit res \<times> 'b coordinator" where
  "DeleteNodes E ids = operation E (Inr ()) (\<lambda>db. bindR (deleteAll ids db) (\<lambda>db'. Inr ((), db')))"

definition decodeNode :: "'b codecs \<Rightarrow> (string, string) table \<Rightarrow> string \<times> 'b \<Rightarrow> node_view res" where
  "decodeNode K bs ip = (case ip of (i, payload) \<Rightarrow>
     if stableOf bs i = None \<or> blob_len (k_node K) payload = 0 \<or> maxNodeBytes < blob_len (k_node K) payload
     then Inl (Msg ''stored node has invalid binding or payload bounds'')
     else case unmarshal (k_node K) payload of
       None \<Rightarrow> Inl (Wrap ''decode stored node'' (Msg ''proto: cannot parse''))
     | Some v \<Rightarrow> bindR (validateNode (k_pb K) v) (\<lambda>_.
         if i \<noteq> nv_instance v \<or> stableOf bs i \<noteq> Some (nv_stable v)
         then Inl (Wrap ''stored node does not match its binding'' ErrIdentityConflict) else Inr v))"

definition readFleet :: "'b codecs \<Rightarrow> 'b coordinator \<Rightarrow> node_view list res" where
  "readFleet K db =
     (if maxNodes < length (cd_nodes db) then Inl (Msg ''stored fleet exceeds the 128-node limit'')
      else collect (decodeNode K (cd_bindings db)) (cd_nodes db))"

definition LoadFleet ::
  "tx_env \<Rightarrow> 'b codecs \<Rightarrow> 'b coordinator \<Rightarrow> node_view list res \<times> 'b coordinator" where
  "LoadFleet E K = operation E (Inr ()) (\<lambda>db. bindR (readFleet K db) (\<lambda>vs. Inr (vs, db)))"

section \<open>Bindings are a permanent bijection\<close>

definition bindings_ok :: "(string, string) table \<Rightarrow> bool" where
  "bindings_ok bs = (table_ok bs \<and>
     (\<forall>s t i. tget bs s = Some i \<longrightarrow> tget bs t = Some i \<longrightarrow> s = t) \<and>
     (\<forall>s i. tget bs s = Some i \<longrightarrow> \<not> blank s \<and> \<not> blank i))"

lemma stableOf_tget:
  assumes "bindings_ok bs"
  shows "stableOf bs i = Some s \<longleftrightarrow> tget bs s = Some i"
proof
  have t: "table_ok bs" using assms by (simp add: bindings_ok_def)
  { assume "stableOf bs i = Some s"
    then show "tget bs s = Some i" using stableOf_mem tget_mem [OF t] by blast }
  assume g: "tget bs s = Some i"
  then have "stableOf bs i \<noteq> None" using stableOf_None tget_Some_mem by fast
  then obtain x where x: "stableOf bs i = Some x" by blast
  then have "tget bs x = Some i" using stableOf_mem tget_mem [OF t] by blast
  then have "x = s" using g assms by (auto simp: bindings_ok_def)
  then show "stableOf bs i = Some s" using x by simp
qed

lemma bindRow_cases:
  assumes "bindings_ok (cd_bindings db)" and "bindRow b db = Inr db'"
  shows "bindings_ok (cd_bindings db') \<and>
    tget (cd_bindings db') = (tget (cd_bindings db))(bd_stable b \<mapsto> bd_instance b) \<and>
    (tget (cd_bindings db) (bd_stable b) = None \<or> tget (cd_bindings db) (bd_stable b) = Some (bd_instance b)) \<and>
    cd_nodes db' = cd_nodes db \<and> cd_commands db' = cd_commands db \<and> cd_projects db' = cd_projects db"
proof -
  let ?bs = "cd_bindings db"
  have t: "table_ok ?bs" using assms(1) by (simp add: bindings_ok_def)
  have nb: "\<not> blank (bd_stable b)" "\<not> blank (bd_instance b)"
    and nc: "tselect (conflicting b) ?bs = []"
    using assms(2) by (auto simp: bindRow_def split: if_splits)
  have free: "\<not> conflicting b s i" if "tget ?bs s = Some i" for s i
    using that nc tselect_mem [of s i "conflicting b" ?bs] tget_mem [OF t] by auto
  show ?thesis
  proof (cases "tget ?bs (bd_stable b)")
    case (Some i)
    then have "i = bd_instance b" using free [OF Some] by (auto simp: conflicting_def)
    moreover have "db' = db" using assms(2) nb nc Some by (simp add: bindRow_def)
    ultimately show ?thesis using assms(1) Some by (auto simp: fun_upd_idem)
  next
    case None
    then have db': "db' = db\<lparr>cd_bindings := tput (bd_stable b) (bd_instance b) ?bs\<rparr>"
      using assms(2) nb nc by (simp add: bindRow_def)
    have g: "tget (cd_bindings db') s =
        (if s = bd_stable b then Some (bd_instance b) else tget ?bs s)" for s
      by (simp add: db' tget_tput)
    have fr: "i \<noteq> bd_instance b" if "tget ?bs s = Some i" for s i
      using free [OF that] None that by (auto simp: conflicting_def)
    have "bindings_ok (cd_bindings db')"
      unfolding bindings_ok_def g
    proof (intro conjI allI impI)
      show "table_ok (cd_bindings db')" using t by (simp add: db' table_ok_tput)
    next
      fix x y i
      assume "(if x = bd_stable b then Some (bd_instance b) else tget ?bs x) = Some i"
        and "(if y = bd_stable b then Some (bd_instance b) else tget ?bs y) = Some i"
      then show "x = y" using fr assms(1) unfolding bindings_ok_def by (metis option.inject)
    next
      fix s i
      assume "(if s = bd_stable b then Some (bd_instance b) else tget ?bs s) = Some i"
      then show "\<not> blank s" and "\<not> blank i"
        using nb assms(1) unfolding bindings_ok_def by (metis option.inject)+
    qed
    moreover have "tget (cd_bindings db') = (tget ?bs)(bd_stable b \<mapsto> bd_instance b)"
      by (rule ext) (simp add: db' tget_tput)
    ultimately show ?thesis using None by (simp add: db')
  qed
qed

lemma bindAll_facts:
  assumes "bindings_ok (cd_bindings db)" and "bindAll bs db = Inr db'"
  shows "bindings_ok (cd_bindings db') \<and>
    (\<forall>s i. tget (cd_bindings db) s = Some i \<longrightarrow> tget (cd_bindings db') s = Some i) \<and>
    (\<forall>b \<in> set bs. tget (cd_bindings db') (bd_stable b) = Some (bd_instance b)) \<and>
    cd_nodes db' = cd_nodes db \<and> cd_commands db' = cd_commands db \<and> cd_projects db' = cd_projects db"
  using assms
proof (induction bs arbitrary: db)
  case (Cons b bs)
  obtain db1 where b: "bindRow b db = Inr db1" and r: "bindAll bs db1 = Inr db'"
    using Cons.prems(2) by (auto simp: bindR_eq_Inr)
  note c = bindRow_cases [OF Cons.prems(1) b]
  have ok1: "bindings_ok (cd_bindings db1)" using c by blast
  note IH = Cons.IH [OF ok1 r]
  have keep: "tget (cd_bindings db1) s = Some i" if "tget (cd_bindings db) s = Some i" for s i
    using that c by auto
  have "tget (cd_bindings db1) (bd_stable b) = Some (bd_instance b)" using c by simp
  then show ?case using IH c keep by auto
qed simp

lemma stableOf_keeps:
  assumes "bindings_ok bs" and "bindings_ok bs'"
    and "\<forall>s i. tget bs s = Some i \<longrightarrow> tget bs' s = Some i"
  shows "stableOf bs i = Some s \<Longrightarrow> stableOf bs' i = Some s"
  using assms by (simp add: stableOf_tget)

section \<open>The fleet\<close>

definition nodeAt :: "'b codecs \<Rightarrow> 'b coordinator \<Rightarrow> string \<Rightarrow> node_view option" where
  "nodeAt K db i = (case tget (cd_nodes db) i of
     None \<Rightarrow> None
   | Some p \<Rightarrow> (case decodeNode K (cd_bindings db) (i, p) of Inl e \<Rightarrow> None | Inr v \<Rightarrow> Some v))"

definition fleet_ok :: "'b codecs \<Rightarrow> 'b coordinator \<Rightarrow> bool" where
  "fleet_ok K db = (table_ok (cd_nodes db) \<and> length (cd_nodes db) \<le> maxNodes \<and>
     (\<forall>i p. tget (cd_nodes db) i = Some p \<longrightarrow> (\<exists>v. decodeNode K (cd_bindings db) (i, p) = Inr v)))"

lemma decodeNode_encode:
  assumes "codec_ok (k_node K)" and "encodeNode K v = Inr p" and "1 \<le> blob_len (k_node K) p"
    and "stableOf bs (nv_instance v) = Some (nv_stable v)"
  shows "decodeNode K bs (nv_instance v, p) = Inr v"
  using assms unfolding encodeNode_def decodeNode_def codec_ok_def
  by (auto simp: bindR_eq_Inr not_less split: option.splits if_splits)

lemma SaveNode_Inr:
  assumes "SaveNode E K view db = (Inr u, db')"
  obtains v p where "view = Some v" "encodeNode K v = Inr p" "saveNodeBody K v p db = Inr ((), db')"
  using assms unfolding SaveNode_def
  by (auto simp: bindR_eq_Inr transaction_Inr split: sum.splits option.splits)

lemma saveNodeBody_fleet:
  assumes ok: "fleet_ok K db" and K: "codecs_ok K" and enc: "encodeNode K v = Inr p"
    and b: "saveNodeBody K v p db = Inr (u, db')"
  shows "fleet_ok K db' \<and> nodeAt K db' = (nodeAt K db)(nv_instance v \<mapsto> v) \<and>
    cd_bindings db' = cd_bindings db \<and> cd_commands db' = cd_commands db \<and> cd_projects db' = cd_projects db"
proof -
  have t: "table_ok (cd_nodes db)" and l: "length (cd_nodes db) \<le> maxNodes"
    and rows: "\<And>i q. tget (cd_nodes db) i = Some q \<Longrightarrow> \<exists>v. decodeNode K (cd_bindings db) (i, q) = Inr v"
    using ok by (auto simp: fleet_ok_def)
  have st: "stableOf (cd_bindings db) (nv_instance v) = Some (nv_stable v)"
    and room: "tget (cd_nodes db) (nv_instance v) = None \<Longrightarrow> length (cd_nodes db) < maxNodes"
    and pl: "1 \<le> blob_len (k_node K) p"
    and db': "db' = db\<lparr>cd_nodes := tput (nv_instance v) p (cd_nodes db)\<rparr>"
    using b l by (auto simp: saveNodeBody_def not_less split: if_splits)
  have dec: "decodeNode K (cd_bindings db) (nv_instance v, p) = Inr v"
    using decodeNode_encode [OF _ enc pl st] K by (simp add: codecs_ok_def)
  have len: "length (cd_nodes db') \<le> maxNodes"
    using l room by (auto simp: db' length_tput [OF t])
  have rows': "\<exists>x. decodeNode K (cd_bindings db') (i, q) = Inr x" if "tget (cd_nodes db') i = Some q" for i q
    using that rows dec by (auto simp: db' tget_tput split: if_splits)
  have "fleet_ok K db'" unfolding fleet_ok_def using len rows' t by (simp add: db' table_ok_tput)
  moreover have "nodeAt K db' = (nodeAt K db)(nv_instance v \<mapsto> v)"
    unfolding nodeAt_def db' by (rule ext) (simp add: tget_tput dec split: option.splits)
  ultimately show ?thesis by (simp add: db')
qed

lemma readFleet_ok:
  assumes "fleet_ok K db"
  shows "readFleet K db = Inr (map (\<lambda>ip. the (nodeAt K db (fst ip))) (cd_nodes db))"
proof -
  have t: "table_ok (cd_nodes db)" and l: "length (cd_nodes db) \<le> maxNodes"
    and rows: "\<And>i q. tget (cd_nodes db) i = Some q \<Longrightarrow> \<exists>v. decodeNode K (cd_bindings db) (i, q) = Inr v"
    using assms by (auto simp: fleet_ok_def)
  have "decodeNode K (cd_bindings db) ip = Inr (the (nodeAt K db (fst ip)))" if "ip \<in> set (cd_nodes db)" for ip
  proof -
    obtain i q where ip: "ip = (i, q)" by (cases ip)
    then have g: "tget (cd_nodes db) i = Some q" using that tget_mem [OF t] by blast
    then show ?thesis using rows [OF g] by (auto simp: ip nodeAt_def)
  qed
  from collect_map [OF this] show ?thesis using l by (simp add: readFleet_def not_less)
qed

lemma deleteAll_facts:
  assumes "deleteAll ids db = Inr db'"
  shows "tget (cd_nodes db') = (\<lambda>i. if i \<in> set ids then None else tget (cd_nodes db) i) \<and>
    (table_ok (cd_nodes db) \<longrightarrow> table_ok (cd_nodes db')) \<and> length (cd_nodes db') \<le> length (cd_nodes db) \<and>
    cd_bindings db' = cd_bindings db \<and> cd_commands db' = cd_commands db \<and> cd_projects db' = cd_projects db"
  using assms
proof (induction ids arbitrary: db)
  case (Cons i ids)
  have r: "deleteAll ids (db\<lparr>cd_nodes := tdel i (cd_nodes db)\<rparr>) = Inr db'"
    using Cons.prems by (simp split: if_splits)
  show ?case
    using Cons.IH [OF r] length_tdel_le [of i "cd_nodes db"] table_ok_tdel [of "cd_nodes db" i]
    by (auto simp: tget_tdel fun_eq_iff)
qed simp

section \<open>What the store promises about identities\<close>

text \<open>
  An imported batch of bindings is all or nothing, and identity is permanent: whatever the outcome,
  bindings stay a bijection between non-empty identities and no earlier binding is changed or lost; a
  success binds exactly what was asked; a batch that contradicts an existing binding is refused
  and, commit failures aside, leaves the data as it was.
\<close>

theorem identities_permanent:
  assumes "bindings_ok (cd_bindings db)" and "ImportBindings E bs db = (r, db')"
  shows "bindings_ok (cd_bindings db') \<and>
    (\<forall>s i. stableOf (cd_bindings db) i = Some s \<longrightarrow> stableOf (cd_bindings db') i = Some s) \<and>
    (r = Inr () \<longrightarrow> (\<forall>b \<in> set bs. stableOf (cd_bindings db') (bd_instance b) = Some (bd_stable b))) \<and>
    ((\<exists>b \<in> set bs. \<exists>s i. stableOf (cd_bindings db) i = Some s \<and> conflicting b s i) \<longrightarrow>
      r \<noteq> Inr () \<and> db' = db)"
proof -
  let ?body = "\<lambda>db. bindR (bindAll bs db) (\<lambda>db'. Inr ((), db'))"
  have op: "operation E (Inr ()) ?body db = (r, db')" using assms(2) by (simp add: ImportBindings_def)
  have d: "db' = db \<or> bindAll bs db = Inr db'"
    using operation_durable [OF op] by (auto simp: bindR_eq_Inr)
  have facts: "bindings_ok (cd_bindings db') \<and>
    (\<forall>s i. tget (cd_bindings db) s = Some i \<longrightarrow> tget (cd_bindings db') s = Some i)"
    using d bindAll_facts [OF assms(1)] assms(1) by auto
  have suc: "r = Inr () \<Longrightarrow> bindAll bs db = Inr db'"
    using operation_Inr(2) op by (fastforce simp: bindR_eq_Inr)
  have bad: "bindAll bs db \<noteq> Inr x"
    if "b \<in> set bs" "stableOf (cd_bindings db) i = Some s" "conflicting b s i" for b s i x
  proof
    assume a: "bindAll bs db = Inr x"
    note f = bindAll_facts [OF assms(1) a]
    have "tget (cd_bindings x) s = Some i" using f that(2) stableOf_tget [OF assms(1)] by auto
    moreover have "tget (cd_bindings x) (bd_stable b) = Some (bd_instance b)" using f that(1) by blast
    moreover have "bindings_ok (cd_bindings x)" using f by blast
    ultimately show False using that(3) unfolding conflicting_def bindings_ok_def by (metis option.inject)
  qed
  have keep: "\<forall>s i. stableOf (cd_bindings db) i = Some s \<longrightarrow> stableOf (cd_bindings db') i = Some s"
    using facts stableOf_keeps [OF assms(1)] by blast
  have got: "r = Inr () \<Longrightarrow> \<forall>b \<in> set bs. stableOf (cd_bindings db') (bd_instance b) = Some (bd_stable b)"
    using bindAll_facts [OF assms(1) suc] facts stableOf_tget by blast
  have no: "r \<noteq> Inr () \<and> db' = db"
    if "\<exists>b \<in> set bs. \<exists>s i. stableOf (cd_bindings db) i = Some s \<and> conflicting b s i"
    using that bad suc d by blast
  show ?thesis using facts keep got no by blast
qed

lemma identities_permanent_witness:
  "\<exists>db'. ImportBindings calm [\<lparr>bd_stable = ''n1'', bd_instance = ''node-1''\<rparr>]
     (emptyCoordinator :: blob coordinator) = (Inr (), db') \<and>
   stableOf (cd_bindings db') ''node-1'' = Some ''n1''"
proof -
  let ?b = "\<lparr>bd_stable = ''n1'', bd_instance = ''node-1''\<rparr>"
  have i: "ImportBindings calm [?b] emptyCoordinator = (Inr (), oneNode)"
    by (simp add: oneNode_def ImportBindings_def calm_operation bindRow_def emptyCoordinator_def tselect_def
        tget_def eval_text)
  have ok: "bindings_ok (cd_bindings (emptyCoordinator :: blob coordinator))"
    by (simp add: bindings_ok_def emptyCoordinator_def tget_def)
  show ?thesis using identities_permanent [OF ok i] i by auto
qed

text \<open>
  The fleet snapshot is what was last saved.  After a successful save the store returns the saved
  view for its node, every other node's view as before, in at most 128 views, and no binding changed.
\<close>

theorem fleet_round_trip:
  assumes "fleet_ok K db" and "codecs_ok K" and "SaveNode E K (Some v) db = (Inr (), db')"
  shows "fleet_ok K db' \<and> nodeAt K db' = (nodeAt K db)(nv_instance v \<mapsto> v) \<and>
    cd_bindings db' = cd_bindings db \<and>
    (\<exists>vs. LoadFleet calm K db' = (Inr vs, db') \<and> length vs \<le> 128 \<and>
      set vs = {w. \<exists>i. nodeAt K db' i = Some w} \<and> v \<in> set vs)"
proof -
  obtain p where enc: "encodeNode K v = Inr p" and b: "saveNodeBody K v p db = Inr ((), db')"
    using assms(3) by (auto elim: SaveNode_Inr)
  note f = saveNodeBody_fleet [OF assms(1,2) enc b]
  let ?vs = "map (\<lambda>ip. the (nodeAt K db' (fst ip))) (cd_nodes db')"
  have ok': "fleet_ok K db'" using f by blast
  then have t: "table_ok (cd_nodes db')" and l: "length (cd_nodes db') \<le> maxNodes"
    by (simp_all add: fleet_ok_def)
  have rows: "nodeAt K db' i \<noteq> None" if "tget (cd_nodes db') i = Some q" for i q
    using ok' that by (fastforce simp: fleet_ok_def nodeAt_def)
  have load: "LoadFleet calm K db' = (Inr ?vs, db')"
    using readFleet_ok [of K db'] f by (simp add: LoadFleet_def calm_operation)
  have "set ?vs = {w. \<exists>i. nodeAt K db' i = Some w}"
  proof (intro set_eqI iffI)
    fix w assume "w \<in> set ?vs"
    then obtain i q where "(i, q) \<in> set (cd_nodes db')" "w = the (nodeAt K db' i)" by auto
    then show "w \<in> {w. \<exists>i. nodeAt K db' i = Some w}" using rows tget_mem [OF t] by fastforce
  next
    fix w assume "w \<in> {w. \<exists>i. nodeAt K db' i = Some w}"
    then obtain i where i: "nodeAt K db' i = Some w" by blast
    then obtain q where "tget (cd_nodes db') i = Some q" by (auto simp: nodeAt_def split: option.splits)
    then have "(i, q) \<in> set (cd_nodes db')" by (simp add: tget_Some_mem)
    then show "w \<in> set ?vs" using i by force
  qed
  then show ?thesis using f load l by (auto simp: maxNodes_def)
qed

lemma fleet_round_trip_witness:
  "\<exists>vs. LoadFleet calm sampleCodecs (oneNode\<lparr>cd_nodes := [(''node-1'', BNode sampleNode)]\<rparr>) =
     (Inr vs, oneNode\<lparr>cd_nodes := [(''node-1'', BNode sampleNode)]\<rparr>) \<and> sampleNode \<in> set vs"
proof -
  have s: "SaveNode calm sampleCodecs (Some sampleNode) oneNode =
      (Inr (), oneNode\<lparr>cd_nodes := [(''node-1'', BNode sampleNode)]\<rparr>)"
  proof -
    have v: "validateNode samplePb sampleNode = Inr ()"
      by (simp add: validateNode_def sampleNode_def node_unknown_def ts_unknown_def eval_text at_second_def)
    have e: "encodeNode sampleCodecs sampleNode = Inr (BNode sampleNode)"
      by (simp add: encodeNode_def v maxNodeBytes_def)
    have n: "nv_instance sampleNode = ''node-1''" "nv_stable sampleNode = ''n1''"
      by (simp_all add: sampleNode_def)
    have b: "saveNodeBody sampleCodecs sampleNode (BNode sampleNode) oneNode =
        Inr ((), oneNode\<lparr>cd_nodes := [(''node-1'', BNode sampleNode)]\<rparr>)"
      by (simp add: saveNodeBody_def n maxNodes_def) (simp add: oneNode_def emptyCoordinator_def)
    have "enter calm = Inr ()" by (simp add: enter_def calm_def)
    then show ?thesis by (simp add: SaveNode_def e calm_transaction b)
  qed
  have ok: "fleet_ok sampleCodecs oneNode"
    by (simp add: fleet_ok_def oneNode_def emptyCoordinator_def tget_def)
  show ?thesis using fleet_round_trip [OF ok sampleCodecs_ok s] by blast
qed

end
