(* ===== verification/Journal.thy ===== *)
theory Journal
  imports Prelude
begin

text \<open>
  The interface between a durable store and its clients: a store whose steps keep an invariant, lose
  no entry, and change an entry only along an order in which final entries are stuck.  The lemmas of
  the locale follow any run of such a store; the coordinator's command journal, its project registry,
  its identity bindings and the node's journal are instances.
\<close>

locale durable_journal =
  fixes inv :: "'s \<Rightarrow> bool"
    and step :: "'s \<Rightarrow> 's \<Rightarrow> bool"
    and entry :: "'s \<Rightarrow> 'i \<Rightarrow> 'r option"
    and progress :: "'r \<Rightarrow> 'r \<Rightarrow> bool"
    and final :: "'r \<Rightarrow> bool"
  assumes step_inv: "inv s \<Longrightarrow> step s t \<Longrightarrow> inv t"
    and step_entry: "inv s \<Longrightarrow> step s t \<Longrightarrow> entry s i = Some a \<Longrightarrow> \<exists>b. entry t i = Some b \<and> progress a b"
    and progress_refl: "inv s \<Longrightarrow> entry s i = Some a \<Longrightarrow> progress a a"
    and progress_trans: "progress a b \<Longrightarrow> progress b c \<Longrightarrow> progress a c"
    and progress_final: "progress a b \<Longrightarrow> final a \<Longrightarrow> b = a"
begin

lemma run_inv: "step\<^sup>*\<^sup>* s t \<Longrightarrow> inv s \<Longrightarrow> inv t"
  by (induction rule: rtranclp_induct) (auto intro: step_inv)

lemma run_entry:
  assumes "step\<^sup>*\<^sup>* s t" and "inv s" and "entry s i = Some a"
  shows "\<exists>b. entry t i = Some b \<and> progress a b"
  using assms
proof (induction rule: rtranclp_induct)
  case base
  then show ?case using progress_refl by blast
next
  case (step t u)
  then obtain b where b: "entry t i = Some b" "progress a b" by blast
  have "inv t" using run_inv step.hyps(1) step.prems(1) by blast
  from step_entry [OF this step.hyps(2) b(1)] show ?case using b(2) progress_trans by blast
qed

lemma run_final:
  assumes "step\<^sup>*\<^sup>* s t" and "inv s" and "entry s i = Some a" and "final a"
  shows "entry t i = Some a"
  using run_entry [OF assms(1-3)] progress_final assms(4) by blast

text \<open>What held of an entry and is kept by progress holds of it at the end of the run.\<close>

lemma run_keeps:
  assumes "step\<^sup>*\<^sup>* s t" and "inv s" and "entry s i = Some a" and "q a"
    and "\<And>x y. progress x y \<Longrightarrow> q x \<Longrightarrow> q y"
  shows "\<exists>b. entry t i = Some b \<and> q b"
  using run_entry [OF assms(1-3)] assms(4,5) by blast

end

end
