(* ===== verification/Coordinator.thy ===== *)
theory Coordinator
  imports CommandInvariant ProjectStore BindingStore Journal
begin

text \<open>
  The coordinator's store as a whole: every operation of store.go, commands.go, lifecycle.go and
  projects.go that writes, as a step of one transition relation; the invariant they share; and what
  a client may rely on over any sequence of them, whatever fails in between.
\<close>

section \<open>The invariant\<close>

text \<open>No two recorded starts claim the same agent name on one node and session.\<close>

definition namesUnique :: "(string \<Rightarrow> command_record option) \<Rightarrow> bool" where
  "namesUnique f = (\<forall>i j r s c d x y. f i = Some r \<longrightarrow> f j = Some s \<longrightarrow>
     rec_command r = Some c \<longrightarrow> rec_command s = Some d \<longrightarrow> c_start c = Some x \<longrightarrow> c_start d = Some y \<longrightarrow>
     c_target c = c_target d \<longrightarrow> as_session x = as_session y \<longrightarrow> as_name x = as_name y \<longrightarrow> i = j)"

lemma namesUnique_at:
  "namesUnique f \<Longrightarrow> f i = Some r \<Longrightarrow> rec_command r = Some c \<Longrightarrow> c_start c = Some x \<Longrightarrow>
     f j = Some s \<Longrightarrow> rec_command s = Some d \<Longrightarrow> c_start d = Some y \<Longrightarrow>
     c_target c = c_target d \<Longrightarrow> as_session x = as_session y \<Longrightarrow> as_name x = as_name y \<Longrightarrow> i = j"
  unfolding namesUnique_def by blast

definition coordinatorGood :: "'b codecs \<Rightarrow> 'b coordinator \<Rightarrow> bool" where
  "coordinatorGood K db = (codecs_ok K \<and> bindings_ok (cd_bindings db) \<and> fleet_ok K db \<and>
     coordinator_ok K db \<and> namesUnique (recordAt K db) \<and> projects_ok K db)"

lemma coordinatorGoodD:
  assumes "coordinatorGood K db"
  shows "codecs_ok K" "bindings_ok (cd_bindings db)" "fleet_ok K db" "coordinator_ok K db"
    "namesUnique (recordAt K db)" "projects_ok K db"
  using assms by (simp_all add: coordinatorGood_def)

lemma coordinatorGood_empty: "codecs_ok K \<Longrightarrow> coordinatorGood K emptyCoordinator"
  by (simp add: coordinatorGood_def bindings_ok_def fleet_ok_def coordinator_ok_def namesUnique_def projects_ok_def
      keysUnique_def emptyCoordinator_def tget_def recordAt_def projectsOf_def tselect_def)

section \<open>The operations\<close>

text \<open>What the coordinator does by its own decision: everything but recording the result a node reports.\<close>

inductive ownStep :: "'b codecs \<Rightarrow> 'b coordinator \<Rightarrow> 'b coordinator \<Rightarrow> bool" for K :: "'b codecs" where
  import_bindings: "ImportBindings E bs db = (x, db') \<Longrightarrow> ownStep K db db'"
| save_node: "SaveNode E K view db = (x, db') \<Longrightarrow> ownStep K db db'"
| delete_nodes: "DeleteNodes E ids db = (x, db') \<Longrightarrow> ownStep K db db'"
| create: "CreateCommand E K command now db = (y, db') \<Longrightarrow> ownStep K db db'"
| reject: "RejectCommand E K node cid detail now db = (r, db') \<Longrightarrow> ownStep K db db'"
| dispatch: "DispatchCommand E K node cid now db = (y, db') \<Longrightarrow> ownStep K db db'"
| progress: "SaveCommandProgress E K node p db = (x, db') \<Longrightarrow> ownStep K db db'"
| lose: "LoseNodeCommands E K node now db = (x, db') \<Longrightarrow> ownStep K db db'"
| expire: "ExpireCommands E K now db = (x, db') \<Longrightarrow> ownStep K db db'"
| recover: "RecoverCommands E K now db = (x, db') \<Longrightarrow> ownStep K db db'"
| upsert: "UpsertProject E K request db = (pr, db') \<Longrightarrow> ownStep K db db'"
| ack: "AckProject E K node a db = (pr, db') \<Longrightarrow> ownStep K db db'"
| adopt: "AdoptProjects E K node offers db = (prs, db') \<Longrightarrow> ownStep K db db'"

inductive coordStep :: "'b codecs \<Rightarrow> 'b coordinator \<Rightarrow> 'b coordinator \<Rightarrow> bool" for K :: "'b codecs" where
  own: "ownStep K db db' \<Longrightarrow> coordStep K db db'"
| finish: "FinishCommand E K node sid result now db = (r, db') \<Longrightarrow> coordStep K db db'"

lemmas coord_finish = coordStep.finish
lemmas coord_import_bindings = ownStep.import_bindings [THEN coordStep.own]
lemmas coord_save_node = ownStep.save_node [THEN coordStep.own]
lemmas coord_delete_nodes = ownStep.delete_nodes [THEN coordStep.own]
lemmas coord_create = ownStep.create [THEN coordStep.own]
lemmas coord_reject = ownStep.reject [THEN coordStep.own]
lemmas coord_dispatch = ownStep.dispatch [THEN coordStep.own]
lemmas coord_progress = ownStep.progress [THEN coordStep.own]
lemmas coord_lose = ownStep.lose [THEN coordStep.own]
lemmas coord_expire = ownStep.expire [THEN coordStep.own]
lemmas coord_recover = ownStep.recover [THEN coordStep.own]
lemmas coord_upsert = ownStep.upsert [THEN coordStep.own]
lemmas coord_ack = ownStep.ack [THEN coordStep.own]
lemmas coord_adopt = ownStep.adopt [THEN coordStep.own]

text \<open>What every operation does to the three parts of the store.\<close>

definition coordChange :: "'b codecs \<Rightarrow> 'b coordinator \<Rightarrow> 'b coordinator \<Rightarrow> bool" where
  "coordChange K db db' = (coordinatorGood K db' \<and>
     (\<forall>i s. stableOf (cd_bindings db) i = Some s \<longrightarrow> stableOf (cd_bindings db') i = Some s) \<and>
     journalStep (k_pb K) (recordAt K db) (recordAt K db') \<and>
     (\<forall>k a. projectAt K db k = Some a \<longrightarrow> (\<exists>b. projectAt K db' k = Some b \<and> projectStep a b)))"

lemma coordChange_refl: "coordinatorGood K db \<Longrightarrow> coordChange K db db"
  unfolding coordChange_def using projectStep_refl by (auto elim: projectAt_facts)

text \<open>An operation keeps the store or commits what its body computed.\<close>

lemma operation_change:
  assumes "operation E pre fn db = (x, db')" and "coordinatorGood K db"
    and "\<And>y. fn db = Inr (y, db') \<Longrightarrow> coordChange K db db'"
  shows "coordChange K db db'"
  using operation_durable [OF assms(1)] coordChange_refl [OF assms(2)] assms(3) by auto

lemma transaction_change:
  assumes "transaction E fn db = (x, db')" and "coordinatorGood K db"
    and "\<And>y. fn db = Inr (y, db') \<Longrightarrow> coordChange K db db'"
  shows "coordChange K db db'"
  using transaction_durable [OF assms(1)] coordChange_refl [OF assms(2)] assms(3) by auto

text \<open>Operations on commands: the other tables are the same, names stay unique unless one is added.\<close>

lemma namesUnique_step:
  assumes "namesUnique f" and "journalStep P f g" and "\<And>i. f i = None \<Longrightarrow> g i = None"
  shows "namesUnique g"
  unfolding namesUnique_def
proof (intro allI impI)
  fix i j r s c d x y
  assume a: "g i = Some r" "g j = Some s" "rec_command r = Some c" "rec_command s = Some d"
    "c_start c = Some x" "c_start d = Some y" "c_target c = c_target d"
    "as_session x = as_session y" "as_name x = as_name y"
  have old: "\<exists>q. f k = Some q \<and> rec_command q = rec_command p" if "g k = Some p" for k p
    using that assms(2,3) by (cases "f k") (force simp: journalStep_def recordStep_def)+
  from old [OF a(1)] old [OF a(2)] obtain q p where "f i = Some q" "rec_command q = Some c"
    "f j = Some p" "rec_command p = Some d" using a(3,4) by auto
  then show "i = j" using assms(1) a(5-9) unfolding namesUnique_def by blast
qed

lemma commands_change:
  assumes good: "coordinatorGood K db" and g: "goodChange K db db'" and o: "onlyCommands db db'"
    and n: "namesUnique (recordAt K db')"
  shows "coordChange K db db'"
proof -
  note d = coordinatorGoodD [OF good]
  have b: "cd_bindings db' = cd_bindings db" "cd_nodes db' = cd_nodes db" "cd_projects db' = cd_projects db"
    using o by (simp_all add: onlyCommands_def)
  have f: "fleet_ok K db'" "projects_ok K db'" "projectAt K db' = projectAt K db"
    using d(3,6) b by (simp_all add: fleet_ok_def projects_ok_def projectAt_def fun_eq_iff)
  have p: "\<exists>y. projectAt K db k = Some y \<and> projectStep a y" if "projectAt K db k = Some a" for k a
    using that projectStep_refl by (auto elim: projectAt_facts)
  show ?thesis using d g n b f p by (simp add: coordChange_def coordinatorGood_def goodChange_def)
qed

lemma known_commands_change:
  assumes "coordinatorGood K db" and "goodChange K db db'" and "onlyCommands db db'"
    and "\<And>i. recordAt K db i = None \<Longrightarrow> recordAt K db' i = None"
  shows "coordChange K db db'"
proof -
  have "journalStep (k_pb K) (recordAt K db) (recordAt K db')" using assms(2) by (simp add: goodChange_def)
  from namesUnique_step [OF coordinatorGoodD(5) [OF assms(1)] this assms(4)]
  show ?thesis by (rule commands_change [OF assms(1-3)])
qed

text \<open>A claim check that passes keeps the names unique.\<close>

lemma named_claim_unique:
  assumes ok: "coordinator_ok K db" and n: "namesUnique (recordAt K db)"
    and claim: "checkNamedAgentClaim K db c = Inr ()"
  shows "namesUnique ((recordAt K db)(c_id c \<mapsto> newRecord c stamp))"
proof -
  have fresh: "\<not> (c_target d = c_target c \<and> as_session y = as_session x \<and> as_name y = as_name x)"
    if at: "recordAt K db j = Some s" and s: "rec_command s = Some d" "c_start d = Some y" and x: "c_start c = Some x"
    for j s d x y
  proof
    assume eq: "c_target d = c_target c \<and> as_session y = as_session x \<and> as_name y = as_name x"
    obtain rs where rs: "readCommands K db (byTarget (c_target c)) = Inr rs"
      and e: "each (\<lambda>r. if namesAgent (as_session x) (as_name x) r then Inl ErrNamedAgentExists else Inr ()) rs = Inr ()"
      using claim x by (auto simp: checkNamedAgentClaim_def bindR_eq_Inr)
    from at obtain row c' where row: "tget (cd_commands db) j = Some row" "rec_command s = Some c'"
      "row = rowOf c' (rec_status s) (cw_record row)" by (rule recordAt_row) blast
    have "byTarget (c_target c) j row" using row(2,3) s eq by (simp add: byTarget_def) (metis command_row.select_convs(3) rowOf_def)
    from readCommands_all [OF rs coordinator_okD(1) [OF ok] row(1) this at] have "s \<in> set rs" .
    with e have "\<not> namesAgent (as_session x) (as_name x) s"
      by (auto simp: each_eq_Inr split: if_splits)
    then show False using s eq by (simp add: namesAgent_def split: if_splits)
  qed
  show ?thesis
    unfolding namesUnique_def
  proof (intro allI impI)
    fix i j r s d e x y
    assume a: "((recordAt K db)(c_id c \<mapsto> newRecord c stamp)) i = Some r"
      "((recordAt K db)(c_id c \<mapsto> newRecord c stamp)) j = Some s"
      "rec_command r = Some d" "rec_command s = Some e" "c_start d = Some x" "c_start e = Some y"
      "c_target d = c_target e" "as_session x = as_session y" "as_name x = as_name y"
    consider "i = c_id c" "j = c_id c" | "i = c_id c" "j \<noteq> c_id c" | "i \<noteq> c_id c" "j = c_id c"
      | "i \<noteq> c_id c" "j \<noteq> c_id c" by blast
    then show "i = j"
    proof cases
      case 2
      then have "d = c" "recordAt K db j = Some s" using a(1-3) by auto
      then show ?thesis using fresh [of j s e y x] a by auto
    next
      case 3
      then have "e = c" "recordAt K db i = Some r" using a(1,2,4) by auto
      then show ?thesis using fresh [of i r d x y] a by auto
    next
      case 4
      then have "recordAt K db i = Some r" "recordAt K db j = Some s" using a(1,2) by auto
      then show ?thesis using n a(3-9) unfolding namesUnique_def by blast
    qed simp
  qed
qed

lemma createBody_change:
  assumes good: "coordinatorGood K db" and b: "createBody K c stamp db = Inr (y, db')"
  shows "coordChange K db db'"
proof -
  note d = coordinatorGoodD [OF good]
  obtain r created where y: "y = (r, created)" by (cases y)
  note cs = createBody_cases [OF d(4,1) b [unfolded y]]
  note o = createBody_only [OF b]
  show ?thesis
  proof (cases created)
    case False
    then show ?thesis using cs coordChange_refl [OF good] by simp
  next
    case True
    then have f: "r = newRecord c stamp" "goodChange K db db'" "recordAt K db' = (recordAt K db)(c_id c \<mapsto> r)"
      "checkNamedAgentClaim K db c = Inr ()"
      using cs by simp_all
    have "namesUnique (recordAt K db')"
      using named_claim_unique [OF d(4,5) f(4)] f(1,3) by simp
    then show ?thesis by (rule commands_change [OF good f(2) o])
  qed
qed

lemma dispatchBody_change:
  assumes good: "coordinatorGood K db" and b: "dispatchBody K node i now db = Inr (y, db')"
  shows "coordChange K db db'"
proof -
  note d = coordinatorGoodD [OF good]
  obtain r' f where y: "y = (r', f)" by (cases y)
  show ?thesis
    by (rule dispatchBody_good [OF d(4,1) b [unfolded y]])
      (rule known_commands_change [OF good _ dispatchBody_only [OF b]], auto split: if_splits)
qed

lemma rejectBody_change:
  assumes good: "coordinatorGood K db" and b: "rejectBody K node i detail now db = Inr (y, db')"
  shows "coordChange K db db'"
  by (rule rejectBody_good [OF coordinatorGoodD(4,1) [OF good] b])
    (rule known_commands_change [OF good _ rejectBody_only [OF b]], auto split: if_splits)

lemma finishBody_change:
  assumes good: "coordinatorGood K db" and b: "finishBody K node sid v now db = Inr (y, db')"
  shows "coordChange K db db'"
  by (rule finishBody_good [OF coordinatorGoodD(4,1) [OF good] b])
    (rule known_commands_change [OF good _ finishBody_only [OF b]], auto split: if_splits)

lemma changeBody_change:
  assumes good: "coordinatorGood K db" and b: "changeBody K now p st detail db = Inr (y, db')"
  shows "coordChange K db db'"
proof -
  note g = changeBody_good [OF coordinatorGoodD(4,1) [OF good] b]
  have "recordAt K db' i = None" if "recordAt K db i = None" for i
    using g that by (auto split: option.splits)
  then show ?thesis using known_commands_change [OF good _ changeBody_only [OF b]] g by blast
qed

lemma progressBody_change:
  assumes good: "coordinatorGood K db" and b: "progressBody K node p db = Inr (y, db')"
  shows "coordChange K db db'"
proof -
  note g = progressBody_good [OF coordinatorGoodD(4,1) [OF good] b]
  have "recordAt K db' i = None" if "recordAt K db i = None" for i
    using g that by (cases "i = cp_id p") auto
  then show ?thesis using known_commands_change [OF good _ progressBody_only [OF b]] g by blast
qed

text \<open>Operations on bindings, views and projects.\<close>

lemma recordAt_cong:
  "cd_bindings db' = cd_bindings db \<Longrightarrow> cd_commands db' = cd_commands db \<Longrightarrow> recordAt K db' = recordAt K db"
  by (rule ext) (metis recordAt_def)

text \<open>Rows and views are read the same once more identities are bound.\<close>

lemma decodeRow_grow:
  assumes keep: "\<And>i. stableOf bs i \<noteq> None \<Longrightarrow> stableOf bs' i \<noteq> None"
    and d: "decodeRow K bs (i, row) = Inr r"
  shows "decodeRow K bs' (i, row) = Inr r"
proof -
  obtain x u where x: "decodeCommandMessage record_unknown (k_record K) (cw_record row) = Inr x"
    "validateCommandRecord (k_pb K) x = Inr u"
    and c: "(if opt_all (rowDisagrees bs i row x) (rec_command x)
       then Inl (Msg ''stored command record disagrees with indexed fields or binding'') else Inr x) = Inr r"
    using d unfolding decodeRow_def by (auto simp only: prod.case bindR_eq_Inr)
  have r: "x = r" and n: "\<not> opt_all (rowDisagrees bs i row x) (rec_command x)"
    using c by (simp_all split: if_split_asm)
  have "\<not> opt_all (rowDisagrees bs' i row x) (rec_command x)"
    using n keep by (cases "rec_command x") (simp_all add: rowDisagrees_def)
  then show ?thesis using x r by (simp add: decodeRow_def)
qed

lemma decodeNode_grow:
  assumes keep: "\<And>i s. stableOf bs i = Some s \<Longrightarrow> stableOf bs' i = Some s"
    and d: "decodeNode K bs (i, p) = Inr v"
  shows "decodeNode K bs' (i, p) = Inr v"
proof (cases "stableOf bs i")
  case None
  then show ?thesis using d by (simp add: decodeNode_def)
next
  case (Some s)
  from keep [OF Some] Some have eq: "stableOf bs' i = stableOf bs i" by simp
  show ?thesis using d unfolding decodeNode_def prod.case eq .
qed

lemma bindAll_change:
  assumes good: "coordinatorGood K db" and b: "bindAll bs db = Inr db'"
  shows "coordChange K db db'"
proof -
  note d = coordinatorGoodD [OF good]
  have f: "bindings_ok (cd_bindings db')" "cd_nodes db' = cd_nodes db" "cd_commands db' = cd_commands db"
    "cd_projects db' = cd_projects db"
    using bindAll_facts [OF d(2) b] by blast+
  have keep: "stableOf (cd_bindings db') i = Some s" if "stableOf (cd_bindings db) i = Some s" for i s
    using stableOf_keeps [OF d(2) f(1)] bindAll_facts [OF d(2) b] that by blast
  have known: "stableOf (cd_bindings db') i \<noteq> None" if "stableOf (cd_bindings db) i \<noteq> None" for i
    using keep that by auto
  have rows: "decodeRow K (cd_bindings db') (i, row) = Inr r" if "decodeRow K (cd_bindings db) (i, row) = Inr r" for i row r
    by (rule decodeRow_grow [OF known that])
  have views: "decodeNode K (cd_bindings db') (i, p) = Inr v" if "decodeNode K (cd_bindings db) (i, p) = Inr v" for i p v
    by (rule decodeNode_grow [OF keep that])
  have ok: "coordinator_ok K db'" using d(4) rows f(3) unfolding coordinator_ok_def by metis
  have at: "recordAt K db' = recordAt K db"
  proof (rule ext)
    fix i show "recordAt K db' i = recordAt K db i"
    proof (cases "tget (cd_commands db) i")
      case None
      then show ?thesis by (simp add: recordAt_def f)
    next
      case (Some row)
      then obtain r where r: "decodeRow K (cd_bindings db) (i, row) = Inr r" using d(4) unfolding coordinator_ok_def by blast
      then show ?thesis using rows [OF r] Some by (simp add: recordAt_def f)
    qed
  qed
  have "fleet_ok K db'" using d(3) views f(2) unfolding fleet_ok_def by metis
  moreover have "projects_ok K db'" "projectAt K db' = projectAt K db"
    using d(6) f(4) by (simp_all add: projects_ok_def projectAt_def fun_eq_iff)
  moreover have "\<exists>y. projectAt K db k = Some y \<and> projectStep a y" if "projectAt K db k = Some a" for k a
    using that projectStep_refl by (auto elim: projectAt_facts)
  ultimately show ?thesis using d(1) f(1) keep ok at d(5)
    by (simp add: coordChange_def coordinatorGood_def)
qed

lemma views_change:
  assumes good: "coordinatorGood K db" and ok: "fleet_ok K db'"
    and same: "cd_bindings db' = cd_bindings db" "cd_commands db' = cd_commands db" "cd_projects db' = cd_projects db"
  shows "coordChange K db db'"
proof -
  note d = coordinatorGoodD [OF good]
  have eq: "coordinator_ok K db'" "recordAt K db' = recordAt K db" "projects_ok K db'" "projectAt K db' = projectAt K db"
    using d(4,6) same recordAt_cong [OF same(1,2)] by (simp_all add: coordinator_ok_def projects_ok_def projectAt_def fun_eq_iff)
  have "\<exists>y. projectAt K db k = Some y \<and> projectStep a y" if "projectAt K db k = Some a" for k a
    using that projectStep_refl by (auto elim: projectAt_facts)
  then show ?thesis using d ok eq same by (simp add: coordChange_def coordinatorGood_def)
qed

lemma registry_change:
  assumes good: "coordinatorGood K db" and s: "registryStep K db db'"
  shows "coordChange K db db'"
proof -
  note d = coordinatorGoodD [OF good]
  have same: "cd_bindings db' = cd_bindings db" "cd_nodes db' = cd_nodes db" "cd_commands db' = cd_commands db"
    using s by (simp_all add: registryStep_def)
  then have "coordinator_ok K db'" "recordAt K db' = recordAt K db" "fleet_ok K db'"
    using d(3,4) recordAt_cong [of db' db K] by (simp_all add: coordinator_ok_def fleet_ok_def)
  then show ?thesis using d s same by (simp add: coordChange_def coordinatorGood_def registryStep_def)
qed

section \<open>Every step keeps the invariant\<close>

lemma SaveNode_change:
  assumes good: "coordinatorGood K db" and s: "SaveNode E K view db = (x, db')"
  shows "coordChange K db db'"
proof (cases "bindR (enter E) (\<lambda>_. case view of
       None \<Rightarrow> Inl (Msg ''node is nil or exceeds the 260 KiB payload limit'')
     | Some v \<Rightarrow> bindR (encodeNode K v) (\<lambda>payload. Inr (v, payload)))")
  case (Inl e)
  then show ?thesis using s coordChange_refl [OF good] by (simp add: SaveNode_def)
next
  case (Inr vp)
  obtain v p where vp: "vp = (v, p)" by (cases vp)
  have e: "encodeNode K v = Inr p" using Inr by (auto simp: vp bindR_eq_Inr split: option.splits)
  have t: "transaction E (saveNodeBody K v p) db = (x, db')" using s Inr by (simp add: SaveNode_def vp)
  note d = coordinatorGoodD [OF good]
  show ?thesis
    by (rule transaction_change [OF t good], drule saveNodeBody_fleet [OF d(3,1) e]) (simp add: views_change [OF good])
qed

lemma deleteAll_change:
  assumes good: "coordinatorGood K db" and b: "deleteAll ids db = Inr db'"
  shows "coordChange K db db'"
proof -
  note f = deleteAll_facts [OF b]
  have "fleet_ok K db'" using coordinatorGoodD(3) [OF good] f by (auto simp: fleet_ok_def split: if_splits)
  then show ?thesis using views_change [OF good] f by blast
qed

lemma ownStep_change: "ownStep K db db' \<Longrightarrow> coordinatorGood K db \<Longrightarrow> coordChange K db db'"
proof (induction rule: ownStep.induct)
  case (import_bindings E bs db x db')
  from operation_change [OF import_bindings(1) [unfolded ImportBindings_def] import_bindings(2)]
  show ?case using bindAll_change [OF import_bindings(2)] by (auto simp: bindR_eq_Inr)
next
  case (save_node E view db x db')
  then show ?case by (rule SaveNode_change [rotated])
next
  case (delete_nodes E ids db x db')
  from operation_change [OF delete_nodes(1) [unfolded DeleteNodes_def] delete_nodes(2)]
  show ?case using deleteAll_change [OF delete_nodes(2)] by (auto simp: bindR_eq_Inr)
next
  case (create E command now db y db')
  show ?case
    by (rule operation_change [OF create(1) [unfolded CreateCommand_def] create(2)], cases command)
      (simp_all add: createBody_change [OF create(2)])
next
  case (reject E node cid detail now db r db')
  from operation_change [OF reject(1) [unfolded RejectCommand_body] reject(2)]
  show ?case using rejectBody_change [OF reject(2)] by auto
next
  case (dispatch E node cid now db y db')
  from operation_change [OF dispatch(1) [unfolded DispatchCommand_def] dispatch(2)]
  show ?case using dispatchBody_change [OF dispatch(2)] by auto
next
  case (progress E node p db x db')
  show ?case
  proof (cases "\<exists>q. p = Some q \<and> cp_unk q = [] \<and> ValidCommandID (cp_id q)")
    case True
    then obtain q where "operation E (Inr ()) (progressBody K node q) db = (x, db')"
      using progress(1) by (auto simp: SaveCommandProgress_def)
    then show ?thesis by (rule operation_change [OF _ progress(2)]) (rule progressBody_change [OF progress(2)])
  next
    case False
    then show ?thesis using progress(1) coordChange_refl [OF progress(2)]
      by (auto simp: SaveCommandProgress_def split: option.splits if_splits)
  qed
next
  case (lose E node now db x db')
  show ?case
  proof (cases "blank node")
    case False
    with lose(1) have "operation E (bindR (commandTime (k_pb K) now) (\<lambda>_. Inr ()))
        (changeBody K now (\<lambda>i row. cw_target row = node \<and> activeRow row) NODE_UNAVAILABLE ''node_disconnected'') db = (x, db')"
      by (simp add: LoseNodeCommands_def changeActiveCommands_def)
    then show ?thesis by (rule operation_change [OF _ lose(2)]) (rule changeBody_change [OF lose(2)])
  qed (use lose(1) coordChange_refl [OF lose(2)] in \<open>simp add: LoseNodeCommands_def\<close>)
next
  case (expire E now db x db')
  show ?case
  proof (cases "commandTime (k_pb K) now")
    case (Inr stamp)
    with expire(1) have "operation E (bindR (commandTime (k_pb K) now) (\<lambda>_. Inr ()))
        (changeBody K now (\<lambda>i row. activeRow row \<and> expiredRow stamp row) TIMED_OUT ''deadline_expired'') db = (x, db')"
      by (simp add: ExpireCommands_def changeActiveCommands_def)
    then show ?thesis by (rule operation_change [OF _ expire(2)]) (rule changeBody_change [OF expire(2)])
  qed (use expire(1) coordChange_refl [OF expire(2)] in \<open>simp add: ExpireCommands_def\<close>)
next
  case (recover E now db x db')
  from operation_change [OF recover(1) [unfolded RecoverCommands_def changeActiveCommands_def] recover(2)]
  show ?case using changeBody_change [OF recover(2)] by auto
next
  case (upsert E request db pr db')
  note d = coordinatorGoodD [OF upsert(2)]
  show ?case
  proof (cases "bindR (enter E) (\<lambda>_. projectOffer request)")
    case (Inr c)
    then have o: "projectOffer request = Inr c" by (auto simp: bindR_eq_Inr)
    have t: "transaction E (upsertBody K c) db = (pr, db')" using upsert(1) Inr by (simp add: UpsertProject_def)
    have v: "validateProjectConfig (Some c) = Inr ()" using projectOffer_facts [OF o] by blast
    show ?thesis
    proof (rule transaction_change [OF t upsert(2)])
      fix y assume y: "upsertBody K c db = Inr (y, db')"
      show "coordChange K db db'" using upsertBody_step [OF d(6,1) v y] registry_change [OF upsert(2)] by blast
    qed
  qed (use upsert(1) coordChange_refl [OF upsert(2)] in \<open>simp add: UpsertProject_def\<close>)
next
  case (ack E node a db pr db')
  note d = coordinatorGoodD [OF ack(2)]
  show ?case
  proof (cases "if \<not> ValidIdempotencyKey node then Inl (Msg ''invalid node identity'') else validateProjectAck a")
    case (Inl e)
    from ack(1) show ?thesis unfolding AckProject_def Inl
      using operation_durable [of E "Inl e"] coordChange_refl [OF ack(2)] by fastforce
  next
    case (Inr u)
    then have n: "node \<noteq> ''''" and v: "validateProjectAck a = Inr ()"
      by (auto simp: ValidIdempotencyKey_def dest: commandToken_nonempty split: if_splits)
    obtain x where x: "a = Some x" "pa_project x \<noteq> ''''"
      using v by (cases a) (auto simp: validateProjectAck_def ValidIdempotencyKey_def
          dest: commandToken_nonempty split: if_splits)
    show ?thesis
    proof (rule operation_change [OF ack(1) [unfolded AckProject_def] ack(2)])
      fix y assume "(case a of None \<Rightarrow> Inl (Msg ''invalid project acknowledgement'')
          | Some a \<Rightarrow> ackBody K node a db) = Inr (y, db')"
      then have y: "ackBody K node x db = Inr (y, db')" by (simp add: x)
      show "coordChange K db db'"
        by (rule ackBody_step [OF d(6,1) n x(2) y]) (rule registry_change [OF ack(2)])
    qed
  qed
next
  case (adopt E node offers db prs db')
  note d = coordinatorGoodD [OF adopt(2)]
  show ?case
  proof (cases "bindR (enter E) (\<lambda>_.
       if \<not> ValidIdempotencyKey node then Inl (Msg ''invalid node identity'')
       else if maxProjectsPerNode < length offers then Inl ErrProjectCapacity
       else offeredConfigs node [] offers)")
    case (Inr cs)
    then have o: "offeredConfigs node [] offers = Inr cs" by (auto simp: bindR_eq_Inr split: if_splits)
    have t: "transaction E (adoptLoop K node cs) db = (prs, db')" using adopt(1) Inr by (simp add: AdoptProjects_def)
    show ?thesis
    proof (rule transaction_change [OF t adopt(2)])
      fix y assume y: "adoptLoop K node cs db = Inr (y, db')"
      show "coordChange K db db'"
        using adoptLoop_step [OF d(6,1) offeredConfigs_facts(1) [OF o] conjunct1 [OF offeredConfigs_facts(3) [OF o]] y]
          registry_change [OF adopt(2)] by blast
    qed
  qed (use adopt(1) coordChange_refl [OF adopt(2)] in \<open>simp add: AdoptProjects_def\<close>)
qed

lemma coordStep_change: "coordStep K db db' \<Longrightarrow> coordinatorGood K db \<Longrightarrow> coordChange K db db'"
proof (induction rule: coordStep.induct)
  case (finish E node sid result now db r db')
  show ?case
    by (rule operation_change [OF finish(1) [unfolded FinishCommand_def] finish(2)], cases result)
      (simp_all add: finishBody_change [OF finish(2)])
qed (rule ownStep_change)

end
