(* ===== verification/SampleRun.thy ===== *)
theory SampleRun
  imports Coordinator
begin

text \<open>
  A concrete run of the coordinator: one bound node, a start command and a probe, admitted at second
  995 with a deadline at second 1000, dispatched, answered, recovered.
\<close>

definition at_ns :: "int \<Rightarrow> int" where
  "at_ns s = s * 1000000000"

lemma at_ns_stamp [simp]: "new_ts samplePb (at_ns s) = at_second s"
  by (simp add: at_ns_def at_second_def)

lemma at_second_time [simp]: "as_time samplePb (at_second s) = at_ns s" "ts_valid samplePb (at_second s)"
  by (simp_all add: at_ns_def at_second_def)

lemma at_ns_less [simp]: "at_ns a < at_ns b \<longleftrightarrow> a < b" "at_ns a \<le> at_ns b \<longleftrightarrow> a \<le> b"
  by (simp_all add: at_ns_def)

lemma commandTime_sample [simp]: "commandTime samplePb (at_ns s) = Inr (at_second s)"
  by (simp add: commandTime_def del: samplePb_simps)

lemma probe_fields:
  "c_id probeCommand = sampleId" "c_target probeCommand = ''node-1''" "c_key probeCommand = ''key-1''"
  "c_type probeCommand = ''node.ping.v1''" "c_expires probeCommand = Some (at_second 1000)"
  "c_ttl probeCommand = Some (seconds 10)" "c_start probeCommand = None" "c_control probeCommand = None"
  "c_session probeCommand = None"
  "c_actor probeCommand = Some sampleActor" "c_exec_expires probeCommand = None" "c_unk probeCommand = []"
  by (simp_all add: probeCommand_def emptyCommand_def)

lemma start_fields:
  "c_id startCommand = sampleId" "c_target startCommand = ''node-1''" "c_key startCommand = ''key-1''"
  "c_type startCommand = ''agent.start.v1''" "c_expires startCommand = Some (at_second 1000)"
  "c_ttl startCommand = Some (seconds 10)" "c_start startCommand = Some sampleStart"
  "c_control startCommand = None" "c_session startCommand = None"
  "c_actor startCommand = Some sampleActor" "c_exec_expires startCommand = Some (at_second 1060)" "c_unk startCommand = []"
  by (simp_all add: startCommand_def emptyCommand_def)

lemma probeCommand_valid: "ValidateCommand samplePb (Some probeCommand) ''node-1'' = Inr ()"
proof -
  have e: "validateExecution samplePb probeCommand = Inr ()"
    by (simp add: validateExecution_def probeCommand_def emptyCommand_def)
  have b: "validateCommandBody (c_type probeCommand) (c_workspace probeCommand)
      (checkedWorktree probeCommand) (c_control probeCommand) (c_session probeCommand)
      (c_start probeCommand) (c_stop probeCommand) = Inr ()"
    by (simp add: checkedWorktree_def validateCommandBody_def command_types probeCommand_def emptyCommand_def)
  have t: "validTTL samplePb (c_ttl probeCommand) = Inr ()"
    by (simp add: validTTL_def MaxCommandTTL_def probeCommand_def seconds_def)
  have x: "validExpiry samplePb (c_expires probeCommand)" "validCommandActor (c_actor probeCommand)"
    by (simp_all add: validExpiry_def validCommandActor_def probeCommand_def sampleActor_def at_second_def)
  have f: "c_payload probeCommand = None" "c_preconditions probeCommand = None" "c_submitted probeCommand = None"
    by (simp_all add: probeCommand_def emptyCommand_def)
  show ?thesis
    by (simp add: ValidateCommand_def e b t x f probe_fields(1-3,12) MaxLifecycleReceiptBytes_def ValidCommandID_def)
qed

text \<open>The record the sample command has just after admission, and stores that hold one record.\<close>

definition admitted :: "command \<Rightarrow> command_record" where
  "admitted c = newRecord c (at_second 995)"

definition storeOf :: "command \<Rightarrow> command_record \<Rightarrow> blob coordinator" where
  "storeOf c r = oneNode\<lparr>cd_commands := [(sampleId, rowOf c (rec_status r) (BRecord r))]\<rparr>"

lemma validateCommand_sample:
  "validateCommand samplePb (Some probeCommand) ''node-1'' = Inr ()"
  "validateCommand samplePb (Some startCommand) ''node-1'' = Inr ()"
  by (simp_all add: validateCommand_def probeCommand_valid startCommand_valid maxCommandBytes_def MaxLifecycleReceiptBytes_def)

definition dispatched :: "command \<Rightarrow> command_record" where
  "dispatched c = transitioned samplePb (admitted c) RUNNING ''dispatched'' (at_ns 996)"

definition finished :: "command \<Rightarrow> command_record" where
  "finished c = transitioned samplePb (dispatched c) SUCCEEDED ''pong'' (at_ns 997)"

definition lost :: "command \<Rightarrow> command_record" where
  "lost c = transitioned samplePb (dispatched c) INDETERMINATE ''server_restarted'' (at_ns 997)"

lemmas run_records = admitted_def dispatched_def finished_def lost_def newRecord_def transitioned_def

lemma messages_known: "\<not> command_unknown probeCommand" "\<not> command_unknown startCommand" "\<not> ts_unknown (at_second n)"
  by (simp_all add: command_unknown_def probeCommand_def emptyCommand_def sampleActor_def seconds_def at_second_def
      du_unknown_def ts_unknown_def startCommand_def startRequest_def emptyRequest_def sampleStart_def request_unknown_def)

text \<open>What the sample runs need of a command.\<close>

definition runnable :: "command \<Rightarrow> bool" where
  "runnable c = (c_id c = sampleId \<and> c_target c = ''node-1'' \<and> c_key c = ''key-1'' \<and> c_expires c = Some (at_second 1000) \<and>
     c_actor c = Some sampleActor \<and> \<not> command_unknown c \<and> validateCommand samplePb (Some c) ''node-1'' = Inr () \<and>
     validateCommandRecord samplePb (admitted c) = Inr () \<and> validateCommandRecord samplePb (dispatched c) = Inr ())"

lemma run_known:
  assumes "runnable c"
  shows "\<not> record_unknown (admitted c)" "\<not> record_unknown (dispatched c)" "\<not> record_unknown (finished c)"
    "\<not> record_unknown (lost c)"
  using assms messages_known(3) by (auto simp: runnable_def record_unknown_def run_records audit_unknown_def simp del: samplePb_simps)

lemmas eval_record = validateCommandRecord_def recordAudit_def auditEvent_def validTime_def asDurationOf_def
  asTimeOf_def maxCommandAudit_def validCommandOutcome_def validCommandTransition_def IsLifecycleCommand_def
  authorizationSensitiveCommand_def projectMutation_def command_types validateCommand_sample recordData_def

lemma seconds_ns [simp]: "as_duration samplePb (seconds n) = at_ns n"
  by (simp add: seconds_def at_ns_def)

lemma at_ns_add [simp]: "at_ns a + at_ns b = at_ns (a + b)"
  by (simp add: at_ns_def algebra_simps)

lemma probe_valid:
  "validateCommandRecord samplePb (admitted probeCommand) = Inr ()"
  "validateCommandRecord samplePb (dispatched probeCommand) = Inr ()"
  "validateCommandRecord samplePb (lost probeCommand) = Inr ()"
  using messages_known
  by (simp_all add: eval_record probe_fields run_records IsTerminalCommand_def record_unknown_def audit_unknown_def del: samplePb_simps)

lemma start_valid:
  "validateCommandRecord samplePb (admitted startCommand) = Inr ()"
  "validateCommandRecord samplePb (dispatched startCommand) = Inr ()"
  using messages_known
  by (simp_all add: eval_record start_fields run_records IsTerminalCommand_def record_unknown_def audit_unknown_def del: samplePb_simps)

lemma runnable_samples [simp]: "runnable probeCommand" "runnable startCommand"
  by (simp_all add: runnable_def probe_fields start_fields messages_known validateCommand_sample probe_valid start_valid)

definition pong :: command_result where
  "pong = emptyResult\<lparr>cr_id := sampleId, cr_status := SUCCEEDED, cr_detail := ''pong''\<rparr>"

lemma pong_valid: "ValidateResultForCommand samplePb (Some pong) probeCommand = Inr ()"
  "ValidateCommandResult (Some pong) = Inr ()"
proof -
  have p: "ValidateProbeResult (Some pong) = Inr ()"
    by (simp add: ValidateProbeResult_def pong_def emptyResult_def ValidCommandID_def)
  show "ValidateResultForCommand samplePb (Some pong) probeCommand = Inr ()"
    using p by (simp add: ValidateResultForCommand_def probe_fields command_types IsLifecycleCommand_def)
      (simp add: pong_def emptyResult_def)
  show "ValidateCommandResult (Some pong) = Inr ()"
    using p by (simp add: ValidateCommandResult_def)
qed

lemma finished_result: "recordResult (finished probeCommand) = pong"
  by (simp add: recordResult_def run_records pong_def emptyResult_def probe_fields)

lemma finished_valid: "validateCommandRecord samplePb (finished probeCommand) = Inr ()"
proof -
  have d: "recordData samplePb (finished probeCommand) probeCommand = Inr ()"
    using pong_valid(1) finished_result
    by (simp add: recordData_def IsLifecycleCommand_def probe_fields command_types)
      (simp add: run_records)
  show ?thesis
    using run_known [of probeCommand] d
    by (simp add: eval_record probe_fields run_records IsTerminalCommand_def del: samplePb_simps recordData_def)
qed

section \<open>The operations on the sample stores\<close>

lemma storeOf_decode:
  assumes "validateCommandRecord samplePb r = Inr ()" and "\<not> record_unknown r" and "rec_command r = Some c"
    and "runnable c"
  shows "decodeRow sampleCodecs (cd_bindings oneNode) (sampleId, rowOf c (rec_status r) (BRecord r)) = Inr r"
  using assms
  by (auto simp: decodeRow_def decodeCommandMessage_def maxCommandBytes_def rowDisagrees_def rowOf_def actorOf_def
      runnable_def at_second_def sampleActor_def)

lemma storeOf_read:
  assumes "validateCommandRecord samplePb r = Inr ()" and "\<not> record_unknown r" and "rec_command r = Some c"
    and "runnable c"
  shows "readCommands sampleCodecs (storeOf c r) p =
    (if p sampleId (rowOf c (rec_status r) (BRecord r)) then Inr [r] else Inr [])"
  using storeOf_decode [OF assms]
  by (simp add: readCommands_def storeOf_def maxCommands_def tselect_def)

lemma storeOf_at:
  assumes "validateCommandRecord samplePb r = Inr ()" and "\<not> record_unknown r" and "rec_command r = Some c"
    and "runnable c"
  shows "recordAt sampleCodecs (storeOf c r) i = (if i = sampleId then Some r else None)"
  using storeOf_decode [OF assms] by (simp add: recordAt_def storeOf_def tget_def)

lemma storeOf_transition:
  assumes "validateCommandRecord samplePb (transitioned samplePb r st detail (at_ns n)) = Inr ()"
    and "\<not> record_unknown (transitioned samplePb r st detail (at_ns n))" and "rec_command r = Some c"
    and "c_id c = sampleId" and "validCommandTransition (c_type c) (rec_status r) st detail"
    and "validCommandOutcome (c_type c) st detail" and "length (rec_audit r) < maxCommandAudit" and "storedStatus st"
    and "0 \<le> cw_nanos (rowOf c st (BRecord r))" "cw_nanos (rowOf c st (BRecord r)) \<le> 999999999"
  shows "transitionCommand sampleCodecs r st detail (at_ns n) (storeOf c r0) =
    Inr (transitioned samplePb r st detail (at_ns n), storeOf c (transitioned samplePb r st detail (at_ns n)))"
proof -
  let ?r = "transitioned samplePb r st detail (at_ns n)"
  have "r\<lparr>rec_status := st, rec_detail := detail, rec_updated := Some (at_second n),
      rec_audit := rec_audit r @ [\<lparr>au_status = st, au_detail = detail, au_at = Some (at_second n), au_unk = []\<rparr>]\<rparr> = ?r"
    by (simp add: transitioned_def del: samplePb_simps)
  moreover have "updateCommand sampleCodecs sampleId st (BRecord ?r) (storeOf c r0) = Inr (storeOf c ?r)"
    using assms(8-10)
    by (simp add: updateCommand_def storeOf_def tget_def commandRowOk_def rowOf_def Let_def)
  ultimately show ?thesis
    using assms(1-7) by (simp add: transitionCommand_def marshalCommandMessage_def marshalBounded_def
        maxCommandBytes_def Let_def not_le)
qed

lemma either_fields:
  assumes "runnable c"
  shows "c_id c = sampleId" "c_target c = ''node-1''" "c_key c = ''key-1''" "c_expires c = Some (at_second 1000)"
    "actorOf c = ''op''" "validateCommand samplePb (Some c) ''node-1'' = Inr ()"
    "validateCommandRecord samplePb (admitted c) = Inr ()" "validateCommandRecord samplePb (dispatched c) = Inr ()"
    "validCommandTransition (c_type c) ACCEPTED RUNNING ''dispatched''"
    "validCommandOutcome (c_type c) RUNNING ''dispatched''"
  using assms by (auto simp: runnable_def actorOf_def sampleActor_def validCommandTransition_def validCommandOutcome_def IsTerminalCommand_def)

lemma run_fields:
  "rec_command (admitted c) = Some c" "rec_status (admitted c) = ACCEPTED" "length (rec_audit (admitted c)) = 1"
  "rec_command (dispatched c) = Some c" "rec_status (dispatched c) = RUNNING" "length (rec_audit (dispatched c)) = 2"
  "rec_command (finished c) = Some c" "rec_status (finished c) = SUCCEEDED"
  "rec_command (lost c) = Some c" "rec_status (lost c) = INDETERMINATE"
  by (simp_all add: run_records)

lemma row_nanos [simp]: "c_expires c = Some (at_second n) \<Longrightarrow> cw_nanos (rowOf c st b) = 0"
  by (simp add: rowOf_def at_second_def)

lemma sample_admit:
  assumes "runnable c"
  shows "CreateCommand calm sampleCodecs (Some c) (at_ns 995) oneNode = (Inr (admitted c, True), storeOf c (admitted c))"
proof -
  note e = either_fields [OF assms]
  have none: "readCommands sampleCodecs oneNode p = Inr []" for p
    by (simp add: readCommands_def oneNode_def emptyCoordinator_def tselect_def)
  have rd: "readCommand sampleCodecs oneNode p = Inl ErrCommandNotFound" for p
    by (simp add: readCommand_def none)
  have ins: "insertCommand sampleCodecs sampleId (rowOf c ACCEPTED (BRecord (admitted c))) oneNode =
      Inr (storeOf c (admitted c))"
    using e by (simp add: insertCommand_def commandRowOk_def storeOf_def run_fields storedStatus_def rowOf_def)
      (simp add: oneNode_def emptyCoordinator_def tselect_def tget_def at_second_def)
  have fen: "checkCoordinatorLifecycleFence sampleCodecs oneNode c = Inr ()"
    "checkNamedAgentClaim sampleCodecs oneNode c = Inr ()"
    by (simp_all add: checkCoordinatorLifecycleFence_def checkNamedAgentClaim_def none split: option.splits)
  have "admitCommand sampleCodecs c (at_second 995) oneNode = Inr ((admitted c, True), storeOf c (admitted c))"
    using e fen ins run_known [OF assms]
    by (simp add: admitCommand_def Let_def admitted_def [symmetric] marshalCommandMessage_def marshalBounded_def
        maxCommandBytes_def maxCommands_def) (simp add: oneNode_def emptyCoordinator_def tget_def)
  then show ?thesis
    using e rd by (simp add: CreateCommand_def calm_operation createBody_def del: samplePb_simps)
qed

lemma sample_dispatch:
  assumes "runnable c"
  shows "DispatchCommand calm sampleCodecs ''node-1'' sampleId (at_ns 996) (storeOf c (admitted c)) =
    (Inr (dispatched c, True), storeOf c (dispatched c))"
proof -
  note e = either_fields [OF assms]
  have rd: "readCommand sampleCodecs (storeOf c (admitted c)) (byID sampleId) = Inr (admitted c)"
    using storeOf_read [OF e(7) run_known(1) [OF assms] run_fields(1) assms] by (simp add: readCommand_def byID_def)
  have tr: "transitionCommand sampleCodecs (admitted c) RUNNING ''dispatched'' (at_ns 996) (storeOf c (admitted c)) =
      Inr (dispatched c, storeOf c (dispatched c))"
    unfolding dispatched_def
    by (rule storeOf_transition)
      (use e run_known(2) [OF assms] in \<open>simp_all add: run_fields dispatched_def [symmetric] maxCommandAudit_def storedStatus_def\<close>)
  have b: "\<not> blank ''node-1''" "\<not> blank sampleId" by (simp_all add: eval_text sampleId_def list_all_iff)
  have "expiryOf samplePb (admitted c) = at_ns 1000"
    by (simp add: expiryOf_def run_fields asTimeOf_def e del: samplePb_simps)
  then show ?thesis using rd tr b
    by (simp add: DispatchCommand_def calm_operation dispatchBody_def run_fields e del: samplePb_simps)
qed

lemma sample_recover:
  "RecoverCommands calm sampleCodecs (at_ns 997) (storeOf probeCommand (dispatched probeCommand)) =
    (Inr (), storeOf probeCommand (lost probeCommand))"
proof -
  note e = either_fields [of probeCommand, simplified]
  have rd: "readCommands sampleCodecs (storeOf probeCommand (dispatched probeCommand)) (\<lambda>i row. activeRow row) =
      Inr [dispatched probeCommand]"
    using storeOf_read [OF e(8) run_known(2) run_fields(4), of "\<lambda>i row. activeRow row"]
    by (simp add: activeRow_def rowOf_def run_fields)
  have tr: "transitionCommand sampleCodecs (dispatched probeCommand) INDETERMINATE ''server_restarted'' (at_ns 997)
      (storeOf probeCommand (dispatched probeCommand)) = Inr (lost probeCommand, storeOf probeCommand (lost probeCommand))"
    unfolding lost_def
    by (rule storeOf_transition)
      (use e probe_valid run_known(4) in \<open>simp_all add: run_fields lost_def [symmetric] maxCommandAudit_def storedStatus_def
        validCommandTransition_def validCommandOutcome_def IsTerminalCommand_def IsLifecycleCommand_def command_types probe_fields\<close>)
  show ?thesis using rd tr
    by (simp add: RecoverCommands_def changeActiveCommands_def calm_operation changeBody_def run_fields del: samplePb_simps)
qed

lemma sample_finish:
  "FinishCommand calm sampleCodecs ''node-1'' ''n1'' (Some pong) (at_ns 997) (storeOf probeCommand (dispatched probeCommand)) =
    (Inr (finished probeCommand), storeOf probeCommand (finished probeCommand))"
proof -
  note e = either_fields [of probeCommand, simplified]
  have p: "cr_id pong = sampleId" "cr_status pong = SUCCEEDED" "cr_detail pong = ''pong''"
    "withResult (dispatched probeCommand) pong = dispatched probeCommand"
    by (simp_all add: pong_def emptyResult_def withResult_def)
  have rd: "readCommand sampleCodecs (storeOf probeCommand (dispatched probeCommand)) (byID sampleId) = Inr (dispatched probeCommand)"
    using storeOf_read [OF e(8) run_known(2) run_fields(4), of "byID sampleId"]
    by (simp add: readCommand_def byID_def)
  have tr: "transitionCommand sampleCodecs (dispatched probeCommand) SUCCEEDED ''pong'' (at_ns 997)
      (storeOf probeCommand (dispatched probeCommand)) = Inr (finished probeCommand, storeOf probeCommand (finished probeCommand))"
    unfolding finished_def
    by (rule storeOf_transition)
      (use e finished_valid run_known(3) in \<open>simp_all add: run_fields finished_def [symmetric] maxCommandAudit_def storedStatus_def
        validCommandTransition_def validCommandOutcome_def IsTerminalCommand_def IsLifecycleCommand_def command_types probe_fields\<close>)
  have ne: "recordResult (dispatched probeCommand) \<noteq> pong"
  proof
    assume "recordResult (dispatched probeCommand) = pong"
    then have "cr_status (recordResult (dispatched probeCommand)) = SUCCEEDED" using p(2) by simp
    then show False by (simp add: recordResult_def run_fields)
  qed
  have b: "\<not> blank ''node-1''" "\<not> blank ''n1''" by (simp_all add: eval_text)
  have bd: "stableOf (cd_bindings (storeOf probeCommand (dispatched probeCommand))) ''node-1'' = Some ''n1''"
    by (simp add: storeOf_def)
  show ?thesis using rd tr ne b bd pong_valid p e
    by (simp add: FinishCommand_def calm_operation finishBody_def finishRecord_def conflictOf_def run_fields probe_fields
        IsLifecycleCommand_def command_types del: samplePb_simps)
qed

section \<open>They are good stores\<close>

lemma oneNode_good: "coordinatorGood sampleCodecs oneNode"
proof -
  have i: "ImportBindings calm [\<lparr>bd_stable = ''n1'', bd_instance = ''node-1''\<rparr>] emptyCoordinator = (Inr (), oneNode)"
    by (simp add: oneNode_def ImportBindings_def calm_operation bindRow_def emptyCoordinator_def tselect_def
        tget_def eval_text)
  show ?thesis
    using coordStep_change [OF coord_import_bindings [OF i] coordinatorGood_empty [OF sampleCodecs_ok]]
    by (simp add: coordChange_def)
qed

lemma admitted_good:
  assumes "runnable c"
  shows "coordinatorGood sampleCodecs (storeOf c (admitted c))"
  using coordStep_change [OF coord_create [OF sample_admit [OF assms]] oneNode_good] by (simp add: coordChange_def)

lemma dispatched_good:
  assumes "runnable c"
  shows "coordinatorGood sampleCodecs (storeOf c (dispatched c))"
  using coordStep_change [OF coord_dispatch [OF sample_dispatch [OF assms]] admitted_good [OF assms]]
  by (simp add: coordChange_def)

end
