(* ===== verification/Fences.thy ===== *)
theory Fences
  imports CommandStore
begin

text \<open>
  What the fences of both journals keep apart, spelled out without the code that decides it
  (\<open>lifecycleConflict\<close> and \<open>controlConflict\<close>): the coordinator checks it when it admits a command, the
  node when it claims one.
\<close>

text \<open>The terminal a prompt or an input is for; interrupts are never fenced.\<close>

definition inputTerminal :: "command \<Rightarrow> string option" where
  "inputTerminal c = (case c_control c of None \<Rightarrow> None
     | Some v \<Rightarrow> if ag_action v = ACTION_INTERRUPT then None else Some (getter at_terminal (ag_target v)))"

text \<open>What an unresolved \<open>d\<close> may still do to a terminal: send its input, start an agent there, close it.\<close>

definition mayActOn :: "command \<Rightarrow> receipt option \<Rightarrow> string \<Rightarrow> bool" where
  "mayActOn d r terminal = (inputTerminal d = Some terminal \<or>
     c_start d \<noteq> None \<and> receiptTerminal r \<in> {'''', terminal} \<or>
     opt_ex (\<lambda>s. getter at_terminal (st_target s) = terminal) (c_stop d))"

lemma one_body:
  assumes "ValidateCommand P (Some c) node = Inr ()"
  shows "c_start c \<noteq> None \<longrightarrow> c_control c = None \<and> c_stop c = None" "c_stop c \<noteq> None \<longrightarrow> c_control c = None \<and> c_start c = None"
proof -
  have k: "bodyKinds (c_workspace c) (checkedWorktree c) (c_control c) (c_session c) (c_start c) (c_stop c) =
      (if c_type c = ProbeCommandType then [] else [c_type c])"
    using validateCommandBody_kind [OF ValidateCommand_parts(7) [OF assms]] .
  show "c_start c \<noteq> None \<longrightarrow> c_control c = None \<and> c_stop c = None" "c_stop c \<noteq> None \<longrightarrow> c_control c = None \<and> c_start c = None"
    using arg_cong [OF k, of length] by (auto simp: bodyKinds_def split: if_splits)
qed

lemma conflict_open:
  assumes v: "ValidateCommand P (Some c) node = Inr ()" and w: "ValidateCommand P (Some d) node = Inr ()"
    and no: "\<not> lifecycleConflict d r status c (lifecycleIncarnation c None)" and diff: "c_id d \<noteq> c_id c"
    and st: "status = ACCEPTED \<or> status = RUNNING \<or> status = INDETERMINATE"
    and apart: "lifecycleIncarnation c None = '''' \<or> lifecycleIncarnation d r \<in> {'''', lifecycleIncarnation c None}"
  shows "\<not> opt_ex (\<lambda>a. opt_ex (\<lambda>b. as_workspace a = as_workspace b) (c_start d)) (c_start c)"
    "\<not> opt_ex (mayActOn d r) (inputTerminal c)"
proof -
  have t: "c_target d = c_target c" using ValidateCommand_parts(2) [OF v] ValidateCommand_parts(2) [OF w] by simp
  note open1 = no [unfolded lifecycleConflict_def Let_def]
  show "\<not> opt_ex (\<lambda>a. opt_ex (\<lambda>b. as_workspace a = as_workspace b) (c_start d)) (c_start c)"
    using open1 t diff st apart by (cases "c_start c"; cases "c_start d") auto
  show "\<not> opt_ex (mayActOn d r) (inputTerminal c)"
  proof (cases "inputTerminal c")
    case (Some terminal)
    then obtain x where x: "c_control c = Some x" "ag_action x \<noteq> ACTION_INTERRUPT" "terminal = getter at_terminal (ag_target x)"
      by (auto simp: inputTerminal_def split: option.splits if_splits)
    then have "c_start c = None" using one_body(1) [OF v] by auto
    then have "\<not> controlConflict d r x" using open1 t diff st apart x by auto
    then have "\<not> mayActOn d r terminal"
      using one_body [OF w] x(3)
      by (auto simp: controlConflict_def mayActOn_def inputTerminal_def Let_def split: option.splits if_splits)
    then show ?thesis using Some by simp
  qed simp
qed

text \<open>The coordinator passes no incarnation of its own.\<close>

lemma lifecycleConflict_own:
  "lifecycleConflict d r status c '''' = lifecycleConflict d r status c (lifecycleIncarnation c None)"
  by (simp add: lifecycleConflict_def Let_def)

end
