(* ===== verification/CoordinatorContract.thy ===== *)
theory CoordinatorContract
  imports SampleRun Fences
begin

text \<open>
  What the coordinator's store promises over any run of its operations: the journal interface holds
  of its commands, its projects and its identities, and from it follow the permanence of records,
  dispatch at most once, idempotent admission and the exact effect of recovery and expiry.
\<close>

section \<open>The journal interface, three times\<close>

interpretation commands: durable_journal "coordinatorGood K" "coordStep K" "recordAt K" "recordStep (k_pb K)"
    "\<lambda>r. \<not> openStatus (rec_status r)" for K :: "'b codecs"
proof
  fix s t :: "'b coordinator" and i a
  assume g: "coordinatorGood K s" "coordStep K s t"
  note c = coordStep_change [OF g(2,1)]
  show "coordinatorGood K t" using c by (simp add: coordChange_def)
  show "\<exists>b. recordAt K t i = Some b \<and> recordStep (k_pb K) a b" if "recordAt K s i = Some a"
    using c that by (auto simp: coordChange_def journalStep_def)
qed (auto intro: recordStep_trans recordStep_final)

interpretation registry: durable_journal "coordinatorGood K" "coordStep K" "projectAt K" projectStep "\<lambda>r. False"
    for K :: "'b codecs"
proof
  fix s t :: "'b coordinator" and i a
  assume g: "coordinatorGood K s" "coordStep K s t"
  note c = coordStep_change [OF g(2,1)]
  show "coordinatorGood K t" using c by (simp add: coordChange_def)
  show "\<exists>b. projectAt K t i = Some b \<and> projectStep a b" if "projectAt K s i = Some a"
    using c that unfolding coordChange_def by blast
next
  fix s :: "'b coordinator" and i a
  assume "projectAt K s i = Some a"
  then show "projectStep a a" by (auto elim: projectAt_facts intro: projectStep_refl)
qed (auto intro: projectStep_trans)

interpretation identities: durable_journal "coordinatorGood K" "coordStep K" "\<lambda>db. stableOf (cd_bindings db)" "(=)"
    "\<lambda>r. True" for K :: "'b codecs"
proof
  fix s t :: "'b coordinator" and i a
  assume g: "coordinatorGood K s" "coordStep K s t"
  note c = coordStep_change [OF g(2,1)]
  show "coordinatorGood K t" using c by (simp add: coordChange_def)
  show "\<exists>b. stableOf (cd_bindings t) i = Some b \<and> a = b" if "stableOf (cd_bindings s) i = Some a"
    using c that by (auto simp: coordChange_def)
qed auto

section \<open>Records and their lookups\<close>

lemma command_facts:
  assumes "recordAt K db i = Some r" and "codecs_ok K"
  obtains c t where "rec_command r = Some c" "c_id c = i" "ValidateCommand (k_pb K) (Some c) (c_target c) = Inr ()"
    "c_expires c = Some t" "ts_valid (k_pb K) t" "validateCommandRecord (k_pb K) r = Inr ()"
proof -
  obtain c where c: "rec_command r = Some c" "c_id c = i" "validateCommandRecord (k_pb K) r = Inr ()"
    using assms(1) by (rule recordAt_command)
  obtain c' where "rec_command r = Some c'" "validateCommand (k_pb K) (Some c') (c_target c') = Inr ()"
    using c(3) by (rule validateCommandRecord_parts)
  then have v: "ValidateCommand (k_pb K) (Some c) (c_target c) = Inr ()"
    using c(1) validateCommand_ValidateCommand by simp
  then obtain t where "c_expires c = Some t" "ts_valid (k_pb K) t"
    using ValidateCommand_parts(11) [OF v] by (auto simp: validExpiry_def split: option.splits)
  then show thesis using that c v by blast
qed

lemma readCommand_byKey_found:
  assumes ok: "coordinator_ok K db" and at: "recordAt K db i = Some r" and c: "rec_command r = Some c"
  shows "readCommand K db (byKey (actorOf c) (c_key c)) = Inr r"
proof -
  note d = coordinator_okD(1) [OF ok]
  obtain row where row: "tget (cd_commands db) i = Some row" "decodeRow K (cd_bindings db) (i, row) = Inr r"
    "row = rowOf c (rec_status r) (cw_record row)"
    using at c by (auto elim!: recordAt_row)
  have k: "cw_actor row = actorOf c" "cw_key row = c_key c" by (subst row(3), simp add: rowOf_def)+
  have "tselect (byKey (actorOf c) (c_key c)) (cd_commands db) = tselect (\<lambda>j row. j = i \<and> True) (cd_commands db)"
    unfolding tselect_def
  proof (intro filter_cong refl)
    fix jr assume "jr \<in> set (cd_commands db)"
    then have "tget (cd_commands db) (fst jr) = Some (snd jr)" using tget_mem [OF d, of "fst jr" "snd jr"] by simp
    then have "byKey (actorOf c) (c_key c) (fst jr) (snd jr) \<longleftrightarrow> fst jr = i"
      using ok row(1) k unfolding coordinator_ok_def keysUnique_def byKey_def by (metis option.inject)
    then show "(case jr of (k, r) \<Rightarrow> byKey (actorOf c) (c_key c) k r) = (case jr of (j, row) \<Rightarrow> j = i \<and> True)"
      by (simp add: case_prod_beta)
  qed
  also have "\<dots> = [(i, row)]" using tselect_key [OF d, of i "\<lambda>_. True"] row(1) by simp
  finally have s: "tselect (byKey (actorOf c) (c_key c)) (cd_commands db) = [(i, row)]" .
  have "length (cd_commands db) \<le> maxCommands" using ok by (simp add: coordinator_ok_def)
  then show ?thesis by (simp add: readCommand_def readCommands_def s row(2))
qed

lemma CreateCommand_cases:
  assumes "CreateCommand E K (Some c) now db = (x, db')"
  shows "db' = db \<or> (\<exists>y. createBody K c (new_ts (k_pb K) now) db = Inr (y, db'))"
    "x = Inr y \<Longrightarrow> createBody K c (new_ts (k_pb K) now) db = Inr (y, db')"
  using operation_durable [OF assms [unfolded CreateCommand_def]]
    operation_Inr(2) [of E _ _ db y db'] assms [unfolded CreateCommand_def] by fastforce+

lemma DispatchCommand_Inr:
  "DispatchCommand E K node i now db = (Inr y, db') \<Longrightarrow> dispatchBody K node i now db = Inr (y, db')"
  unfolding DispatchCommand_def by (rule operation_Inr(2))

lemma FinishCommand_Inr:
  assumes "FinishCommand E K node sid (Some v) now db = (Inr y, db')"
  shows "finishBody K node sid v now db = Inr (y, db')"
  using operation_Inr(2) [OF assms [unfolded FinishCommand_def]] by simp

section \<open>Promises\<close>

text \<open>
  C20. The coordinator's store never becomes unreadable.  In every state reachable from an empty store
  by any sequence of operations, successful, refused, interrupted or with an unknown commit, the
  invariant holds, there are at most 4096 commands and 128 node views, and every read of the command
  journal and of the fleet succeeds.
\<close>

theorem coordinator_invariant:
  assumes "codecs_ok K" and "(coordStep K)\<^sup>*\<^sup>* emptyCoordinator db"
  shows "coordinatorGood K db \<and> length (cd_commands db) \<le> 4096 \<and> length (cd_nodes db) \<le> 128 \<and>
    (\<forall>p. \<exists>rs. readCommands K db p = Inr rs) \<and> (\<exists>vs. readFleet K db = Inr vs)"
proof -
  have g: "coordinatorGood K db"
    by (rule commands.run_inv [OF assms(2) coordinatorGood_empty [OF assms(1)]])
  note d = coordinatorGoodD [OF g]
  show ?thesis using g readCommands_total [OF d(4)] readFleet_ok [OF d(3)] d(3,4)
    by (auto simp: coordinator_ok_def fleet_ok_def maxCommands_def maxNodes_def)
qed

text \<open>
  C2. Command records are permanent.  Over any run of operations a recorded command is never lost, its
  request and admission time never change, its audit trail only grows, it never returns to
  accepted once it left it, a conclusive record is never touched again, and its lifecycle receipt is
  kept or advances by legal evidence.
\<close>

theorem records_permanent:
  assumes "coordinatorGood K db" and "(coordStep K)\<^sup>*\<^sup>* db db'" and "recordAt K db i = Some a"
  shows "\<exists>b. recordAt K db' i = Some b \<and> rec_command b = rec_command a \<and> rec_created b = rec_created a \<and>
    (\<exists>more. rec_audit b = rec_audit a @ more) \<and>
    (rec_status a \<noteq> ACCEPTED \<longrightarrow> rec_status b \<noteq> ACCEPTED) \<and>
    (rec_status a \<notin> {ACCEPTED, RUNNING, INDETERMINATE} \<longrightarrow> b = a) \<and>
    (rec_lifecycle b = rec_lifecycle a \<or> (\<exists>c. rec_command a = Some c \<and>
      ValidateLifecycleAdvance (k_pb K) (rec_lifecycle a) (rec_lifecycle b) c = Inr ()))"
proof -
  obtain b where b: "recordAt K db' i = Some b" "recordStep (k_pb K) a b"
    using commands.run_entry [OF assms(2,1,3)] by blast
  obtain c where "rec_command a = Some c" using assms(3) by (rule recordAt_command)
  then show ?thesis using b
    by (intro exI [of _ b]) (auto simp: recordStep_def openStatus_def list_prefix_iff)
qed

text \<open>
  C1. A command is handed to its node at most once.  If \<open>DispatchCommand\<close> grants the dispatch, the
  command was accepted, was not past its deadline and is bound for that node; and whatever happens
  afterwards, restarts and failures included, no later call grants it again.
\<close>

theorem dispatched_once:
  assumes "coordinatorGood K db" and "DispatchCommand E K node i now db = (Inr (r, True), db1)"
    and "(coordStep K)\<^sup>*\<^sup>* db1 db2" and "DispatchCommand E' K node' i now' db2 = (Inr (r', d), db3)"
  shows "rec_status r = RUNNING \<and> now < expiryOf (k_pb K) r \<and>
    getter c_target (rec_command r) = node \<and> rec_command r' = rec_command r \<and> \<not> d \<and> db3 = db2"
proof -
  note g = coordinatorGoodD [OF assms(1)]
  obtain r0 c where f: "recordAt K db i = Some r0" "rec_command r0 = Some c" "c_target c = node"
    "goodChange K db db1" "recordAt K db1 = (recordAt K db)(i \<mapsto> r)" "rec_status r0 = ACCEPTED"
    "now < expiryOf (k_pb K) r0" "r = transitioned (k_pb K) r0 RUNNING ''dispatched'' now"
    by (rule dispatchBody_good [OF g(4,1) DispatchCommand_Inr [OF assms(2)]]) auto
  have g1: "coordinatorGood K db1"
    using coordStep_change [OF coord_dispatch [OF assms(2)] assms(1)] by (simp add: coordChange_def)
  have at: "recordAt K db1 i = Some r" using f(5) by simp
  obtain b where b: "recordAt K db2 i = Some b" "recordStep (k_pb K) r b"
    using commands.run_entry [OF assms(3) g1 at] by blast
  have st: "rec_status b \<noteq> ACCEPTED" using b(2) f(8) by (simp add: recordStep_def)
  note g2 = coordinatorGoodD [OF commands.run_inv [OF assms(3) g1]]
  have "r' = b \<and> \<not> d \<and> recordAt K db3 = recordAt K db2"
    by (rule dispatchBody_good [OF g2(4,1) DispatchCommand_Inr [OF assms(4)]])
      (use b(1) st in \<open>auto split: if_splits\<close>)
  moreover have "db3 = db2"
    using DispatchCommand_Inr [OF assms(4)] readCommand_byID [OF g2(4), of i] b(1) st
    by (auto simp: dispatchBody_def split: if_splits)
  ultimately show ?thesis using f b(2) by (simp add: recordStep_def expiryOf_def)
qed

text \<open>
  C3. Submitting is idempotent.  Once a command is admitted under an actor's idempotency key, then
  whatever happens afterwards a second submission under that key admits nothing and changes nothing:
  for the same request it returns the original command, and for a different one it is refused
  as a conflict.
\<close>

theorem create_idempotent:
  assumes "coordinatorGood K db" and "CreateCommand E K (Some c) now db = (Inr (r, created), db1)"
    and "(coordStep K)\<^sup>*\<^sup>* db1 db2" and "CreateCommand E' K (Some c') now' db2 = (x, db3)"
    and "actorOf c' = actorOf c" and "c_key c' = c_key c"
  shows "db3 = db2 \<and> (\<exists>original. rec_command r = Some original \<and>
    (case x of
       Inr (r', created') \<Rightarrow> \<not> created' \<and> rec_command r' = Some original \<and> matchingRequest original c'
     | Inl e \<Rightarrow> E' = calm \<longrightarrow> validateCommand (k_pb K) (Some c') (c_target c') = Inr () \<longrightarrow>
         is_ok (commandTime (k_pb K) now') \<longrightarrow> \<not> matchingRequest original c' \<and> e = ErrCommandConflict))"
proof -
  note g = coordinatorGoodD [OF assms(1)]
  have b1: "createBody K c (new_ts (k_pb K) now) db = Inr ((r, created), db1)"
    using CreateCommand_cases(2) [OF assms(2)] by simp
  have "\<exists>i orig. rec_command r = Some orig \<and> recordAt K db1 i = Some r \<and> actorOf orig = actorOf c \<and> c_key orig = c_key c"
  proof (cases created)
    case True
    then show ?thesis using createBody_cases [OF g(4,1) b1] by auto
  next
    case False
    then have f: "db1 = db" "readCommand K db (byKey (actorOf c) (c_key c)) = Inr r"
      using createBody_cases [OF g(4,1) b1] by simp_all
    from readCommand_byKey [OF g(4) f(2)] show ?thesis using f(1) by metis
  qed
  then obtain i orig where o: "rec_command r = Some orig" "recordAt K db1 i = Some r"
    "actorOf orig = actorOf c" "c_key orig = c_key c" by blast
  have g1: "coordinatorGood K db1"
    using coordStep_change [OF coord_create [OF assms(2)] assms(1)] by (simp add: coordChange_def)
  obtain b where b: "recordAt K db2 i = Some b" "recordStep (k_pb K) r b"
    using commands.run_entry [OF assms(3) g1 o(2)] by blast
  have bo: "rec_command b = Some orig" using b(2) o(1) by (simp add: recordStep_def)
  note g2 = coordinatorGoodD [OF commands.run_inv [OF assms(3) g1]]
  have found: "readCommand K db2 (byKey (actorOf c') (c_key c')) = Inr b"
    using readCommand_byKey_found [OF g2(4) b(1) bo] o(3,4) assms(5,6) by simp
  have body: "createBody K c' stamp db2 =
      (if matchingRequest orig c' then Inr ((b, False), db2) else Inl ErrCommandConflict)" for stamp
    by (simp add: createBody_def found bo)
  have same: "db3 = db2"
    using CreateCommand_cases(1) [OF assms(4)] body by (auto split: if_splits)
  show ?thesis
  proof (cases x)
    case (Inr y)
    have "createBody K c' (new_ts (k_pb K) now') db2 = Inr (y, db3)"
      using CreateCommand_cases(2) [OF assms(4)] Inr by blast
    then show ?thesis using Inr same o(1) bo body by (auto split: if_splits)
  next
    case (Inl e)
    have "\<not> matchingRequest orig c' \<and> e = ErrCommandConflict"
      if q: "E' = calm" "validateCommand (k_pb K) (Some c') (c_target c') = Inr ()" "is_ok (commandTime (k_pb K) now')"
    proof -
      obtain stamp where "commandTime (k_pb K) now' = Inr stamp" using q(3) by (cases "commandTime (k_pb K) now'") simp_all
      then show ?thesis using assms(4) Inl q(1,2) body
        by (simp add: CreateCommand_def calm_operation split: if_splits)
    qed
    then show ?thesis using Inl same o(1) by simp
  qed
qed

text \<open>
  C4. What admission guarantees.  A newly admitted command is stored as accepted under a fresh identity
  and a fresh (actor, key), for a target whose identity is bound, within the capacity of 4096; nothing
  else changes; and if it starts an agent, then no other start of that name is recorded for the node
  and session, and no unresolved start, one that is accepted, running or of unknown outcome, holds
  the workspace unless both name different server incarnations.  If it sends a prompt or keys to an
  agent, then no unresolved command of the node that may concern the same server can still act on
  that terminal: none sends input to it, none starts an agent that may end up in it, none closes it.
\<close>

theorem create_admits:
  assumes "coordinatorGood K db" and "CreateCommand E K (Some c) now db = (Inr (r, True), db')"
  shows "r = newRecord c (new_ts (k_pb K) now) \<and> recordAt K db (c_id c) = None \<and>
    recordAt K db' = (recordAt K db)(c_id c \<mapsto> r) \<and> length (cd_commands db) < 4096 \<and>
    stableOf (cd_bindings db) (c_target c) \<noteq> None \<and>
    (\<forall>i a d. recordAt K db i = Some a \<longrightarrow> rec_command a = Some d \<longrightarrow>
       \<not> (actorOf d = actorOf c \<and> c_key d = c_key c) \<and>
       (c_target d = c_target c \<longrightarrow> c_start c \<noteq> None \<longrightarrow> c_start d \<noteq> None \<longrightarrow>
         \<not> (as_session (the (c_start d)) = as_session (the (c_start c)) \<and>
            as_name (the (c_start d)) = as_name (the (c_start c))) \<and>
         (openStatus (rec_status a) \<longrightarrow>
           as_workspace (the (c_start d)) = as_workspace (the (c_start c)) \<longrightarrow>
           lifecycleIncarnation d (rec_lifecycle a) \<noteq> '''' \<and> lifecycleIncarnation c None \<noteq> '''' \<and>
           lifecycleIncarnation d (rec_lifecycle a) \<noteq> lifecycleIncarnation c None)) \<and>
       (c_target d = c_target c \<longrightarrow> openStatus (rec_status a) \<longrightarrow>
         lifecycleIncarnation c None = '''' \<or>
           lifecycleIncarnation d (rec_lifecycle a) \<in> {'''', lifecycleIncarnation c None} \<longrightarrow>
         \<not> opt_ex (mayActOn d (rec_lifecycle a)) (inputTerminal c)))"
proof -
  note g = coordinatorGoodD [OF assms(1)]
  have b: "createBody K c (new_ts (k_pb K) now) db = Inr ((r, True), db')"
    using CreateCommand_cases(2) [OF assms(2)] by simp
  have cs: "r = newRecord c (new_ts (k_pb K) now)" "recordAt K db (c_id c) = None"
    "recordAt K db' = (recordAt K db)(c_id c \<mapsto> r)" "length (cd_commands db) < maxCommands"
    "tselect (byKey (actorOf c) (c_key c)) (cd_commands db) = []"
    "checkCoordinatorLifecycleFence K db c = Inr ()" "checkNamedAgentClaim K db c = Inr ()"
    using createBody_cases [OF g(4,1) b] by simp_all
  have g': "coordinatorGood K db'" 
    using coordStep_change [OF coord_create [OF assms(2)] assms(1)] by (simp add: coordChange_def)
  have bound: "stableOf (cd_bindings db) (c_target c) \<noteq> None"
  proof -
    have "recordAt K db' (c_id c) = Some r" "rec_command r = Some c" using cs(1,3) by simp_all
    then have "stableOf (cd_bindings db') (c_target c) \<noteq> None" by (auto elim!: recordAt_row)
    then show ?thesis using createBody_only [OF b] by (simp add: onlyCommands_def)
  qed
  have valid_at: "ValidateCommand (k_pb K) (Some d) (c_target d) = Inr ()"
    if at: "recordAt K s i = Some a" and d: "rec_command a = Some d" for s i a d
    using at d by (auto elim!: recordAt_row validateCommandRecord_parts dest: validateCommand_ValidateCommand)
  have valid: "ValidateCommand (k_pb K) (Some c) (c_target c) = Inr ()"
    by (rule valid_at [of db' "c_id c" r]) (simp_all add: cs(1,3))
  have others: "\<not> (actorOf d = actorOf c \<and> c_key d = c_key c) \<and>
       (c_target d = c_target c \<longrightarrow> c_start c \<noteq> None \<longrightarrow> c_start d \<noteq> None \<longrightarrow>
         \<not> (as_session (the (c_start d)) = as_session (the (c_start c)) \<and>
            as_name (the (c_start d)) = as_name (the (c_start c))) \<and>
         (openStatus (rec_status a) \<longrightarrow>
           as_workspace (the (c_start d)) = as_workspace (the (c_start c)) \<longrightarrow>
           lifecycleIncarnation d (rec_lifecycle a) \<noteq> '''' \<and> lifecycleIncarnation c None \<noteq> '''' \<and>
           lifecycleIncarnation d (rec_lifecycle a) \<noteq> lifecycleIncarnation c None)) \<and>
       (c_target d = c_target c \<longrightarrow> openStatus (rec_status a) \<longrightarrow>
         lifecycleIncarnation c None = '''' \<or>
           lifecycleIncarnation d (rec_lifecycle a) \<in> {'''', lifecycleIncarnation c None} \<longrightarrow>
         \<not> opt_ex (mayActOn d (rec_lifecycle a)) (inputTerminal c))"
    if at: "recordAt K db i = Some a" and d: "rec_command a = Some d" for i a d
  proof -
    obtain row where row: "tget (cd_commands db) i = Some row" and ci: "c_id d = i"
      and rw: "row = rowOf d (rec_status a) (cw_record row)"
      using at d by (auto elim!: recordAt_row)
    have rf: "cw_actor row = actorOf d" "cw_key row = c_key d" "cw_target row = c_target d" "cw_status row = rec_status a"
      by (subst rw, simp add: rowOf_def)+
    have mem: "(i, row) \<in> set (cd_commands db)" by (rule tget_Some_mem [OF row])
    have nk: "\<not> (actorOf d = actorOf c \<and> c_key d = c_key c)"
    proof
      assume "actorOf d = actorOf c \<and> c_key d = c_key c"
      then have "(i, row) \<in> set (tselect (byKey (actorOf c) (c_key c)) (cd_commands db))"
        using mem rf by (simp add: tselect_mem byKey_def)
      then show False using cs(5) by simp
    qed
    have nn: "\<not> (as_session y = as_session x \<and> as_name y = as_name x)"
      if t: "c_target d = c_target c" "c_start c = Some x" "c_start d = Some y" for x y
    proof
      assume eq: "as_session y = as_session x \<and> as_name y = as_name x"
      let ?f = "(recordAt K db)(c_id c \<mapsto> r)"
      have ne: "i \<noteq> c_id c" using at cs(2) by auto
      have n: "namesUnique ?f" using named_claim_unique [OF g(4,5) cs(7)] cs(1) by simp
      have 1: "?f i = Some a" using at ne by simp
      have 2: "?f (c_id c) = Some r" "rec_command r = Some c" using cs(1) by simp_all
      show False
        using namesUnique_at [OF n 1 d t(3) 2 t(2,1)] eq ne by blast
    qed
    have other: "c_id d \<noteq> c_id c" using at cs(2) ci by auto
    have apart: "\<not> recordConflicts a c"
      if t: "c_target d = c_target c" "openStatus (rec_status a)" and n: "c_start c \<noteq> None \<or> c_control c \<noteq> None"
    proof -
      obtain rs where rs: "readCommands K db (byFence (c_target c)) = Inr rs"
        and e: "\<forall>r \<in> set rs. \<not> recordConflicts r c"
        using cs(6) n by (auto simp: checkCoordinatorLifecycleFence_def bindR_eq_Inr each_eq_Inr split: if_splits)
      have "byFence (c_target c) i row" using rf t by (auto simp: byFence_def openStatus_def)
      from readCommands_all [OF rs coordinator_okD(1) [OF g(4)] row this at] show ?thesis using e by blast
    qed
    have nf: "lifecycleIncarnation d (rec_lifecycle a) \<noteq> '''' \<and> lifecycleIncarnation c None \<noteq> '''' \<and>
        lifecycleIncarnation d (rec_lifecycle a) \<noteq> lifecycleIncarnation c None"
      if t: "c_target d = c_target c" "c_start c = Some x" "c_start d = Some y" "openStatus (rec_status a)"
        "as_workspace y = as_workspace x" for x y
      using apart [OF t(1,4)] other t d
      by (simp add: recordConflicts_def lifecycleConflict_def openStatus_def Let_def split: if_splits)
    have ni: "\<not> opt_ex (mayActOn d (rec_lifecycle a)) (inputTerminal c)"
      if t: "c_target d = c_target c" "openStatus (rec_status a)"
        "lifecycleIncarnation c None = '''' \<or>
          lifecycleIncarnation d (rec_lifecycle a) \<in> {'''', lifecycleIncarnation c None}"
    proof (cases "c_control c")
      case (Some x)
      have "\<not> lifecycleConflict d (rec_lifecycle a) (rec_status a) c (lifecycleIncarnation c None)"
        using apart [OF t(1,2)] Some d by (simp add: recordConflicts_def lifecycleConflict_own)
      then show ?thesis
        using conflict_open(2) [OF valid valid_at [OF at d, unfolded t(1)]] t(2,3) other by (simp add: openStatus_def)
    qed (simp add: inputTerminal_def)
    show ?thesis
    proof (cases "c_start c")
      case None
      then show ?thesis using nk ni by simp
    next
      case (Some x)
      then show ?thesis using nk ni nn [OF _ Some] nf [OF _ Some] by (cases "c_start d") auto
    qed
  qed
  show ?thesis using cs(1-4) bound others by (simp add: maxCommands_def)
qed

section \<open>Results\<close>

lemma finish_facts:
  assumes "coordinatorGood K db" and "FinishCommand E K node sid (Some v) now db = (Inr r', db')"
  shows "\<exists>r c. recordAt K db (cr_id v) = Some r \<and> rec_command r = Some c \<and> c_target c = node \<and>
    stableOf (cd_bindings db) node = Some sid \<and> ValidateResultForCommand (k_pb K) (Some v) c = Inr () \<and>
    recordAt K db' = (recordAt K db)(cr_id v \<mapsto> r') \<and> rec_command r' = Some c \<and>
    (r' = r \<and> db' = db \<or>
     rec_status r \<in> {RUNNING, INDETERMINATE} \<and> rec_status r' = cr_status v \<and> rec_detail r' = cr_detail v)"
proof -
  note g = coordinatorGoodD [OF assms(1)]
  obtain r c where f: "recordAt K db (cr_id v) = Some r" "rec_command r = Some c" "c_target c = node"
    "stableOf (cd_bindings db) node = Some sid" "ValidateResultForCommand (k_pb K) (Some v) c = Inr ()"
    "goodChange K db db'" "recordAt K db' = (recordAt K db)(cr_id v \<mapsto> r')"
    "db' = db \<and> r' = r \<or> rec_status r \<in> {RUNNING, INDETERMINATE} \<and> rec_status r' = cr_status v \<and>
      rec_detail r' = cr_detail v"
    using finishBody_good [OF g(4,1) FinishCommand_Inr [OF assms(2)]] by metis
  have "journalStep (k_pb K) (recordAt K db) (recordAt K db')" using f(6) by (simp add: goodChange_def)
  then have "\<exists>b. recordAt K db' (cr_id v) = Some b \<and> recordStep (k_pb K) r b"
    using f(1) unfolding journalStep_def by blast
  then have rc: "rec_command r' = Some c" unfolding f(7) recordStep_def using f(2) by simp
  have m: "r' = r \<and> db' = db \<or>
     rec_status r \<in> {RUNNING, INDETERMINATE} \<and> rec_status r' = cr_status v \<and> rec_detail r' = cr_detail v"
    using f(8) by (elim disjE conjE) simp_all
  show ?thesis by (intro exI [of _ r] exI [of _ c] conjI f(1-5,7) rc m)
qed

text \<open>
  C6. Only the bound node can conclude a command, and only with an answer to it.  An accepted
  result comes from the stable identity bound to the command's target and is valid for the command; it
  leaves every other record as it was; and it either changes nothing or moves a running or
  unknown command to exactly the status and detail it reports.
\<close>

theorem finish_authority:
  assumes "coordinatorGood K db" and "FinishCommand E K node sid (Some v) now db = (Inr r', db')"
  shows "\<exists>r c. recordAt K db (cr_id v) = Some r \<and> rec_command r = Some c \<and> c_target c = node \<and>
    stableOf (cd_bindings db) node = Some sid \<and> ValidateResultForCommand (k_pb K) (Some v) c = Inr () \<and>
    recordAt K db' = (recordAt K db)(cr_id v \<mapsto> r') \<and> rec_command r' = Some c \<and>
    (r' = r \<and> db' = db \<or>
     rec_status r \<in> {RUNNING, INDETERMINATE} \<and> rec_status r' = cr_status v \<and> rec_detail r' = cr_detail v)"
  by (rule finish_facts [OF assms])

section \<open>Recovery, loss of a node, expiry\<close>

lemma row_of_record:
  "recordAt K db i = Some r \<Longrightarrow> \<exists>row c. tget (cd_commands db) i = Some row \<and> rec_command r = Some c \<and>
      cw_status row = rec_status r \<and> cw_target row = c_target c \<and>
      cw_seconds row = (case c_expires c of None \<Rightarrow> 0 | Some t \<Rightarrow> ts_seconds t) \<and>
      cw_nanos row = (case c_expires c of None \<Rightarrow> 0 | Some t \<Rightarrow> ts_nanos t)"
proof (erule recordAt_row)
  fix row c
  assume row: "tget (cd_commands db) i = Some row" "rec_command r = Some c" "row = rowOf c (rec_status r) (cw_record row)"
  have "cw_status row = rec_status r" "cw_target row = c_target c"
      "cw_seconds row = (case c_expires c of None \<Rightarrow> 0 | Some t \<Rightarrow> ts_seconds t)"
      "cw_nanos row = (case c_expires c of None \<Rightarrow> 0 | Some t \<Rightarrow> ts_nanos t)"
    by (subst row(3), simp add: rowOf_def)+
  then show ?thesis using row(1,2) by blast
qed

lemma changeActive_record:
  assumes "coordinatorGood K db" and "changeBody K now p st detail db = Inr (u, db')"
    and "recordAt K db i = Some r" and "tget (cd_commands db) i = Some row"
  shows "recordAt K db' i = Some (if p i row then changed (k_pb K) now st detail r else r)"
  using changeBody_good [OF coordinatorGoodD(4,1) [OF assms(1)] assms(2)] assms(3,4) by simp

lemma changeActive_new:
  assumes "coordinatorGood K db" and "changeBody K now p st detail db = Inr (u, db')"
    and "recordAt K db' i = Some r'"
  shows "\<exists>r. recordAt K db i = Some r"
  using changeBody_good [OF coordinatorGoodD(4,1) [OF assms(1)] assms(2)] assms(3)
  by (auto split: option.splits if_splits)

text \<open>The records after a bulk change, from the rows before.\<close>

definition interruptedBy :: "pb \<Rightarrow> command_status \<Rightarrow> string \<Rightarrow> int \<Rightarrow> command_record \<Rightarrow> command_record" where
  "interruptedBy P accepted detail now r =
     (if rec_status r = ACCEPTED then transitioned P r accepted detail now
      else if rec_status r = RUNNING then transitioned P r INDETERMINATE detail now else r)"

lemma interruptedBy_status:
  "rec_status (interruptedBy P st detail now r) =
     (if rec_status r = ACCEPTED then st else if rec_status r = RUNNING then INDETERMINATE else rec_status r)"
  by (simp add: interruptedBy_def)

lemma recovered_records:
  assumes "coordinatorGood K db" and "RecoverCommands E K now db = (Inr (), db')"
  shows "recordAt K db' = (\<lambda>i. map_option (interruptedBy (k_pb K) NODE_UNAVAILABLE ''server_restarted'' now) (recordAt K db i))"
proof (rule ext)
  fix i
  have b: "changeBody K now (\<lambda>i row. activeRow row) NODE_UNAVAILABLE ''server_restarted'' db = Inr ((), db')"
    using operation_Inr(2) [OF assms(2) [unfolded RecoverCommands_def changeActiveCommands_def]] .
  show "recordAt K db' i = map_option (interruptedBy (k_pb K) NODE_UNAVAILABLE ''server_restarted'' now) (recordAt K db i)"
  proof (cases "recordAt K db i")
    case None
    then show ?thesis using changeActive_new [OF assms(1) b, of i] by (cases "recordAt K db' i") auto
  next
    case (Some r)
    then obtain row c where row: "tget (cd_commands db) i = Some row" "cw_status row = rec_status r"
      using row_of_record by blast
    show ?thesis using changeActive_record [OF assms(1) b Some row(1)] Some row(2)
      by (simp add: activeRow_def changed_def skipped_def interruptedBy_def)
  qed
qed

text \<open>
  C18. Restart recovery is exact.  After a successful \<open>RecoverCommands\<close> no command is accepted or
  running: one that was accepted, so never reached a node, is reported node-unavailable; one that was
  running is reported indeterminate, never as done or failed; and every other record is as it was.
\<close>

theorem recovery_exact:
  assumes "coordinatorGood K db" and "RecoverCommands E K now db = (Inr (), db')"
  shows "recordAt K db' = (\<lambda>i. map_option (interruptedBy (k_pb K) NODE_UNAVAILABLE ''server_restarted'' now) (recordAt K db i)) \<and>
    (\<forall>i r. recordAt K db' i = Some r \<longrightarrow> rec_status r \<noteq> ACCEPTED \<and> rec_status r \<noteq> RUNNING)"
proof -
  note eq = recovered_records [OF assms]
  have "rec_status r \<noteq> ACCEPTED \<and> rec_status r \<noteq> RUNNING" if "recordAt K db' i = Some r" for i r
    using that unfolding eq by (auto simp: interruptedBy_status split: if_splits)
  then show ?thesis using eq by blast
qed

text \<open>
  Losing a node touches exactly that node's active commands: what it had not been given is
  node-unavailable, what it was running is indeterminate, and no other record changes.
\<close>

theorem node_loss_exact:
  assumes "coordinatorGood K db" and "LoseNodeCommands E K node now db = (Inr (), db')"
  shows "recordAt K db' = (\<lambda>i. map_option (\<lambda>r.
    if getter c_target (rec_command r) = node
    then interruptedBy (k_pb K) NODE_UNAVAILABLE ''node_disconnected'' now r else r) (recordAt K db i))"
proof (rule ext)
  fix i
  have "\<not> blank node" using assms(2) by (auto simp: LoseNodeCommands_def split: if_splits)
  then have op: "operation E (bindR (commandTime (k_pb K) now) (\<lambda>_. Inr ()))
      (changeBody K now (\<lambda>i row. cw_target row = node \<and> activeRow row) NODE_UNAVAILABLE ''node_disconnected'') db = (Inr (), db')"
    using assms(2) by (simp add: LoseNodeCommands_def changeActiveCommands_def)
  note b = operation_Inr(2) [OF op]
  show "recordAt K db' i = map_option (\<lambda>r.
    if getter c_target (rec_command r) = node
    then interruptedBy (k_pb K) NODE_UNAVAILABLE ''node_disconnected'' now r else r) (recordAt K db i)"
  proof (cases "recordAt K db i")
    case None
    then show ?thesis using changeActive_new [OF assms(1) b, of i] by (cases "recordAt K db' i") auto
  next
    case (Some r)
    then obtain row c where row: "tget (cd_commands db) i = Some row" "cw_status row = rec_status r"
      "rec_command r = Some c" "cw_target row = c_target c"
      using row_of_record by blast
    show ?thesis using changeActive_record [OF assms(1) b Some row(1)] Some row(2-)
      by (simp add: activeRow_def changed_def skipped_def interruptedBy_def)
  qed
qed

text \<open>The SQL comparison of seconds and nanoseconds is the comparison of times.\<close>

lemma expired_iff:
  assumes "pb_ok P" and "ts_valid P (new_ts P now)" and "ts_valid P t"
    and "cw_seconds row = ts_seconds t" and "cw_nanos row = ts_nanos t"
  shows "expiredRow (new_ts P now) row \<longleftrightarrow> as_time P t \<le> now"
proof -
  have n: "as_time P (new_ts P now) = now" using assms(1) by (simp add: pb_ok_def)
  have v: "0 \<le> ts_nanos t" "ts_nanos t < 1000000000" "as_time P t = ts_seconds t * 1000000000 + ts_nanos t"
    "0 \<le> ts_nanos (new_ts P now)" "ts_nanos (new_ts P now) < 1000000000"
    "now = ts_seconds (new_ts P now) * 1000000000 + ts_nanos (new_ts P now)"
    using assms(1-3) n unfolding pb_ok_def by metis+
  show ?thesis unfolding expiredRow_def assms(4,5) using v by linarith
qed

text \<open>
  C19. Expiry is exact.  A successful \<open>ExpireCommands\<close> at time \<open>now\<close> changes exactly the active commands
  whose deadline is not after \<open>now\<close>: an accepted one times out; a running one becomes indeterminate, but
  only once its execution deadline, which for agent starts is later than the dispatch deadline,
  has passed too.
\<close>

theorem expiry_exact:
  assumes "coordinatorGood K db" and "ExpireCommands E K now db = (Inr (), db')"
  shows "recordAt K db' = (\<lambda>i. map_option (\<lambda>r.
    if now < expiryOf (k_pb K) r \<or>
       rec_status r = RUNNING \<and> opt_ex (\<lambda>c. now < CommandExecutionDeadline (k_pb K) c) (rec_command r)
    then r else interruptedBy (k_pb K) TIMED_OUT ''deadline_expired'' now r) (recordAt K db i))"
proof (rule ext)
  fix i
  note g = coordinatorGoodD [OF assms(1)]
  obtain stamp where st: "commandTime (k_pb K) now = Inr stamp"
    using assms(2) by (auto simp: ExpireCommands_def split: sum.splits)
  then have sv: "stamp = new_ts (k_pb K) now" "ts_valid (k_pb K) (new_ts (k_pb K) now)"
    by (auto simp: commandTime_def split: if_splits)
  have op: "operation E (bindR (commandTime (k_pb K) now) (\<lambda>_. Inr ()))
      (changeBody K now (\<lambda>i row. activeRow row \<and> expiredRow stamp row) TIMED_OUT ''deadline_expired'') db = (Inr (), db')"
    using assms(2) st by (simp add: ExpireCommands_def changeActiveCommands_def)
  note b = operation_Inr(2) [OF op]
  show "recordAt K db' i = map_option (\<lambda>r.
    if now < expiryOf (k_pb K) r \<or>
       rec_status r = RUNNING \<and> opt_ex (\<lambda>c. now < CommandExecutionDeadline (k_pb K) c) (rec_command r)
    then r else interruptedBy (k_pb K) TIMED_OUT ''deadline_expired'' now r) (recordAt K db i)"
  proof (cases "recordAt K db i")
    case None
    then show ?thesis using changeActive_new [OF assms(1) b, of i] by (cases "recordAt K db' i") auto
  next
    case (Some r)
    obtain c t where c: "rec_command r = Some c" "c_expires c = Some t" "ts_valid (k_pb K) t"
      using Some g(1) by (rule command_facts)
    obtain row where row: "tget (cd_commands db) i = Some row" "cw_status row = rec_status r"
      "cw_seconds row = ts_seconds t" "cw_nanos row = ts_nanos t"
      using row_of_record [OF Some] c by auto
    have e: "expiredRow stamp row \<longleftrightarrow> expiryOf (k_pb K) r \<le> now"
      unfolding sv(1) using expired_iff [OF _ sv(2) c(3) row(3,4)] g(1) c
      by (simp add: codecs_ok_def expiryOf_def asTimeOf_def)
    show ?thesis using changeActive_record [OF assms(1) b Some row(1)] Some row(2) e c(1)
      by (auto simp: activeRow_def changed_def skipped_def interruptedBy_def)
  qed
qed

section \<open>The audit trail and the clock\<close>

lemma record_audit:
  assumes "recordAt K db i = Some r"
  obtains c where "rec_command r = Some c" "recordAudit (k_pb K) r c = Inr ()"
    "length (rec_audit r) \<le> maxCommandAudit"
proof -
  obtain c where c: "rec_command r = Some c" "validateCommandRecord (k_pb K) r = Inr ()"
    using assms by (rule recordAt_command)
  from c(2) show thesis by (rule validateCommandRecord_parts) (rule that, simp_all)
qed

lemma auditLoop_times:
  assumes "auditLoop P kind created None es = Inr p"
  shows "\<forall>j. Suc j < length es \<longrightarrow> asTimeOf P (au_at (es ! j)) \<le> asTimeOf P (au_at (es ! Suc j))"
    and "es \<noteq> [] \<Longrightarrow> au_at (hd es) = created"
  using assms
proof (induction es arbitrary: p rule: rev_induct)
  case (snoc e es)
  { case 1
    then obtain q where q: "auditLoop P kind created None es = Inr q" "auditEvent P kind created q e = Inr ()"
      by (auto simp: auditLoop_snoc bindR_eq_Inr)
    show ?case
    proof (cases "es = []")
      case False
      then have l: "q = Some (last es)" using auditLoop_last [OF q(1)] by simp
      have t: "asTimeOf P (au_at (last es)) \<le> asTimeOf P (au_at e)"
        using q(2) l by (auto simp: auditEvent_def split: if_splits)
      show ?thesis
      proof (intro allI impI)
        fix j assume j: "Suc j < length (es @ [e])"
        show "asTimeOf P (au_at ((es @ [e]) ! j)) \<le> asTimeOf P (au_at ((es @ [e]) ! Suc j))"
        proof (cases "Suc j < length es")
          case True
          then show ?thesis using snoc.IH(1) [OF q(1)] by (simp add: nth_append)
        next
          case c: False
          then have "j = length es - 1" using j False by (cases es rule: rev_cases) auto
          then show ?thesis using False t by (simp add: nth_append last_conv_nth)
        qed
      qed
    qed simp
  next
    case 2
    then obtain q where q: "auditLoop P kind created None es = Inr q" "auditEvent P kind created q e = Inr ()"
      by (auto simp: auditLoop_snoc bindR_eq_Inr)
    show ?case
    proof (cases "es = []")
      case True
      then show ?thesis using q by (auto simp: auditEvent_def split: if_splits)
    next
      case False
      then show ?thesis using snoc.IH(2) [OF False q(1)] by simp
    qed
  }
qed simp_all

text \<open>
  C21. Every record explains itself.  The audit trail of a stored command starts with its admission, at
  its creation time; consecutive events are legal transitions for its kind with non-decreasing times;
  every event carries a detail its status allows; the last event is the record's present status,
  detail and update time; and there are at most 16.
\<close>

theorem audit_is_history:
  assumes "recordAt K db i = Some r"
  shows "\<exists>c es. rec_command r = Some c \<and> rec_audit r = es \<and> 1 \<le> length es \<and> length es \<le> 16 \<and>
    au_status (hd es) = ACCEPTED \<and> au_at (hd es) = rec_created r \<and>
    (\<forall>j. Suc j < length es \<longrightarrow>
      validCommandTransition (c_type c) (au_status (es ! j)) (au_status (es ! Suc j)) (au_detail (es ! Suc j)) \<and>
      asTimeOf (k_pb K) (au_at (es ! j)) \<le> asTimeOf (k_pb K) (au_at (es ! Suc j))) \<and>
    (\<forall>e \<in> set es. validCommandOutcome (c_type c) (au_status e) (au_detail e)) \<and>
    au_status (last es) = rec_status r \<and> au_detail (last es) = rec_detail r \<and> au_at (last es) = rec_updated r"
proof -
  obtain c where c: "rec_command r = Some c" "recordAudit (k_pb K) r c = Inr ()"
    "length (rec_audit r) \<le> maxCommandAudit"
    using assms by (rule record_audit)
  note f = recordAudit_facts [OF c(2)]
  note t = auditLoop_times [OF f(6)]
  have "1 \<le> length (rec_audit r)" using f(1) by (simp add: Suc_le_eq)
  then show ?thesis
    using c f t by (intro exI [of _ c] exI [of _ "rec_audit r"]) (simp add: auditChain_def maxCommandAudit_def)
qed

lemma change_backwards:
  assumes g: "coordinatorGood K db" and at: "recordAt K db i = Some r" and act: "rec_status r \<in> {ACCEPTED, RUNNING}"
    and late: "now < asTimeOf (k_pb K) (rec_updated r)"
    and p: "\<And>row c. tget (cd_commands db) i = Some row \<Longrightarrow> cw_status row = rec_status r \<Longrightarrow> rec_command r = Some c \<Longrightarrow>
      cw_target row = c_target c \<Longrightarrow> p i row"
    and b: "changeBody K now p NODE_UNAVAILABLE detail db = Inr (u, db')" and det: "detail \<noteq> ''deadline_expired''"
  shows False
proof -
  obtain row k where row: "tget (cd_commands db) i = Some row" "cw_status row = rec_status r"
    "rec_command r = Some k" "cw_target row = c_target k"
    using row_of_record [OF at] by blast
  let ?st = "if rec_status r = RUNNING then INDETERMINATE else NODE_UNAVAILABLE"
  have "recordAt K db' i = Some (transitioned (k_pb K) r ?st detail now)"
    using changeActive_record [OF g b at row(1)] p [OF row] act det
    by (auto simp: changed_def skipped_def)
  then obtain c where c: "rec_command (transitioned (k_pb K) r ?st detail now) = Some c"
    "recordAudit (k_pb K) (transitioned (k_pb K) r ?st detail now) c = Inr ()"
    by (rule record_audit)
  obtain c' where c': "rec_command r = Some c'" "recordAudit (k_pb K) r c' = Inr ()"
    using at by (rule record_audit)
  note f = recordAudit_facts(1,5,6) [OF c'(2)]
  have n: "asTimeOf (k_pb K) (Some (new_ts (k_pb K) now)) = now"
    using coordinatorGoodD(1) [OF g] by (simp add: codecs_ok_def pb_ok_def asTimeOf_def)
  show False using recordAudit_facts(6) [OF c(2)] f c c' late n
    by (auto simp: auditLoop_snoc bindR_eq_Inr auditEvent_def split: if_splits)
qed

text \<open>The same for the loss of one node, whatever the caller does with the error.\<close>

lemma LoseNodeCommands_backwards:
  assumes "coordinatorGood K db" and "recordAt K db i = Some r" and "rec_status r \<in> {ACCEPTED, RUNNING}"
    and "rec_command r = Some c" and "now < asTimeOf (k_pb K) (rec_updated r)"
    and "LoseNodeCommands E K (c_target c) now db = (x, db')"
  shows "db' = db \<and> (\<exists>e. x = Inl e)"
proof (cases "blank (c_target c)")
  case False
  have no: False if "changeBody K now (\<lambda>j row. cw_target row = c_target c \<and> activeRow row) NODE_UNAVAILABLE
      ''node_disconnected'' db = Inr (u, d)" for u d
    by (rule change_backwards [OF assms(1,2,3,5) _ that]) (use assms(3,4) in \<open>auto simp: activeRow_def eval_text\<close>)
  have op: "operation E (bindR (commandTime (k_pb K) now) (\<lambda>_. Inr ()))
      (changeBody K now (\<lambda>j row. cw_target row = c_target c \<and> activeRow row) NODE_UNAVAILABLE ''node_disconnected'') db = (x, db')"
    using assms(6) False by (simp add: LoseNodeCommands_def changeActiveCommands_def)
  show ?thesis
    using operation_durable [OF op] no op by (cases x) (auto dest: operation_Inr(2))
qed (use assms(6) in \<open>auto simp: LoseNodeCommands_def\<close>)

text \<open>
  C22. Recovery needs a clock that has not gone back.  If any active command was last updated later than
  the present time, then \<open>RecoverCommands\<close>, which the server calls when it starts, cannot succeed: it
  reports an error and changes no command at all, however many others it could recover.
\<close>

theorem recovery_needs_forward_clock:
  assumes "coordinatorGood K db" and "recordAt K db i = Some r" and "rec_status r \<in> {ACCEPTED, RUNNING}"
    and "now < asTimeOf (k_pb K) (rec_updated r)" and "RecoverCommands E K now db = (x, db')"
  shows "db' = db \<and> (\<exists>e. x = Inl e)"
proof -
  have no: False if "changeBody K now (\<lambda>i row. activeRow row) NODE_UNAVAILABLE ''server_restarted'' db = Inr (u, db'')"
    for u db''
    by (rule change_backwards [OF assms(1-4) _ that]) (use assms(3) in \<open>auto simp: activeRow_def eval_text\<close>)
  note op = assms(5) [unfolded RecoverCommands_def changeActiveCommands_def]
  show ?thesis using operation_durable [OF op] no op by (cases x) (auto dest: operation_Inr(2))
qed

section \<open>Named agents\<close>

lemma uniqueNamed_Inr:
  "uniqueNamed session name found rs = Inr out \<Longrightarrow>
     (case found of
        Some r \<Rightarrow> out = Some r
      | None \<Rightarrow> (case out of None \<Rightarrow> (\<forall>r \<in> set rs. \<not> namesAgent session name r)
                 | Some r \<Rightarrow> r \<in> set rs \<and> namesAgent session name r))"
proof (induction rs arbitrary: found)
  case Nil
  then show ?case by (simp split: option.splits)
next
  case (Cons r rs)
  show ?case
  proof (cases "namesAgent session name r")
    case True
    then have "found = None" "uniqueNamed session name (Some r) rs = Inr out"
      using Cons.prems by (simp_all split: if_splits)
    then show ?thesis using Cons.IH [of "Some r"] True by simp
  next
    case False
    then have "uniqueNamed session name found rs = Inr out" using Cons.prems by simp
    from Cons.IH [OF this] show ?thesis using False by (simp split: option.splits)
  qed
qed

lemma uniqueNamed_Inl:
  "uniqueNamed session name found rs = Inl e \<Longrightarrow> e = ErrNamedAgentAmbiguous \<and>
     (\<exists>r \<in> set rs. namesAgent session name r) \<and>
     (found = None \<longrightarrow> (\<exists>as r bs s. rs = as @ r # bs \<and> s \<in> set bs \<and> namesAgent session name r \<and> namesAgent session name s))"
proof (induction rs arbitrary: found)
  case (Cons r rs)
  show ?case
  proof (cases "namesAgent session name r")
    case True
    then show ?thesis using Cons.prems Cons.IH [of "Some r"]
      by (cases found) (auto split: if_splits intro!: exI [of _ "[]"])
  next
    case False
    then have "uniqueNamed session name found rs = Inl e" using Cons.prems by simp
    from Cons.IH [OF this] show ?thesis by (metis append_Cons list.set_intros(2))
  qed
qed simp

lemma readCommands_target:
  assumes ok: "coordinator_ok K db" and rs: "readCommands K db (byTarget node) = Inr rs"
  shows "set rs = {r. \<exists>i c. recordAt K db i = Some r \<and> rec_command r = Some c \<and> c_target c = node}"
    and "distinct (map idOf rs)"
proof -
  note d = coordinator_okD(1) [OF ok]
  show "set rs = {r. \<exists>i c. recordAt K db i = Some r \<and> rec_command r = Some c \<and> c_target c = node}"
  proof (intro set_eqI iffI)
    fix r assume "r \<in> set rs"
    from readCommands_mem [OF rs this d] obtain i row where i: "recordAt K db i = Some r"
      "tget (cd_commands db) i = Some row" "byTarget node i row" by blast
    then show "r \<in> {r. \<exists>i c. recordAt K db i = Some r \<and> rec_command r = Some c \<and> c_target c = node}"
      using row_of_record [OF i(1)] by (auto simp: byTarget_def)
  next
    fix r assume "r \<in> {r. \<exists>i c. recordAt K db i = Some r \<and> rec_command r = Some c \<and> c_target c = node}"
    then obtain i c where i: "recordAt K db i = Some r" "rec_command r = Some c" "c_target c = node" by blast
    obtain row where row: "tget (cd_commands db) i = Some row" "cw_target row = c_target c"
      using row_of_record [OF i(1)] i(2) by auto
    then show "r \<in> set rs" using readCommands_all [OF rs d row(1) _ i(1)] i(3) by (simp add: byTarget_def)
  qed
  have "map idOf rs = map fst (tselect (byTarget node) (cd_commands db))"
    using rs collect_ids by (fastforce simp: readCommands_def split: if_splits)
  then show "distinct (map idOf rs)" using table_ok_distinct [OF d] by (simp add: tselect_def distinct_map_filter)
qed

text \<open>
  C25. An agent name is never ambiguous.  In a good store, looking a name up on a node and session
  returns the one recorded start that claimed it, or reports that there is none; the error for
  several matching starts cannot occur.
\<close>

theorem named_agent_unambiguous:
  assumes "coordinatorGood K db" and "ValidIdempotencyKey node" and "ValidIdempotencyKey name"
    and "ValidateSessionSelector session '''' False = Inr ()"
  shows "let starts = {r. \<exists>i c s. recordAt K db i = Some r \<and> rec_command r = Some c \<and> c_target c = node \<and>
        c_start c = Some s \<and> as_name s = name \<and> as_session s = session} in
    starts = {} \<and> FindNamedAgent calm K node session name db = (Inl ErrCommandNotFound, db) \<or>
    (\<exists>r. starts = {r} \<and> FindNamedAgent calm K node session name db = (Inr r, db))"
proof -
  note g = coordinatorGoodD [OF assms(1)]
  obtain rs where rs: "readCommands K db (byTarget node) = Inr rs" using readCommands_total [OF g(4)] by blast
  note t = readCommands_target [OF g(4) rs]
  let ?starts = "{r. \<exists>i c s. recordAt K db i = Some r \<and> rec_command r = Some c \<and> c_target c = node \<and>
        c_start c = Some s \<and> as_name s = name \<and> as_session s = session}"
  have st: "?starts = {r \<in> set rs. namesAgent session name r}"
    unfolding t(1) by (auto simp: namesAgent_def split: option.splits)
  have one: "r = s" if mem: "r \<in> ?starts" "s \<in> ?starts" for r s
  proof -
    obtain i c x where r: "recordAt K db i = Some r" "rec_command r = Some c" "c_target c = node"
      "c_start c = Some x" "as_name x = name" "as_session x = session" using mem(1) by blast
    obtain j d y where s: "recordAt K db j = Some s" "rec_command s = Some d" "c_target d = node"
      "c_start d = Some y" "as_name y = name" "as_session y = session" using mem(2) by blast
    have "i = j" using namesUnique_at [OF g(5) r(1,2,4) s(1,2,4)] r(3,5,6) s(3,5,6) by simp
    then show ?thesis using r(1) s(1) by simp
  qed
  have find: "FindNamedAgent calm K node session name db =
      (case uniqueNamed session name None rs of
         Inl e \<Rightarrow> (Inl e, db)
       | Inr None \<Rightarrow> (Inl ErrCommandNotFound, db) | Inr (Some r) \<Rightarrow> (Inr r, db))"
    using assms(2-4) rs by (simp add: FindNamedAgent_def calm_operation bindR_def split: sum.splits option.splits)
  show ?thesis
  proof (cases "uniqueNamed session name None rs")
    case (Inl e)
    obtain as r bs s where split: "rs = as @ r # bs" "s \<in> set bs" "namesAgent session name r" "namesAgent session name s"
      using uniqueNamed_Inl [OF Inl] by blast
    then have "r = s" using one [of r s] unfolding st by simp
    then have "\<not> distinct (map idOf rs)" using split(1,2) by auto
    then show ?thesis using t(2) by blast
  next
    case (Inr out)
    then show ?thesis
    proof (cases out)
      case None
      then have "?starts = {}" using uniqueNamed_Inr [OF Inr] st by simp
      then show ?thesis using find Inr None by simp
    next
      case (Some r)
      then have "r \<in> ?starts" using uniqueNamed_Inr [OF Inr] st by simp
      then have "?starts = {r}" using one by blast
      then show ?thesis using find Inr Some by (simp add: Let_def)
    qed
  qed
qed

section \<open>Outcomes and projects over a run\<close>

text \<open>
  C5. An outcome is decided once, by one identity.  After an accepted result, any later accepted result
  for the same command, however far apart, came from the same node under the same stable identity; and
  if the first left the command conclusive then the second changed nothing and returned that
  same record.
\<close>

theorem decided_once:
  assumes "coordinatorGood K db" and "FinishCommand E K node sid (Some v) now db = (Inr r, db1)"
    and "(coordStep K)\<^sup>*\<^sup>* db1 db2" and "FinishCommand E' K node' sid' (Some v') now' db2 = (Inr r', db3)"
    and "cr_id v' = cr_id v"
  shows "node' = node \<and> sid' = sid \<and> rec_command r' = rec_command r \<and>
    (rec_status r \<notin> {ACCEPTED, RUNNING, INDETERMINATE} \<longrightarrow> r' = r \<and> db3 = db2)"
proof -
  obtain r0 c where f: "c_target c = node" "stableOf (cd_bindings db) node = Some sid"
    "recordAt K db1 = (recordAt K db)(cr_id v \<mapsto> r)" "rec_command r = Some c"
    using finish_facts [OF assms(1,2)] by blast
  have at: "recordAt K db1 (cr_id v) = Some r" using f(3) by simp
  have g1: "coordinatorGood K db1" and s1: "stableOf (cd_bindings db1) node = Some sid"
    using coordStep_change [OF coord_finish [OF assms(2)] assms(1)] f(2) by (simp_all add: coordChange_def)
  note g2 = commands.run_inv [OF assms(3) g1]
  obtain b where b: "recordAt K db2 (cr_id v) = Some b" "recordStep (k_pb K) r b"
    using commands.run_entry [OF assms(3) g1 at] by blast
  have s2: "stableOf (cd_bindings db2) node = Some sid"
    by (rule identities.run_final [OF assms(3) g1 s1]) simp
  obtain r2 c2 where h: "recordAt K db2 (cr_id v') = Some r2" "rec_command r2 = Some c2" "c_target c2 = node'"
    "stableOf (cd_bindings db2) node' = Some sid'" "rec_command r' = Some c2"
    "r' = r2 \<and> db3 = db2 \<or> rec_status r2 \<in> {RUNNING, INDETERMINATE}"
    using finish_facts [OF g2 assms(4)] by blast
  have r2: "r2 = b" using h(1) b(1) assms(5) by simp
  have c2: "c2 = c" using b(2) f(4) h(2) r2 by (simp add: recordStep_def)
  have "rec_status r \<notin> {ACCEPTED, RUNNING, INDETERMINATE} \<Longrightarrow> b = r"
    using recordStep_final [OF b(2)] by (simp add: openStatus_def)
  then show ?thesis using h(3-6) r2 c2 f(1,4) s2 by auto
qed

text \<open>
  C27. Projects never go back.  Over any run a registered project is never lost; its desired generation
  never decreases and one generation never names two configurations; an adoption decision is final;
  and an acknowledgement on record is only replaced by one of the same or a later generation.
\<close>

theorem projects_never_regress:
  assumes "coordinatorGood K db" and "(coordStep K)\<^sup>*\<^sup>* db db'" and "projectAt K db k = Some a"
  shows "\<exists>b d e. projectAt K db' k = Some b \<and> prj_desired a = Some d \<and> prj_desired b = Some e \<and>
    pc_node e = pc_node d \<and> pc_project e = pc_project d \<and> pc_generation d \<le> pc_generation e \<and>
    (pc_generation e = pc_generation d \<longrightarrow> e = d) \<and>
    (prj_adoption a \<noteq> '''' \<longrightarrow> prj_adoption b = prj_adoption a) \<and>
    opt_all (\<lambda>x. opt_ex (\<lambda>y. pa_generation x \<le> pa_generation y) (prj_applied b)) (prj_applied a)"
proof -
  obtain b where b: "projectAt K db' k = Some b" "projectStep a b"
    using registry.run_entry [OF assms(2,1,3)] by blast
  then obtain d e where "prj_desired a = Some d" "prj_desired b = Some e"
    by (auto simp: projectStep_def split: option.splits)
  then show ?thesis using b
    by (intro exI [of _ b] exI [of _ d] exI [of _ e]) (simp add: projectStep_def split: option.splits)
qed

section \<open>Instances\<close>

text \<open>The sample run from the empty store to the answered probe instantiates every hypothesis above.\<close>

lemma coordinator_invariant_witness: "length (cd_commands (storeOf probeCommand (admitted probeCommand))) \<le> 4096"
proof -
  have i: "ImportBindings calm [\<lparr>bd_stable = ''n1'', bd_instance = ''node-1''\<rparr>] emptyCoordinator = (Inr (), oneNode)"
    by (simp add: oneNode_def ImportBindings_def calm_operation bindRow_def emptyCoordinator_def tselect_def
        tget_def eval_text)
  have "(coordStep sampleCodecs)\<^sup>*\<^sup>* emptyCoordinator oneNode"
    using coord_import_bindings [OF i] by blast
  moreover have "coordStep sampleCodecs oneNode (storeOf probeCommand (admitted probeCommand))"
    by (rule coord_create [OF sample_admit]) simp
  ultimately have "(coordStep sampleCodecs)\<^sup>*\<^sup>* emptyCoordinator (storeOf probeCommand (admitted probeCommand))"
    by (rule rtranclp.rtrancl_into_rtrancl)
  from coordinator_invariant [OF sampleCodecs_ok this] show ?thesis by blast
qed

lemma sample_at:
  "recordAt sampleCodecs (storeOf probeCommand (admitted probeCommand)) sampleId = Some (admitted probeCommand)"
  "recordAt sampleCodecs (storeOf probeCommand (dispatched probeCommand)) sampleId = Some (dispatched probeCommand)"
  using storeOf_at [OF _ _ run_fields(1)] storeOf_at [OF _ _ run_fields(4)]
    either_fields(7,8) [of probeCommand] run_known(1,2) [of probeCommand] by simp_all

lemma records_permanent_witness:
  "\<exists>b. recordAt sampleCodecs (storeOf probeCommand (dispatched probeCommand)) sampleId = Some b \<and>
     rec_command b = Some probeCommand"
proof -
  have "(coordStep sampleCodecs)\<^sup>*\<^sup>* (storeOf probeCommand (admitted probeCommand)) (storeOf probeCommand (dispatched probeCommand))"
    using coord_dispatch [OF sample_dispatch [of probeCommand]] by auto
  from records_permanent [OF admitted_good this sample_at(1)] show ?thesis by (auto simp: run_fields)
qed

lemma probe_dispatched_again:
  "DispatchCommand calm sampleCodecs ''node-1'' sampleId (at_ns 997) (storeOf probeCommand (dispatched probeCommand)) =
    (Inr (dispatched probeCommand, False), storeOf probeCommand (dispatched probeCommand))"
proof -
  have rd: "readCommand sampleCodecs (storeOf probeCommand (dispatched probeCommand)) (byID sampleId) = Inr (dispatched probeCommand)"
    using readCommand_byID [OF coordinatorGoodD(4) [OF dispatched_good]] sample_at(2) by simp
  have b: "\<not> blank ''node-1''" "\<not> blank sampleId" by (simp_all add: eval_text sampleId_def list_all_iff)
  show ?thesis using rd b
    by (simp add: DispatchCommand_def calm_operation dispatchBody_def run_fields probe_fields del: samplePb_simps)
qed

lemma dispatched_once_witness: "rec_status (dispatched probeCommand) = RUNNING"
  using dispatched_once [OF admitted_good sample_dispatch rtranclp.rtrancl_refl probe_dispatched_again] by simp

lemma create_idempotent_witness:
  "\<exists>x. CreateCommand calm sampleCodecs (Some probeCommand) (at_ns 996) (storeOf probeCommand (admitted probeCommand)) =
     (x, storeOf probeCommand (admitted probeCommand))"
proof -
  let ?s = "storeOf probeCommand (admitted probeCommand)"
  obtain x db3 where c: "CreateCommand calm sampleCodecs (Some probeCommand) (at_ns 996) ?s = (x, db3)" by (rule prod.exhaust)
  from create_idempotent [OF oneNode_good sample_admit rtranclp.rtrancl_refl c] show ?thesis using c by simp
qed

lemma create_admits_witness: "recordAt sampleCodecs oneNode sampleId = None"
  using create_admits [OF oneNode_good sample_admit [of startCommand]] by (simp add: start_fields)

lemma finish_authority_witness:
  "recordAt sampleCodecs (storeOf probeCommand (finished probeCommand)) sampleId = Some (finished probeCommand)"
  using finish_authority [OF dispatched_good sample_finish] by (auto simp: pong_def)

lemma recovery_exact_witness:
  "recordAt sampleCodecs (storeOf probeCommand (lost probeCommand)) sampleId = Some (lost probeCommand)"
  using recovery_exact [OF dispatched_good sample_recover] sample_at(2)
  by (simp add: interruptedBy_def run_fields lost_def [symmetric] del: samplePb_simps)

lemma node_loss_exact_witness:
  "recordAt sampleCodecs oneNode = (\<lambda>i. map_option (\<lambda>r.
    if getter c_target (rec_command r) = ''node-1''
    then interruptedBy (k_pb sampleCodecs) NODE_UNAVAILABLE ''node_disconnected'' (at_ns 1) r else r) (recordAt sampleCodecs oneNode i))"
proof -
  have "LoseNodeCommands calm sampleCodecs ''node-1'' (at_ns 1) oneNode = (Inr (), oneNode)"
    by (simp add: LoseNodeCommands_def changeActiveCommands_def calm_operation changeBody_def readCommands_def
        oneNode_def emptyCoordinator_def tselect_def eval_text)
  then show ?thesis by (rule node_loss_exact [OF oneNode_good])
qed

lemma expiry_exact_witness:
  "recordAt sampleCodecs (storeOf probeCommand (admitted probeCommand)) sampleId = Some (admitted probeCommand)"
proof -
  let ?s = "storeOf probeCommand (admitted probeCommand)"
  have "\<not> expiredRow (at_second 996) (rowOf probeCommand (rec_status (admitted probeCommand)) (BRecord (admitted probeCommand)))"
    by (simp add: expiredRow_def rowOf_def probe_fields at_second_def)
  then have "ExpireCommands calm sampleCodecs (at_ns 996) ?s = (Inr (), ?s)"
    using storeOf_read [OF either_fields(7) run_known(1) run_fields(1)]
    by (simp add: ExpireCommands_def changeActiveCommands_def calm_operation changeBody_def del: samplePb_simps)
  from expiry_exact [OF admitted_good this] sample_at(1) show ?thesis
    by (auto simp: fun_eq_iff run_fields expiryOf_def asTimeOf_def probe_fields simp del: samplePb_simps dest!: spec [of _ sampleId])
qed

lemma audit_is_history_witness: "au_status (hd (rec_audit (dispatched probeCommand))) = ACCEPTED"
  using audit_is_history [OF sample_at(2)] by auto

lemma recovery_needs_forward_clock_witness:
  "snd (RecoverCommands calm sampleCodecs (at_ns 995) (storeOf probeCommand (dispatched probeCommand))) =
     storeOf probeCommand (dispatched probeCommand)"
proof -
  let ?s = "storeOf probeCommand (dispatched probeCommand)"
  obtain x db' where c: "RecoverCommands calm sampleCodecs (at_ns 995) ?s = (x, db')" by (rule prod.exhaust)
  have "rec_updated (dispatched probeCommand) = Some (at_second 996)"
    by (simp add: dispatched_def transitioned_def del: samplePb_simps)
  then have "at_ns 995 < asTimeOf (k_pb sampleCodecs) (rec_updated (dispatched probeCommand))"
    by (simp add: asTimeOf_def del: samplePb_simps)
  from recovery_needs_forward_clock [OF dispatched_good sample_at(2) _ this c] c show ?thesis by (simp add: run_fields)
qed

lemma named_agent_unambiguous_witness:
  "\<exists>r. FindNamedAgent calm sampleCodecs ''node-1'' '''' ''helper'' (storeOf startCommand (admitted startCommand)) =
     (r, storeOf startCommand (admitted startCommand))"
proof -
  have k: "ValidIdempotencyKey ''node-1''" "ValidIdempotencyKey ''helper''" by (simp_all add: ValidIdempotencyKey_def)
  have v: "ValidateSessionSelector '''' '''' False = Inr ()" by (simp add: ValidateSessionSelector_def)
  show ?thesis
    using named_agent_unambiguous [OF admitted_good [OF runnable_samples(2)] k v] unfolding Let_def by blast
qed

lemma decided_once_witness: "rec_command (finished probeCommand) = Some probeCommand"
proof -
  have g: "coordinatorGood sampleCodecs (storeOf probeCommand (finished probeCommand))"
    using coordStep_change [OF coord_finish [OF sample_finish] dispatched_good] by (simp add: coordChange_def)
  have at: "recordAt sampleCodecs (storeOf probeCommand (finished probeCommand)) sampleId = Some (finished probeCommand)"
    using storeOf_at [OF finished_valid run_known(3) run_fields(7)] by simp
  have rd: "readCommand sampleCodecs (storeOf probeCommand (finished probeCommand)) (byID sampleId) = Inr (finished probeCommand)"
    using readCommand_byID [OF coordinatorGoodD(4) [OF g]] at by simp
  have b: "\<not> blank ''node-1''" "\<not> blank ''n1''" by (simp_all add: eval_text)
  have bd: "stableOf (cd_bindings (storeOf probeCommand (finished probeCommand))) ''node-1'' = Some ''n1''"
    by (simp add: storeOf_def)
  have p: "cr_id pong = sampleId" "cr_status pong = SUCCEEDED" by (simp_all add: pong_def)
  have "FinishCommand calm sampleCodecs ''node-1'' ''n1'' (Some pong) (at_ns 998) (storeOf probeCommand (finished probeCommand)) =
    (Inr (finished probeCommand), storeOf probeCommand (finished probeCommand))"
    using rd b bd pong_valid p finished_result
    by (simp add: FinishCommand_def calm_operation finishBody_def finishRecord_def conflictOf_def run_fields probe_fields
        IsLifecycleCommand_def command_types del: samplePb_simps)
  from decided_once [OF dispatched_good sample_finish rtranclp.rtrancl_refl this] show ?thesis by (simp add: run_fields)
qed

lemma webStore_good: "coordinatorGood sampleCodecs (webStore webProject)"
  using coordStep_change [OF coord_upsert [OF webProject_upsert] oneNode_good] by (simp add: coordChange_def)

lemma projects_never_regress_witness: "\<exists>b. projectAt sampleCodecs (webStore webProject) (''node-1'', ''web'') = Some b"
proof -
  from projects_never_regress [OF webStore_good rtranclp.rtrancl_refl webProject_at] show ?thesis by blast
qed

end
