(* ===== verification/Observations.thy ===== *)
theory Observations
  imports Database ProtoResults
begin

text \<open>
  What the coordinator believes about a node: the checks on reported native state and session
  inventories (fleet.go, sessions.go of the server package), and the tests that decide whether an
  observation is fresh enough to act on.  Times are nanoseconds since the epoch; \<open>Time.Sub\<close> saturates
  at 292 years, which no comparison with a bound of minutes can tell apart from the difference.
\<close>

section \<open>Status errors\<close>

definition rpcError :: "grpc_code \<Rightarrow> string \<Rightarrow> err" where
  "rpcError code text = RpcStatus code (Msg text)"

definition storageUnavailable :: err where
  "storageUnavailable = rpcError Unavailable ''coordinator storage is unavailable''"

definition superseded :: err where
  "superseded = rpcError Aborted ''node stream superseded''"

section \<open>Limits\<close>

definition maxFleetNodes :: nat where "maxFleetNodes = 128"
definition maxHerdrStateBytes :: nat where "maxHerdrStateBytes = 256 * 1024"
definition maxFleetBytes :: nat where "maxFleetBytes = 2 * 1024 * 1024"
definition herdrStaleAfter :: int where "herdrStaleAfter = 30 * 1000000000"
definition offlineRetention :: int where "offlineRetention = 15 * 60 * 1000000000"
definition maxSessionInventoryBytes :: nat where "maxSessionInventoryBytes = 256 * 1024"

record session_inventory =
  si_sequence :: "64 word"
  si_observed :: "timestamp option"
  si_sessions :: "session_view list"
  si_error :: string
  si_unk :: string

text \<open>\<open>proto.Size\<close> of the messages the fleet counts.\<close>

record sizes =
  size_herdr :: "herdr_state \<Rightarrow> nat"
  size_session :: "session_view \<Rightarrow> nat"
  size_inventory :: "session_inventory \<Rightarrow> nat"

section \<open>Reported native state\<close>

text \<open>\<open>^[A-Za-z0-9:_-]{1,128}$\<close> is \<^const>\<open>commandToken\<close>; versions also admit dots and plus signs, no colons.\<close>

definition version_char :: "char \<Rightarrow> bool" where
  "version_char c = (is_digit c \<or> is_lower c \<or> is_upper c \<or> byte c = 46 \<or> byte c = 43 \<or>
     byte c = 95 \<or> byte c = 45)"

definition safeVersion :: "string \<Rightarrow> bool" where
  "safeVersion s = (1 \<le> length s \<and> length s \<le> 128 \<and> list_all version_char s)"

definition optionalToken :: "string \<Rightarrow> bool" where
  "optionalToken s = (s = '''' \<or> commandToken s)"

definition reportedStatuses :: "string list" where
  "reportedStatuses = [''idle'', ''working'', ''blocked'', ''done'', ''unknown'']"

definition entityOk :: "herdr_entity \<Rightarrow> bool" where
  "entityOk e = (commandToken (en_id e) \<and> optionalToken (en_workspace e) \<and> optionalToken (en_tab e) \<and>
     optionalToken (en_provider e) \<and> optionalToken (en_terminal e) \<and>
     optionalToken (en_provider_session e) \<and> optionalToken (en_project e) \<and>
     ValidDisplayMetadata (en_display_name e) (en_directory e) \<and> en_unk e = [] \<and>
     en_agent_status e \<in> set reportedStatuses)"

text \<open>One group of entities: the loop keeps the IDs it has seen.\<close>

fun groupOk :: "string list \<Rightarrow> herdr_entity list \<Rightarrow> bool" where
  "groupOk seen [] = True"
| "groupOk seen (e # es) = (entityOk e \<and> en_id e \<notin> set seen \<and> groupOk (en_id e # seen) es)"

definition badHerdr :: err where
  "badHerdr = rpcError InvalidArgument ''invalid read-only Herdr state''"

definition entityCount :: "herdr_state \<Rightarrow> nat" where
  "entityCount h = length (hs_workspaces h) + length (hs_tabs h) + length (hs_panes h) + length (hs_agents h)"

definition stampOk :: "pb \<Rightarrow> timestamp option \<Rightarrow> bool" where
  "stampOk P t = (case t of None \<Rightarrow> False | Some t \<Rightarrow> ts_valid P t \<and> ts_unk t = [])"

definition herdrStatusOk :: "herdr_state \<Rightarrow> bool" where
  "herdrStatusOk h =
     (if hs_status h = ''ready'' then hs_protocol h \<noteq> 0 \<and> safeVersion (hs_version h) \<and> hs_error h = ''''
      else if hs_status h = ''unavailable''
      then commandToken (hs_error h) \<and> entityCount h = 0 \<and> hs_version h = '''' \<and> hs_protocol h = 0
      else False)"

definition validateHerdrState :: "pb \<Rightarrow> sizes \<Rightarrow> herdr_state option \<Rightarrow> unit res" where
  "validateHerdrState P Z state = (case state of
     None \<Rightarrow> Inl badHerdr
   | Some h \<Rightarrow>
       if hs_sequence h = 0 \<or> \<not> stampOk P (hs_observed h) \<or> hs_unk h \<noteq> [] then Inl badHerdr
       else if maxHerdrStateBytes < size_herdr Z h
       then Inl (rpcError ResourceExhausted ''Herdr state size limit exceeded'')
       else if 4096 < entityCount h then Inl (rpcError ResourceExhausted ''Herdr entity limit exceeded'')
       else if \<not> herdrStatusOk h then Inl badHerdr
       else if \<not> list_all (groupOk []) [hs_workspaces h, hs_tabs h, hs_panes h, hs_agents h]
       then Inl badHerdr
       else Inr ())"

section \<open>Session inventories\<close>

definition badInventory :: err where
  "badInventory = rpcError InvalidArgument ''invalid session inventory''"

text \<open>One iteration of the loop over the reported sessions.\<close>

definition sessionViewCheck :: "pb \<Rightarrow> sizes \<Rightarrow> string list \<Rightarrow> session_view \<Rightarrow> unit res" where
  "sessionViewCheck P Z seen v =
     (if sv_name v = '''' \<or> \<not> is_ok (ValidateSessionSelector (sv_name v) (sv_incarnation v) False) \<or>
         sv_unk v \<noteq> [] \<or> sv_name v \<in> set seen
      then Inl badInventory
      else if sv_status v = ''ready'' \<and> (\<not> ValidSessionIncarnation (sv_incarnation v) \<or> sv_error v \<noteq> '''')
      then Inl badInventory
      else if sv_status v \<in> {''stopped'', ''starting'', ''unavailable'', ''unsupported''} \<and> sv_herdr v \<noteq> None
      then Inl badInventory
      else if sv_status v \<notin> {''ready'', ''stopped'', ''starting'', ''unavailable'', ''unsupported''}
      then Inl badInventory
      else if sv_error v \<notin> {'''', ''session_unavailable'', ''unsupported_protocol'', ''session_default_unmanaged''}
      then Inl badInventory
      else bindR (case sv_herdr v of None \<Rightarrow> Inr () | Some h \<Rightarrow> validateHerdrState P Z (Some h)) (\<lambda>_.
        if sv_received v \<noteq> None \<and> (sv_herdr v = None \<or> \<not> stampOk P (sv_received v))
        then Inl badInventory else Inr ()))"

fun sessionViewLoop :: "pb \<Rightarrow> sizes \<Rightarrow> string list \<Rightarrow> session_view list \<Rightarrow> unit res" where
  "sessionViewLoop P Z seen [] = Inr ()"
| "sessionViewLoop P Z seen (v # vs) =
     bindR (sessionViewCheck P Z seen v) (\<lambda>_. sessionViewLoop P Z (sv_name v # seen) vs)"

definition validateSessionViews :: "pb \<Rightarrow> sizes \<Rightarrow> session_view list \<Rightarrow> unit res" where
  "validateSessionViews P Z vs =
     (if 64 < length vs then Inl (rpcError ResourceExhausted ''session count limit exceeded'')
      else sessionViewLoop P Z [] vs)"

definition validateSessionInventory :: "pb \<Rightarrow> sizes \<Rightarrow> session_inventory option \<Rightarrow> unit res" where
  "validateSessionInventory P Z inventory = (case inventory of
     None \<Rightarrow> Inl badInventory
   | Some i \<Rightarrow>
       if si_sequence i = 0 \<or> \<not> stampOk P (si_observed i) \<or> si_unk i \<noteq> [] \<or>
          si_error i \<noteq> '''' \<and> (\<not> ValidSessionError (si_error i) \<or>
            si_error i \<noteq> ''session_capacity'' \<and> si_sessions i \<noteq> [])
       then Inl badInventory
       else if maxSessionInventoryBytes < size_inventory Z i
       then Inl (rpcError ResourceExhausted ''session inventory size limit exceeded'')
       else if si_error i = ''session_capacity'' \<and> list_ex (\<lambda>v. sv_herdr v \<noteq> None) (si_sessions i)
       then Inl (rpcError InvalidArgument ''capacity report must omit session topology'')
       else if list_ex (\<lambda>v. sv_received v \<noteq> None \<or> sv_stale v) (si_sessions i)
       then Inl (rpcError InvalidArgument ''nodes cannot assign session projection freshness'')
       else validateSessionViews P Z (si_sessions i))"

text \<open>The inventory a stored view amounts to.\<close>

definition storedInventory :: "node_view \<Rightarrow> session_inventory" where
  "storedInventory v = \<lparr>si_sequence = 1, si_observed = nv_sessions_received v,
     si_sessions = map (\<lambda>s. s\<lparr>sv_received := None, sv_stale := False\<rparr>) (nv_sessions v),
     si_error = nv_sessions_error v, si_unk = []\<rparr>"

definition validateStoredSessions :: "pb \<Rightarrow> sizes \<Rightarrow> node_view \<Rightarrow> unit res" where
  "validateStoredSessions P Z v =
     (if nv_sessions_received v = None then
        if nv_sessions v \<noteq> [] \<or> nv_sessions_error v \<noteq> ''''
        then Inl (rpcError InvalidArgument ''session inventory has no receipt timestamp'') else Inr ()
      else bindR (validateSessionViews P Z (nv_sessions v)) (\<lambda>_.
        validateSessionInventory P Z (Some (storedInventory v))))"

definition emptyHerdr :: "string \<Rightarrow> herdr_state" where
  "emptyHerdr status = \<lparr>hs_status = status, hs_version = '''', hs_protocol = 0, hs_sequence = 0,
     hs_observed = None, hs_error = '''', hs_workspaces = [], hs_tabs = [], hs_panes = [],
     hs_agents = [], hs_unk = []\<rparr>"

definition validateStoredNode :: "pb \<Rightarrow> sizes \<Rightarrow> node_view \<Rightarrow> unit res" where
  "validateStoredNode P Z v =
     (let bad = Inl (Msg ''invalid persisted node record'') in
      if nv_instance v = '''' \<or> 128 < length (nv_instance v) \<or> nv_stable v = '''' \<or>
         128 < length (nv_stable v) \<or> \<not> stampOk P (nv_last_seen v) \<or> nv_herdr v = None \<or> nv_unk v \<noteq> []
      then bad
      else if \<not> is_ok (validateStoredSessions P Z v) then bad
      else case nv_herdr v of None \<Rightarrow> bad
       | Some h \<Rightarrow>
           if hs_status h = ''disabled'' \<or> hs_status h = ''waiting'' then
             if h \<noteq> emptyHerdr (hs_status h) \<or> nv_herdr_received v \<noteq> None then bad else Inr ()
           else if \<not> is_ok (validateHerdrState P Z (Some h)) then bad
           else if \<not> stampOk P (nv_herdr_received v) then bad else Inr ())"

definition ValidNodeName :: "string \<Rightarrow> bool" where
  "ValidNodeName name = (name \<noteq> [] \<and> length name \<le> 40 \<and> is_lower (hd name) \<and> byte (last name) \<noteq> 45 \<and>
     list_all (\<lambda>c. is_lower c \<or> is_digit c \<or> byte c = 45) name)"

definition validateLogicalNodeName :: "string \<Rightarrow> unit res" where
  "validateLogicalNodeName name =
     (if name \<noteq> '''' \<and> \<not> ValidNodeName name
      then Inl (rpcError InvalidArgument ''invalid logical node name'') else Inr ())"

section \<open>Freshness\<close>

definition sizeOfHerdr :: "sizes \<Rightarrow> herdr_state option \<Rightarrow> nat" where
  "sizeOfHerdr Z h = (case h of None \<Rightarrow> 0 | Some h \<Rightarrow> size_herdr Z h)"

definition nodeStateSize :: "sizes \<Rightarrow> node_view \<Rightarrow> nat" where
  "nodeStateSize Z v = sizeOfHerdr Z (nv_herdr v) + sum_list (map (size_session Z) (nv_sessions v))"

definition herdrStatus :: "herdr_state option \<Rightarrow> string" where
  "herdrStatus h = getter hs_status h"

definition freshHerdr :: "pb \<Rightarrow> node_view \<Rightarrow> int \<Rightarrow> bool" where
  "freshHerdr P v now = (nv_connected v \<and> herdrStatus (nv_herdr v) = ''ready'' \<and>
     nv_herdr_received v \<noteq> None \<and> now - asTimeOf P (nv_herdr_received v) < herdrStaleAfter)"

definition findSession :: "node_view \<Rightarrow> string \<Rightarrow> session_view option" where
  "findSession v name = find (\<lambda>s. sv_name s = name) (nv_sessions v)"

definition freshSessionTimestamp :: "pb \<Rightarrow> timestamp option \<Rightarrow> int \<Rightarrow> bool" where
  "freshSessionTimestamp P stamp now =
     (let age = now - asTimeOf P stamp in 0 \<le> age \<and> age < herdrStaleAfter)"

definition freshSession :: "pb \<Rightarrow> node_view \<Rightarrow> session_view \<Rightarrow> int \<Rightarrow> bool" where
  "freshSession P v s now = (nv_connected v \<and> nv_sessions_ready v \<and> nv_sessions_error v = '''' \<and>
     nv_last_seen v \<noteq> None \<and> freshSessionTimestamp P (nv_last_seen v) now \<and>
     nv_sessions_received v \<noteq> None \<and> freshSessionTimestamp P (nv_sessions_received v) now \<and>
     sv_status s = ''ready'' \<and> sv_error s = '''' \<and> herdrStatus (sv_herdr s) = ''ready'' \<and>
     sv_received s \<noteq> None \<and> freshSessionTimestamp P (sv_received s) now)"

definition projectSessionFreshness :: "pb \<Rightarrow> node_view \<Rightarrow> int \<Rightarrow> node_view" where
  "projectSessionFreshness P v now =
     v\<lparr>nv_sessions := map (\<lambda>s. s\<lparr>sv_stale := \<not> freshSession P v s now\<rparr>) (nv_sessions v)\<rparr>"

section \<open>What a validated report says\<close>

lemma groupOk_iff:
  "groupOk seen es \<longleftrightarrow>
     list_all entityOk es \<and> distinct (map en_id es) \<and> set (map en_id es) \<inter> set seen = {}"
  by (induction es arbitrary: seen) auto

lemma sessionViewCheck_seen:
  "sessionViewCheck P Z seen v =
     (if sv_name v \<in> set seen then Inl badInventory else sessionViewCheck P Z [] v)"
  unfolding sessionViewCheck_def by simp

lemma sessionViewLoop_facts:
  assumes "sessionViewLoop P Z seen vs = Inr ()"
  shows "distinct (map sv_name vs) \<and> set (map sv_name vs) \<inter> set seen = {} \<and>
    (\<forall>v \<in> set vs. sessionViewCheck P Z [] v = Inr ())"
  using assms
proof (induction vs arbitrary: seen)
  case (Cons v vs)
  then have c: "sessionViewCheck P Z seen v = Inr ()" and l: "sessionViewLoop P Z (sv_name v # seen) vs = Inr ()"
    by (auto simp: bindR_eq_Inr)
  from c have "sv_name v \<notin> set seen" "sessionViewCheck P Z [] v = Inr ()"
    using sessionViewCheck_seen [of P Z seen v] by (simp_all split: if_splits)
  then show ?case using Cons.IH [OF l] by auto
qed simp

lemma findSession_mem: "findSession v name = Some s \<Longrightarrow> s \<in> set (nv_sessions v) \<and> sv_name s = name"
  unfolding findSession_def by (induction "nv_sessions v") (auto simp: find_Some_iff)

end
