(* ===== verification/Handlers.thy ===== *)
theory Handlers
  imports Prelude
begin

text \<open>
  Handlers of a long-running process: functions that read and change the state of the process and
  return a value or an error.  A change made before an error stays.  \<open>lawful\<close> is the interface of a
  change a client may rely on whatever a handler does: a reflexive and transitive relation; its lemmas
  reduce the claim that a handler upholds it to the claims for its parts.
\<close>

type_synonym ('s, 'a) handler = "'s \<Rightarrow> 'a res \<times> 's"

definition okS :: "'a \<Rightarrow> ('s, 'a) handler" where
  "okS x s = (Inr x, s)"

definition errS :: "err \<Rightarrow> ('s, 'a) handler" where
  "errS e s = (Inl e, s)"

definition bindS :: "('s, 'a) handler \<Rightarrow> ('a \<Rightarrow> ('s, 'b) handler) \<Rightarrow> ('s, 'b) handler" where
  "bindS m f s = (case m s of (Inl e, s') \<Rightarrow> (Inl e, s') | (Inr x, s') \<Rightarrow> f x s')"

definition readS :: "('s \<Rightarrow> 'a) \<Rightarrow> ('s, 'a) handler" where
  "readS f s = (Inr (f s), s)"

definition putS :: "('s \<Rightarrow> 's) \<Rightarrow> ('s, unit) handler" where
  "putS f s = (Inr (), f s)"

definition liftS :: "'a res \<Rightarrow> ('s, 'a) handler" where
  "liftS r s = (r, s)"

text \<open>\<open>if c { return err }\<close>\<close>

definition refuseIf :: "bool \<Rightarrow> err \<Rightarrow> ('s, unit) handler" where
  "refuseIf c e = (if c then errS e else okS ())"

named_theorems handler_simps "how the steps of a handler act"

lemma handler_steps [handler_simps]:
  "okS x s = (Inr x, s)" "errS e s = (Inl e, s)" "readS f s = (Inr (f s), s)" "putS g s = (Inr (), g s)"
  "liftS r s = (r, s)" "refuseIf c e s = (if c then Inl e else Inr (), s)"
  by (simp_all add: okS_def errS_def readS_def putS_def liftS_def refuseIf_def)

lemma bindS_steps [handler_simps]:
  "bindS (okS x) f s = f x s" "bindS (errS e) f s = (Inl e, s)" "bindS (readS g) f s = f (g s) s"
  "bindS (putS h) f s = f () (h s)"
  "bindS (refuseIf c e) f s = (if c then (Inl e, s) else f () s)"
  by (simp_all add: bindS_def handler_steps)

lemma bindS_lift: "bindS (liftS r) f S = (case r of Inl e \<Rightarrow> (Inl e, S) | Inr x \<Rightarrow> f x S)"
  by (cases r) (simp_all add: bindS_def liftS_def)

lemma bindS_read: "bindS (readS g) f S = f (g S) S"
  by (simp add: bindS_def readS_def)

lemma bindS_run: "m S = (Inr x, T) \<Longrightarrow> bindS m f S = f x T"
  by (simp add: bindS_def)

lemma bindS_eq_Inr:
  "bindS m f s = (Inr y, t) \<longleftrightarrow> (\<exists>x u. m s = (Inr x, u) \<and> f x u = (Inr y, t))"
  by (auto simp: bindS_def split: prod.splits sum.splits)

lemma bindS_eq_Inl:
  "bindS m f s = (Inl e, t) \<longleftrightarrow> m s = (Inl e, t) \<or> (\<exists>x u. m s = (Inr x, u) \<and> f x u = (Inl e, t))"
  by (auto simp: bindS_def split: prod.splits sum.splits)

section \<open>Changes a handler may make\<close>

definition upholds :: "('s \<Rightarrow> 's \<Rightarrow> bool) \<Rightarrow> ('s, 'a) handler \<Rightarrow> bool" where
  "upholds R m = (\<forall>s r t. m s = (r, t) \<longrightarrow> R s t)"

lemma upholdsD: "upholds R m \<Longrightarrow> m s = (r, t) \<Longrightarrow> R s t"
  by (simp add: upholds_def)

lemma upholds_let: "upholds R (f x) \<Longrightarrow> upholds R (Let x f)"
  by simp

lemma upholds_prod: "(\<And>a b. upholds R (f a b)) \<Longrightarrow> upholds R (case p of (a, b) \<Rightarrow> f a b)"
  by (cases p) simp

lemma upholds_option: "upholds R m \<Longrightarrow> (\<And>x. upholds R (f x)) \<Longrightarrow> upholds R (case v of None \<Rightarrow> m | Some x \<Rightarrow> f x)"
  by (cases v) simp_all

lemma upholds_sum:
  "(\<And>e. upholds R (f e)) \<Longrightarrow> (\<And>x. upholds R (g x)) \<Longrightarrow> upholds R (case v of Inl e \<Rightarrow> f e | Inr x \<Rightarrow> g x)"
  by (cases v) simp_all

lemma upholds_if: "upholds R a \<Longrightarrow> upholds R b \<Longrightarrow> upholds R (if c then a else b)"
  by simp

lemmas upholds_cases = upholds_let upholds_prod upholds_option upholds_sum upholds_if

locale lawful =
  fixes R :: "'s \<Rightarrow> 's \<Rightarrow> bool"
  assumes law_refl: "R s s"
    and law_trans: "R s t \<Longrightarrow> R t u \<Longrightarrow> R s u"
begin

lemma pure:
  "upholds R (okS x)" "upholds R (errS e)" "upholds R (readS f)" "upholds R (liftS r)"
  "upholds R (refuseIf c e)"
  by (simp_all add: upholds_def handler_steps law_refl)

lemma put: "(\<And>s. R s (f s)) \<Longrightarrow> upholds R (putS f)"
  by (simp add: upholds_def handler_steps)

lemma bind:
  assumes "upholds R m" and "\<And>x. upholds R (f x)"
  shows "upholds R (bindS m f)"
  unfolding upholds_def
proof (intro allI impI)
  fix s r u assume b: "bindS m f s = (r, u)"
  obtain x t where m: "m s = (x, t)" by (cases "m s")
  have st: "R s t" using assms(1) m by (simp add: upholds_def)
  show "R s u"
  proof (cases x)
    case (Inl e)
    then show ?thesis using b m st by (simp add: bindS_def)
  next
    case (Inr y)
    then have "f y t = (r, u)" using b m by (simp add: bindS_def)
    then have "R t u" using assms(2) [of y] by (simp add: upholds_def)
    then show ?thesis using st law_trans by blast
  qed
qed

lemma cond: "(c \<Longrightarrow> upholds R a) \<Longrightarrow> (\<not> c \<Longrightarrow> upholds R b) \<Longrightarrow> upholds R (if c then a else b)"
  by simp

text \<open>A step that reads the state and then acts on what it read.\<close>

lemma reader:
  assumes "\<And>x. upholds R (f x)"
  shows "upholds R (\<lambda>s. f (g s) s)"
  using assms by (simp add: upholds_def)

end

end
