(* ===== verification/Fleet.thy ===== *)
theory Fleet
  imports Observations Handlers BindingStore ProjectStore CommandStore
begin

text \<open>
  The coordinator's live view of its nodes: \<open>fleetStore\<close> and \<open>fleetEntry\<close> of fleet.go and the session
  half of it in sessions.go and shared\_name.go.  The code compares entries by pointer, so streams live
  in a store addressed by handles and the fleet maps an instance to the handle of its newest stream.
  One mutex serialises every operation.  Store calls take their environments from \<open>E\<close>, one per call;
  \<open>persistCoordinator\<close> may use two.  Go visits a map in no fixed order: \<open>W\<close> is the order of this visit.
\<close>

section \<open>State\<close>

record pending_query =
  pq_request :: agent_query_request
  pq_expires :: int

datatype query_envelope = SendQuery agent_query | CancelQuery string

record stream =
  fs_view :: node_view
  fs_done :: bool
  fs_outbound :: "command list"
  fs_probes :: bool
  fs_workspaces :: bool
  fs_worktrees :: bool
  fs_agents :: bool
  fs_lifecycle :: bool
  fs_projects :: bool
  fs_sessions :: bool
  fs_sequence :: "64 word"
  fs_heartbeat :: "64 word"
  fs_wake :: bool
  fs_sent :: "(string, project_config) table"
  fs_applied :: "(string, project_ack) table"
  fs_queries :: "(string, pending_query) table"
  fs_canceled :: "(string, int) table"
  fs_query_out :: "query_envelope list"
  fs_answers :: "(string \<times> agent_query_result) list"

record 'b server =
  ms_streams :: "stream list"
  ms_nodes :: "(string, nat) table"
  ms_failure :: "err option"
  ms_db :: "'b coordinator"

text \<open>
  What the service is configured with: the tags that authorise its clients, operators and nodes, and
  whether the store is attached (\<open>run\<close> attaches it as journal, fleet storage and command store at once).
\<close>

record service =
  sc_client_tag :: string
  sc_command_tag :: string
  sc_node_tag :: string
  sc_stored :: bool

definition streamAt :: "nat \<Rightarrow> 'b server \<Rightarrow> stream" where
  "streamAt h S = ms_streams S ! h"

definition viewAt :: "nat \<Rightarrow> 'b server \<Rightarrow> node_view" where
  "viewAt h S = fs_view (streamAt h S)"

definition putStream :: "nat \<Rightarrow> (stream \<Rightarrow> stream) \<Rightarrow> 'b server \<Rightarrow> 'b server" where
  "putStream h f S = S\<lparr>ms_streams := (ms_streams S)[h := f (streamAt h S)]\<rparr>"

definition setView :: "nat \<Rightarrow> node_view \<Rightarrow> 'b server \<Rightarrow> 'b server" where
  "setView h v = putStream h (\<lambda>s. s\<lparr>fs_view := v\<rparr>)"

definition supersede :: "nat \<Rightarrow> 'b server \<Rightarrow> 'b server" where
  "supersede h = putStream h (\<lambda>s. s\<lparr>fs_done := True\<rparr>)"

definition current :: "nat \<Rightarrow> 'b server \<Rightarrow> bool" where
  "current h S = (tget (ms_nodes S) (nv_instance (viewAt h S)) = Some h \<and> \<not> fs_done (streamAt h S))"

section \<open>Persistence\<close>

definition persistCoordinator ::
  "(nat \<Rightarrow> tx_env) \<Rightarrow> (tx_env \<Rightarrow> 'd \<Rightarrow> 'a res \<times> 'd) \<Rightarrow> 'd \<Rightarrow> 'a res \<times> 'd" where
  "persistCoordinator E persist d = (case persist (E 0) d of
     (Inr x, d') \<Rightarrow> (Inr x, d')
   | (Inl e, d') \<Rightarrow> if RetryableCancellation e then persist (E 1) d' else (Inl e, d'))"

definition later :: "nat \<Rightarrow> (nat \<Rightarrow> tx_env) \<Rightarrow> nat \<Rightarrow> tx_env" where
  "later n E i = E (n + i)"

definition failLocked :: "err \<Rightarrow> ('b server, 'a) handler" where
  "failLocked e S = (Inl storageUnavailable,
     S\<lparr>ms_failure := (case ms_failure S of None \<Rightarrow> Some e | Some f \<Rightarrow> Some f)\<rparr>)"

text \<open>A store call under the mutex whose errors the handler classifies itself.\<close>

definition storeS :: "('b coordinator \<Rightarrow> 'a res \<times> 'b coordinator) \<Rightarrow> ('b server, 'a res) handler" where
  "storeS f S = (case f (ms_db S) of (r, db) \<Rightarrow> (Inr r, S\<lparr>ms_db := db\<rparr>))"

text \<open>A persisted change that stops the coordinator when it fails for good.\<close>

definition persistS ::
  "(nat \<Rightarrow> tx_env) \<Rightarrow> (tx_env \<Rightarrow> 'b coordinator \<Rightarrow> 'a res \<times> 'b coordinator) \<Rightarrow> ('b server, 'a) handler" where
  "persistS E f = bindS (storeS (persistCoordinator E f)) (\<lambda>r. case r of Inl e \<Rightarrow> failLocked e | Inr x \<Rightarrow> okS x)"

definition healthy :: "('b server, unit) handler" where
  "healthy = bindS (readS ms_failure) (\<lambda>f. refuseIf (f \<noteq> None) storageUnavailable)"

definition loseCommands ::
  "service \<Rightarrow> 'b codecs \<Rightarrow> (nat \<Rightarrow> tx_env) \<Rightarrow> string \<Rightarrow> int \<Rightarrow> ('b server, unit) handler" where
  "loseCommands C K E node now =
     (if \<not> sc_stored C then okS () else persistS E (\<lambda>e. LoseNodeCommands e K node now))"

definition expireCommands ::
  "service \<Rightarrow> 'b codecs \<Rightarrow> (nat \<Rightarrow> tx_env) \<Rightarrow> int \<Rightarrow> ('b server, unit) handler" where
  "expireCommands C K E now = bindS healthy (\<lambda>_.
     if \<not> sc_stored C then okS () else persistS E (\<lambda>e. ExpireCommands e K now))"

definition save ::
  "service \<Rightarrow> 'b codecs \<Rightarrow> (nat \<Rightarrow> tx_env) \<Rightarrow> node_view \<Rightarrow> ('b server, unit) handler" where
  "save C K E view = bindS healthy (\<lambda>_.
     bindS (refuseIf (maxNodeBytes < size_msg (k_node K) view)
       (rpcError ResourceExhausted ''combined node state size limit exceeded'')) (\<lambda>_.
     if \<not> sc_stored C then okS () else persistS E (\<lambda>e. SaveNode e K (Some view))))"

definition expiredNodes :: "pb \<Rightarrow> int \<Rightarrow> 'b server \<Rightarrow> string list" where
  "expiredNodes P now S = map fst (filter (\<lambda>(i, h). \<not> nv_connected (viewAt h S) \<and>
     offlineRetention < now - asTimeOf P (nv_last_seen (viewAt h S))) (ms_nodes S))"

definition prune ::
  "service \<Rightarrow> 'b codecs \<Rightarrow> (nat \<Rightarrow> tx_env) \<Rightarrow> int \<Rightarrow> ('b server, unit) handler" where
  "prune C K E now = bindS healthy (\<lambda>_. bindS (readS (expiredNodes (k_pb K) now)) (\<lambda>expired.
     if expired = [] then okS ()
     else bindS (if sc_stored C then persistS E (\<lambda>e. DeleteNodes e expired) else okS ()) (\<lambda>_.
       putS (\<lambda>S. S\<lparr>ms_nodes := filter (\<lambda>(i, h). i \<notin> set expired) (ms_nodes S)\<rparr>))))"

section \<open>Streams begin and end\<close>

definition emptyView :: "string \<Rightarrow> string \<Rightarrow> bool \<Rightarrow> timestamp \<Rightarrow> node_view" where
  "emptyView node stableID enabled stamp = \<lparr>nv_instance = node, nv_stable = stableID, nv_connected = True,
     nv_last_seen = Some stamp,
     nv_herdr = Some (emptyHerdr (if enabled then ''waiting'' else ''disabled'')),
     nv_stale = False, nv_herdr_received = None, nv_command_ready = False, nv_workspace_ready = False,
     nv_worktree_ready = False, nv_agent_ready = False, nv_sessions = [], nv_sessions_ready = False,
     nv_sessions_received = None, nv_sessions_error = '''', nv_hostname = '''', nv_unk = []\<rparr>"

definition newStream :: "node_view \<Rightarrow> stream" where
  "newStream v = \<lparr>fs_view = v, fs_done = False, fs_outbound = [], fs_probes = False,
     fs_workspaces = False, fs_worktrees = False, fs_agents = False, fs_lifecycle = False,
     fs_projects = False, fs_sessions = False, fs_sequence = 0, fs_heartbeat = 0, fs_wake = False,
     fs_sent = [], fs_applied = [], fs_queries = [], fs_canceled = [], fs_query_out = [],
     fs_answers = []\<rparr>"

definition installStream :: "string \<Rightarrow> node_view \<Rightarrow> ('b server, nat) handler" where
  "installStream node v S =
     (let S = (case tget (ms_nodes S) node of None \<Rightarrow> S
               | Some h \<Rightarrow> if nv_connected (viewAt h S) then supersede h S else S);
          h = length (ms_streams S) in
      (Inr h, S\<lparr>ms_streams := ms_streams S @ [newStream v], ms_nodes := tput node h (ms_nodes S)\<rparr>))"

definition beginLocked ::
  "service \<Rightarrow> 'b codecs \<Rightarrow> (nat \<Rightarrow> tx_env) \<Rightarrow> string \<Rightarrow> string \<Rightarrow> bool \<Rightarrow> int \<Rightarrow> ('b server, nat) handler" where
  "beginLocked C K E node stableID enabled now = bindS (prune C K E now) (\<lambda>_.
     bindS (readS ms_nodes) (\<lambda>nodes.
     bindS (refuseIf (tget nodes node = None \<and> maxFleetNodes \<le> length nodes)
       (rpcError ResourceExhausted ''fleet node limit reached'')) (\<lambda>_.
     let view = emptyView node stableID enabled (new_ts (k_pb K) now) in
     bindS (save C K (later 2 E) view) (\<lambda>_.
     bindS (loseCommands C K (later 4 E) node now) (\<lambda>_. installStream node view)))))"

definition offlineView :: "pb \<Rightarrow> int \<Rightarrow> node_view \<Rightarrow> node_view" where
  "offlineView P now v = projectSessionFreshness P (v\<lparr>nv_connected := False, nv_stale := True,
     nv_command_ready := False, nv_workspace_ready := False, nv_worktree_ready := False,
     nv_agent_ready := False, nv_sessions_ready := False\<rparr>) now"

text \<open>The deferred end of a stream; it reads the clock twice.\<close>

definition endStream ::
  "service \<Rightarrow> 'b codecs \<Rightarrow> (nat \<Rightarrow> tx_env) \<Rightarrow> nat \<Rightarrow> int \<Rightarrow> int \<Rightarrow> ('b server, unit) handler" where
  "endStream C K E h now now' =
     bindS (putS (putStream h (\<lambda>s. s\<lparr>fs_done := True, fs_queries := []\<rparr>))) (\<lambda>_.
     bindS (readS (\<lambda>S. (tget (ms_nodes S) (nv_instance (viewAt h S)) = Some h, viewAt h S))) (\<lambda>(newest, view).
     if \<not> newest then okS ()
     else let copy = offlineView (k_pb K) now view in
       bindS (save C K E copy) (\<lambda>_.
       bindS (loseCommands C K (later 2 E) (nv_instance copy) now') (\<lambda>_. putS (setView h copy)))))"

section \<open>Reports of a stream\<close>

definition heartbeatView :: "pb \<Rightarrow> stream \<Rightarrow> int \<Rightarrow> bool list \<Rightarrow> node_view" where
  "heartbeatView P s now ready =
     (let v = (fs_view s)\<lparr>nv_last_seen := Some (new_ts P now)\<rparr>;
          at = (\<lambda>i. i < length ready \<and> ready ! i);
          c = (at 0 \<and> fs_probes s);
          w = (c \<and> at 1 \<and> fs_workspaces s \<and> freshHerdr P v now) in
      v\<lparr>nv_command_ready := c, nv_workspace_ready := w, nv_worktree_ready := w \<and> at 2 \<and> fs_worktrees s,
        nv_agent_ready := c \<and> at 3 \<and> fs_agents s \<and> freshHerdr P v now,
        nv_sessions_ready := at 4 \<and> fs_sessions s\<rparr>)"

definition heartbeat ::
  "service \<Rightarrow> 'b codecs \<Rightarrow> (nat \<Rightarrow> tx_env) \<Rightarrow> nat \<Rightarrow> int \<Rightarrow> bool list \<Rightarrow> ('b server, unit) handler" where
  "heartbeat C K E h now ready = bindS healthy (\<lambda>_.
     bindS (readS (\<lambda>S. (current h S, streamAt h S))) (\<lambda>(cur, s).
     bindS (refuseIf (\<not> cur) superseded) (\<lambda>_.
     let copy = heartbeatView (k_pb K) s now ready in
     bindS (save C K E copy) (\<lambda>_. putS (setView h copy)))))"

text \<open>The bytes of all other views plus \<open>own\<close>.\<close>

definition fleetSize :: "sizes \<Rightarrow> nat \<Rightarrow> nat \<Rightarrow> 'b server \<Rightarrow> nat" where
  "fleetSize Z h own S =
     own + sum_list (map (\<lambda>(i, g). nodeStateSize Z (viewAt g S)) (filter (\<lambda>(i, g). g \<noteq> h) (ms_nodes S)))"

definition fleetTooLarge :: err where
  "fleetTooLarge = rpcError ResourceExhausted ''fleet state size limit exceeded''"

definition herdrView :: "pb \<Rightarrow> node_view \<Rightarrow> herdr_state \<Rightarrow> int \<Rightarrow> node_view" where
  "herdrView P v state now =
     (let v = v\<lparr>nv_herdr := Some state, nv_herdr_received := Some (new_ts P now)\<rparr> in
      if hs_status state \<noteq> ''ready''
      then v\<lparr>nv_workspace_ready := False, nv_worktree_ready := False, nv_agent_ready := False\<rparr> else v)"

definition herdrSequence :: "node_view \<Rightarrow> 64 word" where
  "herdrSequence v = (case nv_herdr v of None \<Rightarrow> 0 | Some h \<Rightarrow> hs_sequence h)"

definition updateHerdr ::
  "service \<Rightarrow> 'b codecs \<Rightarrow> sizes \<Rightarrow> (nat \<Rightarrow> tx_env) \<Rightarrow> nat \<Rightarrow> herdr_state \<Rightarrow> int \<Rightarrow> ('b server, unit) handler" where
  "updateHerdr C K Z E h state now =
     bindS (liftS (validateHerdrState (k_pb K) Z (Some state))) (\<lambda>_.
     bindS (readS (\<lambda>S. (current h S, viewAt h S))) (\<lambda>(cur, view).
     bindS (refuseIf (\<not> cur) superseded) (\<lambda>_.
     bindS (refuseIf (hs_sequence state \<le> herdrSequence view)
       (rpcError InvalidArgument ''Herdr sequence must increase within a stream'')) (\<lambda>_.
     bindS (readS (fleetSize Z h (nodeStateSize Z view - sizeOfHerdr Z (nv_herdr view) + size_herdr Z state))) (\<lambda>size.
     bindS (refuseIf (maxFleetBytes < size) fleetTooLarge) (\<lambda>_.
     let copy = herdrView (k_pb K) view state now in
     bindS (save C K E copy) (\<lambda>_. putS (setView h copy))))))))"

definition setLogicalName ::
  "service \<Rightarrow> 'b codecs \<Rightarrow> (nat \<Rightarrow> tx_env) \<Rightarrow> nat \<Rightarrow> string \<Rightarrow> ('b server, unit) handler" where
  "setLogicalName C K E h name = bindS (liftS (validateLogicalNodeName name)) (\<lambda>_.
     bindS healthy (\<lambda>_. bindS (readS (\<lambda>S. (current h S, viewAt h S))) (\<lambda>(cur, view).
     bindS (refuseIf (\<not> cur) superseded) (\<lambda>_.
     if nv_hostname view = name then okS ()
     else let copy = view\<lparr>nv_hostname := name\<rparr> in
       bindS (save C K E copy) (\<lambda>_. putS (setView h copy))))))"

section \<open>Readiness\<close>

definition sessionManagerReady :: "pb \<Rightarrow> stream \<Rightarrow> int \<Rightarrow> bool" where
  "sessionManagerReady P s now = (let v = fs_view s in
     fs_sessions s \<and> nv_connected v \<and> nv_sessions_ready v \<and> nv_last_seen v \<noteq> None \<and>
     now - asTimeOf P (nv_last_seen v) < herdrStaleAfter)"

definition selectedSessionReady :: "pb \<Rightarrow> stream \<Rightarrow> string \<Rightarrow> string \<Rightarrow> int \<Rightarrow> bool" where
  "selectedSessionReady P s name incarnation now = (let v = fs_view s in
     sessionManagerReady P s now \<and> nv_sessions_received v \<noteq> None \<and>
     now - asTimeOf P (nv_sessions_received v) < herdrStaleAfter \<and> nv_sessions_error v = '''' \<and>
     (case findSession v name of None \<Rightarrow> False
      | Some value \<Rightarrow> (incarnation = '''' \<or> sv_incarnation value = incarnation) \<and> freshSession P v value now))"

definition agentReady :: "pb \<Rightarrow> stream \<Rightarrow> string \<Rightarrow> string \<Rightarrow> int \<Rightarrow> bool" where
  "agentReady P s name incarnation now =
     (if name \<noteq> '''' then selectedSessionReady P s name incarnation now \<and> fs_agents s
      else fs_agents s \<and> nv_agent_ready (fs_view s) \<and> nv_command_ready (fs_view s) \<and> freshHerdr P (fs_view s) now)"

definition mutationReady :: "pb \<Rightarrow> stream \<Rightarrow> string \<Rightarrow> int \<Rightarrow> string \<Rightarrow> string \<Rightarrow> bool" where
  "mutationReady P s kind now name incarnation =
     (if IsLifecycleCommand kind then
        fs_lifecycle s \<and> (kind \<noteq> AgentStartCommandType \<or> fs_projects s) \<and> agentReady P s name incarnation now
      else if kind = SessionEnsureCommandType then sessionManagerReady P s now
      else if kind = AgentControlCommandType then agentReady P s name incarnation now
      else if name \<noteq> '''' then selectedSessionReady P s name incarnation now \<and>
        (if kind = WorkspaceEnsureCommandType then fs_workspaces s
         else if kind = WorktreeCreateCommandType then fs_workspaces s \<and> fs_worktrees s else False)
      else fs_workspaces s \<and> nv_workspace_ready (fs_view s) \<and> freshHerdr P (fs_view s) now \<and>
        (if kind = WorkspaceEnsureCommandType then True
         else if kind = WorktreeCreateCommandType then fs_worktrees s \<and> nv_worktree_ready (fs_view s) else False))"

section \<open>Session inventories\<close>

text \<open>
  \<open>cancelSessionQueryLocked\<close>: forget the query, remember that it was cancelled, tell both sides.  What is
  sent on the channel of a pending query is kept in \<open>fs_answers\<close> for the call that waits for it.
\<close>

definition queryError :: "string \<Rightarrow> string \<Rightarrow> agent_query_result" where
  "queryError qid code = \<lparr>qs_id = qid, qs_agent = None, qs_text = '''', qs_truncated = False,
     qs_error = code, qs_unk = []\<rparr>"

fun dropCanceled :: "int \<Rightarrow> string list \<Rightarrow> (string, int) table \<Rightarrow> (string, int) table" where
  "dropCanceled now [] t = t"
| "dropCanceled now (k # ks) t =
     dropCanceled now ks (case tget t k of None \<Rightarrow> t
       | Some expiry \<Rightarrow> if expiry < now \<or> 128 \<le> length t then tdel k t else t)"

definition offerQuery :: "query_envelope \<Rightarrow> query_envelope list \<Rightarrow> query_envelope list" where
  "offerQuery e q = (if length q < 16 then q @ [e] else q)"

definition cancelSessionQuery ::
  "(string list \<Rightarrow> string list) \<Rightarrow> int \<Rightarrow> string \<Rightarrow> pending_query \<Rightarrow> stream \<Rightarrow> stream" where
  "cancelSessionQuery W now qid pending s =
     s\<lparr>fs_queries := tdel qid (fs_queries s),
       fs_canceled := tput qid (pq_expires pending + 10 * 1000000000)
         (dropCanceled now (W (map fst (fs_canceled s))) (fs_canceled s)),
       fs_query_out := offerQuery (CancelQuery qid) (fs_query_out s),
       fs_answers := fs_answers s @ [(qid, queryError qid ''session_replaced'')]\<rparr>"

definition querySession :: "pending_query \<Rightarrow> string" where
  "querySession q = getter at_session (qr_target (pq_request q))"

text \<open>The loop over the pending queries after a new inventory; \<open>previous\<close> is the view before it.\<close>

fun recheckQueries ::
  "pb \<Rightarrow> (string list \<Rightarrow> string list) \<Rightarrow> int \<Rightarrow> int \<Rightarrow> node_view \<Rightarrow> string list \<Rightarrow> stream \<Rightarrow> stream" where
  "recheckQueries P W now now' previous [] s = s"
| "recheckQueries P W now now' previous (qid # qs) s = recheckQueries P W now now' previous qs
     (case tget (fs_queries s) qid of None \<Rightarrow> s
      | Some q \<Rightarrow>
          if querySession q = '''' then s
          else (case (findSession previous (querySession q), findSession (fs_view s) (querySession q)) of
            (Some before, Some after) \<Rightarrow>
              if sv_incarnation before \<noteq> sv_incarnation after \<or>
                 \<not> selectedSessionReady P s (querySession q) (sv_incarnation before) now
              then cancelSessionQuery W now' qid q s else s
          | _ \<Rightarrow> cancelSessionQuery W now' qid q s))"

definition receivedSession :: "pb \<Rightarrow> int \<Rightarrow> node_view \<Rightarrow> session_view \<Rightarrow> session_view" where
  "receivedSession P now previous v =
     (if sv_herdr v = None then v
      else case findSession previous (sv_name v) of
        Some old \<Rightarrow> if sv_incarnation old = sv_incarnation v \<and> sv_herdr old = sv_herdr v
          then v\<lparr>sv_received := sv_received old\<rparr> else v\<lparr>sv_received := Some (new_ts P now)\<rparr>
      | None \<Rightarrow> v\<lparr>sv_received := Some (new_ts P now)\<rparr>)"

definition inventoryView :: "pb \<Rightarrow> node_view \<Rightarrow> session_inventory \<Rightarrow> int \<Rightarrow> node_view" where
  "inventoryView P v i now = projectSessionFreshness P
     (v\<lparr>nv_sessions := map (receivedSession P now v) (si_sessions i),
        nv_sessions_received := Some (new_ts P now), nv_sessions_error := si_error i\<rparr>) now"

definition updateSessions ::
  "service \<Rightarrow> 'b codecs \<Rightarrow> sizes \<Rightarrow> (string list \<Rightarrow> string list) \<Rightarrow> (nat \<Rightarrow> tx_env) \<Rightarrow> nat \<Rightarrow>
   session_inventory \<Rightarrow> int \<Rightarrow> int \<Rightarrow> ('b server, unit) handler" where
  "updateSessions C K Z W E h inventory now now' =
     bindS (liftS (validateSessionInventory (k_pb K) Z (Some inventory))) (\<lambda>_.
     bindS (readS (\<lambda>S. (current h S, streamAt h S))) (\<lambda>(cur, s).
     bindS (refuseIf (\<not> cur) superseded) (\<lambda>_.
     bindS (refuseIf (\<not> fs_sessions s) (rpcError FailedPrecondition ''session inventory was not negotiated'')) (\<lambda>_.
     bindS (refuseIf (si_sequence inventory \<le> fs_sequence s)
       (rpcError InvalidArgument ''session sequence must increase within a stream'')) (\<lambda>_.
     let copy = inventoryView (k_pb K) (fs_view s) inventory now in
     bindS (readS (fleetSize Z h (nodeStateSize Z copy))) (\<lambda>size.
     bindS (refuseIf (maxFleetBytes < size) fleetTooLarge) (\<lambda>_.
     bindS (save C K E copy) (\<lambda>_. putS (putStream h (\<lambda>s.
       recheckQueries (k_pb K) W now now' (fs_view s) (W (map fst (fs_queries s)))
         (s\<lparr>fs_view := copy, fs_sequence := si_sequence inventory\<rparr>)))))))))))"

section \<open>Restart and listing\<close>

fun restoreLoop ::
  "pb \<Rightarrow> sizes \<Rightarrow> int \<Rightarrow> node_view list \<Rightarrow> string list \<Rightarrow> nat \<Rightarrow> 'b server \<Rightarrow> 'b server res" where
  "restoreLoop P Z now [] stables bytes S = Inr S"
| "restoreLoop P Z now (v # vs) stables bytes S =
     bindR (case validateStoredNode P Z v of Inl e \<Rightarrow> Inl (Wrap ''validate stored fleet'' e) | Inr u \<Rightarrow> Inr u) (\<lambda>_.
     if tget (ms_nodes S) (nv_instance v) \<noteq> None then Inl (Msg ''stored fleet contains duplicate instance IDs'')
     else if nv_stable v \<in> set stables then Inl (Msg ''stored fleet contains duplicate Tailscale identities'')
     else if maxFleetBytes < bytes + nodeStateSize Z v then Inl (Msg ''stored fleet exceeds payload limit'')
     else restoreLoop P Z now vs (nv_stable v # stables) (bytes + nodeStateSize Z v)
       (S\<lparr>ms_streams := ms_streams S @ [newStream (offlineView P now v)],
          ms_nodes := tput (nv_instance v) (length (ms_streams S)) (ms_nodes S)\<rparr>))"

definition restore ::
  "service \<Rightarrow> 'b codecs \<Rightarrow> sizes \<Rightarrow> (nat \<Rightarrow> tx_env) \<Rightarrow> node_view list \<Rightarrow> int \<Rightarrow> ('b server, unit) handler" where
  "restore C K Z E views now S =
     (if ms_nodes S \<noteq> [] then (Inl (Msg ''fleet is already initialized''), S)
      else if maxFleetNodes < length views then (Inl (Msg ''stored fleet exceeds node limit''), S)
      else case restoreLoop (k_pb K) Z now views [] 0 (S\<lparr>ms_streams := []\<rparr>) of
        Inl e \<Rightarrow> (Inl e, S)
      | Inr S' \<Rightarrow> prune C K E now S')"

definition listedView :: "pb \<Rightarrow> int \<Rightarrow> bool \<Rightarrow> node_view \<Rightarrow> node_view" where
  "listedView P now cur v =
     (let w = (nv_workspace_ready v \<and> freshHerdr P v now \<and> cur) in
      projectSessionFreshness P (v\<lparr>
        nv_stale := \<not> nv_connected v \<or> herdrStatus (nv_herdr v) \<noteq> ''ready'' \<or>
          nv_herdr_received v = None \<or> herdrStaleAfter < now - asTimeOf P (nv_herdr_received v),
        nv_workspace_ready := w, nv_worktree_ready := nv_worktree_ready v \<and> w,
        nv_agent_ready := nv_agent_ready v \<and> freshHerdr P v now \<and> cur,
        nv_sessions_ready := nv_sessions_ready v \<and> nv_connected v \<and> cur \<and>
          now - asTimeOf P (nv_last_seen v) < herdrStaleAfter\<rparr>) now)"

definition listFleet ::
  "service \<Rightarrow> 'b codecs \<Rightarrow> (nat \<Rightarrow> tx_env) \<Rightarrow> int \<Rightarrow> ('b server, node_view list) handler" where
  "listFleet C K E now = bindS (prune C K E now) (\<lambda>_.
     readS (\<lambda>S. map (\<lambda>(i, h). listedView (k_pb K) now (current h S) (viewAt h S)) (ms_nodes S)))"

end
