(* ===== verification/ProjectPolicy.thy ===== *)
theory ProjectPolicy
  imports ProtoResults Tables
begin

text \<open>
  The loaded project allowlist of the projects package: exact bindings of a project on a node to a
  revision and to the actors that may use it.  Reading the policy file and pinning local paths is
  file-system input; a policy here is what \<open>Load\<close> returned.
\<close>

definition ErrDenied :: err where "ErrDenied = Msg ''projects: binding denied''"

record project_binding =
  bn_project :: string
  bn_node :: string
  bn_revision :: string
  bn_path :: string
  bn_worktrees :: bool
  bn_root :: string
  bn_actors :: "string list"

text \<open>Keyed by node and project; a nil policy denies everything.\<close>

type_synonym policy = "(string \<times> string, project_binding) table option"

definition Resolve :: "policy \<Rightarrow> string \<Rightarrow> string \<Rightarrow> string \<Rightarrow> string \<Rightarrow> project_binding res" where
  "Resolve p node project revision actorID = (case p of
     None \<Rightarrow> Inl ErrDenied
   | Some bindings \<Rightarrow> (case tget bindings (node, project) of
       None \<Rightarrow> Inl ErrDenied
     | Some b \<Rightarrow>
         if bn_revision b \<noteq> revision then Inl ErrDenied
         else if actorID \<notin> set (bn_actors b) then Inl ErrDenied else Inr b))"

definition HasWorktrees :: "policy \<Rightarrow> bool" where
  "HasWorktrees p = (case p of None \<Rightarrow> False | Some bindings \<Rightarrow> list_ex (\<lambda>(k, b). bn_worktrees b) bindings)"

text \<open>The table is in key order, which is the order the snapshot is sorted into.\<close>

definition LegacyBindings :: "policy \<Rightarrow> project_binding list" where
  "LegacyBindings p = (case p of None \<Rightarrow> [] | Some bindings \<Rightarrow> map snd bindings)"

section \<open>Revisions of managed projects\<close>

fun decimal :: "nat \<Rightarrow> string" where
  "decimal n = (if n < 10 then [char_of (48 + n)] else decimal (n div 10) @ [char_of (48 + n mod 10)])"

declare decimal.simps [simp del]

definition ProjectRevision :: "64 word \<Rightarrow> string" where
  "ProjectRevision generation = ''managed:'' @ decimal (unat generation)"

text \<open>The revision names its generation: printing is injective.\<close>

definition undecimal :: "string \<Rightarrow> nat" where
  "undecimal s = foldl (\<lambda>n c. n * 10 + (of_char c - 48)) 0 s"

lemma undecimal_decimal: "undecimal (decimal n) = n"
proof (induction n rule: decimal.induct)
  case (1 n)
  show ?case
  proof (cases "n < 10")
    case True
    then show ?thesis by (simp add: decimal.simps [of n] undecimal_def of_char_of take_bit_eq_mod)
  next
    case False
    have "undecimal (decimal n) = undecimal (decimal (n div 10)) * 10 + n mod 10"
      using False by (subst decimal.simps) (simp add: undecimal_def of_char_of take_bit_eq_mod)
    then show ?thesis using 1 False by simp
  qed
qed

lemma ProjectRevision_eq [simp]: "ProjectRevision g = ProjectRevision g' \<longleftrightarrow> g = g'"
  unfolding ProjectRevision_def using undecimal_decimal by (metis append_same_eq same_append_eq word_unat_eq_iff)

end
