(* ===== verification/Service.thy ===== *)
theory Service
  imports Fleet ProjectPolicy
begin

text \<open>
  The coordinator's service (server.go, commands.go, workspace.go, projects.go, agents.go, lifecycle.go
  and named\_agent.go of the server package): who may call, what a submission must satisfy, how a queued
  command reaches its stream, and what the reports of a stream do.  Every handler holds the fleet's
  mutex, so it is one step; \<open>T i\<close> is the \<open>i\<close>-th reading of the clock inside a handler, \<open>E i\<close> the
  environment of its \<open>i\<close>-th store call, and the identity of the caller is what the network reports.
\<close>

section \<open>Callers\<close>

record peer =
  pe_stable :: string
  pe_tags :: "string list"

text \<open>The small request messages of the service.\<close>

record get_project =
  gp_node :: string
  gp_project :: string
  gp_unk :: string

record legacy_projects =
  lp_projects :: "register_project option list"
  lp_unk :: string

record get_command =
  gc_id :: string
  gc_unk :: string

record resolve_agent =
  rn_node :: string
  rn_session :: string
  rn_name :: string
  rn_unk :: string

record named_agent =
  na_record :: command_record
  na_prompt :: bool

definition authorizePeer :: "peer res \<Rightarrow> string \<Rightarrow> peer res" where
  "authorizePeer identified tag = (case identified of
     Inl e \<Rightarrow> Inl (RpcStatus PermissionDenied e)
   | Inr p \<Rightarrow>
       if pe_stable p = '''' then Inl (rpcError PermissionDenied ''Tailscale peer has no stable identity'')
       else if tag \<noteq> '''' \<and> tag \<notin> set (pe_tags p)
       then Inl (rpcError PermissionDenied ''peer is missing required tag'') else Inr p)"

definition sessionsConfigured :: "service \<Rightarrow> bool" where
  "sessionsConfigured C = (sc_stored C \<and> sc_command_tag C \<noteq> '''' \<and> sc_node_tag C \<noteq> '''')"

definition agentConfigured :: "service \<Rightarrow> bool" where
  "agentConfigured C = (sc_stored C \<and> sc_client_tag C \<noteq> '''' \<and> sc_command_tag C \<noteq> '''' \<and> sc_node_tag C \<noteq> '''')"

text \<open>The checks every operator call starts with.\<close>

definition operatorOf :: "service \<Rightarrow> peer res \<Rightarrow> peer res" where
  "operatorOf C who =
     (if sc_command_tag C = '''' then Inl (rpcError PermissionDenied ''command authorization is not configured'')
      else bindR (authorizePeer who (sc_command_tag C)) (\<lambda>p.
        if \<not> sc_stored C then Inl (rpcError Unimplemented ''command journals are not configured'') else Inr p))"

section \<open>Store errors\<close>

definition commandErrorLocked :: "err \<Rightarrow> ('b server, 'a) handler" where
  "commandErrorLocked e =
     (if errors_is e CtxCanceled \<or> errors_is e CtxDeadlineExceeded
      then errS (RpcStatus (if errors_is e CtxDeadlineExceeded then DeadlineExceeded else Canceled) e)
      else if errors_is e ErrCommandNotFound then errS (rpcError NotFound ''command not found'')
      else if errors_is e ErrCommandConflict \<or> errors_is e ErrIdentityConflict
      then errS (rpcError FailedPrecondition ''command identity or outcome conflict'')
      else if errors_is e ErrLifecycleUnresolved
      then errS (rpcError FailedPrecondition ''native target has unresolved effects'')
      else if errors_is e ErrNamedAgentExists
      then errS (rpcError FailedPrecondition ''agent name already has a durable start'')
      else if errors_is e ErrCommandCapacity
      then errS (rpcError ResourceExhausted ''command journal capacity reached; records were not discarded'')
      else failLocked e)"

definition projectErrorLocked :: "err \<Rightarrow> ('b server, 'a) handler" where
  "projectErrorLocked e =
     (if errors_is e ErrProjectNotFound then errS (rpcError NotFound ''project not found'')
      else if errors_is e ErrProjectConflict then errS (rpcError FailedPrecondition ''project configuration conflict'')
      else if errors_is e ErrProjectCapacity
      then errS (rpcError ResourceExhausted ''project configuration capacity reached'')
      else commandErrorLocked e)"

definition commandCall :: "('b coordinator \<Rightarrow> 'a res \<times> 'b coordinator) \<Rightarrow> ('b server, 'a) handler" where
  "commandCall f = bindS (storeS f) (\<lambda>r. case r of Inl e \<Rightarrow> commandErrorLocked e | Inr x \<Rightarrow> okS x)"

definition projectCall :: "('b coordinator \<Rightarrow> 'a res \<times> 'b coordinator) \<Rightarrow> ('b server, 'a) handler" where
  "projectCall f = bindS (storeS f) (\<lambda>r. case r of Inl e \<Rightarrow> projectErrorLocked e | Inr x \<Rightarrow> okS x)"

section \<open>Projects\<close>

definition projectReadiness :: "'b server \<Rightarrow> project_config \<Rightarrow> string" where
  "projectReadiness S d = (case tget (ms_nodes S) (pc_node d) of
     None \<Rightarrow> ''offline''
   | Some h \<Rightarrow>
       if \<not> current h S \<or> \<not> nv_connected (viewAt h S) then ''offline''
       else if \<not> fs_projects (streamAt h S) then ''unsupported''
       else (case tget (fs_applied (streamAt h S)) (pc_project d) of
           None \<Rightarrow> ''pending''
         | Some ack \<Rightarrow> if pa_generation ack = pc_generation d then pa_status ack else ''pending''))"

definition projectViewLocked :: "project_record \<Rightarrow> ('b server, project_record) handler" where
  "projectViewLocked r S = (case prj_desired r of
     None \<Rightarrow> (Inr r, S)
   | Some d \<Rightarrow> (Inr (r\<lparr>prj_readiness := projectReadiness S d\<rparr>), S))"

definition generationOf :: "project_record \<Rightarrow> 64 word" where
  "generationOf r = (case prj_desired r of None \<Rightarrow> 0 | Some d \<Rightarrow> pc_generation d)"

definition managedProjectReadyLocked ::
  "'b codecs \<Rightarrow> tx_env \<Rightarrow> nat \<Rightarrow> string \<Rightarrow> string \<Rightarrow> ('b server, project_record) handler" where
  "managedProjectReadyLocked K E h project revision = bindS (readS (streamAt h)) (\<lambda>s.
     bindS (refuseIf (\<not> fs_projects s)
       (rpcError FailedPrecondition ''node does not support centrally managed projects'')) (\<lambda>_.
     bindS (projectCall (GetProject E K (nv_instance (fs_view s)) project)) (\<lambda>r.
     bindS (projectViewLocked r) (\<lambda>v.
     bindS (refuseIf (prj_readiness v \<noteq> ''applied'' \<or> revision \<noteq> '''' \<and> revision \<noteq> ProjectRevision (generationOf r))
       (rpcError FailedPrecondition ''current project configuration is not applied'')) (\<lambda>_. okS r)))))"

definition wakeProjects :: "nat option \<Rightarrow> 'b server \<Rightarrow> 'b server" where
  "wakeProjects entry S = (case entry of None \<Rightarrow> S
   | Some h \<Rightarrow> if fs_projects (streamAt h S) then putStream h (\<lambda>s. s\<lparr>fs_wake := True\<rparr>) S else S)"

definition projectAccess :: "service \<Rightarrow> peer res \<Rightarrow> bool \<Rightarrow> unit res" where
  "projectAccess C who write =
     (let tag = (if write then sc_command_tag C else sc_client_tag C) in
      if tag = '''' then Inl (rpcError PermissionDenied ''project transport role is not configured'')
      else bindR (authorizePeer who tag) (\<lambda>_.
        if \<not> sc_stored C then Inl (rpcError Unimplemented ''project storage is not configured'') else Inr ()))"

definition RegisterProject ::
  "service \<Rightarrow> 'b codecs \<Rightarrow> (nat \<Rightarrow> tx_env) \<Rightarrow> peer res \<Rightarrow> register_project option \<Rightarrow>
   ('b server, project_record) handler" where
  "RegisterProject C K E who r = bindS (liftS (projectAccess C who True)) (\<lambda>_.
     bindS (liftS (case ValidateProjectRegistration r of
        Inl e \<Rightarrow> Inl (RpcStatus InvalidArgument e) | Inr u \<Rightarrow> Inr u)) (\<lambda>_.
     bindS healthy (\<lambda>_. bindS (projectCall (UpsertProject (E 0) K r)) (\<lambda>record.
     bindS (putS (\<lambda>S. wakeProjects (tget (ms_nodes S) (getter rp_node r)) S)) (\<lambda>_.
     projectViewLocked record)))))"

definition GetProjectCall ::
  "service \<Rightarrow> 'b codecs \<Rightarrow> (nat \<Rightarrow> tx_env) \<Rightarrow> peer res \<Rightarrow> get_project option \<Rightarrow>
   ('b server, project_record) handler" where
  "GetProjectCall C K E who r = bindS (liftS (projectAccess C who False)) (\<lambda>_.
     bindS (refuseIf (\<not> opt_ex (\<lambda>r. ValidIdempotencyKey (gp_node r) \<and> ValidIdempotencyKey (gp_project r) \<and>
         gp_unk r = []) r) (rpcError InvalidArgument ''node and project IDs are required'')) (\<lambda>_.
     bindS healthy (\<lambda>_.
     bindS (projectCall (GetProject (E 0) K (getter gp_node r) (getter gp_project r))) projectViewLocked)))"

text \<open>\<open>projectUpdates\<close>: the configurations the stream has not been sent in this generation.\<close>

fun unsentLoop :: "project_record list \<Rightarrow> (string, project_config) table \<Rightarrow>
    project_config list \<times> (string, project_config) table" where
  "unsentLoop [] sent = ([], sent)"
| "unsentLoop (r # rs) sent = (case prj_desired r of
     None \<Rightarrow> unsentLoop rs sent
   | Some c \<Rightarrow>
       if opt_ex (\<lambda>old. pc_generation old = pc_generation c) (tget sent (pc_project c))
       then unsentLoop rs sent
       else (case unsentLoop rs (tput (pc_project c) c sent) of (cs, sent') \<Rightarrow> (c # cs, sent')))"

definition projectUpdates ::
  "'b codecs \<Rightarrow> (nat \<Rightarrow> tx_env) \<Rightarrow> nat \<Rightarrow> ('b server, project_config list) handler" where
  "projectUpdates K E h = bindS (readS (\<lambda>S. (current h S, viewAt h S))) (\<lambda>(cur, view).
     bindS (refuseIf (\<not> cur) superseded) (\<lambda>_. bindS healthy (\<lambda>_.
     bindS (projectCall (ListProjects (E 0) K (nv_instance view))) (\<lambda>records.
     bindS (readS (\<lambda>S. unsentLoop records (fs_sent (streamAt h S)))) (\<lambda>(updates, sent).
     bindS (putS (putStream h (\<lambda>s. s\<lparr>fs_sent := sent\<rparr>))) (\<lambda>_. okS updates))))))"

definition acknowledgeProject ::
  "'b codecs \<Rightarrow> (nat \<Rightarrow> tx_env) \<Rightarrow> nat \<Rightarrow> project_ack \<Rightarrow> ('b server, unit) handler" where
  "acknowledgeProject K E h ack =
     bindS (liftS (case ValidateProjectAck (Some ack) of
        Inl e \<Rightarrow> Inl (RpcStatus InvalidArgument e) | Inr u \<Rightarrow> Inr u)) (\<lambda>_.
     bindS (readS (\<lambda>S. (current h S, streamAt h S))) (\<lambda>(cur, s).
     bindS (refuseIf (\<not> cur) superseded) (\<lambda>_.
     bindS (refuseIf (\<not> fs_projects s) (rpcError FailedPrecondition ''project capability not negotiated'')) (\<lambda>_.
     bindS healthy (\<lambda>_. case tget (fs_sent s) (pa_project ack) of
         None \<Rightarrow> errS (rpcError InvalidArgument ''unsolicited project acknowledgement'')
       | Some sent \<Rightarrow>
           if pa_generation ack > pc_generation sent
           then errS (rpcError InvalidArgument ''unsolicited project acknowledgement'')
           else if pa_generation ack < pc_generation sent then okS ()
           else if opt_ex (\<lambda>old. pa_generation old = pa_generation ack \<and> old \<noteq> ack)
                     (tget (fs_applied s) (pa_project ack))
           then errS (rpcError InvalidArgument ''conflicting project acknowledgement'')
           else bindS (projectCall (AckProject (E 0) K (nv_instance (fs_view s)) (Some ack))) (\<lambda>record.
             if generationOf record = pa_generation ack
             then putS (putStream h (\<lambda>s. s\<lparr>fs_applied := tput (pa_project ack) ack (fs_applied s)\<rparr>))
             else okS ()))))))"

definition adoptOffer ::
  "'b codecs \<Rightarrow> (nat \<Rightarrow> tx_env) \<Rightarrow> nat \<Rightarrow> legacy_projects \<Rightarrow> ('b server, unit) handler" where
  "adoptOffer K E h offer = bindS (readS (\<lambda>S. (current h S, streamAt h S))) (\<lambda>(cur, s).
     let offers = lp_projects offer in
     bindS (refuseIf (128 < length offers \<or> lp_unk offer \<noteq> [])
       (rpcError InvalidArgument ''invalid legacy project offer'')) (\<lambda>_.
     bindS (refuseIf (list_ex (\<lambda>r. \<not> is_ok (ValidateProjectRegistration r) \<or>
         getter rp_node r \<noteq> nv_instance (fs_view s)) offers)
       (rpcError InvalidArgument ''invalid legacy project binding'')) (\<lambda>_.
     bindS (refuseIf (\<not> cur) superseded) (\<lambda>_.
     bindS (refuseIf (\<not> fs_projects s) (rpcError FailedPrecondition ''project capability not negotiated'')) (\<lambda>_.
     bindS healthy (\<lambda>_. bindS (projectCall (AdoptProjects (E 0) K (nv_instance (fs_view s)) offers)) (\<lambda>_.
     putS (wakeProjects (Some h)))))))))"

section \<open>Submitting a command\<close>

text \<open>\<open>requestSession\<close>: the session a request selects, read through the command it would become.\<close>

definition requestSession :: "submit_request \<Rightarrow> string \<times> string" where
  "requestSession r = CommandSession \<lparr>c_id = '''', c_key = '''', c_type = sr_type r, c_target = '''',
     c_actor = None, c_ttl = None, c_preconditions = None, c_payload = None, c_expires = None,
     c_workspace = sr_workspace r, c_worktree = sr_worktree r, c_control = sr_control r,
     c_submitted = None, c_session = sr_session r, c_start = sr_start r, c_stop = sr_stop r,
     c_exec_expires = None, c_unk = []\<rparr>"

definition supportedCommand :: "string \<Rightarrow> bool" where
  "supportedCommand kind = (kind = ProbeCommandType \<or> kind = WorkspaceEnsureCommandType \<or>
     kind = WorktreeCreateCommandType \<or> kind = AgentControlCommandType \<or>
     kind = SessionEnsureCommandType \<or> IsLifecycleCommand kind)"

text \<open>Whether a recorded command answers a repeated request.\<close>

definition sameSubmission :: "command \<Rightarrow> submit_request \<Rightarrow> bool" where
  "sameSubmission c r = (case c_submitted c of
     Some original \<Rightarrow> original = r
   | None \<Rightarrow> c_target c = sr_node r \<and> c_type c = sr_type r \<and> c_ttl c = sr_ttl r \<and>
       c_workspace c = sr_workspace r \<and> c_worktree c = sr_worktree r \<and> c_control c = sr_control r \<and>
       c_session c = sr_session r)"

definition notReady :: "string \<Rightarrow> err" where
  "notReady text = rpcError FailedPrecondition text"

text \<open>Is the node connected and ready for this kind of request?  The second clock reading is of the check.\<close>

definition admissionReady :: "service \<Rightarrow> pb \<Rightarrow> int \<Rightarrow> submit_request \<Rightarrow> stream \<Rightarrow> unit res" where
  "admissionReady C P now r s = (let (name, incarnation) = requestSession r in
     if sr_type r = SessionEnsureCommandType then
       (if \<not> sessionsConfigured C \<or> \<not> sessionManagerReady P s now
        then Inl (notReady ''target node has no ready session manager'') else Inr ())
     else if name \<noteq> '''' then
       (if \<not> mutationReady P s (sr_type r) now name incarnation
        then Inl (notReady ''selected session is not ready'') else Inr ())
     else if \<not> fs_probes s \<or> \<not> nv_command_ready (fs_view s)
     then Inl (notReady ''target node has no ready probe session'') else Inr ())"

text \<open>The request with the revision of the project configuration it will act under.\<close>

definition boundRequest :: "string \<Rightarrow> submit_request \<Rightarrow> submit_request" where
  "boundRequest revision r = r\<lparr>
     sr_start := map_option (\<lambda>s. s\<lparr>as_revision := revision\<rparr>) (sr_start r),
     sr_workspace := map_option (\<lambda>w. w\<lparr>we_revision := revision\<rparr>) (sr_workspace r),
     sr_worktree := map_option (\<lambda>w. w\<lparr>wc_revision := revision,
       wc_branch := (if wc_branch w = '''' then wc_name w else wc_branch w)\<rparr>) (sr_worktree r)\<rparr>"

definition keepsOriginal :: "submit_request \<Rightarrow> bool" where
  "keepsOriginal r = (let (name, incarnation) = requestSession r in
     sr_type r \<noteq> AgentControlCommandType \<and>
     (name \<noteq> '''' \<or> incarnation \<noteq> '''' \<or> IsLifecycleCommand (sr_type r)))"

text \<open>The project part: the request to execute and the original to keep with it.\<close>

definition bindProject ::
  "'b codecs \<Rightarrow> policy \<Rightarrow> (nat \<Rightarrow> tx_env) \<Rightarrow> (nat \<Rightarrow> int) \<Rightarrow> string \<Rightarrow> nat \<Rightarrow> submit_request \<Rightarrow>
   ('b server, submit_request \<times> submit_request option) handler" where
  "bindProject K policy E T actorID h r = bindS (readS (streamAt h)) (\<lambda>s.
     let (project, revision) = RequestProject r; (name, incarnation) = requestSession r;
         original = (if keepsOriginal r then Some r else None) in
     if project = '''' then okS (r, original)
     else bindS
       (if fs_projects s \<or> policy = None \<or> sr_start r \<noteq> None
        then bindS (managedProjectReadyLocked K (E 1) h project revision) (\<lambda>record.
          okS (boundRequest (ProjectRevision (generationOf record)) r, Some r))
        else (case Resolve policy (sr_node r) project revision actorID of
            Inl e \<Rightarrow> errS (rpcError PermissionDenied ''project operation is not authorized'')
          | Inr b \<Rightarrow>
              if sr_type r = WorktreeCreateCommandType \<and> \<not> bn_worktrees b
              then errS (rpcError PermissionDenied ''project operation is not authorized'')
              else okS (r, original))) (\<lambda>result.
       bindS (refuseIf (\<not> mutationReady (k_pb K) s (sr_type r) (T 1) name incarnation)
         (notReady ''target node has no fresh session for this operation'')) (\<lambda>_. okS result)))"

definition pinnedRequest :: "string \<Rightarrow> submit_request \<Rightarrow> submit_request" where
  "pinnedRequest incarnation r = r\<lparr>
     sr_workspace := map_option (\<lambda>w. w\<lparr>we_incarnation := incarnation\<rparr>) (sr_workspace r),
     sr_worktree := map_option (\<lambda>w. w\<lparr>wc_incarnation := incarnation\<rparr>) (sr_worktree r),
     sr_start := map_option (\<lambda>s. s\<lparr>as_incarnation := incarnation\<rparr>) (sr_start r)\<rparr>"

definition pinSession :: "stream \<Rightarrow> submit_request \<Rightarrow> submit_request res" where
  "pinSession s r = (let (name, incarnation) = requestSession r in
     if name \<noteq> '''' \<and> incarnation = '''' \<and> sr_type r \<noteq> SessionEnsureCommandType
     then (case findSession (fs_view s) name of
         None \<Rightarrow> Inl (notReady ''selected session has no current incarnation'')
       | Some selected \<Rightarrow>
           if \<not> ValidSessionIncarnation (sv_incarnation selected)
           then Inl (notReady ''selected session has no current incarnation'')
           else Inr (pinnedRequest (sv_incarnation selected) r))
     else Inr r)"

text \<open>The command built from the resolved request at \<open>now\<close>, with its fresh ID.\<close>

definition buildCommand ::
  "pb \<Rightarrow> string \<Rightarrow> string \<Rightarrow> int \<Rightarrow> submit_request option \<Rightarrow> submit_request \<Rightarrow> command res" where
  "buildCommand P cid actorID now original r =
     (let c = \<lparr>c_id = cid, c_key = sr_key r, c_type = sr_type r, c_target = sr_node r,
         c_actor = Some \<lparr>ac_id = actorID, ac_role = ROLE_CONTROLLER, ac_origin = ORIGIN_UNSPECIFIED,
           ac_hops = 0, ac_unk = []\<rparr>,
         c_ttl = sr_ttl r, c_preconditions = None, c_payload = None,
         c_expires = Some (new_ts P (now + asDurationOf P (sr_ttl r))),
         c_workspace = sr_workspace r, c_worktree = sr_worktree r, c_control = sr_control r,
         c_submitted = original, c_session = sr_session r,
         c_start = map_option (\<lambda>s. s\<lparr>as_prompt := ''''\<rparr>) (sr_start r), c_stop = sr_stop r,
         c_exec_expires = None, c_unk = []\<rparr> in
      case c_start c of None \<Rightarrow> Inr c
      | Some s \<Rightarrow> bindR (LifecycleExecutionDeadline (asTimeOf P (c_expires c)) (as_timeout s)) (\<lambda>deadline.
          Inr (c\<lparr>c_exec_expires := Some (new_ts P deadline)\<rparr>)))"

definition invalidArgument :: "'a res \<Rightarrow> 'a res" where
  "invalidArgument r = (case r of Inl e \<Rightarrow> Inl (RpcStatus InvalidArgument e) | Inr x \<Rightarrow> Inr x)"

text \<open>The non-blocking send on the stream's queue of 16.\<close>

definition enqueueCommand :: "nat \<Rightarrow> command_record \<Rightarrow> ('b server, unit) handler" where
  "enqueueCommand h record = bindS (readS (\<lambda>S. length (fs_outbound (streamAt h S)))) (\<lambda>queued.
     if 16 \<le> queued then failLocked (Msg ''command queue capacity invariant failed'')
     else putS (putStream h (\<lambda>s. s\<lparr>fs_outbound :=
       (case rec_command record of None \<Rightarrow> fs_outbound s | Some c \<Rightarrow> fs_outbound s @ [c])\<rparr>)))"

text \<open>Everything after the key was found to be new.\<close>

definition submitFresh ::
  "service \<Rightarrow> 'b codecs \<Rightarrow> policy \<Rightarrow> (nat \<Rightarrow> tx_env) \<Rightarrow> (nat \<Rightarrow> int) \<Rightarrow> string \<Rightarrow> string \<Rightarrow> nat \<Rightarrow>
   submit_request \<Rightarrow> ('b server, command_record) handler" where
  "submitFresh C K policy E T actorID cid h r = bindS (readS (streamAt h)) (\<lambda>s.
     let P = k_pb K; (name, incarnation) = requestSession r in
     bindS (liftS (admissionReady C P (T 0) r s)) (\<lambda>_.
     bindS (bindProject K policy E T actorID h r) (\<lambda>(bound, original).
     bindS (refuseIf ((sr_type r = AgentControlCommandType \<or> IsLifecycleCommand (sr_type r)) \<and>
         (\<not> agentConfigured C \<or> \<not> mutationReady P s (sr_type r) (T 2) name incarnation))
       (notReady ''target node has no ready agent session'')) (\<lambda>_.
     bindS (liftS (pinSession s bound)) (\<lambda>resolved.
     bindS (refuseIf (16 \<le> length (fs_outbound s)) (rpcError ResourceExhausted ''node command queue is full'')) (\<lambda>_.
     bindS (liftS (invalidArgument (bindR (buildCommand P cid actorID (T 3) original resolved) (\<lambda>c.
         bindR (ValidateCommand P (Some c) (c_target c)) (\<lambda>_. Inr c))))) (\<lambda>c.
     bindS (commandCall (CreateCommand (E 2) K (Some c) (T 3))) (\<lambda>(record, created).
     if created then bindS (enqueueCommand h record) (\<lambda>_. okS record) else okS record))))))))"

definition SubmitCommand ::
  "service \<Rightarrow> 'b codecs \<Rightarrow> policy \<Rightarrow> (nat \<Rightarrow> tx_env) \<Rightarrow> (nat \<Rightarrow> int) \<Rightarrow> peer res \<Rightarrow> string \<Rightarrow>
   submit_request option \<Rightarrow> ('b server, command_record) handler" where
  "SubmitCommand C K policy E T who cid request = bindS (liftS (operatorOf C who)) (\<lambda>p.
     bindS (refuseIf (opt_ex (\<lambda>r. \<not> supportedCommand (sr_type r)) request)
       (rpcError PermissionDenied ''unsupported command type'')) (\<lambda>_.
     bindS (liftS (invalidArgument (NormalizeCommandRequest (k_pb K) request))) (\<lambda>r.
     bindS healthy (\<lambda>_.
     bindS (storeS (FindCommand (E 0) K (pe_stable p) (sr_key r))) (\<lambda>found. case found of
         Inr existing \<Rightarrow>
           if opt_ex (\<lambda>c. sameSubmission c r) (rec_command existing) then okS existing
           else errS (rpcError AlreadyExists ''idempotency key was used for a different request'')
       | Inl e \<Rightarrow>
           if \<not> errors_is e ErrCommandNotFound then commandErrorLocked e
           else bindS (readS (\<lambda>S. (tget (ms_nodes S) (sr_node r), S))) (\<lambda>(entry, S). case entry of
               None \<Rightarrow> errS (notReady ''target node has no ready probe session'')
             | Some h \<Rightarrow>
                 if \<not> current h S \<or> \<not> nv_connected (viewAt h S)
                 then errS (notReady ''target node has no ready probe session'')
                 else submitFresh C K policy E T (pe_stable p) cid h r))))))"

section \<open>Commands on their way\<close>

definition GetCommandCall ::
  "service \<Rightarrow> 'b codecs \<Rightarrow> (nat \<Rightarrow> tx_env) \<Rightarrow> peer res \<Rightarrow> get_command option \<Rightarrow> ('b server, command_record) handler" where
  "GetCommandCall C K E who r = bindS (liftS (operatorOf C who)) (\<lambda>_.
     bindS (refuseIf (\<not> opt_ex (\<lambda>r. ValidCommandID (gc_id r) \<and> gc_unk r = []) r)
       (rpcError InvalidArgument ''a valid command ID is required'')) (\<lambda>_.
     bindS healthy (\<lambda>_. commandCall (GetOperatorCommand (E 0) K (getter gc_id r)))))"

text \<open>
  Before it dispatches a mutation the coordinator asks the network again who the operator and the node
  are; \<open>actorNow\<close> and \<open>nodeNow\<close> are the answers.
\<close>

definition refreshCommandPeers ::
  "service \<Rightarrow> 'b server \<Rightarrow> nat \<Rightarrow> command \<Rightarrow> peer res \<Rightarrow> peer res \<Rightarrow> bool" where
  "refreshCommandPeers C S h c actorNow nodeNow = (current h S \<and>
     (case authorizePeer actorNow (sc_command_tag C) of Inl e \<Rightarrow> False
      | Inr p \<Rightarrow> pe_stable p = getter ac_id (c_actor c)) \<and>
     (case authorizePeer nodeNow (sc_node_tag C) of Inl e \<Rightarrow> False
      | Inr p \<Rightarrow> pe_stable p = nv_stable (viewAt h S)))"

definition refreshMutationAuthorization ::
  "service \<Rightarrow> policy \<Rightarrow> 'b server \<Rightarrow> nat \<Rightarrow> command \<Rightarrow> peer res \<Rightarrow> peer res \<Rightarrow> bool" where
  "refreshMutationAuthorization C policy S h c actorNow nodeNow =
     (if c_actor c = None \<or> \<not> refreshCommandPeers C S h c actorNow nodeNow then False
      else let (project, revision) = CommandProject c in
        if project = '''' then
          (if c_type c = SessionEnsureCommandType then sessionsConfigured C
           else (c_type c = AgentControlCommandType \<or> c_type c = AgentStopCommandType) \<and> agentConfigured C)
        else if c_submitted c \<noteq> None \<and> (fs_projects (streamAt h S) \<or> policy = None) then True
        else (case Resolve policy (nv_instance (viewAt h S)) project revision (getter ac_id (c_actor c)) of
            Inl e \<Rightarrow> False
          | Inr b \<Rightarrow> c_type c \<noteq> WorktreeCreateCommandType \<or> bn_worktrees b))"

definition isMutation :: "command \<Rightarrow> bool" where
  "isMutation c = (fst (CommandProject c) \<noteq> '''' \<or> c_type c = AgentControlCommandType \<or>
     c_type c = SessionEnsureCommandType \<or> IsLifecycleCommand (c_type c))"

text \<open>The check of the managed project inside the dispatch lock; only a storage failure is an error.\<close>

definition projectStillReady ::
  "'b codecs \<Rightarrow> policy \<Rightarrow> tx_env \<Rightarrow> nat \<Rightarrow> command \<Rightarrow> ('b server, bool) handler" where
  "projectStillReady K policy E h c S =
     (let (project, revision) = CommandProject c in
      if project \<noteq> '''' \<and> c_submitted c \<noteq> None \<and> (fs_projects (streamAt h S) \<or> policy = None)
      then (case managedProjectReadyLocked K E h project revision S of
          (Inr r, S') \<Rightarrow> (Inr True, S')
        | (Inl e, S') \<Rightarrow> if ms_failure S' \<noteq> None then (Inl e, S') else (Inr False, S'))
      else (Inr True, S))"

definition expiredResult :: "string \<Rightarrow> command_result" where
  "expiredResult cid = \<lparr>cr_id = cid, cr_status = TIMED_OUT, cr_detail = ''deadline_expired'',
     cr_payload = None, cr_workspace = None, cr_worktree = None, cr_control = None, cr_session = None,
     cr_lifecycle = None, cr_unk = []\<rparr>"

text \<open>
  \<open>prepareCommand\<close> after the refresh, which needs no lock, said \<open>authorized\<close>: what the stream sends, if
  anything.  The command on the wire carries the time that is left as its TTL.
\<close>

definition prepareCommand ::
  "'b codecs \<Rightarrow> policy \<Rightarrow> (nat \<Rightarrow> tx_env) \<Rightarrow> (nat \<Rightarrow> int) \<Rightarrow> bool \<Rightarrow> nat \<Rightarrow> command \<Rightarrow>
   ('b server, command option) handler" where
  "prepareCommand K policy E T authorized h pending =
     bindS (readS (\<lambda>S. (current h S, streamAt h S))) (\<lambda>(cur, s).
     bindS (refuseIf (\<not> cur) superseded) (\<lambda>_. bindS healthy (\<lambda>_.
     bindS (refuseIf (\<not> fs_probes s \<and> \<not> (c_type pending = SessionEnsureCommandType \<and> fs_sessions s))
       (rpcError FailedPrecondition ''probe dispatch is not available'')) (\<lambda>_.
     bindS (projectStillReady K policy (E 0) h pending) (\<lambda>ready.
     let node = nv_instance (fs_view s); (name, incarnation) = CommandSession pending in
     if isMutation pending \<and> (\<not> authorized \<or> \<not> ready \<or>
          \<not> mutationReady (k_pb K) s (c_type pending) (T 0) name incarnation)
     then bindS (commandCall (RejectCommand (E 1) K node (c_id pending) ''authorization_changed'' (T 1))) (\<lambda>_. okS None)
     else bindS (commandCall (DispatchCommand (E 1) K node (c_id pending) (T 1))) (\<lambda>(record, dispatch).
       case (if dispatch then rec_command record else None) of
         None \<Rightarrow> okS None
       | Some c \<Rightarrow> let remaining = asTimeOf (k_pb K) (c_expires c) - T 2 in
           if remaining \<le> 0
           then bindS (commandCall (FinishCommand (E 2) K node (nv_stable (fs_view s))
                  (Some (expiredResult (c_id c))) (T 3))) (\<lambda>_. okS None)
           else okS (Some (c\<lparr>c_ttl := Some (new_du (k_pb K) remaining)\<rparr>))))))))"

definition finishCommand ::
  "'b codecs \<Rightarrow> (nat \<Rightarrow> tx_env) \<Rightarrow> int \<Rightarrow> nat \<Rightarrow> command_result \<Rightarrow> ('b server, command_ack) handler" where
  "finishCommand K E now h result = bindS (liftS (invalidArgument (ValidateCommandResult (Some result)))) (\<lambda>_.
     bindS (readS (\<lambda>S. (current h S, viewAt h S))) (\<lambda>(cur, view).
     bindS (refuseIf (\<not> cur) superseded) (\<lambda>_. bindS healthy (\<lambda>_.
     bindS (commandCall (FinishCommand (E 0) K (nv_instance view) (nv_stable view) (Some result) now)) (\<lambda>_.
     okS \<lparr>ka_id = cr_id result, ka_status = cr_status result, ka_detail = '''', ka_unk = []\<rparr>)))))"

definition commandProgress ::
  "service \<Rightarrow> 'b codecs \<Rightarrow> (nat \<Rightarrow> tx_env) \<Rightarrow> nat \<Rightarrow> command_progress \<Rightarrow> ('b server, unit) handler" where
  "commandProgress C K E h progress = bindS (readS (\<lambda>S. (current h S, streamAt h S))) (\<lambda>(cur, s).
     bindS (refuseIf (\<not> cur \<or> \<not> fs_lifecycle s \<or> \<not> sc_stored C)
       (rpcError FailedPrecondition ''lifecycle stream is not current'')) (\<lambda>_.
     commandCall (SaveCommandProgress (E 0) K (nv_instance (fs_view s)) (Some progress))))"

section \<open>Named agents\<close>

definition withoutPrompt :: "command_record \<Rightarrow> command_record" where
  "withoutPrompt r = r\<lparr>rec_command := map_option (\<lambda>c. c\<lparr>c_submitted := map_option (\<lambda>s.
     s\<lparr>sr_start := map_option (\<lambda>a. a\<lparr>as_prompt := ''''\<rparr>) (sr_start s)\<rparr>) (c_submitted c)\<rparr>) (rec_command r)\<rparr>"

definition promptOf :: "command_record \<Rightarrow> string" where
  "promptOf r = getter as_prompt (Option.bind (Option.bind (rec_command r) c_submitted) sr_start)"

definition ResolveNamedAgent ::
  "service \<Rightarrow> 'b codecs \<Rightarrow> (nat \<Rightarrow> tx_env) \<Rightarrow> peer res \<Rightarrow> resolve_agent option \<Rightarrow> ('b server, named_agent) handler" where
  "ResolveNamedAgent C K E who request = bindS (liftS (operatorOf C who)) (\<lambda>_. case request of
       None \<Rightarrow> errS (rpcError InvalidArgument ''valid node, agent name and session are required'')
     | Some r \<Rightarrow>
       bindS (refuseIf (rn_unk r \<noteq> [] \<or> \<not> ValidIdempotencyKey (rn_node r) \<or> \<not> ValidIdempotencyKey (rn_name r) \<or>
           \<not> is_ok (ValidateSessionSelector (rn_session r) '''' False))
         (rpcError InvalidArgument ''valid node, agent name and session are required'')) (\<lambda>_.
       bindS healthy (\<lambda>_.
       bindS (storeS (FindNamedAgent (E 0) K (rn_node r) (rn_session r) (rn_name r))) (\<lambda>found. case found of
           Inl e \<Rightarrow>
             if errors_is e ErrNamedAgentAmbiguous
             then errS (rpcError FailedPrecondition ''agent name is ambiguous; refusing to select a newer pane'')
             else commandErrorLocked e
         | Inr record \<Rightarrow> okS \<lparr>na_record = withoutPrompt record, na_prompt = (promptOf record \<noteq> '''')\<rparr>))))"

end
