(* ===== verification/Streams.thy ===== *)
theory Streams
  imports Service
begin

text \<open>
  The stream of one node and the transient agent queries that travel on it: \<open>Connect\<close> of server.go,
  agents.go of the server package, and the two repeating tasks, expiry and listing.
\<close>

section \<open>Opening a stream\<close>

definition HerdrReadCapability :: string where "HerdrReadCapability = ''herdr.read.v1''"
definition ProbeCapability :: string where "ProbeCapability = ''commands.node-ping.v1''"
definition ProjectConfigCapability :: string where "ProjectConfigCapability = ''projects.config.v1''"
definition SessionManageCapability :: string where "SessionManageCapability = ''sessions.manage.v1''"
definition WorkspaceEnsureCapability :: string where "WorkspaceEnsureCapability = ''commands.workspace-ensure.v1''"
definition WorktreeCreateCapability :: string where "WorktreeCreateCapability = ''commands.worktree-create.v1''"
definition AgentControlCapability :: string where "AgentControlCapability = ''herdr.agent-control.v1''"
definition AgentLifecycleCapability :: string where "AgentLifecycleCapability = ''herdr.agent-lifecycle.v1''"

definition ServerCapabilities :: "string list" where
  "ServerCapabilities = [''node.heartbeat.v1'', ''protocol.negotiation.v1'', HerdrReadCapability, ''fleet.nodes.v1'']"

definition capabilities :: "service \<Rightarrow> string list" where
  "capabilities C = ServerCapabilities @ (if sc_stored C then
      [ProbeCapability, ProjectConfigCapability, WorkspaceEnsureCapability, WorktreeCreateCapability] @
      (if agentConfigured C then [AgentControlCapability, AgentLifecycleCapability] else []) @
      (if sessionsConfigured C then [SessionManageCapability] else []) else [])"

text \<open>\<open>durableBinder\<close> and what \<open>Connect\<close> makes of its error.\<close>

definition bindNode ::
  "service \<Rightarrow> (nat \<Rightarrow> tx_env) \<Rightarrow> string \<Rightarrow> string \<Rightarrow> ('b server, unit) handler" where
  "bindNode C E stableID instanceID =
     (if \<not> sc_stored C then okS ()
      else bindS (storeS (persistCoordinator E (\<lambda>e. Bind e stableID instanceID))) (\<lambda>r. case r of
          Inr u \<Rightarrow> okS ()
        | Inl e \<Rightarrow>
            if errors_is e ErrIdentityConflict
            then errS (rpcError PermissionDenied ''mesh identity conflicts with an existing Tailscale binding'')
            else failLocked e))"

text \<open>The capabilities a stream may use: what the node offers and the coordinator is configured for.\<close>

definition negotiated :: "service \<Rightarrow> policy \<Rightarrow> string list \<Rightarrow> stream \<Rightarrow> stream" where
  "negotiated C policy offered s =
     (let herdr = HerdrReadCapability \<in> set offered;
          probes = (sc_stored C \<and> ProbeCapability \<in> set offered);
          projects = (sc_stored C \<and> ProjectConfigCapability \<in> set offered);
          sessions = (sessionsConfigured C \<and> SessionManageCapability \<in> set offered);
          workspaces = (probes \<and> (herdr \<or> sessions) \<and> (projects \<or> policy \<noteq> None) \<and>
            WorkspaceEnsureCapability \<in> set offered);
          agents = (probes \<and> (herdr \<or> sessions) \<and> agentConfigured C \<and> AgentControlCapability \<in> set offered) in
      s\<lparr>fs_probes := probes, fs_projects := projects, fs_sessions := sessions,
        fs_wake := projects, fs_sent := [], fs_applied := [], fs_workspaces := workspaces,
        fs_worktrees := (workspaces \<and> (projects \<or> HasWorktrees policy) \<and> WorktreeCreateCapability \<in> set offered),
        fs_agents := agents, fs_lifecycle := (agents \<and> AgentLifecycleCapability \<in> set offered)\<rparr>)"

text \<open>
  Checks before a stream exists, then its entry; \<open>now\<close> was read before the mutex was taken and before
  any wait for the stream this one replaces.
\<close>

definition acceptNode ::
  "service \<Rightarrow> (nat \<Rightarrow> tx_env) \<Rightarrow> peer res \<Rightarrow> hello option \<Rightarrow> ('b server, peer \<times> hello) handler" where
  "acceptNode C E who greeting = bindS (liftS (authorizePeer who (sc_node_tag C))) (\<lambda>p.
     bindS (liftS (case ValidateNodeHello greeting of
        Inl e \<Rightarrow> Inl (RpcStatus FailedPrecondition e) | Inr u \<Rightarrow> Inr u)) (\<lambda>_. case greeting of
       None \<Rightarrow> errS (rpcError FailedPrecondition ''invalid hello'')
     | Some g \<Rightarrow>
         bindS (liftS (validateLogicalNodeName (he_hostname g))) (\<lambda>_.
         bindS (bindNode C E (pe_stable p) (he_instance g)) (\<lambda>_. okS (p, g)))))"

definition beginStream ::
  "service \<Rightarrow> 'b codecs \<Rightarrow> (nat \<Rightarrow> tx_env) \<Rightarrow> peer \<Rightarrow> hello \<Rightarrow> int \<Rightarrow> ('b server, nat) handler" where
  "beginStream C K E p g now =
     beginLocked C K E (he_instance g) (pe_stable p) (HerdrReadCapability \<in> set (he_capabilities g)) now"

definition finishOpening ::
  "service \<Rightarrow> 'b codecs \<Rightarrow> policy \<Rightarrow> (nat \<Rightarrow> tx_env) \<Rightarrow> nat \<Rightarrow> hello \<Rightarrow> ('b server, unit) handler" where
  "finishOpening C K policy E h g = bindS (setLogicalName C K E h (he_hostname g)) (\<lambda>_.
     putS (putStream h (negotiated C policy (he_capabilities g))))"

section \<open>Agent queries\<close>

definition maxPendingAgentQueries :: nat where "maxPendingAgentQueries = 8"

definition queryReady :: "pb \<Rightarrow> stream \<Rightarrow> int \<Rightarrow> agent_query_request \<Rightarrow> bool" where
  "queryReady P s now r = mutationReady P s AgentControlCommandType now
     (getter at_session (qr_target r)) (getter at_incarnation (qr_target r))"

text \<open>The first half of \<open>QueryAgent\<close>: admit the query and queue it for the stream.\<close>

definition pinQuery :: "stream \<Rightarrow> agent_query_request \<Rightarrow> agent_query_request" where
  "pinQuery s r =
     (if getter at_session (qr_target r) \<noteq> '''' \<and> getter at_incarnation (qr_target r) = ''''
      then r\<lparr>qr_target := map_option (\<lambda>t. t\<lparr>at_incarnation :=
        getter sv_incarnation (findSession (fs_view s) (at_session t))\<rparr>) (qr_target r)\<rparr>
      else r)"

definition QueryAgent ::
  "service \<Rightarrow> 'b codecs \<Rightarrow> int \<Rightarrow> int \<Rightarrow> peer res \<Rightarrow> string \<Rightarrow> agent_query_request option \<Rightarrow>
   ('b server, nat) handler" where
  "QueryAgent C K now expiry who qid request =
     bindS (refuseIf (\<not> agentConfigured C) (rpcError PermissionDenied ''agent authorization is not configured'')) (\<lambda>_.
     bindS (liftS (authorizePeer who (sc_client_tag C))) (\<lambda>_.
     bindS (liftS (case NormalizeAgentQuery request of
        Inl e \<Rightarrow> Inl (rpcError InvalidArgument ''invalid agent query'') | Inr r \<Rightarrow> Inr r)) (\<lambda>r.
     bindS healthy (\<lambda>_.
     bindS (readS (\<lambda>S. (tget (ms_nodes S) (qr_node r), S))) (\<lambda>(entry, S). case entry of
         None \<Rightarrow> errS (notReady ''target node has no ready agent session'')
       | Some h \<Rightarrow> let s = streamAt h S; r' = pinQuery s r in
           if \<not> current h S \<or> \<not> queryReady (k_pb K) s now r
           then errS (notReady ''target node has no ready agent session'')
           else if maxPendingAgentQueries \<le> length (fs_queries s) \<or> length (fs_query_out s) = 16
           then errS (rpcError ResourceExhausted ''node query capacity reached'')
           else bindS (putS (putStream h (\<lambda>s. s\<lparr>
               fs_queries := tput qid \<lparr>pq_request = r', pq_expires = expiry\<rparr> (fs_queries s),
               fs_query_out := fs_query_out s @ [SendQuery \<lparr>aq_id = qid, aq_request = Some r',
                 aq_expires = Some (new_ts (k_pb K) expiry), aq_unk = []\<rparr>]\<rparr>))) (\<lambda>_. okS h))))))"

text \<open>The deferred clean-up of a waiting call: \<open>oldest\<close> is the entry Go's map yields first.\<close>

definition cancelAgentQuery ::
  "(string list \<Rightarrow> string list) \<Rightarrow> int \<Rightarrow> nat \<Rightarrow> string \<Rightarrow> pending_query \<Rightarrow> ('b server, unit) handler" where
  "cancelAgentQuery W now h qid pending = bindS (readS (\<lambda>S. (current h S, streamAt h S))) (\<lambda>(cur, s).
     if tget (fs_queries s) qid \<noteq> Some pending then okS ()
     else bindS (putS (putStream h (\<lambda>s. s\<lparr>fs_queries := tdel qid (fs_queries s)\<rparr>))) (\<lambda>_.
       if \<not> cur then okS ()
       else let kept = filter (\<lambda>(k, expires). \<not> expires < now) (fs_canceled s);
                kept' = (if 128 \<le> length kept then
                  (case W (map fst kept) of [] \<Rightarrow> kept | oldest # _ \<Rightarrow> tdel oldest kept) else kept) in
         putS (putStream h (\<lambda>s. s\<lparr>fs_canceled := tput qid (pq_expires pending + 10 * 1000000000) kept',
           fs_query_out := offerQuery (CancelQuery qid) (fs_query_out s)\<rparr>))))"

definition prepareAgentEnvelope ::
  "'b codecs \<Rightarrow> (string list \<Rightarrow> string list) \<Rightarrow> (nat \<Rightarrow> int) \<Rightarrow> nat \<Rightarrow> query_envelope \<Rightarrow> ('b server, bool) handler" where
  "prepareAgentEnvelope K W T h envelope = bindS (readS (\<lambda>S. (current h S, streamAt h S))) (\<lambda>(cur, s).
     if \<not> cur then okS False
     else case envelope of
       CancelQuery qid \<Rightarrow> okS True
     | SendQuery query \<Rightarrow> (case tget (fs_queries s) (aq_id query) of
         None \<Rightarrow> okS False
       | Some pending \<Rightarrow>
           if \<not> queryReady (k_pb K) s (T 0) (pq_request pending)
           then bindS (putS (putStream h (cancelSessionQuery W (T 1) (aq_id query) pending))) (\<lambda>_. okS False)
           else okS (T 2 < asTimeOf (k_pb K) (aq_expires query))))"

definition finishAgentQuery ::
  "'b codecs \<Rightarrow> (string list \<Rightarrow> string list) \<Rightarrow> (nat \<Rightarrow> int) \<Rightarrow> nat \<Rightarrow> agent_query_result \<Rightarrow> ('b server, unit) handler" where
  "finishAgentQuery K W T h result = bindS (readS (\<lambda>S. (current h S, streamAt h S))) (\<lambda>(cur, s).
     bindS (refuseIf (\<not> cur) superseded) (\<lambda>_.
     bindS (refuseIf (\<not> fs_agents s \<or> \<not> ValidCommandID (qs_id result) \<or> qs_unk result \<noteq> [])
       (rpcError InvalidArgument ''invalid agent query response'')) (\<lambda>_.
     case tget (fs_queries s) (qs_id result) of
       None \<Rightarrow> (case tget (fs_canceled s) (qs_id result) of
           Some expiry \<Rightarrow> if T 0 < expiry then okS () else errS (rpcError InvalidArgument ''unmatched agent query response'')
         | None \<Rightarrow> errS (rpcError InvalidArgument ''unmatched agent query response''))
     | Some pending \<Rightarrow>
         if \<not> is_ok (ValidateAgentQueryResult (Some result) (Some (pq_request pending)))
         then errS (rpcError InvalidArgument ''invalid agent query response'')
         else if querySession pending \<noteq> '''' \<and> \<not> queryReady (k_pb K) s (T 0) (pq_request pending)
         then putS (putStream h (cancelSessionQuery W (T 1) (qs_id result) pending))
         else putS (putStream h (\<lambda>s. s\<lparr>fs_queries := tdel (qs_id result) (fs_queries s),
           fs_answers := fs_answers s @ [(qs_id result, result)]\<rparr>)))))"

text \<open>The second half of \<open>QueryAgent\<close>: what the caller is told once its answer has arrived.\<close>

definition answerQuery ::
  "'b codecs \<Rightarrow> int \<Rightarrow> nat \<Rightarrow> string \<Rightarrow> agent_query_request \<Rightarrow> agent_query_result \<Rightarrow> err option \<Rightarrow>
   ('b server, agent_query_result) handler" where
  "answerQuery K now h qid r result ctx = bindS (readS (\<lambda>S. (current h S, streamAt h S))) (\<lambda>(cur, s).
     if \<not> cur then errS (rpcError Unavailable ''node session ended'')
     else case ctx of
       Some e \<Rightarrow> errS (RpcStatus (if errors_is e CtxDeadlineExceeded then DeadlineExceeded else Canceled) e)
     | None \<Rightarrow>
         if getter at_session (qr_target r) = '''' \<or> queryReady (k_pb K) s now r then okS result
         else okS (queryError qid ''session_replaced''))"

section \<open>Receiving\<close>

record heartbeat_message =
  hb_sequence :: "64 word"
  hb_sent :: "timestamp option"
  hb_ready :: "bool list"

text \<open>The bodies of an envelope from a node; \<open>OtherBody\<close> is any the coordinator does not expect.\<close>

datatype node_body =
    HeartbeatBody heartbeat_message
  | HerdrBody herdr_state
  | AckBody command_ack
  | ProgressBody command_progress
  | ResultBody command_result
  | ProjectAckBody project_ack
  | LegacyBody legacy_projects
  | QueryResultBody agent_query_result
  | InventoryBody session_inventory
  | OtherBody

definition receiptAckOk :: "command_ack \<Rightarrow> bool" where
  "receiptAckOk a = (ValidCommandID (ka_id a) \<and> ka_status a = ACCEPTED \<and>
     (ka_detail a = '''' \<or> ka_detail a = ''accepted'') \<and> ka_unk a = [])"

definition unexpectedEnvelope :: err where
  "unexpectedEnvelope = rpcError InvalidArgument ''expected heartbeat or negotiated read-only Herdr state''"

text \<open>One received envelope: what it changes and the acknowledgement to send back, if any.\<close>

definition receiveEnvelope ::
  "service \<Rightarrow> 'b codecs \<Rightarrow> sizes \<Rightarrow> (string list \<Rightarrow> string list) \<Rightarrow> (nat \<Rightarrow> tx_env) \<Rightarrow> (nat \<Rightarrow> int) \<Rightarrow> bool \<Rightarrow>
   nat \<Rightarrow> node_body \<Rightarrow> ('b server, command_ack option) handler" where
  "receiveEnvelope C K Z W E T herdrEnabled h body = bindS (readS (streamAt h)) (\<lambda>s. case body of
       QueryResultBody r \<Rightarrow> bindS (finishAgentQuery K W T h r) (\<lambda>_. okS None)
     | InventoryBody i \<Rightarrow> bindS (updateSessions C K Z W E h i (T 0) (T 1)) (\<lambda>_. okS None)
     | ProjectAckBody a \<Rightarrow> bindS (acknowledgeProject K E h a) (\<lambda>_. okS None)
     | LegacyBody offer \<Rightarrow> bindS (adoptOffer K E h offer) (\<lambda>_. okS None)
     | HerdrBody state \<Rightarrow>
         if herdrEnabled then bindS (updateHerdr C K Z E h state (T 0)) (\<lambda>_. okS None) else errS unexpectedEnvelope
     | AckBody a \<Rightarrow>
         if fs_probes s \<or> fs_sessions s
         then (if \<not> receiptAckOk a then errS (rpcError InvalidArgument ''invalid command acknowledgement'') else okS None)
         else errS unexpectedEnvelope
     | ProgressBody p \<Rightarrow>
         if fs_lifecycle s then bindS (commandProgress C K E h p) (\<lambda>_. okS None) else errS unexpectedEnvelope
     | ResultBody r \<Rightarrow>
         if fs_probes s \<or> fs_sessions s
         then bindS (finishCommand K E (T 0) h r) (\<lambda>ack. okS (Some ack)) else errS unexpectedEnvelope
     | HeartbeatBody b \<Rightarrow>
         bindS (refuseIf (hb_sequence b \<le> fs_heartbeat s \<or>
             (case hb_sent b of None \<Rightarrow> True | Some t \<Rightarrow> \<not> ts_valid (k_pb K) t))
           (rpcError InvalidArgument ''invalid heartbeat sequence or timestamp'')) (\<lambda>_.
         bindS (putS (putStream h (\<lambda>s. s\<lparr>fs_heartbeat := hb_sequence b\<rparr>))) (\<lambda>_.
         bindS (heartbeat C K E h (T 0) (hb_ready b)) (\<lambda>_. okS None)))
     | OtherBody \<Rightarrow> errS unexpectedEnvelope)"

section \<open>Starting\<close>

text \<open>\<open>openCoordinatorState\<close>; \<open>legacy\<close> is what the reader of the old binding file returned.\<close>

definition wrapS :: "string \<Rightarrow> 'a res \<times> 's \<Rightarrow> 'a res \<times> 's" where
  "wrapS text rs = (case rs of (Inl e, s) \<Rightarrow> (Inl (Wrap text e), s) | (Inr x, s) \<Rightarrow> (Inr x, s))"

definition openCoordinatorState ::
  "(nat \<Rightarrow> tx_env) \<Rightarrow> 'b codecs \<Rightarrow> binding list \<Rightarrow> int \<Rightarrow> ('b coordinator, node_view list) handler" where
  "openCoordinatorState E K legacy now =
     bindS (\<lambda>db. wrapS ''import legacy identity bindings'' (ImportBindings (E 0) legacy db)) (\<lambda>_.
     bindS (\<lambda>db. wrapS ''recover command journal'' (RecoverCommands (E 1) K now db)) (\<lambda>_.
     (\<lambda>db. wrapS ''load durable fleet'' (LoadFleet (E 2) K db))))"

text \<open>The part of \<open>run\<close> between opening the store and listening.\<close>

definition startCoordinator ::
  "service \<Rightarrow> 'b codecs \<Rightarrow> sizes \<Rightarrow> (nat \<Rightarrow> tx_env) \<Rightarrow> binding list \<Rightarrow> (nat \<Rightarrow> int) \<Rightarrow> 'b coordinator \<Rightarrow>
   unit res \<times> 'b server" where
  "startCoordinator C K Z E legacy T db = (case openCoordinatorState E K legacy (T 0) db of
     (opened, db') \<Rightarrow> bindS (liftS opened) (\<lambda>views.
       bindS (liftS (case collect (\<lambda>v. validateLogicalNodeName (nv_hostname v)) views of
         Inl e \<Rightarrow> Inl (Wrap ''restore durable fleet name'' e) | Inr us \<Rightarrow> Inr us)) (\<lambda>_.
       (\<lambda>S. wrapS ''restore durable fleet'' (restore C K Z (later 3 E) views (T 1) S))))
       \<lparr>ms_streams = [], ms_nodes = [], ms_failure = None, ms_db = db'\<rparr>)"

section \<open>Steps of the coordinator\<close>

text \<open>
  Anything the coordinator does: a caller's request, a node that connects, the retirement of the stream it
  will replace, an envelope received, a queued item taken by the sole sender of its stream, a stream that
  ends, the expiry tick.  Handles are those of
  live stream handlers; whether an authorisation refreshed without the lock succeeded is left open.
\<close>

inductive serverStep ::
  "service \<Rightarrow> 'b codecs \<Rightarrow> sizes \<Rightarrow> policy \<Rightarrow> (string list \<Rightarrow> string list) \<Rightarrow> 'b server \<Rightarrow> 'b server \<Rightarrow> bool"
  for C :: service and K :: "'b codecs" and Z :: sizes and policy :: policy and W :: "string list \<Rightarrow> string list" where
  submit: "SubmitCommand C K policy E T who cid r S = (x, S') \<Longrightarrow> serverStep C K Z policy W S S'"
| get_command: "GetCommandCall C K E who q S = (x, S') \<Longrightarrow> serverStep C K Z policy W S S'"
| named: "ResolveNamedAgent C K E who a S = (y, S') \<Longrightarrow> serverStep C K Z policy W S S'"
| register: "RegisterProject C K E who p S = (v, S') \<Longrightarrow> serverStep C K Z policy W S S'"
| get_project: "GetProjectCall C K E who gp S = (v, S') \<Longrightarrow> serverStep C K Z policy W S S'"
| list: "listFleet C K E now S = (vs, S') \<Longrightarrow> serverStep C K Z policy W S S'"
| expire: "expireCommands C K E now S = (u, S') \<Longrightarrow> serverStep C K Z policy W S S'"
| accept: "acceptNode C E who greeting S = (g, S') \<Longrightarrow> serverStep C K Z policy W S S'"
| retire: "tget (ms_nodes S) i = Some h \<Longrightarrow> serverStep C K Z policy W S (supersede h S)"
| begin_stream: "beginStream C K E p g now S = (hh, S') \<Longrightarrow> serverStep C K Z policy W S S'"
| opened: "finishOpening C K policy E h g S = (u, S') \<Longrightarrow> h < length (ms_streams S) \<Longrightarrow> serverStep C K Z policy W S S'"
| receive: "receiveEnvelope C K Z W E T b h body S = (a, S') \<Longrightarrow> h < length (ms_streams S) \<Longrightarrow> serverStep C K Z policy W S S'"
| wake: "projectUpdates K E h (putStream h (\<lambda>s. s\<lparr>fs_wake := False\<rparr>) S) = (cs, S') \<Longrightarrow> fs_wake (streamAt h S) \<Longrightarrow>
    h < length (ms_streams S) \<Longrightarrow> serverStep C K Z policy W S S'"
| dispatch: "prepareCommand K policy E T ok h c (putStream h (\<lambda>s. s\<lparr>fs_outbound := cs\<rparr>) S) = (m, S') \<Longrightarrow>
    fs_outbound (streamAt h S) = c # cs \<Longrightarrow> h < length (ms_streams S) \<Longrightarrow> serverStep C K Z policy W S S'"
| query: "QueryAgent C K now expiry who qid q S = (hh, S') \<Longrightarrow> serverStep C K Z policy W S S'"
| cancel_query: "cancelAgentQuery W now h qid pending S = (u, S') \<Longrightarrow> h < length (ms_streams S) \<Longrightarrow>
    serverStep C K Z policy W S S'"
| send_query: "prepareAgentEnvelope K W T h e (putStream h (\<lambda>s. s\<lparr>fs_query_out := es\<rparr>) S) = (b', S') \<Longrightarrow>
    fs_query_out (streamAt h S) = e # es \<Longrightarrow> h < length (ms_streams S) \<Longrightarrow> serverStep C K Z policy W S S'"
| end_stream: "endStream C K E h now now' S = (u, S') \<Longrightarrow> h < length (ms_streams S) \<Longrightarrow> serverStep C K Z policy W S S'"

end
