(* ===== verification/Steady.thy ===== *)
theory Steady
  imports CoordinatorContract
begin

text \<open>
  The store operations that neither admit a command nor touch a fleet snapshot: what they leave alone,
  and that none of them makes a command active again.
\<close>

definition activeRecord :: "command_record \<Rightarrow> bool" where
  "activeRecord r = (rec_status r = ACCEPTED \<or> rec_status r = RUNNING)"

section \<open>No way back to active\<close>

lemma transition_active:
  "validCommandTransition kind from to detail \<Longrightarrow> to = ACCEPTED \<or> to = RUNNING \<Longrightarrow> from = ACCEPTED \<and> to = RUNNING"
  by (auto simp: validCommandTransition_def split: if_splits command_status.splits)

lemma chain_active_back:
  assumes ch: "auditChain kind es" and l: "j < length es"
    and a: "au_status (es ! j) = ACCEPTED \<or> au_status (es ! j) = RUNNING" and i: "i \<le> j"
  shows "au_status (es ! i) = ACCEPTED \<or> au_status (es ! i) = RUNNING"
  using l a i
proof (induction j)
  case (Suc j)
  have t: "validCommandTransition kind (au_status (es ! j)) (au_status (es ! Suc j)) (au_detail (es ! Suc j))"
    using ch Suc.prems(1) by (simp add: auditChain_def)
  from transition_active [OF t Suc.prems(2)] have "au_status (es ! j) = ACCEPTED" by simp
  then show ?case using Suc by (cases "i = Suc j") auto
qed simp

lemma record_chain:
  assumes "recordAt K db i = Some r"
  obtains kind where "auditChain kind (rec_audit r)" "rec_audit r \<noteq> []"
    "rec_status r = au_status (last (rec_audit r))"
  using assms by (rule record_audit) (use recordAudit_facts in blast)

lemma active_back:
  assumes "recordAt K db i = Some r" and "recordAt K db' i = Some r'" and "recordStep P r r'"
    and "activeRecord r'"
  shows "activeRecord r \<and> rec_command r' = rec_command r"
proof -
  obtain k es where r: "rec_audit r \<noteq> []" "rec_status r = au_status (last (rec_audit r))"
    using assms(1) by (rule record_chain)
  obtain kind where r': "auditChain kind (rec_audit r')" "rec_audit r' \<noteq> []"
    "rec_status r' = au_status (last (rec_audit r'))"
    using assms(2) by (rule record_chain)
  obtain zs where zs: "rec_audit r' = rec_audit r @ zs"
    using assms(3) by (auto simp: recordStep_def list_prefix_iff)
  have "au_status (rec_audit r' ! (length (rec_audit r') - 1)) = ACCEPTED \<or>
      au_status (rec_audit r' ! (length (rec_audit r') - 1)) = RUNNING"
    using assms(4) r' by (simp add: activeRecord_def last_conv_nth)
  from chain_active_back [OF r'(1) _ this, of "length (rec_audit r) - 1"]
  have "au_status (rec_audit r' ! (length (rec_audit r) - 1)) = ACCEPTED \<or>
      au_status (rec_audit r' ! (length (rec_audit r) - 1)) = RUNNING"
    using r(1) r'(2) zs by (simp add: diff_le_mono)
  then have "activeRecord r" using r by (simp add: activeRecord_def zs nth_append last_conv_nth)
  then show ?thesis using assms(3) by (simp add: recordStep_def)
qed

section \<open>Steady operations\<close>

definition noNew :: "'b codecs \<Rightarrow> 'b coordinator \<Rightarrow> 'b coordinator \<Rightarrow> bool" where
  "noNew K db db' = (nodeAt K db' = nodeAt K db \<and> (\<forall>i. recordAt K db i = None \<longrightarrow> recordAt K db' i = None))"

definition steady :: "'b codecs \<Rightarrow> 'b coordinator \<Rightarrow> 'b coordinator \<Rightarrow> bool" where
  "steady K db db' = ((coordStep K)\<^sup>*\<^sup>* db db' \<and> (coordinatorGood K db \<longrightarrow> noNew K db db'))"

lemma noNew_refl [simp]: "noNew K db db"
  by (simp add: noNew_def)

lemma steady_refl: "steady K db db"
  by (simp add: steady_def)

lemma steady_trans: "steady K a b \<Longrightarrow> steady K b c \<Longrightarrow> steady K a c"
  using commands.run_inv by (auto simp: steady_def noNew_def)

lemma steadyD:
  assumes "steady K db db'" and "coordinatorGood K db"
  shows "coordinatorGood K db'" "nodeAt K db' = nodeAt K db"
    "recordAt K db' i = Some r' \<Longrightarrow> \<exists>r. recordAt K db i = Some r \<and> recordStep (k_pb K) r r'"
proof -
  have run: "(coordStep K)\<^sup>*\<^sup>* db db'" and n: "noNew K db db'" using assms by (auto simp: steady_def)
  show "coordinatorGood K db'" by (rule commands.run_inv [OF run assms(2)])
  show "nodeAt K db' = nodeAt K db" using n by (simp add: noNew_def)
  assume r': "recordAt K db' i = Some r'"
  then obtain r where r: "recordAt K db i = Some r" using n by (cases "recordAt K db i") (auto simp: noNew_def)
  from commands.run_entry [OF run assms(2) r] r r'
  show "\<exists>r. recordAt K db i = Some r \<and> recordStep (k_pb K) r r'" by auto
qed

lemma steady_active:
  assumes "steady K db db'" and "coordinatorGood K db" and "recordAt K db' i = Some r'" and "activeRecord r'"
  shows "\<exists>r. recordAt K db i = Some r \<and> activeRecord r \<and> rec_command r' = rec_command r"
proof -
  obtain r where r: "recordAt K db i = Some r" "recordStep (k_pb K) r r'"
    using steadyD(3) [OF assms(1-3)] by blast
  from active_back [OF r(1) assms(3) r(2) assms(4)] r(1) show ?thesis by blast
qed

lemma nodeAt_cong:
  "cd_bindings db' = cd_bindings db \<Longrightarrow> cd_nodes db' = cd_nodes db \<Longrightarrow> nodeAt K db' = nodeAt K db"
  by (rule ext) (metis nodeAt_def)

lemma onlyCommands_nodeAt: "onlyCommands db db' \<Longrightarrow> nodeAt K db' = nodeAt K db"
  by (rule nodeAt_cong) (simp_all add: onlyCommands_def)

text \<open>One operation: its body is steady whenever it commits.\<close>

lemma operation_steady:
  assumes "coordStep K db db'" and "operation E pre fn db = (x, db')"
    and "\<And>y. fn db = Inr (y, db') \<Longrightarrow> coordinatorGood K db \<Longrightarrow> noNew K db db'"
  shows "steady K db db'"
  using assms(1) operation_durable [OF assms(2)] assms(3) by (auto simp: steady_def)

lemma RejectCommand_steady:
  assumes "RejectCommand E K node i detail now db = (x, db')"
  shows "steady K db db'"
proof (rule operation_steady [OF coord_reject [OF assms] assms [unfolded RejectCommand_body]])
  fix y assume b: "rejectBody K node i detail now db = Inr (y, db')" and g: "coordinatorGood K db"
  show "noNew K db db'"
    by (rule rejectBody_good [OF coordinatorGoodD(4,1) [OF g] b])
      (use onlyCommands_nodeAt [OF rejectBody_only [OF b]] in \<open>auto simp: noNew_def\<close>)
qed

lemma DispatchCommand_steady:
  assumes "DispatchCommand E K node i now db = (x, db')"
  shows "steady K db db'"
proof (rule operation_steady [OF coord_dispatch [OF assms] assms [unfolded DispatchCommand_def]])
  fix y assume b: "dispatchBody K node i now db = Inr (y, db')" and g: "coordinatorGood K db"
  obtain r d where y: "y = (r, d)" by (cases y)
  show "noNew K db db'"
    by (rule dispatchBody_good [OF coordinatorGoodD(4,1) [OF g] b [unfolded y]])
      (use onlyCommands_nodeAt [OF dispatchBody_only [OF b]] in \<open>auto simp: noNew_def\<close>)
qed

lemma FinishCommand_steady:
  assumes "FinishCommand E K node sid v now db = (x, db')"
  shows "steady K db db'"
proof (rule operation_steady [OF coord_finish [OF assms] assms [unfolded FinishCommand_def]])
  fix y assume b: "(case v of None \<Rightarrow> Inl (Msg ''invalid agent command result'')
      | Some v \<Rightarrow> finishBody K node sid v now db) = Inr (y, db')" and g: "coordinatorGood K db"
  then obtain w where b': "finishBody K node sid w now db = Inr (y, db')" by (cases v) auto
  show "noNew K db db'"
    by (rule finishBody_good [OF coordinatorGoodD(4,1) [OF g] b'])
      (use onlyCommands_nodeAt [OF finishBody_only [OF b']] in \<open>auto simp: noNew_def\<close>)
qed

lemma SaveCommandProgress_steady:
  assumes "SaveCommandProgress E K node p db = (x, db')"
  shows "steady K db db'"
proof (cases "\<exists>q. p = Some q \<and> cp_unk q = [] \<and> ValidCommandID (cp_id q)")
  case True
  then obtain q where "operation E (Inr ()) (progressBody K node q) db = (x, db')"
    using assms by (auto simp: SaveCommandProgress_def)
  then show ?thesis
  proof (rule operation_steady [OF coord_progress [OF assms]])
    fix y assume b: "progressBody K node q db = Inr (y, db')" and g: "coordinatorGood K db"
    have "recordAt K db' i = None" if "recordAt K db i = None" for i
      using progressBody_good [OF coordinatorGoodD(4,1) [OF g] b] that by (cases "i = cp_id q") auto
    then show "noNew K db db'" using onlyCommands_nodeAt [OF progressBody_only [OF b]] by (simp add: noNew_def)
  qed
next
  case False
  then show ?thesis using assms steady_refl [of K db]
    by (auto simp: SaveCommandProgress_def split: option.splits if_splits)
qed

lemma changeBody_noNew:
  assumes b: "changeBody K now p st detail db = Inr (y, db')" and g: "coordinatorGood K db"
  shows "noNew K db db'"
proof -
  have "recordAt K db' i = None" if "recordAt K db i = None" for i
    using changeBody_good [OF coordinatorGoodD(4,1) [OF g] b] that by (auto split: option.splits)
  then show ?thesis using onlyCommands_nodeAt [OF changeBody_only [OF b]] by (simp add: noNew_def)
qed

lemma LoseNodeCommands_steady:
  assumes "LoseNodeCommands E K node now db = (x, db')"
  shows "steady K db db'"
proof (cases "blank node")
  case False
  with assms have "operation E (bindR (commandTime (k_pb K) now) (\<lambda>_. Inr ()))
      (changeBody K now (\<lambda>i row. cw_target row = node \<and> activeRow row) NODE_UNAVAILABLE ''node_disconnected'') db = (x, db')"
    by (simp add: LoseNodeCommands_def changeActiveCommands_def)
  then show ?thesis by (rule operation_steady [OF coord_lose [OF assms]]) (rule changeBody_noNew)
qed (use assms steady_refl [of K db] in \<open>simp add: LoseNodeCommands_def\<close>)

lemma ExpireCommands_steady:
  assumes "ExpireCommands E K now db = (x, db')"
  shows "steady K db db'"
proof (cases "commandTime (k_pb K) now")
  case (Inr stamp)
  with assms have "operation E (bindR (commandTime (k_pb K) now) (\<lambda>_. Inr ()))
      (changeBody K now (\<lambda>i row. activeRow row \<and> expiredRow stamp row) TIMED_OUT ''deadline_expired'') db = (x, db')"
    by (simp add: ExpireCommands_def changeActiveCommands_def)
  then show ?thesis by (rule operation_steady [OF coord_expire [OF assms]]) (rule changeBody_noNew)
qed (use assms steady_refl [of K db] in \<open>simp add: ExpireCommands_def\<close>)

text \<open>Reading leaves everything; the registry and the bindings have no commands and no views.\<close>

lemma read_only:
  assumes "operation E pre (\<lambda>db. bindR (f db) (\<lambda>r. Inr (r, db))) db = (x, db')"
  shows "db' = db"
  using operation_durable [OF assms] by (auto simp: bindR_eq_Inr)

lemma FindCommand_read: "FindCommand E K actorID key db = (x, db') \<Longrightarrow> db' = db"
  unfolding FindCommand_def findCommand_def by (rule read_only)

lemma GetOperatorCommand_read: "GetOperatorCommand E K i db = (x, db') \<Longrightarrow> db' = db"
  unfolding GetOperatorCommand_def by (rule read_only)

lemma GetProject_read: "GetProject E K node project db = (x, db') \<Longrightarrow> db' = db"
  unfolding GetProject_def by (rule read_only)

lemma ListProjects_read: "ListProjects E K node db = (x, db') \<Longrightarrow> db' = db"
  unfolding ListProjects_def by (rule read_only)

lemma FindNamedAgent_read:
  assumes "FindNamedAgent E K node session name db = (x, db')"
  shows "db' = db"
proof -
  have "db' = db" if "operation E (Inr ()) (\<lambda>db. bindR (readCommands K db (byTarget node)) (\<lambda>rs.
      bindR (uniqueNamed session name None rs) (\<lambda>found. case found of
        None \<Rightarrow> Inl ErrCommandNotFound | Some r \<Rightarrow> Inr (r, db)))) db = (x, db')"
    using operation_durable [OF that] by (auto simp: bindR_eq_Inr split: option.splits)
  then show ?thesis using assms by (auto simp: FindNamedAgent_def split: if_splits)
qed

lemma registry_noNew:
  assumes "registryStep K db db'"
  shows "noNew K db db'"
proof -
  have eq: "cd_bindings db' = cd_bindings db" "cd_nodes db' = cd_nodes db" "cd_commands db' = cd_commands db"
    using assms by (simp_all add: registryStep_def)
  show ?thesis using nodeAt_cong [OF eq(1,2)] recordAt_cong [OF eq(1,3), of K] by (simp add: noNew_def)
qed

lemma UpsertProject_registry:
  assumes "UpsertProject E K r db = (x, db')" and g: "coordinatorGood K db"
  shows "db' = db \<or> registryStep K db db'"
proof (cases "bindR (enter E) (\<lambda>_. projectOffer r)")
  case (Inr c)
  then have v: "validateProjectConfig (Some c) = Inr ()" using projectOffer_facts by (auto simp: bindR_eq_Inr)
  have t: "transaction E (upsertBody K c) db = (x, db')" using assms(1) Inr by (simp add: UpsertProject_def)
  show ?thesis
    using transaction_durable [OF t] upsertBody_step [OF coordinatorGoodD(6,1) [OF g] v] by blast
qed (use assms in \<open>simp add: UpsertProject_def\<close>)

lemma AckProject_registry:
  assumes "AckProject E K node a db = (x, db')" and g: "coordinatorGood K db"
  shows "db' = db \<or> registryStep K db db'"
proof -
  consider "db' = db" | y k where "ValidIdempotencyKey node" "validateProjectAck (Some k) = Inr ()"
      "ackBody K node k db = Inr (y, db')"
    using operation_durable [OF assms(1) [unfolded AckProject_def]] by (auto split: if_splits option.splits)
  then show ?thesis
  proof cases
    case (2 y k)
    have n: "node \<noteq> ''''" "pa_project k \<noteq> ''''"
      using 2(1,2) by (auto simp: validateProjectAck_def ValidIdempotencyKey_def dest: commandToken_nonempty split: if_splits)
    have "registryStep K db db'" by (rule ackBody_step [OF coordinatorGoodD(6,1) [OF g] n 2(3)])
    then show ?thesis ..
  qed simp
qed

lemma AdoptProjects_registry:
  assumes "AdoptProjects E K node offers db = (x, db')" and g: "coordinatorGood K db"
  shows "db' = db \<or> registryStep K db db'"
proof (cases "bindR (enter E) (\<lambda>_.
       if \<not> ValidIdempotencyKey node then Inl (Msg ''invalid node identity'')
       else if maxProjectsPerNode < length offers then Inl ErrProjectCapacity
       else offeredConfigs node [] offers)")
  case (Inr cs)
  then have o: "offeredConfigs node [] offers = Inr cs" by (auto simp: bindR_eq_Inr split: if_splits)
  have t: "transaction E (adoptLoop K node cs) db = (x, db')" using assms(1) Inr by (simp add: AdoptProjects_def)
  show ?thesis
    using transaction_durable [OF t] adoptLoop_step [OF coordinatorGoodD(6,1) [OF g] offeredConfigs_facts(1) [OF o]
        conjunct1 [OF offeredConfigs_facts(3) [OF o]]] by blast
qed (use assms in \<open>simp add: AdoptProjects_def\<close>)

text \<open>An operation on the registry is steady.\<close>

lemma registry_steady:
  assumes "coordStep K db db'" and "coordinatorGood K db \<Longrightarrow> db' = db \<or> registryStep K db db'"
  shows "steady K db db'"
  using assms registry_noNew noNew_refl unfolding steady_def by blast

lemma UpsertProject_steady: "UpsertProject E K r db = (x, db') \<Longrightarrow> steady K db db'"
  using registry_steady [OF coord_upsert] UpsertProject_registry by blast

lemma AckProject_steady: "AckProject E K node a db = (x, db') \<Longrightarrow> steady K db db'"
  using registry_steady [OF coord_ack] AckProject_registry by blast

lemma AdoptProjects_steady: "AdoptProjects E K node offers db = (x, db') \<Longrightarrow> steady K db db'"
  using registry_steady [OF coord_adopt] AdoptProjects_registry by blast

text \<open>New bindings change how no stored row is read.\<close>

lemma bindAll_noNew:
  assumes g: "coordinatorGood K db" and b: "bindAll bs db = Inr db'"
  shows "noNew K db db'"
proof -
  note d = coordinatorGoodD [OF g]
  have f: "bindings_ok (cd_bindings db')" "cd_nodes db' = cd_nodes db" "cd_commands db' = cd_commands db"
    using bindAll_facts [OF d(2) b] by blast+
  have keep: "stableOf (cd_bindings db') i = Some s" if "stableOf (cd_bindings db) i = Some s" for i s
    using stableOf_keeps [OF d(2) f(1)] bindAll_facts [OF d(2) b] that by blast
  have "nodeAt K db' i = nodeAt K db i" for i
  proof (cases "tget (cd_nodes db) i")
    case (Some p)
    then obtain v where v: "decodeNode K (cd_bindings db) (i, p) = Inr v" using d(3) unfolding fleet_ok_def by blast
    then show ?thesis using decodeNode_grow [OF keep v] Some by (simp add: nodeAt_def f(2))
  qed (simp add: nodeAt_def f(2))
  moreover have "recordAt K db' i = None" if "recordAt K db i = None" for i
    using that recordAt_iff [OF d(4), of i] by (simp add: recordAt_def f(3))
  ultimately show ?thesis by (auto simp: noNew_def)
qed

lemma ImportBindings_steady:
  assumes "ImportBindings E bs db = (x, db')"
  shows "steady K db db'"
  by (rule operation_steady [OF coord_import_bindings [OF assms] assms [unfolded ImportBindings_def]])
    (auto simp: bindR_eq_Inr simp del: bindAll.simps dest: bindAll_noNew)

lemma Bind_steady: "Bind E stableID instanceID db = (x, db') \<Longrightarrow> steady K db db'"
  unfolding Bind_def by (rule ImportBindings_steady)

lemma RecoverCommands_steady:
  assumes "RecoverCommands E K now db = (x, db')"
  shows "steady K db db'"
  by (rule operation_steady [OF coord_recover [OF assms] assms [unfolded RecoverCommands_def changeActiveCommands_def]])
    (rule changeBody_noNew)

lemma LoadFleet_read: "LoadFleet E K db = (x, db') \<Longrightarrow> db' = db"
  unfolding LoadFleet_def by (rule read_only)

end
