(* ===== verification/QuietHandlers.thy ===== *)
theory QuietHandlers
  imports Streams Steady
begin

text \<open>
  Most handlers of the coordinator leave the fleet alone: they keep the streams' views, admit no command
  and change the store only by steady operations.  The claim is proved handler by handler from the laws
  of \<open>lawful\<close>.
\<close>

section \<open>The relation\<close>

definition quiet :: "'b codecs \<Rightarrow> 'b server \<Rightarrow> 'b server \<Rightarrow> bool" where
  "quiet K S S' = (ms_nodes S' = ms_nodes S \<and>
     map fs_view (ms_streams S') = map fs_view (ms_streams S) \<and>
     map fs_done (ms_streams S') = map fs_done (ms_streams S) \<and>
     steady K (ms_db S) (ms_db S') \<and> (ms_failure S \<noteq> None \<longrightarrow> ms_failure S' = ms_failure S))"

lemma quiet_refl: "quiet K S S"
  by (simp add: quiet_def steady_refl)

lemma quiet_trans: "quiet K S T \<Longrightarrow> quiet K T U \<Longrightarrow> quiet K S U"
  using steady_trans unfolding quiet_def by metis

interpretation quiet: lawful "quiet K" for K :: "'b codecs"
  by unfold_locales (auto intro: quiet_refl quiet_trans)

lemma quiet_view:
  assumes "quiet K S S'" and "h < length (ms_streams S)"
  shows "viewAt h S' = viewAt h S" "fs_done (streamAt h S') = fs_done (streamAt h S)" "current h S' = current h S"
proof -
  have l: "length (ms_streams S') = length (ms_streams S)"
    using assms(1) unfolding quiet_def by (metis length_map)
  have "map fs_view (ms_streams S') ! h = map fs_view (ms_streams S) ! h"
    "map fs_done (ms_streams S') ! h = map fs_done (ms_streams S) ! h"
    using assms(1) by (simp_all add: quiet_def)
  then show "viewAt h S' = viewAt h S" "fs_done (streamAt h S') = fs_done (streamAt h S)"
    using assms(2) l by (simp_all add: viewAt_def streamAt_def)
  then show "current h S' = current h S" using assms(1) by (simp add: current_def quiet_def)
qed

lemma quiet_length: "quiet K S S' \<Longrightarrow> length (ms_streams S') = length (ms_streams S)"
  unfolding quiet_def by (metis length_map)

section \<open>Building blocks\<close>

definition viewless :: "(stream \<Rightarrow> stream) \<Rightarrow> bool" where
  "viewless f = (\<forall>s. fs_view (f s) = fs_view s \<and> fs_done (f s) = fs_done s)"

lemma map_update_same: "f (g (xs ! i)) = f (xs ! i) \<Longrightarrow> map f (xs[i := g (xs ! i)]) = map f xs"
  by (cases "i < length xs") (auto simp: map_update list_update_same_conv list_update_beyond)

lemma quiet_put: "viewless f \<Longrightarrow> quiet K S (putStream h f S)"
  by (simp add: quiet_def putStream_def streamAt_def viewless_def map_update_same steady_refl del: map_update)

lemma quiet_fail: "upholds (quiet K) (failLocked e)"
  by (auto simp: upholds_def failLocked_def quiet_def steady_refl split: option.splits)

lemma quiet_store:
  assumes "\<And>db x db'. f db = (x, db') \<Longrightarrow> steady K db db'"
  shows "upholds (quiet K) (storeS f)"
  using assms by (fastforce simp: upholds_def storeS_def quiet_def split: prod.splits)

lemma persist_steady:
  assumes "\<And>e db x db'. f e db = (x, db') \<Longrightarrow> steady K db db'"
    and "persistCoordinator E f db = (x, db')"
  shows "steady K db db'"
proof -
  obtain y d where y: "f (E 0) db = (y, d)" by (cases "f (E 0) db")
  note s = assms(1) [OF y]
  show ?thesis
  proof (cases y)
    case (Inl e)
    show ?thesis
    proof (cases "RetryableCancellation e")
      case True
      then have "f (E 1) d = (x, db')" using assms(2) y Inl by (simp add: persistCoordinator_def)
      from steady_trans [OF s assms(1) [OF this]] show ?thesis .
    next
      case False
      then show ?thesis using assms(2) y Inl s by (simp add: persistCoordinator_def)
    qed
  next
    case (Inr v)
    then show ?thesis using assms(2) y s by (simp add: persistCoordinator_def)
  qed
qed

lemma quiet_healthy: "upholds (quiet K) healthy"
  unfolding healthy_def by (intro quiet.bind quiet.pure)

lemma quiet_persist:
  assumes "\<And>e db x db'. f e db = (x, db') \<Longrightarrow> steady K db db'"
  shows "upholds (quiet K) (persistS E f)"
  unfolding persistS_def
  by (intro quiet.bind quiet_store upholds_cases quiet_fail quiet.pure) (rule persist_steady [OF assms])

lemma quiet_command_error: "upholds (quiet K) (commandErrorLocked e)"
  unfolding commandErrorLocked_def by (intro upholds_if quiet.pure quiet_fail)

lemma quiet_project_error: "upholds (quiet K) (projectErrorLocked e)"
  unfolding projectErrorLocked_def by (intro upholds_if quiet.pure quiet_command_error)

lemma quiet_command_call:
  assumes "\<And>db x db'. f db = (x, db') \<Longrightarrow> steady K db db'"
  shows "upholds (quiet K) (commandCall f)"
  unfolding commandCall_def by (intro quiet.bind quiet_store [OF assms] upholds_sum quiet_command_error quiet.pure)

lemma quiet_project_call:
  assumes "\<And>db x db'. f db = (x, db') \<Longrightarrow> steady K db db'"
  shows "upholds (quiet K) (projectCall f)"
  unfolding projectCall_def by (intro quiet.bind quiet_store [OF assms] upholds_sum quiet_project_error quiet.pure)

lemma read_steady: "db' = db \<Longrightarrow> steady K db db'"
  by (simp add: steady_refl)

lemmas store_steady = RejectCommand_steady DispatchCommand_steady FinishCommand_steady
  SaveCommandProgress_steady LoseNodeCommands_steady ExpireCommands_steady UpsertProject_steady
  AckProject_steady AdoptProjects_steady Bind_steady
  read_steady [OF FindCommand_read] read_steady [OF GetOperatorCommand_read]
  read_steady [OF GetProject_read] read_steady [OF ListProjects_read] read_steady [OF FindNamedAgent_read]

lemma quiet_put_handler: "viewless f \<Longrightarrow> upholds (quiet K) (putS (putStream h f))"
  by (intro quiet.put quiet_put)

lemmas quiet_steps = quiet.bind quiet.pure upholds_cases quiet_healthy quiet_fail quiet_command_error
  quiet_project_error quiet_command_call quiet_project_call quiet_persist quiet_store quiet_put_handler

section \<open>Handler by handler\<close>

lemma quiet_lose: "upholds (quiet K) (loseCommands C K E node now)"
  unfolding loseCommands_def by (intro quiet_steps) (erule store_steady)

lemma quiet_expire: "upholds (quiet K) (expireCommands C K E now)"
  unfolding expireCommands_def by (intro quiet_steps) (erule store_steady)

lemma quiet_projectView: "upholds (quiet K) (projectViewLocked r)"
  by (auto simp: upholds_def projectViewLocked_def quiet_refl split: option.splits)

lemma quiet_wake: "quiet K S (wakeProjects e S)"
  using quiet_put [of "\<lambda>s. s\<lparr>fs_wake := True\<rparr>" K S] quiet_refl [of K S]
  by (auto simp: wakeProjects_def viewless_def split: option.splits)

lemma quiet_managed: "upholds (quiet K) (managedProjectReadyLocked K E h project revision)"
  unfolding managedProjectReadyLocked_def
  by (intro quiet_steps quiet_projectView) (erule store_steady)

lemma quiet_register: "upholds (quiet K) (RegisterProject C K E who r)"
  unfolding RegisterProject_def
  by (intro quiet_steps quiet_projectView quiet.put quiet_wake) (erule store_steady)

lemma quiet_get_project: "upholds (quiet K) (GetProjectCall C K E who r)"
  unfolding GetProjectCall_def by (intro quiet_steps quiet_projectView) (erule store_steady)

lemma quiet_updates: "upholds (quiet K) (projectUpdates K E h)"
  unfolding projectUpdates_def by (intro quiet_steps) (erule store_steady, simp add: viewless_def)

lemma quiet_ack: "upholds (quiet K) (acknowledgeProject K E h a)"
  unfolding acknowledgeProject_def by (intro quiet_steps) (erule store_steady, simp add: viewless_def)

lemma quiet_adopt: "upholds (quiet K) (adoptOffer K E h a)"
  unfolding adoptOffer_def by (intro quiet_steps quiet.put quiet_wake) (erule store_steady)

lemma quiet_get_command: "upholds (quiet K) (GetCommandCall C K E who r)"
  unfolding GetCommandCall_def by (intro quiet_steps) (erule store_steady)

lemma quiet_named: "upholds (quiet K) (ResolveNamedAgent C K E who r)"
  unfolding ResolveNamedAgent_def by (intro quiet_steps) (erule store_steady)

lemma quiet_finish: "upholds (quiet K) (finishCommand K E now h v)"
  unfolding finishCommand_def by (intro quiet_steps) (erule store_steady)

lemma quiet_progress: "upholds (quiet K) (commandProgress C K E h p)"
  unfolding commandProgress_def by (intro quiet_steps) (erule store_steady)

lemma quiet_still_ready: "upholds (quiet K) (projectStillReady K policy E h c)"
  unfolding upholds_def
proof (intro allI impI)
  fix S r S' assume p: "projectStillReady K policy E h c S = (r, S')"
  have "S' = S \<or> (\<exists>x y z. managedProjectReadyLocked K E h x y S = (z, S'))"
    using p by (auto simp: projectStillReady_def split: prod.splits sum.splits if_splits)
  then show "quiet K S S'" using upholdsD [OF quiet_managed] quiet_refl by metis
qed

lemma quiet_prepare: "upholds (quiet K) (prepareCommand K policy E T ok h c)"
  unfolding prepareCommand_def by (intro quiet_steps quiet_still_ready) (erule store_steady)+

lemma quiet_accept: "upholds (quiet K) (acceptNode C E who g)"
  unfolding acceptNode_def bindNode_def
  by (intro quiet_steps) (rule persist_steady, erule Bind_steady)

lemma viewless_cancel: "viewless (cancelSessionQuery W now qid pending)"
  by (simp add: viewless_def cancelSessionQuery_def)

lemma quiet_query: "upholds (quiet K) (QueryAgent C P now expiry who qid q)"
  unfolding QueryAgent_def by (intro quiet_steps) (simp add: viewless_def)

lemma quiet_cancel_query: "upholds (quiet K) (cancelAgentQuery W now h qid pending)"
  unfolding cancelAgentQuery_def by (intro quiet_steps) (simp_all add: viewless_def)

lemma upholds_envelope:
  "(\<And>q. upholds R (f q)) \<Longrightarrow> (\<And>i. upholds R (g i)) \<Longrightarrow>
     upholds R (case e of SendQuery q \<Rightarrow> f q | CancelQuery i \<Rightarrow> g i)"
  by (cases e) simp_all

lemma quiet_prepare_query: "upholds (quiet K) (prepareAgentEnvelope P W T h e)"
  unfolding prepareAgentEnvelope_def by (intro quiet_steps upholds_envelope viewless_cancel)

lemma quiet_finish_query: "upholds (quiet K) (finishAgentQuery P W T h r)"
  unfolding finishAgentQuery_def by (intro quiet_steps viewless_cancel) (simp add: viewless_def)

end
