(* ===== verification/FleetInvariant.thy ===== *)
theory FleetInvariant
  imports QuietHandlers
begin

text \<open>
  What every step of the coordinator keeps: the fleet maps each instance to a stream of its own, at most
  128 of them; while the store works, the durable snapshot is the fleet in memory but for the flags that
  mean "live now"; and every command that is accepted or running has a node the fleet believes connected.
\<close>

section \<open>Snapshots under the store's operations\<close>

lemma SaveNode_effect:
  assumes g: "coordinatorGood K db" and s: "SaveNode E K (Some v) db = (x, db')"
  shows "recordAt K db' = recordAt K db \<and>
    (db' = db \<and> x \<noteq> Inr () \<or> nodeAt K db' = (nodeAt K db)(nv_instance v \<mapsto> v))"
proof (cases "encodeNode K v")
  case (Inl e)
  then show ?thesis using s by (auto simp: SaveNode_def bindR_def split: sum.splits)
next
  case (Inr p)
  note d = coordinatorGoodD [OF g]
  have eff: "recordAt K d' = recordAt K db \<and> nodeAt K d' = (nodeAt K db)(nv_instance v \<mapsto> v)"
    if b: "saveNodeBody K v p db = Inr (u, d')" for u d'
    using saveNodeBody_fleet [OF d(3,1) Inr b] recordAt_cong [of d' db] by simp
  show ?thesis
  proof (cases "enter E")
    case (Inl e)
    then show ?thesis using s by (auto simp: SaveNode_def bindR_def)
  next
    case (Inr u)
    then have t: "transaction E (saveNodeBody K v p) db = (x, db')"
      using s \<open>encodeNode K v = Inr p\<close> by (simp add: SaveNode_def)
    show ?thesis
    proof (cases x)
      case x: (Inr w)
      then have "saveNodeBody K v p db = Inr (w, db')" using t by (simp add: transaction_Inr)
      from eff [OF this] show ?thesis by blast
    next
      case (Inl e)
      then show ?thesis using transaction_durable [OF t] eff by auto
    qed
  qed
qed

lemma DeleteNodes_effect:
  assumes "DeleteNodes E ids db = (x, db')"
  shows "recordAt K db' = recordAt K db \<and>
    (db' = db \<and> x \<noteq> Inr () \<or> nodeAt K db' = (\<lambda>i. if i \<in> set ids then None else nodeAt K db i))"
proof -
  have op: "operation E (Inr ()) (\<lambda>db. bindR (deleteAll ids db) (\<lambda>db'. Inr ((), db'))) db = (x, db')"
    using assms by (simp add: DeleteNodes_def)
  have eff: "recordAt K db' = recordAt K db \<and> nodeAt K db' = (\<lambda>i. if i \<in> set ids then None else nodeAt K db i)"
    if b: "deleteAll ids db = Inr db'"
  proof -
    have t: "tget (cd_nodes db') = (\<lambda>i. if i \<in> set ids then None else tget (cd_nodes db) i)"
      and same: "cd_bindings db' = cd_bindings db" "cd_commands db' = cd_commands db"
      using deleteAll_facts [OF b] by simp_all
    have "nodeAt K db' i = (if i \<in> set ids then None else nodeAt K db i)" for i
      unfolding nodeAt_def same t by simp
    then have "nodeAt K db' = (\<lambda>i. if i \<in> set ids then None else nodeAt K db i)" by (rule ext)
    with recordAt_cong [OF same] show ?thesis by simp
  qed
  show ?thesis
  proof (cases x)
    case (Inr u)
    then have "deleteAll ids db = Inr db'" using operation_Inr(2) op by (fastforce simp: bindR_eq_Inr)
    then show ?thesis using eff by blast
  next
    case (Inl e)
    then show ?thesis using operation_durable [OF op] eff by (auto simp: bindR_eq_Inr)
  qed
qed

text \<open>Retrying an operation whose effect on the snapshot is to become \<open>n\<close> has that effect once.\<close>

lemma persist_effect:
  assumes one: "\<And>e db x db'. coordinatorGood K db \<Longrightarrow> f e db = (x, db') \<Longrightarrow> coordStep K db db' \<and>
      recordAt K db' = recordAt K db \<and> (db' = db \<and> x \<noteq> Inr () \<or> nodeAt K db' = n (nodeAt K db))"
    and idem: "\<And>a. n (n a) = n a"
    and g: "coordinatorGood K db" and p: "persistCoordinator E f db = (x, db')"
  shows "coordinatorGood K db' \<and> (coordStep K)\<^sup>*\<^sup>* db db' \<and> recordAt K db' = recordAt K db \<and>
    (x = Inr () \<longrightarrow> nodeAt K db' = n (nodeAt K db))"
proof -
  obtain y d where y: "f (E 0) db = (y, d)" by (cases "f (E 0) db")
  note s = one [OF g y]
  have gd: "coordinatorGood K d" using commands.step_inv [OF g] s by blast
  show ?thesis
  proof (cases "\<exists>e. y = Inl e \<and> RetryableCancellation e")
    case True
    then have z: "f (E 1) d = (x, db')" using p y by (auto simp: persistCoordinator_def)
    note t = one [OF gd z]
    have "nodeAt K db' = n (nodeAt K db)" if "x = Inr ()" using s t that idem by auto
    then show ?thesis using s t commands.step_inv [OF gd] by (auto intro: rtranclp_trans)
  next
    case False
    then have "x = y" "db' = d" using p y by (auto simp: persistCoordinator_def split: sum.splits if_splits)
    then show ?thesis using s gd by auto
  qed
qed

section \<open>Saving and pruning\<close>

text \<open>A step that touches only the store and the failure mark.\<close>

definition storeOnly :: "'b codecs \<Rightarrow> 'b server \<Rightarrow> 'b server \<Rightarrow> bool" where
  "storeOnly K S S' = (ms_nodes S' = ms_nodes S \<and> ms_streams S' = ms_streams S \<and>
     coordinatorGood K (ms_db S') \<and> (coordStep K)\<^sup>*\<^sup>* (ms_db S) (ms_db S') \<and>
     recordAt K (ms_db S') = recordAt K (ms_db S) \<and> (ms_failure S' = None \<longrightarrow> ms_failure S = None))"

lemma storeOnly_refl: "coordinatorGood K (ms_db S) \<Longrightarrow> storeOnly K S S"
  by (simp add: storeOnly_def)

lemma persistS_effect:
  assumes one: "\<And>e db x db'. coordinatorGood K db \<Longrightarrow> f e db = (x, db') \<Longrightarrow> coordStep K db db' \<and>
      recordAt K db' = recordAt K db \<and> (db' = db \<and> x \<noteq> Inr () \<or> nodeAt K db' = n (nodeAt K db))"
    and idem: "\<And>a. n (n a) = n a"
    and g: "coordinatorGood K (ms_db S)" and p: "persistS E f S = (x, S')"
  shows "storeOnly K S S' \<and> (case x of Inl e \<Rightarrow> ms_failure S' \<noteq> None
    | Inr u \<Rightarrow> ms_failure S' = ms_failure S \<and> nodeAt K (ms_db S') = n (nodeAt K (ms_db S)))"
proof -
  obtain y d where y: "persistCoordinator E f (ms_db S) = (y, d)" by (cases "persistCoordinator E f (ms_db S)")
  note s = persist_effect [OF one idem g y]
  show ?thesis
    using p y s by (cases y) (auto simp: persistS_def storeS_def bindS_def failLocked_def okS_def storeOnly_def
        split: option.splits)
qed

lemma save_effect:
  assumes g: "coordinatorGood K (ms_db S)" and s: "save C K E v S = (x, S')"
  shows "storeOnly K S S' \<and> (case x of Inl e \<Rightarrow> S' = S \<or> ms_failure S' \<noteq> None
    | Inr u \<Rightarrow> ms_failure S' = None \<and> ms_failure S = None \<and>
        (sc_stored C \<longrightarrow> nodeAt K (ms_db S') = (nodeAt K (ms_db S))(nv_instance v \<mapsto> v)))"
proof -
  consider (err) e where "x = Inl e" "S' = S"
    | (none) "x = Inr ()" "S' = S" "ms_failure S = None" "\<not> sc_stored C"
    | (go) "ms_failure S = None" "persistS E (\<lambda>e. SaveNode e K (Some v)) S = (x, S')"
    using s unfolding save_def healthy_def
    by (auto simp: bindS_def handler_steps split: if_splits)
  then show ?thesis
  proof cases
    case go
    have one: "coordStep K db db' \<and> recordAt K db' = recordAt K db \<and>
        (db' = db \<and> y \<noteq> Inr () \<or> nodeAt K db' = (nodeAt K db)(nv_instance v \<mapsto> v))"
      if "coordinatorGood K db" "SaveNode e K (Some v) db = (y, db')" for e db y db'
      using SaveNode_effect [OF that] coord_save_node [OF that(2)] by blast
    have "storeOnly K S S' \<and> (case x of Inl e \<Rightarrow> ms_failure S' \<noteq> None
      | Inr u \<Rightarrow> ms_failure S' = ms_failure S \<and> nodeAt K (ms_db S') = (nodeAt K (ms_db S))(nv_instance v \<mapsto> v))"
      by (rule persistS_effect [where n = "\<lambda>a. a(nv_instance v \<mapsto> v)", OF _ _ g go(2)]) (use one in auto)
    then show ?thesis using go(1) by (auto split: sum.splits)
  qed (simp_all add: storeOnly_refl [OF g])
qed

section \<open>The invariant\<close>

text \<open>A view without the flags that say what is live at this moment.\<close>

definition lasting :: "node_view \<Rightarrow> node_view" where
  "lasting v = v\<lparr>nv_connected := False, nv_stale := False, nv_command_ready := False,
     nv_workspace_ready := False, nv_worktree_ready := False, nv_agent_ready := False,
     nv_sessions_ready := False, nv_sessions := map (\<lambda>s. s\<lparr>sv_stale := False\<rparr>) (nv_sessions v)\<rparr>"

definition fleetShape :: "'b server \<Rightarrow> bool" where
  "fleetShape S = (table_ok (ms_nodes S) \<and> length (ms_nodes S) \<le> maxFleetNodes \<and>
     (\<forall>i h. tget (ms_nodes S) i = Some h \<longrightarrow> h < length (ms_streams S) \<and> nv_instance (viewAt h S) = i))"

definition mirrored :: "'b codecs \<Rightarrow> 'b server \<Rightarrow> bool" where
  "mirrored K S = (\<forall>i. map_option lasting (nodeAt K (ms_db S) i) =
     map_option (\<lambda>h. lasting (viewAt h S)) (tget (ms_nodes S) i))"

definition attended :: "'b codecs \<Rightarrow> 'b server \<Rightarrow> bool" where
  "attended K S = (\<forall>i r c. recordAt K (ms_db S) i = Some r \<longrightarrow> activeRecord r \<longrightarrow> rec_command r = Some c \<longrightarrow>
     (\<exists>h. tget (ms_nodes S) (c_target c) = Some h \<and> nv_connected (viewAt h S)))"

definition serverGood :: "service \<Rightarrow> 'b codecs \<Rightarrow> 'b server \<Rightarrow> bool" where
  "serverGood C K S = (coordinatorGood K (ms_db S) \<and> fleetShape S \<and>
     (sc_stored C \<longrightarrow> ms_failure S = None \<longrightarrow> mirrored K S \<and> attended K S))"

lemma serverGoodD:
  assumes "serverGood C K S"
  shows "coordinatorGood K (ms_db S)" "fleetShape S"
    "sc_stored C \<Longrightarrow> ms_failure S = None \<Longrightarrow> mirrored K S"
    "sc_stored C \<Longrightarrow> ms_failure S = None \<Longrightarrow> attended K S"
  using assms by (simp_all add: serverGood_def)

lemma fleetShape_at:
  "fleetShape S \<Longrightarrow> tget (ms_nodes S) i = Some h \<Longrightarrow> h < length (ms_streams S) \<and> nv_instance (viewAt h S) = i"
  by (simp add: fleetShape_def)

text \<open>Quiet handlers keep it.\<close>

lemma quiet_good:
  assumes q: "quiet K S S'" and g: "serverGood C K S"
  shows "serverGood C K S'"
proof -
  note d = serverGoodD [OF g]
  have n: "ms_nodes S' = ms_nodes S" and st: "steady K (ms_db S) (ms_db S')"
    and f: "ms_failure S' = None \<Longrightarrow> ms_failure S = None" using q by (auto simp: quiet_def)
  have v: "viewAt h S' = viewAt h S" if "tget (ms_nodes S) i = Some h" for i h
    using quiet_view(1) [OF q] fleetShape_at [OF d(2) that] by blast
  have shape: "fleetShape S'" using d(2) v quiet_length [OF q] by (auto simp: fleetShape_def n)
  have "mirrored K S' \<and> attended K S'" if s: "sc_stored C" "ms_failure S' = None"
  proof (rule conjI)
    have m: "mirrored K S" by (rule d(3) [OF s(1) f [OF s(2)]])
    show "mirrored K S'"
      unfolding mirrored_def steadyD(2) [OF st d(1)] n
    proof (rule allI)
      fix i show "map_option lasting (nodeAt K (ms_db S) i) =
          map_option (\<lambda>h. lasting (viewAt h S')) (tget (ms_nodes S) i)"
        using m v by (cases "tget (ms_nodes S) i") (auto simp: mirrored_def)
    qed
    have a: "attended K S" by (rule d(4) [OF s(1) f [OF s(2)]])
    show "attended K S'"
      unfolding attended_def
    proof (intro allI impI)
      fix i r c assume r: "recordAt K (ms_db S') i = Some r" "activeRecord r" "rec_command r = Some c"
      obtain r0 where "recordAt K (ms_db S) i = Some r0" "activeRecord r0" "rec_command r0 = Some c"
        using steady_active [OF st d(1) r(1,2)] r(3) by auto
      then obtain h where "tget (ms_nodes S) (c_target c) = Some h" "nv_connected (viewAt h S)"
        using a unfolding attended_def by blast
      then show "\<exists>h. tget (ms_nodes S') (c_target c) = Some h \<and> nv_connected (viewAt h S')"
        using v n by auto
    qed
  qed
  then show ?thesis using shape steadyD(1) [OF st d(1)] by (simp add: serverGood_def)
qed

end
