(* ===== verification/FleetSteps.thy ===== *)
theory FleetSteps
  imports FleetInvariant
begin

text \<open>
  The handlers that change the fleet (streams begin and end, heartbeats and reports arrive, old nodes
  are pruned) and the admission of a command keep the invariant; so does every step of the coordinator.
\<close>

section \<open>Views of single streams\<close>

lemma streamAt_putStream:
  "h < length (ms_streams S) \<Longrightarrow> streamAt g (putStream h f S) = (if g = h then f (streamAt h S) else streamAt g S)"
  by (simp add: streamAt_def putStream_def nth_list_update)

lemma viewAt_putStream:
  "h < length (ms_streams S) \<Longrightarrow>
     viewAt g (putStream h f S) = (if g = h then fs_view (f (streamAt h S)) else viewAt g S)"
  by (simp add: viewAt_def streamAt_putStream)

lemma putStream_simps [simp]:
  "ms_nodes (putStream h f S) = ms_nodes S" "ms_db (putStream h f S) = ms_db S"
  "ms_failure (putStream h f S) = ms_failure S" "length (ms_streams (putStream h f S)) = length (ms_streams S)"
  by (simp_all add: putStream_def)

lemma storeOnly_view: "storeOnly K S S' \<Longrightarrow> viewAt h S' = viewAt h S"
  by (simp add: storeOnly_def viewAt_def streamAt_def)

lemma storeOnly_shape: "storeOnly K S S' \<Longrightarrow> fleetShape S \<Longrightarrow> fleetShape S'"
  by (simp add: fleetShape_def storeOnly_view) (simp add: storeOnly_def)

lemma storeOnly_failed:
  "storeOnly K S S' \<Longrightarrow> serverGood C K S \<Longrightarrow> ms_failure S' \<noteq> None \<Longrightarrow> serverGood C K S'"
proof -
  assume so: "storeOnly K S S'" and g: "serverGood C K S" and f: "ms_failure S' \<noteq> None"
  have "fleetShape S'" "coordinatorGood K (ms_db S')"
    using storeOnly_shape [OF so] g so by (simp_all add: serverGood_def storeOnly_def)
  then show "serverGood C K S'" using f by (auto simp: serverGood_def)
qed

text \<open>A stream whose view is saved and then installed.\<close>

lemma saved_view_good:
  assumes g: "serverGood C K S" and cur: "tget (ms_nodes S) (nv_instance (viewAt h S)) = Some h"
    and copy: "nv_instance copy = nv_instance (viewAt h S)" "nv_connected copy = nv_connected (viewAt h S)"
    and f: "\<And>s. fs_view (f s) = copy"
    and r: "bindS (save C K E copy) (\<lambda>_. putS (putStream h f)) S = (x, S')"
  shows "serverGood C K S'"
proof -
  note d = serverGoodD [OF g]
  obtain y T where y: "save C K E copy S = (y, T)" by (cases "save C K E copy S")
  note e = save_effect [OF d(1) y]
  have so: "storeOnly K S T" using e by blast
  show ?thesis
  proof (cases y)
    case (Inl err)
    then have "S' = T" using r y by (simp add: bindS_def)
    then show ?thesis using e Inl g storeOnly_failed [OF so g] by auto
  next
    case (Inr u)
    have S': "S' = putStream h f T" using r y Inr by (simp add: bindS_def handler_steps)
    have T: "ms_nodes T = ms_nodes S" "ms_streams T = ms_streams S" "coordinatorGood K (ms_db T)"
      "recordAt K (ms_db T) = recordAt K (ms_db S)" using so by (simp_all add: storeOnly_def)
    have fail: "ms_failure S = None" using e Inr by simp
    have h: "h < length (ms_streams T)" using fleetShape_at [OF d(2) cur] T(2) by simp
    have v: "viewAt k S' = (if k = h then copy else viewAt k S)" for k
      using viewAt_putStream [OF h, of k f] f by (simp add: S' storeOnly_view [OF so])
    have nodes: "ms_nodes S' = ms_nodes S" "length (ms_streams S') = length (ms_streams S)" "ms_db S' = ms_db T"
      by (simp_all add: S' T)
    have only: "i = nv_instance copy" if "tget (ms_nodes S) i = Some h" for i
      using fleetShape_at [OF d(2) that] copy(1) by simp
    have shape: "fleetShape S'" using d(2) copy(1) by (auto simp: fleetShape_def nodes v)
    have "mirrored K S' \<and> attended K S'" if s: "sc_stored C"
    proof (rule conjI)
      have n: "nodeAt K (ms_db T) = (nodeAt K (ms_db S))(nv_instance copy \<mapsto> copy)" using e Inr s by simp
      have m: "mirrored K S" and a: "attended K S" using d(3,4) s fail by simp_all
      show "mirrored K S'"
        unfolding mirrored_def nodes n
      proof (rule allI)
        fix i
        show "map_option lasting (((nodeAt K (ms_db S))(nv_instance copy \<mapsto> copy)) i) =
            map_option (\<lambda>h. lasting (viewAt h S')) (tget (ms_nodes S) i)"
        proof (cases "i = nv_instance copy")
          case True
          then show ?thesis using cur copy(1) v by simp
        next
          case False
          then have "tget (ms_nodes S) i \<noteq> Some h" using only by blast
          then show ?thesis using m False v unfolding mirrored_def
            by (cases "tget (ms_nodes S) i") auto
        qed
      qed
      show "attended K S'"
        using a v copy(2) unfolding attended_def nodes T(4) by metis
    qed
    then show ?thesis using shape T(3) nodes by (simp add: serverGood_def)
  qed
qed

section \<open>Pruning\<close>

lemma tget_filter: "tget (filter (\<lambda>(i, h). i \<notin> A) t) i = (if i \<in> A then None else tget t i)"
  by (induction t) (auto simp: tget_def)

lemma table_ok_filter: "table_ok t \<Longrightarrow> table_ok (filter p t)"
  unfolding table_ok_def by (metis sorted_wrt_filter sorted_wrt_map)

definition withoutNodes :: "string list \<Rightarrow> 'b server \<Rightarrow> 'b server" where
  "withoutNodes ids S = S\<lparr>ms_nodes := filter (\<lambda>(i, h). i \<notin> set ids) (ms_nodes S)\<rparr>"

lemma expired_disconnected:
  assumes "fleetShape S" and "i \<in> set (expiredNodes P now S)" and "tget (ms_nodes S) i = Some h"
  shows "\<not> nv_connected (viewAt h S)"
proof -
  have t: "table_ok (ms_nodes S)" using assms(1) by (simp add: fleetShape_def)
  obtain g where "(i, g) \<in> set (ms_nodes S)" "\<not> nv_connected (viewAt g S)"
    using assms(2) by (auto simp: expiredNodes_def)
  then show ?thesis using tget_mem [OF t] assms(3) by auto
qed

lemma prune_effect:
  assumes g: "serverGood C K S" and p: "prune C K E now S = (x, S')"
  shows "serverGood C K S' \<and> ms_streams S' = ms_streams S \<and> recordAt K (ms_db S') = recordAt K (ms_db S) \<and>
    (if x = Inr () then ms_failure S' = None else ms_failure S' \<noteq> None) \<and>
    (\<forall>i h. tget (ms_nodes S) i = Some h \<longrightarrow> nv_connected (viewAt h S) \<longrightarrow> tget (ms_nodes S') i = Some h) \<and>
    (x = Inr () \<longrightarrow> sc_stored C \<longrightarrow> nodeAt K (ms_db S') =
       (\<lambda>i. if i \<in> set (expiredNodes (k_pb K) now S) then None else nodeAt K (ms_db S) i))"
proof -
  note d = serverGoodD [OF g]
  let ?ids = "expiredNodes (k_pb K) now S"
  consider (same) "S' = S" "if x = Inr () then ms_failure S = None \<and> ?ids = [] else ms_failure S \<noteq> None"
    | (go) y T where "ms_failure S = None" "?ids \<noteq> []"
      "(if sc_stored C then persistS E (\<lambda>e. DeleteNodes e ?ids) else okS ()) S = (y, T)"
      "(x, S') = (case y of Inl e \<Rightarrow> (Inl e, T) | Inr u \<Rightarrow> (Inr (), withoutNodes ?ids T))"
    using p unfolding prune_def healthy_def withoutNodes_def
    by (auto simp: bindS_def handler_steps split: if_splits prod.splits sum.splits)
  then show ?thesis
  proof cases
    case same
    then show ?thesis using g by (simp split: if_splits)
  next
    case go
    have T: "storeOnly K S T \<and> (case y of Inl e \<Rightarrow> ms_failure T \<noteq> None | Inr u \<Rightarrow> ms_failure T = None \<and>
        (sc_stored C \<longrightarrow> nodeAt K (ms_db T) = (\<lambda>i. if i \<in> set ?ids then None else nodeAt K (ms_db S) i)))"
    proof (cases "sc_stored C")
      case True
      have "storeOnly K S T \<and> (case y of Inl e \<Rightarrow> ms_failure T \<noteq> None | Inr u \<Rightarrow> ms_failure T = ms_failure S \<and>
          nodeAt K (ms_db T) = (\<lambda>i. if i \<in> set ?ids then None else nodeAt K (ms_db S) i))"
      proof (rule persistS_effect [where n = "\<lambda>a i. if i \<in> set ?ids then None else a i", OF _ _ d(1)])
        show "coordStep K db db' \<and> recordAt K db' = recordAt K db \<and>
            (db' = db \<and> z \<noteq> Inr () \<or> nodeAt K db' = (\<lambda>i. if i \<in> set ?ids then None else nodeAt K db i))"
          if "DeleteNodes e ?ids db = (z, db')" for e db z db'
          using DeleteNodes_effect [OF that] coord_delete_nodes [OF that] by blast
        show "persistS E (\<lambda>e. DeleteNodes e ?ids) S = (y, T)" using go(3) True by simp
      qed auto
      then show ?thesis using go(1) by (auto split: sum.splits)
    next
      case False
      then show ?thesis using go(1,3) storeOnly_refl [OF d(1)] by (auto simp: okS_def)
    qed
    then have so: "storeOnly K S T" by blast
    show ?thesis
    proof (cases y)
      case (Inl e)
      then show ?thesis using go(4) T storeOnly_failed [OF so g] so by (auto simp: storeOnly_def)
    next
      case (Inr u)
      have keep: "tget (filter (\<lambda>(i, h). i \<notin> set ?ids) (ms_nodes S)) i = Some h"
        if "tget (ms_nodes S) i = Some h" "nv_connected (viewAt h S)" for i h
        using expired_disconnected [OF d(2) _ that(1)] that unfolding tget_filter by auto
      from Inr have S': "S' = withoutNodes ?ids T" and x: "x = Inr ()" using go(4) by simp_all
      have n: "ms_nodes S' = filter (\<lambda>(i, h). i \<notin> set ?ids) (ms_nodes S)" "ms_streams S' = ms_streams S"
        "ms_db S' = ms_db T" "ms_failure S' = None" "coordinatorGood K (ms_db T)"
        "recordAt K (ms_db T) = recordAt K (ms_db S)"
        using so T Inr by (simp_all add: S' withoutNodes_def storeOnly_def)
      have v: "viewAt h S' = viewAt h S" for h by (simp add: viewAt_def streamAt_def n)
      have shape: "fleetShape S'"
        using d(2) table_ok_filter length_filter_le order_trans
        unfolding fleetShape_def n v tget_filter by (metis (no_types, lifting) option.distinct(1))
      have "mirrored K S' \<and> attended K S'" if s: "sc_stored C"
      proof (rule conjI)
        have m: "mirrored K S" and a: "attended K S" using d(3,4) s go(1) by simp_all
        show "mirrored K S'"
          using T Inr s m unfolding mirrored_def n v tget_filter by simp
        show "attended K S'"
          unfolding attended_def n v tget_filter
        proof (intro allI impI)
          fix i r c assume "recordAt K (ms_db S) i = Some r" "activeRecord r" "rec_command r = Some c"
          then obtain h where h: "tget (ms_nodes S) (c_target c) = Some h" "nv_connected (viewAt h S)"
            using a unfolding attended_def by blast
          then have "c_target c \<notin> set ?ids" using expired_disconnected [OF d(2)] by blast
          then show "\<exists>h. (if c_target c \<in> set ?ids then None else tget (ms_nodes S) (c_target c)) = Some h \<and>
              nv_connected (viewAt h S)" using h by simp
        qed
      qed
      moreover have "sc_stored C \<longrightarrow> nodeAt K (ms_db S') = (\<lambda>i. if i \<in> set ?ids then None else nodeAt K (ms_db S) i)"
        using T Inr n(3) by simp
      ultimately show ?thesis using shape n x keep by (simp add: serverGood_def)
    qed
  qed
qed

section \<open>Reports\<close>

lemma current_node: "current h S \<Longrightarrow> tget (ms_nodes S) (nv_instance (viewAt h S)) = Some h"
  by (simp add: current_def)

lemma upholds_good_bind:
  "bindS m f S = (x, S') \<Longrightarrow> (\<And>e T. m S = (Inl e, T) \<Longrightarrow> P T) \<Longrightarrow>
     (\<And>y T. m S = (Inr y, T) \<Longrightarrow> f y T = (x, S') \<Longrightarrow> P S') \<Longrightarrow> P S'"
  by (auto simp: bindS_def split: prod.splits sum.splits)

lemma heartbeatView_same [simp]:
  "nv_instance (heartbeatView P s now ready) = nv_instance (fs_view s)"
  "nv_connected (heartbeatView P s now ready) = nv_connected (fs_view s)"
  by (simp_all add: heartbeatView_def Let_def)

lemma herdrView_same [simp]:
  "nv_instance (herdrView P v state now) = nv_instance v" "nv_connected (herdrView P v state now) = nv_connected v"
  by (simp_all add: herdrView_def Let_def)

lemma projectSessionFreshness_same [simp]:
  "nv_instance (projectSessionFreshness P v now) = nv_instance v"
  "nv_connected (projectSessionFreshness P v now) = nv_connected v"
  by (simp_all add: projectSessionFreshness_def)

lemma inventoryView_same [simp]:
  "nv_instance (inventoryView P v i now) = nv_instance v" "nv_connected (inventoryView P v i now) = nv_connected v"
  by (simp_all add: inventoryView_def)

lemma heartbeat_good:
  assumes g: "serverGood C K S" and b: "heartbeat C K E h now ready S = (x, S')"
  shows "serverGood C K S'"
proof -
  let ?c = "heartbeatView (k_pb K) (streamAt h S) now ready"
  have "S' = S \<or> current h S \<and> bindS (save C K E ?c) (\<lambda>_. putS (setView h ?c)) S = (x, S')"
    using b by (auto simp: heartbeat_def healthy_def bindS_def handler_steps Let_def split: if_splits)
  then show ?thesis
    using g saved_view_good [OF g current_node, of h ?c "\<lambda>s. s\<lparr>fs_view := ?c\<rparr>" E x S']
    by (auto simp: setView_def viewAt_def)
qed

lemma updateHerdr_good:
  assumes g: "serverGood C K S" and b: "updateHerdr C K Z E h state now S = (x, S')"
  shows "serverGood C K S'"
proof -
  let ?c = "herdrView (k_pb K) (viewAt h S) state now"
  have "S' = S \<or> current h S \<and> bindS (save C K E ?c) (\<lambda>_. putS (setView h ?c)) S = (x, S')"
    using b by (cases "validateHerdrState (k_pb K) Z (Some state)")
      (auto simp: updateHerdr_def bindS_def handler_steps Let_def split: if_splits)
  then show ?thesis
    using g saved_view_good [OF g current_node, of h ?c "\<lambda>s. s\<lparr>fs_view := ?c\<rparr>" E x S'] by (auto simp: setView_def)
qed

lemma setLogicalName_good:
  assumes g: "serverGood C K S" and b: "setLogicalName C K E h name S = (x, S')"
  shows "serverGood C K S'"
proof -
  let ?c = "(viewAt h S)\<lparr>nv_hostname := name\<rparr>"
  have "S' = S \<or> current h S \<and> bindS (save C K E ?c) (\<lambda>_. putS (setView h ?c)) S = (x, S')"
    using b by (cases "validateLogicalNodeName name")
      (auto simp: setLogicalName_def healthy_def bindS_def handler_steps Let_def split: if_splits)
  then show ?thesis
    using g saved_view_good [OF g current_node, of h ?c "\<lambda>s. s\<lparr>fs_view := ?c\<rparr>" E x S'] by (auto simp: setView_def)
qed

lemma recheckQueries_view [simp]: "fs_view (recheckQueries P W now now' previous qs s) = fs_view s"
proof (induction qs arbitrary: s)
  case (Cons q qs)
  have c: "fs_view (cancelSessionQuery W n i p s) = fs_view s" for n i p s
    using viewless_cancel [of W n i p] by (simp add: viewless_def)
  show ?case by (simp add: Cons c split: option.splits)
qed simp

lemma updateSessions_good:
  assumes g: "serverGood C K S" and b: "updateSessions C K Z W E h i now now' S = (x, S')"
  shows "serverGood C K S'"
proof -
  let ?c = "inventoryView (k_pb K) (fs_view (streamAt h S)) i now"
  let ?f = "\<lambda>s. recheckQueries (k_pb K) W now now' (fs_view s) (W (map fst (fs_queries s)))
     (s\<lparr>fs_view := ?c, fs_sequence := si_sequence i\<rparr>)"
  have "S' = S \<or> current h S \<and> bindS (save C K E ?c) (\<lambda>_. putS (putStream h ?f)) S = (x, S')"
    using b by (cases "validateSessionInventory (k_pb K) Z (Some i)")
      (auto simp: updateSessions_def bindS_def handler_steps Let_def split: if_splits)
  then show ?thesis
    using g saved_view_good [OF g current_node, of h ?c ?f E x S'] by (auto simp: viewAt_def)
qed

section \<open>Losing a node's commands\<close>

lemma LoseNodeCommands_none:
  assumes "coordinatorGood K db" and "LoseNodeCommands E K node now db = (Inr u, db')"
    and "recordAt K db' i = Some r" and "rec_command r = Some c" and "c_target c = node"
  shows "\<not> activeRecord r"
proof -
  have l: "LoseNodeCommands E K node now db = (Inr (), db')" using assms(2) by simp
  note eq = node_loss_exact [OF assms(1) l]
  obtain r0 where r0: "recordAt K db i = Some r0"
    "r = (if getter c_target (rec_command r0) = node
      then interruptedBy (k_pb K) NODE_UNAVAILABLE ''node_disconnected'' now r0 else r0)"
    using assms(3) unfolding eq by auto
  have "rec_command r0 = rec_command r" unfolding r0(2) by (simp add: interruptedBy_def)
  then have "getter c_target (rec_command r0) = node" using assms(4,5) by simp
  then have "r = interruptedBy (k_pb K) NODE_UNAVAILABLE ''node_disconnected'' now r0" by (subst r0(2)) (rule if_P)
  then show ?thesis by (simp add: activeRecord_def interruptedBy_status)
qed

lemma lose_effect:
  assumes g: "coordinatorGood K (ms_db S)" and l: "loseCommands C K E node now S = (x, S')"
  shows "quiet K S S' \<and> (case x of Inl e \<Rightarrow> ms_failure S' \<noteq> None
    | Inr u \<Rightarrow> ms_failure S' = ms_failure S \<and> (sc_stored C \<longrightarrow>
        (\<forall>i r c. recordAt K (ms_db S') i = Some r \<longrightarrow> rec_command r = Some c \<longrightarrow> c_target c = node \<longrightarrow> \<not> activeRecord r)))"
proof -
  have q: "quiet K S S'" using upholdsD [OF quiet_lose l] .
  show ?thesis
  proof (cases "sc_stored C")
    case False
    then show ?thesis using l q by (auto simp: loseCommands_def okS_def)
  next
    case True
    obtain y d where y: "persistCoordinator E (\<lambda>e. LoseNodeCommands e K node now) (ms_db S) = (y, d)"
      by (cases "persistCoordinator E (\<lambda>e. LoseNodeCommands e K node now) (ms_db S)")
    have p: "persistS E (\<lambda>e. LoseNodeCommands e K node now) S = (x, S')" using l True by (simp add: loseCommands_def)
    show ?thesis
    proof (cases y)
      case (Inl e)
      then show ?thesis using p y q
        by (auto simp: persistS_def storeS_def bindS_def failLocked_def split: option.splits)
    next
      case (Inr u)
      then have S': "x = Inr u" "S' = S\<lparr>ms_db := d\<rparr>"
        using p y by (simp_all add: persistS_def storeS_def bindS_def okS_def)
      have "\<exists>e db0. coordinatorGood K db0 \<and> LoseNodeCommands e K node now db0 = (Inr u, d)"
      proof -
        obtain z d0 where z: "LoseNodeCommands (E 0) K node now (ms_db S) = (z, d0)"
          by (cases "LoseNodeCommands (E 0) K node now (ms_db S)")
        have "coordinatorGood K d0" by (rule commands.step_inv [OF g coord_lose [OF z]])
        then show ?thesis using y z g Inr by (auto simp: persistCoordinator_def split: sum.splits if_splits)
      qed
      then have "\<not> activeRecord r" if "recordAt K d i = Some r" "rec_command r = Some c" "c_target c = node" for i r c
        using LoseNodeCommands_none that by blast
      then show ?thesis using S' q by auto
    qed
  qed
qed

section \<open>Begin and end\<close>

lemma installStream_simps:
  assumes "installStream node v S = (x, S')"
  shows "\<exists>h. x = Inr h \<and> h = length (ms_streams S) \<and> ms_nodes S' = tput node h (ms_nodes S) \<and>
    length (ms_streams S') = Suc h \<and> viewAt h S' = v \<and> ms_db S' = ms_db S \<and> ms_failure S' = ms_failure S \<and>
    (\<forall>g < h. viewAt g S' = viewAt g S)"
proof -
  define T where "T = (case tget (ms_nodes S) node of None \<Rightarrow> S
     | Some h \<Rightarrow> if nv_connected (viewAt h S) then supersede h S else S)"
  have S': "x = Inr (length (ms_streams T))"
    "S' = T\<lparr>ms_streams := ms_streams T @ [newStream v], ms_nodes := tput node (length (ms_streams T)) (ms_nodes T)\<rparr>"
    using assms by (simp_all add: installStream_def T_def Let_def)
  have sup: "viewAt g (supersede h S) = viewAt g S" for g h
    by (cases "h < length (ms_streams S)")
      (auto simp: viewAt_def streamAt_def supersede_def putStream_def nth_list_update list_update_beyond)
  have T: "ms_nodes T = ms_nodes S" "ms_db T = ms_db S" "ms_failure T = ms_failure S"
    "length (ms_streams T) = length (ms_streams S)" "viewAt g T = viewAt g S" for g
    by (auto simp: T_def supersede_def sup [unfolded supersede_def] split: option.splits)
  have "viewAt (length (ms_streams S)) S' = v"
    using S' T by (simp add: viewAt_def streamAt_def nth_append newStream_def)
  moreover have "viewAt g S' = viewAt g S" if "g < length (ms_streams S)" for g
    using S' T(4) T(5) [of g] that by (simp add: viewAt_def streamAt_def nth_append)
  ultimately show ?thesis using S' T by simp
qed

text \<open>What \<open>beginLocked\<close> has done when it has succeeded, and that it always leaves a good state.\<close>

lemma beginLocked_effect:
  assumes g: "serverGood C K S" and b: "beginLocked C K E node stableID enabled now S = (x, S')"
  shows "serverGood C K S' \<and> (\<forall>h. x = Inr h \<longrightarrow> ms_failure S' = None \<and> tget (ms_nodes S') node = Some h \<and>
    h < length (ms_streams S') \<and> nv_connected (viewAt h S') \<and>
    (sc_stored C \<longrightarrow> nodeAt K (ms_db S') =
       (\<lambda>i. if i \<in> set (expiredNodes (k_pb K) now S) then None else nodeAt K (ms_db S) i)
         (node \<mapsto> emptyView node stableID enabled (new_ts (k_pb K) now))))"
proof -
  let ?v = "emptyView node stableID enabled (new_ts (k_pb K) now)"
  have iv: "nv_instance ?v = node" "nv_connected ?v" by (simp_all add: emptyView_def)
  obtain y T where y: "prune C K E now S = (y, T)" by (cases "prune C K E now S")
  note p = prune_effect [OF g y]
  have gT: "serverGood C K T" using p by blast
  note dT = serverGoodD [OF gT]
  consider (stop) e where "x = Inl e" "S' = T"
    | (go) z U where "y = Inr ()" "tget (ms_nodes T) node = None \<longrightarrow> length (ms_nodes T) < maxFleetNodes"
        "save C K (later 2 E) ?v T = (z, U)"
        "(x, S') = (case z of Inl e \<Rightarrow> (Inl e, U)
           | Inr u \<Rightarrow> bindS (loseCommands C K (later 4 E) node now) (\<lambda>_. installStream node ?v) U)"
    using b y unfolding beginLocked_def Let_def
    by (cases y) (auto simp: bindS_def handler_steps not_le split: if_splits prod.splits sum.splits)
  then show ?thesis
  proof cases
    case stop
    then show ?thesis using gT by simp
  next
    case go
    note se = save_effect [OF dT(1) go(3)]
    have so: "storeOnly K T U" using se by blast
    show ?thesis
    proof (cases z)
      case (Inl e)
      then show ?thesis using go(4) se gT storeOnly_failed [OF so gT] by auto
    next
      case (Inr u)
      have gU: "coordinatorGood K (ms_db U)" using so by (simp add: storeOnly_def)
      obtain w V where w: "loseCommands C K (later 4 E) node now U = (w, V)"
        by (cases "loseCommands C K (later 4 E) node now U")
      note le = lose_effect [OF gU w]
      have q: "quiet K U V" using le by blast
      have V: "ms_nodes V = ms_nodes T" "length (ms_streams V) = length (ms_streams T)"
        using q so quiet_length [OF q] by (simp_all add: quiet_def storeOnly_def)
      have vV: "viewAt g V = viewAt g T" if "g < length (ms_streams T)" for g
        using quiet_view(1) [OF q] that so storeOnly_view [OF so] by (simp add: storeOnly_def)
      have st: "steady K (ms_db U) (ms_db V)" using q by (simp add: quiet_def)
      have gV: "coordinatorGood K (ms_db V)" by (rule steadyD(1) [OF st gU])
      have shV: "fleetShape V" using dT(2) vV by (auto simp: fleetShape_def V)
      show ?thesis
      proof (cases w)
        case (Inl e)
        then have "x = Inl e" "S' = V" using go(4) Inr w by (simp_all add: bindS_def \<open>z = Inr u\<close>)
        then show ?thesis using le Inl gV shV by (auto simp: serverGood_def)
      next
        case w': (Inr u')
        have i: "installStream node ?v V = (x, S')" using go(4) w \<open>z = Inr u\<close> w' by (simp add: bindS_def)
        obtain h where h: "x = Inr h" "h = length (ms_streams T)" "ms_nodes S' = tput node h (ms_nodes T)"
          "length (ms_streams S') = Suc h" "viewAt h S' = ?v" "ms_db S' = ms_db V" "ms_failure S' = ms_failure V"
          "\<And>g. g < h \<Longrightarrow> viewAt g S' = viewAt g T"
          using installStream_simps [OF i] V vV by auto
        have nt: "tget (ms_nodes S') i = (if i = node then Some h else tget (ms_nodes T) i)" for i
          by (simp add: h(3) tget_tput)
        have old: "viewAt g S' = viewAt g T" if "tget (ms_nodes T) i = Some g" for i g
          using h(2,8) fleetShape_at [OF dT(2) that] by simp
        have shape: "fleetShape S'"
          unfolding fleetShape_def
        proof (intro conjI allI impI)
          have t: "table_ok (ms_nodes T)" using dT(2) by (simp add: fleetShape_def)
          then show "table_ok (ms_nodes S')" by (simp add: h(3) table_ok_tput)
          show "length (ms_nodes S') \<le> maxFleetNodes"
            using dT(2) go(2) by (auto simp: h(3) length_tput [OF t] fleetShape_def)
          fix i g assume "tget (ms_nodes S') i = Some g"
          then show "g < length (ms_streams S')" and "nv_instance (viewAt g S') = i"
            using fleetShape_at [OF dT(2), of i g] old [of i g] h(2,4,5) iv(1) by (auto simp: nt split: if_splits)
        qed
        have fail: "ms_failure S' = None" "ms_failure T = None" using le w' se Inr so h(7) by (simp_all add: quiet_def)
        have n: "nodeAt K (ms_db V) = (nodeAt K (ms_db T))(node \<mapsto> ?v)" if s: "sc_stored C"
          using steadyD(2) [OF st gU] se Inr s iv(1) by simp
        have "mirrored K S' \<and> attended K S'" if s: "sc_stored C"
        proof (rule conjI)
          have m: "mirrored K T" and a: "attended K T" using dT(3,4) s fail by simp_all
          note n = n [OF s]
          show "mirrored K S'"
            unfolding mirrored_def h(6) n nt
          proof (rule allI)
            fix i show "map_option lasting (((nodeAt K (ms_db T))(node \<mapsto> ?v)) i) =
                map_option (\<lambda>h. lasting (viewAt h S')) (if i = node then Some h else tget (ms_nodes T) i)"
              using m old [of i] h(5) unfolding mirrored_def by (cases "tget (ms_nodes T) i") auto
          qed
          show "attended K S'"
            unfolding attended_def h(6) nt
          proof (intro allI impI)
            fix i r c assume r: "recordAt K (ms_db V) i = Some r" "activeRecord r" "rec_command r = Some c"
            have ne: "c_target c \<noteq> node" using le w' s r by auto
            obtain r0 where "recordAt K (ms_db U) i = Some r0" "activeRecord r0" "rec_command r0 = Some c"
              using steady_active [OF st gU r(1,2)] r(3) by auto
            then have "\<exists>g. tget (ms_nodes T) (c_target c) = Some g \<and> nv_connected (viewAt g T)"
              using a so unfolding attended_def storeOnly_def by metis
            then show "\<exists>g. (if c_target c = node then Some h else tget (ms_nodes T) (c_target c)) = Some g \<and>
                nv_connected (viewAt g S')" using ne old by auto
          qed
        qed
        moreover have "sc_stored C \<longrightarrow> nodeAt K (ms_db S') = (\<lambda>i. if i \<in> set (expiredNodes (k_pb K) now S) then None
            else nodeAt K (ms_db S) i)(node \<mapsto> ?v)"
          using n p go(1) h(6) by simp
        ultimately show ?thesis using shape gV fail h nt iv by (simp add: serverGood_def)
      qed
    qed
  qed
qed

text \<open>Changing what a stream keeps beside its view changes nothing the invariant sees.\<close>

lemma kept_view_good:
  assumes g: "serverGood C K S" and f: "\<And>s. fs_view (f s) = fs_view s"
  shows "serverGood C K (putStream h f S)"
proof -
  have v: "viewAt k (putStream h f S) = viewAt k S" for k
  proof (cases "h < length (ms_streams S)")
    case True
    then show ?thesis by (simp add: viewAt_putStream f) (simp add: viewAt_def)
  next
    case False
    then show ?thesis by (simp add: putStream_def viewAt_def streamAt_def list_update_beyond)
  qed
  show ?thesis using g unfolding serverGood_def fleetShape_def mirrored_def attended_def v putStream_simps .
qed

lemma offlineView_same:
  "nv_instance (offlineView P now v) = nv_instance v" "nv_connected (offlineView P now v) = False"
  by (simp_all add: offlineView_def)

lemma putView_good:
  assumes g: "fleetShape S" "coordinatorGood K (ms_db V)" and cur: "tget (ms_nodes S) node = Some h"
    and V: "ms_nodes V = ms_nodes S" "\<And>i g. tget (ms_nodes S) i = Some g \<Longrightarrow> viewAt g V = viewAt g S"
      "length (ms_streams V) = length (ms_streams S)"
    and copy: "nv_instance copy = node"
    and m: "sc_stored C \<Longrightarrow> mirrored K S \<and> nodeAt K (ms_db V) = (nodeAt K (ms_db S))(node \<mapsto> copy)"
    and a: "\<And>i r c. sc_stored C \<Longrightarrow> recordAt K (ms_db V) i = Some r \<Longrightarrow> activeRecord r \<Longrightarrow> rec_command r = Some c \<Longrightarrow>
      \<exists>g. tget (ms_nodes S) (c_target c) = Some g \<and> g \<noteq> h \<and> nv_connected (viewAt g S)"
  shows "serverGood C K (setView h copy V)"
proof -
  have at: "k < length (ms_streams V)" "nv_instance (viewAt k S) = i" if "tget (ms_nodes S) i = Some k" for i k
    using fleetShape_at [OF g(1) that] V(3) by simp_all
  have h: "h < length (ms_streams V)" using at(1) [OF cur] .
  have v: "viewAt k (setView h copy V) = (if k = h then copy else viewAt k S)" if "tget (ms_nodes S) i = Some k" for i k
    using viewAt_putStream [OF h, of k] V(2) [OF that] by (simp add: setView_def)
  have only: "i = node" if "tget (ms_nodes S) i = Some h" for i using at(2) [OF that] at(2) [OF cur] by simp
  have n: "ms_nodes (setView h copy V) = ms_nodes S" "ms_db (setView h copy V) = ms_db V"
    "length (ms_streams (setView h copy V)) = length (ms_streams V)" by (simp_all add: setView_def V(1))
  have shape: "fleetShape (setView h copy V)"
    using g(1) at v copy only unfolding fleetShape_def n by auto
  have "mirrored K (setView h copy V)" if s: "sc_stored C"
    unfolding mirrored_def n
  proof (rule allI)
    fix i
    show "map_option lasting (nodeAt K (ms_db V) i) =
        map_option (\<lambda>k. lasting (viewAt k (setView h copy V))) (tget (ms_nodes S) i)"
    proof (cases "i = node")
      case True
      then show ?thesis using m [OF s] v cur by simp
    next
      case False
      then have "tget (ms_nodes S) i \<noteq> Some h" using only by blast
      then show ?thesis using m [OF s] False v unfolding mirrored_def by (cases "tget (ms_nodes S) i") auto
    qed
  qed
  moreover have "attended K (setView h copy V)" if s: "sc_stored C"
    unfolding attended_def n using a [OF s] v by (metis (full_types))
  ultimately show ?thesis using shape g(2) n by (simp add: serverGood_def)
qed

lemma endStream_good:
  assumes g: "serverGood C K S" and b: "endStream C K E h now now' S = (x, S')"
  shows "serverGood C K S'"
proof -
  define U where "U = putStream h (\<lambda>s. s\<lparr>fs_done := True, fs_queries := []\<rparr>) S"
  have gU: "serverGood C K U" unfolding U_def by (rule kept_view_good [OF g]) simp
  note d = serverGoodD [OF gU]
  let ?c = "offlineView (k_pb K) now (viewAt h U)"
  obtain y T where y: "save C K E ?c U = (y, T)" by (cases "save C K E ?c U")
  note se = save_effect [OF d(1) y]
  have so: "storeOnly K U T" using se by blast
  have gT: "coordinatorGood K (ms_db T)" using so by (simp add: storeOnly_def)
  obtain w V where w: "loseCommands C K (later 2 E) (nv_instance ?c) now' T = (w, V)"
    by (cases "loseCommands C K (later 2 E) (nv_instance ?c) now' T")
  note le = lose_effect [OF gT w]
  consider (gone) "S' = U" | (unsaved) e where "y = Inl e" "S' = T"
    | (unlost) e where "y = Inr ()" "w = Inl e" "S' = V"
    | (ended) "tget (ms_nodes U) (nv_instance (viewAt h U)) = Some h" "y = Inr ()" "w = Inr ()" "S' = setView h ?c V"
    using b y w unfolding endStream_def U_def [symmetric]
    by (auto simp: bindS_def handler_steps U_def [symmetric] Let_def split: if_splits prod.splits sum.splits)
  then show ?thesis
  proof cases
    case gone
    then show ?thesis using gU by simp
  next
    case unsaved
    then show ?thesis using se gU storeOnly_failed [OF so gU] by auto
  next
    case unlost
    have q: "quiet K T V" and f: "ms_failure V \<noteq> None" using le unlost(2) by auto
    have "serverGood C K V"
    proof -
      have "fleetShape T" using storeOnly_shape [OF so] d(2) .
      then have "fleetShape V"
        using quiet_length [OF q] quiet_view(1) [OF q] q by (auto simp: fleetShape_def quiet_def)
      moreover have "coordinatorGood K (ms_db V)" using steadyD(1) [OF _ gT] q by (auto simp: quiet_def)
      ultimately show ?thesis using f by (auto simp: serverGood_def)
    qed
    then show ?thesis using unlost(3) by simp
  next
    case ended
    have q: "quiet K T V" using le by blast
    have st: "steady K (ms_db T) (ms_db V)" using q by (simp add: quiet_def)
    have fail: "ms_failure U = None" using se ended(2) by simp
    have TU: "ms_nodes T = ms_nodes U" "ms_streams T = ms_streams U" "recordAt K (ms_db T) = recordAt K (ms_db U)"
      using so by (simp_all add: storeOnly_def)
    show ?thesis
      unfolding ended(4)
    proof (rule putView_good [OF d(2) steadyD(1) [OF st gT] ended(1)])
      show "ms_nodes V = ms_nodes U" using q TU by (simp add: quiet_def)
      show "length (ms_streams V) = length (ms_streams U)" using quiet_length [OF q] TU by simp
      show "viewAt k V = viewAt k U" if "tget (ms_nodes U) i = Some k" for i k
        using quiet_view(1) [OF q, of k] fleetShape_at [OF d(2) that] TU storeOnly_view [OF so] by simp
      show "nv_instance ?c = nv_instance (viewAt h U)" by (rule offlineView_same)
      show "mirrored K U \<and> nodeAt K (ms_db V) = (nodeAt K (ms_db U))(nv_instance (viewAt h U) \<mapsto> ?c)" if s: "sc_stored C"
        using d(3) [OF s fail] se ended(2) s steadyD(2) [OF st gT] offlineView_same(1) by simp
      fix i r c assume s: "sc_stored C" and r: "recordAt K (ms_db V) i = Some r" "activeRecord r" "rec_command r = Some c"
      have ne: "c_target c \<noteq> nv_instance ?c" using le ended(3) s r by auto
      obtain r0 where "recordAt K (ms_db T) i = Some r0" "activeRecord r0" "rec_command r0 = Some c"
        using steady_active [OF st gT r(1,2)] r(3) by auto
      then obtain g where g: "tget (ms_nodes U) (c_target c) = Some g" "nv_connected (viewAt g U)"
        using d(4) [OF s fail] TU(3) unfolding attended_def by metis
      then have "g \<noteq> h" using fleetShape_at [OF d(2) g(1)] ne by (auto simp: offlineView_same)
      then show "\<exists>g. tget (ms_nodes U) (c_target c) = Some g \<and> g \<noteq> h \<and> nv_connected (viewAt g U)" using g by blast
    qed
  qed
qed

end
