(* ===== verification/FleetRuns.thy ===== *)
theory FleetRuns
  imports FleetSteps
begin

text \<open>
  The admission of a command, every step of the coordinator, its start from a stored fleet, and what
  holds of all its runs.
\<close>

section \<open>Handlers that only read\<close>

definition sameState :: "'b server \<Rightarrow> 'b server \<Rightarrow> bool" where
  "sameState S S' = (ms_streams S' = ms_streams S \<and> ms_nodes S' = ms_nodes S \<and> ms_db S' = ms_db S)"

interpretation same: lawful sameState
  by unfold_locales (simp_all add: sameState_def)

lemma same_store: "(\<And>db x db'. f db = (x, db') \<Longrightarrow> db' = db) \<Longrightarrow> upholds sameState (storeS f)"
  by (fastforce simp: upholds_def storeS_def sameState_def split: prod.splits)

lemma same_fail: "upholds sameState (failLocked e)"
  by (auto simp: upholds_def failLocked_def sameState_def)

lemma same_command_error: "upholds sameState (commandErrorLocked e)"
  unfolding commandErrorLocked_def by (intro upholds_if same.pure same_fail)

lemma same_project_error: "upholds sameState (projectErrorLocked e)"
  unfolding projectErrorLocked_def by (intro upholds_if same.pure same_command_error)

lemma same_project_call: "(\<And>db x db'. f db = (x, db') \<Longrightarrow> db' = db) \<Longrightarrow> upholds sameState (projectCall f)"
  unfolding projectCall_def by (intro same.bind same_store upholds_sum same_project_error same.pure)

lemma same_projectView: "upholds sameState (projectViewLocked r)"
  by (auto simp: upholds_def projectViewLocked_def sameState_def split: option.splits)

lemma same_managed: "upholds sameState (managedProjectReadyLocked K E h project revision)"
  unfolding managedProjectReadyLocked_def
  by (intro same.bind same.pure same_project_call same_projectView) (erule GetProject_read)

lemma same_bindProject: "upholds sameState (bindProject K policy E T a h r)"
  unfolding bindProject_def
  by (intro same.bind same.pure upholds_cases same_managed)

lemma quiet_bindProject: "upholds (quiet K) (bindProject K policy E T a h r)"
  unfolding bindProject_def by (intro quiet_steps quiet_managed)

section \<open>Admission\<close>

lemma bindS_healthy: "bindS healthy f S = (if ms_failure S = None then f () S else (Inl storageUnavailable, S))"
  by (simp add: healthy_def bindS_def handler_steps)

lemma bindS_refused: "bindS (commandErrorLocked e) f S = commandErrorLocked e S"
  by (simp add: commandErrorLocked_def failLocked_def errS_def bindS_def)

lemma commandError_Inl: "commandErrorLocked e S = (x, S') \<Longrightarrow> \<exists>e'. x = Inl e'"
  by (auto simp: commandErrorLocked_def failLocked_def errS_def split: if_splits)

lemma commandCall_Inr: "commandCall f S = (Inr x, S') \<longleftrightarrow> (\<exists>db. f (ms_db S) = (Inr x, db) \<and> S' = S\<lparr>ms_db := db\<rparr>)"
  by (auto simp: commandCall_def bindS_def storeS_def okS_def split: prod.splits sum.splits dest: commandError_Inl)

lemma commandCall_store:
  "f (ms_db S) = (y, db) \<Longrightarrow> bindS (commandCall f) k S = (case y of
     Inl e \<Rightarrow> bindS (commandErrorLocked e) k (S\<lparr>ms_db := db\<rparr>) | Inr v \<Rightarrow> k v (S\<lparr>ms_db := db\<rparr>))"
  by (cases y) (simp_all add: commandCall_def bindS_def storeS_def okS_def)

lemma boundRequest_same [simp]:
  "sr_node (boundRequest v r) = sr_node r" "sr_type (boundRequest v r) = sr_type r"
  "sr_key (boundRequest v r) = sr_key r" "sr_ttl (boundRequest v r) = sr_ttl r"
  by (simp_all add: boundRequest_def)

lemma pinSession_same:
  "pinSession s r = Inr r' \<Longrightarrow> sr_node r' = sr_node r \<and> sr_type r' = sr_type r \<and> sr_key r' = sr_key r \<and> sr_ttl r' = sr_ttl r"
  by (auto simp: pinSession_def pinnedRequest_def Let_def split: prod.splits if_splits option.splits)

lemma buildCommand_same:
  "buildCommand P cid a now original r = Inr c \<Longrightarrow> c_id c = cid \<and> c_key c = sr_key r \<and> c_type c = sr_type r \<and>
     c_target c = sr_node r \<and> actorOf c = a \<and> c_submitted c = original \<and>
     c_expires c = Some (new_ts P (now + asDurationOf P (sr_ttl r)))"
  by (auto simp: buildCommand_def bindR_eq_Inr actorOf_def Let_def split: option.splits)

lemma bindProject_request:
  assumes "bindProject K policy E T a h r S = (Inr (bound, original), S')"
  shows "sr_node bound = sr_node r \<and> sr_type bound = sr_type r \<and> sr_key bound = sr_key r \<and> sr_ttl bound = sr_ttl r"
  using assms by (auto simp: bindProject_def bindS_eq_Inr handler_steps Let_def split: if_splits prod.splits sum.splits)

text \<open>How \<open>submitFresh\<close> ends: refused before the store is asked to admit, or with what the store says.\<close>

lemma submitFresh_cases:
  assumes "submitFresh C K policy E T a cid h r S = (x, S')"
  obtains (refused) e where "x = Inl e" "quiet K S S'"
  | (asked) U c y db where "quiet K S U" "sameState S U"
      "admissionReady C (k_pb K) (T 0) r (streamAt h S) = Inr ()" "length (fs_outbound (streamAt h S)) < 16"
      "c_id c = cid" "c_key c = sr_key r" "c_type c = sr_type r" "c_target c = sr_node r" "actorOf c = a"
      "ValidateCommand (k_pb K) (Some c) (c_target c) = Inr ()"
      "CreateCommand (E 2) K (Some c) (T 3) (ms_db U) = (y, db)"
      "(x, S') = (case y of Inl e \<Rightarrow> commandErrorLocked e (U\<lparr>ms_db := db\<rparr>)
         | Inr (record, created) \<Rightarrow>
             (if created then bindS (enqueueCommand h record) (\<lambda>_. okS record) else okS record) (U\<lparr>ms_db := db\<rparr>))"
      "c_expires c = Some (new_ts (k_pb K) (T 3 + asDurationOf (k_pb K) (sr_ttl r)))"
proof -
  let ?s = "streamAt h S"
  obtain name inc where ni: "requestSession r = (name, inc)" by fastforce
  obtain p U where p: "bindProject K policy E T a h r S = (p, U)" by fastforce
  note q = upholdsD [OF quiet_bindProject p] upholdsD [OF same_bindProject p]
  show ?thesis
  proof (cases "admissionReady C (k_pb K) (T 0) r ?s")
    case (Inl e)
    then have "x = Inl e" "S' = S"
      using assms ni by (simp_all add: submitFresh_def bindS_def handler_steps Let_def)
    then show ?thesis using refused quiet_refl by blast
  next
    case adm: (Inr u)
    show ?thesis
    proof (cases p)
      case (Inl e)
      then have "x = Inl e" "S' = U"
        using assms ni adm p by (simp_all add: submitFresh_def bindS_def handler_steps Let_def)
      then show ?thesis using refused q(1) by blast
    next
      case (Inr bo)
      obtain bound original where bo: "bo = (bound, original)" by fastforce
      note same = bindProject_request [OF p [unfolded Inr bo]]
      let ?c = "\<lambda>resolved. invalidArgument (bindR (buildCommand (k_pb K) cid a (T 3) original resolved) (\<lambda>c.
         bindR (ValidateCommand (k_pb K) (Some c) (c_target c)) (\<lambda>_. Inr c)))"
      have run: "(x, S') =
         (if (sr_type r = AgentControlCommandType \<or> IsLifecycleCommand (sr_type r)) \<and>
            (\<not> agentConfigured C \<or> \<not> mutationReady (k_pb K) ?s (sr_type r) (T 2) name inc)
          then (Inl (notReady ''target node has no ready agent session''), U)
          else case pinSession ?s bound of Inl e \<Rightarrow> (Inl e, U)
          | Inr resolved \<Rightarrow>
              if 16 \<le> length (fs_outbound ?s) then (Inl (rpcError ResourceExhausted ''node command queue is full''), U)
              else case ?c resolved of Inl e \<Rightarrow> (Inl e, U)
              | Inr c \<Rightarrow> bindS (commandCall (CreateCommand (E 2) K (Some c) (T 3))) (\<lambda>(record, created).
                  if created then bindS (enqueueCommand h record) (\<lambda>_. okS record) else okS record) U)"
        using assms ni adm
        by (simp only: submitFresh_def Let_def bindS_steps bindS_read bindS_lift prod.case sum.case
            bindS_run [where m = "bindProject K policy E T a h r", OF p [unfolded Inr bo]])
      show ?thesis
      proof (cases "\<exists>e. x = Inl e \<and> S' = U")
        case True
        then show ?thesis using refused q(1) by blast
      next
        case False
        then obtain resolved c where r: "pinSession ?s bound = Inr resolved" "length (fs_outbound ?s) < 16"
          "?c resolved = Inr c"
          "(x, S') = bindS (commandCall (CreateCommand (E 2) K (Some c) (T 3))) (\<lambda>(record, created).
              if created then bindS (enqueueCommand h record) (\<lambda>_. okS record) else okS record) U"
          using run by (auto simp: not_le split: if_splits sum.splits)
        have b: "buildCommand (k_pb K) cid a (T 3) original resolved = Inr c"
          "ValidateCommand (k_pb K) (Some c) (c_target c) = Inr ()"
          using r(3) by (auto simp: invalidArgument_def bindR_eq_Inr split: sum.splits)
        obtain y db where y: "CreateCommand (E 2) K (Some c) (T 3) (ms_db U) = (y, db)" by fastforce
        have "(x, S') = (case y of Inl e \<Rightarrow> commandErrorLocked e (U\<lparr>ms_db := db\<rparr>)
         | Inr (record, created) \<Rightarrow>
             (if created then bindS (enqueueCommand h record) (\<lambda>_. okS record) else okS record) (U\<lparr>ms_db := db\<rparr>))"
        proof (cases y)
          case (Inl e)
          then show ?thesis using r(4) y bindS_refused by (simp add: commandCall_store)
        next
          case (Inr z)
          then show ?thesis using r(4) y by (simp add: commandCall_store bindS_steps split: prod.splits)
        qed
        then show ?thesis
          using asked [OF q _ r(2) _ _ _ _ _ b(2) y] adm same pinSession_same [OF r(1)] buildCommand_same [OF b(1)] by simp
      qed
    qed
  qed
qed


lemma FindCommand_found:
  assumes "FindCommand E K a key db = (Inr r, db')" and g: "coordinatorGood K db"
  shows "\<exists>i c. recordAt K db i = Some r \<and> rec_command r = Some c \<and> actorOf c = a \<and> c_key c = key"
proof -
  have "readCommand K db (byKey a key) = Inr r"
    using operation_Inr(2) [OF assms(1) [unfolded FindCommand_def findCommand_def]] by (auto simp: bindR_eq_Inr)
  from readCommand_byKey [OF coordinatorGoodD(4) [OF g] this] show ?thesis by metis
qed

text \<open>The ends of a submission: refused, answered by the recorded command, or on to \<open>submitFresh\<close>.\<close>

lemma SubmitCommand_cases:
  assumes "SubmitCommand C K policy E T who cid request S = (x, S')"
  obtains (refused) e where "x = Inl e" "quiet K S S'"
  | (again) p r existing c where "x = Inr existing" "S' = S" "operatorOf C who = Inr p"
      "NormalizeCommandRequest (k_pb K) request = Inr r"
      "FindCommand (E 0) K (pe_stable p) (sr_key r) (ms_db S) = (Inr existing, ms_db S)"
      "rec_command existing = Some c" "sameSubmission c r"
  | (fresh) p r h where "operatorOf C who = Inr p" "NormalizeCommandRequest (k_pb K) request = Inr r"
      "ms_failure S = None" "tget (ms_nodes S) (sr_node r) = Some h" "current h S" "nv_connected (viewAt h S)"
      "submitFresh C K policy E T (pe_stable p) cid h r S = (x, S')"
proof -
  have refusal: thesis if "x = Inl e" "S' = S" for e using refused that quiet_refl by metis
  consider (no) "S' = S" "is_ok x \<Longrightarrow> False" | (go) p r where "operatorOf C who = Inr p"
      "NormalizeCommandRequest (k_pb K) request = Inr r" "ms_failure S = None"
      "bindS (storeS (FindCommand (E 0) K (pe_stable p) (sr_key r))) (\<lambda>found. case found of
         Inr existing \<Rightarrow>
           if opt_ex (\<lambda>c. sameSubmission c r) (rec_command existing) then okS existing
           else errS (rpcError AlreadyExists ''idempotency key was used for a different request'')
       | Inl e \<Rightarrow>
           if \<not> errors_is e ErrCommandNotFound then commandErrorLocked e
           else bindS (readS (\<lambda>S. (tget (ms_nodes S) (sr_node r), S))) (\<lambda>(entry, S). case entry of
               None \<Rightarrow> errS (notReady ''target node has no ready probe session'')
             | Some h \<Rightarrow>
                 if \<not> current h S \<or> \<not> nv_connected (viewAt h S)
                 then errS (notReady ''target node has no ready probe session'')
                 else submitFresh C K policy E T (pe_stable p) cid h r)) S = (x, S')"
    using assms unfolding SubmitCommand_def bindS_lift
    by (cases "operatorOf C who"; cases "NormalizeCommandRequest (k_pb K) request")
      (auto simp: bindS_lift bindS_steps(5) bindS_healthy invalidArgument_def simp del: not_not split: if_splits)
  then show ?thesis
  proof cases
    case no
    then show ?thesis using refused quiet_refl by (cases x) auto
  next
    case go
    obtain y db where y: "FindCommand (E 0) K (pe_stable p) (sr_key r) (ms_db S) = (y, db)" by fastforce
    have db: "db = ms_db S" using FindCommand_read [OF y] .
    have st: "storeS (FindCommand (E 0) K (pe_stable p) (sr_key r)) S = (Inr y, S)" using y db by (simp add: storeS_def)
    note run = bindS_run [where m = "storeS (FindCommand (E 0) K (pe_stable p) (sr_key r))", OF st]
    show ?thesis
    proof (cases y)
      case (Inr existing)
      then show ?thesis
        using go st y db refusal again
        by (auto simp: run handler_steps opt_ex_def split: if_splits option.splits)
    next
      case (Inl e)
      show ?thesis
      proof (cases "errors_is e ErrCommandNotFound")
        case True
        then show ?thesis using go Inl refusal fresh
          by (auto simp: run bindS_read handler_steps split: if_splits option.splits)
      next
        case False
        then have "commandErrorLocked e S = (x, S')" using go(4) Inl by (simp add: run)
        from commandError_Inl [OF this] upholdsD [OF quiet_command_error this] show ?thesis using refused by blast
      qed
    qed
  qed
qed

section \<open>Every step keeps the invariant\<close>

lemma CreateCommand_effect:
  assumes g: "coordinatorGood K db" and c: "CreateCommand E K (Some c) now db = (x, db')"
  shows "coordinatorGood K db' \<and> nodeAt K db' = nodeAt K db \<and>
    (recordAt K db' = recordAt K db \<or>
     (\<exists>r. recordAt K db' = (recordAt K db)(c_id c \<mapsto> r) \<and> rec_command r = Some c))"
proof -
  have g': "coordinatorGood K db'" by (rule commands.step_inv [OF g coord_create [OF c]])
  consider "db' = db" | r n where "createBody K c (new_ts (k_pb K) now) db = Inr ((r, n), db')"
    using CreateCommand_cases(1) [OF c] by auto
  then show ?thesis
  proof cases
    case 2
    have "nodeAt K db' = nodeAt K db" by (rule onlyCommands_nodeAt [OF createBody_only [OF 2]])
    then show ?thesis
      using g' createBody_cases [OF coordinatorGoodD(4,1) [OF g] 2] by (cases n) (auto simp: newRecord_def)
  qed (use g in simp)
qed

text \<open>A store that admitted at most commands for nodes that are there keeps the invariant.\<close>

lemma stored_admission_good:
  assumes g: "serverGood C K S" and cur: "tget (ms_nodes S) (c_target c) = Some h" "nv_connected (viewAt h S)"
    and a: "CreateCommand E K (Some c) now (ms_db S) = (y, db)"
  shows "serverGood C K (S\<lparr>ms_db := db\<rparr>)"
proof -
  note d = serverGoodD [OF g]
  note e = CreateCommand_effect [OF d(1) a]
  have v: "viewAt k (S\<lparr>ms_db := db\<rparr>) = viewAt k S" for k by (simp add: viewAt_def streamAt_def)
  have "attended K (S\<lparr>ms_db := db\<rparr>)" if t: "attended K S"
    unfolding attended_def v
  proof (intro allI impI)
    fix i r k assume r: "recordAt K (ms_db (S\<lparr>ms_db := db\<rparr>)) i = Some r" "activeRecord r" "rec_command r = Some k"
    then have "recordAt K (ms_db S) i = Some r \<or> k = c"
      using e by (auto split: if_splits)
    then show "\<exists>h. tget (ms_nodes (S\<lparr>ms_db := db\<rparr>)) (c_target k) = Some h \<and> nv_connected (viewAt h S)"
      using t r(2,3) cur unfolding attended_def by auto
  qed
  then show ?thesis using d e by (simp add: serverGood_def fleetShape_def mirrored_def v)
qed

lemma fail_good: "serverGood C K S \<Longrightarrow> serverGood C K (S\<lparr>ms_failure := Some e\<rparr>)"
  by (simp add: serverGood_def fleetShape_def viewAt_def streamAt_def)

lemma enqueue_good:
  assumes "serverGood C K S" and "enqueueCommand h record S = (x, S')"
  shows "serverGood C K S'"
  using assms fail_good [OF assms(1)] kept_view_good [OF assms(1)]
  by (auto simp: enqueueCommand_def bindS_read failLocked_def handler_steps split: if_splits option.splits)

lemma submit_good:
  assumes g: "serverGood C K S" and b: "SubmitCommand C K policy E T who cid request S = (x, S')"
  shows "serverGood C K S'"
  using b
proof (cases rule: SubmitCommand_cases)
  case (fresh p r h)
  from fresh(7) show ?thesis
  proof (cases rule: submitFresh_cases)
    case (asked U c y db)
    have gU: "serverGood C K U" by (rule quiet_good [OF asked(1) g])
    have h: "h < length (ms_streams S)" using fleetShape_at [OF serverGoodD(2) [OF g] fresh(4)] by blast
    have "tget (ms_nodes U) (c_target c) = Some h" "nv_connected (viewAt h U)"
      using fresh(4,6) quiet_view(1) [OF asked(1) h] asked(1,8) by (simp_all add: quiet_def)
    from stored_admission_good [OF gU this asked(11)] have gV: "serverGood C K (U\<lparr>ms_db := db\<rparr>)" .
    show ?thesis
    proof (cases y)
      case (Inl e)
      then have "commandErrorLocked e (U\<lparr>ms_db := db\<rparr>) = (x, S')" using asked(12) by simp
      then show ?thesis using quiet_good [OF upholdsD [OF quiet_command_error] gV] by blast
    next
      case (Inr z)
      obtain rc created where z: "z = (rc, created)" by fastforce
      then show ?thesis
        using asked(12) Inr gV enqueue_good [OF gV] by (auto simp: bindS_def okS_def split: if_splits prod.splits sum.splits)
    qed
  qed (rule quiet_good [OF _ g])
qed (use g quiet_good in auto)

lemma listFleet_good:
  assumes "serverGood C K S" and "listFleet C K E now S = (x, S')"
  shows "serverGood C K S'"
proof -
  obtain y T where y: "prune C K E now S = (y, T)" by fastforce
  then have "S' = T" using assms(2) by (auto simp: listFleet_def bindS_def readS_def split: sum.splits)
  then show ?thesis using prune_effect [OF assms(1) y] by simp
qed

lemma opened_good:
  assumes g: "serverGood C K S" and b: "finishOpening C K policy E h gr S = (x, S')"
  shows "serverGood C K S'"
proof -
  obtain y T where y: "setLogicalName C K E h (he_hostname gr) S = (y, T)" by fastforce
  have v: "fs_view (negotiated C policy offered s) = fs_view s" for offered s by (simp add: negotiated_def Let_def)
  have "S' = T \<or> S' = putStream h (negotiated C policy (he_capabilities gr)) T"
    using b y by (auto simp: finishOpening_def bindS_def handler_steps split: sum.splits)
  then show ?thesis using setLogicalName_good [OF g y] kept_view_good v by metis
qed

lemma after_good:
  assumes "bindS m (\<lambda>u. okS (f u)) S = (x, S')" and "\<And>y. m S = (y, S') \<Longrightarrow> P"
  shows P
  using assms by (auto simp: bindS_def okS_def split: prod.splits sum.splits)

lemma receive_good:
  assumes g: "serverGood C K S" and b: "receiveEnvelope C K Z W E T en h body S = (x, S')"
  shows "serverGood C K S'"
proof (cases body)
  case (HeartbeatBody m)
  then have "S' = S \<or> (\<exists>y. heartbeat C K E h (T 0) (hb_ready m) (putStream h (\<lambda>s. s\<lparr>fs_heartbeat := hb_sequence m\<rparr>) S) = (y, S'))"
    using b by (auto simp: receiveEnvelope_def bindS_def handler_steps split: if_splits sum.splits prod.splits)
  then show ?thesis
    using g heartbeat_good [OF kept_view_good [OF g]] by (metis (no_types, lifting) stream.select_convs(1) stream.surjective stream.update_convs(12))
next
  case (HerdrBody state)
  then show ?thesis using b g updateHerdr_good [OF g]
    by (auto simp: receiveEnvelope_def bindS_read errS_def elim: after_good split: if_splits)
next
  case (InventoryBody i)
  then show ?thesis using b g updateSessions_good [OF g]
    by (auto simp: receiveEnvelope_def bindS_read elim: after_good)
next
  case (AckBody a)
  then show ?thesis using b g by (auto simp: receiveEnvelope_def bindS_read handler_steps split: if_splits)
next
  case (ProgressBody p)
  then show ?thesis using b g quiet_good [OF upholdsD [OF quiet_progress] g]
    by (auto simp: receiveEnvelope_def bindS_read errS_def elim: after_good split: if_splits)
next
  case (ResultBody r)
  then show ?thesis using b g quiet_good [OF upholdsD [OF quiet_finish] g]
    by (auto simp: receiveEnvelope_def bindS_read errS_def elim: after_good split: if_splits)
next
  case (ProjectAckBody a)
  then show ?thesis using b quiet_good [OF upholdsD [OF quiet_ack] g]
    by (auto simp: receiveEnvelope_def bindS_read elim: after_good)
next
  case (LegacyBody l)
  then show ?thesis using b quiet_good [OF upholdsD [OF quiet_adopt] g]
    by (auto simp: receiveEnvelope_def bindS_read elim: after_good)
next
  case (QueryResultBody r)
  then show ?thesis using b quiet_good [OF upholdsD [OF quiet_finish_query] g]
    by (auto simp: receiveEnvelope_def bindS_read elim: after_good)
next
  case OtherBody
  then show ?thesis using b g by (simp add: receiveEnvelope_def bindS_read errS_def)
qed

lemmas quiet_handlers = quiet_get_command quiet_named quiet_register quiet_get_project quiet_expire
  quiet_accept quiet_updates quiet_prepare quiet_query quiet_cancel_query quiet_prepare_query

lemma kept_quiet_good:
  assumes "upholds (quiet K) m" and "m (putStream h f S) = (x, S')" and "\<And>s. fs_view (f s) = fs_view s"
    and "serverGood C K S"
  shows "serverGood C K S'"
  using quiet_good [OF upholdsD [OF assms(1,2)] kept_view_good [OF assms(4,3)]] .

lemma calm_good:
  assumes "upholds (quiet K) m" and "m S = (x, S')" and "serverGood C K S"
  shows "serverGood C K S'"
  using quiet_good [OF upholdsD [OF assms(1,2)] assms(3)] .

lemma serverStep_good:
  assumes "serverStep C K Z policy W S S'" and g: "serverGood C K S"
  shows "serverGood C K S'"
  using assms(1)
proof cases
  case submit
  then show ?thesis by (rule submit_good [OF g])
next
  case get_command
  then show ?thesis by (rule calm_good [OF quiet_get_command _ g])
next
  case named
  then show ?thesis by (rule calm_good [OF quiet_named _ g])
next
  case register
  then show ?thesis by (rule calm_good [OF quiet_register _ g])
next
  case get_project
  then show ?thesis by (rule calm_good [OF quiet_get_project _ g])
next
  case list
  then show ?thesis by (rule listFleet_good [OF g])
next
  case expire
  then show ?thesis by (rule calm_good [OF quiet_expire _ g])
next
  case accept
  then show ?thesis by (rule calm_good [OF quiet_accept _ g])
next
  case (retire i h)
  then show ?thesis using kept_view_good [OF g] unfolding supersede_def by simp
next
  case begin_stream
  then show ?thesis using beginLocked_effect [OF g] unfolding beginStream_def by blast
next
  case opened
  then show ?thesis by (intro opened_good [OF g])
next
  case receive
  then show ?thesis by (intro receive_good [OF g])
next
  case (wake E h cs)
  from kept_quiet_good [OF quiet_updates wake(1) _ g] show ?thesis by simp
next
  case (dispatch E T ok h c cs m)
  from kept_quiet_good [OF quiet_prepare dispatch(1) _ g] show ?thesis by simp
next
  case query
  then show ?thesis by (rule calm_good [OF quiet_query _ g])
next
  case cancel_query
  then show ?thesis by (intro calm_good [OF quiet_cancel_query _ g])
next
  case (send_query T h e es b')
  from kept_quiet_good [OF quiet_prepare_query send_query(1) _ g] show ?thesis by simp
next
  case end_stream
  then show ?thesis by (intro endStream_good [OF g])
qed

lemma serverRun_good:
  assumes "(serverStep C K Z policy W)\<^sup>*\<^sup>* S S'" and "serverGood C K S"
  shows "serverGood C K S'"
  using assms by induction (auto intro: serverStep_good)

end
