(* ===== verification/Restart.thy ===== *)
theory Restart
  imports FleetRuns
begin

text \<open>
  From a stored fleet to a running coordinator: what \<open>restore\<close> builds, that a start leaves a good state
  and the fleet as it was, and when it must refuse.
\<close>

section \<open>What the restored fleet holds\<close>

definition fleetViews :: "'b server \<Rightarrow> string \<Rightarrow> node_view option" where
  "fleetViews S i = map_option (\<lambda>h. lasting (viewAt h S)) (tget (ms_nodes S) i)"

lemma mirrored_iff: "mirrored K S \<longleftrightarrow> (\<forall>i. map_option lasting (nodeAt K (ms_db S) i) = fleetViews S i)"
  by (simp add: mirrored_def fleetViews_def)

lemma lasting_offline [simp]: "lasting (offlineView P now v) = lasting v"
  by (simp add: lasting_def offlineView_def projectSessionFreshness_def)

lemma lasting_instance [simp]: "nv_instance (lasting v) = nv_instance v"
  by (simp add: lasting_def)

text \<open>One view more.\<close>

definition added :: "pb \<Rightarrow> int \<Rightarrow> node_view \<Rightarrow> 'b server \<Rightarrow> 'b server" where
  "added P now v S = S\<lparr>ms_streams := ms_streams S @ [newStream (offlineView P now v)],
     ms_nodes := tput (nv_instance v) (length (ms_streams S)) (ms_nodes S)\<rparr>"

definition indexed :: "'b server \<Rightarrow> bool" where
  "indexed S = (table_ok (ms_nodes S) \<and>
     (\<forall>i h. tget (ms_nodes S) i = Some h \<longrightarrow> h < length (ms_streams S) \<and> nv_instance (viewAt h S) = i))"

lemma fleetShape_indexed: "fleetShape S \<longleftrightarrow> indexed S \<and> length (ms_nodes S) \<le> maxFleetNodes"
  by (auto simp: fleetShape_def indexed_def)

lemma added_view:
  "viewAt h (added P now v S) =
     (if h < length (ms_streams S) then viewAt h S
      else if h = length (ms_streams S) then offlineView P now v else viewAt h (added P now v S))"
  by (simp add: viewAt_def streamAt_def added_def nth_append newStream_def)

lemma added_facts:
  assumes i: "indexed S" and n: "tget (ms_nodes S) (nv_instance v) = None"
  shows "indexed (added P now v S)" "fleetViews (added P now v S) = (fleetViews S)(nv_instance v \<mapsto> lasting v)"
    "length (ms_nodes (added P now v S)) = Suc (length (ms_nodes S))"
    "ms_db (added P now v S) = ms_db S" "ms_failure (added P now v S) = ms_failure S"
proof -
  have t: "table_ok (ms_nodes S)" using i by (simp add: indexed_def)
  have at: "h < length (ms_streams S)" "nv_instance (viewAt h S) = j" if "tget (ms_nodes S) j = Some h" for j h
    using i that by (auto simp: indexed_def)
  have nodes: "tget (ms_nodes (added P now v S)) j =
      (if j = nv_instance v then Some (length (ms_streams S)) else tget (ms_nodes S) j)" for j
    by (simp add: added_def tget_tput)
  have view: "viewAt h (added P now v S) = viewAt h S" if "h < length (ms_streams S)" for h
    using added_view [of h P now v S] that by simp
  have last: "viewAt (length (ms_streams S)) (added P now v S) = offlineView P now v"
    using added_view [of "length (ms_streams S)" P now v S] by simp
  have len: "length (ms_streams (added P now v S)) = Suc (length (ms_streams S))" by (simp add: added_def)
  have tt: "table_ok (ms_nodes (added P now v S))" by (simp add: added_def table_ok_tput [OF t])
  show "indexed (added P now v S)"
    unfolding indexed_def nodes len
    using tt at view last by (auto simp: offlineView_same less_Suc_eq)
  show "fleetViews (added P now v S) = (fleetViews S)(nv_instance v \<mapsto> lasting v)"
  proof (rule ext)
    fix j show "fleetViews (added P now v S) j = ((fleetViews S)(nv_instance v \<mapsto> lasting v)) j"
      unfolding fleetViews_def nodes using at view last n by (cases "tget (ms_nodes S) j") auto
  qed
  show "length (ms_nodes (added P now v S)) = Suc (length (ms_nodes S))"
    using n by (simp add: added_def length_tput [OF t])
qed (simp_all add: added_def)

lemma restoreLoop_effect:
  assumes "restoreLoop P Z now vs stables bytes S = Inr S'" and "indexed S"
  shows "indexed S' \<and> fleetViews S' = fleetViews S ++ map_of (rev (map (\<lambda>v. (nv_instance v, lasting v)) vs)) \<and>
    length (ms_nodes S') = length (ms_nodes S) + length vs \<and> ms_db S' = ms_db S \<and> ms_failure S' = ms_failure S \<and>
    bytes + sum_list (map (nodeStateSize Z) vs) \<le> max bytes maxFleetBytes"
  using assms
proof (induction vs arbitrary: stables bytes S)
  case (Cons v vs)
  have r: "tget (ms_nodes S) (nv_instance v) = None" "bytes + nodeStateSize Z v \<le> maxFleetBytes"
    "restoreLoop P Z now vs (nv_stable v # stables) (bytes + nodeStateSize Z v) (added P now v S) = Inr S'"
    using Cons.prems(1) by (auto simp: bindR_eq_Inr added_def not_less split: if_splits)
  note f = added_facts [OF Cons.prems(2) r(1), where P = P and now = now]
  from Cons.IH [OF r(3) f(1)] show ?case using f r(2) by (simp add: map_add_def fun_eq_iff split: option.splits)
qed simp

section \<open>A start\<close>

lemma nodeAt_instance:
  assumes "coordinatorGood K db" and "nodeAt K db i = Some v"
  shows "nv_instance v = i"
proof -
  obtain q where "tget (cd_nodes db) i = Some q" "decodeNode K (cd_bindings db) (i, q) = Inr v"
    using assms(2) coordinatorGoodD(3) [OF assms(1)]
    by (fastforce simp: nodeAt_def fleet_ok_def split: option.splits)
  then show ?thesis by (auto simp: decodeNode_def bindR_eq_Inr split: option.splits if_splits)
qed

lemma map_of_rev_distinct:
  assumes "distinct (map fst kvs)"
  shows "map_of (rev kvs) = map_of kvs"
  by (rule map_of_eqI) (use assms map_of_eq_Some_iff [of kvs] map_of_eq_Some_iff [of "rev kvs"] in
    \<open>auto simp: rev_map [symmetric] simp del: map_of_eq_Some_iff\<close>)

lemma LoadFleet_views:
  assumes g: "coordinatorGood K db" and l: "LoadFleet E K db = (Inr vs, db')"
  shows "db' = db \<and> map_of (rev (map (\<lambda>v. (nv_instance v, lasting v)) vs)) = (\<lambda>i. map_option lasting (nodeAt K db i))"
proof -
  note ok = coordinatorGoodD(3) [OF g]
  have t: "table_ok (cd_nodes db)" using ok by (simp add: fleet_ok_def)
  have vs: "vs = map (\<lambda>ip. the (nodeAt K db (fst ip))) (cd_nodes db)"
    using operation_Inr(2) [OF l [unfolded LoadFleet_def]] readFleet_ok [OF ok] by (auto simp: bindR_eq_Inr)
  have at: "\<exists>v. nodeAt K db i = Some v \<and> nv_instance v = i" if "(i, q) \<in> set (cd_nodes db)" for i q
  proof -
    have "nodeAt K db i \<noteq> None" using that tget_mem [OF t] ok by (fastforce simp: fleet_ok_def nodeAt_def)
    then show ?thesis using nodeAt_instance [OF g] by blast
  qed
  have "map (\<lambda>v. (nv_instance v, lasting v)) vs = map (\<lambda>(i, q). (i, lasting (the (nodeAt K db i)))) (cd_nodes db)"
    using at by (fastforce simp: vs)
  moreover have "distinct (map fst (map (\<lambda>(i, q). (i, lasting (the (nodeAt K db i)))) (cd_nodes db)))"
    using t by (simp add: table_ok_def strict_sorted_iff case_prod_beta o_def)
  ultimately have m: "map_of (rev (map (\<lambda>v. (nv_instance v, lasting v)) vs)) =
      map_of (map (\<lambda>(i, q). (i, lasting (the (nodeAt K db i)))) (cd_nodes db))"
    by (metis map_of_rev_distinct)
  have "map_of (map (\<lambda>(i, q). (i, f i)) kvs) i = (if \<exists>q. (i, q) \<in> set kvs then Some (f i) else None)"
    for f :: "string \<Rightarrow> node_view" and kvs :: "(string \<times> 'a) list" and i by (induction kvs) auto
  note mo = this [of "\<lambda>i. lasting (the (nodeAt K db i))"]
  have "map_of (rev (map (\<lambda>v. (nv_instance v, lasting v)) vs)) i = map_option lasting (nodeAt K db i)" for i
  proof (cases "nodeAt K db i")
    case None
    then have "\<not> (\<exists>q. (i, q) \<in> set (cd_nodes db))" using at by fastforce
    then show ?thesis using None by (simp add: m mo)
  next
    case (Some v)
    then obtain q where "(i, q) \<in> set (cd_nodes db)"
      by (auto simp: nodeAt_def dest: tget_Some_mem split: option.splits)
    then show ?thesis using Some by (auto simp: m mo)
  qed
  then show ?thesis using LoadFleet_read [OF l] by auto
qed


text \<open>What pruning takes away: only views of nodes that have been offline for too long.\<close>

lemma prune_views:
  assumes "prune C K E now S = (x, S')"
  shows "fleetViews S' i = fleetViews S i \<or> fleetViews S' i = None \<and> i \<in> set (expiredNodes (k_pb K) now S)"
proof -
  let ?ids = "expiredNodes (k_pb K) now S"
  let ?d = "if sc_stored C then persistS E (\<lambda>e. DeleteNodes e ?ids) else okS ()"
  obtain y T where y: "?d S = (y, T)" by fastforce
  have f: "ms_nodes T = ms_nodes S" "ms_streams T = ms_streams S"
    using y by (auto simp: persistS_def storeS_def bindS_def failLocked_def okS_def split: if_splits prod.splits sum.splits)
  have T: "fleetViews T i = fleetViews S i" using f by (simp add: fleetViews_def viewAt_def streamAt_def)
  have W: "fleetViews (withoutNodes ?ids T) i = (if i \<in> set ?ids then None else fleetViews T i)"
    by (simp add: fleetViews_def viewAt_def streamAt_def withoutNodes_def tget_filter)
  have "S' = S \<or> bindS ?d (\<lambda>_. putS (withoutNodes ?ids)) S = (x, S')"
  proof (cases "ms_failure S = None \<and> ?ids \<noteq> []")
    case True
    then show ?thesis using assms by (simp add: prune_def bindS_healthy bindS_read withoutNodes_def [abs_def])
  next
    case False
    then show ?thesis using assms by (auto simp: prune_def bindS_healthy bindS_read okS_def split: if_splits)
  qed
  then have "S' = S \<or> S' = T \<or> S' = withoutNodes ?ids T"
    using y by (cases y) (auto simp: bindS_def putS_def simp del: set_filter)
  then show ?thesis using T W by (auto split: if_splits)
qed

lemma openCoordinatorState_effect:
  assumes g: "coordinatorGood K db" and b: "openCoordinatorState E K legacy now db = (x, db')"
  shows "steady K db db' \<and> (\<forall>vs. x = Inr vs \<longrightarrow> (\<forall>i r. recordAt K db' i = Some r \<longrightarrow> \<not> activeRecord r) \<and>
    map_of (rev (map (\<lambda>v. (nv_instance v, lasting v)) vs)) = (\<lambda>i. map_option lasting (nodeAt K db i)))"
proof -
  obtain y d1 where y: "ImportBindings (E 0) legacy db = (y, d1)" by fastforce
  obtain z d2 where z: "RecoverCommands (E 1) K now d1 = (z, d2)" by fastforce
  obtain w d3 where w: "LoadFleet (E 2) K d2 = (w, d3)" by fastforce
  note s = ImportBindings_steady [OF y] RecoverCommands_steady [OF z] LoadFleet_read [OF w]
  note g1 = steadyD(1,2) [OF s(1) g]
  note g2 = steadyD(1,2) [OF s(2) g1(1)]
  consider "db' = d1" "\<not> is_ok x" | "db' = d2" "\<not> is_ok x" | "y = Inr ()" "z = Inr ()" "db' = d3" "\<not> is_ok w" "\<not> is_ok x"
    | vs where "y = Inr ()" "z = Inr ()" "w = Inr vs" "x = Inr vs" "db' = d3"
    using b unfolding openCoordinatorState_def
    by (cases y; cases z; cases w) (auto simp: bindS_def wrapS_def y z w simp del: One_nat_def)
  then show ?thesis
  proof cases
    case 4
    have "\<not> activeRecord r" if r: "recordAt K d2 i = Some r" for i r
    proof -
      obtain r0 where "r = interruptedBy (k_pb K) NODE_UNAVAILABLE ''server_restarted'' now r0"
        using recovered_records [OF g1(1) z [unfolded 4(2)]] r by auto
      then show ?thesis by (simp add: activeRecord_def interruptedBy_status)
    qed
    then show ?thesis
      using steady_trans [OF s(1,2)] s(3) LoadFleet_views [OF g2(1) w [unfolded 4(3)]] 4 g1(2) g2(2) by simp
  qed (use steady_trans [OF s(1,2)] s(1,3) in auto)
qed

lemma start_effect:
  assumes g: "coordinatorGood K db" and b: "startCoordinator C K Z E legacy T db = (x, S)" and s: "sc_stored C"
  shows "coordinatorGood K (ms_db S) \<and> (x = Inr () \<longrightarrow> serverGood C K S \<and> ms_failure S = None \<and>
    (\<forall>i r. recordAt K (ms_db S) i = Some r \<longrightarrow> \<not> activeRecord r) \<and>
    (\<forall>i. fleetViews S i = map_option lasting (nodeAt K db i) \<or>
       fleetViews S i = None \<and> (\<exists>v. nodeAt K db i = Some v \<and> offlineRetention < T 1 - asTimeOf (k_pb K) (nv_last_seen v))))"
proof -
  obtain o1 d where o1: "openCoordinatorState E K legacy (T 0) db = (o1, d)" by fastforce
  note e = openCoordinatorState_effect [OF g o1]
  let ?S0 = "\<lparr>ms_streams = [], ms_nodes = [], ms_failure = None, ms_db = d\<rparr>"
  have gd: "coordinatorGood K d" "nodeAt K d = nodeAt K db" using steadyD(1,2) e g by blast+
  consider "S = ?S0" "x \<noteq> Inr ()" | vs where "o1 = Inr vs"
      "wrapS ''restore durable fleet'' (restore C K Z (later 3 E) vs (T 1) ?S0) = (x, S)"
    using b o1 unfolding startCoordinator_def
    by (cases o1) (auto simp: bindS_def liftS_def split: sum.splits)
  then show ?thesis
  proof cases
    case 1
    then show ?thesis using gd by simp
  next
    case 2
    consider "S = ?S0" "x \<noteq> Inr ()" | R y where "restoreLoop (k_pb K) Z (T 1) vs [] 0 ?S0 = Inr R"
        "length vs \<le> maxFleetNodes" "prune C K (later 3 E) (T 1) R = (y, S)" "x = Inr () \<longrightarrow> y = Inr ()"
      using 2(2) by (auto simp: restore_def wrapS_def not_less split: if_splits sum.splits prod.splits)
    then show ?thesis
    proof cases
      case 1
      then show ?thesis using gd by simp
    next
      case 2: 2
      have i0: "indexed ?S0" by (simp add: indexed_def tget_def)
      note r = restoreLoop_effect [OF 2(1) i0]
      have fv: "fleetViews R = (\<lambda>i. map_option lasting (nodeAt K db i))"
      proof -
        have "fleetViews ?S0 = Map.empty" by (rule ext) (simp add: fleetViews_def tget_def)
        then show ?thesis using r e \<open>o1 = Inr vs\<close> gd(2) by simp
      qed
      have shape: "fleetShape R" using r 2(2) by (simp add: fleetShape_indexed)
      have "mirrored K R" unfolding mirrored_iff fv using conjunct1 [OF conjunct2 [OF conjunct2 [OF conjunct2 [OF r]]]] gd(2) by simp
      moreover have "attended K R" unfolding attended_def using r e \<open>o1 = Inr vs\<close> by fastforce
      ultimately have gR: "serverGood C K R" using shape r gd(1) by (simp add: serverGood_def)
      note p = prune_effect [OF gR 2(3)]
      have old: "\<exists>v. nodeAt K db i = Some v \<and> offlineRetention < T 1 - asTimeOf (k_pb K) (nv_last_seen v)"
        if i: "i \<in> set (expiredNodes (k_pb K) (T 1) R)" for i
      proof -
        obtain h where h: "(i, h) \<in> set (ms_nodes R)" "offlineRetention < T 1 - asTimeOf (k_pb K) (nv_last_seen (viewAt h R))"
          using i by (auto simp: expiredNodes_def)
        have "tget (ms_nodes R) i = Some h" using h(1) shape tget_mem [of "ms_nodes R" i h] by (simp add: fleetShape_def)
        then have "fleetViews R i = Some (lasting (viewAt h R))" by (simp add: fleetViews_def)
        then obtain v where v: "nodeAt K db i = Some v" "lasting v = lasting (viewAt h R)" by (auto simp: fv)
        have "nv_last_seen v = nv_last_seen (viewAt h R)" using arg_cong [OF v(2), of nv_last_seen] by (simp add: lasting_def)
        then show ?thesis using v(1) h(2) by auto
      qed
      have "coordinatorGood K (ms_db S)" "serverGood C K S" using p serverGoodD(1) by blast+
      moreover have "x = Inr () \<longrightarrow> ms_failure S = None" using p 2(4) by (simp split: if_splits)
      moreover have "recordAt K (ms_db S) = recordAt K d" using p r by simp
      moreover have "fleetViews S i = map_option lasting (nodeAt K db i) \<or> fleetViews S i = None \<and>
          (\<exists>v. nodeAt K db i = Some v \<and> offlineRetention < T 1 - asTimeOf (k_pb K) (nv_last_seen v))" for i
        using prune_views [OF 2(3), of i] old fv by metis
      ultimately show ?thesis using e \<open>o1 = Inr vs\<close> by fastforce
    qed
  qed
qed

end
