(* ===== verification/SampleServer.thy ===== *)
theory SampleServer
  imports Restart SampleRun
begin

text \<open>
  A concrete coordinator: one node whose stream is live and may receive probes, with any of the sample
  stores behind it.
\<close>

section \<open>Commands do not depend on the fleet's snapshot\<close>

definition withNodes :: "(string, 'b) table \<Rightarrow> 'b coordinator \<Rightarrow> 'b coordinator" where
  "withNodes ns db = db\<lparr>cd_nodes := ns\<rparr>"

definition framed :: "(string, 'b) table \<Rightarrow> ('a \<times> 'b coordinator) res \<Rightarrow> ('a \<times> 'b coordinator) res" where
  "framed ns r = (case r of Inl e \<Rightarrow> Inl e | Inr (x, db) \<Rightarrow> Inr (x, withNodes ns db))"

lemma withNodes_simps [simp]:
  "cd_commands (withNodes ns db) = cd_commands db" "cd_bindings (withNodes ns db) = cd_bindings db"
  "cd_projects (withNodes ns db) = cd_projects db" "cd_nodes (withNodes ns db) = ns"
  "withNodes ns (withNodes ms db) = withNodes ns db"
  by (simp_all add: withNodes_def)

lemma read_frame [simp]:
  "readCommands K (withNodes ns db) p = readCommands K db p" "readCommand K (withNodes ns db) p = readCommand K db p"
  "checkCoordinatorLifecycleFence K (withNodes ns db) c = checkCoordinatorLifecycleFence K db c"
  "checkNamedAgentClaim K (withNodes ns db) c = checkNamedAgentClaim K db c"
proof -
  show r: "readCommands K (withNodes ns db) p = readCommands K db p" for p by (simp add: readCommands_def)
  show "readCommand K (withNodes ns db) p = readCommand K db p" by (simp add: readCommand_def r)
  show "checkCoordinatorLifecycleFence K (withNodes ns db) c = checkCoordinatorLifecycleFence K db c"
    by (simp add: checkCoordinatorLifecycleFence_def r)
  show "checkNamedAgentClaim K (withNodes ns db) c = checkNamedAgentClaim K db c"
    by (simp add: checkNamedAgentClaim_def r split: option.splits)
qed

lemma write_frame:
  "insertCommand K i row (withNodes ns db) = map_sum id (withNodes ns) (insertCommand K i row db)"
  "updateCommand K i st p (withNodes ns db) = map_sum id (withNodes ns) (updateCommand K i st p db)"
  by (simp_all add: insertCommand_def updateCommand_def withNodes_def Let_def split: option.splits)

lemma transition_frame: "transitionCommand K r st detail now (withNodes ns db) = framed ns (transitionCommand K r st detail now db)"
  unfolding transitionCommand_def Let_def framed_def
  by (simp add: bindR_def write_frame split: sum.splits)

lemma dispatch_frame: "dispatchBody K node i now (withNodes ns db) = framed ns (dispatchBody K node i now db)"
  unfolding dispatchBody_def transition_frame read_frame
  by (simp add: bindR_def framed_def split: sum.splits)

lemma admit_frame: "admitCommand K c st (withNodes ns db) = framed ns (admitCommand K c st db)"
proof -
  let ?r = "newRecord c st"
  have i: "bindR (insertCommand K i row (withNodes ns db)) (\<lambda>d. Inr (x, d)) =
      framed ns (bindR (insertCommand K i row db) (\<lambda>d. Inr (x, d)))" for i row and x :: "command_record \<times> bool"
    by (cases "insertCommand K i row db") (simp_all add: write_frame framed_def)
  have f: "framed ns (bindR m (\<lambda>_. g)) = bindR m (\<lambda>_. framed ns g)" for m :: "unit res" and g
    by (cases m) (simp_all add: framed_def)
  have h: "framed ns (bindR m g) = bindR m (\<lambda>x. framed ns (g x))" for m :: "'a res" and g
    by (cases m) (simp_all add: framed_def)
  have e: "framed ns (if b then Inl x else m) = (if b then Inl x else framed ns m)" for b x m
    by (simp add: framed_def)
  show ?thesis unfolding admitCommand_def Let_def read_frame withNodes_simps i e f h ..
qed

lemma create_frame: "createBody K c st (withNodes ns db) = framed ns (createBody K c st db)"
  unfolding createBody_def read_frame admit_frame by (simp add: framed_def split: sum.splits)

lemma calm_frame:
  assumes "\<And>db. fn (withNodes ns db) = framed ns (fn db)" and "operation calm pre fn db = (Inr x, db')"
  shows "operation calm pre fn (withNodes ns db) = (Inr x, withNodes ns db')"
  using assms(2) unfolding calm_operation assms(1)
  by (auto simp: framed_def split: sum.splits prod.splits)

lemma recordAt_frame [simp]: "recordAt K (withNodes ns db) = recordAt K db"
  by (rule recordAt_cong) simp_all

section \<open>The live coordinator\<close>

definition firstView :: "string \<Rightarrow> string \<Rightarrow> node_view" where
  "firstView node sid = emptyView node sid False (at_second 990)"

definition liveView :: node_view where
  "liveView = (firstView ''node-1'' ''n1'')\<lparr>nv_command_ready := True\<rparr>"

definition liveStream :: stream where
  "liveStream = (newStream liveView)\<lparr>fs_probes := True, fs_heartbeat := 1\<rparr>"

definition snapshot :: "(string, blob) table" where
  "snapshot = [(''node-1'', BNode liveView)]"

definition liveServer :: "blob coordinator \<Rightarrow> blob server" where
  "liveServer db = \<lparr>ms_streams = [liveStream], ms_nodes = [(''node-1'', 0)], ms_failure = None, ms_db = withNodes snapshot db\<rparr>"

definition sampleService :: service where
  "sampleService = \<lparr>sc_client_tag = ''tag:client'', sc_command_tag = ''tag:operator'', sc_node_tag = ''tag:node'',
     sc_stored = True\<rparr>"

definition sampleSizes :: sizes where
  "sampleSizes = \<lparr>size_herdr = \<lambda>_. 2097152, size_session = \<lambda>_. 64, size_inventory = \<lambda>_. 64\<rparr>"

lemma live_simps [simp]:
  "ms_nodes (liveServer db) = [(''node-1'', 0)]" "ms_failure (liveServer db) = None" "ms_db (liveServer db) = withNodes snapshot db"
  "ms_streams (liveServer db) = [liveStream]" "streamAt 0 (liveServer db) = liveStream" "viewAt 0 (liveServer db) = liveView"
  "nv_instance liveView = ''node-1''" "nv_stable liveView = ''n1''" "nv_connected liveView" "nv_command_ready liveView"
  "fs_view liveStream = liveView" "fs_probes liveStream" "\<not> fs_done liveStream" "fs_outbound liveStream = []"
  "sc_stored sampleService" "sc_command_tag sampleService = ''tag:operator''"
  by (simp_all add: liveServer_def liveStream_def liveView_def firstView_def emptyView_def newStream_def streamAt_def viewAt_def sampleService_def)

lemma live_current [simp]: "current 0 (liveServer db)"
  by (simp add: current_def tget_def)

lemma save_view:
  assumes "v = firstView node sid \<or> v = (firstView node sid)\<lparr>nv_command_ready := True\<rparr>"
    and "\<not> blank node" "\<not> blank sid"
    and "stableOf (cd_bindings db) node = Some sid" and "length (cd_nodes db) < 128"
  shows "SaveNode calm sampleCodecs (Some v) db = (Inr (), withNodes (tput node (BNode v) (cd_nodes db)) db)"
proof -
  have n: "nv_instance v = node" "nv_stable v = sid" using assms(1) by (auto simp: firstView_def emptyView_def)
  have v: "validateNode samplePb v = Inr ()"
    using assms(1-3)
    by (auto simp: validateNode_def firstView_def emptyView_def emptyHerdr_def node_unknown_def hs_unknown_def
        ts_unknown_def at_second_def)
  have e: "encodeNode sampleCodecs v = Inr (BNode v)"
    by (simp add: encodeNode_def v maxNodeBytes_def)
  have b: "saveNodeBody sampleCodecs v (BNode v) db = Inr ((), withNodes (tput node (BNode v) (cd_nodes db)) db)"
    using assms(4,5) n by (simp add: saveNodeBody_def maxNodes_def withNodes_def)
  have "enter calm = Inr ()" by (simp add: enter_def calm_def)
  then show ?thesis by (simp add: SaveNode_def e calm_transaction b)
qed

lemma save_live:
  assumes "stableOf (cd_bindings db) ''node-1'' = Some ''n1''" and "cd_nodes db = []"
  shows "SaveNode calm sampleCodecs (Some liveView) db = (Inr (), withNodes snapshot db)"
  using save_view [of liveView "''node-1''" "''n1''" db] assms
  by (simp add: liveView_def snapshot_def eval_text)

lemma live_good:
  assumes g: "coordinatorGood sampleCodecs db" and b: "stableOf (cd_bindings db) ''node-1'' = Some ''n1''"
    and n: "cd_nodes db = []" and t: "\<And>i r c. recordAt sampleCodecs db i = Some r \<Longrightarrow> rec_command r = Some c \<Longrightarrow> c_target c = ''node-1''"
  shows "serverGood sampleService sampleCodecs (liveServer db)"
proof -
  note s = save_live [OF b n]
  have g': "coordinatorGood sampleCodecs (withNodes snapshot db)"
    using coordStep_change [OF coord_save_node [OF s] g] by (simp add: coordChange_def)
  have e: "recordAt sampleCodecs (withNodes snapshot db) = recordAt sampleCodecs db"
    "nodeAt sampleCodecs (withNodes snapshot db) = (nodeAt sampleCodecs db)(''node-1'' \<mapsto> liveView)"
    using SaveNode_effect [OF g s] by (auto simp: withNodes_def snapshot_def n dest: arg_cong [of _ _ cd_nodes])
  have none: "nodeAt sampleCodecs db = Map.empty" by (rule ext) (simp add: nodeAt_def n tget_def)
  show ?thesis
    using g' t by (auto simp: serverGood_def fleetShape_def mirrored_def attended_def e none tget_def maxFleetNodes_def table_ok_def)
qed

lemma live_sample:
  "serverGood sampleService sampleCodecs (liveServer oneNode)"
  "serverGood sampleService sampleCodecs (liveServer (storeOf probeCommand (admitted probeCommand)))"
proof -
  have none: "recordAt sampleCodecs oneNode i = None" for i
    by (simp add: recordAt_def oneNode_def emptyCoordinator_def tget_def)
  show "serverGood sampleService sampleCodecs (liveServer oneNode)"
    by (rule live_good [OF oneNode_good]) (simp_all add: none, simp add: oneNode_def emptyCoordinator_def)
  show "serverGood sampleService sampleCodecs (liveServer (storeOf probeCommand (admitted probeCommand)))"
    by (rule live_good [OF admitted_good])
      (use storeOf_at [OF either_fields(7) run_known(1) run_fields(1)] in
        \<open>auto simp: run_fields probe_fields split: if_splits\<close>, simp_all add: storeOf_def,
        simp add: oneNode_def emptyCoordinator_def)
qed

section \<open>A submission and its dispatch\<close>

definition operator :: peer where
  "operator = \<lparr>pe_stable = ''op'', pe_tags = [''tag:operator'']\<rparr>"

definition probeRequest :: submit_request where
  "probeRequest = emptyRequest\<lparr>sr_node := ''node-1'', sr_key := ''key-1'', sr_type := ''node.ping.v1'',
     sr_ttl := Some (seconds 10)\<rparr>"

lemma request_fields [simp]:
  "sr_node probeRequest = ''node-1''" "sr_key probeRequest = ''key-1''" "sr_type probeRequest = ''node.ping.v1''"
  "sr_ttl probeRequest = Some (seconds 10)" "sr_workspace probeRequest = None" "sr_worktree probeRequest = None"
  "sr_control probeRequest = None" "sr_session probeRequest = None" "sr_start probeRequest = None"
  "sr_stop probeRequest = None" "sr_unk probeRequest = []" "pe_stable operator = ''op''"
  by (simp_all add: probeRequest_def emptyRequest_def operator_def)

lemma probe_normal: "NormalizeCommandRequest samplePb (Some probeRequest) = Inr probeRequest"
proof -
  have t: "validTTL samplePb (Some (seconds 10)) = Inr ()"
    by (simp add: validTTL_def MaxCommandTTL_def seconds_def)
  have b: "validateCommandBody ''node.ping.v1'' None None None None None None = Inr ()"
    by (simp add: validateCommandBody_def command_types)
  have k: "commandToken ''node-1''" "ValidIdempotencyKey ''key-1''" by (simp_all add: ValidIdempotencyKey_def)
  have n: "probeRequest\<lparr>sr_start := None\<rparr> = probeRequest" by (simp add: probeRequest_def emptyRequest_def)
  show ?thesis by (simp add: NormalizeCommandRequest_def t b k n Let_def)
qed

lemma operator_admitted: "operatorOf sampleService (Inr operator) = Inr operator"
  by (simp add: operatorOf_def authorizePeer_def) (simp add: operator_def)

definition fresh :: "int \<Rightarrow> command_record" where
  "fresh n = newRecord probeCommand (at_second n)"

definition freshStore :: "int \<Rightarrow> blob coordinator" where
  "freshStore n = oneNode\<lparr>cd_commands := [(sampleId, rowOf probeCommand ACCEPTED (BRecord (fresh n)))]\<rparr>"

lemma fresh_valid:
  assumes "990 \<le> n" and "n < 1000"
  shows "validateCommandRecord samplePb (fresh n) = Inr ()" "\<not> record_unknown (fresh n)"
proof -
  show k: "\<not> record_unknown (fresh n)"
    using messages_known by (auto simp: record_unknown_def fresh_def newRecord_def audit_unknown_def simp del: samplePb_simps)
  show "validateCommandRecord samplePb (fresh n) = Inr ()"
    using k assms by (simp add: eval_record probe_fields fresh_def newRecord_def IsTerminalCommand_def del: samplePb_simps)
qed

lemma fresh_admit:
  assumes "990 \<le> n" and "n < 1000"
  shows "CreateCommand calm sampleCodecs (Some probeCommand) (at_ns n) oneNode = (Inr (fresh n, True), freshStore n)"
proof -
  note e = either_fields [of probeCommand, simplified]
  have none: "readCommands sampleCodecs oneNode p = Inr []" for p
    by (simp add: readCommands_def oneNode_def emptyCoordinator_def tselect_def)
  have rd: "readCommand sampleCodecs oneNode p = Inl ErrCommandNotFound" for p
    by (simp add: readCommand_def none)
  have ins: "insertCommand sampleCodecs sampleId (rowOf probeCommand ACCEPTED (BRecord (fresh n))) oneNode = Inr (freshStore n)"
    using e by (simp add: insertCommand_def commandRowOk_def freshStore_def storedStatus_def rowOf_def)
      (simp add: oneNode_def emptyCoordinator_def tselect_def tget_def at_second_def)
  have fen: "checkCoordinatorLifecycleFence sampleCodecs oneNode probeCommand = Inr ()"
    "checkNamedAgentClaim sampleCodecs oneNode probeCommand = Inr ()"
    by (simp_all add: checkCoordinatorLifecycleFence_def checkNamedAgentClaim_def none split: option.splits)
  have "admitCommand sampleCodecs probeCommand (at_second n) oneNode = Inr ((fresh n, True), freshStore n)"
    using e fen ins fresh_valid [OF assms]
    by (simp add: admitCommand_def Let_def fresh_def [symmetric] marshalCommandMessage_def marshalBounded_def
        maxCommandBytes_def maxCommands_def) (simp add: oneNode_def emptyCoordinator_def tget_def)
  then show ?thesis
    using e rd by (simp add: CreateCommand_def calm_operation createBody_def del: samplePb_simps)
qed

lemma live_admit:
  assumes "990 \<le> n" and "n < 1000"
  shows "CreateCommand calm sampleCodecs (Some probeCommand) (at_ns n) (withNodes snapshot oneNode) =
     (Inr (fresh n, True), withNodes snapshot (freshStore n))"
  unfolding CreateCommand_def
  by (rule calm_frame [OF _ fresh_admit [OF assms, unfolded CreateCommand_def]]) (simp add: create_frame)

lemma live_find:
  "FindCommand calm sampleCodecs ''op'' ''key-1'' (withNodes snapshot oneNode) = (Inl ErrCommandNotFound, withNodes snapshot oneNode)"
proof -
  have "readCommand sampleCodecs oneNode p = Inl ErrCommandNotFound" for p
    by (simp add: readCommand_def readCommands_def oneNode_def emptyCoordinator_def tselect_def)
  then show ?thesis by (simp add: FindCommand_def findCommand_def calm_operation eval_text)
qed

lemma probe_built: "buildCommand samplePb sampleId ''op'' (at_ns 990) None probeRequest = Inr probeCommand"
  by (simp add: buildCommand_def asDurationOf_def Let_def del: samplePb_simps)
    (simp add: probeCommand_def emptyCommand_def sampleActor_def)

definition queuedServer :: "blob server" where
  "queuedServer = putStream 0 (\<lambda>s. s\<lparr>fs_outbound := fs_outbound s @ [probeCommand]\<rparr>) (liveServer (freshStore 990))"

lemma queued_simps [simp]:
  "ms_db queuedServer = withNodes snapshot (freshStore 990)" "ms_failure queuedServer = None"
  by (simp_all add: queuedServer_def)

lemma fresh_stored: "recordAt sampleCodecs (freshStore 990) sampleId = Some (fresh 990)"
proof -
  have f: "rec_command (fresh 990) = Some probeCommand" "rec_status (fresh 990) = ACCEPTED"
    by (simp_all add: fresh_def newRecord_def)
  have "freshStore 990 = storeOf probeCommand (fresh 990)" by (simp add: freshStore_def storeOf_def f(2))
  then show ?thesis using storeOf_at [OF fresh_valid [of 990] f(1)] by simp
qed

lemma live_submit:
  "SubmitCommand sampleService sampleCodecs None (\<lambda>_. calm) (\<lambda>_. at_ns 990) (Inr operator) sampleId
     (Some probeRequest) (liveServer oneNode) = (Inr (fresh 990), queuedServer)"
proof -
  let ?S = "liveServer oneNode"
  have ses: "requestSession probeRequest = ('''', '''')" "RequestProject probeRequest = ('''', '''')"
    by (simp_all add: requestSession_def CommandSession_def RequestProject_def projectOf_def command_types)
  have adm: "admissionReady sampleService samplePb (at_ns 990) probeRequest liveStream = Inr ()"
    by (simp add: admissionReady_def ses command_types)
  have keep: "\<not> keepsOriginal probeRequest"
    by (simp add: keepsOriginal_def ses command_types IsLifecycleCommand_def)
  have bind: "bindProject sampleCodecs None (\<lambda>_. calm) (\<lambda>_. at_ns 990) ''op'' 0 probeRequest ?S = (Inr (probeRequest, None), ?S)"
    by (simp add: bindProject_def bindS_read ses keep okS_def)
  have pin: "pinSession liveStream probeRequest = Inr probeRequest" by (simp add: pinSession_def ses)
  have db: "?S\<lparr>ms_db := withNodes snapshot (freshStore 990)\<rparr> = liveServer (freshStore 990)"
    by (simp add: liveServer_def)
  have rc: "rec_command (fresh 990) = Some probeCommand" by (simp add: fresh_def newRecord_def)
  have q: "enqueueCommand 0 (fresh 990) (liveServer (freshStore 990)) =
      (Inr (), queuedServer)"
    by (simp add: enqueueCommand_def bindS_read handler_steps rc queuedServer_def)
  have cc: "bindS (commandCall (CreateCommand calm sampleCodecs (Some probeCommand) (at_ns 990))) k ?S =
      k (fresh 990, True) (liveServer (freshStore 990))" for k :: "command_record \<times> bool \<Rightarrow> (blob server, command_record) handler"
    by (subst commandCall_store [where y = "Inr (fresh 990, True)" and db = "withNodes snapshot (freshStore 990)"])
      (simp_all add: live_admit db)
  have fr: "submitFresh sampleService sampleCodecs None (\<lambda>_. calm) (\<lambda>_. at_ns 990) ''op'' sampleId 0 probeRequest ?S =
      (Inr (fresh 990), queuedServer)"
    by (simp add: submitFresh_def bindS_read bindS_lift bindS_run [where m = "bindProject sampleCodecs None (\<lambda>_. calm) (\<lambda>_. at_ns 990) ''op'' 0 probeRequest", OF bind]
        adm ses pin probe_built probeCommand_valid probe_fields invalidArgument_def command_types IsLifecycleCommand_def
        bindS_steps(5) cc bindS_run [where m = "enqueueCommand 0 (fresh 990)", OF q] handler_steps Let_def del: samplePb_simps)
  have st: "storeS (FindCommand calm sampleCodecs ''op'' ''key-1'') ?S = (Inr (Inl ErrCommandNotFound), ?S)"
    by (simp add: storeS_def live_find liveServer_def)
  show ?thesis
    using fr by (simp add: SubmitCommand_def bindS_lift operator_admitted probe_normal invalidArgument_def bindS_steps(5)
        bindS_healthy bindS_run [where m = "storeS (FindCommand calm sampleCodecs ''op'' ''key-1'')", OF st] bindS_read
        supportedCommand_def command_types tget_def)
qed

section \<open>A run up to the live coordinator\<close>

definition emptyServer :: "blob coordinator \<Rightarrow> blob server" where
  "emptyServer db = \<lparr>ms_streams = [], ms_nodes = [], ms_failure = None, ms_db = db\<rparr>"

lemma no_commands:
  assumes "cd_commands db = []"
  shows "RecoverCommands calm sampleCodecs (at_ns n) db = (Inr (), db)"
    "\<not> blank node \<Longrightarrow> LoseNodeCommands calm sampleCodecs node (at_ns n) db = (Inr (), db)"
  using assms by (simp_all add: RecoverCommands_def LoseNodeCommands_def changeActiveCommands_def calm_operation
      changeBody_def readCommands_def tselect_def)

lemma persist_calm:
  "persistCoordinator (\<lambda>_. calm) f db = (Inr x, db') \<longleftrightarrow> f calm db = (Inr x, db') \<or>
     (\<exists>e d. f calm db = (Inl e, d) \<and> RetryableCancellation e \<and> f calm d = (Inr x, db'))"
  by (auto simp: persistCoordinator_def split: prod.splits sum.splits)

lemma later_calm [simp]: "later n (\<lambda>_. calm) = (\<lambda>_. calm)"
  by (simp add: later_def fun_eq_iff)

lemma persistS_calm: "f calm (ms_db S) = (Inr x, db) \<Longrightarrow> persistS (\<lambda>_. calm) f S = (Inr x, S\<lparr>ms_db := db\<rparr>)"
  by (simp add: persistS_def storeS_def bindS_def okS_def persistCoordinator_def)

lemma save_calm:
  assumes "ms_failure S = None" and "v = firstView node sid \<or> v = (firstView node sid)\<lparr>nv_command_ready := True\<rparr>"
    and "\<not> blank node" "\<not> blank sid"
    and "stableOf (cd_bindings (ms_db S)) node = Some sid" and "length (cd_nodes (ms_db S)) < 128"
  shows "save sampleService sampleCodecs (\<lambda>_. calm) v S =
    (Inr (), S\<lparr>ms_db := withNodes (tput node (BNode v) (cd_nodes (ms_db S))) (ms_db S)\<rparr>)"
  by (simp add: save_def bindS_healthy assms(1) bindS_steps(5) maxNodeBytes_def
      persistS_calm [where f = "\<lambda>e. SaveNode e sampleCodecs (Some v)", OF save_view [OF assms(2-6)]])

lemma prune_calm:
  "ms_failure S = None \<Longrightarrow> expiredNodes (k_pb K) now S = [] \<Longrightarrow> prune C K E now S = (Inr (), S)"
  by (simp add: prune_def bindS_healthy bindS_read okS_def)

definition greeting :: "string \<Rightarrow> hello" where
  "greeting node = \<lparr>he_protocol = None, he_version = '''', he_instance = node, he_role = ROLE_NODE,
     he_capabilities = [ProbeCapability], he_epoch = '''', he_cursor = 0, he_hostname = '''', he_unk = []\<rparr>"

lemma greeting_simps [simp]:
  "he_instance (greeting node) = node" "he_capabilities (greeting node) = [ProbeCapability]" "he_hostname (greeting node) = ''''"
  by (simp_all add: greeting_def)

text \<open>A stream begins for a node the fleet does not hold.\<close>

lemma begin_calm:
  assumes "ms_failure S = None" and "tget (ms_nodes S) node = None" and "length (ms_nodes S) < 128"
    and "expiredNodes samplePb (at_ns 990) S = []" and "\<not> blank node" "\<not> blank sid"
    and "stableOf (cd_bindings (ms_db S)) node = Some sid" and "length (cd_nodes (ms_db S)) < 128"
    and "cd_commands (ms_db S) = []"
  shows "beginStream sampleService sampleCodecs (\<lambda>_. calm) \<lparr>pe_stable = sid, pe_tags = tags\<rparr> (greeting node) (at_ns 990) S =
    (Inr (length (ms_streams S)), S\<lparr>ms_streams := ms_streams S @ [newStream (firstView node sid)],
       ms_nodes := tput node (length (ms_streams S)) (ms_nodes S),
       ms_db := withNodes (tput node (BNode (firstView node sid)) (cd_nodes (ms_db S))) (ms_db S)\<rparr>)"
proof -
  let ?db = "withNodes (tput node (BNode (firstView node sid)) (cd_nodes (ms_db S))) (ms_db S)"
  have p: "prune sampleService sampleCodecs (\<lambda>_. calm) (at_ns 990) S = (Inr (), S)"
    by (rule prune_calm) (use assms(1,4) in simp_all)
  have v: "emptyView node sid False (at_second 990) = firstView node sid" by (simp add: firstView_def)
  note sv = save_calm [where v = "firstView node sid", OF assms(1) _ assms(5-8), simplified]
  have l: "loseCommands sampleService sampleCodecs (\<lambda>_. calm) node (at_ns 990) (S\<lparr>ms_db := ?db\<rparr>) = (Inr (), S\<lparr>ms_db := ?db\<rparr>)"
    by (simp add: loseCommands_def assms(5,9) no_commands(2)
        persistS_calm [where f = "\<lambda>e. LoseNodeCommands e sampleCodecs node (at_ns 990)"])
  have c: "HerdrReadCapability \<noteq> ProbeCapability" by (simp add: HerdrReadCapability_def ProbeCapability_def)
  have "beginLocked sampleService sampleCodecs (\<lambda>_. calm) node sid False (at_ns 990) S =
      installStream node (firstView node sid) (S\<lparr>ms_db := ?db\<rparr>)"
    using assms(3) by (simp add: beginLocked_def bindS_run [where m = "prune sampleService sampleCodecs (\<lambda>_. calm) (at_ns 990)", OF p]
        bindS_read bindS_steps(5) assms(2) maxFleetNodes_def v Let_def del: samplePb_simps)
      (simp add: bindS_def sv l)
  then show ?thesis using assms(2) c by (simp add: beginStream_def installStream_def Let_def)
qed

lemma sample_start:
  "startCoordinator sampleService sampleCodecs sampleSizes (\<lambda>_. calm) [] (\<lambda>_. at_ns 990) oneNode = (Inr (), emptyServer oneNode)"
proof -
  have "cd_commands oneNode = []" "cd_nodes oneNode = []" by (simp_all add: oneNode_def emptyCoordinator_def)
  then have "openCoordinatorState (\<lambda>_. calm) sampleCodecs [] (at_ns 990) oneNode = (Inr [], oneNode)"
    by (simp add: openCoordinatorState_def bindS_def wrapS_def ImportBindings_def calm_operation no_commands(1)
        LoadFleet_def readFleet_def)
  then show ?thesis
    by (simp add: startCoordinator_def bindS_def handler_steps wrapS_def restore_def prune_calm
        expiredNodes_def emptyServer_def)
qed

lemma sample_begin:
  "beginStream sampleService sampleCodecs (\<lambda>_. calm) \<lparr>pe_stable = ''n1'', pe_tags = []\<rparr> (greeting ''node-1'') (at_ns 990)
     (emptyServer oneNode) =
   (Inr 0, \<lparr>ms_streams = [newStream (firstView ''node-1'' ''n1'')], ms_nodes = [(''node-1'', 0)], ms_failure = None,
     ms_db = withNodes [(''node-1'', BNode (firstView ''node-1'' ''n1''))] oneNode\<rparr>)"
  by (subst begin_calm) (simp_all add: emptyServer_def tget_def expiredNodes_def eval_text oneNode_def emptyCoordinator_def
      stableOf_def tselect_def)


lemma sample_open:
  "finishOpening sampleService sampleCodecs None (\<lambda>_. calm) 0 (greeting ''node-1'')
     \<lparr>ms_streams = [newStream (firstView ''node-1'' ''n1'')], ms_nodes = [(''node-1'', 0)], ms_failure = None, ms_db = db\<rparr> =
   (Inr (), \<lparr>ms_streams = [(newStream (firstView ''node-1'' ''n1''))\<lparr>fs_probes := True\<rparr>], ms_nodes = [(''node-1'', 0)],
     ms_failure = None, ms_db = db\<rparr>)"
proof -
  let ?S = "\<lparr>ms_streams = [newStream (firstView ''node-1'' ''n1'')], ms_nodes = [(''node-1'', 0)], ms_failure = None, ms_db = db\<rparr>"
  have v: "viewAt 0 ?S = firstView ''node-1'' ''n1''" "current 0 ?S" "nv_hostname (firstView ''node-1'' ''n1'') = ''''"
    by (simp_all add: viewAt_def streamAt_def newStream_def current_def firstView_def emptyView_def tget_def)
  have n: "setLogicalName sampleService sampleCodecs (\<lambda>_. calm) 0 '''' ?S = (Inr (), ?S)"
    by (simp add: setLogicalName_def bindS_lift validateLogicalNodeName_def bindS_healthy bindS_read v bindS_steps(5) okS_def)
  have c: "negotiated sampleService None [ProbeCapability] (newStream w) = (newStream w)\<lparr>fs_probes := True\<rparr>" for w
    by (simp add: negotiated_def newStream_def Let_def HerdrReadCapability_def ProbeCapability_def ProjectConfigCapability_def
        SessionManageCapability_def WorkspaceEnsureCapability_def WorktreeCreateCapability_def AgentControlCapability_def
        AgentLifecycleCapability_def)
  show ?thesis
    by (simp add: finishOpening_def bindS_run [where m = "setLogicalName sampleService sampleCodecs (\<lambda>_. calm) 0 ''''", OF n])
      (simp add: putS_def putStream_def streamAt_def c)
qed

definition beat :: heartbeat_message where
  "beat = \<lparr>hb_sequence = 1, hb_sent = Some (at_second 990), hb_ready = [True]\<rparr>"

lemma sample_beat:
  "receiveEnvelope sampleService sampleCodecs sampleSizes (\<lambda>ks. ks) (\<lambda>_. calm) (\<lambda>_. at_ns 990) False 0 (HeartbeatBody beat)
     \<lparr>ms_streams = [(newStream (firstView ''node-1'' ''n1''))\<lparr>fs_probes := True\<rparr>], ms_nodes = [(''node-1'', 0)],
       ms_failure = None, ms_db = withNodes [(''node-1'', BNode (firstView ''node-1'' ''n1''))] oneNode\<rparr> =
   (Inr None, liveServer oneNode)"
proof -
  let ?first = "firstView ''node-1'' ''n1''"
  let ?s = "(newStream ?first)\<lparr>fs_probes := True, fs_heartbeat := 1\<rparr>"
  let ?S = "\<lparr>ms_streams = [?s], ms_nodes = [(''node-1'', 0)], ms_failure = None, ms_db = withNodes [(''node-1'', BNode ?first)] oneNode\<rparr>"
  have v: "heartbeatView samplePb ?s (at_ns 990) [True] = liveView"
    by (simp add: heartbeatView_def newStream_def liveView_def firstView_def emptyView_def Let_def del: samplePb_simps)
  have cur: "current 0 ?S" "streamAt 0 ?S = ?s"
    by (simp_all add: viewAt_def streamAt_def newStream_def current_def firstView_def emptyView_def tget_def)
  have sv: "save sampleService sampleCodecs (\<lambda>_. calm) liveView ?S = (Inr (), ?S\<lparr>ms_db := withNodes snapshot oneNode\<rparr>)"
    using save_calm [where S = ?S and v = liveView and node = "''node-1''" and sid = "''n1''"]
    by (simp add: liveView_def snapshot_def eval_text)
  have h: "heartbeat sampleService sampleCodecs (\<lambda>_. calm) 0 (at_ns 990) [True] ?S = (Inr (), liveServer oneNode)"
  proof -
    have "heartbeat sampleService sampleCodecs (\<lambda>_. calm) 0 (at_ns 990) [True] ?S =
        bindS (save sampleService sampleCodecs (\<lambda>_. calm) liveView) (\<lambda>_. putS (setView 0 liveView)) ?S"
      by (simp add: heartbeat_def bindS_healthy bindS_read cur bindS_steps(5) v Let_def)
    also have "\<dots> = putS (setView 0 liveView) (?S\<lparr>ms_db := withNodes snapshot oneNode\<rparr>)"
      by (rule bindS_run [where m = "save sampleService sampleCodecs (\<lambda>_. calm) liveView", OF sv])
    also have "\<dots> = (Inr (), liveServer oneNode)"
      by (simp add: putS_def setView_def putStream_def streamAt_def liveServer_def liveStream_def newStream_def)
    finally show ?thesis .
  qed
  show ?thesis
    by (simp add: receiveEnvelope_def bindS_read bindS_steps(5) beat_def at_second_def newStream_def [of ?first] streamAt_def)
      (simp add: bindS_def putS_def putStream_def streamAt_def h [unfolded newStream_def stream.update_convs] okS_def)
qed

lemma sample_steps:
  "(serverStep sampleService sampleCodecs sampleSizes None (\<lambda>ks. ks))\<^sup>*\<^sup>* (emptyServer oneNode) (liveServer oneNode)"
proof -
  let ?first = "firstView ''node-1'' ''n1''" let ?step = "serverStep sampleService sampleCodecs sampleSizes None (\<lambda>ks. ks)"
  let ?b = "\<lparr>ms_streams = [newStream ?first], ms_nodes = [(''node-1'', 0)], ms_failure = None,
     ms_db = withNodes [(''node-1'', BNode ?first)] oneNode\<rparr>"
  let ?o = "\<lparr>ms_streams = [(newStream ?first)\<lparr>fs_probes := True\<rparr>], ms_nodes = [(''node-1'', 0)],
     ms_failure = None, ms_db = withNodes [(''node-1'', BNode ?first)] oneNode\<rparr>"
  have "?step (emptyServer oneNode) ?b" by (rule serverStep.begin_stream [OF sample_begin])
  moreover have "?step ?b ?o" by (rule serverStep.opened [OF sample_open]) simp
  moreover have "?step ?o (liveServer oneNode)" by (rule serverStep.receive [OF sample_beat]) simp
  ultimately show ?thesis by (meson converse_rtranclp_into_rtranclp rtranclp.rtrancl_refl)
qed

lemma live_decoded:
  "stableOf bs ''node-1'' = Some ''n1'' \<Longrightarrow> decodeNode sampleCodecs bs (''node-1'', BNode liveView) = Inr liveView"
  by (simp add: decodeNode_def maxNodeBytes_def validateNode_def)
    (simp add: liveView_def firstView_def emptyView_def emptyHerdr_def node_unknown_def hs_unknown_def ts_unknown_def
      at_second_def eval_text)

lemma sample_restart:
  "\<exists>S. startCoordinator sampleService sampleCodecs sampleSizes (\<lambda>_. calm) [] (\<lambda>_. at_ns 991)
     (ms_db (liveServer oneNode)) = (Inr (), S)"
proof -
  let ?db = "withNodes snapshot oneNode"
  have c: "cd_commands ?db = []" by (simp add: oneNode_def emptyCoordinator_def)
  have v: "decodeNode sampleCodecs (cd_bindings oneNode) (''node-1'', BNode liveView) = Inr liveView"
    by (rule live_decoded) simp
  have l: "openCoordinatorState (\<lambda>_. calm) sampleCodecs [] (at_ns 991) ?db = (Inr [liveView], ?db)"
  proof -
    have n: "cd_nodes ?db = [(''node-1'', BNode liveView)]" by (simp add: snapshot_def)
    have "LoadFleet calm sampleCodecs ?db = (Inr [liveView], ?db)"
      by (simp add: LoadFleet_def calm_operation readFleet_def n v maxNodes_def del: withNodes_simps(4))
    then show ?thesis
      by (simp add: openCoordinatorState_def bindS_def wrapS_def ImportBindings_def calm_operation no_commands(1) [OF c])
  qed
  have ok: "validateStoredNode samplePb sampleSizes liveView = Inr ()"
    by (simp add: validateStoredNode_def validateStoredSessions_def liveView_def firstView_def emptyView_def stampOk_def
        at_second_def emptyHerdr_def)
  have r: "restoreLoop samplePb sampleSizes (at_ns 991) [liveView] [] 0 (emptyServer ?db) =
      Inr (added samplePb (at_ns 991) liveView (emptyServer ?db))"
    by (simp add: ok emptyServer_def tget_def nodeStateSize_def sizeOfHerdr_def added_def)
      (simp add: sampleSizes_def maxFleetBytes_def liveView_def firstView_def emptyView_def)
  have e: "expiredNodes samplePb (at_ns 991) (added samplePb (at_ns 991) liveView (emptyServer ?db)) = []"
    by (simp add: expiredNodes_def added_def emptyServer_def viewAt_def streamAt_def newStream_def offlineView_def
        projectSessionFreshness_def offlineRetention_def)
      (simp add: liveView_def firstView_def emptyView_def asTimeOf_def at_ns_def at_second_def)
  have h: "nv_hostname liveView = ''''" by (simp add: liveView_def firstView_def emptyView_def)
  show ?thesis
  proof -
    have m: "restore sampleService sampleCodecs sampleSizes (\<lambda>_. calm) [liveView] (at_ns 991) (emptyServer ?db) =
        (Inr (), added samplePb (at_ns 991) liveView (emptyServer ?db))"
      using r e by (simp add: restore_def emptyServer_def maxFleetNodes_def prune_calm added_def del: restoreLoop.simps)
    show ?thesis
      using m by (simp add: startCoordinator_def l bindS_lift validateLogicalNodeName_def h wrapS_def emptyServer_def)
  qed
qed

text \<open>A coordinator that knows a second node, whose state on disk is exactly full.\<close>

definition twoNodes :: "blob coordinator" where
  "twoNodes = oneNode\<lparr>cd_bindings := [(''n1'', ''node-1''), (''n2'', ''node-2'')]\<rparr>"

lemma twoNodes_good: "serverGood sampleService sampleCodecs (liveServer twoNodes)"
proof (rule live_good)
  have i: "ImportBindings calm [\<lparr>bd_stable = ''n2'', bd_instance = ''node-2''\<rparr>] oneNode = (Inr (), twoNodes)"
    by (simp add: twoNodes_def oneNode_def ImportBindings_def calm_operation bindRow_def emptyCoordinator_def tselect_def
        tget_def eval_text conflicting_def)
  show "coordinatorGood sampleCodecs twoNodes"
    using coordStep_change [OF coord_import_bindings [OF i] oneNode_good] by (simp add: coordChange_def)
qed (simp_all add: twoNodes_def oneNode_def emptyCoordinator_def stableOf_def tselect_def recordAt_def tget_def)

lemma twoNodes_begin:
  "\<exists>S. beginStream sampleService sampleCodecs (\<lambda>_. calm) \<lparr>pe_stable = ''n2'', pe_tags = []\<rparr> (greeting ''node-2'') (at_ns 990)
     (liveServer twoNodes) = (Inr 1, S)"
  by (subst begin_calm) (simp_all add: tget_def expiredNodes_def eval_text twoNodes_def oneNode_def emptyCoordinator_def
      stableOf_def tselect_def snapshot_def)

lemma live_dispatch:
  "\<exists>S. prepareCommand sampleCodecs None (\<lambda>_. calm) (\<lambda>_. at_ns 996) True 0 probeCommand
     (liveServer (storeOf probeCommand (admitted probeCommand))) =
   (Inr (Some (probeCommand\<lparr>c_ttl := Some (seconds 4)\<rparr>)), S)"
proof -
  let ?db = "storeOf probeCommand (admitted probeCommand)" let ?S = "liveServer ?db"
  have d: "DispatchCommand calm sampleCodecs ''node-1'' sampleId (at_ns 996) (withNodes snapshot ?db) =
      (Inr (dispatched probeCommand, True), withNodes snapshot (storeOf probeCommand (dispatched probeCommand)))"
    unfolding DispatchCommand_def
    by (rule calm_frame [OF _ sample_dispatch [of probeCommand, unfolded DispatchCommand_def]]) (simp_all add: dispatch_frame)
  have p: "CommandProject probeCommand = ('''', '''')" "CommandSession probeCommand = ('''', '''')"
    by (simp_all add: CommandProject_def CommandSession_def projectOf_def probe_fields command_types)
  have r: "projectStillReady sampleCodecs None calm 0 probeCommand ?S = (Inr True, ?S)"
    by (simp add: projectStillReady_def p)
  have m: "\<not> isMutation probeCommand"
    by (simp add: isMutation_def p probe_fields command_types IsLifecycleCommand_def)
  have x: "asTimeOf samplePb (c_expires probeCommand) - at_ns 996 = at_ns 4"
    by (simp add: probe_fields asTimeOf_def del: samplePb_simps) (simp add: at_ns_def)
  have cc: "bindS (commandCall (DispatchCommand calm sampleCodecs ''node-1'' sampleId (at_ns 996))) k ?S =
      k (dispatched probeCommand, True) (?S\<lparr>ms_db := withNodes snapshot (storeOf probeCommand (dispatched probeCommand))\<rparr>)"
    for k :: "command_record \<times> bool \<Rightarrow> (blob server, command option) handler"
    by (subst commandCall_store [where y = "Inr (dispatched probeCommand, True)"]) (simp_all add: d)
  have t: "\<not> at_ns 4 \<le> 0" "new_du samplePb (at_ns 4) = seconds 4" by (simp_all add: at_ns_def seconds_def)
  show ?thesis
    by (simp add: prepareCommand_def bindS_read bindS_steps(5) bindS_healthy p m probe_fields(1)
        bindS_run [where m = "projectStillReady sampleCodecs None calm 0 probeCommand", OF r] cc run_fields x t Let_def okS_def
        del: samplePb_simps)
qed

end
