(* ===== verification/ServerContract.thy ===== *)
theory ServerContract
  imports SampleServer
begin

text \<open>
  What the coordinator promises over whole runs: from a start, through any requests, streams, reports and
  failures of its store, to a crash and the next start.
\<close>

section \<open>Runs\<close>

definition serverRun ::
  "service \<Rightarrow> 'b codecs \<Rightarrow> sizes \<Rightarrow> policy \<Rightarrow> (string list \<Rightarrow> string list) \<Rightarrow> 'b coordinator \<Rightarrow> 'b server \<Rightarrow> bool" where
  "serverRun C K Z policy W db S = (\<exists>E legacy T S0. startCoordinator C K Z E legacy T db = (Inr (), S0) \<and>
     (serverStep C K Z policy W)\<^sup>*\<^sup>* S0 S)"

lemma serverRun_good_state:
  assumes "coordinatorGood K db" and "sc_stored C" and "serverRun C K Z policy W db S"
  shows "serverGood C K S"
  using assms start_effect [OF assms(1) _ assms(2)] serverRun_good unfolding serverRun_def by blast

text \<open>
  C16. The coordinator's fleet is its durable fleet.  Starting from any well-formed store and after any
  run of steps, as long as the store has not failed: the snapshot on disk and the fleet in memory have the
  same nodes, at most 128, each entry holds the view of its own node, and the two views agree in all but
  the flags that say what is live at this moment.
\<close>

theorem fleet_mirrors_store:
  assumes "coordinatorGood K db" and "sc_stored C" and "serverRun C K Z policy W db S" and "ms_failure S = None"
  shows "(\<forall>i. map_option lasting (nodeAt K (ms_db S) i) =
      map_option (\<lambda>h. lasting (viewAt h S)) (tget (ms_nodes S) i)) \<and>
    length (ms_nodes S) \<le> 128 \<and>
    (\<forall>i h. tget (ms_nodes S) i = Some h \<longrightarrow> h < length (ms_streams S) \<and> nv_instance (viewAt h S) = i)"
  using serverGoodD [OF serverRun_good_state [OF assms(1-3)]] assms(2,4)
  by (simp add: mirrored_def fleetShape_def maxFleetNodes_def)

text \<open>
  C15. No command is left unattended.  Over any run, as long as the store has not failed, a command that is
  accepted or running has a node in the fleet that the coordinator believes connected; a command whose
  node has gone is never left active.
\<close>

theorem active_commands_attended:
  assumes "coordinatorGood K db" and "sc_stored C" and "serverRun C K Z policy W db S" and "ms_failure S = None"
    and "recordAt K (ms_db S) i = Some r" and "rec_status r = ACCEPTED \<or> rec_status r = RUNNING"
    and "rec_command r = Some c"
  shows "\<exists>h. tget (ms_nodes S) (c_target c) = Some h \<and> nv_connected (viewAt h S)"
  using serverGoodD(4) [OF serverRun_good_state [OF assms(1-3)] assms(2,4)] assms(5-7)
  unfolding attended_def activeRecord_def by blast

text \<open>
  C17. A restart loses no node and keeps no command running.  If the coordinator stops at any point of a
  run without a failure of its store and starts again on what is on disk, then its fleet is what it was in
  all but the live flags, except that nodes last seen more than 15 minutes ago may be forgotten; and no
  command is accepted or running.
\<close>

theorem restart_keeps_fleet:
  assumes "coordinatorGood K db" and "sc_stored C" and "serverRun C K Z policy W db S" and "ms_failure S = None"
    and "startCoordinator C K Z E legacy T (ms_db S) = (Inr (), S')"
  shows "(\<forall>i. fleetViews S' i = fleetViews S i \<or> fleetViews S' i = None \<and>
      (\<exists>h. tget (ms_nodes S) i = Some h \<and> 15 * 60 * 1000000000 < T 1 - asTimeOf (k_pb K) (nv_last_seen (viewAt h S)))) \<and>
    (\<forall>i r. recordAt K (ms_db S') i = Some r \<longrightarrow> rec_status r \<noteq> ACCEPTED \<and> rec_status r \<noteq> RUNNING)"
proof -
  note d = serverGoodD [OF serverRun_good_state [OF assms(1-3)]]
  note e = start_effect [OF d(1) assms(5,2)]
  have m: "map_option lasting (nodeAt K (ms_db S) i) = fleetViews S i" for i
    using d(3) assms(2,4) by (simp add: mirrored_iff)
  have seen: "\<exists>h. tget (ms_nodes S) i = Some h \<and> nv_last_seen (viewAt h S) = nv_last_seen v"
    if "nodeAt K (ms_db S) i = Some v" for i v
  proof -
    have "fleetViews S i = Some (lasting v)" using m [of i] that by simp
    then obtain h where h: "tget (ms_nodes S) i = Some h" "lasting v = lasting (viewAt h S)"
      by (auto simp: fleetViews_def)
    have k: "nv_last_seen (lasting u) = nv_last_seen u" for u by (simp add: lasting_def)
    show ?thesis using arg_cong [OF h(2), of nv_last_seen] h(1) unfolding k by auto
  qed
  have "fleetViews S' i = fleetViews S i \<or> fleetViews S' i = None \<and>
      (\<exists>h. tget (ms_nodes S) i = Some h \<and> 15 * 60 * 1000000000 < T 1 - asTimeOf (k_pb K) (nv_last_seen (viewAt h S)))" for i
    using e m [of i] seen [of i] unfolding offlineRetention_def by metis
  then show ?thesis using e by (auto simp: activeRecord_def)
qed

section \<open>Beginning a stream\<close>

lemma save_sized:
  assumes "size_msg (k_node K) v \<le> maxNodeBytes" and "save C K E v S = (Inl e, S')"
  shows "ms_failure S' \<noteq> None"
proof (cases "ms_failure S = None")
  case True
  then have "sc_stored C \<and> persistS E (\<lambda>e. SaveNode e K (Some v)) S = (Inl e, S')"
    using assms by (auto simp: save_def bindS_healthy bindS_steps(5) okS_def split: if_splits)
  then show ?thesis
    by (auto simp: persistS_def storeS_def bindS_def failLocked_def okS_def split: option.splits prod.splits sum.splits)
next
  case False
  then obtain f where "ms_failure S = Some f" by blast
  then show ?thesis using assms by (simp add: save_def bindS_healthy)
qed

lemma lose_backwards:
  assumes g: "coordinatorGood K (ms_db S)" and at: "recordAt K (ms_db S) i = Some r" "rec_status r \<in> {ACCEPTED, RUNNING}"
      "rec_command r = Some c" "now < asTimeOf (k_pb K) (rec_updated r)"
    and l: "loseCommands C K E (c_target c) now S = (x, S')" and s: "sc_stored C"
  shows "ms_failure S' \<noteq> None \<and> ms_db S' = ms_db S \<and> (\<exists>e. x = Inl e)"
proof -
  have one: "d = ms_db S \<and> (\<exists>e. z = Inl e)" if "LoseNodeCommands e K (c_target c) now (ms_db S) = (z, d)" for e z d
    using LoseNodeCommands_backwards [OF g at that] .
  obtain z d where z: "persistCoordinator E (\<lambda>e. LoseNodeCommands e K (c_target c) now) (ms_db S) = (z, d)" by fastforce
  then have "d = ms_db S \<and> (\<exists>e. z = Inl e)"
    using one unfolding persistCoordinator_def
    by (cases "LoseNodeCommands (E 0) K (c_target c) now (ms_db S)") (auto split: sum.splits if_splits dest: one)
  then show ?thesis using l z s
    by (auto simp: loseCommands_def persistS_def storeS_def bindS_def failLocked_def split: option.splits)
qed

text \<open>
  C23. Opening a stream needs a clock that has not gone back, and stops the coordinator otherwise.  The
  time a new stream begins is read before the fleet's mutex is taken.  If a command of that node is active
  and was last updated later than that, then opening the stream fails, every command stays as it was, and
  the coordinator refuses all work from then on.  (The first view of the node, which holds only its two
  identities, the time and a status, must fit into the 2 MiB a stored node may have; a larger one is refused
  before anything is written, and the coordinator goes on.)
\<close>

theorem begin_needs_forward_clock:
  assumes "serverGood C K S" and "sc_stored C" and "ms_failure S = None"
    and "recordAt K (ms_db S) i = Some r" and "rec_status r \<in> {ACCEPTED, RUNNING}" and "rec_command r = Some c"
    and "c_target c = he_instance g" and "now < asTimeOf (k_pb K) (rec_updated r)"
    and "size_msg (k_node K) (emptyView (he_instance g) (pe_stable p) (HerdrReadCapability \<in> set (he_capabilities g))
      (new_ts (k_pb K) now)) \<le> maxNodeBytes"
    and "beginStream C K E p g now S = (x, S')"
  shows "(\<exists>e. x = Inl e) \<and> ms_failure S' \<noteq> None \<and> recordAt K (ms_db S') = recordAt K (ms_db S)"
proof -
  let ?node = "he_instance g" let ?en = "HerdrReadCapability \<in> set (he_capabilities g)"
  let ?v = "emptyView ?node (pe_stable p) ?en (new_ts (k_pb K) now)"
  obtain h where h: "tget (ms_nodes S) ?node = Some h" "nv_connected (viewAt h S)"
  proof -
    have "activeRecord r" using assms(5) by (simp add: activeRecord_def)
    then show ?thesis
      using that serverGoodD(4) [OF assms(1,2,3)] assms(4,6,7) unfolding attended_def by metis
  qed
  obtain y T where y: "prune C K E now S = (y, T)" by fastforce
  note p = prune_effect [OF assms(1) y]
  have T: "tget (ms_nodes T) ?node = Some h" "recordAt K (ms_db T) = recordAt K (ms_db S)" "coordinatorGood K (ms_db T)"
    using p h serverGoodD(1) by blast+
  obtain z U where z: "save C K (later 2 E) ?v T = (z, U)" by fastforce
  note se = save_effect [OF T(3) z]
  have U: "recordAt K (ms_db U) = recordAt K (ms_db S)" "coordinatorGood K (ms_db U)"
    using se T(2) by (simp_all add: storeOnly_def)
  obtain w V where w: "loseCommands C K (later 4 E) ?node now U = (w, V)" by fastforce
  have le: "ms_failure V \<noteq> None \<and> ms_db V = ms_db U \<and> (\<exists>e. w = Inl e)"
    using lose_backwards [OF U(2) _ assms(5,6,8) _ assms(2)] U(1) assms(4,7) w by simp
  have "(x, S') = (case y of Inl e \<Rightarrow> (Inl e, T) | Inr u \<Rightarrow> (case z of Inl e \<Rightarrow> (Inl e, U) | Inr u \<Rightarrow>
      (case w of Inl e \<Rightarrow> (Inl e, V) | Inr u \<Rightarrow> installStream ?node ?v V)))"
    using assms(10) y z w T(1) unfolding beginStream_def beginLocked_def Let_def
    by (simp add: bindS_def handler_steps split: sum.splits)
  moreover have "ms_failure U \<noteq> None" if "z = Inl e" for e using save_sized [OF assms(9) z [unfolded that]] .
  ultimately show ?thesis using p le T(2) U(1)
    by (cases y; cases z) (auto split: if_splits sum.splits)
qed

text \<open>The bytes of native state on disk, as a restart counts them.\<close>

definition storedBytes :: "sizes \<Rightarrow> 'b codecs \<Rightarrow> 'b coordinator \<Rightarrow> nat" where
  "storedBytes Z K db = (\<Sum>i \<in> dom (nodeAt K db). nodeStateSize Z (the (nodeAt K db i)))"

lemma LoadFleet_bytes:
  assumes g: "coordinatorGood K db" and l: "LoadFleet E K db = (Inr vs, db')"
  shows "sum_list (map (nodeStateSize Z) vs) = storedBytes Z K db"
proof -
  note ok = coordinatorGoodD(3) [OF g]
  have t: "table_ok (cd_nodes db)" using ok by (simp add: fleet_ok_def)
  have vs: "vs = map (\<lambda>ip. the (nodeAt K db (fst ip))) (cd_nodes db)"
    using operation_Inr(2) [OF l [unfolded LoadFleet_def]] readFleet_ok [OF ok] by (auto simp: bindR_eq_Inr)
  have dist: "distinct (map fst (cd_nodes db))" using t by (simp add: table_ok_def strict_sorted_iff)
  have keys: "set (map fst (cd_nodes db)) = dom (nodeAt K db)"
  proof (intro set_eqI iffI)
    fix i assume "i \<in> set (map fst (cd_nodes db))"
    then obtain q where "tget (cd_nodes db) i = Some q" using tget_mem [OF t] by auto
    then show "i \<in> dom (nodeAt K db)" using ok by (fastforce simp: fleet_ok_def nodeAt_def)
  next
    fix i assume "i \<in> dom (nodeAt K db)"
    then obtain q where "tget (cd_nodes db) i = Some q" by (auto simp: nodeAt_def split: option.splits)
    then have "(i, q) \<in> set (cd_nodes db)" by (rule tget_Some_mem)
    then show "i \<in> set (map fst (cd_nodes db))" by force
  qed
  have "sum_list (map (nodeStateSize Z) vs) = sum_list (map (\<lambda>i. nodeStateSize Z (the (nodeAt K db i))) (map fst (cd_nodes db)))"
    by (simp add: vs o_def)
  also have "\<dots> = (\<Sum>i \<in> set (map fst (cd_nodes db)). nodeStateSize Z (the (nodeAt K db i)))"
    by (rule sum_list_distinct_conv_sum_set [OF dist])
  finally show ?thesis unfolding storedBytes_def keys .
qed

lemma dom_nodeAt_finite: "finite (dom (nodeAt K db))"
proof -
  have "dom (nodeAt K db) \<subseteq> fst ` set (cd_nodes db)"
    by (force simp: nodeAt_def dest: tget_Some_mem split: option.splits)
  then show ?thesis by (rule finite_subset) simp
qed

lemma start_overfull:
  assumes g: "coordinatorGood K db" and big: "maxFleetBytes < storedBytes Z K db"
  shows "fst (startCoordinator C K Z E legacy T db) \<noteq> Inr ()"
proof
  assume "fst (startCoordinator C K Z E legacy T db) = Inr ()"
  then obtain S where b: "startCoordinator C K Z E legacy T db = (Inr (), S)" by (metis prod.collapse)
  obtain o1 d where o1: "openCoordinatorState E K legacy (T 0) db = (o1, d)" by fastforce
  obtain vs where vs: "o1 = Inr vs" and r: "fst (restore C K Z (later 3 E) vs (T 1)
      \<lparr>ms_streams = [], ms_nodes = [], ms_failure = None, ms_db = d\<rparr>) = Inr ()"
    using b o1 unfolding startCoordinator_def
    by (cases o1) (auto simp: bindS_def liftS_def wrapS_def split: sum.splits prod.splits)
  obtain y d1 where y: "ImportBindings (E 0) legacy db = (y, d1)" by fastforce
  obtain z d2 where z: "RecoverCommands (E 1) K (T 0) d1 = (z, d2)" by fastforce
  note s = ImportBindings_steady [OF y] RecoverCommands_steady [OF z]
  note g1 = steadyD(1,2) [OF s(1) g]
  note g2 = steadyD(1,2) [OF s(2) g1(1)]
  obtain w d3 where w: "LoadFleet (E 2) K d2 = (w, d3)" by fastforce
  have "w = Inr vs"
    using o1 vs unfolding openCoordinatorState_def
    by (cases y; cases z; cases w) (auto simp: bindS_def wrapS_def y z w simp del: One_nat_def)
  from LoadFleet_bytes [OF g2(1) w [unfolded this]] have size: "sum_list (map (nodeStateSize Z) vs) = storedBytes Z K db"
    using g1(2) g2(2) by (simp add: storedBytes_def)
  obtain R where "restoreLoop (k_pb K) Z (T 1) vs [] 0 \<lparr>ms_streams = [], ms_nodes = [], ms_failure = None, ms_db = d\<rparr> = Inr R"
    using r by (auto simp: restore_def split: if_splits sum.splits)
  from restoreLoop_effect [OF this] have "sum_list (map (nodeStateSize Z) vs) \<le> maxFleetBytes"
    by (simp add: indexed_def tget_def)
  then show False using size big by simp
qed

text \<open>
  C24. A new node can make the next start impossible.  The reports of a node are refused when they would
  take the fleet's native state over 2 MiB, but the state a new stream begins with is stored without that
  check, and a start refuses a stored fleet over the limit.  So if the fleet on disk is exactly full and a
  node that it does not hold opens a stream, the coordinator goes on, but no start succeeds from what is
  then on disk.
\<close>

theorem begin_can_block_restart:
  assumes "serverGood C K S" and "sc_stored C" and "storedBytes Z K (ms_db S) = 2 * 1024 * 1024"
    and "nodeAt K (ms_db S) (he_instance g) = None" and "expiredNodes (k_pb K) now S = []"
    and "\<And>status. status \<noteq> '''' \<Longrightarrow> 0 < size_herdr Z (emptyHerdr status)"
    and "beginStream C K E p g now S = (Inr h, S')"
  shows "ms_failure S' = None \<and> tget (ms_nodes S') (he_instance g) = Some h \<and>
    (\<forall>C' E' legacy T. fst (startCoordinator C' K Z E' legacy T (ms_db S')) \<noteq> Inr ())"
proof -
  let ?v = "emptyView (he_instance g) (pe_stable p) (HerdrReadCapability \<in> set (he_capabilities g)) (new_ts (k_pb K) now)"
  note e = beginLocked_effect [OF assms(1) assms(7) [unfolded beginStream_def]]
  have n: "nodeAt K (ms_db S') = (nodeAt K (ms_db S))(he_instance g \<mapsto> ?v)" using e assms(2,5) by simp
  have pos: "0 < nodeStateSize Z ?v"
    using assms(6) by (simp add: nodeStateSize_def sizeOfHerdr_def emptyView_def)
  have "he_instance g \<notin> dom (nodeAt K (ms_db S))" using assms(4) by (simp add: domIff)
  then have "storedBytes Z K (ms_db S') = nodeStateSize Z ?v + storedBytes Z K (ms_db S)"
    unfolding storedBytes_def n by (simp add: dom_nodeAt_finite) (rule sum.cong, auto)
  then have "maxFleetBytes < storedBytes Z K (ms_db S')" using pos assms(3) by (simp add: maxFleetBytes_def)
  moreover have "coordinatorGood K (ms_db S')" using e serverGoodD(1) by blast
  ultimately show ?thesis using e start_overfull by blast
qed

section \<open>Dispatch\<close>

lemma managed_ready:
  assumes g: "coordinatorGood K (ms_db S)" and cur: "current h S"
    and b: "managedProjectReadyLocked K E h project revision S = (Inr r, S')"
  obtains d ack where "projectAt K (ms_db S) (nv_instance (viewAt h S), project) = Some r" "prj_desired r = Some d"
    "tget (fs_applied (streamAt h S)) project = Some ack" "pa_generation ack = pc_generation d"
    "pa_status ack = ''applied''" "revision \<noteq> '''' \<longrightarrow> revision = ProjectRevision (pc_generation d)"
proof -
  let ?node = "nv_instance (viewAt h S)"
  obtain y db where y: "GetProject E K ?node project (ms_db S) = (y, db)" by fastforce
  have db: "db = ms_db S" using GetProject_read [OF y] .
  have f: "y = Inr r" "prj_readiness (fst (case projectViewLocked r S of (v, T) \<Rightarrow> (case v of Inr w \<Rightarrow> w | Inl e \<Rightarrow> r, T))) = ''applied''"
    "revision \<noteq> '''' \<longrightarrow> revision = ProjectRevision (generationOf r)"
    using b y db unfolding managedProjectReadyLocked_def projectCall_def storeS_def viewAt_def
    by (auto simp: bindS_eq_Inr handler_steps projectViewLocked_def projectErrorLocked_def commandErrorLocked_def
        failLocked_def errS_def split: sum.splits option.splits if_splits)
  have "readProject K (ms_db S) ?node project = Inr r"
    using operation_Inr(2) [OF y [unfolded f(1) GetProject_def]] by (auto simp: bindR_eq_Inr)
  moreover have "?node \<noteq> ''''" "project \<noteq> ''''"
    using operation_Inr(1) [OF y [unfolded f(1) GetProject_def]]
    by (auto simp: ValidIdempotencyKey_def dest: commandToken_nonempty split: if_splits)
  ultimately have at: "projectAt K (ms_db S) (?node, project) = Some r"
    using readProject_ok [OF coordinatorGoodD(6) [OF g]] by (simp split: option.splits)
  then obtain d where d: "prj_desired r = Some d" "(pc_node d, pc_project d) = (?node, project)"
    by (rule projectAt_facts) simp
  have "projectReadiness S d = ''applied''" using f(2) d(1) by (simp add: projectViewLocked_def)
  then show ?thesis
    using that at d f(3) cur
    by (auto simp: projectReadiness_def current_def generationOf_def split: if_splits option.splits)
qed

text \<open>
  C7. What may be handed to a node.  When a queued command is put on the wire, the stream is the newest of
  its node and not superseded, the store works, the command is addressed to that node and was still only
  accepted, its deadline has not passed at either reading of the clock and the time left is the TTL it
  carries; it is recorded as running and no other record changes.  If it is a mutation, the operator and
  the node were authorised again, the session it acts on is ready and fresh, and a centrally managed
  project is applied on the node in exactly the revision the command was bound to.
\<close>

theorem dispatch_authority:
  assumes "serverGood C K S" and "prepareCommand K policy E T authorized h pending S = (Inr (Some c), S')"
  shows "current h S \<and> ms_failure S = None \<and>
    (isMutation pending \<longrightarrow> authorized \<and>
       mutationReady (k_pb K) (streamAt h S) (c_type pending) (T 0) (fst (CommandSession pending)) (snd (CommandSession pending)) \<and>
       (fst (CommandProject pending) \<noteq> '''' \<longrightarrow> c_submitted pending \<noteq> None \<longrightarrow>
          fs_projects (streamAt h S) \<or> policy = None \<longrightarrow>
          (\<exists>ack. tget (fs_applied (streamAt h S)) (fst (CommandProject pending)) = Some ack \<and> pa_status ack = ''applied'' \<and>
             (snd (CommandProject pending) \<noteq> '''' \<longrightarrow> snd (CommandProject pending) = ProjectRevision (pa_generation ack))))) \<and>
    (\<exists>r original deadline. recordAt K (ms_db S) (c_id pending) = Some r \<and> rec_status r = ACCEPTED \<and>
       rec_command r = Some original \<and> c_target original = nv_instance (viewAt h S) \<and>
       deadline = asTimeOf (k_pb K) (c_expires original) \<and> T 1 < deadline \<and> T 2 < deadline \<and>
       c = original\<lparr>c_ttl := Some (new_du (k_pb K) (deadline - T 2))\<rparr> \<and>
       recordAt K (ms_db S') = (recordAt K (ms_db S))(c_id pending \<mapsto>
         transitioned (k_pb K) r RUNNING ''dispatched'' (T 1)))"
proof -
  let ?s = "streamAt h S" let ?node = "nv_instance (viewAt h S)"
  note g = serverGoodD(1) [OF assms(1)]
  obtain name inc where ni: "CommandSession pending = (name, inc)" by fastforce
  obtain project revision where pr: "CommandProject pending = (project, revision)" by fastforce
  obtain y U where y: "projectStillReady K policy (E 0) h pending S = (y, U)" by fastforce
  obtain z db where z: "DispatchCommand (E 1) K ?node (c_id pending) (T 1) (ms_db U) = (z, db)" by fastforce
  have run: "current h S" "ms_failure S = None" "\<exists>ready. y = Inr ready \<and> (isMutation pending \<longrightarrow> authorized \<and> ready \<and>
        mutationReady (k_pb K) ?s (c_type pending) (T 0) name inc)"
    "\<exists>r original. z = Inr (r, True) \<and> rec_command r = Some original \<and> T 2 < asTimeOf (k_pb K) (c_expires original) \<and>
       c = original\<lparr>c_ttl := Some (new_du (k_pb K) (asTimeOf (k_pb K) (c_expires original) - T 2))\<rparr> \<and> ms_db S' = db"
  proof -
    have h: "current h S" "ms_failure S = None"
      using assms(2) by (auto simp: prepareCommand_def bindS_eq_Inr handler_steps healthy_def split: if_splits)
    have r: "bindS (projectStillReady K policy (E 0) h pending) (\<lambda>ready.
       if isMutation pending \<and> (\<not> authorized \<or> \<not> ready \<or> \<not> mutationReady (k_pb K) ?s (c_type pending) (T 0) name inc)
       then bindS (commandCall (RejectCommand (E 1) K ?node (c_id pending) ''authorization_changed'' (T 1))) (\<lambda>_. okS None)
       else bindS (commandCall (DispatchCommand (E 1) K ?node (c_id pending) (T 1))) (\<lambda>(record, dispatch).
         case (if dispatch then rec_command record else None) of
           None \<Rightarrow> okS None
         | Some c \<Rightarrow> let remaining = asTimeOf (k_pb K) (c_expires c) - T 2 in
             if remaining \<le> 0
             then bindS (commandCall (FinishCommand (E 2) K ?node (nv_stable (fs_view ?s))
                    (Some (expiredResult (c_id c))) (T 3))) (\<lambda>_. okS None)
             else okS (Some (c\<lparr>c_ttl := Some (new_du (k_pb K) remaining)\<rparr>)))) S = (Inr (Some c), S')"
      using assms(2) h ni unfolding prepareCommand_def viewAt_def
      by (simp add: bindS_read bindS_steps(5) bindS_healthy Let_def split: if_splits)
    show "current h S" "ms_failure S = None" by (fact h)+
    obtain ready where ready: "y = Inr ready" "\<not> (isMutation pending \<and> (\<not> authorized \<or> \<not> ready \<or>
        \<not> mutationReady (k_pb K) ?s (c_type pending) (T 0) name inc))"
      using r y by (cases y) (auto simp: bindS_def okS_def split: if_splits prod.splits sum.splits)
    then show "\<exists>ready. y = Inr ready \<and> (isMutation pending \<longrightarrow> authorized \<and> ready \<and>
        mutationReady (k_pb K) ?s (c_type pending) (T 0) name inc)" by blast
    have "bindS (commandCall (DispatchCommand (E 1) K ?node (c_id pending) (T 1))) (\<lambda>(record, dispatch).
         case (if dispatch then rec_command record else None) of
           None \<Rightarrow> okS None
         | Some c \<Rightarrow> let remaining = asTimeOf (k_pb K) (c_expires c) - T 2 in
             if remaining \<le> 0
             then bindS (commandCall (FinishCommand (E 2) K ?node (nv_stable (fs_view ?s))
                    (Some (expiredResult (c_id c))) (T 3))) (\<lambda>_. okS None)
             else okS (Some (c\<lparr>c_ttl := Some (new_du (k_pb K) remaining)\<rparr>))) U = (Inr (Some c), S')"
      using r unfolding bindS_run [where m = "projectStillReady K policy (E 0) h pending", OF y [unfolded ready(1)]]
        if_not_P [OF ready(2)] .
    then show "\<exists>r original. z = Inr (r, True) \<and> rec_command r = Some original \<and> T 2 < asTimeOf (k_pb K) (c_expires original) \<and>
       c = original\<lparr>c_ttl := Some (new_du (k_pb K) (asTimeOf (k_pb K) (c_expires original) - T 2))\<rparr> \<and> ms_db S' = db"
      using z by (auto simp: bindS_eq_Inr commandCall_Inr okS_def Let_def split: if_splits option.splits)
  qed
  have U: "ms_db U = ms_db S"
  proof -
    have "ms_db V = ms_db S" if "managedProjectReadyLocked K (E 0) h project revision S = (v, V)" for v V
      using upholdsD [OF same_managed that] by (simp add: sameState_def)
    then show ?thesis using y pr by (auto simp: projectStillReady_def split: prod.splits sum.splits if_splits)
  qed
  obtain r c0 where r: "z = Inr (r, True)" "rec_command r = Some c0" "T 2 < asTimeOf (k_pb K) (c_expires c0)"
    "c = c0\<lparr>c_ttl := Some (new_du (k_pb K) (asTimeOf (k_pb K) (c_expires c0) - T 2))\<rparr>" "ms_db S' = db"
    using run(4) by blast
  have body: "dispatchBody K ?node (c_id pending) (T 1) (ms_db S) = Inr ((r, True), db)"
    using DispatchCommand_Inr z r(1) U by simp
  obtain r0 where r0: "recordAt K (ms_db S) (c_id pending) = Some r0" "rec_command r0 = Some c0" "c_target c0 = ?node"
    "recordAt K db = (recordAt K (ms_db S))(c_id pending \<mapsto> transitioned (k_pb K) r0 RUNNING ''dispatched'' (T 1))"
    "rec_status r0 = ACCEPTED" "T 1 < asTimeOf (k_pb K) (c_expires c0)"
    by (rule dispatchBody_good [OF coordinatorGoodD(4,1) [OF g] body])
      (use r(2) in \<open>auto simp: transitioned_def expiryOf_def\<close>)
  have managed: "\<exists>ack. tget (fs_applied ?s) project = Some ack \<and> pa_status ack = ''applied'' \<and>
      (revision \<noteq> '''' \<longrightarrow> revision = ProjectRevision (pa_generation ack))"
    if "isMutation pending" "project \<noteq> ''''" "c_submitted pending \<noteq> None" "fs_projects ?s \<or> policy = None"
  proof -
    have "\<exists>v V. managedProjectReadyLocked K (E 0) h project revision S = (Inr v, V)"
      using y run(3) that pr by (auto simp: projectStillReady_def split: prod.splits sum.splits if_splits)
    then obtain v V where v: "managedProjectReadyLocked K (E 0) h project revision S = (Inr v, V)" by blast
    show ?thesis by (rule managed_ready [OF g run(1) v]) auto
  qed
  show ?thesis
  proof (intro conjI)
    show "\<exists>r original deadline. recordAt K (ms_db S) (c_id pending) = Some r \<and> rec_status r = ACCEPTED \<and>
       rec_command r = Some original \<and> c_target original = nv_instance (viewAt h S) \<and>
       deadline = asTimeOf (k_pb K) (c_expires original) \<and> T 1 < deadline \<and> T 2 < deadline \<and>
       c = original\<lparr>c_ttl := Some (new_du (k_pb K) (deadline - T 2))\<rparr> \<and>
       recordAt K (ms_db S') = (recordAt K (ms_db S))(c_id pending \<mapsto>
         transitioned (k_pb K) r RUNNING ''dispatched'' (T 1))"
      using r r0 by blast
  qed (use run(1-3) managed in \<open>auto simp add: ni pr\<close>)
qed

section \<open>Submission\<close>

lemma createBody_existing:
  assumes "coordinatorGood K db" and "createBody K c stamp db = Inr ((r, False), db')"
  shows "db' = db \<and> (\<exists>i d. recordAt K db i = Some r \<and> rec_command r = Some d \<and> actorOf d = actorOf c \<and> c_key d = c_key c)"
proof -
  note g = coordinatorGoodD [OF assms(1)]
  have f: "db' = db" "readCommand K db (byKey (actorOf c) (c_key c)) = Inr r"
    using createBody_cases [OF g(4,1) assms(2)] by simp_all
  from readCommand_byKey [OF g(4) f(2)] show ?thesis using f(1) by metis
qed

text \<open>
  C14. What an accepted submission means.  The caller bears the operator tag and the request is valid in
  its normal form.  The answer is a stored record of the caller under the request's key.  Either it was
  there before and nothing at all changes; or it is new: the node's newest stream is connected, ready for
  this kind of request and has room, the record is accepted, names the caller, the target and the deadline
  the TTL gives, it is the only record that changes, and the command is last in the stream's queue, which
  no other stream's is touched for.
\<close>

theorem submit_accepts:
  assumes "serverGood C K S" and "SubmitCommand C K policy E T who cid request S = (Inr record, S')"
  shows "\<exists>p r c. operatorOf C who = Inr p \<and> NormalizeCommandRequest (k_pb K) request = Inr r \<and>
    rec_command record = Some c \<and> actorOf c = pe_stable p \<and> c_key c = sr_key r \<and>
    (\<exists>i. recordAt K (ms_db S') i = Some record) \<and> ms_nodes S' = ms_nodes S \<and>
    (recordAt K (ms_db S') = recordAt K (ms_db S) \<and> ms_streams S' = ms_streams S \<or>
     (\<exists>h. tget (ms_nodes S) (sr_node r) = Some h \<and> current h S \<and> nv_connected (viewAt h S) \<and>
        admissionReady C (k_pb K) (T 0) r (streamAt h S) = Inr () \<and> length (fs_outbound (streamAt h S)) < 16 \<and>
        rec_status record = ACCEPTED \<and> c_id c = cid \<and> c_type c = sr_type r \<and> c_target c = sr_node r \<and>
        c_expires c = Some (new_ts (k_pb K) (T 3 + asDurationOf (k_pb K) (sr_ttl r))) \<and>
        recordAt K (ms_db S) cid = None \<and> recordAt K (ms_db S') = (recordAt K (ms_db S))(cid \<mapsto> record) \<and>
        ms_streams S' = (ms_streams S)[h := (streamAt h S)\<lparr>fs_outbound := fs_outbound (streamAt h S) @ [c]\<rparr>]))"
  using assms(2)
proof (cases rule: SubmitCommand_cases)
  case (again p r existing c)
  obtain i d where d: "recordAt K (ms_db S) i = Some existing" "rec_command existing = Some d"
    "actorOf d = pe_stable p" "c_key d = sr_key r"
    using FindCommand_found [OF again(5) serverGoodD(1) [OF assms(1)]] by blast
  then have "c = d" using again(6) by simp
  then show ?thesis using again d by blast
next
  case (fresh p r h)
  from fresh(7) show ?thesis
  proof (cases rule: submitFresh_cases)
    case (asked U c y db)
    have gU: "serverGood C K U" by (rule quiet_good [OF asked(1) assms(1)])
    note gd = serverGoodD(1) [OF gU]
    have U: "ms_streams U = ms_streams S" "ms_nodes U = ms_nodes S" "ms_db U = ms_db S"
      using asked(2) by (simp_all add: sameState_def)
    obtain rc created where y: "y = Inr (rc, created)"
    proof (cases y)
      case (Inl e)
      then have "commandErrorLocked e (U\<lparr>ms_db := db\<rparr>) = (Inr record, S')" using asked(12) by simp
      from commandError_Inl [OF this] show ?thesis by simp
    qed (use that in fastforce)
    have body: "createBody K c (new_ts (k_pb K) (T 3)) (ms_db S) = Inr ((rc, created), db)"
      using CreateCommand_cases(2) asked(11) y U(3) by simp
    show ?thesis
    proof (cases created)
      case False
      then have s: "record = rc" "S' = U\<lparr>ms_db := db\<rparr>" using asked(12) y by (simp_all add: okS_def)
      have "createBody K c (new_ts (k_pb K) (T 3)) (ms_db S) = Inr ((rc, False), db)" using body False by simp
      from createBody_existing [OF gd [unfolded U(3)] this] obtain i d where
        "db = ms_db S" "recordAt K (ms_db S) i = Some rc" "rec_command rc = Some d" "actorOf d = actorOf c" "c_key d = c_key c"
        by blast
      then show ?thesis using s U fresh(1,2) asked(6,9) by (intro exI [of _ p] exI [of _ r] exI [of _ d]) auto
    next
      case True
      have "createBody K c (new_ts (k_pb K) (T 3)) (ms_db S) = Inr ((rc, True), db)" using body True by simp
      note b = createBody_cases [OF coordinatorGoodD(4,1) [OF gd [unfolded U(3)]] this, simplified]
      have rc: "rec_command rc = Some c" "rec_status rc = ACCEPTED" using b by (simp_all add: newRecord_def)
      have run: "bindS (enqueueCommand h rc) (\<lambda>_. okS rc) (U\<lparr>ms_db := db\<rparr>) = (Inr record, S')"
        using asked(12) y True by simp
      have out: "fs_outbound (streamAt h (U\<lparr>ms_db := db\<rparr>)) = fs_outbound (streamAt h S)"
        using U(1) by (simp add: streamAt_def)
      have S': "record = rc" "S' = putStream h (\<lambda>s. s\<lparr>fs_outbound := fs_outbound s @ [c]\<rparr>) (U\<lparr>ms_db := db\<rparr>)"
        using run rc(1) out asked(4) by (simp_all add: bindS_def enqueueCommand_def handler_steps)
      have st: "ms_streams S' = (ms_streams S)[h := (streamAt h S)\<lparr>fs_outbound := fs_outbound (streamAt h S) @ [c]\<rparr>]"
        using U(1) by (simp add: S'(2) putStream_def streamAt_def)
      have rest: "ms_nodes S' = ms_nodes S" "ms_db S' = db" using U(2) by (simp_all add: S'(2))
      show ?thesis
        using fresh(1,2,4,5,6) asked(3-10) asked(13) b rc S'(1) st rest
        by (intro exI [of _ p] exI [of _ r] exI [of _ c]) (auto simp: fun_upd_def)
    qed
  qed simp
qed simp

section \<open>The properties on the sample coordinator\<close>

lemma sample_run: "serverRun sampleService sampleCodecs sampleSizes None (\<lambda>ks. ks) oneNode (liveServer oneNode)"
  unfolding serverRun_def using sample_start sample_steps by blast

lemma sample_run_submitted: "serverRun sampleService sampleCodecs sampleSizes None (\<lambda>ks. ks) oneNode queuedServer"
proof -
  have "(serverStep sampleService sampleCodecs sampleSizes None (\<lambda>ks. ks))\<^sup>*\<^sup>* (emptyServer oneNode) queuedServer"
    using sample_steps serverStep.submit [OF live_submit] by (rule rtranclp.rtrancl_into_rtrancl)
  then show ?thesis unfolding serverRun_def using sample_start by blast
qed

lemma fleet_mirrors_store_witness:
  "map_option lasting (nodeAt sampleCodecs (withNodes snapshot oneNode) ''node-1'') = Some (lasting liveView)"
  using fleet_mirrors_store [OF oneNode_good _ sample_run] by (simp add: tget_def)

lemma submit_accepts_witness: "\<exists>i. recordAt sampleCodecs (freshStore 990) i = Some (fresh 990)"
  using submit_accepts [OF live_sample(1) live_submit] by auto

lemma active_commands_attended_witness:
  "\<exists>h. tget (ms_nodes queuedServer) ''node-1'' = Some h \<and> nv_connected (viewAt h queuedServer)"
proof -
  have f: "rec_status (fresh 990) = ACCEPTED" "rec_command (fresh 990) = Some probeCommand"
    by (simp_all add: fresh_def newRecord_def)
  from active_commands_attended [OF oneNode_good _ sample_run_submitted _ _ _ f(2)] f(1) fresh_stored show ?thesis
    by (simp add: probe_fields)
qed

lemma restart_keeps_fleet_witness:
  "\<exists>S. startCoordinator sampleService sampleCodecs sampleSizes (\<lambda>_. calm) [] (\<lambda>_. at_ns 991)
     (withNodes snapshot oneNode) = (Inr (), S) \<and> fleetViews S ''node-1'' = Some (lasting liveView)"
proof -
  obtain S where S: "startCoordinator sampleService sampleCodecs sampleSizes (\<lambda>_. calm) [] (\<lambda>_. at_ns 991)
     (ms_db (liveServer oneNode)) = (Inr (), S)" using sample_restart by blast
  have young: "\<not> 15 * 60 * 1000000000 < at_ns 991 - asTimeOf samplePb (nv_last_seen liveView)"
    by (simp add: liveView_def firstView_def emptyView_def asTimeOf_def at_ns_def at_second_def)
  have "fleetViews S ''node-1'' = fleetViews (liveServer oneNode) ''node-1''"
    using restart_keeps_fleet [OF oneNode_good _ sample_run _ S] young by (fastforce simp: tget_def)
  then show ?thesis using S by (simp add: fleetViews_def tget_def)
qed

lemma begin_needs_forward_clock_witness:
  "\<exists>e S. beginStream sampleService sampleCodecs (\<lambda>_. calm) \<lparr>pe_stable = ''n1'', pe_tags = []\<rparr> (greeting ''node-1'') (at_ns 990)
     (liveServer (storeOf probeCommand (admitted probeCommand))) = (Inl e, S) \<and> ms_failure S \<noteq> None"
proof -
  let ?S = "liveServer (storeOf probeCommand (admitted probeCommand))"
  obtain x S where b: "beginStream sampleService sampleCodecs (\<lambda>_. calm) \<lparr>pe_stable = ''n1'', pe_tags = []\<rparr>
      (greeting ''node-1'') (at_ns 990) ?S = (x, S)" by fastforce
  have at: "recordAt sampleCodecs (ms_db ?S) sampleId = Some (admitted probeCommand)"
    using sample_at(1) by simp
  have u: "at_ns 990 < asTimeOf samplePb (rec_updated (admitted probeCommand))"
    by (simp add: run_records asTimeOf_def del: samplePb_simps)
  from begin_needs_forward_clock [OF live_sample(2) _ _ at _ run_fields(1) _ _ _ b] u b show ?thesis
    by (auto simp: run_fields probe_fields maxNodeBytes_def simp del: samplePb_simps)
qed

lemma begin_can_block_restart_witness:
  "\<exists>S. beginStream sampleService sampleCodecs (\<lambda>_. calm) \<lparr>pe_stable = ''n2'', pe_tags = []\<rparr> (greeting ''node-2'') (at_ns 990)
     (liveServer twoNodes) = (Inr 1, S) \<and>
   fst (startCoordinator sampleService sampleCodecs sampleSizes (\<lambda>_. calm) [] (\<lambda>_. at_ns 991) (ms_db S)) \<noteq> Inr ()"
proof -
  obtain S where S: "beginStream sampleService sampleCodecs (\<lambda>_. calm) \<lparr>pe_stable = ''n2'', pe_tags = []\<rparr>
      (greeting ''node-2'') (at_ns 990) (liveServer twoNodes) = (Inr 1, S)" using twoNodes_begin by blast
  have n: "nodeAt sampleCodecs (withNodes snapshot twoNodes) = [''node-1'' \<mapsto> liveView]"
  proof (rule ext)
    fix i
    have "stableOf (cd_bindings twoNodes) ''node-1'' = Some ''n1''" by (simp add: twoNodes_def stableOf_def tselect_def)
    then show "nodeAt sampleCodecs (withNodes snapshot twoNodes) i = [''node-1'' \<mapsto> liveView] i"
      using live_decoded by (simp add: nodeAt_def snapshot_def tget_def)
  qed
  have z: "nodeStateSize sampleSizes liveView = 2 * 1024 * 1024"
    by (simp add: nodeStateSize_def sampleSizes_def sizeOfHerdr_def liveView_def firstView_def emptyView_def)
  have full: "storedBytes sampleSizes sampleCodecs (ms_db (liveServer twoNodes)) = 2 * 1024 * 1024"
    by (simp add: storedBytes_def n z)
  have e: "expiredNodes samplePb (at_ns 990) (liveServer twoNodes) = []" by (simp add: expiredNodes_def)
  from begin_can_block_restart [OF twoNodes_good _ full _ _ _ S] S e show ?thesis
    by (auto simp: n sampleSizes_def)
qed

lemma dispatch_authority_witness:
  "rec_status (admitted probeCommand) = ACCEPTED \<and> at_ns 996 < asTimeOf samplePb (c_expires probeCommand)"
proof -
  obtain S where S: "prepareCommand sampleCodecs None (\<lambda>_. calm) (\<lambda>_. at_ns 996) True 0 probeCommand
     (liveServer (storeOf probeCommand (admitted probeCommand))) =
   (Inr (Some (probeCommand\<lparr>c_ttl := Some (seconds 4)\<rparr>)), S)" using live_dispatch by blast
  note d = dispatch_authority [OF live_sample(2) S]
  then obtain r original where "recordAt sampleCodecs (storeOf probeCommand (admitted probeCommand)) sampleId = Some r"
    "rec_status r = ACCEPTED" "rec_command r = Some original" "at_ns 996 < asTimeOf samplePb (c_expires original)"
    by (auto simp: probe_fields(1))
  then show ?thesis using sample_at(1) run_fields(1) [of probeCommand] by simp
qed

end
