(* ===== verification/NativeJson.thy ===== *)
theory NativeJson
  imports ProtoAgents
begin

text \<open>
  What the adapter to the native program reads from its answers: protocol.go, metadata.go, display.go
  and the parsers of agent.go and workspace.go of the herdr package.  A frame that passed
  \<open>frameReader.object\<close> is one JSON value without duplicate keys; \<open>encoding/json\<close> is modelled on such
  values: \<open>Unmarshal\<close> into a string, bool, unsigned integer, list of raw values or object succeeds exactly
  on the matching kind.
\<close>

section \<open>Values\<close>

text \<open>\<open>JInt\<close> is a literal without fraction or exponent, \<open>JNumber\<close> any other number.\<close>

datatype json =
    JNull
  | JBool bool
  | JInt int
  | JNumber
  | JString string
  | JArray "json list"
  | JObject "(string \<times> json) list"

type_synonym object = "(string \<times> json) list"

definition apiError :: "string \<Rightarrow> err" where
  "apiError code = Wrap ''herdr api'' (Msg code)"

definition category :: "err \<Rightarrow> string" where
  "category e = (case e of Wrap text (Msg code) \<Rightarrow> if text = ''herdr api'' then code else ''io_error''
     | _ \<Rightarrow> ''io_error'')"

definition badSnapshot :: err where
  "badSnapshot = apiError ''invalid_snapshot''"

text \<open>\<open>value[key]\<close>: what is missing reads as an empty raw message, which \<open>decodeRequired\<close> refuses as it does null.\<close>

definition member_at :: "object \<Rightarrow> string \<Rightarrow> json" where
  "member_at v key = (case map_of v key of None \<Rightarrow> JNull | Some raw \<Rightarrow> raw)"

definition decodeObject :: "json \<Rightarrow> object res" where
  "decodeObject raw = (case raw of JObject v \<Rightarrow> Inr v | _ \<Rightarrow> Inl badSnapshot)"

definition decodeString :: "json \<Rightarrow> string res" where
  "decodeString raw = (case raw of JString s \<Rightarrow> Inr s | _ \<Rightarrow> Inl badSnapshot)"

definition decodeBool :: "json \<Rightarrow> bool res" where
  "decodeBool raw = (case raw of JBool b \<Rightarrow> Inr b | _ \<Rightarrow> Inl badSnapshot)"

definition decodeList :: "json \<Rightarrow> json list res" where
  "decodeList raw = (case raw of JArray vs \<Rightarrow> Inr vs | _ \<Rightarrow> Inl badSnapshot)"

text \<open>An unsigned integer of the word's width.\<close>

definition decodeUint :: "json \<Rightarrow> 'w::len word res" where
  "decodeUint raw = (case raw of
     JInt n \<Rightarrow> if 0 \<le> n \<and> n < 2 ^ LENGTH('w) then Inr (word_of_int n) else Inl badSnapshot
   | _ \<Rightarrow> Inl badSnapshot)"

text \<open>A list of strings; a null element leaves the empty string.\<close>

definition stringElement :: "json \<Rightarrow> bool" where
  "stringElement raw = (case raw of JNull \<Rightarrow> True | JString s \<Rightarrow> True | _ \<Rightarrow> False)"

definition decodeStrings :: "json \<Rightarrow> string list res" where
  "decodeStrings raw = bindR (decodeList raw) (\<lambda>vs.
     if \<not> list_all stringElement vs then Inl badSnapshot
     else Inr (map (\<lambda>v. case v of JString s \<Rightarrow> s | _ \<Rightarrow> '''') vs))"

section \<open>Versions\<close>

definition all_digits :: "string \<Rightarrow> bool" where
  "all_digits s = (s \<noteq> [] \<and> list_all is_digit s)"

definition tag_char :: "char \<Rightarrow> bool" where
  "tag_char c = (is_digit c \<or> is_lower c \<or> is_upper c \<or> byte c = 46 \<or> byte c = 45)"

definition tag_start :: "char \<Rightarrow> bool" where
  "tag_start c = (is_digit c \<or> is_lower c \<or> is_upper c)"

text \<open>An optional tag introduced by the byte \<open>mark\<close>: what is left after it, or nothing if it is malformed.\<close>

definition skipTag :: "nat \<Rightarrow> string \<Rightarrow> string option" where
  "skipTag mark s = (case s of
     [] \<Rightarrow> Some []
   | c # cs \<Rightarrow>
       if byte c \<noteq> mark then Some s
       else (case cs of [] \<Rightarrow> None | d # ds \<Rightarrow> if tag_start d then Some (dropWhile tag_char ds) else None))"

definition skipNumber :: "string \<Rightarrow> string option" where
  "skipNumber s = (if takeWhile is_digit s = [] then None else Some (dropWhile is_digit s))"

definition skipDot :: "string \<Rightarrow> string option" where
  "skipDot s = (case s of [] \<Rightarrow> None | c # cs \<Rightarrow> if byte c = 46 then Some cs else None)"

text \<open>\<open>versionPattern\<close>: three numbers, then a tag after a dash, then one after a plus sign.\<close>

definition versionPattern :: "string \<Rightarrow> bool" where
  "versionPattern s =
     (let t = (case s of [] \<Rightarrow> [] | c # cs \<Rightarrow> if byte c = 118 then cs else s) in
      Option.bind (Option.bind (Option.bind (Option.bind (Option.bind (Option.bind (Option.bind
        (Some t) skipNumber) skipDot) skipNumber) skipDot) skipNumber) (skipTag 45)) (skipTag 43) = Some [])"

definition versionProtocol :: "object \<Rightarrow> (string \<times> 32 word) res" where
  "versionProtocol v = (case decodeString (member_at v ''version'') of
     Inl e \<Rightarrow> Inl badSnapshot
   | Inr version \<Rightarrow>
       if 128 < length version \<or> \<not> versionPattern version then Inl badSnapshot
       else (case decodeUint (member_at v ''protocol'') of
           Inl e \<Rightarrow> Inl badSnapshot
         | Inr protocol \<Rightarrow> if protocol = 0 then Inl badSnapshot else Inr (version, protocol)))"

definition SupportsProtocol :: "int \<Rightarrow> bool" where
  "SupportsProtocol version = (version = 18 \<or> version = 20 \<or> version = 22)"

section \<open>Display metadata\<close>

definition displayString :: "object \<Rightarrow> string \<Rightarrow> string res" where
  "displayString entry key =
     (if member_at entry key = JNull then Inr ''''
      else case decodeString (member_at entry key) of Inl e \<Rightarrow> Inl badSnapshot | Inr s \<Rightarrow> Inr s)"

definition displayDirectory :: "object \<Rightarrow> string \<Rightarrow> string res" where
  "displayDirectory entry kind =
     (if kind = ''workspaces'' then
        (if member_at entry ''worktree'' = JNull then Inr ''''
         else bindR (decodeObject (member_at entry ''worktree'')) (\<lambda>w. displayString w ''checkout_path''))
      else if kind = ''panes'' \<or> kind = ''agents'' then
        bindR (displayString entry ''foreground_cwd'') (\<lambda>directory.
          if directory = '''' then displayString entry ''cwd'' else Inr directory)
      else Inr '''')"

definition displayMetadata :: "object \<Rightarrow> string \<Rightarrow> (string \<times> string) res" where
  "displayMetadata entry kind =
     bindR (displayString entry (if kind = ''agents'' then ''name'' else ''label'')) (\<lambda>name.
       bindR (displayDirectory entry kind) (\<lambda>directory.
         if \<not> ValidDisplayMetadata name directory then Inl badSnapshot else Inr (name, directory)))"

section \<open>Entities\<close>

text \<open>The switch of the session reference that both parsers share; \<open>expected\<close> is the provider it must name.\<close>

definition providerSession :: "object \<Rightarrow> string \<Rightarrow> string res" where
  "providerSession info expected =
     (if member_at info ''agent_session'' = JNull then Inr ''''
      else bindR (decodeObject (member_at info ''agent_session'')) (\<lambda>session.
        bindR (decodeString (member_at session ''kind'')) (\<lambda>kind.
        bindR (decodeString (member_at session ''value'')) (\<lambda>value.
        bindR (decodeString (member_at session ''agent'')) (\<lambda>provider.
        bindR (decodeString (member_at session ''source'')) (\<lambda>source.
          if kind = ''id'' then
            (if \<not> commandToken value \<or> list_ex (\<lambda>c. byte c = 58) value \<or> provider \<noteq> expected
             then Inl badSnapshot else Inr value)
          else if kind = ''path'' then Inr '''' else Inl badSnapshot))))))"

definition optionalID :: "object \<Rightarrow> string \<Rightarrow> bool \<Rightarrow> string res" where
  "optionalID info key nullable = (case map_of info key of
     None \<Rightarrow> Inr ''''
   | Some raw \<Rightarrow>
       if nullable \<and> raw = JNull then Inr ''''
       else bindR (decodeString raw) (\<lambda>s. if \<not> commandToken s then Inl badSnapshot else Inr s))"

definition readEntityObservation :: "object \<Rightarrow> herdr_entity \<Rightarrow> herdr_entity res" where
  "readEntityObservation info e =
     bindR (optionalID info ''terminal_id'' False) (\<lambda>terminal.
     bindR (optionalID info ''agent'' True) (\<lambda>provider.
     bindR (case map_of info ''interactive_ready'' of
         None \<Rightarrow> Inr None
       | Some raw \<Rightarrow> bindR (decodeBool raw) (\<lambda>b. Inr (Some b))) (\<lambda>ready.
     bindR (providerSession info (if provider = '''' then ''unknown'' else provider)) (\<lambda>session.
       Inr (e\<lparr>en_provider := provider, en_interactive := ready, en_terminal := terminal,
         en_provider_session := session\<rparr>)))))"

definition requiredID :: "object \<Rightarrow> string \<Rightarrow> string res" where
  "requiredID entry key = bindR (decodeString (member_at entry key)) (\<lambda>s.
     if \<not> commandToken s then Inl badSnapshot else Inr s)"

definition knownStatus :: "string \<Rightarrow> string" where
  "knownStatus s = (if s \<in> set agentStatuses then s else ''unknown'')"

definition blankEntity :: herdr_entity where
  "blankEntity = \<lparr>en_id = '''', en_workspace = '''', en_tab = '''', en_agent_status = '''',
     en_focused = False, en_provider = '''', en_interactive = None, en_terminal = '''',
     en_provider_session = '''', en_project = '''', en_display_name = '''', en_directory = '''', en_unk = []\<rparr>"

definition sanitizeEntity :: "object \<Rightarrow> string \<Rightarrow> herdr_entity res" where
  "sanitizeEntity entry idField =
     bindR (requiredID entry idField) (\<lambda>ident.
     bindR (decodeBool (member_at entry ''focused'')) (\<lambda>focused.
     bindR (decodeString (member_at entry ''agent_status'')) (\<lambda>status.
     bindR (if idField = ''workspace_id'' then Inr '''' else requiredID entry ''workspace_id'') (\<lambda>workspace.
     bindR (if idField = ''pane_id'' then requiredID entry ''tab_id'' else Inr '''') (\<lambda>tab.
     let e = blankEntity\<lparr>en_id := ident, en_focused := focused, en_agent_status := knownStatus status,
           en_workspace := workspace, en_tab := tab\<rparr> in
     if idField = ''pane_id'' then readEntityObservation entry e else Inr e)))))"

section \<open>Snapshots\<close>

text \<open>
  Which project a repository belongs to.  One snapshot asks the registry once for each root
  and keeps the answer, so within it the registry is a function.
\<close>

type_synonym resolver = "(string \<Rightarrow> string res) option"

definition absolutePath :: "string \<Rightarrow> bool" where
  "absolutePath path = (case path of [] \<Rightarrow> False | c # cs \<Rightarrow> byte c = 47)"

definition validWorkspacePath :: "string \<Rightarrow> bool" where
  "validWorkspacePath path = (length path \<noteq> 0 \<and> length path \<le> 32768 \<and> valid_utf8 path \<and>
     absolutePath path \<and> \<not> has_prefix path [CHR 0x5C, CHR 0x5C] \<and> \<not> has_prefix path ''//'' \<and>
     list_all (\<lambda>r. 32 \<le> r \<and> r \<noteq> 127) (range_runes path))"

definition workspaceProject :: "object \<Rightarrow> (string \<Rightarrow> string res) \<Rightarrow> string res" where
  "workspaceProject entry R =
     (if member_at entry ''worktree'' = JNull then Inr ''''
      else case bindR (decodeObject (member_at entry ''worktree'')) (\<lambda>w. decodeString (member_at w ''repo_root'')) of
        Inl e \<Rightarrow> Inl (apiError ''project_unavailable'')
      | Inr root \<Rightarrow>
          if \<not> validWorkspacePath root then Inl (apiError ''project_unavailable'')
          else bindR (R root) (\<lambda>project.
            if project \<noteq> '''' \<and> \<not> commandToken project then Inl (apiError ''project_unavailable'')
            else Inr project))"

definition observedProject :: "object \<Rightarrow> resolver \<Rightarrow> string \<Rightarrow> string" where
  "observedProject entry R kind = (case R of
     None \<Rightarrow> ''''
   | Some ask \<Rightarrow> if kind = ''workspaces'' then (case workspaceProject entry ask of Inl e \<Rightarrow> '''' | Inr p \<Rightarrow> p) else '''')"

fun entryLoop :: "resolver \<Rightarrow> string \<Rightarrow> string \<Rightarrow> string list \<Rightarrow> json list \<Rightarrow> herdr_entity list res" where
  "entryLoop R kind idField seen [] = Inr []"
| "entryLoop R kind idField seen (raw # rest) =
     bindR (decodeObject raw) (\<lambda>entry.
     bindR (sanitizeEntity entry idField) (\<lambda>e.
     bindR (displayMetadata entry kind) (\<lambda>(name, directory).
     if en_id e \<in> set seen then Inl badSnapshot
     else bindR (entryLoop R kind idField (en_id e # seen) rest) (\<lambda>es.
       Inr (e\<lparr>en_display_name := name, en_directory := directory, en_project := observedProject entry R kind\<rparr> # es)))))"

text \<open>One round of the loop over the collections; \<open>before\<close> counts the entries so far.\<close>

definition entriesOf :: "object \<Rightarrow> string \<Rightarrow> nat \<Rightarrow> json list res" where
  "entriesOf snapshot kind before = bindR (decodeList (member_at snapshot kind)) (\<lambda>entries.
     if 4096 < before + length entries then Inl (apiError ''too_many_entities'') else Inr entries)"

definition inheritWorkspaceProjects :: "herdr_entity list \<Rightarrow> herdr_entity list \<Rightarrow> herdr_entity list" where
  "inheritWorkspaceProjects workspaces es = map (\<lambda>e. e\<lparr>en_project :=
     (case map_of (rev (map (\<lambda>w. (en_id w, en_project w)) workspaces)) (en_workspace e) of None \<Rightarrow> '''' | Some p \<Rightarrow> p)\<rparr>) es"

definition focusOk :: "object \<Rightarrow> bool" where
  "focusOk snapshot = list_all (\<lambda>name. member_at snapshot name = JNull \<or>
     is_ok (requiredID snapshot name)) [''focused_workspace_id'', ''focused_tab_id'', ''focused_pane_id'']"

definition sanitizeSnapshotWithProjects :: "json \<Rightarrow> resolver \<Rightarrow> herdr_state res" where
  "sanitizeSnapshotWithProjects raw R =
     bindR (decodeObject raw) (\<lambda>snapshot.
     bindR (versionProtocol snapshot) (\<lambda>(version, protocol).
     if \<not> SupportsProtocol (uint protocol) then Inl (apiError ''unsupported_protocol'')
     else if \<not> focusOk snapshot then Inl badSnapshot
     else bindR (entriesOf snapshot ''workspaces'' 0) (\<lambda>ws.
       bindR (entryLoop R ''workspaces'' ''workspace_id'' [] ws) (\<lambda>workspaces.
       bindR (entriesOf snapshot ''tabs'' (length ws)) (\<lambda>ts.
       bindR (entryLoop R ''tabs'' ''tab_id'' [] ts) (\<lambda>tabs.
       bindR (entriesOf snapshot ''panes'' (length ws + length ts)) (\<lambda>ps.
       bindR (entryLoop R ''panes'' ''pane_id'' [] ps) (\<lambda>panes.
       bindR (entriesOf snapshot ''agents'' (length ws + length ts + length ps)) (\<lambda>as.
       bindR (entryLoop R ''agents'' ''pane_id'' [] as) (\<lambda>agents.
       bindR (entriesOf snapshot ''layouts'' (length ws + length ts + length ps + length as)) (\<lambda>ls.
       if list_ex (\<lambda>l. \<not> is_ok (decodeObject l)) ls then Inl badSnapshot
       else Inr \<lparr>hs_status = ''ready'', hs_version = version, hs_protocol = protocol, hs_sequence = 0,
         hs_observed = None, hs_error = '''', hs_workspaces = workspaces,
         hs_tabs = inheritWorkspaceProjects workspaces tabs,
         hs_panes = inheritWorkspaceProjects workspaces panes,
         hs_agents = inheritWorkspaceProjects workspaces agents, hs_unk = []\<rparr>)))))))))))"

section \<open>Agents and workspaces\<close>

text \<open>The sentinel errors of the adapter.\<close>

definition ErrAgentUnavailable :: err where "ErrAgentUnavailable = Msg ''herdr: agent unavailable''"
definition ErrAgentPrecondition :: err where "ErrAgentPrecondition = Msg ''herdr: agent precondition failed''"
definition ErrAgentBusy :: err where "ErrAgentBusy = Msg ''herdr: agent busy''"
definition ErrAgentBlocked :: err where "ErrAgentBlocked = Msg ''herdr: agent blocked''"
definition ErrAgentIndeterminate :: err where "ErrAgentIndeterminate = Msg ''herdr: agent outcome unknown''"
definition ErrAgentUnsupported :: err where "ErrAgentUnsupported = Msg ''herdr: agent operation unsupported''"
definition ErrAgentChanged :: err where "ErrAgentChanged = Msg ''herdr: agent identity changed''"
definition ErrLifecyclePersistence :: err where "ErrLifecyclePersistence = Msg ''herdr: lifecycle persistence failed''"
definition ErrLifecycleLastPane :: err where "ErrLifecycleLastPane = Msg ''herdr: refusing to close the workspace's last pane''"
definition ErrWorkspacePrecondition :: err where "ErrWorkspacePrecondition = Msg ''herdr: workspace precondition failed''"
definition ErrWorkspaceAmbiguous :: err where "ErrWorkspaceAmbiguous = Msg ''herdr: workspace ambiguous''"
definition ErrWorkspaceUnavailable :: err where "ErrWorkspaceUnavailable = Msg ''herdr: workspace unavailable''"
definition ErrWorkspaceIndeterminate :: err where "ErrWorkspaceIndeterminate = Msg ''herdr: workspace outcome unknown''"

definition optionalOr :: "(json \<Rightarrow> 'a res) \<Rightarrow> object \<Rightarrow> string \<Rightarrow> 'a \<Rightarrow> 'a res" where
  "optionalOr decode info key other = (case map_of info key of None \<Rightarrow> Inr other | Some raw \<Rightarrow> decode raw)"

definition agentFields :: "object \<Rightarrow> agent_view res" where
  "agentFields info =
     bindR (displayMetadata info ''agents'') (\<lambda>(name, directory).
     bindR (decodeString (member_at info ''pane_id'')) (\<lambda>pane.
     bindR (decodeString (member_at info ''terminal_id'')) (\<lambda>terminal.
     bindR (decodeString (member_at info ''workspace_id'')) (\<lambda>workspace.
     bindR (decodeString (member_at info ''tab_id'')) (\<lambda>tab.
     bindR (decodeString (member_at info ''agent_status'')) (\<lambda>status.
     bindR (decodeUint (member_at info ''revision'')) (\<lambda>revision.
     bindR (decodeBool (member_at info ''focused'')) (\<lambda>focused.
     bindR (optionalOr decodeBool info ''interactive_ready'' False) (\<lambda>interactive.
     bindR (optionalOr decodeBool info ''launch_pending'' False) (\<lambda>pending.
     bindR (optionalOr decodeUint info ''state_change_seq'' 0) (\<lambda>change.
     bindR (if member_at info ''agent'' = JNull then Inr ''unknown''
            else decodeString (member_at info ''agent'')) (\<lambda>provider.
     bindR (providerSession info provider) (\<lambda>session.
     let v = \<lparr>av_target = Some \<lparr>at_pane = pane, at_terminal = terminal, at_agent_session = session,
           at_session = '''', at_incarnation = '''', at_unk = []\<rparr>, av_workspace = workspace, av_tab = tab,
         av_provider = provider, av_status = status, av_interactive = interactive, av_pending = pending,
         av_revision = revision, av_change_seq = change, av_display_name = name, av_directory = directory,
         av_unk = []\<rparr> in
     bindR (ValidateAgentView (Some v)) (\<lambda>_. Inr v))))))))))))))"

definition parseAgentInfo :: "json \<Rightarrow> agent_view res" where
  "parseAgentInfo raw = (case bindR (decodeObject raw) agentFields of
     Inl e \<Rightarrow> Inl ErrAgentUnavailable | Inr v \<Rightarrow> Inr v)"

text \<open>\<open>workspaceIdentity\<close>: the ID of a workspace and the path of its checkout, if it has one.\<close>

definition identityFields :: "object \<Rightarrow> (string \<times> string) res" where
  "identityFields w =
     bindR (sanitizeEntity w ''workspace_id'') (\<lambda>e.
     bindR (decodeUint (member_at w ''number'')) (\<lambda>number :: 32 word.
     bindR (decodeString (member_at w ''label'')) (\<lambda>label.
     bindR (decodeUint (member_at w ''pane_count'')) (\<lambda>panes :: 32 word.
     bindR (decodeUint (member_at w ''tab_count'')) (\<lambda>tabs :: 32 word.
     bindR (requiredID w ''active_tab_id'') (\<lambda>active.
     if member_at w ''worktree'' = JNull then Inr (en_id e, '''')
     else bindR (decodeObject (member_at w ''worktree'')) (\<lambda>tree.
       bindR (decodeString (member_at tree ''checkout_path'')) (\<lambda>checkout.
       if \<not> validWorkspacePath checkout then Inl badSnapshot else Inr (en_id e, checkout)))))))))"

definition workspaceIdentity :: "json \<Rightarrow> (string \<times> string) res" where
  "workspaceIdentity raw = (case bindR (decodeObject raw) identityFields of
     Inl e \<Rightarrow> Inl ErrWorkspaceUnavailable | Inr v \<Rightarrow> Inr v)"

end
