(* ===== verification/Observer.thy ===== *)
theory Observer
  imports NativeJson Observations Samples
begin

text \<open>
  The node's observer of its native program (observe.go of the herdr package) against the checks of the
  coordinator: whatever the program answers, what the observer publishes is accepted.  A round is what one
  turn of the observer's loop got: the answer to \<open>session.snapshot\<close>, or the fixed code of a failed call.
\<close>

section \<open>Publishing\<close>

definition maxStateBytes :: nat where "maxStateBytes = 256 * 1024"

definition rpcCodes :: "string list" where
  "rpcCodes = [''request_timeout'', ''connection_closed'', ''io_error'', ''connection_failed'',
     ''invalid_response'', ''api_error'', ''frame_too_large'', ''malformed_json'', ''invalid_snapshot'',
     ''unsupported_protocol'']"

datatype observation = Snapshot json | CallFailed string

definition publishState :: "pb \<Rightarrow> sizes \<Rightarrow> 64 word \<Rightarrow> int \<Rightarrow> herdr_state \<Rightarrow> herdr_state res" where
  "publishState P Z sequence now state =
     (let st = state\<lparr>hs_sequence := sequence + 1, hs_observed := Some (new_ts P now)\<rparr> in
      if maxStateBytes < size_herdr Z st then Inl (apiError ''state_too_large'') else Inr st)"

definition unavailableState :: "string \<Rightarrow> herdr_state" where
  "unavailableState code = (emptyHerdr ''unavailable'')\<lparr>hs_error := code\<rparr>"

text \<open>One turn: the state that is emitted, after the failed one if that could not be; two clock readings.\<close>

definition observeRound ::
  "pb \<Rightarrow> sizes \<Rightarrow> resolver \<Rightarrow> 64 word \<Rightarrow> int \<times> int \<times> observation \<Rightarrow> herdr_state res" where
  "observeRound P Z R sequence = (\<lambda>(now, now', seen).
     case bindR (case seen of Snapshot raw \<Rightarrow> sanitizeSnapshotWithProjects raw R
                 | CallFailed code \<Rightarrow> Inl (apiError code)) (publishState P Z sequence now) of
       Inr st \<Rightarrow> Inr st
     | Inl e \<Rightarrow> publishState P Z sequence now' (unavailableState (category e)))"

fun observeRounds ::
  "pb \<Rightarrow> sizes \<Rightarrow> resolver \<Rightarrow> 64 word \<Rightarrow> (int \<times> int \<times> observation) list \<Rightarrow> herdr_state list" where
  "observeRounds P Z R sequence [] = []"
| "observeRounds P Z R sequence (t # ts) = (case observeRound P Z R sequence t of
     Inl e \<Rightarrow> []
   | Inr st \<Rightarrow> st # observeRounds P Z R (sequence + 1) ts)"

section \<open>What the parsers let through\<close>

lemma skipTag_chars:
  assumes "skipTag mark s = Some r"
  shows "\<exists>p. s = p @ r \<and> list_all (\<lambda>c. tag_char c \<or> byte c = mark) p"
proof (cases s)
  case Nil
  then show ?thesis using assms by (simp add: skipTag_def)
next
  case (Cons c cs)
  show ?thesis
  proof (cases "byte c = mark")
    case False
    then show ?thesis using assms Cons by (intro exI [of _ "[]"]) (simp add: skipTag_def)
  next
    case True
    then obtain d ds where d: "cs = d # ds" "tag_start d" "r = dropWhile tag_char ds"
      using assms Cons by (auto simp: skipTag_def split: list.splits if_splits)
    have "s = (c # d # takeWhile tag_char ds) @ r" by (simp add: Cons d)
    moreover have "list_all (\<lambda>c. tag_char c \<or> byte c = mark) (c # d # takeWhile tag_char ds)"
      using True d(2) by (auto simp: list_all_iff tag_char_def tag_start_def dest: set_takeWhileD)
    ultimately show ?thesis by blast
  qed
qed

lemma skipNumber_chars:
  "skipNumber s = Some r \<Longrightarrow> \<exists>p. s = p @ r \<and> list_all is_digit p \<and> p \<noteq> []"
  by (intro exI [of _ "takeWhile is_digit s"])
    (auto simp: skipNumber_def list_all_iff dest: set_takeWhileD split: if_splits)

lemma skipDot_chars: "skipDot s = Some r \<Longrightarrow> \<exists>c. s = c # r \<and> byte c = 46"
  by (auto simp: skipDot_def split: list.splits if_splits)

lemma digit_version: "is_digit c \<Longrightarrow> version_char c"
  by (simp add: version_char_def)

lemma tag_version: "tag_char c \<or> byte c = 45 \<or> byte c = 43 \<Longrightarrow> version_char c"
  by (auto simp: version_char_def tag_char_def)

lemma bind_Some: "Option.bind m f = Some y \<longleftrightarrow> (\<exists>x. m = Some x \<and> f x = Some y)"
  by (cases m) auto

lemma versionPattern_safe:
  assumes "versionPattern s" and "length s \<le> 128"
  shows "safeVersion s"
proof -
  define t where "t = (case s of [] \<Rightarrow> [] | c # cs \<Rightarrow> if byte c = 118 then cs else s)"
  obtain r1 r2 r3 r4 r5 r6 where r: "skipNumber t = Some r1" "skipDot r1 = Some r2" "skipNumber r2 = Some r3"
    "skipDot r3 = Some r4" "skipNumber r4 = Some r5" "skipTag 45 r5 = Some r6" "skipTag 43 r6 = Some []"
    using assms(1) unfolding versionPattern_def Let_def t_def [symmetric] bind_Some by auto
  have n: "\<And>s r. skipNumber s = Some r \<Longrightarrow> list_all version_char r \<Longrightarrow> list_all version_char s \<and> s \<noteq> []"
    using skipNumber_chars digit_version by (fastforce simp: list_all_iff)
  have d: "\<And>s r. skipDot s = Some r \<Longrightarrow> list_all version_char r \<Longrightarrow> list_all version_char s"
    using skipDot_chars by (fastforce simp: version_char_def)
  have g: "\<And>m s r. m = 45 \<or> m = 43 \<Longrightarrow> skipTag m s = Some r \<Longrightarrow> list_all version_char r \<Longrightarrow> list_all version_char s"
    using skipTag_chars tag_version by (fastforce simp: list_all_iff)
  have "list_all version_char r6" by (rule g [OF _ r(7)]) simp_all
  then have "list_all version_char r5" by (intro g [OF _ r(6)]) simp_all
  then have "list_all version_char r4" using n [OF r(5)] by blast
  then have "list_all version_char r3" by (rule d [OF r(4)])
  then have "list_all version_char r2" using n [OF r(3)] by blast
  then have "list_all version_char r1" by (rule d [OF r(2)])
  then have t: "list_all version_char t" "t \<noteq> []" using n [OF r(1)] by blast+
  have "list_all version_char s \<and> s \<noteq> []"
  proof (cases s)
    case (Cons c cs)
    have "version_char c" if "byte c = 118"
      using that by (simp add: version_char_def is_lower_def)
    then show ?thesis using t Cons by (auto simp: t_def split: if_splits)
  qed (use t in \<open>simp add: t_def\<close>)
  then show ?thesis using assms(2) by (cases s) (simp_all add: safeVersion_def)
qed

lemma versionProtocol_facts:
  "versionProtocol v = Inr (version, protocol) \<Longrightarrow> safeVersion version \<and> protocol \<noteq> 0"
  by (auto simp: versionProtocol_def versionPattern_safe split: sum.splits if_splits)

lemma requiredID_token: "requiredID entry key = Inr s \<Longrightarrow> commandToken s"
  by (auto simp: requiredID_def bindR_eq_Inr split: if_splits)

lemma optionalID_token: "optionalID info key b = Inr s \<Longrightarrow> optionalToken s"
  by (auto simp: optionalID_def optionalToken_def bindR_eq_Inr split: option.splits if_splits)

lemma providerSession_token: "providerSession info p = Inr s \<Longrightarrow> optionalToken s"
  by (auto simp: providerSession_def optionalToken_def bindR_eq_Inr split: if_splits)

lemma knownStatus_reported: "knownStatus s \<in> set reportedStatuses"
  by (simp add: knownStatus_def reportedStatuses_def agentStatuses_def)

lemma displayMetadata_valid: "displayMetadata entry kind = Inr (name, directory) \<Longrightarrow> ValidDisplayMetadata name directory"
  by (auto simp: displayMetadata_def bindR_eq_Inr split: if_splits)

text \<open>An entity is fit to be reported once its display texts and project are.\<close>

lemma sanitizeEntity_ok:
  assumes "sanitizeEntity entry idField = Inr e" and "ValidDisplayMetadata name directory" and "optionalToken project"
  shows "entityOk (e\<lparr>en_display_name := name, en_directory := directory, en_project := project\<rparr>)"
  using assms knownStatus_reported
  by (auto simp: sanitizeEntity_def readEntityObservation_def entityOk_def blankEntity_def Let_def bindR_eq_Inr
      optionalToken_def [of "''''"]
      dest!: optionalID_token providerSession_token requiredID_token split: if_splits)
    (auto simp: optionalToken_def)

lemma observedProject_token: "optionalToken (observedProject entry R kind)"
  by (auto simp: observedProject_def workspaceProject_def optionalToken_def bindR_eq_Inr
      split: option.splits sum.splits if_splits)

lemma entryLoop_ok:
  assumes "entryLoop R kind idField seen raws = Inr es"
  shows "groupOk seen es \<and> length es = length raws"
  using assms
proof (induction raws arbitrary: seen es)
  case (Cons raw rest)
  then obtain entry e name directory es' where s: "sanitizeEntity entry idField = Inr e"
    "displayMetadata entry kind = Inr (name, directory)" "en_id e \<notin> set seen"
    "entryLoop R kind idField (en_id e # seen) rest = Inr es'"
    "es = e\<lparr>en_display_name := name, en_directory := directory, en_project := observedProject entry R kind\<rparr> # es'"
    by (auto simp: bindR_eq_Inr split: if_splits)
  then show ?case
    using Cons.IH [OF s(4)] sanitizeEntity_ok [OF s(1) displayMetadata_valid [OF s(2)] observedProject_token]
    by simp
qed simp

lemma inherit_ok:
  assumes "groupOk seen es" and "groupOk [] workspaces"
  shows "groupOk seen (inheritWorkspaceProjects workspaces es)"
proof -
  have p: "optionalToken p" if "map_of (rev (map (\<lambda>w. (en_id w, en_project w)) workspaces)) i = Some p" for i p
    using map_of_SomeD [OF that] assms(2) by (auto simp: groupOk_iff list_all_iff entityOk_def)
  show ?thesis
    using assms(1) p
    by (auto simp: groupOk_iff inheritWorkspaceProjects_def list_all_iff entityOk_def image_image optionalToken_def comp_def
        split: option.splits)
qed

lemma sanitize_ok:
  assumes "sanitizeSnapshotWithProjects raw R = Inr state"
  shows "herdrStatusOk state \<and> hs_unk state = [] \<and> entityCount state \<le> 4096 \<and>
    list_all (groupOk []) [hs_workspaces state, hs_tabs state, hs_panes state, hs_agents state]"
proof -
  obtain snapshot version protocol ws workspaces ts tabs ps panes as agents where
    s: "versionProtocol snapshot = Inr (version, protocol)"
    "entryLoop R ''workspaces'' ''workspace_id'' [] ws = Inr workspaces"
    "entryLoop R ''tabs'' ''tab_id'' [] ts = Inr tabs"
    "entryLoop R ''panes'' ''pane_id'' [] ps = Inr panes"
    "entryLoop R ''agents'' ''pane_id'' [] as = Inr agents"
    "length ws + length ts + length ps + length as \<le> 4096"
    "state = \<lparr>hs_status = ''ready'', hs_version = version, hs_protocol = protocol, hs_sequence = 0,
         hs_observed = None, hs_error = '''', hs_workspaces = workspaces,
         hs_tabs = inheritWorkspaceProjects workspaces tabs,
         hs_panes = inheritWorkspaceProjects workspaces panes,
         hs_agents = inheritWorkspaceProjects workspaces agents, hs_unk = []\<rparr>"
    using assms by (auto simp: sanitizeSnapshotWithProjects_def entriesOf_def bindR_eq_Inr split: if_splits)
  note w = entryLoop_ok [OF s(2)] and t = entryLoop_ok [OF s(3)] and p = entryLoop_ok [OF s(4)] and a = entryLoop_ok [OF s(5)]
  have "herdrStatusOk state \<and> hs_unk state = []"
    using versionProtocol_facts [OF s(1)] by (simp add: s(7) herdrStatusOk_def)
  moreover have "entityCount state \<le> 4096"
    using s(6) w t p a by (simp add: s(7) entityCount_def inheritWorkspaceProjects_def)
  ultimately show ?thesis
    using w t p a inherit_ok by (simp add: s(7))
qed

section \<open>What the coordinator makes of it\<close>

lemma publish_accepted:
  assumes "publishState P Z sequence now state = Inr st" and "ts_valid P (new_ts P now)" and "ts_unk (new_ts P now) = []"
    and "sequence + 1 \<noteq> 0" and "herdrStatusOk state" and "hs_unk state = []" and "entityCount state \<le> 4096"
    and "list_all (groupOk []) [hs_workspaces state, hs_tabs state, hs_panes state, hs_agents state]"
  shows "validateHerdrState P Z (Some st) = Inr () \<and> hs_sequence st = sequence + 1"
proof -
  have st: "st = state\<lparr>hs_sequence := sequence + 1, hs_observed := Some (new_ts P now)\<rparr>"
    and size: "size_herdr Z st \<le> 256 * 1024"
    using assms(1) by (simp_all add: publishState_def maxStateBytes_def Let_def split: if_splits)
  have "herdrStatusOk (state\<lparr>hs_sequence := x, hs_observed := y\<rparr>) = herdrStatusOk state" for x y
    by (simp add: herdrStatusOk_def entityCount_def)
  then have status: "herdrStatusOk st" using assms(5) by (simp add: st)
  have ok: "entityCount st \<le> 4096" "hs_unk st = []" "hs_sequence st = sequence + 1"
    "hs_sequence st \<noteq> 0" "stampOk P (hs_observed st)"
    "list_all (groupOk []) [hs_workspaces st, hs_tabs st, hs_panes st, hs_agents st]"
    using assms(2-4,6-8) unfolding st entityCount_def stampOk_def by simp_all
  show ?thesis
    unfolding validateHerdrState_def option.case maxHerdrStateBytes_def using ok size status by simp
qed

lemma unavailable_ok:
  assumes "commandToken code"
  shows "herdrStatusOk (unavailableState code) \<and> hs_unk (unavailableState code) = [] \<and>
    entityCount (unavailableState code) \<le> 4096 \<and>
    list_all (groupOk []) [hs_workspaces (unavailableState code), hs_tabs (unavailableState code),
      hs_panes (unavailableState code), hs_agents (unavailableState code)]"
  using assms by (simp add: unavailableState_def emptyHerdr_def herdrStatusOk_def entityCount_def)

text \<open>Every error of the parsers has one of three codes.\<close>

lemma decode_errors:
  "decodeObject raw = Inl e \<Longrightarrow> e = badSnapshot" "decodeString raw = Inl e \<Longrightarrow> e = badSnapshot"
  "decodeBool raw = Inl e \<Longrightarrow> e = badSnapshot" "decodeList raw = Inl e \<Longrightarrow> e = badSnapshot"
  "requiredID entry key = Inl e \<Longrightarrow> e = badSnapshot" "optionalID info key b = Inl e \<Longrightarrow> e = badSnapshot"
  "displayString entry key = Inl e \<Longrightarrow> e = badSnapshot" "versionProtocol v = Inl e \<Longrightarrow> e = badSnapshot"
  by (auto simp: decodeObject_def decodeString_def decodeBool_def decodeList_def requiredID_def optionalID_def
      displayString_def versionProtocol_def bindR_eq_Inl split: json.splits sum.splits if_splits option.splits)

lemma entity_errors:
  "providerSession info p = Inl e \<Longrightarrow> e = badSnapshot"
  "readEntityObservation info x = Inl e \<Longrightarrow> e = badSnapshot"
  "displayDirectory entry kind = Inl e \<Longrightarrow> e = badSnapshot"
proof -
  show p: "providerSession info p = Inl e \<Longrightarrow> e = badSnapshot" for p
    by (auto simp: providerSession_def bindR_eq_Inl dest: decode_errors split: if_splits)
  show "readEntityObservation info x = Inl e \<Longrightarrow> e = badSnapshot"
    by (auto simp: readEntityObservation_def bindR_eq_Inl dest: decode_errors p split: option.splits)
  show "displayDirectory entry kind = Inl e \<Longrightarrow> e = badSnapshot"
    by (auto simp: displayDirectory_def bindR_eq_Inl dest: decode_errors split: if_splits)
qed

lemma sanitizeEntity_error: "sanitizeEntity entry idField = Inl e \<Longrightarrow> e = badSnapshot"
  by (auto simp: sanitizeEntity_def bindR_eq_Inl Let_def dest: decode_errors entity_errors split: if_splits)

lemma displayMetadata_error: "displayMetadata entry kind = Inl e \<Longrightarrow> e = badSnapshot"
  by (auto simp: displayMetadata_def bindR_eq_Inl dest: decode_errors entity_errors split: if_splits)

lemma entryLoop_error: "entryLoop R kind idField seen raws = Inl e \<Longrightarrow> e = badSnapshot"
  by (induction raws arbitrary: seen)
    (auto simp: bindR_eq_Inl dest: decode_errors sanitizeEntity_error displayMetadata_error split: if_splits)

lemma entriesOf_error: "entriesOf snapshot kind n = Inl e \<Longrightarrow> e = badSnapshot \<or> e = apiError ''too_many_entities''"
  by (auto simp: entriesOf_def bindR_eq_Inl dest: decode_errors split: if_splits)

lemma category_apiError [simp]: "category (apiError code) = code"
  by (simp add: category_def apiError_def)

lemma sanitize_error:
  assumes "sanitizeSnapshotWithProjects raw R = Inl e"
  shows "commandToken (category e)"
proof -
  have "e = badSnapshot \<or> e = apiError ''unsupported_protocol'' \<or> e = apiError ''too_many_entities''"
    using assms unfolding sanitizeSnapshotWithProjects_def
    by (auto simp: bindR_eq_Inl dest: decode_errors entryLoop_error entriesOf_error split: if_splits)
  then show ?thesis by (elim disjE) (simp_all add: badSnapshot_def, code_simp+)
qed

text \<open>One turn, whatever it got.\<close>

lemma observeRound_accepted:
  assumes "observeRound P Z R sequence (now, now', seen) = Inr st"
    and "pb_ok P" and "ts_valid P (new_ts P now)" and "ts_valid P (new_ts P now')" and "sequence + 1 \<noteq> 0"
    and "\<And>code. seen = CallFailed code \<Longrightarrow> code \<in> set rpcCodes"
  shows "validateHerdrState P Z (Some st) = Inr () \<and> hs_sequence st = sequence + 1"
proof -
  have unk: "ts_unk (new_ts P t) = []" for t using assms(2) by (simp add: pb_ok_def)
  note accepted = publish_accepted [OF _ assms(3) unk assms(5)] publish_accepted [OF _ assms(4) unk assms(5)]
  define m where "m = (case seen of Snapshot raw \<Rightarrow> sanitizeSnapshotWithProjects raw R | CallFailed code \<Rightarrow> Inl (apiError code))"
  have round: "(case bindR m (publishState P Z sequence now) of Inr st \<Rightarrow> Inr st
      | Inl e \<Rightarrow> publishState P Z sequence now' (unavailableState (category e))) = Inr st"
    using assms(1) by (simp add: observeRound_def m_def)
  have codes: "list_all commandToken rpcCodes" by code_simp
  have failed: "commandToken (category e)" if "m = Inl e" for e
    using that codes assms(6) sanitize_error by (cases seen) (auto simp: m_def list_all_iff)
  have large: "commandToken ''state_too_large''" by code_simp
  show ?thesis
  proof (cases "bindR m (publishState P Z sequence now)")
    case (Inr st')
    then obtain state raw where r: "m = Inr state" "seen = Snapshot raw" "publishState P Z sequence now state = Inr st"
      using round by (cases seen) (auto simp: m_def bindR_eq_Inr)
    then show ?thesis using accepted(1) [OF r(3)] sanitize_ok [of raw R state] by (simp add: m_def)
  next
    case (Inl e)
    have "commandToken (category e)"
      using Inl failed large by (auto simp: bindR_eq_Inl publishState_def Let_def split: if_splits)
    moreover have "publishState P Z sequence now' (unavailableState (category e)) = Inr st" using round Inl by simp
    ultimately show ?thesis using accepted(2) unavailable_ok by blast
  qed
qed

text \<open>
  C26. The coordinator accepts whatever a node's observer publishes.  For every sequence of answers of
  the native program, any JSON value or failed call, each published state passes the coordinator's checks, and
  the sequence numbers are 1, 2, 3, \<dots>, so each state also supersedes the one before it.
\<close>

theorem observed_states_accepted:
  assumes "pb_ok P" and "length rounds < 2 ^ 64"
    and "\<And>now now' seen. (now, now', seen) \<in> set rounds \<Longrightarrow> ts_valid P (new_ts P now) \<and> ts_valid P (new_ts P now')"
    and "\<And>now now' code. (now, now', CallFailed code) \<in> set rounds \<Longrightarrow> code \<in> set rpcCodes"
  shows "(\<forall>st \<in> set (observeRounds P Z R 0 rounds). validateHerdrState P Z (Some st) = Inr ()) \<and>
    map (\<lambda>st. unat (hs_sequence st)) (observeRounds P Z R 0 rounds) = [1..<length (observeRounds P Z R 0 rounds) + 1]"
proof -
  have "(\<forall>st \<in> set (observeRounds P Z R (of_nat n) rs). validateHerdrState P Z (Some st) = Inr ()) \<and>
    map (\<lambda>st. unat (hs_sequence st)) (observeRounds P Z R (of_nat n) rs) =
      [n + 1..<length (observeRounds P Z R (of_nat n) rs) + (n + 1)]"
    if "n + length rs < 2 ^ 64" "set rs \<subseteq> set rounds" for n rs
    using that
  proof (induction rs arbitrary: n)
    case (Cons t rs)
    obtain now now' seen where t: "t = (now, now', seen)" by (cases t) auto
    have one: "of_nat n + 1 = (of_nat (n + 1) :: 64 word)" by simp
    have u: "unat (of_nat (n + 1) :: 64 word) = n + 1"
      unfolding unat_of_nat using Cons.prems(1) by (intro mod_less) simp
    then have nz: "of_nat n + (1 :: 64 word) \<noteq> 0" using one by (metis add_is_0 one_neq_zero unat_0)
    show ?case
    proof (cases "observeRound P Z R (of_nat n) t")
      case (Inr st)
      have c: "code \<in> set rpcCodes" if "seen = CallFailed code" for code
        using assms(4) [of now now' code] Cons.prems(2) that t by auto
      have v: "ts_valid P (new_ts P now)" "ts_valid P (new_ts P now')"
        using assms(3) [of now now' seen] Cons.prems(2) t by auto
      have a: "validateHerdrState P Z (Some st) = Inr ()" "hs_sequence st = of_nat n + 1"
        using observeRound_accepted [OF Inr [unfolded t] assms(1) v nz c] by blast+
      have ih: "(\<forall>st \<in> set (observeRounds P Z R (of_nat (n + 1)) rs). validateHerdrState P Z (Some st) = Inr ()) \<and>
        map (\<lambda>st. unat (hs_sequence st)) (observeRounds P Z R (of_nat (n + 1)) rs) =
          [n + 1 + 1..<length (observeRounds P Z R (of_nat (n + 1)) rs) + (n + 1 + 1)]"
        using Cons.IH [of "n + 1"] Cons.prems by simp
      have run: "observeRounds P Z R (of_nat n) (t # rs) = st # observeRounds P Z R (of_nat (n + 1)) rs"
        using Inr one by (simp only: observeRounds.simps sum.case)
      have "[n + 1..<length (st # xs) + (n + 1)] = (n + 1) # [n + 1 + 1..<length xs + (n + 1 + 1)]" for xs
        by (simp add: upt_conv_Cons del: upt_Suc)
      then show ?thesis unfolding run using ih a u one by (simp del: upt_Suc)
    qed simp
  qed simp
  from this [of 0 rounds] assms(2) show ?thesis by simp
qed

definition sampleWorkspace :: object where
  "sampleWorkspace = [(''workspace_id'', JString ''w1''), (''focused'', JBool True),
     (''agent_status'', JString ''thinking''), (''label'', JString ''api'')]"

definition sampleSnapshot :: json where
  "sampleSnapshot = JObject [(''version'', JString ''0.9.2''), (''protocol'', JInt 20),
     (''workspaces'', JArray [JObject sampleWorkspace]),
     (''tabs'', JArray []), (''panes'', JArray []), (''agents'', JArray []), (''layouts'', JArray [])]"

definition sampleEntity :: herdr_entity where
  "sampleEntity = blankEntity\<lparr>en_id := ''w1'', en_focused := True, en_agent_status := ''unknown''\<rparr>"

lemma sample_entity: "sanitizeEntity sampleWorkspace ''workspace_id'' = Inr sampleEntity"
  by code_simp

lemma sample_metadata: "displayMetadata sampleWorkspace ''workspaces'' = Inr (''api'', '''')"
  by (simp add: displayMetadata_def displayString_def displayDirectory_def member_at_def sampleWorkspace_def
      decodeString_def ValidDisplayMetadata_def eval_text MaxDisplayNameBytes_def MaxDirectoryBytes_def)

lemma sample_version: "versionProtocol [(''version'', JString ''0.9.2''), (''protocol'', JInt 20),
     (''workspaces'', JArray [JObject sampleWorkspace]),
     (''tabs'', JArray []), (''panes'', JArray []), (''agents'', JArray []), (''layouts'', JArray [])] = Inr (''0.9.2'', 20)"
  by code_simp

lemma sample_snapshot: "sanitizeSnapshotWithProjects sampleSnapshot None = Inr
   \<lparr>hs_status = ''ready'', hs_version = ''0.9.2'', hs_protocol = 20, hs_sequence = 0, hs_observed = None,
    hs_error = '''', hs_workspaces = [sampleEntity\<lparr>en_display_name := ''api''\<rparr>], hs_tabs = [], hs_panes = [],
    hs_agents = [], hs_unk = []\<rparr>"
  by (simp add: sanitizeSnapshotWithProjects_def sampleSnapshot_def decodeObject_def sample_version SupportsProtocol_def
      focusOk_def member_at_def entriesOf_def decodeList_def sample_entity sample_metadata observedProject_def
      inheritWorkspaceProjects_def)
     (simp add: sampleEntity_def blankEntity_def)
definition sampleRounds :: "(int \<times> int \<times> observation) list" where
  "sampleRounds = [(1, 2, Snapshot sampleSnapshot), (3, 4, CallFailed ''io_error''), (5, 6, Snapshot JNull)]"

definition tinySizes :: sizes where
  "tinySizes = \<lparr>size_herdr = \<lambda>_. 100, size_session = \<lambda>_. 100, size_inventory = \<lambda>_. 100\<rparr>"

lemma sample_rounds:
  "map hs_status (observeRounds samplePb tinySizes None 0 sampleRounds) = [''ready'', ''unavailable'', ''unavailable'']"
  by (simp add: sampleRounds_def observeRound_def sample_snapshot publishState_def tinySizes_def maxStateBytes_def
      unavailableState_def emptyHerdr_def decodeObject_def sanitizeSnapshotWithProjects_def [of JNull] Let_def)

lemma io_code: "''io_error'' \<in> set rpcCodes"
  by code_simp

theorem observed_states_accepted_witness:
  "map hs_status (observeRounds samplePb tinySizes None 0 sampleRounds) = [''ready'', ''unavailable'', ''unavailable''] \<and>
   map (\<lambda>st. validateHerdrState samplePb tinySizes (Some st)) (observeRounds samplePb tinySizes None 0 sampleRounds) =
     [Inr (), Inr (), Inr ()]"
proof -
  have len: "length sampleRounds < 2 ^ 64" by (simp add: sampleRounds_def)
  have times: "(now, now', seen) \<in> set sampleRounds \<Longrightarrow>
      ts_valid samplePb (new_ts samplePb now) \<and> ts_valid samplePb (new_ts samplePb now')" for now now' seen
    by simp
  have codes: "(now, now', CallFailed code) \<in> set sampleRounds \<Longrightarrow> code \<in> set rpcCodes" for now now' code
    using io_code by (auto simp: sampleRounds_def)
  note accepted = conjunct1 [OF observed_states_accepted [where R = None and Z = tinySizes, OF samplePb_ok len times codes]]
  let ?sts = "observeRounds samplePb tinySizes None 0 sampleRounds"
  have "map (\<lambda>st. validateHerdrState samplePb tinySizes (Some st)) ?sts = map (\<lambda>_. Inr ()) ?sts"
    using accepted by simp
  moreover have "length ?sts = 3" using arg_cong [OF sample_rounds, of length] by simp
  ultimately have "map (\<lambda>st. validateHerdrState samplePb tinySizes (Some st)) ?sts = [Inr (), Inr (), Inr ()]"
    by (simp add: map_replicate_const numeral_3_eq_3)
  then show ?thesis using sample_rounds by simp
qed

end
