(* ===== verification/Native.thy ===== *)
theory Native
  imports NativeJson ProjectPolicy ProtoLifecycle Handlers
begin

text \<open>
  The adapter that acts on the native program (agent.go, lifecycle.go, lifecycle\_fencing.go,
  lifecycle\_workspace.go and workspace.go of the herdr package).  Everything outside the process is the
  \<open>world\<close>: at the \<open>n\<close>-th interaction it answers a request, tells whether a context is done, whether its
  deadline has passed, what the file system and git say.  Contexts are not told apart and any of them may
  be done at any reading, which allows more runs than the code has.  The questions to the file system are
  those of the code: \<open>wo_same\<close> is \<open>workspaceMatches\<close> (\<open>None\<close> when it fails), \<open>wo_path\<close>, \<open>wo_root\<close> and
  \<open>wo_destination\<close> the methods of a binding, \<open>wo_fold\<close> Go's \<open>EqualFold\<close> with its Unicode tables, \<open>wo_canonical\<close> the path of a worktree with its links resolved,
  \<open>wo_leaf\<close> whether a created worktree is a directory of its own directly below the root, \<open>wo_git\<close> one run
  of a read-only git command, \<open>wo_git_found\<close> whether there is a git executable.  \<open>nx_trace\<close> is what was put on the socket.
  The process may die: from interaction \<open>wo_limit\<close> on it puts nothing on the socket and writes nothing, so
  the final state of a run with a limit is the state at the moment of the crash.
\<close>

section \<open>The world\<close>

record world =
  wo_answer :: "nat \<Rightarrow> json res"
  wo_ctx :: "nat \<Rightarrow> err option"
  wo_late :: "nat \<Rightarrow> bool"
  wo_directory :: "nat \<Rightarrow> string \<Rightarrow> nat option"
  wo_same :: "nat \<Rightarrow> string \<Rightarrow> string \<Rightarrow> bool option"
  wo_path :: "nat \<Rightarrow> project_binding \<Rightarrow> bool"
  wo_root :: "nat \<Rightarrow> project_binding \<Rightarrow> bool"
  wo_destination :: "nat \<Rightarrow> project_binding \<Rightarrow> string \<Rightarrow> string option"
  wo_canonical :: "nat \<Rightarrow> string \<Rightarrow> string option"
  wo_fold :: "string \<Rightarrow> string \<Rightarrow> bool"
  wo_leaf :: "nat \<Rightarrow> string \<Rightarrow> string \<Rightarrow> bool"
  wo_git_found :: "nat \<Rightarrow> bool"
  wo_git :: "nat \<Rightarrow> string \<Rightarrow> string list \<Rightarrow> (string \<times> int) option"
  wo_limit :: nat

datatype act = Sent string object

section \<open>Lifecycle results\<close>

datatype native_outcome = NotAttempted | OutcomeUnknown | Confirmed

datatype native_stage = CreatePane | Launch | Prompt | ClosePane

record native_handle =
  nh_workspace :: string
  nh_tab :: string
  nh_pane :: string
  nh_terminal :: string
  nh_session :: string
  nh_provider :: string

record native_result =
  nr_handle :: native_handle
  nr_pane :: native_outcome
  nr_launch :: native_outcome
  nr_prompt :: native_outcome
  nr_stop :: native_outcome
  nr_status :: string

record lifecycle_event =
  le_stage :: native_stage
  le_before :: bool
  le_result :: native_result

definition noHandle :: native_handle where
  "noHandle = \<lparr>nh_workspace = '''', nh_tab = '''', nh_pane = '''', nh_terminal = '''', nh_session = '''',
     nh_provider = ''''\<rparr>"

definition newLifecycleResult :: native_result where
  "newLifecycleResult = \<lparr>nr_handle = noHandle, nr_pane = NotAttempted, nr_launch = NotAttempted,
     nr_prompt = NotAttempted, nr_stop = NotAttempted, nr_status = ''''\<rparr>"

fun lifecycleStageOutcome :: "native_stage \<Rightarrow> native_result \<Rightarrow> native_outcome" where
  "lifecycleStageOutcome CreatePane r = nr_pane r"
| "lifecycleStageOutcome Launch r = nr_launch r"
| "lifecycleStageOutcome Prompt r = nr_prompt r"
| "lifecycleStageOutcome ClosePane r = nr_stop r"

fun putOutcome :: "native_stage \<Rightarrow> native_outcome \<Rightarrow> native_result \<Rightarrow> native_result" where
  "putOutcome CreatePane x r = r\<lparr>nr_pane := x\<rparr>"
| "putOutcome Launch x r = r\<lparr>nr_launch := x\<rparr>"
| "putOutcome Prompt x r = r\<lparr>nr_prompt := x\<rparr>"
| "putOutcome ClosePane x r = r\<lparr>nr_stop := x\<rparr>"

section \<open>The process\<close>

text \<open>\<open>nx_result\<close> is the result the code passes around by pointer, \<open>nx_next\<close> the request counter of the
  observer, \<open>nx_panes\<close> the variable \<open>existing\<close> of \<open>startAgent\<close> that its closures share.\<close>

record native =
  nx_clock :: nat
  nx_trace :: "act list"
  nx_next :: nat
  nx_result :: native_result
  nx_panes :: "agent_view list"

definition alive :: "world \<Rightarrow> 'z native_scheme \<Rightarrow> bool" where
  "alive W s = (nx_clock s < wo_limit W)"

definition tick :: "'z native_scheme \<Rightarrow> 'z native_scheme" where
  "tick s = s\<lparr>nx_clock := nx_clock s + 1\<rparr>"

definition draw :: "(nat \<Rightarrow> 'a) \<Rightarrow> ('z native_scheme, 'a) handler" where
  "draw f s = (Inr (f (nx_clock s)), tick s)"

text \<open>An error becomes a value: \<open>err := f()\<close> with the error inspected later.\<close>

definition tryS :: "('s, 'a) handler \<Rightarrow> ('s, 'a res) handler" where
  "tryS m s = (case m s of (r, s') \<Rightarrow> (Inr r, s'))"

definition setResult :: "(native_result \<Rightarrow> native_result) \<Rightarrow> ('z native_scheme, unit) handler" where
  "setResult f = putS (\<lambda>s. s\<lparr>nx_result := f (nx_result s)\<rparr>)"

section \<open>Requests\<close>

definition requestID :: "nat \<Rightarrow> string" where
  "requestID n = ''herdr-'' @ decimal n"

definition send :: "world \<Rightarrow> string \<Rightarrow> object \<Rightarrow> ('z native_scheme, json) handler" where
  "send W method params s = (wo_answer W (nx_clock s),
     tick (s\<lparr>nx_next := nx_next s + 1,
       nx_trace := (if alive W s then nx_trace s @ [Sent method params] else nx_trace s)\<rparr>))"

definition badResponse :: err where
  "badResponse = apiError ''invalid_response''"

text \<open>What the code makes of the envelope that answers request \<open>n\<close>.\<close>

definition readEnvelope :: "nat \<Rightarrow> string \<Rightarrow> json \<Rightarrow> object res" where
  "readEnvelope n resultType frame = bindR (decodeObject frame) (\<lambda>envelope.
     if member_at envelope ''id'' \<noteq> JString (requestID n) \<or> length envelope \<noteq> 2 then Inl badResponse
     else case map_of envelope ''error'' of
       Some raw \<Rightarrow> if is_ok (decodeObject raw) then Inl (apiError ''api_error'') else Inl badResponse
     | None \<Rightarrow> (case decodeObject (member_at envelope ''result'') of
         Inl e \<Rightarrow> Inl badResponse
       | Inr result \<Rightarrow> if member_at result ''type'' \<noteq> JString resultType then Inl badResponse else Inr result))"

definition agentRequest :: "world \<Rightarrow> string \<Rightarrow> string \<Rightarrow> object \<Rightarrow> ('z native_scheme, object) handler" where
  "agentRequest W method resultType params = bindS (send W method params) (\<lambda>frame.
     bindS (readS nx_next) (\<lambda>n. liftS (readEnvelope n resultType frame)))"

definition rpc :: "world \<Rightarrow> string \<Rightarrow> string \<Rightarrow> ('z native_scheme, object) handler" where
  "rpc W method resultType = agentRequest W method resultType []"

section \<open>Failures\<close>

definition joined :: "err option list \<Rightarrow> err" where
  "joined es = Join (map the (filter (\<lambda>e. e \<noteq> None) es))"

definition agentFailure :: "world \<Rightarrow> err \<Rightarrow> ('z native_scheme, err) handler" where
  "agentFailure W sentinel = bindS (draw (wo_ctx W)) (\<lambda>c. case c of
       Some e \<Rightarrow> okS (joined [Some sentinel, Some e])
     | None \<Rightarrow> bindS (draw (wo_late W)) (\<lambda>late.
         okS (if late then joined [Some sentinel, Some CtxDeadlineExceeded] else sentinel)))"

definition failWith :: "world \<Rightarrow> err \<Rightarrow> ('z native_scheme, 'a) handler" where
  "failWith W sentinel = bindS (agentFailure W sentinel) errS"

text \<open>\<open>if err != nil { return agentFailure(ctx, sentinel) }\<close>\<close>

definition orFail :: "world \<Rightarrow> err \<Rightarrow> ('z native_scheme, 'a) handler \<Rightarrow> ('z native_scheme, 'a) handler" where
  "orFail W sentinel m = bindS (tryS m) (\<lambda>r. case r of Inl e \<Rightarrow> failWith W sentinel | Inr x \<Rightarrow> okS x)"

section \<open>Connecting\<close>

record 's config =
  cf_socket :: string
  cf_refresh :: int
  cf_retry :: int
  cf_timeout :: int
  cf_check :: "('s, unit) handler option"

definition localAddress :: "string \<Rightarrow> bool" where
  "localAddress path = (path \<noteq> '''' \<and> list_all (\<lambda>c. byte c \<noteq> 0 \<and> byte c \<noteq> 13 \<and> byte c \<noteq> 10) path \<and>
     \<not> has_prefix path [CHR 0x5C, CHR 0x5C] \<and> \<not> has_prefix path ''//'')"

definition configOk :: "'s config \<Rightarrow> bool" where
  "configOk c = (localAddress (cf_socket c) \<and> 0 \<le> cf_refresh c \<and> 0 \<le> cf_retry c \<and> 0 \<le> cf_timeout c)"

definition agentObserver :: "world \<Rightarrow> 's config \<Rightarrow> ('z native_scheme, unit) handler" where
  "agentObserver W c =
     (if \<not> configOk c then failWith W ErrAgentUnavailable
      else bindS (putS (\<lambda>s. s\<lparr>nx_next := 0\<rparr>)) (\<lambda>_.
        bindS (orFail W ErrAgentUnavailable (rpc W ''ping'' ''pong'')) (\<lambda>pong.
        bindS (orFail W ErrAgentUnavailable (liftS (versionProtocol pong))) (\<lambda>(version, protocol).
        if \<not> SupportsProtocol (uint protocol) then failWith W ErrAgentUnsupported else okS ()))))"

definition lifecycleObserver :: "world \<Rightarrow> 's config \<Rightarrow> ('z native_scheme, unit) handler" where
  "lifecycleObserver W c =
     (if 30 * 1000000000 < cf_timeout c then errS ErrAgentPrecondition else agentObserver W c)"

section \<open>Observations\<close>

definition viewTarget :: "agent_view \<Rightarrow> agent_target" where
  "viewTarget v = (case av_target v of Some t \<Rightarrow> t | None \<Rightarrow> \<lparr>at_pane = '''', at_terminal = '''',
     at_agent_session = '''', at_session = '''', at_incarnation = '''', at_unk = []\<rparr>)"

definition isTarget :: "agent_target \<Rightarrow> agent_view \<Rightarrow> bool" where
  "isTarget t v = (at_pane (viewTarget v) = at_pane t \<and>
     (at_terminal t = '''' \<or> at_terminal (viewTarget v) = at_terminal t) \<and>
     (at_agent_session t = '''' \<or> at_agent_session (viewTarget v) = at_agent_session t))"

definition getAgent :: "world \<Rightarrow> agent_target \<Rightarrow> ('z native_scheme, agent_view) handler" where
  "getAgent W t =
     bindS (orFail W ErrAgentUnavailable (agentRequest W ''agent.get'' ''agent_info'' [(''target'', JString (at_pane t))])) (\<lambda>r.
     bindS (orFail W ErrAgentUnavailable (liftS (parseAgentInfo (member_at r ''agent'')))) (\<lambda>v.
     if \<not> isTarget t v then failWith W ErrAgentChanged
     else bindS (draw (wo_ctx W)) (\<lambda>c. if c \<noteq> None then failWith W ErrAgentUnavailable else okS v)))"

definition sameAgent :: "agent_view \<Rightarrow> agent_view \<Rightarrow> agent_target \<Rightarrow> bool" where
  "sameAgent before after expected =
     (at_pane (viewTarget before) = at_pane (viewTarget after) \<and>
      at_terminal (viewTarget before) = at_terminal (viewTarget after) \<and>
      (at_agent_session expected = '''' \<or> at_agent_session (viewTarget after) = at_agent_session expected) \<and>
      av_provider before = av_provider after \<and> av_workspace before = av_workspace after \<and>
      av_tab before = av_tab after)"

definition lifecycleHandle :: "agent_view \<Rightarrow> native_handle" where
  "lifecycleHandle v = \<lparr>nh_workspace = av_workspace v, nh_tab = av_tab v, nh_pane = at_pane (viewTarget v),
     nh_terminal = at_terminal (viewTarget v), nh_session = at_agent_session (viewTarget v),
     nh_provider = av_provider v\<rparr>"

definition lifecycleTarget :: "native_handle \<Rightarrow> agent_target" where
  "lifecycleTarget h = \<lparr>at_pane = nh_pane h, at_terminal = nh_terminal h, at_agent_session = nh_session h,
     at_session = '''', at_incarnation = '''', at_unk = []\<rparr>"

definition lifecycleMatches :: "native_handle \<Rightarrow> agent_view \<Rightarrow> bool \<Rightarrow> bool" where
  "lifecycleMatches h v provider = (nh_workspace h = av_workspace v \<and> nh_tab h = av_tab v \<and>
     nh_pane h = at_pane (viewTarget v) \<and> nh_terminal h = at_terminal (viewTarget v) \<and>
     (nh_session h = '''' \<or> nh_session h = at_agent_session (viewTarget v)) \<and>
     (\<not> provider \<or> nh_provider h = av_provider v))"

definition lifecycleWorkspace :: "world \<Rightarrow> string \<Rightarrow> ('z native_scheme, unit) handler" where
  "lifecycleWorkspace W workspace =
     bindS (orFail W ErrAgentUnavailable
       (agentRequest W ''workspace.get'' ''workspace_info'' [(''workspace_id'', JString workspace)])) (\<lambda>r.
     case workspaceIdentity (member_at r ''workspace'') of
       Inl e \<Rightarrow> errS ErrAgentUnavailable
     | Inr (found, checkout) \<Rightarrow> if found \<noteq> workspace then errS ErrAgentChanged else okS ())"

definition lifecyclePane :: "world \<Rightarrow> native_handle \<Rightarrow> ('z native_scheme, agent_view) handler" where
  "lifecyclePane W h =
     bindS (orFail W ErrAgentUnavailable
       (agentRequest W ''pane.get'' ''pane_info'' [(''pane_id'', JString (nh_pane h))])) (\<lambda>r.
     case parseAgentInfo (member_at r ''pane'') of
       Inl e \<Rightarrow> errS ErrAgentUnavailable
     | Inr pane \<Rightarrow> if \<not> lifecycleMatches h pane False then errS ErrAgentChanged else okS pane)"

fun paneLoop :: "string list \<Rightarrow> string list \<Rightarrow> json list \<Rightarrow> agent_view list res" where
  "paneLoop ids terminals [] = Inr []"
| "paneLoop ids terminals (raw # rest) = (case parseAgentInfo raw of
     Inl e \<Rightarrow> Inl ErrAgentUnavailable
   | Inr pane \<Rightarrow> let t = viewTarget pane in
       if at_pane t \<in> set ids \<or> at_terminal t \<in> set terminals then Inl ErrAgentUnavailable
       else bindR (paneLoop (at_pane t # ids) (at_terminal t # terminals) rest) (\<lambda>ps. Inr (pane # ps)))"

definition lifecyclePanes :: "world \<Rightarrow> ('z native_scheme, agent_view list) handler" where
  "lifecyclePanes W = bindS (orFail W ErrAgentUnavailable (rpc W ''pane.list'' ''pane_list'')) (\<lambda>r.
     liftS (case decodeList (member_at r ''panes'') of
       Inl e \<Rightarrow> Inl ErrAgentUnavailable
     | Inr raw \<Rightarrow> if 4096 < length raw then Inl ErrAgentUnavailable else paneLoop [] [] raw))"

section \<open>Effects\<close>

type_synonym 's hook = "lifecycle_event \<Rightarrow> ('s, unit) handler"

text \<open>What an effect returns: nothing, a rejection before anything was sent, or a failure.\<close>

datatype effect_error = PreDispatch err | Failed err

definition errorOf :: "effect_error option \<Rightarrow> err option" where
  "errorOf x = (case x of None \<Rightarrow> None | Some (PreDispatch e) \<Rightarrow> Some e | Some (Failed e) \<Rightarrow> Some e)"

definition returning :: "err option \<Rightarrow> ('s, unit) handler" where
  "returning e = (case e of None \<Rightarrow> okS () | Some e \<Rightarrow> errS e)"

text \<open>The second half of \<open>lifecycleEffect\<close>: the effect returned \<open>x\<close>; record its outcome.\<close>

definition settleEffect ::
  "('z native_scheme) hook \<Rightarrow> native_stage \<Rightarrow> effect_error option \<Rightarrow> ('z native_scheme, unit) handler" where
  "settleEffect hook stage x =
     bindS (case x of Some (PreDispatch e) \<Rightarrow> setResult (putOutcome stage NotAttempted) | _ \<Rightarrow> okS ()) (\<lambda>_.
     bindS (readS nx_result) (\<lambda>r.
     bindS (tryS (hook \<lparr>le_stage = stage, le_before = False, le_result = r\<rparr>)) (\<lambda>saved. case saved of
         Inr u \<Rightarrow> returning (errorOf x)
       | Inl e \<Rightarrow>
           if lifecycleStageOutcome stage r = NotAttempted
           then bindS (setResult (putOutcome stage OutcomeUnknown)) (\<lambda>_.
             errS (joined [errorOf x, Some ErrLifecyclePersistence, Some ErrAgentIndeterminate]))
           else errS (joined [errorOf x, Some ErrLifecyclePersistence]))))"

definition lifecycleEffect ::
  "world \<Rightarrow> ('z native_scheme) hook \<Rightarrow> native_stage \<Rightarrow> ('z native_scheme, effect_error option) handler \<Rightarrow>
   ('z native_scheme, unit) handler" where
  "lifecycleEffect W hook stage effect = bindS (draw (wo_ctx W)) (\<lambda>c.
     if c \<noteq> None then failWith W ErrAgentUnavailable
     else bindS (readS nx_result) (\<lambda>r. let intent = putOutcome stage OutcomeUnknown r in
       bindS (tryS (hook \<lparr>le_stage = stage, le_before = True, le_result = intent\<rparr>)) (\<lambda>saved. case saved of
         Inl e \<Rightarrow> errS ErrLifecyclePersistence
       | Inr u \<Rightarrow> bindS (setResult (\<lambda>_. intent)) (\<lambda>_.
           bindS (draw (wo_ctx W)) (\<lambda>c.
           bindS (if c \<noteq> None
                  then bindS (agentFailure W ErrAgentUnavailable) (\<lambda>e. okS (Some (PreDispatch e)))
                  else effect) (\<lambda>x.
           settleEffect hook stage x))))))"

definition lifecycleCheckSession :: "world \<Rightarrow> ('z native_scheme) config \<Rightarrow> ('z native_scheme, unit) handler" where
  "lifecycleCheckSession W cfg = bindS (draw (wo_ctx W)) (\<lambda>c. case c of
       Some e \<Rightarrow> errS e
     | None \<Rightarrow> bindS (case cf_check cfg of None \<Rightarrow> okS () | Some check \<Rightarrow> check) (\<lambda>_.
         bindS (draw (wo_ctx W)) returning))"

text \<open>The closure \<open>lifecycleGuardedEffect\<close> hands to \<open>lifecycleEffect\<close>.\<close>

definition guardedBody ::
  "world \<Rightarrow> ('z native_scheme) config \<Rightarrow> ('z native_scheme, unit) handler \<Rightarrow> ('z native_scheme, unit) handler \<Rightarrow>
   ('z native_scheme, effect_error option) handler" where
  "guardedBody W cfg refresh effect =
     bindS (readS nx_result) (\<lambda>before.
     bindS (tryS (lifecycleCheckSession W cfg)) (\<lambda>c. case c of
       Inl e \<Rightarrow> okS (Some (PreDispatch e))
     | Inr u \<Rightarrow> bindS (tryS refresh) (\<lambda>refreshed.
         bindS (tryS (lifecycleCheckSession W cfg)) (\<lambda>c. case c of
           Inl e \<Rightarrow> bindS (setResult (\<lambda>_. before)) (\<lambda>_. okS (Some (PreDispatch e)))
         | Inr u \<Rightarrow> (case refreshed of
             Inl e \<Rightarrow> okS (Some (PreDispatch e))
           | Inr u \<Rightarrow> bindS (tryS effect) (\<lambda>x.
               let err = (case x of Inl e \<Rightarrow> Some e | Inr u \<Rightarrow> None) in
               if cf_check cfg = None then okS (map_option Failed err)
               else bindS (tryS (lifecycleCheckSession W cfg)) (\<lambda>c. case c of
                   Inr u \<Rightarrow> okS (map_option Failed err)
                 | Inl e \<Rightarrow> bindS (setResult (\<lambda>_. before)) (\<lambda>_.
                     okS (Some (Failed (joined [Some ErrAgentIndeterminate, err, Some e])))))))))))"

definition lifecycleGuardedEffect ::
  "world \<Rightarrow> ('z native_scheme) config \<Rightarrow> ('z native_scheme) hook \<Rightarrow> native_stage \<Rightarrow>
   ('z native_scheme, unit) handler \<Rightarrow> ('z native_scheme, unit) handler \<Rightarrow> ('z native_scheme, unit) handler" where
  "lifecycleGuardedEffect W cfg hook stage refresh effect =
     lifecycleEffect W hook stage (guardedBody W cfg refresh effect)"

end
