(* ===== verification/NativeLifecycle.thy ===== *)
theory NativeLifecycle
  imports Native
begin

text \<open>
  Starting, stopping and controlling an agent (lifecycle.go, lifecycle\_fencing.go, agent.go of the herdr
  package), resolving the workspace of a start, and ensuring a workspace (lifecycle\_workspace.go,
  workspace.go).  The result a Go function returns beside its error is \<open>nx_result\<close>.
\<close>

section \<open>Starting\<close>

record start_request =
  sq_workspace :: string
  sq_cwd :: string
  sq_name :: string
  sq_provider :: string
  sq_timeout :: int
  sq_prompt :: string

definition lifecycleShellReady :: "world \<Rightarrow> native_handle \<Rightarrow> ('z native_scheme, unit) handler" where
  "lifecycleShellReady W h = bindS (lifecyclePane W h) (\<lambda>pane.
     if av_provider pane \<noteq> ''unknown'' \<or> av_pending pane then errS ErrAgentPrecondition
     else if av_status pane = ''working'' \<or> av_status pane = ''blocked'' then errS ErrAgentBusy
     else okS ())"

definition resultHandle :: "('z native_scheme, native_handle) handler" where
  "resultHandle = readS (\<lambda>s. nr_handle (nx_result s))"

definition observeStatus :: "string \<Rightarrow> ('z native_scheme, unit) handler" where
  "observeStatus status = setResult (\<lambda>r. r\<lparr>nr_status := status\<rparr>)"

definition lifecyclePromptReady :: "world \<Rightarrow> ('z native_scheme, unit) handler" where
  "lifecyclePromptReady W = bindS resultHandle (\<lambda>h. bindS (getAgent W (lifecycleTarget h)) (\<lambda>v.
     if \<not> lifecycleMatches h v True then errS ErrAgentChanged
     else bindS (observeStatus (av_status v)) (\<lambda>_.
       if av_status v = ''working'' then errS ErrAgentBusy
       else if av_status v = ''blocked'' then errS ErrAgentBlocked
       else if av_status v \<noteq> ''idle'' \<and> av_status v \<noteq> ''done'' then errS ErrAgentPrecondition
       else if \<not> av_interactive v \<or> av_pending v then errS ErrAgentPrecondition else okS ())))"

text \<open>
  The wait for interactive readiness.  Every turn waits 250 ms and the context has a deadline, so after
  \<open>polls\<close> turns it is done; \<open>launchPolls\<close> is the number of turns that fit.
\<close>

primrec waitLifecycleLaunch :: "world \<Rightarrow> string \<Rightarrow> nat \<Rightarrow> ('z native_scheme, unit) handler" where
  "waitLifecycleLaunch W provider 0 = failWith W ErrAgentIndeterminate"
| "waitLifecycleLaunch W provider (Suc polls) = bindS resultHandle (\<lambda>h.
     bindS (tryS (getAgent W (lifecycleTarget h))) (\<lambda>r. case r of
       Inl e \<Rightarrow> failWith W (joined [Some ErrAgentIndeterminate, Some e])
     | Inr v \<Rightarrow>
         if \<not> lifecycleMatches h v False \<or> av_provider v \<noteq> provider \<and> av_provider v \<noteq> ''unknown''
         then errS (joined [Some ErrAgentIndeterminate, Some ErrAgentChanged])
         else bindS (setResult (\<lambda>r. r\<lparr>nr_handle := lifecycleHandle v, nr_status := av_status v\<rparr>)) (\<lambda>_.
           if av_status v = ''blocked'' then errS ErrAgentBlocked
           else if av_provider v = provider \<and> av_interactive v \<and> \<not> av_pending v then okS ()
           else bindS (draw (wo_ctx W)) (\<lambda>c.
             if c \<noteq> None then failWith W ErrAgentIndeterminate
             else waitLifecycleLaunch W provider polls))))"

definition launchPolls :: "int \<Rightarrow> nat" where
  "launchPolls timeout = nat ((timeout + 1000000000) div 250000000) + 1"

definition startRequestOk :: "start_request \<Rightarrow> bool" where
  "startRequestOk q = (commandToken (sq_workspace q) \<and> commandToken (sq_name q) \<and>
     SupportedLifecycleProvider (sq_provider q) \<and> validWorkspacePath (sq_cwd q) \<and>
     3000 < sq_timeout q div 1000000 \<and> sq_timeout q \<le> 300 * 1000000000 \<and>
     (sq_prompt q \<noteq> '''' \<longrightarrow> is_ok (ValidateAgentControlInput ACTION_PROMPT (sq_prompt q) [])))"

definition directory :: "world \<Rightarrow> string \<Rightarrow> ('z native_scheme, nat option) handler" where
  "directory W path = draw (\<lambda>n. wo_directory W n path)"

definition readPanes :: "world \<Rightarrow> ('z native_scheme, unit) handler" where
  "readPanes W = bindS (lifecyclePanes W) (\<lambda>panes. putS (\<lambda>s. s\<lparr>nx_panes := panes\<rparr>))"

definition refreshCreate :: "world \<Rightarrow> start_request \<Rightarrow> nat \<Rightarrow> ('z native_scheme, unit) handler" where
  "refreshCreate W q info = bindS (directory W (sq_cwd q)) (\<lambda>current.
     if current \<noteq> Some info then errS ErrAgentPrecondition
     else bindS (lifecycleWorkspace W (sq_workspace q)) (\<lambda>_. readPanes W))"

text \<open>The fields of the answer to \<open>tab.create\<close>: the root pane, whether it has focus, and its tab.\<close>

definition createdTab :: "object \<Rightarrow> (agent_view \<times> bool \<times> herdr_entity \<times> 32 word) res" where
  "createdTab created =
     bindR (parseAgentInfo (member_at created ''root_pane'')) (\<lambda>pane.
     bindR (decodeObject (member_at created ''tab'')) (\<lambda>tab.
     bindR (decodeObject (member_at created ''root_pane'')) (\<lambda>root.
     bindR (decodeBool (member_at root ''focused'')) (\<lambda>focused.
     bindR (sanitizeEntity tab ''tab_id'') (\<lambda>entity.
     bindR (decodeUint (member_at tab ''pane_count'')) (\<lambda>count.
     Inr (pane, focused, entity, count)))))))"

definition samePane :: "agent_view \<Rightarrow> agent_view \<Rightarrow> bool" where
  "samePane prior pane = (at_pane (viewTarget prior) = at_pane (viewTarget pane) \<or>
     at_terminal (viewTarget prior) = at_terminal (viewTarget pane) \<or> av_tab prior = av_tab pane)"

definition effectCreate :: "world \<Rightarrow> start_request \<Rightarrow> ('z native_scheme, unit) handler" where
  "effectCreate W q = bindS (orFail W ErrAgentIndeterminate (agentRequest W ''tab.create'' ''tab_created''
       [(''workspace_id'', JString (sq_workspace q)), (''cwd'', JString (sq_cwd q)), (''focus'', JBool False)])) (\<lambda>created.
     case createdTab created of
       Inl e \<Rightarrow> errS ErrAgentIndeterminate
     | Inr (pane, focused, entity, count) \<Rightarrow>
         if count \<noteq> 1 \<or> av_workspace pane \<noteq> sq_workspace q \<or> en_workspace entity \<noteq> sq_workspace q \<or>
            en_id entity \<noteq> av_tab pane \<or> en_focused entity
         then errS ErrAgentIndeterminate
         else bindS (readS nx_panes) (\<lambda>existing.
           if list_ex (\<lambda>prior. samePane prior pane) existing then errS ErrAgentIndeterminate
           else bindS (setResult (\<lambda>r. r\<lparr>nr_handle := lifecycleHandle pane, nr_pane := Confirmed\<rparr>)) (\<lambda>_.
             if av_provider pane \<noteq> ''unknown'' \<or> focused then errS ErrAgentPrecondition else okS ())))"

definition launchArguments :: "string \<Rightarrow> json" where
  "launchArguments provider = JArray (if provider = ''copilot'' then [JString ''--no-auto-update''] else [])"

definition effectLaunch :: "world \<Rightarrow> start_request \<Rightarrow> ('z native_scheme, unit) handler" where
  "effectLaunch W q = bindS resultHandle (\<lambda>h.
     bindS (orFail W ErrAgentIndeterminate (agentRequest W ''agent.start'' ''agent_started''
       [(''name'', JString (sq_name q)), (''kind'', JString (sq_provider q)), (''pane_id'', JString (nh_pane h)),
        (''args'', launchArguments (sq_provider q)), (''timeout_ms'', JInt (sq_timeout q div 1000000))])) (\<lambda>started.
     case bindR (parseAgentInfo (member_at started ''agent'')) (\<lambda>agent.
         bindR (decodeStrings (member_at started ''argv'')) (\<lambda>argv. Inr (agent, argv))) of
       Inl e \<Rightarrow> errS ErrAgentIndeterminate
     | Inr (agent, argv) \<Rightarrow>
         if argv = [] \<or> \<not> lifecycleMatches h agent False \<or>
            av_provider agent \<noteq> sq_provider q \<and> \<not> (av_provider agent = ''unknown'' \<and> av_pending agent)
         then errS ErrAgentIndeterminate
         else bindS (setResult (\<lambda>r. r\<lparr>nr_handle := lifecycleHandle agent, nr_status := av_status agent\<rparr>)) (\<lambda>_.
           bindS (waitLifecycleLaunch W (sq_provider q) (launchPolls (sq_timeout q))) (\<lambda>_.
           setResult (putOutcome Launch Confirmed)))))"

definition effectPrompt :: "world \<Rightarrow> start_request \<Rightarrow> ('z native_scheme, unit) handler" where
  "effectPrompt W q = bindS resultHandle (\<lambda>h.
     bindS (orFail W ErrAgentIndeterminate (agentRequest W ''agent.prompt'' ''agent_prompted''
       [(''target'', JString (nh_pane h)), (''text'', JString (sq_prompt q))])) (\<lambda>prompted.
     case parseAgentInfo (member_at prompted ''agent'') of
       Inl e \<Rightarrow> errS ErrAgentIndeterminate
     | Inr after \<Rightarrow>
         if \<not> lifecycleMatches h after True then errS ErrAgentIndeterminate
         else bindS (observeStatus (av_status after)) (\<lambda>_. setResult (putOutcome Prompt Confirmed))))"

definition withTimeout :: "start_request \<Rightarrow> start_request" where
  "withTimeout q = (if sq_timeout q = 0 then q\<lparr>sq_timeout := 30 * 1000000000\<rparr> else q)"

text \<open>The stages after the pane exists, and the prompt after the launch.\<close>

definition startPrompt ::
  "world \<Rightarrow> ('z native_scheme) config \<Rightarrow> start_request \<Rightarrow> ('z native_scheme) hook \<Rightarrow> ('z native_scheme, unit) handler" where
  "startPrompt W cfg q hook =
     (if sq_prompt q = '''' then okS ()
      else bindS (lifecyclePromptReady W) (\<lambda>_.
        lifecycleGuardedEffect W cfg hook Prompt (lifecyclePromptReady W) (effectPrompt W q)))"

definition startLaunch ::
  "world \<Rightarrow> ('z native_scheme) config \<Rightarrow> start_request \<Rightarrow> ('z native_scheme) hook \<Rightarrow> ('z native_scheme, unit) handler" where
  "startLaunch W cfg q hook = bindS resultHandle (\<lambda>h. bindS (lifecycleShellReady W h) (\<lambda>_.
     lifecycleGuardedEffect W cfg hook Launch (bindS resultHandle (lifecycleShellReady W)) (effectLaunch W q)))"

definition startAgent ::
  "world \<Rightarrow> ('z native_scheme) config \<Rightarrow> start_request \<Rightarrow> ('z native_scheme) hook \<Rightarrow> ('z native_scheme, unit) handler" where
  "startAgent W cfg request hook = bindS (setResult (\<lambda>_. newLifecycleResult)) (\<lambda>_. let q = withTimeout request in
     if \<not> startRequestOk q then errS ErrAgentPrecondition
     else bindS (directory W (sq_cwd q)) (\<lambda>info. case info of
         None \<Rightarrow> errS ErrAgentPrecondition
       | Some i \<Rightarrow>
         bindS (lifecycleObserver W cfg) (\<lambda>_.
         bindS (lifecycleWorkspace W (sq_workspace q)) (\<lambda>_.
         bindS (readPanes W) (\<lambda>_.
         bindS (setResult (\<lambda>r. r\<lparr>nr_handle := (nr_handle r)\<lparr>nh_workspace := sq_workspace q\<rparr>\<rparr>)) (\<lambda>_.
         bindS (lifecycleGuardedEffect W cfg hook CreatePane (refreshCreate W q i) (effectCreate W q)) (\<lambda>_.
         bindS (startLaunch W cfg q hook) (\<lambda>_. startPrompt W cfg q hook))))))))"

section \<open>Stopping\<close>

definition lifecycleStopReady :: "world \<Rightarrow> ('z native_scheme, unit) handler" where
  "lifecycleStopReady W = bindS resultHandle (\<lambda>h.
     bindS (lifecycleWorkspace W (nh_workspace h)) (\<lambda>_.
     bindS (lifecyclePanes W) (\<lambda>panes.
     let own = filter (\<lambda>p. at_pane (viewTarget p) = nh_pane h) panes in
     if list_ex (\<lambda>p. \<not> lifecycleMatches h p True) own then errS ErrAgentChanged
     else if own = [] then errS ErrAgentUnavailable
     else if length (filter (\<lambda>p. av_workspace p = nh_workspace h) panes) < 2 then errS ErrLifecycleLastPane
     else bindS (getAgent W (lifecycleTarget h)) (\<lambda>v.
       if \<not> lifecycleMatches h v True then errS ErrAgentChanged else observeStatus (av_status v)))))"

definition effectClose :: "world \<Rightarrow> native_handle \<Rightarrow> ('z native_scheme, unit) handler" where
  "effectClose W h =
     bindS (orFail W ErrAgentIndeterminate (agentRequest W ''pane.close'' ''ok'' [(''pane_id'', JString (nh_pane h))])) (\<lambda>_.
     bindS (orFail W ErrAgentIndeterminate (lifecyclePanes W)) (\<lambda>after.
     if list_ex (\<lambda>p. at_pane (viewTarget p) = nh_pane h \<or> at_terminal (viewTarget p) = nh_terminal h) after
     then errS ErrAgentIndeterminate
     else bindS (orFail W ErrAgentIndeterminate (lifecycleWorkspace W (nh_workspace h))) (\<lambda>_.
       setResult (putOutcome ClosePane Confirmed))))"

definition stopRequestOk :: "native_handle \<Rightarrow> bool" where
  "stopRequestOk h = (commandToken (nh_workspace h) \<and> commandToken (nh_tab h) \<and>
     is_ok (ValidateAgentTarget (Some (lifecycleTarget h)) True) \<and> SupportedLifecycleProvider (nh_provider h))"

definition stopAgent ::
  "world \<Rightarrow> ('z native_scheme) config \<Rightarrow> native_handle \<Rightarrow> ('z native_scheme) hook \<Rightarrow> ('z native_scheme, unit) handler" where
  "stopAgent W cfg h hook = bindS (setResult (\<lambda>_. newLifecycleResult)) (\<lambda>_.
     if \<not> stopRequestOk h then errS ErrAgentPrecondition
     else bindS (setResult (\<lambda>r. r\<lparr>nr_handle := h\<rparr>)) (\<lambda>_.
       bindS (lifecycleObserver W cfg) (\<lambda>_.
       bindS (lifecycleStopReady W) (\<lambda>_.
       lifecycleGuardedEffect W cfg hook ClosePane (lifecycleStopReady W) (effectClose W h)))))"

end
