(* ===== verification/NativeSafety.thy ===== *)
theory NativeSafety
  imports NativeLifecycle "HOL-Library.Sublist"
begin

text \<open>
  What starting and stopping an agent put on the socket, and what the durable receipt says about it, for
  every behaviour of the native program and every moment of a crash.  The receipt lives in the part of
  the state that extends \<open>native\<close>; \<open>shown\<close> reads the outcome it records for a stage.  \<open>durable_hook\<close> is the
  contract of the hook that keeps the receipt and of the session check.
\<close>

section \<open>Requests that change the native program\<close>

fun stageMethod :: "native_stage \<Rightarrow> string" where
  "stageMethod CreatePane = ''tab.create''"
| "stageMethod Launch = ''agent.start''"
| "stageMethod Prompt = ''agent.prompt''"
| "stageMethod ClosePane = ''pane.close''"

definition observing :: "string \<Rightarrow> bool" where
  "observing m = (m \<in> set [''ping'', ''workspace.get'', ''workspace.list'', ''worktree.list'',
     ''pane.get'', ''pane.list'', ''agent.get''])"

fun methodOf :: "act \<Rightarrow> string" where
  "methodOf (Sent m p) = m"

definition changes :: "'z native_scheme \<Rightarrow> string list" where
  "changes s = filter (\<lambda>m. \<not> observing m) (map methodOf (nx_trace s))"

definition stageOutcomes :: "native_result \<Rightarrow> native_stage \<Rightarrow> native_outcome" where
  "stageOutcomes r = (\<lambda>st. lifecycleStageOutcome st r)"

lemma observing_methods:
  "observing ''ping''" "observing ''workspace.get''" "observing ''pane.get''" "observing ''pane.list''"
  "observing ''agent.get''" "observing ''workspace.list''" "observing ''worktree.list''"
  "\<not> observing (stageMethod st)"
proof -
  show "\<not> observing (stageMethod st)" by (cases st) (simp_all; code_simp)+
qed code_simp+

lemma stageOutcomes_put [simp]: "stageOutcomes (putOutcome st x r) = (stageOutcomes r)(st := x)"
proof (rule ext)
  fix st' show "stageOutcomes (putOutcome st x r) st' = ((stageOutcomes r)(st := x)) st'"
    by (cases st; cases st') (simp_all add: stageOutcomes_def)
qed

lemma stageOutcomes_update [simp]:
  "stageOutcomes (r\<lparr>nr_handle := h\<rparr>) = stageOutcomes r" "stageOutcomes (r\<lparr>nr_status := v\<rparr>) = stageOutcomes r"
proof -
  have "stageOutcomes (r\<lparr>nr_handle := h\<rparr>) st = stageOutcomes r st" "stageOutcomes (r\<lparr>nr_status := v\<rparr>) st = stageOutcomes r st" for st
    by (cases st; simp add: stageOutcomes_def)+
  then show "stageOutcomes (r\<lparr>nr_handle := h\<rparr>) = stageOutcomes r" "stageOutcomes (r\<lparr>nr_status := v\<rparr>) = stageOutcomes r"
    by auto
qed

lemma stageOutcomes_pane: "stageOutcomes (r\<lparr>nr_pane := x\<rparr>) = (stageOutcomes r)(CreatePane := x)"
  using stageOutcomes_put [of CreatePane x r] by (simp add: putOutcome.simps)

declare putOutcome.simps [simp del]

lemma stageOutcomes_new: "stageOutcomes newLifecycleResult st = NotAttempted"
  by (cases st) (simp_all add: stageOutcomes_def newLifecycleResult_def)

text \<open>The stages of a start, with and without an initial prompt.\<close>

definition startStages :: "string \<Rightarrow> native_stage list" where
  "startStages prompt = (if prompt = '''' then [CreatePane, Launch] else [CreatePane, Launch, Prompt])"

section \<open>Steps that only observe\<close>

definition harmless :: "'z native_scheme \<Rightarrow> 'z native_scheme \<Rightarrow> bool" where
  "harmless s t = (changes t = changes s \<and> stageOutcomes (nx_result t) = stageOutcomes (nx_result s) \<and>
     native.more t = native.more s \<and> nx_clock s \<le> nx_clock t)"

interpretation harmless: lawful harmless
  by unfold_locales (auto simp: harmless_def)

lemma harmless_tick: "harmless s (tick s)"
  by (simp add: harmless_def tick_def changes_def)

lemma harmless_draw: "upholds harmless (draw f)"
  by (auto simp: upholds_def draw_def harmless_tick)

lemma harmless_try: "upholds harmless m \<Longrightarrow> upholds harmless (tryS m)"
  by (auto simp: upholds_def tryS_def split: prod.splits)

lemma harmless_next: "upholds harmless (putS (\<lambda>s. s\<lparr>nx_next := n\<rparr>))"
  by (rule harmless.put) (simp add: harmless_def changes_def)

lemma harmless_panes: "upholds harmless (putS (\<lambda>s. s\<lparr>nx_panes := ps\<rparr>))"
  by (rule harmless.put) (simp add: harmless_def changes_def)

lemma harmless_result: "(\<And>r. stageOutcomes (f r) = stageOutcomes r) \<Longrightarrow> upholds harmless (setResult f)"
  unfolding setResult_def by (rule harmless.put) (simp add: harmless_def changes_def)

lemma harmless_send: "observing m \<Longrightarrow> upholds harmless (send W m p)"
  by (auto simp: upholds_def send_def harmless_def tick_def changes_def)

lemma harmless_request: "observing m \<Longrightarrow> upholds harmless (agentRequest W m t p)"
  unfolding agentRequest_def by (intro harmless.bind harmless.pure harmless_send)

lemma harmless_rpc: "observing m \<Longrightarrow> upholds harmless (rpc W m t)"
  unfolding rpc_def by (rule harmless_request)

lemma harmless_failure: "upholds harmless (agentFailure W e)"
  unfolding agentFailure_def by (intro harmless.bind harmless.pure harmless_draw upholds_cases)

lemma harmless_fail: "upholds harmless (failWith W e)"
  unfolding failWith_def by (intro harmless.bind harmless.pure harmless_failure)

lemma harmless_orFail: "upholds harmless m \<Longrightarrow> upholds harmless (orFail W e m)"
  unfolding orFail_def by (intro harmless.bind harmless.pure harmless_fail harmless_try upholds_cases)

lemma harmless_returning: "upholds harmless (returning e)"
  unfolding returning_def by (intro harmless.pure upholds_cases)

lemmas harmless_steps = harmless.bind harmless.pure upholds_cases harmless_draw harmless_next harmless_panes harmless_request harmless_rpc
  harmless_fail harmless_failure harmless_orFail harmless_returning harmless_try observing_methods

lemma harmless_observer: "upholds harmless (agentObserver W c)"
  unfolding agentObserver_def by (intro harmless_steps)

lemma harmless_lifecycle_observer: "upholds harmless (lifecycleObserver W c)"
  unfolding lifecycleObserver_def by (intro harmless_steps harmless_observer)

lemma harmless_getAgent: "upholds harmless (getAgent W t)"
  unfolding getAgent_def by (intro harmless_steps)

lemma harmless_workspace: "upholds harmless (lifecycleWorkspace W w)"
  unfolding lifecycleWorkspace_def by (intro harmless_steps)

lemma harmless_pane: "upholds harmless (lifecyclePane W h)"
  unfolding lifecyclePane_def by (intro harmless_steps)

lemma harmless_list: "upholds harmless (lifecyclePanes W)"
  unfolding lifecyclePanes_def by (intro harmless_steps)

lemma harmless_handle: "upholds harmless resultHandle"
  unfolding resultHandle_def by (rule harmless.pure)

lemma harmless_status: "upholds harmless (observeStatus v)"
  unfolding observeStatus_def by (rule harmless_result) simp

lemma harmless_directory: "upholds harmless (directory W p)"
  unfolding directory_def by (rule harmless_draw)

lemma harmless_read_panes: "upholds harmless (readPanes W)"
  unfolding readPanes_def by (intro harmless_steps harmless_list)

lemmas harmless_parts = harmless_steps harmless_lifecycle_observer harmless_getAgent harmless_workspace harmless_pane harmless_list
  harmless_handle harmless_status harmless_directory harmless_read_panes

lemma harmless_shell: "upholds harmless (lifecycleShellReady W h)"
  unfolding lifecycleShellReady_def by (intro harmless_parts)

lemma harmless_prompt: "upholds harmless (lifecyclePromptReady W)"
  unfolding lifecyclePromptReady_def by (intro harmless_parts)

lemma harmless_stop: "upholds harmless (lifecycleStopReady W)"
  unfolding lifecycleStopReady_def by (intro harmless_parts)

lemma harmless_create: "upholds harmless (refreshCreate W q i)"
  unfolding refreshCreate_def by (intro harmless_parts)

lemma harmless_wait: "upholds harmless (waitLifecycleLaunch W provider n)"
  by (induction n) (auto intro!: harmless_parts harmless_result)

section \<open>The mutating request of a stage\<close>

text \<open>What an effect does after its request was answered: at most it confirms its own stage.\<close>

definition marks :: "native_stage \<Rightarrow> 'z native_scheme \<Rightarrow> 'z native_scheme \<Rightarrow> bool" where
  "marks st s t = (changes t = changes s \<and> native.more t = native.more s \<and> nx_clock s \<le> nx_clock t \<and>
     (stageOutcomes (nx_result t) = stageOutcomes (nx_result s) \<or>
      stageOutcomes (nx_result t) = (stageOutcomes (nx_result s))(st := Confirmed)))"

interpretation marks: lawful "marks st" for st
  by unfold_locales (auto simp: marks_def)

lemma marks_harmless: "upholds harmless m \<Longrightarrow> upholds (marks st) m"
  by (auto simp: upholds_def harmless_def marks_def)

lemma marks_confirm:
  "(\<And>r. stageOutcomes (f r) = (stageOutcomes r)(st := Confirmed)) \<Longrightarrow> upholds (marks st) (setResult f)"
  unfolding setResult_def by (rule marks.put) (simp add: marks_def changes_def)

definition acts :: "world \<Rightarrow> native_stage \<Rightarrow> 'z native_scheme \<Rightarrow> bool \<Rightarrow> 'z native_scheme \<Rightarrow> bool" where
  "acts W st s success t = (native.more t = native.more s \<and> nx_clock s \<le> nx_clock t \<and>
     changes t = (if alive W s then changes s @ [stageMethod st] else changes s) \<and>
     (stageOutcomes (nx_result t) = stageOutcomes (nx_result s) \<and> \<not> success \<or>
      stageOutcomes (nx_result t) = (stageOutcomes (nx_result s))(st := Confirmed)))"

lemma send_acts:
  assumes "send W (stageMethod st) ps s = (j, t)"
  shows "native.more t = native.more s \<and> nx_clock s \<le> nx_clock t \<and> nx_result t = nx_result s \<and>
     changes t = (if alive W s then changes s @ [stageMethod st] else changes s)"
proof -
  have t: "t = tick (s\<lparr>nx_next := nx_next s + 1,
      nx_trace := (if alive W s then nx_trace s @ [Sent (stageMethod st) ps] else nx_trace s)\<rparr>)"
    using assms by (simp add: send_def)
  show ?thesis
    by (cases "alive W s") (simp_all add: t tick_def changes_def observing_methods)
qed

lemma acts_request:
  assumes b: "bindS (orFail W e (agentRequest W (stageMethod st) ty ps)) f s = (r, t)"
    and f: "\<And>x. upholds (marks st) (f x)"
    and ok: "\<And>x u v. f x u = (Inr (), v) \<Longrightarrow> stageOutcomes (nx_result v) st = Confirmed"
  shows "acts W st s (r = Inr ()) t"
proof -
  obtain j u where j: "send W (stageMethod st) ps s = (j, u)"
    by fastforce
  note u = send_acts [OF j]
  obtain x v where x: "orFail W e (agentRequest W (stageMethod st) ty ps) s = (x, v)"
    by fastforce
  obtain k where "agentRequest W (stageMethod st) ty ps s = (k, u)"
    by (cases j) (simp_all add: agentRequest_def bindS_def j handler_steps)
  then have "harmless u v"
    using x upholdsD [OF harmless_fail]
    by (auto simp: orFail_def bindS_def tryS_def handler_steps harmless.law_refl split: sum.splits)
  then have v: "marks st u v" using marks_harmless [of "\<lambda>s. (x, v)" st] by (auto simp: marks_def harmless_def)
  show ?thesis
  proof (cases x)
    case (Inl y)
    then have "t = v" "r = Inl y" using b x by (simp_all add: bindS_def)
    then show ?thesis using u \<open>harmless u v\<close> by (auto simp: acts_def harmless_def)
  next
    case (Inr y)
    then have fy: "f y v = (r, t)" using b x by (simp add: bindS_def)
    have "marks st u t" using v upholdsD [OF f fy] marks.law_trans by blast
    moreover have "r = Inr () \<Longrightarrow> stageOutcomes (nx_result t) st = Confirmed" using ok fy by simp
    ultimately show ?thesis using u
      by (auto simp: acts_def marks_def fun_upd_idem)
  qed
qed

lemma setResult_Inr: "setResult f s = (Inr u, t) \<longleftrightarrow> t = s\<lparr>nx_result := f (nx_result s)\<rparr>"
  by (auto simp: setResult_def handler_steps)

lemma create_acts:
  assumes "effectCreate W q s = (r, t)"
  shows "acts W CreatePane s (r = Inr ()) t"
  using assms unfolding effectCreate_def
proof (rule acts_request [where st = CreatePane, simplified])
  show "upholds (marks CreatePane) (case createdTab x of Inl e \<Rightarrow> errS ErrAgentIndeterminate
     | Inr (pane, focused, entity, count) \<Rightarrow>
         if count \<noteq> 1 \<or> av_workspace pane \<noteq> sq_workspace q \<or> en_workspace entity \<noteq> sq_workspace q \<or>
            en_id entity \<noteq> av_tab pane \<or> en_focused entity
         then errS ErrAgentIndeterminate
         else bindS (readS nx_panes) (\<lambda>existing.
           if list_ex (\<lambda>prior. samePane prior pane) existing then errS ErrAgentIndeterminate
           else bindS (setResult (\<lambda>r. r\<lparr>nr_handle := lifecycleHandle pane, nr_pane := Confirmed\<rparr>)) (\<lambda>_.
             if av_provider pane \<noteq> ''unknown'' \<or> focused then errS ErrAgentPrecondition else okS ())))" for x
    by (intro marks.bind marks.pure upholds_cases marks_confirm) (simp add: stageOutcomes_pane)
qed (auto simp: bindS_eq_Inr handler_steps setResult_Inr stageOutcomes_pane split: sum.splits if_splits prod.splits)

lemma launch_acts:
  assumes "effectLaunch W q s = (r, t)"
  shows "acts W Launch s (r = Inr ()) t"
  using assms unfolding effectLaunch_def resultHandle_def bindS_read
proof (rule acts_request [where st = Launch, simplified], goal_cases)
  case (1 x)
  show ?case
    by (intro marks.bind marks.pure upholds_cases marks_confirm marks_harmless [OF harmless_result] marks_harmless [OF harmless_wait]
        stageOutcomes_put) simp
next
  case (2 x u v)
  then show ?case
    by (auto simp: bindS_eq_Inr handler_steps setResult_Inr split: sum.splits if_splits prod.splits)
qed

lemma prompt_acts:
  assumes "effectPrompt W q s = (r, t)"
  shows "acts W Prompt s (r = Inr ()) t"
  using assms unfolding effectPrompt_def resultHandle_def bindS_read
proof (rule acts_request [where st = Prompt, simplified], goal_cases)
  case (1 x)
  show ?case
    by (intro marks.bind marks.pure upholds_cases marks_confirm marks_harmless [OF harmless_status]) simp_all
next
  case (2 x u v)
  then show ?case
    by (auto simp: bindS_eq_Inr handler_steps setResult_Inr split: sum.splits if_splits prod.splits)
qed

lemma close_acts:
  assumes "effectClose W h s = (r, t)"
  shows "acts W ClosePane s (r = Inr ()) t"
  using assms unfolding effectClose_def
proof (rule acts_request [where st = ClosePane, simplified], goal_cases)
  case (1 x)
  show ?case
    by (intro marks.bind marks.pure upholds_cases marks_confirm marks_harmless [OF harmless_orFail] harmless_list
        harmless_workspace stageOutcomes_put)
next
  case (2 x u v)
  then show ?case
    by (auto simp: bindS_eq_Inr handler_steps setResult_Inr split: sum.splits if_splits prod.splits)
qed

section \<open>The hook's contract\<close>

locale durable_hook =
  fixes W :: world and cfg :: "('z native_scheme) config" and hook :: "('z native_scheme) hook"
    and shown :: "'z \<Rightarrow> native_stage \<Rightarrow> native_outcome" and inv :: "'z \<Rightarrow> bool"
  assumes hook_frame: "inv (native.more s) \<Longrightarrow> hook e s = (r, t) \<Longrightarrow> inv (native.more t) \<and>
      changes t = changes s \<and> stageOutcomes (nx_result t) = stageOutcomes (nx_result s) \<and> nx_clock s \<le> nx_clock t"
    and hook_saves: "inv (native.more s) \<Longrightarrow> hook e s = (r, t) \<Longrightarrow>
      shown (native.more t) = shown (native.more s) \<or> shown (native.more t) = stageOutcomes (le_result e)"
    and hook_done: "inv (native.more s) \<Longrightarrow> hook e s = (Inr u, t) \<Longrightarrow> alive W t \<Longrightarrow>
      shown (native.more t) = stageOutcomes (le_result e)"
    and hook_dead: "inv (native.more s) \<Longrightarrow> hook e s = (r, t) \<Longrightarrow> \<not> alive W s \<Longrightarrow>
      shown (native.more t) = shown (native.more s)"
    and check_frame: "inv (native.more s) \<Longrightarrow> cf_check cfg = Some check \<Longrightarrow> check s = (r, t) \<Longrightarrow>
      inv (native.more t) \<and> changes t = changes s \<and> nx_clock s \<le> nx_clock t \<and>
      stageOutcomes (nx_result t) = stageOutcomes (nx_result s) \<and> shown (native.more t) = shown (native.more s)"
begin

text \<open>The steps between the hooks, as the receipt sees them.\<close>

definition still :: "'z native_scheme \<Rightarrow> 'z native_scheme \<Rightarrow> bool" where
  "still s t = (inv (native.more s) \<longrightarrow> inv (native.more t) \<and> changes t = changes s \<and>
     stageOutcomes (nx_result t) = stageOutcomes (nx_result s) \<and>
     shown (native.more t) = shown (native.more s) \<and> nx_clock s \<le> nx_clock t)"

sublocale still: lawful still
  by unfold_locales (auto simp: still_def)

lemma still_harmless: "upholds harmless m \<Longrightarrow> upholds still m"
  by (auto simp: upholds_def harmless_def still_def)

lemma still_check: "upholds still (lifecycleCheckSession W cfg)"
proof -
  have "upholds still check" if c: "cf_check cfg = Some check" for check
    unfolding upholds_def still_def
  proof (intro allI impI)
    fix s r t assume "check s = (r, t)" and "inv (native.more s)"
    from check_frame [OF this(2) c this(1)] show "inv (native.more t) \<and> changes t = changes s \<and>
        stageOutcomes (nx_result t) = stageOutcomes (nx_result s) \<and>
        shown (native.more t) = shown (native.more s) \<and> nx_clock s \<le> nx_clock t" by simp
  qed
  then have check: "upholds still (case cf_check cfg of None \<Rightarrow> okS () | Some check \<Rightarrow> check)"
    by (cases "cf_check cfg") (simp_all add: still.pure)
  show ?thesis
    unfolding lifecycleCheckSession_def
    by (rule still.bind [OF still_harmless [OF harmless_draw]], rule upholds_option, rule still.bind [OF check])
      (intro still.bind still.pure still_harmless [OF harmless_draw] still_harmless [OF harmless_returning])+
qed

text \<open>What the closure of a stage does, by what it returns.\<close>

definition attempt ::
  "native_stage \<Rightarrow> 'z native_scheme \<Rightarrow> effect_error option \<Rightarrow> 'z native_scheme \<Rightarrow> bool" where
  "attempt st s x t =
     (inv (native.more t) \<and> shown (native.more t) = shown (native.more s) \<and> nx_clock s \<le> nx_clock t \<and>
      (case x of
        Some (PreDispatch e) \<Rightarrow> changes t = changes s \<and> stageOutcomes (nx_result t) = stageOutcomes (nx_result s)
      | _ \<Rightarrow> (changes t = changes s @ [stageMethod st] \<and> alive W s \<or> changes t = changes s \<and> \<not> alive W t) \<and>
          (stageOutcomes (nx_result t) = stageOutcomes (nx_result s) \<and> x \<noteq> None \<or>
           stageOutcomes (nx_result t) = (stageOutcomes (nx_result s))(st := Confirmed))))"

lemma alive_mono: "nx_clock s \<le> nx_clock t \<Longrightarrow> alive W t \<Longrightarrow> alive W s"
  by (simp add: alive_def)

lemma attempt_body:
  assumes good: "inv (native.more s)" and refresh: "upholds harmless refresh"
    and effect: "\<And>s r t. effect s = (r, t) \<Longrightarrow> acts W st s (r = Inr ()) t"
  shows "\<exists>x t. guardedBody W cfg refresh effect s = (Inr x, t) \<and> attempt st s x t"
proof -
  note check = upholdsD [OF still_check]
  obtain c1 s1 where c1: "lifecycleCheckSession W cfg s = (c1, s1)" by fastforce
  obtain f s2 where f: "refresh s1 = (f, s2)" by fastforce
  obtain c2 s3 where c2: "lifecycleCheckSession W cfg s2 = (c2, s3)" by fastforce
  obtain x s4 where x: "effect s3 = (x, s4)" by fastforce
  obtain c3 s5 where c3: "lifecycleCheckSession W cfg s4 = (c3, s5)" by fastforce
  have s1: "still s s1" using check [OF c1] .
  have s3: "still s s3"
    using s1 upholdsD [OF still_harmless [OF refresh] f] check [OF c2] still.law_trans by blast
  note step = guardedBody_def bindS_read tryS_def bindS_run handler_steps setResult_def Let_def
  consider (one) e where "c1 = Inl e" | (two) u e where "c1 = Inr u" "c2 = Inl e"
    | (fresh) u v e where "c1 = Inr u" "c2 = Inr v" "f = Inl e"
    | (go) u v w where "c1 = Inr u" "c2 = Inr v" "f = Inr w"
    by (cases c1; cases c2; cases f) auto
  then show ?thesis
  proof cases
    case one
    then show ?thesis using good s1 c1 by (simp add: step bindS_def attempt_def still_def)
  next
    case two
    then show ?thesis using good s1 s3 c1 f c2
      by (simp add: step bindS_def attempt_def still_def changes_def)
  next
    case fresh
    then show ?thesis using good s3 c1 f c2 by (simp add: step bindS_def attempt_def still_def)
  next
    case go
    have a: "acts W st s3 (x = Inr ()) s4" using effect [OF x] .
    have dead: "\<not> alive W s3 \<Longrightarrow> \<not> alive W s4"
      using a alive_mono by (auto simp: acts_def)
    have live: "alive W s3 \<Longrightarrow> alive W s"
      using good s3 alive_mono by (auto simp: still_def)
    define err where "err = (case x of Inl e \<Rightarrow> Some e | Inr u \<Rightarrow> None)"
    have err: "(err = None) = (x = Inr ())" by (cases x) (simp_all add: err_def)
    show ?thesis
    proof (cases "cf_check cfg = None")
      case True
      have "guardedBody W cfg refresh effect s = (Inr (map_option Failed err), s4)"
        using go True c1 f c2 x by (simp add: step bindS_def err_def)
      moreover have "attempt st s (map_option Failed err) s4"
        using good a s3 err dead live
        by (cases err) (auto simp: attempt_def acts_def still_def)
      ultimately show ?thesis by blast
    next
      case False
      note s5 = check [OF c3]
      have clock: "\<not> alive W s4 \<Longrightarrow> \<not> alive W s5"
        using good a s3 s5 alive_mono by (auto simp: still_def acts_def)
      show ?thesis
      proof (cases c3)
        case (Inr u)
        have "guardedBody W cfg refresh effect s = (Inr (map_option Failed err), s5)"
          using go False c1 f c2 x c3 Inr by (simp add: step bindS_def err_def del: not_None_eq)
        moreover have "attempt st s (map_option Failed err) s5"
          using good a s3 s5 err dead live clock
          by (cases err) (auto simp: attempt_def acts_def still_def)
        ultimately show ?thesis by blast
      next
        case (Inl e)
        let ?t = "s5\<lparr>nx_result := nx_result s\<rparr>"
        let ?x = "Some (Failed (joined [Some ErrAgentIndeterminate, err, Some e]))"
        have "guardedBody W cfg refresh effect s = (Inr ?x, ?t)"
          using go False c1 f c2 x c3 Inl by (simp add: step bindS_def err_def del: not_None_eq)
        moreover have "attempt st s ?x ?t"
          using good a s3 s5 dead live clock
          by (auto simp: attempt_def acts_def still_def changes_def alive_def)
        ultimately show ?thesis by blast
      qed
    qed
  qed
qed

section \<open>A stage\<close>

text \<open>What a stage leaves behind, whether or not it reports success.\<close>

definition staged :: "native_stage \<Rightarrow> 'z native_scheme \<Rightarrow> bool \<Rightarrow> 'z native_scheme \<Rightarrow> bool" where
  "staged st s success t =
     (inv (native.more t) \<and> nx_clock s \<le> nx_clock t \<and>
      (\<not> alive W s \<longrightarrow> changes t = changes s \<and> shown (native.more t) = shown (native.more s)) \<and>
      (changes t = changes s @ [stageMethod st] \<and> shown (native.more t) st \<noteq> NotAttempted \<or>
       changes t = changes s \<and> (shown (native.more t) st = Confirmed \<longrightarrow> shown (native.more s) st = Confirmed)) \<and>
      (\<forall>st'. st' \<noteq> st \<longrightarrow> shown (native.more t) st' \<in> {shown (native.more s) st', stageOutcomes (nx_result s) st'}) \<and>
      (success \<and> alive W t \<longrightarrow> changes t = changes s @ [stageMethod st] \<and>
         shown (native.more t) = stageOutcomes (nx_result t) \<and>
         stageOutcomes (nx_result t) = (stageOutcomes (nx_result s))(st := Confirmed)))"

lemma settle:
  assumes good: "inv (native.more s)" and run: "settleEffect hook st x s = (r, t)"
  shows "nx_clock s \<le> nx_clock t" "changes t = changes s"
    "\<not> alive W s \<Longrightarrow> shown (native.more t) = shown (native.more s)"
    "shown (native.more t) \<in> {shown (native.more s), stageOutcomes (case x of Some (PreDispatch e) \<Rightarrow>
        putOutcome st NotAttempted (nx_result s) | _ \<Rightarrow> nx_result s)}"
    "r = Inr () \<Longrightarrow> x = None \<and> stageOutcomes (nx_result t) = stageOutcomes (nx_result s) \<and>
        (alive W t \<longrightarrow> shown (native.more t) = stageOutcomes (nx_result s))"
    "inv (native.more t)"
proof -
  let ?s1 = "case x of Some (PreDispatch e) \<Rightarrow> s\<lparr>nx_result := putOutcome st NotAttempted (nx_result s)\<rparr> | _ \<Rightarrow> s"
  let ?e = "\<lparr>le_stage = st, le_before = False, le_result = nx_result ?s1\<rparr>"
  obtain v u where hk: "hook ?e ?s1 = (v, u)" by fastforce
  have g1: "inv (native.more ?s1)" using good by (auto split: option.splits effect_error.splits)
  note frame = hook_frame [OF g1 hk]
  have s1: "changes ?s1 = changes s" "native.more ?s1 = native.more s" "nx_clock ?s1 = nx_clock s"
    "nx_result ?s1 = (case x of Some (PreDispatch e) \<Rightarrow> putOutcome st NotAttempted (nx_result s) | _ \<Rightarrow> nx_result s)"
    by (auto simp: changes_def split: option.splits effect_error.splits)
  let ?m = "case x of Some (PreDispatch e) \<Rightarrow> setResult (putOutcome st NotAttempted) | _ \<Rightarrow> okS ()"
  have pre: "?m s = (Inr (), ?s1)"
    by (auto simp: setResult_def handler_steps split: option.splits effect_error.splits)
  have main: "(t = u \<or> t = u\<lparr>nx_result := putOutcome st OutcomeUnknown (nx_result u)\<rparr> \<and> r \<noteq> Inr ()) \<and>
      (r = Inr () \<longrightarrow> v = Inr () \<and> errorOf x = None)"
    using run hk unfolding settleEffect_def bindS_run [where m = ?m, OF pre] bindS_read
    by (auto simp: bindS_def tryS_def handler_steps setResult_def returning_def split: sum.splits if_splits option.splits)
  then have more: "native.more t = native.more u" "changes t = changes u" "nx_clock t = nx_clock u"
    by (auto simp: changes_def)
  show "nx_clock s \<le> nx_clock t" "changes t = changes s"
    using frame s1 more by simp_all
  show "inv (native.more t)" using frame more by simp
  show "\<not> alive W s \<Longrightarrow> shown (native.more t) = shown (native.more s)"
    using hook_dead [OF g1 hk] s1 more by (simp add: alive_def)
  show "shown (native.more t) \<in> {shown (native.more s), stageOutcomes (case x of Some (PreDispatch e) \<Rightarrow>
        putOutcome st NotAttempted (nx_result s) | _ \<Rightarrow> nx_result s)}"
    using hook_saves [OF g1 hk] s1 more by simp
  assume ok: "r = Inr ()"
  then have n: "x = None" "v = Inr ()" "t = u"
    using main by (auto simp: errorOf_def split: option.splits effect_error.splits)
  then show "x = None \<and> stageOutcomes (nx_result t) = stageOutcomes (nx_result s) \<and>
        (alive W t \<longrightarrow> shown (native.more t) = stageOutcomes (nx_result s))"
    using frame s1 hook_done [OF g1, of ?e "()" u] hk by auto
qed

lemma failWith_Inl: "failWith W e s \<noteq> (Inr x, t)"
proof -
  obtain y where "agentFailure W e s = (Inr y, tick s) \<or> agentFailure W e s = (Inr y, tick (tick s))"
    by (cases "wo_ctx W (nx_clock s)")
      (auto simp: agentFailure_def bindS_def draw_def handler_steps)
  then show ?thesis by (auto simp: failWith_def bindS_def handler_steps)
qed

lemma staged_idle: "inv (native.more s) \<Longrightarrow> harmless s t \<Longrightarrow> staged st s False t"
  by (auto simp: staged_def harmless_def)

text \<open>From the state in which the intent is durable on.\<close>

lemma staged_attempt:
  assumes intent: "nx_result v = putOutcome st OutcomeUnknown (nx_result s)" "changes v = changes s"
      "nx_clock s \<le> nx_clock v"
    and saved: "shown (native.more v) = shown (native.more s) \<or> shown (native.more v) = stageOutcomes (nx_result v)"
      "alive W v \<Longrightarrow> shown (native.more v) = stageOutcomes (nx_result v)"
      "\<not> alive W s \<Longrightarrow> shown (native.more v) = shown (native.more s)"
    and tried: "attempt st v x w"
    and run: "settleEffect hook st x w = (r, t)"
  shows "staged st s (r = Inr ()) t"
proof -
  have good: "inv (native.more w)" using tried by (simp add: attempt_def)
  note se = settle [OF good run]
  have oc: "stageOutcomes (nx_result v) = (stageOutcomes (nx_result s))(st := OutcomeUnknown)"
    using intent(1) by simp
  have clocks: "nx_clock v \<le> nx_clock w" "nx_clock w \<le> nx_clock t"
    using tried se(1) by (simp_all add: attempt_def)
  have dead: "\<not> alive W s \<Longrightarrow> \<not> alive W v" "\<not> alive W v \<Longrightarrow> \<not> alive W w" "\<not> alive W w \<Longrightarrow> \<not> alive W t"
    using clocks intent(3) by (simp_all add: alive_def)
  show ?thesis
  proof (cases "\<exists>e. x = Some (PreDispatch e)")
    case True
    then obtain e where x: "x = Some (PreDispatch e)" by blast
    have ch: "changes t = changes s" using se(2) tried intent(2) by (simp add: attempt_def x)
    have sh: "shown (native.more t) = shown (native.more s) \<or>
        shown (native.more t) = (stageOutcomes (nx_result s))(st := OutcomeUnknown) \<or>
        shown (native.more t) = (stageOutcomes (nx_result s))(st := NotAttempted)"
      using se(4) tried saved(1) oc by (auto simp: attempt_def x)
    have "\<not> alive W s \<Longrightarrow> shown (native.more t) = shown (native.more s)"
      using se(3) tried saved(3) dead by (auto simp: attempt_def x)
    moreover have "r \<noteq> Inr ()" using se(5) x by auto
    ultimately show ?thesis using ch sh clocks intent(3) se(6) by (auto simp: staged_def)
  next
    case False
    then have a: "shown (native.more w) = shown (native.more v)"
        "changes w = changes v @ [stageMethod st] \<and> alive W v \<or> changes w = changes v \<and> \<not> alive W w"
        "stageOutcomes (nx_result w) = stageOutcomes (nx_result v) \<and> x \<noteq> None \<or>
         stageOutcomes (nx_result w) = (stageOutcomes (nx_result v))(st := Confirmed)"
      using tried by (auto simp: attempt_def split: option.splits effect_error.splits)
    have x: "(case x of Some (PreDispatch e) \<Rightarrow> putOutcome st NotAttempted (nx_result w) | _ \<Rightarrow> nx_result w) = nx_result w"
      using False by (auto split: option.splits effect_error.splits)
    have sh: "shown (native.more t) = shown (native.more v) \<or> shown (native.more t) = stageOutcomes (nx_result w)"
      using se(4) a(1) unfolding x by auto
    have ok: "r = Inr () \<Longrightarrow> alive W t \<Longrightarrow> x = None \<and> alive W w \<and>
        shown (native.more t) = stageOutcomes (nx_result w) \<and> stageOutcomes (nx_result t) = stageOutcomes (nx_result w)"
      using se(5) dead by auto
    from a(2) show ?thesis
    proof
      assume sent: "changes w = changes v @ [stageMethod st] \<and> alive W v"
      then have "alive W s" using dead(1) by blast
      moreover have "shown (native.more v) = stageOutcomes (nx_result v)" using saved(2) sent by simp
      moreover have "changes t = changes s @ [stageMethod st]" using se(2) sent intent(2) by simp
      ultimately show ?thesis using sh a(3) ok clocks intent(3) se(6) by (auto simp: staged_def oc)
    next
      assume no: "changes w = changes v \<and> \<not> alive W w"
      then have "\<not> alive W t" "shown (native.more t) = shown (native.more v)" "changes t = changes s"
        using dead(3) se(2,3) a(1) intent(2) by simp_all
      then show ?thesis using saved clocks intent(3) se(6) by (auto simp: staged_def oc)
    qed
  qed
qed

lemma staged_effect:
  assumes good: "inv (native.more s)" and refresh: "upholds harmless refresh"
    and effect: "\<And>s r t. effect s = (r, t) \<Longrightarrow> acts W st s (r = Inr ()) t"
    and run: "lifecycleGuardedEffect W cfg hook st refresh effect s = (r, t)"
  shows "staged st s (r = Inr ()) t"
proof -
  let ?s1 = "tick s" and ?intent = "putOutcome st OutcomeUnknown (nx_result s)"
  let ?e = "\<lparr>le_stage = st, le_before = True, le_result = ?intent\<rparr>"
  obtain y u where hk: "hook ?e ?s1 = (y, u)" by fastforce
  have g1: "inv (native.more ?s1)" using good by (simp add: tick_def)
  note frame = hook_frame [OF g1 hk]
  have s1: "nx_result ?s1 = nx_result s" "changes ?s1 = changes s" "native.more ?s1 = native.more s"
    "nx_clock s \<le> nx_clock ?s1"
    by (simp_all add: tick_def changes_def)
  have sh: "shown (native.more u) = shown (native.more s) \<or> shown (native.more u) = stageOutcomes ?intent"
    using hook_saves [OF g1 hk] s1 by simp
  have dead: "\<not> alive W s \<Longrightarrow> shown (native.more u) = shown (native.more s)"
    using hook_dead [OF g1 hk] s1 by (simp add: alive_def)
  let ?v = "tick (u\<lparr>nx_result := ?intent\<rparr>)"
  have v: "nx_result ?v = ?intent" "changes ?v = changes u" "native.more ?v = native.more u" "nx_clock ?v = nx_clock u + 1"
    by (simp_all add: tick_def changes_def)
  note step = lifecycleGuardedEffect_def lifecycleEffect_def bindS_read Let_def
  show ?thesis
  proof (cases "wo_ctx W (nx_clock s)")
    case (Some c)
    then have "failWith W ErrAgentUnavailable ?s1 = (r, t)"
      using run by (simp add: step bindS_def draw_def)
    then have "harmless ?s1 t" "r \<noteq> Inr ()" using upholdsD [OF harmless_fail] failWith_Inl by metis+
    then show ?thesis using good staged_idle [of s t st] harmless.law_trans [OF harmless_tick [of s], of t] by simp
  next
    case None
    note now = None
    show ?thesis
    proof (cases y)
      case (Inl e)
      then have "t = u" "r = Inl ErrLifecyclePersistence"
        using run now hk s1 by (auto simp: step bindS_def draw_def tryS_def handler_steps)
      then show ?thesis using frame s1 sh dead by (auto simp: staged_def)
    next
      case (Inr z)
      obtain x w where xw: "(if wo_ctx W (nx_clock u) \<noteq> None
            then bindS (agentFailure W ErrAgentUnavailable) (\<lambda>e. okS (Some (PreDispatch e)))
            else guardedBody W cfg refresh effect) ?v = (x, w)"
        by fastforce
      have x: "\<exists>z'. x = Inr z' \<and> attempt st ?v z' w"
      proof (cases "wo_ctx W (nx_clock u) = None")
        case True
        have "\<exists>x t. guardedBody W cfg refresh effect ?v = (Inr x, t) \<and> attempt st ?v x t"
          by (rule attempt_body [OF _ refresh]) (use frame v in simp, rule effect)
        then show ?thesis using True xw by auto
      next
        case False
        obtain f w' where f: "agentFailure W ErrAgentUnavailable ?v = (f, w')" by fastforce
        then have "harmless ?v w'" using upholdsD [OF harmless_failure] by blast
        moreover have "\<exists>e. f = Inr e"
          using f by (auto simp: agentFailure_def bindS_def draw_def handler_steps split: option.splits if_splits)
        ultimately show ?thesis using xw False f frame v(3)
          by (auto simp: bindS_def handler_steps attempt_def harmless_def)
      qed
      then obtain z' where z': "x = Inr z'" "attempt st ?v z' w" by blast
      have "settleEffect hook st z' w = (r, t)"
        using run now hk s1 Inr xw z'(1)
        by (simp add: step bindS_def draw_def tryS_def handler_steps setResult_def del: not_None_eq)
      moreover have "alive W ?v \<Longrightarrow> shown (native.more ?v) = stageOutcomes (nx_result ?v)"
        using hook_done [OF g1, of ?e "()" u] hk Inr v by (simp add: alive_def)
      ultimately show ?thesis
        using staged_attempt [OF _ _ _ _ _ _ z'(2)] v frame s1 sh dead by simp
    qed
  qed
qed

section \<open>Runs of several stages\<close>

text \<open>The stages \<open>ss\<close> were put on the socket, in this order, and the receipt owns up to each of them.\<close>

definition recorded :: "string list \<Rightarrow> native_stage list \<Rightarrow> 'z native_scheme \<Rightarrow> bool" where
  "recorded base ss s =
     (changes s = base @ map stageMethod ss \<and>
      (\<forall>st\<in>set ss. shown (native.more s) st \<noteq> NotAttempted) \<and>
      (\<forall>st. shown (native.more s) st = Confirmed \<longrightarrow> st \<in> set ss) \<and>
      (\<forall>st\<in>set (butlast ss). shown (native.more s) st = Confirmed))"

definition reached :: "string list \<Rightarrow> native_stage list \<Rightarrow> 'z native_scheme \<Rightarrow> bool" where
  "reached base ss s =
     (inv (native.more s) \<and> (\<exists>ps. prefix ps ss \<and> recorded base ps s) \<and>
      (alive W s \<longrightarrow> changes s = base @ map stageMethod ss \<and>
         shown (native.more s) = (\<lambda>st. if st \<in> set ss then Confirmed else NotAttempted) \<and>
         stageOutcomes (nx_result s) = shown (native.more s)))"

lemma recorded_harmless: "recorded base ss s \<Longrightarrow> harmless s t \<Longrightarrow> recorded base ss t"
  by (simp add: recorded_def harmless_def)

lemma reached_harmless: "reached base ss s \<Longrightarrow> harmless s t \<Longrightarrow> reached base ss t"
  unfolding reached_def using recorded_harmless alive_mono by (fastforce simp: harmless_def)

lemma reached_alive:
  "reached base ss s \<Longrightarrow> alive W s \<Longrightarrow> recorded base ss s"
  by (auto simp: reached_def recorded_def dest: in_set_butlastD)

lemma reached_stage:
  assumes at: "reached base ss s" and new: "st \<notin> set ss" and stg: "staged st s success t"
  shows "\<exists>ps. prefix ps (ss @ [st]) \<and> recorded base ps t" "success \<Longrightarrow> reached base (ss @ [st]) t"
proof -
  show ex: "\<exists>ps. prefix ps (ss @ [st]) \<and> recorded base ps t"
  proof (cases "alive W s")
    case False
    then have "changes t = changes s" "shown (native.more t) = shown (native.more s)"
      using stg by (simp_all add: staged_def)
    then show ?thesis using at by (auto simp: reached_def recorded_def)
  next
    case True
    then have s: "changes s = base @ map stageMethod ss"
        "shown (native.more s) = (\<lambda>st. if st \<in> set ss then Confirmed else NotAttempted)"
        "stageOutcomes (nx_result s) = shown (native.more s)"
      using at by (simp_all add: reached_def)
    have others: "st' \<noteq> st \<Longrightarrow> shown (native.more t) st' = (if st' \<in> set ss then Confirmed else NotAttempted)" for st'
      using stg s by (auto simp: staged_def)
    show ?thesis
    proof (cases "changes t = changes s")
      case True
      then have "shown (native.more t) st \<noteq> Confirmed"
        using stg s new by (auto simp: staged_def)
      then have c: "shown (native.more t) st' = Confirmed \<longleftrightarrow> st' \<in> set ss" for st'
        using others new by (cases "st' = st") simp_all
      moreover from c have "shown (native.more t) st' \<noteq> NotAttempted" if "st' \<in> set ss" for st'
        using that by (metis native_outcome.distinct(3))
      ultimately have "recorded base ss t"
        unfolding recorded_def using True s(1) by (auto dest: in_set_butlastD)
      then show ?thesis by (intro exI [of _ ss]) simp
    next
      case False
      then have "changes t = changes s @ [stageMethod st]" "shown (native.more t) st \<noteq> NotAttempted"
        using stg by (auto simp: staged_def)
      moreover have "shown (native.more t) st' \<noteq> NotAttempted" if "st' \<in> set ss" for st'
        using others [of st'] new that by (cases "st' = st") simp_all
      moreover have "shown (native.more t) st' = Confirmed" if "st' \<in> set ss" for st'
        using others [of st'] new that by (cases "st' = st") simp_all
      moreover have "st' \<in> set (ss @ [st])" if "shown (native.more t) st' = Confirmed" for st'
        using others [of st'] that by (cases "st' = st") (simp_all split: if_splits)
      ultimately have "recorded base (ss @ [st]) t"
        unfolding recorded_def using s(1) by simp
      then show ?thesis by blast
    qed
  qed
  assume success
  have i: "inv (native.more t)" using stg by (simp add: staged_def)
  from \<open>success\<close> have "alive W t \<Longrightarrow> alive W s \<and> changes t = changes s @ [stageMethod st] \<and>
      shown (native.more t) = stageOutcomes (nx_result t) \<and> stageOutcomes (nx_result t) = (stageOutcomes (nx_result s))(st := Confirmed)"
    using stg alive_mono by (auto simp: staged_def)
  then show "reached base (ss @ [st]) t"
    using ex at i by (auto simp: reached_def)
qed

lemma reached_start:
  assumes "inv (native.more s)" and "shown (native.more s) = (\<lambda>st. NotAttempted)"
  shows "reached (changes s) [] (s\<lparr>nx_result := newLifecycleResult\<rparr>)"
proof -
  have "stageOutcomes newLifecycleResult = (\<lambda>st. NotAttempted)" using stageOutcomes_new by blast
  then show ?thesis using assms by (simp add: reached_def recorded_def changes_def)
qed

definition part :: "string list \<Rightarrow> native_stage list \<Rightarrow> 'z native_scheme \<Rightarrow> bool" where
  "part base ss t = (inv (native.more t) \<and> (\<exists>ps. prefix ps ss \<and> recorded base ps t))"

lemma part_mono: "part base ss t \<Longrightarrow> prefix ss all \<Longrightarrow> part base all t"
  unfolding part_def using prefix_order.order_trans by blast

lemma reached_part: "reached base ss s \<Longrightarrow> prefix ss all \<Longrightarrow> part base all s"
  unfolding reached_def part_def using prefix_order.order_trans by blast

text \<open>A handler that runs from \<open>ss\<close> on stays within \<open>all\<close>, and reaches \<open>goal\<close> when it succeeds.\<close>

definition goes ::
  "string list \<Rightarrow> native_stage list \<Rightarrow> native_stage list \<Rightarrow> native_stage list \<Rightarrow> ('z native_scheme, 'a) handler \<Rightarrow> bool" where
  "goes base all ss goal m = (\<forall>s r t. reached base ss s \<longrightarrow> m s = (r, t) \<longrightarrow>
     part base all t \<and> (is_ok r \<longrightarrow> reached base goal t))"

lemma goes_harmless:
  assumes "upholds harmless m" and "prefix ss all"
  shows "goes base all ss ss m"
  unfolding goes_def using assms reached_part reached_harmless upholdsD by metis

lemma goes_bind:
  assumes "goes base all ss mid m" and "\<And>x. goes base all mid goal (f x)"
  shows "goes base all ss goal (bindS m f)"
  unfolding goes_def
proof (intro allI impI)
  fix s r t assume s: "reached base ss s" and b: "bindS m f s = (r, t)"
  obtain x u where m: "m s = (x, u)" by fastforce
  have x: "part base all u \<and> (is_ok x \<longrightarrow> reached base mid u)" using assms(1) s m by (simp add: goes_def)
  show "part base all t \<and> (is_ok r \<longrightarrow> reached base goal t)"
  proof (cases x)
    case (Inl e)
    then show ?thesis using x m b by (auto simp: bindS_def)
  next
    case (Inr y)
    then have "f y u = (r, t)" "reached base mid u" using x m b by (auto simp: bindS_def)
    then show ?thesis using assms(2) [of y] by (simp add: goes_def)
  qed
qed

lemma goes_fail: "prefix ss all \<Longrightarrow> goes base all ss goal (errS e)"
  by (auto simp: goes_def errS_def intro: reached_part)

lemma goes_stage:
  assumes refresh: "upholds harmless refresh"
    and effect: "\<And>s r t. effect s = (r, t) \<Longrightarrow> acts W st s (r = Inr ()) t"
    and new: "st \<notin> set ss" and sub: "prefix (ss @ [st]) all"
  shows "goes base all ss (ss @ [st]) (lifecycleGuardedEffect W cfg hook st refresh effect)"
  unfolding goes_def
proof (intro allI impI)
  fix s r t
  assume s: "reached base ss s" and run: "lifecycleGuardedEffect W cfg hook st refresh effect s = (r, t)"
  have "inv (native.more s)" using s by (simp add: reached_def)
  then have ran: "staged st s (r = Inr ()) t"
    using refresh effect run by (rule staged_effect)
  note stg = reached_stage [OF s new ran]
  have "part base (ss @ [st]) t" using stg(1) ran by (simp add: part_def staged_def)
  then show "part base all t \<and> (is_ok r \<longrightarrow> reached base (ss @ [st]) t)"
    using part_mono sub stg(2) by (cases r) auto
qed

text \<open>Starting an agent: the tab, then the agent, then its prompt, each at most once and recorded.\<close>

lemma startStages_prefix:
  "prefix [] (startStages p)" "prefix [CreatePane] (startStages p)" "prefix [CreatePane, Launch] (startStages p)"
  by (simp_all add: startStages_def)

lemma goes_prompt:
  "goes base (startStages (sq_prompt q)) [CreatePane, Launch] (startStages (sq_prompt q)) (startPrompt W cfg q hook)"
proof (cases "sq_prompt q = ''''")
  case True
  then show ?thesis by (simp add: startPrompt_def goes_harmless harmless.pure startStages_def)
next
  case False
  have "goes base [CreatePane, Launch, Prompt] [CreatePane, Launch] ([CreatePane, Launch] @ [Prompt])
      (lifecycleGuardedEffect W cfg hook Prompt (lifecyclePromptReady W) (effectPrompt W q))"
    by (rule goes_stage [OF harmless_prompt prompt_acts]) simp_all
  then show ?thesis
    using False by (simp add: startPrompt_def goes_bind [OF goes_harmless [OF harmless_prompt]] startStages_def)
qed

lemma goes_launch:
  "goes base (startStages p) [CreatePane] [CreatePane, Launch] (startLaunch W cfg q hook)"
proof -
  have "goes base (startStages p) [CreatePane] ([CreatePane] @ [Launch])
      (lifecycleGuardedEffect W cfg hook Launch (bindS resultHandle (lifecycleShellReady W)) (effectLaunch W q))"
    by (rule goes_stage [OF _ launch_acts])
      (simp_all add: harmless.bind harmless_handle harmless_shell startStages_prefix)
  then show ?thesis
    by (simp add: startLaunch_def goes_bind [OF goes_harmless [OF harmless_handle]]
        goes_bind [OF goes_harmless [OF harmless_shell]] startStages_prefix)
qed

lemma goes_create:
  "goes base (startStages p) [] [CreatePane]
     (lifecycleGuardedEffect W cfg hook CreatePane (refreshCreate W q i) (effectCreate W q))"
  using goes_stage [where ss = "[]" and st = CreatePane, OF harmless_create create_acts] startStages_prefix by simp

lemma withTimeout_prompt: "sq_prompt (withTimeout q) = sq_prompt q"
  by (simp add: withTimeout_def)

lemma start_goes:
  assumes good: "inv (native.more s)" and fresh: "shown (native.more s) = (\<lambda>st. NotAttempted)" and run: "startAgent W cfg request hook s = (r, t)"
  shows "part (changes s) (startStages (sq_prompt request)) t"
    "r = Inr () \<Longrightarrow> reached (changes s) (startStages (sq_prompt request)) t"
proof -
  let ?all = "startStages (sq_prompt request)" and ?b = "changes s" and ?q = "withTimeout request"
  let ?goal = ?all
  let ?body = "if \<not> startRequestOk ?q then errS ErrAgentPrecondition
     else bindS (directory W (sq_cwd ?q)) (\<lambda>info. case info of
         None \<Rightarrow> errS ErrAgentPrecondition
       | Some i \<Rightarrow>
         bindS (lifecycleObserver W cfg) (\<lambda>_.
         bindS (lifecycleWorkspace W (sq_workspace ?q)) (\<lambda>_.
         bindS (readPanes W) (\<lambda>_.
         bindS (setResult (\<lambda>r. r\<lparr>nr_handle := (nr_handle r)\<lparr>nh_workspace := sq_workspace ?q\<rparr>\<rparr>)) (\<lambda>_.
         bindS (lifecycleGuardedEffect W cfg hook CreatePane (refreshCreate W ?q i) (effectCreate W ?q)) (\<lambda>_.
         bindS (startLaunch W cfg ?q hook) (\<lambda>_. startPrompt W cfg ?q hook)))))))"
  have goal: "goes ?b ?all [CreatePane, Launch] ?goal (startPrompt W cfg ?q hook)"
    using goes_prompt [of ?b ?q] withTimeout_prompt [of request] by simp
  have "goes ?b ?all [] ?goal (bindS (lifecycleObserver W cfg) (\<lambda>_.
         bindS (lifecycleWorkspace W (sq_workspace ?q)) (\<lambda>_.
         bindS (readPanes W) (\<lambda>_.
         bindS (setResult (\<lambda>r. r\<lparr>nr_handle := (nr_handle r)\<lparr>nh_workspace := sq_workspace ?q\<rparr>\<rparr>)) (\<lambda>_.
         bindS (lifecycleGuardedEffect W cfg hook CreatePane (refreshCreate W ?q i) (effectCreate W ?q)) (\<lambda>_.
         bindS (startLaunch W cfg ?q hook) (\<lambda>_. startPrompt W cfg ?q hook)))))))" for i
    by (rule goes_bind [OF goes_harmless [OF harmless_lifecycle_observer]], simp)
      (rule goes_bind [OF goes_harmless [OF harmless_workspace]], simp,
       rule goes_bind [OF goes_harmless [OF harmless_read_panes]], simp,
       rule goes_bind [OF goes_harmless [OF harmless_result]], simp, simp,
       rule goes_bind [OF goes_create], rule goes_bind [OF goes_launch], rule goal)
  then have "goes ?b ?all [] ?goal ?body"
    by (auto intro!: goes_fail goes_bind [OF goes_harmless [OF harmless_directory]] split: option.split)
  then have "part ?b ?all t \<and> (is_ok r \<longrightarrow> reached ?b ?goal t)"
    using run reached_start [OF good fresh]
    unfolding startAgent_def Let_def by (auto simp: goes_def setResult_def bindS_steps)
  then show "part ?b ?all t" "r = Inr () \<Longrightarrow> reached ?b ?goal t" by simp_all
qed

text \<open>Stopping an agent closes its pane at most once.\<close>

lemma stop_goes:
  assumes good: "inv (native.more s)" and fresh: "shown (native.more s) = (\<lambda>st. NotAttempted)" and run: "stopAgent W cfg h hook s = (r, t)"
  shows "part (changes s) [ClosePane] t" "r = Inr () \<Longrightarrow> reached (changes s) [ClosePane] t"
proof -
  let ?b = "changes s"
  have "goes ?b [ClosePane] [] ([] @ [ClosePane])
      (lifecycleGuardedEffect W cfg hook ClosePane (lifecycleStopReady W) (effectClose W h))"
    by (rule goes_stage [OF harmless_stop close_acts]) simp_all
  then have "goes ?b [ClosePane] [] [ClosePane] (if \<not> stopRequestOk h then errS ErrAgentPrecondition
     else bindS (setResult (\<lambda>r. r\<lparr>nr_handle := h\<rparr>)) (\<lambda>_.
       bindS (lifecycleObserver W cfg) (\<lambda>_.
       bindS (lifecycleStopReady W) (\<lambda>_.
       lifecycleGuardedEffect W cfg hook ClosePane (lifecycleStopReady W) (effectClose W h)))))"
    by (auto intro!: goes_fail goes_bind [OF goes_harmless [OF harmless_result]]
        goes_bind [OF goes_harmless [OF harmless_lifecycle_observer]] goes_bind [OF goes_harmless [OF harmless_stop]])
  then have "part ?b [ClosePane] t \<and> (is_ok r \<longrightarrow> reached ?b [ClosePane] t)"
    using run reached_start [OF good fresh]
    unfolding stopAgent_def by (auto simp: goes_def setResult_def bindS_steps)
  then show "part ?b [ClosePane] t" "r = Inr () \<Longrightarrow> reached ?b [ClosePane] t" by simp_all
qed

end

end
