(* ===== verification/NativeWorkspace.thy ===== *)
theory NativeWorkspace
  imports NativeLifecycle
begin

text \<open>
  The other operations on the native program: controlling an agent (agent.go of the herdr package),
  finding the workspace of a start (lifecycle\_workspace.go), ensuring a workspace (workspace.go) and
  creating a worktree with git's read-only checks around it (worktree.go, worktree\_git.go).
\<close>

section \<open>Steps\<close>

text \<open>\<open>if err != nil { return sentinel }\<close>\<close>

definition orElse :: "err \<Rightarrow> ('s, 'a) handler \<Rightarrow> ('s, 'a) handler" where
  "orElse sentinel m = bindS (tryS m) (\<lambda>r. case r of Inl e \<Rightarrow> errS sentinel | Inr x \<Rightarrow> okS x)"

definition demand :: "err \<Rightarrow> bool \<Rightarrow> ('s, unit) handler" where
  "demand e c = (if c then okS () else errS e)"

definition ctxDone :: "world \<Rightarrow> ('z native_scheme, bool) handler" where
  "ctxDone W = bindS (draw (wo_ctx W)) (\<lambda>c. okS (c \<noteq> None))"

definition matches :: "world \<Rightarrow> string \<Rightarrow> string \<Rightarrow> ('z native_scheme, bool option) handler" where
  "matches W a b = draw (\<lambda>n. wo_same W n a b)"

definition validBinding :: "world \<Rightarrow> project_binding \<Rightarrow> ('z native_scheme, bool) handler" where
  "validBinding W b = draw (\<lambda>n. wo_path W n b)"

definition validRoot :: "world \<Rightarrow> project_binding \<Rightarrow> ('z native_scheme, bool) handler" where
  "validRoot W b = draw (\<lambda>n. wo_root W n b)"

definition sessionCheck :: "('z native_scheme) config \<Rightarrow> ('z native_scheme, unit) handler" where
  "sessionCheck cfg = (case cf_check cfg of None \<Rightarrow> okS () | Some check \<Rightarrow> check)"

text \<open>Another observer counts its own requests.\<close>

definition ownCounter :: "('z native_scheme, 'a) handler \<Rightarrow> ('z native_scheme, 'a) handler" where
  "ownCounter m s = (case m s of (r, t) \<Rightarrow> (r, t\<lparr>nx_next := nx_next s\<rparr>))"

section \<open>The workspace of a start\<close>

text \<open>The loop over the panes of a workspace without a checkout.\<close>

fun paneDirectories :: "world \<Rightarrow> string \<Rightarrow> project_binding \<Rightarrow> string \<Rightarrow> json list \<Rightarrow> ('z native_scheme, string) handler" where
  "paneDirectories W workspace b cwd [] = okS cwd"
| "paneDirectories W workspace b cwd (raw # rest) =
     (case bindR (decodeObject raw) (\<lambda>pane. bindR (decodeString (member_at pane ''workspace_id'')) (\<lambda>w. Inr (pane, w))) of
        Inl e \<Rightarrow> errS ErrAgentUnavailable
      | Inr (pane, w) \<Rightarrow>
          if w \<noteq> workspace \<or> member_at pane ''cwd'' = JNull then paneDirectories W workspace b cwd rest
          else (case decodeString (member_at pane ''cwd'') of
              Inl e \<Rightarrow> errS ErrAgentUnavailable
            | Inr path \<Rightarrow> bindS (matches W path (bn_path b)) (\<lambda>m.
                if m \<noteq> Some True then errS ErrAgentPrecondition
                else paneDirectories W workspace b (bn_path b) rest)))"

definition workspaceDirectory ::
  "world \<Rightarrow> string \<Rightarrow> project_binding \<Rightarrow> object \<Rightarrow> string \<Rightarrow> ('z native_scheme, string) handler" where
  "workspaceDirectory W workspace b result checkout =
     (if checkout \<noteq> '''' then
        (case bindR (decodeObject (member_at result ''workspace'')) (\<lambda>w.
              bindR (decodeObject (member_at w ''worktree'')) (\<lambda>tree. decodeString (member_at tree ''repo_root''))) of
           Inl e \<Rightarrow> errS ErrAgentPrecondition
         | Inr repository \<Rightarrow> bindS (matches W repository (bn_path b)) (\<lambda>m.
             if m \<noteq> Some True then errS ErrAgentPrecondition
             else bindS (directory W checkout) (\<lambda>d.
               if d = None then errS ErrAgentPrecondition else okS checkout)))
      else bindS (orElse ErrAgentUnavailable (rpc W ''pane.list'' ''pane_list'')) (\<lambda>listed.
        case decodeList (member_at listed ''panes'') of
          Inl e \<Rightarrow> errS ErrAgentUnavailable
        | Inr panes \<Rightarrow> if 4096 < length panes then errS ErrAgentUnavailable
            else paneDirectories W workspace b '''' panes))"

definition resolveLifecycleWorkspace ::
  "world \<Rightarrow> ('z native_scheme) config \<Rightarrow> string \<Rightarrow> project_binding \<Rightarrow> ('z native_scheme, string) handler" where
  "resolveLifecycleWorkspace W cfg workspace b =
     bindS (if commandToken workspace then validBinding W b else okS False) (\<lambda>valid.
     if \<not> valid then errS ErrAgentPrecondition
     else bindS (lifecycleObserver W cfg) (\<lambda>_.
       bindS (lifecycleCheckSession W cfg) (\<lambda>_.
       bindS (orElse ErrAgentUnavailable
         (agentRequest W ''workspace.get'' ''workspace_info'' [(''workspace_id'', JString workspace)])) (\<lambda>result.
       case workspaceIdentity (member_at result ''workspace'') of
         Inl e \<Rightarrow> errS ErrAgentChanged
       | Inr (found, checkout) \<Rightarrow>
           if found \<noteq> workspace then errS ErrAgentChanged
           else bindS (workspaceDirectory W workspace b result checkout) (\<lambda>cwd.
             bindS (if cwd = '''' then okS False else validBinding W b) (\<lambda>valid.
             if \<not> valid then errS ErrAgentPrecondition
             else bindS (lifecycleCheckSession W cfg) (\<lambda>_. okS cwd)))))))"

section \<open>Controlling an agent\<close>

text \<open>What an action asks of the agent's state, and the request it becomes.\<close>

definition controlPlan :: "agent_control \<Rightarrow> string \<Rightarrow> agent_view \<Rightarrow> (string \<times> string \<times> object) res" where
  "controlPlan v pane before =
     (if av_provider before = ''unknown'' \<and> ag_action v \<noteq> ACTION_INTERRUPT then Inl ErrAgentPrecondition
      else case ag_action v of
        ACTION_PROMPT \<Rightarrow>
          if av_status before = ''working'' then Inl ErrAgentBusy
          else if av_status before = ''blocked'' then Inl ErrAgentBlocked
          else if av_status before \<noteq> ''idle'' \<and> av_status before \<noteq> ''done'' then Inl ErrAgentPrecondition
          else if \<not> av_interactive before \<or> av_pending before then Inl ErrAgentPrecondition
          else Inr (''agent.prompt'', ''agent_prompted'', [(''target'', JString pane), (''text'', JString (ag_text v))])
      | ACTION_INPUT \<Rightarrow>
          Inr (''agent.send_keys'', ''ok'', [(''target'', JString pane), (''keys'', JArray (map JString (ag_keys v)))])
      | ACTION_INTERRUPT \<Rightarrow>
          if av_provider before \<noteq> ''copilot'' then Inl ErrAgentUnsupported
          else Inr (''agent.send_keys'', ''ok'', [(''target'', JString pane), (''keys'', JArray [JString ''esc'', JString ''esc''])])
      | _ \<Rightarrow> Inl ErrAgentPrecondition)"

definition controlObserved ::
  "world \<Rightarrow> agent_control \<Rightarrow> agent_target \<Rightarrow> agent_view \<Rightarrow> object \<Rightarrow> ('z native_scheme, agent_view) handler" where
  "controlObserved W v target before ack = orFail W ErrAgentIndeterminate
     (bindS (if ag_action v = ACTION_PROMPT then liftS (parseAgentInfo (member_at ack ''agent'')) else getAgent W target)
       (\<lambda>observed. if sameAgent before observed target then okS observed else errS ErrAgentChanged))"

definition controlAgent ::
  "world \<Rightarrow> ('z native_scheme) config \<Rightarrow> agent_control option \<Rightarrow> ('z native_scheme, agent_control_result) handler" where
  "controlAgent W cfg control = bindS (draw (wo_ctx W)) (\<lambda>c. case c of
       Some e \<Rightarrow> errS e
     | None \<Rightarrow> (case control of
         None \<Rightarrow> errS ErrAgentPrecondition
       | Some v \<Rightarrow>
         if \<not> is_ok (ValidateAgentControl (Some v)) then errS ErrAgentPrecondition
         else let target = the (ag_target v) in
           bindS (agentObserver W cfg) (\<lambda>_.
           bindS (getAgent W target) (\<lambda>before.
           bindS (liftS (controlPlan v (at_pane target) before)) (\<lambda>(method, resultType, params).
           bindS (draw (wo_ctx W)) (\<lambda>c. case c of
             Some e \<Rightarrow> errS e
           | None \<Rightarrow> bindS (sessionCheck cfg) (\<lambda>_.
               bindS (orFail W ErrAgentIndeterminate (agentRequest W method resultType params)) (\<lambda>ack.
               bindS (controlObserved W v target before ack) (\<lambda>observed.
               bindS (ctxDone W) (\<lambda>done.
               if done then failWith W ErrAgentIndeterminate
               else okS \<lparr>acr_target = Some \<lparr>at_pane = at_pane target, at_terminal = at_terminal target,
                   at_agent_session = at_agent_session target, at_session = '''', at_incarnation = '''', at_unk = []\<rparr>,
                 acr_observed = av_status observed, acr_change_seq = av_change_seq observed, acr_unk = []\<rparr>))))))))))"

section \<open>Ensuring a workspace\<close>

text \<open>The loop over the open workspaces: their IDs, and those whose checkout is the binding's.\<close>

fun scanWorkspaces ::
  "world \<Rightarrow> project_binding \<Rightarrow> string list \<Rightarrow> json list \<Rightarrow> ('z native_scheme, string list \<times> string list) handler" where
  "scanWorkspaces W b seen [] = okS (seen, [])"
| "scanWorkspaces W b seen (raw # rest) = (case workspaceIdentity raw of
     Inl e \<Rightarrow> errS ErrWorkspaceUnavailable
   | Inr (found, checkout) \<Rightarrow>
       if found \<in> set seen then errS ErrWorkspaceUnavailable
       else bindS (if checkout = '''' then okS (Some False) else matches W checkout (bn_path b)) (\<lambda>m. case m of
           None \<Rightarrow> errS ErrWorkspaceUnavailable
         | Some same \<Rightarrow> bindS (scanWorkspaces W b (found # seen) rest) (\<lambda>(ids, ms).
             okS (ids, if same then found # ms else ms))))"

definition workspaceObserver :: "world \<Rightarrow> ('z native_scheme) config \<Rightarrow> ('z native_scheme, unit) handler" where
  "workspaceObserver W cfg =
     (if \<not> configOk cfg then errS ErrWorkspaceUnavailable
      else bindS (putS (\<lambda>s. s\<lparr>nx_next := 0\<rparr>)) (\<lambda>_.
        bindS (orElse ErrWorkspaceUnavailable (rpc W ''ping'' ''pong'')) (\<lambda>pong.
        case versionProtocol pong of
          Inl e \<Rightarrow> errS ErrWorkspaceUnavailable
        | Inr (version, protocol) \<Rightarrow> demand ErrWorkspaceUnavailable (SupportsProtocol (uint protocol)))))"

definition ensured :: "project_binding \<Rightarrow> string \<Rightarrow> bool \<Rightarrow> workspace_ensure_result" where
  "ensured b workspace created = \<lparr>wer_project = bn_project b, wer_revision = bn_revision b,
     wer_workspace = workspace, wer_created = created, wer_session = '''', wer_incarnation = '''', wer_unk = []\<rparr>"

text \<open>The checks on the answer to \<open>worktree.open\<close>; every failure leaves the outcome unknown.\<close>

definition openedWorkspace ::
  "world \<Rightarrow> project_binding \<Rightarrow> string list \<Rightarrow> object \<Rightarrow> ('z native_scheme, workspace_ensure_result) handler" where
  "openedWorkspace W b seen created =
     (case bindR (workspaceIdentity (member_at created ''workspace'')) (\<lambda>(found, checkout).
             bindR (decodeBool (member_at created ''already_open'')) (\<lambda>already. Inr (found, checkout, already))) of
        Inl e \<Rightarrow> errS ErrWorkspaceIndeterminate
      | Inr (found, checkout, already) \<Rightarrow>
          if checkout = '''' \<or> found \<in> set seen then errS ErrWorkspaceIndeterminate
          else bindS (matches W checkout (bn_path b)) (\<lambda>m.
            if m \<noteq> Some True then errS ErrWorkspaceIndeterminate
            else bindS (validBinding W b) (\<lambda>valid.
              bindS (if valid then ctxDone W else okS True) (\<lambda>bad.
              if bad then errS ErrWorkspaceIndeterminate else okS (ensured b found (\<not> already))))))"

definition ensureWorkspace ::
  "world \<Rightarrow> ('z native_scheme) config \<Rightarrow> project_binding \<Rightarrow> ('z native_scheme, workspace_ensure_result) handler" where
  "ensureWorkspace W cfg b = bindS (validBinding W b) (\<lambda>valid.
     if \<not> valid then errS ErrWorkspacePrecondition
     else bindS (ctxDone W) (\<lambda>done.
     if done then errS ErrWorkspaceUnavailable
     else bindS (workspaceObserver W cfg) (\<lambda>_.
     bindS (ctxDone W) (\<lambda>done.
     if done then errS ErrWorkspaceUnavailable
     else bindS (orElse ErrWorkspaceUnavailable (rpc W ''workspace.list'' ''workspace_list'')) (\<lambda>listed.
     case decodeList (member_at listed ''workspaces'') of
       Inl e \<Rightarrow> errS ErrWorkspaceUnavailable
     | Inr workspaces \<Rightarrow>
       if 4096 < length workspaces then errS ErrWorkspaceUnavailable
       else bindS (scanWorkspaces W b [] workspaces) (\<lambda>(seen, ms).
       bindS (validBinding W b) (\<lambda>valid.
       if \<not> valid then errS ErrWorkspacePrecondition
       else bindS (ctxDone W) (\<lambda>done.
       if done then errS ErrWorkspaceUnavailable
       else if 1 < length ms then errS ErrWorkspaceAmbiguous
       else case ms of
         m # rest \<Rightarrow> okS (ensured b m False)
       | [] \<Rightarrow> bindS (sessionCheck cfg) (\<lambda>_.
           bindS (orElse ErrWorkspaceIndeterminate (agentRequest W ''worktree.open'' ''worktree_opened''
             [(''cwd'', JString (bn_path b)), (''path'', JString (bn_path b)), (''focus'', JBool False)])) (\<lambda>created.
           openedWorkspace W b seen created))))))))))"

section \<open>Git's checks\<close>

record git_state =
  gt_common :: string
  gt_head :: string
  gt_branch :: string

definition gitRun :: "world \<Rightarrow> string \<Rightarrow> string list \<Rightarrow> ('z native_scheme, string \<times> int) handler" where
  "gitRun W cwd args = bindS (draw (\<lambda>n. wo_git W n cwd args)) (\<lambda>r. case r of
       None \<Rightarrow> errS ErrWorkspaceUnavailable | Some output \<Rightarrow> okS output)"

definition gitRead :: "world \<Rightarrow> string \<Rightarrow> string list \<Rightarrow> ('z native_scheme, string) handler" where
  "gitRead W cwd args = bindS (gitRun W cwd args) (\<lambda>(output, code).
     if code \<noteq> 0 \<or> output = '''' then errS ErrWorkspacePrecondition else okS output)"

definition gitState :: "world \<Rightarrow> string \<Rightarrow> ('z native_scheme, git_state) handler" where
  "gitState W cwd = bindS (gitRead W cwd [''rev-parse'', ''--show-toplevel'']) (\<lambda>top.
     bindS (matches W top cwd) (\<lambda>m.
     if m \<noteq> Some True then errS ErrWorkspacePrecondition
     else bindS (gitRead W cwd [''rev-parse'', ''--path-format=absolute'', ''--git-common-dir'']) (\<lambda>common.
     if \<not> validWorkspacePath common then errS ErrWorkspacePrecondition
     else bindS (gitRead W cwd [''rev-parse'', ''--verify'', ''--end-of-options'', ''HEAD^{commit}'']) (\<lambda>head.
     bindS (gitRun W cwd [''symbolic-ref'', ''--quiet'', ''HEAD'']) (\<lambda>(branch, code).
     if code \<noteq> 0 \<and> code \<noteq> 1 then errS ErrWorkspacePrecondition
     else okS \<lparr>gt_common = common, gt_head = head, gt_branch = branch\<rparr>)))))"

definition gitPreconditions :: "world \<Rightarrow> string \<Rightarrow> string \<Rightarrow> string \<Rightarrow> ('z native_scheme, git_state) handler" where
  "gitPreconditions W cwd branch base = bindS (gitState W cwd) (\<lambda>st.
     bindS (gitRead W cwd [''rev-parse'', ''--verify'', ''--end-of-options'', base @ ''^{commit}'']) (\<lambda>commit.
     if commit \<noteq> base then errS ErrWorkspacePrecondition
     else bindS (gitRun W cwd [''show-ref'', ''--verify'', ''--quiet'', ''refs/heads/'' @ branch]) (\<lambda>(output, code).
       if code \<noteq> 1 then errS ErrWorkspacePrecondition else okS st)))"

definition gitPostconditions ::
  "world \<Rightarrow> string \<Rightarrow> string \<Rightarrow> string \<Rightarrow> string \<Rightarrow> git_state \<Rightarrow> ('z native_scheme, unit) handler" where
  "gitPostconditions W cwd destination branch base before = orElse ErrWorkspaceIndeterminate (
     bindS (gitState W destination) (\<lambda>created.
     if gt_head created \<noteq> base \<or> gt_branch created \<noteq> ''refs/heads/'' @ branch then errS ErrWorkspaceIndeterminate
     else bindS (gitState W cwd) (\<lambda>after.
     if gt_head after \<noteq> gt_head before \<or> gt_branch after \<noteq> gt_branch before then errS ErrWorkspaceIndeterminate
     else bindS (matches W (gt_common created) (gt_common after)) (\<lambda>m.
       if m \<noteq> Some True then errS ErrWorkspaceIndeterminate
       else bindS (matches W (gt_common before) (gt_common after)) (\<lambda>m.
         demand ErrWorkspaceIndeterminate (m = Some True))))))"

section \<open>Creating a worktree\<close>

record worktree_info =
  wi_path :: string
  wi_branch :: string
  wi_workspace :: string
  wi_bare :: bool
  wi_detached :: bool
  wi_prunable :: bool
  wi_linked :: bool

definition worktreeText :: "string \<Rightarrow> bool" where
  "worktreeText v = (length v \<le> 4096 \<and> valid_utf8 v \<and> list_all (\<lambda>r. 32 \<le> r \<and> r \<noteq> 127) (range_runes v))"

definition optionalWorktreeString :: "object \<Rightarrow> string \<Rightarrow> string res" where
  "optionalWorktreeString v key =
     (if member_at v key = JNull then Inr ''''
      else bindR (decodeString (member_at v key)) (\<lambda>s.
        if s = '''' \<or> \<not> worktreeText s then Inl ErrWorkspaceUnavailable else Inr s))"

definition decodeWorktreeInfo :: "json \<Rightarrow> worktree_info res" where
  "decodeWorktreeInfo raw = (case
     bindR (decodeObject raw) (\<lambda>v.
     bindR (decodeString (member_at v ''path'')) (\<lambda>path.
     bindR (decodeString (member_at v ''label'')) (\<lambda>label.
     bindR (decodeBool (member_at v ''is_bare'')) (\<lambda>bare.
     bindR (decodeBool (member_at v ''is_detached'')) (\<lambda>detached.
     bindR (decodeBool (member_at v ''is_prunable'')) (\<lambda>prunable.
     bindR (decodeBool (member_at v ''is_linked_worktree'')) (\<lambda>linked.
     bindR (optionalWorktreeString v ''branch'') (\<lambda>branch.
     bindR (optionalWorktreeString v ''open_workspace_id'') (\<lambda>workspace.
     if \<not> validWorkspacePath path \<or> \<not> worktreeText label \<or> workspace \<noteq> '''' \<and> \<not> commandToken workspace
     then Inl ErrWorkspaceUnavailable
     else Inr \<lparr>wi_path = path, wi_branch = branch, wi_workspace = workspace, wi_bare = bare,
       wi_detached = detached, wi_prunable = prunable, wi_linked = linked\<rparr>))))))))) of
     Inl e \<Rightarrow> Inl ErrWorkspaceUnavailable | Inr t \<Rightarrow> Inr t)"

definition worktreeBranchMatches :: "string \<Rightarrow> string \<Rightarrow> bool" where
  "worktreeBranchMatches actual requested = (actual = requested \<or> actual = ''refs/heads/'' @ requested)"

text \<open>The loop over the listed worktrees: no duplicate, and none at the destination or on the branch.\<close>

fun worktreeLoop ::
  "world \<Rightarrow> string \<Rightarrow> string \<Rightarrow> string list \<Rightarrow> string list \<Rightarrow> json list \<Rightarrow> ('z native_scheme, unit) handler" where
  "worktreeLoop W destination branch paths ids [] = okS ()"
| "worktreeLoop W destination branch paths ids (raw # rest) = (case decodeWorktreeInfo raw of
     Inl e \<Rightarrow> errS ErrWorkspaceUnavailable
   | Inr tree \<Rightarrow> bindS (draw (\<lambda>n. wo_canonical W n (wi_path tree))) (\<lambda>p. case p of
         None \<Rightarrow> errS ErrWorkspaceUnavailable
       | Some path \<Rightarrow>
           if path \<in> set paths \<or> wi_workspace tree \<noteq> '''' \<and> wi_workspace tree \<in> set ids
           then errS ErrWorkspaceUnavailable
           else if wo_fold W path destination \<or> worktreeBranchMatches (wi_branch tree) branch
           then errS ErrWorkspacePrecondition
           else worktreeLoop W destination branch (path # paths) (wi_workspace tree # ids) rest))"

definition worktreeSource :: "object \<Rightarrow> (string \<times> json list) res" where
  "worktreeSource listed = (case
     bindR (decodeObject (member_at listed ''source'')) (\<lambda>source.
     bindR (decodeString (member_at source ''source_checkout_path'')) (\<lambda>checkout.
     bindR (decodeString (member_at source ''repo_root'')) (\<lambda>root.
     bindR (decodeString (member_at source ''repo_key'')) (\<lambda>key.
     bindR (decodeString (member_at source ''repo_name'')) (\<lambda>name.
     bindR (optionalWorktreeString source ''source_workspace_id'') (\<lambda>workspace.
     bindR (decodeList (member_at listed ''worktrees'')) (\<lambda>trees.
     if \<not> validWorkspacePath checkout \<or> \<not> validWorkspacePath root \<or> key = '''' \<or> \<not> worktreeText key \<or>
        name = '''' \<or> \<not> worktreeText name \<or> workspace \<noteq> '''' \<and> \<not> commandToken workspace \<or> 4096 < length trees
     then Inl ErrWorkspaceUnavailable else Inr (checkout, trees)))))))) of
     Inl e \<Rightarrow> Inl ErrWorkspaceUnavailable | Inr x \<Rightarrow> Inr x)"

definition validateWorktreeList ::
  "world \<Rightarrow> object \<Rightarrow> project_binding \<Rightarrow> string \<Rightarrow> string \<Rightarrow> ('z native_scheme, unit) handler" where
  "validateWorktreeList W listed b destination branch = bindS (liftS (worktreeSource listed)) (\<lambda>(checkout, trees).
     bindS (matches W checkout (bn_path b)) (\<lambda>m.
       if m \<noteq> Some True then errS ErrWorkspacePrecondition
       else worktreeLoop W destination branch [] [] trees))"

definition destinationOf :: "world \<Rightarrow> project_binding \<Rightarrow> string \<Rightarrow> ('z native_scheme, string option) handler" where
  "destinationOf W b name = draw (\<lambda>n. wo_destination W n b name)"

text \<open>An empty base commit is pinned to the checkout's head first.\<close>

definition baseCommit :: "world \<Rightarrow> project_binding \<Rightarrow> worktree_create \<Rightarrow> ('z native_scheme, worktree_create) handler" where
  "baseCommit W b request =
     (if wc_base request \<noteq> '''' then okS request
      else bindS (draw (wo_git_found W)) (\<lambda>found.
        bindS (if found then validBinding W b else okS False) (\<lambda>valid.
        if \<not> valid then errS ErrWorkspacePrecondition
        else bindS (gitRead W (bn_path b) [''rev-parse'', ''--verify'', ''--end-of-options'', ''HEAD^{commit}'']) (\<lambda>head.
          okS (request\<lparr>wc_base := head\<rparr>)))))"

text \<open>The checks on the answer to \<open>worktree.create\<close> and on the directory it made.\<close>

definition createdTree :: "object \<Rightarrow> string \<Rightarrow> (string \<times> string \<times> worktree_info) res" where
  "createdTree created branch =
     bindR (workspaceIdentity (member_at created ''workspace'')) (\<lambda>(found, checkout).
     bindR (decodeWorktreeInfo (member_at created ''worktree'')) (\<lambda>tree.
     if checkout = '''' \<or> \<not> wi_linked tree \<or> wi_bare tree \<or> wi_detached tree \<or> wi_prunable tree \<or>
        \<not> worktreeBranchMatches (wi_branch tree) branch \<or> wi_workspace tree \<noteq> '''' \<and> wi_workspace tree \<noteq> found
     then Inl ErrWorkspaceIndeterminate else Inr (found, checkout, tree)))"

definition createdWorktree ::
  "world \<Rightarrow> project_binding \<Rightarrow> worktree_create \<Rightarrow> string \<Rightarrow> git_state \<Rightarrow> object \<Rightarrow>
   ('z native_scheme, worktree_create_result) handler" where
  "createdWorktree W b request destination before created = orElse ErrWorkspaceIndeterminate (
     bindS (liftS (createdTree created (wc_branch request))) (\<lambda>(found, checkout, tree).
     bindS (validRoot W b) (\<lambda>valid. bindS (demand ErrWorkspaceIndeterminate valid) (\<lambda>_.
     bindS (draw (\<lambda>n. wo_leaf W n destination (bn_root b))) (\<lambda>leaf. bindS (demand ErrWorkspaceIndeterminate leaf) (\<lambda>_.
     bindS (matches W checkout destination) (\<lambda>m. bindS (demand ErrWorkspaceIndeterminate (m = Some True)) (\<lambda>_.
     bindS (matches W (wi_path tree) destination) (\<lambda>m. bindS (demand ErrWorkspaceIndeterminate (m = Some True)) (\<lambda>_.
     bindS (gitPostconditions W (bn_path b) destination (wc_branch request) (wc_base request) before) (\<lambda>_.
     bindS (validRoot W b) (\<lambda>valid. bindS (demand ErrWorkspaceIndeterminate valid) (\<lambda>_.
     bindS (ctxDone W) (\<lambda>done. bindS (demand ErrWorkspaceIndeterminate (\<not> done)) (\<lambda>_.
     okS \<lparr>wcr_project = wc_project request, wcr_revision = wc_revision request, wcr_workspace = found,
       wcr_name = wc_name request, wcr_branch = wc_branch request, wcr_base = wc_base request,
       wcr_session = '''', wcr_incarnation = '''', wcr_unk = []\<rparr>)))))))))))))))"

definition createWorktree ::
  "world \<Rightarrow> ('z native_scheme) config \<Rightarrow> project_binding \<Rightarrow> worktree_create \<Rightarrow>
   ('z native_scheme, worktree_create_result) handler" where
  "createWorktree W cfg b request = bindS (baseCommit W b request) (\<lambda>q.
     if \<not> is_ok (ValidateWorktreeCreate (Some q)) \<or> wc_project q \<noteq> bn_project b \<or> wc_revision q \<noteq> bn_revision b
     then errS ErrWorkspacePrecondition
     else bindS (destinationOf W b (wc_name q)) (\<lambda>d. case d of
       None \<Rightarrow> errS ErrWorkspacePrecondition
     | Some destination \<Rightarrow>
       bindS (ctxDone W) (\<lambda>done. bindS (demand ErrWorkspaceUnavailable (\<not> done \<and> configOk cfg)) (\<lambda>_.
       bindS (draw (wo_git_found W)) (\<lambda>found. bindS (demand ErrWorkspaceUnavailable found) (\<lambda>_.
       bindS (workspaceObserver W cfg) (\<lambda>_.
       bindS (orElse ErrWorkspaceUnavailable
         (agentRequest W ''worktree.list'' ''worktree_list'' [(''cwd'', JString (bn_path b))])) (\<lambda>listed.
       bindS (validateWorktreeList W listed b destination (wc_branch q)) (\<lambda>_.
       bindS (gitPreconditions W (bn_path b) (wc_branch q) (wc_base q)) (\<lambda>before.
       bindS (destinationOf W b (wc_name q)) (\<lambda>again.
       bindS (demand ErrWorkspacePrecondition (again = Some destination)) (\<lambda>_.
       bindS (ctxDone W) (\<lambda>done. bindS (demand ErrWorkspaceUnavailable (\<not> done)) (\<lambda>_.
       bindS (sessionCheck cfg) (\<lambda>_.
       bindS (orElse ErrWorkspaceIndeterminate (agentRequest W ''worktree.create'' ''worktree_created''
         [(''cwd'', JString (bn_path b)), (''path'', JString destination), (''branch'', JString (wc_branch q)),
          (''base'', JString (wc_base q)), (''focus'', JBool False)])) (\<lambda>created.
       createdWorktree W b q destination before created))))))))))))))))"

end
