(* ===== verification/NodeJournal.thy ===== *)
theory NodeJournal
  imports CommandStore
begin

text \<open>
  The node's command journal: node\_journal.go, the node half of lifecycle.go, lifecycle\_scope.go and
  lifecycle\_validation.go of the state package.  A command is claimed before it is executed, a result
  is committed before it is delivered, and native effects are recorded as receipts with the scope of
  the native server they touched.  The node's identity and the hexadecimal SHA-256 digest, which the
  code takes from the Go library, are parameters.
\<close>

section \<open>Entries\<close>

record node_entry =
  ne_command :: command
  ne_result :: "command_result option"
  ne_delivered :: bool

text \<open>One row of \<open>readNodeEntries\<close>.  A \<open>NULL\<close> result decodes as an empty payload, which is refused.\<close>

definition decodeResult :: "'b codecs \<Rightarrow> 'b option \<Rightarrow> command_result res" where
  "decodeResult K b = (case b of
     None \<Rightarrow> Inl (Msg ''stored command journal payload exceeds bounds'')
   | Some b \<Rightarrow> decodeCommandMessage result_unknown (k_result K) b)"

definition decodeEntry :: "'b codecs \<Rightarrow> string \<Rightarrow> string \<times> 'b node_row \<Rightarrow> node_entry res" where
  "decodeEntry K node kr = (case kr of (i, row) \<Rightarrow>
     bindR (decodeCommandMessage command_unknown (k_command K) (nw_command row)) (\<lambda>c.
       bindR (validateCommand (k_pb K) (Some c) node) (\<lambda>_.
         if i \<noteq> c_id c \<or> nw_delivered row \<noteq> 0 \<and> nw_delivered row \<noteq> 1
         then Inl (Msg ''stored node command disagrees with indexed fields'')
         else if nw_status row = RUNNING then
           if nw_result row \<noteq> None \<or> nw_delivered row = 1
           then Inl (Msg ''running node command has a result or acknowledgement'')
           else Inr \<lparr>ne_command = c, ne_result = None, ne_delivered = False\<rparr>
         else bindR (decodeResult K (nw_result row)) (\<lambda>v.
           bindR (ValidateResultForCommand (k_pb K) (Some v) c) (\<lambda>_.
             if cr_id v \<noteq> i \<or> cr_status v \<noteq> nw_status row
             then Inl (Msg ''stored node result disagrees with command identity or status'')
             else Inr \<lparr>ne_command = c, ne_result = Some v, ne_delivered = (nw_delivered row = 1)\<rparr>)))))"

definition readNodeEntries ::
  "'b codecs \<Rightarrow> string \<Rightarrow> 'b node_db \<Rightarrow> (string \<Rightarrow> 'b node_row \<Rightarrow> bool) \<Rightarrow> node_entry list res" where
  "readNodeEntries K node db p =
     (if maxCommands < length (nd_commands db)
      then Inl (Msg ''stored node command count exceeds limit'')
      else collect (decodeEntry K node) (tselect p (nd_commands db)))"

definition readNodeEntry :: "'b codecs \<Rightarrow> string \<Rightarrow> 'b node_db \<Rightarrow> string \<Rightarrow> node_entry res" where
  "readNodeEntry K node db cid = bindR (readNodeEntries K node db (\<lambda>i row. i = cid)) (\<lambda>es. case es of
       [] \<Rightarrow> Inl ErrCommandNotFound
     | [e] \<Rightarrow> Inr e
     | _ \<Rightarrow> Inl (Msg ''node command lookup is not unique''))"

definition matchingNodeCommand :: "command \<Rightarrow> command \<Rightarrow> bool" where
  "matchingNodeCommand original proposed = (original\<lparr>c_ttl := None\<rparr> = proposed\<lparr>c_ttl := None\<rparr>)"

section \<open>Statements\<close>

text \<open>The \<open>CHECK\<close> constraints of a row of \<open>node\_commands\<close>.\<close>

definition nodeRowOk :: "'b codecs \<Rightarrow> 'b node_row \<Rightarrow> bool" where
  "nodeRowOk K row = (storedNodeStatus (nw_status row) \<and> (nw_delivered row = 0 \<or> nw_delivered row = 1) \<and>
     1 \<le> blob_len (k_command K) (nw_command row) \<and> blob_len (k_command K) (nw_command row) \<le> 16384 \<and>
     opt_all (\<lambda>b. 1 \<le> blob_len (k_result K) b \<and> blob_len (k_result K) b \<le> 16384) (nw_result row) \<and>
     (nw_status row = RUNNING \<and> nw_result row = None \<and> nw_delivered row = 0 \<or>
      nw_status row \<noteq> RUNNING \<and> nw_result row \<noteq> None))"

definition insertNodeRow ::
  "'b codecs \<Rightarrow> string \<Rightarrow> 'b node_row \<Rightarrow> 'b node_db \<Rightarrow> 'b node_db res" where
  "insertNodeRow K cid row db =
     (if \<not> nodeRowOk K row then Inl sqliteCheck
      else if tget (nd_commands db) cid \<noteq> None then Inl sqlitePrimaryKey
      else Inr (db\<lparr>nd_commands := tput cid row (nd_commands db)\<rparr>))"

definition writeNodeResult ::
  "'b codecs \<Rightarrow> command \<Rightarrow> command_result \<Rightarrow> 'b node_db \<Rightarrow> 'b node_db res" where
  "writeNodeResult K c v db =
     bindR (ValidateResultForCommand (k_pb K) (Some v) c) (\<lambda>_.
       bindR (marshalCommandMessage result_unknown (k_result K) v) (\<lambda>payload.
         case tget (nd_commands db) (cr_id v) of
           None \<Rightarrow> Inr db
         | Some row \<Rightarrow>
             let row = row\<lparr>nw_status := cr_status v, nw_result := Some payload, nw_delivered := 0\<rparr> in
             if \<not> nodeRowOk K row then Inl sqliteCheck
             else Inr (db\<lparr>nd_commands := tput (cr_id v) row (nd_commands db)\<rparr>)))"

section \<open>Lifecycle receipts and native scopes\<close>

definition readLifecycle :: "'b codecs \<Rightarrow> 'b node_db \<Rightarrow> command \<Rightarrow> receipt option res" where
  "readLifecycle K db c = (case tget (nd_lifecycle db) (c_id c) of
     None \<Rightarrow> Inr None
   | Some row \<Rightarrow>
       bindR (decodeCommandMessage receipt_unknown (k_receipt K) (lw_receipt row)) (\<lambda>v.
         if lw_sequence row \<noteq> lr_sequence v then Inl (Msg ''lifecycle sequence index mismatch'')
         else bindR (ValidateLifecycleReceipt (k_pb K) (Some v) c) (\<lambda>_. Inr (Some v))))"

definition interruptedNodeResult :: "string \<Rightarrow> command_result" where
  "interruptedNodeResult i = \<lparr>cr_id = i, cr_status = INDETERMINATE, cr_detail = ''node_restarted'',
     cr_payload = None, cr_workspace = None, cr_worktree = None, cr_control = None, cr_session = None,
     cr_lifecycle = None, cr_unk = []\<rparr>"

definition interruptedCommandResult :: "command \<Rightarrow> command_result" where
  "interruptedCommandResult c =
     (let v = interruptedNodeResult (c_id c) in
      if c_type c = SessionEnsureCommandType then v\<lparr>cr_detail := ''startup_uncertain''\<rparr> else v)"

definition lifecycleOutcome :: "command \<Rightarrow> receipt option \<Rightarrow> command_result" where
  "lifecycleOutcome c r =
     (let v = (interruptedCommandResult c)\<lparr>cr_lifecycle := r\<rparr> in
      if LifecycleComplete r c
      then v\<lparr>cr_status := SUCCEEDED, cr_detail := (if c_stop c \<noteq> None then ''agent_stopped'' else ''agent_started'')\<rparr>
      else if LifecycleHasUnknown r
      then v\<lparr>cr_status := INDETERMINATE, cr_detail := ''lifecycle_uncertain''\<rparr>
      else if LifecycleHasEffect r
      then v\<lparr>cr_status := FAILED, cr_detail := ''lifecycle_partial''\<rparr>
      else v\<lparr>cr_status := REJECTED\<rparr>)"

definition recoveredLifecycleResult :: "'b codecs \<Rightarrow> 'b node_db \<Rightarrow> command \<Rightarrow> command_result res" where
  "recoveredLifecycleResult K db c =
     (if \<not> IsLifecycleCommand (c_type c) then Inr (interruptedCommandResult c)
      else bindR (readLifecycle K db c) (\<lambda>r. Inr (lifecycleOutcome c r)))"

text \<open>\<open>WHERE status IN (RUNNING, INDETERMINATE)\<close>\<close>

definition unresolvedRow :: "'b node_row \<Rightarrow> bool" where
  "unresolvedRow row = (nw_status row = RUNNING \<or> nw_status row = INDETERMINATE)"

definition entryStatus :: "node_entry \<Rightarrow> command_status" where
  "entryStatus e = (case ne_result e of None \<Rightarrow> RUNNING | Some v \<Rightarrow> cr_status v)"

text \<open>One round of the loop in \<open>checkNodeLifecycleFence\<close>.\<close>

definition nodeFenceEntry ::
  "'b codecs \<Rightarrow> 'b node_db \<Rightarrow> command \<Rightarrow> string \<Rightarrow> node_entry \<Rightarrow> unit res" where
  "nodeFenceEntry K db c scope prior =
     bindR (if IsLifecycleCommand (c_type (ne_command prior)) then readLifecycle K db (ne_command prior)
            else Inr None) (\<lambda>r.
       let pinned = getter sw_incarnation (tget (nd_scopes db) (c_id (ne_command prior))) in
       if pinned \<noteq> '''' \<and> scope \<noteq> '''' \<and> pinned \<noteq> scope then Inr ()
       else if lifecycleConflict (ne_command prior) r (entryStatus prior) c scope
       then Inl ErrLifecycleUnresolved else Inr ())"

definition checkNodeLifecycleFence ::
  "'b codecs \<Rightarrow> string \<Rightarrow> 'b node_db \<Rightarrow> command \<Rightarrow> string \<Rightarrow> unit res" where
  "checkNodeLifecycleFence K node db c incarnation =
     (if c_start c = None \<and> c_control c = None then Inr ()
      else bindR (readNodeEntries K node db (\<lambda>i row. unresolvedRow row)) (\<lambda>es.
        each (nodeFenceEntry K db c (if incarnation = '''' then lifecycleIncarnation c None else incarnation)) es))"

text \<open>The digest of the four parts joined by zero bytes.\<close>

definition lifecycleResourceKey ::
  "(string \<Rightarrow> string) \<Rightarrow> string \<Rightarrow> string \<Rightarrow> string \<Rightarrow> string \<Rightarrow> string res" where
  "lifecycleResourceKey H node incarnation resourceKind resourceID =
     (if \<not> ValidIdempotencyKey node \<or> \<not> ValidSessionIncarnation incarnation \<or>
         \<not> ValidIdempotencyKey resourceID \<or> resourceKind \<noteq> ''workspace'' \<and> resourceKind \<noteq> ''terminal''
      then Inl (Msg ''invalid lifecycle quarantine identity'')
      else Inr (H (node @ [CHR 0x00] @ incarnation @ [CHR 0x00] @ resourceKind @ [CHR 0x00] @ resourceID)))"

definition optionalKey ::
  "(string \<Rightarrow> string) \<Rightarrow> string \<Rightarrow> string \<Rightarrow> string \<Rightarrow> string \<Rightarrow> string res" where
  "optionalKey H node incarnation resourceKind resourceID =
     (if resourceID = '''' then Inr '''' else lifecycleResourceKey H node incarnation resourceKind resourceID)"

definition scopeRowOk :: "scope_row \<Rightarrow> bool" where
  "scopeRowOk s = (length (sw_incarnation s) = 64 \<and> length (sw_workspace s) \<in> {0, 64} \<and>
     length (sw_terminal s) \<in> {0, 64})"

definition putScope :: "string \<Rightarrow> scope_row \<Rightarrow> 'b node_db \<Rightarrow> 'b node_db res" where
  "putScope cid s db =
     (let s = (case tget (nd_scopes db) cid of None \<Rightarrow> s | Some old \<Rightarrow> s\<lparr>sw_incarnation := sw_incarnation old\<rparr>) in
      if \<not> scopeRowOk s then Inl sqliteCheck
      else if tget (nd_commands db) cid = None then Inl sqliteForeignKey
      else Inr (db\<lparr>nd_scopes := tput cid s (nd_scopes db)\<rparr>))"

definition pinCommandScope ::
  "(string \<Rightarrow> string) \<Rightarrow> string \<Rightarrow> command \<Rightarrow> string \<Rightarrow> string \<Rightarrow> string \<Rightarrow> 'b node_db \<Rightarrow> 'b node_db res" where
  "pinCommandScope H node c incarnation workspace terminal db =
     (if \<not> ValidSessionIncarnation incarnation then Inl ErrCommandConflict
      else if snd (CommandSession c) \<noteq> '''' \<and> snd (CommandSession c) \<noteq> incarnation then Inl ErrCommandConflict
      else bindR (optionalKey H node incarnation ''workspace'' workspace) (\<lambda>workspaceKey.
        bindR (optionalKey H node incarnation ''terminal'' terminal) (\<lambda>terminalKey.
          if opt_ex (\<lambda>old. sw_incarnation old \<noteq> incarnation \<or>
               sw_workspace old \<noteq> '''' \<and> sw_workspace old \<noteq> workspaceKey \<or>
               sw_terminal old \<noteq> '''' \<and> sw_terminal old \<noteq> terminalKey) (tget (nd_scopes db) (c_id c))
          then Inl ErrCommandConflict
          else putScope (c_id c) \<lparr>sw_incarnation = incarnation, sw_workspace = workspaceKey,
                 sw_terminal = terminalKey\<rparr> db)))"

section \<open>Claiming a command\<close>

definition rejectedResult :: "string \<Rightarrow> string \<Rightarrow> command_result" where
  "rejectedResult cid detail = \<lparr>cr_id = cid, cr_status = REJECTED, cr_detail = detail, cr_payload = None,
     cr_workspace = None, cr_worktree = None, cr_control = None, cr_session = None, cr_lifecycle = None,
     cr_unk = []\<rparr>"

text \<open>The two branches that store a rejection instead of an intent.\<close>

definition claimRejected ::
  "'b codecs \<Rightarrow> command \<Rightarrow> 'b \<Rightarrow> string \<Rightarrow> ('b node_db, command_result option \<times> bool) body" where
  "claimRejected K c payload detail db =
     (let v = rejectedResult (c_id c) detail in
      bindR (marshalCommandMessage result_unknown (k_result K) v) (\<lambda>resultBytes.
        bindR (insertNodeRow K (c_id c) \<lparr>nw_status = cr_status v, nw_delivered = 0, nw_command = payload,
                 nw_result = Some resultBytes\<rparr> db) (\<lambda>db'. Inr ((Some v, False), db'))))"

definition claimIntent :: "'b codecs \<Rightarrow> command \<Rightarrow> 'b \<Rightarrow> ('b node_db, command_result option \<times> bool) body" where
  "claimIntent K c payload db =
     bindR (insertNodeRow K (c_id c) \<lparr>nw_status = RUNNING, nw_delivered = 0, nw_command = payload,
              nw_result = None\<rparr> db) (\<lambda>db'. Inr ((None, True), db'))"

definition sameProject :: "string \<Rightarrow> node_entry \<Rightarrow> bool" where
  "sameProject project prior = (\<not> IsLifecycleCommand (c_type (ne_command prior)) \<and>
     fst (CommandProject (ne_command prior)) = project)"

definition claimNew ::
  "'b codecs \<Rightarrow> string \<Rightarrow> command \<Rightarrow> ('b node_db, command_result option \<times> bool) body" where
  "claimNew K node c db =
     (if maxCommands \<le> length (nd_commands db) then Inl ErrCommandCapacity
      else bindR (marshalCommandMessage command_unknown (k_command K) c) (\<lambda>payload.
        case checkNodeLifecycleFence K node db c '''' of
          Inl e \<Rightarrow>
            if \<not> errors_is e ErrLifecycleUnresolved then Inl e
            else claimRejected K c payload ''lifecycle_unresolved'' db
        | Inr u \<Rightarrow>
            if fst (CommandProject c) \<noteq> '''' \<and> \<not> IsLifecycleCommand (c_type c)
            then bindR (readNodeEntries K node db (\<lambda>i row. unresolvedRow row)) (\<lambda>es.
              if list_ex (sameProject (fst (CommandProject c))) es
              then claimRejected K c payload ''project_unresolved'' db
              else claimIntent K c payload db)
            else claimIntent K c payload db))"

definition claimBody ::
  "'b codecs \<Rightarrow> string \<Rightarrow> command \<Rightarrow> ('b node_db, command_result option \<times> bool) body" where
  "claimBody K node c db = (case readNodeEntry K node db (c_id c) of
     Inr e \<Rightarrow>
       if \<not> matchingNodeCommand (ne_command e) c then Inl ErrCommandConflict
       else (case ne_result e of
         Some v \<Rightarrow> Inr ((Some v, False), db)
       | None \<Rightarrow> bindR (recoveredLifecycleResult K db c) (\<lambda>v.
           bindR (writeNodeResult K (ne_command e) v db) (\<lambda>db'. Inr ((Some v, False), db'))))
   | Inl e \<Rightarrow> if \<not> errors_is e ErrCommandNotFound then Inl e else claimNew K node c db)"

definition Claim ::
  "tx_env \<Rightarrow> 'b codecs \<Rightarrow> string \<Rightarrow> command option \<Rightarrow> 'b node_db \<Rightarrow>
   (command_result option \<times> bool) res \<times> 'b node_db" where
  "Claim E K node command = operation E (validateCommand (k_pb K) command node)
     (\<lambda>db. case command of
        None \<Rightarrow> Inl (Msg ''command is nil or oversized'')
      | Some c \<Rightarrow> claimBody K node c db)"

section \<open>Results\<close>

definition completeBody :: "'b codecs \<Rightarrow> string \<Rightarrow> command_result \<Rightarrow> ('b node_db, unit) body" where
  "completeBody K node v db =
     bindR (readNodeEntry K node db (cr_id v)) (\<lambda>e.
       bindR (conflictOf (ValidateResultForCommand (k_pb K) (Some v) (ne_command e))) (\<lambda>_.
         bindR (if IsLifecycleCommand (c_type (ne_command e))
                then bindR (readLifecycle K db (ne_command e)) (\<lambda>old.
                  if old \<noteq> cr_lifecycle v then Inl ErrCommandConflict else Inr ())
                else Inr ()) (\<lambda>_.
           case ne_result e of
             Some w \<Rightarrow> if w \<noteq> v then Inl ErrCommandConflict else Inr ((), db)
           | None \<Rightarrow> bindR (writeNodeResult K (ne_command e) v db) (\<lambda>db'. Inr ((), db')))))"

definition Complete ::
  "tx_env \<Rightarrow> 'b codecs \<Rightarrow> string \<Rightarrow> command_result option \<Rightarrow> 'b node_db \<Rightarrow> unit res \<times> 'b node_db" where
  "Complete E K node result = operation E (conflictOf (ValidateCommandResult result))
     (\<lambda>db. case result of
        None \<Rightarrow> Inl (Msg ''invalid agent command result'')
      | Some v \<Rightarrow> completeBody K node v db)"

definition PendingResults ::
  "tx_env \<Rightarrow> 'b codecs \<Rightarrow> string \<Rightarrow> 'b node_db \<Rightarrow> command_result list res \<times> 'b node_db" where
  "PendingResults E K node = operation E (Inr ())
     (\<lambda>db. bindR (readNodeEntries K node db (\<lambda>i row. nw_delivered row = 0 \<and> nw_status row \<noteq> RUNNING))
        (\<lambda>es. Inr (map (\<lambda>e. the (ne_result e)) es, db)))"

definition acknowledgeBody ::
  "'b codecs \<Rightarrow> string \<Rightarrow> string \<Rightarrow> command_status \<Rightarrow> ('b node_db, unit) body" where
  "acknowledgeBody K node cid status db =
     bindR (readNodeEntry K node db cid) (\<lambda>e.
       if opt_all (\<lambda>v. cr_status v \<noteq> status) (ne_result e) then Inl ErrCommandConflict
       else if ne_delivered e then Inr ((), db)
       else (case tget (nd_commands db) cid of
         None \<Rightarrow> Inr ((), db)
       | Some row \<Rightarrow> let row = row\<lparr>nw_delivered := 1\<rparr> in
           if \<not> nodeRowOk K row then Inl sqliteCheck
           else Inr ((), db\<lparr>nd_commands := tput cid row (nd_commands db)\<rparr>)))"

definition Acknowledge ::
  "tx_env \<Rightarrow> 'b codecs \<Rightarrow> string \<Rightarrow> string \<Rightarrow> command_status \<Rightarrow> 'b node_db \<Rightarrow> unit res \<times> 'b node_db" where
  "Acknowledge E K node cid status = operation E
     (if blank cid then Inl (Msg ''acknowledged command ID must not be empty'') else Inr ())
     (acknowledgeBody K node cid status)"

fun recoverLoop :: "'b codecs \<Rightarrow> node_entry list \<Rightarrow> 'b node_db \<Rightarrow> 'b node_db res" where
  "recoverLoop K [] db = Inr db"
| "recoverLoop K (e # es) db =
     bindR (recoveredLifecycleResult K db (ne_command e)) (\<lambda>v.
       bindR (writeNodeResult K (ne_command e) v db) (recoverLoop K es))"

definition Recover :: "tx_env \<Rightarrow> 'b codecs \<Rightarrow> string \<Rightarrow> 'b node_db \<Rightarrow> unit res \<times> 'b node_db" where
  "Recover E K node = operation E (Inr ())
     (\<lambda>db. bindR (readNodeEntries K node db (\<lambda>i row. nw_status row = RUNNING)) (\<lambda>es.
        bindR (recoverLoop K es db) (\<lambda>db'. Inr ((), db'))))"

section \<open>Native effects\<close>

definition pinBody ::
  "'b codecs \<Rightarrow> (string \<Rightarrow> string) \<Rightarrow> string \<Rightarrow> string \<Rightarrow> string \<Rightarrow> ('b node_db, unit) body" where
  "pinBody K H node cid incarnation db =
     bindR (readNodeEntry K node db cid) (\<lambda>e.
       case c_control (ne_command e) of
         None \<Rightarrow> Inl ErrCommandConflict
       | Some control \<Rightarrow>
           if ne_result e \<noteq> None then Inl ErrCommandConflict
           else bindR (checkNodeLifecycleFence K node db (ne_command e) incarnation) (\<lambda>_.
             bindR (pinCommandScope H node (ne_command e) incarnation ''''
                      (getter at_terminal (ag_target control)) db) (\<lambda>db'. Inr ((), db'))))"

definition PinAgentCommand ::
  "tx_env \<Rightarrow> 'b codecs \<Rightarrow> (string \<Rightarrow> string) \<Rightarrow> string \<Rightarrow> string \<Rightarrow> string \<Rightarrow> 'b node_db \<Rightarrow>
   unit res \<times> 'b node_db" where
  "PinAgentCommand E K H node cid incarnation = operation E (Inr ()) (pinBody K H node cid incarnation)"

definition putLifecycle :: "'b codecs \<Rightarrow> string \<Rightarrow> receipt \<Rightarrow> 'b \<Rightarrow> 'b node_db \<Rightarrow> 'b node_db res" where
  "putLifecycle K cid r payload db =
     (if 8 < lr_sequence r \<or> blob_len (k_receipt K) payload < 1 \<or> 4096 < blob_len (k_receipt K) payload
      then Inl sqliteCheck
      else if tget (nd_commands db) cid = None then Inl sqliteForeignKey
      else Inr (db\<lparr>nd_lifecycle := tput cid \<lparr>lw_sequence = lr_sequence r, lw_receipt = payload\<rparr> (nd_lifecycle db)\<rparr>))"

definition saveLifecycleBody ::
  "'b codecs \<Rightarrow> (string \<Rightarrow> string) \<Rightarrow> string \<Rightarrow> string \<Rightarrow> receipt option \<Rightarrow> ('b node_db, unit) body" where
  "saveLifecycleBody K H node cid receipt db =
     bindR (readNodeEntry K node db cid) (\<lambda>e.
       if ne_result e \<noteq> None then Inl ErrCommandConflict
       else bindR (readLifecycle K db (ne_command e)) (\<lambda>old.
         bindR (ValidateLifecycleAdvance (k_pb K) old receipt (ne_command e)) (\<lambda>_.
           case receipt of
             None \<Rightarrow> Inl (Msg ''lifecycle receipt is required'')
           | Some r \<Rightarrow>
               let target = Option.bind (lr_handle r) lh_target; incarnation = getter at_incarnation target in
               bindR (checkNodeLifecycleFence K node db (ne_command e) incarnation) (\<lambda>_.
                 bindR (pinCommandScope H node (ne_command e) incarnation (getter lh_workspace (lr_handle r))
                          (getter at_terminal target) db) (\<lambda>db1.
                   bindR (marshalCommandMessage receipt_unknown (k_receipt K) r) (\<lambda>payload.
                     bindR (putLifecycle K cid r payload db1) (\<lambda>db2. Inr ((), db2))))))))"

definition SaveLifecycle ::
  "tx_env \<Rightarrow> 'b codecs \<Rightarrow> (string \<Rightarrow> string) \<Rightarrow> string \<Rightarrow> string \<Rightarrow> receipt option \<Rightarrow> 'b node_db \<Rightarrow>
   unit res \<times> 'b node_db" where
  "SaveLifecycle E K H node cid receipt = operation E (Inr ()) (saveLifecycleBody K H node cid receipt)"

definition GetLifecycle ::
  "tx_env \<Rightarrow> 'b codecs \<Rightarrow> string \<Rightarrow> string \<Rightarrow> 'b node_db \<Rightarrow> receipt option res \<times> 'b node_db" where
  "GetLifecycle E K node cid = operation E (Inr ())
     (\<lambda>db. bindR (readNodeEntry K node db cid) (\<lambda>e.
        bindR (readLifecycle K db (ne_command e)) (\<lambda>r. Inr (r, db))))"

section \<open>Validation when the journal is opened\<close>

text \<open>The native scope of one entry: what it must be, given the entry and its checkpoint.\<close>

definition checkScope ::
  "(string \<Rightarrow> string) \<Rightarrow> string \<Rightarrow> command \<Rightarrow> receipt option \<Rightarrow> scope_row \<Rightarrow> unit res" where
  "checkScope H node c receipt s =
     (let expected = snd (CommandSession c); incarnation = sw_incarnation s in
      if \<not> ValidSessionIncarnation incarnation \<or> expected \<noteq> '''' \<and> expected \<noteq> incarnation
      then Inl (Msg ''invalid retained native incarnation'')
      else bindR (case receipt of
          Some r \<Rightarrow>
            let target = Option.bind (lr_handle r) lh_target in
            if getter at_incarnation target \<noteq> incarnation
            then Inl (Msg ''checkpoint and scope incarnation disagree'')
            else Inr (getter lh_workspace (lr_handle r), getter at_terminal target)
        | None \<Rightarrow> (case c_control c of
            Some control \<Rightarrow> Inr ('''', getter at_terminal (ag_target control))
          | None \<Rightarrow> Inl (Msg ''unexpected native scope''))) (\<lambda>(workspace, terminal).
        bindR (optionalKey H node incarnation ''workspace'' workspace) (\<lambda>wantWorkspace.
          bindR (optionalKey H node incarnation ''terminal'' terminal) (\<lambda>wantTerminal.
            if sw_workspace s \<noteq> wantWorkspace \<or> sw_terminal s \<noteq> wantTerminal
            then Inl (Msg ''canonical resource scope hash mismatch'') else Inr ()))))"

text \<open>One round of the loop: whether the entry has a checkpoint, and whether it has a scope.\<close>

definition checkLifecycleData ::
  "'b codecs \<Rightarrow> (string \<Rightarrow> string) \<Rightarrow> string \<Rightarrow> 'b node_db \<Rightarrow> node_entry \<Rightarrow> (bool \<times> bool) res" where
  "checkLifecycleData K H node db e =
     bindR (readLifecycle K db (ne_command e)) (\<lambda>receipt.
       if receipt \<noteq> None \<and> opt_ex (\<lambda>v. cr_lifecycle v \<noteq> receipt) (ne_result e)
       then Inl (Msg ''terminal lifecycle result disagrees with its checkpoint'')
       else if receipt = None \<and> opt_ex (\<lambda>v. cr_lifecycle v \<noteq> None) (ne_result e)
       then Inl (Msg ''terminal lifecycle result is missing its checkpoint'')
       else case tget (nd_scopes db) (c_id (ne_command e)) of
         None \<Rightarrow>
           if receipt \<noteq> None then Inl (Msg ''lifecycle checkpoint is missing its native scope'')
           else Inr (False, False)
       | Some s \<Rightarrow> bindR (checkScope H node (ne_command e) receipt s) (\<lambda>_. Inr (receipt \<noteq> None, True)))"

definition validateNodeLifecycleData ::
  "'b codecs \<Rightarrow> (string \<Rightarrow> string) \<Rightarrow> string \<Rightarrow> 'b node_db \<Rightarrow> node_entry list \<Rightarrow> unit res" where
  "validateNodeLifecycleData K H node db es =
     bindR (collect (checkLifecycleData K H node db) es) (\<lambda>seen.
       if length (nd_lifecycle db) \<noteq> length (filter fst seen) \<or> length (nd_scopes db) \<noteq> length (filter snd seen)
       then Inl (Msg ''orphan lifecycle checkpoint or native scope'') else Inr ())"

end
