(* ===== verification/NodeInvariant.thy ===== *)
theory NodeInvariant
  imports NodeJournal ProtocolContract
begin

text \<open>
  The invariant of the node's journal, what each statement does to the abstract journal \<open>entryAt\<close> (a map
  from command IDs to entries), and how far one operation may change one entry.  The invariant is what
  the code checks when the journal is opened, so the last section proves that a journal written by its
  operations alone can always be opened again.
\<close>

section \<open>Rows and entries\<close>

definition entryAt :: "'b codecs \<Rightarrow> string \<Rightarrow> 'b node_db \<Rightarrow> string \<Rightarrow> node_entry option" where
  "entryAt K node db i = (case tget (nd_commands db) i of
     None \<Rightarrow> None
   | Some row \<Rightarrow> (case decodeEntry K node (i, row) of Inl e \<Rightarrow> None | Inr e \<Rightarrow> Some e))"

definition undecided :: "command \<Rightarrow> node_entry" where
  "undecided c = \<lparr>ne_command = c, ne_result = None, ne_delivered = False\<rparr>"

definition decided :: "command \<Rightarrow> command_result \<Rightarrow> bool \<Rightarrow> node_entry" where
  "decided c v d = \<lparr>ne_command = c, ne_result = Some v, ne_delivered = d\<rparr>"

lemma decided_simps [simp]:
  "ne_command (decided c v d) = c" "ne_result (decided c v d) = Some v" "ne_delivered (decided c v d) = d"
  "ne_command (undecided c) = c" "ne_result (undecided c) = None" "\<not> ne_delivered (undecided c)"
  by (simp_all add: decided_def undecided_def)

text \<open>A row that decodes is a running intent or holds a result that answers its command.\<close>

lemma decodeEntry_facts:
  assumes "decodeEntry K node (i, row) = Inr e"
  obtains (running) "nw_status row = RUNNING" "nw_result row = None" "nw_delivered row = 0"
      "ne_result e = None" "\<not> ne_delivered e"
      "decodeCommandMessage command_unknown (k_command K) (nw_command row) = Inr (ne_command e)"
      "validateCommand (k_pb K) (Some (ne_command e)) node = Inr ()" "c_id (ne_command e) = i"
  | (result) v b where "nw_status row \<noteq> RUNNING" "nw_result row = Some b"
      "nw_delivered row = (if ne_delivered e then 1 else 0)"
      "ne_result e = Some v"
      "decodeCommandMessage result_unknown (k_result K) b = Inr v"
      "ValidateResultForCommand (k_pb K) (Some v) (ne_command e) = Inr ()"
      "cr_id v = i" "cr_status v = nw_status row"
      "decodeCommandMessage command_unknown (k_command K) (nw_command row) = Inr (ne_command e)"
      "validateCommand (k_pb K) (Some (ne_command e)) node = Inr ()" "c_id (ne_command e) = i"
proof -
  obtain c where c: "decodeCommandMessage command_unknown (k_command K) (nw_command row) = Inr c"
      "validateCommand (k_pb K) (Some c) node = Inr ()" "i = c_id c" "nw_delivered row \<noteq> 0 \<longrightarrow> nw_delivered row = 1"
    using assms unfolding decodeEntry_def by (auto simp: bindR_eq_Inr split: if_splits)
  show thesis
  proof (cases "nw_status row = RUNNING")
    case True
    then have "e = undecided c" "nw_result row = None" "nw_delivered row = 0"
      using assms c unfolding decodeEntry_def by (auto simp: bindR_eq_Inr undecided_def split: if_splits)
    then show thesis using running True c by simp
  next
    case False
    obtain v where v: "decodeResult K (nw_result row) = Inr v"
        "ValidateResultForCommand (k_pb K) (Some v) c = Inr ()" "cr_id v = i" "cr_status v = nw_status row"
        "e = decided c v (nw_delivered row = 1)"
      using assms c False unfolding decodeEntry_def
      by (auto simp: bindR_eq_Inr decided_def split: if_splits)
    obtain b where "nw_result row = Some b" "decodeCommandMessage result_unknown (k_result K) b = Inr v"
      using v(1) by (auto simp: decodeResult_def split: option.splits)
    then show thesis using result [of b v] False c v by auto
  qed
qed

lemma decodeEntry_command:
  assumes "decodeEntry K node (i, row) = Inr e"
  shows "decodeCommandMessage command_unknown (k_command K) (nw_command row) = Inr (ne_command e)"
    and "validateCommand (k_pb K) (Some (ne_command e)) node = Inr ()" and "c_id (ne_command e) = i"
    and "nw_delivered row = (if ne_delivered e then 1 else 0)"
  using assms by (cases rule: decodeEntry_facts; simp)+

lemma decodeEntry_running:
  assumes "codec_ok (k_command K)" and "marshalCommandMessage command_unknown (k_command K) c = Inr payload"
    and "validateCommand (k_pb K) (Some c) node = Inr ()"
  shows "decodeEntry K node (c_id c, \<lparr>nw_status = RUNNING, nw_delivered = 0, nw_command = payload,
      nw_result = None\<rparr>) = Inr (undecided c)"
  using assms marshalCommandMessage_decode [OF assms(1,2)] by (simp add: decodeEntry_def undecided_def)

lemma decodeEntry_result:
  assumes "codec_ok (k_result K)" and "marshalCommandMessage result_unknown (k_result K) v = Inr payload"
    and "decodeCommandMessage command_unknown (k_command K) b = Inr c"
    and "validateCommand (k_pb K) (Some c) node = Inr ()"
    and "ValidateResultForCommand (k_pb K) (Some v) c = Inr ()" and "d = 0 \<or> d = 1"
  shows "decodeEntry K node (c_id c, \<lparr>nw_status = cr_status v, nw_delivered = d, nw_command = b,
      nw_result = Some payload\<rparr>) = Inr (decided c v (d = 1))"
proof -
  have "cr_status v \<noteq> RUNNING" using ValidateResultForCommand_status [OF assms(5)] by auto
  moreover have "cr_id v = c_id c" using ValidateResultForCommand_id [OF assms(5)] .
  ultimately show ?thesis
    using assms marshalCommandMessage_decode [OF assms(1,2)]
    by (auto simp: decodeEntry_def decodeResult_def decided_def)
qed

lemma decodeEntry_status:
  assumes "decodeEntry K node (i, row) = Inr e"
  shows "entryStatus e = nw_status row"
  using assms by (cases rule: decodeEntry_facts) (simp_all add: entryStatus_def)

section \<open>The invariant\<close>

definition nodeGood :: "'b codecs \<Rightarrow> (string \<Rightarrow> string) \<Rightarrow> string \<Rightarrow> 'b node_db \<Rightarrow> bool" where
  "nodeGood K H node db = (codecs_ok K \<and> table_ok (nd_commands db) \<and> length (nd_commands db) \<le> maxCommands \<and>
     table_ok (nd_lifecycle db) \<and> table_ok (nd_scopes db) \<and>
     (\<forall>i row. tget (nd_commands db) i = Some row \<longrightarrow> (\<exists>e. decodeEntry K node (i, row) = Inr e \<and>
        is_ok (checkLifecycleData K H node db e))) \<and>
     (\<forall>i. tget (nd_commands db) i = None \<longrightarrow> tget (nd_lifecycle db) i = None \<and> tget (nd_scopes db) i = None))"

lemma nodeGoodD:
  assumes "nodeGood K H node db"
  shows "codecs_ok K" "table_ok (nd_commands db)" "length (nd_commands db) \<le> maxCommands"
    "table_ok (nd_lifecycle db)" "table_ok (nd_scopes db)"
    "tget (nd_commands db) i = Some row \<Longrightarrow> \<exists>e. decodeEntry K node (i, row) = Inr e"
    "tget (nd_commands db) i = Some row \<Longrightarrow> decodeEntry K node (i, row) = Inr e \<Longrightarrow>
       is_ok (checkLifecycleData K H node db e)"
    "tget (nd_commands db) i = None \<Longrightarrow> tget (nd_lifecycle db) i = None"
    "tget (nd_commands db) i = None \<Longrightarrow> tget (nd_scopes db) i = None"
proof -
  show "\<exists>e. decodeEntry K node (i, row) = Inr e" if "tget (nd_commands db) i = Some row"
    using assms that unfolding nodeGood_def by blast
  show "is_ok (checkLifecycleData K H node db e)"
    if "tget (nd_commands db) i = Some row" and "decodeEntry K node (i, row) = Inr e"
    using assms that unfolding nodeGood_def by fastforce
qed (use assms in \<open>simp_all add: nodeGood_def\<close>)

lemma entryAt_row:
  assumes "entryAt K node db i = Some e"
  obtains row where "tget (nd_commands db) i = Some row" "decodeEntry K node (i, row) = Inr e"
  using assms by (auto simp: entryAt_def split: option.splits sum.splits)

lemma entryAt_command:
  assumes "entryAt K node db i = Some e"
  shows "validateCommand (k_pb K) (Some (ne_command e)) node = Inr ()" and "c_id (ne_command e) = i"
  using assms by (auto elim!: entryAt_row dest: decodeEntry_command)

lemma entryAt_result:
  assumes "entryAt K node db i = Some e" and "ne_result e = Some v"
  shows "ValidateResultForCommand (k_pb K) (Some v) (ne_command e) = Inr ()"
proof -
  obtain row where "decodeEntry K node (i, row) = Inr e" using assms(1) by (rule entryAt_row)
  then show ?thesis using assms(2)
  proof (cases rule: decodeEntry_facts)
    case running
    then show ?thesis using assms(2) by simp
  next
    case (result w b)
    then show ?thesis using assms(2) by simp
  qed
qed

lemma entryAt_iff:
  assumes "nodeGood K H node db"
  shows "entryAt K node db i = None \<longleftrightarrow> tget (nd_commands db) i = None"
proof (cases "tget (nd_commands db) i")
  case (Some row)
  then obtain e where "decodeEntry K node (i, row) = Inr e" using nodeGoodD(6) [OF assms] by blast
  then show ?thesis using Some by (simp add: entryAt_def)
qed (simp add: entryAt_def)

lemma entryAt_check:
  assumes "nodeGood K H node db" and "entryAt K node db i = Some e"
  obtains seen where "checkLifecycleData K H node db e = Inr seen"
proof -
  obtain row where row: "tget (nd_commands db) i = Some row" "decodeEntry K node (i, row) = Inr e"
    using assms(2) by (rule entryAt_row)
  show thesis using nodeGoodD(7) [OF assms(1) row] that by (auto simp: is_ok_iff)
qed

text \<open>The check of an entry reads the receipt and the scope of its own command only.\<close>

lemma checkLifecycleData_frame:
  assumes "tget (nd_lifecycle db') (c_id (ne_command e)) = tget (nd_lifecycle db) (c_id (ne_command e))"
    and "tget (nd_scopes db') (c_id (ne_command e)) = tget (nd_scopes db) (c_id (ne_command e))"
  shows "checkLifecycleData K H node db' e = checkLifecycleData K H node db e"
  unfolding checkLifecycleData_def readLifecycle_def assms by (rule refl)

text \<open>A statement that changes the row, receipt or scope of one command keeps the invariant if that command does.\<close>

lemma nodeGood_change:
  assumes good: "nodeGood K H node db"
    and row: "decodeEntry K node (i, row) = Inr e"
    and cmd: "\<And>j. tget (nd_commands db') j = (if j = i then Some row else tget (nd_commands db) j)"
    and others: "\<And>j. j \<noteq> i \<Longrightarrow> tget (nd_lifecycle db') j = tget (nd_lifecycle db) j"
      "\<And>j. j \<noteq> i \<Longrightarrow> tget (nd_scopes db') j = tget (nd_scopes db) j"
    and ok: "table_ok (nd_commands db')" "length (nd_commands db') \<le> maxCommands"
      "table_ok (nd_lifecycle db')" "table_ok (nd_scopes db')"
    and chk: "is_ok (checkLifecycleData K H node db' e)"
  shows "nodeGood K H node db' \<and> entryAt K node db' = (entryAt K node db)(i \<mapsto> e)"
proof -
  note g = nodeGoodD [OF good]
  have rows: "\<exists>f. decodeEntry K node (j, r) = Inr f \<and> is_ok (checkLifecycleData K H node db' f)"
    if r: "tget (nd_commands db') j = Some r" for j r
  proof (cases "j = i")
    case True
    then have "r = row" using r by (simp add: cmd)
    then show ?thesis using row(1) chk True by blast
  next
    case False
    then have old: "tget (nd_commands db) j = Some r" using r by (simp add: cmd)
    then obtain f where f: "decodeEntry K node (j, r) = Inr f" using g(6) by blast
    have "checkLifecycleData K H node db' f = checkLifecycleData K H node db f"
      by (rule checkLifecycleData_frame) (simp_all add: False others decodeEntry_command(3) [OF f])
    then show ?thesis using f g(7) [OF old f] by simp
  qed
  have orphans: "tget (nd_lifecycle db') j = None \<and> tget (nd_scopes db') j = None"
    if "tget (nd_commands db') j = None" for j
    using that g(8,9) others by (simp add: cmd split: if_splits)
  have "nodeGood K H node db'"
    unfolding nodeGood_def using g(1) ok rows orphans by (intro conjI allI impI) blast+
  moreover have "entryAt K node db' = (entryAt K node db)(i \<mapsto> e)"
    unfolding entryAt_def cmd by (rule ext) (simp add: row split: option.splits)
  ultimately show ?thesis ..
qed

lemma nodeGood_row:
  assumes good: "nodeGood K H node db" and row: "decodeEntry K node (i, row) = Inr e"
    and room: "tget (nd_commands db) i \<noteq> None \<or> length (nd_commands db) < maxCommands"
    and chk: "is_ok (checkLifecycleData K H node db e)"
  shows "nodeGood K H node (db\<lparr>nd_commands := tput i row (nd_commands db)\<rparr>) \<and>
    entryAt K node (db\<lparr>nd_commands := tput i row (nd_commands db)\<rparr>) = (entryAt K node db)(i \<mapsto> e)"
proof (rule nodeGood_change [OF good row])
  note g = nodeGoodD [OF good]
  show "length (nd_commands (db\<lparr>nd_commands := tput i row (nd_commands db)\<rparr>)) \<le> maxCommands"
    using g(2,3) room by (auto simp: length_tput)
  have "checkLifecycleData K H node (db\<lparr>nd_commands := tput i row (nd_commands db)\<rparr>) e = checkLifecycleData K H node db e"
    by (rule checkLifecycleData_frame) simp_all
  then show "is_ok (checkLifecycleData K H node (db\<lparr>nd_commands := tput i row (nd_commands db)\<rparr>) e)"
    using chk by simp
qed (use nodeGoodD [OF good] in \<open>simp_all add: tget_tput table_ok_tput\<close>)

section \<open>Reading a well-formed journal\<close>

lemma readNodeEntries_eq:
  assumes "nodeGood K H node db"
  shows "readNodeEntries K node db p =
    Inr (map (\<lambda>kr. the (entryAt K node db (fst kr))) (tselect p (nd_commands db)))"
proof -
  note ok = nodeGoodD [OF assms]
  have "collect (decodeEntry K node) (tselect p (nd_commands db)) =
      Inr (map (\<lambda>kr. the (entryAt K node db (fst kr))) (tselect p (nd_commands db)))"
  proof (rule collect_map)
    fix kr assume kr: "kr \<in> set (tselect p (nd_commands db))"
    obtain i row where e: "kr = (i, row)" by (cases kr)
    have g: "tget (nd_commands db) i = Some row"
      using kr tget_mem [OF ok(2)] unfolding e tselect_mem by blast
    then obtain x where "decodeEntry K node (i, row) = Inr x" using ok(6) by blast
    then show "decodeEntry K node kr = Inr (the (entryAt K node db (fst kr)))"
      using g by (simp add: e entryAt_def)
  qed
  then show ?thesis using ok(3) by (simp add: readNodeEntries_def)
qed

lemma readNodeEntries_mem:
  assumes good: "nodeGood K H node db" and "readNodeEntries K node db p = Inr es"
  shows "e \<in> set es \<longleftrightarrow> (\<exists>i row. tget (nd_commands db) i = Some row \<and> p i row \<and> entryAt K node db i = Some e)"
proof -
  note ok = nodeGoodD [OF good]
  have es: "es = map (\<lambda>kr. the (entryAt K node db (fst kr))) (tselect p (nd_commands db))"
    using assms(2) readNodeEntries_eq [OF good] by simp
  have the: "e = the (entryAt K node db i) \<longleftrightarrow> entryAt K node db i = Some e"
    if "tget (nd_commands db) i = Some row" for i row
    using that entryAt_iff [OF good, of i] by (cases "entryAt K node db i") auto
  have "e \<in> set es \<longleftrightarrow> (\<exists>i row. (i, row) \<in> set (tselect p (nd_commands db)) \<and> e = the (entryAt K node db i))"
    unfolding es by force
  then show ?thesis
    using the tget_mem [OF ok(2)] unfolding tselect_mem by blast
qed

lemma readNodeEntry_eq:
  assumes "nodeGood K H node db"
  shows "readNodeEntry K node db i =
    (case entryAt K node db i of None \<Rightarrow> Inl ErrCommandNotFound | Some e \<Rightarrow> Inr e)"
proof -
  have "tselect (\<lambda>j row. j = i) (nd_commands db) =
      (case tget (nd_commands db) i of None \<Rightarrow> [] | Some row \<Rightarrow> [(i, row)])"
    using tselect_key [OF nodeGoodD(2) [OF assms], of i "\<lambda>_. True"] by (simp split: option.splits)
  then show ?thesis
    using entryAt_iff [OF assms, of i]
    by (auto simp: readNodeEntry_def readNodeEntries_eq [OF assms] split: option.splits)
qed

section \<open>What the opening check demands of one entry\<close>

text \<open>Where the scope of an entry comes from: its receipt's handle, or the target of its control request.\<close>

definition scopeSource :: "command \<Rightarrow> receipt option \<Rightarrow> string \<Rightarrow> (string \<times> string) option" where
  "scopeSource c r incarnation = (case r of
     Some r \<Rightarrow> (let t = Option.bind (lr_handle r) lh_target in
       if getter at_incarnation t \<noteq> incarnation then None
       else Some (getter lh_workspace (lr_handle r), getter at_terminal t))
   | None \<Rightarrow> map_option (\<lambda>control. ('''', getter at_terminal (ag_target control))) (c_control c))"

definition scopeAgrees :: "(string \<Rightarrow> string) \<Rightarrow> string \<Rightarrow> command \<Rightarrow> receipt option \<Rightarrow> scope_row \<Rightarrow> bool" where
  "scopeAgrees H node c r s = (ValidSessionIncarnation (sw_incarnation s) \<and>
     (snd (CommandSession c) = '''' \<or> snd (CommandSession c) = sw_incarnation s) \<and>
     (\<exists>w t. scopeSource c r (sw_incarnation s) = Some (w, t) \<and>
        optionalKey H node (sw_incarnation s) ''workspace'' w = Inr (sw_workspace s) \<and>
        optionalKey H node (sw_incarnation s) ''terminal'' t = Inr (sw_terminal s)))"

lemma checkScope_iff: "checkScope H node c r s = Inr () \<longleftrightarrow> scopeAgrees H node c r s"
  unfolding checkScope_def scopeAgrees_def scopeSource_def Let_def
  by (cases r; cases "c_control c") (auto simp: bindR_eq_Inr split: if_splits)

lemma checkLifecycleData_iff:
  "is_ok (checkLifecycleData K H node db e) \<longleftrightarrow>
     (\<exists>r. readLifecycle K db (ne_command e) = Inr r \<and> (\<forall>v. ne_result e = Some v \<longrightarrow> cr_lifecycle v = r) \<and>
        (case tget (nd_scopes db) (c_id (ne_command e)) of
           None \<Rightarrow> r = None | Some s \<Rightarrow> scopeAgrees H node (ne_command e) r s))"
proof (cases "readLifecycle K db (ne_command e)")
  case (Inr r)
  have scope: "is_ok (bindR (checkScope H node (ne_command e) r s) (\<lambda>_. Inr (x :: bool \<times> bool))) \<longleftrightarrow>
      scopeAgrees H node (ne_command e) r s" for s x
    unfolding checkScope_iff [symmetric] by (cases "checkScope H node (ne_command e) r s") auto
  show ?thesis
    using Inr scope
    by (cases "ne_result e"; cases r; cases "tget (nd_scopes db) (c_id (ne_command e))")
      (auto simp: checkLifecycleData_def)
qed (simp add: checkLifecycleData_def)

lemma readLifecycle_receipt:
  "readLifecycle K db c = Inr (Some r) \<Longrightarrow> ValidateLifecycleReceipt (k_pb K) (Some r) c = Inr ()"
  by (auto simp: readLifecycle_def bindR_eq_Inr split: option.splits if_splits)

lemma readLifecycle_none:
  "readLifecycle K db c = Inr r \<Longrightarrow> \<not> IsLifecycleCommand (c_type c) \<Longrightarrow> r = None"
  using readLifecycle_receipt [of K db c] ValidateLifecycleReceipt_loop by (cases r) blast+

section \<open>The remaining TTL is not identity\<close>

lemma stageLoop_ttl: "stageLoop (c\<lparr>c_ttl := t\<rparr>) prior f es = stageLoop c prior f es"
  by (induction es arbitrary: prior f) (simp_all add: stageCheck_def cong del: bindR_cong)

lemma ValidateLifecycleReceipt_ttl:
  "ValidateLifecycleReceipt P r (c\<lparr>c_ttl := t\<rparr>) = ValidateLifecycleReceipt P r c"
proof -
  have i: "receiptIdentity r (c\<lparr>c_ttl := t\<rparr>) = receiptIdentity r c" for r
    by (simp add: receiptIdentity_def submittedPrompt_def split: option.splits)
  have k: "c_type (c\<lparr>c_ttl := t\<rparr>) = c_type c" by simp
  show ?thesis unfolding ValidateLifecycleReceipt_def stageLoop_ttl i k by (rule refl)
qed

lemma recoveredLifecycleResult_ttl:
  "recoveredLifecycleResult K db (c\<lparr>c_ttl := t\<rparr>) = recoveredLifecycleResult K db c"
proof -
  have "readLifecycle K db (c\<lparr>c_ttl := t\<rparr>) = readLifecycle K db c"
    unfolding readLifecycle_def ValidateLifecycleReceipt_ttl by simp
  moreover have "lifecycleOutcome (c\<lparr>c_ttl := t\<rparr>) r = lifecycleOutcome c r" for r
    by (simp add: lifecycleOutcome_def interruptedCommandResult_def LifecycleComplete_def submittedPrompt_def)
  moreover have "interruptedCommandResult (c\<lparr>c_ttl := t\<rparr>) = interruptedCommandResult c"
    by (simp add: interruptedCommandResult_def)
  ultimately show ?thesis
    unfolding recoveredLifecycleResult_def by (cases "readLifecycle K db c") simp_all
qed

lemma matchingNodeCommand_ttl:
  assumes "matchingNodeCommand a b"
  shows "b = a\<lparr>c_ttl := c_ttl b\<rparr>"
  using assms by (cases a; cases b) (simp add: matchingNodeCommand_def)

lemma recovered_matching:
  "matchingNodeCommand a b \<Longrightarrow> recoveredLifecycleResult K db b = recoveredLifecycleResult K db a"
  by (subst matchingNodeCommand_ttl) (auto simp: recoveredLifecycleResult_ttl)

section \<open>Results written by the journal itself\<close>

lemma lifecycleOutcome_id: "cr_id (lifecycleOutcome c r) = c_id c" "cr_lifecycle (lifecycleOutcome c r) = r"
  by (simp_all add: lifecycleOutcome_def interruptedCommandResult_def interruptedNodeResult_def Let_def)

lemma lifecycle_request:
  assumes "ValidateCommand P (Some c) node = Inr ()" and "IsLifecycleCommand (c_type c)"
  shows "c_start c \<noteq> None \<and> c_stop c = None \<or> c_start c = None \<and> c_stop c \<noteq> None"
proof -
  have b: "validateCommandBody (c_type c) (c_workspace c) (checkedWorktree c) (c_control c)
      (c_session c) (c_start c) (c_stop c) = Inr ()"
    using ValidateCommand_parts(7) [OF assms(1)] .
  show ?thesis
    using b assms(2) unfolding validateCommandBody_def
    by (cases "c_start c"; cases "c_stop c")
      (auto simp: ValidateAgentStart_def ValidateAgentStop_def split: if_splits)
qed

text \<open>The outcome the journal derives from a receipt is always a valid result of the command.\<close>

lemma lifecycleOutcome_fields:
  assumes "IsLifecycleCommand (c_type c)"
  shows "cr_payload (lifecycleOutcome c r) = None" "cr_workspace (lifecycleOutcome c r) = None"
    "cr_worktree (lifecycleOutcome c r) = None" "cr_control (lifecycleOutcome c r) = None"
    "cr_session (lifecycleOutcome c r) = None" "cr_unk (lifecycleOutcome c r) = []"
    "(cr_status (lifecycleOutcome c r), cr_detail (lifecycleOutcome c r)) =
       (if LifecycleComplete r c then (SUCCEEDED, if c_stop c \<noteq> None then ''agent_stopped'' else ''agent_started'')
        else if LifecycleHasUnknown r then (INDETERMINATE, ''lifecycle_uncertain'')
        else if LifecycleHasEffect r then (FAILED, ''lifecycle_partial'')
        else (REJECTED, ''node_restarted''))"
proof -
  have "c_type c \<noteq> SessionEnsureCommandType"
    using assms by (auto simp: IsLifecycleCommand_def AgentStartCommandType_def AgentStopCommandType_def
        SessionEnsureCommandType_def)
  then have i: "interruptedCommandResult c = interruptedNodeResult (c_id c)"
    by (simp add: interruptedCommandResult_def)
  show "cr_payload (lifecycleOutcome c r) = None" "cr_workspace (lifecycleOutcome c r) = None"
    "cr_worktree (lifecycleOutcome c r) = None" "cr_control (lifecycleOutcome c r) = None"
    "cr_session (lifecycleOutcome c r) = None" "cr_unk (lifecycleOutcome c r) = []"
    "(cr_status (lifecycleOutcome c r), cr_detail (lifecycleOutcome c r)) =
       (if LifecycleComplete r c then (SUCCEEDED, if c_stop c \<noteq> None then ''agent_stopped'' else ''agent_started'')
        else if LifecycleHasUnknown r then (INDETERMINATE, ''lifecycle_uncertain'')
        else if LifecycleHasEffect r then (FAILED, ''lifecycle_partial'')
        else (REJECTED, ''node_restarted''))"
    by (simp_all add: lifecycleOutcome_def i interruptedNodeResult_def Let_def)
qed

lemma recovered_details:
  "ValidLifecycleDetail ''agent_started''" "ValidLifecycleDetail ''agent_stopped''"
  "ValidLifecycleDetail ''lifecycle_uncertain''" "ValidLifecycleDetail ''lifecycle_partial''"
  "ValidLifecycleDetail ''node_restarted''"
  by (simp_all add: ValidLifecycleDetail_def lifecycleDetails_def)

lemma lifecycleOutcome_valid:
  assumes "ValidateCommand P (Some c) node = Inr ()" and "IsLifecycleCommand (c_type c)"
    and "r \<noteq> None \<longrightarrow> ValidateLifecycleReceipt P r c = Inr ()"
  shows "ValidateResultForCommand P (Some (lifecycleOutcome c r)) c = Inr ()"
proof -
  note f = lifecycleOutcome_fields [OF assms(2), of r]
  note req = lifecycle_request [OF assms(1,2)]
  have rec: "(if r \<noteq> None then ValidateLifecycleReceipt P r c else Inr ()) = Inr ()" using assms(3) by simp
  have shape: "ValidateLifecycleResult P (Some (lifecycleOutcome c r)) c = Inr ()"
    if st: "cr_status (lifecycleOutcome c r) = st" "cr_detail (lifecycleOutcome c r) = d"
      and "ValidLifecycleDetail d" and "st = SUCCEEDED \<or> d \<noteq> ''agent_started'' \<and> d \<noteq> ''agent_stopped''"
      and "case st of
                 SUCCEEDED \<Rightarrow> LifecycleComplete r c \<and>
                   (c_start c \<noteq> None \<and> d = ''agent_started'' \<or> c_stop c \<noteq> None \<and> d = ''agent_stopped'')
               | INDETERMINATE \<Rightarrow> r = None \<or> LifecycleHasUnknown r \<or> d = ''persistence_failed'' \<or>
                   d \<in> set [''node_disconnected'', ''server_restarted'', ''deadline_expired'']
               | FAILED \<Rightarrow> LifecycleHasEffect r \<and> \<not> LifecycleHasUnknown r \<and> \<not> LifecycleComplete r c
               | TIMED_OUT \<Rightarrow> \<not> LifecycleHasEffect r \<and> d = ''deadline_expired''
               | REJECTED \<Rightarrow> \<not> LifecycleHasEffect r
               | _ \<Rightarrow> False" for st d
    using that unfolding ValidateLifecycleResult_def Let_def option.case f(1-6) lifecycleOutcome_id st rec by auto
  have "ValidateLifecycleResult P (Some (lifecycleOutcome c r)) c = Inr ()"
  proof (cases "LifecycleComplete r c")
    case True
    then show ?thesis using f(7) req
      by (intro shape [of SUCCEEDED "if c_stop c \<noteq> None then ''agent_stopped'' else ''agent_started''"])
        (auto simp: recovered_details)
  next
    case nc: False
    show ?thesis
    proof (cases "LifecycleHasUnknown r")
      case True
      then show ?thesis using f(7) nc
        by (intro shape [of INDETERMINATE "''lifecycle_uncertain''"]) (auto simp: recovered_details)
    next
      case nu: False
      show ?thesis
      proof (cases "LifecycleHasEffect r")
        case True
        then show ?thesis using f(7) nc nu
          by (intro shape [of FAILED "''lifecycle_partial''"]) (auto simp: recovered_details)
      next
        case False
        then show ?thesis using f(7) nc nu
          by (intro shape [of REJECTED "''node_restarted''"]) (auto simp: recovered_details)
      qed
    qed
  qed
  then show ?thesis using assms(2) by (simp add: ValidateResultForCommand_def lifecycleOutcome_id)
qed

lemma interruptedCommandResult_valid:
  assumes "ValidateCommand P (Some c) node = Inr ()" and "\<not> IsLifecycleCommand (c_type c)"
  shows "ValidateResultForCommand P (Some (interruptedCommandResult c)) c = Inr ()"
proof -
  have cid: "ValidCommandID (c_id c)" using ValidateCommand_parts(1) [OF assms(1)] .
  have body: "validateCommandBody (c_type c) (c_workspace c) (checkedWorktree c) (c_control c)
      (c_session c) (c_start c) (c_stop c) = Inr ()"
    using ValidateCommand_parts(7) [OF assms(1)] .
  then have "c_type c \<in> {SessionEnsureCommandType, ProbeCommandType, WorkspaceEnsureCommandType,
      WorktreeCreateCommandType, AgentControlCommandType}"
    using assms(2) by (auto simp: validateCommandBody_def IsLifecycleCommand_def split: if_splits)
  then show ?thesis
    using cid assms(2)
    by (auto simp: ValidateResultForCommand_def interruptedCommandResult_def interruptedNodeResult_def
        ValidateSessionEnsureResult_def ValidateProbeResult_def ValidateWorkspaceResult_def
        ValidateWorktreeResult_def ValidateAgentControlResult_def sessionResultMatches_def
        controlResultMatches_def workspaceResultMatches_def worktreeResultMatches_def command_types)
qed

lemma recoveredLifecycleResult_spec:
  assumes "recoveredLifecycleResult K db c = Inr v" and "ValidateCommand (k_pb K) (Some c) node = Inr ()"
    and "readLifecycle K db c = Inr r"
  shows "ValidateResultForCommand (k_pb K) (Some v) c = Inr () \<and> cr_lifecycle v = r"
proof (cases "IsLifecycleCommand (c_type c)")
  case True
  then have v: "v = lifecycleOutcome c r" using assms(1,3) by (simp add: recoveredLifecycleResult_def)
  show ?thesis
    using lifecycleOutcome_valid [OF assms(2) True] readLifecycle_receipt [of K db c] assms(3)
    by (cases r) (simp_all add: v lifecycleOutcome_id)
next
  case False
  then have v: "v = interruptedCommandResult c" using assms(1) by (simp add: recoveredLifecycleResult_def)
  have "cr_lifecycle v = None" by (simp add: v interruptedCommandResult_def interruptedNodeResult_def Let_def)
  then show ?thesis
    using interruptedCommandResult_valid [OF assms(2) False] readLifecycle_none [OF assms(3) False] v by simp
qed

section \<open>Statements on a well-formed journal\<close>

text \<open>The statements on the rows of \<open>node\_commands\<close> leave the other tables alone.\<close>

definition onlyRows :: "'b node_db \<Rightarrow> 'b node_db \<Rightarrow> bool" where
  "onlyRows db db' = (nd_lifecycle db' = nd_lifecycle db \<and> nd_scopes db' = nd_scopes db \<and>
     nd_projects db' = nd_projects db)"

lemma onlyRows_refl [simp]: "onlyRows db db"
  by (simp add: onlyRows_def)

lemma onlyRows_trans: "onlyRows a b \<Longrightarrow> onlyRows b c \<Longrightarrow> onlyRows a c"
  by (simp add: onlyRows_def)

lemma onlyRows_row [simp]: "onlyRows db (db\<lparr>nd_commands := t\<rparr>)"
  by (simp add: onlyRows_def)

lemma onlyRows_receipt: "onlyRows db db' \<Longrightarrow> readLifecycle K db' c = readLifecycle K db c"
  by (simp add: onlyRows_def readLifecycle_def)

lemma entryAt_receipt:
  assumes "nodeGood K H node db" and "entryAt K node db i = Some e"
  obtains r where "readLifecycle K db (ne_command e) = Inr r" "\<And>v. ne_result e = Some v \<Longrightarrow> cr_lifecycle v = r"
    "case tget (nd_scopes db) i of None \<Rightarrow> r = None | Some s \<Rightarrow> scopeAgrees H node (ne_command e) r s"
proof -
  obtain seen where "checkLifecycleData K H node db e = Inr seen" by (rule entryAt_check [OF assms])
  then have "is_ok (checkLifecycleData K H node db e)" by simp
  then show thesis using that unfolding checkLifecycleData_iff entryAt_command(2) [OF assms(2)] by blast
qed

lemma writeNodeResult_good:
  assumes good: "nodeGood K H node db" and e: "entryAt K node db i = Some e"
    and w: "writeNodeResult K (ne_command e) v db = Inr db'"
    and r: "readLifecycle K db (ne_command e) = Inr (cr_lifecycle v)"
  shows "nodeGood K H node db' \<and> entryAt K node db' = (entryAt K node db)(i \<mapsto> decided (ne_command e) v False) \<and>
    onlyRows db db'"
proof -
  obtain row where row: "tget (nd_commands db) i = Some row" "decodeEntry K node (i, row) = Inr e"
    using e by (rule entryAt_row)
  obtain payload where v: "ValidateResultForCommand (k_pb K) (Some v) (ne_command e) = Inr ()"
    and p: "marshalCommandMessage result_unknown (k_result K) v = Inr payload"
    using w by (auto simp: writeNodeResult_def bindR_eq_Inr)
  note c = decodeEntry_command [OF row(2)] and vid = ValidateResultForCommand_id [OF v]
  let ?row = "row\<lparr>nw_status := cr_status v, nw_result := Some payload, nw_delivered := 0\<rparr>"
  have db': "db' = db\<lparr>nd_commands := tput i ?row (nd_commands db)\<rparr>"
    using w v p row(1) c(3) vid by (auto simp: writeNodeResult_def Let_def split: if_splits)
  have eq: "?row = \<lparr>nw_status = cr_status v, nw_delivered = 0, nw_command = nw_command row, nw_result = Some payload\<rparr>"
    by simp
  have dec: "decodeEntry K node (i, ?row) = Inr (decided (ne_command e) v False)"
    unfolding eq using decodeEntry_result [OF _ p c(1,2) v, of 0] nodeGoodD(1) [OF good] c(3) by (simp add: codecs_ok_def)
  obtain r' where r': "readLifecycle K db (ne_command e) = Inr r'"
    "case tget (nd_scopes db) i of None \<Rightarrow> r' = None | Some s \<Rightarrow> scopeAgrees H node (ne_command e) r' s"
    using entryAt_receipt [OF good e] by metis
  have chk: "is_ok (checkLifecycleData K H node db (decided (ne_command e) v False))"
    unfolding checkLifecycleData_iff decided_simps using r r' c(3) by auto
  show ?thesis
    using nodeGood_row [OF good dec _ chk] row(1) unfolding db' by simp
qed

lemma insertNodeRow_good:
  assumes good: "nodeGood K H node db" and new: "entryAt K node db i = None"
    and dec: "decodeEntry K node (i, row) = Inr e" and "length (nd_commands db) < maxCommands"
    and ins: "insertNodeRow K i row db = Inr db'"
    and r: "\<And>v. ne_result e = Some v \<Longrightarrow> cr_lifecycle v = None"
  shows "nodeGood K H node db' \<and> entryAt K node db' = (entryAt K node db)(i \<mapsto> e) \<and> onlyRows db db'"
proof -
  have absent: "tget (nd_commands db) i = None" using new entryAt_iff [OF good] by simp
  have db': "db' = db\<lparr>nd_commands := tput i row (nd_commands db)\<rparr>"
    using ins by (simp add: insertNodeRow_def split: if_splits)
  have "is_ok (checkLifecycleData K H node db e)"
    unfolding checkLifecycleData_iff decodeEntry_command(3) [OF dec]
    using nodeGoodD(8,9) [OF good absent] r decodeEntry_command(3) [OF dec] by (simp add: readLifecycle_def)
  then show ?thesis using nodeGood_row [OF good dec] assms(4) unfolding db' by simp
qed

section \<open>How an operation may change an entry\<close>

definition entryStep :: "node_entry \<Rightarrow> node_entry \<Rightarrow> bool" where
  "entryStep e e' = (ne_command e' = ne_command e \<and>
     (ne_result e \<noteq> None \<longrightarrow> ne_result e' = ne_result e) \<and> (ne_delivered e \<longrightarrow> ne_delivered e'))"

lemma entryStep_refl [simp]: "entryStep e e"
  by (simp add: entryStep_def)

lemma entryStep_trans: "entryStep e f \<Longrightarrow> entryStep f g \<Longrightarrow> entryStep e g"
  by (auto simp: entryStep_def)

lemma entryStep_final:
  "entryStep e f \<Longrightarrow> ne_result e \<noteq> None \<Longrightarrow> ne_delivered e \<Longrightarrow> f = e"
  by (cases e; cases f) (auto simp: entryStep_def)

text \<open>
  One change of the journal: the invariant is kept, entries only progress, and a receipt advances only by
  the rules of the protocol and not at all once the result is recorded.
\<close>

definition receiptStep :: "pb \<Rightarrow> command \<Rightarrow> receipt option \<Rightarrow> receipt option \<Rightarrow> bool" where
  "receiptStep P c r r' = (r' = r \<or> r' \<noteq> None \<and> ValidateLifecycleAdvance P r r' c = Inr ())"

definition nodeChange :: "'b codecs \<Rightarrow> (string \<Rightarrow> string) \<Rightarrow> string \<Rightarrow> 'b node_db \<Rightarrow> 'b node_db \<Rightarrow> bool" where
  "nodeChange K H node db db' = (nodeGood K H node db' \<and>
     (\<forall>i e. entryAt K node db i = Some e \<longrightarrow> (\<exists>e'. entryAt K node db' i = Some e' \<and> entryStep e e')) \<and>
     (\<forall>i e r. entryAt K node db i = Some e \<longrightarrow> readLifecycle K db (ne_command e) = Inr r \<longrightarrow>
        (\<exists>r'. readLifecycle K db' (ne_command e) = Inr r' \<and> receiptStep (k_pb K) (ne_command e) r r')))"

lemma nodeChange_refl: "nodeGood K H node db \<Longrightarrow> nodeChange K H node db db"
  by (auto simp: nodeChange_def receiptStep_def)

lemma nodeChange_rows:
  assumes "nodeGood K H node db'" and "onlyRows db db'"
    and "entryAt K node db' = (entryAt K node db)(i \<mapsto> e')"
    and "\<And>e. entryAt K node db i = Some e \<Longrightarrow> entryStep e e'"
  shows "nodeChange K H node db db'"
  using assms onlyRows_receipt [OF assms(2)] by (auto simp: nodeChange_def receiptStep_def)

section \<open>The bodies of the operations\<close>

lemma validateCommand_Valid:
  "validateCommand P (Some c) node = Inr () \<Longrightarrow> ValidateCommand P (Some c) node = Inr ()"
  by (rule validateCommand_ValidateCommand)

lemma rejectedResult_simps [simp]:
  "cr_id (rejectedResult i d) = i" "cr_status (rejectedResult i d) = REJECTED"
  "cr_detail (rejectedResult i d) = d" "cr_lifecycle (rejectedResult i d) = None"
  by (simp_all add: rejectedResult_def)

text \<open>The two rejections the journal writes itself are valid results of the commands they reject.\<close>

lemma control_type:
  assumes "ValidateCommand P (Some c) node = Inr ()" and "c_start c \<noteq> None \<or> c_control c \<noteq> None"
  shows "c_type c = AgentControlCommandType \<or> IsLifecycleCommand (c_type c)"
proof -
  have "validateCommandBody (c_type c) (c_workspace c) (checkedWorktree c) (c_control c)
      (c_session c) (c_start c) (c_stop c) = Inr ()"
    using ValidateCommand_parts(7) [OF assms(1)] .
  then show ?thesis using assms(2) unfolding validateCommandBody_def
    by (auto simp: IsLifecycleCommand_def split: if_splits)
qed

lemma lifecycle_unresolved_valid:
  assumes "ValidateCommand P (Some c) node = Inr ()" and "c_start c \<noteq> None \<or> c_control c \<noteq> None"
  shows "ValidateResultForCommand P (Some (rejectedResult (c_id c) ''lifecycle_unresolved'')) c = Inr ()"
proof -
  have d: "ValidLifecycleDetail ''lifecycle_unresolved''" "''lifecycle_unresolved'' \<in> set controlRejections"
    by (simp_all add: ValidLifecycleDetail_def lifecycleDetails_def controlRejections_def)
  have i: "ValidCommandID (c_id c)" using ValidateCommand_parts(1) [OF assms(1)] .
  have n: "\<not> IsLifecycleCommand AgentControlCommandType" "AgentControlCommandType \<noteq> SessionEnsureCommandType"
    by (simp_all add: IsLifecycleCommand_def AgentControlCommandType_def SessionEnsureCommandType_def
        AgentStartCommandType_def AgentStopCommandType_def)
  from control_type [OF assms] show ?thesis
  proof
    assume "c_type c = AgentControlCommandType"
    then show ?thesis using d i n
      by (simp add: ValidateResultForCommand_def rejectedResult_def ValidateAgentControlResult_def
          controlResultMatches_def)
  next
    assume "IsLifecycleCommand (c_type c)"
    then show ?thesis using d
      by (simp add: ValidateResultForCommand_def rejectedResult_def ValidateLifecycleResult_def
          LifecycleHasEffect_def Let_def)
  qed
qed

lemma project_unresolved_valid:
  assumes "ValidateCommand P (Some c) node = Inr ()" and "fst (CommandProject c) \<noteq> ''''"
    and "\<not> IsLifecycleCommand (c_type c)"
  shows "ValidateResultForCommand P (Some (rejectedResult (c_id c) ''project_unresolved'')) c = Inr ()"
proof -
  have "c_type c = WorkspaceEnsureCommandType \<or> c_type c = WorktreeCreateCommandType"
    using assms(2,3) by (auto simp: CommandProject_def projectOf_def IsLifecycleCommand_def split: if_splits)
  moreover have "ValidCommandID (c_id c)" using ValidateCommand_parts(1) [OF assms(1)] .
  moreover have "''project_unresolved'' \<in> set workspaceRejections" by (simp add: workspaceRejections_def)
  ultimately show ?thesis using assms(3)
    by (auto simp: ValidateResultForCommand_def rejectedResult_def ValidateWorkspaceResult_def
        ValidateWorktreeResult_def workspaceResultMatches_def worktreeResultMatches_def command_types)
qed

lemma claimRejected_good:
  assumes good: "nodeGood K H node db" and new: "entryAt K node db (c_id c) = None"
    and "length (nd_commands db) < maxCommands" and c: "validateCommand (k_pb K) (Some c) node = Inr ()"
    and p: "marshalCommandMessage command_unknown (k_command K) c = Inr payload"
    and v: "ValidateResultForCommand (k_pb K) (Some (rejectedResult (c_id c) d)) c = Inr ()"
    and body: "claimRejected K c payload d db = Inr (x, db')"
  shows "x = (Some (rejectedResult (c_id c) d), False) \<and> nodeGood K H node db' \<and> onlyRows db db' \<and>
    entryAt K node db' = (entryAt K node db)(c_id c \<mapsto> decided c (rejectedResult (c_id c) d) False)"
proof -
  let ?v = "rejectedResult (c_id c) d"
  obtain b where b: "marshalCommandMessage result_unknown (k_result K) ?v = Inr b"
    and ins: "insertNodeRow K (c_id c) \<lparr>nw_status = cr_status ?v, nw_delivered = 0, nw_command = payload,
      nw_result = Some b\<rparr> db = Inr db'" and x: "x = (Some ?v, False)"
    using body by (auto simp: claimRejected_def Let_def bindR_eq_Inr)
  have K: "codec_ok (k_result K)" "codec_ok (k_command K)" using nodeGoodD(1) [OF good] by (simp_all add: codecs_ok_def)
  have "decodeEntry K node (c_id c, \<lparr>nw_status = cr_status ?v, nw_delivered = 0, nw_command = payload,
      nw_result = Some b\<rparr>) = Inr (decided c ?v False)"
    using decodeEntry_result [OF K(1) b marshalCommandMessage_decode [OF K(2) p] c v, of 0] by simp
  from insertNodeRow_good [OF good new this assms(3) ins] show ?thesis using x by simp
qed

lemma claimIntent_good:
  assumes good: "nodeGood K H node db" and new: "entryAt K node db (c_id c) = None"
    and "length (nd_commands db) < maxCommands" and c: "validateCommand (k_pb K) (Some c) node = Inr ()"
    and p: "marshalCommandMessage command_unknown (k_command K) c = Inr payload"
    and body: "claimIntent K c payload db = Inr (x, db')"
  shows "x = (None, True) \<and> nodeGood K H node db' \<and> onlyRows db db' \<and>
    entryAt K node db' = (entryAt K node db)(c_id c \<mapsto> undecided c)"
proof -
  have ins: "insertNodeRow K (c_id c) \<lparr>nw_status = RUNNING, nw_delivered = 0, nw_command = payload,
      nw_result = None\<rparr> db = Inr db'" and x: "x = (None, True)"
    using body by (auto simp: claimIntent_def bindR_eq_Inr)
  have K: "codec_ok (k_command K)" using nodeGoodD(1) [OF good] by (simp_all add: codecs_ok_def)
  from insertNodeRow_good [OF good new decodeEntry_running [OF K p c] assms(3) ins] show ?thesis using x by simp
qed

text \<open>
  Every branch of a claim: a known command is answered from its entry (an intent without a result is
  resolved first), a new one is granted or rejected, and nothing else changes.
\<close>

definition claimed :: "'b codecs \<Rightarrow> string \<Rightarrow> 'b node_db \<Rightarrow> command \<Rightarrow> command_result option \<times> bool \<Rightarrow> node_entry \<Rightarrow> bool" where
  "claimed K node db c x e' = (case entryAt K node db (c_id c) of
     None \<Rightarrow> x = (None, True) \<and> e' = undecided c \<or>
       (\<exists>d \<in> {''lifecycle_unresolved'', ''project_unresolved''}.
          x = (Some (rejectedResult (c_id c) d), False) \<and> e' = decided c (rejectedResult (c_id c) d) False)
   | Some e \<Rightarrow> matchingNodeCommand (ne_command e) c \<and> (case ne_result e of
       Some v \<Rightarrow> x = (Some v, False) \<and> e' = e
     | None \<Rightarrow> (\<exists>v. recoveredLifecycleResult K db (ne_command e) = Inr v \<and> x = (Some v, False) \<and>
         e' = decided (ne_command e) v False)))"

lemma matchingNodeCommand_id: "matchingNodeCommand a b \<Longrightarrow> c_id a = c_id b"
  by (subst (2) matchingNodeCommand_ttl) auto

lemma nodeFenceEntry_unresolved:
  "checkNodeLifecycleFence K node db c inc = Inl e \<Longrightarrow> c_start c \<noteq> None \<or> c_control c \<noteq> None"
  by (auto simp: checkNodeLifecycleFence_def split: if_splits)

lemma claimNew_good:
  assumes good: "nodeGood K H node db" and new: "entryAt K node db (c_id c) = None"
    and c: "validateCommand (k_pb K) (Some c) node = Inr ()" and body: "claimNew K node c db = Inr (x, db')"
  shows "\<exists>e'. nodeGood K H node db' \<and> onlyRows db db' \<and> claimed K node db c x e' \<and>
    entryAt K node db' = (entryAt K node db)(c_id c \<mapsto> e')"
proof -
  note V = validateCommand_Valid [OF c]
  have room: "length (nd_commands db) < maxCommands" using body by (simp add: claimNew_def split: if_splits)
  obtain payload where p: "marshalCommandMessage command_unknown (k_command K) c = Inr payload"
    using body by (auto simp: claimNew_def bindR_eq_Inr split: if_splits)
  have rest: "(case checkNodeLifecycleFence K node db c '''' of
          Inl e \<Rightarrow> if \<not> errors_is e ErrLifecycleUnresolved then Inl e
            else claimRejected K c payload ''lifecycle_unresolved'' db
        | Inr u \<Rightarrow>
            if fst (CommandProject c) \<noteq> '''' \<and> \<not> IsLifecycleCommand (c_type c)
            then bindR (readNodeEntries K node db (\<lambda>i row. unresolvedRow row)) (\<lambda>es.
              if list_ex (sameProject (fst (CommandProject c))) es
              then claimRejected K c payload ''project_unresolved'' db
              else claimIntent K c payload db)
            else claimIntent K c payload db) = Inr (x, db')"
    using body room p by (simp add: claimNew_def)
  consider (fenced) "c_start c \<noteq> None \<or> c_control c \<noteq> None"
      "claimRejected K c payload ''lifecycle_unresolved'' db = Inr (x, db')"
    | (project) "fst (CommandProject c) \<noteq> ''''" "\<not> IsLifecycleCommand (c_type c)"
      "claimRejected K c payload ''project_unresolved'' db = Inr (x, db')"
    | (granted) "claimIntent K c payload db = Inr (x, db')"
    using rest nodeFenceEntry_unresolved [of K node db c "''''"]
    by (auto simp: bindR_eq_Inr split: sum.splits if_splits)
  then show ?thesis
  proof cases
    case fenced
    note g = claimRejected_good [OF good new room c p lifecycle_unresolved_valid [OF V fenced(1)] fenced(2)]
    then have "claimed K node db c x (decided c (rejectedResult (c_id c) ''lifecycle_unresolved'') False)"
      using new by (simp add: claimed_def)
    then show ?thesis using g by blast
  next
    case project
    note g = claimRejected_good [OF good new room c p project_unresolved_valid [OF V project(1,2)] project(3)]
    then have "claimed K node db c x (decided c (rejectedResult (c_id c) ''project_unresolved'') False)"
      using new by (simp add: claimed_def)
    then show ?thesis using g by blast
  next
    case granted
    note g = claimIntent_good [OF good new room c p granted]
    then have "claimed K node db c x (undecided c)" using new by (simp add: claimed_def)
    then show ?thesis using g by blast
  qed
qed

lemma claimBody_good:
  assumes good: "nodeGood K H node db" and c: "validateCommand (k_pb K) (Some c) node = Inr ()"
    and body: "claimBody K node c db = Inr (x, db')"
  shows "\<exists>e'. nodeGood K H node db' \<and> onlyRows db db' \<and> claimed K node db c x e' \<and>
    entryAt K node db' = (entryAt K node db)(c_id c \<mapsto> e')"
proof (cases "entryAt K node db (c_id c)")
  case None
  then have "claimNew K node c db = Inr (x, db')"
    using body by (simp add: claimBody_def readNodeEntry_eq [OF good])
  then show ?thesis by (rule claimNew_good [OF good None c])
next
  case (Some e)
  have m: "matchingNodeCommand (ne_command e) c"
    using body Some by (simp add: claimBody_def readNodeEntry_eq [OF good] split: if_splits)
  show ?thesis
  proof (cases "ne_result e")
    case None
    then obtain v where v: "recoveredLifecycleResult K db (ne_command e) = Inr v"
      and w: "writeNodeResult K (ne_command e) v db = Inr db'" and x: "x = (Some v, False)"
      using body m Some by (auto simp: claimBody_def readNodeEntry_eq [OF good] bindR_eq_Inr recovered_matching [OF m])
    obtain r where r: "readLifecycle K db (ne_command e) = Inr r"
      using entryAt_receipt [OF good Some] by metis
    have "cr_lifecycle v = r"
      using recoveredLifecycleResult_spec [OF v validateCommand_Valid r] entryAt_command(1) [OF Some] by blast
    then have "nodeGood K H node db' \<and>
        entryAt K node db' = (entryAt K node db)(c_id c \<mapsto> decided (ne_command e) v False) \<and> onlyRows db db'"
      using writeNodeResult_good [OF good Some w] r by simp
    moreover have "claimed K node db c x (decided (ne_command e) v False)"
      using Some None m v x by (simp add: claimed_def)
    ultimately show ?thesis by blast
  next
    case (Some v)
    then have "x = (Some v, False)" "db' = db"
      using body m \<open>entryAt K node db (c_id c) = Some e\<close>
      by (auto simp: claimBody_def readNodeEntry_eq [OF good])
    moreover from this have "claimed K node db c x e"
      using Some m \<open>entryAt K node db (c_id c) = Some e\<close> by (simp add: claimed_def)
    ultimately show ?thesis
      using good \<open>entryAt K node db (c_id c) = Some e\<close> by (intro exI [of _ e]) (auto simp: fun_upd_idem)
  qed
qed

lemma completeBody_good:
  assumes good: "nodeGood K H node db" and body: "completeBody K node v db = Inr (u, db')"
  shows "\<exists>e. entryAt K node db (cr_id v) = Some e \<and> (ne_result e = None \<or> ne_result e = Some v) \<and>
    ValidateResultForCommand (k_pb K) (Some v) (ne_command e) = Inr () \<and>
    readLifecycle K db (ne_command e) = Inr (cr_lifecycle v) \<and> nodeGood K H node db' \<and> onlyRows db db' \<and>
    entryAt K node db' = (entryAt K node db)(cr_id v \<mapsto>
      (if ne_result e = None then decided (ne_command e) v False else e))"
proof -
  obtain e where e: "entryAt K node db (cr_id v) = Some e"
    using body by (auto simp: completeBody_def readNodeEntry_eq [OF good] bindR_eq_Inr split: option.splits)
  have b: "conflictOf (ValidateResultForCommand (k_pb K) (Some v) (ne_command e)) = Inr ()"
    "(if IsLifecycleCommand (c_type (ne_command e))
      then bindR (readLifecycle K db (ne_command e)) (\<lambda>old.
        if old \<noteq> cr_lifecycle v then Inl ErrCommandConflict else Inr ()) else Inr ()) = Inr ()"
    "(case ne_result e of Some w \<Rightarrow> if w \<noteq> v then Inl ErrCommandConflict else Inr ((), db)
      | None \<Rightarrow> bindR (writeNodeResult K (ne_command e) v db) (\<lambda>db'. Inr ((), db'))) = Inr (u, db')"
    using body e by (auto simp: completeBody_def readNodeEntry_eq [OF good] bindR_eq_Inr)
  have V: "ValidateResultForCommand (k_pb K) (Some v) (ne_command e) = Inr ()"
    using b(1) by (auto simp: conflictOf_def split: sum.splits)
  obtain r where r: "readLifecycle K db (ne_command e) = Inr r" using entryAt_receipt [OF good e] by metis
  have rl: "r = cr_lifecycle v"
  proof (cases "IsLifecycleCommand (c_type (ne_command e))")
    case True
    then show ?thesis using b(2) r by (simp split: if_splits)
  next
    case False
    then have "cr_lifecycle v = None" using V by (auto simp: ValidateResultForCommand_def split: if_splits)
    then show ?thesis using readLifecycle_none [OF r False] by simp
  qed
  show ?thesis
  proof (cases "ne_result e")
    case None
    then have "writeNodeResult K (ne_command e) v db = Inr db'" using b(3) by (auto simp: bindR_eq_Inr)
    then show ?thesis using writeNodeResult_good [OF good e] r rl e None V by simp
  next
    case (Some w)
    then have "w = v" "db' = db" using b(3) by (auto split: if_splits)
    then show ?thesis using good e Some V r rl by (auto simp: fun_upd_idem)
  qed
qed

lemma acknowledgeBody_good:
  assumes good: "nodeGood K H node db" and body: "acknowledgeBody K node i st db = Inr (u, db')"
  shows "\<exists>e v. entryAt K node db i = Some e \<and> ne_result e = Some v \<and> cr_status v = st \<and>
    nodeGood K H node db' \<and> onlyRows db db' \<and>
    entryAt K node db' = (entryAt K node db)(i \<mapsto> decided (ne_command e) v True)"
proof -
  obtain e where e: "entryAt K node db i = Some e"
    using body by (auto simp: acknowledgeBody_def readNodeEntry_eq [OF good] bindR_eq_Inr split: option.splits)
  obtain row where row: "tget (nd_commands db) i = Some row" "decodeEntry K node (i, row) = Inr e"
    using e by (rule entryAt_row)
  obtain v where v: "ne_result e = Some v" "cr_status v = st"
    using body e by (auto simp: acknowledgeBody_def readNodeEntry_eq [OF good] opt_all_def split: option.splits if_splits)
  show ?thesis
  proof (cases "ne_delivered e")
    case True
    then have "db' = db" using body e v by (simp add: acknowledgeBody_def readNodeEntry_eq [OF good])
    moreover have "decided (ne_command e) v True = e" using True v by (cases e) (simp add: decided_def)
    ultimately show ?thesis using good e v by (auto simp: fun_upd_idem)
  next
    case False
    have db': "db' = db\<lparr>nd_commands := tput i (row\<lparr>nw_delivered := 1\<rparr>) (nd_commands db)\<rparr>"
      using body e v row(1) False
      by (simp add: acknowledgeBody_def readNodeEntry_eq [OF good] Let_def split: if_splits)
    have dec: "decodeEntry K node (i, row\<lparr>nw_delivered := 1\<rparr>) = Inr (decided (ne_command e) v True)"
      using row(2) v(1)
      by (cases rule: decodeEntry_facts) (simp_all add: decodeEntry_def decodeResult_def decided_def)
    obtain r where r: "readLifecycle K db (ne_command e) = Inr r" "\<And>v. ne_result e = Some v \<Longrightarrow> cr_lifecycle v = r"
      "case tget (nd_scopes db) i of None \<Rightarrow> r = None | Some s \<Rightarrow> scopeAgrees H node (ne_command e) r s"
      using entryAt_receipt [OF good e] by metis
    have chk: "is_ok (checkLifecycleData K H node db (decided (ne_command e) v True))"
      unfolding checkLifecycleData_iff decided_simps
      using r v(1) entryAt_command(2) [OF e] by auto
    show ?thesis using nodeGood_row [OF good dec _ chk] row(1) e v unfolding db' by simp
  qed
qed

text \<open>What recovery makes of one entry.\<close>

definition recoveredEntry :: "'b codecs \<Rightarrow> 'b node_db \<Rightarrow> node_entry \<Rightarrow> node_entry" where
  "recoveredEntry K db e = (case ne_result e of
     Some v \<Rightarrow> e
   | None \<Rightarrow> (case recoveredLifecycleResult K db (ne_command e) of
       Inl x \<Rightarrow> e | Inr v \<Rightarrow> decided (ne_command e) v False))"

lemma recovered_rows: "onlyRows db db' \<Longrightarrow> recoveredLifecycleResult K db' c = recoveredLifecycleResult K db c"
  using onlyRows_receipt [of db db' K c] by (simp add: recoveredLifecycleResult_def)

lemma recoverLoop_good:
  assumes "nodeGood K H node db"
    and "\<And>e. e \<in> set es \<Longrightarrow> entryAt K node db (c_id (ne_command e)) = Some e \<and> ne_result e = None"
    and "distinct (map (c_id \<circ> ne_command) es)"
    and "recoverLoop K es db = Inr db'"
  shows "nodeGood K H node db' \<and> onlyRows db db' \<and>
    entryAt K node db' = (\<lambda>i. if i \<in> (c_id \<circ> ne_command) ` set es
      then map_option (recoveredEntry K db) (entryAt K node db i) else entryAt K node db i)"
  using assms
proof (induction es arbitrary: db)
  case (Cons e es)
  have e: "entryAt K node db (c_id (ne_command e)) = Some e" "ne_result e = None"
    using Cons.prems(2) [of e] by simp_all
  obtain v db1 where v: "recoveredLifecycleResult K db (ne_command e) = Inr v"
    and w: "writeNodeResult K (ne_command e) v db = Inr db1" and rest: "recoverLoop K es db1 = Inr db'"
    using Cons.prems(4) by (auto simp: bindR_eq_Inr)
  obtain r where r: "readLifecycle K db (ne_command e) = Inr r"
    using entryAt_receipt [OF Cons.prems(1) e(1)] by metis
  have "cr_lifecycle v = r"
    using recoveredLifecycleResult_spec [OF v validateCommand_Valid r] entryAt_command(1) [OF e(1)] by blast
  then have g: "nodeGood K H node db1" "onlyRows db db1"
      "entryAt K node db1 = (entryAt K node db)(c_id (ne_command e) \<mapsto> decided (ne_command e) v False)"
    using writeNodeResult_good [OF Cons.prems(1) e(1) w] r by simp_all
  have others: "entryAt K node db1 (c_id (ne_command f)) = Some f \<and> ne_result f = None" if f: "f \<in> set es" for f
  proof -
    have "c_id (ne_command f) \<noteq> c_id (ne_command e)"
      using Cons.prems(3) imageI [OF f, of "c_id \<circ> ne_command"] by auto
    then show ?thesis using Cons.prems(2) [of f] f g(3) by simp
  qed
  have IH: "nodeGood K H node db' \<and> onlyRows db1 db' \<and>
    entryAt K node db' = (\<lambda>i. if i \<in> (c_id \<circ> ne_command) ` set es
      then map_option (recoveredEntry K db1) (entryAt K node db1 i) else entryAt K node db1 i)"
    using Cons.IH [OF g(1) others _ rest] Cons.prems(3) by simp
  have re: "recoveredEntry K db1 = recoveredEntry K db"
    by (rule ext) (unfold recoveredEntry_def recovered_rows [OF g(2)], rule refl)
  have "recoveredEntry K db e = decided (ne_command e) v False" using v e(2) by (simp add: recoveredEntry_def)
  then have "entryAt K node db' = (\<lambda>i. if i \<in> (c_id \<circ> ne_command) ` set (e # es)
      then map_option (recoveredEntry K db) (entryAt K node db i) else entryAt K node db i)"
    using IH Cons.prems(3) g(3) e(1) unfolding re by (auto simp: fun_eq_iff)
  then show ?case using IH onlyRows_trans [OF g(2)] by blast
qed simp

text \<open>The rows the recovery selects are the entries without a result.\<close>

lemma running_entries:
  assumes good: "nodeGood K H node db"
    and es: "readNodeEntries K node db (\<lambda>i row. nw_status row = RUNNING) = Inr es"
  shows "e \<in> set es \<longleftrightarrow> entryAt K node db (c_id (ne_command e)) = Some e \<and> ne_result e = None"
    and "distinct (map (c_id \<circ> ne_command) es)"
proof -
  have st: "nw_status row = RUNNING \<longleftrightarrow> ne_result e = None"
    if "tget (nd_commands db) i = Some row" "entryAt K node db i = Some e" for i row e
  proof -
    have "decodeEntry K node (i, row) = Inr e"
      using that by (auto elim: entryAt_row)
    then show ?thesis by (cases rule: decodeEntry_facts) simp_all
  qed
  show "e \<in> set es \<longleftrightarrow> entryAt K node db (c_id (ne_command e)) = Some e \<and> ne_result e = None"
    unfolding readNodeEntries_mem [OF good es]
    using st entryAt_command(2) entryAt_row by (metis (no_types, lifting))
  have eq: "es = map (\<lambda>kr. the (entryAt K node db (fst kr))) (tselect (\<lambda>i row. nw_status row = RUNNING) (nd_commands db))"
    using es readNodeEntries_eq [OF good] by simp
  have ids: "c_id (ne_command (the (entryAt K node db (fst kr)))) = fst kr"
    if "kr \<in> set (tselect p (nd_commands db))" for kr p
  proof -
    obtain i row where kr: "kr = (i, row)" by (cases kr)
    then have "tget (nd_commands db) i = Some row"
      using that tget_mem [OF nodeGoodD(2) [OF good]] by (simp add: tselect_mem)
    then obtain f where "entryAt K node db i = Some f"
      using entryAt_iff [OF good, of i] by (cases "entryAt K node db i") auto
    then show ?thesis using entryAt_command(2) kr by fastforce
  qed
  have "map (c_id \<circ> ne_command) es = map fst (tselect (\<lambda>i row. nw_status row = RUNNING) (nd_commands db))"
    unfolding eq using ids by simp
  moreover have "distinct (map fst (tselect p (nd_commands db)))" for p
    using table_ok_distinct [OF nodeGoodD(2) [OF good]] by (simp add: tselect_def distinct_map_filter)
  ultimately show "distinct (map (c_id \<circ> ne_command) es)" by simp
qed

definition recoverBody :: "'b codecs \<Rightarrow> string \<Rightarrow> ('b node_db, unit) body" where
  "recoverBody K node db = bindR (readNodeEntries K node db (\<lambda>i row. nw_status row = RUNNING)) (\<lambda>es.
     bindR (recoverLoop K es db) (\<lambda>db'. Inr ((), db')))"

lemma Recover_body: "Recover E K node = operation E (Inr ()) (recoverBody K node)"
  unfolding Recover_def recoverBody_def ..

lemma recoverBody_good:
  assumes good: "nodeGood K H node db" and body: "recoverBody K node db = Inr (u, db')"
  shows "nodeGood K H node db' \<and> onlyRows db db' \<and>
    entryAt K node db' = (\<lambda>i. map_option (recoveredEntry K db) (entryAt K node db i))"
proof -
  obtain es where es: "readNodeEntries K node db (\<lambda>i row. nw_status row = RUNNING) = Inr es"
    and l: "recoverLoop K es db = Inr db'"
    using body by (auto simp: recoverBody_def bindR_eq_Inr)
  note r = running_entries [OF good es]
  have g: "nodeGood K H node db' \<and> onlyRows db db' \<and>
    entryAt K node db' = (\<lambda>i. if i \<in> (c_id \<circ> ne_command) ` set es
      then map_option (recoveredEntry K db) (entryAt K node db i) else entryAt K node db i)"
    by (rule recoverLoop_good [OF good _ r(2) l]) (use r(1) in blast)
  have "map_option (recoveredEntry K db) (entryAt K node db i) = entryAt K node db i"
    if "i \<notin> (c_id \<circ> ne_command) ` set es" for i
  proof (cases "entryAt K node db i")
    case (Some e)
    then have "ne_result e \<noteq> None" using that r(1) [of e] entryAt_command(2) [OF Some] by force
    then show ?thesis using Some by (auto simp: recoveredEntry_def)
  qed simp
  then show ?thesis using g by (auto simp: fun_eq_iff)
qed

section \<open>Native effects\<close>

lemma control_not_lifecycle:
  assumes "ValidateCommand P (Some c) node = Inr ()" and "c_control c \<noteq> None"
  shows "\<not> IsLifecycleCommand (c_type c)"
proof -
  have "validateCommandBody (c_type c) (c_workspace c) (checkedWorktree c) (c_control c)
      (c_session c) (c_start c) (c_stop c) = Inr ()"
    using ValidateCommand_parts(7) [OF assms(1)] .
  then show ?thesis using assms(2) unfolding validateCommandBody_def by (auto split: if_splits)
qed

lemma pinCommandScope_Inr:
  assumes "pinCommandScope H node c inc w t db = Inr db'"
  obtains wk tk where "ValidSessionIncarnation inc" "snd (CommandSession c) = '''' \<or> snd (CommandSession c) = inc"
    "optionalKey H node inc ''workspace'' w = Inr wk" "optionalKey H node inc ''terminal'' t = Inr tk"
    "\<And>old. tget (nd_scopes db) (c_id c) = Some old \<Longrightarrow> sw_incarnation old = inc \<and>
       sw_workspace old \<in> {'''', wk} \<and> sw_terminal old \<in> {'''', tk}"
    "db' = db\<lparr>nd_scopes := tput (c_id c) \<lparr>sw_incarnation = inc, sw_workspace = wk, sw_terminal = tk\<rparr> (nd_scopes db)\<rparr>"
proof -
  obtain wk tk where a: "ValidSessionIncarnation inc" "snd (CommandSession c) = '''' \<or> snd (CommandSession c) = inc"
    "optionalKey H node inc ''workspace'' w = Inr wk" "optionalKey H node inc ''terminal'' t = Inr tk"
    and old: "\<not> opt_ex (\<lambda>old. sw_incarnation old \<noteq> inc \<or>
               sw_workspace old \<noteq> '''' \<and> sw_workspace old \<noteq> wk \<or>
               sw_terminal old \<noteq> '''' \<and> sw_terminal old \<noteq> tk) (tget (nd_scopes db) (c_id c))"
    and put: "putScope (c_id c) \<lparr>sw_incarnation = inc, sw_workspace = wk, sw_terminal = tk\<rparr> db = Inr db'"
    using assms unfolding pinCommandScope_def by (auto simp: bindR_eq_Inr split: if_splits)
  have db': "db' = db\<lparr>nd_scopes := tput (c_id c) \<lparr>sw_incarnation = inc, sw_workspace = wk, sw_terminal = tk\<rparr> (nd_scopes db)\<rparr>"
    using put old by (auto simp: putScope_def Let_def split: option.splits if_splits)
  show thesis by (rule that [OF a _ db']) (use old in auto)
qed

lemma nodeGood_native:
  assumes good: "nodeGood K H node db" and e: "entryAt K node db i = Some e"
    and tables: "nd_commands db' = nd_commands db" "table_ok (nd_lifecycle db')" "table_ok (nd_scopes db')"
    and others: "\<And>j. j \<noteq> i \<Longrightarrow> tget (nd_lifecycle db') j = tget (nd_lifecycle db) j"
      "\<And>j. j \<noteq> i \<Longrightarrow> tget (nd_scopes db') j = tget (nd_scopes db) j"
    and chk: "is_ok (checkLifecycleData K H node db' e)"
  shows "nodeGood K H node db' \<and> entryAt K node db' = entryAt K node db"
proof -
  obtain row where row: "tget (nd_commands db) i = Some row" "decodeEntry K node (i, row) = Inr e"
    using e by (rule entryAt_row)
  have "nodeGood K H node db'"
    by (rule conjunct1 [OF nodeGood_change [OF good row(2) _ others _ _ tables(2,3) chk]])
      (use row(1) nodeGoodD(2,3) [OF good] in \<open>auto simp: tables(1)\<close>)
  then show ?thesis by (simp add: entryAt_def tables(1) fun_eq_iff)
qed

lemma nodeChange_native:
  assumes good: "nodeGood K H node db'" and same: "entryAt K node db' = entryAt K node db"
    and e: "entryAt K node db i = Some e" and old: "readLifecycle K db (ne_command e) = Inr r"
    and new: "readLifecycle K db' (ne_command e) = Inr r'" and step: "receiptStep (k_pb K) (ne_command e) r r'"
    and others: "\<And>j. j \<noteq> i \<Longrightarrow> tget (nd_lifecycle db') j = tget (nd_lifecycle db) j"
  shows "nodeChange K H node db db'"
proof -
  have "\<exists>r'. readLifecycle K db' (ne_command f) = Inr r' \<and> receiptStep (k_pb K) (ne_command f) q r'"
    if f: "entryAt K node db j = Some f" "readLifecycle K db (ne_command f) = Inr q" for j f q
  proof (cases "j = i")
    case True
    then show ?thesis using f e old new step by auto
  next
    case False
    have "readLifecycle K db' (ne_command f) = readLifecycle K db (ne_command f)"
      using others [OF False] entryAt_command(2) [OF f(1)] by (simp add: readLifecycle_def)
    then show ?thesis using f(2) by (simp add: receiptStep_def)
  qed
  then show ?thesis using good same by (auto simp: nodeChange_def)
qed

lemma pinBody_good:
  assumes good: "nodeGood K H node db" and body: "pinBody K H node i inc db = Inr (u, db')"
  shows "\<exists>e control s. entryAt K node db i = Some e \<and> ne_result e = None \<and> c_control (ne_command e) = Some control \<and>
    checkNodeLifecycleFence K node db (ne_command e) inc = Inr () \<and>
    tget (nd_scopes db') i = Some s \<and> sw_incarnation s = inc \<and>
    entryAt K node db' = entryAt K node db \<and> nodeChange K H node db db'"
proof -
  obtain e where e: "entryAt K node db i = Some e"
    using body by (auto simp: pinBody_def readNodeEntry_eq [OF good] bindR_eq_Inr split: option.splits)
  note V = validateCommand_Valid [OF entryAt_command(1) [OF e]] and ci = entryAt_command(2) [OF e]
  obtain control where c: "c_control (ne_command e) = Some control" "ne_result e = None"
    "checkNodeLifecycleFence K node db (ne_command e) inc = Inr ()"
    and pin: "pinCommandScope H node (ne_command e) inc '''' (getter at_terminal (ag_target control)) db = Inr db'"
    using body e by (auto simp: pinBody_def readNodeEntry_eq [OF good] bindR_eq_Inr split: option.splits if_splits)
  obtain wk tk where k: "ValidSessionIncarnation inc"
    "snd (CommandSession (ne_command e)) = '''' \<or> snd (CommandSession (ne_command e)) = inc"
    "optionalKey H node inc ''workspace'' '''' = Inr wk"
    "optionalKey H node inc ''terminal'' (getter at_terminal (ag_target control)) = Inr tk"
    and db': "db' = db\<lparr>nd_scopes := tput (c_id (ne_command e))
      \<lparr>sw_incarnation = inc, sw_workspace = wk, sw_terminal = tk\<rparr> (nd_scopes db)\<rparr>"
    using pin by (rule pinCommandScope_Inr)
  obtain r where r: "readLifecycle K db (ne_command e) = Inr r" using entryAt_receipt [OF good e] by metis
  have none: "r = None" using readLifecycle_none [OF r] control_not_lifecycle [OF V] c(1) by simp
  have r': "readLifecycle K db' (ne_command e) = Inr None" using r none by (simp add: db' readLifecycle_def)
  have "scopeAgrees H node (ne_command e) None \<lparr>sw_incarnation = inc, sw_workspace = wk, sw_terminal = tk\<rparr>"
    using k c(1) by (simp add: scopeAgrees_def scopeSource_def)
  then have chk: "is_ok (checkLifecycleData K H node db' e)"
    unfolding checkLifecycleData_iff using r' c(2) by (simp add: db' tget_tput)
  have g: "nodeGood K H node db' \<and> entryAt K node db' = entryAt K node db"
    by (rule nodeGood_native [OF good e _ _ _ _ _ chk])
      (use nodeGoodD(4,5) [OF good] ci in \<open>simp_all add: db' table_ok_tput tget_tput\<close>)
  have "nodeChange K H node db db'"
    by (rule nodeChange_native [OF _ _ e r r']) (use g none ci in \<open>simp_all add: receiptStep_def db'\<close>)
  then show ?thesis using e c g ci by (auto simp: db' tget_tput)
qed

lemma saveLifecycleBody_good:
  assumes good: "nodeGood K H node db" and body: "saveLifecycleBody K H node i receipt db = Inr (u, db')"
  shows "\<exists>e r old. receipt = Some r \<and> entryAt K node db i = Some e \<and> ne_result e = None \<and>
    readLifecycle K db (ne_command e) = Inr old \<and> readLifecycle K db' (ne_command e) = Inr (Some r) \<and>
    ValidateLifecycleAdvance (k_pb K) old (Some r) (ne_command e) = Inr () \<and>
    checkNodeLifecycleFence K node db (ne_command e)
      (getter at_incarnation (Option.bind (lr_handle r) lh_target)) = Inr () \<and>
    entryAt K node db' = entryAt K node db \<and> nodeChange K H node db db'"
proof -
  obtain e where e: "entryAt K node db i = Some e"
    using body by (auto simp: saveLifecycleBody_def readNodeEntry_eq [OF good] bindR_eq_Inr split: option.splits)
  note ci = entryAt_command(2) [OF e]
  obtain old where nr: "ne_result e = None" and old: "readLifecycle K db (ne_command e) = Inr old"
    and adv: "ValidateLifecycleAdvance (k_pb K) old receipt (ne_command e) = Inr ()"
    using body e by (auto simp: saveLifecycleBody_def readNodeEntry_eq [OF good] bindR_eq_Inr split: if_splits)
  have V: "ValidateLifecycleReceipt (k_pb K) receipt (ne_command e) = Inr ()"
    using adv by (auto simp: ValidateLifecycleAdvance_def bindR_eq_Inr)
  then obtain r where rr: "receipt = Some r" by (cases receipt) (simp_all add: ValidateLifecycleReceipt_def)
  let ?t = "Option.bind (lr_handle r) lh_target" let ?inc = "getter at_incarnation ?t"
  obtain db1 payload where fence: "checkNodeLifecycleFence K node db (ne_command e) ?inc = Inr ()"
    and pin: "pinCommandScope H node (ne_command e) ?inc (getter lh_workspace (lr_handle r)) (getter at_terminal ?t) db = Inr db1"
    and pay: "marshalCommandMessage receipt_unknown (k_receipt K) r = Inr payload"
    and put: "putLifecycle K i r payload db1 = Inr db'"
    using body e nr old adv by (auto simp: saveLifecycleBody_def readNodeEntry_eq [OF good] bindR_eq_Inr rr Let_def)
  obtain wk tk where k: "ValidSessionIncarnation ?inc"
    "snd (CommandSession (ne_command e)) = '''' \<or> snd (CommandSession (ne_command e)) = ?inc"
    "optionalKey H node ?inc ''workspace'' (getter lh_workspace (lr_handle r)) = Inr wk"
    "optionalKey H node ?inc ''terminal'' (getter at_terminal ?t) = Inr tk"
    and db1: "db1 = db\<lparr>nd_scopes := tput (c_id (ne_command e))
      \<lparr>sw_incarnation = ?inc, sw_workspace = wk, sw_terminal = tk\<rparr> (nd_scopes db)\<rparr>"
    using pin by (rule pinCommandScope_Inr)
  have db': "db' = db1\<lparr>nd_lifecycle := tput i \<lparr>lw_sequence = lr_sequence r, lw_receipt = payload\<rparr> (nd_lifecycle db1)\<rparr>"
    using put by (simp add: putLifecycle_def split: if_splits)
  have dec: "decodeCommandMessage receipt_unknown (k_receipt K) payload = Inr r"
    using marshalCommandMessage_decode [OF _ pay] nodeGoodD(1) [OF good] by (simp add: codecs_ok_def)
  have r': "readLifecycle K db' (ne_command e) = Inr (Some r)"
    using dec V by (simp add: readLifecycle_def db' tget_tput ci rr)
  have "scopeAgrees H node (ne_command e) (Some r) \<lparr>sw_incarnation = ?inc, sw_workspace = wk, sw_terminal = tk\<rparr>"
    using k by (simp add: scopeAgrees_def scopeSource_def Let_def)
  then have chk: "is_ok (checkLifecycleData K H node db' e)"
    unfolding checkLifecycleData_iff using r' nr by (simp add: db' db1 tget_tput)
  have g: "nodeGood K H node db' \<and> entryAt K node db' = entryAt K node db"
    by (rule nodeGood_native [OF good e _ _ _ _ _ chk])
      (use nodeGoodD(4,5) [OF good] ci in \<open>simp_all add: db' db1 table_ok_tput tget_tput\<close>)
  have "nodeChange K H node db db'"
    by (rule nodeChange_native [OF _ _ e old r'])
      (use g adv ci in \<open>simp_all add: receiptStep_def db' db1 rr tget_tput\<close>)
  then show ?thesis using rr e nr old r' adv fence g by auto
qed

end
