(* ===== verification/NodeProjects.thy ===== *)
theory NodeProjects
  imports ProjectStore
begin

text \<open>
  The node's project journal (node\_projects.go of the state package): the last desired configuration of
  each project, the latest outcome of validating it, and the last outcome that was applied.
\<close>

section \<open>Entries\<close>

record node_project =
  npr_config :: project_config
  npr_ack :: "project_ack option"
  npr_applied :: "project_ack option"

text \<open>One row of \<open>readNodeProjects\<close>; the checks are in the order of the code.\<close>

definition decodeNodeAck :: "'b codecs \<Rightarrow> 'b option \<Rightarrow> project_ack option res" where
  "decodeNodeAck K b = (case b of
     None \<Rightarrow> Inr None
   | Some b \<Rightarrow> bindR (decodeProject ack_unknown (k_ack K) b) (\<lambda>a.
       bindR (validateProjectAck (Some a)) (\<lambda>_. Inr (Some a))))"

definition checkNodeAck :: "string \<Rightarrow> project_config \<Rightarrow> project_ack option \<Rightarrow> unit res" where
  "checkNodeAck pid config ack =
     (if opt_ex (\<lambda>a. pa_project a \<noteq> pid \<or> pa_generation a > pc_generation config) ack
      then Inl (Msg ''stored node project acknowledgement revision mismatch'') else Inr ())"

definition checkNodeApplied :: "string \<Rightarrow> project_ack option \<Rightarrow> project_ack option \<Rightarrow> unit res" where
  "checkNodeApplied pid ack applied =
     (if opt_ex (\<lambda>a. pa_status a \<noteq> ''applied'' \<or> pa_project a \<noteq> pid \<or>
          opt_all (\<lambda>b. pa_generation a > pa_generation b) ack) applied
      then Inl (Msg ''stored project ownership acknowledgement is invalid'') else Inr ())"

definition decodeNodeProject :: "'b codecs \<Rightarrow> string \<Rightarrow> string \<times> 'b node_project_row \<Rightarrow> node_project res" where
  "decodeNodeProject K node kr = (case kr of (pid, row) \<Rightarrow>
     bindR (decodeProject config_unknown (k_config K) (np_config row)) (\<lambda>config.
       bindR (validateProjectConfig (Some config)) (\<lambda>_.
         if pid \<noteq> pc_project config \<or> node \<noteq> pc_node config
         then Inl (Msg ''stored node project identity mismatch'')
         else bindR (decodeNodeAck K (np_ack row)) (\<lambda>ack.
           bindR (checkNodeAck pid config ack) (\<lambda>_.
             bindR (decodeNodeAck K (np_applied row)) (\<lambda>applied.
               bindR (checkNodeApplied pid ack applied) (\<lambda>_.
                 if opt_ex (\<lambda>a. pa_status a = ''applied'') ack \<and> applied \<noteq> ack
                 then Inl (Msg ''stored project ownership acknowledgement disagrees with latest outcome'')
                 else Inr \<lparr>npr_config = config, npr_ack = ack, npr_applied = applied\<rparr>)))))))"

definition readNodeProjects :: "'b codecs \<Rightarrow> string \<Rightarrow> 'b node_db \<Rightarrow> node_project list res" where
  "readNodeProjects K node db =
     (if maxProjectsPerNode < length (nd_projects db)
      then Inl (Msg ''stored node project count exceeds limit'')
      else collect (decodeNodeProject K node) (nd_projects db))"

definition projectEntry :: "string \<Rightarrow> node_project list \<Rightarrow> node_project option" where
  "projectEntry pid es = find (\<lambda>e. pc_project (npr_config e) = pid) es"

section \<open>Operations\<close>

text \<open>\<open>INSERT \<dots> ON CONFLICT DO UPDATE SET config\<close>: the acknowledgements of a known project stay.\<close>

definition putConfig :: "'b codecs \<Rightarrow> string \<Rightarrow> 'b \<Rightarrow> 'b node_db \<Rightarrow> 'b node_db res" where
  "putConfig K pid payload db =
     (if \<not> projectBlobOk (k_config K) payload then Inl sqliteCheck
      else let row = (case tget (nd_projects db) pid of
             None \<Rightarrow> \<lparr>np_config = payload, np_ack = None, np_applied = None\<rparr>
           | Some row \<Rightarrow> row\<lparr>np_config := payload\<rparr>)
           in Inr (db\<lparr>nd_projects := tput pid row (nd_projects db)\<rparr>))"

definition saveConfigBody :: "'b codecs \<Rightarrow> string \<Rightarrow> project_config \<Rightarrow> ('b node_db, unit) body" where
  "saveConfigBody K node config db =
     bindR (readNodeProjects K node db) (\<lambda>es. case projectEntry (pc_project config) es of
         Some e \<Rightarrow>
           if pc_generation config < pc_generation (npr_config e) \<or>
              pc_generation config = pc_generation (npr_config e) \<and> config \<noteq> npr_config e
           then Inl ErrProjectConflict
           else if pc_generation config = pc_generation (npr_config e) then Inr ((), db)
           else bindR (marshalProject config_unknown (k_config K) config) (\<lambda>payload.
             bindR (putConfig K (pc_project config) payload db) (\<lambda>db'. Inr ((), db')))
       | None \<Rightarrow>
           if maxProjectsPerNode \<le> length es then Inl ErrProjectCapacity
           else bindR (marshalProject config_unknown (k_config K) config) (\<lambda>payload.
             bindR (putConfig K (pc_project config) payload db) (\<lambda>db'. Inr ((), db'))))"

definition SaveProjectConfig ::
  "tx_env \<Rightarrow> 'b codecs \<Rightarrow> string \<Rightarrow> project_config option \<Rightarrow> 'b node_db \<Rightarrow> unit res \<times> 'b node_db" where
  "SaveProjectConfig E K node config = operation E
     (bindR (validateProjectConfig config) (\<lambda>_.
        if opt_ex (\<lambda>c. pc_node c \<noteq> node) config then Inl ErrProjectConflict else Inr ()))
     (\<lambda>db. case config of
        None \<Rightarrow> Inl (Msg ''invalid project configuration'')
      | Some c \<Rightarrow> saveConfigBody K node c db)"

definition putAck :: "'b codecs \<Rightarrow> project_ack \<Rightarrow> 'b \<Rightarrow> 'b node_db \<Rightarrow> 'b node_db res" where
  "putAck K ack payload db = (case tget (nd_projects db) (pa_project ack) of
     None \<Rightarrow> Inr db
   | Some row \<Rightarrow>
       if \<not> projectBlobOk (k_ack K) payload then Inl sqliteCheck
       else let row = row\<lparr>np_ack := Some payload,
              np_applied := (if pa_status ack = ''applied'' then Some payload else np_applied row)\<rparr>
            in Inr (db\<lparr>nd_projects := tput (pa_project ack) row (nd_projects db)\<rparr>))"

definition saveAckBody :: "'b codecs \<Rightarrow> string \<Rightarrow> project_ack \<Rightarrow> ('b node_db, unit) body" where
  "saveAckBody K node ack db =
     bindR (readNodeProjects K node db) (\<lambda>es. case projectEntry (pa_project ack) es of
         None \<Rightarrow> Inl ErrProjectNotFound
       | Some e \<Rightarrow>
           if pa_generation ack \<noteq> pc_generation (npr_config e) \<or> projectAckConflict (npr_ack e) ack
           then Inl ErrProjectConflict
           else bindR (marshalProject ack_unknown (k_ack K) ack) (\<lambda>payload.
             bindR (putAck K ack payload db) (\<lambda>db'. Inr ((), db'))))"

definition SaveProjectAck ::
  "tx_env \<Rightarrow> 'b codecs \<Rightarrow> string \<Rightarrow> project_ack option \<Rightarrow> 'b node_db \<Rightarrow> unit res \<times> 'b node_db" where
  "SaveProjectAck E K node ack = operation E (validateProjectAck ack)
     (\<lambda>db. case ack of
        None \<Rightarrow> Inl (Msg ''invalid project acknowledgement'')
      | Some a \<Rightarrow> saveAckBody K node a db)"

definition projectEntries ::
  "tx_env \<Rightarrow> 'b codecs \<Rightarrow> string \<Rightarrow> 'b node_db \<Rightarrow> node_project list res \<times> 'b node_db" where
  "projectEntries E K node = operation E (Inr ())
     (\<lambda>db. bindR (readNodeProjects K node db) (\<lambda>es. Inr (es, db)))"

definition ProjectConfigs ::
  "tx_env \<Rightarrow> 'b codecs \<Rightarrow> string \<Rightarrow> 'b node_db \<Rightarrow> project_config list res \<times> 'b node_db" where
  "ProjectConfigs E K node db = (case projectEntries E K node db of
     (r, db') \<Rightarrow> (bindR r (\<lambda>es. Inr (map npr_config es)), db'))"

definition ProjectAcks ::
  "tx_env \<Rightarrow> 'b codecs \<Rightarrow> string \<Rightarrow> 'b node_db \<Rightarrow> project_ack list res \<times> 'b node_db" where
  "ProjectAcks E K node db = (case projectEntries E K node db of
     (r, db') \<Rightarrow> (bindR r (\<lambda>es. Inr (List.map_filter npr_ack es)), db'))"

definition ProjectAppliedAcks ::
  "tx_env \<Rightarrow> 'b codecs \<Rightarrow> string \<Rightarrow> 'b node_db \<Rightarrow> project_ack list res \<times> 'b node_db" where
  "ProjectAppliedAcks E K node db = (case projectEntries E K node db of
     (r, db') \<Rightarrow> (bindR r (\<lambda>es. Inr (List.map_filter npr_applied es)), db'))"

section \<open>The invariant\<close>

definition ownProjectAt :: "'b codecs \<Rightarrow> string \<Rightarrow> 'b node_db \<Rightarrow> string \<Rightarrow> node_project option" where
  "ownProjectAt K node db pid = (case tget (nd_projects db) pid of
     None \<Rightarrow> None
   | Some row \<Rightarrow> (case decodeNodeProject K node (pid, row) of Inl e \<Rightarrow> None | Inr p \<Rightarrow> Some p))"

definition ownProjects_ok :: "'b codecs \<Rightarrow> string \<Rightarrow> 'b node_db \<Rightarrow> bool" where
  "ownProjects_ok K node db = (codecs_ok K \<and> table_ok (nd_projects db) \<and> length (nd_projects db) \<le> maxProjectsPerNode \<and>
     (\<forall>pid row. tget (nd_projects db) pid = Some row \<longrightarrow> (\<exists>p. decodeNodeProject K node (pid, row) = Inr p)))"

lemma ownProjects_okD:
  assumes "ownProjects_ok K node db"
  shows "codecs_ok K" "table_ok (nd_projects db)" "length (nd_projects db) \<le> maxProjectsPerNode"
    "tget (nd_projects db) pid = Some row \<Longrightarrow> \<exists>p. decodeNodeProject K node (pid, row) = Inr p"
  using assms unfolding ownProjects_ok_def by blast+

text \<open>What a stored project says: an acknowledgement is never newer than the configuration it answers.\<close>

definition project_wf :: "string \<Rightarrow> string \<Rightarrow> node_project \<Rightarrow> bool" where
  "project_wf node pid p = (pc_project (npr_config p) = pid \<and> pc_node (npr_config p) = node \<and>
     validateProjectConfig (Some (npr_config p)) = Inr () \<and>
     opt_all (\<lambda>a. pa_project a = pid \<and> pa_generation a \<le> pc_generation (npr_config p) \<and>
       validateProjectAck (Some a) = Inr ()) (npr_ack p) \<and>
     opt_all (\<lambda>a. pa_project a = pid \<and> pa_status a = ''applied'' \<and> validateProjectAck (Some a) = Inr () \<and>
       opt_ex (\<lambda>b. pa_generation a \<le> pa_generation b) (npr_ack p)) (npr_applied p) \<and>
     (opt_ex (\<lambda>a. pa_status a = ''applied'') (npr_ack p) \<longrightarrow> npr_applied p = npr_ack p))"

lemma decodeNodeAck_Some:
  "decodeNodeAck K b = Inr (Some a) \<Longrightarrow> validateProjectAck (Some a) = Inr ()"
  by (auto simp: decodeNodeAck_def bindR_eq_Inr split: option.splits)

lemma decodeNodeProject_wf:
  assumes "decodeNodeProject K node (pid, row) = Inr p"
  shows "project_wf node pid p"
  using assms decodeNodeAck_Some [of K "np_ack row"] decodeNodeAck_Some [of K "np_applied row"]
  unfolding decodeNodeProject_def project_wf_def
  by (cases "npr_ack p"; cases "npr_applied p")
    (auto simp: bindR_eq_Inr checkNodeAck_def checkNodeApplied_def not_less split: if_splits)

lemma decodeNodeProject_intro:
  assumes "decodeProject config_unknown (k_config K) (np_config row) = Inr (npr_config p)"
    and "decodeNodeAck K (np_ack row) = Inr (npr_ack p)" and "decodeNodeAck K (np_applied row) = Inr (npr_applied p)"
    and "project_wf node pid p"
  shows "decodeNodeProject K node (pid, row) = Inr p"
proof -
  have "checkNodeAck pid (npr_config p) (npr_ack p) = Inr ()"
    using assms(4) by (cases "npr_ack p") (auto simp: checkNodeAck_def project_wf_def)
  moreover have "checkNodeApplied pid (npr_ack p) (npr_applied p) = Inr ()"
    using assms(4) by (cases "npr_ack p"; cases "npr_applied p") (auto simp: checkNodeApplied_def project_wf_def)
  ultimately show ?thesis
    using assms unfolding decodeNodeProject_def project_wf_def
    by (cases "npr_ack p") auto
qed

lemma decodeNodeProject_parts:
  assumes "decodeNodeProject K node (pid, row) = Inr p"
  shows "decodeProject config_unknown (k_config K) (np_config row) = Inr (npr_config p)"
    "decodeNodeAck K (np_ack row) = Inr (npr_ack p)" "decodeNodeAck K (np_applied row) = Inr (npr_applied p)"
  using assms unfolding decodeNodeProject_def by (auto simp: bindR_eq_Inr split: if_splits)

lemma ownProjectAt_row:
  assumes "ownProjectAt K node db pid = Some p"
  obtains row where "tget (nd_projects db) pid = Some row" "decodeNodeProject K node (pid, row) = Inr p"
  using assms by (auto simp: ownProjectAt_def split: option.splits sum.splits)

lemma ownProjectAt_wf: "ownProjectAt K node db pid = Some p \<Longrightarrow> project_wf node pid p"
  by (auto elim!: ownProjectAt_row dest: decodeNodeProject_wf)

lemma ownProjectAt_None: "ownProjects_ok K node db \<Longrightarrow> ownProjectAt K node db pid = None \<longleftrightarrow> tget (nd_projects db) pid = None"
  using ownProjects_okD(4) by (fastforce simp: ownProjectAt_def split: option.splits sum.splits)

lemma readNodeProjects_eq:
  assumes "ownProjects_ok K node db"
  shows "readNodeProjects K node db = Inr (map (\<lambda>kr. the (ownProjectAt K node db (fst kr))) (nd_projects db))"
proof -
  note ok = ownProjects_okD [OF assms]
  have "collect (decodeNodeProject K node) (nd_projects db) =
      Inr (map (\<lambda>kr. the (ownProjectAt K node db (fst kr))) (nd_projects db))"
  proof (rule collect_map)
    fix kr assume kr: "kr \<in> set (nd_projects db)"
    obtain i row where e: "kr = (i, row)" by (cases kr)
    have g: "tget (nd_projects db) i = Some row" using kr tget_mem [OF ok(2)] unfolding e by blast
    then obtain p where "decodeNodeProject K node (i, row) = Inr p" using ok(4) by blast
    then show "decodeNodeProject K node kr = Inr (the (ownProjectAt K node db (fst kr)))"
      using g by (simp add: e ownProjectAt_def)
  qed
  then show ?thesis using ok(3) by (simp add: readNodeProjects_def)
qed

lemma projectEntry_eq:
  assumes ok: "ownProjects_ok K node db" and es: "readNodeProjects K node db = Inr es"
  shows "projectEntry pid es = ownProjectAt K node db pid" and "length es = length (nd_projects db)"
proof -
  have eq: "es = map (\<lambda>kr. the (ownProjectAt K node db (fst kr))) (nd_projects db)"
    using es readNodeProjects_eq [OF ok] by simp
  then show "length es = length (nd_projects db)" by simp
  have mem: "e \<in> set es \<longleftrightarrow> (\<exists>i. ownProjectAt K node db i = Some e)" for e
  proof
    assume "e \<in> set es"
    then obtain i row where ir: "(i, row) \<in> set (nd_projects db)" "e = the (ownProjectAt K node db i)"
      unfolding eq by auto
    then have "tget (nd_projects db) i = Some row" using tget_mem [OF ownProjects_okD(2) [OF ok]] by blast
    then have "ownProjectAt K node db i \<noteq> None" using ownProjectAt_None [OF ok] by simp
    then show "\<exists>i. ownProjectAt K node db i = Some e" using ir(2) by auto
  next
    assume "\<exists>i. ownProjectAt K node db i = Some e"
    then obtain i where i: "ownProjectAt K node db i = Some e" by blast
    then obtain row where "tget (nd_projects db) i = Some row" by (rule ownProjectAt_row)
    with i show "e \<in> set es" unfolding eq using tget_Some_mem [of "nd_projects db" i row] by force
  qed
  have ids: "pc_project (npr_config e) = i" if "ownProjectAt K node db i = Some e" for i e
    using ownProjectAt_wf [OF that] by (simp add: project_wf_def)
  show "projectEntry pid es = ownProjectAt K node db pid"
  proof (cases "projectEntry pid es")
    case None
    then show ?thesis using mem ids
      by (cases "ownProjectAt K node db pid") (auto simp: projectEntry_def find_None_iff)
  next
    case (Some e)
    then have "e \<in> set es" "pc_project (npr_config e) = pid"
      by (auto simp: projectEntry_def find_Some_iff)
    then show ?thesis using mem ids Some by auto
  qed
qed

section \<open>What the operations do\<close>

definition ownProjectStep :: "node_project \<Rightarrow> node_project \<Rightarrow> bool" where
  "ownProjectStep p q = (pc_generation (npr_config p) \<le> pc_generation (npr_config q) \<and>
     (pc_generation (npr_config p) = pc_generation (npr_config q) \<longrightarrow> npr_config q = npr_config p) \<and>
     opt_all (\<lambda>a. opt_ex (\<lambda>b. pa_generation a \<le> pa_generation b) (npr_ack q)) (npr_ack p) \<and>
     opt_all (\<lambda>a. opt_ex (\<lambda>b. pa_generation a \<le> pa_generation b) (npr_applied q)) (npr_applied p))"

lemma ownProjectStep_refl [simp]: "ownProjectStep p p"
  by (cases "npr_ack p"; cases "npr_applied p") (simp_all add: ownProjectStep_def)

lemma opt_le_trans:
  "opt_all (\<lambda>a. opt_ex (\<lambda>b. f a \<le> (f b :: 'g :: order)) y) x \<Longrightarrow> opt_all (\<lambda>a. opt_ex (\<lambda>b. f a \<le> f b) z) y \<Longrightarrow>
     opt_all (\<lambda>a. opt_ex (\<lambda>b. f a \<le> f b) z) x"
  by (cases x; cases y; cases z) auto

lemma ownProjectStep_trans: "ownProjectStep p q \<Longrightarrow> ownProjectStep q r \<Longrightarrow> ownProjectStep p r"
  unfolding ownProjectStep_def
  by (elim conjE, intro conjI impI)
    (blast intro: order_trans, metis order_antisym, (rule opt_le_trans, assumption+)+)

text \<open>The statements touch only the row of one project.\<close>

definition onlyProjects :: "'b node_db \<Rightarrow> 'b node_db \<Rightarrow> bool" where
  "onlyProjects db db' = (nd_commands db' = nd_commands db \<and> nd_lifecycle db' = nd_lifecycle db \<and>
     nd_scopes db' = nd_scopes db)"

lemma putProject_ok:
  assumes ok: "ownProjects_ok K node db" and dec: "decodeNodeProject K node (pid, row) = Inr p"
    and room: "tget (nd_projects db) pid \<noteq> None \<or> length (nd_projects db) < maxProjectsPerNode"
    and db': "db' = db\<lparr>nd_projects := tput pid row (nd_projects db)\<rparr>"
  shows "ownProjects_ok K node db' \<and> onlyProjects db db' \<and>
    ownProjectAt K node db' = (ownProjectAt K node db)(pid \<mapsto> p)"
proof -
  note d = ownProjects_okD [OF ok]
  have "\<exists>q. decodeNodeProject K node (i, r) = Inr q" if "tget (nd_projects db') i = Some r" for i r
    using that d(4) dec by (auto simp: db' tget_tput split: if_splits)
  moreover have "length (nd_projects db') \<le> maxProjectsPerNode"
    using d(2,3) room by (auto simp: db' length_tput)
  ultimately have "ownProjects_ok K node db'"
    using d(1,2) by (simp add: ownProjects_ok_def db' table_ok_tput)
  moreover have "ownProjectAt K node db' = (ownProjectAt K node db)(pid \<mapsto> p)"
    unfolding ownProjectAt_def db' by (rule ext) (simp add: tget_tput dec split: option.splits)
  ultimately show ?thesis by (simp add: db' onlyProjects_def)
qed

lemma saveConfigBody_good:
  assumes ok: "ownProjects_ok K node db" and v: "validateProjectConfig (Some c) = Inr ()" "pc_node c = node"
    and body: "saveConfigBody K node c db = Inr (u, db')"
  shows "ownProjects_ok K node db' \<and> onlyProjects db db' \<and>
    (case ownProjectAt K node db (pc_project c) of
       None \<Rightarrow> ownProjectAt K node db' = (ownProjectAt K node db)(pc_project c \<mapsto>
         \<lparr>npr_config = c, npr_ack = None, npr_applied = None\<rparr>)
     | Some p \<Rightarrow> if c = npr_config p then db' = db
         else pc_generation (npr_config p) < pc_generation c \<and>
           ownProjectAt K node db' = (ownProjectAt K node db)(pc_project c \<mapsto> p\<lparr>npr_config := c\<rparr>))"
proof -
  let ?pid = "pc_project c"
  obtain es where es: "readNodeProjects K node db = Inr es" using readNodeProjects_eq [OF ok] by blast
  note pe = projectEntry_eq [OF ok es]
  have K: "codec_ok (k_config K)" using ownProjects_okD(1) [OF ok] by (simp add: codecs_ok_def)
  show ?thesis
  proof (cases "ownProjectAt K node db ?pid")
    case None
    obtain payload where room: "length (nd_projects db) < maxProjectsPerNode"
      and p: "marshalProject config_unknown (k_config K) c = Inr payload" and w: "putConfig K ?pid payload db = Inr db'"
      using body None by (auto simp: saveConfigBody_def es pe bindR_eq_Inr split: if_splits)
    have absent: "tget (nd_projects db) ?pid = None" using None ownProjectAt_None [OF ok] by simp
    have blob: "projectBlobOk (k_config K) payload" using w by (simp add: putConfig_def split: if_splits)
    have db': "db' = db\<lparr>nd_projects := tput ?pid \<lparr>np_config = payload, np_ack = None, np_applied = None\<rparr> (nd_projects db)\<rparr>"
      using w absent by (simp add: putConfig_def split: if_splits)
    have "decodeNodeProject K node (?pid, \<lparr>np_config = payload, np_ack = None, np_applied = None\<rparr>) =
        Inr \<lparr>npr_config = c, npr_ack = None, npr_applied = None\<rparr>"
      by (rule decodeNodeProject_intro)
        (use marshalProject_decode [OF K p blob] v in \<open>simp_all add: decodeNodeAck_def project_wf_def\<close>)
    from putProject_ok [OF ok this _ db'] room None show ?thesis by simp
  next
    case (Some e)
    obtain row where row: "tget (nd_projects db) ?pid = Some row" "decodeNodeProject K node (?pid, row) = Inr e"
      using Some by (rule ownProjectAt_row)
    show ?thesis
    proof (cases "c = npr_config e")
      case True
      then have "db' = db" using body Some by (simp add: saveConfigBody_def es pe)
      then show ?thesis using ok Some True by (simp add: onlyProjects_def)
    next
      case False
      then obtain payload where gen: "pc_generation (npr_config e) < pc_generation c"
        and p: "marshalProject config_unknown (k_config K) c = Inr payload" and w: "putConfig K ?pid payload db = Inr db'"
        using body Some by (auto simp: saveConfigBody_def es pe bindR_eq_Inr not_less less_le split: if_splits)
      have blob: "projectBlobOk (k_config K) payload" using w by (simp add: putConfig_def split: if_splits)
      have db': "db' = db\<lparr>nd_projects := tput ?pid (row\<lparr>np_config := payload\<rparr>) (nd_projects db)\<rparr>"
        using w row(1) by (simp add: putConfig_def split: if_splits)
      have wf: "project_wf node ?pid (e\<lparr>npr_config := c\<rparr>)"
        using ownProjectAt_wf [OF Some] v gen unfolding project_wf_def
        by (cases "npr_ack e") (auto intro: order_trans less_imp_le)
      have "decodeNodeProject K node (?pid, row\<lparr>np_config := payload\<rparr>) = Inr (e\<lparr>npr_config := c\<rparr>)"
        by (rule decodeNodeProject_intro)
          (use marshalProject_decode [OF K p blob] decodeNodeProject_parts [OF row(2)] wf in simp_all)
      from putProject_ok [OF ok this _ db'] row(1) Some False gen show ?thesis by simp
    qed
  qed
qed

lemma saveAckBody_good:
  assumes ok: "ownProjects_ok K node db" and v: "validateProjectAck (Some a) = Inr ()"
    and body: "saveAckBody K node a db = Inr (u, db')"
  shows "\<exists>p. ownProjectAt K node db (pa_project a) = Some p \<and> pa_generation a = pc_generation (npr_config p) \<and>
    \<not> projectAckConflict (npr_ack p) a \<and> ownProjects_ok K node db' \<and> onlyProjects db db' \<and>
    ownProjectAt K node db' = (ownProjectAt K node db)(pa_project a \<mapsto>
      p\<lparr>npr_ack := Some a, npr_applied := (if pa_status a = ''applied'' then Some a else npr_applied p)\<rparr>)"
proof -
  let ?pid = "pa_project a"
  obtain es where es: "readNodeProjects K node db = Inr es" using readNodeProjects_eq [OF ok] by blast
  note pe = projectEntry_eq [OF ok es]
  have K: "codec_ok (k_ack K)" using ownProjects_okD(1) [OF ok] by (simp add: codecs_ok_def)
  obtain e payload where e: "ownProjectAt K node db ?pid = Some e"
    and gen: "pa_generation a = pc_generation (npr_config e)" and nc: "\<not> projectAckConflict (npr_ack e) a"
    and p: "marshalProject ack_unknown (k_ack K) a = Inr payload" and w: "putAck K a payload db = Inr db'"
    using body by (auto simp: saveAckBody_def es pe bindR_eq_Inr split: option.splits if_splits)
  obtain row where row: "tget (nd_projects db) ?pid = Some row" "decodeNodeProject K node (?pid, row) = Inr e"
    using e by (rule ownProjectAt_row)
  let ?e = "e\<lparr>npr_ack := Some a, npr_applied := (if pa_status a = ''applied'' then Some a else npr_applied e)\<rparr>"
  let ?row = "row\<lparr>np_ack := Some payload,
    np_applied := (if pa_status a = ''applied'' then Some payload else np_applied row)\<rparr>"
  have blob: "projectBlobOk (k_ack K) payload" and db': "db' = db\<lparr>nd_projects := tput ?pid ?row (nd_projects db)\<rparr>"
    using w row(1) by (auto simp: putAck_def Let_def split: if_splits)
  have da: "decodeNodeAck K (Some payload) = Inr (Some a)"
    using marshalProject_decode [OF K p blob] v by (simp add: decodeNodeAck_def)
  have wf: "project_wf node ?pid ?e"
    using ownProjectAt_wf [OF e] v gen unfolding project_wf_def
    by (cases "npr_ack e"; cases "npr_applied e") (auto intro: order_trans)
  have "decodeNodeProject K node (?pid, ?row) = Inr ?e"
    by (rule decodeNodeProject_intro) (use da decodeNodeProject_parts [OF row(2)] wf in simp_all)
  from putProject_ok [OF ok this _ db'] row(1) e gen nc show ?thesis by simp
qed

text \<open>Either operation moves every project forward.\<close>

lemma saveConfig_step:
  assumes "ownProjects_ok K node db" and "validateProjectConfig (Some c) = Inr ()" "pc_node c = node"
    and "saveConfigBody K node c db = Inr (u, db')" and "ownProjectAt K node db i = Some p"
  shows "\<exists>q. ownProjectAt K node db' i = Some q \<and> ownProjectStep p q"
proof (cases "i = pc_project c")
  case True
  then show ?thesis using saveConfigBody_good [OF assms(1-4)] assms(5)
    by (cases "npr_ack p"; cases "npr_applied p") (auto simp: ownProjectStep_def split: if_splits)
next
  case False
  then show ?thesis using saveConfigBody_good [OF assms(1-4)] assms(5)
    by (auto split: option.splits if_splits)
qed

lemma saveAck_step:
  assumes "ownProjects_ok K node db" and "validateProjectAck (Some a) = Inr ()"
    and "saveAckBody K node a db = Inr (u, db')" and "ownProjectAt K node db i = Some p"
  shows "\<exists>q. ownProjectAt K node db' i = Some q \<and> ownProjectStep p q"
proof -
  obtain e where e: "ownProjectAt K node db (pa_project a) = Some e" "pa_generation a = pc_generation (npr_config e)"
    and at: "ownProjectAt K node db' = (ownProjectAt K node db)(pa_project a \<mapsto>
      e\<lparr>npr_ack := Some a, npr_applied := (if pa_status a = ''applied'' then Some a else npr_applied e)\<rparr>)"
    using saveAckBody_good [OF assms(1-3)] by blast
  show ?thesis
  proof (cases "i = pa_project a")
    case True
    have wf: "project_wf node i p" by (rule ownProjectAt_wf [OF assms(4)])
    have "p = e" using True e assms(4) by simp
    then show ?thesis using at e(2) True wf
      by (cases "npr_ack p"; cases "npr_applied p")
        (auto simp: ownProjectStep_def project_wf_def intro: order_trans)
  next
    case False
    then show ?thesis using at assms(4) by simp
  qed
qed

end
