(* ===== verification/Node.thy ===== *)
theory Node
  imports NodeInvariant NodeProjects Journal
begin

text \<open>
  The node's store as a whole: every operation of node\_journal.go, lifecycle.go, lifecycle\_scope.go and
  node\_projects.go that writes, as a step of one transition relation, and what each does to the entries,
  receipts and projects.  The journal of the node is three instances of \<open>durable_journal\<close>.
\<close>

section \<open>The store\<close>

definition emptyNode :: "'b node_db" where
  "emptyNode = \<lparr>nd_commands = [], nd_lifecycle = [], nd_scopes = [], nd_projects = []\<rparr>"

definition nodeStoreGood :: "'b codecs \<Rightarrow> (string \<Rightarrow> string) \<Rightarrow> string \<Rightarrow> 'b node_db \<Rightarrow> bool" where
  "nodeStoreGood K H node db = (nodeGood K H node db \<and> ownProjects_ok K node db)"

lemma nodeStoreGood_empty: "codecs_ok K \<Longrightarrow> nodeStoreGood K H node emptyNode"
  by (simp add: nodeStoreGood_def nodeGood_def ownProjects_ok_def emptyNode_def tget_def)

inductive nodeStep :: "'b codecs \<Rightarrow> (string \<Rightarrow> string) \<Rightarrow> string \<Rightarrow> 'b node_db \<Rightarrow> 'b node_db \<Rightarrow> bool"
  for K :: "'b codecs" and H :: "string \<Rightarrow> string" and node :: string where
  claim: "Claim E K node command db = (x, db') \<Longrightarrow> nodeStep K H node db db'"
| complete: "Complete E K node result db = (y, db') \<Longrightarrow> nodeStep K H node db db'"
| acknowledge: "Acknowledge E K node cid status db = (y, db') \<Longrightarrow> nodeStep K H node db db'"
| recover: "Recover E K node db = (y, db') \<Longrightarrow> nodeStep K H node db db'"
| pin: "PinAgentCommand E K H node cid incarnation db = (y, db') \<Longrightarrow> nodeStep K H node db db'"
| save: "SaveLifecycle E K H node cid receipt db = (y, db') \<Longrightarrow> nodeStep K H node db db'"
| config: "SaveProjectConfig E K node cfg db = (y, db') \<Longrightarrow> nodeStep K H node db db'"
| ack: "SaveProjectAck E K node a db = (y, db') \<Longrightarrow> nodeStep K H node db db'"

section \<open>One step\<close>

definition projectsChange :: "'b codecs \<Rightarrow> string \<Rightarrow> 'b node_db \<Rightarrow> 'b node_db \<Rightarrow> bool" where
  "projectsChange K node db db' = (\<forall>i p. ownProjectAt K node db i = Some p \<longrightarrow>
     (\<exists>q. ownProjectAt K node db' i = Some q \<and> ownProjectStep p q))"

definition storeChange :: "'b codecs \<Rightarrow> (string \<Rightarrow> string) \<Rightarrow> string \<Rightarrow> 'b node_db \<Rightarrow> 'b node_db \<Rightarrow> bool" where
  "storeChange K H node db db' = (nodeStoreGood K H node db' \<and> nodeChange K H node db db' \<and> projectsChange K node db db')"

lemma storeChange_refl: "nodeStoreGood K H node db \<Longrightarrow> storeChange K H node db db"
  by (simp add: storeChange_def nodeStoreGood_def nodeChange_refl projectsChange_def)

lemma ownProjectAt_cong: "nd_projects db' = nd_projects db \<Longrightarrow> ownProjectAt K node db' = ownProjectAt K node db"
  by (simp add: ownProjectAt_def fun_eq_iff)

text \<open>An operation on commands leaves the projects alone, and one on projects the commands.\<close>

lemma commands_storeChange:
  assumes "nodeStoreGood K H node db" and "nodeChange K H node db db'" and "nd_projects db' = nd_projects db"
  shows "storeChange K H node db db'"
  using assms ownProjectAt_cong [OF assms(3), of K node]
  by (auto simp: storeChange_def nodeStoreGood_def nodeChange_def ownProjects_ok_def projectsChange_def)

lemma nodeGood_cong:
  assumes "onlyProjects db db'"
  shows "nodeGood K H node db' = nodeGood K H node db" and "entryAt K node db' = entryAt K node db"
    and "readLifecycle K db' c = readLifecycle K db c"
proof -
  have "checkLifecycleData K H node db' e = checkLifecycleData K H node db e" for e
    by (rule checkLifecycleData_frame) (use assms in \<open>simp_all add: onlyProjects_def\<close>)
  then show "nodeGood K H node db' = nodeGood K H node db"
    using assms by (simp add: nodeGood_def onlyProjects_def)
qed (use assms in \<open>simp_all add: onlyProjects_def entryAt_def readLifecycle_def fun_eq_iff\<close>)

lemma projects_storeChange:
  assumes "nodeStoreGood K H node db" and "ownProjects_ok K node db'" and "onlyProjects db db'"
    and "\<And>i p. ownProjectAt K node db i = Some p \<Longrightarrow> \<exists>q. ownProjectAt K node db' i = Some q \<and> ownProjectStep p q"
  shows "storeChange K H node db db'"
  using assms nodeGood_cong [OF assms(3)]
  by (auto simp: storeChange_def nodeStoreGood_def nodeChange_def projectsChange_def receiptStep_def)

lemma entryAt_running:
  assumes "entryAt K node db i = Some e" and "ne_result e = None"
  shows "\<not> ne_delivered e"
proof -
  obtain row where "decodeEntry K node (i, row) = Inr e" using assms(1) by (rule entryAt_row)
  then show ?thesis using assms(2) by (cases rule: decodeEntry_facts) simp_all
qed

lemma entryAt_step:
  assumes "entryAt K node db i = Some e"
  shows "entryStep e (decided (ne_command e) v d) \<longleftrightarrow> ne_result e = None \<or> ne_result e = Some v \<and> (ne_delivered e \<longrightarrow> d)"
  using entryAt_running [OF assms] by (auto simp: entryStep_def)

lemma claimed_step:
  assumes "claimed K node db c x e'" and "entryAt K node db (c_id c) = Some e"
  shows "entryStep e e'"
  using assms entryAt_step [OF assms(2)] by (auto simp: claimed_def split: option.splits)

lemma operation_storeChange:
  assumes "operation E pre fn db = (x, db')" and "nodeStoreGood K H node db"
    and "\<And>y. pre = Inr () \<Longrightarrow> fn db = Inr (y, db') \<Longrightarrow> storeChange K H node db db'"
  shows "storeChange K H node db db'"
  using operation_durable [OF assms(1)] storeChange_refl [OF assms(2)] assms(3) by auto

section \<open>Every operation\<close>

lemma rows_storeChange:
  assumes "nodeStoreGood K H node db" and "nodeGood K H node db'" and "onlyRows db db'"
    and "entryAt K node db' = (entryAt K node db)(i \<mapsto> e')"
    and "\<And>e. entryAt K node db i = Some e \<Longrightarrow> entryStep e e'"
  shows "storeChange K H node db db'"
  by (rule commands_storeChange [OF assms(1) nodeChange_rows [OF assms(2-5)]])
    (use assms(3) in \<open>simp_all add: onlyRows_def\<close>)

lemma claim_storeChange:
  assumes good: "nodeStoreGood K H node db" and op: "Claim E K node command db = (x, db')"
  shows "storeChange K H node db db'"
proof (rule operation_storeChange [OF op [unfolded Claim_def] good])
  fix y assume c: "validateCommand (k_pb K) command node = Inr ()"
    and b: "(case command of None \<Rightarrow> Inl (Msg ''command is nil or oversized'') | Some c \<Rightarrow> claimBody K node c db) = Inr (y, db')"
  then obtain c where cc: "command = Some c" by (cases command) simp_all
  have g: "nodeGood K H node db" using good by (simp add: nodeStoreGood_def)
  obtain e' where "nodeGood K H node db'" "onlyRows db db'" "claimed K node db c y e'"
    "entryAt K node db' = (entryAt K node db)(c_id c \<mapsto> e')"
    using claimBody_good [OF g, of c y db'] b c cc by auto
  then show "storeChange K H node db db'" by (intro rows_storeChange [OF good]) (auto intro: claimed_step)
qed

lemma complete_storeChange:
  assumes good: "nodeStoreGood K H node db" and op: "Complete E K node result db = (x, db')"
  shows "storeChange K H node db db'"
proof (rule operation_storeChange [OF op [unfolded Complete_def] good])
  fix y assume b: "(case result of None \<Rightarrow> Inl (Msg ''invalid agent command result'')
      | Some v \<Rightarrow> completeBody K node v db) = Inr (y, db')"
  then obtain v where v: "result = Some v" "completeBody K node v db = Inr (y, db')" by (cases result) simp_all
  have g: "nodeGood K H node db" using good by (simp add: nodeStoreGood_def)
  obtain e where e: "entryAt K node db (cr_id v) = Some e" "nodeGood K H node db'" "onlyRows db db'"
      "entryAt K node db' = (entryAt K node db)(cr_id v \<mapsto>
        (if ne_result e = None then decided (ne_command e) v False else e))"
    using completeBody_good [OF g v(2)] by blast
  show "storeChange K H node db db'"
    by (rule rows_storeChange [OF good e(2,3,4)]) (use e(1) entryAt_step [OF e(1)] in auto)
qed

lemma acknowledge_storeChange:
  assumes good: "nodeStoreGood K H node db" and op: "Acknowledge E K node i st db = (x, db')"
  shows "storeChange K H node db db'"
proof (rule operation_storeChange [OF op [unfolded Acknowledge_def] good])
  fix y assume b: "acknowledgeBody K node i st db = Inr (y, db')"
  have g: "nodeGood K H node db" using good by (simp add: nodeStoreGood_def)
  obtain e v where e: "entryAt K node db i = Some e" "ne_result e = Some v" "nodeGood K H node db'" "onlyRows db db'"
      "entryAt K node db' = (entryAt K node db)(i \<mapsto> decided (ne_command e) v True)"
    using acknowledgeBody_good [OF g b] by blast
  show "storeChange K H node db db'"
    by (rule rows_storeChange [OF good e(3,4,5)]) (use e(1,2) entryAt_step [OF e(1)] in auto)
qed

lemma recoveredEntry_step: "entryAt K node db i = Some e \<Longrightarrow> entryStep e (recoveredEntry K db e)"
  by (simp add: recoveredEntry_def entryAt_step split: option.splits sum.splits)

lemma recover_storeChange:
  assumes good: "nodeStoreGood K H node db" and op: "Recover E K node db = (x, db')"
  shows "storeChange K H node db db'"
proof (rule operation_storeChange [OF op [unfolded Recover_body] good])
  fix y assume b: "recoverBody K node db = Inr (y, db')"
  have g: "nodeGood K H node db" using good by (simp add: nodeStoreGood_def)
  note r = recoverBody_good [OF g b]
  then have "nodeChange K H node db db'"
    using recoveredEntry_step onlyRows_receipt [of db db'] by (fastforce simp: nodeChange_def receiptStep_def)
  then show "storeChange K H node db db'"
    using commands_storeChange [OF good] r by (simp add: onlyRows_def)
qed

lemma pinBody_projects: "pinBody K H node i inc db = Inr (u, db') \<Longrightarrow> nd_projects db' = nd_projects db"
  by (auto simp: pinBody_def bindR_eq_Inr split: option.splits if_splits elim!: pinCommandScope_Inr)

lemma pin_storeChange:
  assumes good: "nodeStoreGood K H node db" and op: "PinAgentCommand E K H node i inc db = (x, db')"
  shows "storeChange K H node db db'"
proof (rule operation_storeChange [OF op [unfolded PinAgentCommand_def] good])
  fix y assume b: "pinBody K H node i inc db = Inr (y, db')"
  have g: "nodeGood K H node db" using good by (simp add: nodeStoreGood_def)
  show "storeChange K H node db db'"
    using pinBody_good [OF g b] pinBody_projects [OF b] commands_storeChange [OF good] by blast
qed

lemma saveLifecycleBody_projects:
  "saveLifecycleBody K H node i receipt db = Inr (u, db') \<Longrightarrow> nd_projects db' = nd_projects db"
  by (auto simp: saveLifecycleBody_def bindR_eq_Inr Let_def putLifecycle_def split: option.splits if_splits
      elim!: pinCommandScope_Inr)

lemma save_storeChange:
  assumes good: "nodeStoreGood K H node db" and op: "SaveLifecycle E K H node i receipt db = (x, db')"
  shows "storeChange K H node db db'"
proof (rule operation_storeChange [OF op [unfolded SaveLifecycle_def] good])
  fix y assume b: "saveLifecycleBody K H node i receipt db = Inr (y, db')"
  have g: "nodeGood K H node db" using good by (simp add: nodeStoreGood_def)
  show "storeChange K H node db db'"
    using saveLifecycleBody_good [OF g b] saveLifecycleBody_projects [OF b] commands_storeChange [OF good] by blast
qed

lemma config_storeChange:
  assumes good: "nodeStoreGood K H node db" and op: "SaveProjectConfig E K node cfg db = (x, db')"
  shows "storeChange K H node db db'"
proof (rule operation_storeChange [OF op [unfolded SaveProjectConfig_def] good])
  fix y assume pre: "bindR (validateProjectConfig cfg) (\<lambda>_.
        if opt_ex (\<lambda>c. pc_node c \<noteq> node) cfg then Inl ErrProjectConflict else Inr ()) = Inr ()"
    and b: "(case cfg of None \<Rightarrow> Inl (Msg ''invalid project configuration'') | Some c \<Rightarrow> saveConfigBody K node c db) = Inr (y, db')"
  then obtain c where c: "cfg = Some c" by (cases cfg) simp_all
  have v: "validateProjectConfig (Some c) = Inr ()" "pc_node c = node"
    using pre c by (auto simp: bindR_eq_Inr split: if_splits)
  have b': "saveConfigBody K node c db = Inr (y, db')" using b c by simp
  have p: "ownProjects_ok K node db" using good by (simp add: nodeStoreGood_def)
  show "storeChange K H node db db'"
    using saveConfigBody_good [OF p v b'] saveConfig_step [OF p v b']
    by (intro projects_storeChange [OF good]) blast+
qed

lemma ack_storeChange:
  assumes good: "nodeStoreGood K H node db" and op: "SaveProjectAck E K node a db = (x, db')"
  shows "storeChange K H node db db'"
proof (rule operation_storeChange [OF op [unfolded SaveProjectAck_def] good])
  fix y assume pre: "validateProjectAck a = Inr ()"
    and b: "(case a of None \<Rightarrow> Inl (Msg ''invalid project acknowledgement'') | Some a \<Rightarrow> saveAckBody K node a db) = Inr (y, db')"
  then obtain k where k: "a = Some k" by (cases a) simp_all
  have v: "validateProjectAck (Some k) = Inr ()" and b': "saveAckBody K node k db = Inr (y, db')" using pre b k by simp_all
  have p: "ownProjects_ok K node db" using good by (simp add: nodeStoreGood_def)
  show "storeChange K H node db db'"
    using saveAckBody_good [OF p v b'] saveAck_step [OF p v b']
    by (intro projects_storeChange [OF good]) blast+
qed

lemma nodeStep_change:
  assumes "nodeStep K H node db db'" and "nodeStoreGood K H node db"
  shows "storeChange K H node db db'"
  using assms
  by (cases rule: nodeStep.cases)
    (blast intro: claim_storeChange complete_storeChange acknowledge_storeChange recover_storeChange
      pin_storeChange save_storeChange config_storeChange ack_storeChange)+

section \<open>The journals of the node\<close>

text \<open>The receipt of an entry together with its command, which says how the receipt may advance.\<close>

definition receiptAt :: "'b codecs \<Rightarrow> string \<Rightarrow> 'b node_db \<Rightarrow> string \<Rightarrow> (command \<times> receipt) option" where
  "receiptAt K node db i = (case entryAt K node db i of
     None \<Rightarrow> None
   | Some e \<Rightarrow> (case readLifecycle K db (ne_command e) of
       Inr (Some r) \<Rightarrow> Some (ne_command e, r) | _ \<Rightarrow> None))"

definition receiptProgress :: "pb \<Rightarrow> command \<times> receipt \<Rightarrow> command \<times> receipt \<Rightarrow> bool" where
  "receiptProgress P a b = (fst b = fst a \<and>
     (snd b = snd a \<or> ValidateLifecycleAdvance P (Some (snd a)) (Some (snd b)) (fst a) = Inr ()))"

lemma receiptProgress_trans:
  assumes "receiptProgress P a b" and "receiptProgress P b c"
  shows "receiptProgress P a c"
  using assms by (auto simp: receiptProgress_def ValidateLifecycleAdvance_Some intro: advanceStep_trans)

interpretation entries: durable_journal "nodeStoreGood K H node" "nodeStep K H node" "entryAt K node" entryStep
    "\<lambda>e. ne_result e \<noteq> None \<and> ne_delivered e" for K :: "'b codecs" and H node
proof
  fix s t :: "'b node_db" and i a
  assume g: "nodeStoreGood K H node s" "nodeStep K H node s t"
  note c = nodeStep_change [OF g(2,1)]
  show "nodeStoreGood K H node t" using c by (simp add: storeChange_def)
  show "\<exists>b. entryAt K node t i = Some b \<and> entryStep a b" if "entryAt K node s i = Some a"
    using c that by (auto simp: storeChange_def nodeChange_def)
qed (auto intro: entryStep_trans entryStep_final)

interpretation receipts: durable_journal "nodeStoreGood K H node" "nodeStep K H node" "receiptAt K node"
    "receiptProgress (k_pb K)" "\<lambda>a. False" for K :: "'b codecs" and H node
proof
  fix s t :: "'b node_db" and i a
  assume g: "nodeStoreGood K H node s" "nodeStep K H node s t"
  note c = nodeStep_change [OF g(2,1)]
  show "nodeStoreGood K H node t" using c by (simp add: storeChange_def)
  show "\<exists>b. receiptAt K node t i = Some b \<and> receiptProgress (k_pb K) a b" if a: "receiptAt K node s i = Some a"
  proof -
    obtain e r where e: "entryAt K node s i = Some e" "readLifecycle K s (ne_command e) = Inr (Some r)"
      "a = (ne_command e, r)"
      using a by (auto simp: receiptAt_def split: option.splits sum.splits)
    obtain e' where e': "entryAt K node t i = Some e'" "entryStep e e'"
      using c e(1) unfolding storeChange_def nodeChange_def by blast
    obtain r' where r': "readLifecycle K t (ne_command e) = Inr r'"
      "receiptStep (k_pb K) (ne_command e) (Some r) r'"
      using c e(1,2) unfolding storeChange_def nodeChange_def by blast
    show ?thesis
      using e' r' e(3) by (auto simp: receiptAt_def entryStep_def receiptStep_def receiptProgress_def)
  qed
qed (simp add: receiptProgress_def, erule (1) receiptProgress_trans, simp)

interpretation own_projects: durable_journal "nodeStoreGood K H node" "nodeStep K H node" "ownProjectAt K node"
    ownProjectStep "\<lambda>p. False" for K :: "'b codecs" and H node
proof
  fix s t :: "'b node_db" and i a
  assume g: "nodeStoreGood K H node s" "nodeStep K H node s t"
  note c = nodeStep_change [OF g(2,1)]
  show "nodeStoreGood K H node t" using c by (simp add: storeChange_def)
  show "\<exists>b. ownProjectAt K node t i = Some b \<and> ownProjectStep a b" if "ownProjectAt K node s i = Some a"
    using c that by (auto simp: storeChange_def projectsChange_def)
qed (auto intro: ownProjectStep_trans)

end
