(* ===== verification/NodeAgent.thy ===== *)
theory NodeAgent
  imports NativeWorkspace Node Observations
begin

text \<open>
  The process of the node agent: the state of \<open>commandHandler\<close>, its journal, the sessions it resolves and
  the projects it may act on (commands.go, sessions.go, projects.go, workspace\_peer.go and node.go of the
  node package).  A process that has died writes nothing: its journal calls change nothing any more.
\<close>

section \<open>State and options\<close>

record native_session =
  ns_name :: string
  ns_status :: string
  ns_incarnation :: string
  ns_socket :: string

text \<open>
  The surroundings of the node: those of the adapter, how each journal call fares, what the identity
  service says of the coordinator, the clock, and the answers of the native session manager.
\<close>

record node_world =
  ww_native :: world
  ww_store :: "nat \<Rightarrow> tx_env"
  ww_peer :: "nat \<Rightarrow> unit res"
  ww_now :: "nat \<Rightarrow> int"
  ww_identity :: "nat \<Rightarrow> string res"
  ww_status :: "nat \<Rightarrow> string \<Rightarrow> native_session res"
  ww_ensure :: "nat \<Rightarrow> string \<Rightarrow> native_session res"

text \<open>
  \<open>an_receipt\<close> and \<open>an_cwd\<close> are the variables \<open>receipt\<close> and \<open>selectedCwd\<close> that the closures of
  \<open>lifecycleMutation\<close> share, \<open>an_published\<close> what went into the channel of checkpoints.
\<close>

record 'b node_agent = native +
  an_db :: "'b node_db"
  an_receipt :: "receipt option"
  an_cwd :: string
  an_published :: "(string \<times> receipt) list"
  an_ephemeral :: "(string, command) table"
  an_current :: "(string, project_ack) table"
  an_bindings :: "(string, project_binding) table"
  an_baseline :: "herdr_state option"

text \<open>What was negotiated and configured; a pointer the code compares with nil is a flag or an option.\<close>

record handler_options =
  ho_node :: string
  ho_socket :: string
  ho_policy :: policy
  ho_managed :: bool
  ho_sessions :: bool
  ho_verifier :: bool
  ho_workspaces :: bool
  ho_worktrees :: bool
  ho_agents :: bool
  ho_session_commands :: bool
  ho_lifecycle :: bool

definition journalS ::
  "node_world \<Rightarrow> (tx_env \<Rightarrow> 'b node_db \<Rightarrow> 'a res \<times> 'b node_db) \<Rightarrow> ('b node_agent, 'a) handler" where
  "journalS W f s = (case f (ww_store W (nx_clock s)) (an_db s) of (r, db) \<Rightarrow>
     (r, tick (if alive (ww_native W) s then s\<lparr>an_db := db\<rparr> else s)))"

section \<open>Errors\<close>

definition ErrStarting :: err where "ErrStarting = Msg ''herdr session: startup outcome uncertain; inspect before retrying''"
definition ErrUnsupported :: err where "ErrUnsupported = Msg ''herdr session: unsupported protocol''"
definition ErrCapacity :: err where "ErrCapacity = Msg ''herdr session: session capacity reached''"
definition ErrStart :: err where "ErrStart = Msg ''herdr session: headless startup failed''"
definition ErrUnavailable :: err where "ErrUnavailable = Msg ''herdr session: native discovery unavailable''"

text \<open>An error of type \<open>sessionFailure\<close>, and \<open>errors.As\<close> for it.\<close>

definition sessionFailure :: "string \<Rightarrow> err" where
  "sessionFailure code = Wrap ''sessionFailure'' (Msg code)"

definition failureCode :: "err \<Rightarrow> string" where
  "failureCode e = (case e of Msg code \<Rightarrow> code | _ \<Rightarrow> '''')"

fun asSessionFailure :: "err \<Rightarrow> string option" where
  "asSessionFailure (Wrap s e) = (if s = ''sessionFailure'' then Some (failureCode e) else asSessionFailure e)"
| "asSessionFailure (Blame e c) = asSessionFailure e"
| "asSessionFailure (CanceledOp e) = asSessionFailure e"
| "asSessionFailure (Join es) =
     foldr (\<lambda>x rest. case x of Some c \<Rightarrow> Some c | None \<Rightarrow> rest) (map asSessionFailure es) None"
| "asSessionFailure e = None"

definition sessionError :: "err \<Rightarrow> string" where
  "sessionError e = (case asSessionFailure e of
     Some code \<Rightarrow> code
   | None \<Rightarrow>
       if errors_is e ErrStarting then ''startup_uncertain''
       else if errors_is e ErrUnsupported then ''unsupported_protocol''
       else if errors_is e ErrCapacity then ''session_capacity''
       else if errors_is e ErrStart then ''session_start_failed''
       else if errors_is e ErrUnavailable then ''session_manager_unavailable''
       else ''session_unavailable'')"

definition storageError :: "string \<Rightarrow> err \<Rightarrow> err" where
  "storageError what e = (let failure = Wrap (''node command journal '' @ what) e in
     if RetryableCancellation e then failure else Wrap ''journalError'' failure)"

section \<open>Paths\<close>

text \<open>\<open>filepath.Clean\<close> and \<open>sameEndpoint\<close> where the separator is a slash.\<close>

fun splitSlash :: "string \<Rightarrow> string \<Rightarrow> string list" where
  "splitSlash part [] = [rev part]"
| "splitSlash part (c # cs) = (if byte c = 47 then rev part # splitSlash [] cs else splitSlash (c # part) cs)"

fun cleanParts :: "bool \<Rightarrow> string list \<Rightarrow> string list \<Rightarrow> string list" where
  "cleanParts rooted out [] = rev out"
| "cleanParts rooted out (p # ps) =
     (if p = '''' \<or> p = ''.'' then cleanParts rooted out ps
      else if p \<noteq> ''..'' then cleanParts rooted (p # out) ps
      else if out \<noteq> [] \<and> hd out \<noteq> ''..'' then cleanParts rooted (tl out) ps
      else if rooted then cleanParts rooted out ps
      else cleanParts rooted (p # out) ps)"

fun joinSlash :: "string list \<Rightarrow> string" where
  "joinSlash [] = []"
| "joinSlash [p] = p"
| "joinSlash (p # ps) = p @ ''/'' @ joinSlash ps"

definition cleanPath :: "string \<Rightarrow> string" where
  "cleanPath path = (let rooted = absolutePath path;
       text = joinSlash (cleanParts rooted [] (splitSlash [] path)) in
     if rooted then ''/'' @ text else if text = '''' then ''.'' else text)"

definition sameEndpoint :: "string \<Rightarrow> string \<Rightarrow> bool" where
  "sameEndpoint a b = (cleanPath a = cleanPath b)"

section \<open>Sessions\<close>

definition socketConfig :: "string \<Rightarrow> 's config" where
  "socketConfig socket = \<lparr>cf_socket = socket, cf_refresh = 0, cf_retry = 0, cf_timeout = 0, cf_check = None\<rparr>"

definition configuredDefault :: "handler_options \<Rightarrow> native_session \<Rightarrow> bool" where
  "configuredDefault Q s = (ns_name s \<noteq> ''default'' \<or> ho_socket Q = '''' \<or>
     sameEndpoint (ns_socket s) (ho_socket Q))"

definition sessionsReady :: "handler_options \<Rightarrow> bool" where
  "sessionsReady Q = (ho_session_commands Q \<and> ho_sessions Q \<and> ho_verifier Q)"

definition pipePrefix :: string where
  "pipePrefix = [CHR 0x5C, CHR 0x5C, CHR ''.'', CHR 0x5C] @ ''pipe'' @ [CHR 0x5C]"

definition lifecycleScopeAvailable :: "handler_options \<Rightarrow> string \<Rightarrow> bool" where
  "lifecycleScopeAvailable Q name = (ho_lifecycle Q \<and>
     (name \<noteq> '''' \<or> \<not> has_prefix (ascii_lower (ho_socket Q)) pipePrefix))"

text \<open>
  What \<open>resolveSession\<close> finds, and whether it pins it: the pin asks again, so the search is
  separate from the pinning.
\<close>

definition locateSession ::
  "handler_options \<Rightarrow> node_world \<Rightarrow> string \<Rightarrow> string \<Rightarrow>
   ('b node_agent, string \<times> string \<times> bool) handler" where
  "locateSession Q W name expected =
     (if name = '''' then
        (if expected = '''' then okS (ho_socket Q, '''', False)
         else bindS (draw (ww_identity W)) (\<lambda>r. case r of
             Inl e \<Rightarrow> errS (sessionFailure ''session_unavailable'')
           | Inr actual \<Rightarrow>
               if actual \<noteq> expected then errS (sessionFailure ''session_replaced'') else okS (ho_socket Q, actual, True)))
      else if \<not> sessionsReady Q then errS (sessionFailure ''session_manager_unavailable'')
      else bindS (draw (\<lambda>n. ww_status W n name)) (\<lambda>r. case r of
          Inl e \<Rightarrow> errS (sessionFailure (sessionError e))
        | Inr session \<Rightarrow>
            if \<not> configuredDefault Q session then errS (sessionFailure ''session_default_unmanaged'')
            else if ns_name session \<noteq> name \<or> ns_status session \<noteq> ''ready'' \<or>
              \<not> ValidSessionIncarnation (ns_incarnation session) \<or> ns_socket session = ''''
            then errS (sessionFailure ''session_unavailable'')
            else if expected \<noteq> '''' \<and> expected \<noteq> ns_incarnation session then errS (sessionFailure ''session_replaced'')
            else okS (ns_socket session, ns_incarnation session, True)))"

definition pinSessionConfig ::
  "handler_options \<Rightarrow> node_world \<Rightarrow> 'b node_agent config \<Rightarrow> string \<Rightarrow> string \<Rightarrow> 'b node_agent config" where
  "pinSessionConfig Q W cfg name incarnation = cfg\<lparr>cf_check := Some (
     bindS (locateSession Q W name incarnation) (\<lambda>(current, i, p).
       if \<not> sameEndpoint current (cf_socket cfg) then errS (sessionFailure ''session_replaced'')
       else okS ()))\<rparr>"

definition sessionConfig ::
  "handler_options \<Rightarrow> node_world \<Rightarrow> string \<Rightarrow> string \<times> string \<times> bool \<Rightarrow> 'b node_agent config" where
  "sessionConfig Q W name found = (case found of (socket, incarnation, pin) \<Rightarrow>
     if pin then pinSessionConfig Q W (socketConfig socket) name incarnation else socketConfig socket)"

definition resolveSession ::
  "handler_options \<Rightarrow> node_world \<Rightarrow> string \<Rightarrow> string \<Rightarrow> ('b node_agent, 'b node_agent config \<times> string) handler" where
  "resolveSession Q W name expected = bindS (locateSession Q W name expected) (\<lambda>found.
     okS (sessionConfig Q W name found, fst (snd found)))"

definition resolveLifecycleSession ::
  "handler_options \<Rightarrow> node_world \<Rightarrow> string \<Rightarrow> string \<Rightarrow> ('b node_agent, 'b node_agent config \<times> string) handler" where
  "resolveLifecycleSession Q W name expected =
     (if name = '''' \<and> expected = '''' then bindS (draw (ww_identity W)) (\<lambda>r. case r of
          Inl e \<Rightarrow> errS (sessionFailure ''session_unavailable'')
        | Inr actual \<Rightarrow> resolveSession Q W name actual)
      else resolveSession Q W name expected)"

section \<open>Readiness and projects\<close>

definition workspaceBaselineReady :: "pb \<Rightarrow> herdr_state option \<Rightarrow> int \<Rightarrow> bool" where
  "workspaceBaselineReady P v now = (case v of None \<Rightarrow> False | Some v \<Rightarrow> hs_status v = ''ready'' \<and>
     (case hs_observed v of None \<Rightarrow> False
      | Some t \<Rightarrow> ts_valid P t \<and> as_time P t \<le> now \<and> now - as_time P t \<le> 30 * 1000000000))"

definition nodeAgentReady :: "pb \<Rightarrow> handler_options \<Rightarrow> node_world \<Rightarrow> ('b node_agent, bool) handler" where
  "nodeAgentReady P Q W = bindS (readS an_baseline) (\<lambda>v. bindS (draw (ww_now W)) (\<lambda>now.
     okS (ho_agents Q \<and> ho_verifier Q \<and> workspaceBaselineReady P v now)))"

definition selectedAgentReady :: "pb \<Rightarrow> handler_options \<Rightarrow> node_world \<Rightarrow> string \<Rightarrow> ('b node_agent, bool) handler" where
  "selectedAgentReady P Q W name =
     (if name = '''' then nodeAgentReady P Q W else okS (ho_agents Q \<and> sessionsReady Q))"

text \<open>\<open>Managed.Resolve\<close>, then \<open>resolveManaged\<close>: only what was delivered on this stream is authority.\<close>

definition managedResolve :: "(string, project_binding) table \<Rightarrow> string \<Rightarrow> string \<Rightarrow> project_binding res" where
  "managedResolve bindings project revision = (case tget bindings project of
     None \<Rightarrow> Inl ErrDenied
   | Some b \<Rightarrow> if bn_revision b \<noteq> revision then Inl ErrDenied else Inr b)"

definition resolveManaged :: "string \<Rightarrow> string \<Rightarrow> ('b node_agent, project_binding) handler" where
  "resolveManaged project revision s = (case tget (an_current s) project of
     None \<Rightarrow> (Inl ErrDenied, s)
   | Some current \<Rightarrow>
       if pa_status current \<noteq> ''applied'' \<or> ProjectRevision (pa_generation current) \<noteq> revision
       then (Inl ErrDenied, s)
       else (managedResolve (an_bindings s) project revision, s))"

section \<open>Results\<close>

definition refusal :: "command \<Rightarrow> string \<Rightarrow> command_result" where
  "refusal c detail = rejectedResult (c_id c) detail"

definition expired :: "command \<Rightarrow> command_result" where
  "expired c = (refusal c ''deadline_expired'')\<lparr>cr_status := TIMED_OUT\<rparr>"

definition uncertain :: "command \<Rightarrow> string \<Rightarrow> command_result" where
  "uncertain c detail = (refusal c detail)\<lparr>cr_status := INDETERMINATE\<rparr>"

text \<open>The coordinator's identity is confirmed before every effect; \<open>detail\<close> is the refusal if it is not.\<close>

definition verified ::
  "node_world \<Rightarrow> command \<Rightarrow> string \<Rightarrow> ('b node_agent, command_result) handler \<Rightarrow>
   ('b node_agent, command_result) handler" where
  "verified W c detail continue = bindS (draw (ww_peer W)) (\<lambda>peer.
     bindS (ctxDone (ww_native W)) (\<lambda>late.
     bindS (ctxDone (ww_native W)) (\<lambda>done.
     if done then okS (expired c)
     else if \<not> is_ok peer \<or> late then okS (refusal c detail)
     else continue)))"

end
