(* ===== verification/NodeHandler.thy ===== *)
theory NodeHandler
  imports NodeAgent
begin

text \<open>
  What the node does with a command (commands.go, agents.go, sessions.go and lifecycle.go of the node
  package): \<open>handle\<close> claims it in the journal, carries it out through the adapter and commits its result;
  \<open>acknowledge\<close> releases it.
\<close>

section \<open>Workspaces and worktrees\<close>

definition bindingOf :: "handler_options \<Rightarrow> command \<Rightarrow> ('b node_agent, project_binding) handler" where
  "bindingOf Q c = (case CommandProject c of (project, revision) \<Rightarrow>
     if ho_managed Q then resolveManaged project revision
     else liftS (Resolve (ho_policy Q) (ho_node Q) project revision (getter ac_id (c_actor c))))"

text \<open>The switch over the error of an executor.\<close>

definition mutationFailure :: "command \<Rightarrow> err \<Rightarrow> command_result" where
  "mutationFailure c e =
     (if asSessionFailure e \<noteq> None then refusal c (sessionError e)
      else if errors_is e ErrWorkspacePrecondition then refusal c ''precondition_failed''
      else if c_type c = WorkspaceEnsureCommandType \<and> errors_is e ErrWorkspaceAmbiguous
      then refusal c ''ambiguous_workspace''
      else if errors_is e ErrWorkspaceUnavailable then refusal c ''herdr_unavailable''
      else uncertain c ''herdr_outcome_unknown'')"

text \<open>The executor of the command's type, and the result its success makes.\<close>

definition executeMutation ::
  "handler_options \<Rightarrow> node_world \<Rightarrow> command \<Rightarrow> 'b node_agent config \<Rightarrow> string \<Rightarrow> string \<Rightarrow> project_binding \<Rightarrow>
   ('b node_agent, command_result) handler" where
  "executeMutation Q W c cfg name incarnation b =
     (if c_type c = WorktreeCreateCommandType then
        bindS (createWorktree (ww_native W) cfg b (the (c_worktree c))) (\<lambda>v.
          okS ((refusal c ''worktree_created'')\<lparr>cr_status := SUCCEEDED,
            cr_worktree := Some (v\<lparr>wcr_session := name, wcr_incarnation := incarnation\<rparr>)\<rparr>))
      else
        bindS (ensureWorkspace (ww_native W) cfg b) (\<lambda>v.
          okS ((refusal c (if wer_created v then ''workspace_created'' else ''workspace_present''))\<lparr>
            cr_status := SUCCEEDED,
            cr_workspace := Some (v\<lparr>wer_session := name, wer_incarnation := incarnation\<rparr>)\<rparr>)))"

definition mutation ::
  "handler_options \<Rightarrow> node_world \<Rightarrow> command \<Rightarrow> ('b node_agent, command_result) handler" where
  "mutation Q W c =
     (if ho_policy Q = None \<and> \<not> ho_managed Q then okS (refusal c ''project_not_authorized'')
      else bindS (tryS (bindingOf Q c)) (\<lambda>r. case r of
        Inl e \<Rightarrow> okS (refusal c ''project_not_authorized'')
      | Inr b \<Rightarrow>
        if c_type c = WorktreeCreateCommandType \<and> \<not> bn_worktrees b
        then okS (refusal c ''project_not_authorized'')
        else bindS (ctxDone (ww_native W)) (\<lambda>done.
          if done then okS (expired c)
          else if \<not> ho_verifier Q then okS (refusal c ''precondition_failed'')
          else verified W c ''precondition_failed''
            (case CommandSession c of (name, expected) \<Rightarrow>
               bindS (tryS (resolveSession Q W name expected)) (\<lambda>r. case r of
                 Inl e \<Rightarrow> okS (refusal c (sessionError e))
               | Inr (cfg, incarnation) \<Rightarrow>
                   bindS (tryS (executeMutation Q W c cfg name incarnation b)) (\<lambda>r. case r of
                     Inl e \<Rightarrow> okS (mutationFailure c e)
                   | Inr v \<Rightarrow>
                       if incarnation = '''' then okS v
                       else bindS (tryS (resolveSession Q W name incarnation)) (\<lambda>r.
                         okS (if is_ok r then v else uncertain c ''herdr_outcome_unknown''))))))))"

section \<open>Agent control\<close>

definition lifecycleErrorDetail :: "err option \<Rightarrow> string" where
  "lifecycleErrorDetail x = (case x of
     None \<Rightarrow> ''precondition_failed''
   | Some e \<Rightarrow>
       if errors_is e ErrLifecycleUnresolved then ''lifecycle_unresolved''
       else if errors_is e ErrLifecyclePersistence then ''persistence_failed''
       else if asSessionFailure e \<noteq> None then sessionError e
       else if errors_is e ErrAgentBlocked then ''agent_blocked''
       else if errors_is e ErrAgentBusy then ''agent_busy''
       else if errors_is e ErrAgentChanged then ''target_changed''
       else if errors_is e ErrAgentUnsupported then ''unsupported''
       else if errors_is e ErrAgentUnavailable then ''herdr_unavailable''
       else if errors_is e CtxDeadlineExceeded \<or> errors_is e CtxCanceled then ''deadline_expired''
       else ''precondition_failed'')"

definition controlFailure :: "command \<Rightarrow> err \<Rightarrow> command_result" where
  "controlFailure c e =
     (if errors_is e ErrAgentIndeterminate then uncertain c ''herdr_outcome_unknown''
      else if errors_is e ErrLifecycleUnresolved then refusal c ''lifecycle_unresolved''
      else if asSessionFailure e \<noteq> None then refusal c (sessionError e)
      else if errors_is e CtxDeadlineExceeded then expired c
      else if errors_is e ErrAgentPrecondition then refusal c ''precondition_failed''
      else if errors_is e ErrAgentBusy then refusal c ''agent_busy''
      else if errors_is e ErrAgentBlocked then refusal c ''agent_blocked''
      else if errors_is e ErrAgentChanged then refusal c ''target_changed''
      else if errors_is e ErrAgentUnavailable then refusal c ''herdr_unavailable''
      else if errors_is e ErrAgentUnsupported then refusal c ''unsupported''
      else uncertain c ''herdr_outcome_unknown'')"

definition controlSuccess :: "command \<Rightarrow> string \<Rightarrow> string \<Rightarrow> agent_control_result \<Rightarrow> command_result" where
  "controlSuccess c name incarnation v =
     (refusal c (AgentControlSuccessDetail (ag_action (the (c_control c)))))\<lparr>cr_status := SUCCEEDED,
        cr_control := Some (v\<lparr>acr_target := map_option
          (\<lambda>t. t\<lparr>at_session := name, at_incarnation := incarnation\<rparr>) (acr_target v)\<rparr>)\<rparr>"

definition controlled ::
  "handler_options \<Rightarrow> node_world \<Rightarrow> command \<Rightarrow> string \<Rightarrow> 'b node_agent config \<Rightarrow> string \<Rightarrow>
   ('b node_agent, command_result) handler" where
  "controlled Q W c name cfg incarnation =
     bindS (tryS (controlAgent (ww_native W) cfg (c_control c))) (\<lambda>r. case r of
       Inl e \<Rightarrow> okS (controlFailure c e)
     | Inr v \<Rightarrow>
         if incarnation = '''' then okS (controlSuccess c name incarnation v)
         else bindS (tryS (resolveSession Q W name incarnation)) (\<lambda>r.
           okS (if is_ok r then controlSuccess c name incarnation v else uncertain c ''herdr_outcome_unknown'')))"

text \<open>The session of a control command, with the command pinned to it before the effect.\<close>

definition controlSession ::
  "'b codecs \<Rightarrow> (string \<Rightarrow> string) \<Rightarrow> handler_options \<Rightarrow> node_world \<Rightarrow> command \<Rightarrow> 'b node_agent config \<Rightarrow>
   string \<Rightarrow> 'b node_agent config" where
  "controlSession K H Q W c cfg incarnation = cfg\<lparr>cf_check := Some (bindS (sessionCheck cfg) (\<lambda>_.
     journalS W (\<lambda>E. PinAgentCommand E K H (ho_node Q) (c_id c) incarnation)))\<rparr>"

definition agentMutation ::
  "'b codecs \<Rightarrow> (string \<Rightarrow> string) \<Rightarrow> handler_options \<Rightarrow> node_world \<Rightarrow> command \<Rightarrow>
   ('b node_agent, command_result) handler" where
  "agentMutation K H Q W c = (case CommandSession c of (name, expected) \<Rightarrow>
     bindS (selectedAgentReady (k_pb K) Q W name) (\<lambda>ready.
     if \<not> ready then okS (refusal c ''precondition_failed'')
     else verified W c ''authorization_changed'' (bindS (selectedAgentReady (k_pb K) Q W name) (\<lambda>ready.
       if \<not> ready then okS (refusal c ''precondition_failed'')
       else bindS (tryS (bindS (resolveSession Q W name expected) (\<lambda>found.
           if lifecycleScopeAvailable Q name then resolveLifecycleSession Q W name expected else okS found))) (\<lambda>r. case r of
         Inl e \<Rightarrow> okS (refusal c (sessionError e))
       | Inr (cfg, incarnation) \<Rightarrow>
           if \<not> lifecycleScopeAvailable Q name then controlled Q W c name cfg incarnation
           else let pinned = controlSession K H Q W c cfg incarnation in
             bindS (tryS (sessionCheck pinned)) (\<lambda>r. case r of
               Inl e \<Rightarrow> okS (refusal c (lifecycleErrorDetail (Some e)))
             | Inr u \<Rightarrow> controlled Q W c name pinned incarnation))))))"

section \<open>Sessions\<close>

definition readySession :: "native_session \<Rightarrow> session_view" where
  "readySession v = \<lparr>sv_name = ns_name v, sv_incarnation = ns_incarnation v, sv_status = ns_status v,
     sv_error = '''', sv_herdr = None, sv_received = None, sv_stale = False, sv_unk = []\<rparr>"

text \<open>The check of a configured default session before it is started: a refusal, or none.\<close>

definition defaultSession ::
  "handler_options \<Rightarrow> node_world \<Rightarrow> command \<Rightarrow> ('b node_agent, command_result option) handler" where
  "defaultSession Q W c =
     (if getter se_name (c_session c) \<noteq> ''default'' \<or> ho_socket Q = '''' then okS None
      else bindS (draw (\<lambda>n. ww_status W n ''default'')) (\<lambda>r. okS (case r of
          Inl e \<Rightarrow> Some (refusal c (sessionError e))
        | Inr current \<Rightarrow>
            if ns_name current \<noteq> ''default'' \<or> ns_socket current = '''' then Some (refusal c ''session_unavailable'')
            else if \<not> configuredDefault Q current then Some (refusal c ''session_default_unmanaged'') else None)))"

definition ensureSession ::
  "handler_options \<Rightarrow> node_world \<Rightarrow> command \<Rightarrow> ('b node_agent, command_result) handler" where
  "ensureSession Q W c =
     (if \<not> sessionsReady Q then okS (refusal c ''session_manager_unavailable'')
      else verified W c ''authorization_changed'' (
        bindS (defaultSession Q W c) (\<lambda>refused. case refused of
          Some v \<Rightarrow> okS v
        | None \<Rightarrow> let name = getter se_name (c_session c) in
          bindS (draw (\<lambda>n. ww_ensure W n name)) (\<lambda>r. case r of
            Inl e \<Rightarrow> bindS (ctxDone (ww_native W)) (\<lambda>done.
              okS (if errors_is e ErrStarting \<or> done then uncertain c ''startup_uncertain''
                   else refusal c (sessionError e)))
          | Inr v \<Rightarrow> okS (
              if ns_name v \<noteq> name \<or> ns_status v \<noteq> ''ready'' \<or> \<not> ValidSessionIncarnation (ns_incarnation v)
              then refusal c ''session_unavailable''
              else (refusal c ''session_ready'')\<lparr>cr_status := SUCCEEDED, cr_session := Some (readySession v)\<rparr>)))))"

section \<open>Starting and stopping agents\<close>

definition outcomeText :: "native_outcome \<Rightarrow> string" where
  "outcomeText x = (case x of NotAttempted \<Rightarrow> ''not_attempted'' | OutcomeUnknown \<Rightarrow> ''unknown'' | Confirmed \<Rightarrow> ''confirmed'')"

definition stageText :: "native_stage \<Rightarrow> string" where
  "stageText x = (case x of CreatePane \<Rightarrow> ''create_pane'' | Launch \<Rightarrow> ''launch'' | Prompt \<Rightarrow> ''prompt'' | ClosePane \<Rightarrow> ''close_pane'')"

definition lifecycleReceipt :: "native_result \<Rightarrow> string \<Rightarrow> string \<Rightarrow> string \<Rightarrow> receipt" where
  "lifecycleReceipt v name incarnation workspace = (let h = nr_handle v in
     \<lparr>lr_handle = Some \<lparr>lh_target = Some \<lparr>at_pane = nh_pane h, at_terminal = nh_terminal h,
          at_agent_session = nh_session h, at_session = name, at_incarnation = incarnation, at_unk = []\<rparr>,
        lh_workspace = (if nh_workspace h = '''' then workspace else nh_workspace h), lh_tab = nh_tab h,
        lh_provider = nh_provider h, lh_unk = []\<rparr>,
      lr_pane = outcomeText (nr_pane v), lr_launch = outcomeText (nr_launch v),
      lr_prompt = outcomeText (nr_prompt v), lr_stop = outcomeText (nr_stop v), lr_observed = nr_status v,
      lr_sequence = 0, lr_stages = [], lr_unk = []\<rparr>)"

definition nativeLifecycleHandle :: "agent_stop \<Rightarrow> native_handle" where
  "nativeLifecycleHandle v = (let t = the (st_target v) in \<lparr>nh_workspace = st_workspace v, nh_tab = st_tab v,
     nh_pane = at_pane t, nh_terminal = at_terminal t, nh_session = at_agent_session t, nh_provider = st_provider v\<rparr>)"

text \<open>The closure \<open>hook\<close>: append the event to the receipt, save it, then offer it to the stream.\<close>

definition publish :: "node_world \<Rightarrow> command \<Rightarrow> receipt \<Rightarrow> ('b node_agent, unit) handler" where
  "publish W c r = bindS (draw (wo_ctx (ww_native W))) (\<lambda>x. case x of
       Some e \<Rightarrow> errS e
     | None \<Rightarrow> putS (\<lambda>s. s\<lparr>an_published := an_published s @ [(c_id c, r)]\<rparr>))"

definition nextReceipt :: "lifecycle_event \<Rightarrow> receipt option \<Rightarrow> string \<Rightarrow> string \<Rightarrow> string \<Rightarrow> receipt" where
  "nextReceipt e prior name incarnation workspace =
     (let next = lifecycleReceipt (le_result e) name incarnation workspace; stage = stageText (le_stage e);
          stages = (case prior of None \<Rightarrow> [] | Some r \<Rightarrow> lr_stages r) @
            [\<lparr>ls_stage = stage, ls_before = le_before e, ls_outcome = LifecycleStageOutcome next stage, ls_unk = []\<rparr>] in
      next\<lparr>lr_stages := stages, lr_sequence := of_nat (length stages)\<rparr>)"

definition lifecycleHook ::
  "'b codecs \<Rightarrow> (string \<Rightarrow> string) \<Rightarrow> handler_options \<Rightarrow> node_world \<Rightarrow> command \<Rightarrow> string \<Rightarrow> string \<Rightarrow> string \<Rightarrow>
   ('b node_agent) hook" where
  "lifecycleHook K H Q W c name incarnation workspace e = bindS (readS an_receipt) (\<lambda>prior.
     let next = nextReceipt e prior name incarnation workspace in
     bindS (journalS W (\<lambda>E. SaveLifecycle E K H (ho_node Q) (c_id c) (Some next))) (\<lambda>_.
     bindS (putS (\<lambda>s. s\<lparr>an_receipt := Some next\<rparr>)) (\<lambda>_. publish W c next)))"

text \<open>
  The closure \<open>CheckSession\<close>: the coordinator and, for a start, the project and the selected workspace are
  confirmed again, then the session itself.
\<close>

definition startStillBound ::
  "node_world \<Rightarrow> 'b node_agent config \<Rightarrow> project_binding \<Rightarrow> agent_start \<Rightarrow> ('b node_agent, unit) handler" where
  "startStillBound W cfg b v = bindS (tryS (resolveManaged (as_project v) (as_revision v))) (\<lambda>r. case r of
       Inl e \<Rightarrow> errS ErrAgentPrecondition
     | Inr current \<Rightarrow> bindS (validBinding (ww_native W) current) (\<lambda>valid.
         bindS (if valid then validBinding (ww_native W) b else okS False) (\<lambda>valid.
         if \<not> valid then errS ErrAgentPrecondition
         else bindS (readS an_cwd) (\<lambda>selected.
           if selected = '''' then okS ()
           else bindS (ownCounter (resolveLifecycleWorkspace (ww_native W) cfg (as_workspace v) current)) (\<lambda>cwd.
             if \<not> sameEndpoint cwd selected then errS ErrAgentChanged else okS ())))))"

definition lifecycleCheck ::
  "node_world \<Rightarrow> command \<Rightarrow> 'b node_agent config \<Rightarrow> project_binding \<Rightarrow> ('b node_agent, unit) handler" where
  "lifecycleCheck W c cfg b = bindS (draw (ww_peer W)) (\<lambda>peer.
     if \<not> is_ok peer then errS (sessionFailure ''authorization_changed'')
     else bindS (case c_start c of None \<Rightarrow> okS () | Some v \<Rightarrow> startStillBound W cfg b v) (\<lambda>_. sessionCheck cfg))"

text \<open>The attempt: the checks, then the adapter; what it returned is only the error.\<close>

definition lifecycleAttempt ::
  "'b codecs \<Rightarrow> (string \<Rightarrow> string) \<Rightarrow> handler_options \<Rightarrow> node_world \<Rightarrow> command \<Rightarrow> string \<Rightarrow> 'b node_agent config \<Rightarrow>
   string \<Rightarrow> project_binding \<Rightarrow> string \<Rightarrow> ('b node_agent, unit) handler" where
  "lifecycleAttempt K H Q W c name base incarnation b workspace =
     (let check = lifecycleCheck W c base b; cfg = base\<lparr>cf_check := Some check\<rparr>;
          hook = lifecycleHook K H Q W c name incarnation workspace in
      bindS check (\<lambda>_.
        if c_start c \<noteq> None then
          bindS (liftS (EffectiveAgentStart (k_pb K) c)) (\<lambda>v.
          bindS (resolveLifecycleWorkspace (ww_native W) cfg (as_workspace v) b) (\<lambda>cwd.
          bindS (putS (\<lambda>s. s\<lparr>an_cwd := cwd\<rparr>)) (\<lambda>_.
          startAgent (ww_native W) cfg \<lparr>sq_workspace = as_workspace v, sq_cwd = cwd, sq_name = as_name v,
            sq_provider = as_provider v, sq_timeout = uint (as_timeout v) * 1000000, sq_prompt = as_prompt v\<rparr> hook)))
        else stopAgent (ww_native W) cfg (nativeLifecycleHandle (the (c_stop c))) hook))"

text \<open>The result: what the durable receipt proves, whatever the adapter said.\<close>

definition lifecycleVerdict :: "command \<Rightarrow> receipt option \<Rightarrow> err option \<Rightarrow> command_result" where
  "lifecycleVerdict c r e =
     (let v = (refusal c (lifecycleErrorDetail e))\<lparr>cr_lifecycle := r\<rparr> in
      if LifecycleHasUnknown r
      then v\<lparr>cr_status := INDETERMINATE, cr_detail := (if e = None then ''lifecycle_uncertain'' else cr_detail v)\<rparr>
      else if LifecycleComplete r c
      then v\<lparr>cr_status := SUCCEEDED, cr_detail := (if c_stop c \<noteq> None then ''agent_stopped'' else ''agent_started'')\<rparr>
      else if LifecycleHasEffect r
      then v\<lparr>cr_status := FAILED, cr_detail := (if e = None then ''lifecycle_partial'' else cr_detail v)\<rparr>
      else if opt_ex (\<lambda>e. errors_is e CtxDeadlineExceeded \<or> errors_is e CtxCanceled) e
      then v\<lparr>cr_status := TIMED_OUT, cr_detail := ''deadline_expired''\<rparr>
      else v)"

definition failureOf :: "'a res \<Rightarrow> err option" where
  "failureOf r = (case r of Inl e \<Rightarrow> Some e | Inr x \<Rightarrow> None)"

text \<open>From the first checkpoint on.\<close>

definition lifecycleRun ::
  "'b codecs \<Rightarrow> (string \<Rightarrow> string) \<Rightarrow> handler_options \<Rightarrow> node_world \<Rightarrow> command \<Rightarrow> string \<Rightarrow> 'b node_agent config \<Rightarrow>
   string \<Rightarrow> project_binding \<Rightarrow> ('b node_agent, command_result) handler" where
  "lifecycleRun K H Q W c name base incarnation b =
     (let workspace = (case c_stop c of Some v \<Rightarrow> st_workspace v | None \<Rightarrow> getter as_workspace (c_start c));
          initial = (case c_stop c of
            Some v \<Rightarrow> newLifecycleResult\<lparr>nr_handle := nativeLifecycleHandle v\<rparr> | None \<Rightarrow> newLifecycleResult);
          receipt = lifecycleReceipt initial name incarnation workspace in
      bindS (putS (\<lambda>s. s\<lparr>an_receipt := Some receipt, an_cwd := ''''\<rparr>)) (\<lambda>_.
      bindS (tryS (journalS W (\<lambda>E. SaveLifecycle E K H (ho_node Q) (c_id c) (Some receipt)))) (\<lambda>saved. case saved of
        Inl e \<Rightarrow>
          if errors_is e ErrLifecycleUnresolved then okS (refusal c ''lifecycle_unresolved'')
          else errS (storageError ''initial lifecycle checkpoint'' e)
      | Inr u \<Rightarrow>
          bindS (tryS (lifecycleAttempt K H Q W c name base incarnation b workspace)) (\<lambda>attempt.
          bindS (tryS (journalS W (\<lambda>E. GetLifecycle E K (ho_node Q) (c_id c)))) (\<lambda>r. case r of
            Inl e \<Rightarrow> errS (storageError ''read final lifecycle checkpoint'' e)
          | Inr final \<Rightarrow> okS (lifecycleVerdict c final (failureOf attempt)))))))"

definition noBinding :: project_binding where
  "noBinding = \<lparr>bn_project = '''', bn_node = '''', bn_revision = '''', bn_path = '''', bn_worktrees = False,
     bn_root = '''', bn_actors = []\<rparr>"

definition lifecycleMutation ::
  "'b codecs \<Rightarrow> (string \<Rightarrow> string) \<Rightarrow> handler_options \<Rightarrow> node_world \<Rightarrow> command \<Rightarrow>
   ('b node_agent, command_result) handler" where
  "lifecycleMutation K H Q W c =
     (if \<not> ho_lifecycle Q \<or> \<not> ho_verifier Q then okS (refusal c ''precondition_failed'')
      else case CommandSession c of (name, expected) \<Rightarrow>
        bindS (selectedAgentReady (k_pb K) Q W name) (\<lambda>ready.
        if \<not> ready then okS (refusal c ''precondition_failed'')
        else bindS (tryS (resolveLifecycleSession Q W name expected)) (\<lambda>r. case r of
            Inl e \<Rightarrow> okS (refusal c (lifecycleErrorDetail (Some e)))
          | Inr (base, incarnation) \<Rightarrow> (case c_start c of
              None \<Rightarrow> lifecycleRun K H Q W c name base incarnation noBinding
            | Some v \<Rightarrow> bindS (tryS (resolveManaged (as_project v) (as_revision v))) (\<lambda>r. case r of
                Inl e \<Rightarrow> okS (refusal c ''project_not_authorized'')
              | Inr b \<Rightarrow> lifecycleRun K H Q W c name base incarnation b)))))"

section \<open>Handling a command\<close>

definition invalidCommand :: "err \<Rightarrow> err" where
  "invalidCommand e = RpcStatus InvalidArgument (Wrap ''invalid command: '' e)"

definition missingCapability :: "handler_options \<Rightarrow> command \<Rightarrow> string option" where
  "missingCapability Q c =
     (if c_type c = WorkspaceEnsureCommandType \<and> \<not> ho_workspaces Q then Some ''workspace''
      else if c_type c = WorktreeCreateCommandType \<and> \<not> ho_worktrees Q then Some ''worktree''
      else if c_type c = AgentControlCommandType \<and> \<not> ho_agents Q then Some ''agent''
      else if c_type c = SessionEnsureCommandType \<and> \<not> ho_session_commands Q then Some ''session''
      else if IsLifecycleCommand (c_type c) \<and> \<not> ho_lifecycle Q then Some ''lifecycle''
      else None)"

text \<open>A full journal: the refusal is remembered only in this process, and only so many of them.\<close>

definition refuseFull :: "command \<Rightarrow> ('b node_agent, command_result) handler" where
  "refuseFull c s = (case tget (an_ephemeral s) (c_id c) of
     Some previous \<Rightarrow>
       if previous\<lparr>c_ttl := c_ttl c\<rparr> \<noteq> c
       then (Inl (RpcStatus InvalidArgument (Msg ''conflicting rejected duplicate command'')), s)
       else (Inr (refusal c ''journal_full''), s)
   | None \<Rightarrow>
       if 64 \<le> length (an_ephemeral s)
       then (Inl (RpcStatus ResourceExhausted (Msg ''too many unacknowledged journal_full results; reconnect required'')), s)
       else (Inr (refusal c ''journal_full''), s\<lparr>an_ephemeral := tput (c_id c) c (an_ephemeral s)\<rparr>))"

definition pastDeadline :: "pb \<Rightarrow> command \<Rightarrow> int \<Rightarrow> int \<Rightarrow> bool" where
  "pastDeadline P c received now = (asTimeOf P (c_expires c) \<le> now \<or>
     received + (case c_ttl c of None \<Rightarrow> 0 | Some d \<Rightarrow> as_duration P d) \<le> now)"

text \<open>
  The executor of the command's type.  An executor that reports only a result is followed by a look at the
  context: a cancellation leaves the durable intent for recovery.
\<close>

definition thenContext ::
  "node_world \<Rightarrow> ('b node_agent, command_result) handler \<Rightarrow> ('b node_agent, command_result) handler" where
  "thenContext W m = bindS m (\<lambda>v. bindS (draw (wo_ctx (ww_native W))) (\<lambda>x. case x of
     Some e \<Rightarrow> errS e | None \<Rightarrow> okS v))"

definition carryOut ::
  "'b codecs \<Rightarrow> (string \<Rightarrow> string) \<Rightarrow> handler_options \<Rightarrow> node_world \<Rightarrow> command \<Rightarrow>
   ('b node_agent, command_result) handler" where
  "carryOut K H Q W c =
     (if IsLifecycleCommand (c_type c) then lifecycleMutation K H Q W c
      else if c_type c = SessionEnsureCommandType then thenContext W (ensureSession Q W c)
      else if c_type c = AgentControlCommandType then thenContext W (agentMutation K H Q W c)
      else if c_type c = WorkspaceEnsureCommandType \<or> c_type c = WorktreeCreateCommandType
      then thenContext W (mutation Q W c)
      else okS ((refusal c ''pong'')\<lparr>cr_status := SUCCEEDED\<rparr>))"

definition complete ::
  "'b codecs \<Rightarrow> handler_options \<Rightarrow> node_world \<Rightarrow> command \<Rightarrow> command_result \<Rightarrow>
   ('b node_agent, command_result) handler" where
  "complete K Q W c v =
     (if \<not> is_ok (ValidateResultForCommand (k_pb K) (Some v) c)
      then errS (RpcStatus InvalidArgument (Msg ''invalid command completion''))
      else bindS (tryS (journalS W (\<lambda>E. Complete E K (ho_node Q) (Some v)))) (\<lambda>r. case r of
          Inr u \<Rightarrow> okS v
        | Inl e \<Rightarrow>
            if errors_is e ErrCommandConflict
            then errS (RpcStatus InvalidArgument (Msg ''conflicting command completion''))
            else errS (storageError ''complete'' e)))"

text \<open>A command the journal has granted to this process.\<close>

definition execute ::
  "'b codecs \<Rightarrow> (string \<Rightarrow> string) \<Rightarrow> handler_options \<Rightarrow> node_world \<Rightarrow> command \<Rightarrow> int \<Rightarrow>
   ('b node_agent, command_result) handler" where
  "execute K H Q W c received = bindS (draw (wo_ctx (ww_native W))) (\<lambda>x. case x of
       Some e \<Rightarrow> errS e
     | None \<Rightarrow> bindS (draw (ww_now W)) (\<lambda>now.
         bindS (if pastDeadline (k_pb K) c received now then okS (expired c) else carryOut K H Q W c) (\<lambda>v.
         complete K Q W c v)))"

text \<open>What \<open>handle\<close> makes of the answer of \<open>Claim\<close>; \<open>late\<close> is the error of the claim's own context.\<close>

definition claimedOr ::
  "'b codecs \<Rightarrow> (string \<Rightarrow> string) \<Rightarrow> handler_options \<Rightarrow> node_world \<Rightarrow> command \<Rightarrow> int \<Rightarrow>
   (command_result option \<times> bool) res \<Rightarrow> err option \<Rightarrow> ('b node_agent, command_result) handler" where
  "claimedOr K H Q W c received claim late = (case claim of
     Inl e \<Rightarrow>
       if errors_is e ErrCommandConflict then errS (RpcStatus InvalidArgument (Msg ''conflicting duplicate command''))
       else if errors_is e ErrCommandCapacity then refuseFull c
       else errS (storageError ''claim'' e)
   | Inr (v, False) \<Rightarrow> (case ValidateResultForCommand (k_pb K) v c of
       Inl e \<Rightarrow> errS (storageError ''replay'' (Wrap ''stored outcome is not terminal: '' e))
     | Inr u \<Rightarrow> okS (the v))
   | Inr (v, True) \<Rightarrow> (case late of
       Some e \<Rightarrow> errS (storageError ''interrupted claim'' e)
     | None \<Rightarrow> execute K H Q W c received))"

definition handle ::
  "'b codecs \<Rightarrow> (string \<Rightarrow> string) \<Rightarrow> handler_options \<Rightarrow> node_world \<Rightarrow> command option \<Rightarrow> int \<Rightarrow>
   ('b node_agent, command_result) handler" where
  "handle K H Q W command received = (case ValidateCommand (k_pb K) command (ho_node Q) of
     Inl e \<Rightarrow> errS (invalidCommand e)
   | Inr u \<Rightarrow> let c = the command in
       (case missingCapability Q c of
          Some what \<Rightarrow> errS (RpcStatus FailedPrecondition (Msg (what @ '' capability was not negotiated'')))
        | None \<Rightarrow> bindS (draw (wo_ctx (ww_native W))) (\<lambda>x. case x of
             Some e \<Rightarrow> errS e
           | None \<Rightarrow> bindS (tryS (journalS W (\<lambda>E. Claim E K (ho_node Q) command))) (\<lambda>claim.
               bindS (draw (wo_ctx (ww_native W))) (\<lambda>late. claimedOr K H Q W c received claim late)))))"

section \<open>Acknowledging a result\<close>

definition acknowledge ::
  "'b codecs \<Rightarrow> handler_options \<Rightarrow> node_world \<Rightarrow> command_ack option \<Rightarrow> ('b node_agent, unit) handler" where
  "acknowledge K Q W ack = (case ack of
     None \<Rightarrow> errS (RpcStatus InvalidArgument (Msg ''invalid command acknowledgement''))
   | Some a \<Rightarrow>
       if \<not> ValidCommandID (ka_id a) \<or> ka_unk a \<noteq> []
       then errS (RpcStatus InvalidArgument (Msg ''invalid command acknowledgement''))
       else bindS (readS (\<lambda>s. tget (an_ephemeral s) (ka_id a))) (\<lambda>held.
         if held \<noteq> None then
           (if ka_status a \<noteq> REJECTED
            then errS (RpcStatus InvalidArgument (Msg ''conflicting journal_full acknowledgement''))
            else putS (\<lambda>s. s\<lparr>an_ephemeral := tdel (ka_id a) (an_ephemeral s)\<rparr>))
         else bindS (tryS (journalS W (\<lambda>E. Acknowledge E K (ho_node Q) (ka_id a) (ka_status a)))) (\<lambda>r. case r of
             Inr u \<Rightarrow> okS ()
           | Inl e \<Rightarrow>
               if errors_is e ErrCommandNotFound \<or> errors_is e ErrCommandConflict
               then errS (RpcStatus InvalidArgument (Wrap ''invalid command acknowledgement: '' e))
               else errS (storageError ''acknowledge'' e))))"

end
