(* ===== verification/NodeSafety.thy ===== *)
theory NodeSafety
  imports NativeSafety NodeHandler
begin

text \<open>
  The hook and the session check of \<open>lifecycleMutation\<close> keep the contract \<open>durable_hook\<close>: what the journal
  holds of a command is what its receipt shows.  From it follows what one lifecycle command puts on the
  socket and what the journal knows of it, for every crash.
\<close>

section \<open>What the journal shows\<close>

definition heldReceipt :: "'b codecs \<Rightarrow> string \<Rightarrow> 'b node_db \<Rightarrow> string \<Rightarrow> receipt option" where
  "heldReceipt K node db i = (case entryAt K node db i of
     None \<Rightarrow> None
   | Some e \<Rightarrow> (case readLifecycle K db (ne_command e) of Inl x \<Rightarrow> None | Inr r \<Rightarrow> r))"

definition receiptShows :: "receipt \<Rightarrow> native_stage \<Rightarrow> native_outcome" where
  "receiptShows r st = (let text = LifecycleStageOutcome r (stageText st) in
     if text = ''not_attempted'' then NotAttempted else if text = ''confirmed'' then Confirmed else OutcomeUnknown)"

definition shownAt :: "'b codecs \<Rightarrow> string \<Rightarrow> string \<Rightarrow> 'b node_db \<Rightarrow> native_stage \<Rightarrow> native_outcome" where
  "shownAt K node i db = (case heldReceipt K node db i of None \<Rightarrow> (\<lambda>st. NotAttempted) | Some r \<Rightarrow> receiptShows r)"

lemma stage_texts:
  "LifecycleStageOutcome r (stageText st) = (case st of CreatePane \<Rightarrow> lr_pane r | Launch \<Rightarrow> lr_launch r
     | Prompt \<Rightarrow> lr_prompt r | ClosePane \<Rightarrow> lr_stop r)"
  by (cases st) (simp_all add: LifecycleStageOutcome_def stageText_def)

lemma receiptShows_first: "receiptShows (lifecycleReceipt v name incarnation workspace) = stageOutcomes v"
proof (rule ext)
  fix st
  have "receiptShows r st = x" if "LifecycleStageOutcome r (stageText st) = outcomeText x" for r x
    using that by (cases x) (simp_all add: receiptShows_def outcomeText_def)
  moreover have "LifecycleStageOutcome (lifecycleReceipt v name incarnation workspace) (stageText st) =
      outcomeText (stageOutcomes v st)"
    by (cases st) (simp_all add: stage_texts lifecycleReceipt_def stageOutcomes_def Let_def)
  ultimately show "receiptShows (lifecycleReceipt v name incarnation workspace) st = stageOutcomes v st"
    by blast
qed

lemma receiptShows_stages: "receiptShows (r\<lparr>lr_stages := a, lr_sequence := n\<rparr>) = receiptShows r"
proof (rule ext)
  fix st show "receiptShows (r\<lparr>lr_stages := a, lr_sequence := n\<rparr>) st = receiptShows r st"
    by (cases st) (simp_all add: receiptShows_def stage_texts)
qed

lemma receiptShows_next: "receiptShows (nextReceipt e prior name incarnation workspace) = stageOutcomes (le_result e)"
  by (simp only: nextReceipt_def Let_def receiptShows_stages receiptShows_first)

section \<open>Saving a checkpoint\<close>

lemma save_shows:
  assumes good: "nodeStoreGood K H node db" and op: "SaveLifecycle E K H node i (Some r) db = (x, db')"
  shows "nodeStoreGood K H node db'" "entryAt K node db' = entryAt K node db"
    "db' = db \<or> shownAt K node i db' = receiptShows r"
    "x = Inr () \<Longrightarrow> shownAt K node i db' = receiptShows r"
    "j \<noteq> i \<Longrightarrow> heldReceipt K node db' j = heldReceipt K node db j"
proof -
  have g: "nodeGood K H node db" using good by (simp add: nodeStoreGood_def)
  show "nodeStoreGood K H node db'"
    using save_storeChange [OF good op] by (simp add: storeChange_def)
  have body: "entryAt K node db' = entryAt K node db \<and> shownAt K node i db' = receiptShows r \<and>
      (j \<noteq> i \<longrightarrow> heldReceipt K node db' j = heldReceipt K node db j)"
    if b: "saveLifecycleBody K H node i (Some r) db = Inr (y, db')" for y
  proof -
    obtain e where e: "entryAt K node db i = Some e" "readLifecycle K db' (ne_command e) = Inr (Some r)"
      "entryAt K node db' = entryAt K node db"
      using saveLifecycleBody_good [OF g b] by auto
    have rows: "tget (nd_lifecycle db') j = tget (nd_lifecycle db) j" if "j \<noteq> i" for j
      using b that
      by (auto simp: saveLifecycleBody_def putLifecycle_def bindR_eq_Inr Let_def tget_tput
          split: if_splits elim!: pinCommandScope_Inr)
    have "heldReceipt K node db' j = heldReceipt K node db j" if "j \<noteq> i"
    proof (cases "entryAt K node db j")
      case None
      then show ?thesis using e by (simp add: heldReceipt_def)
    next
      case (Some d)
      have "readLifecycle K db' (ne_command d) = readLifecycle K db (ne_command d)"
        using rows that entryAt_command(2) [OF Some] by (simp add: readLifecycle_def)
      then show ?thesis using e Some by (simp add: heldReceipt_def)
    qed
    then show ?thesis using e by (simp add: shownAt_def heldReceipt_def)
  qed
  have cases: "db' = db \<or> (\<exists>y. saveLifecycleBody K H node i (Some r) db = Inr (y, db'))"
    using operation_durable [OF op [unfolded SaveLifecycle_def]] by blast
  show "entryAt K node db' = entryAt K node db" "db' = db \<or> shownAt K node i db' = receiptShows r"
    "j \<noteq> i \<Longrightarrow> heldReceipt K node db' j = heldReceipt K node db j"
    using cases body by auto
  assume "x = Inr ()"
  then have "saveLifecycleBody K H node i (Some r) db = Inr ((), db')"
    using operation_Inr(2) [of E "Inr ()" _ db "()" db'] op by (simp add: SaveLifecycle_def)
  then show "shownAt K node i db' = receiptShows r" using body by blast
qed

section \<open>Steps of the agent\<close>

lemma an_db_more: "native.more t = native.more s \<Longrightarrow> an_db t = an_db s"
  by (cases s; cases t) simp

definition blankNative :: native where
  "blankNative = \<lparr>nx_clock = 0, nx_trace = [], nx_next = 0, nx_result = newLifecycleResult, nx_panes = []\<rparr>"

definition storeOf :: "('b, 'y) node_agent_ext \<Rightarrow> 'b node_db" where
  "storeOf z = an_db (native.extend blankNative z)"

lemma storeOf_more [simp]: "storeOf (native.more s) = an_db s"
  by (cases s) (simp add: storeOf_def native.defs)

lemma journalS_facts:
  assumes "journalS W f s = (r, t)"
  shows "\<exists>db. f (ww_store W (nx_clock s)) (an_db s) = (r, db) \<and>
     an_db t = (if alive (ww_native W) s then db else an_db s) \<and> changes t = changes s \<and>
     nx_result t = nx_result s \<and> nx_clock t = nx_clock s + 1"
  using assms by (auto simp: journalS_def tick_def changes_def split: prod.splits)

lemma storeOf_cwd: "storeOf (native.more (s\<lparr>an_cwd := v\<rparr>)) = an_db s"
  using storeOf_more [of "s\<lparr>an_cwd := v\<rparr>"] by simp

text \<open>Steps that neither write to the journal nor change anything through the adapter.\<close>

definition keeps :: "('b, 'y) node_agent_scheme \<Rightarrow> ('b, 'y) node_agent_scheme \<Rightarrow> bool" where
  "keeps s t = (changes t = changes s \<and> an_db t = an_db s \<and> nx_clock s \<le> nx_clock t)"

interpretation keeps: lawful keeps
  by unfold_locales (auto simp: keeps_def)

lemma keeps_harmless: "upholds harmless m \<Longrightarrow> upholds keeps m"
  using an_db_more by (fastforce simp: upholds_def harmless_def keeps_def)

lemma harmless_own: "upholds harmless m \<Longrightarrow> upholds harmless (ownCounter m)"
  by (fastforce simp: upholds_def ownCounter_def harmless_def changes_def split: prod.splits)

lemma harmless_orElse: "upholds harmless m \<Longrightarrow> upholds harmless (orElse e m)"
  unfolding orElse_def by (intro harmless_parts)

lemma harmless_matches: "upholds harmless (matches W a b)"
  unfolding matches_def by (rule harmless_draw)

lemma harmless_binding: "upholds harmless (validBinding W b)"
  unfolding validBinding_def by (rule harmless_draw)

lemma harmless_root: "upholds harmless (validRoot W b)"
  unfolding validRoot_def by (rule harmless_draw)

lemma harmless_done: "upholds harmless (ctxDone W)"
  unfolding ctxDone_def by (intro harmless_parts)

lemma harmless_demand: "upholds harmless (demand e c)"
  unfolding demand_def by (intro harmless_parts)

lemma harmless_pane_directories: "upholds harmless (paneDirectories W w b cwd ps)"
proof (induction ps arbitrary: cwd)
  case Nil
  then show ?case by (simp add: harmless.pure)
next
  case (Cons raw rest)
  then show ?case by (auto intro!: harmless_parts harmless_matches split: sum.split)
qed

lemmas harmless_more = harmless_parts harmless_orElse harmless_matches harmless_binding harmless_root harmless_done
  harmless_demand harmless_pane_directories

text \<open>A pinned session and the closure that checks a lifecycle command only ask.\<close>

definition asks :: "('z native_scheme) config \<Rightarrow> bool" where
  "asks cfg = (\<forall>check. cf_check cfg = Some check \<longrightarrow> upholds harmless check)"

lemma harmless_session: "asks cfg \<Longrightarrow> upholds harmless (sessionCheck cfg)"
  unfolding sessionCheck_def asks_def by (cases "cf_check cfg") (simp_all add: harmless.pure)

lemma harmless_check_session: "asks cfg \<Longrightarrow> upholds harmless (lifecycleCheckSession W cfg)"
  using harmless_session [of cfg] unfolding lifecycleCheckSession_def sessionCheck_def
  by (rule_tac harmless.bind [OF harmless_draw], rule_tac upholds_option, rule_tac harmless.bind)
    (auto intro: harmless.bind harmless.pure harmless_draw harmless_returning)

lemma harmless_resolve_workspace: "asks cfg \<Longrightarrow> upholds harmless (resolveLifecycleWorkspace W cfg w b)"
  unfolding resolveLifecycleWorkspace_def workspaceDirectory_def
  by (intro harmless_more harmless_check_session)

lemma harmless_locate: "upholds harmless (locateSession Q W name expected)"
  unfolding locateSession_def by (intro harmless_more)

lemma asks_session: "asks (sessionConfig Q W name found)"
  unfolding asks_def sessionConfig_def pinSessionConfig_def socketConfig_def
  by (cases found) (auto intro!: harmless_more harmless_locate)

lemma harmless_resolve: "upholds harmless (resolveSession Q W name expected)"
  unfolding resolveSession_def by (intro harmless_more harmless_locate)

lemma harmless_resolve_lifecycle: "upholds harmless (resolveLifecycleSession Q W name expected)"
  unfolding resolveLifecycleSession_def by (intro harmless_more harmless_resolve)

lemma harmless_managed: "upholds harmless (resolveManaged p r)"
  by (auto simp: upholds_def resolveManaged_def harmless.law_refl split: option.splits)

lemma harmless_ready: "upholds harmless (selectedAgentReady P Q W name)"
  unfolding selectedAgentReady_def nodeAgentReady_def by (intro harmless_more)

lemma harmless_lifecycle_check: "asks cfg \<Longrightarrow> upholds harmless (lifecycleCheck W c cfg b)"
  unfolding lifecycleCheck_def startStillBound_def
  by (intro harmless_more harmless_own harmless_managed harmless_resolve_workspace harmless_session)

section \<open>The contract\<close>

lemma hook_facts:
  assumes good: "nodeStoreGood K H (ho_node Q) (an_db s)"
    and run: "lifecycleHook K H Q W c name incarnation workspace e s = (r, t)"
  shows "nodeStoreGood K H (ho_node Q) (an_db t)"
    "changes t = changes s" "stageOutcomes (nx_result t) = stageOutcomes (nx_result s)" "nx_clock s \<le> nx_clock t"
    "shownAt K (ho_node Q) (c_id c) (an_db t) = shownAt K (ho_node Q) (c_id c) (an_db s) \<or>
     shownAt K (ho_node Q) (c_id c) (an_db t) = stageOutcomes (le_result e)"
    "r = Inr () \<Longrightarrow> alive (ww_native W) t \<Longrightarrow> shownAt K (ho_node Q) (c_id c) (an_db t) = stageOutcomes (le_result e)"
    "\<not> alive (ww_native W) s \<Longrightarrow> an_db t = an_db s"
    "entryAt K (ho_node Q) (an_db t) = entryAt K (ho_node Q) (an_db s)"
    "j \<noteq> c_id c \<Longrightarrow> heldReceipt K (ho_node Q) (an_db t) j = heldReceipt K (ho_node Q) (an_db s) j"
proof -
  let ?next = "nextReceipt e (an_receipt s) name incarnation workspace" and ?n = "ho_node Q"
  obtain x u where j: "journalS W (\<lambda>E. SaveLifecycle E K H ?n (c_id c) (Some ?next)) s = (x, u)" by fastforce
  obtain db where db: "SaveLifecycle (ww_store W (nx_clock s)) K H ?n (c_id c) (Some ?next) (an_db s) = (x, db)"
    and u: "an_db u = (if alive (ww_native W) s then db else an_db s)" "changes u = changes s"
      "nx_result u = nx_result s" "nx_clock u = nx_clock s + 1"
    using journalS_facts [OF j] by blast
  note sv = save_shows [OF good db]

  have "t = u \<or> t = tick (u\<lparr>an_receipt := Some ?next\<rparr>) \<or>
      t = (tick (u\<lparr>an_receipt := Some ?next\<rparr>))\<lparr>an_published := an_published u @ [(c_id c, ?next)]\<rparr>"
    using run j by (auto simp: lifecycleHook_def bindS_read Let_def bindS_def handler_steps publish_def draw_def
        tick_def split: sum.splits option.splits)
  then have t: "an_db t = an_db u" "changes t = changes u" "nx_result t = nx_result u" "nx_clock u \<le> nx_clock t"
    by (auto simp: tick_def changes_def)
  have ok: "x = Inr ()" if "r = Inr ()"
    using run j that by (auto simp: lifecycleHook_def bindS_read Let_def bindS_def handler_steps split: sum.splits)
  show "nodeStoreGood K H ?n (an_db t)" using sv(1) good u(1) t(1) by simp
  show "changes t = changes s" "stageOutcomes (nx_result t) = stageOutcomes (nx_result s)" "nx_clock s \<le> nx_clock t"
    using t u by simp_all
  show "shownAt K ?n (c_id c) (an_db t) = shownAt K ?n (c_id c) (an_db s) \<or>
     shownAt K ?n (c_id c) (an_db t) = stageOutcomes (le_result e)"
    using sv(3) u(1) t(1) receiptShows_next by auto
  show "\<not> alive (ww_native W) s \<Longrightarrow> an_db t = an_db s" using u(1) t(1) by simp
  show "entryAt K ?n (an_db t) = entryAt K ?n (an_db s)" using sv(2) u(1) t(1) by simp
  show "j \<noteq> c_id c \<Longrightarrow> heldReceipt K ?n (an_db t) j = heldReceipt K ?n (an_db s) j" using sv(5) u(1) t(1) by simp
  assume "r = Inr ()" and a: "alive (ww_native W) t"
  then have "x = Inr ()" "alive (ww_native W) s" using ok t(4) u(4) by (simp_all add: alive_def)
  then show "shownAt K ?n (c_id c) (an_db t) = stageOutcomes (le_result e)"
    using sv(4) u(1) t(1) receiptShows_next by simp
qed

text \<open>The journal as it was \<open>before\<close>, but for the receipt of the command \<open>i\<close>.\<close>

definition framed :: "'b codecs \<Rightarrow> (string \<Rightarrow> string) \<Rightarrow> string \<Rightarrow> string \<Rightarrow> 'b node_db \<Rightarrow> 'b node_db \<Rightarrow> bool" where
  "framed K H node i before db = (nodeStoreGood K H node db \<and> entryAt K node db = entryAt K node before \<and>
     (\<forall>j. j \<noteq> i \<longrightarrow> heldReceipt K node db j = heldReceipt K node before j))"

text \<open>\<open>lifecycleMutation\<close>'s configuration: the check closure on top of the resolved session.\<close>

definition lifecycleConfig ::
  "handler_options \<Rightarrow> node_world \<Rightarrow> command \<Rightarrow> string \<Rightarrow> string \<times> string \<times> bool \<Rightarrow> project_binding \<Rightarrow>
   'b node_agent config" where
  "lifecycleConfig Q W c name found b = (let base = sessionConfig Q W name found in
     base\<lparr>cf_check := Some (lifecycleCheck W c base b)\<rparr>)"

lemma asks_lifecycle: "asks (lifecycleConfig Q W c name found b)"
  by (auto simp: asks_def lifecycleConfig_def Let_def intro!: harmless_lifecycle_check asks_session)

interpretation node: durable_hook "ww_native W" "lifecycleConfig Q W c name found b"
    "lifecycleHook K H Q W c name incarnation workspace"
    "\<lambda>z. shownAt K (ho_node Q) (c_id c) (storeOf z)" "\<lambda>z. framed K H (ho_node Q) (c_id c) before (storeOf z)"
  for W Q c name found b H incarnation workspace and K :: "'b codecs" and before
proof (unfold_locales, goal_cases)
  case (1 s e r t)
  then have g: "nodeStoreGood K H (ho_node Q) (an_db s)" by (simp add: framed_def)
  show ?case using hook_facts(1-4,8,9) [OF g 1(2)] 1(1) by (simp add: framed_def)
next
  case (2 s e r t)
  then show ?case using hook_facts(5) [of K H Q s] by (simp add: framed_def)
next
  case (3 s e u t)
  then show ?case using hook_facts(6) [of K H Q s] by (simp add: framed_def)
next
  case (4 s e r t)
  then show ?case using hook_facts(7) [of K H Q s] by (simp add: framed_def)
next
  case (5 s check r t)
  then have "harmless s t" using asks_lifecycle upholdsD unfolding asks_def by metis
  then show ?case using 5(1) an_db_more [of t s] by (simp add: harmless_def)
qed

section \<open>One lifecycle command\<close>

definition stagesOf :: "command \<Rightarrow> native_stage list" where
  "stagesOf c = (if c_start c \<noteq> None then startStages (submittedPrompt c) else [ClosePane])"

text \<open>The stages \<open>ss\<close> were sent since the history \<open>base\<close>, and the journal owns up to them and to no more.\<close>

definition owned :: "'b codecs \<Rightarrow> string \<Rightarrow> command \<Rightarrow> string list \<Rightarrow> 'b node_agent \<Rightarrow> bool" where
  "owned K node c base t = (\<exists>ss. prefix ss (stagesOf c) \<and> changes t = base @ map stageMethod ss \<and>
     (\<forall>st\<in>set ss. shownAt K node (c_id c) (an_db t) st \<noteq> NotAttempted) \<and>
     (\<forall>st. shownAt K node (c_id c) (an_db t) st = Confirmed \<longrightarrow> st \<in> set ss))"

lemma owned_none:
  "changes t = base \<Longrightarrow> shownAt K node (c_id c) (an_db t) = (\<lambda>st. NotAttempted) \<Longrightarrow> owned K node c base t"
  unfolding owned_def by (intro exI [of _ "[]"]) simp

lemma attempt_owned:
  fixes s :: "'b node_agent"
  assumes good: "framed K H (ho_node Q) (c_id c) before (an_db s)"
    and none: "shownAt K (ho_node Q) (c_id c) (an_db s) = (\<lambda>st. NotAttempted)"
    and run: "lifecycleAttempt K H Q W c name (sessionConfig Q W name found) incarnation b workspace s = (r, t)"
  shows "framed K H (ho_node Q) (c_id c) before (an_db t) \<and> owned K (ho_node Q) c (changes s) t"
proof -
  let ?base = "sessionConfig Q W name found" and ?n = "ho_node Q"
  let ?cfg = "lifecycleConfig Q W c name found b :: 'b node_agent config"
  let ?hook = "lifecycleHook K H Q W c name incarnation workspace"
  have cfg: "?base\<lparr>cf_check := Some (lifecycleCheck W c ?base b)\<rparr> = ?cfg"
    by (simp add: lifecycleConfig_def Let_def)
  have stop: ?thesis if k: "keeps s t"
    using that good none owned_none [of t "changes s" K ?n c] by (simp add: keeps_def)
  obtain x u where x: "lifecycleCheck W c ?base b s = (x, u)" by fastforce
  have u: "keeps s u"
    using upholdsD [OF keeps_harmless [OF harmless_lifecycle_check [OF asks_session]] x] .
  note step = lifecycleAttempt_def Let_def cfg
  show ?thesis
  proof (cases x)
    case (Inl e)
    then show ?thesis using run x u stop by (simp add: step bindS_def)
  next
    case (Inr y)
    show ?thesis
    proof (cases "c_start c")
      case None
      have "stopAgent (ww_native W) ?cfg (nativeLifecycleHandle (the (c_stop c))) ?hook u = (r, t)"
        using run x Inr None by (simp add: step bindS_def)
      then have "node.part K Q c H before (changes u) [ClosePane] t"
        by (rule node.stop_goes(1) [rotated 2]) (use u good none in \<open>simp_all add: keeps_def\<close>)
      then show ?thesis
        using u None by (auto simp: node.part_def node.recorded_def owned_def stagesOf_def keeps_def)
    next
      case (Some v0)
      note start = this
      show ?thesis
      proof (cases "EffectiveAgentStart (k_pb K) c")
        case (Inl e)
        then have "t = u" using run x Inr start by (simp add: step bindS_def handler_steps)
        then show ?thesis using stop u by simp
      next
        case eff: (Inr v)
        have prompt: "as_prompt v = submittedPrompt c"
          using eff start by (auto simp: EffectiveAgentStart_def split: if_splits)
        obtain y w where w: "resolveLifecycleWorkspace (ww_native W) ?cfg (as_workspace v) b u = (y, w)" by fastforce
        have uw: "keeps u w"
          using upholdsD [OF keeps_harmless [OF harmless_resolve_workspace [OF asks_lifecycle]] w] .
        then have sw: "keeps s w" using u keeps.law_trans by blast
        show ?thesis
        proof (cases y)
          case (Inl e)
          then have "t = w" using run x Inr start eff w by (simp add: step bindS_def handler_steps)
          then show ?thesis using stop sw by simp
        next
          case cwd: (Inr cwd)
          let ?w = "w\<lparr>an_cwd := cwd\<rparr>"
          let ?q = "\<lparr>sq_workspace = as_workspace v, sq_cwd = cwd, sq_name = as_name v, sq_provider = as_provider v,
            sq_timeout = uint (as_timeout v) * 1000000, sq_prompt = as_prompt v\<rparr>"
          have "startAgent (ww_native W) ?cfg ?q ?hook ?w = (r, t)"
            using run x Inr start eff w cwd by (simp add: step bindS_def handler_steps)
          then have "node.part K Q c H before (changes ?w) (startStages (sq_prompt ?q)) t"
            by (rule node.start_goes(1) [rotated 2])
              (use sw good none in \<open>simp_all add: keeps_def storeOf_cwd\<close>)
          moreover have "changes ?w = changes s" using sw by (simp add: keeps_def changes_def)
          ultimately show ?thesis
            using start prompt by (auto simp: node.part_def node.recorded_def owned_def stagesOf_def)
        qed
      qed
    qed
  qed
qed

lemma GetLifecycle_facts:
  assumes good: "nodeStoreGood K H node db" and op: "GetLifecycle E K node i db = (x, db')"
  shows "db' = db" "x = Inr r \<Longrightarrow> r = heldReceipt K node db i"
proof -
  have g: "nodeGood K H node db" using good by (simp add: nodeStoreGood_def)
  show "db' = db"
    using operation_durable [OF op [unfolded GetLifecycle_def]] by (auto simp: bindR_eq_Inr)
  assume "x = Inr r"
  then have "bindR (readNodeEntry K node db i) (\<lambda>e. bindR (readLifecycle K db (ne_command e)) (\<lambda>r. Inr (r, db))) = Inr (r, db')"
    using operation_Inr(2) [of E "Inr ()" _ db r db'] op by (simp add: GetLifecycle_def)
  then show "r = heldReceipt K node db i"
    by (auto simp: bindR_eq_Inr readNodeEntry_eq [OF g] heldReceipt_def split: option.splits)
qed

lemma framed_refl: "nodeStoreGood K H node db \<Longrightarrow> framed K H node i db db"
  by (simp add: framed_def)

lemma framed_trans: "framed K H node i a b \<Longrightarrow> framed K H node i b c \<Longrightarrow> framed K H node i a c"
  by (simp add: framed_def)

lemma owned_frame: "owned K node c base t \<Longrightarrow> changes u = changes t \<Longrightarrow> an_db u = an_db t \<Longrightarrow> owned K node c base u"
  by (simp add: owned_def)

lemma stageOutcomes_first:
  "stageOutcomes (case c_stop c of Some v \<Rightarrow> newLifecycleResult\<lparr>nr_handle := h v\<rparr> | None \<Rightarrow> newLifecycleResult) = (\<lambda>st. NotAttempted)"
  using stageOutcomes_new by (auto simp: fun_eq_iff split: option.splits)

lemma lifecycleRun_owned:
  fixes s :: "'b node_agent"
  assumes good: "nodeStoreGood K H (ho_node Q) (an_db s)"
    and none: "heldReceipt K (ho_node Q) (an_db s) (c_id c) = None"
    and run: "lifecycleRun K H Q W c name (sessionConfig Q W name found) incarnation b s = (r, t)"
  shows "framed K H (ho_node Q) (c_id c) (an_db s) (an_db t)" "owned K (ho_node Q) c (changes s) t"
    "r = Inr v \<Longrightarrow> (\<exists>e. v = lifecycleVerdict c (heldReceipt K (ho_node Q) (an_db t) (c_id c)) e) \<or>
       v = refusal c ''lifecycle_unresolved'' \<and> changes t = changes s"
proof -
  let ?n = "ho_node Q" and ?i = "c_id c" and ?base = "sessionConfig Q W name found"
  define workspace where "workspace = (case c_stop c of Some v \<Rightarrow> st_workspace v | None \<Rightarrow> getter as_workspace (c_start c))"
  define initial where "initial = (case c_stop c of
            Some v \<Rightarrow> newLifecycleResult\<lparr>nr_handle := nativeLifecycleHandle v\<rparr> | None \<Rightarrow> newLifecycleResult)"
  define receipt where "receipt = lifecycleReceipt initial name incarnation workspace"
  let ?s = "s\<lparr>an_receipt := Some receipt, an_cwd := ''''\<rparr>"
  obtain x u where x: "journalS W (\<lambda>E. SaveLifecycle E K H ?n ?i (Some receipt)) ?s = (x, u)" by fastforce
  have s: "an_db ?s = an_db s" "changes ?s = changes s" by (simp_all add: changes_def)
  obtain db where db: "SaveLifecycle (ww_store W (nx_clock ?s)) K H ?n ?i (Some receipt) (an_db s) = (x, db)"
    and u: "an_db u = (if alive (ww_native W) ?s then db else an_db s)" "changes u = changes s"
    using journalS_facts [OF x] s by metis
  note sv = save_shows [OF good db]
  have fu: "framed K H ?n ?i (an_db s) (an_db u)"
    using sv good u(1) by (auto simp: framed_def)
  have "receiptShows receipt = (\<lambda>st. NotAttempted)"
    unfolding receipt_def receiptShows_first initial_def by (rule stageOutcomes_first)
  then have nu: "shownAt K ?n ?i (an_db u) = (\<lambda>st. NotAttempted)"
    using sv(3) u(1) none by (auto simp: shownAt_def)
  note step = lifecycleRun_def Let_def workspace_def [symmetric] initial_def [symmetric] receipt_def [symmetric]
  have "framed K H ?n ?i (an_db s) (an_db t) \<and> owned K ?n c (changes s) t \<and>
    (\<forall>v. r = Inr v \<longrightarrow> (\<exists>e. v = lifecycleVerdict c (heldReceipt K ?n (an_db t) ?i) e) \<or>
       v = refusal c ''lifecycle_unresolved'' \<and> changes t = changes s)"
  proof (cases x)
    case (Inl e)
    then have "t = u" "\<forall>v. r = Inr v \<longrightarrow> v = refusal c ''lifecycle_unresolved''"
      using run x by (auto simp: step bindS_def handler_steps tryS_def split: if_splits)
    then show ?thesis using fu owned_none [OF _ nu] u(2) by simp
  next
    case (Inr y)
    obtain a w where a: "lifecycleAttempt K H Q W c name ?base incarnation b workspace u = (a, w)" by fastforce
    note att = attempt_owned [OF fu nu a]
    obtain z w' where z: "journalS W (\<lambda>E. GetLifecycle E K ?n ?i) w = (z, w')" by fastforce
    obtain db2 where g: "GetLifecycle (ww_store W (nx_clock w)) K ?n ?i (an_db w) = (z, db2)"
      and w': "an_db w' = (if alive (ww_native W) w then db2 else an_db w)" "changes w' = changes w"
      using journalS_facts [OF z] by metis
    have gw: "nodeStoreGood K H ?n (an_db w)" using att by (simp add: framed_def)
    note get = GetLifecycle_facts [OF gw g]
    have same: "an_db w' = an_db w" using w'(1) get(1) by simp
    have "t = w' \<and> (\<forall>v. r = Inr v \<longrightarrow> (\<exists>final. z = Inr final \<and> v = lifecycleVerdict c final (failureOf a)))"
      using run x Inr a z by (auto simp: step bindS_def handler_steps tryS_def split: sum.splits)
    then show ?thesis
      using att get(2) same owned_frame [of K ?n c "changes s" w w'] w'(2) u(2) by metis
  qed
  then show "framed K H (ho_node Q) (c_id c) (an_db s) (an_db t)" "owned K (ho_node Q) c (changes s) t"
    "r = Inr v \<Longrightarrow> (\<exists>e. v = lifecycleVerdict c (heldReceipt K (ho_node Q) (an_db t) (c_id c)) e) \<or>
       v = refusal c ''lifecycle_unresolved'' \<and> changes t = changes s" by blast+
qed

lemma ready_Inr: "\<exists>ready u. selectedAgentReady P Q W name s = (Inr ready, u)"
  by (cases "name = ''''")
    (simp_all add: selectedAgentReady_def nodeAgentReady_def bindS_def handler_steps draw_def)

lemma lifecycleMutation_owned:
  fixes s :: "'b node_agent"
  assumes good: "nodeStoreGood K H (ho_node Q) (an_db s)"
    and none: "heldReceipt K (ho_node Q) (an_db s) (c_id c) = None"
    and run: "lifecycleMutation K H Q W c s = (r, t)"
  shows "framed K H (ho_node Q) (c_id c) (an_db s) (an_db t) \<and> owned K (ho_node Q) c (changes s) t \<and>
    (\<forall>v. r = Inr v \<longrightarrow> (\<exists>e. v = lifecycleVerdict c (heldReceipt K (ho_node Q) (an_db t) (c_id c)) e) \<or>
       (\<exists>detail. v = refusal c detail) \<and> changes t = changes s)"
proof -
  let ?n = "ho_node Q"
  have idle: ?thesis if k: "keeps s t" "\<forall>v. r = Inr v \<longrightarrow> (\<exists>detail. v = refusal c detail)"
  proof -
    have "an_db t = an_db s" "changes t = changes s" using k(1) by (simp_all add: keeps_def)
    then show ?thesis
      using k(2) framed_refl [OF good] owned_none [of t "changes s" K ?n c] none by (simp add: shownAt_def)
  qed
  have go: ?thesis if k: "keeps s u" and l: "lifecycleRun K H Q W c name (sessionConfig Q W name found) inc b u = (r, t)"
    for u name found inc b
  proof -
    have e: "an_db u = an_db s" "changes u = changes s" using k by (simp_all add: keeps_def)
    show ?thesis
      using lifecycleRun_owned [OF _ _ l] good none unfolding e by blast
  qed
  obtain name expected where ses: "CommandSession c = (name, expected)" by fastforce
  obtain rd u where rd: "selectedAgentReady (k_pb K) Q W name s = (Inr rd, u)"
    using ready_Inr by blast
  have u: "keeps s u" using upholdsD [OF keeps_harmless [OF harmless_ready] rd] .
  obtain x w where x: "resolveLifecycleSession Q W name expected u = (x, w)" by fastforce
  have "keeps u w" using upholdsD [OF keeps_harmless [OF harmless_resolve_lifecycle] x] .
  then have w: "keeps s w" using u keeps.law_trans by blast
  note step = lifecycleMutation_def ses rd bindS_def tryS_def x
  show ?thesis
  proof (cases "\<not> ho_lifecycle Q \<or> \<not> ho_verifier Q \<or> \<not> rd")
    case True
    then have "keeps s t \<and> (\<exists>detail. r = Inr (refusal c detail))"
      using run u keeps.law_refl by (auto simp: step handler_steps split: if_splits)
    then show ?thesis using idle by auto
  next
    case False
    show ?thesis
    proof (cases x)
      case (Inl e)
      then have "t = w \<and> (\<exists>detail. r = Inr (refusal c detail))"
        using run False x by (auto simp: step handler_steps bindS_def)
      then show ?thesis using idle w by auto
    next
      case (Inr p)
      obtain base inc where p: "p = (base, inc)" by fastforce
      obtain found where base: "base = sessionConfig Q W name found"
        using x Inr p by (auto simp: resolveLifecycleSession_def resolveSession_def bindS_def handler_steps draw_def
            split: if_splits prod.splits sum.splits)
      show ?thesis
      proof (cases "c_start c")
        case None
        then have "lifecycleRun K H Q W c name (sessionConfig Q W name found) inc noBinding w = (r, t)"
          using run False x Inr p base by (simp add: step handler_steps bindS_def)
        then show ?thesis using go w by blast
      next
        case (Some v)
        obtain y w2 where y: "resolveManaged (as_project v) (as_revision v) w = (y, w2)" by fastforce
        have w2: "keeps s w2"
          using upholdsD [OF keeps_harmless [OF harmless_managed] y] w keeps.law_trans by blast
        show ?thesis
        proof (cases y)
          case (Inl e)
          then have "t = w2 \<and> r = Inr (refusal c ''project_not_authorized'')"
            using run False x Inr p Some y by (auto simp: step handler_steps bindS_def)
          then show ?thesis using idle w2 by auto
        next
          case b: (Inr b)
          then have "lifecycleRun K H Q W c name (sessionConfig Q W name found) inc b w2 = (r, t)"
            using run False x Inr p base Some y by (simp add: step handler_steps bindS_def)
          then show ?thesis using go w2 by blast
        qed
      qed
    qed
  qed
qed

end
