(* ===== verification/NodeActs.thy ===== *)
theory NodeActs
  imports NodeSafety
begin

text \<open>
  What the other executors put on the socket: controlling an agent, ensuring a workspace and creating a
  worktree send one changing request at most, and an answer that rules the effect out means that none was
  sent.  \<open>fires\<close> states this of a handler; its lemmas follow the composition of handlers.
\<close>

section \<open>Steps that only ask and pin\<close>

definition sameStore :: "'b codecs \<Rightarrow> (string \<Rightarrow> string) \<Rightarrow> string \<Rightarrow> 'b node_db \<Rightarrow> 'b node_db \<Rightarrow> bool" where
  "sameStore K H node db db' = (nodeStoreGood K H node db \<longrightarrow> nodeStoreGood K H node db' \<and>
     entryAt K node db' = entryAt K node db \<and> heldReceipt K node db' = heldReceipt K node db)"

definition quiet ::
  "'b codecs \<Rightarrow> (string \<Rightarrow> string) \<Rightarrow> string \<Rightarrow> 'b node_agent \<Rightarrow> 'b node_agent \<Rightarrow> bool" where
  "quiet K H node s t = (changes t = changes s \<and> sameStore K H node (an_db s) (an_db t) \<and> nx_clock s \<le> nx_clock t)"

lemma sameStore_refl [simp]: "sameStore K H node db db"
  by (simp add: sameStore_def)

lemma sameStore_trans: "sameStore K H node a b \<Longrightarrow> sameStore K H node b c \<Longrightarrow> sameStore K H node a c"
  by (simp add: sameStore_def)

interpretation quiet: lawful "quiet K H node" for K H node
  by unfold_locales (auto simp: quiet_def intro: sameStore_trans)

lemma quiet_keeps: "upholds keeps m \<Longrightarrow> upholds (quiet K H node) m"
  by (simp add: upholds_def keeps_def quiet_def)

lemma quiet_harmless: "upholds harmless m \<Longrightarrow> upholds (quiet K H node) m"
  by (rule quiet_keeps [OF keeps_harmless])

lemma quiet_try: "upholds (quiet K H node) m \<Longrightarrow> upholds (quiet K H node) (tryS m)"
  by (auto simp: upholds_def tryS_def split: prod.splits)

lemma pin_sameStore:
  assumes "PinAgentCommand E K H node i incarnation db = (x, db')"
  shows "sameStore K H node db db'"
proof -
  have "nodeStoreGood K H node db' \<and> entryAt K node db' = entryAt K node db \<and>
      heldReceipt K node db' = heldReceipt K node db" if good: "nodeStoreGood K H node db"
  proof -
    have g: "nodeGood K H node db" using good by (simp add: nodeStoreGood_def)
    have inv: "nodeStoreGood K H node db'"
      using nodeStep_change [OF nodeStep.pin [OF assms] good] by (simp add: storeChange_def)
    show ?thesis
    proof (cases "db' = db")
      case False
      then obtain y where b: "pinBody K H node i incarnation db = Inr (y, db')"
        using operation_durable [OF assms [unfolded PinAgentCommand_def]] by auto
      have at: "entryAt K node db' = entryAt K node db" using pinBody_good [OF g b] by blast
      have rows: "nd_lifecycle db' = nd_lifecycle db"
        using b by (auto simp: pinBody_def bindR_eq_Inr split: option.splits if_splits elim!: pinCommandScope_Inr)
      have "readLifecycle K db' = readLifecycle K db" by (simp add: readLifecycle_def rows fun_eq_iff)
      then have "heldReceipt K node db' j = heldReceipt K node db j" for j
        by (simp only: heldReceipt_def at)
      then show ?thesis using inv at by auto
    qed (simp add: good)
  qed
  then show ?thesis by (simp add: sameStore_def)
qed

lemma quiet_pin: "upholds (quiet K H node) (journalS W (\<lambda>E. PinAgentCommand E K H node i incarnation))"
  unfolding upholds_def
proof (intro allI impI)
  fix s t :: "'a node_agent" and r
  assume "journalS W (\<lambda>E. PinAgentCommand E K H node i incarnation) s = (r, t)"
  from journalS_facts [OF this] show "quiet K H node s t"
    using pin_sameStore by (auto simp: quiet_def)
qed

text \<open>The check of a session may pin the command, but sends nothing.\<close>

definition calmCheck :: "'b codecs \<Rightarrow> (string \<Rightarrow> string) \<Rightarrow> string \<Rightarrow> 'b node_agent config \<Rightarrow> bool" where
  "calmCheck K H node cfg = upholds (quiet K H node) (sessionCheck cfg)"

lemma calm_session: "calmCheck K H node (sessionConfig Q W name found)"
  unfolding calmCheck_def by (rule quiet_harmless [OF harmless_session [OF asks_session]])

lemma calm_control: "calmCheck K H (ho_node Q) cfg \<Longrightarrow> calmCheck K H (ho_node Q) (controlSession K H Q W c cfg incarnation)"
  by (simp add: calmCheck_def controlSession_def sessionCheck_def quiet.bind quiet_pin)

section \<open>Handlers that send one request at most\<close>

text \<open>
  \<open>maybe\<close> holds of an answer that leaves it open whether the request was sent, \<open>surely\<close> of one that says it
  was.
\<close>

definition fires ::
  "'b codecs \<Rightarrow> (string \<Rightarrow> string) \<Rightarrow> string \<Rightarrow> world \<Rightarrow> string \<Rightarrow> ('a res \<Rightarrow> bool) \<Rightarrow> ('a res \<Rightarrow> bool) \<Rightarrow>
   ('b node_agent, 'a) handler \<Rightarrow> bool" where
  "fires K H node W method maybe surely m = (\<forall>s r t. m s = (r, t) \<longrightarrow>
     sameStore K H node (an_db s) (an_db t) \<and> nx_clock s \<le> nx_clock t \<and>
     (changes t = changes s \<or> changes t = changes s @ [method] \<and> maybe r \<and> alive W s) \<and>
     (surely r \<and> alive W t \<longrightarrow> changes t = changes s @ [method]))"

lemma firesD:
  assumes "fires K H node W method maybe surely m" and "m s = (r, t)"
  shows "sameStore K H node (an_db s) (an_db t)" "nx_clock s \<le> nx_clock t"
    "changes t = changes s \<or> changes t = changes s @ [method] \<and> maybe r \<and> alive W s"
    "surely r \<Longrightarrow> alive W t \<Longrightarrow> changes t = changes s @ [method]"
  using assms by (simp_all add: fires_def)

lemma fires_idle:
  assumes "upholds (quiet K H node) m" and "\<And>s r t. m s = (r, t) \<Longrightarrow> \<not> surely r"
  shows "fires K H node W method maybe surely m"
  using assms by (auto simp: fires_def upholds_def quiet_def)

lemma fires_known:
  assumes m: "upholds (quiet K H node) m"
    and f: "\<And>s x t. m s = (Inr x, t) \<Longrightarrow> fires K H node W method maybe surely (f x)"
    and no: "\<And>e. \<not> surely (Inl e)"
  shows "fires K H node W method maybe surely (bindS m f)"
  unfolding fires_def
proof (intro allI impI)
  fix s r t assume b: "bindS m f s = (r, t)"
  obtain x u where x: "m s = (x, u)" by fastforce
  have u: "quiet K H node s u" using upholdsD [OF m x] .
  show "sameStore K H node (an_db s) (an_db t) \<and> nx_clock s \<le> nx_clock t \<and>
     (changes t = changes s \<or> changes t = changes s @ [method] \<and> maybe r \<and> alive W s) \<and>
     (surely r \<and> alive W t \<longrightarrow> changes t = changes s @ [method])"
  proof (cases x)
    case (Inl e)
    then show ?thesis using b x u no by (auto simp: bindS_def quiet_def)
  next
    case (Inr y)
    then have "f y u = (r, t)" using b x by (simp add: bindS_def)
    note d = firesD [OF f [OF x [unfolded Inr]] this]
    have "sameStore K H node (an_db s) (an_db t)" "nx_clock s \<le> nx_clock t" "changes u = changes s"
      "alive W u \<Longrightarrow> alive W s"
      using u d(1,2) by (auto simp: quiet_def alive_def intro: sameStore_trans)
    then show ?thesis using d(3,4) by auto
  qed
qed

lemma fires_before:
  assumes "upholds (quiet K H node) m" and "\<And>x. fires K H node W method maybe surely (f x)" and "\<And>e. \<not> surely (Inl e)"
  shows "fires K H node W method maybe surely (bindS m f)"
  by (rule fires_known [OF assms(1) assms(2) assms(3)])

lemma fires_after:
  assumes m: "fires K H node W method maybe' surely' m" and f: "\<And>x. upholds (quiet K H node) (f x)"
    and fail: "\<And>e. maybe' (Inl e) \<Longrightarrow> maybe (Inl e)" and no: "\<And>e. \<not> surely (Inl e)"
    and maybe: "\<And>x s r t. f x s = (r, t) \<Longrightarrow> maybe' (Inr x) \<Longrightarrow> maybe r"
    and surely: "\<And>x s r t. f x s = (r, t) \<Longrightarrow> surely r \<Longrightarrow> surely' (Inr x)"
  shows "fires K H node W method maybe surely (bindS m f)"
  unfolding fires_def
proof (intro allI impI)
  fix s r t assume b: "bindS m f s = (r, t)"
  obtain x u where x: "m s = (x, u)" by fastforce
  note d = firesD [OF m x]
  show "sameStore K H node (an_db s) (an_db t) \<and> nx_clock s \<le> nx_clock t \<and>
     (changes t = changes s \<or> changes t = changes s @ [method] \<and> maybe r \<and> alive W s) \<and>
     (surely r \<and> alive W t \<longrightarrow> changes t = changes s @ [method])"
  proof (cases x)
    case (Inl e)
    then show ?thesis using b x d no fail by (auto simp: bindS_def)
  next
    case (Inr y)
    then have fy: "f y u = (r, t)" using b x by (simp add: bindS_def)
    have q: "quiet K H node u t" using upholdsD [OF f fy] .
    then have ch: "changes t = changes u" by (simp add: quiet_def)
    have "alive W u" if "alive W t" using that q by (simp add: quiet_def alive_def)
    then show ?thesis
      using d(1,2,3) d(4) q maybe [OF fy] surely [OF fy] Inr
      by (auto simp: ch quiet_def intro: sameStore_trans)
  qed
qed

lemma fires_try:
  assumes "fires K H node W method maybe surely m"
  shows "fires K H node W method (\<lambda>r. \<exists>x. r = Inr x \<and> maybe x) (\<lambda>r. \<exists>x. r = Inr x \<and> surely x) (tryS m)"
  using assms by (fastforce simp: fires_def tryS_def split: prod.splits)

lemma fires_weaken:
  assumes "fires K H node W method maybe surely m" and "\<And>r. maybe r \<Longrightarrow> maybe' r" and "\<And>r. surely' r \<Longrightarrow> surely r"
  shows "fires K H node W method maybe' surely' m"
  using assms by (fastforce simp: fires_def)

lemma fires_send:
  assumes "\<not> observing method"
  shows "fires K H node W method (\<lambda>r. True) (\<lambda>r. is_ok r) (agentRequest W method ty ps)"
  unfolding fires_def
proof (intro allI impI)
  fix s :: "'a node_agent" and r t assume b: "agentRequest W method ty ps s = (r, t)"
  have "t = tick (s\<lparr>nx_next := nx_next s + 1,
      nx_trace := (if alive W s then nx_trace s @ [Sent method ps] else nx_trace s)\<rparr>)"
    using b by (cases "wo_answer W (nx_clock s)")
      (auto simp: agentRequest_def bindS_def send_def handler_steps tick_def split: sum.splits)
  then show "sameStore K H node (an_db s) (an_db t) \<and> nx_clock s \<le> nx_clock t \<and>
     (changes t = changes s \<or> changes t = changes s @ [method] \<and> True \<and> alive W s) \<and>
     (is_ok r \<and> alive W t \<longrightarrow> changes t = changes s @ [method])"
    using assms by (auto simp: tick_def changes_def alive_def)
qed

text \<open>A request whose failure becomes the sentinel of an unknown outcome.\<close>

lemma agentFailure_is: "agentFailure W e s = (r, t) \<Longrightarrow> errors_is e e \<Longrightarrow> \<exists>x. r = Inr x \<and> errors_is x e"
  by (auto simp: agentFailure_def bindS_def draw_def handler_steps joined_def split: option.splits if_splits)

lemma failWith_is: "failWith W e s = (r, t) \<Longrightarrow> errors_is e e \<Longrightarrow> \<exists>x. r = Inl x \<and> errors_is x e"
  using agentFailure_is [of W e s]
  by (cases "agentFailure W e s") (fastforce simp: failWith_def bindS_def handler_steps)

definition doubted :: "err \<Rightarrow> 'a res \<Rightarrow> bool" where
  "doubted e r = (\<forall>x. r = Inl x \<longrightarrow> errors_is x e)"

lemma doubted_simps [simp]: "doubted e (Inr x)" "doubted e (Inl y) \<longleftrightarrow> errors_is y e"
  by (simp_all add: doubted_def)

lemma orFail_doubted:
  assumes "orFail W e m s = (r, t)" and "errors_is e e"
  shows "doubted e r"
proof -
  obtain x u where "m s = (x, u)" by fastforce
  then have "(case x of Inl y \<Rightarrow> failWith W e | Inr y \<Rightarrow> okS y) u = (r, t)"
    using assms(1) by (simp add: orFail_def bindS_def tryS_def)
  then show ?thesis using failWith_is [OF _ assms(2), of W u r t] by (auto simp: handler_steps split: sum.splits)
qed

lemma fires_orFail:
  assumes "fires K H node W method maybe (\<lambda>r. is_ok r) m" and "errors_is e e"
  shows "fires K H node W method (doubted e) (\<lambda>r. is_ok r) (orFail W e m)"
  unfolding orFail_def
proof (rule fires_after [OF fires_try [OF assms(1)]])
  fix x :: "'c res" and s r t
  assume "(case x of Inl y \<Rightarrow> failWith W e | Inr y \<Rightarrow> okS y) s = (r, t)"
  then show "doubted e r" "is_ok r \<Longrightarrow> \<exists>y. Inr x = Inr y \<and> is_ok y"
    using failWith_is [OF _ assms(2), of W s r t] by (auto simp: handler_steps is_ok_iff split: sum.splits)
next
  fix x :: "'c res" show "upholds (quiet K H node) (case x of Inl y \<Rightarrow> failWith W e | Inr y \<Rightarrow> okS y)"
    by (intro upholds_cases quiet.pure quiet_harmless [OF harmless_fail])
qed auto

lemma fires_orElse:
  assumes "fires K H node W method maybe (\<lambda>r. is_ok r) m"
  shows "fires K H node W method (\<lambda>r. \<forall>x. r = Inl x \<longrightarrow> x = e) (\<lambda>r. is_ok r) (orElse e m)"
  unfolding orElse_def
proof (rule fires_after [OF fires_try [OF assms]])
  fix x :: "'c res" and s r t
  assume "(case x of Inl y \<Rightarrow> errS e | Inr y \<Rightarrow> okS y) s = (r, t)"
  then show "\<forall>x. r = Inl x \<longrightarrow> x = e" "is_ok r \<Longrightarrow> \<exists>y. Inr x = Inr y \<and> is_ok y"
    by (auto simp: handler_steps is_ok_iff split: sum.splits)
next
  fix x :: "'c res" show "upholds (quiet K H node) (case x of Inl y \<Rightarrow> errS e | Inr y \<Rightarrow> okS y)"
    by (intro upholds_cases quiet.pure)
qed auto

lemma fires_err: "(\<And>e. \<not> surely (Inl e)) \<Longrightarrow> fires K H node W method maybe surely (errS x)"
  by (rule fires_idle [OF quiet.pure(2)]) (auto simp: handler_steps)

lemma fires_lift:
  assumes "\<And>x. p = Inr x \<Longrightarrow> fires K H node W method maybe surely (f x)" and "\<And>e. \<not> surely (Inl e)"
  shows "fires K H node W method maybe surely (bindS (liftS p) f)"
proof (cases p)
  case (Inl e)
  then have "bindS (liftS p) f = errS e" by (rule_tac ext) (simp add: bindS_lift handler_steps)
  then show ?thesis by (simp only: fires_err assms(2) not_False_eq_True)
next
  case (Inr x)
  then have "bindS (liftS p) f = f x" by (rule_tac ext) (simp add: bindS_lift)
  then show ?thesis using assms(1) Inr by simp
qed

lemma fires_option:
  "fires K H node W method maybe surely m \<Longrightarrow> (\<And>x. fires K H node W method maybe surely (f x)) \<Longrightarrow>
   fires K H node W method maybe surely (case v of None \<Rightarrow> m | Some x \<Rightarrow> f x)"
  by (cases v) simp_all

lemma fires_sum:
  "(\<And>e. fires K H node W method maybe surely (f e)) \<Longrightarrow> (\<And>x. fires K H node W method maybe surely (g x)) \<Longrightarrow>
   fires K H node W method maybe surely (case v of Inl e \<Rightarrow> f e | Inr x \<Rightarrow> g x)"
  by (cases v) simp_all

lemma fires_if:
  "fires K H node W method maybe surely a \<Longrightarrow> fires K H node W method maybe surely b \<Longrightarrow>
   fires K H node W method maybe surely (if p then a else b)"
  by simp

lemma fires_prod:
  "(\<And>a b. p = (a, b) \<Longrightarrow> fires K H node W method maybe surely (f a b)) \<Longrightarrow>
   fires K H node W method maybe surely (case p of (a, b) \<Rightarrow> f a b)"
  by (cases p) simp

lemma fires_let:
  "fires K H node W method maybe surely (f x) \<Longrightarrow> fires K H node W method maybe surely (Let x f)"
  by simp

lemma not_ok_Inl: "\<not> is_ok (Inl e)"
  by (simp add: is_ok_iff)

lemmas fires_steps = fires_let fires_prod fires_if fires_sum fires_option fires_err not_ok_Inl

section \<open>The executors\<close>

text \<open>The changing requests a command may ask for, in the order of their sending.\<close>

definition controlMethod :: "agent_control \<Rightarrow> string" where
  "controlMethod v = (if ag_action v = ACTION_PROMPT then ''agent.prompt'' else ''agent.send_keys'')"

definition planOf :: "command \<Rightarrow> string list" where
  "planOf c =
     (if IsLifecycleCommand (c_type c) then map stageMethod (stagesOf c)
      else if c_type c = AgentControlCommandType then [controlMethod (the (c_control c))]
      else if c_type c = WorkspaceEnsureCommandType then [''worktree.open'']
      else if c_type c = WorktreeCreateCommandType then [''worktree.create'']
      else [])"

lemma changing_methods:
  "\<not> observing ''agent.prompt''" "\<not> observing ''agent.send_keys''" "\<not> observing ''worktree.open''"
  "\<not> observing ''worktree.create''"
  by code_simp+

lemma controlPlan_method: "controlPlan v pane before = Inr (method, ty, ps) \<Longrightarrow> method = controlMethod v"
  by (auto simp: controlPlan_def controlMethod_def split: if_splits control_action.splits)

lemma errors_self: "errors_is ErrAgentIndeterminate ErrAgentIndeterminate"
  by (simp add: ErrAgentIndeterminate_def)

lemma quiet_done: "upholds (quiet K H node) (ctxDone W)"
  by (rule quiet_harmless [OF harmless_done])

lemma quiet_draw: "upholds (quiet K H node) (draw f)"
  by (rule quiet_harmless [OF harmless_draw])

lemma controlMethod_changes: "\<not> observing (controlMethod v)"
  using changing_methods by (simp add: controlMethod_def)

lemma controlObserved_doubted:
  "controlObserved W v target before ack s = (r, t) \<Longrightarrow> doubted ErrAgentIndeterminate r"
  unfolding controlObserved_def by (rule orFail_doubted [OF _ errors_self])

lemma quiet_controlObserved: "upholds (quiet K H node) (controlObserved W v target before ack)"
  unfolding controlObserved_def by (rule quiet_harmless) (intro harmless_more)

lemma control_fires:
  assumes "calmCheck K H node cfg"
  shows "fires K H node W (controlMethod v) (doubted ErrAgentIndeterminate) (\<lambda>r. is_ok r) (controlAgent W cfg (Some v))"
proof -
  have tail: "fires K H node W (controlMethod v) (doubted ErrAgentIndeterminate) (\<lambda>r. is_ok r)
      (bindS (orFail W ErrAgentIndeterminate (agentRequest W (controlMethod v) ty ps)) (\<lambda>ack.
         bindS (controlObserved W v target before ack) (\<lambda>observed.
         bindS (ctxDone W) (\<lambda>done. if done then failWith W ErrAgentIndeterminate else okS (out observed)))))" for ty ps target before out
  proof (rule fires_after [OF fires_orFail [OF fires_send [OF controlMethod_changes] errors_self]])
    fix ack show "upholds (quiet K H node) (bindS (controlObserved W v target before ack) (\<lambda>observed.
         bindS (ctxDone W) (\<lambda>done. if done then failWith W ErrAgentIndeterminate else okS (out observed))))"
      by (intro quiet.bind quiet_controlObserved quiet_done upholds_cases quiet_harmless [OF harmless_fail] quiet.pure)
  next
    fix ack s r t assume "bindS (controlObserved W v target before ack) (\<lambda>observed.
         bindS (ctxDone W) (\<lambda>done. if done then failWith W ErrAgentIndeterminate else okS (out observed))) s = (r, t)"
    then have "(\<exists>x u. controlObserved W v target before ack s = (Inl x, u) \<and> r = Inl x) \<or>
        (\<exists>u. failWith W ErrAgentIndeterminate u = (r, t)) \<or> is_ok r"
      by (auto simp: bindS_def ctxDone_def draw_def handler_steps is_ok_iff split: prod.splits sum.splits if_splits)
    then show "doubted ErrAgentIndeterminate r"
      using controlObserved_doubted failWith_is [OF _ errors_self] by (fastforce simp: is_ok_iff)
  qed (auto simp: is_ok_iff)
  show ?thesis
    unfolding controlAgent_def option.case
    by (intro fires_before [OF quiet_draw] fires_before [OF quiet_harmless [OF harmless_observer]]
        fires_before [OF quiet_harmless [OF harmless_getAgent]] fires_steps fires_lift
        fires_before [OF assms [unfolded calmCheck_def]])
      (hypsubst, drule controlPlan_method, simp only: tail)+
qed

lemma harmless_scan: "upholds harmless (scanWorkspaces W b seen ws)"
proof (induction ws arbitrary: seen)
  case Nil
  then show ?case by (simp add: harmless.pure)
next
  case (Cons raw rest)
  then show ?case unfolding scanWorkspaces.simps by (intro harmless_more Cons.IH)
qed

lemma harmless_workspace_observer: "upholds harmless (workspaceObserver W cfg)"
  unfolding workspaceObserver_def by (intro harmless_more)

lemma harmless_request_else: "observing method \<Longrightarrow> upholds harmless (orElse e (agentRequest W method ty ps))"
  by (intro harmless_orElse harmless_request)

lemma harmless_rpc_else: "observing method \<Longrightarrow> upholds harmless (orElse e (rpc W method ty))"
  by (intro harmless_orElse harmless_rpc)

text \<open>The answer is a success or the sentinel itself.\<close>

definition exactly :: "err \<Rightarrow> 'a res \<Rightarrow> bool" where
  "exactly e r = (\<forall>x. r = Inl x \<longrightarrow> x = e)"

lemma exactly_simps [simp]: "exactly e (Inr x)" "exactly e (Inl y) \<longleftrightarrow> y = e"
  by (auto simp: exactly_def)

lemma fires_exactly:
  assumes "\<not> observing method"
  shows "fires K H node W method (exactly e) (\<lambda>r. is_ok r) (orElse e (agentRequest W method ty ps))"
  using fires_orElse [OF fires_send [OF assms]] by (simp add: exactly_def [abs_def])

lemma opened_exactly: "openedWorkspace W b seen created s = (r, t) \<Longrightarrow> exactly ErrWorkspaceIndeterminate r"
  by (auto simp: openedWorkspace_def matches_def validBinding_def ctxDone_def draw_def bindS_def handler_steps
      split: sum.splits prod.splits if_splits)

lemma harmless_opened: "upholds harmless (openedWorkspace W b seen created)"
  unfolding openedWorkspace_def by (intro harmless_more)

lemma ensure_fires:
  assumes "calmCheck K H node cfg"
  shows "fires K H node W ''worktree.open'' (exactly ErrWorkspaceIndeterminate)
    (\<lambda>r. \<exists>v. r = Inr v \<and> wer_created v) (ensureWorkspace W cfg b)"
proof -
  have tail: "fires K H node W ''worktree.open'' (exactly ErrWorkspaceIndeterminate) (\<lambda>r. \<exists>v. r = Inr v \<and> wer_created v)
      (bindS (orElse ErrWorkspaceIndeterminate (agentRequest W ''worktree.open'' ty ps)) (openedWorkspace W b seen))"
    for ty ps seen
    by (rule fires_after [OF fires_exactly [OF changing_methods(3)] quiet_harmless [OF harmless_opened]])
      (auto dest: opened_exactly simp: is_ok_iff)
  have present: "fires K H node W ''worktree.open'' (exactly ErrWorkspaceIndeterminate) (\<lambda>r. \<exists>v. r = Inr v \<and> wer_created v)
      (okS (ensured b m False))" for m
    by (rule fires_idle [OF quiet.pure(1)]) (auto simp: handler_steps ensured_def)
  have no: "\<not> (\<exists>v. Inl e = Inr v \<and> wer_created v)" for e :: err by simp
  have list: "(case ms of [] \<Rightarrow> a | m # rest \<Rightarrow> f m) = (if ms = [] then a else f (hd ms))" for ms :: "string list" and a f
    by (cases ms) simp_all
  show ?thesis
    unfolding ensureWorkspace_def list
    by (intro fires_before [OF quiet_harmless [OF harmless_binding]] fires_before [OF quiet_done]
        fires_before [OF quiet_harmless [OF harmless_workspace_observer]]
        fires_before [OF quiet_harmless [OF harmless_rpc_else]] fires_before [OF quiet_harmless [OF harmless_scan]]
        fires_before [OF assms [unfolded calmCheck_def]] fires_let fires_prod fires_if fires_sum fires_option fires_err
        no present observing_methods)
      (rule tail)
qed

lemma harmless_git: "upholds harmless (gitRun W cwd args)"
  unfolding gitRun_def by (intro harmless_more)

lemma harmless_git_read: "upholds harmless (gitRead W cwd args)"
  unfolding gitRead_def by (intro harmless_more harmless_git)

lemma harmless_git_state: "upholds harmless (gitState W cwd)"
  unfolding gitState_def by (intro harmless_more harmless_git harmless_git_read)

lemma harmless_git_before: "upholds harmless (gitPreconditions W cwd branch base)"
  unfolding gitPreconditions_def by (intro harmless_more harmless_git harmless_git_read harmless_git_state)

lemma harmless_git_after: "upholds harmless (gitPostconditions W cwd destination branch base before)"
  unfolding gitPostconditions_def by (intro harmless_more harmless_git_state)

lemma harmless_trees: "upholds harmless (worktreeLoop W destination branch paths ids trees)"
proof (induction trees arbitrary: paths ids)
  case Nil
  then show ?case by (simp add: harmless.pure)
next
  case (Cons raw rest)
  then show ?case unfolding worktreeLoop.simps by (intro harmless_more Cons.IH)
qed

lemma harmless_listed: "upholds harmless (validateWorktreeList W listed b destination branch)"
  unfolding validateWorktreeList_def by (intro harmless_more harmless_trees)

lemma harmless_destination: "upholds harmless (destinationOf W b name)"
  unfolding destinationOf_def by (rule harmless_draw)

lemma harmless_base: "upholds harmless (baseCommit W b request)"
  unfolding baseCommit_def by (intro harmless_more harmless_git_read)

lemma harmless_created: "upholds harmless (createdWorktree W b request destination before created)"
  unfolding createdWorktree_def by (intro harmless_more harmless_git_after)

lemma created_exactly: "createdWorktree W b q destination before created s = (r, t) \<Longrightarrow> exactly ErrWorkspaceIndeterminate r"
  unfolding createdWorktree_def orElse_def
  by (auto simp: bindS_def tryS_def handler_steps split: sum.splits prod.splits)

lemma create_fires:
  assumes "calmCheck K H node cfg"
  shows "fires K H node W ''worktree.create'' (exactly ErrWorkspaceIndeterminate) (\<lambda>r. is_ok r) (createWorktree W cfg b request)"
proof -
  have tail: "fires K H node W ''worktree.create'' (exactly ErrWorkspaceIndeterminate) (\<lambda>r. is_ok r)
      (bindS (orElse ErrWorkspaceIndeterminate (agentRequest W ''worktree.create'' ty ps)) (createdWorktree W b q destination before))"
    for ty ps q destination before
    by (rule fires_after [OF fires_exactly [OF changing_methods(4)] quiet_harmless [OF harmless_created]])
      (auto dest: created_exactly simp: is_ok_iff)
  show ?thesis
    unfolding createWorktree_def
    by (intro fires_before [OF quiet_harmless [OF harmless_base]] fires_before [OF quiet_done] fires_before [OF quiet_draw]
        fires_before [OF quiet_harmless [OF harmless_destination]] fires_before [OF quiet_harmless [OF harmless_demand]]
        fires_before [OF quiet_harmless [OF harmless_workspace_observer]]
        fires_before [OF quiet_harmless [OF harmless_request_else [OF observing_methods(7)]]]
        fires_before [OF quiet_harmless [OF harmless_listed]] fires_before [OF quiet_harmless [OF harmless_git_before]]
        fires_before [OF assms [unfolded calmCheck_def]] fires_steps)
      (rule tail)
qed

end
