(* ===== verification/NodeOutcomes.thy ===== *)
theory NodeOutcomes
  imports NodeActs
begin

text \<open>
  The result a node reports for a command and what it put on the socket for it: a result that rules the
  effect out was not preceded by a changing request, a result that claims the effect was.
\<close>

section \<open>What a result says\<close>

definition ruledOut :: "command_result \<Rightarrow> bool" where
  "ruledOut v = (cr_status v = REJECTED \<or> cr_status v = TIMED_OUT)"

definition claimsEffect :: "command_result \<Rightarrow> bool" where
  "claimsEffect v = (cr_status v = SUCCEEDED \<and> cr_detail v \<noteq> ''workspace_present'')"

lemma result_says [simp]:
  "ruledOut (refusal c d)" "\<not> claimsEffect (refusal c d)" "ruledOut (expired c)" "\<not> claimsEffect (expired c)"
  "\<not> ruledOut (uncertain c d)" "\<not> claimsEffect (uncertain c d)"
  by (simp_all add: ruledOut_def claimsEffect_def refusal_def expired_def uncertain_def)

definition leavesOpen :: "command_result res \<Rightarrow> bool" where
  "leavesOpen r = (\<forall>v. r = Inr v \<longrightarrow> \<not> ruledOut v)"

definition claims :: "command_result res \<Rightarrow> bool" where
  "claims r = (\<exists>v. r = Inr v \<and> claimsEffect v)"

lemma says_simps [simp]:
  "leavesOpen (Inl e)" "leavesOpen (Inr v) \<longleftrightarrow> \<not> ruledOut v" "\<not> claims (Inl e)" "claims (Inr v) \<longleftrightarrow> claimsEffect v"
  by (simp_all add: leavesOpen_def claims_def)

abbreviation answers ::
  "'b codecs \<Rightarrow> (string \<Rightarrow> string) \<Rightarrow> string \<Rightarrow> world \<Rightarrow> string \<Rightarrow> ('b node_agent, command_result) handler \<Rightarrow> bool" where
  "answers K H node W method m \<equiv> fires K H node W method leavesOpen claims m"

lemma answers_ok: "\<not> claimsEffect v \<Longrightarrow> answers K H node W method (okS v)"
  by (rule fires_idle [OF quiet.pure(1)]) (auto simp: handler_steps)

lemma answers_err: "answers K H node W method (errS e)"
  by (rule fires_err) simp

lemma answers_before:
  "upholds (quiet K H node) m \<Longrightarrow> (\<And>x. answers K H node W method (f x)) \<Longrightarrow> answers K H node W method (bindS m f)"
  by (rule fires_before) simp_all

lemmas answers_steps = answers_before answers_ok answers_err fires_let fires_prod fires_if fires_sum fires_option
  quiet_done quiet_draw

lemma answers_verified:
  "answers K H node (ww_native W) method m \<Longrightarrow> answers K H node (ww_native W) method (verified W c detail m)"
  unfolding verified_def by (intro answers_steps result_says)

lemma answers_context:
  assumes "answers K H node (ww_native W) method m"
  shows "answers K H node (ww_native W) method (thenContext W m)"
  unfolding thenContext_def
proof (rule fires_after [OF assms])
  fix x :: command_result and s r t
  assume "bindS (draw (wo_ctx (ww_native W))) (\<lambda>c. case c of Some e \<Rightarrow> errS e | None \<Rightarrow> okS x) s = (r, t)"
  then have "(\<exists>e. r = Inl e) \<or> r = Inr x" by (auto simp: bindS_def draw_def handler_steps split: option.splits)
  then show "leavesOpen r" if "leavesOpen (Inr x)" using that by auto
  show "claims (Inr x)" if "claims r" using \<open>(\<exists>e. r = Inl e) \<or> r = Inr x\<close> that by auto
qed (auto intro!: quiet.bind quiet_draw quiet.pure upholds_cases)

section \<open>Sessions that were resolved\<close>

lemma quiet_resolve: "upholds (quiet K H node) (resolveSession Q W name expected)"
  by (rule quiet_harmless [OF harmless_resolve])

lemma quiet_resolve_lifecycle: "upholds (quiet K H node) (resolveLifecycleSession Q W name expected)"
  by (rule quiet_harmless [OF harmless_resolve_lifecycle])

lemma resolved_config: "resolveSession Q W name expected s = (Inr (cfg, i), t) \<Longrightarrow> \<exists>found. cfg = sessionConfig Q W name found"
  by (auto simp: resolveSession_def bindS_def handler_steps split: prod.splits sum.splits)

lemma resolved_lifecycle_config:
  "resolveLifecycleSession Q W name expected s = (Inr (cfg, i), t) \<Longrightarrow> \<exists>found. cfg = sessionConfig Q W name found"
  by (auto simp: resolveLifecycleSession_def bindS_def handler_steps draw_def split: sum.splits if_splits
      simp del: split_paired_Ex dest: resolved_config)

lemma resolved_calm:
  "resolveSession Q W name expected s = (Inr (cfg, i), t) \<Longrightarrow> calmCheck K H node cfg"
  "resolveLifecycleSession Q W name expected s = (Inr (cfg, i), t) \<Longrightarrow> calmCheck K H node cfg"
  by (auto dest: resolved_config resolved_lifecycle_config simp: calm_session simp del: split_paired_Ex)

text \<open>The session is resolved again after the effect; if that fails the outcome is unknown.\<close>

definition confirmed ::
  "handler_options \<Rightarrow> node_world \<Rightarrow> command \<Rightarrow> string \<Rightarrow> string \<Rightarrow> command_result \<Rightarrow>
   ('b node_agent, command_result) handler" where
  "confirmed Q W c name incarnation v =
     (if incarnation = '''' then okS v
      else bindS (tryS (resolveSession Q W name incarnation)) (\<lambda>r.
        okS (if is_ok r then v else uncertain c ''herdr_outcome_unknown'')))"

lemma quiet_confirmed: "upholds (quiet K H node) (confirmed Q W c name incarnation v)"
  unfolding confirmed_def by (intro upholds_cases quiet.pure quiet.bind quiet_try quiet_resolve)

lemma confirmed_result:
  "confirmed Q W c name incarnation v s = (r, t) \<Longrightarrow> r = Inr v \<or> r = Inr (uncertain c ''herdr_outcome_unknown'')"
  by (auto simp: confirmed_def bindS_def tryS_def handler_steps split: if_splits prod.splits)

section \<open>Controlling an agent\<close>

lemma controlFailure_says:
  "\<not> claimsEffect (controlFailure c e)" "errors_is e ErrAgentIndeterminate \<Longrightarrow> \<not> ruledOut (controlFailure c e)"
  by (simp_all add: controlFailure_def)

lemma controlSuccess_says: "\<not> ruledOut (controlSuccess c name incarnation v)"
  by (simp add: controlSuccess_def ruledOut_def refusal_def)

lemma control_fires_any:
  assumes "calmCheck K H node cfg"
  shows "fires K H node W (controlMethod (the v)) (doubted ErrAgentIndeterminate) (\<lambda>r. is_ok r) (controlAgent W cfg v)"
proof (cases v)
  case None
  then show ?thesis
    unfolding controlAgent_def None option.case by (intro fires_before [OF quiet_draw] fires_steps)
qed (simp add: control_fires assms)

lemma controlled_answers:
  assumes "calmCheck K H node cfg"
  shows "answers K H node (ww_native W) (controlMethod (the (c_control c))) (controlled Q W c name cfg incarnation)"
proof -
  have eq: "controlled Q W c name cfg incarnation = bindS (tryS (controlAgent (ww_native W) cfg (c_control c)))
      (\<lambda>r. case r of Inl e \<Rightarrow> okS (controlFailure c e)
       | Inr v \<Rightarrow> confirmed Q W c name incarnation (controlSuccess c name incarnation v))"
    unfolding controlled_def confirmed_def ..
  show ?thesis
    unfolding eq
  proof (rule fires_after [OF fires_try [OF control_fires_any [OF assms]]])
    fix x :: "agent_control_result res" and s :: "'a node_agent" and r t
    assume f: "(case x of Inl e \<Rightarrow> okS (controlFailure c e)
       | Inr v \<Rightarrow> confirmed Q W c name incarnation (controlSuccess c name incarnation v)) s = (r, t)"
    show "leavesOpen r" if "\<exists>y. Inr x = Inr y \<and> doubted ErrAgentIndeterminate y"
      using f that controlFailure_says controlSuccess_says
      by (cases x) (auto simp: handler_steps dest: confirmed_result)
    show "\<exists>y. Inr x = Inr y \<and> is_ok y" if "claims r"
      using f that controlFailure_says by (cases x) (auto simp: handler_steps is_ok_iff)
  qed (auto intro!: upholds_cases quiet.pure quiet_confirmed)
qed

lemma agentMutation_answers:
  "answers K H (ho_node Q) (ww_native W) (controlMethod (the (c_control c))) (agentMutation K H Q W c)"
proof -
  have found: "answers K H (ho_node Q) (ww_native W) (controlMethod (the (c_control c)))
      (bindS (tryS (bindS (resolveSession Q W name expected) (\<lambda>found.
           if lifecycleScopeAvailable Q name then resolveLifecycleSession Q W name expected else okS found))) (\<lambda>r. case r of
         Inl e \<Rightarrow> okS (refusal c (sessionError e))
       | Inr (cfg, incarnation) \<Rightarrow>
           if \<not> lifecycleScopeAvailable Q name then controlled Q W c name cfg incarnation
           else let pinned = controlSession K H Q W c cfg incarnation in
             bindS (tryS (sessionCheck pinned)) (\<lambda>r. case r of
               Inl e \<Rightarrow> okS (refusal c (lifecycleErrorDetail (Some e)))
             | Inr u \<Rightarrow> controlled Q W c name pinned incarnation)))" for name expected
  proof (rule fires_known)
    fix s :: "'a node_agent" and x t
    assume x: "tryS (bindS (resolveSession Q W name expected) (\<lambda>found.
           if lifecycleScopeAvailable Q name then resolveLifecycleSession Q W name expected else okS found)) s = (Inr x, t)"
    have calm: "calmCheck K H (ho_node Q) cfg" if "x = Inr (cfg, i)" for cfg i
      using x that resolved_calm
      by (fastforce simp: tryS_def bindS_def handler_steps split: prod.splits sum.splits if_splits)
    show "answers K H (ho_node Q) (ww_native W) (controlMethod (the (c_control c))) (case x of
         Inl e \<Rightarrow> okS (refusal c (sessionError e))
       | Inr (cfg, incarnation) \<Rightarrow>
           if \<not> lifecycleScopeAvailable Q name then controlled Q W c name cfg incarnation
           else let pinned = controlSession K H Q W c cfg incarnation in
             bindS (tryS (sessionCheck pinned)) (\<lambda>r. case r of
               Inl e \<Rightarrow> okS (refusal c (lifecycleErrorDetail (Some e)))
             | Inr u \<Rightarrow> controlled Q W c name pinned incarnation))"
    proof (cases x)
      case (Inl e)
      then show ?thesis by (simp add: answers_ok)
    next
      case (Inr p)
      obtain cfg i where p: "p = (cfg, i)" by fastforce
      note k = calm [OF Inr [unfolded p]]
      note kp = calm_control [OF k, of W c i]
      show ?thesis
        unfolding Inr p sum.case prod.case
        by (intro answers_steps result_says controlled_answers k kp quiet_try kp [unfolded calmCheck_def])
    qed
  qed (auto intro!: quiet_try quiet.bind quiet_resolve quiet_resolve_lifecycle quiet.pure upholds_cases)
  show ?thesis
    unfolding agentMutation_def
    by (intro answers_steps result_says answers_verified found quiet_harmless [OF harmless_ready])
qed

section \<open>Workspaces and worktrees\<close>

definition mutationMethod :: "command \<Rightarrow> string" where
  "mutationMethod c = (if c_type c = WorktreeCreateCommandType then ''worktree.create'' else ''worktree.open'')"

lemma mutationFailure_says:
  "\<not> claimsEffect (mutationFailure c e)" "\<not> ruledOut (mutationFailure c ErrWorkspaceIndeterminate)"
  by (simp_all add: mutationFailure_def ErrWorkspaceIndeterminate_def ErrWorkspacePrecondition_def
      ErrWorkspaceAmbiguous_def ErrWorkspaceUnavailable_def)

definition spoiled :: "command_result res \<Rightarrow> bool" where
  "spoiled r = (exactly ErrWorkspaceIndeterminate r \<and> leavesOpen r)"

lemma spoiled_simps [simp]:
  "spoiled (Inl e) \<longleftrightarrow> e = ErrWorkspaceIndeterminate" "spoiled (Inr v) \<longleftrightarrow> \<not> ruledOut v"
  by (simp_all add: spoiled_def)

lemma execute_fires:
  assumes calm: "calmCheck K H node cfg"
  shows "fires K H node (ww_native W) (mutationMethod c) spoiled claims (executeMutation Q W c cfg name incarnation b)"
proof (cases "c_type c = WorktreeCreateCommandType")
  case True
  have "fires K H node (ww_native W) ''worktree.create'' spoiled claims
      (bindS (createWorktree (ww_native W) cfg b (the (c_worktree c))) (\<lambda>v. okS ((refusal c ''worktree_created'')\<lparr>
        cr_status := SUCCEEDED, cr_worktree := Some (v\<lparr>wcr_session := name, wcr_incarnation := incarnation\<rparr>)\<rparr>)))"
    by (rule fires_after [OF create_fires [OF calm]])
      (auto intro: quiet.pure simp: handler_steps is_ok_iff ruledOut_def claimsEffect_def)
  then show ?thesis using True by (simp add: executeMutation_def mutationMethod_def)
next
  case False
  have "fires K H node (ww_native W) ''worktree.open'' spoiled claims
      (bindS (ensureWorkspace (ww_native W) cfg b) (\<lambda>v.
          okS ((refusal c (if wer_created v then ''workspace_created'' else ''workspace_present''))\<lparr>
            cr_status := SUCCEEDED,
            cr_workspace := Some (v\<lparr>wer_session := name, wer_incarnation := incarnation\<rparr>)\<rparr>)))"
    by (rule fires_after [OF ensure_fires [OF calm]])
      (auto intro: quiet.pure simp: handler_steps ruledOut_def claimsEffect_def refusal_def split: if_splits)
  then show ?thesis using False by (simp add: executeMutation_def mutationMethod_def)
qed

lemma executed_answers:
  assumes "calmCheck K H node cfg"
  shows "answers K H node (ww_native W) (mutationMethod c)
    (bindS (tryS (executeMutation Q W c cfg name incarnation b)) (\<lambda>r. case r of
       Inl e \<Rightarrow> okS (mutationFailure c e) | Inr v \<Rightarrow> confirmed Q W c name incarnation v))"
proof (rule fires_after [OF fires_try [OF execute_fires [OF assms]]])
  fix x :: "command_result res" and s :: "'a node_agent" and r t
  assume f: "(case x of Inl e \<Rightarrow> okS (mutationFailure c e) | Inr v \<Rightarrow> confirmed Q W c name incarnation v) s = (r, t)"
  show "leavesOpen r" if "\<exists>y. Inr x = Inr y \<and> spoiled y"
    using f that mutationFailure_says by (cases x) (auto simp: handler_steps dest: confirmed_result)
  show "\<exists>y. Inr x = Inr y \<and> claims y" if "claims r"
    using f that mutationFailure_says by (cases x) (auto simp: handler_steps dest: confirmed_result)
qed (auto intro!: upholds_cases quiet.pure quiet_confirmed)

lemma quiet_binding: "upholds (quiet K H node) (bindingOf Q c)"
  unfolding bindingOf_def by (intro upholds_cases quiet.pure quiet_harmless [OF harmless_managed])

lemma mutation_answers: "answers K H (ho_node Q) (ww_native W) (mutationMethod c) (mutation Q W c)"
proof -
  have found: "answers K H (ho_node Q) (ww_native W) (mutationMethod c)
      (bindS (tryS (resolveSession Q W name expected)) (\<lambda>r. case r of
         Inl e \<Rightarrow> okS (refusal c (sessionError e))
       | Inr (cfg, incarnation) \<Rightarrow> bindS (tryS (executeMutation Q W c cfg name incarnation b)) (\<lambda>r. case r of
           Inl e \<Rightarrow> okS (mutationFailure c e) | Inr v \<Rightarrow> confirmed Q W c name incarnation v)))" for name expected b
  proof (rule fires_known [OF quiet_try [OF quiet_resolve]])
    fix s :: "'a node_agent" and x t
    assume x: "tryS (resolveSession Q W name expected) s = (Inr x, t)"
    have calm: "calmCheck K H (ho_node Q) cfg" if "x = Inr (cfg, i)" for cfg i
      using x that resolved_calm by (fastforce simp: tryS_def split: prod.splits)
    show "answers K H (ho_node Q) (ww_native W) (mutationMethod c) (case x of
         Inl e \<Rightarrow> okS (refusal c (sessionError e))
       | Inr (cfg, incarnation) \<Rightarrow> bindS (tryS (executeMutation Q W c cfg name incarnation b)) (\<lambda>r. case r of
           Inl e \<Rightarrow> okS (mutationFailure c e) | Inr v \<Rightarrow> confirmed Q W c name incarnation v))"
    proof (cases x)
      case (Inl e)
      then show ?thesis by (simp add: answers_ok)
    next
      case (Inr p)
      obtain cfg i where p: "p = (cfg, i)" by fastforce
      show ?thesis
        unfolding Inr p sum.case prod.case by (rule executed_answers [OF calm [OF Inr [unfolded p]]])
    qed
  qed simp
  show ?thesis
    unfolding mutation_def confirmed_def [symmetric]
    by (intro answers_steps result_says answers_verified found quiet_try quiet_binding)
qed

section \<open>Every executor that is not a lifecycle\<close>

lemma harmless_verified: "upholds harmless m \<Longrightarrow> upholds harmless (verified W c detail m)"
  unfolding verified_def by (intro harmless_more)

lemma harmless_ensure_session: "upholds harmless (ensureSession Q W c)"
  unfolding ensureSession_def defaultSession_def by (intro harmless_more harmless_verified)

lemma harmless_context: "upholds harmless m \<Longrightarrow> upholds harmless (thenContext W m)"
  unfolding thenContext_def by (intro harmless_more)

text \<open>What was sent is a prefix of the plan, none of it if the answer rules it out, all if it claims it.\<close>

definition effected ::
  "'b codecs \<Rightarrow> (string \<Rightarrow> string) \<Rightarrow> handler_options \<Rightarrow> node_world \<Rightarrow> command \<Rightarrow>
   ('b node_agent, command_result) handler \<Rightarrow> bool" where
  "effected K H Q W c m = (\<forall>s r t. m s = (r, t) \<longrightarrow> sameStore K H (ho_node Q) (an_db s) (an_db t) \<and>
     nx_clock s \<le> nx_clock t \<and> (\<exists>sent. changes t = changes s @ sent \<and> prefix sent (planOf c) \<and>
       (sent \<noteq> [] \<longrightarrow> alive (ww_native W) s) \<and>
       (\<forall>v. r = Inr v \<longrightarrow> (ruledOut v \<longrightarrow> sent = []) \<and>
          (claimsEffect v \<and> alive (ww_native W) t \<longrightarrow> sent = planOf c))))"

lemma effected_answers:
  assumes "answers K H (ho_node Q) (ww_native W) method m" and "planOf c = [method]"
  shows "effected K H Q W c m"
  unfolding effected_def
proof (intro allI impI)
  fix s r t assume "m s = (r, t)"
  note d = firesD [OF assms(1) this]
  show "sameStore K H (ho_node Q) (an_db s) (an_db t) \<and>
     nx_clock s \<le> nx_clock t \<and> (\<exists>sent. changes t = changes s @ sent \<and> prefix sent (planOf c) \<and>
       (sent \<noteq> [] \<longrightarrow> alive (ww_native W) s) \<and>
       (\<forall>v. r = Inr v \<longrightarrow> (ruledOut v \<longrightarrow> sent = []) \<and>
          (claimsEffect v \<and> alive (ww_native W) t \<longrightarrow> sent = planOf c)))"
  proof (cases "changes t = changes s")
    case True
    then show ?thesis using d(1,2,4) by (auto intro!: exI [of _ "[]"] simp: assms(2))
  next
    case False
    then show ?thesis using d(1,2,3) by (auto intro!: exI [of _ "[method]"] simp: assms(2))
  qed
qed

lemma effected_quiet:
  assumes "upholds (quiet K H (ho_node Q)) m" and "planOf c = []"
  shows "effected K H Q W c m"
  using assms by (auto simp: effected_def upholds_def quiet_def)

lemmas effect_types = AgentControlCommandType_def WorkspaceEnsureCommandType_def WorktreeCreateCommandType_def
  SessionEnsureCommandType_def AgentStartCommandType_def AgentStopCommandType_def

lemma carryOut_effected:
  assumes "\<not> IsLifecycleCommand (c_type c)"
  shows "effected K H Q W c (carryOut K H Q W c)"
proof -
  consider (session) "c_type c = SessionEnsureCommandType" | (control) "c_type c = AgentControlCommandType"
    | (mutation) "c_type c = WorkspaceEnsureCommandType \<or> c_type c = WorktreeCreateCommandType"
    | (other) "c_type c \<noteq> SessionEnsureCommandType" "c_type c \<noteq> AgentControlCommandType"
        "c_type c \<noteq> WorkspaceEnsureCommandType" "c_type c \<noteq> WorktreeCreateCommandType"
    by blast
  then show ?thesis
  proof cases
    case session
    then have "planOf c = []" "carryOut K H Q W c = thenContext W (ensureSession Q W c)"
      using assms by (simp_all add: planOf_def carryOut_def effect_types)
    then show ?thesis
      using effected_quiet [OF quiet_harmless [OF harmless_context [OF harmless_ensure_session]]] by simp
  next
    case control
    then have "planOf c = [controlMethod (the (c_control c))]" "carryOut K H Q W c = thenContext W (agentMutation K H Q W c)"
      using assms by (simp_all add: planOf_def carryOut_def effect_types)
    then show ?thesis using effected_answers [OF answers_context [OF agentMutation_answers]] by simp
  next
    case mutation
    then have "planOf c = [mutationMethod c]" "carryOut K H Q W c = thenContext W (mutation Q W c)"
      using assms by (auto simp: planOf_def carryOut_def mutationMethod_def effect_types)
    then show ?thesis using effected_answers [OF answers_context [OF mutation_answers]] by simp
  next
    case other
    then have "planOf c = []" "carryOut K H Q W c = okS ((refusal c ''pong'')\<lparr>cr_status := SUCCEEDED\<rparr>)"
      using assms by (simp_all add: planOf_def carryOut_def)
    then show ?thesis using effected_quiet [OF quiet.pure(1)] by simp
  qed
qed

end
