(* ===== verification/SampleNode.thy ===== *)
theory SampleNode
  imports Node SampleRun
begin

text \<open>
  A concrete run of a node's journal: a probe and a start command are claimed, the probe is answered and
  acknowledged, the start saves its first receipts, a project configuration arrives.
\<close>

definition sampleDigest :: "string \<Rightarrow> string" where
  "sampleDigest s = replicate 64 (CHR ''d'')"

definition probeRow :: "command_status \<Rightarrow> command \<Rightarrow> command_result option \<Rightarrow> int \<Rightarrow> blob node_row" where
  "probeRow st c v d = \<lparr>nw_status = st, nw_delivered = d, nw_command = BCommand c, nw_result = map_option BResult v\<rparr>"

definition nodeOf :: "command \<Rightarrow> blob node_db" where
  "nodeOf c = emptyNode\<lparr>nd_commands := [(sampleId, probeRow RUNNING c None 0)]\<rparr>"

definition answered :: "int \<Rightarrow> blob node_db" where
  "answered d = emptyNode\<lparr>nd_commands := [(sampleId, probeRow SUCCEEDED probeCommand (Some pong) d)]\<rparr>"

lemma emptyNode_simps [simp]:
  "nd_commands emptyNode = []" "nd_lifecycle emptyNode = []" "nd_scopes emptyNode = []" "nd_projects emptyNode = []"
  by (simp_all add: emptyNode_def)

lemma emptyNode_good: "nodeStoreGood sampleCodecs H node emptyNode"
  by (rule nodeStoreGood_empty [OF sampleCodecs_ok])

lemma emptyNode_entry [simp]: "entryAt K node emptyNode i = None"
  by (simp add: entryAt_def tget_def)

section \<open>Claims\<close>

lemma sampleCommand_decode:
  "\<not> command_unknown c \<Longrightarrow> decodeCommandMessage command_unknown (k_command sampleCodecs) (BCommand c) = Inr c"
  by (simp add: decodeCommandMessage_def maxCommandBytes_def)

lemma nodeOf_decode:
  assumes "c = probeCommand \<or> c = startCommand"
  shows "decodeEntry sampleCodecs ''node-1'' (sampleId, probeRow RUNNING c None 0) = Inr (undecided c)"
  using assms messages_known validateCommand_sample
  by (auto simp: decodeEntry_def probeRow_def sampleCommand_decode undecided_def probe_fields start_fields)

lemma nodeOf_at:
  assumes "c = probeCommand \<or> c = startCommand"
  shows "entryAt sampleCodecs ''node-1'' (nodeOf c) i = (if i = sampleId then Some (undecided c) else None)"
  using nodeOf_decode [OF assms] by (simp add: entryAt_def nodeOf_def tget_def)

lemma empty_fence: "checkNodeLifecycleFence sampleCodecs ''node-1'' emptyNode c inc = Inr ()"
  by (simp add: checkNodeLifecycleFence_def readNodeEntries_def tselect_def)

lemma nodeOf_claim:
  assumes "c = probeCommand \<or> c = startCommand"
  shows "Claim calm sampleCodecs ''node-1'' (Some c) emptyNode = (Inr (None, True), nodeOf c)"
proof -
  have good: "nodeGood sampleCodecs sampleDigest ''node-1'' emptyNode"
    using emptyNode_good by (simp add: nodeStoreGood_def)
  have m: "marshalCommandMessage command_unknown (k_command sampleCodecs) c = Inr (BCommand c)"
    using assms messages_known by (auto simp: marshalCommandMessage_def marshalBounded_def maxCommandBytes_def)
  have i: "claimIntent sampleCodecs c (BCommand c) emptyNode = Inr ((None, True), nodeOf c)"
    using assms by (auto simp: claimIntent_def insertNodeRow_def nodeRowOk_def storedNodeStatus_def nodeOf_def
        probeRow_def tget_def probe_fields start_fields)
  have "IsLifecycleCommand (c_type c) \<or> fst (CommandProject c) = ''''"
    using assms by (auto simp: CommandProject_def projectOf_def IsLifecycleCommand_def command_types
        AgentStartCommandType_def probe_fields start_fields)
  then have "claimNew sampleCodecs ''node-1'' c emptyNode = Inr ((None, True), nodeOf c)"
    using i by (auto simp: claimNew_def m empty_fence maxCommands_def)
  then have "claimBody sampleCodecs ''node-1'' c emptyNode = Inr ((None, True), nodeOf c)"
    by (simp add: claimBody_def readNodeEntry_eq [OF good])
  then show ?thesis using assms validateCommand_sample by (auto simp: Claim_def calm_operation)
qed

lemma nodeOf_good:
  assumes "c = probeCommand \<or> c = startCommand"
  shows "nodeStoreGood sampleCodecs sampleDigest ''node-1'' (nodeOf c)"
  using nodeStep_change [OF nodeStep.claim [OF nodeOf_claim [OF assms]] emptyNode_good]
  by (simp add: storeChange_def)

section \<open>The answer\<close>

lemma pong_known: "\<not> result_unknown pong"
  by (simp add: result_unknown_def pong_def emptyResult_def)

lemma answered_decode:
  assumes "d = 0 \<or> d = 1"
  shows "decodeEntry sampleCodecs ''node-1'' (sampleId, probeRow SUCCEEDED probeCommand (Some pong) d) =
    Inr (decided probeCommand pong (d = 1))"
proof -
  have "decodeResult sampleCodecs (Some (BResult pong)) = Inr pong"
    using pong_known by (simp add: decodeResult_def decodeCommandMessage_def maxCommandBytes_def)
  moreover have "cr_id pong = sampleId" "cr_status pong = SUCCEEDED" by (simp_all add: pong_def)
  ultimately show ?thesis
    using assms messages_known validateCommand_sample pong_valid(1)
    by (auto simp: decodeEntry_def probeRow_def sampleCommand_decode decided_def probe_fields)
qed

lemma answered_at:
  "d = 0 \<or> d = 1 \<Longrightarrow> entryAt sampleCodecs ''node-1'' (answered d) i =
     (if i = sampleId then Some (decided probeCommand pong (d = 1)) else None)"
  using answered_decode by (simp add: entryAt_def answered_def tget_def)

lemma probe_complete: "Complete calm sampleCodecs ''node-1'' (Some pong) (nodeOf probeCommand) = (Inr (), answered 0)"
proof -
  have good: "nodeGood sampleCodecs sampleDigest ''node-1'' (nodeOf probeCommand)"
    using nodeOf_good [of probeCommand] by (simp add: nodeStoreGood_def)
  have f: "cr_id pong = sampleId" "cr_status pong = SUCCEEDED" by (simp_all add: pong_def)
  have m: "marshalCommandMessage result_unknown (k_result sampleCodecs) pong = Inr (BResult pong)"
    using pong_known by (simp add: marshalCommandMessage_def marshalBounded_def maxCommandBytes_def)
  have w: "writeNodeResult sampleCodecs probeCommand pong (nodeOf probeCommand) = Inr (answered 0)"
    using pong_valid(1) m f by (simp add: writeNodeResult_def nodeOf_def answered_def tget_def probeRow_def
        nodeRowOk_def storedNodeStatus_def Let_def)
  have "\<not> IsLifecycleCommand (c_type probeCommand)"
    by (simp add: IsLifecycleCommand_def command_types AgentStartCommandType_def AgentStopCommandType_def probe_fields)
  then have "completeBody sampleCodecs ''node-1'' pong (nodeOf probeCommand) = Inr ((), answered 0)"
    using w pong_valid(1) f nodeOf_at [of probeCommand sampleId]
    by (simp add: completeBody_def readNodeEntry_eq [OF good] conflictOf_def cong del: bindR_cong)
  then show ?thesis using pong_valid(2) by (simp add: Complete_def calm_operation conflictOf_def)
qed

lemma answered_good: "nodeStoreGood sampleCodecs sampleDigest ''node-1'' (answered 0)"
  using nodeStep_change [OF nodeStep.complete [OF probe_complete] nodeOf_good] by (simp add: storeChange_def)

lemma probe_acknowledge:
  "Acknowledge calm sampleCodecs ''node-1'' sampleId SUCCEEDED (answered 0) = (Inr (), answered 1)"
proof -
  have good: "nodeGood sampleCodecs sampleDigest ''node-1'' (answered 0)"
    using answered_good by (simp add: nodeStoreGood_def)
  have "acknowledgeBody sampleCodecs ''node-1'' sampleId SUCCEEDED (answered 0) = Inr ((), answered 1)"
    using answered_at [of 0 sampleId]
    by (simp add: acknowledgeBody_def readNodeEntry_eq [OF good])
      (simp add: answered_def tget_def probeRow_def nodeRowOk_def storedNodeStatus_def pong_def)
  moreover have "\<not> blank sampleId" by (simp add: sampleId_def eval_text list_all_iff)
  ultimately show ?thesis by (simp add: Acknowledge_def calm_operation)
qed

section \<open>Receipts\<close>

definition startedNode :: "receipt \<Rightarrow> blob node_db" where
  "startedNode r = (nodeOf startCommand)\<lparr>
     nd_lifecycle := [(sampleId, \<lparr>lw_sequence = lr_sequence r, lw_receipt = BReceipt r\<rparr>)],
     nd_scopes := [(sampleId, \<lparr>sw_incarnation = sampleIncarnation, sw_workspace = sampleDigest '''',
       sw_terminal = sampleDigest ''''\<rparr>)]\<rparr>"

lemma sampleKey: "i = ''w1'' \<or> i = ''t1'' \<Longrightarrow> k = ''workspace'' \<or> k = ''terminal'' \<Longrightarrow>
    optionalKey sampleDigest ''node-1'' sampleIncarnation k i = Inr (sampleDigest '''')"
  by (auto simp: optionalKey_def lifecycleResourceKey_def ValidIdempotencyKey_def ValidSessionIncarnation_def sampleDigest_def)

lemma receipts_known: "\<not> receipt_unknown paneReceipt" "\<not> receipt_unknown launchReceipt"
  by (simp_all add: receipt_unknown_def paneReceipt_def launchReceipt_def sampleHandle_def sampleTarget_def lh_unknown_def
      at_unknown_def stageEvent_def)

lemma receipt_handle:
  assumes "r = paneReceipt \<or> r = launchReceipt"
  shows "lr_handle r = Some sampleHandle" "lh_target sampleHandle = Some sampleTarget" "lh_workspace sampleHandle = ''w1''"
    "at_terminal sampleTarget = ''t1''" "at_incarnation sampleTarget = sampleIncarnation" "lr_sequence r \<le> 8"
  using assms by (auto simp: paneReceipt_def launchReceipt_def sampleHandle_def sampleTarget_def)

lemma start_pin:
  assumes "tget (nd_scopes db) sampleId = None \<or> nd_scopes db = nd_scopes (startedNode q)"
    and "tget (nd_commands db) sampleId \<noteq> None" and "nd_scopes db = [] \<or> nd_scopes db = nd_scopes (startedNode q)"
  shows "pinCommandScope sampleDigest ''node-1'' startCommand sampleIncarnation ''w1'' ''t1'' db =
    Inr (db\<lparr>nd_scopes := nd_scopes (startedNode q)\<rparr>)"
proof -
  have "ValidSessionIncarnation sampleIncarnation" by (simp add: ValidSessionIncarnation_def)
  moreover have "snd (CommandSession startCommand) = ''''"
    by (simp add: CommandSession_def start_fields AgentStartCommandType_def sampleStart_def)
  moreover have "length (sampleDigest '''') = 64" "length sampleIncarnation = 64"
    by (simp_all add: sampleDigest_def sampleIncarnation_def)
  ultimately show ?thesis
    using assms by (auto simp: pinCommandScope_def sampleKey start_fields putScope_def scopeRowOk_def startedNode_def tget_def)
qed

lemma start_fence:
  assumes "entryAt sampleCodecs ''node-1'' db = entryAt sampleCodecs ''node-1'' (nodeOf startCommand)"
    and "nodeGood sampleCodecs sampleDigest ''node-1'' db"
    and "readLifecycle sampleCodecs db startCommand = Inr q"
  shows "checkNodeLifecycleFence sampleCodecs ''node-1'' db startCommand sampleIncarnation = Inr ()"
proof -
  obtain es where es: "readNodeEntries sampleCodecs ''node-1'' db (\<lambda>i row. unresolvedRow row) = Inr es"
    using readNodeEntries_eq [OF assms(2)] by blast
  have all: "e = undecided startCommand" if "e \<in> set es" for e
    using that readNodeEntries_mem [OF assms(2) es] nodeOf_at [of startCommand] assms(1) by (auto split: if_splits)
  have nc: "\<not> lifecycleConflict startCommand q RUNNING startCommand sampleIncarnation"
    by (simp add: lifecycleConflict_def)
  have "nodeFenceEntry sampleCodecs db startCommand sampleIncarnation e = Inr ()" if "e \<in> set es" for e
  proof -
    have "IsLifecycleCommand (c_type startCommand)" by (simp add: IsLifecycleCommand_def start_fields AgentStartCommandType_def)
    then show ?thesis
      using all [OF that] nc assms(3)
      by (simp add: nodeFenceEntry_def entryStatus_def)
  qed
  then show ?thesis
    by (simp add: checkNodeLifecycleFence_def es each_eq_Inr start_fields)
qed

lemma start_save:
  assumes good: "nodeStoreGood sampleCodecs sampleDigest ''node-1'' db"
    and at: "entryAt sampleCodecs ''node-1'' db = entryAt sampleCodecs ''node-1'' (nodeOf startCommand)"
    and old: "readLifecycle sampleCodecs db startCommand = Inr old"
    and adv: "ValidateLifecycleAdvance samplePb old (Some r) startCommand = Inr ()"
    and r: "r = paneReceipt \<or> r = launchReceipt"
    and scopes: "nd_scopes db = [] \<or> nd_scopes db = nd_scopes (startedNode r)"
    and life: "tput sampleId \<lparr>lw_sequence = lr_sequence r, lw_receipt = BReceipt r\<rparr> (nd_lifecycle db) = nd_lifecycle (startedNode r)"
    and cmd: "nd_commands db = nd_commands (nodeOf startCommand)" "nd_projects db = []"
  shows "SaveLifecycle calm sampleCodecs sampleDigest ''node-1'' sampleId (Some r) db = (Inr (), startedNode r)"
proof -
  have g: "nodeGood sampleCodecs sampleDigest ''node-1'' db" using good by (simp add: nodeStoreGood_def)
  have e: "entryAt sampleCodecs ''node-1'' db sampleId = Some (undecided startCommand)"
    using at nodeOf_at [of startCommand sampleId] by simp
  note h = receipt_handle [OF r]
  have pin: "pinCommandScope sampleDigest ''node-1'' startCommand sampleIncarnation ''w1'' ''t1'' db =
      Inr (db\<lparr>nd_scopes := nd_scopes (startedNode r)\<rparr>)"
    by (rule start_pin) (use scopes cmd in \<open>auto simp: tget_def nodeOf_def\<close>)
  have m: "marshalCommandMessage receipt_unknown (k_receipt sampleCodecs) r = Inr (BReceipt r)"
    using r receipts_known by (auto simp: marshalCommandMessage_def marshalBounded_def maxCommandBytes_def)
  have put: "putLifecycle sampleCodecs sampleId r (BReceipt r) (db\<lparr>nd_scopes := nd_scopes (startedNode r)\<rparr>) = Inr (startedNode r)"
    using h(6) life cmd by (simp add: putLifecycle_def tget_def nodeOf_def not_less startedNode_def emptyNode_def)
  have "saveLifecycleBody sampleCodecs sampleDigest ''node-1'' sampleId (Some r) db = Inr ((), startedNode r)"
    using old adv start_fence [OF at g old] pin m put h
    by (simp add: saveLifecycleBody_def readNodeEntry_eq [OF g] e Let_def)
  then show ?thesis by (simp add: SaveLifecycle_def calm_operation)
qed

lemma pane_saved:
  "SaveLifecycle calm sampleCodecs sampleDigest ''node-1'' sampleId (Some paneReceipt) (nodeOf startCommand) =
     (Inr (), startedNode paneReceipt)"
  by (rule start_save [OF nodeOf_good, where old = None])
    (use paneReceipt_valid in \<open>simp_all add: readLifecycle_def nodeOf_def tget_def ValidateLifecycleAdvance_def startedNode_def\<close>)

lemma startedNode_read: "readLifecycle sampleCodecs (startedNode paneReceipt) startCommand = Inr (Some paneReceipt)"
  using receipts_known paneReceipt_valid
  by (simp add: readLifecycle_def startedNode_def tget_def start_fields decodeCommandMessage_def maxCommandBytes_def)

lemma startedNode_at:
  "entryAt sampleCodecs ''node-1'' (startedNode r) = entryAt sampleCodecs ''node-1'' (nodeOf startCommand)"
  by (simp add: entryAt_def startedNode_def fun_eq_iff)

lemma pane_good: "nodeStoreGood sampleCodecs sampleDigest ''node-1'' (startedNode paneReceipt)"
  using nodeStep_change [OF nodeStep.save [OF pane_saved] nodeOf_good] by (simp add: storeChange_def)

lemma launch_saved:
  "SaveLifecycle calm sampleCodecs sampleDigest ''node-1'' sampleId (Some launchReceipt) (startedNode paneReceipt) =
     (Inr (), startedNode launchReceipt)"
  by (rule start_save [OF pane_good startedNode_at startedNode_read])
    (use pane_to_launch in \<open>simp_all add: startedNode_def nodeOf_def\<close>)

section \<open>A project\<close>

definition projectNode :: "blob node_db" where
  "projectNode = emptyNode\<lparr>nd_projects := [(''web'', \<lparr>np_config = BConfig webConfig, np_ack = None, np_applied = None\<rparr>)]\<rparr>"

lemma project_body: "saveConfigBody sampleCodecs ''node-1'' webConfig emptyNode = Inr ((), projectNode)"
proof -
  have k: "\<not> config_unknown webConfig" by (simp add: config_unknown_def webConfig_def)
  have f: "pc_node webConfig = ''node-1''" "pc_project webConfig = ''web''" by (simp_all add: webConfig_def)
  show ?thesis
    using k f by (simp add: saveConfigBody_def readNodeProjects_def projectEntry_def maxProjectsPerNode_def
        marshalProject_def maxProjectBytes_def putConfig_def projectBlobOk_def tget_def projectNode_def)
qed

lemma project_saved: "SaveProjectConfig calm sampleCodecs ''node-1'' (Some webConfig) emptyNode = (Inr (), projectNode)"
  using webConfig_valid project_body by (simp add: SaveProjectConfig_def calm_operation) (simp add: webConfig_def)

lemma projectNode_good: "nodeStoreGood sampleCodecs sampleDigest ''node-1'' projectNode"
  using nodeStep_change [OF nodeStep.config [OF project_saved] emptyNode_good] by (simp add: storeChange_def)

lemma projectNode_at:
  "ownProjectAt sampleCodecs ''node-1'' projectNode ''web'' =
     Some \<lparr>npr_config = webConfig, npr_ack = None, npr_applied = None\<rparr>"
proof -
  have ok: "ownProjects_ok sampleCodecs ''node-1'' emptyNode" using emptyNode_good by (simp add: nodeStoreGood_def)
  have n: "pc_node webConfig = ''node-1''" "pc_project webConfig = ''web''" by (simp_all add: webConfig_def)
  have "ownProjectAt sampleCodecs ''node-1'' emptyNode ''web'' = None" by (simp add: ownProjectAt_def tget_def)
  then show ?thesis using saveConfigBody_good [OF ok webConfig_valid n(1) project_body] n(2) by simp
qed

end
