(* ===== verification/NodeContract.thy ===== *)
theory NodeContract
  imports SampleNode Fences
begin

text \<open>
  What the coordinator and the node's executor may rely on of the node's journal, over any sequence of its
  operations and failures: a command is granted at most once, a recorded result is final, recovery always
  ends with a truthful result, and the journal passes its own opening checks.
\<close>

section \<open>Reading the operations\<close>

lemma nodeStoreGoodD:
  assumes "nodeStoreGood K H node db"
  shows "nodeGood K H node db" "ownProjects_ok K node db"
  using assms by (simp_all add: nodeStoreGood_def)

lemma Claim_Inr:
  assumes "Claim E K node (Some c) db = (Inr x, db')"
  shows "validateCommand (k_pb K) (Some c) node = Inr ()" "claimBody K node c db = Inr (x, db')"
  using operation_Inr [OF assms [unfolded Claim_def]] by simp_all

lemma Claim_spec:
  assumes "nodeStoreGood K H node db" and "Claim E K node (Some c) db = (Inr x, db')"
  obtains e' where "claimed K node db c x e'" "entryAt K node db' = (entryAt K node db)(c_id c \<mapsto> e')"
    "onlyRows db db'" "nodeStoreGood K H node db'"
proof -
  have "nodeStoreGood K H node db'"
    using nodeStep_change [OF nodeStep.claim [OF assms(2)] assms(1)] by (simp add: storeChange_def)
  then show thesis
    using claimBody_good [OF nodeStoreGoodD(1) [OF assms(1)] Claim_Inr [OF assms(2)]] that by blast
qed

text \<open>A command with a valid request can be granted whenever nothing fences it.\<close>

lemma claimed_known:
  assumes "claimed K node db c x e'" and "entryAt K node db (c_id c) = Some e"
  shows "matchingNodeCommand (ne_command e) c \<and> \<not> snd x \<and> fst x \<noteq> None \<and> ne_result e' = fst x"
  using assms by (auto simp: claimed_def split: option.splits)

section \<open>Execution\<close>

text \<open>
  C28. A node executes a command at most once.  When \<open>Claim\<close> grants a command, the journal had no
  entry for its ID; whatever the journal does afterwards (results, crashes and recoveries, other
  commands), no later claim of that ID is granted again: it is answered with a result, and only for
  the same request.
\<close>

theorem claim_granted_once:
  assumes "nodeStoreGood K H node db" and "Claim E K node (Some c) db = (Inr (None, True), db1)"
    and "(nodeStep K H node)\<^sup>*\<^sup>* db1 db2"
    and "Claim E' K node (Some c') db2 = (Inr (v, granted), db3)" and "c_id c' = c_id c"
  shows "entryAt K node db (c_id c) = None \<and> \<not> granted \<and> v \<noteq> None \<and> matchingNodeCommand c c'"
proof -
  obtain e1 where e1: "claimed K node db c (None, True) e1" "entryAt K node db1 = (entryAt K node db)(c_id c \<mapsto> e1)"
    "nodeStoreGood K H node db1"
    by (rule Claim_spec [OF assms(1,2)])
  have new: "entryAt K node db (c_id c) = None" "e1 = undecided c"
    using e1(1) by (auto simp: claimed_def split: option.splits)
  obtain e2 where e2: "entryAt K node db2 (c_id c) = Some e2" "entryStep e1 e2"
    using entries.run_entry [OF assms(3) e1(3), of "c_id c" e1] e1(2) by auto
  obtain e3 where "claimed K node db2 c' (v, granted) e3"
    by (rule Claim_spec [OF entries.run_inv [OF assms(3) e1(3)] assms(4)])
  from claimed_known [OF this] e2 new assms(5) show ?thesis by (auto simp: entryStep_def)
qed

lemma claim_granted_once_witness:
  "\<exists>v db. Claim calm sampleCodecs ''node-1'' (Some probeCommand) (answered 0) = (Inr (v, False), db) \<and> v \<noteq> None"
proof -
  have good: "nodeGood sampleCodecs sampleDigest ''node-1'' (answered 0)"
    using answered_good by (simp add: nodeStoreGood_def)
  have m: "matchingNodeCommand probeCommand probeCommand" by (simp add: matchingNodeCommand_def)
  have b: "claimBody sampleCodecs ''node-1'' probeCommand (answered 0) = Inr ((Some pong, False), answered 0)"
    using answered_at [of 0 sampleId] m by (simp add: claimBody_def readNodeEntry_eq [OF good] probe_fields)
  then have again: "Claim calm sampleCodecs ''node-1'' (Some probeCommand) (answered 0) = (Inr (Some pong, False), answered 0)"
    using validateCommand_sample by (simp add: Claim_def calm_operation)
  have run: "(nodeStep sampleCodecs sampleDigest ''node-1'')\<^sup>*\<^sup>* (nodeOf probeCommand) (answered 0)"
    by (rule r_into_rtranclp, rule nodeStep.complete [OF probe_complete])
  have "\<not> False \<and> Some pong \<noteq> None"
    using claim_granted_once [OF emptyNode_good nodeOf_claim run again] by simp
  then show ?thesis using again by blast
qed

text \<open>
  Whether the commands \<open>c\<close> and \<open>d\<close> may concern the same native server: an incarnation is not known, or they
  agree.  \<open>r\<close> is the receipt of \<open>d\<close>, \<open>pinned\<close> the incarnation its mutation was pinned to.
\<close>

definition mayShareServer :: "command \<Rightarrow> command \<Rightarrow> receipt option \<Rightarrow> string \<Rightarrow> bool" where
  "mayShareServer c d r pinned = (let mine = lifecycleIncarnation c None in
     mine = '''' \<or> pinned \<in> {'''', mine} \<and> lifecycleIncarnation d r \<in> {'''', mine})"

text \<open>
  C32. What a grant checked.  A command is granted only if the journal has room and nothing that is running or of
  unknown outcome stands in its way: no other mutation of its project; and, unless both are known to concern
  different server incarnations, no start in the workspace where it starts an agent, and no input, start or
  stop that may still act on the terminal its prompt or input is for.  The grant is recorded as an entry
  without a result.
\<close>

theorem claim_respects_fences:
  assumes "nodeStoreGood K H node db" and "Claim E K node (Some c) db = (Inr (None, True), db')"
  shows "length (nd_commands db) < 4096 \<and>
    entryAt K node db' = (entryAt K node db)(c_id c \<mapsto> undecided c) \<and>
    (\<forall>i e. entryAt K node db i = Some e \<longrightarrow> entryStatus e = RUNNING \<or> entryStatus e = INDETERMINATE \<longrightarrow>
       (fst (CommandProject c) \<noteq> '''' \<longrightarrow> \<not> IsLifecycleCommand (c_type c) \<longrightarrow>
         \<not> IsLifecycleCommand (c_type (ne_command e)) \<longrightarrow> fst (CommandProject (ne_command e)) \<noteq> fst (CommandProject c)) \<and>
       (\<forall>r. readLifecycle K db (ne_command e) = Inr r \<longrightarrow>
         mayShareServer c (ne_command e) r (getter sw_incarnation (tget (nd_scopes db) i)) \<longrightarrow>
         \<not> opt_ex (\<lambda>a. opt_ex (\<lambda>b. as_workspace a = as_workspace b) (c_start (ne_command e))) (c_start c) \<and>
         \<not> opt_ex (mayActOn (ne_command e) r) (inputTerminal c)))"
proof -
  note good = nodeStoreGoodD(1) [OF assms(1)]
  obtain e' where e': "claimed K node db c (None, True) e'" "entryAt K node db' = (entryAt K node db)(c_id c \<mapsto> e')"
    by (rule Claim_spec [OF assms])
  have new: "entryAt K node db (c_id c) = None" "e' = undecided c"
    using e'(1) by (auto simp: claimed_def split: option.splits)
  have n: "claimNew K node c db = Inr ((None, True), db')"
    using Claim_Inr(2) [OF assms(2)] new(1) by (simp add: claimBody_def readNodeEntry_eq [OF good])
  have v: "ValidateCommand (k_pb K) (Some c) node = Inr ()"
    using Claim_Inr(1) [OF assms(2)] by (auto simp: validateCommand_def split: if_splits)
  have room: "length (nd_commands db) < 4096" using n by (simp add: claimNew_def maxCommands_def split: if_splits)
  have notrej: "claimRejected K c p d db \<noteq> Inr ((None, True), db')" for p d
    by (auto simp: claimRejected_def Let_def bindR_eq_Inr)
  have fence: "checkNodeLifecycleFence K node db c '''' = Inr ()"
    using n notrej by (cases "checkNodeLifecycleFence K node db c ''''")
      (auto simp: claimNew_def bindR_eq_Inr split: if_splits)
  have listed: "e \<in> set es"
    if "readNodeEntries K node db (\<lambda>i row. unresolvedRow row) = Inr es" and e: "entryAt K node db i = Some e"
      "entryStatus e = RUNNING \<or> entryStatus e = INDETERMINATE" for i e es
  proof -
    obtain row where row: "tget (nd_commands db) i = Some row" "decodeEntry K node (i, row) = Inr e"
      using e(1) by (rule entryAt_row)
    then have "unresolvedRow row" using e(2) decodeEntry_status [OF row(2)] by (simp add: unresolvedRow_def)
    then show ?thesis using readNodeEntries_mem [OF good that(1)] row(1) e(1) by blast
  qed
  have proj: "\<not> sameProject (fst (CommandProject c)) e"
    if pj: "fst (CommandProject c) \<noteq> ''''" "\<not> IsLifecycleCommand (c_type c)"
      and e: "entryAt K node db i = Some e" "entryStatus e = RUNNING \<or> entryStatus e = INDETERMINATE" for i e
  proof -
    obtain es where es: "readNodeEntries K node db (\<lambda>i row. unresolvedRow row) = Inr es"
        "\<not> list_ex (sameProject (fst (CommandProject c))) es"
      using n notrej fence room pj by (auto simp: claimNew_def bindR_eq_Inr maxCommands_def split: if_splits)
    then show ?thesis using listed [OF es(1) e] by (auto simp: list_ex_iff)
  qed
  have native: "\<not> opt_ex (\<lambda>a. opt_ex (\<lambda>b. as_workspace a = as_workspace b) (c_start (ne_command e))) (c_start c) \<and>
      \<not> opt_ex (mayActOn (ne_command e) r) (inputTerminal c)"
    if e: "entryAt K node db i = Some e" "entryStatus e = RUNNING \<or> entryStatus e = INDETERMINATE"
      and r: "readLifecycle K db (ne_command e) = Inr r"
      and s: "mayShareServer c (ne_command e) r (getter sw_incarnation (tget (nd_scopes db) i))" for i e r
  proof (cases "c_start c = None \<and> c_control c = None")
    case True
    then show ?thesis by (simp add: inputTerminal_def)
  next
    case False
    obtain es where es: "readNodeEntries K node db (\<lambda>i row. unresolvedRow row) = Inr es"
        "\<forall>x \<in> set es. nodeFenceEntry K db c (lifecycleIncarnation c None) x = Inr ()"
      using fence False by (auto simp: checkNodeLifecycleFence_def bindR_eq_Inr each_eq_Inr)
    have "nodeFenceEntry K db c (lifecycleIncarnation c None) e = Inr ()" using es(2) listed [OF es(1) e] by blast
    moreover have "(if IsLifecycleCommand (c_type (ne_command e)) then readLifecycle K db (ne_command e) else Inr None) = Inr r"
      using r readLifecycle_none by auto
    moreover have id: "c_id (ne_command e) = i" by (rule entryAt_command(2) [OF e(1)])
    ultimately have no: "\<not> lifecycleConflict (ne_command e) r (entryStatus e) c (lifecycleIncarnation c None)"
      using s by (auto simp: nodeFenceEntry_def mayShareServer_def Let_def split: if_splits)
    have w: "ValidateCommand (k_pb K) (Some (ne_command e)) node = Inr ()"
      using entryAt_command(1) [OF e(1)] by (auto simp: validateCommand_def split: if_splits)
    have d: "c_id (ne_command e) \<noteq> c_id c" using id new(1) e(1) by auto
    show ?thesis
      using conflict_open [OF v w no d disjI2 [OF e(2)]] s by (auto simp: mayShareServer_def Let_def)
  qed
  show ?thesis using room e'(2) new(2) proj native by (auto simp: sameProject_def)
qed

lemma claim_respects_fences_witness:
  "entryAt sampleCodecs ''node-1'' (nodeOf startCommand) sampleId = Some (undecided startCommand)"
  using claim_respects_fences [OF emptyNode_good nodeOf_claim [of startCommand]] by (simp add: start_fields)

section \<open>Results\<close>

text \<open>
  C29. A recorded result is final.  Once an entry has a result, every later state of the journal has the
  same result for the same command, an acknowledgement is never lost, and the receipt of native effects
  stays exactly the one the result reports.
\<close>

theorem node_result_final:
  assumes "nodeStoreGood K H node db" and "(nodeStep K H node)\<^sup>*\<^sup>* db db'"
    and "entryAt K node db i = Some e" and "ne_result e = Some v"
  shows "\<exists>e'. entryAt K node db' i = Some e' \<and> ne_command e' = ne_command e \<and> ne_result e' = Some v \<and>
    (ne_delivered e \<longrightarrow> ne_delivered e') \<and>
    ValidateResultForCommand (k_pb K) (Some v) (ne_command e) = Inr () \<and>
    readLifecycle K db' (ne_command e) = Inr (cr_lifecycle v)"
proof -
  obtain e' where e': "entryAt K node db' i = Some e'" "entryStep e e'"
    using entries.run_entry [OF assms(2,1,3)] by blast
  have same: "ne_command e' = ne_command e" "ne_result e' = Some v" "ne_delivered e \<longrightarrow> ne_delivered e'"
    using e'(2) assms(4) by (simp_all add: entryStep_def)
  have good: "nodeGood K H node db'" using entries.run_inv [OF assms(2,1)] by (simp add: nodeStoreGood_def)
  obtain r where "readLifecycle K db' (ne_command e') = Inr r" "\<And>v. ne_result e' = Some v \<Longrightarrow> cr_lifecycle v = r"
    using entryAt_receipt [OF good e'(1)] by metis
  then show ?thesis using e'(1) same entryAt_result [OF assms(3,4)] by simp
qed

lemma node_result_final_witness:
  "\<exists>e. entryAt sampleCodecs ''node-1'' (answered 1) sampleId = Some e \<and> ne_result e = Some pong"
proof -
  have run: "(nodeStep sampleCodecs sampleDigest ''node-1'')\<^sup>*\<^sup>* (answered 0) (answered 1)"
    by (rule r_into_rtranclp, rule nodeStep.acknowledge [OF probe_acknowledge])
  have at: "entryAt sampleCodecs ''node-1'' (answered 0) sampleId = Some (decided probeCommand pong False)"
    using answered_at [of 0 sampleId] by simp
  show ?thesis using node_result_final [OF answered_good run at, of pong] by auto
qed

text \<open>
  C31. Evidence of native effects survives crashes.  A receipt once saved for a command is, in every later
  state of the journal, extended and never rewritten: the recorded stages are a prefix of the later ones,
  every stage has at most one intent, and what was confirmed stays confirmed.
\<close>

theorem receipts_survive:
  assumes "nodeStoreGood K H node db" and "(nodeStep K H node)\<^sup>*\<^sup>* db db'"
    and "entryAt K node db i = Some e" and "readLifecycle K db (ne_command e) = Inr (Some r)"
  shows "\<exists>r'. readLifecycle K db' (ne_command e) = Inr (Some r') \<and> list_prefix (lr_stages r) (lr_stages r') \<and>
    onceEach (lr_stages r') \<and>
    (\<forall>s \<in> set stageNames. LifecycleStageOutcome r s = ''confirmed'' \<longrightarrow> LifecycleStageOutcome r' s = ''confirmed'')"
proof -
  have "receiptAt K node db i = Some (ne_command e, r)" using assms(3,4) by (simp add: receiptAt_def)
  from receipts.run_entry [OF assms(2,1) this]
  obtain b where b: "receiptAt K node db' i = Some b" "receiptProgress (k_pb K) (ne_command e, r) b" by blast
  obtain r' where r': "b = (ne_command e, r')"
    "r' = r \<or> ValidateLifecycleAdvance (k_pb K) (Some r) (Some r') (ne_command e) = Inr ()"
    using b(2) by (cases b) (auto simp: receiptProgress_def)
  have read: "readLifecycle K db' (ne_command e) = Inr (Some r')"
    using b(1) r'(1) by (auto simp: receiptAt_def split: option.splits sum.splits)
  have adv: "list_prefix (lr_stages r) (lr_stages r') \<and> (\<forall>s \<in> set stageNames.
      LifecycleStageOutcome r s = ''confirmed'' \<longrightarrow> LifecycleStageOutcome r' s = ''confirmed'')"
    using r'(2)
  proof
    assume "ValidateLifecycleAdvance (k_pb K) (Some r) (Some r') (ne_command e) = Inr ()"
    then have "list_prefix (lr_stages r) (lr_stages r')"
      using advanceStep_facts(1) by (auto simp: ValidateLifecycleAdvance_Some)
    then show ?thesis
      using advance_confirmed [OF readLifecycle_receipt [OF assms(4)] readLifecycle_receipt [OF read]] by blast
  qed simp
  have "onceEach (lr_stages r')" using accepted_stages [OF readLifecycle_receipt [OF read]] by blast
  then show ?thesis using read adv by blast
qed

lemma receipts_survive_witness:
  "\<exists>r. readLifecycle sampleCodecs (startedNode launchReceipt) startCommand = Inr (Some r) \<and>
     list_prefix (lr_stages paneReceipt) (lr_stages r)"
proof -
  have run: "(nodeStep sampleCodecs sampleDigest ''node-1'')\<^sup>*\<^sup>* (startedNode paneReceipt) (startedNode launchReceipt)"
    by (rule r_into_rtranclp, rule nodeStep.save [OF launch_saved])
  have at: "entryAt sampleCodecs ''node-1'' (startedNode paneReceipt) sampleId = Some (undecided startCommand)"
    using nodeOf_at [of startCommand sampleId] by (simp add: startedNode_at)
  show ?thesis using receipts_survive [OF pane_good run at] startedNode_read by auto
qed

lemma writeNodeResult_total:
  assumes good: "nodeGood K H node db" and e: "entryAt K node db i = Some e"
    and v: "ValidateResultForCommand (k_pb K) (Some v) (ne_command e) = Inr ()"
    and m: "is_ok (marshalCommandMessage result_unknown (k_result K) v)"
  shows "\<exists>db'. writeNodeResult K (ne_command e) v db = Inr db'"
proof -
  obtain row where row: "tget (nd_commands db) i = Some row" "decodeEntry K node (i, row) = Inr e"
    using e by (rule entryAt_row)
  obtain payload where p: "marshalCommandMessage result_unknown (k_result K) v = Inr payload"
    using m by (auto simp: is_ok_iff)
  note c = decodeEntry_command [OF row(2)] and st = ValidateResultForCommand_status [OF v]
  have vid: "cr_id v = i" using ValidateResultForCommand_id [OF v] c(3) by simp
  have "1 \<le> blob_len (k_command K) (nw_command row) \<and> blob_len (k_command K) (nw_command row) \<le> 16384"
    using c(1) by (auto simp: decodeCommandMessage_def maxCommandBytes_def split: if_splits)
  then have "nodeRowOk K (row\<lparr>nw_status := cr_status v, nw_result := Some payload, nw_delivered := 0\<rparr>)"
    using st marshalCommandMessage_len [OF p] by (auto simp: nodeRowOk_def storedNodeStatus_def maxCommandBytes_def)
  then show ?thesis using v p row(1) vid by (simp add: writeNodeResult_def)
qed

lemma recovered_total:
  assumes good: "nodeGood K H node db" and e: "entryAt K node db i = Some e"
  obtains v r where "recoveredLifecycleResult K db (ne_command e) = Inr v" "readLifecycle K db (ne_command e) = Inr r"
    "ValidateResultForCommand (k_pb K) (Some v) (ne_command e) = Inr ()" "cr_lifecycle v = r"
proof -
  obtain r where r: "readLifecycle K db (ne_command e) = Inr r" using entryAt_receipt [OF good e] by metis
  then have "\<exists>v. recoveredLifecycleResult K db (ne_command e) = Inr v"
    by (simp add: recoveredLifecycleResult_def)
  then obtain v where v: "recoveredLifecycleResult K db (ne_command e) = Inr v" ..
  show thesis
    using recoveredLifecycleResult_spec [OF v validateCommand_Valid r] entryAt_command(1) [OF e] that [OF v r] by blast
qed

lemma recoverLoop_total:
  assumes "nodeGood K H node db"
    and "\<And>e. e \<in> set es \<Longrightarrow> entryAt K node db (c_id (ne_command e)) = Some e \<and> ne_result e = None"
    and "distinct (map (c_id \<circ> ne_command) es)"
    and "\<And>e v. e \<in> set es \<Longrightarrow> recoveredLifecycleResult K db (ne_command e) = Inr v \<Longrightarrow>
      is_ok (marshalCommandMessage result_unknown (k_result K) v)"
  shows "\<exists>db'. recoverLoop K es db = Inr db'"
  using assms
proof (induction es arbitrary: db)
  case (Cons e es)
  have e: "entryAt K node db (c_id (ne_command e)) = Some e" using Cons.prems(2) [of e] by simp
  obtain v r where v: "recoveredLifecycleResult K db (ne_command e) = Inr v"
    "readLifecycle K db (ne_command e) = Inr r" and V: "ValidateResultForCommand (k_pb K) (Some v) (ne_command e) = Inr ()"
    "cr_lifecycle v = r"
    by (rule recovered_total [OF Cons.prems(1) e])
  obtain db1 where w: "writeNodeResult K (ne_command e) v db = Inr db1"
    using writeNodeResult_total [OF Cons.prems(1) e V(1)] Cons.prems(4) [of e v] v(1) by auto
  have g: "nodeGood K H node db1" "onlyRows db db1"
      "entryAt K node db1 = (entryAt K node db)(c_id (ne_command e) \<mapsto> decided (ne_command e) v False)"
    using writeNodeResult_good [OF Cons.prems(1) e w] v V by simp_all
  have others: "entryAt K node db1 (c_id (ne_command f)) = Some f \<and> ne_result f = None" if f: "f \<in> set es" for f
  proof -
    have "c_id (ne_command f) \<noteq> c_id (ne_command e)"
      using Cons.prems(3) imageI [OF f, of "c_id \<circ> ne_command"] by auto
    then show ?thesis using Cons.prems(2) [of f] f g(3) by simp
  qed
  have "\<exists>db'. recoverLoop K es db1 = Inr db'"
    by (rule Cons.IH [OF g(1) others])
      (use Cons.prems(3,4) recovered_rows [OF g(2)] in auto)
  then show ?case using v(1) w by simp
qed simp

text \<open>What the derived result claims, in terms of the receipt.\<close>

lemma recovered_honest:
  assumes "recoveredLifecycleResult K db c = Inr v" and "cr_lifecycle v = r" and "readLifecycle K db c = Inr r"
  shows "(cr_status v = SUCCEEDED \<longleftrightarrow> IsLifecycleCommand (c_type c) \<and> LifecycleComplete r c) \<and>
    (cr_status v = REJECTED \<longrightarrow> \<not> LifecycleHasEffect r)"
proof (cases "IsLifecycleCommand (c_type c)")
  case True
  then have v: "v = lifecycleOutcome c r" using assms(1,3) by (simp add: recoveredLifecycleResult_def)
  show ?thesis using lifecycleOutcome_fields(7) [OF True, of r] True
    by (auto simp: v split: if_splits)
next
  case False
  then have "v = interruptedCommandResult c" using assms(1) by (simp add: recoveredLifecycleResult_def)
  then have "cr_status v = INDETERMINATE"
    by (simp add: interruptedCommandResult_def interruptedNodeResult_def Let_def)
  then show ?thesis using False by simp
qed

text \<open>
  C30. Recovery always ends.  If the results it derives fit the payload bound, \<open>Recover\<close> succeeds on
  every well-formed journal, and afterwards no entry is left without a result: entries that had one are
  unchanged, the others hold a result that is valid for their command and claims no more than the receipt
  shows (success only if every requested effect is confirmed, rejection only if there was none).
\<close>

theorem recover_total:
  assumes "nodeStoreGood K H node db"
    and "\<And>i e v. entryAt K node db i = Some e \<Longrightarrow> ne_result e = None \<Longrightarrow>
      recoveredLifecycleResult K db (ne_command e) = Inr v \<Longrightarrow>
      is_ok (marshalCommandMessage result_unknown (k_result K) v)"
  shows "\<exists>db'. Recover calm K node db = (Inr (), db') \<and>
    (\<forall>i e. entryAt K node db i = Some e \<longrightarrow> ne_result e \<noteq> None \<longrightarrow> entryAt K node db' i = Some e) \<and>
    (\<forall>i e. entryAt K node db i = Some e \<longrightarrow> ne_result e = None \<longrightarrow>
       (\<exists>v. entryAt K node db' i = Some (decided (ne_command e) v False) \<and>
          ValidateResultForCommand (k_pb K) (Some v) (ne_command e) = Inr () \<and>
          readLifecycle K db (ne_command e) = Inr (cr_lifecycle v) \<and>
          (cr_status v = SUCCEEDED \<longleftrightarrow> IsLifecycleCommand (c_type (ne_command e)) \<and>
             LifecycleComplete (cr_lifecycle v) (ne_command e)) \<and>
          (cr_status v = REJECTED \<longrightarrow> \<not> LifecycleHasEffect (cr_lifecycle v))))"
proof -
  note good = nodeStoreGoodD(1) [OF assms(1)]
  obtain es where es: "readNodeEntries K node db (\<lambda>i row. nw_status row = RUNNING) = Inr es"
    using readNodeEntries_eq [OF good] by blast
  note run = running_entries [OF good es]
  obtain db' where l: "recoverLoop K es db = Inr db'"
    using recoverLoop_total [OF good _ run(2)] run(1) assms(2) by blast
  have b: "recoverBody K node db = Inr ((), db')" by (simp add: recoverBody_def es l)
  have op: "Recover calm K node db = (Inr (), db')" by (simp add: Recover_body calm_operation b)
  have at: "entryAt K node db' = (\<lambda>i. map_option (recoveredEntry K db) (entryAt K node db i))"
    using recoverBody_good [OF good b] by blast
  have new: "\<exists>v. entryAt K node db' i = Some (decided (ne_command e) v False) \<and>
      ValidateResultForCommand (k_pb K) (Some v) (ne_command e) = Inr () \<and>
      readLifecycle K db (ne_command e) = Inr (cr_lifecycle v) \<and>
      (cr_status v = SUCCEEDED \<longleftrightarrow> IsLifecycleCommand (c_type (ne_command e)) \<and>
         LifecycleComplete (cr_lifecycle v) (ne_command e)) \<and>
      (cr_status v = REJECTED \<longrightarrow> \<not> LifecycleHasEffect (cr_lifecycle v))"
    if e: "entryAt K node db i = Some e" "ne_result e = None" for i e
  proof -
    obtain v r where v: "recoveredLifecycleResult K db (ne_command e) = Inr v" "readLifecycle K db (ne_command e) = Inr r"
      "ValidateResultForCommand (k_pb K) (Some v) (ne_command e) = Inr ()" "cr_lifecycle v = r"
      by (rule recovered_total [OF good e(1)])
    have "entryAt K node db' i = Some (decided (ne_command e) v False)"
      using e v(1) by (simp add: at recoveredEntry_def)
    then show ?thesis using v recovered_honest [OF v(1,4,2)] by blast
  qed
  have old: "entryAt K node db' i = Some e" if "entryAt K node db i = Some e" "ne_result e \<noteq> None" for i e
    using that by (auto simp: at recoveredEntry_def)
  show ?thesis using op old new by blast
qed

lemma recover_total_witness:
  "\<exists>db. Recover calm sampleCodecs ''node-1'' (nodeOf probeCommand) = (Inr (), db)"
proof -
  have u: "is_ok (marshalCommandMessage result_unknown (k_result sampleCodecs) v)"
    if e: "entryAt sampleCodecs ''node-1'' (nodeOf probeCommand) i = Some e" and "ne_result e = None"
      and v: "recoveredLifecycleResult sampleCodecs (nodeOf probeCommand) (ne_command e) = Inr v" for i e v
  proof -
    have "e = undecided probeCommand" using e nodeOf_at [of probeCommand i] by (auto split: if_splits)
    then have "v = interruptedCommandResult probeCommand"
      using v by (simp add: recoveredLifecycleResult_def IsLifecycleCommand_def probe_fields AgentStartCommandType_def
          AgentStopCommandType_def)
    then have "\<not> result_unknown v"
      by (simp add: interruptedCommandResult_def interruptedNodeResult_def result_unknown_def Let_def)
    then show ?thesis by (simp add: marshalCommandMessage_def marshalBounded_def maxCommandBytes_def)
  qed
  have good: "nodeStoreGood sampleCodecs sampleDigest ''node-1'' (nodeOf probeCommand)" by (rule nodeOf_good) simp
  show ?thesis by (rule exE [OF recover_total [OF good]], erule (2) u) blast
qed

section \<open>Opening the journal\<close>

text \<open>A table whose keys all occur in the journal has as many rows as the journal has entries with that key.\<close>

lemma subkeys_length:
  assumes "table_ok t" and "table_ok u" and "\<And>k. tget t k = None \<Longrightarrow> tget u k = None"
  shows "length u = length (filter (\<lambda>kr. tget u (fst kr) \<noteq> None) t)"
proof -
  have t: "distinct (map fst (filter (\<lambda>kr. tget u (fst kr) \<noteq> None) t))"
    using table_ok_distinct [OF assms(1)] by (rule distinct_map_filter)
  have u: "distinct (map fst u)" by (rule table_ok_distinct [OF assms(2)])
  have "k \<in> fst ` set u \<longleftrightarrow> tget u k \<noteq> None" for k by (simp add: tget_def map_of_eq_None_iff)
  moreover have "k \<in> fst ` set t \<longleftrightarrow> tget t k \<noteq> None" for k by (simp add: tget_def map_of_eq_None_iff)
  ultimately have "set (map fst (filter (\<lambda>kr. tget u (fst kr) \<noteq> None) t)) = set (map fst u)"
    using assms(3) by (fastforce simp: image_iff)
  then show ?thesis using distinct_card [OF t] distinct_card [OF u] by simp
qed

lemma checkLifecycleData_seen:
  assumes "checkLifecycleData K H node db e = Inr seen"
  shows "snd seen \<longleftrightarrow> tget (nd_scopes db) (c_id (ne_command e)) \<noteq> None"
    and "fst seen \<longleftrightarrow> tget (nd_lifecycle db) (c_id (ne_command e)) \<noteq> None"
proof -
  obtain r where r: "readLifecycle K db (ne_command e) = Inr r"
    using assms by (auto simp: checkLifecycleData_def bindR_eq_Inr)
  then show "snd seen \<longleftrightarrow> tget (nd_scopes db) (c_id (ne_command e)) \<noteq> None"
    using assms by (auto simp: checkLifecycleData_def bindR_eq_Inr split: option.splits if_splits)
  have "fst seen \<longleftrightarrow> r \<noteq> None"
    using assms r by (auto simp: checkLifecycleData_def bindR_eq_Inr split: option.splits if_splits)
  moreover have "r \<noteq> None \<longleftrightarrow> tget (nd_lifecycle db) (c_id (ne_command e)) \<noteq> None"
    using r by (auto simp: readLifecycle_def bindR_eq_Inr split: option.splits if_splits)
  ultimately show "fst seen \<longleftrightarrow> tget (nd_lifecycle db) (c_id (ne_command e)) \<noteq> None" by simp
qed

text \<open>
  C33. A journal written by its operations can always be opened again.  After any run from a well-formed
  journal, reading every entry succeeds, so does the validation of receipts and native scopes that the
  opening performs on them, and the journal holds at most 4096 commands and 128 projects.
\<close>

theorem node_journal_reopens:
  assumes "nodeStoreGood K H node db0" and "(nodeStep K H node)\<^sup>*\<^sup>* db0 db"
  shows "\<exists>es. readNodeEntries K node db (\<lambda>i row. True) = Inr es \<and>
    validateNodeLifecycleData K H node db es = Inr () \<and>
    is_ok (readNodeProjects K node db) \<and>
    length (nd_commands db) \<le> 4096 \<and> length (nd_projects db) \<le> 128"
proof -
  have sg: "nodeStoreGood K H node db" by (rule entries.run_inv [OF assms(2,1)])
  note good = nodeStoreGoodD(1) [OF sg] and pr = nodeStoreGoodD(2) [OF sg]
  note g = nodeGoodD [OF good]
  let ?ent = "\<lambda>kr :: string \<times> 'a node_row. the (entryAt K node db (fst kr))"
  have es: "readNodeEntries K node db (\<lambda>i row. True) = Inr (map ?ent (nd_commands db))"
    using readNodeEntries_eq [OF good] by (simp add: tselect_def)
  define seen where "seen = (\<lambda>kr :: string \<times> 'a node_row.
    (tget (nd_lifecycle db) (fst kr) \<noteq> None, tget (nd_scopes db) (fst kr) \<noteq> None))"
  have one: "checkLifecycleData K H node db (?ent kr) = Inr (seen kr)" if kr: "kr \<in> set (nd_commands db)" for kr
  proof -
    obtain i row where e: "kr = (i, row)" by (cases kr)
    have "tget (nd_commands db) i = Some row" using kr tget_mem [OF g(2)] unfolding e by blast
    then obtain f where f: "entryAt K node db i = Some f"
      using entryAt_iff [OF good, of i] by (cases "entryAt K node db i") auto
    obtain s where s: "checkLifecycleData K H node db f = Inr s" by (rule entryAt_check [OF good f])
    have "s = seen kr"
      using checkLifecycleData_seen [OF s] entryAt_command(2) [OF f] by (simp add: seen_def e prod_eq_iff)
    then show ?thesis using s f by (simp add: e)
  qed
  have c: "collect (checkLifecycleData K H node db) (map ?ent (nd_commands db)) = Inr (map seen (nd_commands db))"
  proof -
    have "collect (checkLifecycleData K H node db) (map ?ent xs) = Inr (map seen xs)"
      if "set xs \<subseteq> set (nd_commands db)" for xs
      using that one by (induction xs) simp_all
    then show ?thesis by simp
  qed
  have "length (nd_lifecycle db) = length (filter fst (map seen (nd_commands db)))"
    using subkeys_length [OF g(2,4) g(8)] by (simp add: filter_map comp_def seen_def)
  moreover have "length (nd_scopes db) = length (filter snd (map seen (nd_commands db)))"
    using subkeys_length [OF g(2,5) g(9)] by (simp add: filter_map comp_def seen_def)
  ultimately have v: "validateNodeLifecycleData K H node db (map ?ent (nd_commands db)) = Inr ()"
    unfolding validateNodeLifecycleData_def c by simp
  have "is_ok (readNodeProjects K node db)" using readNodeProjects_eq [OF pr] by simp
  then show ?thesis
    using es v g(3) ownProjects_okD(3) [OF pr] by (auto simp: maxCommands_def maxProjectsPerNode_def)
qed

lemma node_journal_reopens_witness: "length (nd_commands (nodeOf probeCommand)) \<le> 4096"
proof -
  have run: "(nodeStep sampleCodecs sampleDigest ''node-1'')\<^sup>*\<^sup>* emptyNode (nodeOf probeCommand)"
    by (rule r_into_rtranclp, rule nodeStep.claim [OF nodeOf_claim]) simp
  show ?thesis using node_journal_reopens [OF emptyNode_good run] by blast
qed

section \<open>Delivery\<close>

definition pending :: "'b codecs \<Rightarrow> string \<Rightarrow> 'b node_db \<Rightarrow> command_result set" where
  "pending K node db = {v. \<exists>i e. entryAt K node db i = Some e \<and> ne_result e = Some v \<and> \<not> ne_delivered e}"

lemma pending_id: "entryAt K node db i = Some e \<Longrightarrow> ne_result e = Some v \<Longrightarrow> cr_id v = i"
  using entryAt_result [of K node db i e v] entryAt_command(2) [of K node db i e] ValidateResultForCommand_id by auto

lemma acknowledged_pending:
  assumes at: "entryAt K node db i = Some e" "ne_result e = Some v"
    and new: "entryAt K node db' = (entryAt K node db)(i \<mapsto> decided (ne_command e) v True)"
  shows "pending K node db' = pending K node db - {v}"
proof (rule set_eqI)
  fix w
  show "w \<in> pending K node db' \<longleftrightarrow> w \<in> pending K node db - {v}"
  proof (cases "cr_id w = i")
    case True
    have "w \<notin> pending K node db'"
    proof
      assume "w \<in> pending K node db'"
      then obtain j f where f: "entryAt K node db' j = Some f" "ne_result f = Some w" "\<not> ne_delivered f"
        by (auto simp: pending_def)
      then have "j = i" using pending_id [OF f(1,2)] True by simp
      then show False using f new by auto
    qed
    moreover have "w = v" if "w \<in> pending K node db"
    proof -
      obtain j f where f: "entryAt K node db j = Some f" "ne_result f = Some w" using \<open>w \<in> pending K node db\<close>
        by (auto simp: pending_def)
      then have "j = i" using pending_id [OF f] True by simp
      then show "w = v" using f at by simp
    qed
    ultimately show ?thesis by blast
  next
    case False
    then have "w \<noteq> v" using pending_id [OF at] by blast
    have "entryAt K node db' j = Some f \<and> ne_result f = Some w \<longleftrightarrow> entryAt K node db j = Some f \<and> ne_result f = Some w" for j f
      using False pending_id [of K node db' j f w] pending_id [of K node db j f w] new by (cases "j = i") auto
    then show ?thesis using \<open>w \<noteq> v\<close> by (auto simp: pending_def)
  qed
qed

lemma undelivered_row:
  assumes "decodeEntry K node (i, row) = Inr e"
  shows "nw_delivered row = 0 \<and> nw_status row \<noteq> RUNNING \<longleftrightarrow> ne_result e \<noteq> None \<and> \<not> ne_delivered e"
  using assms by (cases rule: decodeEntry_facts) simp_all

text \<open>
  C34. What is delivered.  \<open>PendingResults\<close> returns, in the order of command IDs, exactly the results
  that were recorded and not yet acknowledged, each once, and changes nothing; after an acknowledgement of
  one of them with its status, exactly that one is no longer pending.
\<close>

theorem pending_results_exact:
  assumes "nodeStoreGood K H node db" and "PendingResults E K node db = (Inr vs, db')"
  shows "db' = db \<and> set vs = pending K node db \<and> sorted_wrt (<) (map cr_id vs) \<and>
    (\<forall>v \<in> set vs. \<forall>E' db''. Acknowledge E' K node (cr_id v) (cr_status v) db = (Inr (), db'') \<longrightarrow>
       pending K node db'' = pending K node db - {v})"
proof -
  note good = nodeStoreGoodD(1) [OF assms(1)]
  let ?p = "\<lambda>(i :: string) (row :: 'a node_row). nw_delivered row = 0 \<and> nw_status row \<noteq> RUNNING"
  obtain es where es: "readNodeEntries K node db ?p = Inr es" and vs: "vs = map (\<lambda>e. the (ne_result e)) es" and same: "db' = db"
    using operation_Inr(2) [OF assms(2) [unfolded PendingResults_def]] by (auto simp: bindR_eq_Inr)
  have mem: "e \<in> set es \<longleftrightarrow> (\<exists>i. entryAt K node db i = Some e \<and> ne_result e \<noteq> None \<and> \<not> ne_delivered e)" for e
  proof -
    have "(\<exists>row. tget (nd_commands db) i = Some row \<and> ?p i row) \<longleftrightarrow> ne_result e \<noteq> None \<and> \<not> ne_delivered e"
      if at: "entryAt K node db i = Some e" for i
    proof -
      obtain row where row: "tget (nd_commands db) i = Some row" "decodeEntry K node (i, row) = Inr e"
        using at by (rule entryAt_row)
      show ?thesis using undelivered_row [OF row(2)] row(1) by simp
    qed
    then show ?thesis unfolding readNodeEntries_mem [OF good es] by blast
  qed
  then have set: "set vs = pending K node db" unfolding vs pending_def by force
  have "map cr_id vs = map fst (tselect ?p (nd_commands db))"
  proof -
    have eq: "es = map (\<lambda>kr. the (entryAt K node db (fst kr))) (tselect ?p (nd_commands db))"
      using es readNodeEntries_eq [OF good] by simp
    have "cr_id (the (ne_result (the (entryAt K node db (fst kr))))) = fst kr"
      if "kr \<in> set (tselect ?p (nd_commands db))" for kr
    proof -
      obtain i row where kr: "kr = (i, row)" by (cases kr)
      then have row: "tget (nd_commands db) i = Some row" "?p i row"
        using that tget_mem [OF nodeGoodD(2) [OF good]] by (simp_all add: tselect_mem)
      obtain f where f: "decodeEntry K node (i, row) = Inr f" using nodeGoodD(6) [OF good row(1)] by blast
      then have at: "entryAt K node db i = Some f" using row(1) by (simp add: entryAt_def)
      obtain w where "ne_result f = Some w" using undelivered_row [OF f] row(2) by auto
      then show ?thesis using at pending_id [OF at] kr by simp
    qed
    then show ?thesis unfolding vs eq by simp
  qed
  moreover have "sorted_wrt (<) (map fst (tselect ?p (nd_commands db)))"
    using nodeGoodD(2) [OF good] unfolding table_ok_def tselect_def sorted_wrt_map by (rule sorted_wrt_filter)
  ultimately have sorted: "sorted_wrt (<) (map cr_id vs)" by simp
  have "pending K node db'' = pending K node db - {v}"
    if v: "v \<in> set vs" and ack: "Acknowledge E' K node (cr_id v) (cr_status v) db = (Inr (), db'')" for v E' db''
  proof -
    obtain i e where e: "entryAt K node db i = Some e" "ne_result e = Some v" using v unfolding set pending_def by blast
    have body: "acknowledgeBody K node i (cr_status v) db = Inr ((), db'')"
      using operation_Inr(2) [OF ack [unfolded Acknowledge_def]] pending_id [OF e] by simp
    show ?thesis using acknowledgeBody_good [OF good body] e acknowledged_pending [OF e] by auto
  qed
  then show ?thesis using same set sorted by blast
qed

lemma pending_results_exact_witness: "pending sampleCodecs ''node-1'' (answered 0) = {pong}"
proof -
  have "collect (decodeEntry sampleCodecs ''node-1'') [(sampleId, probeRow SUCCEEDED probeCommand (Some pong) 0)] =
      Inr [decided probeCommand pong False]"
    using answered_decode [of 0] by simp
  then have "PendingResults calm sampleCodecs ''node-1'' (answered 0) = (Inr [pong], answered 0)"
    by (simp add: PendingResults_def calm_operation readNodeEntries_def answered_def tselect_def maxCommands_def
        probeRow_def)
  from pending_results_exact [OF answered_good this] show ?thesis by simp
qed

section \<open>Projects of the node\<close>

text \<open>
  C35. The node never goes back to an older project revision.  Over any run of its store, the generation
  of a stored configuration never decreases and one generation names one configuration; an acknowledgement
  answers the stored generation or an older one, and the last applied outcome is never forgotten.
\<close>

theorem node_projects_never_regress:
  assumes "nodeStoreGood K H node db" and "(nodeStep K H node)\<^sup>*\<^sup>* db db'" and "ownProjectAt K node db pid = Some p"
  shows "\<exists>q. ownProjectAt K node db' pid = Some q \<and>
    pc_generation (npr_config p) \<le> pc_generation (npr_config q) \<and>
    (pc_generation (npr_config p) = pc_generation (npr_config q) \<longrightarrow> npr_config q = npr_config p) \<and>
    opt_all (\<lambda>a. pa_generation a \<le> pc_generation (npr_config q)) (npr_ack q) \<and>
    opt_all (\<lambda>a. opt_ex (\<lambda>b. pa_status b = ''applied'' \<and> pa_generation a \<le> pa_generation b) (npr_applied q)) (npr_applied p)"
proof -
  obtain q where q: "ownProjectAt K node db' pid = Some q" "ownProjectStep p q"
    using own_projects.run_entry [OF assms(2,1,3)] by blast
  show ?thesis using q ownProjectAt_wf [OF q(1)]
    by (cases "npr_applied p"; cases "npr_applied q"; cases "npr_ack q") (auto simp: ownProjectStep_def project_wf_def)
qed

lemma node_projects_never_regress_witness:
  "\<exists>q. ownProjectAt sampleCodecs ''node-1'' projectNode ''web'' = Some q \<and> 1 \<le> pc_generation (npr_config q)"
  using node_projects_never_regress [OF projectNode_good rtranclp.rtrancl_refl projectNode_at]
  by (auto simp: webConfig_def)

end
