(* ===== verification/NodeEvidence.thy ===== *)
theory NodeEvidence
  imports NodeOutcomes NodeContract
begin

text \<open>
  What the journal knows of the requests a node has sent: \<open>evidence\<close> relates the entry of a command, its
  receipt and its result with the changing requests put on the socket for it.  Every step of the node
  keeps it, whatever fails and whenever the process dies.
\<close>

section \<open>Evidence\<close>

definition receiptOwns :: "'b codecs \<Rightarrow> string \<Rightarrow> command \<Rightarrow> string list \<Rightarrow> 'b node_db \<Rightarrow> bool" where
  "receiptOwns K node c sent db = (\<exists>ss. prefix ss (stagesOf c) \<and> sent = map stageMethod ss \<and>
     (\<forall>st\<in>set ss. shownAt K node (c_id c) db st \<noteq> NotAttempted) \<and>
     (\<forall>st. shownAt K node (c_id c) db st = Confirmed \<longrightarrow> st \<in> set ss))"

definition resultOwns :: "command \<Rightarrow> string list \<Rightarrow> command_result option \<Rightarrow> bool" where
  "resultOwns c sent x = (prefix sent (planOf c) \<and>
     (\<forall>v. x = Some v \<longrightarrow> (ruledOut v \<longrightarrow> sent = []) \<and> (claimsEffect v \<longrightarrow> sent = planOf c)))"

definition entryOwns :: "'b codecs \<Rightarrow> string \<Rightarrow> 'b node_db \<Rightarrow> node_entry \<Rightarrow> string list \<Rightarrow> bool" where
  "entryOwns K node db e sent = (if IsLifecycleCommand (c_type (ne_command e))
     then receiptOwns K node (ne_command e) sent db else resultOwns (ne_command e) sent (ne_result e))"

definition evidence :: "'b codecs \<Rightarrow> string \<Rightarrow> 'b node_db \<Rightarrow> string \<Rightarrow> string list \<Rightarrow> bool" where
  "evidence K node db i sent = (case entryAt K node db i of None \<Rightarrow> sent = [] | Some e \<Rightarrow> entryOwns K node db e sent)"

lemma owned_receipt: "owned K node c base t \<longleftrightarrow> (\<exists>sent. changes t = base @ sent \<and> receiptOwns K node c sent (an_db t))"
  by (auto simp: owned_def receiptOwns_def)

lemma receiptOwns_cong:
  "heldReceipt K node db' (c_id c) = heldReceipt K node db (c_id c) \<Longrightarrow> receiptOwns K node c sent db' = receiptOwns K node c sent db"
  by (simp add: receiptOwns_def shownAt_def)

lemma receiptOwns_none: "heldReceipt K node db (c_id c) = None \<Longrightarrow> receiptOwns K node c sent db \<longleftrightarrow> sent = []"
  by (auto simp: receiptOwns_def shownAt_def)

lemma receiptOwns_plan: "receiptOwns K node c sent db \<Longrightarrow> prefix sent (map stageMethod (stagesOf c))"
  by (auto simp: receiptOwns_def prefix_def)

section \<open>What a receipt says of the requests\<close>

lemma receiptShows_not: "receiptShows r st = NotAttempted \<longleftrightarrow> LifecycleStageOutcome r (stageText st) = ''not_attempted''"
  by (auto simp: receiptShows_def Let_def)

lemma receiptShows_confirmed: "receiptShows r st = Confirmed \<longleftrightarrow> LifecycleStageOutcome r (stageText st) = ''confirmed''"
  by (auto simp: receiptShows_def Let_def)

lemma no_effect_none:
  assumes "receiptOwns K node c sent db" and "\<not> LifecycleHasEffect (heldReceipt K node db (c_id c))"
  shows "sent = []"
proof -
  have "shownAt K node (c_id c) db st = NotAttempted" for st
    using assms(2) by (cases "heldReceipt K node db (c_id c)"; cases st)
      (simp_all add: shownAt_def LifecycleHasEffect_def receiptShows_not stage_texts)
  then show ?thesis using assms(1) by (auto simp: receiptOwns_def)
qed

lemma whole_prefix:
  assumes "prefix xs ys" and "set ys \<subseteq> set xs" and "distinct ys"
  shows "xs = ys"
proof -
  obtain zs where zs: "ys = xs @ zs" using assms(1) by (rule prefixE)
  have "set zs \<subseteq> set xs" using assms(2) by (simp add: zs)
  moreover have "set xs \<inter> set zs = {}" using assms(3) by (simp add: zs)
  ultimately have "zs = []" by (cases zs) simp_all
  then show ?thesis by (simp add: zs)
qed

lemma stagesOf_distinct: "distinct (stagesOf c)"
  by (simp add: stagesOf_def startStages_def)

lemma complete_all:
  assumes "receiptOwns K node c sent db" and "LifecycleComplete (heldReceipt K node db (c_id c)) c"
    and "c_start c \<noteq> None \<and> c_stop c = None \<or> c_start c = None \<and> c_stop c \<noteq> None"
  shows "sent = map stageMethod (stagesOf c)"
proof -
  obtain ss where ss: "prefix ss (stagesOf c)" "sent = map stageMethod ss"
    "\<And>st. shownAt K node (c_id c) db st = Confirmed \<Longrightarrow> st \<in> set ss"
    using assms(1) by (auto simp: receiptOwns_def)
  obtain r where r: "heldReceipt K node db (c_id c) = Some r"
    using assms(2) by (cases "heldReceipt K node db (c_id c)") (simp_all add: LifecycleComplete_def)
  have "shownAt K node (c_id c) db st = Confirmed" if "st \<in> set (stagesOf c)" for st
    using assms(2,3) that r
    by (auto simp: shownAt_def receiptShows_confirmed stage_texts LifecycleComplete_def stagesOf_def startStages_def
        split: if_splits)
  then have "set (stagesOf c) \<subseteq> set ss" using ss(3) by blast
  then show ?thesis using whole_prefix [OF ss(1)] stagesOf_distinct ss(2) by simp
qed

lemma heldReceipt_at:
  assumes "nodeStoreGood K H node db" and "entryAt K node db i = Some e"
  shows "readLifecycle K db (ne_command e) = Inr (heldReceipt K node db i)"
proof -
  have "nodeGood K H node db" using assms(1) by (simp add: nodeStoreGood_def)
  from entryAt_receipt [OF this assms(2)] obtain r where "readLifecycle K db (ne_command e) = Inr r" by metis
  then show ?thesis using assms(2) by (simp add: heldReceipt_def)
qed

text \<open>For every entry with a result, what was sent agrees with what the result says.\<close>

lemma evidence_result:
  assumes good: "nodeStoreGood K H node db" and ev: "evidence K node db i sent"
    and e: "entryAt K node db i = Some e" and v: "ne_result e = Some v"
  shows "prefix sent (planOf (ne_command e))" "ruledOut v \<Longrightarrow> sent = []" "claimsEffect v \<Longrightarrow> sent = planOf (ne_command e)"
proof -
  let ?c = "ne_command e"
  have "prefix sent (planOf ?c) \<and> (ruledOut v \<longrightarrow> sent = []) \<and> (claimsEffect v \<longrightarrow> sent = planOf ?c)"
  proof (cases "IsLifecycleCommand (c_type ?c)")
    case False
    then show ?thesis using ev e v by (simp add: evidence_def entryOwns_def resultOwns_def)
  next
    case True
    have plan: "planOf ?c = map stageMethod (stagesOf ?c)" using True by (simp add: planOf_def)
    have own: "receiptOwns K node ?c sent db" using ev e True by (simp add: evidence_def entryOwns_def)
    have g: "nodeGood K H node db" using good by (simp add: nodeStoreGood_def)
    have id: "c_id ?c = i" and valid: "ValidateCommand (k_pb K) (Some ?c) node = Inr ()"
      using entryAt_command [OF e] validateCommand_Valid by blast+
    obtain r where r: "readLifecycle K db ?c = Inr r" "\<And>v. ne_result e = Some v \<Longrightarrow> cr_lifecycle v = r"
      using entryAt_receipt [OF g e] by metis
    then have held: "cr_lifecycle v = heldReceipt K node db (c_id ?c)"
      using heldReceipt_at [OF good e] v id by auto
    have "ValidateResultForCommand (k_pb K) (Some v) ?c = Inr ()" using entryAt_result [OF e v] by blast
    then have "ValidateLifecycleResult (k_pb K) (Some v) ?c = Inr ()"
      using True by (auto simp: ValidateResultForCommand_def bindR_eq_Inr split: if_splits)
    then have "(ruledOut v \<longrightarrow> \<not> LifecycleHasEffect (cr_lifecycle v)) \<and>
        (claimsEffect v \<longrightarrow> LifecycleComplete (cr_lifecycle v) ?c)"
      by (cases "cr_status v")
        (auto simp: ValidateLifecycleResult_def ruledOut_def claimsEffect_def Let_def bindR_eq_Inr split: if_splits)
    then show ?thesis
      using no_effect_none [OF own] complete_all [OF own] lifecycle_request [OF valid True] held
        receiptOwns_plan [OF own] plan by auto
  qed
  then show "prefix sent (planOf (ne_command e))" "ruledOut v \<Longrightarrow> sent = []" "claimsEffect v \<Longrightarrow> sent = planOf (ne_command e)"
    by blast+
qed

lemma evidence_plan:
  assumes "evidence K node db i sent" and "entryAt K node db i = Some e"
  shows "prefix sent (planOf (ne_command e))"
  using assms receiptOwns_plan by (fastforce simp: evidence_def entryOwns_def resultOwns_def planOf_def split: if_splits)

section \<open>Steps of the journal that send nothing\<close>

text \<open>A new entry claims no effect, an old one gets at most the result of an interruption.\<close>

definition mildEntry :: "node_entry option \<Rightarrow> node_entry option \<Rightarrow> bool" where
  "mildEntry x y = (case x of
     None \<Rightarrow> (\<forall>e. y = Some e \<longrightarrow> (\<forall>v. ne_result e = Some v \<longrightarrow> \<not> claimsEffect v))
   | Some e \<Rightarrow> (\<exists>e'. y = Some e' \<and> ne_command e' = ne_command e \<and>
       (IsLifecycleCommand (c_type (ne_command e)) \<or>
        (\<forall>v. ne_result e' = Some v \<longrightarrow> ne_result e = Some v \<or> \<not> ruledOut v \<and> \<not> claimsEffect v))))"

definition mild :: "'b codecs \<Rightarrow> string \<Rightarrow> 'b node_db \<Rightarrow> 'b node_db \<Rightarrow> bool" where
  "mild K node db db' = (heldReceipt K node db' = heldReceipt K node db \<and>
     (\<forall>i. mildEntry (entryAt K node db i) (entryAt K node db' i)))"

lemma mildEntry_refl [simp]: "mildEntry (Some e) (Some e)" "mildEntry None None"
  by (simp_all add: mildEntry_def)

lemma mild_refl: "mild K node db db"
  by (auto simp: mild_def mildEntry_def split: option.splits)

lemma mild_same: "entryAt K node db' = entryAt K node db \<Longrightarrow> heldReceipt K node db' = heldReceipt K node db \<Longrightarrow> mild K node db db'"
  by (auto simp: mild_def mildEntry_def split: option.splits)

lemma evidence_mild:
  assumes "mild K node db db'" and "evidence K node db i sent"
  shows "evidence K node db' i sent"
proof -
  have same: "heldReceipt K node db' = heldReceipt K node db" and m: "mildEntry (entryAt K node db i) (entryAt K node db' i)"
    using assms(1) by (simp_all only: mild_def)
  show ?thesis
proof (cases "entryAt K node db i")
  case None
  have held: "heldReceipt K node db' i = None" using None by (simp add: same heldReceipt_def)
  note m = m [unfolded None]
  have s: "sent = []" using assms(2) None by (simp add: evidence_def)
  show ?thesis
  proof (cases "entryAt K node db' i")
    case (Some e)
    have "c_id (ne_command e) = i" using entryAt_command(2) [OF Some] .
    then show ?thesis
      using m s held receiptOwns_none [of K node db' "ne_command e"]
      by (auto simp: evidence_def entryOwns_def resultOwns_def mildEntry_def Some)
  qed (simp add: evidence_def s)
next
  case (Some e)
  obtain e' where e': "entryAt K node db' i = Some e'" "ne_command e' = ne_command e"
    "IsLifecycleCommand (c_type (ne_command e)) \<or>
        (\<forall>v. ne_result e' = Some v \<longrightarrow> ne_result e = Some v \<or> \<not> ruledOut v \<and> \<not> claimsEffect v)"
    using m unfolding Some mildEntry_def option.case by blast
  have "receiptOwns K node (ne_command e) sent db' = receiptOwns K node (ne_command e) sent db"
    by (rule receiptOwns_cong) (simp add: same)
  then show ?thesis using assms(2) Some e' by (auto simp: evidence_def entryOwns_def resultOwns_def)
qed
qed

lemma rows_held:
  assumes good: "nodeStoreGood K H node db" and rows: "onlyRows db db'"
    and at: "\<And>i e. entryAt K node db i = Some e \<Longrightarrow> \<exists>e'. entryAt K node db' i = Some e' \<and> ne_command e' = ne_command e"
  shows "heldReceipt K node db' = heldReceipt K node db"
proof (rule ext)
  fix i
  have g: "nodeGood K H node db" using good by (simp add: nodeStoreGood_def)
  show "heldReceipt K node db' i = heldReceipt K node db i"
  proof (cases "entryAt K node db i")
    case (Some e)
    then obtain e' where "entryAt K node db' i = Some e'" "ne_command e' = ne_command e" using at by blast
    then show ?thesis using Some by (simp add: heldReceipt_def onlyRows_receipt [OF rows])
  next
    case None
    then have "tget (nd_commands db) i = None" using entryAt_iff [OF g, of i] by simp
    then have "tget (nd_lifecycle db) i = None" using nodeGoodD(8) [OF g] by blast
    then have none: "readLifecycle K db' c = Inr None" if "c_id c = i" for c
      using that rows by (simp add: readLifecycle_def onlyRows_def)
    show ?thesis
    proof (cases "entryAt K node db' i")
      case (Some e')
      then show ?thesis using none entryAt_command(2) [OF Some] None by (simp add: heldReceipt_def)
    qed (simp add: heldReceipt_def None)
  qed
qed

lemma rows_mild:
  assumes "nodeStoreGood K H node db" and "onlyRows db db'"
    and "\<And>i. mildEntry (entryAt K node db i) (entryAt K node db' i)"
  shows "mild K node db db'"
proof -
  have "\<exists>e'. entryAt K node db' i = Some e' \<and> ne_command e' = ne_command e" if "entryAt K node db i = Some e" for i e
    using assms(3) [of i] that by (auto simp: mildEntry_def)
  then show ?thesis using rows_held [OF assms(1,2)] assms(3) by (simp add: mild_def)
qed

lemma interrupted_says:
  "\<not> ruledOut (interruptedCommandResult c)" "\<not> claimsEffect (interruptedCommandResult c)"
  by (simp_all add: interruptedCommandResult_def interruptedNodeResult_def ruledOut_def claimsEffect_def Let_def)

lemma recovered_mild:
  assumes "recoveredLifecycleResult K db (ne_command e) = Inr v" and "ne_command e' = ne_command e" and "ne_result e' = Some v"
  shows "mildEntry (Some e) (Some e')"
  using assms interrupted_says by (auto simp: mildEntry_def recoveredLifecycleResult_def split: if_splits)

lemma claim_mild:
  assumes good: "nodeStoreGood K H node db" and op: "Claim E K node command db = (x, db')"
  shows "mild K node db db'"
proof (cases "db' = db")
  case False
  then obtain y where pre: "validateCommand (k_pb K) command node = Inr ()"
    and b: "(case command of None \<Rightarrow> Inl (Msg ''command is nil or oversized'') | Some c \<Rightarrow> claimBody K node c db) = Inr (y, db')"
    using operation_durable [OF op [unfolded Claim_def]] by blast
  obtain c where c: "command = Some c" using b by (cases command) simp_all
  have g: "nodeGood K H node db" using good by (simp add: nodeStoreGood_def)
  obtain e' where e': "onlyRows db db'" "claimed K node db c y e'" "entryAt K node db' = (entryAt K node db)(c_id c \<mapsto> e')"
    using claimBody_good [OF g, of c y db'] pre b c by auto
  have same: "mildEntry z z" for z by (auto simp: mildEntry_def split: option.splits)
  have "mildEntry (entryAt K node db (c_id c)) (Some e')"
  proof (cases "entryAt K node db (c_id c)")
    case None
    then have "\<forall>v. ne_result e' = Some v \<longrightarrow> \<not> claimsEffect v"
      using e'(2) by (auto simp: claimed_def claimsEffect_def)
    then show ?thesis by (simp add: mildEntry_def None)
  next
    case (Some e)
    then show ?thesis
      using e'(2) recovered_mild [of K db e _ e'] same by (fastforce simp: claimed_def split: option.splits)
  qed
  then have "mildEntry (entryAt K node db i) (entryAt K node db' i)" for i
    using e'(3) same by (cases "i = c_id c") simp_all
  then show ?thesis by (rule rows_mild [OF good e'(1)])
qed (simp add: mild_refl)

lemma recover_mild:
  assumes good: "nodeStoreGood K H node db" and op: "Recover E K node db = (x, db')"
  shows "mild K node db db'"
proof (cases "db' = db")
  case False
  then obtain y where b: "recoverBody K node db = Inr (y, db')"
    using operation_durable [OF op [unfolded Recover_body]] by blast
  have g: "nodeGood K H node db" using good by (simp add: nodeStoreGood_def)
  note r = recoverBody_good [OF g b]
  have same: "mildEntry z z" for z by (auto simp: mildEntry_def split: option.splits)
  have "mildEntry (Some e) (Some (recoveredEntry K db e))" for e
    using recovered_mild [of K db e _ "recoveredEntry K db e"] same
    by (auto simp: recoveredEntry_def split: option.splits sum.splits)
  then have "mildEntry (entryAt K node db i) (entryAt K node db' i)" for i
    using r same by (cases "entryAt K node db i") simp_all
  then show ?thesis using rows_mild [OF good] r by blast
qed (simp add: mild_refl)

lemma acknowledge_mild:
  assumes good: "nodeStoreGood K H node db" and op: "Acknowledge E K node i st db = (x, db')"
  shows "mild K node db db'"
proof (cases "db' = db")
  case False
  then obtain y where b: "acknowledgeBody K node i st db = Inr (y, db')"
    using operation_durable [OF op [unfolded Acknowledge_def]] by blast
  have g: "nodeGood K H node db" using good by (simp add: nodeStoreGood_def)
  obtain e v where e: "entryAt K node db i = Some e" "ne_result e = Some v" "onlyRows db db'"
      "entryAt K node db' = (entryAt K node db)(i \<mapsto> decided (ne_command e) v True)"
    using acknowledgeBody_good [OF g b] by blast
  have same: "mildEntry z z" for z by (auto simp: mildEntry_def split: option.splits)
  have "mildEntry (entryAt K node db j) (entryAt K node db' j)" for j
    using e same by (cases "j = i") (auto simp: mildEntry_def)
  then show ?thesis by (rule rows_mild [OF good e(3)])
qed (simp add: mild_refl)

section \<open>Handling a command\<close>

lemma complete_facts:
  assumes good: "nodeStoreGood K H (ho_node Q) (an_db s)" and run: "complete K Q W c v s = (r, t)"
  shows "changes t = changes s" "nodeStoreGood K H (ho_node Q) (an_db t)"
    "heldReceipt K (ho_node Q) (an_db t) = heldReceipt K (ho_node Q) (an_db s)"
    "an_db t = an_db s \<or> alive (ww_native W) s \<and> (\<exists>e. entryAt K (ho_node Q) (an_db s) (c_id c) = Some e \<and>
       entryAt K (ho_node Q) (an_db t) = (entryAt K (ho_node Q) (an_db s))(c_id c \<mapsto>
         (if ne_result e = None then decided (ne_command e) v False else e)))"
proof -
  let ?n = "ho_node Q"
  have g: "nodeGood K H ?n (an_db s)" using good by (simp add: nodeStoreGood_def)
  have all: "changes t = changes s \<and> nodeStoreGood K H ?n (an_db t) \<and>
    heldReceipt K ?n (an_db t) = heldReceipt K ?n (an_db s) \<and>
    (an_db t = an_db s \<or> alive (ww_native W) s \<and> (\<exists>e. entryAt K ?n (an_db s) (c_id c) = Some e \<and>
       entryAt K ?n (an_db t) = (entryAt K ?n (an_db s))(c_id c \<mapsto>
         (if ne_result e = None then decided (ne_command e) v False else e))))"
  proof (cases "is_ok (ValidateResultForCommand (k_pb K) (Some v) c)")
    case False
    then show ?thesis using run good by (simp add: complete_def handler_steps)
  next
    case True
    then have vid: "cr_id v = c_id c" using ValidateResultForCommand_id by (auto simp: is_ok_iff)
    obtain x u where j: "journalS W (\<lambda>E. Complete E K ?n (Some v)) s = (x, u)" by fastforce
    obtain db where db: "Complete (ww_store W (nx_clock s)) K ?n (Some v) (an_db s) = (x, db)"
      and u: "an_db u = (if alive (ww_native W) s then db else an_db s)" "changes u = changes s"
      using journalS_facts [OF j] by blast
    have t: "t = u" using run True j by (auto simp: complete_def bindS_def tryS_def handler_steps split: sum.splits if_splits)
    have inv: "nodeStoreGood K H ?n db"
      using nodeStep_change [OF nodeStep.complete [OF db] good] by (simp add: storeChange_def)
    show ?thesis
    proof (cases "db = an_db s")
      case True
      then show ?thesis using t u good by simp
    next
      case False
      then obtain y where b: "completeBody K ?n v (an_db s) = Inr (y, db)"
        using operation_durable [OF db [unfolded Complete_def]] by auto
      obtain e where e: "entryAt K ?n (an_db s) (c_id c) = Some e" "onlyRows (an_db s) db"
          "entryAt K ?n db = (entryAt K ?n (an_db s))(c_id c \<mapsto> (if ne_result e = None then decided (ne_command e) v False else e))"
        using completeBody_good [OF g b] vid by auto
      have "heldReceipt K ?n db = heldReceipt K ?n (an_db s)"
        by (rule rows_held [OF good e(2)]) (use e(1,3) in auto)
      then show ?thesis using t u inv e good by auto
    qed
  qed
  then show "changes t = changes s" "nodeStoreGood K H (ho_node Q) (an_db t)"
    "heldReceipt K (ho_node Q) (an_db t) = heldReceipt K (ho_node Q) (an_db s)"
    "an_db t = an_db s \<or> alive (ww_native W) s \<and> (\<exists>e. entryAt K (ho_node Q) (an_db s) (c_id c) = Some e \<and>
       entryAt K (ho_node Q) (an_db t) = (entryAt K (ho_node Q) (an_db s))(c_id c \<mapsto>
         (if ne_result e = None then decided (ne_command e) v False else e)))"
    by blast+
qed

text \<open>
  A command this process was granted: its intent is in the journal, or nothing of it and then the process
  died while claiming.
\<close>

definition granted :: "'b codecs \<Rightarrow> (string \<Rightarrow> string) \<Rightarrow> string \<Rightarrow> world \<Rightarrow> command \<Rightarrow> 'b node_agent \<Rightarrow> bool" where
  "granted K H node W c s = (nodeStoreGood K H node (an_db s) \<and> heldReceipt K node (an_db s) (c_id c) = None \<and>
     (entryAt K node (an_db s) (c_id c) = Some (undecided c) \<or>
      entryAt K node (an_db s) (c_id c) = None \<and> \<not> alive W s))"

text \<open>What the executor of a granted command leaves behind: \<open>sent\<close> is what it put on the socket.\<close>

definition leaves ::
  "'b codecs \<Rightarrow> (string \<Rightarrow> string) \<Rightarrow> string \<Rightarrow> world \<Rightarrow> command \<Rightarrow> 'b node_agent \<Rightarrow> string list \<Rightarrow>
   command_result res \<Rightarrow> 'b node_agent \<Rightarrow> bool" where
  "leaves K H node W c s sent r t = (changes t = changes s @ sent \<and> nodeStoreGood K H node (an_db t) \<and>
     entryAt K node (an_db t) = entryAt K node (an_db s) \<and>
     (\<forall>j. j \<noteq> c_id c \<longrightarrow> heldReceipt K node (an_db t) j = heldReceipt K node (an_db s) j) \<and>
     evidence K node (an_db t) (c_id c) sent \<and>
     (\<not> IsLifecycleCommand (c_type c) \<longrightarrow> (\<forall>v. r = Inr v \<longrightarrow>
        (ruledOut v \<longrightarrow> sent = []) \<and> (claimsEffect v \<and> alive W t \<longrightarrow> sent = planOf c))))"

lemma evidence_granted:
  assumes "granted K H node W c s" and "entryAt K node db = entryAt K node (an_db s)"
  shows "evidence K node db (c_id c) sent \<longleftrightarrow> (if entryAt K node db (c_id c) = None then sent = []
     else if IsLifecycleCommand (c_type c) then receiptOwns K node c sent db else prefix sent (planOf c))"
  using assms by (auto simp: granted_def evidence_def entryOwns_def resultOwns_def)

lemma nothing_leaves:
  assumes s: "granted K H node W c s" and t: "changes t = changes s" "an_db t = an_db s"
    and r: "\<And>v. r = Inr v \<Longrightarrow> \<not> claimsEffect v"
  shows "leaves K H node W c s [] r t"
proof -
  have "receiptOwns K node c [] (an_db t)" using s t(2) by (simp add: granted_def receiptOwns_none)
  then have "evidence K node (an_db t) (c_id c) []" using evidence_granted [OF s, of "an_db t" "[]"] t(2) by simp
  then show ?thesis using s t r by (simp add: leaves_def granted_def)
qed

lemma carryOut_leaves:
  fixes s :: "'b node_agent"
  assumes s: "granted K H (ho_node Q) (ww_native W) c s" and run: "carryOut K H Q W c s = (r, t)"
  shows "\<exists>sent. leaves K H (ho_node Q) (ww_native W) c s sent r t"
proof (cases "IsLifecycleCommand (c_type c)")
  case True
  let ?n = "ho_node Q"
  have l: "lifecycleMutation K H Q W c s = (r, t)" using run True by (simp add: carryOut_def)
  have f: "framed K H ?n (c_id c) (an_db s) (an_db t)" "owned K ?n c (changes s) t"
    using lifecycleMutation_owned [OF _ _ l] s by (simp_all add: granted_def)
  obtain sent where sent: "changes t = changes s @ sent" "receiptOwns K ?n c sent (an_db t)"
    using f(2) by (auto simp: owned_receipt)
  have at: "entryAt K ?n (an_db t) = entryAt K ?n (an_db s)" using f(1) by (simp add: framed_def)
  have "sent = []" if "entryAt K ?n (an_db t) (c_id c) = None"
  proof -
    have "heldReceipt K ?n (an_db t) (c_id c) = None" using that by (simp add: heldReceipt_def)
    then show ?thesis using sent(2) by (simp add: receiptOwns_none)
  qed
  then have "evidence K ?n (an_db t) (c_id c) sent" using evidence_granted [OF s at, of sent] sent(2) True by simp
  then have "leaves K H ?n (ww_native W) c s sent r t"
    using sent(1) f(1) at True by (simp add: leaves_def framed_def)
  then show ?thesis ..
next
  case False
  let ?n = "ho_node Q"
  obtain sent where d: "sameStore K H ?n (an_db s) (an_db t)" "changes t = changes s @ sent" "prefix sent (planOf c)"
    "sent \<noteq> [] \<Longrightarrow> alive (ww_native W) s"
    "\<And>v. r = Inr v \<Longrightarrow> (ruledOut v \<longrightarrow> sent = []) \<and> (claimsEffect v \<and> alive (ww_native W) t \<longrightarrow> sent = planOf c)"
    using carryOut_effected [OF False, of K H Q W] run unfolding effected_def by metis
  have st: "nodeStoreGood K H ?n (an_db t)" "entryAt K ?n (an_db t) = entryAt K ?n (an_db s)"
    "heldReceipt K ?n (an_db t) = heldReceipt K ?n (an_db s)"
    using d(1) s by (simp_all add: sameStore_def granted_def)
  have "sent = []" if "entryAt K ?n (an_db t) (c_id c) = None" using that s st(2) d(4) by (auto simp: granted_def)
  then have "evidence K ?n (an_db t) (c_id c) sent" using evidence_granted [OF s st(2), of sent] d(3) False by auto
  then have "leaves K H ?n (ww_native W) c s sent r t" using d(2,5) st by (simp add: leaves_def)
  then show ?thesis ..
qed

text \<open>Committing the result keeps the evidence.\<close>

lemma completed_evidence:
  assumes l: "leaves K H (ho_node Q) (ww_native W) c s sent (Inr v) t"
    and s: "granted K H (ho_node Q) (ww_native W) c s" and run: "complete K Q W c v t = (r, u)"
  shows "changes u = changes s @ sent" "nodeStoreGood K H (ho_node Q) (an_db u)"
    "evidence K (ho_node Q) (an_db u) (c_id c) sent"
    "\<And>j. j \<noteq> c_id c \<Longrightarrow> entryAt K (ho_node Q) (an_db u) j = entryAt K (ho_node Q) (an_db s) j \<and>
       heldReceipt K (ho_node Q) (an_db u) j = heldReceipt K (ho_node Q) (an_db s) j"
proof -
  let ?n = "ho_node Q"
  have good: "nodeStoreGood K H ?n (an_db t)" using l by (simp add: leaves_def)
  note f = complete_facts [OF good run]
  show "changes u = changes s @ sent" "nodeStoreGood K H ?n (an_db u)" using f(1,2) l by (simp_all add: leaves_def)
  show "\<And>j. j \<noteq> c_id c \<Longrightarrow> entryAt K ?n (an_db u) j = entryAt K ?n (an_db s) j \<and>
      heldReceipt K ?n (an_db u) j = heldReceipt K ?n (an_db s) j"
    using f(3,4) l by (auto simp: leaves_def)
  have ev: "evidence K ?n (an_db t) (c_id c) sent" using l by (simp add: leaves_def)
  show "evidence K ?n (an_db u) (c_id c) sent"
  proof (cases "an_db u = an_db t")
    case False
    then obtain e where e: "alive (ww_native W) t" "entryAt K ?n (an_db t) (c_id c) = Some e"
        "entryAt K ?n (an_db u) (c_id c) = Some (if ne_result e = None then decided (ne_command e) v False else e)"
      using f(4) by auto
    have "e = undecided c" using e(2) l s by (auto simp: leaves_def granted_def)
    then have eq: "e = undecided c" "entryAt K ?n (an_db u) (c_id c) = Some (decided c v False)" using e(3) by simp_all
    have own: "receiptOwns K ?n c sent (an_db u) = receiptOwns K ?n c sent (an_db t)"
      by (rule receiptOwns_cong) (simp add: f(3))
    show ?thesis
      using ev e(1,2) eq l own by (auto simp: evidence_def entryOwns_def resultOwns_def leaves_def)
  qed (simp add: ev)
qed

text \<open>What handling a command leaves behind, for every command of the journal.\<close>

definition settles ::
  "'b codecs \<Rightarrow> (string \<Rightarrow> string) \<Rightarrow> string \<Rightarrow> string \<Rightarrow> 'b node_agent \<Rightarrow> string list \<Rightarrow> 'b node_agent \<Rightarrow> bool" where
  "settles K H node i s sent t = (changes t = changes s @ sent \<and> nodeStoreGood K H node (an_db t) \<and>
     evidence K node (an_db t) i sent \<and>
     (\<forall>j. j \<noteq> i \<longrightarrow> entryAt K node (an_db t) j = entryAt K node (an_db s) j \<and>
        heldReceipt K node (an_db t) j = heldReceipt K node (an_db s) j))"

text \<open>
  What the journal holds of the command when it is answered: its own intent or result, and the result that
  a process that is still alive reports.
\<close>

definition told :: "'b codecs \<Rightarrow> string \<Rightarrow> world \<Rightarrow> command \<Rightarrow> command_result res \<Rightarrow> 'b node_agent \<Rightarrow> bool" where
  "told K node W c r t = (opt_all (\<lambda>e. ne_command e = c) (entryAt K node (an_db t) (c_id c)) \<and>
     (\<forall>v. r = Inr v \<longrightarrow> alive W t \<longrightarrow> opt_ex (\<lambda>e. ne_result e = Some v) (entryAt K node (an_db t) (c_id c))))"

lemma told_silent:
  assumes "granted K H node W c s" and "entryAt K node (an_db t) = entryAt K node (an_db s)"
  shows "told K node W c (Inl e) t"
  using assms by (auto simp: told_def granted_def undecided_def)

lemma complete_told:
  assumes good: "nodeStoreGood K H (ho_node Q) (an_db z)" and run: "complete K Q W c v z = (r, t)"
    and at: "opt_all (\<lambda>e. e = undecided c) (entryAt K (ho_node Q) (an_db z) (c_id c))"
  shows "told K (ho_node Q) (ww_native W) c r t"
proof -
  let ?n = "ho_node Q"
  have g: "nodeGood K H ?n (an_db z)" using good by (simp add: nodeStoreGood_def)
  have "opt_all (\<lambda>e. ne_command e = c) (entryAt K ?n (an_db t) (c_id c))"
    using complete_facts(4) [OF good run] at by (cases "entryAt K ?n (an_db z) (c_id c)") auto
  moreover have "opt_ex (\<lambda>e. ne_result e = Some w) (entryAt K ?n (an_db t) (c_id c))"
    if w: "r = Inr w" "alive (ww_native W) t" for w
  proof -
    have valid: "is_ok (ValidateResultForCommand (k_pb K) (Some v) c)"
      using run w(1) by (auto simp: complete_def handler_steps split: if_splits)
    then have vid: "cr_id v = c_id c" using ValidateResultForCommand_id by (auto simp: is_ok_iff)
    obtain x u where j: "journalS W (\<lambda>E. Complete E K ?n (Some v)) z = (x, u)" by fastforce
    have x: "x = Inr ()" "w = v" "t = u" using run valid j w(1)
      by (auto simp: complete_def bindS_def tryS_def handler_steps split: sum.splits if_splits)
    obtain db where db: "Complete (ww_store W (nx_clock z)) K ?n (Some v) (an_db z) = (Inr (), db)"
      and u: "an_db u = (if alive (ww_native W) z then db else an_db z)" "nx_clock u = nx_clock z + 1"
      using journalS_facts [OF j] x(1) by blast
    have a: "alive (ww_native W) z" using w(2) u(2) x(3) by (simp add: alive_def)
    have "completeBody K ?n v (an_db z) = Inr ((), db)" using operation_Inr(2) [OF db [unfolded Complete_def]] by simp
    from completeBody_good [OF g this] obtain e where "ne_result e = None \<or> ne_result e = Some v"
        "entryAt K ?n db (cr_id v) = Some (if ne_result e = None then decided (ne_command e) v False else e)"
      by (metis fun_upd_same)
    then show ?thesis using u(1) a x vid by auto
  qed
  ultimately show ?thesis by (simp add: told_def)
qed

lemma settles_from:
  "settles K H node i u sent t \<Longrightarrow> changes u = changes s \<Longrightarrow> an_db u = an_db s \<Longrightarrow> settles K H node i s sent t"
  by (simp add: settles_def)

lemma leaves_settles: "leaves K H node W c s sent r t \<Longrightarrow> settles K H node (c_id c) s sent t"
  by (simp add: settles_def leaves_def)

lemma granted_tick:
  "granted K H node W c s \<Longrightarrow> an_db t = an_db s \<Longrightarrow> nx_clock s \<le> nx_clock t \<Longrightarrow> granted K H node W c t"
  by (auto simp: granted_def alive_def)

lemma draw_facts: "draw f s = (r, t) \<Longrightarrow> r = Inr (f (nx_clock s)) \<and> an_db t = an_db s \<and> changes t = changes s \<and> nx_clock s \<le> nx_clock t"
  by (auto simp: draw_def tick_def changes_def)

lemma execute_settles:
  fixes s :: "'b node_agent"
  assumes s: "granted K H (ho_node Q) (ww_native W) c s" and run: "execute K H Q W c received s = (r, t)"
  shows "\<exists>sent. settles K H (ho_node Q) (c_id c) s sent t \<and> told K (ho_node Q) (ww_native W) c r t"
proof -
  let ?n = "ho_node Q"
  have idle: "settles K H ?n (c_id c) s [] u" if "changes u = changes s" "an_db u = an_db s" for u
    using leaves_settles [OF nothing_leaves [OF s that, of "Inl undefined"]] by simp
  obtain x u where u: "draw (wo_ctx (ww_native W)) s = (Inr x, u)" by (simp add: draw_def)
  note fu = draw_facts [OF u]
  show ?thesis
  proof (cases x)
    case (Some e)
    then have t: "t = u" "r = Inl e" using run u by (simp_all add: execute_def bindS_def handler_steps)
    then have "told K ?n (ww_native W) c r t" using told_silent [OF s] fu by simp
    then show ?thesis using idle [of u] fu t by blast
  next
    case None
    obtain now w where w: "draw (ww_now W) u = (Inr now, w)" by (simp add: draw_def)
    note fw = draw_facts [OF w]
    have sw: "granted K H ?n (ww_native W) c w" using granted_tick [OF s] fu fw by simp
    have go: "changes w = changes s" "an_db w = an_db s" using fu fw by simp_all
    let ?m = "if pastDeadline (k_pb K) c received now then okS (expired c) else carryOut K H Q W c"
    obtain y z where y: "?m w = (y, z)" by fastforce
    have "\<exists>sent. leaves K H ?n (ww_native W) c w sent y z"
    proof (cases "pastDeadline (k_pb K) c received now")
      case True
      then have "y = Inr (expired c)" "z = w" using y by (simp_all add: handler_steps)
      then have "leaves K H ?n (ww_native W) c w [] y z" by (intro nothing_leaves [OF sw]) auto
      then show ?thesis ..
    next
      case False
      then show ?thesis using y by (intro carryOut_leaves [OF sw]) simp
    qed
    then obtain sent where l: "leaves K H ?n (ww_native W) c w sent y z" ..
    have final: "bindS ?m (complete K Q W c) w = (r, t)"
      using run u w None by (simp add: execute_def bindS_def)
    have lz: "entryAt K ?n (an_db z) = entryAt K ?n (an_db w)" "nodeStoreGood K H ?n (an_db z)"
      using l by (simp_all add: leaves_def)
    have "settles K H ?n (c_id c) w sent t \<and> told K ?n (ww_native W) c r t"
    proof (cases y)
      case (Inl e)
      then have "t = z" "r = Inl e" using final y by (simp_all add: bindS_def)
      then show ?thesis using leaves_settles [OF l] told_silent [OF sw lz(1)] by simp
    next
      case (Inr v)
      then have c: "complete K Q W c v z = (r, t)" using final y by (simp add: bindS_def)
      note f = completed_evidence [OF l [unfolded Inr] sw c]
      have "told K ?n (ww_native W) c r t"
        using complete_told [OF lz(2) c] lz(1) sw by (auto simp: granted_def)
      then show ?thesis using f by (simp add: settles_def)
    qed
    then show ?thesis using settles_from [OF _ go] by blast
  qed
qed

definition known :: "'b codecs \<Rightarrow> string \<Rightarrow> 'b node_db \<Rightarrow> (string \<Rightarrow> string list) \<Rightarrow> bool" where
  "known K node db sent = (\<forall>i. evidence K node db i (sent i))"

lemma known_mild: "mild K node db db' \<Longrightarrow> known K node db sent \<Longrightarrow> known K node db' sent"
  unfolding known_def using evidence_mild by blast

lemma settles_known:
  assumes "settles K H node i s new t" and "known K node (an_db s) sent" and "sent i = []"
  shows "known K node (an_db t) (sent(i := new))"
proof -
  have "evidence K node (an_db t) j (sent j)" if "j \<noteq> i" for j
  proof -
    have at: "entryAt K node (an_db t) j = entryAt K node (an_db s) j"
        "heldReceipt K node (an_db t) j = heldReceipt K node (an_db s) j"
      using assms(1) that by (simp_all add: settles_def)
    have "receiptOwns K node (ne_command e) m (an_db t) = receiptOwns K node (ne_command e) m (an_db s)"
      if "entryAt K node (an_db s) j = Some e" for e m
      by (rule receiptOwns_cong) (simp add: at entryAt_command(2) [OF that])
    then show ?thesis
      using assms(2) at by (auto simp: known_def evidence_def entryOwns_def split: option.split elim!: allE [of _ j])
  qed
  then show ?thesis using assms(1) by (simp add: known_def settles_def)
qed

text \<open>
  What \<open>handle\<close> leaves of other commands, what the journal holds of a new one, and where a reported result
  comes from: the journal, or the refusal of a full one.
\<close>

definition reports ::
  "'b codecs \<Rightarrow> string \<Rightarrow> world \<Rightarrow> command \<Rightarrow> 'b node_agent \<Rightarrow> command_result res \<Rightarrow> 'b node_agent \<Rightarrow> bool" where
  "reports K node W c s r t = ((\<forall>j. j \<noteq> c_id c \<longrightarrow> entryAt K node (an_db t) j = entryAt K node (an_db s) j) \<and>
     (entryAt K node (an_db s) (c_id c) = None \<longrightarrow> opt_all (\<lambda>e. ne_command e = c) (entryAt K node (an_db t) (c_id c))) \<and>
     (\<forall>v. r = Inr v \<longrightarrow> alive W t \<longrightarrow> opt_ex (\<lambda>e. ne_result e = Some v) (entryAt K node (an_db t) (c_id c)) \<or>
        v = refusal c ''journal_full'' \<and> changes t = changes s))"

lemma reports_silent: "an_db t = an_db s \<Longrightarrow> reports K node W c s (Inl e) t"
  by (auto simp: reports_def opt_all_def split: option.split)

lemma reports_told:
  assumes "told K node W c r t" and "settles K H node (c_id c) z sent t"
    and "\<And>j. j \<noteq> c_id c \<Longrightarrow> entryAt K node (an_db z) j = entryAt K node (an_db s) j"
  shows "reports K node W c s r t"
  using assms by (simp add: reports_def told_def settles_def)

lemma claim_frame:
  assumes good: "nodeStoreGood K H node db" and op: "Claim E K node (Some c) db = (x, db')"
  shows "j \<noteq> c_id c \<Longrightarrow> entryAt K node db' j = entryAt K node db j"
    "entryAt K node db (c_id c) = None \<Longrightarrow> opt_all (\<lambda>e. ne_command e = c) (entryAt K node db' (c_id c))"
proof -
  have "(j \<noteq> c_id c \<longrightarrow> entryAt K node db' j = entryAt K node db j) \<and>
    (entryAt K node db (c_id c) = None \<longrightarrow> opt_all (\<lambda>e. ne_command e = c) (entryAt K node db' (c_id c)))"
  proof (cases "db' = db")
    case False
    then obtain y where pre: "validateCommand (k_pb K) (Some c) node = Inr ()" and b: "claimBody K node c db = Inr (y, db')"
      using operation_durable [OF op [unfolded Claim_def]] by auto
    have g: "nodeGood K H node db" using good by (simp add: nodeStoreGood_def)
    obtain e' where "claimed K node db c y e'" "entryAt K node db' = (entryAt K node db)(c_id c \<mapsto> e')"
      using claimBody_good [OF g pre b] by auto
    then show ?thesis by (auto simp: claimed_def)
  qed simp
  then show "j \<noteq> c_id c \<Longrightarrow> entryAt K node db' j = entryAt K node db j"
    "entryAt K node db (c_id c) = None \<Longrightarrow> opt_all (\<lambda>e. ne_command e = c) (entryAt K node db' (c_id c))" by blast+
qed

lemma refuseFull_answer: "refuseFull c s = (r, t) \<Longrightarrow> r = Inr v \<Longrightarrow> v = refusal c ''journal_full''"
  by (auto simp: refuseFull_def split: option.splits if_splits)

lemma refuseFull_facts: "refuseFull c s = (r, t) \<Longrightarrow> changes t = changes s \<and> an_db t = an_db s"
  by (auto simp: refuseFull_def changes_def split: option.splits if_splits)

lemma handle_known:
  fixes s :: "'b node_agent"
  assumes good: "nodeStoreGood K H (ho_node Q) (an_db s)" and ev: "known K (ho_node Q) (an_db s) sent"
    and run: "handle K H Q W (Some c) received s = (r, t)"
  shows "\<exists>new. changes t = changes s @ new \<and> nodeStoreGood K H (ho_node Q) (an_db t) \<and>
    known K (ho_node Q) (an_db t) (sent(c_id c := sent (c_id c) @ new)) \<and> reports K (ho_node Q) (ww_native W) c s r t"
proof -
  let ?n = "ho_node Q"
  have idle: ?thesis if "changes t = changes s" "nodeStoreGood K H ?n (an_db t)" "mild K ?n (an_db s) (an_db t)"
      "reports K ?n (ww_native W) c s r t"
    by (intro exI [of _ "[]"]) (simp add: that known_mild [OF that(3) ev])
  have same: ?thesis if "changes t = changes s" "an_db t = an_db s" "r = Inl e" for e
    using idle that good mild_refl reports_silent [OF that(2)] by metis
  show ?thesis
  proof (cases "is_ok (ValidateCommand (k_pb K) (Some c) ?n) \<and> missingCapability Q c = None")
    case False
    then have "t = s \<and> (\<exists>e. r = Inl e)" using run by (auto simp: handle_def handler_steps is_ok_iff split: sum.splits option.splits)
    then show ?thesis using same by blast
  next
    case True
    obtain x u where u: "draw (wo_ctx (ww_native W)) s = (Inr x, u)" by (simp add: draw_def)
    note fu = draw_facts [OF u]
    show ?thesis
    proof (cases x)
      case (Some e)
      then have "t = u" "r = Inl e" using run True u by (auto simp: handle_def bindS_def handler_steps is_ok_iff)
      then show ?thesis using same fu by metis
    next
      case None
      obtain claim w where w: "journalS W (\<lambda>E. Claim E K ?n (Some c)) u = (claim, w)" by fastforce
      obtain db where db: "Claim (ww_store W (nx_clock u)) K ?n (Some c) (an_db u) = (claim, db)"
        and fw: "an_db w = (if alive (ww_native W) u then db else an_db u)" "changes w = changes u" "nx_clock w = nx_clock u + 1"
        using journalS_facts [OF w] by blast
      have gu: "nodeStoreGood K H ?n (an_db u)" using good fu by simp
      have gdb: "nodeStoreGood K H ?n db"
        using nodeStep_change [OF nodeStep.claim [OF db] gu] by (simp add: storeChange_def)
      have gw: "nodeStoreGood K H ?n (an_db w)" using gdb gu fw by simp
      have mw: "mild K ?n (an_db s) (an_db w)" using claim_mild [OF gu db] fu fw by (simp add: mild_refl)
      obtain late z where z: "draw (wo_ctx (ww_native W)) w = (Inr late, z)" by (simp add: draw_def)
      note fz = draw_facts [OF z]
      have final: "claimedOr K H Q W c received claim late z = (r, t)"
        using run True None u w z by (auto simp: handle_def bindS_def tryS_def is_ok_iff)
      have tz: "changes z = changes s" "an_db z = an_db w" using fu fw fz by simp_all
      note frame = claim_frame [OF gu db]
      have fr: "entryAt K ?n (an_db w) j = entryAt K ?n (an_db s) j" if "j \<noteq> c_id c" for j
        using frame(1) [OF that] fu fw by simp
      have new: "opt_all (\<lambda>e. ne_command e = c) (entryAt K ?n (an_db w) (c_id c))" if "entryAt K ?n (an_db s) (c_id c) = None"
        using frame(2) fu fw that by simp
      have rest: ?thesis if "changes t = changes z" "an_db t = an_db z"
        and "\<And>v. r = Inr v \<Longrightarrow> alive (ww_native W) t \<Longrightarrow> opt_ex (\<lambda>e. ne_result e = Some v) (entryAt K ?n (an_db w) (c_id c)) \<or>
          v = refusal c ''journal_full''"
      proof -
        have "reports K ?n (ww_native W) c s r t" using that tz fr new by (simp add: reports_def)
        then show ?thesis using idle that(1,2) tz gw mw by simp
      qed
      have clock: "nx_clock u \<le> nx_clock z" using fw fz by simp
      consider (go) "claim = Inr (None, True)" "late = None"
        | (none) "changes t = changes z" "an_db t = an_db z" "\<not> is_ok r"
        | (full) "refuseFull c z = (r, t)"
        | (again) v where "claim = Inr (Some v, False)" "t = z" "r = Inr v"
        | (odd) v where "claim = Inr (Some v, True)"
        using final by (auto simp: claimedOr_def handler_steps ValidateResultForCommand_def
            split: sum.splits prod.splits bool.splits option.splits if_splits)
      then show ?thesis
      proof cases
        case none
        then show ?thesis using rest by (cases r) simp_all
      next
        case full
        show ?thesis by (rule rest) (use refuseFull_facts [OF full] refuseFull_answer [OF full] in blast)+
      next
        case (again v)
        have "opt_ex (\<lambda>e. ne_result e = Some v) (entryAt K ?n (an_db w) (c_id c))" if a: "alive (ww_native W) t"
        proof -
          have "an_db w = db" using fw clock a again(2) by (simp add: alive_def)
          moreover obtain e' where "claimed K ?n (an_db u) c (Some v, False) e'"
              "entryAt K ?n db = (entryAt K ?n (an_db u))(c_id c \<mapsto> e')"
            using Claim_spec [OF gu, of "ww_store W (nx_clock u)"] db again(1) by blast
          ultimately show ?thesis by (auto simp: claimed_def split: option.splits)
        qed
        then show ?thesis using rest again by simp
      next
        case odd
        then obtain e' where "claimed K ?n (an_db u) c (Some v, True) e'"
          using Claim_spec [OF gu, of "ww_store W (nx_clock u)"] db by blast
        then show ?thesis by (auto simp: claimed_def split: option.splits)
      next
        case go
        obtain e' where e': "claimed K ?n (an_db u) c (None, True) e'"
            "entryAt K ?n db = (entryAt K ?n (an_db u))(c_id c \<mapsto> e')"
          using Claim_spec [OF gu, of "ww_store W (nx_clock u)"] db go(1) by blast
        have fresh: "entryAt K ?n (an_db u) (c_id c) = None" "e' = undecided c"
          using e'(1) by (auto simp: claimed_def split: option.splits)
        have "heldReceipt K ?n (an_db w) (c_id c) = heldReceipt K ?n (an_db s) (c_id c)" using mw by (simp add: mild_def)
        then have "heldReceipt K ?n (an_db w) (c_id c) = None" using fresh(1) fu by (simp add: heldReceipt_def)
        moreover have "entryAt K ?n (an_db w) (c_id c) = Some (undecided c) \<or>
            entryAt K ?n (an_db w) (c_id c) = None \<and> \<not> alive (ww_native W) z"
          using fresh e'(2) fw fz by (auto simp: alive_def)
        ultimately have gz: "granted K H ?n (ww_native W) c z" using gw tz by (simp add: granted_def)
        have "execute K H Q W c received z = (r, t)" using final go by (simp add: claimedOr_def)
        then obtain new' where st: "settles K H ?n (c_id c) z new' t" "told K ?n (ww_native W) c r t"
          using execute_settles [OF gz] by blast
        have "known K ?n (an_db z) sent" using known_mild [OF mw ev] tz(2) by simp
        moreover have "sent (c_id c) = []"
          using ev fresh(1) fu by (auto simp: known_def evidence_def elim!: allE [of _ "c_id c"])
        ultimately have "known K ?n (an_db t) (sent(c_id c := sent (c_id c) @ new'))"
          using settles_known [OF st(1)] by simp
        moreover have "reports K ?n (ww_native W) c s r t"
          using reports_told [OF st(2,1)] fr tz(2) by simp
        ultimately show ?thesis using st(1) tz by (auto simp: settles_def)
      qed
    qed
  qed
qed

lemma planOf_distinct: "distinct (planOf c)"
proof -
  have "inj stageMethod" by (rule injI) (auto elim!: stageMethod.elims)
  then have "distinct (map stageMethod (stagesOf c))" using stagesOf_distinct by (simp add: distinct_map inj_on_def)
  then show ?thesis by (simp add: planOf_def)
qed

lemma prefix_distinct: "prefix xs ys \<Longrightarrow> distinct ys \<Longrightarrow> distinct xs"
  by (auto simp: prefix_def)

end
