(* ===== verification/NodeLife.thy ===== *)
theory NodeLife
  imports NodeEvidence
begin

text \<open>
  The life of a node over any number of processes: commands are handled, acknowledged and recovered,
  project configurations arrive, processes die at any moment and others start on the same store.
  \<open>sent i\<close> is everything ever put on the socket of the native program for command \<open>i\<close> that changes it.
\<close>

section \<open>Steps\<close>

text \<open>
  In every step the memory of the process, the answers of its surroundings and the moment it dies are
  arbitrary; only the store is carried from one step to the next.
\<close>

inductive nodeLife ::
  "'b codecs \<Rightarrow> (string \<Rightarrow> string) \<Rightarrow> string \<Rightarrow> 'b node_db \<Rightarrow> (string \<Rightarrow> string list) \<Rightarrow> bool"
  for K :: "'b codecs" and H :: "string \<Rightarrow> string" and node :: string where
  fresh: "nodeLife K H node emptyNode (\<lambda>i. [])"
| handled: "nodeLife K H node (an_db s) sent \<Longrightarrow> ho_node Q = node \<Longrightarrow> handle K H Q W (Some c) received s = (r, t) \<Longrightarrow>
     changes t = changes s @ new \<Longrightarrow> nodeLife K H node (an_db t) (sent(c_id c := sent (c_id c) @ new))"
| acknowledged: "nodeLife K H node (an_db s) sent \<Longrightarrow> ho_node Q = node \<Longrightarrow> acknowledge K Q W ack s = (r, t) \<Longrightarrow>
     nodeLife K H node (an_db t) sent"
| recovered: "nodeLife K H node db sent \<Longrightarrow> Recover E K node db = (x, db') \<Longrightarrow> nodeLife K H node db' sent"
| configured: "nodeLife K H node db sent \<Longrightarrow> SaveProjectConfig E K node cfg db = (x, db') \<Longrightarrow> nodeLife K H node db' sent"
| applied: "nodeLife K H node db sent \<Longrightarrow> SaveProjectAck E K node a db = (x, db') \<Longrightarrow> nodeLife K H node db' sent"

section \<open>The evidence is kept\<close>

text \<open>Acknowledgements, recovery and project updates add no entry and keep every command.\<close>

definition sameEntries :: "'b codecs \<Rightarrow> string \<Rightarrow> 'b node_db \<Rightarrow> 'b node_db \<Rightarrow> bool" where
  "sameEntries K node db db' = (\<forall>i. map_option ne_command (entryAt K node db' i) = map_option ne_command (entryAt K node db i))"

lemma sameEntries_refl: "sameEntries K node db db"
  by (simp add: sameEntries_def)

lemma sameEntries_eq: "entryAt K node db' = entryAt K node db \<Longrightarrow> sameEntries K node db db'"
  by (simp add: sameEntries_def)

lemma Acknowledge_entries:
  assumes good: "nodeStoreGood K H node db" and op: "Acknowledge E K node i st db = (x, db')"
  shows "sameEntries K node db db'"
proof (cases "db' = db")
  case False
  then obtain y where b: "acknowledgeBody K node i st db = Inr (y, db')"
    using operation_durable [OF op [unfolded Acknowledge_def]] by blast
  have g: "nodeGood K H node db" using good by (simp add: nodeStoreGood_def)
  obtain e v where "entryAt K node db i = Some e"
      "entryAt K node db' = (entryAt K node db)(i \<mapsto> decided (ne_command e) v True)"
    using acknowledgeBody_good [OF g b] by blast
  then show ?thesis by (simp add: sameEntries_def)
qed (simp add: sameEntries_refl)

lemma Recover_entries:
  assumes good: "nodeStoreGood K H node db" and op: "Recover E K node db = (x, db')"
  shows "sameEntries K node db db'"
proof (cases "db' = db")
  case False
  then obtain y where b: "recoverBody K node db = Inr (y, db')"
    using operation_durable [OF op [unfolded Recover_body]] by blast
  have g: "nodeGood K H node db" using good by (simp add: nodeStoreGood_def)
  have "ne_command (recoveredEntry K db e) = ne_command e" for e
    by (simp add: recoveredEntry_def split: option.split sum.split)
  then show ?thesis using recoverBody_good [OF g b] by (simp add: sameEntries_def option.map_comp o_def)
qed (simp add: sameEntries_refl)

lemma acknowledge_store:
  assumes "acknowledge K Q W ack s = (r, t)"
  shows "an_db t = an_db s \<or> (\<exists>E i st x. Acknowledge E K (ho_node Q) i st (an_db s) = (x, an_db t))"
proof -
  have "an_db t = an_db s \<or> (\<exists>i st x u. journalS W (\<lambda>E. Acknowledge E K (ho_node Q) i st) s = (x, u) \<and> an_db t = an_db u)"
    using assms by (fastforce simp: acknowledge_def bindS_def tryS_def handler_steps split: option.splits if_splits sum.splits prod.splits)
  then show ?thesis
  proof (elim disjE exE conjE)
    fix i st x u assume j: "journalS W (\<lambda>E. Acknowledge E K (ho_node Q) i st) s = (x, u)" and t: "an_db t = an_db u"
    obtain db where "Acknowledge (ww_store W (nx_clock s)) K (ho_node Q) i st (an_db s) = (x, db)"
      "an_db u = (if alive (ww_native W) s then db else an_db s)"
      using journalS_facts [OF j] by blast
    then show ?thesis using t by (cases "alive (ww_native W) s") auto
  qed simp
qed

lemma acknowledge_facts:
  fixes s :: "'b node_agent"
  assumes good: "nodeStoreGood K H (ho_node Q) (an_db s)" and run: "acknowledge K Q W ack s = (r, t)"
  shows "nodeStoreGood K H (ho_node Q) (an_db t) \<and> mild K (ho_node Q) (an_db s) (an_db t) \<and>
    sameEntries K (ho_node Q) (an_db s) (an_db t)"
  using acknowledge_store [OF run]
proof (elim disjE exE)
  fix E i st x assume db: "Acknowledge E K (ho_node Q) i st (an_db s) = (x, an_db t)"
  have "nodeStoreGood K H (ho_node Q) (an_db t)"
    using nodeStep_change [OF nodeStep.acknowledge [OF db] good] by (simp add: storeChange_def)
  then show ?thesis using acknowledge_mild [OF good db] Acknowledge_entries [OF good db] by blast
qed (simp add: good mild_refl sameEntries_refl)

lemma projects_mild:
  assumes p: "onlyProjects db db'"
  shows "mild K node db db' \<and> sameEntries K node db db'"
proof -
  have at: "entryAt K node db' = entryAt K node db" using nodeGood_cong(2) [OF p] .
  have "readLifecycle K db' = readLifecycle K db" using nodeGood_cong(3) [OF p] by (simp add: fun_eq_iff)
  then have "heldReceipt K node db' i = heldReceipt K node db i" for i by (simp only: heldReceipt_def at)
  then have "heldReceipt K node db' = heldReceipt K node db" by (rule ext)
  then show ?thesis using mild_same [OF at] sameEntries_eq [OF at] by blast
qed

lemma config_mild:
  assumes "nodeStoreGood K H node db" and "SaveProjectConfig E K node cfg db = (x, db')"
  shows "mild K node db db' \<and> sameEntries K node db db'"
proof (cases "db' = db")
  case False
  then obtain y where b: "bindR (validateProjectConfig cfg) (\<lambda>_.
        if opt_ex (\<lambda>c. pc_node c \<noteq> node) cfg then Inl ErrProjectConflict else Inr ()) = Inr ()"
    "(case cfg of None \<Rightarrow> Inl (Msg ''invalid project configuration'') | Some c \<Rightarrow> saveConfigBody K node c db) = Inr (y, db')"
    using operation_durable [OF assms(2) [unfolded SaveProjectConfig_def]] by blast
  then obtain c where c: "cfg = Some c" "saveConfigBody K node c db = Inr (y, db')" by (cases cfg) simp_all
  have "onlyProjects db db'"
    using saveConfigBody_good [OF _ _ _ c(2)] assms(1) b(1) c(1)
    by (auto simp: nodeStoreGood_def bindR_eq_Inr split: if_splits)
  then show ?thesis by (rule projects_mild)
qed (simp add: mild_refl sameEntries_refl)

lemma ack_mild:
  assumes "nodeStoreGood K H node db" and "SaveProjectAck E K node a db = (x, db')"
  shows "mild K node db db' \<and> sameEntries K node db db'"
proof (cases "db' = db")
  case False
  then obtain y where b: "validateProjectAck a = Inr ()"
    "(case a of None \<Rightarrow> Inl (Msg ''invalid project acknowledgement'') | Some a \<Rightarrow> saveAckBody K node a db) = Inr (y, db')"
    using operation_durable [OF assms(2) [unfolded SaveProjectAck_def]] by blast
  then obtain k where k: "a = Some k" "saveAckBody K node k db = Inr (y, db')" by (cases a) simp_all
  have "onlyProjects db db'"
    using saveAckBody_good [OF _ _ k(2)] assms(1) b(1) k(1) by (auto simp: nodeStoreGood_def)
  then show ?thesis by (rule projects_mild)
qed (simp add: mild_refl sameEntries_refl)

lemma fresh_known: "known K node emptyNode (\<lambda>i. [])"
  by (simp add: known_def evidence_def entryAt_def emptyNode_def tget_def)

lemma life_known:
  assumes "nodeLife K H node db sent" and "codecs_ok K"
  shows "nodeStoreGood K H node db \<and> known K node db sent"
  using assms(1)
proof induction
  case fresh
  show ?case using nodeStoreGood_empty [OF assms(2)] fresh_known by blast
next
  case (handled s sent Q W c received r t new)
  then obtain m where m: "changes t = changes s @ m" "nodeStoreGood K H node (an_db t)"
    "known K node (an_db t) (sent(c_id c := sent (c_id c) @ m))"
    using handle_known [of K H Q s sent W c received r t] by metis
  then have "m = new" using handled.hyps(4) by simp
  then show ?case using m(2,3) by blast
next
  case (acknowledged s sent Q W ack r t)
  then show ?case using acknowledge_facts [of K H Q s W ack r t] known_mild by blast
next
  case (recovered db sent E x db')
  have "nodeStoreGood K H node db'"
    using nodeStep_change [OF nodeStep.recover [OF recovered.hyps(2)]] recovered.IH by (simp add: storeChange_def)
  then show ?case using recover_mild [OF _ recovered.hyps(2)] recovered.IH known_mild by blast
next
  case (configured db sent E cfg x db')
  have "nodeStoreGood K H node db'"
    using nodeStep_change [OF nodeStep.config [OF configured.hyps(2)]] configured.IH by (simp add: storeChange_def)
  then show ?case using config_mild [OF _ configured.hyps(2)] configured.IH known_mild by blast
next
  case (applied db sent E a x db')
  have "nodeStoreGood K H node db'"
    using nodeStep_change [OF nodeStep.ack [OF applied.hyps(2)]] applied.IH by (simp add: storeChange_def)
  then show ?case using ack_mild [OF _ applied.hyps(2)] applied.IH known_mild by blast
qed

end
