(* ===== verification/SampleLife.thy ===== *)
theory SampleLife
  imports NodeLife SampleNode
begin

text \<open>
  Concrete lives of a node: an input to an agent is handled in time, with the native program answering its
  four requests, and the same command and a start are handled too late.
\<close>

section \<open>The native program\<close>

definition controlTarget :: agent_target where
  "controlTarget = \<lparr>at_pane = ''p1'', at_terminal = ''t1'', at_agent_session = '''', at_session = '''',
     at_incarnation = '''', at_unk = []\<rparr>"

definition controlCommand :: command where
  "controlCommand = emptyCommand\<lparr>c_id := sampleId, c_key := ''key-1'', c_type := ''agent.control.v1'',
     c_target := ''node-1'', c_actor := Some sampleActor, c_ttl := Some (seconds 10),
     c_expires := Some (at_second 1000),
     c_control := Some \<lparr>ag_action = ACTION_INPUT, ag_target = Some controlTarget, ag_text = '''',
       ag_keys = [''enter''], ag_unk = []\<rparr>\<rparr>"

definition envelopeOf :: "nat \<Rightarrow> object \<Rightarrow> json res" where
  "envelopeOf n result = Inr (JObject [(''id'', JString (requestID n)), (''result'', JObject result)])"

definition agentObject :: object where
  "agentObject = [(''pane_id'', JString ''p1''), (''terminal_id'', JString ''t1''), (''workspace_id'', JString ''w1''),
     (''tab_id'', JString ''tab1''), (''agent_status'', JString ''idle''), (''revision'', JInt 1), (''focused'', JBool False),
     (''agent'', JString ''claude'')]"

text \<open>The native program answers the four requests of the command, in this order.\<close>

definition nativeAnswer :: "nat \<Rightarrow> json res" where
  "nativeAnswer n =
     (if n = 11 then envelopeOf 1 [(''type'', JString ''pong''), (''version'', JString ''1.2.3''), (''protocol'', JInt 20)]
      else if n = 12 then envelopeOf 2 [(''type'', JString ''agent_info''), (''agent'', JObject agentObject)]
      else if n = 15 then envelopeOf 3 [(''type'', JString ''ok'')]
      else if n = 16 then envelopeOf 4 [(''type'', JString ''agent_info''), (''agent'', JObject agentObject)]
      else Inl badResponse)"

definition sampleWorld :: "nat \<Rightarrow> node_world" where
  "sampleWorld now = \<lparr>ww_native = \<lparr>wo_answer = nativeAnswer, wo_ctx = \<lambda>n. None, wo_late = \<lambda>n. False, wo_directory = \<lambda>n p. None,
     wo_same = \<lambda>n a b. None, wo_path = \<lambda>n b. False, wo_root = \<lambda>n b. False, wo_destination = \<lambda>n b s. None,
     wo_canonical = \<lambda>n s. None, wo_fold = \<lambda>a b. a = b, wo_leaf = \<lambda>n a b. False, wo_git_found = \<lambda>n. False,
     wo_git = \<lambda>n a b. None, wo_limit = 100\<rparr>,
   ww_store = \<lambda>n. calm, ww_peer = \<lambda>n. Inr (), ww_now = \<lambda>n. at_ns (int now), ww_identity = \<lambda>n. Inl ErrUnavailable,
   ww_status = \<lambda>n s. Inl ErrUnavailable, ww_ensure = \<lambda>n s. Inl ErrUnavailable\<rparr>"

definition sampleOptions :: handler_options where
  "sampleOptions = \<lparr>ho_node = ''node-1'', ho_socket = ''/run/herdr.sock'', ho_policy = None, ho_managed = False,
     ho_sessions = False, ho_verifier = True, ho_workspaces = False, ho_worktrees = False, ho_agents = True,
     ho_session_commands = False, ho_lifecycle = False\<rparr>"

definition sampleAgent :: "blob node_db \<Rightarrow> blob node_agent" where
  "sampleAgent db = \<lparr>nx_clock = 0, nx_trace = [], nx_next = 0, nx_result = newLifecycleResult, nx_panes = [],
     an_db = db, an_receipt = None, an_cwd = '''', an_published = [], an_ephemeral = [], an_current = [],
     an_bindings = [], an_baseline = Some \<lparr>hs_status = ''ready'', hs_version = '''', hs_protocol = 20, hs_sequence = 0,
       hs_observed = Some (at_second 990), hs_error = '''', hs_workspaces = [], hs_tabs = [], hs_panes = [], hs_agents = [],
       hs_unk = []\<rparr>\<rparr>"


definition controlView :: agent_view where
  "controlView = \<lparr>av_target = Some controlTarget, av_workspace = ''w1'', av_tab = ''tab1'',
         av_provider = ''claude'', av_status = ''idle'', av_interactive = False, av_pending = False,
         av_revision = 1, av_change_seq = 0, av_display_name = '''', av_directory = '''',
         av_unk = []\<rparr>"

lemma controlTarget_ok: "ValidateAgentTarget (Some controlTarget) b = Inr ()"
  by (simp add: ValidateAgentTarget_def controlTarget_def ValidateSessionSelector_def)

lemma controlView_tokens: "commandToken ''claude''"
  by (simp_all add: commandToken_def token_char_def is_digit_def is_lower_def is_upper_def byte_def)

lemma controlView_meta: "ValidDisplayMetadata '''' ''''"
  by (simp add: ValidDisplayMetadata_def eval_text)

lemma controlView_ok: "ValidateAgentView (Some controlView) = Inr ()"
  by (simp add: ValidateAgentView_def controlView_def controlTarget_ok controlView_tokens controlView_meta validAgentStatus_def agentStatuses_def)

lemma agentObject_at:
  "member_at agentObject ''pane_id'' = JString ''p1''" "member_at agentObject ''terminal_id'' = JString ''t1''"
  "member_at agentObject ''workspace_id'' = JString ''w1''" "member_at agentObject ''tab_id'' = JString ''tab1''"
  "member_at agentObject ''agent_status'' = JString ''idle''" "member_at agentObject ''revision'' = JInt 1"
  "member_at agentObject ''focused'' = JBool False" "member_at agentObject ''agent'' = JString ''claude''"
  "member_at agentObject ''name'' = JNull" "member_at agentObject ''foreground_cwd'' = JNull"
  "member_at agentObject ''cwd'' = JNull" "member_at agentObject ''agent_session'' = JNull"
  "map_of agentObject ''interactive_ready'' = None" "map_of agentObject ''launch_pending'' = None"
  "map_of agentObject ''state_change_seq'' = None"
  by (simp_all add: agentObject_def member_at_def)

lemma agentObject_view: "agentFields agentObject = Inr controlView"
proof -
  have d: "displayMetadata agentObject ''agents'' = Inr ('''', '''')"
    by (simp add: displayMetadata_def displayString_def displayDirectory_def agentObject_at controlView_meta)
  have s: "providerSession agentObject p = Inr ''''" for p by (simp add: providerSession_def agentObject_at)
  have v: "\<lparr>av_target = Some \<lparr>at_pane = ''p1'', at_terminal = ''t1'', at_agent_session = '''',
           at_session = '''', at_incarnation = '''', at_unk = []\<rparr>, av_workspace = ''w1'', av_tab = ''tab1'',
         av_provider = ''claude'', av_status = ''idle'', av_interactive = False, av_pending = False,
         av_revision = 1, av_change_seq = 0, av_display_name = '''', av_directory = '''',
         av_unk = []\<rparr> = controlView"
    by (simp add: controlView_def controlTarget_def)
  show ?thesis
    by (simp add: agentFields_def d s agentObject_at decodeString_def decodeBool_def decodeUint_def optionalOr_def
        controlView_ok v Let_def)
qed

lemma agentObject_parsed: "parseAgentInfo (JObject agentObject) = Inr controlView"
  by (simp add: parseAgentInfo_def decodeObject_def agentObject_view)

lemma decimals: "requestID (Suc 0) = ''herdr-1''" "requestID 2 = ''herdr-2''" "requestID 3 = ''herdr-3''" "requestID 4 = ''herdr-4''"
  by code_simp+

lemma envelope_read:
  "readEnvelope n ty (JObject [(''id'', JString (requestID n)), (''result'', JObject ((''type'', JString ty) # rest))]) =
    Inr ((''type'', JString ty) # rest)"
  by (simp add: readEnvelope_def decodeObject_def member_at_def)

text \<open>One request of the sample run.\<close>

lemma request_answered:
  assumes "wo_answer W (nx_clock s) = envelopeOf (nx_next s + 1) ((''type'', JString ty) # rest)"
  shows "agentRequest W method ty ps s = (Inr ((''type'', JString ty) # rest), tick (s\<lparr>nx_next := nx_next s + 1,
       nx_trace := (if alive W s then nx_trace s @ [Sent method ps] else nx_trace s)\<rparr>))"
  using assms by (simp add: agentRequest_def bindS_def send_def handler_steps envelopeOf_def envelope_read tick_def)

lemma request_orFail:
  assumes "wo_answer W (nx_clock s) = envelopeOf (nx_next s + 1) ((''type'', JString ty) # rest)"
  shows "orFail W e (agentRequest W method ty ps) s = (Inr ((''type'', JString ty) # rest), tick (s\<lparr>nx_next := nx_next s + 1,
       nx_trace := (if alive W s then nx_trace s @ [Sent method ps] else nx_trace s)\<rparr>))"
  using request_answered [OF assms] by (simp add: orFail_def bindS_def tryS_def handler_steps)

lemma orFail_Inr: "m s = (Inr x, t) \<Longrightarrow> orFail W e m s = (Inr x, t)"
  by (simp add: orFail_def bindS_def tryS_def handler_steps)

definition sampleNative :: world where "sampleNative = ww_native (sampleWorld 995)"

lemma sampleNative_simps [simp]:
  "wo_answer sampleNative = nativeAnswer" "wo_ctx sampleNative = (\<lambda>n. None)" "wo_limit sampleNative = 100"
  by (simp_all add: sampleNative_def sampleWorld_def)

definition sent4 :: "act list" where
  "sent4 = [Sent ''ping'' [], Sent ''agent.get'' [(''target'', JString ''p1'')],
     Sent ''agent.send_keys'' [(''target'', JString ''p1''), (''keys'', JArray [JString ''enter''])],
     Sent ''agent.get'' [(''target'', JString ''p1'')]]"

lemma config_local: "configOk (socketConfig ''/run/herdr.sock'')"
  by (simp add: configOk_def socketConfig_def localAddress_def byte_def has_prefix_def)

lemma pong_read: "versionProtocol [(''type'', JString ''pong''), (''version'', JString ''1.2.3''), (''protocol'', JInt 20)] = Inr (''1.2.3'', 20)"
proof -
  have v: "versionPattern ''1.2.3''" by code_simp
  show ?thesis by (simp add: versionProtocol_def member_at_def decodeString_def decodeUint_def v)
qed

lemma observer_run:
  assumes "nx_clock s = 11"
  shows "agentObserver sampleNative (socketConfig ''/run/herdr.sock'') s =
    (Inr (), s\<lparr>nx_clock := 12, nx_next := 1, nx_trace := nx_trace s @ [Sent ''ping'' []]\<rparr>)"
proof -
  let ?s = "s\<lparr>nx_next := 0\<rparr>"
  have a: "wo_answer sampleNative (nx_clock ?s) = envelopeOf (nx_next ?s + 1) ((''type'', JString ''pong'') #
      [(''version'', JString ''1.2.3''), (''protocol'', JInt 20)])"
    using assms by (simp add: nativeAnswer_def)
  note r = request_orFail [OF a, of ErrAgentUnavailable "''ping''" "[]"]
  show ?thesis
    using assms by (simp add: agentObserver_def config_local rpc_def bindS_def handler_steps r)
      (simp add: orFail_def bindS_def tryS_def handler_steps pong_read SupportsProtocol_def tick_def alive_def)
qed

lemma get_run:
  assumes "nx_clock s = 12 \<and> nx_next s = 1 \<or> nx_clock s = 16 \<and> nx_next s = 3"
  shows "getAgent sampleNative controlTarget s = (Inr controlView, s\<lparr>nx_clock := nx_clock s + 2, nx_next := nx_next s + 1,
     nx_trace := nx_trace s @ [Sent ''agent.get'' [(''target'', JString ''p1'')]]\<rparr>)"
proof -
  have a: "wo_answer sampleNative (nx_clock s) = envelopeOf (nx_next s + 1) ((''type'', JString ''agent_info'') #
      [(''agent'', JObject agentObject)])"
    using assms by (auto simp: nativeAnswer_def numeral_2_eq_2)
  note r = request_orFail [OF a, of ErrAgentUnavailable "''agent.get''" "[(''target'', JString (at_pane controlTarget))]"]
  have t: "isTarget controlTarget controlView" by (simp add: isTarget_def viewTarget_def controlView_def)
  have p: "at_pane controlTarget = ''p1''" by (simp add: controlTarget_def)
  have al: "alive sampleNative s" using assms by (auto simp: alive_def)
  show ?thesis
    using al by (simp add: getAgent_def bindS_def r [unfolded p] p)
      (simp add: orFail_def bindS_def tryS_def handler_steps member_at_def agentObject_parsed t draw_def tick_def)
qed

definition controlResult :: agent_control_result where
  "controlResult = \<lparr>acr_target = Some controlTarget, acr_observed = ''idle'', acr_change_seq = 0, acr_unk = []\<rparr>"

lemma control_run:
  assumes "nx_clock s = 10"
  shows "controlAgent sampleNative (socketConfig ''/run/herdr.sock'') (c_control controlCommand) s =
    (Inr controlResult, s\<lparr>nx_clock := 19, nx_next := 4, nx_trace := nx_trace s @ sent4\<rparr>)"
proof -
  define v where "v = \<lparr>ag_action = ACTION_INPUT, ag_target = Some controlTarget, ag_text = '''', ag_keys = [''enter''], ag_unk = []\<rparr>"
  have c: "c_control controlCommand = Some v" by (simp add: controlCommand_def emptyCommand_def v_def)
  have ok: "ValidateAgentControl (Some v) = Inr ()"
    by (simp add: ValidateAgentControl_def v_def controlTarget_ok ValidateAgentControlInput_def ValidAgentKey_def agentKeys_def)
  have p: "controlPlan v ''p1'' controlView =
      Inr (''agent.send_keys'', ''ok'', [(''target'', JString ''p1''), (''keys'', JArray [JString ''enter''])])"
    by (simp add: controlPlan_def v_def controlView_def)
  have f: "at_pane controlTarget = ''p1''" "at_terminal controlTarget = ''t1''" "at_agent_session controlTarget = ''''"
    "ag_target v = Some controlTarget" "ag_action v = ACTION_INPUT" "av_status controlView = ''idle''" "av_change_seq controlView = 0"
    by (simp_all add: controlTarget_def v_def controlView_def)
  have target: "\<lparr>at_pane = ''p1'', at_terminal = ''t1'', at_agent_session = '''', at_session = '''', at_incarnation = '''',
      at_unk = []\<rparr> = controlTarget" and cfg: "cf_check (socketConfig p) = None" for p
    by (simp_all add: controlTarget_def socketConfig_def)
  have same: "sameAgent controlView controlView controlTarget" by (simp add: sameAgent_def f)
  let ?s1 = "s\<lparr>nx_clock := 11\<rparr>"
  let ?s2 = "s\<lparr>nx_clock := 12, nx_next := Suc 0, nx_trace := nx_trace s @ [Sent ''ping'' []]\<rparr>"
  have s2: "agentObserver sampleNative (socketConfig ''/run/herdr.sock'') ?s1 = (Inr (), ?s2)"
    using observer_run [of ?s1] by simp
  let ?s3 = "s\<lparr>nx_clock := 14, nx_next := 2, nx_trace := nx_trace s @ take 2 sent4\<rparr>"
  have s3: "getAgent sampleNative controlTarget ?s2 = (Inr controlView, ?s3)"
    using get_run [of ?s2] by (simp add: sent4_def)
  let ?s4 = "s\<lparr>nx_next := 2, nx_trace := nx_trace s @ take 2 sent4, nx_clock := 15\<rparr>"
  let ?s5 = "s\<lparr>nx_clock := 16, nx_next := 3, nx_trace := nx_trace s @ take 3 sent4\<rparr>"
  have a: "wo_answer sampleNative (nx_clock ?s4) = envelopeOf (nx_next ?s4 + 1) ((''type'', JString ''ok'') # [])"
    by (simp add: nativeAnswer_def)
  have s5: "orFail sampleNative ErrAgentIndeterminate (agentRequest sampleNative ''agent.send_keys'' ''ok''
      [(''target'', JString ''p1''), (''keys'', JArray [JString ''enter''])]) ?s4 = (Inr [(''type'', JString ''ok'')], ?s5)"
    by (subst request_orFail [OF a]) (simp add: tick_def alive_def sent4_def)
  let ?s6 = "s\<lparr>nx_clock := 18, nx_next := 4, nx_trace := nx_trace s @ sent4\<rparr>"
  have "getAgent sampleNative controlTarget ?s5 = (Inr controlView, ?s6)"
    using get_run [of ?s5] by (simp add: sent4_def)
  then have s6: "controlObserved sampleNative v controlTarget controlView ack ?s5 = (Inr controlView, ?s6)" for ack
    by (simp add: controlObserved_def f) (rule orFail_Inr, simp add: bindS_def same handler_steps)
  show ?thesis
    by (simp add: controlAgent_def c bindS_def draw_def assms tick_def ok f s2 s3 handler_steps p sessionCheck_def
        cfg s5 [unfolded One_nat_def] s5 s6 ctxDone_def controlResult_def target)
qed

section \<open>The journal around the effect\<close>

lemma control_fields:
  "c_id controlCommand = sampleId" "c_target controlCommand = ''node-1''" "c_key controlCommand = ''key-1''"
  "c_type controlCommand = ''agent.control.v1''" "c_expires controlCommand = Some (at_second 1000)"
  "c_ttl controlCommand = Some (seconds 10)" "c_start controlCommand = None" "c_stop controlCommand = None"
  "c_session controlCommand = None" "c_actor controlCommand = Some sampleActor" "c_exec_expires controlCommand = None"
  "c_unk controlCommand = []" "c_workspace controlCommand = None" "c_worktree controlCommand = None"
  "c_submitted controlCommand = None" "c_payload controlCommand = None" "c_preconditions controlCommand = None"
  "c_control controlCommand = Some \<lparr>ag_action = ACTION_INPUT, ag_target = Some controlTarget, ag_text = '''', ag_keys = [''enter''], ag_unk = []\<rparr>"
  by (simp_all add: controlCommand_def emptyCommand_def)

lemma control_ok: "ValidateAgentControl (c_control controlCommand) = Inr ()"
  by (simp add: ValidateAgentControl_def control_fields controlTarget_ok ValidateAgentControlInput_def ValidAgentKey_def agentKeys_def)

lemma control_not_start: "\<not> IsLifecycleCommand ''agent.control.v1''"
  by (simp add: IsLifecycleCommand_def effect_types)

lemma controlCommand_valid: "ValidateCommand samplePb (Some controlCommand) ''node-1'' = Inr ()"
proof -
  have e: "validateExecution samplePb controlCommand = Inr ()"
    by (simp add: validateExecution_def control_fields control_not_start)
  have b: "validateCommandBody (c_type controlCommand) (c_workspace controlCommand)
      (checkedWorktree controlCommand) (c_control controlCommand) (c_session controlCommand)
      (c_start controlCommand) (c_stop controlCommand) = Inr ()"
    using control_ok by (simp add: checkedWorktree_def validateCommandBody_def effect_types command_types control_fields
        control_not_start)
  have t: "validTTL samplePb (c_ttl controlCommand) = Inr ()"
    by (simp add: validTTL_def MaxCommandTTL_def control_fields seconds_def)
  have x: "validExpiry samplePb (c_expires controlCommand)" "validCommandActor (c_actor controlCommand)"
    by (simp_all add: validExpiry_def validCommandActor_def control_fields sampleActor_def at_second_def)
  show ?thesis
    by (simp add: ValidateCommand_def e b t x control_fields(1-3,12,15-17) MaxLifecycleReceiptBytes_def ValidCommandID_def)
qed

lemma control_known: "\<not> command_unknown controlCommand"
  by (simp add: command_unknown_def control_fields sampleActor_def du_unknown_def seconds_def ts_unknown_def at_second_def
      ag_unknown_def at_unknown_def controlTarget_def)

text \<open>A command the sample node can journal, its claim in an empty journal and its completion.\<close>

definition journalled :: "command \<Rightarrow> bool" where
  "journalled c = (validateCommand samplePb (Some c) ''node-1'' = Inr () \<and> c_id c = sampleId \<and> \<not> command_unknown c \<and>
     (IsLifecycleCommand (c_type c) \<or> fst (CommandProject c) = ''''))"

lemma journalled_at:
  assumes "journalled c"
  shows "entryAt sampleCodecs ''node-1'' (nodeOf c) i = (if i = sampleId then Some (undecided c) else None)"
proof -
  have "decodeEntry sampleCodecs ''node-1'' (sampleId, probeRow RUNNING c None 0) = Inr (undecided c)"
    using assms by (simp add: journalled_def decodeEntry_def probeRow_def sampleCommand_decode undecided_def)
  then show ?thesis by (simp add: entryAt_def nodeOf_def tget_def)
qed

lemma journalled_claim:
  assumes "journalled c"
  shows "Claim calm sampleCodecs ''node-1'' (Some c) emptyNode = (Inr (None, True), nodeOf c)"
proof -
  note j = assms [unfolded journalled_def]
  have good: "nodeGood sampleCodecs sampleDigest ''node-1'' emptyNode"
    using emptyNode_good by (simp add: nodeStoreGood_def)
  have m: "marshalCommandMessage command_unknown (k_command sampleCodecs) c = Inr (BCommand c)"
    using j by (simp add: marshalCommandMessage_def marshalBounded_def maxCommandBytes_def)
  have i: "claimIntent sampleCodecs c (BCommand c) emptyNode = Inr ((None, True), nodeOf c)"
    using j by (simp add: claimIntent_def insertNodeRow_def nodeRowOk_def storedNodeStatus_def nodeOf_def probeRow_def tget_def)
  have "claimNew sampleCodecs ''node-1'' c emptyNode = Inr ((None, True), nodeOf c)"
    using i j by (auto simp: claimNew_def m empty_fence maxCommands_def)
  then have "claimBody sampleCodecs ''node-1'' c emptyNode = Inr ((None, True), nodeOf c)"
    by (simp add: claimBody_def readNodeEntry_eq [OF good])
  then show ?thesis using j by (simp add: Claim_def calm_operation)
qed

definition closedNode :: "command \<Rightarrow> command_result \<Rightarrow> blob node_db" where
  "closedNode c v = emptyNode\<lparr>nd_commands := [(sampleId, probeRow (cr_status v) c (Some v) 0)]\<rparr>"

lemma journalled_complete:
  assumes c: "journalled c" and v: "ValidateResultForCommand samplePb (Some v) c = Inr ()" "ValidateCommandResult (Some v) = Inr ()"
    "\<not> result_unknown v" "cr_lifecycle v = None"
  shows "Complete calm sampleCodecs ''node-1'' (Some v) (nodeOf c) = (Inr (), closedNode c v)"
    "entryAt sampleCodecs ''node-1'' (closedNode c v) sampleId = Some (decided c v False)"
proof -
  note j = c [unfolded journalled_def]
  have good: "nodeGood sampleCodecs sampleDigest ''node-1'' (nodeOf c)"
    using nodeStep_change [OF nodeStep.claim [OF journalled_claim [OF c]] emptyNode_good]
    by (simp add: storeChange_def nodeStoreGood_def)
  have f: "cr_id v = sampleId" using ValidateResultForCommand_id [OF v(1)] j by simp
  note st = ValidateResultForCommand_status [OF v(1)]
  have m: "marshalCommandMessage result_unknown (k_result sampleCodecs) v = Inr (BResult v)"
    using v(3) by (simp add: marshalCommandMessage_def marshalBounded_def maxCommandBytes_def)
  have w: "writeNodeResult sampleCodecs c v (nodeOf c) = Inr (closedNode c v)"
    using v(1) m f st by (auto simp: writeNodeResult_def nodeOf_def closedNode_def tget_def probeRow_def
        nodeRowOk_def storedNodeStatus_def Let_def)
  have r: "readLifecycle sampleCodecs (nodeOf c) c = Inr None" by (simp add: readLifecycle_def nodeOf_def tget_def)
  have "completeBody sampleCodecs ''node-1'' v (nodeOf c) = Inr ((), closedNode c v)"
    using w v(1,4) f journalled_at [OF c, of sampleId] r
    by (simp add: completeBody_def readNodeEntry_eq [OF good] conflictOf_def cong del: bindR_cong)
  then show "Complete calm sampleCodecs ''node-1'' (Some v) (nodeOf c) = (Inr (), closedNode c v)"
    using v(2) by (simp add: Complete_def calm_operation conflictOf_def)
  have "decodeResult sampleCodecs (Some (BResult v)) = Inr v"
    using v(3) by (simp add: decodeResult_def decodeCommandMessage_def maxCommandBytes_def)
  then have "decodeEntry sampleCodecs ''node-1'' (sampleId, probeRow (cr_status v) c (Some v) 0) = Inr (decided c v False)"
    using j v(1) f st by (auto simp: decodeEntry_def probeRow_def sampleCommand_decode decided_def)
  then show "entryAt sampleCodecs ''node-1'' (closedNode c v) sampleId = Some (decided c v False)"
    by (simp add: entryAt_def closedNode_def tget_def)
qed

lemma control_journalled: "journalled controlCommand"
  using controlCommand_valid control_known
  by (simp add: journalled_def validateCommand_def control_fields maxCommandBytes_def MaxLifecycleReceiptBytes_def CommandProject_def
      projectOf_def)

lemma start_journalled: "journalled startCommand"
  using validateCommand_sample messages_known
  by (simp add: journalled_def start_fields IsLifecycleCommand_def effect_types)

section \<open>The whole command\<close>

lemma sampleWorld_simps [simp]:
  "ww_store (sampleWorld n) = (\<lambda>k. calm)" "ww_peer (sampleWorld n) = (\<lambda>k. Inr ())" "ww_now (sampleWorld n) = (\<lambda>k. at_ns (int n))"
  by (simp_all add: sampleWorld_def)

lemma sampleWorld_native: "ww_native (sampleWorld n) = sampleNative"
  by (simp add: sampleNative_def sampleWorld_def)

lemma sampleOptions_simps [simp]:
  "ho_node sampleOptions = ''node-1''" "ho_socket sampleOptions = ''/run/herdr.sock''" "ho_verifier sampleOptions"
  "ho_agents sampleOptions" "\<not> ho_lifecycle sampleOptions"
  by (simp_all add: sampleOptions_def)

definition controlDone :: command_result where
  "controlDone = controlSuccess controlCommand '''' '''' controlResult"

lemma control_session: "CommandSession controlCommand = ('''', '''')"
  by (simp add: CommandSession_def control_fields controlTarget_def)

lemma agent_ready:
  assumes "an_baseline s = an_baseline (sampleAgent emptyNode)"
  shows "selectedAgentReady samplePb sampleOptions (sampleWorld 995) '''' s = (Inr True, tick s)"
  using assms
  by (simp add: selectedAgentReady_def nodeAgentReady_def bindS_def handler_steps draw_def workspaceBaselineReady_def
      sampleAgent_def at_second_def at_ns_def)

lemma mutation_run:
  assumes "nx_clock s = 5" and "an_baseline s = an_baseline (sampleAgent emptyNode)"
  shows "agentMutation sampleCodecs sampleDigest sampleOptions (sampleWorld 995) controlCommand s =
    (Inr controlDone, s\<lparr>nx_clock := 19, nx_next := 4, nx_trace := nx_trace s @ sent4\<rparr>)"
proof -
  let ?s = "s\<lparr>nx_clock := 10\<rparr>"
  have run: "controlAgent sampleNative (socketConfig ''/run/herdr.sock'') (c_control controlCommand) ?s =
    (Inr controlResult, s\<lparr>nx_clock := 19, nx_next := 4, nx_trace := nx_trace s @ sent4\<rparr>)"
    using control_run [of ?s] by simp
  have scope: "\<not> lifecycleScopeAvailable sampleOptions ''''" by (simp add: lifecycleScopeAvailable_def)
  have found: "resolveSession sampleOptions (sampleWorld 995) '''' '''' u = (Inr (socketConfig ''/run/herdr.sock'', ''''), u)" for u :: "blob node_agent"
    by (simp add: resolveSession_def locateSession_def bindS_def handler_steps sessionConfig_def)
  show ?thesis
    by (simp add: agentMutation_def control_session bindS_def agent_ready assms verified_def draw_def ctxDone_def tick_def
        sampleWorld_native handler_steps tryS_def found scope controlled_def run controlDone_def)
qed

lemma controlDone_valid:
  "ValidateResultForCommand samplePb (Some controlDone) controlCommand = Inr ()" "ValidateCommandResult (Some controlDone) = Inr ()"
  "\<not> result_unknown controlDone" "cr_lifecycle controlDone = None" "cr_status controlDone = SUCCEEDED"
  "cr_detail controlDone = ''agent_input_sent''"
proof -
  have f: "cr_id controlDone = sampleId" "cr_status controlDone = SUCCEEDED" "cr_detail controlDone = ''agent_input_sent''"
    "cr_control controlDone = Some controlResult" "cr_unk controlDone = []" "cr_payload controlDone = None"
    "cr_workspace controlDone = None" "cr_worktree controlDone = None" "cr_session controlDone = None" "cr_lifecycle controlDone = None"
    by (simp_all add: controlDone_def controlSuccess_def refusal_def rejectedResult_def control_fields AgentControlSuccessDetail_def
        controlResult_def controlTarget_def)
  show "cr_lifecycle controlDone = None" "cr_status controlDone = SUCCEEDED" "cr_detail controlDone = ''agent_input_sent''"
    by (simp_all add: f)
  show "\<not> result_unknown controlDone"
    by (simp add: result_unknown_def f acr_unknown_def controlResult_def at_unknown_def controlTarget_def)
  have v: "ValidateAgentControlResult (Some controlDone) = Inr ()"
    by (simp add: ValidateAgentControlResult_def f ValidCommandID_def controlResult_def controlTarget_ok validAgentStatus_def
        agentStatuses_def controlSuccesses_def)
  then show "ValidateCommandResult (Some controlDone) = Inr ()"
    by (simp add: ValidateCommandResult_def)
  have m: "controlResultMatches controlDone controlCommand"
    by (simp add: controlResultMatches_def f control_fields controlResult_def equalAgentTarget_def controlTarget_def
        AgentControlSuccessDetail_def)
  show "ValidateResultForCommand samplePb (Some controlDone) controlCommand = Inr ()"
    by (simp add: ValidateResultForCommand_def f(1,10) control_fields(1,4) v m control_not_start effect_types)
qed

lemma expired_valid:
  "ValidateResultForCommand samplePb (Some (expired controlCommand)) controlCommand = Inr ()"
  "ValidateResultForCommand samplePb (Some (expired startCommand)) startCommand = Inr ()"
  "ValidateCommandResult (Some (expired controlCommand)) = Inr ()" "ValidateCommandResult (Some (expired startCommand)) = Inr ()"
proof -
  have f: "cr_id (expired c) = c_id c" "cr_status (expired c) = TIMED_OUT" "cr_detail (expired c) = ''deadline_expired''"
    "cr_control (expired c) = None" "cr_unk (expired c) = []" "cr_payload (expired c) = None"
    "cr_workspace (expired c) = None" "cr_worktree (expired c) = None" "cr_session (expired c) = None" "cr_lifecycle (expired c) = None" for c
    by (simp_all add: expired_def refusal_def rejectedResult_def)
  have v: "ValidateAgentControlResult (Some (expired c)) = Inr ()" if "c = controlCommand \<or> c = startCommand" for c
    using that by (auto simp: ValidateAgentControlResult_def f ValidCommandID_def control_fields start_fields)
  then show "ValidateCommandResult (Some (expired controlCommand)) = Inr ()" "ValidateCommandResult (Some (expired startCommand)) = Inr ()"
    by (simp_all add: ValidateCommandResult_def)
  show "ValidateResultForCommand samplePb (Some (expired controlCommand)) controlCommand = Inr ()"
    using v by (simp add: ValidateResultForCommand_def f control_fields(1,4) control_not_start effect_types controlResultMatches_def)
  show "ValidateResultForCommand samplePb (Some (expired startCommand)) startCommand = Inr ()"
    by (simp add: ValidateResultForCommand_def ValidateLifecycleResult_def f start_fields IsLifecycleCommand_def effect_types
        ValidLifecycleDetail_def lifecycleDetails_def LifecycleHasEffect_def Let_def)
qed

lemma expired_known: "\<not> result_unknown (expired c)" "cr_lifecycle (expired c) = None"
  by (simp_all add: expired_def refusal_def rejectedResult_def result_unknown_def)

lemma not_late: "pastDeadline samplePb controlCommand (at_ns 995) (at_ns 995) = False"
  by (simp add: pastDeadline_def asTimeOf_def control_fields at_ns_def seconds_def at_second_def)

lemma late: "pastDeadline samplePb controlCommand r (at_ns 2000)" "pastDeadline samplePb startCommand r (at_ns 2000)"
  by (simp_all add: pastDeadline_def asTimeOf_def control_fields start_fields at_ns_def at_second_def)

text \<open>The command in time: four requests, one of them a change, and the success is recorded.\<close>

lemma journal_run:
  "alive (ww_native (sampleWorld n)) s \<Longrightarrow> journalS (sampleWorld n) f s = (case f calm (an_db s) of (r, db) \<Rightarrow> (r, tick (s\<lparr>an_db := db\<rparr>)))"
  by (simp add: journalS_def)

lemma handle_done:
  "\<exists>t. handle sampleCodecs sampleDigest sampleOptions (sampleWorld 995) (Some controlCommand) (at_ns 995) (sampleAgent emptyNode) =
     (Inr controlDone, t) \<and> an_db t = closedNode controlCommand controlDone \<and> changes t = [''agent.send_keys''] \<and>
     alive (ww_native (sampleWorld 995)) t"
proof -
  have miss: "missingCapability sampleOptions controlCommand = None"
    by (simp add: missingCapability_def control_fields effect_types IsLifecycleCommand_def)
  have out: "carryOut sampleCodecs sampleDigest sampleOptions (sampleWorld 995) controlCommand =
      thenContext (sampleWorld 995) (agentMutation sampleCodecs sampleDigest sampleOptions (sampleWorld 995) controlCommand)"
    by (simp add: carryOut_def control_fields control_not_start effect_types)
  have ch: "filter (\<lambda>m. \<not> observing m) (map methodOf sent4) = [''agent.send_keys'']" by code_simp
  show ?thesis
    by (simp add: handle_def controlCommand_valid miss bindS_def draw_def tick_def sampleWorld_native handler_steps tryS_def
        journal_run sampleAgent_def alive_def journalled_claim [OF control_journalled] claimedOr_def execute_def not_late out
        thenContext_def mutation_run complete_def controlDone_valid
        journalled_complete(1) [OF control_journalled controlDone_valid(1-4)] changes_def ch)
qed

text \<open>The same command too late, and a start too late: nothing is sent and the refusal is recorded.\<close>

definition startOptions :: handler_options where
  "startOptions = sampleOptions\<lparr>ho_lifecycle := True\<rparr>"

lemma handle_late:
  "\<exists>t. handle sampleCodecs sampleDigest sampleOptions (sampleWorld 2000) (Some controlCommand) (at_ns 995) (sampleAgent emptyNode) =
     (Inr (expired controlCommand), t) \<and> an_db t = closedNode controlCommand (expired controlCommand) \<and> changes t = []"
proof -
  have miss: "missingCapability sampleOptions controlCommand = None"
    by (simp add: missingCapability_def control_fields effect_types IsLifecycleCommand_def)
  show ?thesis
    by (simp add: handle_def controlCommand_valid miss bindS_def draw_def tick_def sampleWorld_native handler_steps tryS_def
        journal_run sampleAgent_def alive_def journalled_claim [OF control_journalled] claimedOr_def execute_def late
        complete_def expired_valid changes_def
        journalled_complete(1) [OF control_journalled expired_valid(1) expired_valid(3) expired_known])
qed

lemma handle_late_start:
  "\<exists>t. handle sampleCodecs sampleDigest startOptions (sampleWorld 2000) (Some startCommand) (at_ns 995) (sampleAgent emptyNode) =
     (Inr (expired startCommand), t) \<and> an_db t = closedNode startCommand (expired startCommand) \<and> changes t = []"
proof -
  have miss: "missingCapability startOptions startCommand = None"
    by (simp add: missingCapability_def start_fields effect_types IsLifecycleCommand_def startOptions_def)
  have node: "ho_node startOptions = ''node-1''" by (simp add: startOptions_def)
  show ?thesis
    by (simp add: handle_def startCommand_valid miss node bindS_def draw_def tick_def sampleWorld_native handler_steps tryS_def
        journal_run sampleAgent_def alive_def journalled_claim [OF start_journalled] claimedOr_def execute_def late
        complete_def expired_valid changes_def
        journalled_complete(1) [OF start_journalled expired_valid(2,4) expired_known])
qed

section \<open>Lives\<close>

lemma one_command:
  assumes "handle sampleCodecs sampleDigest Q W (Some c) received (sampleAgent emptyNode) = (r, t)" and "ho_node Q = ''node-1''"
    and "c_id c = sampleId"
  shows "nodeLife sampleCodecs sampleDigest ''node-1'' (an_db t) ((\<lambda>i. [])(sampleId := changes t))"
proof -
  have n: "nodeLife sampleCodecs sampleDigest ''node-1'' (an_db (sampleAgent emptyNode)) (\<lambda>i. [])"
    using nodeLife.fresh by (simp add: sampleAgent_def)
  have "changes t = changes (sampleAgent emptyNode) @ changes t" by (simp add: sampleAgent_def changes_def)
  from nodeLife.handled [OF n assms(2,1) this] show ?thesis by (simp add: assms(3) fun_upd_def)
qed

lemma done_life: "nodeLife sampleCodecs sampleDigest ''node-1'' (closedNode controlCommand controlDone) ((\<lambda>i. [])(sampleId := [''agent.send_keys'']))"
proof -
  obtain t where t: "handle sampleCodecs sampleDigest sampleOptions (sampleWorld 995) (Some controlCommand) (at_ns 995) (sampleAgent emptyNode) =
     (Inr controlDone, t)" "an_db t = closedNode controlCommand controlDone" "changes t = [''agent.send_keys'']"
    using handle_done by blast
  show ?thesis using one_command [OF t(1)] t(2,3) by (simp add: control_fields(1))
qed

lemma late_life: "nodeLife sampleCodecs sampleDigest ''node-1'' (closedNode controlCommand (expired controlCommand)) (\<lambda>i. [])"
proof -
  obtain t where t: "handle sampleCodecs sampleDigest sampleOptions (sampleWorld 2000) (Some controlCommand) (at_ns 995) (sampleAgent emptyNode) =
     (Inr (expired controlCommand), t)" "an_db t = closedNode controlCommand (expired controlCommand)" "changes t = []"
    using handle_late by blast
  show ?thesis using one_command [OF t(1)] t(2,3) by (simp add: control_fields(1) fun_upd_def)
qed

lemma late_start_life: "nodeLife sampleCodecs sampleDigest ''node-1'' (closedNode startCommand (expired startCommand)) (\<lambda>i. [])"
proof -
  obtain t where t: "handle sampleCodecs sampleDigest startOptions (sampleWorld 2000) (Some startCommand) (at_ns 995) (sampleAgent emptyNode) =
     (Inr (expired startCommand), t)" "an_db t = closedNode startCommand (expired startCommand)" "changes t = []"
    using handle_late_start by blast
  show ?thesis using one_command [OF t(1)] t(2,3) by (simp add: startOptions_def start_fields(1) fun_upd_def)
qed

lemma life_at:
  "entryAt sampleCodecs ''node-1'' (closedNode controlCommand controlDone) sampleId = Some (decided controlCommand controlDone False)"
  "entryAt sampleCodecs ''node-1'' (closedNode controlCommand (expired controlCommand)) sampleId = Some (decided controlCommand (expired controlCommand) False)"
  "entryAt sampleCodecs ''node-1'' (closedNode startCommand (expired startCommand)) sampleId = Some (decided startCommand (expired startCommand) False)"
  using journalled_complete(2) [OF control_journalled controlDone_valid(1-4)]
    journalled_complete(2) [OF control_journalled expired_valid(1) expired_valid(3) expired_known]
    journalled_complete(2) [OF start_journalled expired_valid(2,4) expired_known]
  by simp_all

end
