(* ===== verification/NodeLifeContract.thy ===== *)
theory NodeLifeContract
  imports SampleLife
begin

text \<open>
  What the coordinator and the operator may rely on of a node, over every life of it: what its journal
  says of a command agrees with what was put on the socket of the native program.
\<close>

text \<open>
  C10. A node acts at most once.  Over any life of a node, whatever fails and whenever its process dies,
  the changing requests it ever sent for a command are a prefix, in order, of the ones the command asks
  for, each at most once; for a command its journal does not know it sent none.
\<close>

theorem acts_at_most_once:
  assumes "nodeLife K H node db sent" and "codecs_ok K"
  shows "case entryAt K node db i of None \<Rightarrow> sent i = []
    | Some e \<Rightarrow> prefix (sent i) (planOf (ne_command e)) \<and> distinct (sent i)"
proof (cases "entryAt K node db i")
  case None
  then show ?thesis using life_known [OF assms] by (auto simp: known_def evidence_def elim!: allE [of _ i])
next
  case (Some e)
  have "prefix (sent i) (planOf (ne_command e))"
    using life_known [OF assms] evidence_plan [OF _ Some] by (simp add: known_def)
  then show ?thesis using Some planOf_distinct prefix_distinct by fastforce
qed

lemma acts_at_most_once_witness: "prefix [''agent.send_keys''] (planOf controlCommand)"
  using acts_at_most_once [OF done_life sampleCodecs_ok, of sampleId] by (simp add: life_at)

text \<open>
  C11. A refusal is the truth.  If the journal holds the result \<open>REJECTED\<close> or \<open>TIMED_OUT\<close> for a
  command, in whatever way and by whichever process it was decided, no request that changes the native
  program was ever sent for it.
\<close>

theorem refusals_are_true:
  assumes "nodeLife K H node db sent" and "codecs_ok K" and "entryAt K node db i = Some e" and "ne_result e = Some v"
    and "cr_status v = REJECTED \<or> cr_status v = TIMED_OUT"
  shows "sent i = []"
  using evidence_result(2) [OF _ _ assms(3,4)] life_known [OF assms(1,2)] assms(5)
  by (auto simp: known_def ruledOut_def)

lemma refusals_are_true_witness:
  "\<exists>sent. nodeLife sampleCodecs sampleDigest ''node-1'' (closedNode controlCommand (expired controlCommand)) sent \<and> sent sampleId = []"
proof -
  have "(\<lambda>i. []) sampleId = []"
    using refusals_are_true [OF late_life sampleCodecs_ok life_at(2), of "expired controlCommand"] by (simp add: expired_def)
  then show ?thesis using late_life by blast
qed

text \<open>
  C12. A success is the truth.  If the journal holds the result \<open>SUCCEEDED\<close> for a command (other than for a
  workspace that was already there), every request the command asks for was sent, in order and once.
\<close>

theorem successes_are_true:
  assumes "nodeLife K H node db sent" and "codecs_ok K" and "entryAt K node db i = Some e" and "ne_result e = Some v"
    and "cr_status v = SUCCEEDED" and "cr_detail v \<noteq> ''workspace_present''"
  shows "sent i = planOf (ne_command e)"
  using evidence_result(3) [OF _ _ assms(3,4)] life_known [OF assms(1,2)] assms(5,6)
  by (auto simp: known_def claimsEffect_def)

lemma successes_are_true_witness: "planOf controlCommand = [''agent.send_keys'']"
  using successes_are_true [OF done_life sampleCodecs_ok life_at(1), of controlDone] controlDone_valid by simp

text \<open>
  C13. The receipt of a start or stop tells what was sent, at every moment, also between the processes: the
  stages sent are an initial part of the requested ones, every stage that was sent is recorded as attempted
  before, and only what was sent is recorded as confirmed.
\<close>

theorem receipt_tells_what_was_sent:
  assumes "nodeLife K H node db sent" and "codecs_ok K" and "entryAt K node db i = Some e"
    and "IsLifecycleCommand (c_type (ne_command e))" and "readLifecycle K db (ne_command e) = Inr r"
  shows "\<exists>ss. prefix ss (stagesOf (ne_command e)) \<and> sent i = map stageMethod ss \<and> (case r of
      None \<Rightarrow> ss = []
    | Some r \<Rightarrow> (\<forall>st. (st \<in> set ss \<longrightarrow> LifecycleStageOutcome r (stageText st) \<noteq> ''not_attempted'') \<and>
        (LifecycleStageOutcome r (stageText st) = ''confirmed'' \<longrightarrow> st \<in> set ss)))"
proof -
  note k = life_known [OF assms(1,2)]
  have own: "receiptOwns K node (ne_command e) (sent i) db"
    using k assms(3,4) by (auto simp: known_def evidence_def entryOwns_def split: option.splits elim!: allE [of _ i])
  have held: "heldReceipt K node db (c_id (ne_command e)) = r"
    using assms(3,5) entryAt_command(2) [OF assms(3)] by (simp add: heldReceipt_def)
  show ?thesis
  proof (cases r)
    case None
    then have "sent i = []" using own receiptOwns_none held by metis
    then show ?thesis using None by simp
  next
    case (Some q)
    then have "shownAt K node (c_id (ne_command e)) db = receiptShows q" by (simp add: shownAt_def held)
    then show ?thesis using own Some by (simp add: receiptOwns_def receiptShows_not receiptShows_confirmed) blast
  qed
qed

lemma receipt_tells_what_was_sent_witness:
  "\<exists>sent. nodeLife sampleCodecs sampleDigest ''node-1'' (closedNode startCommand (expired startCommand)) sent \<and>
    (\<exists>ss. prefix ss (stagesOf startCommand) \<and> sent sampleId = map stageMethod ss \<and> ss = [])"
proof -
  let ?db = "closedNode startCommand (expired startCommand)"
  have r: "readLifecycle sampleCodecs ?db startCommand = Inr None"
    by (simp add: readLifecycle_def closedNode_def tget_def)
  have "IsLifecycleCommand (c_type (ne_command (decided startCommand (expired startCommand) False)))"
    by (simp add: start_fields IsLifecycleCommand_def effect_types)
  from receipt_tells_what_was_sent [OF late_start_life sampleCodecs_ok life_at(3) this] r
  have "\<exists>ss. prefix ss (stagesOf startCommand) \<and> (\<lambda>i. []) sampleId = map stageMethod ss \<and> ss = []" by simp
  then show ?thesis using late_start_life by blast
qed

end
