(* ===== verification/Decisions.thy ===== *)
theory Decisions
  imports FleetInvariant
begin

text \<open>
  What the coordinator may write into a record by its own decision, without a report of the node: a
  command that was never handed out may be concluded, one that was handed out becomes uncertain at most.
\<close>

section \<open>Handed out\<close>

text \<open>The audit says whether a command was ever handed to its node.\<close>

definition handedOut :: "command_record \<Rightarrow> bool" where
  "handedOut r = (RUNNING \<in> au_status ` set (rec_audit r))"

definition decides :: "command_record option \<Rightarrow> command_record option \<Rightarrow> bool" where
  "decides x y = (case x of
     None \<Rightarrow> opt_all (\<lambda>b. \<not> handedOut b) y
   | Some a \<Rightarrow> opt_ex (\<lambda>b. rec_command b = rec_command a \<and> (handedOut a \<longrightarrow> handedOut b) \<and>
       (handedOut a \<longrightarrow> rec_status b = rec_status a \<and> rec_detail b = rec_detail a \<or> rec_status b = INDETERMINATE) \<and>
       (\<not> handedOut a \<and> handedOut b \<longrightarrow> rec_status b = RUNNING)) y)"

definition ownDecisions :: "'b codecs \<Rightarrow> 'b coordinator \<Rightarrow> 'b coordinator \<Rightarrow> bool" where
  "ownDecisions K db db' = (\<forall>i. decides (recordAt K db i) (recordAt K db' i))"

lemma decides_refl: "decides x x"
  by (simp add: decides_def split: option.split)

lemma decides_None: "decides None None"
  by (rule decides_refl)

lemma decided_same: "recordAt K db' = recordAt K db \<Longrightarrow> ownDecisions K db db'"
  by (simp add: ownDecisions_def decides_refl)

lemma decided_refl: "ownDecisions K db db"
  by (rule decided_same) (rule refl)

lemma decided_upd:
  "recordAt K db' = (recordAt K db)(i \<mapsto> b) \<Longrightarrow> decides (recordAt K db i) (Some b) \<Longrightarrow> ownDecisions K db db'"
  by (simp add: ownDecisions_def decides_refl)

lemma handedOut_transitioned: "handedOut (transitioned P r st detail now) \<longleftrightarrow> handedOut r \<or> st = RUNNING"
  by (auto simp: handedOut_def)

lemma handedOut_new: "\<not> handedOut (newRecord c stamp)"
  by (simp add: handedOut_def newRecord_def)

lemma accepted_alone:
  assumes "auditChain kind es" and "au_status (last es) = ACCEPTED"
  shows "length es = 1"
proof (rule ccontr)
  assume n: "length es \<noteq> 1"
  have e: "es \<noteq> []" using assms(1) by (simp add: auditChain_def)
  then have l: "Suc (length es - 2) < length es" "last es = es ! Suc (length es - 2)"
    using n by (cases es; cases "tl es"; simp add: last_conv_nth)+
  have "validCommandTransition kind (au_status (es ! (length es - 2))) ACCEPTED (au_detail (last es))"
    using assms l unfolding auditChain_def by metis
  then show False using transition_from_open by blast
qed

lemma accepted_not_out:
  assumes "recordAt K db i = Some r" and "rec_status r = ACCEPTED"
  shows "\<not> handedOut r"
proof -
  obtain kind where r: "auditChain kind (rec_audit r)" "rec_audit r \<noteq> []" "rec_status r = au_status (last (rec_audit r))"
    using assms(1) by (rule record_chain)
  then have "length (rec_audit r) = 1" using accepted_alone assms(2) by simp
  then obtain e where "rec_audit r = [e]" by (cases "rec_audit r") auto
  then show ?thesis using r(3) assms(2) by (auto simp: handedOut_def)
qed

lemma running_out:
  assumes "recordAt K db i = Some r" and "rec_status r = RUNNING"
  shows "handedOut r"
proof -
  obtain kind where "rec_audit r \<noteq> []" "rec_status r = au_status (last (rec_audit r))"
    using assms(1) by (rule record_chain)
  then show ?thesis using assms(2) by (force simp: handedOut_def)
qed

lemma transition_uncertain:
  "validCommandTransition kind from INDETERMINATE detail \<Longrightarrow> from = RUNNING \<or> from = INDETERMINATE"
  by (auto simp: validCommandTransition_def split: if_splits command_status.splits)

lemma uncertain_out:
  assumes "recordAt K db i = Some r" and "rec_status r = INDETERMINATE"
  shows "handedOut r"
proof -
  obtain kind where r: "auditChain kind (rec_audit r)" "rec_audit r \<noteq> []" "rec_status r = au_status (last (rec_audit r))"
    using assms(1) by (rule record_chain)
  have "RUNNING \<in> au_status ` set (rec_audit r)" if "j < length (rec_audit r)" "au_status (rec_audit r ! j) = INDETERMINATE" for j
    using that
  proof (induction j)
    case 0
    then show ?case using r(1,2) by (simp add: auditChain_def hd_conv_nth)
  next
    case (Suc j)
    have "validCommandTransition kind (au_status (rec_audit r ! j)) INDETERMINATE (au_detail (rec_audit r ! Suc j))"
      using r(1) Suc.prems unfolding auditChain_def by metis
    then show ?case using transition_uncertain Suc by (metis Suc_lessD image_eqI nth_mem)
  qed
  from this [of "length (rec_audit r) - 1"] show ?thesis using r assms(2) by (simp add: handedOut_def last_conv_nth)
qed

lemma transition_unavailable:
  "validCommandTransition kind from NODE_UNAVAILABLE detail \<Longrightarrow> from = ACCEPTED"
  by (auto simp: validCommandTransition_def split: if_splits command_status.splits)

lemma unavailable_not_out:
  assumes "recordAt K db i = Some r" and "rec_status r = NODE_UNAVAILABLE"
  shows "\<not> handedOut r"
proof -
  obtain kind where r: "auditChain kind (rec_audit r)" "rec_audit r \<noteq> []" "rec_status r = au_status (last (rec_audit r))"
    using assms(1) by (rule record_chain)
  define es n where "es = rec_audit r" and "n = length (rec_audit r) - 1"
  have step: "validCommandTransition kind (au_status (es ! j)) (au_status (es ! Suc j)) (au_detail (es ! Suc j))"
    if "Suc j < length es" for j
    using r(1) that by (simp add: auditChain_def es_def)
  have l: "es ! n = last es" "es \<noteq> []" "Suc n = length es" using r(2) by (simp_all add: es_def n_def last_conv_nth)
  have start: "au_status (es ! 0) = ACCEPTED" using r(1) hd_conv_nth [OF l(2)] by (simp add: auditChain_def es_def)
  have n: "au_status (es ! n) = NODE_UNAVAILABLE" using l r(3) assms(2) by (simp add: es_def)
  have "n \<noteq> 0" using start n by (cases n) auto
  then obtain m where m: "n = Suc m" by (cases n) auto
  have t: "validCommandTransition kind (au_status (es ! m)) NODE_UNAVAILABLE (au_detail (es ! n))"
    using step [of m] l(3) m n by simp
  then have a: "au_status (es ! m) = ACCEPTED" by (rule transition_unavailable)
  have "m = 0"
  proof (cases m)
    case (Suc k)
    then have "validCommandTransition kind (au_status (es ! k)) ACCEPTED (au_detail (es ! m))"
      using step [of k] l(3) m a by simp
    then show ?thesis using transition_from_open by blast
  qed
  then have "au_status (es ! j) \<noteq> RUNNING" if "j < length es" for j
    using that l(3) [symmetric] m n start by (cases j) (auto simp: less_Suc_eq)
  then show ?thesis unfolding handedOut_def es_def by (metis image_iff in_set_conv_nth)
qed

lemma transition_accepted:
  "validCommandTransition kind ACCEPTED to detail \<Longrightarrow> to \<in> {RUNNING, REJECTED, TIMED_OUT, NODE_UNAVAILABLE}"
  by (auto simp: validCommandTransition_def split: if_splits)

lemma unran_status:
  assumes "recordAt K db i = Some r" and "\<not> handedOut r"
  shows "rec_status r \<in> {ACCEPTED, REJECTED, TIMED_OUT, NODE_UNAVAILABLE}"
proof -
  obtain kind where r: "auditChain kind (rec_audit r)" "rec_audit r \<noteq> []" "rec_status r = au_status (last (rec_audit r))"
    using assms(1) by (rule record_chain)
  have "au_status (rec_audit r ! j) \<in> {ACCEPTED, REJECTED, TIMED_OUT, NODE_UNAVAILABLE}" if "j < length (rec_audit r)" for j
    using that
  proof (induction j)
    case 0
    then show ?case using r(1) hd_conv_nth [OF r(2)] by (simp add: auditChain_def)
  next
    case (Suc j)
    have t: "validCommandTransition kind (au_status (rec_audit r ! j)) (au_status (rec_audit r ! Suc j)) (au_detail (rec_audit r ! Suc j))"
      using r(1) Suc.prems unfolding auditChain_def by metis
    then have "au_status (rec_audit r ! j) = ACCEPTED"
      using transition_from_open [OF t] Suc by (auto simp: openStatus_def)
    then have "au_status (rec_audit r ! Suc j) \<in> {RUNNING, REJECTED, TIMED_OUT, NODE_UNAVAILABLE}"
      using t transition_accepted by metis
    moreover have "au_status (rec_audit r ! Suc j) \<noteq> RUNNING"
      using assms(2) Suc.prems nth_mem unfolding handedOut_def by (metis image_eqI)
    ultimately show ?case by simp
  qed
  then show ?thesis using r(2,3) by (simp add: last_conv_nth)
qed

section \<open>The operations\<close>

lemma changed_decides:
  assumes at: "recordAt K db i = Some r" and act: "rec_status r = ACCEPTED \<or> rec_status r = RUNNING" and st: "st \<noteq> RUNNING"
  shows "decides (Some r) (Some (changed P now st detail r))"
  using act accepted_not_out [OF at] running_out [OF at] st
  by (auto simp: decides_def changed_def handedOut_transitioned)

lemma changeBody_decided:
  assumes g: "coordinatorGood K db" and b: "changeBody K now p st detail db = Inr (y, db')"
    and p: "\<And>i row. p i row \<Longrightarrow> activeRow row" and st: "st \<noteq> RUNNING"
  shows "ownDecisions K db db'"
  unfolding ownDecisions_def
proof
  fix i
  note at = changeActive_record [OF g b] and c = changeBody_good [OF coordinatorGoodD(4,1) [OF g] b]
  show "decides (recordAt K db i) (recordAt K db' i)"
  proof (cases "recordAt K db i")
    case None
    then have "recordAt K db' i = None" using c by (simp split: option.split)
    then show ?thesis using None by (simp add: decides_refl)
  next
    case (Some r)
    then obtain row where row: "tget (cd_commands db) i = Some row" "cw_status row = rec_status r"
      using row_of_record by blast
    have "decides (Some r) (Some (if p i row then changed (k_pb K) now st detail r else r))"
    proof (cases "p i row")
      case True
      then have "rec_status r = ACCEPTED \<or> rec_status r = RUNNING" using p [OF True] row(2) by (simp add: activeRow_def)
      then show ?thesis using changed_decides [OF Some _ st] True by simp
    qed (simp add: decides_refl)
    then show ?thesis using at [OF Some row(1)] Some by simp
  qed
qed

lemma changeActive_decided:
  assumes g: "coordinatorGood K db" and op: "changeActiveCommands E K now p st detail db = (x, db')"
    and p: "\<And>i row. p i row \<Longrightarrow> activeRow row" and st: "st \<noteq> RUNNING"
  shows "ownDecisions K db db'"
proof (cases "db' = db")
  case False
  then obtain y where "changeBody K now p st detail db = Inr (y, db')"
    using operation_durable [OF op [unfolded changeActiveCommands_def]] by blast
  then show ?thesis by (rule changeBody_decided [OF g _ p st])
qed (simp add: decided_refl)

lemma dispatch_decided:
  assumes g: "coordinatorGood K db" and op: "DispatchCommand E K node i now db = (x, db')"
  shows "ownDecisions K db db'"
proof (cases "db' = db")
  case False
  then obtain r' d where b: "dispatchBody K node i now db = Inr ((r', d), db')"
    using operation_durable [OF op [unfolded DispatchCommand_def]] by auto
  show ?thesis
  proof (rule dispatchBody_good [OF coordinatorGoodD(4,1) [OF g] b])
    fix r c
    assume r: "recordAt K db i = Some r" "recordAt K db' = (recordAt K db)(i \<mapsto> r')"
      "r' = (if rec_status r \<noteq> ACCEPTED then r
           else if d then transitioned (k_pb K) r RUNNING ''dispatched'' now
           else transitioned (k_pb K) r TIMED_OUT ''deadline_expired'' now)"
    have "decides (Some r) (Some r')"
      using accepted_not_out [OF r(1)] r(3) by (auto simp: decides_def handedOut_transitioned)
    then show ?thesis using decided_upd [OF r(2)] r(1) by simp
  qed
qed (simp add: decided_refl)

lemma reject_decided:
  assumes g: "coordinatorGood K db" and op: "RejectCommand E K node i detail now db = (x, db')"
  shows "ownDecisions K db db'"
proof (cases "db' = db")
  case False
  then obtain r' where b: "rejectBody K node i detail now db = Inr (r', db')"
    using operation_durable [OF op [unfolded RejectCommand_body]] by auto
  show ?thesis
  proof (rule rejectBody_good [OF coordinatorGoodD(4,1) [OF g] b])
    fix r c
    assume r: "recordAt K db i = Some r" "recordAt K db' = (recordAt K db)(i \<mapsto> r')"
      "r' = (if rec_status r \<noteq> ACCEPTED then r else transitioned (k_pb K) r REJECTED detail now)"
    have "decides (Some r) (Some r')"
      using accepted_not_out [OF r(1)] r(3) by (auto simp: decides_def handedOut_transitioned)
    then show ?thesis using decided_upd [OF r(2)] r(1) by simp
  qed
qed (simp add: decided_refl)

lemma create_decided:
  assumes g: "coordinatorGood K db" and op: "CreateCommand E K command now db = (x, db')"
  shows "ownDecisions K db db'"
proof (cases "db' = db")
  case False
  then obtain c y where b: "createBody K c (new_ts (k_pb K) now) db = Inr (y, db')"
    using operation_durable [OF op [unfolded CreateCommand_def]] by (cases command) auto
  obtain r created where y: "y = (r, created)" by (cases y)
  have "created" "r = newRecord c (new_ts (k_pb K) now)" "recordAt K db (c_id c) = None"
    "recordAt K db' = (recordAt K db)(c_id c \<mapsto> r)"
    using createBody_cases [OF coordinatorGoodD(4,1) [OF g] b [unfolded y]] False by (simp_all split: if_splits)
  then show ?thesis using decided_upd [of K db' db "c_id c" r] handedOut_new by (simp add: decides_def)
qed (simp add: decided_refl)

lemma progressBody_decided:
  assumes g: "coordinatorGood K db" and b: "progressBody K node p db = Inr (y, db')"
  shows "ownDecisions K db db'"
proof -
  note ok = coordinatorGoodD(4,1) [OF g]
  obtain r where r: "recordAt K db (cp_id p) = Some r" and rd: "readCommand K db (byID (cp_id p)) = Inr r"
    using b by (auto simp: progressBody_def readCommand_byID [OF ok(1)] bindR_eq_Inr split: option.splits)
  obtain c where c: "rec_command r = Some c" using r by (auto elim!: recordAt_command)
  consider "db' = db"
    | (save) r' where "rec_status r = RUNNING \<or> rec_status r = INDETERMINATE"
        "ValidateLifecycleAdvance (k_pb K) (rec_lifecycle r) (cp_lifecycle p) c = Inr ()"
        "saveRecord K (cp_id p) (r\<lparr>rec_lifecycle := cp_lifecycle p\<rparr>) db = Inr (r', db')"
    using b rd c by (auto simp: progressBody_def bindR_eq_Inr split: if_splits)
  then show ?thesis
  proof cases
    case save
    have o: "openStatus (rec_status r)" using save(1) by (auto simp: openStatus_def)
    have "recordAt K db' = (recordAt K db)(cp_id p \<mapsto> r')" "r' = r\<lparr>rec_lifecycle := cp_lifecycle p\<rparr>"
      using saveRecord_good [OF ok r c save(2) o save(3)] by blast+
    moreover have "decides (Some r) (Some (r\<lparr>rec_lifecycle := cp_lifecycle p\<rparr>))" by (simp add: decides_def handedOut_def)
    ultimately show ?thesis using decided_upd r by metis
  qed (simp add: decided_refl)
qed

lemma progress_decided:
  assumes g: "coordinatorGood K db" and op: "SaveCommandProgress E K node p db = (x, db')"
  shows "ownDecisions K db db'"
proof (cases "\<exists>q. p = Some q \<and> cp_unk q = [] \<and> ValidCommandID (cp_id q)")
  case True
  then obtain q where "operation E (Inr ()) (progressBody K node q) db = (x, db')"
    using op by (auto simp: SaveCommandProgress_def)
  from operation_durable [OF this] show ?thesis using progressBody_decided [OF g] decided_refl by blast
next
  case False
  then have "db' = db" using op by (auto simp: SaveCommandProgress_def split: option.splits if_splits)
  then show ?thesis by (simp add: decided_refl)
qed

text \<open>The commands read the same when neither they nor the bindings change, or only bindings are added.\<close>

lemma import_decided:
  assumes g: "coordinatorGood K db" and op: "ImportBindings E bs db = (x, db')"
  shows "ownDecisions K db db'"
proof (cases "db' = db")
  case False
  then have b: "bindAll bs db = Inr db'"
    using operation_durable [OF op [unfolded ImportBindings_def]] by (auto simp: bindR_eq_Inr)
  note d = coordinatorGoodD [OF g]
  have f: "bindings_ok (cd_bindings db')" "cd_commands db' = cd_commands db"
    using bindAll_facts [OF d(2) b] by blast+
  have known: "stableOf (cd_bindings db') i \<noteq> None" if "stableOf (cd_bindings db) i \<noteq> None" for i
    using stableOf_keeps [OF d(2) f(1)] bindAll_facts [OF d(2) b] that by force
  have "recordAt K db' i = recordAt K db i" for i
  proof (cases "tget (cd_commands db) i")
    case (Some row)
    then obtain r where r: "decodeRow K (cd_bindings db) (i, row) = Inr r" using d(4) unfolding coordinator_ok_def by blast
    then show ?thesis using decodeRow_grow [OF known r] Some by (simp add: recordAt_def f)
  qed (simp add: recordAt_def f)
  then show ?thesis by (intro decided_same ext)
qed (simp add: decided_refl)

lemma registry_decided: "db' = db \<or> registryStep K db db' \<Longrightarrow> ownDecisions K db db'"
  using decided_same [OF recordAt_cong] by (auto simp: registryStep_def decided_refl)

lemma save_decided:
  assumes g: "coordinatorGood K db" and op: "SaveNode E K view db = (x, db')"
  shows "ownDecisions K db db'"
proof (cases view)
  case None
  then have "db' = db" using op by (simp add: SaveNode_def bindR_def split: sum.splits)
  then show ?thesis by (simp add: decided_refl)
next
  case (Some v)
  then show ?thesis using SaveNode_effect [OF g] op decided_same by blast
qed

lemma ownStep_decided: "ownStep K db db' \<Longrightarrow> coordinatorGood K db \<Longrightarrow> ownDecisions K db db'"
proof (induction rule: ownStep.induct)
  case (lose E node now db x db')
  then show ?case
    by (auto simp: LoseNodeCommands_def decided_refl split: if_splits intro: changeActive_decided)
next
  case (expire E now db x db')
  then show ?case
    by (auto simp: ExpireCommands_def decided_refl split: sum.splits intro: changeActive_decided)
next
  case (recover E now db x db')
  show ?case by (rule changeActive_decided [OF recover(2) recover(1) [unfolded RecoverCommands_def]]) simp_all
next
  case (delete_nodes E ids db x db')
  show ?case using DeleteNodes_effect [OF delete_nodes(1), of K] decided_same by blast
next
  case (upsert E request db pr db')
  show ?case by (rule registry_decided, rule UpsertProject_registry [OF upsert])
next
  case (ack E node a db pr db')
  show ?case by (rule registry_decided, rule AckProject_registry [OF ack])
next
  case (adopt E node offers db prs db')
  show ?case by (rule registry_decided, rule AdoptProjects_registry [OF adopt])
qed (auto intro: import_decided save_decided create_decided reject_decided dispatch_decided progress_decided)

end
