(* ===== verification/Mesh.thy ===== *)
theory Mesh
  imports Decisions NodeLife
begin

text \<open>
  The coordinator and one of its nodes together: the two journals, the commands on their way to the node
  and the results it has reported.  Either process may die and start again at any moment, messages may
  be delayed or lost, and other nodes and operators may do whatever the coordinator lets them.
\<close>

section \<open>Steps\<close>

record 'b mesh =
  mh_coord :: "'b coordinator"
  mh_node :: "'b node_db"
  mh_sent :: "string \<Rightarrow> string list"
  mh_wire :: "command list"
  mh_reports :: "command_result list"

definition freshMesh :: "'b mesh" where
  "freshMesh = \<lparr>mh_coord = emptyCoordinator, mh_node = emptyNode, mh_sent = \<lambda>i. [], mh_wire = [], mh_reports = []\<rparr>"

text \<open>
  \<open>me\<close> is the network identity of the node \<open>node\<close>; whoever else reports a result does it under another
  identity.  \<open>send\<close> and \<open>lapse\<close> are the two ends of \<open>prepareCommand\<close> after the command was dispatched:
  it goes to the node with its remaining time, or its time is up and it is concluded at once.  A result
  leaves the node only while the process that computed it is alive, or again from its journal.
\<close>

inductive meshRun ::
  "'b codecs \<Rightarrow> (string \<Rightarrow> string) \<Rightarrow> string \<Rightarrow> string \<Rightarrow> 'b mesh \<Rightarrow> bool"
  for K :: "'b codecs" and H :: "string \<Rightarrow> string" and node :: string and me :: string where
  fresh: "meshRun K H node me freshMesh"
| own: "meshRun K H node me M \<Longrightarrow> ownStep K (mh_coord M) db \<Longrightarrow> meshRun K H node me (M\<lparr>mh_coord := db\<rparr>)"
| foreign: "meshRun K H node me M \<Longrightarrow> sid \<noteq> me \<Longrightarrow> FinishCommand E K n sid v now (mh_coord M) = (x, db) \<Longrightarrow>
    meshRun K H node me (M\<lparr>mh_coord := db\<rparr>)"
| finish: "meshRun K H node me M \<Longrightarrow> v \<in> set (mh_reports M) \<Longrightarrow>
    FinishCommand E K n me (Some v) now (mh_coord M) = (x, db) \<Longrightarrow> meshRun K H node me (M\<lparr>mh_coord := db\<rparr>)"
| send: "meshRun K H node me M \<Longrightarrow> DispatchCommand E K node i now (mh_coord M) = (Inr (r, True), db) \<Longrightarrow>
    rec_command r = Some c \<Longrightarrow>
    meshRun K H node me (M\<lparr>mh_coord := db, mh_wire := mh_wire M @ [c\<lparr>c_ttl := left\<rparr>]\<rparr>)"
| lapse: "meshRun K H node me M \<Longrightarrow> DispatchCommand E K node i now (mh_coord M) = (Inr (r, True), db') \<Longrightarrow>
    FinishCommand E' K node me (Some (expiredResult i)) now' db' = (x, db) \<Longrightarrow> meshRun K H node me (M\<lparr>mh_coord := db\<rparr>)"
| handled: "meshRun K H node me M \<Longrightarrow> mh_wire M = early @ c # late \<Longrightarrow> an_db s = mh_node M \<Longrightarrow> ho_node Q = node \<Longrightarrow>
    handle K H Q W (Some c) received s = (r, t) \<Longrightarrow> changes t = changes s @ new \<Longrightarrow>
    meshRun K H node me (M\<lparr>mh_node := an_db t, mh_sent := (mh_sent M)(c_id c := mh_sent M (c_id c) @ new),
      mh_wire := early @ late,
      mh_reports := mh_reports M @ (case r of Inl e \<Rightarrow> [] | Inr v \<Rightarrow> if alive (ww_native W) t then [v] else [])\<rparr>)"
| resent: "meshRun K H node me M \<Longrightarrow> PendingResults E K node (mh_node M) = (Inr vs, nd) \<Longrightarrow>
    meshRun K H node me (M\<lparr>mh_node := nd, mh_reports := mh_reports M @ vs\<rparr>)"
| acknowledged: "meshRun K H node me M \<Longrightarrow> an_db s = mh_node M \<Longrightarrow> ho_node Q = node \<Longrightarrow> acknowledge K Q W a s = (r, t) \<Longrightarrow>
    meshRun K H node me (M\<lparr>mh_node := an_db t\<rparr>)"
| recovered: "meshRun K H node me M \<Longrightarrow> Recover E K node (mh_node M) = (x, nd) \<Longrightarrow> meshRun K H node me (M\<lparr>mh_node := nd\<rparr>)"
| configured: "meshRun K H node me M \<Longrightarrow> SaveProjectConfig E K node cfg (mh_node M) = (x, nd) \<Longrightarrow>
    meshRun K H node me (M\<lparr>mh_node := nd\<rparr>)"
| applied: "meshRun K H node me M \<Longrightarrow> SaveProjectAck E K node a (mh_node M) = (x, nd) \<Longrightarrow>
    meshRun K H node me (M\<lparr>mh_node := nd\<rparr>)"

section \<open>What both sides know\<close>

text \<open>What an outcome says of the requests that were sent.\<close>

definition truthful :: "string list \<Rightarrow> command \<Rightarrow> command_status \<Rightarrow> string \<Rightarrow> bool" where
  "truthful sent c status detail = ((status = REJECTED \<or> status = TIMED_OUT \<longrightarrow> sent = []) \<and>
     (status = SUCCEEDED \<and> detail \<noteq> ''workspace_present'' \<longrightarrow> sent = planOf c))"

text \<open>The coordinator handed \<open>c\<close>, a command for \<open>node\<close>, out under \<open>i\<close>.\<close>

definition handed :: "'b codecs \<Rightarrow> string \<Rightarrow> 'b coordinator \<Rightarrow> string \<Rightarrow> command \<Rightarrow> bool" where
  "handed K node db i c = (c_target c = node \<and> opt_ex (\<lambda>r. rec_command r = Some c \<and> handedOut r) (recordAt K db i))"

definition wireAgrees :: "'b codecs \<Rightarrow> string \<Rightarrow> 'b mesh \<Rightarrow> bool" where
  "wireAgrees K node M = (distinct (map c_id (mh_wire M)) \<and> (\<forall>c \<in> set (mh_wire M).
     (\<exists>d. handed K node (mh_coord M) (c_id c) d \<and> c = d\<lparr>c_ttl := c_ttl c\<rparr>) \<and>
     opt_ex (\<lambda>r. rec_status r = RUNNING \<or> rec_status r = INDETERMINATE) (recordAt K (mh_coord M) (c_id c)) \<and>
     entryAt K node (mh_node M) (c_id c) = None \<and> (\<forall>v \<in> set (mh_reports M). cr_id v \<noteq> c_id c)))"

definition entriesAgree :: "'b codecs \<Rightarrow> string \<Rightarrow> 'b mesh \<Rightarrow> bool" where
  "entriesAgree K node M = (\<forall>i e. entryAt K node (mh_node M) i = Some e \<longrightarrow>
     (\<exists>d. handed K node (mh_coord M) i d \<and> ne_command e = d\<lparr>c_ttl := c_ttl (ne_command e)\<rparr>))"

definition reportsAgree :: "'b codecs \<Rightarrow> string \<Rightarrow> 'b mesh \<Rightarrow> bool" where
  "reportsAgree K node M = (\<forall>v \<in> set (mh_reports M). \<exists>d. handed K node (mh_coord M) (cr_id v) d \<and>
     truthful (mh_sent M (cr_id v)) d (cr_status v) (cr_detail v))"

definition recordsAgree :: "'b codecs \<Rightarrow> string \<Rightarrow> 'b mesh \<Rightarrow> bool" where
  "recordsAgree K node M = (\<forall>i r d. recordAt K (mh_coord M) i = Some r \<longrightarrow> rec_command r = Some d \<longrightarrow> c_target d = node \<longrightarrow>
     handedOut r \<longrightarrow> truthful (mh_sent M i) d (rec_status r) (rec_detail r))"

definition agrees :: "'b codecs \<Rightarrow> string \<Rightarrow> 'b mesh \<Rightarrow> bool" where
  "agrees K node M = (wireAgrees K node M \<and> entriesAgree K node M \<and> reportsAgree K node M \<and> recordsAgree K node M)"

text \<open>The node's name is bound to its own identity, or not yet bound at all.\<close>

definition ownName :: "string \<Rightarrow> string \<Rightarrow> 'b coordinator \<Rightarrow> bool" where
  "ownName node me db = opt_all (\<lambda>s. s = me) (stableOf (cd_bindings db) node)"

definition sound :: "'b codecs \<Rightarrow> (string \<Rightarrow> string) \<Rightarrow> string \<Rightarrow> 'b mesh \<Rightarrow> bool" where
  "sound K H node M = (coordinatorGood K (mh_coord M) \<and> nodeStoreGood K H node (mh_node M) \<and>
     known K node (mh_node M) (mh_sent M))"

lemma planOf_ttl [simp]: "planOf (d\<lparr>c_ttl := x\<rparr>) = planOf d"
  by (simp add: planOf_def stagesOf_def submittedPrompt_def)

lemma truthful_open [simp]: "truthful sent d RUNNING detail" "truthful sent d INDETERMINATE detail"
  by (simp_all add: truthful_def)

lemma ownName_back:
  assumes "coordChange K db db'" and "ownName node me db'"
  shows "ownName node me db"
  using assms by (cases "stableOf (cd_bindings db) node") (auto simp: ownName_def coordChange_def)

section \<open>Steps of the coordinator\<close>

lemma handedE:
  assumes "handed K node db i d"
  obtains r where "recordAt K db i = Some r" "rec_command r = Some d" "handedOut r" "c_target d = node"
  using assms by (cases "recordAt K db i") (auto simp: handed_def)

lemma handed_step:
  assumes "coordChange K db db'" and "handed K node db i d"
  shows "handed K node db' i d"
proof -
  obtain r where r: "recordAt K db i = Some r" "rec_command r = Some d" "handedOut r" "c_target d = node"
    using assms(2) by (rule handedE)
  obtain r' where r': "recordAt K db' i = Some r'" "recordStep (k_pb K) r r'"
    using assms(1) r(1) unfolding coordChange_def journalStep_def by blast
  have "handedOut r'" using r' r(3) by (auto simp: recordStep_def handedOut_def list_prefix_iff)
  then show ?thesis using r r' by (simp add: handed_def recordStep_def)
qed

text \<open>
  What a change of the coordinator's journal may do to a command of the node that was handed out: leave
  its outcome, call it uncertain, or conclude it truthfully once it has left the wire.
\<close>

definition fair :: "'b codecs \<Rightarrow> string \<Rightarrow> 'b mesh \<Rightarrow> 'b coordinator \<Rightarrow> bool" where
  "fair K node M db' = (\<forall>i r' d. recordAt K db' i = Some r' \<longrightarrow> rec_command r' = Some d \<longrightarrow> c_target d = node \<longrightarrow> handedOut r' \<longrightarrow>
     rec_status r' = RUNNING \<or> rec_status r' = INDETERMINATE \<or>
     opt_ex (\<lambda>r. handedOut r \<and> rec_status r' = rec_status r \<and> rec_detail r' = rec_detail r) (recordAt K (mh_coord M) i) \<or>
     truthful (mh_sent M i) d (rec_status r') (rec_detail r') \<and> i \<notin> c_id ` set (mh_wire M))"

lemma fair_cases:
  assumes "fair K node M db'" and "recordAt K db' i = Some r'" and "rec_command r' = Some d" and "c_target d = node"
    and "handedOut r'"
  obtains "rec_status r' = RUNNING \<or> rec_status r' = INDETERMINATE"
    | r where "recordAt K (mh_coord M) i = Some r" "handedOut r" "rec_status r' = rec_status r" "rec_detail r' = rec_detail r"
    | "truthful (mh_sent M i) d (rec_status r') (rec_detail r')" "i \<notin> c_id ` set (mh_wire M)"
proof -
  have "rec_status r' = RUNNING \<or> rec_status r' = INDETERMINATE \<or>
     opt_ex (\<lambda>r. handedOut r \<and> rec_status r' = rec_status r \<and> rec_detail r' = rec_detail r) (recordAt K (mh_coord M) i) \<or>
     truthful (mh_sent M i) d (rec_status r') (rec_detail r') \<and> i \<notin> c_id ` set (mh_wire M)"
    using assms unfolding fair_def by blast
  then show thesis using that by (cases "recordAt K (mh_coord M) i") auto
qed

lemma coord_agrees:
  assumes ag: "agrees K node M" and ch: "coordChange K (mh_coord M) db'" and fr: "fair K node M db'"
  shows "agrees K node (M\<lparr>mh_coord := db'\<rparr>)"
proof -
  let ?db = "mh_coord M"
  have w: "wireAgrees K node M" and e: "entriesAgree K node M" and v: "reportsAgree K node M" and d: "recordsAgree K node M"
    using ag by (simp_all add: agrees_def)
  note up = handed_step [OF ch]
  have "opt_ex (\<lambda>r. rec_status r = RUNNING \<or> rec_status r = INDETERMINATE) (recordAt K db' (c_id c))"
    if c: "c \<in> set (mh_wire M)" for c
  proof -
    obtain x where x: "handed K node ?db (c_id c) x" "opt_ex (\<lambda>r. rec_status r = RUNNING \<or> rec_status r = INDETERMINATE) (recordAt K ?db (c_id c))"
      using w c unfolding wireAgrees_def by blast
    obtain r where r: "recordAt K ?db (c_id c) = Some r" using x(1) by (rule handedE)
    obtain r' where r': "recordAt K db' (c_id c) = Some r'" "rec_command r' = Some x" "handedOut r'" "c_target x = node"
      using up [OF x(1)] by (rule handedE)
    show ?thesis
      by (rule fair_cases [OF fr r'(1,2,4,3)]) (use r' r x(2) c in auto)
  qed
  then have "wireAgrees K node (M\<lparr>mh_coord := db'\<rparr>)"
    using w up unfolding wireAgrees_def by (simp, blast)
  moreover have "entriesAgree K node (M\<lparr>mh_coord := db'\<rparr>)" using e up unfolding entriesAgree_def by (simp, blast)
  moreover have "reportsAgree K node (M\<lparr>mh_coord := db'\<rparr>)" using v up unfolding reportsAgree_def by (simp, blast)
  moreover have "recordsAgree K node (M\<lparr>mh_coord := db'\<rparr>)"
    unfolding recordsAgree_def
  proof (intro allI impI)
    fix i r' x
    assume a: "recordAt K (mh_coord (M\<lparr>mh_coord := db'\<rparr>)) i = Some r'" "rec_command r' = Some x" "c_target x = node" "handedOut r'"
    have same: "truthful (mh_sent M i) x (rec_status r) (rec_detail r)"
      if r: "recordAt K ?db i = Some r" "handedOut r" for r
    proof -
      obtain r2 where "recordAt K db' i = Some r2" "recordStep (k_pb K) r r2"
        using ch r(1) unfolding coordChange_def journalStep_def by blast
      then have "rec_command r = Some x" using a(1,2) by (simp add: recordStep_def)
      then show ?thesis using d r a(3) unfolding recordsAgree_def by blast
    qed
    have at: "recordAt K db' i = Some r'" using a(1) by simp
    show "truthful (mh_sent (M\<lparr>mh_coord := db'\<rparr>) i) x (rec_status r') (rec_detail r')"
      by (rule fair_cases [OF fr at a(2-4)]) (use same in auto)
  qed
  ultimately show ?thesis by (simp add: agrees_def)
qed

lemma decided_fair:
  assumes "ownDecisions K (mh_coord M) db'"
  shows "fair K node M db'"
  unfolding fair_def
proof (intro allI impI)
  fix i r' d
  assume a: "recordAt K db' i = Some r'" "handedOut r'"
  have "decides (recordAt K (mh_coord M) i) (Some r')" using assms a(1) unfolding ownDecisions_def by metis
  then show "rec_status r' = RUNNING \<or> rec_status r' = INDETERMINATE \<or>
     opt_ex (\<lambda>r. handedOut r \<and> rec_status r' = rec_status r \<and> rec_detail r' = rec_detail r) (recordAt K (mh_coord M) i) \<or>
     truthful (mh_sent M i) d (rec_status r') (rec_detail r') \<and> i \<notin> c_id ` set (mh_wire M)"
    using a(2) by (cases "recordAt K (mh_coord M) i") (auto simp: decides_def)
qed

lemma finish_fair:
  assumes g: "coordinatorGood K (mh_coord M)" and op: "FinishCommand E K n sid v now (mh_coord M) = (x, db')"
    and ok: "\<And>w d. v = Some w \<Longrightarrow> n = node \<Longrightarrow> stableOf (cd_bindings (mh_coord M)) node = Some sid \<Longrightarrow> 
      handed K node (mh_coord M) (cr_id w) d \<Longrightarrow>
      truthful (mh_sent M (cr_id w)) d (cr_status w) (cr_detail w) \<and> cr_id w \<notin> c_id ` set (mh_wire M)"
  shows "fair K node M db'"
proof (cases "db' = mh_coord M")
  case True
  then show ?thesis using decided_fair decided_refl by metis
next
  case False
  then obtain r' where "(case v of None \<Rightarrow> Inl (Msg ''invalid agent command result'')
      | Some v \<Rightarrow> finishBody K n sid v now (mh_coord M)) = Inr (r', db')"
    using operation_durable [OF op [unfolded FinishCommand_def]] by blast
  then obtain w where w: "v = Some w" "finishBody K n sid w now (mh_coord M) = Inr (r', db')" by (cases v) auto
  show ?thesis
  proof (rule finishBody_good [OF coordinatorGoodD(4,1) [OF g] w(2)])
    fix r c
    assume f: "recordAt K (mh_coord M) (cr_id w) = Some r" "rec_command r = Some c" "c_target c = n"
      "stableOf (cd_bindings (mh_coord M)) n = Some sid" "goodChange K (mh_coord M) db'"
      "recordAt K db' = (recordAt K (mh_coord M))(cr_id w \<mapsto> r')"
      "db' = mh_coord M \<and> r' = r \<or> rec_status r \<in> {RUNNING, INDETERMINATE} \<and> rec_status r' = cr_status w \<and> rec_detail r' = cr_detail w"
    show "fair K node M db'"
      unfolding fair_def
    proof (intro allI impI)
      fix i s d
      assume a: "recordAt K db' i = Some s" "rec_command s = Some d" "c_target d = node" "handedOut s"
      show "rec_status s = RUNNING \<or> rec_status s = INDETERMINATE \<or>
        opt_ex (\<lambda>r. handedOut r \<and> rec_status s = rec_status r \<and> rec_detail s = rec_detail r) (recordAt K (mh_coord M) i) \<or>
        truthful (mh_sent M i) d (rec_status s) (rec_detail s) \<and> i \<notin> c_id ` set (mh_wire M)"
      proof (cases "i = cr_id w")
        case False
        then show ?thesis using a f(6) by simp
      next
        case True
        then have s: "s = r'" using a(1) f(6) by simp
        have step: "recordStep (k_pb K) r r'" using f(1,5,6) unfolding goodChange_def journalStep_def by fastforce
        then have c: "d = c" using a(2) f(2) s by (simp add: recordStep_def)
        have "rec_status r = RUNNING \<or> rec_status r = INDETERMINATE" using f(7) False by auto
        show ?thesis
        proof (cases "handedOut r")
          case True
          then have "handed K node (mh_coord M) (cr_id w) d" using f(1,2,3) c a(3) by (simp add: handed_def)
          then show ?thesis using ok [OF w(1)] f(3,4,7) c a(3) s \<open>i = cr_id w\<close> False by auto
        next
          case unran: False
          then show ?thesis using running_out [OF f(1)] uncertain_out [OF f(1)] \<open>rec_status r = RUNNING \<or> _\<close> by blast
        qed
      qed
    qed
  qed
qed

lemma handed_out:
  assumes g: "coordinatorGood K db" and op: "DispatchCommand E K node i now db = (Inr (r, True), db')"
  obtains c where "rec_command r = Some c" "c_id c = i" "c_target c = node" "recordAt K db' i = Some r"
    "rec_status r = RUNNING" "handed K node db' i c" "\<And>d. \<not> handed K node db i d"
proof (rule dispatchBody_good [OF coordinatorGoodD(4,1) [OF g] DispatchCommand_Inr [OF op]])
  fix r0 c
  assume f: "recordAt K db i = Some r0" "rec_command r0 = Some c" "c_target c = node"
    "recordAt K db' = (recordAt K db)(i \<mapsto> r)" "True \<longleftrightarrow> rec_status r0 = ACCEPTED \<and> now < expiryOf (k_pb K) r0"
    "r = (if rec_status r0 \<noteq> ACCEPTED then r0 else if True then transitioned (k_pb K) r0 RUNNING ''dispatched'' now
           else transitioned (k_pb K) r0 TIMED_OUT ''deadline_expired'' now)"
  have "c_id c = i" using recordAt_command [OF f(1)] f(2) by (metis option.inject)
  moreover have "\<not> handedOut r0" using accepted_not_out [OF f(1)] f(5) by blast
  ultimately show thesis
    by (intro that [of c]) (use f in \<open>simp_all add: handed_def handedOut_transitioned\<close>)
qed

lemma never_handed:
  assumes so: "sound K H node M" and ag: "agrees K node M" and no: "\<And>d. \<not> handed K node (mh_coord M) i d"
  shows "entryAt K node (mh_node M) i = None" "mh_sent M i = []" "\<And>v. v \<in> set (mh_reports M) \<Longrightarrow> cr_id v \<noteq> i"
    "i \<notin> c_id ` set (mh_wire M)"
proof -
  show none: "entryAt K node (mh_node M) i = None"
    using ag no unfolding agrees_def entriesAgree_def by (cases "entryAt K node (mh_node M) i") auto
  then show "mh_sent M i = []" using so by (auto simp: sound_def known_def evidence_def elim!: allE [of _ i])
  show "\<And>v. v \<in> set (mh_reports M) \<Longrightarrow> cr_id v \<noteq> i" using ag no unfolding agrees_def reportsAgree_def by blast
  show "i \<notin> c_id ` set (mh_wire M)" using ag no unfolding agrees_def wireAgrees_def by blast
qed

lemma own_agrees:
  assumes "sound K H node M" and "agrees K node M" and "ownStep K (mh_coord M) db"
  shows "agrees K node (M\<lparr>mh_coord := db\<rparr>)"
proof -
  have g: "coordinatorGood K (mh_coord M)" using assms(1) by (simp add: sound_def)
  show ?thesis
    by (rule coord_agrees [OF assms(2) ownStep_change [OF assms(3) g] decided_fair [OF ownStep_decided [OF assms(3) g]]])
qed

lemma finish_agrees:
  assumes so: "sound K H node M" and ag: "agrees K node M" and op: "FinishCommand E K n sid v now (mh_coord M) = (x, db)"
    and ok: "\<And>w d. v = Some w \<Longrightarrow> n = node \<Longrightarrow> stableOf (cd_bindings (mh_coord M)) node = Some sid \<Longrightarrow>
      handed K node (mh_coord M) (cr_id w) d \<Longrightarrow>
      truthful (mh_sent M (cr_id w)) d (cr_status w) (cr_detail w) \<and> cr_id w \<notin> c_id ` set (mh_wire M)"
  shows "agrees K node (M\<lparr>mh_coord := db\<rparr>)"
proof -
  have g: "coordinatorGood K (mh_coord M)" using so by (simp add: sound_def)
  show ?thesis
    by (rule coord_agrees [OF ag coordStep_change [OF coord_finish [OF op] g] finish_fair [OF g op ok]])
qed

lemma report_agrees:
  assumes ag: "agrees K node M" and v: "v \<in> set (mh_reports M)" and h: "handed K node (mh_coord M) (cr_id v) d"
  shows "truthful (mh_sent M (cr_id v)) d (cr_status v) (cr_detail v) \<and> cr_id v \<notin> c_id ` set (mh_wire M)"
proof -
  obtain d' where d': "handed K node (mh_coord M) (cr_id v) d'" "truthful (mh_sent M (cr_id v)) d' (cr_status v) (cr_detail v)"
    using ag v unfolding agrees_def reportsAgree_def by blast
  have "d' = d" using d'(1) h by (auto elim!: handedE)
  then show ?thesis using d' ag v unfolding agrees_def wireAgrees_def by blast
qed

lemma send_agrees:
  assumes so: "sound K H node M" and ag: "agrees K node M"
    and op: "DispatchCommand E K node i now (mh_coord M) = (Inr (r, True), db)" and c: "rec_command r = Some c"
  shows "agrees K node (M\<lparr>mh_coord := db, mh_wire := mh_wire M @ [c\<lparr>c_ttl := left\<rparr>]\<rparr>)"
proof -
  have g: "coordinatorGood K (mh_coord M)" using so by (simp add: sound_def)
  obtain f: "c_id c = i" "recordAt K db i = Some r" "rec_status r = RUNNING" "handed K node db i c"
      "\<And>d. \<not> handed K node (mh_coord M) i d"
    using handed_out [OF g op] c by (metis option.inject)
  note n = never_handed [OF so ag f(5)]
  have a: "agrees K node (M\<lparr>mh_coord := db\<rparr>)" by (rule own_agrees [OF so ag ownStep.dispatch [OF op]])
  let ?c = "c\<lparr>c_ttl := left\<rparr>"
  have new: "(\<exists>d. handed K node db (c_id ?c) d \<and> ?c = d\<lparr>c_ttl := c_ttl ?c\<rparr>) \<and>
     opt_ex (\<lambda>r. rec_status r = RUNNING \<or> rec_status r = INDETERMINATE) (recordAt K db (c_id ?c)) \<and>
     entryAt K node (mh_node M) (c_id ?c) = None \<and> (\<forall>v \<in> set (mh_reports M). cr_id v \<noteq> c_id ?c)"
    using f n by auto
  have "wireAgrees K node (M\<lparr>mh_coord := db, mh_wire := mh_wire M @ [?c]\<rparr>)"
    using a new n(4) f(1) unfolding agrees_def wireAgrees_def by auto
  then show ?thesis
    using a unfolding agrees_def entriesAgree_def reportsAgree_def recordsAgree_def by simp
qed

lemma lapse_agrees:
  assumes so: "sound K H node M" and ag: "agrees K node M"
    and op: "DispatchCommand E K node i now (mh_coord M) = (Inr (r, True), db')"
    and fin: "FinishCommand E' K node me (Some (expiredResult i)) now' db' = (x, db)"
  shows "agrees K node (M\<lparr>mh_coord := db\<rparr>)"
proof -
  have g: "coordinatorGood K (mh_coord M)" using so by (simp add: sound_def)
  obtain c where f: "handed K node db' i c" "\<And>d. \<not> handed K node (mh_coord M) i d"
    using handed_out [OF g op] by metis
  note n = never_handed [OF so ag f(2)]
  let ?M = "M\<lparr>mh_coord := db'\<rparr>"
  have g': "coordinatorGood K db'" using ownStep_change [OF ownStep.dispatch [OF op] g] by (simp add: coordChange_def)
  have so': "sound K H node ?M" using so g' by (simp add: sound_def)
  have ag': "agrees K node ?M" by (rule own_agrees [OF so ag ownStep.dispatch [OF op]])
  have "agrees K node (?M\<lparr>mh_coord := db\<rparr>)"
    by (rule finish_agrees [OF so' ag', of E' node me "Some (expiredResult i)" now' x])
      (use fin n in \<open>auto simp: expiredResult_def truthful_def\<close>)
  then show ?thesis by simp
qed

section \<open>Steps of the node\<close>

lemma quiet_agrees:
  assumes "agrees K node M" and "sameEntries K node (mh_node M) nd"
  shows "agrees K node (M\<lparr>mh_node := nd\<rparr>)"
proof -
  have s: "map_option ne_command (entryAt K node nd i) = map_option ne_command (entryAt K node (mh_node M) i)" for i
    using assms(2) by (simp add: sameEntries_def)
  have none: "entryAt K node nd i = None \<longleftrightarrow> entryAt K node (mh_node M) i = None" for i
    using s [of i] by (metis option.map_disc_iff)
  have old: "\<exists>e'. entryAt K node (mh_node M) i = Some e' \<and> ne_command e' = ne_command e" if "entryAt K node nd i = Some e" for i e
    using s [of i] that by (cases "entryAt K node (mh_node M) i") auto
  have "entriesAgree K node (M\<lparr>mh_node := nd\<rparr>)"
    using assms(1) old unfolding agrees_def entriesAgree_def by (simp, metis)
  then show ?thesis
    using assms(1) none unfolding agrees_def wireAgrees_def reportsAgree_def recordsAgree_def by simp
qed

text \<open>A result in the node's journal is true of what was sent for the command.\<close>

lemma entry_truthful:
  assumes so: "sound K H node M" and e: "entryAt K node (mh_node M) i = Some e" and v: "ne_result e = Some v"
    and d: "ne_command e = d\<lparr>c_ttl := x\<rparr>"
  shows "cr_id v = i" "truthful (mh_sent M i) d (cr_status v) (cr_detail v)"
proof -
  show "cr_id v = i"
    using ValidateResultForCommand_id [OF entryAt_result [OF e v]] entryAt_command(2) [OF e] by simp
  have g: "nodeStoreGood K H node (mh_node M)" and ev: "evidence K node (mh_node M) i (mh_sent M i)"
    using so by (simp_all add: sound_def known_def)
  show "truthful (mh_sent M i) d (cr_status v) (cr_detail v)"
    using evidence_result(2,3) [OF g ev e v] d by (auto simp: truthful_def ruledOut_def claimsEffect_def)
qed

lemma resent_agrees:
  assumes so: "sound K H node M" and ag: "agrees K node M"
    and vs: "\<And>v. v \<in> set vs \<Longrightarrow> \<exists>i e. entryAt K node (mh_node M) i = Some e \<and> ne_result e = Some v"
  shows "agrees K node (M\<lparr>mh_reports := mh_reports M @ vs\<rparr>)"
proof -
  have new: "(\<exists>d. handed K node (mh_coord M) (cr_id v) d \<and> truthful (mh_sent M (cr_id v)) d (cr_status v) (cr_detail v)) \<and>
      entryAt K node (mh_node M) (cr_id v) \<noteq> None" if v: "v \<in> set vs" for v
  proof -
    obtain i e where e: "entryAt K node (mh_node M) i = Some e" "ne_result e = Some v" using vs [OF v] by blast
    obtain d where d: "handed K node (mh_coord M) i d" "ne_command e = d\<lparr>c_ttl := c_ttl (ne_command e)\<rparr>"
      using ag e(1) unfolding agrees_def entriesAgree_def by blast
    show ?thesis using entry_truthful [OF so e d(2)] d(1) e(1) by auto
  qed
  have away: "cr_id v \<noteq> c_id c" if "v \<in> set vs" "c \<in> set (mh_wire M)" for v c
    using new [OF that(1)] ag that(2) unfolding agrees_def wireAgrees_def by metis
  then have "wireAgrees K node (M\<lparr>mh_reports := mh_reports M @ vs\<rparr>)"
    using ag unfolding agrees_def wireAgrees_def by (simp, blast)
  moreover have "reportsAgree K node (M\<lparr>mh_reports := mh_reports M @ vs\<rparr>)"
    using ag new unfolding agrees_def reportsAgree_def by auto
  ultimately show ?thesis using ag unfolding agrees_def entriesAgree_def recordsAgree_def by simp
qed

lemma handled_agrees:
  fixes M :: "'b mesh"
  assumes so: "sound K H node M" and ag: "agrees K node M" and w: "mh_wire M = early @ c # late"
    and s: "an_db s = mh_node M" "ho_node Q = node" and run: "handle K H Q W (Some c) received s = (r, t)"
    and new: "changes t = changes s @ new"
    and M': "M' = M\<lparr>mh_node := an_db t, mh_sent := (mh_sent M)(c_id c := mh_sent M (c_id c) @ new), mh_wire := early @ late\<rparr>"
    and vs: "vs = (case r of Inl e \<Rightarrow> [] | Inr v \<Rightarrow> if alive (ww_native W) t then [v] else [])"
  shows "sound K H node M'" "agrees K node (M'\<lparr>mh_reports := mh_reports M @ vs\<rparr>)"
proof -
  let ?i = "c_id c" and ?db = "mh_coord M"
  have c: "c \<in> set (mh_wire M)" by (simp add: w)
  have wi: "wireAgrees K node M" using ag by (simp add: agrees_def)
  obtain d where d: "handed K node ?db ?i d" "c = d\<lparr>c_ttl := c_ttl c\<rparr>"
    and here: "opt_ex (\<lambda>r. rec_status r = RUNNING \<or> rec_status r = INDETERMINATE) (recordAt K ?db ?i)"
      "entryAt K node (mh_node M) ?i = None" "\<And>v. v \<in> set (mh_reports M) \<Longrightarrow> cr_id v \<noteq> ?i"
    using wi c unfolding wireAgrees_def by blast
  have idle: "mh_sent M ?i = []"
    using so here(2) by (auto simp: sound_def known_def evidence_def elim!: allE [of _ ?i])
  have "?i \<notin> c_id ` set early" "?i \<notin> c_id ` set late" using wi by (simp_all add: wireAgrees_def w)
  then have apart: "c_id x \<noteq> ?i" if "x \<in> set early \<union> set late" for x
    using that by (metis UnE image_eqI)
  obtain m where m: "changes t = changes s @ m" "nodeStoreGood K H node (an_db t)"
      "known K node (an_db t) ((mh_sent M)(?i := mh_sent M ?i @ m))" "reports K node (ww_native W) c s r t"
    using handle_known [of K H Q s "mh_sent M" W c received r t] so s run by (metis sound_def)
  have mn: "m = new" using m(1) new by simp
  show so': "sound K H node M'" using so m(2,3) mn by (simp add: sound_def M')
  have frame: "entryAt K node (an_db t) j = entryAt K node (mh_node M) j" if "j \<noteq> ?i" for j
    using m(4) that s by (simp add: reports_def)
  have mine: "ne_command e = c" if "entryAt K node (an_db t) ?i = Some e" for e
    using m(4) that here(2) s by (simp add: reports_def)
  have answers: "cr_id v = ?i \<and> truthful (mh_sent M' ?i) d (cr_status v) (cr_detail v)" if v: "v \<in> set vs" for v
  proof -
    have r: "r = Inr v" "alive (ww_native W) t" using v by (auto simp: vs split: sum.splits if_splits)
    consider e where "entryAt K node (an_db t) ?i = Some e" "ne_result e = Some v"
      | "v = refusal c ''journal_full''" "changes t = changes s"
      using m(4) r by (cases "entryAt K node (an_db t) ?i") (auto simp: reports_def)
    then show ?thesis
    proof cases
      case (1 e)
      have "entryAt K node (mh_node M') ?i = Some e" "ne_command e = d\<lparr>c_ttl := c_ttl c\<rparr>"
        using 1(1) mine [OF 1(1)] d(2) by (simp_all add: M')
      then show ?thesis using entry_truthful [OF so' _ 1(2)] by blast
    next
      case 2
      then have "new = []" using new by simp
      then show ?thesis using 2(1) idle by (simp add: M' truthful_def refusal_def rejectedResult_def)
    qed
  qed
  have "wireAgrees K node (M'\<lparr>mh_reports := mh_reports M @ vs\<rparr>)"
  proof -
    have "\<forall>v \<in> set vs. cr_id v \<noteq> c_id x" "entryAt K node (an_db t) (c_id x) = entryAt K node (mh_node M) (c_id x)"
      if "x \<in> set early \<union> set late" for x
      using answers frame apart [OF that] by auto
    then show ?thesis using wi unfolding wireAgrees_def by (auto simp: M' w)
  qed
  moreover have "entriesAgree K node (M'\<lparr>mh_reports := mh_reports M @ vs\<rparr>)"
    unfolding entriesAgree_def
  proof (intro allI impI)
    fix i e
    assume e: "entryAt K node (mh_node (M'\<lparr>mh_reports := mh_reports M @ vs\<rparr>)) i = Some e"
    show "\<exists>d. handed K node (mh_coord (M'\<lparr>mh_reports := mh_reports M @ vs\<rparr>)) i d \<and>
        ne_command e = d\<lparr>c_ttl := c_ttl (ne_command e)\<rparr>"
    proof (cases "i = ?i")
      case True
      then show ?thesis using d mine e by (auto simp: M')
    next
      case False
      then show ?thesis using ag frame e unfolding agrees_def entriesAgree_def by (simp add: M')
    qed
  qed
  moreover have "reportsAgree K node (M'\<lparr>mh_reports := mh_reports M @ vs\<rparr>)"
  proof -
    have "\<exists>d. handed K node ?db (cr_id v) d \<and> truthful (mh_sent M' (cr_id v)) d (cr_status v) (cr_detail v)"
      if "v \<in> set (mh_reports M)" for v
      using ag here(3) [OF that] that unfolding agrees_def reportsAgree_def by (simp add: M')
    moreover have "\<exists>d. handed K node ?db (cr_id v) d \<and> truthful (mh_sent M' (cr_id v)) d (cr_status v) (cr_detail v)"
      if "v \<in> set vs" for v
      using answers [OF that] d(1) by auto
    ultimately have "\<forall>v \<in> set (mh_reports M @ vs). \<exists>d. handed K node ?db (cr_id v) d \<and>
        truthful (mh_sent M' (cr_id v)) d (cr_status v) (cr_detail v)"
      by (metis Un_iff set_append)
    then show ?thesis by (simp add: reportsAgree_def M')
  qed
  moreover have "recordsAgree K node (M'\<lparr>mh_reports := mh_reports M @ vs\<rparr>)"
    unfolding recordsAgree_def
  proof (intro allI impI)
    fix i a x
    assume a: "recordAt K (mh_coord (M'\<lparr>mh_reports := mh_reports M @ vs\<rparr>)) i = Some a" "rec_command a = Some x"
      "c_target x = node" "handedOut a"
    show "truthful (mh_sent (M'\<lparr>mh_reports := mh_reports M @ vs\<rparr>) i) x (rec_status a) (rec_detail a)"
    proof (cases "i = ?i")
      case True
      then show ?thesis using here(1) a(1) by (auto simp: M')
    next
      case False
      then show ?thesis using ag a unfolding agrees_def recordsAgree_def by (simp add: M')
    qed
  qed
  ultimately show "agrees K node (M'\<lparr>mh_reports := mh_reports M @ vs\<rparr>)" by (simp add: agrees_def)
qed

section \<open>Every run\<close>

lemma pending_held:
  assumes good: "nodeStoreGood K H node db" and op: "PendingResults E K node db = (Inr vs, db')"
  shows "db' = db" "v \<in> set vs \<Longrightarrow> \<exists>i e. entryAt K node db i = Some e \<and> ne_result e = Some v"
proof -
  have g: "nodeGood K H node db" using good by (simp add: nodeStoreGood_def)
  obtain es where es: "readNodeEntries K node db (\<lambda>i row. nw_delivered row = 0 \<and> nw_status row \<noteq> RUNNING) = Inr es"
      and vs: "vs = map (\<lambda>e. the (ne_result e)) es" and same: "db' = db"
    using operation_Inr(2) [OF op [unfolded PendingResults_def]] by (auto simp: bindR_eq_Inr)
  show "db' = db" by (rule same)
  assume "v \<in> set vs"
  then obtain e where e: "e \<in> set es" "v = the (ne_result e)" by (auto simp: vs)
  then obtain i row where row: "tget (nd_commands db) i = Some row" "entryAt K node db i = Some e"
      "nw_delivered row = 0" "nw_status row \<noteq> RUNNING"
    using readNodeEntries_mem [OF g es] by blast
  obtain row' where "tget (nd_commands db) i = Some row'" "decodeEntry K node (i, row') = Inr e"
    using row(2) by (rule entryAt_row)
  then have "ne_result e \<noteq> None" using undelivered_row row(1,3,4) by fastforce
  then show "\<exists>i e. entryAt K node db i = Some e \<and> ne_result e = Some v" using e(2) row(2) by auto
qed

lemma meshRun_invariant:
  assumes "meshRun K H node me M" and "codecs_ok K"
  shows "sound K H node M \<and> (ownName node me (mh_coord M) \<longrightarrow> agrees K node M)"
  using assms(1)
proof induction
  case fresh
  have "sound K H node (freshMesh :: 'a mesh)"
    using coordinatorGood_empty [OF assms(2)] nodeStoreGood_empty [OF assms(2)] fresh_known
    by (simp add: sound_def freshMesh_def)
  moreover have "agrees K node freshMesh"
    by (simp add: agrees_def wireAgrees_def entriesAgree_def reportsAgree_def recordsAgree_def freshMesh_def entryAt_def
        emptyNode_def tget_def recordAt_def emptyCoordinator_def)
  ultimately show ?case by simp
next
  case (own M db)
  have g: "coordinatorGood K (mh_coord M)" using own.IH by (simp add: sound_def)
  note ch = ownStep_change [OF own.hyps(2) g]
  have "agrees K node (M\<lparr>mh_coord := db\<rparr>)" if n: "ownName node me db"
    using own_agrees [OF _ _ own.hyps(2)] own.IH ownName_back [OF ch n] by blast
  then show ?case using own.IH ch by (simp add: sound_def coordChange_def)
next
  case (foreign M sid E n v now x db)
  have g: "coordinatorGood K (mh_coord M)" using foreign.IH by (simp add: sound_def)
  note ch = coordStep_change [OF coord_finish [OF foreign.hyps(3)] g]
  have "agrees K node (M\<lparr>mh_coord := db\<rparr>)" if n: "ownName node me db"
    by (rule finish_agrees [OF _ _ foreign.hyps(3)])
      (use foreign.IH ownName_back [OF ch n] foreign.hyps(2) in \<open>auto simp: ownName_def\<close>)
  then show ?case using foreign.IH ch by (simp add: sound_def coordChange_def)
next
  case (finish M v E n now x db)
  have g: "coordinatorGood K (mh_coord M)" using finish.IH by (simp add: sound_def)
  note ch = coordStep_change [OF coord_finish [OF finish.hyps(3)] g]
  have "agrees K node (M\<lparr>mh_coord := db\<rparr>)" if n: "ownName node me db"
  proof -
    have ag: "agrees K node M" using finish.IH ownName_back [OF ch n] by blast
    show ?thesis
      by (rule finish_agrees [OF conjunct1 [OF finish.IH] ag finish.hyps(3)]) (use report_agrees [OF ag finish.hyps(2)] in simp)
  qed
  then show ?case using finish.IH ch by (simp add: sound_def coordChange_def)
next
  case (send M E i now r db c left)
  have g: "coordinatorGood K (mh_coord M)" using send.IH by (simp add: sound_def)
  note ch = ownStep_change [OF ownStep.dispatch [OF send.hyps(2)] g]
  have "agrees K node (M\<lparr>mh_coord := db, mh_wire := mh_wire M @ [c\<lparr>c_ttl := left\<rparr>]\<rparr>)" if n: "ownName node me db"
    using send_agrees [OF _ _ send.hyps(2,3)] send.IH ownName_back [OF ch n] by blast
  then show ?case using send.IH ch by (simp add: sound_def coordChange_def)
next
  case (lapse M E i now r db' E' now' x db)
  have g: "coordinatorGood K (mh_coord M)" using lapse.IH by (simp add: sound_def)
  note ch = ownStep_change [OF ownStep.dispatch [OF lapse.hyps(2)] g]
  have g': "coordinatorGood K db'" using ch by (simp add: coordChange_def)
  note ch' = coordStep_change [OF coord_finish [OF lapse.hyps(3)] g']
  have "agrees K node (M\<lparr>mh_coord := db\<rparr>)" if n: "ownName node me db"
    using lapse_agrees [OF _ _ lapse.hyps(2,3)] lapse.IH ownName_back [OF ch ownName_back [OF ch' n]] by blast
  then show ?case using lapse.IH ch' by (simp add: sound_def coordChange_def)
next
  case (handled M early c late s Q W received r t new)
  note f = handled_agrees [OF _ _ handled.hyps(2-6) refl refl]
  have sn: "sound K H node (M\<lparr>mh_node := an_db t, mh_sent := (mh_sent M)(c_id c := mh_sent M (c_id c) @ new), mh_wire := early @ late\<rparr>)"
  proof -
    obtain m where "changes t = changes s @ m" "nodeStoreGood K H node (an_db t)"
        "known K node (an_db t) ((mh_sent M)(c_id c := mh_sent M (c_id c) @ m))"
      using handle_known [of K H Q s "mh_sent M" W c received r t] handled.IH handled.hyps(3-5) by (metis sound_def)
    then show ?thesis using handled.IH handled.hyps(6) by (simp add: sound_def)
  qed
  show ?case using sn f(2) handled.IH by (simp add: sound_def)
next
  case (resent M E vs nd)
  have g: "nodeStoreGood K H node (mh_node M)" using resent.IH by (simp add: sound_def)
  note p = pending_held [OF g resent.hyps(2)]
  have "agrees K node (M\<lparr>mh_reports := mh_reports M @ vs\<rparr>)" if "ownName node me (mh_coord M)"
    by (rule resent_agrees [OF conjunct1 [OF resent.IH]]) (use resent.IH that p(2) in blast)+
  then show ?case using resent.IH p(1) by (simp add: sound_def)
next
  case (acknowledged M s Q W a r t)
  then have "nodeStoreGood K H (ho_node Q) (an_db s)" by (simp add: sound_def)
  from acknowledge_facts [OF this acknowledged.hyps(4)]
  have "nodeStoreGood K H node (an_db t)" "mild K node (mh_node M) (an_db t)" "sameEntries K node (mh_node M) (an_db t)"
    using acknowledged.hyps(2,3) by simp_all
  then show ?case using acknowledged.IH quiet_agrees known_mild by (auto simp: sound_def)
next
  case (recovered M E x nd)
  have g: "nodeStoreGood K H node (mh_node M)" using recovered.IH by (simp add: sound_def)
  have "nodeStoreGood K H node nd"
    using nodeStep_change [OF nodeStep.recover [OF recovered.hyps(2)] g] by (simp add: storeChange_def)
  then show ?case
    using recovered.IH quiet_agrees [OF _ Recover_entries [OF g recovered.hyps(2)]] known_mild [OF recover_mild [OF g recovered.hyps(2)]]
    by (simp add: sound_def)
next
  case (configured M E cfg x nd)
  have g: "nodeStoreGood K H node (mh_node M)" using configured.IH by (simp add: sound_def)
  have "nodeStoreGood K H node nd"
    using nodeStep_change [OF nodeStep.config [OF configured.hyps(2)] g] by (simp add: storeChange_def)
  then show ?case
    using configured.IH quiet_agrees config_mild [OF g configured.hyps(2)] known_mild by (auto simp: sound_def)
next
  case (applied M E a x nd)
  have g: "nodeStoreGood K H node (mh_node M)" using applied.IH by (simp add: sound_def)
  have "nodeStoreGood K H node nd"
    using nodeStep_change [OF nodeStep.ack [OF applied.hyps(2)] g] by (simp add: storeChange_def)
  then show ?case
    using applied.IH quiet_agrees ack_mild [OF g applied.hyps(2)] known_mild by (auto simp: sound_def)
qed

section \<open>What follows for one command\<close>

lemma entry_plan:
  assumes "sound K H node M" and "agrees K node M" and "recordAt K (mh_coord M) i = Some r" and "rec_command r = Some c"
  shows "prefix (mh_sent M i) (planOf c)"
proof (cases "entryAt K node (mh_node M) i")
  case None
  then have "mh_sent M i = []" using assms(1) by (auto simp: sound_def known_def evidence_def elim!: allE [of _ i])
  then show ?thesis by simp
next
  case (Some e)
  obtain d where d: "handed K node (mh_coord M) i d" "ne_command e = d\<lparr>c_ttl := c_ttl (ne_command e)\<rparr>"
    using assms(2) Some unfolding agrees_def entriesAgree_def by blast
  have "d = c" using d(1) assms(3,4) by (auto elim!: handedE)
  moreover have "prefix (mh_sent M i) (planOf (ne_command e))"
    using evidence_plan [OF _ Some] assms(1) by (simp add: sound_def known_def)
  ultimately show ?thesis using d(2) by (metis planOf_ttl)
qed

lemma never_out:
  assumes "sound K H node M" and "agrees K node M" and "recordAt K (mh_coord M) i = Some r" and "\<not> handedOut r"
  shows "mh_sent M i = []"
  by (rule never_handed(2) [OF assms(1,2)]) (use assms(3,4) in \<open>auto elim!: handedE\<close>)

end
