(* ===== verification/SampleMesh.thy ===== *)
theory SampleMesh
  imports Mesh SampleLife
begin

text \<open>
  A concrete run of the coordinator and its node: an input to an agent is submitted, dispatched, carried
  out by the native program and concluded; a start is dispatched and still on its way.
\<close>

section \<open>The command at the coordinator\<close>

lemma control_record_valid:
  "validateCommandRecord samplePb (admitted controlCommand) = Inr ()" "validateCommandRecord samplePb (dispatched controlCommand) = Inr ()"
  using control_known messages_known(3) validateCommand_sample control_journalled
  by (simp_all add: eval_record control_fields run_records IsTerminalCommand_def record_unknown_def audit_unknown_def
      journalled_def del: samplePb_simps)

lemma runnable_control [simp]: "runnable controlCommand"
  using control_journalled by (simp add: runnable_def control_fields control_known control_record_valid journalled_def)

definition concluded :: command_record where
  "concluded = transitioned samplePb ((dispatched controlCommand)\<lparr>rec_control := Some controlResult\<rparr>) SUCCEEDED
     ''agent_input_sent'' (at_ns 997)"

lemma controlDone_fields:
  "cr_id controlDone = sampleId" "cr_status controlDone = SUCCEEDED" "cr_detail controlDone = ''agent_input_sent''"
  "cr_control controlDone = Some controlResult" "cr_unk controlDone = []" "cr_payload controlDone = None"
  "cr_workspace controlDone = None" "cr_worktree controlDone = None" "cr_session controlDone = None" "cr_lifecycle controlDone = None"
  by (simp_all add: controlDone_def controlSuccess_def refusal_def rejectedResult_def control_fields AgentControlSuccessDetail_def
      controlResult_def controlTarget_def)

lemma concluded_result: "recordResult concluded = controlDone"
  by (rule command_result.equality)
    (simp_all add: recordResult_def concluded_def run_records controlDone_fields control_fields(1))

lemma concluded_fields:
  "rec_command concluded = Some controlCommand" "rec_status concluded = SUCCEEDED" "rec_detail concluded = ''agent_input_sent''"
  by (simp_all add: concluded_def run_records)

lemma concluded_known: "\<not> record_unknown concluded"
  using control_known messages_known(3)
  by (simp add: record_unknown_def concluded_def run_records audit_unknown_def acr_unknown_def controlResult_def at_unknown_def
      controlTarget_def del: samplePb_simps)

lemma concluded_valid: "validateCommandRecord samplePb concluded = Inr ()"
proof -
  have d: "recordData samplePb concluded controlCommand = Inr ()"
    using controlDone_valid(1) concluded_result
    by (simp add: recordData_def control_fields(4) control_not_start) (simp add: concluded_def run_records)
  have v: "validateCommand samplePb (Some controlCommand) ''node-1'' = Inr ()"
    using control_journalled by (simp add: journalled_def)
  show ?thesis
    using concluded_known d v unfolding concluded_def
    by (simp add: eval_record control_fields run_records IsTerminalCommand_def controlSuccesses_def del: samplePb_simps recordData_def)
qed

lemma control_finish:
  "FinishCommand calm sampleCodecs ''node-1'' ''n1'' (Some controlDone) (at_ns 997)
     (SampleRun.storeOf controlCommand (dispatched controlCommand)) = (Inr concluded, SampleRun.storeOf controlCommand concluded)"
proof -
  let ?c = controlCommand and ?w = "(dispatched controlCommand)\<lparr>rec_control := Some controlResult\<rparr>"
  note e = either_fields [of ?c, simplified]
  have p: "withResult (dispatched ?c) controlDone = ?w"
    by (simp add: withResult_def controlDone_fields)
  have rd: "readCommand sampleCodecs (SampleRun.storeOf ?c (dispatched ?c)) (byID sampleId) = Inr (dispatched ?c)"
    using storeOf_read [OF e(8) run_known(2) run_fields(4), of "byID sampleId"]
    by (simp add: readCommand_def byID_def)
  have tr: "transitionCommand sampleCodecs ?w SUCCEEDED ''agent_input_sent'' (at_ns 997)
      (SampleRun.storeOf ?c (dispatched ?c)) = Inr (concluded, SampleRun.storeOf ?c concluded)"
    unfolding concluded_def
    by (rule storeOf_transition)
      (use e concluded_valid concluded_known in \<open>simp_all add: run_fields concluded_def [symmetric] maxCommandAudit_def storedStatus_def
        validCommandTransition_def validCommandOutcome_def IsTerminalCommand_def control_not_start effect_types controlSuccesses_def control_fields\<close>)
  have ne: "recordResult (dispatched ?c) \<noteq> controlDone"
  proof
    assume "recordResult (dispatched ?c) = controlDone"
    then have "cr_status (recordResult (dispatched ?c)) = SUCCEEDED" using controlDone_fields(2) by simp
    then show False by (simp add: recordResult_def run_fields)
  qed
  have b: "\<not> blank ''node-1''" "\<not> blank ''n1''" by (simp_all add: eval_text)
  have bd: "stableOf (cd_bindings (SampleRun.storeOf ?c (dispatched ?c))) ''node-1'' = Some ''n1''"
    by (simp add: SampleRun.storeOf_def)
  show ?thesis using rd tr ne b bd controlDone_valid p e
    by (simp add: FinishCommand_def calm_operation finishBody_def finishRecord_def conflictOf_def run_fields control_fields
        controlDone_fields control_not_start del: samplePb_simps)
qed

section \<open>The run\<close>

abbreviation sampleRun :: "blob mesh \<Rightarrow> bool" where
  "sampleRun \<equiv> meshRun sampleCodecs sampleDigest ''node-1'' ''n1''"

definition meshOf :: "blob coordinator \<Rightarrow> blob node_db \<Rightarrow> string list \<Rightarrow> command list \<Rightarrow> command_result list \<Rightarrow> blob mesh" where
  "meshOf db nd sent wire vs = \<lparr>mh_coord = db, mh_node = nd, mh_sent = (\<lambda>i. [])(sampleId := sent), mh_wire = wire, mh_reports = vs\<rparr>"

lemma meshOf_simps [simp]:
  "mh_coord (meshOf db nd sent wire vs) = db" "mh_node (meshOf db nd sent wire vs) = nd" "mh_sent (meshOf db nd sent wire vs) sampleId = sent"
  "mh_wire (meshOf db nd sent wire vs) = wire" "mh_reports (meshOf db nd sent wire vs) = vs"
  "(meshOf db nd sent wire vs)\<lparr>mh_coord := db'\<rparr> = meshOf db' nd sent wire vs"
  by (simp_all add: meshOf_def)

lemma oneNode_import:
  "ImportBindings calm [\<lparr>bd_stable = ''n1'', bd_instance = ''node-1''\<rparr>] emptyCoordinator = (Inr (), oneNode)"
  by (simp add: oneNode_def ImportBindings_def calm_operation bindRow_def emptyCoordinator_def tselect_def tget_def eval_text)

text \<open>Submitted and on its way.\<close>

lemma sent_run:
  assumes "runnable c" and "c_ttl c = Some (seconds 10)"
  shows "sampleRun (meshOf (SampleRun.storeOf c (dispatched c)) emptyNode [] [c] [])"
proof -
  have "freshMesh = meshOf emptyCoordinator emptyNode [] [] []" by (simp add: freshMesh_def meshOf_def fun_upd_def)
  then have "sampleRun (meshOf emptyCoordinator emptyNode [] [] [])" using meshRun.fresh by metis
  from meshRun.own [OF this, of oneNode] ownStep.import_bindings [OF oneNode_import]
  have a: "sampleRun (meshOf oneNode emptyNode [] [] [])" by simp
  have "sampleRun (meshOf (SampleRun.storeOf c (admitted c)) emptyNode [] [] [])"
    using meshRun.own [OF a] ownStep.create [OF sample_admit [OF assms(1)]] by simp
  from meshRun.send [OF this, of calm sampleId "at_ns 996" "dispatched c" "SampleRun.storeOf c (dispatched c)" c "c_ttl c"]
  show ?thesis using sample_dispatch [OF assms(1)] by (simp add: run_fields) (simp add: meshOf_def)
qed

text \<open>Carried out by the node, reported and concluded.\<close>

lemma handled_run: "sampleRun (meshOf (SampleRun.storeOf controlCommand (dispatched controlCommand))
    (closedNode controlCommand controlDone) [''agent.send_keys''] [] [controlDone])"
proof -
  obtain t where t: "handle sampleCodecs sampleDigest sampleOptions (sampleWorld 995) (Some controlCommand) (at_ns 995) (sampleAgent emptyNode) =
     (Inr controlDone, t)" "an_db t = closedNode controlCommand controlDone" "changes t = [''agent.send_keys'']"
     and al: "alive (ww_native (sampleWorld 995)) t"
    using handle_done by blast
  have w: "mh_wire (meshOf (SampleRun.storeOf controlCommand (dispatched controlCommand)) emptyNode [] [controlCommand] []) = [] @ controlCommand # []"
    "an_db (sampleAgent emptyNode) = mh_node (meshOf (SampleRun.storeOf controlCommand (dispatched controlCommand)) emptyNode [] [controlCommand] [])"
    "changes t = changes (sampleAgent emptyNode) @ [''agent.send_keys'']"
    using t(3) by (simp_all add: sampleAgent_def changes_def)
  from meshRun.handled [OF sent_run [OF runnable_control control_fields(6)] w(1,2) _ t(1) w(3)]
  show ?thesis using t(2) al by (simp add: control_fields(1)) (simp add: meshOf_def)
qed

lemma concluded_run: "sampleRun (meshOf (SampleRun.storeOf controlCommand concluded)
    (closedNode controlCommand controlDone) [''agent.send_keys''] [] [controlDone])"
  using meshRun.finish [OF handled_run, of controlDone calm "''node-1''" "at_ns 997"] control_finish by simp

lemma concluded_at:
  "recordAt sampleCodecs (SampleRun.storeOf controlCommand concluded) sampleId = Some concluded"
  using storeOf_at [OF concluded_valid concluded_known concluded_fields(1)] by simp

end
