(* ===== verification/MeshContract.thy ===== *)
theory MeshContract
  imports SampleMesh
begin

text \<open>
  What an operator may conclude from the coordinator about a node, over every run of the two: the
  composition of the journals, the protocol between them and the effects on the native program.
\<close>

text \<open>
  C8. What the coordinator says of a command is the truth at the node.  In every run of the coordinator and
  a node bound to its own identity, the requests sent to the native program for a command addressed to the
  node are a prefix of the ones it asks for; none was sent if the coordinator records that it was rejected,
  timed out or found the node unavailable; all were sent, in order and once, if it records a success.
  (A success with the detail \<open>workspace_present\<close> is excepted: the workspace was there already and
  nothing had to be sent.)
\<close>

theorem outcomes_are_true:
  assumes "meshRun K H node me M" and "codecs_ok K" and "stableOf (cd_bindings (mh_coord M)) node = Some me"
    and "recordAt K (mh_coord M) i = Some r" and "rec_command r = Some c" and "c_target c = node"
  shows "prefix (mh_sent M i) (planOf c) \<and>
    (if rec_status r \<in> {REJECTED, TIMED_OUT, NODE_UNAVAILABLE, ACCEPTED} then mh_sent M i = []
     else if rec_status r = SUCCEEDED \<and> rec_detail r \<noteq> ''workspace_present'' then mh_sent M i = planOf c else True)"
proof -
  have s: "sound K H node M" "agrees K node M"
    using meshRun_invariant [OF assms(1,2)] assms(3) by (simp_all add: ownName_def)
  note plan = entry_plan [OF s assms(4,5)] and out = never_out [OF s assms(4)]
  show ?thesis
  proof (cases "handedOut r")
    case True
    then have "truthful (mh_sent M i) c (rec_status r) (rec_detail r)"
      using s(2) assms(4-6) unfolding agrees_def recordsAgree_def by blast
    then show ?thesis
      using plan True unavailable_not_out [OF assms(4)] accepted_not_out [OF assms(4)] by (auto simp: truthful_def)
  next
    case False
    then show ?thesis using out [OF False] plan unran_status [OF assms(4)] by auto
  qed
qed

lemma outcomes_are_true_witness: "[''agent.send_keys''] = planOf controlCommand"
  using outcomes_are_true [OF concluded_run sampleCodecs_ok, of sampleId concluded controlCommand] concluded_at
  by (simp add: concluded_fields control_fields(2) SampleRun.storeOf_def)

text \<open>
  C9. A command reaches its node at most once.  While it is on its way, the node's journal does not know it and
  nothing was sent for it; two commands on their way are different, and none of them is concluded.
\<close>

theorem handed_over_once:
  assumes "meshRun K H node me M" and "codecs_ok K" and "stableOf (cd_bindings (mh_coord M)) node = Some me"
    and "mh_wire M = early @ c # late"
  shows "entryAt K node (mh_node M) (c_id c) = None \<and> mh_sent M (c_id c) = [] \<and> c_id c \<notin> c_id ` set (early @ late) \<and>
    opt_ex (\<lambda>r. rec_status r = RUNNING \<or> rec_status r = INDETERMINATE) (recordAt K (mh_coord M) (c_id c))"
proof -
  have s: "sound K H node M" "agrees K node M"
    using meshRun_invariant [OF assms(1,2)] assms(3) by (simp_all add: ownName_def)
  have w: "wireAgrees K node M" "c \<in> set (mh_wire M)" using s(2) assms(4) by (simp_all add: agrees_def)
  have e: "entryAt K node (mh_node M) (c_id c) = None" using w unfolding wireAgrees_def by blast
  then have "mh_sent M (c_id c) = []" using s(1) by (auto simp: sound_def known_def evidence_def elim!: allE [of _ "c_id c"])
  moreover have "c_id c \<notin> c_id ` set (early @ late)" using w(1) assms(4) by (auto simp: wireAgrees_def)
  moreover have "opt_ex (\<lambda>r. rec_status r = RUNNING \<or> rec_status r = INDETERMINATE) (recordAt K (mh_coord M) (c_id c))"
    using w unfolding wireAgrees_def by blast
  ultimately show ?thesis using e by simp
qed

lemma handed_over_once_witness:
  "sampleRun (meshOf (SampleRun.storeOf controlCommand (dispatched controlCommand)) emptyNode [] [controlCommand] []) \<and>
   entryAt sampleCodecs ''node-1'' emptyNode sampleId = None"
  using sent_run [OF runnable_control control_fields(6)]
    handed_over_once [OF sent_run [OF runnable_control control_fields(6)] sampleCodecs_ok, of "[]" controlCommand "[]"]
  by (simp add: SampleRun.storeOf_def control_fields(1))

end
