(* ===== verification/Spec2Isabelle.thy ===== *)
theory Spec2Isabelle
  imports CoordinatorContract ServerContract Observer NodeLifeContract MeshContract
begin

text \<open>
  \<^bold>\<open>The program.\<close>  Herdr distributed mesh lets an operator run commands (probes, workspaces, worktrees,
  session and agent control, agent start and stop) on remote nodes.  A coordinator (\<open>internal/server\<close>)
  admits a command, journals it (\<open>internal/state\<close>), hands it to the stream of the target node and
  records the reported result.  The node (\<open>internal/node\<close>) journals the command before it touches the
  native program, journals its evidence and its result, and repeats the result until the coordinator has
  acknowledged it.  Both sides validate every message with \<open>internal/protocol\<close>.  The central promises are
  that a command is handed out and carried out at most once, whatever is lost, restarted or repeated in
  between, that a conclusive outcome is never replaced, and that an outcome claims no more than the
  journalled evidence proves.  All paths below are relative to \<open>src/src/internal\<close>.

  \<^bold>\<open>Conventions.\<close>  A Go function that returns a value or an error is a function into
  \<open>err + 'a\<close>, every early return a branch; sentinel errors that callers compare are named constants.
  A message pointer is an option, a nil pointer is \<open>None\<close>; repeated fields are lists of options
  where the code looks for nil entries.  Machine integers keep their width (\<open>Word\<close>).  Strings are the
  bytes of the Go string, one character per byte.  A store operation takes the present store and returns
  the answer and the next store.

  \<^bold>\<open>What is a parameter.\<close>  The protobuf encoding and the timestamp arithmetic of generated and third-party
  code (\<open>codec\<close> and \<open>pb\<close> in \<open>Messages\<close> and \<open>Wire\<close>): the development relies on
  \<open>codec_ok\<close> (decoding inverts encoding, an encoding is read back only as what was written) and
  \<open>pb_ok\<close> (order and validity of timestamps as documented).  \<open>Samples\<close> gives a concrete instance of both,
  which every witness uses.  The behaviour of SQLite and of the caller's context is the environment
  argument of \<open>transaction\<close> (\<open>Transactions\<close>): each call may be refused at begin, at a statement, at
  commit or by cancellation; that a failed transaction leaves the old data is SQLite's promise and built in.

  \<^bold>\<open>Theories.\<close>
  \<^item> \<open>Prelude\<close>: error monad, list and option facts, word facts, named collections.
  \<^item> \<open>Tables\<close>: keyed tables for SQL tables with a primary key, and the locale of their laws.
  \<^item> \<open>GoStrings\<close>: UTF-8 scanning and the \<open>strings\<close>/\<open>unicode\<close> functions used by the validators.
  \<^item> \<open>Messages\<close>: the message types (\<open>gen/agentflow/v1/control.pb.go\<close>) as records and datatypes.
  \<^item> \<open>Wire\<close>: \<open>unknownFields\<close> (\<open>state/store.go\<close>) for every message and \<open>marshalCommandMessage\<close>.
  \<^item> \<open>ProtoIdentity\<close>, \<open>ProtoAgents\<close>, \<open>ProtoLifecycle\<close>, \<open>ProtoCommands\<close>, \<open>ProtoResults\<close>: the functions
    of \<open>protocol/protocol.go\<close>, \<open>agent.go\<close>, \<open>lifecycle.go\<close>, \<open>commands.go\<close>, \<open>projects.go\<close>,
    \<open>worktree.go\<close>, \<open>workspace.go\<close>, \<open>sessions.go\<close>; \<open>ProtocolContract\<close> states their properties:
    idempotent normalisation, shape and authority of accepted commands, results that answer their command,
    the meaning of a lifecycle status in terms of the recorded stages, the advance of lifecycle receipts as
    a partial order that only adds evidence, keeps pinned identities and never repeats an effect.
  \<^item> \<open>Transactions\<close>: \<open>transaction\<close>, \<open>enter\<close> and the classification of cancellations in
    \<open>state/store.go\<close>.  The rollback of a failed body is part of the definition, as the promise of
    the database; what is shown is that a cancellation marked retryable means nothing was committed.
  \<^item> \<open>Database\<close>: the coordinator's store, its tables with the CHECK constraints of
    \<open>state/schema.go\<close> and \<open>state/lifecycle_schema.go\<close>.
  \<^item> \<open>BindingStore\<close>, \<open>CommandStore\<close>, \<open>ProjectStore\<close>: the operations of \<open>state/store.go\<close>,
    \<open>state/commands.go\<close>, \<open>state/lifecycle.go\<close>, \<open>state/lifecycle_reconcile.go\<close>,
    \<open>state/named_agent.go\<close> and \<open>state/projects.go\<close>; \<open>CommandInvariant\<close> shows that each keeps the
    stored records valid.
  \<^item> \<open>Fences\<close>: what the fences of both journals keep apart, stated without \<open>lifecycleConflict\<close>: the
    terminals an unresolved command may still act on.
  \<^item> \<open>Journal\<close>: the locale of a durable journal (a step relation, an invariant, a view of one item, the
    allowed change of an item); its lemmas lift one-step laws to whole runs.
  \<^item> \<open>Coordinator\<close>: the coordinator's store as a step relation over all its operations, interpretations
    of the locale for commands, bindings and projects; \<open>CoordinatorContract\<close> states what holds over runs.
  \<^item> \<open>NodeJournal\<close>, \<open>NodeProjects\<close>: the operations of \<open>state/node_journal.go\<close>,
    \<open>state/lifecycle.go\<close>, \<open>state/lifecycle_scope.go\<close>, \<open>state/lifecycle_validation.go\<close> and
    \<open>state/node_projects.go\<close>; \<open>NodeInvariant\<close> and \<open>Node\<close> give invariant, step relation and
    interpretations, \<open>NodeContract\<close> the properties of runs, crashes and reopenings included.
  \<^item> \<open>Handlers\<close>: the monad of a handler that runs under one mutex, and the locale \<open>lawful\<close> of what every
    handler keeps.
  \<^item> \<open>Observations\<close>: checks and freshness of what a node reports (\<open>server/fleet.go\<close>, \<open>server/sessions.go\<close>,
    \<open>server/shared_name.go\<close>); \<open>ProjectPolicy\<close>: resolution of a loaded policy (\<open>projects/policy.go\<close>).
  \<^item> \<open>Fleet\<close>: \<open>fleetStore\<close> and \<open>fleetEntry\<close>, their persistence, the life of a stream, reports, listing and
    restart (\<open>server/fleet.go\<close>, \<open>server/sessions.go\<close>, \<open>server/workspace.go\<close>).
  \<^item> \<open>Service\<close>: authorisation, admission, dispatch, results, projects and named agents
    (\<open>server/commands.go\<close>, \<open>server/projects.go\<close>, \<open>server/workspace.go\<close>, \<open>server/named_agent.go\<close>);
    \<open>Streams\<close>: \<open>Connect\<close>, agent queries, the start of the coordinator and the relation \<open>serverStep\<close>
    over all of it (\<open>server/server.go\<close>, \<open>server/agents.go\<close>, \<open>server/persistence.go\<close>).
  \<^item> \<open>Steady\<close>, \<open>QuietHandlers\<close>, \<open>FleetInvariant\<close>, \<open>FleetSteps\<close>, \<open>FleetRuns\<close>, \<open>Restart\<close>: what each store call
    leaves alone, that the fleet in memory mirrors the one on disk, that active commands have a live
    node, and that both survive every step and a restart; \<open>ServerContract\<close> states it.
  \<^item> \<open>NativeJson\<close>: everything the adapter reads from the native program (\<open>herdr/protocol.go\<close>,
    \<open>metadata.go\<close>, \<open>display.go\<close>, and the parsers of \<open>agent.go\<close> and \<open>workspace.go\<close>) over the JSON values
    that \<open>checkJSON\<close> lets through; \<open>Observer\<close>: the rounds of \<open>herdr/observe.go\<close>, and that the coordinator
    accepts every state they report.
  \<^item> \<open>Native\<close>, \<open>NativeLifecycle\<close>, \<open>NativeWorkspace\<close>: the adapter request by request (\<open>herdr/agent.go\<close>,
    \<open>lifecycle.go\<close>, \<open>lifecycle_fencing.go\<close>, \<open>lifecycle_workspace.go\<close>, \<open>workspace.go\<close>, \<open>worktree.go\<close>,
    \<open>worktree_git.go\<close>).  A \<open>world\<close> gives the answers of the socket, the context, the file system, git and
    the directory tree at each point in time, and the moment the process dies; the ghost field
    \<open>nx_trace\<close> lists the requests that were put on the socket.  \<open>NativeSafety\<close>: which requests each
    operation sends in which order, and what its error or result says of them.
  \<^item> \<open>NodeAgent\<close>, \<open>NodeHandler\<close>: \<open>commandHandler\<close> of \<open>node/commands.go\<close>, \<open>agents.go\<close>, \<open>sessions.go\<close>,
    \<open>lifecycle.go\<close>, \<open>projects.go\<close> and \<open>workspace_peer.go\<close>: the whole of \<open>handle\<close> and \<open>acknowledge\<close> over the
    journal of \<open>NodeJournal\<close> and the adapter of \<open>Native\<close>.  \<open>NodeSafety\<close>, \<open>NodeActs\<close>, \<open>NodeOutcomes\<close>,
    \<open>NodeEvidence\<close>: what each handler sends, what its result claims, and what the journal has recorded
    by then.  \<open>NodeLife\<close>: the lives of a node, an inductive relation over handled commands (completed or cut
    short by a crash), acknowledgements, restarts with recovery and project updates; \<open>NodeLifeContract\<close>
    states that the journal and what was sent agree.
  \<^item> \<open>Decisions\<close>: what the coordinator may write into a record without a report of the node.  \<open>Mesh\<close>: the
    coordinator and one of its nodes together, an inductive relation over every operation of the coordinator's
    store, the commands on their way, the handler of the node, its crashes and recoveries, and the results it
    reports and repeats; other nodes and operators may do at any time whatever the coordinator lets them.  A
    message may be delayed for ever, which is how it is lost, but the transport does not duplicate it; nobody
    but the node reports under the identity \<open>me\<close>.  \<open>MeshContract\<close>: the coordinator's record of a command tells
    what was sent to the native program.
  \<^item> \<open>Samples\<close>, \<open>SampleStore\<close>, \<open>SampleRun\<close>, \<open>SampleNode\<close>, \<open>SampleServer\<close>, \<open>SampleLife\<close>, \<open>SampleMesh\<close>: concrete messages, stores and
    runs for the witnesses.

  \<^bold>\<open>Bounds.\<close>  The limits of the code are kept as they are: 4096 command records at the
  coordinator and 4096 in a node's journal, 16384 project records, 128 projects of a node, 16 audit events of a
  record, 16 KiB encoded messages, eight stages of a receipt, 128 nodes and 2 MiB of native state in the fleet, 16
  queued commands and 8 pending queries of a stream.  The loops of the modelled code run over lists, with
  one exception: \<open>waitLifecycleLaunch\<close> polls until its context ends; it counts down the \<open>launchPolls\<close> turns of
  a quarter of a second that fit into the startup timeout, after which the code finds its context done.

  \<^bold>\<open>Not modelled.\<close>  Opening and migrating database files, backups, locks and permissions; the goroutines and
  timers around a gRPC stream (a handler that holds the fleet's mutex is one step of \<open>serverStep\<close>, and the
  steps interleave freely), fleet subscriptions, paging of project lists, the reader of the legacy binding file;
  the framing and the timers of the native socket, the event subscription of the observer and read-only agent
  queries; the four worker lanes of a node run one command at a time in \<open>nodeLife\<close>, and the several contexts
  that a session check may be given are one; what the session manager, git, the file system and the case
  folding of branch names answer is a parameter; process supervision, tailnet set-up, HTTP front ends and the user
  interface: operating-system and network input and output around the modelled core.
\<close>

end
